(* ===== verification/Kigi_Prelude.thy ===== *)
theory Kigi_Prelude
  imports Main "HOL-Library.Word"
begin

text \<open>
  Shared vocabulary of the development: Rust's machine integers and their saturating and
  wrapping arithmetic, \<open>Result\<close> as a sum type with its \<open>?\<close> operator, the iterator and
  \<open>Vec\<close> idioms that the sources use (\<open>iter_mut().find\<close>, \<open>position\<close>, \<open>retain\<close> with a
  \<open>HashSet\<close>, \<open>HashMap\<close> built by \<open>collect\<close>), and the lemmas on them that the component
  theories rely on.  The clock is an argument everywhere: \<open>clock\<close> gives the readings of
  \<open>Instant::now()\<close> and \<open>Utc::now().to_rfc3339()\<close> that one operation makes.
\<close>

named_theorems kigi_defs "definitions of the operations, unfolded by the component proofs"
named_theorems frame_simps "fields an operation leaves alone"

section \<open>Machine integers\<close>

type_synonym u32 = "32 word"
type_synonym u64 = "64 word"
type_synonym i64 = int

definition i64_min :: i64 where
  "i64_min = - (2 ^ 63)"

definition i64_max :: i64 where
  "i64_max = 2 ^ 63 - 1"

definition in_i64 :: "int \<Rightarrow> bool" where
  "in_i64 x \<longleftrightarrow> i64_min \<le> x \<and> x \<le> i64_max"

text \<open>\<open>i64::saturating_add\<close>.\<close>

definition sat_add_i64 :: "i64 \<Rightarrow> i64 \<Rightarrow> i64" where
  "sat_add_i64 a b = max i64_min (min i64_max (a + b))"

text \<open>The value an \<open>i64\<close> operation leaves in a release build, where overflow wraps.\<close>

definition wrap_i64 :: "int \<Rightarrow> i64" where
  "wrap_i64 x = (x + 2 ^ 63) mod 2 ^ 64 - 2 ^ 63"

text \<open>\<open>saturating_add\<close> and \<open>saturating_sub\<close> on the unsigned types.\<close>

definition sat_add_u :: "'a::len word \<Rightarrow> 'a word \<Rightarrow> 'a word" where
  "sat_add_u a b = (if unat a + unat b < 2 ^ LENGTH('a) then a + b else - 1)"

definition sat_sub_u :: "'a::len word \<Rightarrow> 'a word \<Rightarrow> 'a word" where
  "sat_sub_u a b = (if a < b then 0 else a - b)"

section \<open>The clock\<close>

text \<open>
  \<open>rfc i\<close> is the \<open>i\<close>-th wall-clock string an operation reads, \<open>inst\<close> the monotonic
  clock in nanoseconds.
\<close>

record clock =
  rfc :: "nat \<Rightarrow> string"
  inst :: nat

text \<open>\<open>now.duration_since(probe).as_millis() as u64\<close>: saturating at zero, truncated to 64 bits.\<close>

definition millis_since :: "nat \<Rightarrow> nat \<Rightarrow> u64" where
  "millis_since now probe = of_nat ((now - probe) div 1000000)"

section \<open>Results\<close>

text \<open>\<open>Result<A, E>\<close> is \<open>'e + 'a\<close> with \<open>Inl\<close> the error; \<open>ebind\<close> is the \<open>?\<close> operator.\<close>

definition ebind :: "'e + 'a \<Rightarrow> ('a \<Rightarrow> 'e + 'b) \<Rightarrow> 'e + 'b" where
  "ebind m f = (case m of Inl e \<Rightarrow> Inl e | Inr a \<Rightarrow> f a)"

text \<open>\<open>for x in xs { check(x)?; }\<close>: the first error ends the loop.\<close>

fun check_all :: "('a \<Rightarrow> 'e option) \<Rightarrow> 'a list \<Rightarrow> 'e option" where
  "check_all c [] = None"
| "check_all c (x # xs) = (case c x of Some e \<Rightarrow> Some e | None \<Rightarrow> check_all c xs)"

section \<open>Iterator and collection idioms\<close>

text \<open>\<open>if let Some(x) = xs.iter_mut().find(p) { f(x) }\<close>: the first match only.\<close>

fun update_first :: "('a \<Rightarrow> bool) \<Rightarrow> ('a \<Rightarrow> 'a) \<Rightarrow> 'a list \<Rightarrow> 'a list" where
  "update_first p f [] = []"
| "update_first p f (x # xs) = (if p x then f x # xs else x # update_first p f xs)"

text \<open>\<open>xs.iter().position(p)\<close>.\<close>

fun position :: "('a \<Rightarrow> bool) \<Rightarrow> 'a list \<Rightarrow> nat option" where
  "position p [] = None"
| "position p (x # xs) = (if p x then Some 0 else map_option Suc (position p xs))"

text \<open>
  \<open>xs.retain(|x| seen.insert(key(x)))\<close> with a fresh \<open>HashSet\<close>: the first occurrence of
  each key is kept.
\<close>

fun retain_new :: "('a \<Rightarrow> 'k) \<Rightarrow> 'k list \<Rightarrow> 'a list \<Rightarrow> 'a list" where
  "retain_new key seen [] = []"
| "retain_new key seen (x # xs) =
     (if key x \<in> set seen then retain_new key seen xs
      else x # retain_new key (key x # seen) xs)"

text \<open>
  \<open>xs.iter().enumerate().map(|(i, x)| (x, i)).collect::<HashMap<_, _>>()\<close>: a later index
  overwrites an earlier one.
\<close>

definition index_of :: "'a list \<Rightarrow> 'a \<Rightarrow> nat option" where
  "index_of xs x = map_of (rev (zip xs [0..<length xs])) x"

text \<open>\<open>push\<close> with the oldest entries dropped past a cap.\<close>

definition push_capped :: "nat \<Rightarrow> 'a list \<Rightarrow> 'a \<Rightarrow> 'a list" where
  "push_capped cap xs x = (let ys = xs @ [x] in drop (length ys - cap) ys)"

section \<open>Lemmas\<close>

subsection \<open>Integers\<close>

lemmas i64_bounds = i64_min_def i64_max_def

lemma sat_add_i64_in [simp]: "in_i64 (sat_add_i64 a b)"
  by (simp add: sat_add_i64_def in_i64_def i64_bounds)

lemma sat_add_i64_exact: "in_i64 (a + b) \<Longrightarrow> sat_add_i64 a b = a + b"
  by (simp add: sat_add_i64_def in_i64_def)

lemma sat_add_i64_mono: "0 \<le> b \<Longrightarrow> in_i64 a \<Longrightarrow> a \<le> sat_add_i64 a b"
  by (simp add: sat_add_i64_def in_i64_def)

lemma wrap_i64_exact: "in_i64 x \<Longrightarrow> wrap_i64 x = x"
  by (simp add: wrap_i64_def in_i64_def i64_bounds)

lemma unat_sat_add_u: "unat (sat_add_u a b) = min (unat a + unat b) (2 ^ LENGTH('a) - 1)"
  for a b :: "'a::len word"
proof (cases "unat a + unat b < 2 ^ LENGTH('a)")
  case True
  then show ?thesis by (simp add: sat_add_u_def unat_word_ariths)
next
  case False
  then show ?thesis by (simp add: sat_add_u_def unsigned_minus_1_eq_mask mask_eq_exp_minus_1)
qed

lemma sat_add_u_mono: "a \<le> sat_add_u a b"
  for a b :: "'a::len word"
proof -
  have "unat a < 2 ^ LENGTH('a)" by (rule unsigned_less)
  then have "unat a \<le> 2 ^ LENGTH('a) - Suc 0" by linarith
  then show ?thesis by (simp add: word_le_nat_alt unat_sat_add_u)
qed

subsection \<open>Results and loops\<close>

lemma ebind_Inr [simp]: "ebind (Inr a) f = f a"
  and ebind_Inl [simp]: "ebind (Inl e) f = Inl e"
  by (simp_all add: ebind_def)

lemma ebind_eq_Inr: "ebind m f = Inr b \<longleftrightarrow> (\<exists>a. m = Inr a \<and> f a = Inr b)"
  by (auto simp: ebind_def split: sum.splits)

lemma check_all_None: "check_all c xs = None \<longleftrightarrow> (\<forall>x \<in> set xs. c x = None)"
  by (induction xs) (auto split: option.splits)

lemma check_all_SomeD: "check_all c xs = Some e \<Longrightarrow> \<exists>x \<in> set xs. c x = Some e"
  by (induction xs) (auto split: option.splits)

subsection \<open>Updating the first match\<close>

lemma length_update_first [simp]: "length (update_first p f xs) = length xs"
  by (induction xs) auto

lemma update_first_none [simp]: "\<forall>x \<in> set xs. \<not> p x \<Longrightarrow> update_first p f xs = xs"
  by (induction xs) auto

lemma map_update_first:
  "(\<And>x. p x \<Longrightarrow> g (f x) = g x) \<Longrightarrow> map g (update_first p f xs) = map g xs"
  by (induction xs) auto

lemma set_update_firstD: "y \<in> set (update_first p f xs) \<Longrightarrow> y \<in> set xs \<or> (\<exists>x \<in> set xs. p x \<and> y = f x)"
  by (induction xs) (auto split: if_splits)

text \<open>With distinct keys, updating the first match is updating every match.\<close>

lemma update_first_key:
  "distinct (map key xs) \<Longrightarrow>
     update_first (\<lambda>x. key x = k) f xs = map (\<lambda>x. if key x = k then f x else x) xs"
proof (induction xs)
  case Nil
  then show ?case by simp
next
  case (Cons a xs)
  then have "key a = k \<Longrightarrow> map (\<lambda>x. if key x = k then f x else x) xs = xs"
    by (auto intro!: map_idI simp: image_iff)
  with Cons show ?case by auto
qed

subsection \<open>Positions, first occurrences, index maps\<close>

lemma position_SomeD: "position p xs = Some i \<Longrightarrow> i < length xs \<and> p (xs ! i) \<and> (\<forall>j < i. \<not> p (xs ! j))"
  by (induction xs arbitrary: i)
     (auto split: if_splits simp: less_Suc_eq_0_disj nth_Cons split: nat.splits)

lemma position_None: "position p xs = None \<longleftrightarrow> (\<forall>x \<in> set xs. \<not> p x)"
  by (induction xs) auto

lemma set_retain_new: "key ` set (retain_new key seen xs) = key ` set xs - set seen"
  by (induction xs arbitrary: seen) auto

lemma retain_new_subset: "set (retain_new key seen xs) \<subseteq> set xs"
  by (induction xs arbitrary: seen) (auto split: if_splits)

lemma distinct_retain_new: "distinct (map key (retain_new key seen xs))"
proof (induction xs arbitrary: seen)
  case (Cons a xs)
  have "key a \<notin> key ` set (retain_new key (key a # seen) xs)"
    by (simp add: set_retain_new)
  with Cons show ?case by auto
qed simp

lemma retain_new_id: "distinct (map key xs) \<Longrightarrow> key ` set xs \<inter> set seen = {} \<Longrightarrow> retain_new key seen xs = xs"
  by (induction xs arbitrary: seen) auto

lemma index_of_SomeD: "index_of xs x = Some i \<Longrightarrow> i < length xs \<and> xs ! i = x"
  by (auto simp: index_of_def dest!: map_of_SomeD simp: in_set_zip)

lemma index_of_None [simp]: "index_of xs x = None \<longleftrightarrow> x \<notin> set xs"
proof -
  have "map fst (rev (zip xs [0..<length xs])) = rev xs"
    by (simp add: rev_map [symmetric])
  then have "fst ` set (rev (zip xs [0..<length xs])) = set xs"
    by (metis set_map set_rev)
  then show ?thesis
    by (simp add: index_of_def map_of_eq_None_iff)
qed

lemma index_of_nth: "distinct xs \<Longrightarrow> i < length xs \<Longrightarrow> index_of xs (xs ! i) = Some i"
  by (metis index_of_None index_of_SomeD not_None_eq nth_eq_iff_index_eq nth_mem)

subsection \<open>Capped logs\<close>

lemma length_push_capped: "0 < cap \<Longrightarrow> length (push_capped cap xs x) = min cap (Suc (length xs))"
  by (simp add: push_capped_def Let_def)

lemma last_push_capped: "0 < cap \<Longrightarrow> push_capped cap xs x \<noteq> [] \<and> last (push_capped cap xs x) = x"
  by (simp add: push_capped_def Let_def)

subsection \<open>Collecting options\<close>

lemma those_map_Some: "(\<And>x. x \<in> set xs \<Longrightarrow> g x = Some (f x)) \<Longrightarrow> those (map g xs) = Some (map f xs)"
  by (induction xs) auto

lemma those_eq_Some: "those xs = Some ys \<longleftrightarrow> xs = map Some ys"
proof (induction xs arbitrary: ys)
  case (Cons a xs)
  then show ?case by (cases ys) (auto split: option.splits)
qed auto

lemma map_of_graph: "map_of (map (\<lambda>x. (k x, f (k x))) xs) i = (if i \<in> k ` set xs then Some (f i) else None)"
  by (induction xs) auto

subsection \<open>Acyclic relations\<close>

lemma acyclic_image:
  assumes "acyclic r" "inj_on h A" "r \<subseteq> A \<times> A"
  shows "acyclic (map_prod h h ` r)"
proof (rule acyclicI, rule allI)
  have *: "\<exists>a b. x = h a \<and> y = h b \<and> (a, b) \<in> r\<^sup>+ \<and> a \<in> A \<and> b \<in> A" if "(x, y) \<in> (map_prod h h ` r)\<^sup>+" for x y
    using that
  proof (induction rule: trancl_induct)
    case (base y)
    then show ?case using assms(3) by auto
  next
    case (step y z)
    then obtain a b where ab: "x = h a" "y = h b" "(a, b) \<in> r\<^sup>+" "a \<in> A" "b \<in> A" by blast
    obtain c d where cd: "y = h c" "z = h d" "(c, d) \<in> r" "c \<in> A" "d \<in> A"
      using step.hyps(2) assms(3) by auto
    have "b = c" using ab cd assms(2) by (auto dest: inj_onD)
    with ab cd show ?case by (blast intro: trancl_into_trancl)
  qed
  show "(x, x) \<notin> (map_prod h h ` r)\<^sup>+" for x
    using * [of x x] assms(1,2) by (auto simp: acyclic_def dest: inj_onD)
qed

text \<open>Adding edges into a node that nothing depends on keeps a relation acyclic.\<close>

lemma acyclic_sink:
  assumes "acyclic r" "s \<subseteq> UNIV \<times> {f}" "f \<notin> Domain (r \<union> s)"
  shows "acyclic (r \<union> s)"
proof (rule acyclicI, rule allI)
  have *: "b = f \<or> (a, b) \<in> r\<^sup>+" if "(a, b) \<in> (r \<union> s)\<^sup>+" for a b
    using that
  proof (induction rule: trancl_induct)
    case (base y)
    then show ?case using assms(2) by auto
  next
    case (step y z)
    then have "(a, y) \<in> r\<^sup>+" using assms(3) by auto
    with step.hyps(2) assms(2) show ?case by (auto intro: trancl_into_trancl)
  qed
  show "(x, x) \<notin> (r \<union> s)\<^sup>+" for x
  proof
    assume a: "(x, x) \<in> (r \<union> s)\<^sup>+"
    then have "x \<in> Domain (r \<union> s)" by (metis DomainI tranclD)
    with a * [of x x] assms(1,3) show False by (auto simp: acyclic_def)
  qed
qed

text \<open>Edges from a set that nothing outside points into, to the outside, close no cycle.\<close>

lemma acyclic_layer:
  assumes "acyclic r" "d \<subseteq> A \<times> - A" "\<And>x y. (x, y) \<in> r \<Longrightarrow> y \<in> A \<Longrightarrow> x \<in> A"
  shows "acyclic (r \<union> d)"
proof (rule acyclicI, rule allI)
  have *: "(a \<in> A \<or> b \<notin> A) \<and> ((a \<in> A \<longleftrightarrow> b \<in> A) \<longrightarrow> (a, b) \<in> r\<^sup>+)" if "(a, b) \<in> (r \<union> d)\<^sup>+" for a b
    using that
  proof (induction rule: trancl_induct)
    case (base y)
    then show ?case using assms(2,3) by auto
  next
    case (step y z)
    from step.hyps(2) have "(y, z) \<in> r \<and> (z \<in> A \<longrightarrow> y \<in> A) \<or> y \<in> A \<and> z \<notin> A"
      using assms(2,3) by auto
    with step.IH show ?case by (auto intro: trancl_into_trancl)
  qed
  show "(x, x) \<notin> (r \<union> d)\<^sup>+" for x
    using * [of x x] assms(1) by (auto simp: acyclic_def)
qed

end
