(* ===== verification/Rust_Str.thy ===== *)
theory Rust_Str
  imports Kigi_Prelude "HOL-Library.Sublist"
begin

text \<open>
  The parts of Rust's \<open>str\<close> and \<open>std::path\<close> that the sources call, over UTF-8 byte strings
  (\<open>string\<close> is a list of bytes, as \<open>str\<close> is): whitespace trimming with the Unicode
  \<open>White_Space\<close> characters in their UTF-8 encodings, \<open>lines\<close>, the pattern trims, ASCII
  classes, and Unix path components.
\<close>

section \<open>Whitespace and trimming\<close>

definition nl :: char where
  "nl = CHR 0x0A"

definition cr :: char where
  "cr = CHR 0x0D"

definition backtick :: char where
  "backtick = CHR 0x60"

text \<open>One-, two- and three-byte encodings of the characters \<open>char::is_whitespace\<close> accepts.\<close>

definition ascii_ws :: "char \<Rightarrow> bool" where
  "ascii_ws c \<longleftrightarrow>
     c = CHR 0x09 \<or> c = CHR 0x0A \<or> c = CHR 0x0B \<or> c = CHR 0x0C \<or> c = CHR 0x0D \<or> c = CHR 0x20"

definition utf8_ws2 :: "char \<Rightarrow> char \<Rightarrow> bool" where
  "utf8_ws2 a b \<longleftrightarrow> a = CHR 0xC2 \<and> (b = CHR 0x85 \<or> b = CHR 0xA0)"

definition utf8_ws3 :: "char \<Rightarrow> char \<Rightarrow> char \<Rightarrow> bool" where
  "utf8_ws3 a b c \<longleftrightarrow>
     a = CHR 0xE1 \<and> b = CHR 0x9A \<and> c = CHR 0x80
   \<or> a = CHR 0xE2 \<and> b = CHR 0x80 \<and>
       (c = CHR 0x80 \<or> c = CHR 0x81 \<or> c = CHR 0x82 \<or> c = CHR 0x83 \<or> c = CHR 0x84
        \<or> c = CHR 0x85 \<or> c = CHR 0x86 \<or> c = CHR 0x87 \<or> c = CHR 0x88 \<or> c = CHR 0x89
        \<or> c = CHR 0x8A \<or> c = CHR 0xA8 \<or> c = CHR 0xA9 \<or> c = CHR 0xAF)
   \<or> a = CHR 0xE2 \<and> b = CHR 0x81 \<and> c = CHR 0x9F
   \<or> a = CHR 0xE3 \<and> b = CHR 0x80 \<and> c = CHR 0x80"

text \<open>Bytes of the whitespace character a string starts with; the same read backwards.\<close>

fun ws_prefix :: "string \<Rightarrow> nat" where
  "ws_prefix [] = 0"
| "ws_prefix [a] = (if ascii_ws a then 1 else 0)"
| "ws_prefix [a, b] = (if ascii_ws a then 1 else if utf8_ws2 a b then 2 else 0)"
| "ws_prefix (a # b # c # _) =
     (if ascii_ws a then 1 else if utf8_ws2 a b then 2 else if utf8_ws3 a b c then 3 else 0)"

fun ws_suffix_rev :: "string \<Rightarrow> nat" where
  "ws_suffix_rev [] = 0"
| "ws_suffix_rev [a] = (if ascii_ws a then 1 else 0)"
| "ws_suffix_rev [b, a] = (if ascii_ws b then 1 else if utf8_ws2 a b then 2 else 0)"
| "ws_suffix_rev (c # b # a # _) =
     (if ascii_ws c then 1 else if utf8_ws2 b c then 2 else if utf8_ws3 a b c then 3 else 0)"

function strip_by :: "(string \<Rightarrow> nat) \<Rightarrow> string \<Rightarrow> string" where
  "strip_by p s = (if s = [] \<or> p s = 0 then s else strip_by p (drop (p s) s))"
  by pat_completeness auto
termination
  by (relation "measure (\<lambda>(p, s). length s)") auto

declare strip_by.simps [simp del]

definition trim_start :: "string \<Rightarrow> string" where
  "trim_start s = strip_by ws_prefix s"

definition trim_end :: "string \<Rightarrow> string" where
  "trim_end s = rev (strip_by ws_suffix_rev (rev s))"

definition trim :: "string \<Rightarrow> string" where
  "trim s = trim_end (trim_start s)"

text \<open>\<open>trim_start_matches(c)\<close> and \<open>trim_matches(c)\<close> for a character.\<close>

definition trim_start_char :: "char \<Rightarrow> string \<Rightarrow> string" where
  "trim_start_char c s = dropWhile (\<lambda>x. x = c) s"

definition trim_char :: "char \<Rightarrow> string \<Rightarrow> string" where
  "trim_char c s = rev (dropWhile (\<lambda>x. x = c) (rev (dropWhile (\<lambda>x. x = c) s)))"

text \<open>\<open>trim_start_matches(pat)\<close> for a string pattern: the prefix is removed as often as it occurs.\<close>

definition trim_start_str :: "string \<Rightarrow> string \<Rightarrow> string" where
  "trim_start_str pat s = strip_by (\<lambda>t. if prefix pat t then length pat else 0) s"

definition strip_prefix_str :: "string \<Rightarrow> string \<Rightarrow> string option" where
  "strip_prefix_str pat s = (if prefix pat s then Some (drop (length pat) s) else None)"

section \<open>Lines and joining\<close>

text \<open>
  \<open>str::lines\<close>: a line ends at a newline, a carriage return just before the newline is
  dropped, and there is no empty last line.  \<open>cur\<close> is the current line, reversed.
\<close>

fun lines_from :: "string \<Rightarrow> string \<Rightarrow> string list" where
  "lines_from cur [] = (if cur = [] then [] else [rev cur])"
| "lines_from cur (c # cs) =
     (if c = nl
      then (case cur of x # xs \<Rightarrow> if x = cr then rev xs else rev cur | [] \<Rightarrow> []) # lines_from [] cs
      else lines_from (c # cur) cs)"

definition lines :: "string \<Rightarrow> string list" where
  "lines s = lines_from [] s"

fun join :: "string \<Rightarrow> string list \<Rightarrow> string" where
  "join sep [] = []"
| "join sep [x] = x"
| "join sep (x # xs) = x @ sep @ join sep xs"

section \<open>ASCII classes and numbers\<close>

definition byte_in :: "nat \<Rightarrow> nat \<Rightarrow> char \<Rightarrow> bool" where
  "byte_in lo hi c \<longleftrightarrow> lo \<le> of_char c \<and> of_char c \<le> hi"

definition ascii_alphanumeric :: "char \<Rightarrow> bool" where
  "ascii_alphanumeric c \<longleftrightarrow> byte_in 0x30 0x39 c \<or> byte_in 0x41 0x5A c \<or> byte_in 0x61 0x7A c"

definition ascii_hexdigit :: "char \<Rightarrow> bool" where
  "ascii_hexdigit c \<longleftrightarrow> byte_in 0x30 0x39 c \<or> byte_in 0x41 0x46 c \<or> byte_in 0x61 0x66 c"

fun digits_of :: "nat \<Rightarrow> string" where
  "digits_of n =
     (if n < 10 then [char_of (48 + n)] else digits_of (n div 10) @ [char_of (48 + n mod 10)])"

declare digits_of.simps [simp del]

definition show_nat :: "nat \<Rightarrow> string" where
  "show_nat n = digits_of n"

definition show_int :: "int \<Rightarrow> string" where
  "show_int i = (if i < 0 then CHR ''-'' # show_nat (nat (- i)) else show_nat (nat i))"

section \<open>Unix paths\<close>

text \<open>
  \<open>Path::components\<close>: repeated separators and inner \<open>.\<close> components are dropped, a leading
  \<open>.\<close> is kept.
\<close>

datatype component = RootDir | CurDir | ParentDir | Normal string

fun split_slash :: "string \<Rightarrow> string \<Rightarrow> string list" where
  "split_slash cur [] = [rev cur]"
| "split_slash cur (c # cs) =
     (if c = CHR ''/'' then rev cur # split_slash [] cs else split_slash (c # cur) cs)"

fun component_of :: "string \<Rightarrow> component option" where
  "component_of s =
     (if s = [] \<or> s = ''.'' then None else if s = ''..'' then Some ParentDir else Some (Normal s))"

definition components :: "string \<Rightarrow> component list" where
  "components p =
     (let ps = split_slash [] p
      in (if prefix ''/'' p then [RootDir] else if hd ps = ''.'' then [CurDir] else [])
         @ List.map_filter component_of ps)"

definition path_starts_with :: "string \<Rightarrow> string \<Rightarrow> bool" where
  "path_starts_with p base \<longleftrightarrow> prefix (components base) (components p)"

definition file_name :: "string \<Rightarrow> string option" where
  "file_name p =
     (case rev (components p) of Normal s # _ \<Rightarrow> Some s | _ \<Rightarrow> None)"

text \<open>\<open>Path::join\<close> with a relative argument; an absolute one replaces the base.\<close>

definition path_join :: "string \<Rightarrow> string \<Rightarrow> string" where
  "path_join a b =
     (if prefix ''/'' b then b
      else if a = [] \<or> last a = CHR ''/'' then a @ b
      else a @ ''/'' @ b)"

section \<open>Lemmas\<close>

lemma strip_by_fixed: "strip_by p s = [] \<or> p (strip_by p s) = 0"
proof (induction p s rule: strip_by.induct)
  case (1 p s)
  then show ?case
    by (cases "s = [] \<or> p s = 0") (auto simp: strip_by.simps [of p s])
qed

lemma strip_by_suffix: "suffix (strip_by p s) s"
proof (induction p s rule: strip_by.induct)
  case (1 p s)
  show ?case
  proof (cases "s = [] \<or> p s = 0")
    case False
    with 1 have "suffix (strip_by p (drop (p s) s)) (drop (p s) s)" by simp
    then show ?thesis
      using suffix_drop suffix_order.trans by (simp add: strip_by.simps [of p s] False) blast
  qed (simp add: strip_by.simps [of p s])
qed

lemma trim_start_idem [simp]: "trim_start (trim_start s) = trim_start s"
  using strip_by_fixed [of ws_prefix s] by (auto simp: trim_start_def strip_by.simps [of _ "strip_by _ _"])

lemma trim_Nil [simp]: "trim [] = []"
  by (simp add: trim_def trim_start_def trim_end_def strip_by.simps)

text \<open>Every byte of a line comes from the text and no line contains a newline.\<close>

lemma lines_from_no_nl:
  "nl \<notin> set cur \<Longrightarrow> l \<in> set (lines_from cur s) \<Longrightarrow> nl \<notin> set l"
  by (induction cur s rule: lines_from.induct) (auto split: if_splits list.splits)

lemma lines_no_nl: "l \<in> set (lines s) \<Longrightarrow> nl \<notin> set l"
  by (auto simp: lines_def dest: lines_from_no_nl [rotated])

end
