(* ===== verification/Goal_Tracker.thy ===== *)
theory Goal_Tracker
  imports Rust_Str
begin

text \<open>
  The goal engine's state machine, \<open>session/goal_tracker.rs\<close>, with the token accounting of
  \<open>goal_tokens\<close> (\<open>session/acp_session_impl/goal_support.rs\<close>) and the strategist trigger of
  \<open>session/goal_strategist.rs\<close>.  A graph node runs as one goal, and the graph tracker reuses
  the status, phase and pause vocabulary defined here.

  \<open>goal_orchestration\<close> is the persisted struct, built in three record extensions that follow
  the order of its fields.  What the code reads from the machine is an argument: the clock,
  and \<open>goal_host\<close> for the temporary directory, the fresh UUID prefix and the answers of the
  file-system calls.  The calls made are appended to \<open>gt_fs\<close>, so that what an operation does
  to the disk is part of its result.
\<close>

section \<open>Constants and enumerations\<close>

definition GOAL_CLASSIFIER_STALL_THRESHOLD :: u32 where
  "GOAL_CLASSIFIER_STALL_THRESHOLD = 2"

definition GOAL_STRATEGIST_CAP_BONUS :: u32 where
  "GOAL_STRATEGIST_CAP_BONUS = 3"

definition GOAL_STRATEGIST_STALL_THRESHOLD :: u32 where
  "GOAL_STRATEGIST_STALL_THRESHOLD = GOAL_CLASSIFIER_STALL_THRESHOLD + GOAL_STRATEGIST_CAP_BONUS"

definition GOAL_HISTORY_MAX :: nat where
  "GOAL_HISTORY_MAX = 64"

datatype goal_phase = Idle | Planning | Executing

datatype goal_status =
    Active
  | UserPaused
  | BackOffPaused
  | NoProgressPaused
  | InfraPaused
  | Blocked
  | BudgetLimited
  | Complete

definition goal_status_from_wire_str :: "string \<Rightarrow> goal_status" where
  "goal_status_from_wire_str s =
     (if s = ''active'' \<or> s = ''Active'' then Active
      else if s = ''user_paused'' \<or> s = ''paused'' \<or> s = ''Paused'' then UserPaused
      else if s = ''doom_loop_paused'' then UserPaused
      else if s = ''back_off_paused'' then BackOffPaused
      else if s = ''no_progress_paused'' then NoProgressPaused
      else if s = ''infra_paused'' then InfraPaused
      else if s = ''blocked'' then Blocked
      else if s = ''budget_limited'' \<or> s = ''BudgetLimited'' then BudgetLimited
      else if s = ''complete'' \<or> s = ''Complete'' then Complete
      else UserPaused)"

fun is_paused :: "goal_status \<Rightarrow> bool" where
  "is_paused UserPaused = True"
| "is_paused BackOffPaused = True"
| "is_paused NoProgressPaused = True"
| "is_paused InfraPaused = True"
| "is_paused Blocked = True"
| "is_paused _ = False"

datatype goal_pause_reason = User | BackOff | NoProgress | Verification | Infra

fun to_status :: "goal_pause_reason \<Rightarrow> goal_status" where
  "to_status User = UserPaused"
| "to_status BackOff = BackOffPaused"
| "to_status NoProgress = NoProgressPaused"
| "to_status Verification = Blocked"
| "to_status Infra = InfraPaused"

fun history_detail :: "goal_pause_reason \<Rightarrow> string" where
  "history_detail User = ''user''"
| "history_detail BackOff = ''back_off''"
| "history_detail NoProgress = ''no_progress''"
| "history_detail Verification = ''blocked''"
| "history_detail Infra = ''infra''"

datatype goal_classifier_verdict = GcAchieved | GcNotAchieved

datatype goal_event =
    GoalCreated | GePlanningStarted | GePlanningCompleted | GePlanningFailed | WorkerStarted
  | WorkerCompleted | WorkerFailed | ContextRotated | GoalPaused | GoalResumed | GoalCompleted
  | GoalCleared | GeBudgetExceeded | PrematureStopDetected | GeUnknown

record goal_history_entry =
  ghe_timestamp :: string
  ghe_event :: goal_event
  ghe_detail :: "string option"
  ghe_round :: "u32 option"
  ghe_tokens_used :: "i64 option"
  ghe_unmet :: "string list"

definition goal_history_now :: "clock \<Rightarrow> goal_event \<Rightarrow> string option \<Rightarrow> goal_history_entry" where
  "goal_history_now ck ev detail =
     \<lparr>ghe_timestamp = rfc ck 0, ghe_event = ev, ghe_detail = detail, ghe_round = None,
      ghe_tokens_used = None, ghe_unmet = []\<rparr>"

section \<open>The orchestration record\<close>

record goal_role_model =
  grm_model :: string
  grm_agent_type :: string

record goal_core =
  o_goal_id :: string
  o_objective :: string
  o_status :: goal_status
  o_phase :: goal_phase
  o_token_budget :: "i64 option"
  o_elapsed_ms :: u64
  o_created_at :: string
  o_current_subagent_id :: "string option"
  o_current_subagent_role :: "string option"
  o_total_worker_rounds :: u32
  o_total_verify_rounds :: u32
  o_budget_limit_reported :: bool
  o_token_baseline :: i64
  o_tokens_used_high_water :: i64
  o_parent_tokens_spent :: i64
  o_last_session_tokens_seen :: "i64 option"
  o_history :: "goal_history_entry list"
  o_pause_message :: "string option"
  o_verifier_id :: string

record goal_classifier = goal_core +
  o_classifier_runs_attempted :: u32
  o_rounds_since_verify :: u32
  o_classifier_max_runs :: "u32 option"
  o_last_classifier_verdict :: "goal_classifier_verdict option"
  o_last_classifier_details_path :: "string option"
  o_last_classifier_at :: "string option"
  o_last_classifier_gaps :: "string option"
  o_first_final_response :: "string option"
  o_skeptic0_session_id :: "string option"
  o_skeptic_model_assignment :: "goal_role_model list"
  o_last_gap_fingerprint :: "string option"
  o_classifier_stall_count :: u32
  o_consecutive_not_achieved :: u32
  o_last_strategist_fired_at :: u32
  o_strategist_cap_bonus :: u32

record goal_orchestration = goal_classifier +
  o_last_strategy_path :: "string option"
  o_last_strategy_recommendation :: "string option"
  o_changes_baseline_commit :: "string option"
  o_plan_file :: "string option"
  o_plan_baseline_file :: "string option"
  o_scratch_dir_ready :: bool
  o_live_subagent_tokens :: u64
  o_live_tokens_by_model :: "(string \<times> u64) list"
  o_live_context_window :: u64
  o_live_context_pct :: "8 word"
  o_live_turn_count :: u32
  o_live_tool_call_count :: u32
  o_planning_in_flight :: bool
  o_verifying_in_flight :: bool

definition reset_strategist_fields :: "goal_orchestration \<Rightarrow> goal_orchestration" where
  "reset_strategist_fields o' = o'\<lparr>
     o_consecutive_not_achieved := 0,
     o_last_strategist_fired_at := 0,
     o_strategist_cap_bonus := 0,
     o_last_strategy_path := None,
     o_last_strategy_recommendation := None\<rparr>"

definition reset_classifier_stall_fields :: "goal_orchestration \<Rightarrow> goal_orchestration" where
  "reset_classifier_stall_fields o' = o'\<lparr>
     o_last_gap_fingerprint := None,
     o_classifier_stall_count := 0\<rparr>"

section \<open>The tracker, its host and its paths\<close>

datatype fs_call =
    CreateDirAll string
  | EnsureScratchRoot string
  | RescueMove string string
  | AppendSkepticReports string string
  | RemoveDirAll string

record goal_host =
  h_temp_dir :: string
  h_fresh_id :: string \<comment> \<open>\<open>generate_verifier_id()\<close>: 12 characters of a fresh UUID\<close>
  h_ensure_root_ok :: bool \<comment> \<open>\<open>ensure_goal_scratch_root\<close>\<close>
  h_create_dir_ok :: bool \<comment> \<open>\<open>create_dir_all\<close> of the implementer directory\<close>
  h_root_owned :: bool \<comment> \<open>\<open>verify_owned_real_dir\<close>\<close>
  h_move_ok :: bool \<comment> \<open>\<open>replace_file\<close>, or else \<open>copy_no_follow\<close>\<close>

record goal_tracker =
  gt_orchestration :: "goal_orchestration option"
  gt_session_dir :: string
  gt_active_since :: "nat option"
  gt_fs :: "fs_call list"

definition goal_scratch_root :: "goal_host \<Rightarrow> string \<Rightarrow> string" where
  "goal_scratch_root h verifier_id = path_join (h_temp_dir h) (''kigi-goal-'' @ verifier_id)"

definition implementer_scratch_dir :: "goal_host \<Rightarrow> string \<Rightarrow> string" where
  "implementer_scratch_dir h verifier_id = path_join (goal_scratch_root h verifier_id) ''implementer''"

definition goal_dir :: "goal_tracker \<Rightarrow> string" where
  "goal_dir t = path_join (gt_session_dir t) ''goal''"

definition goal_tracker_new :: "string \<Rightarrow> goal_tracker" where
  "goal_tracker_new dir =
     \<lparr>gt_orchestration = None, gt_session_dir = dir, gt_active_since = None, gt_fs = []\<rparr>"

definition goal_status_of :: "goal_tracker \<Rightarrow> goal_status option" where
  "goal_status_of t = map_option o_status (gt_orchestration t)"

definition goal_is_active :: "goal_tracker \<Rightarrow> bool" where
  "goal_is_active t = (case gt_orchestration t of Some o' \<Rightarrow> o_status o' = Active | None \<Rightarrow> False)"

abbreviation with_orch :: "(goal_orchestration \<Rightarrow> goal_orchestration) \<Rightarrow> goal_tracker \<Rightarrow> goal_tracker" where
  "with_orch f t \<equiv> t\<lparr>gt_orchestration := map_option f (gt_orchestration t)\<rparr>"

text \<open>\<open>append_history\<close> and \<open>record_event\<close>: the log is capped, the oldest entries go first.\<close>

definition goal_append_history :: "goal_history_entry \<Rightarrow> goal_tracker \<Rightarrow> goal_tracker" where
  "goal_append_history e t =
     with_orch (\<lambda>o'. o'\<lparr>o_history := push_capped GOAL_HISTORY_MAX (o_history o') e\<rparr>) t"

definition record_event :: "clock \<Rightarrow> goal_event \<Rightarrow> string option \<Rightarrow> goal_tracker \<Rightarrow> goal_tracker" where
  "record_event ck ev detail t = goal_append_history (goal_history_now ck ev detail) t"

text \<open>The pinned 12-hex form that \<open>from_snapshot\<close> enforces on a restored \<open>verifier_id\<close>.\<close>

definition canonical_verifier_id :: "string \<Rightarrow> bool" where
  "canonical_verifier_id v \<longleftrightarrow> length v = 12 \<and> list_all ascii_hexdigit v"

definition goal_from_snapshot ::
  "goal_host \<Rightarrow> clock \<Rightarrow> string \<Rightarrow> goal_orchestration \<Rightarrow> goal_tracker" where
  "goal_from_snapshot h ck dir snap =
    (let s1 = (case o_phase snap of
                 Idle \<Rightarrow> snap
               | _ \<Rightarrow> snap\<lparr>o_phase := Idle,
                           o_status := (if o_status snap = Active then UserPaused else o_status snap),
                           o_current_subagent_id := None,
                           o_current_subagent_role := None\<rparr>);
         s2 = s1\<lparr>o_planning_in_flight := False, o_verifying_in_flight := False,
                 o_skeptic0_session_id := None\<rparr>;
         s3 = (if canonical_verifier_id (o_verifier_id s2) then s2
               else s2\<lparr>o_verifier_id := h_fresh_id h\<rparr>);
         live = (o_status s3 \<noteq> Complete \<and> o_status s3 \<noteq> BudgetLimited);
         s4 = s3\<lparr>o_scratch_dir_ready := live \<and> h_ensure_root_ok h \<and> h_create_dir_ok h\<rparr>
     in \<lparr>gt_orchestration = Some s4,
         gt_session_dir = dir,
         gt_active_since = (if o_status s4 = Active then Some (inst ck) else None),
         gt_fs = (if live
                  then EnsureScratchRoot (goal_scratch_root h (o_verifier_id s4)) #
                       (if h_ensure_root_ok h
                        then [CreateDirAll (implementer_scratch_dir h (o_verifier_id s4))] else [])
                  else [])\<rparr>)"

text \<open>
  \<open>rescue_classifier_details\<close> moves the details file out of the scratch root before the root is
  removed.  The stored path is snapshot-controlled, so every check comes before the move.
\<close>

definition rescue_target :: "goal_host \<Rightarrow> goal_tracker \<Rightarrow> goal_orchestration \<Rightarrow> (string \<times> string) option" where
  "rescue_target h t o' =
     (case o_last_classifier_details_path o' of
        None \<Rightarrow> None
      | Some src \<Rightarrow>
          if ParentDir \<in> set (components src) then None
          else if \<not> path_starts_with src (goal_scratch_root h (o_verifier_id o')) then None
          else if \<not> h_root_owned h then None
          else (case file_name src of
                  None \<Rightarrow> None
                | Some name \<Rightarrow> Some (src, path_join (goal_dir t) name)))"

definition rescue_classifier_details :: "goal_host \<Rightarrow> goal_tracker \<Rightarrow> goal_tracker" where
  "rescue_classifier_details h t =
     (case gt_orchestration t of
        None \<Rightarrow> t
      | Some o' \<Rightarrow>
          (case rescue_target h t o' of
             None \<Rightarrow> t
           | Some (src, dest) \<Rightarrow>
               if h_move_ok h
               then t\<lparr>gt_orchestration := Some (o'\<lparr>o_last_classifier_details_path := Some dest\<rparr>),
                      gt_fs := gt_fs t @ [CreateDirAll (goal_dir t), RescueMove src dest,
                                  AppendSkepticReports (goal_scratch_root h (o_verifier_id o')) dest]\<rparr>
               else t\<lparr>gt_fs := gt_fs t @ [CreateDirAll (goal_dir t)]\<rparr>))"

definition remove_scratch_root :: "goal_host \<Rightarrow> goal_tracker \<Rightarrow> goal_tracker" where
  "remove_scratch_root h t =
     (case gt_orchestration t of
        None \<Rightarrow> t
      | Some o' \<Rightarrow> t\<lparr>gt_fs := gt_fs t @ [RemoveDirAll (goal_scratch_root h (o_verifier_id o'))]\<rparr>)"

section \<open>Transitions\<close>

definition fresh_orchestration ::
  "string \<Rightarrow> string \<Rightarrow> i64 option \<Rightarrow> i64 \<Rightarrow> string \<Rightarrow> string option \<Rightarrow> string \<Rightarrow> bool \<Rightarrow> goal_orchestration" where
  "fresh_orchestration gid objective budget baseline created_at commit vid ready =
     \<lparr>o_goal_id = gid, o_objective = objective, o_status = Active, o_phase = Executing,
      o_token_budget = budget, o_elapsed_ms = 0, o_created_at = created_at,
      o_current_subagent_id = None, o_current_subagent_role = None,
      o_total_worker_rounds = 0, o_total_verify_rounds = 0, o_budget_limit_reported = False,
      o_token_baseline = baseline, o_tokens_used_high_water = 0, o_parent_tokens_spent = 0,
      o_last_session_tokens_seen = Some baseline, o_history = [], o_pause_message = None,
      o_verifier_id = vid,
      o_classifier_runs_attempted = 0, o_rounds_since_verify = 0, o_classifier_max_runs = None,
      o_last_classifier_verdict = None, o_last_classifier_details_path = None,
      o_last_classifier_at = None, o_last_classifier_gaps = None, o_first_final_response = None,
      o_skeptic0_session_id = None, o_skeptic_model_assignment = [],
      o_last_gap_fingerprint = None, o_classifier_stall_count = 0,
      o_consecutive_not_achieved = 0, o_last_strategist_fired_at = 0, o_strategist_cap_bonus = 0,
      o_last_strategy_path = None, o_last_strategy_recommendation = None,
      o_changes_baseline_commit = commit, o_plan_file = None, o_plan_baseline_file = None,
      o_scratch_dir_ready = ready, o_live_subagent_tokens = 0, o_live_tokens_by_model = [],
      o_live_context_window = 0, o_live_context_pct = 0, o_live_turn_count = 0,
      o_live_tool_call_count = 0, o_planning_in_flight = False, o_verifying_in_flight = False\<rparr>"

definition create_goal ::
  "goal_host \<Rightarrow> clock \<Rightarrow> string \<Rightarrow> string \<Rightarrow> i64 option \<Rightarrow> i64 \<Rightarrow> string \<Rightarrow> string option
     \<Rightarrow> goal_tracker \<Rightarrow> goal_tracker" where
  "create_goal h ck gid objective budget baseline created_at commit t0 =
    (let t1 = t0\<lparr>gt_fs := gt_fs t0 @ [CreateDirAll (goal_dir t0)]\<rparr>;
         t2 = (if gt_orchestration t1 \<noteq> None
               then remove_scratch_root h (rescue_classifier_details h t1) else t1);
         vid = h_fresh_id h;
         t3 = t2\<lparr>gt_orchestration := Some (fresh_orchestration gid objective budget baseline
                   created_at commit vid (h_ensure_root_ok h \<and> h_create_dir_ok h)),
                 gt_active_since := Some (inst ck),
                 gt_fs := gt_fs t2 @ EnsureScratchRoot (goal_scratch_root h vid) #
                   (if h_ensure_root_ok h then [CreateDirAll (implementer_scratch_dir h vid)] else [])\<rparr>
     in record_event ck GoalCreated None t3)"

definition set_phase :: "goal_phase \<Rightarrow> goal_tracker \<Rightarrow> goal_tracker" where
  "set_phase ph t = with_orch (\<lambda>o'. o'\<lparr>o_phase := ph\<rparr>) t"

definition set_current_subagent :: "string option \<Rightarrow> string option \<Rightarrow> goal_tracker \<Rightarrow> goal_tracker" where
  "set_current_subagent sid role t =
     with_orch (\<lambda>o'. o'\<lparr>o_current_subagent_id := sid, o_current_subagent_role := role\<rparr>) t"

text \<open>\<open>if let Some(since) = self.active_since.take()\<close>: the elapsed time is folded in once.\<close>

definition flush_elapsed :: "clock \<Rightarrow> goal_tracker \<Rightarrow> goal_orchestration \<Rightarrow> goal_orchestration" where
  "flush_elapsed ck t o' =
     (case gt_active_since t of
        None \<Rightarrow> o'
      | Some since \<Rightarrow> o'\<lparr>o_elapsed_ms := sat_add_u (o_elapsed_ms o') (millis_since (inst ck) since)\<rparr>)"

definition goal_pause_inner ::
  "clock \<Rightarrow> goal_pause_reason \<Rightarrow> string option \<Rightarrow> goal_tracker \<Rightarrow> bool \<times> goal_tracker" where
  "goal_pause_inner ck reason message t =
     (case gt_orchestration t of
        Some o' \<Rightarrow>
          if o_status o' = Active
          then let o1 = (flush_elapsed ck t o')\<lparr>o_status := to_status reason\<rparr>;
                   o2 = (case message of None \<Rightarrow> o1 | Some m \<Rightarrow> o1\<lparr>o_pause_message := Some m\<rparr>)
               in (True, record_event ck GoalPaused (Some (history_detail reason))
                           (t\<lparr>gt_orchestration := Some o2, gt_active_since := None\<rparr>))
          else (False, t)
      | None \<Rightarrow> (False, t))"

definition goal_pause :: "clock \<Rightarrow> goal_pause_reason \<Rightarrow> goal_tracker \<Rightarrow> bool \<times> goal_tracker" where
  "goal_pause ck reason t = goal_pause_inner ck reason None t"

definition goal_pause_with_message ::
  "clock \<Rightarrow> goal_pause_reason \<Rightarrow> string \<Rightarrow> goal_tracker \<Rightarrow> bool \<times> goal_tracker" where
  "goal_pause_with_message ck reason m t = goal_pause_inner ck reason (Some m) t"

definition goal_resume :: "clock \<Rightarrow> goal_tracker \<Rightarrow> bool \<times> goal_tracker" where
  "goal_resume ck t =
     (case gt_orchestration t of
        Some o' \<Rightarrow>
          if is_paused (o_status o')
          then let o1 = reset_classifier_stall_fields (reset_strategist_fields
                          (o'\<lparr>o_status := Active, o_pause_message := None,
                              o_classifier_runs_attempted := 0, o_rounds_since_verify := 0\<rparr>))
               in (True, record_event ck GoalResumed None
                           (t\<lparr>gt_orchestration := Some o1, gt_active_since := Some (inst ck)\<rparr>))
          else (False, t)
      | None \<Rightarrow> (False, t))"

text \<open>The common part of \<open>complete\<close> and \<open>budget_limit\<close>, which write the same fields.\<close>

definition end_goal_fields :: "goal_status \<Rightarrow> goal_orchestration \<Rightarrow> goal_orchestration" where
  "end_goal_fields st o' = reset_strategist_fields
     (o'\<lparr>o_status := st, o_phase := Idle, o_current_subagent_id := None,
         o_current_subagent_role := None, o_pause_message := None,
         o_skeptic0_session_id := None, o_skeptic_model_assignment := [],
         o_plan_baseline_file := None\<rparr>)"

definition goal_end ::
  "goal_status \<Rightarrow> goal_event \<Rightarrow> goal_host \<Rightarrow> clock \<Rightarrow> goal_tracker \<Rightarrow> bool \<times> goal_tracker" where
  "goal_end st ev h ck t =
     (case gt_orchestration t of
        Some o' \<Rightarrow>
          if o_status o' = Active \<or> is_paused (o_status o')
          then (True, record_event ck ev None
                 (remove_scratch_root h (rescue_classifier_details h
                   (t\<lparr>gt_orchestration := Some (end_goal_fields st (flush_elapsed ck t o')),
                      gt_active_since := None\<rparr>))))
          else (False, t)
      | None \<Rightarrow> (False, t))"

definition goal_complete :: "goal_host \<Rightarrow> clock \<Rightarrow> goal_tracker \<Rightarrow> bool \<times> goal_tracker" where
  "goal_complete h ck t = goal_end Complete GoalCompleted h ck t"

definition goal_budget_limit :: "goal_host \<Rightarrow> clock \<Rightarrow> goal_tracker \<Rightarrow> bool \<times> goal_tracker" where
  "goal_budget_limit h ck t = goal_end BudgetLimited GeBudgetExceeded h ck t"

definition goal_clear :: "goal_host \<Rightarrow> goal_tracker \<Rightarrow> goal_tracker" where
  "goal_clear h t =
     (remove_scratch_root h (rescue_classifier_details h t))
       \<lparr>gt_orchestration := None, gt_active_since := None\<rparr>"

definition update_live_progress ::
  "u64 \<Rightarrow> (string \<times> u64) list \<Rightarrow> u64 \<Rightarrow> 8 word \<Rightarrow> u32 \<Rightarrow> u32 \<Rightarrow> goal_tracker \<Rightarrow> goal_tracker" where
  "update_live_progress toks by_model window pct turns calls t =
     with_orch (\<lambda>o'. o'\<lparr>o_live_subagent_tokens := toks, o_live_tokens_by_model := by_model,
                        o_live_context_window := window, o_live_context_pct := pct,
                        o_live_turn_count := turns, o_live_tool_call_count := calls\<rparr>) t"

definition goal_account_elapsed :: "clock \<Rightarrow> goal_tracker \<Rightarrow> goal_tracker" where
  "goal_account_elapsed ck t =
     (case (gt_orchestration t, gt_active_since t) of
        (Some o', Some since) \<Rightarrow>
          t\<lparr>gt_orchestration := Some (flush_elapsed ck t o'), gt_active_since := Some (inst ck)\<rparr>
      | _ \<Rightarrow> t)"

section \<open>Verification bookkeeping\<close>

definition record_classifier_stall :: "string \<Rightarrow> goal_tracker \<Rightarrow> bool \<times> goal_tracker" where
  "record_classifier_stall fp t =
     (case gt_orchestration t of
        None \<Rightarrow> (False, t)
      | Some o' \<Rightarrow>
          let o1 = (if o_last_gap_fingerprint o' = Some fp
                    then o'\<lparr>o_classifier_stall_count := sat_add_u (o_classifier_stall_count o') 1\<rparr>
                    else o'\<lparr>o_last_gap_fingerprint := Some fp, o_classifier_stall_count := 1\<rparr>);
              threshold = (if o_strategist_cap_bonus o1 > 0 then GOAL_STRATEGIST_STALL_THRESHOLD
                           else GOAL_CLASSIFIER_STALL_THRESHOLD)
          in (o_classifier_stall_count o1 \<ge> threshold, t\<lparr>gt_orchestration := Some o1\<rparr>))"

definition rollback_classifier_attempt :: "goal_tracker \<Rightarrow> goal_tracker" where
  "rollback_classifier_attempt t =
     with_orch (\<lambda>o'. o'\<lparr>o_classifier_runs_attempted := sat_sub_u (o_classifier_runs_attempted o') 1\<rparr>) t"

definition reset_classifier_stall :: "goal_tracker \<Rightarrow> goal_tracker" where
  "reset_classifier_stall t = with_orch reset_classifier_stall_fields t"

definition record_not_achieved_streak :: "goal_tracker \<Rightarrow> u32 \<times> goal_tracker" where
  "record_not_achieved_streak t =
     (case gt_orchestration t of
        Some o' \<Rightarrow>
          let n = sat_add_u (o_consecutive_not_achieved o') 1
          in (n, t\<lparr>gt_orchestration := Some (o'\<lparr>o_consecutive_not_achieved := n\<rparr>)\<rparr>)
      | None \<Rightarrow> (0, t))"

definition claim_strategist_fire :: "(u32 \<Rightarrow> u32 \<Rightarrow> bool) \<Rightarrow> goal_tracker \<Rightarrow> u32 option \<times> goal_tracker" where
  "claim_strategist_fire should_fire t =
     (case gt_orchestration t of
        None \<Rightarrow> (None, t)
      | Some o' \<Rightarrow>
          if should_fire (o_consecutive_not_achieved o') (o_last_strategist_fired_at o')
          then (Some (o_consecutive_not_achieved o'),
                t\<lparr>gt_orchestration := Some (reset_classifier_stall_fields
                    (o'\<lparr>o_last_strategist_fired_at := o_consecutive_not_achieved o',
                        o_strategist_cap_bonus := GOAL_STRATEGIST_CAP_BONUS\<rparr>))\<rparr>)
          else (None, t))"

definition strategist_should_fire :: "u32 \<Rightarrow> u32 \<Rightarrow> u32 \<Rightarrow> bool" where
  "strategist_should_fire consecutive last_fired every \<longleftrightarrow>
     every > 0 \<and> consecutive \<ge> sat_add_u last_fired every"

definition revoke_strategist_cap_bonus :: "goal_tracker \<Rightarrow> goal_tracker" where
  "revoke_strategist_cap_bonus t = with_orch (\<lambda>o'. o'\<lparr>o_strategist_cap_bonus := 0\<rparr>) t"

definition reset_strategist_state :: "goal_tracker \<Rightarrow> goal_tracker" where
  "reset_strategist_state t = with_orch reset_strategist_fields t"

definition record_strategy_recommendation :: "string \<Rightarrow> string \<Rightarrow> goal_tracker \<Rightarrow> goal_tracker" where
  "record_strategy_recommendation path rec t =
     with_orch (\<lambda>o'. o'\<lparr>o_last_strategy_path := Some path, o_last_strategy_recommendation := Some rec\<rparr>) t"

section \<open>Token accounting\<close>

text \<open>
  One record per subagent.  The records are a \<open>HashMap\<close> whose values the fold visits in an
  unspecified order: here any list of them.
\<close>

record subagent_token_record =
  str_goal_id :: "string option"
  str_resume_anchor_cumulative :: u64
  str_last_cumulative_reported :: u64
  str_model :: "string option"
  str_finished :: bool

definition marginal :: "subagent_token_record \<Rightarrow> u64" where
  "marginal r = sat_sub_u (str_last_cumulative_reported r) (str_resume_anchor_cumulative r)"

text \<open>\<open>i64::try_from(d).unwrap_or(i64::MAX)\<close>.\<close>

definition marginal_i64 :: "subagent_token_record \<Rightarrow> i64" where
  "marginal_i64 r = (if uint (marginal r) \<le> i64_max then uint (marginal r) else i64_max)"

fun fold_marginals :: "i64 \<times> i64 \<Rightarrow> subagent_token_record list \<Rightarrow> i64 \<times> i64" where
  "fold_marginals acc [] = acc"
| "fold_marginals (all, finished) (r # rs) =
     fold_marginals (sat_add_i64 all (marginal_i64 r),
                     if str_finished r then sat_add_i64 finished (marginal_i64 r) else finished) rs"

definition goal_tokens ::
  "subagent_token_record list \<Rightarrow> i64 \<Rightarrow> goal_tracker \<Rightarrow> (i64 \<times> i64) \<times> goal_tracker" where
  "goal_tokens records current t =
     (case gt_orchestration t of
        None \<Rightarrow> ((0, 0), t)
      | Some o' \<Rightarrow>
          let (subagent_sum, finished_sum) =
                fold_marginals (0, 0) (filter (\<lambda>r. str_goal_id r = Some (o_goal_id o')) records);
              last_seen = (case o_last_session_tokens_seen o' of Some s \<Rightarrow> s | None \<Rightarrow> o_token_baseline o');
              spent = (if current > last_seen
                       then sat_add_i64 (o_parent_tokens_spent o') (wrap_i64 (current - last_seen))
                       else o_parent_tokens_spent o');
              raw = sat_add_i64 spent subagent_sum;
              hw = max (o_tokens_used_high_water o') raw
          in ((hw, finished_sum),
              t\<lparr>gt_orchestration := Some (o'\<lparr>o_parent_tokens_spent := spent,
                   o_last_session_tokens_seen := Some current,
                   o_tokens_used_high_water := hw\<rparr>)\<rparr>))"

end
