(* ===== verification/Graph_Tracker.thy ===== *)
theory Graph_Tracker
  imports Goal_Tracker
begin

text \<open>
  The graph-mode state machine, \<open>session/graph_tracker.rs\<close>: the node and orchestration structs,
  every method of \<open>GraphTracker\<close>, and the two free functions \<open>push_history\<close> and
  \<open>block_dependents\<close>.  A method that returns early without a graph is the identity there; a
  method that answers \<open>bool\<close> returns it with the new tracker.
\<close>

section \<open>Node data\<close>

definition GRAPH_HISTORY_MAX :: nat where
  "GRAPH_HISTORY_MAX = 64"

definition FINAL_NODE_ID :: string where
  "FINAL_NODE_ID = ''gn-final''"

datatype node_status =
    Waiting
  | Ready
  | Running
  | Verifying
  | Achieved
  | Failed
  | NodeBlocked

definition node_status_from_wire_str :: "string \<Rightarrow> node_status" where
  "node_status_from_wire_str s =
     (if s = ''waiting'' then Waiting
      else if s = ''ready'' then Ready
      else if s = ''running'' then Running
      else if s = ''verifying'' then Verifying
      else if s = ''achieved'' then Achieved
      else if s = ''failed'' then Failed
      else if s = ''blocked'' then NodeBlocked
      else Ready)"

definition is_terminal :: "node_status \<Rightarrow> bool" where
  "is_terminal s \<longleftrightarrow> s = Achieved \<or> s = Failed \<or> s = NodeBlocked"

datatype dep_kind = Blocks | DiscoveredFrom

record node_dep =
  dep_on :: string
  dep_kind :: dep_kind

record graph_node =
  n_id :: string
  n_title :: string
  n_spec :: string
  n_deps :: "node_dep list"
  n_status :: node_status
  n_goal_id :: "string option"
  n_rounds :: u32
  n_tokens_used :: i64
  n_failure :: "string option"

text \<open>\<open>deps.iter().filter(|d| d.kind == DepKind::Blocks)\<close>, as the ids the edges point at.\<close>

definition blocks_on :: "graph_node \<Rightarrow> string list" where
  "blocks_on n = map dep_on (filter (\<lambda>d. dep_kind d = Blocks) (n_deps n))"

section \<open>History and orchestration\<close>

datatype graph_event =
    GraphCreated | PlanningStarted | PlanningCompleted | PlanningFailed | NodeStarted
  | NodeAchieved | NodeFailed | GraphPaused | GraphResumed | GraphCompleted | GraphCleared
  | BudgetExceeded | UnknownEvent

record graph_history_entry =
  he_timestamp :: string
  he_event :: graph_event
  he_node_id :: "string option"
  he_detail :: "string option"

definition history_now :: "string \<Rightarrow> graph_event \<Rightarrow> string option \<Rightarrow> string option \<Rightarrow> graph_history_entry" where
  "history_now ts ev nid detail =
     \<lparr>he_timestamp = ts, he_event = ev, he_node_id = nid, he_detail = detail\<rparr>"

record discovery =
  from_node :: string
  description :: string

record graph_orchestration =
  g_graph_id :: string
  g_objective :: string
  g_status :: goal_status
  g_phase :: goal_phase
  g_plan_version :: u32
  g_nodes :: "graph_node list"
  g_current_node :: "string option"
  g_created_at :: string
  g_elapsed_ms :: u64
  g_token_budget :: "i64 option"
  g_tokens_spent_nodes :: i64
  g_history :: "graph_history_entry list"
  g_pause_message :: "string option"
  g_pending_discoveries :: "discovery list"
  g_replan_runs :: u32

record graph_tracker =
  t_session_dir :: string
  t_state :: "graph_orchestration option"
  t_last_probe :: "nat option"

abbreviation on_state :: "(graph_orchestration \<Rightarrow> graph_orchestration) \<Rightarrow> graph_tracker \<Rightarrow> graph_tracker" where
  "on_state f t \<equiv> t\<lparr>t_state := map_option f (t_state t)\<rparr>"

abbreviation on_nodes :: "(graph_node list \<Rightarrow> graph_node list) \<Rightarrow> graph_orchestration \<Rightarrow> graph_orchestration" where
  "on_nodes f s \<equiv> s\<lparr>g_nodes := f (g_nodes s)\<rparr>"

definition push_history :: "graph_history_entry \<Rightarrow> graph_orchestration \<Rightarrow> graph_orchestration" where
  "push_history e s = s\<lparr>g_history := push_capped GRAPH_HISTORY_MAX (g_history s) e\<rparr>"

section \<open>Readiness and blocking\<close>

definition achieved_ids :: "graph_node list \<Rightarrow> string list" where
  "achieved_ids ns = map n_id (filter (\<lambda>n. n_status n = Achieved) ns)"

definition deps_achieved :: "string list \<Rightarrow> graph_node \<Rightarrow> bool" where
  "deps_achieved achieved n \<longleftrightarrow> list_all (\<lambda>i. i \<in> set achieved) (blocks_on n)"

definition promote :: "string list \<Rightarrow> graph_node \<Rightarrow> graph_node" where
  "promote achieved n =
     (if n_status n = Waiting \<and> deps_achieved achieved n then n\<lparr>n_status := Ready\<rparr> else n)"

definition promote_ready :: "graph_node list \<Rightarrow> graph_node list" where
  "promote_ready ns = map (promote (achieved_ids ns)) ns"

definition recompute_ready :: "graph_tracker \<Rightarrow> graph_tracker" where
  "recompute_ready t = on_state (on_nodes promote_ready) t"

text \<open>
  \<open>block_dependents\<close>: one sweep over the nodes marks every non-terminal node with a \<open>Blocks\<close>
  dependency on a blocked id, growing the set as it goes; sweeps repeat until one changes
  nothing.
\<close>

fun block_pass :: "string \<Rightarrow> string list \<Rightarrow> graph_node list \<Rightarrow> graph_node list \<times> string list \<times> bool" where
  "block_pass failed_id blocked [] = ([], blocked, False)"
| "block_pass failed_id blocked (n # ns) =
     (if is_terminal (n_status n) \<or> n_id n \<in> set blocked
      then let (ns', b', ch) = block_pass failed_id blocked ns in (n # ns', b', ch)
      else if list_ex (\<lambda>i. i \<in> set blocked) (blocks_on n)
      then let (ns', b', ch) = block_pass failed_id (n_id n # blocked) ns
           in (n\<lparr>n_status := NodeBlocked,
                  n_failure := Some (''blocked: dependency chain failed at '' @ failed_id)\<rparr> # ns', b', True)
      else let (ns', b', ch) = block_pass failed_id blocked ns in (n # ns', b', ch))"

definition open_count :: "graph_node list \<Rightarrow> nat" where
  "open_count ns = length (filter (\<lambda>n. \<not> is_terminal (n_status n)) ns)"

lemma block_pass_open_count:
  "block_pass f b ns = (ns', b', ch) \<Longrightarrow>
     open_count ns' \<le> open_count ns \<and> (ch \<longrightarrow> open_count ns' < open_count ns)"
proof (induction f b ns arbitrary: ns' b' ch rule: block_pass.induct)
  case (2 f b n ns)
  consider (skip) "is_terminal (n_status n) \<or> n_id n \<in> set b"
    | (hit) "\<not> (is_terminal (n_status n) \<or> n_id n \<in> set b)" "list_ex (\<lambda>i. i \<in> set b) (blocks_on n)"
    | (miss) "\<not> (is_terminal (n_status n) \<or> n_id n \<in> set b)" "\<not> list_ex (\<lambda>i. i \<in> set b) (blocks_on n)"
    by blast
  then show ?case
  proof cases
    case hit
    with 2 show ?thesis
      by (fastforce simp: open_count_def is_terminal_def split: prod.splits)
  qed (use 2 in \<open>fastforce simp: open_count_def split: prod.splits\<close>)+
qed (simp add: open_count_def)

function block_loop :: "string \<Rightarrow> string list \<Rightarrow> graph_node list \<Rightarrow> graph_node list" where
  "block_loop failed_id blocked ns =
     (case block_pass failed_id blocked ns of
        (ns', blocked', changed) \<Rightarrow> if changed then block_loop failed_id blocked' ns' else ns')"
  by pat_completeness auto
termination
  by (relation "measure (\<lambda>(f, b, ns). open_count ns)") (auto dest!: sym [THEN block_pass_open_count])

declare block_loop.simps [simp del]

definition block_dependents :: "string \<Rightarrow> graph_orchestration \<Rightarrow> graph_orchestration" where
  "block_dependents failed_id s = on_nodes (block_loop failed_id [failed_id]) s"

section \<open>Construction, paths and accessors\<close>

definition graph_tracker_new :: "string \<Rightarrow> graph_tracker" where
  "graph_tracker_new dir = \<lparr>t_session_dir = dir, t_state = None, t_last_probe = None\<rparr>"

definition demote_in_flight :: "graph_node \<Rightarrow> graph_node" where
  "demote_in_flight n =
     (if n_status n = Running \<or> n_status n = Verifying then n\<lparr>n_status := Ready\<rparr> else n)"

definition restored_message :: string where
  "restored_message = ''Restored after a restart. Use /graph resume to continue.''"

definition from_snapshot :: "string \<Rightarrow> graph_orchestration \<Rightarrow> graph_tracker" where
  "from_snapshot dir snap =
    (let s1 = (if g_status snap = Active
               then snap\<lparr>g_status := UserPaused, g_pause_message := Some restored_message\<rparr> else snap);
         s2 = s1\<lparr>g_nodes := map demote_in_flight (g_nodes s1), g_current_node := None\<rparr>
     in recompute_ready \<lparr>t_session_dir = dir, t_state = Some s2, t_last_probe = None\<rparr>)"

definition graph_dir :: "graph_tracker \<Rightarrow> string" where
  "graph_dir t = path_join (t_session_dir t) ''graph''"

definition artifacts_dir :: "graph_tracker \<Rightarrow> string" where
  "artifacts_dir t =
     (case t_state t of Some s \<Rightarrow> path_join (graph_dir t) (g_graph_id s) | None \<Rightarrow> graph_dir t)"

definition baseline_path :: "u32 \<Rightarrow> graph_tracker \<Rightarrow> string" where
  "baseline_path version t =
     path_join (artifacts_dir t) (''graph.baseline.v'' @ show_nat (unat version) @ ''.json'')"

definition node_archive_dir :: "string \<Rightarrow> graph_tracker \<Rightarrow> string" where
  "node_archive_dir nid t = path_join (artifacts_dir t) nid"

definition graph_status :: "graph_tracker \<Rightarrow> goal_status option" where
  "graph_status t = map_option g_status (t_state t)"

definition is_active :: "graph_tracker \<Rightarrow> bool" where
  "is_active t \<longleftrightarrow> graph_status t = Some Active"

definition graph_objective :: "graph_tracker \<Rightarrow> string option" where
  "graph_objective t = map_option g_objective (t_state t)"

definition current_node_id :: "graph_tracker \<Rightarrow> string option" where
  "current_node_id t = Option.bind (t_state t) g_current_node"

definition graph_node_of :: "string \<Rightarrow> graph_tracker \<Rightarrow> graph_node option" where
  "graph_node_of nid t = Option.bind (t_state t) (\<lambda>s. find (\<lambda>n. n_id n = nid) (g_nodes s))"

definition remaining_budget :: "graph_tracker \<Rightarrow> i64 option" where
  "remaining_budget t =
     Option.bind (t_state t) (\<lambda>s.
       map_option (\<lambda>b. max (wrap_i64 (b - g_tokens_spent_nodes s)) 0) (g_token_budget s))"

definition next_ready_node :: "graph_tracker \<Rightarrow> graph_node option" where
  "next_ready_node t = Option.bind (t_state t) (\<lambda>s. find (\<lambda>n. n_status n = Ready) (g_nodes s))"

definition all_achieved :: "graph_tracker \<Rightarrow> bool" where
  "all_achieved t =
     (case t_state t of None \<Rightarrow> False
      | Some s \<Rightarrow> g_nodes s \<noteq> [] \<and> list_all (\<lambda>n. n_status n = Achieved) (g_nodes s))"

definition is_wedged :: "graph_tracker \<Rightarrow> bool" where
  "is_wedged t =
     (case t_state t of None \<Rightarrow> False
      | Some s \<Rightarrow> g_nodes s \<noteq> [] \<and> \<not> list_all (\<lambda>n. n_status n = Achieved) (g_nodes s)
                  \<and> \<not> list_ex (\<lambda>n. n_status n = Ready \<or> n_status n = Running) (g_nodes s))"

section \<open>Transitions\<close>

definition create_graph :: "clock \<Rightarrow> string \<Rightarrow> string \<Rightarrow> i64 option \<Rightarrow> string \<Rightarrow> graph_tracker \<Rightarrow> graph_tracker" where
  "create_graph ck gid objective budget created_at t =
     t\<lparr>t_state := Some
        \<lparr>g_graph_id = gid, g_objective = objective, g_status = Active, g_phase = Planning,
         g_plan_version = 1, g_nodes = [], g_current_node = None, g_created_at = created_at,
         g_elapsed_ms = 0, g_token_budget = budget, g_tokens_spent_nodes = 0,
         g_history = [history_now (rfc ck 0) GraphCreated None None,
                      history_now (rfc ck 1) PlanningStarted None None],
         g_pause_message = None, g_pending_discoveries = [], g_replan_runs = 0\<rparr>,
       t_last_probe := Some (inst ck)\<rparr>"

definition install_nodes :: "clock \<Rightarrow> graph_node list \<Rightarrow> graph_tracker \<Rightarrow> graph_tracker" where
  "install_nodes ck nodes t =
     recompute_ready (on_state (\<lambda>s.
       push_history (history_now (rfc ck 0) PlanningCompleted None None)
         (s\<lparr>g_nodes := nodes, g_phase := Executing\<rparr>)) t)"

definition record_planning_failed :: "clock \<Rightarrow> string \<Rightarrow> graph_tracker \<Rightarrow> graph_tracker" where
  "record_planning_failed ck detail t =
     on_state (push_history (history_now (rfc ck 0) PlanningFailed None (Some detail))) t"

definition mark_node_running :: "clock \<Rightarrow> string \<Rightarrow> string \<Rightarrow> graph_tracker \<Rightarrow> graph_tracker" where
  "mark_node_running ck nid goal_id t =
     on_state (\<lambda>s. push_history (history_now (rfc ck 0) NodeStarted (Some nid) None)
       (s\<lparr>g_nodes := update_first (\<lambda>n. n_id n = nid)
                        (\<lambda>n. n\<lparr>n_status := Running, n_goal_id := Some goal_id\<rparr>) (g_nodes s),
          g_current_node := Some nid\<rparr>)) t"

definition mark_node_achieved :: "clock \<Rightarrow> string \<Rightarrow> u32 \<Rightarrow> i64 \<Rightarrow> graph_tracker \<Rightarrow> graph_tracker" where
  "mark_node_achieved ck nid rounds tokens t =
     recompute_ready (on_state (\<lambda>s. push_history (history_now (rfc ck 0) NodeAchieved (Some nid) None)
       (s\<lparr>g_nodes := update_first (\<lambda>n. n_id n = nid)
                        (\<lambda>n. n\<lparr>n_status := Achieved, n_rounds := rounds, n_tokens_used := tokens\<rparr>) (g_nodes s),
          g_tokens_spent_nodes := sat_add_i64 (g_tokens_spent_nodes s) tokens,
          g_current_node := None\<rparr>)) t)"

definition mark_node_failed :: "clock \<Rightarrow> string \<Rightarrow> string \<Rightarrow> graph_tracker \<Rightarrow> graph_tracker" where
  "mark_node_failed ck nid detail t =
     on_state (\<lambda>s. block_dependents nid
       (push_history (history_now (rfc ck 0) NodeFailed (Some nid) (Some detail))
         (s\<lparr>g_nodes := update_first (\<lambda>n. n_id n = nid)
                          (\<lambda>n. n\<lparr>n_status := Failed, n_failure := Some detail\<rparr>) (g_nodes s),
            g_current_node := None\<rparr>))) t"

definition account_elapsed :: "clock \<Rightarrow> graph_tracker \<Rightarrow> graph_tracker" where
  "account_elapsed ck t =
     (case t_state t of
        None \<Rightarrow> t
      | Some s \<Rightarrow>
          if g_status s \<noteq> Active then t
          else t\<lparr>t_state := Some (case t_last_probe t of
                     None \<Rightarrow> s
                   | Some probe \<Rightarrow> s\<lparr>g_elapsed_ms := sat_add_u (g_elapsed_ms s) (millis_since (inst ck) probe)\<rparr>),
                 t_last_probe := Some (inst ck)\<rparr>)"

definition graph_pause_inner ::
  "clock \<Rightarrow> goal_pause_reason \<Rightarrow> string option \<Rightarrow> graph_tracker \<Rightarrow> bool \<times> graph_tracker" where
  "graph_pause_inner ck reason message t0 =
    (let t = account_elapsed ck t0
     in case t_state t of
          None \<Rightarrow> (False, t)
        | Some s \<Rightarrow>
            if g_status s \<noteq> Active then (False, t)
            else (True, t\<lparr>t_state := Some (push_history
                            (history_now (rfc ck 0) GraphPaused (g_current_node s) (Some (history_detail reason)))
                            (s\<lparr>g_status := to_status reason, g_pause_message := message\<rparr>)),
                          t_last_probe := None\<rparr>))"

definition graph_pause :: "clock \<Rightarrow> goal_pause_reason \<Rightarrow> graph_tracker \<Rightarrow> bool \<times> graph_tracker" where
  "graph_pause ck reason t = graph_pause_inner ck reason None t"

definition graph_pause_with_message ::
  "clock \<Rightarrow> goal_pause_reason \<Rightarrow> string \<Rightarrow> graph_tracker \<Rightarrow> bool \<times> graph_tracker" where
  "graph_pause_with_message ck reason m t = graph_pause_inner ck reason (Some m) t"

definition graph_resume :: "clock \<Rightarrow> graph_tracker \<Rightarrow> bool \<times> graph_tracker" where
  "graph_resume ck t =
     (case t_state t of
        None \<Rightarrow> (False, t)
      | Some s \<Rightarrow>
          if \<not> is_paused (g_status s) then (False, t)
          else (True, recompute_ready (t\<lparr>t_state := Some (push_history
                          (history_now (rfc ck 0) GraphResumed None None)
                          (s\<lparr>g_status := Active, g_pause_message := None\<rparr>)),
                        t_last_probe := Some (inst ck)\<rparr>)))"

definition graph_complete :: "clock \<Rightarrow> graph_tracker \<Rightarrow> bool \<times> graph_tracker" where
  "graph_complete ck t0 =
    (let t = account_elapsed ck t0
     in case t_state t of
          None \<Rightarrow> (False, t)
        | Some s \<Rightarrow>
            if g_status s \<noteq> Active then (False, t)
            else (True, t\<lparr>t_state := Some (push_history
                            (history_now (rfc ck 0) GraphCompleted None None)
                            (s\<lparr>g_status := Complete, g_pause_message := None\<rparr>)),
                          t_last_probe := None\<rparr>))"

definition graph_budget_limit :: "clock \<Rightarrow> graph_tracker \<Rightarrow> bool \<times> graph_tracker" where
  "graph_budget_limit ck t0 =
    (let t = account_elapsed ck t0
     in case t_state t of
          None \<Rightarrow> (False, t)
        | Some s \<Rightarrow>
            if g_status s \<noteq> Active then (False, t)
            else (True, t\<lparr>t_state := Some (push_history
                            (history_now (rfc ck 0) BudgetExceeded (g_current_node s) None)
                            (s\<lparr>g_nodes := map demote_in_flight (g_nodes s), g_current_node := None,
                               g_status := BudgetLimited, g_pause_message := None\<rparr>)),
                          t_last_probe := None\<rparr>))"

definition resume_budget_limited :: "clock \<Rightarrow> i64 \<Rightarrow> graph_tracker \<Rightarrow> bool \<times> graph_tracker" where
  "resume_budget_limited ck extra t =
     (case t_state t of
        None \<Rightarrow> (False, t)
      | Some s \<Rightarrow>
          if g_status s \<noteq> BudgetLimited \<or> extra \<le> 0 then (False, t)
          else (True, recompute_ready (t\<lparr>t_state := Some (push_history
                          (history_now (rfc ck 0) GraphResumed None
                             (Some (''budget topped up by '' @ show_int extra)))
                          (s\<lparr>g_token_budget := Some (sat_add_i64 (g_tokens_spent_nodes s) extra),
                             g_status := Active, g_pause_message := None\<rparr>)),
                        t_last_probe := Some (inst ck)\<rparr>)))"

definition graph_clear :: "graph_tracker \<Rightarrow> graph_tracker" where
  "graph_clear t = t\<lparr>t_state := None, t_last_probe := None\<rparr>"

definition append_history :: "graph_history_entry \<Rightarrow> graph_tracker \<Rightarrow> graph_tracker" where
  "append_history e t = on_state (push_history e) t"

section \<open>Replanning, optimizing, budget\<close>

fun queue_from :: "clock \<Rightarrow> nat \<Rightarrow> discovery list \<Rightarrow> graph_orchestration \<Rightarrow> graph_orchestration" where
  "queue_from ck i [] s = s"
| "queue_from ck i (d # ds) s =
     queue_from ck (Suc i) ds
       (let s1 = push_history (history_now (rfc ck i) UnknownEvent (Some (from_node d))
                   (Some (''discovered: '' @ description d))) s
        in s1\<lparr>g_pending_discoveries := g_pending_discoveries s1 @ [d]\<rparr>)"

definition queue_discoveries :: "clock \<Rightarrow> discovery list \<Rightarrow> graph_tracker \<Rightarrow> graph_tracker" where
  "queue_discoveries ck ds t = on_state (queue_from ck 0 ds) t"

text \<open>The terminal node's gate grows by the new ids it does not list yet.\<close>

fun gate_push :: "string list \<Rightarrow> node_dep list \<Rightarrow> node_dep list" where
  "gate_push [] deps = deps"
| "gate_push (i # is) deps =
     gate_push is (if i \<noteq> FINAL_NODE_ID \<and> \<not> list_ex (\<lambda>d. dep_on d = i) deps
                   then deps @ [\<lparr>dep_on = i, dep_kind = Blocks\<rparr>] else deps)"

definition regate_final :: "string list \<Rightarrow> graph_node \<Rightarrow> graph_node" where
  "regate_final new_ids n =
     n\<lparr>n_deps := gate_push new_ids (n_deps n),
       n_status := (if n_status n = Ready then Waiting else n_status n)\<rparr>"

definition append_replan_nodes :: "clock \<Rightarrow> graph_node list \<Rightarrow> graph_tracker \<Rightarrow> graph_tracker" where
  "append_replan_nodes ck new_nodes t =
     recompute_ready (on_state (\<lambda>s.
       let new_ids = map n_id new_nodes;
           s1 = s\<lparr>g_nodes := update_first (\<lambda>n. n_id n = FINAL_NODE_ID) (regate_final new_ids)
                               (g_nodes s @ new_nodes),
                  g_plan_version := g_plan_version s + 1,
                  g_replan_runs := g_replan_runs s + 1,
                  g_pending_discoveries := []\<rparr>
       in push_history (history_now (rfc ck 0) PlanningCompleted None
            (Some (''replan v'' @ show_nat (unat (g_plan_version s1)) @ '': +'' @
                   show_nat (length new_ids) @ '' node(s)''))) s1) t)"

definition install_optimized_nodes :: "clock \<Rightarrow> graph_node list \<Rightarrow> graph_tracker \<Rightarrow> graph_tracker" where
  "install_optimized_nodes ck nodes t =
     recompute_ready (on_state (\<lambda>s.
       let s1 = s\<lparr>g_nodes := nodes,
                  g_plan_version := g_plan_version s + 1,
                  g_replan_runs := g_replan_runs s + 1\<rparr>
       in push_history (history_now (rfc ck 0) PlanningCompleted None
            (Some (''optimized to v'' @ show_nat (unat (g_plan_version s1))))) s1) t)"

definition drain_discoveries_to_history :: "graph_tracker \<Rightarrow> nat \<times> graph_tracker" where
  "drain_discoveries_to_history t =
     (case t_state t of
        None \<Rightarrow> (0, t)
      | Some s \<Rightarrow> (length (g_pending_discoveries s),
                   t\<lparr>t_state := Some (s\<lparr>g_pending_discoveries := []\<rparr>)\<rparr>))"

definition demote_orphaned_in_flight :: "string option \<Rightarrow> graph_tracker \<Rightarrow> graph_tracker" where
  "demote_orphaned_in_flight keep t =
     recompute_ready (on_state (\<lambda>s.
       s\<lparr>g_nodes := map (\<lambda>n. if keep \<noteq> Some (n_id n) then demote_in_flight n else n) (g_nodes s),
         g_current_node := keep\<rparr>) t)"

definition charge_node_tokens :: "string \<Rightarrow> i64 \<Rightarrow> graph_tracker \<Rightarrow> graph_tracker" where
  "charge_node_tokens nid tokens t =
     on_state (\<lambda>s.
       s\<lparr>g_nodes := update_first (\<lambda>n. n_id n = nid) (\<lambda>n. n\<lparr>n_tokens_used := tokens\<rparr>) (g_nodes s),
         g_tokens_spent_nodes := sat_add_i64 (g_tokens_spent_nodes s) tokens\<rparr>) t"

end
