(* ===== verification/Graph_Schedule.thy ===== *)
theory Graph_Schedule
  imports Graph_Tracker
begin

text \<open>
  What a graph must satisfy for its scheduling to be right, and that the node-level operations of
  \<open>Graph_Tracker\<close> keep it: well-formedness of the DAG (\<open>wf_nodes\<close>), the agreement of node
  statuses with the \<open>Blocks\<close> edges (\<open>sched_ok\<close>), and the gate of the terminal verification
  node (\<open>final_gate\<close>).  The main results are that the fixed-point loop of
  \<open>block_dependents\<close> marks exactly the transitive dependents, and that a graph with waiting
  work always has a node that is ready or in flight.
\<close>

section \<open>Well-formed graphs\<close>

definition node_ids :: "graph_node list \<Rightarrow> string list" where
  "node_ids ns = map n_id ns"

definition dep_ids :: "graph_node \<Rightarrow> string list" where
  "dep_ids n = map dep_on (n_deps n)"

text \<open>The dependency relation: \<open>(d, n)\<close> when node \<open>n\<close> has an edge, of any kind, onto \<open>d\<close>.\<close>

definition edges :: "graph_node list \<Rightarrow> (string \<times> string) set" where
  "edges ns = {(d, n_id n) | d n. n \<in> set ns \<and> d \<in> set (dep_ids n)}"

definition wf_nodes :: "graph_node list \<Rightarrow> bool" where
  "wf_nodes ns \<longleftrightarrow>
     distinct (node_ids ns)
   \<and> (\<forall>n \<in> set ns. set (dep_ids n) \<subseteq> set (node_ids ns) \<and> distinct (dep_ids n))
   \<and> acyclic (edges ns)"

text \<open>The terminal node is there and depends, with \<open>Blocks\<close> edges, on every other node.\<close>

definition final_gate :: "graph_node list \<Rightarrow> bool" where
  "final_gate ns \<longleftrightarrow>
     FINAL_NODE_ID \<in> set (node_ids ns)
   \<and> (\<forall>n \<in> set ns. n_id n = FINAL_NODE_ID \<longrightarrow>
        set (node_ids ns) - {FINAL_NODE_ID} \<subseteq> set (blocks_on n))"

section \<open>Statuses that agree with the edges\<close>

definition started :: "node_status \<Rightarrow> bool" where
  "started st \<longleftrightarrow> st \<noteq> Waiting \<and> st \<noteq> NodeBlocked"

definition dead :: "node_status \<Rightarrow> bool" where
  "dead st \<longleftrightarrow> st = Failed \<or> st = NodeBlocked"

text \<open>A node that is ready, in flight or settled had all its \<open>Blocks\<close> dependencies achieved.\<close>

definition order_ok :: "graph_node list \<Rightarrow> bool" where
  "order_ok ns \<longleftrightarrow>
     (\<forall>n \<in> set ns. started (n_status n) \<longrightarrow> set (blocks_on n) \<subseteq> set (achieved_ids ns))"

text \<open>A dependent of a failed or blocked node does not wait for it.\<close>

definition dead_closed :: "graph_node list \<Rightarrow> bool" where
  "dead_closed ns \<longleftrightarrow>
     (\<forall>n \<in> set ns. \<forall>m \<in> set ns. n_id m \<in> set (blocks_on n) \<and> dead (n_status m) \<longrightarrow> n_status n \<noteq> Waiting)"

text \<open>A blocked node has a failed or blocked dependency to blame.\<close>

definition blocked_justified :: "graph_node list \<Rightarrow> bool" where
  "blocked_justified ns \<longleftrightarrow>
     (\<forall>n \<in> set ns. n_status n = NodeBlocked \<longrightarrow>
        (\<exists>m \<in> set ns. n_id m \<in> set (blocks_on n) \<and> dead (n_status m)))"

text \<open>No node waits with nothing to wait for.\<close>

definition promoted :: "graph_node list \<Rightarrow> bool" where
  "promoted ns \<longleftrightarrow>
     (\<forall>n \<in> set ns. n_status n = Waiting \<longrightarrow> \<not> set (blocks_on n) \<subseteq> set (achieved_ids ns))"

definition settled_ok :: "graph_node list \<Rightarrow> bool" where
  "settled_ok ns \<longleftrightarrow> order_ok ns \<and> dead_closed ns \<and> blocked_justified ns"

definition sched_ok :: "graph_node list \<Rightarrow> bool" where
  "sched_ok ns \<longleftrightarrow> settled_ok ns \<and> promoted ns"

definition graph_ok :: "graph_node list \<Rightarrow> bool" where
  "graph_ok ns \<longleftrightarrow> wf_nodes ns \<and> final_gate ns \<and> sched_ok ns"

lemmas sched_defs = order_ok_def dead_closed_def blocked_justified_def promoted_def settled_ok_def sched_ok_def

section \<open>Elementary facts\<close>

lemma achieved_ids_iff: "i \<in> set (achieved_ids ns) \<longleftrightarrow> (\<exists>n \<in> set ns. n_id n = i \<and> n_status n = Achieved)"
  by (auto simp: achieved_ids_def)

lemma deps_achieved_iff: "deps_achieved a n \<longleftrightarrow> set (blocks_on n) \<subseteq> set a"
  by (auto simp: deps_achieved_def list_all_iff)

lemma blocks_on_dep_ids: "set (blocks_on n) \<subseteq> set (dep_ids n)"
  by (auto simp: blocks_on_def dep_ids_def)

lemma node_ids_simps [simp]:
  "node_ids [] = []" "node_ids (n # ns) = n_id n # node_ids ns" "node_ids (xs @ ys) = node_ids xs @ node_ids ys"
  "length (node_ids ns) = length ns"
  by (simp_all add: node_ids_def)

lemma set_node_ids: "set (node_ids ns) = n_id ` set ns"
  by (simp add: node_ids_def)

lemma edges_Union: "edges ns = (\<Union>n \<in> set ns. set (dep_ids n) \<times> {n_id n})"
  by (auto simp: edges_def)

lemma edges_append: "edges (xs @ ys) = edges xs \<union> edges ys"
  and edges_single: "edges [n] = set (dep_ids n) \<times> {n_id n}"
  by (auto simp: edges_Union)

lemma node_eqI: "distinct (node_ids ns) \<Longrightarrow> m \<in> set ns \<Longrightarrow> n \<in> set ns \<Longrightarrow> n_id m = n_id n \<Longrightarrow> m = n"
  unfolding node_ids_def by (metis distinct_map inj_onD)

lemma wf_nodes_distinct: "wf_nodes ns \<Longrightarrow> distinct (node_ids ns)"
  by (simp add: wf_nodes_def)

text \<open>Operations that keep ids and edges keep everything that depends on them only.\<close>

definition shape :: "graph_node list \<Rightarrow> (string \<times> node_dep list) list" where
  "shape ns = map (\<lambda>n. (n_id n, n_deps n)) ns"

lemma shape_map: "(\<And>n. n \<in> set ns \<Longrightarrow> n_id (f n) = n_id n \<and> n_deps (f n) = n_deps n) \<Longrightarrow> shape (map f ns) = shape ns"
  by (simp add: shape_def)

lemma shape_node_ids: "shape ns = shape ms \<Longrightarrow> node_ids ns = node_ids ms"
proof -
  assume "shape ns = shape ms"
  then have "map fst (shape ns) = map fst (shape ms)" by simp
  then show ?thesis by (simp add: shape_def node_ids_def comp_def)
qed

lemma shape_edges_alt: "edges ns = {(dep_on d, i) | i ds d. (i, ds) \<in> set (shape ns) \<and> d \<in> set ds}"
  by (auto simp: edges_def dep_ids_def shape_def)

lemma shape_wf_alt:
  "(\<forall>n \<in> set ns. set (dep_ids n) \<subseteq> A \<and> distinct (dep_ids n)) \<longleftrightarrow>
   (\<forall>p \<in> set (shape ns). dep_on ` set (snd p) \<subseteq> A \<and> distinct (map dep_on (snd p)))"
  by (simp add: dep_ids_def shape_def)

lemma wf_nodes_shape:
  assumes "shape ns = shape ms"
  shows "wf_nodes ns \<longleftrightarrow> wf_nodes ms"
  unfolding wf_nodes_def shape_edges_alt shape_wf_alt assms shape_node_ids [OF assms] ..

lemma final_gate_alt:
  "final_gate ns \<longleftrightarrow> FINAL_NODE_ID \<in> set (node_ids ns) \<and>
     (\<forall>p \<in> set (shape ns). fst p = FINAL_NODE_ID \<longrightarrow>
        set (node_ids ns) - {FINAL_NODE_ID} \<subseteq> dep_on ` set (filter (\<lambda>d. dep_kind d = Blocks) (snd p)))"
  by (auto simp: final_gate_def shape_def blocks_on_def)

lemma final_gate_shape:
  assumes "shape ns = shape ms"
  shows "final_gate ns \<longleftrightarrow> final_gate ms"
  unfolding final_gate_alt assms shape_node_ids [OF assms] ..

section \<open>The blocking loop is the transitive closure\<close>

definition blk :: "string \<Rightarrow> graph_node \<Rightarrow> graph_node" where
  "blk f n = n\<lparr>n_status := NodeBlocked,
               n_failure := Some (''blocked: dependency chain failed at '' @ f)\<rparr>"

text \<open>An edge the loop can follow: onto a node that is still open.\<close>

definition open_edges :: "graph_node list \<Rightarrow> (string \<times> string) set" where
  "open_edges ns = {(d, n_id n) | d n. n \<in> set ns \<and> \<not> is_terminal (n_status n) \<and> d \<in> set (blocks_on n)}"

definition mark_blocked :: "string \<Rightarrow> string set \<Rightarrow> graph_node list \<Rightarrow> graph_node list" where
  "mark_blocked f B ns = map (\<lambda>n. if n_id n \<in> B then blk f n else n) ns"

lemma blk_simps [simp]:
  "n_id (blk f n) = n_id n" "n_deps (blk f n) = n_deps n" "blocks_on (blk f n) = blocks_on n"
  "n_status (blk f n) = NodeBlocked" "is_terminal NodeBlocked"
  by (simp_all add: blk_def blocks_on_def is_terminal_def)

lemma mark_blocked_cong:
  "(\<And>n. n \<in> set ns \<Longrightarrow> n_id n \<in> A \<longleftrightarrow> n_id n \<in> B) \<Longrightarrow> mark_blocked f A ns = mark_blocked f B ns"
  by (simp add: mark_blocked_def)

lemma mark_blocked_simps [simp]:
  "mark_blocked f A [] = []"
  "mark_blocked f A (n # ns) = (if n_id n \<in> A then blk f n else n) # mark_blocked f A ns"
  "node_ids (mark_blocked f A ns) = node_ids ns" "shape (mark_blocked f A ns) = shape ns"
  by (simp_all add: mark_blocked_def node_ids_def shape_def comp_def)

text \<open>What one sweep does: \<open>b'\<close> is the blocked set it leaves.\<close>

definition open_ids :: "graph_node list \<Rightarrow> string set" where
  "open_ids ns = {n_id n | n. n \<in> set ns \<and> \<not> is_terminal (n_status n)}"

definition swept :: "string set \<Rightarrow> string set \<Rightarrow> graph_node list \<Rightarrow> bool" where
  "swept b b' ns \<longleftrightarrow> b \<subseteq> b' \<and> b' - b \<subseteq> open_ids ns \<and> b' \<subseteq> (open_edges ns)\<^sup>* `` b"

definition swept_closed :: "string set \<Rightarrow> graph_node list \<Rightarrow> bool" where
  "swept_closed b ns \<longleftrightarrow>
     (\<forall>n \<in> set ns. \<not> is_terminal (n_status n) \<and> n_id n \<notin> b \<longrightarrow> set (blocks_on n) \<inter> b = {})"

lemma list_ex_blocked: "list_ex (\<lambda>i. i \<in> set b) xs \<longleftrightarrow> set xs \<inter> set b \<noteq> {}"
  by (auto simp: list_ex_iff)

lemma open_ids_sub: "open_ids ns \<subseteq> set (node_ids ns)"
  by (auto simp: open_ids_def set_node_ids)

lemma open_edges_Cons: "open_edges ns \<subseteq> open_edges (n # ns)"
  by (auto simp: open_edges_def)

lemma swept_Cons: "swept b b' ns \<Longrightarrow> swept b b' (n # ns)"
  using Image_mono [OF rtrancl_mono [OF open_edges_Cons] subset_refl, of ns b n] unfolding swept_def
  by (auto simp: open_ids_def)

lemma swept_hit:
  assumes "swept (insert (n_id n) b) b' ns" and "\<not> is_terminal (n_status n)" and "set (blocks_on n) \<inter> b \<noteq> {}"
  shows "swept b b' (n # ns)"
proof -
  obtain x where x: "x \<in> b" "(x, n_id n) \<in> open_edges (n # ns)"
    using assms(2,3) by (auto simp: open_edges_def)
  have "b' \<subseteq> (open_edges (n # ns))\<^sup>* `` insert (n_id n) b"
    using swept_Cons [OF assms(1), of n] by (simp add: swept_def)
  with x have "b' \<subseteq> (open_edges (n # ns))\<^sup>* `` b"
    by (auto intro: converse_rtrancl_into_rtrancl)
  with assms(1,2) show ?thesis by (auto simp: swept_def open_ids_def)
qed

lemma block_pass_spec:
  "block_pass f b ns = (ns', b', ch) \<Longrightarrow> distinct (node_ids ns) \<Longrightarrow>
     swept (set b) (set b') ns \<and> ns' = mark_blocked f (set b' - set b) ns \<and>
     (\<not> ch \<longrightarrow> set b' = set b \<and> swept_closed (set b) ns)"
proof (induction ns arbitrary: b ns' b' ch)
  case Nil
  then show ?case by (auto simp: swept_def swept_closed_def)
next
  case (Cons n ns)
  have dist: "n_id n \<notin> set (node_ids ns)" "distinct (node_ids ns)" using Cons.prems(2) by auto
  let ?skip = "is_terminal (n_status n) \<or> n_id n \<in> set b"
  let ?hit = "set (blocks_on n) \<inter> set b \<noteq> {}"
  show ?case
  proof (cases "\<not> ?skip \<and> ?hit")
    case True
    then obtain ms ch1 where r: "block_pass f (n_id n # b) ns = (ms, b', ch1)" "ns' = blk f n # ms" "ch"
      using Cons.prems(1) by (auto simp: list_ex_blocked blk_def split: prod.splits)
    from Cons.IH [OF r(1) dist(2)]
    have IH: "swept (insert (n_id n) (set b)) (set b') ns"
      "ms = mark_blocked f (set b' - insert (n_id n) (set b)) ns" by auto
    have "n_id m \<noteq> n_id n" if "m \<in> set ns" for m using that dist(1) by (metis imageI set_node_ids)
    then have "ms = mark_blocked f (set b' - set b) ns"
      unfolding IH(2) by (intro mark_blocked_cong) simp
    moreover have "swept (set b) (set b') (n # ns)"
      using swept_hit IH(1) True by blast
    ultimately show ?thesis using r True IH(1) by (auto simp: swept_def)
  next
    case False
    then obtain ms where r: "block_pass f b ns = (ms, b', ch)" "ns' = n # ms"
      using Cons.prems(1) by (auto simp: list_ex_blocked split: prod.splits if_splits)
    note IH = Cons.IH [OF r(1) dist(2)]
    then have "n_id n \<notin> set b' - set b" using dist(1) open_ids_sub [of ns] by (auto simp: swept_def)
    moreover have "\<not> ch \<longrightarrow> set b' = set b \<and> swept_closed (set b) (n # ns)"
      using IH False by (auto simp: swept_closed_def)
    ultimately show ?thesis using IH r(2) swept_Cons by auto
  qed
qed

lemma mark_blocked_mark_blocked: "mark_blocked f B (mark_blocked f A ns) = mark_blocked f (A \<union> B) ns"
  by (auto simp: mark_blocked_def blk_def)

lemma open_edges_mark_blocked: "open_edges (mark_blocked f A ns) \<subseteq> open_edges ns"
  by (auto simp: open_edges_def mark_blocked_def split: if_splits)

lemma open_ids_mark_blocked: "open_ids (mark_blocked f A ns) \<subseteq> open_ids ns"
  by (auto simp: open_ids_def mark_blocked_def split: if_splits)

lemma swept_closed_mark_blocked: "swept_closed B (mark_blocked f A ns) \<Longrightarrow> A \<subseteq> B \<Longrightarrow> swept_closed B ns"
  by (fastforce simp: swept_closed_def mark_blocked_def)

lemma swept_trans:
  "swept a b ns \<Longrightarrow> swept b c (mark_blocked f A ns) \<Longrightarrow> swept a c ns"
proof -
  assume 1: "swept a b ns" and 2: "swept b c (mark_blocked f A ns)"
  have "c \<subseteq> (open_edges ns)\<^sup>* `` b"
    using 2 Image_mono [OF rtrancl_mono [OF open_edges_mark_blocked] subset_refl, of f A ns b]
    by (auto simp: swept_def)
  also have "\<dots> \<subseteq> (open_edges ns)\<^sup>* `` a"
    using 1 unfolding swept_def by (blast intro: rtrancl_trans)
  finally show ?thesis using 1 2 open_ids_mark_blocked [of f A ns] by (auto simp: swept_def)
qed

lemma block_loop_ex:
  "distinct (node_ids ns) \<Longrightarrow>
     \<exists>B. swept (set b) B ns \<and> swept_closed B ns \<and> block_loop f b ns = mark_blocked f (B - set b) ns"
proof (induction f b ns rule: block_loop.induct)
  case (1 f b ns)
  obtain ns' b' ch where r: "block_pass f b ns = (ns', b', ch)" by (metis prod_cases3)
  note p = block_pass_spec [OF r 1(2)]
  show ?case
  proof (cases ch)
    case False
    with p r show ?thesis by (intro exI [of _ "set b'"]) (simp add: block_loop.simps, metis)
  next
    case True
    have "distinct (node_ids ns')" using p 1(2) by simp
    from 1(1) [OF r [symmetric] refl True this] obtain B where
      B: "swept (set b') B ns'" "swept_closed B ns'" "block_loop f b' ns' = mark_blocked f (B - set b') ns'"
      by blast
    have sub: "set b \<subseteq> set b'" "set b' \<subseteq> B" using p B(1) by (auto simp: swept_def)
    have "swept (set b) B ns" using p B(1) swept_trans by blast
    moreover have "swept_closed B ns" using B(2) p sub(2) swept_closed_mark_blocked by blast
    moreover have "set b' - set b \<union> (B - set b') = B - set b" using sub by blast
    then have "block_loop f b ns = mark_blocked f (B - set b) ns"
      using r True B(3) p by (simp add: block_loop.simps [of f b] mark_blocked_mark_blocked)
    ultimately show ?thesis by blast
  qed
qed

lemma swept_closed_reach:
  assumes "swept_closed B ns" and "b \<subseteq> B"
  shows "(open_edges ns)\<^sup>* `` b \<subseteq> B"
proof -
  have "i \<in> B" if "(j, i) \<in> (open_edges ns)\<^sup>*" "j \<in> b" for i j
    using that by (induction rule: rtrancl_induct) (use assms in \<open>auto simp: swept_closed_def open_edges_def\<close>)
  then show ?thesis by blast
qed

text \<open>The loop marks exactly the open nodes that depend, through open nodes, on the failed one.\<close>

lemma block_loop_closure:
  assumes "distinct (node_ids ns)"
  shows "block_loop f [f] ns = mark_blocked f ((open_edges ns)\<^sup>+ `` {f} - {f}) ns"
proof -
  obtain B where B: "swept {f} B ns" "swept_closed B ns" "block_loop f [f] ns = mark_blocked f (B - {f}) ns"
    using block_loop_ex [OF assms, of "[f]" f] by auto
  then have "B = (open_edges ns)\<^sup>* `` {f}"
    using swept_closed_reach [of B ns "{f}"] by (auto simp: swept_def)
  then have "B - {f} = (open_edges ns)\<^sup>+ `` {f} - {f}"
    by (auto simp: rtrancl_eq_or_trancl)
  with B(3) show ?thesis by simp
qed

section \<open>Status updates\<close>

text \<open>The status-changing operations map over the nodes and keep ids and edges.\<close>

definition keeps :: "(graph_node \<Rightarrow> graph_node) \<Rightarrow> bool" where
  "keeps f \<longleftrightarrow> (\<forall>n. n_id (f n) = n_id n \<and> n_deps (f n) = n_deps n)"

lemma keepsD: "keeps f \<Longrightarrow> n_id (f n) = n_id n" "keeps f \<Longrightarrow> n_deps (f n) = n_deps n"
  "keeps f \<Longrightarrow> blocks_on (f n) = blocks_on n"
  by (simp_all add: keeps_def blocks_on_def)

lemma keeps_shape: "keeps f \<Longrightarrow> shape (map f ns) = shape ns"
  by (rule shape_map) (simp add: keepsD)

lemma achieved_map:
  "keeps f \<Longrightarrow> i \<in> set (achieved_ids (map f ns)) \<longleftrightarrow> (\<exists>n \<in> set ns. n_id n = i \<and> n_status (f n) = Achieved)"
  by (simp add: achieved_ids_iff keeps_def)

lemma achieved_map_same:
  assumes "keeps f" "\<And>n. n \<in> set ns \<Longrightarrow> n_status (f n) = Achieved \<longleftrightarrow> n_status n = Achieved"
  shows "set (achieved_ids (map f ns)) = set (achieved_ids ns)"
proof (rule set_eqI)
  fix i
  have "(\<exists>n \<in> set ns. n_id n = i \<and> n_status (f n) = Achieved) \<longleftrightarrow> (\<exists>n \<in> set ns. n_id n = i \<and> n_status n = Achieved)"
    using assms(2) by blast
  then show "i \<in> set (achieved_ids (map f ns)) \<longleftrightarrow> i \<in> set (achieved_ids ns)"
    unfolding achieved_map [OF assms(1)] by (simp add: achieved_ids_iff)
qed

lemma update_first_id:
  "distinct (node_ids ns) \<Longrightarrow>
     update_first (\<lambda>n. n_id n = i) g ns = map (\<lambda>n. if n_id n = i then g n else n) ns"
  by (rule update_first_key) (simp add: node_ids_def)

text \<open>
  A quiet step kills and unblocks nobody, takes no node back to \<open>Waiting\<close>, keeps achieved nodes
  achieved, and starts a node only when its dependencies are achieved.
\<close>

definition quiet :: "(graph_node \<Rightarrow> graph_node) \<Rightarrow> graph_node list \<Rightarrow> bool" where
  "quiet f ns \<longleftrightarrow> keeps f \<and>
     (\<forall>n \<in> set ns.
        (n_status n = Achieved \<longrightarrow> n_status (f n) = Achieved) \<and>
        (started (n_status (f n)) \<longrightarrow> started (n_status n) \<or> set (blocks_on n) \<subseteq> set (achieved_ids ns)) \<and>
        (n_status (f n) = Waiting \<longrightarrow> n_status n = Waiting) \<and>
        (n_status (f n) = Failed \<longleftrightarrow> n_status n = Failed) \<and>
        (n_status (f n) = NodeBlocked \<longleftrightarrow> n_status n = NodeBlocked))"

lemma quiet_settled:
  assumes q: "quiet f ns" and s: "settled_ok ns"
  shows "settled_ok (map f ns)"
proof -
  have "keeps f" using q by (simp add: quiet_def)
  note [simp] = keepsD [OF this] and ach_map = achieved_map [OF this]
  have dead: "dead (n_status (f n)) \<longleftrightarrow> dead (n_status n)" if "n \<in> set ns" for n
    using q that by (simp add: quiet_def dead_def)
  have ach: "set (achieved_ids ns) \<subseteq> set (achieved_ids (map f ns))"
  proof
    fix i assume "i \<in> set (achieved_ids ns)"
    then obtain n where "n \<in> set ns" "n_id n = i" "n_status n = Achieved" by (auto simp: achieved_ids_iff)
    with q show "i \<in> set (achieved_ids (map f ns))" unfolding ach_map quiet_def by blast
  qed
  have "order_ok (map f ns)"
  proof (unfold order_ok_def, rule ballI, rule impI)
    fix n' assume "n' \<in> set (map f ns)" "started (n_status n')"
    then obtain n where n: "n \<in> set ns" "n' = f n" "started (n_status (f n))" by auto
    then have "started (n_status n) \<or> set (blocks_on n) \<subseteq> set (achieved_ids ns)"
      using q by (simp add: quiet_def)
    then have "set (blocks_on n) \<subseteq> set (achieved_ids ns)"
      using s n(1) by (auto simp: settled_ok_def order_ok_def)
    with ach n(2) show "set (blocks_on n') \<subseteq> set (achieved_ids (map f ns))" by simp
  qed
  moreover have "dead_closed (map f ns)"
    using q s dead unfolding quiet_def settled_ok_def dead_closed_def by (auto 0 3)
  moreover have "blocked_justified (map f ns)"
    using q s dead unfolding quiet_def settled_ok_def blocked_justified_def by (auto 0 3)
  ultimately show ?thesis by (simp add: settled_ok_def)
qed

lemma promote_simps [simp]: "n_id (promote a n) = n_id n" "n_deps (promote a n) = n_deps n"
  "n_status (promote a n) = (if n_status n = Waiting \<and> set (blocks_on n) \<subseteq> set a then Ready else n_status n)"
  by (simp_all add: promote_def deps_achieved_iff)

lemma keeps_promote [simp]: "keeps (promote a)"
  by (simp add: keeps_def)

lemma promote_ready_achieved: "set (achieved_ids (promote_ready ns)) = set (achieved_ids ns)"
  unfolding promote_ready_def by (rule achieved_map_same) simp_all

lemma promote_ready_shape [simp]: "shape (promote_ready ns) = shape ns"
  by (simp add: promote_ready_def keeps_shape)

text \<open>\<open>recompute_ready\<close> completes a settled graph to a schedulable one.\<close>

lemma promote_ready_sched:
  assumes "settled_ok ns"
  shows "sched_ok (promote_ready ns)"
proof -
  have "quiet (promote (achieved_ids ns)) ns"
    by (auto simp: quiet_def started_def)
  then have "settled_ok (promote_ready ns)"
    using assms quiet_settled by (simp add: promote_ready_def)
  moreover have "promoted (promote_ready ns)"
    unfolding promoted_def promote_ready_achieved
    by (auto simp: promote_ready_def keepsD(3) [OF keeps_promote] split: if_splits)
  ultimately show ?thesis by (simp add: sched_ok_def)
qed

lemma promoted_map:
  assumes "promoted ns" and "keeps f"
    and "\<And>n. n \<in> set ns \<Longrightarrow> n_status (f n) = Achieved \<Longrightarrow> n_status n = Achieved"
    and "\<And>n. n \<in> set ns \<Longrightarrow> n_status (f n) = Waiting \<Longrightarrow> n_status n = Waiting"
  shows "promoted (map f ns)"
proof -
  have "set (achieved_ids (map f ns)) \<subseteq> set (achieved_ids ns)"
  proof
    fix i assume "i \<in> set (achieved_ids (map f ns))"
    then obtain n where "n \<in> set ns" "n_id n = i" "n_status (f n) = Achieved"
      using achieved_map [OF assms(2)] by blast
    with assms(3) show "i \<in> set (achieved_ids ns)" unfolding achieved_ids_iff by blast
  qed
  then have "\<not> set (blocks_on n) \<subseteq> set (achieved_ids (map f ns))"
    if "n \<in> set ns" "n_status (f n) = Waiting" for n
    using that assms(1,4) unfolding promoted_def by (meson order_trans)
  then show ?thesis unfolding promoted_def by (simp add: keepsD(3) [OF assms(2)])
qed

lemma graph_ok_shape: "shape ns = shape ms \<Longrightarrow> graph_ok ms \<Longrightarrow> sched_ok ns \<Longrightarrow> graph_ok ns"
  by (simp add: graph_ok_def wf_nodes_shape [of ns ms] final_gate_shape [of ns ms])

section \<open>Every operation on nodes keeps a good graph\<close>

definition st_of :: "graph_node list \<Rightarrow> string \<Rightarrow> node_status option" where
  "st_of ns i = map_option n_status (find (\<lambda>n. n_id n = i) ns)"

definition in_flight :: "node_status \<Rightarrow> bool" where
  "in_flight st \<longleftrightarrow> st = Running \<or> st = Verifying"

definition live :: "node_status \<Rightarrow> bool" where
  "live st \<longleftrightarrow> st = Ready \<or> in_flight st"

lemmas status_defs = started_def dead_def in_flight_def live_def is_terminal_def

abbreviation upd :: "string \<Rightarrow> (graph_node \<Rightarrow> graph_node) \<Rightarrow> graph_node list \<Rightarrow> graph_node list" where
  "upd i g ns \<equiv> update_first (\<lambda>n. n_id n = i) g ns"

lemma st_of_iff: "distinct (node_ids ns) \<Longrightarrow> n \<in> set ns \<Longrightarrow> st_of ns (n_id n) = Some (n_status n)"
proof -
  assume d: "distinct (node_ids ns)" and n: "n \<in> set ns"
  then obtain m where m: "find (\<lambda>k. n_id k = n_id n) ns = Some m"
    by (cases "find (\<lambda>k. n_id k = n_id n) ns") (auto simp: find_None_iff)
  then have "m \<in> set ns" "n_id m = n_id n" by (auto simp: find_Some_iff)
  with d n have "m = n" by (blast intro: node_eqI)
  with m show ?thesis by (simp add: st_of_def)
qed

lemma graph_ok_distinct [simp]: "graph_ok ns \<Longrightarrow> distinct (node_ids ns)"
  by (simp add: graph_ok_def wf_nodes_def)

lemma upd_map: "graph_ok ns \<Longrightarrow> upd i g ns = map (\<lambda>n. if n_id n = i then g n else n) ns"
  by (simp add: update_first_id)

lemma keeps_if: "keeps g \<Longrightarrow> keeps (\<lambda>n. if P n then g n else n)"
  by (simp add: keeps_def)

lemma quiet_liveI:
  assumes "keeps f"
    and "\<And>n. n \<in> set ns \<Longrightarrow> n_status (f n) = n_status n \<or>
           live (n_status n) \<and> (live (n_status (f n)) \<or> n_status (f n) = Achieved)"
  shows "quiet f ns"
proof -
  have "(n_status n = Achieved \<longrightarrow> n_status (f n) = Achieved) \<and>
        (started (n_status (f n)) \<longrightarrow> started (n_status n)) \<and>
        (n_status (f n) = Waiting \<longrightarrow> n_status n = Waiting) \<and>
        (n_status (f n) = Failed \<longleftrightarrow> n_status n = Failed) \<and>
        (n_status (f n) = NodeBlocked \<longleftrightarrow> n_status n = NodeBlocked)" if "n \<in> set ns" for n
    using assms(2) [OF that] by (cases "n_status n"; cases "n_status (f n)") (simp_all add: status_defs)
  with assms(1) show ?thesis unfolding quiet_def by blast
qed

text \<open>The steps that neither achieve nor fail a node: starting it, demoting it, stamping it.\<close>

lemma graph_ok_map:
  assumes ok: "graph_ok ns" and "keeps f"
    and st: "\<And>n. n \<in> set ns \<Longrightarrow> n_status (f n) = n_status n \<or> (live (n_status (f n)) \<and> live (n_status n))"
  shows "graph_ok (map f ns)"
proof (rule graph_ok_shape [OF keeps_shape ok])
  have "quiet f ns"
    using assms(2) st by (blast intro: quiet_liveI)
  with ok have "settled_ok (map f ns)"
    using quiet_settled by (simp add: graph_ok_def sched_ok_def)
  moreover have "promoted (map f ns)"
  proof (rule promoted_map [OF _ assms(2)])
    show "promoted ns" using ok by (simp add: graph_ok_def sched_ok_def)
    show "n_status n = Achieved" if "n \<in> set ns" "n_status (f n) = Achieved" for n
      using st [OF that(1)] that(2) by (auto simp: status_defs)
    show "n_status n = Waiting" if "n \<in> set ns" "n_status (f n) = Waiting" for n
      using st [OF that(1)] that(2) by (auto simp: status_defs)
  qed
  ultimately show "sched_ok (map f ns)" by (simp add: sched_ok_def)
qed (fact assms(2))

lemma graph_ok_promote: "graph_ok ns \<Longrightarrow> graph_ok (promote_ready ns)"
  using graph_ok_shape [of "promote_ready ns" ns] promote_ready_sched
  by (simp add: graph_ok_def sched_ok_def)

text \<open>Achieving a live node.\<close>

lemma graph_ok_achieve:
  assumes ok: "graph_ok ns" and "keeps g" and "\<And>n. n_status (g n) = Achieved"
    and "\<forall>st. st_of ns i = Some st \<longrightarrow> live st"
  shows "graph_ok (promote_ready (upd i g ns))"
proof (rule graph_ok_shape [OF _ ok])
  let ?f = "\<lambda>n. if n_id n = i then g n else n"
  have k: "keeps ?f" using assms(2) by (rule keeps_if)
  then show "shape (promote_ready (upd i g ns)) = shape ns"
    by (simp add: upd_map [OF ok] keeps_shape)
  have "live (n_status n)" if "n \<in> set ns" "n_id n = i" for n
    using assms(4) st_of_iff [OF graph_ok_distinct [OF ok] that(1)] that(2) by simp
  then have "quiet ?f ns"
    using assms(3) by (intro quiet_liveI [OF k]) auto
  then have "settled_ok (map ?f ns)"
    using ok quiet_settled by (simp add: graph_ok_def sched_ok_def)
  then show "sched_ok (promote_ready (upd i g ns))"
    by (simp add: upd_map [OF ok] promote_ready_sched)
qed

text \<open>Failing a live node and blocking what depends on it.\<close>

lemma open_edge_waiting:
  assumes "order_ok ns" "distinct (node_ids ns)" "j \<notin> set (achieved_ids ns)" "(j, k) \<in> open_edges ns"
  shows "k \<notin> set (achieved_ids ns) \<and> (\<forall>m \<in> set ns. n_id m = k \<longrightarrow> n_status m = Waiting)"
proof -
  obtain n where n: "n \<in> set ns" "n_id n = k" "\<not> is_terminal (n_status n)" "j \<in> set (blocks_on n)"
    using assms(4) by (auto simp: open_edges_def)
  then have "\<not> started (n_status n)" using assms(1,3) unfolding order_ok_def by blast
  with n(3) have w: "n_status n = Waiting" by (simp add: started_def is_terminal_def)
  have "m = n" if "m \<in> set ns" "n_id m = k" for m
    using node_eqI [OF assms(2) that(1) n(1)] that(2) n(2) by simp
  with w show ?thesis unfolding achieved_ids_iff by auto
qed

lemma fail_marks_waiting:
  assumes "order_ok ns" "distinct (node_ids ns)" "i \<notin> set (achieved_ids ns)"
    and "n \<in> set ns" "(i, n_id n) \<in> (open_edges ns)\<^sup>+"
  shows "n_status n = Waiting"
proof -
  have "j \<notin> set (achieved_ids ns) \<and> (\<forall>m \<in> set ns. n_id m = j \<longrightarrow> n_status m = Waiting)"
    if "(i, j) \<in> (open_edges ns)\<^sup>+" for j
    using that by (induction rule: trancl_induct) (use assms(1-3) open_edge_waiting in blast)+
  with assms(4,5) show ?thesis by blast
qed

text \<open>A live node \<open>i\<close> is marked failed by \<open>g\<close>; \<open>fail_set\<close> is what the loop then blocks.\<close>

definition failing :: "graph_node list \<Rightarrow> string \<Rightarrow> (graph_node \<Rightarrow> graph_node) \<Rightarrow> bool" where
  "failing ns i g \<longleftrightarrow> graph_ok ns \<and> keeps g \<and> (\<forall>n. n_status (g n) = Failed) \<and>
     (\<exists>st. st_of ns i = Some st \<and> live st)"

definition failed_nodes :: "graph_node list \<Rightarrow> string \<Rightarrow> (graph_node \<Rightarrow> graph_node) \<Rightarrow> graph_node list" where
  "failed_nodes ns i g = map (\<lambda>n. if n_id n = i then g n else n) ns"

definition fail_set :: "graph_node list \<Rightarrow> string \<Rightarrow> (graph_node \<Rightarrow> graph_node) \<Rightarrow> string set" where
  "fail_set ns i g = (open_edges (failed_nodes ns i g))\<^sup>+ `` {i} - {i}"

definition fail_map :: "graph_node list \<Rightarrow> string \<Rightarrow> (graph_node \<Rightarrow> graph_node) \<Rightarrow> graph_node \<Rightarrow> graph_node" where
  "fail_map ns i g n = (if n_id n = i then g n else if n_id n \<in> fail_set ns i g then blk i n else n)"

lemma failingD:
  assumes "failing ns i g"
  shows "graph_ok ns" "keeps g" "n_status (g n) = Failed" "\<exists>n \<in> set ns. n_id n = i"
    "n \<in> set ns \<Longrightarrow> n_id n = i \<Longrightarrow> live (n_status n)" "order_ok ns" "i \<notin> set (achieved_ids ns)"
proof -
  show ok: "graph_ok ns" and "keeps g" "n_status (g n) = Failed" using assms by (auto simp: failing_def)
  show "\<exists>n \<in> set ns. n_id n = i"
    using assms by (auto simp: failing_def st_of_def find_Some_iff)
  have live: "live (n_status n)" if "n \<in> set ns" "n_id n = i" for n
    using assms st_of_iff [OF graph_ok_distinct [OF ok] that(1)] that(2) by (auto simp: failing_def)
  then show "n \<in> set ns \<Longrightarrow> n_id n = i \<Longrightarrow> live (n_status n)" .
  show "order_ok ns" using ok by (simp add: graph_ok_def sched_ok_def settled_ok_def)
  show "i \<notin> set (achieved_ids ns)" using live by (fastforce simp: achieved_ids_iff live_def in_flight_def)
qed

lemma keeps_fail_map: "failing ns i g \<Longrightarrow> keeps (fail_map ns i g)"
  using failingD(2) by (fastforce simp: keeps_def fail_map_def)

lemma failed_nodes_ids: "failing ns i g \<Longrightarrow> node_ids (failed_nodes ns i g) = node_ids ns"
  using failingD(2) by (auto simp: failed_nodes_def node_ids_def keeps_def)

lemma fail_run:
  assumes "failing ns i g"
  shows "block_loop i [i] (upd i g ns) = map (fail_map ns i g) ns"
proof -
  have "block_loop i [i] (failed_nodes ns i g) = mark_blocked i (fail_set ns i g) (failed_nodes ns i g)"
    unfolding fail_set_def using failed_nodes_ids [OF assms] failingD(1) [OF assms]
    by (intro block_loop_closure) simp
  also have "\<dots> = map (fail_map ns i g) ns"
    using failingD(2) [OF assms] by (auto simp: mark_blocked_def failed_nodes_def fail_map_def keeps_def fail_set_def)
  finally show ?thesis by (simp add: upd_map [OF failingD(1) [OF assms]] failed_nodes_def)
qed

lemma failed_nodes_achieved:
  assumes "failing ns i g"
  shows "set (achieved_ids (failed_nodes ns i g)) = set (achieved_ids ns)"
  unfolding failed_nodes_def
proof (rule achieved_map_same [OF keeps_if [OF failingD(2) [OF assms]]])
  show "n_status (if n_id n = i then g n else n) = Achieved \<longleftrightarrow> n_status n = Achieved" if "n \<in> set ns" for n
    using failingD(5) [OF assms that] failingD(3) [OF assms] by (auto simp: status_defs)
qed

text \<open>A path that returns to its start can be shortened to one that does not.\<close>

lemma trancl_avoid_start:
  assumes "(a, b) \<in> r\<^sup>+" "b \<noteq> a"
  shows "(a, b) \<in> {(x, y) \<in> r. y \<noteq> a}\<^sup>+"
proof -
  have "b = a \<or> (a, b) \<in> {(x, y) \<in> r. y \<noteq> a}\<^sup>+"
    using assms(1) by (induction rule: trancl_induct) (auto intro: trancl_into_trancl)
  with assms(2) show ?thesis by blast
qed

lemma fail_set_open:
  assumes "failing ns i g" "k \<noteq> i"
  shows "k \<in> fail_set ns i g \<longleftrightarrow> (i, k) \<in> (open_edges ns)\<^sup>+"
proof -
  have g: "n_status (g n) = Failed" "n_id (g n) = n_id n" "blocks_on (g n) = blocks_on n" for n
    using assms(1) by (auto simp: failing_def keeps_def blocks_on_def)
  have "open_edges (failed_nodes ns i g) = {(x, y) \<in> open_edges ns. y \<noteq> i}"
    by (auto simp: open_edges_def failed_nodes_def g is_terminal_def)
  moreover have "(i, k) \<in> {(x, y) \<in> open_edges ns. y \<noteq> i}\<^sup>+ \<Longrightarrow> (i, k) \<in> (open_edges ns)\<^sup>+"
    by (erule trancl_mono) auto
  ultimately show ?thesis
    using assms(2) trancl_avoid_start [of i k "open_edges ns"] by (auto simp: fail_set_def)
qed

lemma failed_nodes_order:
  assumes "failing ns i g"
  shows "order_ok (failed_nodes ns i g)"
proof -
  have "set (blocks_on n) \<subseteq> set (achieved_ids ns)" if "n \<in> set ns" "n_id n = i \<or> started (n_status n)" for n
  proof -
    have "started (n_status n)" using that failingD(5) [OF assms that(1)] by (auto simp: status_defs)
    with failingD(6) [OF assms] that(1) show ?thesis by (simp add: order_ok_def)
  qed
  note old = this
  show ?thesis unfolding order_ok_def failed_nodes_achieved [OF assms]
  proof (rule ballI, rule impI)
    fix m assume m: "m \<in> set (failed_nodes ns i g)" "started (n_status m)"
    then obtain n where n: "n \<in> set ns" "m = (if n_id n = i then g n else n)"
      unfolding failed_nodes_def set_map by blast
    have "n_id n = i \<or> started (n_status n)" using n(2) m(2) by (simp split: if_splits)
    moreover have "blocks_on m = blocks_on n" using n(2) keepsD(3) [OF failingD(2) [OF assms]] by simp
    ultimately show "set (blocks_on m) \<subseteq> set (achieved_ids ns)" using old n(1) by simp
  qed
qed

text \<open>Everything the loop blocks was waiting.\<close>

lemma fail_set_waiting:
  assumes "failing ns i g" "n \<in> set ns" "n_id n \<in> fail_set ns i g"
  shows "n_status n = Waiting"
proof (rule fail_marks_waiting [OF failed_nodes_order [OF assms(1)]])
  show "n \<in> set (failed_nodes ns i g)" using assms(2,3) by (force simp: failed_nodes_def fail_set_def)
  show "(i, n_id n) \<in> (open_edges (failed_nodes ns i g))\<^sup>+" using assms(3) by (simp add: fail_set_def)
qed (use assms(1) failingD failed_nodes_ids failed_nodes_achieved in auto)

lemma fail_set_step:
  assumes "n \<in> set ns" "n_id n \<noteq> i" "\<not> is_terminal (n_status n)" "j \<in> set (blocks_on n)"
    and "j \<in> insert i (fail_set ns i g)"
  shows "n_id n \<in> fail_set ns i g"
proof -
  have "(j, n_id n) \<in> open_edges (failed_nodes ns i g)"
    using assms(1-4) by (auto simp: open_edges_def failed_nodes_def)
  with assms(2,5) show ?thesis by (auto simp: fail_set_def)
qed

lemma fail_set_dep:
  assumes "failing ns i g" "n \<in> set ns" "n_id n \<in> fail_set ns i g"
  obtains m where "m \<in> set ns" "n_id m \<in> set (blocks_on n)" "n_id m \<in> insert i (fail_set ns i g)"
proof -
  let ?ns = "failed_nodes ns i g"
  obtain j where j: "(i, j) \<in> (open_edges ?ns)\<^sup>*" "(j, n_id n) \<in> open_edges ?ns"
    using assms(3) unfolding fail_set_def by (metis DiffD1 Image_singleton_iff tranclD2)
  then obtain n1 where n1: "n1 \<in> set ?ns" "n_id n1 = n_id n" "j \<in> set (blocks_on n1)"
    by (auto simp: open_edges_def)
  have "n \<in> set ?ns" using assms(2,3) by (force simp: failed_nodes_def fail_set_def)
  with n1 have jn: "j \<in> set (blocks_on n)"
    using node_eqI [of ?ns n1 n] failed_nodes_ids [OF assms(1)] failingD(1) [OF assms(1)] by auto
  then have "j \<in> set (node_ids ns)"
    using failingD(1) [OF assms(1)] assms(2) blocks_on_dep_ids [of n] by (auto simp: graph_ok_def wf_nodes_def)
  moreover have "j \<in> insert i (fail_set ns i g)"
    using j(1) by (auto simp: fail_set_def rtrancl_eq_or_trancl)
  ultimately show thesis using that jn by (auto simp: set_node_ids)
qed

lemma fail_map_status:
  assumes "failing ns i g" "n \<in> set ns"
  shows "n_status (fail_map ns i g n) = Achieved \<longleftrightarrow> n_status n = Achieved"
    "n_status (fail_map ns i g n) = Waiting \<longleftrightarrow> n_status n = Waiting \<and> n_id n \<notin> insert i (fail_set ns i g)"
    "dead (n_status (fail_map ns i g n)) \<longleftrightarrow> dead (n_status n) \<or> n_id n \<in> insert i (fail_set ns i g)"
    "started (n_status (fail_map ns i g n)) \<Longrightarrow> started (n_status n)"
  using failingD(3) [OF assms(1)] failingD(5) [OF assms] fail_set_waiting [OF assms]
  by (auto simp: fail_map_def status_defs split: if_splits)

lemma graph_ok_fail:
  assumes F: "failing ns i g"
  shows "graph_ok (block_loop i [i] (upd i g ns))"
  unfolding fail_run [OF F]
proof (rule graph_ok_shape [OF keeps_shape [OF keeps_fail_map [OF F]] failingD(1) [OF F]])
  let ?h = "fail_map ns i g"
  note st = fail_map_status [OF F] and [simp] = keepsD [OF keeps_fail_map [OF F]]
  have old: "order_ok ns" "dead_closed ns" "blocked_justified ns" "promoted ns"
    using failingD(1) [OF F] by (auto simp: graph_ok_def sched_ok_def settled_ok_def)
  have ach: "set (achieved_ids (map ?h ns)) = set (achieved_ids ns)"
    using st(1) by (intro achieved_map_same [OF keeps_fail_map [OF F]])
  have "order_ok (map ?h ns)"
    using old(1) st(4) unfolding order_ok_def ach by fastforce
  moreover have "False" if "n \<in> set ns" "m \<in> set ns" "n_id m \<in> set (blocks_on n)" "dead (n_status (?h m))"
    "n_status (?h n) = Waiting" for n m
    using that old(2) fail_set_step [OF that(1), of i "n_id m" g] st(2) [OF that(1)] st(3) [OF that(2)]
    unfolding dead_closed_def is_terminal_def by auto
  then have "dead_closed (map ?h ns)" unfolding dead_closed_def by auto
  moreover have "\<exists>m \<in> set ns. n_id m \<in> set (blocks_on n) \<and> dead (n_status (?h m))"
    if n: "n \<in> set ns" "n_status (?h n) = NodeBlocked" for n
  proof (cases "n_id n \<in> fail_set ns i g")
    case True
    then show ?thesis using fail_set_dep [OF F n(1)] st(3) by metis
  next
    case False
    with n have "n_status n = NodeBlocked"
      using failingD(3) [OF F] by (auto simp: fail_map_def split: if_splits)
    with old(3) n(1) show ?thesis unfolding blocked_justified_def using st(3) by metis
  qed
  then have "blocked_justified (map ?h ns)" unfolding blocked_justified_def by simp
  moreover have "promoted (map ?h ns)"
    using st(1,2) by (intro promoted_map [OF old(4) keeps_fail_map [OF F]]) blast+
  ultimately show "sched_ok (map ?h ns)" by (simp add: sched_ok_def settled_ok_def)
qed

section \<open>Progress\<close>

lemma finite_edges: "finite (edges ns)"
proof -
  have "edges ns = (\<Union>n \<in> set ns. (\<lambda>d. (d, n_id n)) ` set (dep_ids n))" by (auto simp: edges_def)
  then show ?thesis by simp
qed

lemma wf_edges: "wf_nodes ns \<Longrightarrow> wf (edges ns)"
  by (simp add: wf_nodes_def finite_edges finite_acyclic_wf)

lemma wf_nodes_dep:
  assumes "wf_nodes ns" "n \<in> set ns" "d \<in> set (blocks_on n)"
  obtains m where "m \<in> set ns" "n_id m = d" "(n_id m, n_id n) \<in> edges ns"
proof -
  have d: "d \<in> set (dep_ids n)" using assms(3) blocks_on_dep_ids by blast
  then have "d \<in> n_id ` set ns" using assms(1,2) by (auto simp: wf_nodes_def set_node_ids)
  then show thesis using that d assms(2) by (auto simp: edges_def)
qed

text \<open>A nonempty set of nodes has one with no dependency inside the set.\<close>

lemma wf_nodes_minimal:
  assumes "wf_nodes ns" "n \<in> set ns" "P n"
  obtains k where "k \<in> set ns" "P k" "\<And>m. m \<in> set ns \<Longrightarrow> n_id m \<in> set (blocks_on k) \<Longrightarrow> \<not> P m"
proof -
  obtain i where i: "i \<in> n_id ` {n \<in> set ns. P n}"
    and min: "\<And>j. (j, i) \<in> edges ns \<Longrightarrow> j \<notin> n_id ` {n \<in> set ns. P n}"
    using wfE_min [OF wf_edges [OF assms(1)], of "n_id n" "n_id ` {n \<in> set ns. P n}"] assms(2,3) by auto
  then obtain k where k: "k \<in> set ns" "P k" "n_id k = i" by auto
  have "(n_id m, i) \<in> edges ns" if "n_id m \<in> set (blocks_on k)" for m
    using that blocks_on_dep_ids k by (auto simp: edges_def)
  with min k that show thesis by blast
qed

lemma waiting_has_live:
  assumes "graph_ok ns" "n \<in> set ns" "n_status n = Waiting"
  obtains m where "m \<in> set ns" "live (n_status m)"
proof -
  have wf: "wf_nodes ns" using assms(1) by (simp add: graph_ok_def)
  obtain k where k: "k \<in> set ns" "n_status k = Waiting"
    "\<And>m. m \<in> set ns \<Longrightarrow> n_id m \<in> set (blocks_on k) \<Longrightarrow> n_status m \<noteq> Waiting"
    using wf_nodes_minimal [where P = "\<lambda>n. n_status n = Waiting", OF wf assms(2,3)] by metis
  have "\<not> set (blocks_on k) \<subseteq> set (achieved_ids ns)"
    using k(1,2) assms(1) by (simp add: graph_ok_def sched_defs)
  then obtain d where d: "d \<in> set (blocks_on k)" "d \<notin> set (achieved_ids ns)" by blast
  then obtain m where m: "m \<in> set ns" "n_id m = d" using wf_nodes_dep [OF wf k(1)] by metis
  then have "\<not> dead (n_status m)" "n_status m \<noteq> Achieved" "n_status m \<noteq> Waiting"
    using k d assms(1) by (auto simp: graph_ok_def sched_defs achieved_ids_iff)
  then have "live (n_status m)" by (cases "n_status m") (simp_all add: status_defs)
  with m show thesis using that by blast
qed

lemma blocked_has_failed:
  assumes "graph_ok ns" "n \<in> set ns" "n_status n = NodeBlocked"
  obtains m where "m \<in> set ns" "n_status m = Failed"
proof -
  have wf: "wf_nodes ns" using assms(1) by (simp add: graph_ok_def)
  obtain k where k: "k \<in> set ns" "n_status k = NodeBlocked"
    "\<And>m. m \<in> set ns \<Longrightarrow> n_id m \<in> set (blocks_on k) \<Longrightarrow> n_status m \<noteq> NodeBlocked"
    using wf_nodes_minimal [where P = "\<lambda>n. n_status n = NodeBlocked", OF wf assms(2,3)] by metis
  then obtain m where "m \<in> set ns" "dead (n_status m)" "n_status m \<noteq> NodeBlocked"
    using assms(1) by (auto simp: graph_ok_def sched_defs)
  then show thesis using that by (auto simp: dead_def)
qed

text \<open>The terminal node starts only when everything else is achieved.\<close>

lemma final_starts_last:
  assumes "graph_ok ns" "n \<in> set ns" "n_id n = FINAL_NODE_ID" "started (n_status n)"
    and "m \<in> set ns" "n_id m \<noteq> FINAL_NODE_ID"
  shows "n_status m = Achieved"
proof -
  have "n_id m \<in> set (blocks_on n)"
    using assms(1-3,5,6) by (auto simp: graph_ok_def final_gate_def set_node_ids)
  then have "n_id m \<in> set (achieved_ids ns)"
    using assms(1,2,4) by (auto simp: graph_ok_def sched_defs)
  then show ?thesis
    using node_eqI [OF graph_ok_distinct [OF assms(1)] assms(5)] unfolding achieved_ids_iff by metis
qed

text \<open>A failure blocks the terminal node for good.\<close>

lemma failed_blocks_final:
  assumes "graph_ok ns" "m \<in> set ns" "n_status m = Failed" "n_id m \<noteq> FINAL_NODE_ID"
    and "n \<in> set ns" "n_id n = FINAL_NODE_ID"
  shows "n_status n = NodeBlocked"
proof -
  have "n_id m \<in> set (blocks_on n)"
    using assms by (auto simp: graph_ok_def final_gate_def set_node_ids)
  then have "n_status n \<noteq> Waiting"
    using assms(1-3,5) by (auto simp: graph_ok_def sched_defs dead_def)
  moreover have "\<not> started (n_status n)"
    using final_starts_last [OF assms(1,5,6) _ assms(2,4)] assms(3) by auto
  ultimately show ?thesis by (simp add: started_def)
qed

end
