(* ===== verification/Kahn_Sort.thy ===== *)
theory Kahn_Sort
  imports Kigi_Prelude
begin

text \<open>
  The topological sort that \<open>session/graph_plan.rs\<close> writes out three times
  (\<open>stable_topo_order\<close>, \<open>validate_replan\<close>, \<open>apply_optimization\<close>): each round takes the first
  index that is not done and has in-degree zero, marks it done and lets the caller's \<open>relax\<close>
  decrement the in-degrees.  The locale \<open>kahn\<close> states what a caller's seeding and relaxing have
  to satisfy; its lemmas give correctness once for all callers.
\<close>

section \<open>The loop\<close>

text \<open>
  One iteration per index: \<open>while order.len() < n\<close> and \<open>for _ in 0..n\<close> both run \<open>n\<close> rounds
  unless the search fails.  \<open>Inl\<close> carries the indices left when nothing is ready.
\<close>

fun kahn_loop ::
  "(nat \<Rightarrow> nat list \<Rightarrow> nat list) \<Rightarrow> nat \<Rightarrow> nat list \<Rightarrow> bool list \<Rightarrow> nat list \<Rightarrow> nat list + nat list" where
  "kahn_loop relax 0 indegree dn order = Inr order"
| "kahn_loop relax (Suc k) indegree dn order =
     (case find (\<lambda>i. \<not> dn ! i \<and> indegree ! i = 0) [0..<length dn] of
        None \<Rightarrow> Inl (filter (\<lambda>i. \<not> dn ! i) [0..<length dn])
      | Some nxt \<Rightarrow> kahn_loop relax k (relax nxt indegree) (dn[nxt := True]) (order @ [nxt]))"

text \<open>\<open>indegree[i] -= 1\<close> on a \<open>usize\<close> in a release build.\<close>

definition usize_dec :: "nat \<Rightarrow> nat" where
  "usize_dec x = (if x = 0 then 2 ^ 64 - 1 else x - 1)"

section \<open>Correctness\<close>

definition topo_sorted :: "nat \<Rightarrow> (nat \<Rightarrow> nat \<Rightarrow> bool) \<Rightarrow> nat list \<Rightarrow> bool" where
  "topo_sorted n e order \<longleftrightarrow>
     (\<forall>p < length order. \<forall>j < n. e j (order ! p) \<longrightarrow> j \<in> set (take p order))"

text \<open>Each position holds the least index whose predecessors are all placed before it.\<close>

definition least_first :: "nat \<Rightarrow> (nat \<Rightarrow> nat \<Rightarrow> bool) \<Rightarrow> nat list \<Rightarrow> bool" where
  "least_first n e order \<longleftrightarrow>
     (\<forall>p < length order. \<forall>i < order ! p. i \<notin> set (take p order) \<longrightarrow>
        (\<exists>j < n. e j i \<and> j \<notin> set (take p order)))"

lemma snoc_prefix_all:
  "(\<forall>p < length (xs @ [x]). P ((xs @ [x]) ! p) (take p (xs @ [x]))) \<longleftrightarrow>
   (\<forall>p < length xs. P (xs ! p) (take p xs)) \<and> P x xs"
  by (auto simp: nth_append less_Suc_eq)

lemma topo_sorted_snoc:
  "topo_sorted n e (ord @ [x]) \<longleftrightarrow> topo_sorted n e ord \<and> (\<forall>j < n. e j x \<longrightarrow> j \<in> set ord)"
  unfolding topo_sorted_def
  using snoc_prefix_all [of ord x "\<lambda>y t. \<forall>j < n. e j y \<longrightarrow> j \<in> set t"] by simp

lemma least_first_snoc:
  "least_first n e (ord @ [x]) \<longleftrightarrow> least_first n e ord \<and>
     (\<forall>i < x. i \<notin> set ord \<longrightarrow> (\<exists>j < n. e j i \<and> j \<notin> set ord))"
  unfolding least_first_def
  using snoc_prefix_all [of ord x "\<lambda>y t. \<forall>i < y. i \<notin> set t \<longrightarrow> (\<exists>j < n. e j i \<and> j \<notin> set t)"] by simp

lemma find_upt_Some:
  assumes "find P [0..<n] = Some i"
  shows "i < n" "P i" "\<And>j. j < i \<Longrightarrow> \<not> P j"
proof -
  obtain k where k: "k < n" "P ([0..<n] ! k)" "i = [0..<n] ! k" "\<And>j. j < k \<Longrightarrow> \<not> P ([0..<n] ! j)"
    using assms unfolding find_Some_iff by auto
  have "i = k" using k(1,3) by simp
  then show "i < n" using k(1) by simp
  show "P i" unfolding k(3) by (rule k(2))
  show "\<not> P j" if "j < i" for j
  proof -
    have "[0..<n] ! j = j" using that \<open>i < n\<close> by simp
    with k(4) [of j] that \<open>i = k\<close> show ?thesis by metis
  qed
qed

text \<open>
  A caller's graph \<open>g\<close> has \<open>size_of g\<close> nodes; \<open>cnt g j i\<close> is how often placing \<open>j\<close> decrements
  the in-degree of \<open>i\<close>, and the seed has to count exactly that.
\<close>

locale kahn =
  fixes valid :: "'g \<Rightarrow> bool"
    and size_of :: "'g \<Rightarrow> nat"
    and cnt :: "'g \<Rightarrow> nat \<Rightarrow> nat \<Rightarrow> nat"
    and indeg :: "'g \<Rightarrow> nat list"
    and relax :: "'g \<Rightarrow> nat \<Rightarrow> nat list \<Rightarrow> nat list"
  assumes len: "valid g \<Longrightarrow> length (indeg g) = size_of g"
    and seed: "valid g \<Longrightarrow> i < size_of g \<Longrightarrow> indeg g ! i = (\<Sum>j < size_of g. cnt g j i)"
    and relax_len: "valid g \<Longrightarrow> length ind = size_of g \<Longrightarrow> length (relax g x ind) = size_of g"
    and relax_nth: "valid g \<Longrightarrow> length ind = size_of g \<Longrightarrow> x < size_of g \<Longrightarrow>
      \<forall>i < size_of g. cnt g x i \<le> ind ! i \<Longrightarrow> i < size_of g \<Longrightarrow> relax g x ind ! i = ind ! i - cnt g x i"
begin

definition kahn_run :: "'g \<Rightarrow> nat list + nat list" where
  "kahn_run g = kahn_loop (relax g) (size_of g) (indeg g) (replicate (size_of g) False) []"

definition before :: "'g \<Rightarrow> nat \<Rightarrow> nat \<Rightarrow> bool" where
  "before g j i \<longleftrightarrow> 0 < cnt g j i"

definition deps :: "'g \<Rightarrow> (nat \<times> nat) set" where
  "deps g = {(j, i). j < size_of g \<and> i < size_of g \<and> before g j i}"

definition loop_inv :: "'g \<Rightarrow> nat list \<Rightarrow> bool list \<Rightarrow> nat list \<Rightarrow> bool" where
  "loop_inv g ind dn ord \<longleftrightarrow>
     length ind = size_of g \<and> length dn = size_of g \<and>
     distinct ord \<and> set ord \<subseteq> {..<size_of g} \<and>
     (\<forall>i < size_of g. dn ! i \<longleftrightarrow> i \<in> set ord) \<and>
     (\<forall>i < size_of g. ind ! i = (\<Sum>j \<in> {..<size_of g} - set ord. cnt g j i)) \<and>
     topo_sorted (size_of g) (before g) ord \<and> least_first (size_of g) (before g) ord"

lemma loop_inv_init: "valid g \<Longrightarrow> loop_inv g (indeg g) (replicate (size_of g) False) []"
  by (simp add: loop_inv_def len seed topo_sorted_def least_first_def)

lemma loop_inv_zero:
  "loop_inv g ind dn ord \<Longrightarrow> i < size_of g \<Longrightarrow> ind ! i = 0 \<longleftrightarrow> (\<forall>j < size_of g. before g j i \<longrightarrow> j \<in> set ord)"
  by (auto simp: loop_inv_def before_def)

lemma loop_inv_step:
  assumes v: "valid g" and I: "loop_inv g ind dn ord"
    and f: "find (\<lambda>i. \<not> dn ! i \<and> ind ! i = 0) [0..<length dn] = Some x"
  shows "loop_inv g (relax g x ind) (dn[x := True]) (ord @ [x])"
proof -
  let ?n = "size_of g"
  note z = loop_inv_zero [OF I]
  have L: "length ind = ?n" "length dn = ?n" and dn: "\<And>i. i < ?n \<Longrightarrow> dn ! i \<longleftrightarrow> i \<in> set ord"
    and ind: "\<And>i. i < ?n \<Longrightarrow> ind ! i = (\<Sum>j \<in> {..<?n} - set ord. cnt g j i)"
    using I by (auto simp: loop_inv_def)
  have x: "x < ?n" "x \<notin> set ord" "ind ! x = 0" and least: "\<And>j. j < x \<Longrightarrow> \<not> (\<not> dn ! j \<and> ind ! j = 0)"
    using find_upt_Some [OF f] L(2) dn by auto
  have split: "ind ! i = cnt g x i + (\<Sum>j \<in> {..<?n} - set (ord @ [x]). cnt g j i)" if "i < ?n" for i
  proof -
    have "{..<?n} - set ord = insert x ({..<?n} - set (ord @ [x]))" using x by auto
    then have "ind ! i = (\<Sum>j \<in> insert x ({..<?n} - set (ord @ [x])). cnt g j i)"
      using ind [OF that] by (simp only:)
    also have "\<dots> = cnt g x i + (\<Sum>j \<in> {..<?n} - set (ord @ [x]). cnt g j i)"
      by (rule sum.insert) auto
    finally show ?thesis .
  qed
  then have "relax g x ind ! i = (\<Sum>j \<in> {..<?n} - set (ord @ [x]). cnt g j i)" if "i < ?n" for i
    using relax_nth [OF v L(1) x(1) _ that] that by simp
  moreover have "topo_sorted ?n (before g) (ord @ [x])"
    using I z [OF x(1)] x(3) by (simp add: topo_sorted_snoc loop_inv_def)
  moreover have "least_first ?n (before g) (ord @ [x])"
  proof -
    have "\<exists>j < ?n. before g j i \<and> j \<notin> set ord" if "i < x" "i \<notin> set ord" for i
      using least [OF that(1)] dn [of i] z [of i] that x(1) by auto
    with I show ?thesis by (simp add: least_first_snoc loop_inv_def)
  qed
  ultimately show ?thesis
    using I x L relax_len [OF v L(1)] dn unfolding loop_inv_def by (auto simp: nth_list_update)
qed

lemma loop_result:
  "valid g \<Longrightarrow> loop_inv g ind dn ord \<Longrightarrow> k + length ord = size_of g \<Longrightarrow>
     case kahn_loop (relax g) k ind dn ord of
       Inr res \<Rightarrow> \<exists>ind' dn'. loop_inv g ind' dn' res \<and> length res = size_of g
     | Inl left \<Rightarrow> left \<noteq> [] \<and> set left \<subseteq> {..<size_of g} \<and> (\<forall>i \<in> set left. \<exists>j \<in> set left. before g j i)"
proof (induction k arbitrary: ind dn ord)
  case 0
  then show ?case by auto
next
  case (Suc k)
  show ?case
  proof (cases "find (\<lambda>i. \<not> dn ! i \<and> ind ! i = 0) [0..<length dn]")
    case (Some x)
    with loop_inv_step [OF Suc.prems(1,2) Some] Suc show ?thesis by simp
  next
    case None
    let ?left = "filter (\<lambda>i. \<not> dn ! i) [0..<length dn]"
    have L: "length dn = size_of g" and dn: "\<And>i. i < size_of g \<Longrightarrow> dn ! i \<longleftrightarrow> i \<in> set ord"
      using Suc.prems(2) by (auto simp: loop_inv_def)
    have left: "set ?left = {..<size_of g} - set ord" using L dn by auto
    have "card (set ord) < card {..<size_of g}"
      using Suc.prems(2,3) by (simp add: loop_inv_def distinct_card)
    then have "set ?left \<noteq> {}" unfolding left by (metis Diff_eq_empty_iff List.finite_set card_mono not_le)
    moreover have "\<exists>j \<in> set ?left. before g j i" if "i \<in> set ?left" for i
    proof -
      have "ind ! i \<noteq> 0" using None that by (auto simp: find_None_iff)
      then show ?thesis using loop_inv_zero [OF Suc.prems(2), of i] that unfolding left by auto
    qed
    moreover have "kahn_loop (relax g) (Suc k) ind dn ord = Inl ?left" using None by simp
    moreover have "set ?left \<subseteq> {..<size_of g}" using left by blast
    moreover have "?left \<noteq> []" using \<open>set ?left \<noteq> {}\<close> by (simp only: set_empty not_False_eq_True)
    ultimately show ?thesis by (simp only: sum.case) blast
  qed
qed

lemma kahn_ok:
  assumes "valid g" "kahn_run g = Inr ord"
  shows "distinct ord" "set ord = {..<size_of g}"
    "topo_sorted (size_of g) (before g) ord" "least_first (size_of g) (before g) ord"
proof -
  obtain ind dn where I: "loop_inv g ind dn ord" "length ord = size_of g"
    using loop_result [OF assms(1) loop_inv_init [OF assms(1)]] assms(2) by (auto simp: kahn_run_def)
  then show "distinct ord" "topo_sorted (size_of g) (before g) ord" "least_first (size_of g) (before g) ord"
    by (auto simp: loop_inv_def)
  have "set ord \<subseteq> {..<size_of g}" "card (set ord) = card {..<size_of g}"
    using I by (auto simp: loop_inv_def distinct_card)
  then show "set ord = {..<size_of g}" by (simp add: card_subset_eq)
qed

lemma kahn_cycle:
  assumes "valid g" "kahn_run g = Inl left"
  shows "left \<noteq> []" "set left \<subseteq> {..<size_of g}" "\<forall>i \<in> set left. \<exists>j \<in> set left. before g j i"
  using loop_result [OF assms(1) loop_inv_init [OF assms(1)]] assms(2) by (auto simp: kahn_run_def)

lemma finite_deps: "finite (deps g)"
  by (rule finite_subset [of _ "{..<size_of g} \<times> {..<size_of g}"]) (auto simp: deps_def)

lemma topo_acyclic:
  assumes "distinct ord" "set ord = {..<size_of g}" "topo_sorted (size_of g) (before g) ord"
  shows "acyclic (deps g)"
proof -
  have len: "length ord = size_of g" using assms(1,2) distinct_card [of ord] by simp
  have "\<exists>q < length ord. ord ! q = i" if "i < size_of g" for i
    using that assms(2) by (metis in_set_conv_nth lessThan_iff)
  then obtain pos where pos: "\<And>i. i < size_of g \<Longrightarrow> pos i < length ord \<and> ord ! pos i = i" by metis
  have "pos j < pos i" if "(j, i) \<in> deps g" for j i
  proof -
    have ji: "j < size_of g" "i < size_of g" "before g j i" using that by (auto simp: deps_def)
    then have "j \<in> set (take (pos i) ord)"
      using assms(3) pos [OF ji(2)] unfolding topo_sorted_def by metis
    then obtain q where "q < pos i" "ord ! q = j" "q < length ord" by (auto simp: in_set_conv_nth)
    with pos [OF ji(1)] assms(1) show ?thesis by (metis nth_eq_iff_index_eq)
  qed
  then have "deps g \<subseteq> measure pos" by auto
  then show ?thesis using wf_measure wf_subset wf_acyclic by blast
qed

lemma kahn_iff:
  assumes "valid g"
  shows "(\<exists>ord. kahn_run g = Inr ord) \<longleftrightarrow> acyclic (deps g)"
proof
  assume "\<exists>ord. kahn_run g = Inr ord"
  then show "acyclic (deps g)" using kahn_ok [OF assms] topo_acyclic by blast
next
  assume "acyclic (deps g)"
  then have wf: "wf (deps g)" using finite_deps finite_acyclic_wf by blast
  show "\<exists>ord. kahn_run g = Inr ord"
  proof (cases "kahn_run g")
    case (Inl left)
    note c = kahn_cycle [OF assms Inl]
    obtain i where "i \<in> set left" "\<And>j. (j, i) \<in> deps g \<Longrightarrow> j \<notin> set left"
      using wfE_min [OF wf, of "hd left" "set left"] c(1) by (metis hd_in_set)
    with c show ?thesis by (fastforce simp: deps_def)
  qed simp
qed

end

section \<open>Graphs given by keys and dependency lists\<close>

text \<open>
  \<open>stable_topo_order\<close> and \<open>apply_optimization\<close> sort a list of nodes, here \<open>(id, deps)\<close> pairs.
  The index map is total on the ids of the list, so the lookups below always succeed.
\<close>

definition at_key :: "(string \<times> string list) list \<Rightarrow> string \<Rightarrow> (nat \<Rightarrow> nat) \<Rightarrow> nat list \<Rightarrow> nat list" where
  "at_key gs i f ind =
     (case index_of (map fst gs) i of Some k \<Rightarrow> ind[k := f (ind ! k)] | None \<Rightarrow> ind)"

text \<open>\<open>indegree[index_of[id]] = deps.len()\<close>, the seed of \<open>stable_topo_order\<close>.\<close>

definition keyed_indeg :: "(string \<times> string list) list \<Rightarrow> nat list" where
  "keyed_indeg gs =
     fold (\<lambda>g ind. at_key gs (fst g) (\<lambda>_. length (snd g)) ind) gs (replicate (length gs) 0)"

text \<open>\<open>indegree[index_of[id]] += 1\<close> once per dependency, the seed of \<open>apply_optimization\<close>.\<close>

definition counted_indeg :: "(string \<times> string list) list \<Rightarrow> nat list" where
  "counted_indeg gs =
     fold (\<lambda>g ind. fold (\<lambda>_ ind. at_key gs (fst g) Suc ind) (snd g) ind) gs (replicate (length gs) 0)"

text \<open>Every node that lists the placed id among its dependencies loses one.\<close>

definition keyed_relax :: "(string \<times> string list) list \<Rightarrow> nat \<Rightarrow> nat list \<Rightarrow> nat list" where
  "keyed_relax gs nxt ind =
     fold (\<lambda>g ind. if list_ex (\<lambda>d. d = fst (gs ! nxt)) (snd g) then at_key gs (fst g) usize_dec ind else ind)
       gs ind"

definition keyed_ok :: "(string \<times> string list) list \<Rightarrow> bool" where
  "keyed_ok gs \<longleftrightarrow> distinct (map fst gs) \<and>
     (\<forall>g \<in> set gs. distinct (snd g) \<and> set (snd g) \<subseteq> set (map fst gs))"

definition keyed_cnt :: "(string \<times> string list) list \<Rightarrow> nat \<Rightarrow> nat \<Rightarrow> nat" where
  "keyed_cnt gs j i = (if fst (gs ! j) \<in> set (snd (gs ! i)) then 1 else 0)"

text \<open>A fold that touches one cell per element, each cell once.\<close>

lemma fold_cells:
  assumes "distinct ks" "\<And>k. k \<in> set ks \<Longrightarrow> k < length ind"
  shows "length (fold (\<lambda>k ind. ind[k := f k (ind ! k)]) ks ind) = length ind"
    "i < length ind \<Longrightarrow> fold (\<lambda>k ind. ind[k := f k (ind ! k)]) ks ind ! i =
       (if i \<in> set ks then f i (ind ! i) else ind ! i)"
  using assms by (induction ks arbitrary: ind) (auto simp: nth_list_update)

lemma fold_keyed:
  assumes "distinct (map fst gs)" "length ind = length gs"
    and step: "\<And>g ind. g \<in> set gs \<Longrightarrow> step g ind = at_key gs (fst g) (f g) ind"
  shows "length (fold step gs ind) = length gs"
    and "i < length gs \<Longrightarrow> fold step gs ind ! i = f (gs ! i) (ind ! i)"
proof -
  have "step (gs ! k) = (\<lambda>ind. ind[k := f (gs ! k) (ind ! k)])" if "k < length gs" for k
    using that step [OF nth_mem [OF that]] index_of_nth [OF assms(1), of k] by (auto simp: at_key_def)
  then have "fold step (map ((!) gs) [0..<length gs]) ind =
      fold (\<lambda>k ind. ind[k := f (gs ! k) (ind ! k)]) [0..<length gs] ind"
    unfolding fold_map by (intro fold_cong) auto
  then have eq: "fold step gs ind = fold (\<lambda>k ind. ind[k := f (gs ! k) (ind ! k)]) [0..<length gs] ind"
    by (simp add: map_nth)
  show "length (fold step gs ind) = length gs"
    using fold_cells(1) [of "[0..<length gs]" ind "\<lambda>k. f (gs ! k)"] assms(2) eq by simp
  show "fold step gs ind ! i = f (gs ! i) (ind ! i)" if "i < length gs"
    using fold_cells(2) [of "[0..<length gs]" ind i "\<lambda>k. f (gs ! k)"] assms(2) eq that by simp
qed

lemma at_key_at_key: "at_key gs i f (at_key gs i g ind) = at_key gs i (\<lambda>x. f (g x)) ind"
proof (cases "index_of (map fst gs) i")
  case (Some k)
  then show ?thesis by (cases "k < length ind") (simp_all add: at_key_def list_update_beyond)
qed (simp add: at_key_def del: index_of_None)

lemma at_key_fold_Suc: "fold (\<lambda>_ ind. at_key gs i Suc ind) ds ind = at_key gs i (\<lambda>x. length ds + x) ind"
proof (induction ds arbitrary: ind)
  case Nil
  then show ?case by (simp add: at_key_def split: option.splits)
next
  case (Cons d ds)
  then show ?case by (simp add: at_key_at_key)
qed

lemma keyed_indeg_nth:
  assumes "distinct (map fst gs)"
  shows "length (keyed_indeg gs) = length gs" "length (counted_indeg gs) = length gs"
    "i < length gs \<Longrightarrow> keyed_indeg gs ! i = length (snd (gs ! i))"
    "i < length gs \<Longrightarrow> counted_indeg gs ! i = length (snd (gs ! i))"
  unfolding keyed_indeg_def counted_indeg_def at_key_fold_Suc
  using fold_keyed [OF assms, of "replicate (length gs) 0" _ "\<lambda>g x. length (snd g)"]
    fold_keyed [OF assms, of "replicate (length gs) 0" _ "\<lambda>g x. length (snd g) + x"] by simp_all

lemma keyed_relax_nth:
  assumes "distinct (map fst gs)" "length ind = length gs"
  shows "length (keyed_relax gs x ind) = length gs"
    "i < length gs \<Longrightarrow> keyed_relax gs x ind ! i =
       (if fst (gs ! x) \<in> set (snd (gs ! i)) then usize_dec (ind ! i) else ind ! i)"
proof -
  have "(if list_ex (\<lambda>d. d = fst (gs ! x)) (snd g) then at_key gs (fst g) usize_dec ind else ind) =
      at_key gs (fst g) (\<lambda>y. if fst (gs ! x) \<in> set (snd g) then usize_dec y else y) ind" for g ind
    by (cases "index_of (map fst gs) (fst g)") (simp_all add: list_ex_iff at_key_def del: index_of_None)
  note fold_keyed [OF assms this]
  then show "length (keyed_relax gs x ind) = length gs"
    "i < length gs \<Longrightarrow> keyed_relax gs x ind ! i =
       (if fst (gs ! x) \<in> set (snd (gs ! i)) then usize_dec (ind ! i) else ind ! i)"
    by (simp_all add: keyed_relax_def)
qed

lemma keyed_cnt_sum:
  assumes "keyed_ok gs" "i < length gs"
  shows "(\<Sum>j < length gs. keyed_cnt gs j i) = length (snd (gs ! i))"
proof -
  let ?J = "{j. j < length gs \<and> fst (gs ! j) \<in> set (snd (gs ! i))}"
  have d: "distinct (snd (gs ! i))" "set (snd (gs ! i)) \<subseteq> fst ` set gs" "distinct (map fst gs)"
    using assms by (auto simp: keyed_ok_def)
  have inj: "inj_on (\<lambda>j. fst (gs ! j)) ?J"
    using d(3) by (auto simp: inj_on_def distinct_conv_nth)
  have "(\<Sum>j < length gs. keyed_cnt gs j i) = card ?J"
    by (simp add: keyed_cnt_def sum.If_cases) (rule arg_cong [of _ _ card], auto)
  also have "\<dots> = card ((\<lambda>j. fst (gs ! j)) ` ?J)" using inj by (simp add: card_image)
  also have "(\<lambda>j. fst (gs ! j)) ` ?J = set (snd (gs ! i))"
  proof
    show "set (snd (gs ! i)) \<subseteq> (\<lambda>j. fst (gs ! j)) ` ?J"
    proof
      fix d' assume a: "d' \<in> set (snd (gs ! i))"
      then obtain g where "g \<in> set gs" "fst g = d'" using d(2) by blast
      then obtain j where "j < length gs" "fst (gs ! j) = d'" by (metis in_set_conv_nth)
      with a show "d' \<in> (\<lambda>j. fst (gs ! j)) ` ?J" by blast
    qed
  qed blast
  finally show ?thesis using d(1) by (simp add: distinct_card)
qed

interpretation keyed: kahn keyed_ok length keyed_cnt keyed_indeg keyed_relax
proof
  fix gs :: "(string \<times> string list) list" and i x :: nat and ind :: "nat list"
  assume ok: "keyed_ok gs"
  then have d: "distinct (map fst gs)" by (simp add: keyed_ok_def)
  show "length (keyed_indeg gs) = length gs" by (rule keyed_indeg_nth [OF d])
  show "keyed_indeg gs ! i = (\<Sum>j < length gs. keyed_cnt gs j i)" if "i < length gs"
    using keyed_indeg_nth(3) [OF d that] keyed_cnt_sum [OF ok that] by simp
  show "length (keyed_relax gs x ind) = length gs" if "length ind = length gs"
    by (rule keyed_relax_nth [OF d that])
  show "keyed_relax gs x ind ! i = ind ! i - keyed_cnt gs x i"
    if "length ind = length gs" "x < length gs" "\<forall>i < length gs. keyed_cnt gs x i \<le> ind ! i" "i < length gs"
    using keyed_relax_nth(2) [OF d that(1,4)] that(3,4) by (auto simp: keyed_cnt_def usize_dec_def)
qed

lemma counted_indeg_eq: "distinct (map fst gs) \<Longrightarrow> counted_indeg gs = keyed_indeg gs"
  by (rule nth_equalityI) (simp_all add: keyed_indeg_nth)

interpretation counted: kahn keyed_ok length keyed_cnt counted_indeg keyed_relax
  by unfold_locales (use keyed.len keyed.seed keyed.relax_len keyed.relax_nth counted_indeg_eq keyed_ok_def in auto)

section \<open>Graphs given by an edge list\<close>

text \<open>\<open>validate_replan\<close> sorts \<open>n\<close> indices under a list of \<open>(from, to)\<close> edges.\<close>

definition edge_indeg :: "nat \<times> (nat \<times> nat) list \<Rightarrow> nat list" where
  "edge_indeg g = fold (\<lambda>e ind. ind[snd e := Suc (ind ! snd e)]) (snd g) (replicate (fst g) 0)"

definition edge_relax :: "nat \<times> (nat \<times> nat) list \<Rightarrow> nat \<Rightarrow> nat list \<Rightarrow> nat list" where
  "edge_relax g nxt ind =
     fold (\<lambda>e ind. if fst e = nxt then ind[snd e := usize_dec (ind ! snd e)] else ind) (snd g) ind"

definition edge_ok :: "nat \<times> (nat \<times> nat) list \<Rightarrow> bool" where
  "edge_ok g \<longleftrightarrow> (\<forall>e \<in> set (snd g). fst e < fst g \<and> snd e < fst g)"

definition edge_cnt :: "nat \<times> (nat \<times> nat) list \<Rightarrow> nat \<Rightarrow> nat \<Rightarrow> nat" where
  "edge_cnt g j i = count_list (snd g) (j, i)"

lemma edge_seed_nth:
  "length (fold (\<lambda>e ind. ind[snd e := Suc (ind ! snd e)]) es ind) = length ind"
  "i < length ind \<Longrightarrow> fold (\<lambda>e ind. ind[snd e := Suc (ind ! snd e)]) es ind ! i =
     ind ! i + length (filter (\<lambda>e. snd e = i) es)"
  by (induction es arbitrary: ind) (auto simp: nth_list_update)

lemma edge_relax_nth:
  "length (fold (\<lambda>e ind. if fst e = x then ind[snd e := usize_dec (ind ! snd e)] else ind) es ind) = length ind"
  "i < length ind \<Longrightarrow> count_list es (x, i) \<le> ind ! i \<Longrightarrow>
     fold (\<lambda>e ind. if fst e = x then ind[snd e := usize_dec (ind ! snd e)] else ind) es ind ! i =
     ind ! i - count_list es (x, i)"
proof (induction es arbitrary: ind)
  case (Cons e es)
  {
    case 1
    then show ?case using Cons.IH(1) by simp
  next
    case 2
    show ?case
    proof (cases "e = (x, i)")
      case True
      then have "usize_dec (ind ! i) = ind ! i - 1" using 2(2) by (auto simp: usize_dec_def)
      with True 2 Cons.IH(2) [of "ind[i := usize_dec (ind ! i)]"] show ?thesis by simp
    next
      case False
      then have "(if fst e = x then ind[snd e := usize_dec (ind ! snd e)] else ind) ! i = ind ! i"
        by (cases e) (auto simp: nth_list_update)
      with False 2 Cons.IH(2) show ?thesis by auto
    qed
  }
qed simp_all

lemma edge_cnt_sum:
  fixes es :: "(nat \<times> nat) list"
  assumes "\<forall>e \<in> set es. fst e < n"
  shows "(\<Sum>j < n. count_list es (j, i)) = length (filter (\<lambda>e. snd e = i) es)"
  using assms
proof (induction es)
  case (Cons e es)
  have "(\<Sum>j < n. count_list (e # es) (j, i)) =
      (\<Sum>j < n. count_list es (j, i)) + (\<Sum>j < n. if e = (j, i) then 1 else 0)"
    unfolding sum.distrib [symmetric] by (intro sum.cong) auto
  also have "(\<Sum>j < n. if e = (j, i) then 1 else 0) = (if snd e = i then 1 else (0 :: nat))"
  proof (cases "snd e = i")
    case True
    then have "(\<Sum>j < n. if e = (j, i) then 1 else 0) = (\<Sum>j < n. if fst e = j then 1 else (0 :: nat))"
      by (intro sum.cong) (auto simp: prod_eq_iff)
    also have "\<dots> = 1" using Cons.prems sum.delta' [of "{..<n}" "fst e" "\<lambda>_. 1 :: nat"] by simp
    finally show ?thesis using True by simp
  qed (auto simp: prod_eq_iff)
  finally show ?case using Cons by simp
qed simp

interpretation edge: kahn edge_ok fst edge_cnt edge_indeg edge_relax
proof
  fix g :: "nat \<times> (nat \<times> nat) list" and i x :: nat and ind :: "nat list"
  assume ok: "edge_ok g"
  show "length (edge_indeg g) = fst g" by (simp add: edge_indeg_def edge_seed_nth)
  show "edge_indeg g ! i = (\<Sum>j < fst g. edge_cnt g j i)" if "i < fst g"
    using ok that by (simp add: edge_indeg_def edge_cnt_def edge_seed_nth edge_cnt_sum edge_ok_def)
  show "length (edge_relax g x ind) = fst g" if "length ind = fst g"
    using that by (simp add: edge_relax_def edge_relax_nth)
  show "edge_relax g x ind ! i = ind ! i - edge_cnt g x i"
    if "length ind = fst g" "x < fst g" "\<forall>i < fst g. edge_cnt g x i \<le> ind ! i" "i < fst g"
    using that by (simp add: edge_relax_def edge_cnt_def edge_relax_nth)
qed

end
