(* ===== verification/Graph_Plan.thy ===== *)
theory Graph_Plan
  imports Graph_Schedule Kahn_Sort
begin

unbundle bit_operations_syntax

text \<open>
  The planner output contract, \<open>session/graph_plan.rs\<close>: \<open>parse_and_validate\<close> for the initial
  plan and \<open>validate_replan\<close> for an append-only replan, with the error type, the slug and id
  functions and the terminal verification node.  \<open>serde_json::from_str\<close> is the argument
  \<open>from_str\<close>.  A Rust panic (indexing a \<open>HashMap\<close> with a missing key) is \<open>None\<close>; \<open>Some (Inl e)\<close>
  is \<open>Err(e)\<close>.
\<close>

section \<open>Planner data and errors\<close>

definition MAX_GRAPH_NODES :: nat where
  "MAX_GRAPH_NODES = 24"

record planned_node =
  p_id :: string
  p_title :: string
  p_spec :: string
  p_deps :: "string list"
  p_discovered_from :: "string list"

text \<open>The reasons \<open>OpInvalid\<close> formats, as data.\<close>

datatype op_reason =
    UnknownNode string
  | NotPending string node_status
  | NoSuchDep string string
  | ReorderTwice string
  | MergeSelf
  | MergeDependent string string
  | MergeTerminal
  | SplitTerminal
  | SplitDependent string string
  | SplitCount string nat
  | SplitEmptyField string
  | ImmutableChanged string

datatype graph_plan_error =
    Parse string
  | Empty
  | TooManyNodes nat
  | BadSlug string
  | DuplicateSlug string
  | EmptyField string string
  | UnknownDep string string
  | SelfDep string
  | Cycle "string list"
  | IdCollision string string
  | ExistingCollision string
  | DeadDep string string
  | UnknownOrigin string string
  | OpInvalid op_reason

section \<open>Ids and slugs\<close>

definition fnv1a32 :: "string \<Rightarrow> u32" where
  "fnv1a32 s = foldl (\<lambda>hash byte. (hash XOR of_char byte) * 0x01000193) 0x811c9dc5 s"

definition hex_digit :: "nat \<Rightarrow> char" where
  "hex_digit d = (if d < 10 then char_of (48 + d) else char_of (87 + d))"

text \<open>\<open>format!("{hash:08x}")\<close>.\<close>

definition fnv1a32_hex :: "string \<Rightarrow> string" where
  "fnv1a32_hex s = map (\<lambda>k. hex_digit (unat (fnv1a32 s) div 16 ^ k mod 16)) (rev [0..<8])"

definition node_id_for_slug :: "string \<Rightarrow> string" where
  "node_id_for_slug slug = ''gn-'' @ fnv1a32_hex slug"

definition valid_slug :: "string \<Rightarrow> bool" where
  "valid_slug slug \<longleftrightarrow> slug \<noteq> [] \<and> length slug \<le> 64
     \<and> list_all (\<lambda>b. ascii_alphanumeric b \<or> b = CHR ''-'' \<or> b = CHR ''_'') slug"

section \<open>The initial plan\<close>

definition dedup_deps :: "planned_node \<Rightarrow> planned_node" where
  "dedup_deps p = p\<lparr>p_deps := retain_new (\<lambda>d. d) [] (p_deps p)\<rparr>"

text \<open>The per-node hygiene checks, with the slugs seen before.\<close>

definition slug_error :: "string list \<Rightarrow> planned_node \<Rightarrow> graph_plan_error option" where
  "slug_error seen p =
     (if \<not> valid_slug (p_id p) then Some (BadSlug (p_id p))
      else if p_id p \<in> set seen then Some (DuplicateSlug (p_id p))
      else if trim (p_title p) = [] then Some (EmptyField (p_id p) ''title'')
      else if trim (p_spec p) = [] then Some (EmptyField (p_id p) ''spec'')
      else None)"

fun check_nodes ::
  "(planned_node \<Rightarrow> graph_plan_error option) \<Rightarrow> string list \<Rightarrow> planned_node list \<Rightarrow> graph_plan_error option" where
  "check_nodes extra seen [] = None"
| "check_nodes extra seen (p # ps) =
     (case slug_error seen p of
        Some e \<Rightarrow> Some e
      | None \<Rightarrow> (case extra p of Some e \<Rightarrow> Some e | None \<Rightarrow> check_nodes extra (p_id p # seen) ps))"

definition dep_error :: "string list \<Rightarrow> planned_node \<Rightarrow> string \<Rightarrow> graph_plan_error option" where
  "dep_error seen p d =
     (if d = p_id p then Some (SelfDep (p_id p))
      else if d \<notin> set seen then Some (UnknownDep (p_id p) d)
      else None)"

definition keyed_plan :: "planned_node list \<Rightarrow> (string \<times> string list) list" where
  "keyed_plan ps = map (\<lambda>p. (p_id p, p_deps p)) ps"

definition stable_topo_order :: "planned_node list \<Rightarrow> graph_plan_error + nat list" where
  "stable_topo_order ps =
     (let gs = keyed_plan ps; n = length ps
      in case kahn_loop (keyed_relax gs) n (keyed_indeg gs) (replicate n False) [] of
           Inl left \<Rightarrow> Inl (Cycle (map (\<lambda>i. p_id (ps ! i)) left))
         | Inr order \<Rightarrow> Inr order)"

text \<open>
  The two maps of the canonicalization loop: \<open>owner\<close> is \<open>owner_of_id\<close>, the result \<open>id_of\<close>.
  The initial plan has no existing ids to collide with.
\<close>

fun canonical_ids ::
  "string list \<Rightarrow> (string \<times> string) list \<Rightarrow> planned_node list \<Rightarrow> graph_plan_error + (string \<times> string) list" where
  "canonical_ids existing owner [] = Inr []"
| "canonical_ids existing owner (p # ps) =
     (let i = node_id_for_slug (p_id p)
      in if i \<in> set existing then Inl (ExistingCollision (p_id p))
         else case map_of owner i of
                Some prior \<Rightarrow> Inl (IdCollision prior (p_id p))
              | None \<Rightarrow> ebind (canonical_ids existing ((i, p_id p) # owner) ps) (\<lambda>m. Inr ((p_id p, i) # m)))"

definition fresh_node :: "string \<Rightarrow> planned_node \<Rightarrow> node_dep list \<Rightarrow> graph_node" where
  "fresh_node i p ds =
     \<lparr>n_id = i, n_title = trim (p_title p), n_spec = trim (p_spec p), n_deps = ds,
      n_status = Waiting, n_goal_id = None, n_rounds = 0, n_tokens_used = 0, n_failure = None\<rparr>"

definition blocks_dep :: "string \<Rightarrow> node_dep" where
  "blocks_dep i = \<lparr>dep_on = i, dep_kind = Blocks\<rparr>"

definition canonical_node :: "(string \<times> string) list \<Rightarrow> planned_node \<Rightarrow> graph_node option" where
  "canonical_node id_of p =
     Option.bind (map_of id_of (p_id p)) (\<lambda>i.
     Option.bind (those (map (map_of id_of) (p_deps p))) (\<lambda>ds.
     Some (fresh_node i p (map blocks_dep ds))))"

definition final_spec :: "string \<Rightarrow> string" where
  "final_spec objective =
     ''Independently verify that the OVERALL objective below is fully achieved, end to end, in the current state of the project. Re-run the relevant builds/tests/commands yourself; do not trust prior claims. If you find a gap, close it. Do not add features beyond the objective.''
     @ [nl, nl] @ ''OVERALL OBJECTIVE:'' @ [nl] @ objective"

definition final_verification_node :: "string \<Rightarrow> graph_node list \<Rightarrow> graph_node" where
  "final_verification_node objective planner_nodes =
     \<lparr>n_id = FINAL_NODE_ID, n_title = ''Final verification of the overall objective'',
      n_spec = final_spec objective, n_deps = map (\<lambda>n. blocks_dep (n_id n)) planner_nodes,
      n_status = Waiting, n_goal_id = None, n_rounds = 0, n_tokens_used = 0, n_failure = None\<rparr>"

definition plan_checks :: "planned_node list \<Rightarrow> graph_plan_error + nat list \<times> (string \<times> string) list" where
  "plan_checks ps =
     (if length ps > MAX_GRAPH_NODES then Inl (TooManyNodes (length ps))
      else case check_nodes (\<lambda>_. None) [] ps of
        Some e \<Rightarrow> Inl e
      | None \<Rightarrow>
      case check_all (\<lambda>p. check_all (dep_error (map p_id ps) p) (p_deps p)) ps of
        Some e \<Rightarrow> Inl e
      | None \<Rightarrow>
      ebind (stable_topo_order ps) (\<lambda>order.
      ebind (canonical_ids [] [] ps) (\<lambda>id_of. Inr (order, id_of))))"

definition parse_and_validate ::
  "(string \<Rightarrow> string + planned_node list) \<Rightarrow> string \<Rightarrow> string \<Rightarrow> (graph_plan_error + graph_node list) option" where
  "parse_and_validate from_str json objective =
     (case from_str json of
        Inl e \<Rightarrow> Some (Inl (Parse e))
      | Inr planned \<Rightarrow>
          if planned = [] then Some (Inl Empty)
          else let ps = map dedup_deps planned
               in case plan_checks ps of
                    Inl e \<Rightarrow> Some (Inl e)
                  | Inr (order, id_of) \<Rightarrow>
                      map_option (\<lambda>nodes. Inr (nodes @ [final_verification_node objective nodes]))
                        (those (map (\<lambda>idx. canonical_node id_of (ps ! idx)) order)))"

section \<open>Replans\<close>

definition origin_error :: "string list \<Rightarrow> planned_node \<Rightarrow> string \<Rightarrow> graph_plan_error option" where
  "origin_error existing_ids p origin =
     (if origin \<notin> set existing_ids then Some (UnknownOrigin (p_id p) origin)
      else if origin = FINAL_NODE_ID then Some (UnknownDep (p_id p) FINAL_NODE_ID)
      else None)"

definition replan_extra :: "string list \<Rightarrow> planned_node \<Rightarrow> graph_plan_error option" where
  "replan_extra existing_ids p =
     (case check_all (origin_error existing_ids p) (p_discovered_from p) of
        Some e \<Rightarrow> Some e
      | None \<Rightarrow> if list_ex (\<lambda>d. d = FINAL_NODE_ID) (p_deps p)
                then Some (UnknownDep (p_id p) FINAL_NODE_ID) else None)"

definition resolve :: "string list \<Rightarrow> (string \<times> string) list \<Rightarrow> string \<Rightarrow> string option" where
  "resolve existing_ids id_of dep =
     (if dep \<in> set existing_ids then Some dep else map_of id_of dep)"

definition dead_ids :: "graph_node list \<Rightarrow> string list" where
  "dead_ids ns = map n_id (filter (\<lambda>n. n_status n = Failed \<or> n_status n = NodeBlocked) ns)"

definition replan_dep_error ::
  "graph_node list \<Rightarrow> (string \<times> string) list \<Rightarrow> planned_node \<Rightarrow> string \<Rightarrow> graph_plan_error option" where
  "replan_dep_error existing id_of p d =
     (if d = p_id p then Some (SelfDep (p_id p))
      else if resolve (node_ids existing) id_of d = None then Some (UnknownDep (p_id p) d)
      else if d \<in> set (dead_ids existing) then Some (DeadDep (p_id p) d)
      else None)"

text \<open>\<open>edges.push((index_of[a], index_of[b]))\<close>.\<close>

definition index_edge :: "string list \<Rightarrow> string \<times> string \<Rightarrow> (nat \<times> nat) option" where
  "index_edge ids e =
     (case (index_of ids (fst e), index_of ids (snd e)) of (Some i, Some j) \<Rightarrow> Some (i, j) | _ \<Rightarrow> None)"

definition existing_edges :: "graph_node list \<Rightarrow> (string \<times> string) list" where
  "existing_edges existing = concat (map (\<lambda>n. map (\<lambda>d. (dep_on d, n_id n)) (n_deps n)) existing)"

definition replan_node :: "string list \<Rightarrow> (string \<times> string) list \<Rightarrow> planned_node \<Rightarrow> graph_node option" where
  "replan_node existing_ids id_of p =
     Option.bind (map_of id_of (p_id p)) (\<lambda>i.
     Option.bind (those (map (resolve existing_ids id_of) (p_deps p))) (\<lambda>ds.
     Some (fresh_node i p
       (fold (\<lambda>origin deps. if list_ex (\<lambda>d. dep_on d = origin) deps then deps
                            else deps @ [\<lparr>dep_on = origin, dep_kind = DiscoveredFrom\<rparr>])
          (p_discovered_from p) (map blocks_dep ds)))))"

text \<open>The appendix edges of the combined graph: the resolved ordering dependencies only.\<close>

definition appendix_edges ::
  "string list \<Rightarrow> (string \<times> string) list \<Rightarrow> planned_node list \<Rightarrow> (string \<times> string) list option" where
  "appendix_edges existing_ids id_of ps =
     map_option concat (those (map (\<lambda>p.
       Option.bind (map_of id_of (p_id p)) (\<lambda>i.
       map_option (map (\<lambda>d. (d, i))) (those (map (resolve existing_ids id_of) (p_deps p))))) ps))"

definition combined_acyclic ::
  "string list \<Rightarrow> (string \<times> string) list \<Rightarrow> (graph_plan_error option) option" where
  "combined_acyclic ids es =
     map_option (\<lambda>edges.
       let n = length ids; g = (n, edges)
       in case kahn_loop (edge_relax g) n (edge_indeg g) (replicate n False) [] of
            Inl left \<Rightarrow> Some (Cycle (map (\<lambda>i. ids ! i) left))
          | Inr _ \<Rightarrow> None)
     (those (map (index_edge ids) es))"

definition replan_checks :: "graph_node list \<Rightarrow> planned_node list \<Rightarrow> graph_plan_error + (string \<times> string) list" where
  "replan_checks existing ps =
     (case check_nodes (replan_extra (node_ids existing)) [] ps of
        Some e \<Rightarrow> Inl e
      | None \<Rightarrow>
      ebind (canonical_ids (node_ids existing) [] ps) (\<lambda>id_of.
      case check_all (\<lambda>p. check_all (replan_dep_error existing id_of p) (p_deps p)) ps of
        Some e \<Rightarrow> Inl e
      | None \<Rightarrow> Inr id_of))"

definition validate_replan ::
  "(string \<Rightarrow> string + planned_node list) \<Rightarrow> graph_node list \<Rightarrow> string \<Rightarrow> (graph_plan_error + graph_node list) option" where
  "validate_replan from_str existing json =
     (case from_str json of
        Inl e \<Rightarrow> Some (Inl (Parse e))
      | Inr planned \<Rightarrow>
          if planned = [] then Some (Inl Empty)
          else if length planned + length existing > MAX_GRAPH_NODES + 1
          then Some (Inl (TooManyNodes (length planned + length existing - 1)))
          else let ps = map dedup_deps planned
               in case replan_checks existing ps of
                    Inl e \<Rightarrow> Some (Inl e)
                  | Inr id_of \<Rightarrow>
                      Option.bind (those (map (\<lambda>p. map_of id_of (p_id p)) ps)) (\<lambda>new_ids.
                      Option.bind (appendix_edges (node_ids existing) id_of ps) (\<lambda>new_edges.
                      Option.bind (combined_acyclic (node_ids existing @ new_ids) (existing_edges existing @ new_edges))
                        (\<lambda>err. case err of
                           Some e \<Rightarrow> Some (Inl e)
                         | None \<Rightarrow> map_option Inr (those (map (replan_node (node_ids existing) id_of) ps))))))"

section \<open>What the checks establish\<close>

lemma guard_Inr: "(case c of Some e \<Rightarrow> Inl e | None \<Rightarrow> k) = Inr x \<longleftrightarrow> c = None \<and> k = Inr x"
  and guard_None: "(case c of Some e \<Rightarrow> Some e | None \<Rightarrow> r) = None \<longleftrightarrow> c = None \<and> r = None"
  by (auto split: option.splits)

lemma check_nodes_None:
  "check_nodes extra seen ps = None \<longleftrightarrow>
     distinct (map p_id ps) \<and> set (map p_id ps) \<inter> set seen = {} \<and>
     (\<forall>p \<in> set ps. valid_slug (p_id p) \<and> trim (p_title p) \<noteq> [] \<and> trim (p_spec p) \<noteq> [] \<and> extra p = None)"
  by (induction ps arbitrary: seen) (auto simp: slug_error_def split: option.splits)

lemma canonical_ids_Inr:
  "canonical_ids ex owner ps = Inr m \<longleftrightarrow>
     m = map (\<lambda>p. (p_id p, node_id_for_slug (p_id p))) ps \<and>
     distinct (map (\<lambda>p. node_id_for_slug (p_id p)) ps) \<and>
     (\<forall>p \<in> set ps. node_id_for_slug (p_id p) \<notin> set ex \<union> fst ` set owner)"
proof (induction ps arbitrary: owner m)
  case (Cons p ps)
  let ?i = "node_id_for_slug (p_id p)"
  show ?case
  proof (cases "?i \<in> set ex \<union> fst ` set owner")
    case True
    moreover from True have "?i \<notin> set ex \<Longrightarrow> \<exists>prior. map_of owner ?i = Some prior"
      by (metis UnE map_of_eq_None_iff not_Some_eq)
    ultimately show ?thesis by (auto simp: Let_def)
  next
    case False
    then have "map_of owner ?i = None" by (simp add: map_of_eq_None_iff)
    with False show ?thesis by (auto simp: Let_def ebind_eq_Inr Cons.IH image_iff)
  qed
qed auto

lemma length_node_id [simp]: "length (node_id_for_slug s) = 11"
  by (simp add: node_id_for_slug_def fnv1a32_hex_def)

lemma node_id_not_final [simp]: "node_id_for_slug s \<noteq> FINAL_NODE_ID" "FINAL_NODE_ID \<noteq> node_id_for_slug s"
proof -
  have "length FINAL_NODE_ID = 8" by (simp add: FINAL_NODE_ID_def)
  then show "node_id_for_slug s \<noteq> FINAL_NODE_ID" using length_node_id [of s] by (metis numeral_eq_iff semiring_norm(83,88,90))
  then show "FINAL_NODE_ID \<noteq> node_id_for_slug s" by metis
qed

lemma dedup_simps [simp]: "p_id (dedup_deps p) = p_id p" "p_title (dedup_deps p) = p_title p"
  "p_spec (dedup_deps p) = p_spec p" "p_discovered_from (dedup_deps p) = p_discovered_from p"
  "distinct (p_deps (dedup_deps p))" "set (p_deps (dedup_deps p)) = set (p_deps p)"
  using distinct_retain_new [of "\<lambda>d. d" "[]" "p_deps p"] set_retain_new [of "\<lambda>d. d" "[]" "p_deps p"]
  by (simp_all add: dedup_deps_def)

text \<open>The shape of a plan: slugs that are unique, dependencies that resolve, no repetitions.\<close>

definition plan_shape :: "planned_node list \<Rightarrow> bool" where
  "plan_shape ps \<longleftrightarrow> distinct (map p_id ps) \<and>
     (\<forall>p \<in> set ps. distinct (p_deps p) \<and> set (p_deps p) \<subseteq> p_id ` set ps)"

definition plan_edges :: "planned_node list \<Rightarrow> (string \<times> string) set" where
  "plan_edges ps = {(d, p_id p) | d p. p \<in> set ps \<and> d \<in> set (p_deps p)}"

lemma plan_shape_keyed: "plan_shape ps \<Longrightarrow> keyed_ok (keyed_plan ps)"
  by (auto simp: plan_shape_def keyed_ok_def keyed_plan_def comp_def)

lemma length_keyed_plan [simp]: "length (keyed_plan ps) = length ps"
  by (simp add: keyed_plan_def)

lemma keyed_plan_before:
  "j < length ps \<Longrightarrow> i < length ps \<Longrightarrow>
     keyed.before (keyed_plan ps) j i \<longleftrightarrow> p_id (ps ! j) \<in> set (p_deps (ps ! i))"
  by (simp add: keyed.before_def keyed_cnt_def keyed_plan_def)

lemma keyed_plan_deps:
  "keyed.deps (keyed_plan ps) =
     {(j, i). j < length ps \<and> i < length ps \<and> p_id (ps ! j) \<in> set (p_deps (ps ! i))}"
  by (auto simp: keyed.deps_def keyed_plan_before)

lemma plan_edges_image:
  assumes "plan_shape ps"
  shows "plan_edges ps = map_prod (\<lambda>i. p_id (ps ! i)) (\<lambda>i. p_id (ps ! i)) ` keyed.deps (keyed_plan ps)"
    (is "_ = ?h ` _")
proof
  show "plan_edges ps \<subseteq> ?h ` keyed.deps (keyed_plan ps)"
  proof
    fix e assume "e \<in> plan_edges ps"
    then obtain d p where e: "e = (d, p_id p)" "p \<in> set ps" "d \<in> set (p_deps p)" by (auto simp: plan_edges_def)
    then obtain q where "q \<in> set ps" "p_id q = d" using assms by (auto simp: plan_shape_def)
    with e obtain i j where "i < length ps" "j < length ps" "ps ! i = p" "ps ! j = q" by (metis in_set_conv_nth)
    with e \<open>p_id q = d\<close> have "(j, i) \<in> keyed.deps (keyed_plan ps)" "e = ?h (j, i)" by (auto simp: keyed_plan_deps)
    then show "e \<in> ?h ` keyed.deps (keyed_plan ps)" by blast
  qed
qed (force simp: plan_edges_def keyed_plan_deps)

lemma inj_on_nth_key: "distinct (map k ps) \<Longrightarrow> inj_on (\<lambda>i. k (ps ! i)) {..<length ps}"
  by (auto simp: inj_on_def distinct_conv_nth)

lemma acyclic_plan_edges: "plan_shape ps \<Longrightarrow> acyclic (keyed.deps (keyed_plan ps)) \<Longrightarrow> acyclic (plan_edges ps)"
  unfolding plan_edges_image
  by (rule acyclic_image [where A = "{..<length ps}"])
     (auto simp: plan_shape_def inj_on_nth_key keyed.deps_def)

text \<open>\<open>stable_topo_order\<close> succeeds exactly on acyclic plans.\<close>

lemma stable_topo_order_run:
  "stable_topo_order ps = (case keyed.kahn_run (keyed_plan ps) of
     Inl left \<Rightarrow> Inl (Cycle (map (\<lambda>i. p_id (ps ! i)) left)) | Inr order \<Rightarrow> Inr order)"
  by (simp add: stable_topo_order_def keyed.kahn_run_def Let_def)

lemma plan_deps_acyclic:
  assumes "plan_shape ps" "acyclic (plan_edges ps)"
  shows "acyclic (keyed.deps (keyed_plan ps))"
proof -
  have "(p_id (ps ! j), p_id (ps ! i)) \<in> (plan_edges ps)\<^sup>+" if "(j, i) \<in> (keyed.deps (keyed_plan ps))\<^sup>+" for j i
    using that
  proof (induction rule: trancl_induct)
    case (base i)
    then show ?case unfolding plan_edges_image [OF assms(1)] by force
  next
    case (step i k)
    then have "(p_id (ps ! i), p_id (ps ! k)) \<in> plan_edges ps"
      unfolding plan_edges_image [OF assms(1)] by force
    with step.IH show ?case by (rule trancl_into_trancl)
  qed
  with assms(2) show ?thesis by (auto simp: acyclic_def)
qed

lemma stable_topo_order_iff:
  assumes "plan_shape ps"
  shows "(\<exists>order. stable_topo_order ps = Inr order) \<longleftrightarrow> acyclic (plan_edges ps)"
  using keyed.kahn_iff [OF plan_shape_keyed [OF assms]] acyclic_plan_edges [OF assms] plan_deps_acyclic [OF assms]
  by (auto simp: stable_topo_order_run split: sum.splits)

section \<open>Correctness of the initial plan\<close>

definition plan_node :: "planned_node \<Rightarrow> graph_node" where
  "plan_node p = fresh_node (node_id_for_slug (p_id p)) p (map (\<lambda>d. blocks_dep (node_id_for_slug d)) (p_deps p))"

definition id_map :: "planned_node list \<Rightarrow> (string \<times> string) list" where
  "id_map ps = map (\<lambda>p. (p_id p, node_id_for_slug (p_id p))) ps"

lemma map_of_id_map: "map_of (id_map ps) s = (if s \<in> p_id ` set ps then Some (node_id_for_slug s) else None)"
  unfolding id_map_def by (rule map_of_graph)

lemma plan_node_simps [simp]:
  "n_id (plan_node p) = node_id_for_slug (p_id p)" "n_status (plan_node p) = Waiting"
  "n_title (plan_node p) = trim (p_title p)" "n_spec (plan_node p) = trim (p_spec p)"
  "dep_ids (plan_node p) = map node_id_for_slug (p_deps p)"
  "blocks_on (plan_node p) = map node_id_for_slug (p_deps p)"
  by (simp_all add: plan_node_def fresh_node_def dep_ids_def blocks_on_def blocks_dep_def comp_def)

lemma final_node_simps [simp]:
  "n_id (final_verification_node obj ns) = FINAL_NODE_ID" "n_status (final_verification_node obj ns) = Waiting"
  "dep_ids (final_verification_node obj ns) = node_ids ns" "blocks_on (final_verification_node obj ns) = node_ids ns"
  by (simp_all add: final_verification_node_def dep_ids_def blocks_on_def blocks_dep_def comp_def node_ids_def)

text \<open>What the checks of the initial plan leave.\<close>

definition plan_ok :: "planned_node list \<Rightarrow> nat list \<Rightarrow> bool" where
  "plan_ok ps order \<longleftrightarrow> length ps \<le> MAX_GRAPH_NODES \<and> plan_shape ps \<and>
     (\<forall>p \<in> set ps. valid_slug (p_id p) \<and> trim (p_title p) \<noteq> [] \<and> trim (p_spec p) \<noteq> [] \<and> p_id p \<notin> set (p_deps p)) \<and>
     stable_topo_order ps = Inr order \<and> distinct (map (\<lambda>p. node_id_for_slug (p_id p)) ps)"

lemma plan_checks_Inr:
  assumes "\<forall>p \<in> set ps. distinct (p_deps p)"
  shows "plan_checks ps = Inr (order, m) \<longleftrightarrow> plan_ok ps order \<and> m = id_map ps"
  using assms unfolding plan_checks_def plan_ok_def plan_shape_def id_map_def
  by (auto simp: guard_Inr ebind_eq_Inr check_nodes_None check_all_None dep_error_def canonical_ids_Inr
           split: if_splits)

lemma canonical_node_eq:
  assumes "plan_shape ps" "p \<in> set ps"
  shows "canonical_node (id_map ps) p = Some (plan_node p)"
proof -
  have "those (map (map_of (id_map ps)) (p_deps p)) = Some (map node_id_for_slug (p_deps p))"
    using assms by (intro those_map_Some) (auto simp: map_of_id_map plan_shape_def)
  with assms(2) show ?thesis
    by (simp add: canonical_node_def plan_node_def map_of_id_map comp_def)
qed

lemma stable_topo_order_ok:
  assumes "plan_shape ps" "stable_topo_order ps = Inr order"
  shows "distinct order" "set order = {..<length ps}"
    "topo_sorted (length ps) (keyed.before (keyed_plan ps)) order"
    "least_first (length ps) (keyed.before (keyed_plan ps)) order"
  using keyed.kahn_ok [OF plan_shape_keyed [OF assms(1)], of order] assms(2)
  by (auto simp: stable_topo_order_run split: sum.splits)

definition plan_nodes :: "planned_node list \<Rightarrow> nat list \<Rightarrow> graph_node list" where
  "plan_nodes ps order = map (\<lambda>i. plan_node (ps ! i)) order"

text \<open>The result of a successful or failed validation; there is no third outcome, such as a panic.\<close>

lemma parse_and_validate_cases:
  "parse_and_validate from_str json obj =
     Some (case from_str json of
       Inl e \<Rightarrow> Inl (Parse e)
     | Inr [] \<Rightarrow> Inl Empty
     | Inr planned \<Rightarrow> (case plan_checks (map dedup_deps planned) of
         Inl e \<Rightarrow> Inl e
       | Inr (order, _) \<Rightarrow> (let ns = plan_nodes (map dedup_deps planned) order
                            in Inr (ns @ [final_verification_node obj ns]))))"
proof (cases "from_str json")
  case (Inr planned)
  let ?ps = "map dedup_deps planned"
  have "those (map (\<lambda>i. canonical_node m (?ps ! i)) order) = Some (plan_nodes ?ps order)"
    if "plan_checks ?ps = Inr (order, m)" for order m
  proof -
    have ok: "plan_ok ?ps order" "m = id_map ?ps" using that by (simp_all add: plan_checks_Inr)
    then have "i < length ?ps" if "i \<in> set order" for i
      using stable_topo_order_ok(2) [of ?ps order] that by (auto simp: plan_ok_def)
    then show ?thesis unfolding plan_nodes_def ok(2)
      using ok(1) by (intro those_map_Some canonical_node_eq) (auto simp: plan_ok_def)
  qed
  with Inr show ?thesis
    by (cases planned) (auto simp: parse_and_validate_def Let_def split: sum.splits)
qed (simp add: parse_and_validate_def)

lemma parse_and_validate_Inr:
  "parse_and_validate from_str json obj = Some (Inr nodes) \<longleftrightarrow>
     (\<exists>planned order. from_str json = Inr planned \<and> planned \<noteq> [] \<and> plan_ok (map dedup_deps planned) order \<and>
        (let ns = plan_nodes (map dedup_deps planned) order in nodes = ns @ [final_verification_node obj ns]))"
proof (cases "from_str json")
  case (Inr planned)
  let ?ps = "map dedup_deps planned"
  have ok: "\<forall>p \<in> set ?ps. distinct (p_deps p)" by simp
  show ?thesis
  proof (cases planned)
    case (Cons q qs)
    then show ?thesis
    proof (cases "plan_checks ?ps")
      case (Inl e)
      then have "\<not> plan_ok ?ps order" for order using plan_checks_Inr [OF ok] by (metis sum.distinct(1))
      with Inr Inl Cons show ?thesis by (simp add: parse_and_validate_cases)
    next
      case (Inr r)
      obtain order m where r: "plan_checks ?ps = Inr (order, m)" using Inr by (cases r) simp
      then have "plan_ok ?ps order' \<longleftrightarrow> order' = order" for order'
        using plan_checks_Inr [OF ok] by (metis Pair_inject sum.inject(2))
      with r \<open>from_str json = Inr planned\<close> Cons show ?thesis
        by (auto simp: parse_and_validate_cases Let_def)
    qed
  qed (simp add: Inr parse_and_validate_cases)
qed (simp add: parse_and_validate_cases)

lemma plan_okD:
  assumes "plan_ok ps order"
  shows "plan_shape ps" "distinct (map (\<lambda>p. node_id_for_slug (p_id p)) ps)" "distinct order"
    "set order = {..<length ps}" "length order = length ps" "acyclic (plan_edges ps)"
    "topo_sorted (length ps) (keyed.before (keyed_plan ps)) order"
proof -
  show sh: "plan_shape ps" and "distinct (map (\<lambda>p. node_id_for_slug (p_id p)) ps)"
    using assms by (auto simp: plan_ok_def)
  have st: "stable_topo_order ps = Inr order" using assms by (simp add: plan_ok_def)
  show "distinct order" "set order = {..<length ps}"
    "topo_sorted (length ps) (keyed.before (keyed_plan ps)) order" by (rule stable_topo_order_ok [OF sh st])+
  then show "length order = length ps" using distinct_card [of order] by simp
  show "acyclic (plan_edges ps)" using stable_topo_order_iff [OF sh] st by blast
qed

lemma set_plan_nodes: "plan_ok ps order \<Longrightarrow> set (plan_nodes ps order) = plan_node ` set ps"
proof -
  assume "plan_ok ps order"
  then have "set (plan_nodes ps order) = (\<lambda>i. plan_node (ps ! i)) ` {..<length ps}"
    by (simp add: plan_nodes_def plan_okD(4))
  also have "\<dots> = plan_node ` ((!) ps ` {0..<length ps})" by (simp add: image_image lessThan_atLeast0)
  finally show ?thesis by (simp only: nth_image [OF order_refl]) simp
qed

lemma plan_nodes_ids:
  assumes "plan_ok ps order"
  shows "distinct (node_ids (plan_nodes ps order))" "FINAL_NODE_ID \<notin> set (node_ids (plan_nodes ps order))"
proof -
  have "node_ids (plan_nodes ps order) = map (\<lambda>i. node_id_for_slug (p_id (ps ! i))) order"
    by (simp add: node_ids_def plan_nodes_def comp_def)
  moreover have "inj_on (\<lambda>i. node_id_for_slug (p_id (ps ! i))) (set order)"
    using inj_on_nth_key [OF plan_okD(2) [OF assms]] plan_okD(4) [OF assms] by simp
  ultimately show "distinct (node_ids (plan_nodes ps order))" "FINAL_NODE_ID \<notin> set (node_ids (plan_nodes ps order))"
    using plan_okD(3) [OF assms] by (auto simp: distinct_map)
qed

lemma edges_plan_nodes:
  assumes "plan_ok ps order"
  shows "edges (plan_nodes ps order) = map_prod node_id_for_slug node_id_for_slug ` plan_edges ps"
proof -
  have "edges (plan_nodes ps order) = (\<Union>p \<in> set ps. set (dep_ids (plan_node p)) \<times> {n_id (plan_node p)})"
    unfolding edges_Union set_plan_nodes [OF assms] by simp
  also have "\<dots> = map_prod node_id_for_slug node_id_for_slug ` plan_edges ps"
    unfolding plan_edges_def by fastforce
  finally show ?thesis .
qed

lemma acyclic_plan_nodes:
  assumes "plan_ok ps order"
  shows "acyclic (edges (plan_nodes ps order))"
  unfolding edges_plan_nodes [OF assms]
proof (rule acyclic_image [where A = "p_id ` set ps"])
  show "acyclic (plan_edges ps)" using plan_okD(6) [OF assms] .
  show "inj_on node_id_for_slug (p_id ` set ps)"
    using plan_okD(2) [OF assms] by (auto simp: distinct_map inj_on_def)
  show "plan_edges ps \<subseteq> p_id ` set ps \<times> p_id ` set ps"
    using plan_okD(1) [OF assms] by (auto simp: plan_edges_def plan_shape_def)
qed

lemma edges_append_final:
  "edges (ns @ [final_verification_node obj ns]) = edges ns \<union> set (node_ids ns) \<times> {FINAL_NODE_ID}"
  by (simp add: edges_append edges_single)

lemma plan_wf:
  assumes "plan_ok ps order" and ns: "ns = plan_nodes ps order"
  shows "wf_nodes (ns @ [final_verification_node obj ns])" "final_gate (ns @ [final_verification_node obj ns])"
proof -
  note sh = plan_okD(1) [OF assms(1)] and ids = plan_nodes_ids [OF assms(1), folded ns]
  have deps: "set (dep_ids n) \<subseteq> set (node_ids ns) \<and> distinct (dep_ids n)" if n: "n \<in> set ns" for n
  proof -
    obtain p where p: "p \<in> set ps" "n = plan_node p" using n unfolding ns set_plan_nodes [OF assms(1)] by blast
    have "inj_on node_id_for_slug (p_id ` set ps)"
      using plan_okD(2) [OF assms(1)] by (auto simp: distinct_map inj_on_def)
    moreover have d: "set (p_deps p) \<subseteq> p_id ` set ps" "distinct (p_deps p)"
      using sh p(1) by (auto simp: plan_shape_def)
    ultimately have "distinct (dep_ids n)" by (auto simp: p(2) distinct_map intro: inj_on_subset)
    moreover have "n_id ` set ns = node_id_for_slug ` p_id ` set ps"
      by (simp add: ns set_plan_nodes [OF assms(1)] image_image)
    then have "set (dep_ids n) \<subseteq> set (node_ids ns)" using d(1) by (simp add: p(2) set_node_ids image_mono)
    ultimately show ?thesis by simp
  qed
  have "acyclic (edges ns \<union> set (node_ids ns) \<times> {FINAL_NODE_ID})"
  proof (rule acyclic_sink)
    show "acyclic (edges ns)" unfolding ns by (rule acyclic_plan_nodes [OF assms(1)])
    show "FINAL_NODE_ID \<notin> Domain (edges ns \<union> set (node_ids ns) \<times> {FINAL_NODE_ID})"
      using deps ids(2) by (auto simp: edges_def)
  qed auto
  then show "wf_nodes (ns @ [final_verification_node obj ns])"
    using deps ids by (auto simp: wf_nodes_def edges_append_final)
  show "final_gate (ns @ [final_verification_node obj ns])"
    using ids(2) by (auto simp: final_gate_def set_node_ids) (metis imageI)
qed

lemma waiting_settled: "\<forall>n \<in> set ns. n_status n = Waiting \<Longrightarrow> settled_ok ns"
  by (auto simp: sched_defs started_def dead_def)

lemma plan_waiting: "plan_ok ps order \<Longrightarrow> ns = plan_nodes ps order \<Longrightarrow>
    \<forall>n \<in> set (ns @ [final_verification_node obj ns]). n_status n = Waiting"
  by (auto simp: set_plan_nodes)

text \<open>Every dependency is stored before the node that has it.\<close>

definition deps_before :: "graph_node list \<Rightarrow> bool" where
  "deps_before ns \<longleftrightarrow> (\<forall>k < length ns. set (dep_ids (ns ! k)) \<subseteq> set (node_ids (take k ns)))"

lemma plan_deps_before:
  assumes "plan_ok ps order" and ns: "ns = plan_nodes ps order"
  shows "deps_before (ns @ [final_verification_node obj ns])"
proof -
  have "set (dep_ids (ns ! k)) \<subseteq> set (node_ids (take k ns))" if k: "k < length ns" for k
  proof
    have i: "order ! k < length ps" using plan_okD(4) [OF assms(1)] k nth_mem [of k order] by (auto simp: ns plan_nodes_def)
    fix x assume "x \<in> set (dep_ids (ns ! k))"
    then obtain d where d: "d \<in> set (p_deps (ps ! (order ! k)))" "x = node_id_for_slug d"
      using k by (auto simp: ns plan_nodes_def)
    then obtain j where j: "j < length ps" "p_id (ps ! j) = d"
    proof -
      have "d \<in> p_id ` set ps" using d(1) plan_okD(1) [OF assms(1)] nth_mem [OF i] by (auto simp: plan_shape_def)
      then show thesis using that by (metis (no_types, lifting) imageE in_set_conv_nth)
    qed
    then have "j \<in> set (take k order)"
      using plan_okD(7) [OF assms(1)] k i d(1) keyed_plan_before [OF j(1) i]
      by (auto simp: topo_sorted_def ns plan_nodes_def)
    with j d show "x \<in> set (node_ids (take k ns))"
      by (force simp: ns plan_nodes_def node_ids_def take_map)
  qed
  then show ?thesis by (auto simp: deps_before_def nth_append less_Suc_eq)
qed

end
