(* ===== verification/Graph_Replan.thy ===== *)
theory Graph_Replan
  imports Graph_Plan
begin

text \<open>
  Correctness of \<open>validate_replan\<close> and of installing its appendix: what a successful validation
  establishes, that it does not panic on a well-formed graph, and that the graph stays
  well-formed, gated and schedulable when \<open>append_replan_nodes\<close> installs the appendix.
\<close>

section \<open>The combined check decides acyclicity\<close>

lemma index_edge_Some:
  "fst e \<in> set ids \<Longrightarrow> snd e \<in> set ids \<Longrightarrow> \<exists>p. index_edge ids e = Some p"
  by (cases "index_of ids (fst e)"; cases "index_of ids (snd e)") (auto simp: index_edge_def)

lemma index_edge_SomeD:
  "index_edge ids e = Some p \<Longrightarrow>
     fst p < length ids \<and> snd p < length ids \<and> e = map_prod ((!) ids) ((!) ids) p"
  by (cases e) (auto simp: index_edge_def dest!: index_of_SomeD split: option.splits)

lemma combined_total:
  assumes "\<forall>e \<in> set es. fst e \<in> set ids \<and> snd e \<in> set ids"
  shows "\<exists>es'. those (map (index_edge ids) es) = Some es'"
proof -
  have "\<exists>p. index_edge ids e = Some p" if "e \<in> set es" for e
    using index_edge_Some assms that by blast
  then obtain f where "\<And>e. e \<in> set es \<Longrightarrow> index_edge ids e = Some (f e)" by metis
  then show ?thesis using those_map_Some by blast
qed

lemma indexed_edges:
  assumes "those (map (index_edge ids) es) = Some es'"
  shows "edge_ok (length ids, es')" "set es = map_prod ((!) ids) ((!) ids) ` set es'"
    "edge.deps (length ids, es') = set es'"
proof -
  have eq: "map (index_edge ids) es = map Some es'" using assms by (simp add: those_eq_Some)
  then have "Some ` set es' = index_edge ids ` set es" by (metis set_map)
  then have 1: "\<And>p. p \<in> set es' \<Longrightarrow> \<exists>e \<in> set es. index_edge ids e = Some p"
    and 2: "\<And>e. e \<in> set es \<Longrightarrow> \<exists>p \<in> set es'. index_edge ids e = Some p" by (auto simp: set_eq_iff image_iff) metis
  show ok: "edge_ok (length ids, es')"
    using 1 index_edge_SomeD unfolding edge_ok_def by fastforce
  show "set es = map_prod ((!) ids) ((!) ids) ` set es'"
  proof
    show "set es \<subseteq> map_prod ((!) ids) ((!) ids) ` set es'"
    proof
      fix e assume "e \<in> set es"
      from 2 [OF this] obtain p where "p \<in> set es'" "index_edge ids e = Some p" by blast
      with index_edge_SomeD [of ids e p] show "e \<in> map_prod ((!) ids) ((!) ids) ` set es'" by blast
    qed
    have "map_prod ((!) ids) ((!) ids) p \<in> set es" if "p \<in> set es'" for p
      using 1 [OF that] index_edge_SomeD by blast
    then show "map_prod ((!) ids) ((!) ids) ` set es' \<subseteq> set es" by (rule image_subsetI)
  qed
  show "edge.deps (length ids, es') = set es'"
  proof -
    have "0 < count_list es' p \<longleftrightarrow> p \<in> set es'" for p by (metis count_list_0_iff neq0_conv)
    with ok show ?thesis by (auto simp: edge.deps_def edge.before_def edge_cnt_def edge_ok_def)
  qed
qed

lemma combined_acyclic_None:
  "combined_acyclic ids es = Some None \<longleftrightarrow>
     (\<exists>es'. those (map (index_edge ids) es) = Some es' \<and> (\<exists>ord. edge.kahn_run (length ids, es') = Inr ord))"
proof (cases "those (map (index_edge ids) es)")
  case (Some es')
  then show ?thesis
    by (cases "edge.kahn_run (length ids, es')") (simp_all add: combined_acyclic_def edge.kahn_run_def Let_def)
qed (simp add: combined_acyclic_def)

lemma combined_acyclic_ok:
  assumes "distinct ids" "combined_acyclic ids es = Some None"
  shows "acyclic (set es)"
proof -
  obtain es' where es': "those (map (index_edge ids) es) = Some es'"
    and "\<exists>ord. edge.kahn_run (length ids, es') = Inr ord"
    using assms(2) by (auto simp: combined_acyclic_None)
  with edge.kahn_iff indexed_edges [OF es'] have "acyclic (set es')" by metis
  moreover have "set es' \<subseteq> {..<length ids} \<times> {..<length ids}"
    using indexed_edges(1) [OF es'] by (auto simp: edge_ok_def)
  ultimately show ?thesis
    unfolding indexed_edges(2) [OF es'] using assms(1)
    by (intro acyclic_image [where A = "{..<length ids}"]) (auto simp: inj_on_nth)
qed

section \<open>What the replan checks establish\<close>

text \<open>The id a dependency of the appendix resolves to.\<close>

definition rname :: "string list \<Rightarrow> string \<Rightarrow> string" where
  "rname ex d = (if d \<in> set ex then d else node_id_for_slug d)"

definition replan_ok :: "graph_node list \<Rightarrow> planned_node list \<Rightarrow> bool" where
  "replan_ok existing ps \<longleftrightarrow> distinct (map p_id ps) \<and>
     distinct (map (\<lambda>p. node_id_for_slug (p_id p)) ps) \<and>
     (\<forall>p \<in> set ps. node_id_for_slug (p_id p) \<notin> set (node_ids existing) \<and>
        distinct (p_deps p) \<and>
        set (p_discovered_from p) \<subseteq> set (node_ids existing) - {FINAL_NODE_ID} \<and>
        FINAL_NODE_ID \<notin> set (p_deps p) \<and>
        set (p_deps p) \<subseteq> (set (node_ids existing) \<union> p_id ` set ps) - set (dead_ids existing))"

lemma resolve_eq: "d \<in> set ex \<union> p_id ` set ps \<Longrightarrow> resolve ex (id_map ps) d = Some (rname ex d)"
  by (auto simp: resolve_def rname_def map_of_id_map)

lemma resolve_None: "resolve ex (id_map ps) d = None \<longleftrightarrow> d \<notin> set ex \<union> p_id ` set ps"
  by (auto simp: resolve_def map_of_id_map)

lemma replan_checks_ok:
  assumes "replan_checks existing ps = Inr m" "\<forall>p \<in> set ps. distinct (p_deps p)"
  shows "m = id_map ps" "replan_ok existing ps"
proof -
  from assms(1) have c: "check_nodes (replan_extra (node_ids existing)) [] ps = None"
    "canonical_ids (node_ids existing) [] ps = Inr m"
    "check_all (\<lambda>p. check_all (replan_dep_error existing m p) (p_deps p)) ps = None"
    by (auto simp: replan_checks_def guard_Inr ebind_eq_Inr)
  show m: "m = id_map ps" using c(2) by (simp add: canonical_ids_Inr id_map_def)
  have "replan_extra (node_ids existing) p = None \<longleftrightarrow>
      set (p_discovered_from p) \<subseteq> set (node_ids existing) - {FINAL_NODE_ID} \<and> FINAL_NODE_ID \<notin> set (p_deps p)" for p
    by (auto simp: replan_extra_def guard_None check_all_None origin_error_def list_ex_iff)
  moreover have "replan_dep_error existing m p d = None \<Longrightarrow>
      d \<in> (set (node_ids existing) \<union> p_id ` set ps) - set (dead_ids existing)" for p d
    unfolding replan_dep_error_def m resolve_None by (auto split: if_splits)
  ultimately show "replan_ok existing ps"
    using c assms(2) unfolding replan_ok_def check_nodes_None canonical_ids_Inr check_all_None by blast
qed

definition replan_graph_node :: "string list \<Rightarrow> planned_node \<Rightarrow> graph_node" where
  "replan_graph_node ex p = fresh_node (node_id_for_slug (p_id p)) p
     (fold (\<lambda>origin deps. if list_ex (\<lambda>d. dep_on d = origin) deps then deps
                          else deps @ [\<lparr>dep_on = origin, dep_kind = DiscoveredFrom\<rparr>])
        (p_discovered_from p) (map (\<lambda>d. blocks_dep (rname ex d)) (p_deps p)))"

lemma those_resolve:
  assumes "set (p_deps p) \<subseteq> set ex \<union> p_id ` set ps"
  shows "those (map (resolve ex (id_map ps)) (p_deps p)) = Some (map (rname ex) (p_deps p))"
  using assms by (intro those_map_Some resolve_eq) blast

lemma replan_node_eq:
  assumes "p \<in> set ps" "set (p_deps p) \<subseteq> set ex \<union> p_id ` set ps"
  shows "replan_node ex (id_map ps) p = Some (replan_graph_node ex p)"
  using assms(1)
  by (simp add: replan_node_def replan_graph_node_def those_resolve [OF assms(2)] map_of_id_map comp_def)

text \<open>Adding the origins keeps the ordering edges and repeats no target.\<close>

lemma origins_fold:
  "(let r = fold (\<lambda>origin deps. if list_ex (\<lambda>d. dep_on d = origin) deps then deps
                   else deps @ [\<lparr>dep_on = origin, dep_kind = DiscoveredFrom\<rparr>]) os ds
    in map dep_on (filter (\<lambda>d. dep_kind d = Blocks) r) = map dep_on (filter (\<lambda>d. dep_kind d = Blocks) ds)
     \<and> dep_on ` set r = dep_on ` set ds \<union> set os
     \<and> (distinct (map dep_on ds) \<longrightarrow> distinct (map dep_on r)))"
proof (induction os arbitrary: ds)
  case (Cons x os)
  show ?case
  proof (cases "list_ex (\<lambda>d. dep_on d = x) ds")
    case True
    then have "x \<in> dep_on ` set ds" by (auto simp: list_ex_iff)
    with True Cons.IH [of ds] show ?thesis by (auto simp: Let_def)
  next
    case False
    then have "x \<notin> dep_on ` set ds" by (auto simp: list_ex_iff)
    with False Cons.IH [of "ds @ [\<lparr>dep_on = x, dep_kind = DiscoveredFrom\<rparr>]"] show ?thesis
      by (simp add: Let_def)
  qed
qed simp

lemma replan_graph_node_simps [simp]:
  "n_id (replan_graph_node ex p) = node_id_for_slug (p_id p)"
  "n_status (replan_graph_node ex p) = Waiting"
  "blocks_on (replan_graph_node ex p) = map (rname ex) (p_deps p)"
  "set (dep_ids (replan_graph_node ex p)) = rname ex ` set (p_deps p) \<union> set (p_discovered_from p)"
  "distinct (map (rname ex) (p_deps p)) \<Longrightarrow> distinct (dep_ids (replan_graph_node ex p))"
  using origins_fold [of "p_discovered_from p" "map (\<lambda>d. blocks_dep (rname ex d)) (p_deps p)"]
  by (simp_all add: replan_graph_node_def fresh_node_def blocks_on_def dep_ids_def Let_def comp_def blocks_dep_def
        image_image)

definition replan_edges :: "string list \<Rightarrow> planned_node list \<Rightarrow> (string \<times> string) set" where
  "replan_edges ex ps = {(rname ex d, node_id_for_slug (p_id p)) | d p. p \<in> set ps \<and> d \<in> set (p_deps p)}"

lemma set_existing_edges: "set (existing_edges ns) = edges ns"
  by (auto simp: existing_edges_def edges_Union dep_ids_def)

lemma replan_okD:
  assumes "replan_ok existing ps" "p \<in> set ps"
  shows "set (p_deps p) \<subseteq> set (node_ids existing) \<union> p_id ` set ps"
    "node_id_for_slug (p_id p) \<notin> set (node_ids existing)"
    "d \<in> set (p_deps p) \<Longrightarrow> d \<notin> set (dead_ids existing) \<and> d \<noteq> FINAL_NODE_ID"
    "set (p_discovered_from p) \<subseteq> set (node_ids existing) - {FINAL_NODE_ID}"
    "d \<in> set (p_deps p) \<Longrightarrow> rname (node_ids existing) d \<in> set (node_ids existing) \<union> (\<lambda>p. node_id_for_slug (p_id p)) ` set ps"
  using assms unfolding replan_ok_def rname_def by fastforce+

lemma appendix_edges_eq:
  assumes "replan_ok existing ps"
  shows "\<exists>es. appendix_edges (node_ids existing) (id_map ps) ps = Some es \<and> set es = replan_edges (node_ids existing) ps"
proof -
  let ?ex = "node_ids existing"
  let ?f = "\<lambda>p. map (\<lambda>d. (rname ?ex d, node_id_for_slug (p_id p))) (p_deps p)"
  have "those (map (\<lambda>p. Option.bind (map_of (id_map ps) (p_id p)) (\<lambda>i.
       map_option (map (\<lambda>d. (d, i))) (those (map (resolve ?ex (id_map ps)) (p_deps p))))) ps) = Some (map ?f ps)"
    by (intro those_map_Some) (simp add: map_of_id_map comp_def those_resolve [OF replan_okD(1) [OF assms]])
  then show ?thesis
    by (auto simp: appendix_edges_def replan_edges_def)
qed

definition replan_ids :: "planned_node list \<Rightarrow> string list" where
  "replan_ids ps = map (\<lambda>p. node_id_for_slug (p_id p)) ps"

text \<open>After its checks, \<open>validate_replan\<close> runs the combined sort on the real edges and cannot panic.\<close>

lemma validate_replan_tail:
  assumes wf: "wf_nodes existing" and ok: "replan_ok existing ps"
  obtains es where "appendix_edges (node_ids existing) (id_map ps) ps = Some es"
    "those (map (\<lambda>p. map_of (id_map ps) (p_id p)) ps) = Some (replan_ids ps)"
    "those (map (replan_node (node_ids existing) (id_map ps)) ps) = Some (map (replan_graph_node (node_ids existing)) ps)"
    "distinct (node_ids existing @ replan_ids ps)"
    "\<exists>r. combined_acyclic (node_ids existing @ replan_ids ps) (existing_edges existing @ es) = Some r"
    "set (existing_edges existing @ es) = edges existing \<union> replan_edges (node_ids existing) ps"
proof -
  let ?ex = "node_ids existing"
  obtain es where es: "appendix_edges ?ex (id_map ps) ps = Some es" "set es = replan_edges ?ex ps"
    using appendix_edges_eq [OF ok] by blast
  have 1: "those (map (\<lambda>p. map_of (id_map ps) (p_id p)) ps) = Some (replan_ids ps)"
    unfolding replan_ids_def by (intro those_map_Some) (simp add: map_of_id_map)
  have 2: "those (map (replan_node ?ex (id_map ps)) ps) = Some (map (replan_graph_node ?ex) ps)"
    using replan_okD(1) [OF ok] by (intro those_map_Some replan_node_eq)
  have 3: "distinct (?ex @ replan_ids ps)"
    using wf ok by (auto simp: replan_ids_def replan_ok_def wf_nodes_def)
  have "\<forall>e \<in> edges existing. fst e \<in> set ?ex \<and> snd e \<in> set ?ex"
    using wf by (auto simp: edges_Union wf_nodes_def set_node_ids)
  moreover have "\<forall>e \<in> replan_edges ?ex ps. fst e \<in> set (?ex @ replan_ids ps) \<and> snd e \<in> set (?ex @ replan_ids ps)"
    using replan_okD(5) [OF ok] by (fastforce simp: replan_edges_def replan_ids_def)
  ultimately have "\<forall>e \<in> set (existing_edges existing @ es). fst e \<in> set (?ex @ replan_ids ps) \<and> snd e \<in> set (?ex @ replan_ids ps)"
    using es(2) by (auto simp: set_existing_edges)
  from combined_total [OF this]
  have 4: "\<exists>r. combined_acyclic (?ex @ replan_ids ps) (existing_edges existing @ es) = Some r"
    by (auto simp: combined_acyclic_def)
  show thesis using that [OF es(1) 1 2 3 4] es(2) by (simp add: set_existing_edges)
qed

lemma validate_replan_no_panic:
  assumes "wf_nodes existing"
  shows "validate_replan from_str existing json \<noteq> None"
proof (cases "from_str json")
  case (Inr planned)
  let ?ps = "map dedup_deps planned"
  show ?thesis
  proof (cases "replan_checks existing ?ps")
    case (Inr m)
    then have m: "m = id_map ?ps" "replan_ok existing ?ps" using replan_checks_ok by fastforce+
    show ?thesis
      by (rule validate_replan_tail [OF assms m(2)])
         (auto simp: validate_replan_def Let_def \<open>from_str json = Inr planned\<close> Inr m(1) comp_def
               simp del: map_map split: option.splits)
  qed (simp add: validate_replan_def Let_def Inr)
qed (simp add: validate_replan_def)

lemma validate_replan_ok:
  assumes "wf_nodes existing" "validate_replan from_str existing json = Some (Inr new)"
  obtains ps where "replan_ok existing ps" "new = map (replan_graph_node (node_ids existing)) ps"
    "acyclic (edges existing \<union> replan_edges (node_ids existing) ps)"
    "ps \<noteq> []" "length ps + length existing \<le> MAX_GRAPH_NODES + 1"
proof -
  obtain planned where p: "from_str json = Inr planned" "planned \<noteq> []"
    "length planned + length existing \<le> MAX_GRAPH_NODES + 1"
    using assms(2) by (auto simp: validate_replan_def split: sum.splits if_splits)
  let ?ps = "map dedup_deps planned"
  obtain m where r: "replan_checks existing ?ps = Inr m"
    using assms(2) p by (cases "replan_checks existing ?ps") (auto simp: validate_replan_def Let_def)
  have m: "m = id_map ?ps" "replan_ok existing ?ps" using replan_checks_ok [OF r] by simp_all
  obtain es where t: "appendix_edges (node_ids existing) (id_map ?ps) ?ps = Some es"
    "those (map (\<lambda>p. map_of (id_map ?ps) (p_id p)) ?ps) = Some (replan_ids ?ps)"
    "those (map (replan_node (node_ids existing) (id_map ?ps)) ?ps) = Some (map (replan_graph_node (node_ids existing)) ?ps)"
    "distinct (node_ids existing @ replan_ids ?ps)"
    "set (existing_edges existing @ es) = edges existing \<union> replan_edges (node_ids existing) ?ps"
    using validate_replan_tail [OF assms(1) m(2)] by metis
  have c: "combined_acyclic (node_ids existing @ replan_ids ?ps) (existing_edges existing @ es) = Some None \<and>
      new = map (replan_graph_node (node_ids existing)) ?ps"
    using assms(2) p r t(1-3) m(1)
    by (auto simp: validate_replan_def Let_def comp_def simp del: map_map split: bind_splits option.splits)
  then have "acyclic (edges existing \<union> replan_edges (node_ids existing) ?ps)"
    using combined_acyclic_ok [OF t(4)] t(5) by metis
  with c m(2) p that [of ?ps] show thesis by simp
qed

section \<open>Installing the appendix\<close>

lemma gate_push_spec:
  "FINAL_NODE_ID \<notin> set is \<Longrightarrow> distinct is \<Longrightarrow> set is \<inter> dep_on ` set ds = {} \<Longrightarrow>
     gate_push is ds = ds @ map (\<lambda>i. \<lparr>dep_on = i, dep_kind = Blocks\<rparr>) is"
proof (induction "is" arbitrary: ds)
  case (Cons i "is")
  then have "\<not> list_ex (\<lambda>d. dep_on d = i) ds" by (auto simp: list_ex_iff)
  with Cons.prems Cons.IH [of "ds @ [\<lparr>dep_on = i, dep_kind = Blocks\<rparr>]"] show ?case by auto
qed simp

definition regated :: "string list \<Rightarrow> graph_node \<Rightarrow> graph_node" where
  "regated new_ids n = (if n_id n = FINAL_NODE_ID then regate_final new_ids n else n)"

lemma regated_simps [simp]:
  "n_id (regated new_ids n) = n_id n"
  "n_status (regated new_ids n) = (if n_id n = FINAL_NODE_ID \<and> n_status n = Ready then Waiting else n_status n)"
  by (simp_all add: regated_def regate_final_def)

text \<open>What the append has to start from: a good graph, a validated appendix, and a terminal node that has not run.\<close>

definition replanning :: "graph_node list \<Rightarrow> planned_node list \<Rightarrow> bool" where
  "replanning ns ps \<longleftrightarrow> graph_ok ns \<and> replan_ok ns ps \<and> acyclic (edges ns \<union> replan_edges (node_ids ns) ps) \<and>
     (\<forall>n \<in> set ns. n_id n = FINAL_NODE_ID \<longrightarrow> n_status n = Waiting \<or> n_status n = Ready \<or> n_status n = NodeBlocked)"

definition appended :: "graph_node list \<Rightarrow> planned_node list \<Rightarrow> graph_node list" where
  "appended ns ps = map (regated (replan_ids ps)) ns @ map (replan_graph_node (node_ids ns)) ps"

lemma replan_ids_fresh:
  assumes "replan_ok ns ps"
  shows "FINAL_NODE_ID \<notin> set (replan_ids ps)" "distinct (replan_ids ps)" "set (replan_ids ps) \<inter> set (node_ids ns) = {}"
  using assms by (auto simp: replan_ids_def replan_ok_def)

lemma appended_eq:
  assumes "graph_ok ns" "replan_ok ns ps"
  shows "update_first (\<lambda>n. n_id n = FINAL_NODE_ID) (regate_final (replan_ids ps))
           (ns @ map (replan_graph_node (node_ids ns)) ps) = appended ns ps"
proof -
  have "distinct (node_ids (ns @ map (replan_graph_node (node_ids ns)) ps))"
    using assms replan_ids_fresh [OF assms(2)] by (auto simp: node_ids_def replan_ids_def comp_def graph_ok_def wf_nodes_def)
  then show ?thesis by (simp add: update_first_id appended_def regated_def comp_def)
qed

lemma regated_final_deps:
  assumes "replanning ns ps" "n \<in> set ns" "n_id n = FINAL_NODE_ID"
  shows "dep_ids (regated (replan_ids ps) n) = dep_ids n @ replan_ids ps"
    "blocks_on (regated (replan_ids ps) n) = blocks_on n @ replan_ids ps"
proof -
  have ok: "replan_ok ns ps" "wf_nodes ns" using assms(1) by (auto simp: replanning_def graph_ok_def)
  then have "set (dep_ids n) \<subseteq> set (node_ids ns)" using assms(2) by (auto simp: wf_nodes_def)
  then have "set (replan_ids ps) \<inter> dep_on ` set (n_deps n) = {}"
    using replan_ids_fresh(3) [OF ok(1)] by (auto simp: dep_ids_def)
  then have "gate_push (replan_ids ps) (n_deps n) = n_deps n @ map (\<lambda>i. \<lparr>dep_on = i, dep_kind = Blocks\<rparr>) (replan_ids ps)"
    using gate_push_spec replan_ids_fresh [OF ok(1)] by blast
  then show "dep_ids (regated (replan_ids ps) n) = dep_ids n @ replan_ids ps"
    "blocks_on (regated (replan_ids ps) n) = blocks_on n @ replan_ids ps"
    using assms(3) by (simp_all add: regated_def regate_final_def dep_ids_def blocks_on_def comp_def)
qed

lemma regated_other: "n_id n \<noteq> FINAL_NODE_ID \<Longrightarrow> regated is n = n"
  by (simp add: regated_def)

lemma regated_deps_mono:
  assumes "replanning ns ps" "n \<in> set ns"
  shows "set (blocks_on n) \<subseteq> set (blocks_on (regated (replan_ids ps) n))"
  using regated_final_deps(2) [OF assms] regated_other [of n] by (cases "n_id n = FINAL_NODE_ID") auto

lemma appended_ids: "node_ids (appended ns ps) = node_ids ns @ replan_ids ps"
  by (simp add: appended_def node_ids_def replan_ids_def comp_def)

text \<open>In a good graph nothing depends on the terminal node.\<close>

lemma final_no_dependents:
  assumes "graph_ok ns"
  shows "FINAL_NODE_ID \<notin> Domain (edges ns)"
proof
  assume "FINAL_NODE_ID \<in> Domain (edges ns)"
  then obtain n where n: "n \<in> set ns" "(FINAL_NODE_ID, n_id n) \<in> edges ns" by (auto simp: edges_Union)
  obtain f where f: "f \<in> set ns" "n_id f = FINAL_NODE_ID"
    using assms by (auto simp: graph_ok_def final_gate_def set_node_ids)
  have "(n_id n, FINAL_NODE_ID) \<in> (edges ns)\<^sup>*"
  proof (cases "n_id n = FINAL_NODE_ID")
    case False
    then have "n_id n \<in> set (blocks_on f)" using assms f n(1) by (auto simp: graph_ok_def final_gate_def set_node_ids)
    then have "(n_id n, n_id f) \<in> edges ns" using f(1) blocks_on_dep_ids [of f] by (auto simp: edges_Union)
    with f(2) show ?thesis by auto
  qed simp
  with n(2) have "(FINAL_NODE_ID, FINAL_NODE_ID) \<in> (edges ns)\<^sup>+" by (rule rtrancl_into_trancl2)
  with assms show False by (auto simp: graph_ok_def wf_nodes_def acyclic_def)
qed

definition origin_edges :: "planned_node list \<Rightarrow> (string \<times> string) set" where
  "origin_edges ps = (\<Union>p \<in> set ps. set (p_discovered_from p) \<times> {node_id_for_slug (p_id p)})"

lemma edges_replan_nodes:
  "edges (map (replan_graph_node ex) ps) = replan_edges ex ps \<union> origin_edges ps"
  unfolding edges_Union replan_edges_def origin_edges_def by fastforce

lemma edges_regated:
  assumes "replanning ns ps"
  shows "edges (map (regated (replan_ids ps)) ns) \<subseteq> edges ns \<union> set (replan_ids ps) \<times> {FINAL_NODE_ID}"
proof
  fix e assume "e \<in> edges (map (regated (replan_ids ps)) ns)"
  then obtain n d where n: "n \<in> set ns" "d \<in> set (dep_ids (regated (replan_ids ps) n))" "e = (d, n_id n)"
    by (auto simp: edges_Union)
  show "e \<in> edges ns \<union> set (replan_ids ps) \<times> {FINAL_NODE_ID}"
  proof (cases "n_id n = FINAL_NODE_ID")
    case True
    then have "d \<in> set (dep_ids n) \<union> set (replan_ids ps)"
      using regated_final_deps(1) [OF assms n(1) True] n(2) by auto
    with n True show ?thesis unfolding edges_Union by fastforce
  next
    case False
    with n show ?thesis unfolding edges_Union regated_other [OF False] by fastforce
  qed
qed

lemma acyclic_appended:
  assumes R: "replanning ns ps"
  shows "acyclic (edges (appended ns ps))"
proof -
  let ?ex = "node_ids ns"
  have ok: "graph_ok ns" "replan_ok ns ps" "acyclic (edges ns \<union> replan_edges ?ex ps)"
    using R by (auto simp: replanning_def)
  have ne: "(d, i) \<in> replan_edges ?ex ps \<Longrightarrow> i \<notin> set ?ex" for d i
    using replan_okD(2) [OF ok(2)] by (auto simp: replan_edges_def)
  have old: "edges ns \<subseteq> set ?ex \<times> set ?ex"
    using ok(1) by (auto simp: edges_Union graph_ok_def wf_nodes_def set_node_ids)
  have layer: "acyclic (edges ns \<union> replan_edges ?ex ps \<union> origin_edges ps)"
  proof (rule acyclic_layer [OF ok(3), where A = "set ?ex"])
    show "origin_edges ps \<subseteq> set ?ex \<times> - set ?ex"
      using replan_okD(2,4) [OF ok(2)] by (fastforce simp: origin_edges_def)
    show "x \<in> set ?ex" if "(x, y) \<in> edges ns \<union> replan_edges ?ex ps" "y \<in> set ?ex" for x y
      using that ne old by blast
  qed
  have "FINAL_NODE_ID \<notin> Domain (replan_edges ?ex ps)"
    using replan_okD(3) [OF ok(2)] by (auto simp: replan_edges_def rname_def split: if_splits)
  moreover have "FINAL_NODE_ID \<notin> Domain (origin_edges ps)"
    using replan_okD(4) [OF ok(2)] by (fastforce simp: origin_edges_def)
  ultimately have "acyclic (edges ns \<union> replan_edges ?ex ps \<union> origin_edges ps \<union> set (replan_ids ps) \<times> {FINAL_NODE_ID})"
    using final_no_dependents [OF ok(1)] replan_ids_fresh(1) [OF ok(2)]
    by (intro acyclic_sink [OF layer]) auto
  moreover have "edges (appended ns ps) \<subseteq> edges ns \<union> replan_edges ?ex ps \<union> origin_edges ps \<union> set (replan_ids ps) \<times> {FINAL_NODE_ID}"
    using edges_regated [OF R] by (auto simp: appended_def edges_append edges_replan_nodes)
  ultimately show ?thesis using acyclic_subset by blast
qed

lemma distinct_rnames:
  assumes "replan_ok ns ps" "p \<in> set ps"
  shows "distinct (map (rname (node_ids ns)) (p_deps p))"
proof -
  have "inj_on (rname (node_ids ns)) (set (p_deps p))"
  proof (rule inj_onI)
    fix a b assume "a \<in> set (p_deps p)" "b \<in> set (p_deps p)" and eq: "rname (node_ids ns) a = rname (node_ids ns) b"
    then have ab: "a \<in> set (node_ids ns) \<union> p_id ` set ps" "b \<in> set (node_ids ns) \<union> p_id ` set ps"
      using replan_okD(1) [OF assms] by auto
    have inj: "inj_on node_id_for_slug (p_id ` set ps)"
      using assms(1) by (auto simp: replan_ok_def distinct_map inj_on_def)
    have fresh: "s \<in> p_id ` set ps \<Longrightarrow> node_id_for_slug s \<notin> set (node_ids ns)" for s
      using replan_okD(2) [OF assms(1)] by auto
    show "a = b"
      using eq ab fresh inj_onD [OF inj] unfolding rname_def by (metis Un_iff)
  qed
  with assms show ?thesis by (auto simp: distinct_map replan_ok_def)
qed

lemma wf_appended:
  assumes R: "replanning ns ps"
  shows "wf_nodes (appended ns ps)" "final_gate (appended ns ps)"
proof -
  have ok: "graph_ok ns" "replan_ok ns ps" "wf_nodes ns" using R by (auto simp: replanning_def graph_ok_def)
  note fresh = replan_ids_fresh [OF ok(2)]
  have old: "set (dep_ids (regated (replan_ids ps) n)) \<subseteq> set (node_ids ns @ replan_ids ps) \<and>
      distinct (dep_ids (regated (replan_ids ps) n))" if n: "n \<in> set ns" for n
  proof -
    have d: "set (dep_ids n) \<subseteq> set (node_ids ns)" "distinct (dep_ids n)" using ok(3) n by (auto simp: wf_nodes_def)
    show ?thesis
    proof (cases "n_id n = FINAL_NODE_ID")
      case True
      show ?thesis unfolding regated_final_deps(1) [OF R n True] using d fresh(2,3) by auto
    next
      case False
      show ?thesis unfolding regated_other [OF False] using d by auto
    qed
  qed
  have new: "set (dep_ids (replan_graph_node (node_ids ns) p)) \<subseteq> set (node_ids ns @ replan_ids ps) \<and>
      distinct (dep_ids (replan_graph_node (node_ids ns) p))" if p: "p \<in> set ps" for p
    using replan_okD(4,5) [OF ok(2) p] distinct_rnames [OF ok(2) p] by (auto simp: replan_ids_def)
  have "\<forall>n \<in> set (appended ns ps). set (dep_ids n) \<subseteq> set (node_ids ns @ replan_ids ps) \<and> distinct (dep_ids n)"
    using old new unfolding appended_def set_append set_map ball_Un by blast
  moreover have "distinct (node_ids ns @ replan_ids ps)" using fresh ok(3) by (auto simp: wf_nodes_def)
  ultimately show "wf_nodes (appended ns ps)"
    unfolding wf_nodes_def appended_ids using acyclic_appended [OF R] by blast
  have "set (node_ids ns @ replan_ids ps) - {FINAL_NODE_ID} \<subseteq> set (blocks_on (regated (replan_ids ps) n))"
    if n: "n \<in> set ns" "n_id n = FINAL_NODE_ID" for n
    unfolding regated_final_deps(2) [OF R n] using ok(1) n by (auto simp: graph_ok_def final_gate_def)
  then have "\<forall>x \<in> set (appended ns ps). n_id x = FINAL_NODE_ID \<longrightarrow>
      set (node_ids ns @ replan_ids ps) - {FINAL_NODE_ID} \<subseteq> set (blocks_on x)"
    unfolding appended_def set_append set_map ball_Un by simp
  then show "final_gate (appended ns ps)"
    unfolding final_gate_def appended_ids using ok(1) by (simp add: graph_ok_def final_gate_def)
qed

lemma achieved_appended:
  assumes R: "replanning ns ps"
  shows "set (achieved_ids (appended ns ps)) = set (achieved_ids ns)"
proof (rule set_eqI)
  fix i
  have "i \<in> set (achieved_ids (appended ns ps)) \<longleftrightarrow> (\<exists>n \<in> set ns. n_id n = i \<and> n_status (regated (replan_ids ps) n) = Achieved)"
    unfolding achieved_ids_iff appended_def set_append set_map bex_Un by auto
  also have "\<dots> \<longleftrightarrow> i \<in> set (achieved_ids ns)"
  proof -
    have "n_status (regated (replan_ids ps) n) = Achieved \<longleftrightarrow> n_status n = Achieved" for n by simp
    then show ?thesis unfolding achieved_ids_iff by blast
  qed
  finally show "i \<in> set (achieved_ids (appended ns ps)) \<longleftrightarrow> i \<in> set (achieved_ids ns)" .
qed

lemma appended_cases:
  assumes "x \<in> set (appended ns ps)"
  obtains (old) n where "n \<in> set ns" "x = regated (replan_ids ps) n"
    | (new) p where "p \<in> set ps" "x = replan_graph_node (node_ids ns) p"
  using assms unfolding appended_def by auto

lemma appended_order:
  assumes R: "replanning ns ps"
  shows "order_ok (appended ns ps)"
  unfolding order_ok_def achieved_appended [OF R]
proof (intro ballI impI)
  fix x assume x: "x \<in> set (appended ns ps)" and st: "started (n_status x)"
  from x show "set (blocks_on x) \<subseteq> set (achieved_ids ns)"
  proof (cases rule: appended_cases)
    case (old n)
    have "n_id n \<noteq> FINAL_NODE_ID"
      using R old st by (auto simp: replanning_def started_def split: if_splits)
    with old st R show ?thesis by (auto simp: regated_other replanning_def graph_ok_def sched_defs)
  next
    case (new p)
    with st show ?thesis by (simp add: started_def)
  qed
qed

lemma appended_dead_id:
  assumes R: "replanning ns ps" and m: "m \<in> set (appended ns ps)" "dead (n_status m)"
  obtains k where "k \<in> set ns" "n_id k = n_id m" "dead (n_status k)" "n_id m \<in> set (dead_ids ns)"
  using m(1)
proof (cases rule: appended_cases)
  case (old n)
  have "dead (n_status n)" using m(2) old by (auto simp: dead_def split: if_splits)
  with old show thesis using that [of n] by (auto simp: dead_ids_def dead_def)
next
  case (new p)
  with m(2) show thesis by (simp add: dead_def)
qed

lemma appended_dead:
  assumes R: "replanning ns ps"
  shows "dead_closed (appended ns ps)"
  unfolding dead_closed_def
proof (intro ballI impI notI, elim conjE)
  fix x m assume x: "x \<in> set (appended ns ps)" and m: "m \<in> set (appended ns ps)"
    and d: "n_id m \<in> set (blocks_on x)" "dead (n_status m)" and w: "n_status x = Waiting"
  have ok: "graph_ok ns" "replan_ok ns ps" using R by (auto simp: replanning_def)
  then have inv: "order_ok ns" "dead_closed ns" "distinct (node_ids ns)" by (auto simp: graph_ok_def sched_defs wf_nodes_def)
  obtain k where k: "k \<in> set ns" "n_id k = n_id m" "dead (n_status k)" "n_id m \<in> set (dead_ids ns)"
    using appended_dead_id [OF R m d(2)] by blast
  have kid: "n_id m \<in> set (node_ids ns)" using k by (metis imageI set_node_ids)
  from x show False
  proof (cases rule: appended_cases)
    case (new p)
    then obtain e where e: "e \<in> set (p_deps p)" "n_id m = rname (node_ids ns) e" using d(1) by auto
    have "e \<in> set (node_ids ns) \<union> p_id ` set ps" "e \<notin> set (dead_ids ns)"
      using replan_okD(1,3) [OF ok(2) new(1)] e(1) by auto
    with e(2) k(4) kid replan_okD(2) [OF ok(2)] show False by (auto simp: rname_def split: if_splits)
  next
    case (old n)
    have kn: "n_id k \<in> set (blocks_on n)"
    proof (cases "n_id n = FINAL_NODE_ID")
      case True
      then have "n_id m \<in> set (blocks_on n)"
        using d(1) regated_final_deps(2) [OF R old(1) True] kid replan_ids_fresh(3) [OF ok(2)] old(2) by auto
      with k(2) show ?thesis by simp
    qed (use d(1) old(2) k(2) regated_other in auto)
    show False
    proof (cases "n_status n = Waiting")
      case True
      with inv(2) kn k(1,3) old(1) show False by (auto simp: dead_closed_def)
    next
      case False
      then have "n_status n = Ready" using w old(2) by (auto split: if_splits)
      then have "n_id k \<in> set (achieved_ids ns)"
        using inv(1) old(1) kn by (auto simp: order_ok_def started_def)
      then have "n_status k = Achieved"
        using node_eqI [OF inv(3) _ k(1)] unfolding achieved_ids_iff by metis
      with k(3) show False by (simp add: dead_def)
    qed
  qed
qed

lemma appended_blocked:
  assumes R: "replanning ns ps"
  shows "blocked_justified (appended ns ps)"
  unfolding blocked_justified_def
proof (intro ballI impI)
  fix x assume x: "x \<in> set (appended ns ps)" and b: "n_status x = NodeBlocked"
  from x show "\<exists>m \<in> set (appended ns ps). n_id m \<in> set (blocks_on x) \<and> dead (n_status m)"
  proof (cases rule: appended_cases)
    case (old n)
    then have "n_status n = NodeBlocked" using b by (auto split: if_splits)
    then obtain m where m: "m \<in> set ns" "n_id m \<in> set (blocks_on n)" "dead (n_status m)"
      using R old(1) by (auto simp: replanning_def graph_ok_def sched_defs)
    have "regated (replan_ids ps) m \<in> set (appended ns ps)" using m(1) by (simp add: appended_def)
    moreover have "n_id (regated (replan_ids ps) m) \<in> set (blocks_on x)"
      using m(2) regated_deps_mono [OF R old(1)] old(2) by auto
    moreover have "dead (n_status (regated (replan_ids ps) m))" using m(3) by (auto simp: dead_def)
    ultimately show ?thesis by blast
  qed (use b in simp)
qed

text \<open>Installing a validated appendix keeps the graph good.\<close>

lemma graph_ok_append:
  assumes "replanning ns ps"
  shows "graph_ok (promote_ready (appended ns ps))"
proof -
  have "settled_ok (appended ns ps)"
    using appended_order appended_dead appended_blocked assms by (simp add: settled_ok_def)
  then have "sched_ok (promote_ready (appended ns ps))" by (rule promote_ready_sched)
  with wf_appended [OF assms] show ?thesis
    by (simp add: graph_ok_def wf_nodes_shape [OF promote_ready_shape] final_gate_shape [OF promote_ready_shape])
qed

end
