(* ===== verification/Graph_Optimize.thy ===== *)
theory Graph_Optimize
  imports Graph_Replan
begin

text \<open>
  The topology optimizer's edit language, \<open>apply_optimization\<close> of \<open>session/graph_plan.rs\<close>: the
  four operations over pending nodes, the rebuilt terminal gate, the re-derived statuses, the
  diff invariant on immutable nodes and the final acyclicity check.  The comparison of the
  \<open>Debug\<close> renderings of two nodes is equality of the records.
\<close>

section \<open>Operations\<close>

datatype optimize_op =
    RemoveDep string string
  | Reorder "string list"
  | Merge string string \<comment> \<open>\<open>into\<close>, \<open>from\<close>\<close>
  | Split string "planned_node list"

definition is_pending :: "node_status \<Rightarrow> bool" where
  "is_pending st \<longleftrightarrow> st = Waiting \<or> st = Ready"

definition find_node :: "graph_node list \<Rightarrow> string \<Rightarrow> graph_plan_error + nat" where
  "find_node nodes i =
     (case position (\<lambda>n. n_id n = i) nodes of
        Some k \<Rightarrow> Inr k | None \<Rightarrow> Inl (OpInvalid (UnknownNode i)))"

definition pending_or_err :: "graph_node list \<Rightarrow> nat \<Rightarrow> graph_plan_error + unit" where
  "pending_or_err nodes k =
     (if \<not> is_pending (n_status (nodes ! k))
      then Inl (OpInvalid (NotPending (n_id (nodes ! k)) (n_status (nodes ! k)))) else Inr ())"

definition op_remove_dep :: "string \<Rightarrow> string \<Rightarrow> graph_node list \<Rightarrow> graph_plan_error + graph_node list" where
  "op_remove_dep node dep nodes =
     ebind (find_node nodes node) (\<lambda>k.
     ebind (pending_or_err nodes k) (\<lambda>_.
       let ds = filter (\<lambda>d. dep_on d \<noteq> dep) (n_deps (nodes ! k))
       in if length ds = length (n_deps (nodes ! k)) then Inl (OpInvalid (NoSuchDep node dep))
          else Inr (nodes[k := (nodes ! k)\<lparr>n_deps := ds\<rparr>])))"

fun reorder_check :: "graph_node list \<Rightarrow> string list \<Rightarrow> string list \<Rightarrow> graph_plan_error + unit" where
  "reorder_check nodes seen [] = Inr ()"
| "reorder_check nodes seen (i # is) =
     ebind (find_node nodes i) (\<lambda>k.
     ebind (pending_or_err nodes k) (\<lambda>_.
       if i \<in> set seen then Inl (OpInvalid (ReorderTwice i)) else reorder_check nodes (i # seen) is))"

definition op_reorder :: "string list \<Rightarrow> graph_node list \<Rightarrow> graph_plan_error + graph_node list" where
  "op_reorder order nodes =
     ebind (reorder_check nodes [] order) (\<lambda>_.
       let positions = filter (\<lambda>k. n_id (nodes ! k) \<in> set order) [0..<length nodes];
           picked = List.map_filter (\<lambda>i. find (\<lambda>n. n_id n = i) nodes) order
       in Inr (fold (\<lambda>pn ns. ns[fst pn := snd pn]) (zip positions picked) nodes))"

definition has_dep :: "string \<Rightarrow> graph_node \<Rightarrow> bool" where
  "has_dep i n \<longleftrightarrow> list_ex (\<lambda>d. dep_on d = i) (n_deps n)"

text \<open>A dependent of \<open>i\<close> that is neither pending nor the terminal node.\<close>

definition frozen_dependent :: "graph_node list \<Rightarrow> string \<Rightarrow> graph_node option" where
  "frozen_dependent nodes i =
     find (\<lambda>n. n_id n \<noteq> FINAL_NODE_ID \<and> \<not> is_pending (n_status n) \<and> has_dep i n) nodes"

definition remove_at :: "nat \<Rightarrow> 'a list \<Rightarrow> 'a list" where
  "remove_at k xs = take k xs @ drop (Suc k) xs"

fun push_deps :: "string \<Rightarrow> node_dep list \<Rightarrow> node_dep list \<Rightarrow> node_dep list" where
  "push_deps into [] ds = ds"
| "push_deps into (d # new) ds =
     push_deps into new (if dep_on d \<noteq> into \<and> \<not> list_ex (\<lambda>e. dep_on e = dep_on d) ds then ds @ [d] else ds)"

definition rewire :: "string \<Rightarrow> string \<Rightarrow> graph_node \<Rightarrow> graph_node" where
  "rewire into from n =
     n\<lparr>n_deps := retain_new dep_on [] (filter (\<lambda>d. dep_on d \<noteq> n_id n)
        (map (\<lambda>d. if dep_on d = from then d\<lparr>dep_on := into\<rparr> else d) (n_deps n)))\<rparr>"

definition op_merge :: "string \<Rightarrow> string \<Rightarrow> graph_node list \<Rightarrow> graph_plan_error + graph_node list" where
  "op_merge into from nodes =
     (if into = from then Inl (OpInvalid MergeSelf)
      else case frozen_dependent nodes from of
        Some n \<Rightarrow> Inl (OpInvalid (MergeDependent from (n_id n)))
      | None \<Rightarrow>
      if from = FINAL_NODE_ID \<or> into = FINAL_NODE_ID then Inl (OpInvalid MergeTerminal)
      else
      ebind (find_node nodes into) (\<lambda>into_idx.
      ebind (find_node nodes from) (\<lambda>from_idx.
      ebind (pending_or_err nodes into_idx) (\<lambda>_.
      ebind (pending_or_err nodes from_idx) (\<lambda>_.
        let from_node = nodes ! from_idx; nodes1 = remove_at from_idx nodes
        in ebind (find_node nodes1 into) (\<lambda>k.
             let tgt = nodes1 ! k;
                 tgt1 = tgt\<lparr>n_spec := n_spec tgt @ [nl, nl] @ ''AND: '' @ n_spec from_node,
                            n_deps := push_deps into (n_deps from_node) (n_deps tgt)\<rparr>
             in Inr (map (rewire into from) (nodes1[k := tgt1]))))))))"

text \<open>The ids of a split's replacements, each fresh among the rest and the earlier ones.\<close>

fun split_ids :: "graph_node list \<Rightarrow> string list \<Rightarrow> planned_node list \<Rightarrow> graph_plan_error + string list" where
  "split_ids nodes acc [] = Inr acc"
| "split_ids nodes acc (r # rs) =
     (if \<not> valid_slug (p_id r) then Inl (BadSlug (p_id r))
      else if trim (p_title r) = [] \<or> trim (p_spec r) = [] then Inl (OpInvalid (SplitEmptyField (p_id r)))
      else let i = node_id_for_slug (p_id r)
           in if i \<in> set (node_ids nodes) \<or> i \<in> set acc then Inl (ExistingCollision (p_id r))
              else split_ids nodes (acc @ [i]) rs)"

text \<open>\<open>nodes\<close> is the node list at the time of the lookup: replacements pushed earlier are in it.\<close>

fun split_deps ::
  "graph_node list \<Rightarrow> planned_node list \<Rightarrow> string list \<Rightarrow> string list \<Rightarrow> string \<Rightarrow> string list \<Rightarrow> node_dep list
     \<Rightarrow> graph_plan_error + node_dep list" where
  "split_deps nodes reps new_ids gone slug [] deps = Inr deps"
| "split_deps nodes reps new_ids gone slug (d # ds) deps =
     (case (if d \<in> set (node_ids nodes) then Some d
            else map_option (\<lambda>k. new_ids ! k) (position (\<lambda>r. p_id r = d) reps)) of
        None \<Rightarrow> Inl (UnknownDep slug d)
      | Some resolved \<Rightarrow>
          if resolved \<in> set gone then Inl (DeadDep slug resolved)
          else split_deps nodes reps new_ids gone slug ds
                 (if list_ex (\<lambda>e. dep_on e = resolved) deps then deps else deps @ [blocks_dep resolved]))"

fun split_push ::
  "planned_node list \<Rightarrow> string list \<Rightarrow> string list \<Rightarrow> node_dep list \<Rightarrow> (planned_node \<times> string) list \<Rightarrow> graph_node list
     \<Rightarrow> graph_plan_error + graph_node list" where
  "split_push reps new_ids gone original_deps [] nodes = Inr nodes"
| "split_push reps new_ids gone original_deps ((r, i) # rs) nodes =
     ebind (split_deps nodes reps new_ids gone (p_id r) (p_deps r) original_deps) (\<lambda>ds.
       split_push reps new_ids gone original_deps rs (nodes @ [fresh_node i r ds]))"

definition split_rewire :: "string \<Rightarrow> string list \<Rightarrow> graph_node \<Rightarrow> graph_node" where
  "split_rewire node new_ids n =
     (case position (\<lambda>d. dep_on d = node) (n_deps n) of
        None \<Rightarrow> n
      | Some k \<Rightarrow>
          n\<lparr>n_deps := fold (\<lambda>i ds. if list_ex (\<lambda>d. dep_on d = i) ds then ds
                                   else ds @ [\<lparr>dep_on = i, dep_kind = dep_kind (n_deps n ! k)\<rparr>])
                         new_ids (remove_at k (n_deps n))\<rparr>)"

definition op_split :: "string \<Rightarrow> planned_node list \<Rightarrow> graph_node list \<Rightarrow> graph_plan_error + graph_node list" where
  "op_split node reps nodes =
     (if node = FINAL_NODE_ID then Inl (OpInvalid SplitTerminal)
      else
      ebind (find_node nodes node) (\<lambda>k.
      ebind (pending_or_err nodes k) (\<lambda>_.
      case frozen_dependent nodes node of
        Some n \<Rightarrow> Inl (OpInvalid (SplitDependent node (n_id n)))
      | None \<Rightarrow>
      if length reps < 2 \<or> length reps > 3 then Inl (OpInvalid (SplitCount node (length reps)))
      else
      let original = nodes ! k; nodes1 = remove_at k nodes
      in ebind (split_ids nodes1 [] reps) (\<lambda>new_ids.
         ebind (split_push reps new_ids (dead_ids nodes1) (n_deps original) (zip reps new_ids) nodes1) (\<lambda>nodes2.
           Inr (map (split_rewire node new_ids) nodes2))))))"

fun apply_op :: "optimize_op \<Rightarrow> graph_node list \<Rightarrow> graph_plan_error + graph_node list" where
  "apply_op (RemoveDep node dep) nodes = op_remove_dep node dep nodes"
| "apply_op (Reorder order) nodes = op_reorder order nodes"
| "apply_op (Merge into from) nodes = op_merge into from nodes"
| "apply_op (Split node reps) nodes = op_split node reps nodes"

fun apply_ops :: "optimize_op list \<Rightarrow> graph_node list \<Rightarrow> graph_plan_error + graph_node list" where
  "apply_ops [] nodes = Inr nodes"
| "apply_ops (op # ops) nodes = ebind (apply_op op nodes) (apply_ops ops)"

section \<open>Finishing a pass\<close>

definition rebuild_gate :: "graph_node list \<Rightarrow> graph_node list" where
  "rebuild_gate nodes =
     (let gate = map (\<lambda>n. blocks_dep (n_id n)) (filter (\<lambda>n. n_id n \<noteq> FINAL_NODE_ID) nodes)
      in update_first (\<lambda>n. n_id n = FINAL_NODE_ID) (\<lambda>n. n\<lparr>n_deps := gate\<rparr>) nodes)"

definition derive_status :: "string list \<Rightarrow> graph_node \<Rightarrow> graph_node" where
  "derive_status achieved n =
     (if \<not> is_pending (n_status n) then n
      else if deps_achieved achieved n then n\<lparr>n_status := Ready\<rparr> else n\<lparr>n_status := Waiting\<rparr>)"

definition derive_statuses :: "graph_node list \<Rightarrow> graph_node list" where
  "derive_statuses nodes = map (derive_status (achieved_ids nodes)) nodes"

definition immutable_error :: "graph_node list \<Rightarrow> graph_node \<Rightarrow> graph_plan_error option" where
  "immutable_error nodes old =
     (if is_pending (n_status old) \<or> n_id old = FINAL_NODE_ID then None
      else if find (\<lambda>n. n_id n = n_id old) nodes = Some old then None
      else Some (OpInvalid (ImmutableChanged (n_id old))))"

definition keyed_nodes :: "graph_node list \<Rightarrow> (string \<times> string list) list" where
  "keyed_nodes nodes = map (\<lambda>n. (n_id n, dep_ids n)) nodes"

definition dangling_error :: "graph_node list \<Rightarrow> graph_node \<Rightarrow> graph_plan_error option" where
  "dangling_error nodes n =
     check_all (\<lambda>d. if d \<notin> set (node_ids nodes) then Some (UnknownDep (n_id n) d) else None) (dep_ids n)"

definition optimized_acyclic :: "graph_node list \<Rightarrow> graph_plan_error option" where
  "optimized_acyclic nodes =
     (case check_all (dangling_error nodes) nodes of
        Some e \<Rightarrow> Some e
      | None \<Rightarrow>
          let gs = keyed_nodes nodes; n = length nodes
          in case kahn_loop (keyed_relax gs) n (counted_indeg gs) (replicate n False) [] of
               Inl left \<Rightarrow> Some (Cycle (map (\<lambda>i. n_id (nodes ! i)) left))
             | Inr _ \<Rightarrow> None)"

definition apply_optimization ::
  "(string \<Rightarrow> string + optimize_op list) \<Rightarrow> graph_node list \<Rightarrow> string \<Rightarrow> graph_plan_error + graph_node list option" where
  "apply_optimization from_str existing json =
     (case from_str json of
        Inl e \<Rightarrow> Inl (Parse e)
      | Inr ops \<Rightarrow>
          if ops = [] then Inr None
          else
          ebind (apply_ops ops existing) (\<lambda>edited.
            let nodes = derive_statuses (rebuild_gate edited)
            in case check_all (immutable_error nodes) existing of
                 Some e \<Rightarrow> Inl e
               | None \<Rightarrow>
                   if length nodes > MAX_GRAPH_NODES + 1 then Inl (TooManyNodes (length nodes - 1))
                   else case optimized_acyclic nodes of
                          Some e \<Rightarrow> Inl e
                        | None \<Rightarrow> Inr (Some nodes)))"

section \<open>What every operation keeps\<close>

definition frozen_view :: "graph_node list \<Rightarrow> (string \<times> node_status) set" where
  "frozen_view ns = {(n_id n, n_status n) | n. n \<in> set ns \<and> \<not> is_pending (n_status n)}"

definition dead_set :: "graph_node list \<Rightarrow> string set" where
  "dead_set ns = {n_id n | n. n \<in> set ns \<and> dead (n_status n)}"

text \<open>
  Against the graph a pass starts from: ids and targets stay distinct, the settled and running
  nodes keep their statuses, the terminal node stays, no pending node gets an ordering edge
  onto a dead one, and pending nodes do not come from nowhere.
\<close>

definition edit_inv :: "graph_node list \<Rightarrow> graph_node list \<Rightarrow> bool" where
  "edit_inv existing ns \<longleftrightarrow>
     distinct (node_ids ns) \<and> (\<forall>n \<in> set ns. distinct (dep_ids n)) \<and>
     frozen_view ns = frozen_view existing \<and> FINAL_NODE_ID \<in> set (node_ids ns) \<and>
     (\<forall>n \<in> set ns. is_pending (n_status n) \<and> n_id n \<noteq> FINAL_NODE_ID \<longrightarrow> set (blocks_on n) \<inter> dead_set ns = {}) \<and>
     ((\<exists>n \<in> set ns. is_pending (n_status n)) \<longrightarrow> (\<exists>n \<in> set existing. is_pending (n_status n)))"

lemma dead_set_frozen: "dead_set ns = {i. \<exists>st. (i, st) \<in> frozen_view ns \<and> dead st}"
  by (fastforce simp: dead_set_def frozen_view_def dead_def is_pending_def)

lemma set_dead_ids: "set (dead_ids ns) = dead_set ns"
  by (auto simp: dead_ids_def dead_set_def dead_def)

lemma find_node_Inr:
  "find_node ns i = Inr k \<Longrightarrow> k < length ns \<and> n_id (ns ! k) = i"
  by (auto simp: find_node_def dest: position_SomeD split: option.splits)

lemma pending_or_err_Inr: "pending_or_err ns k = Inr u \<longleftrightarrow> is_pending (n_status (ns ! k))"
  by (simp add: pending_or_err_def)

lemma frozen_dependent_None:
  "frozen_dependent ns i = None \<longleftrightarrow>
     (\<forall>n \<in> set ns. n_id n \<noteq> FINAL_NODE_ID \<and> \<not> is_pending (n_status n) \<longrightarrow> i \<notin> set (dep_ids n))"
  by (auto simp: frozen_dependent_def find_None_iff has_dep_def list_ex_iff dep_ids_def)

text \<open>The workhorse: a new node list whose nodes come from the old one with checked changes.\<close>

lemma edit_invI:
  assumes "edit_inv existing ns" "distinct (node_ids ms)" "\<forall>n \<in> set ms. distinct (dep_ids n)"
    and "frozen_view ms = frozen_view ns" "FINAL_NODE_ID \<in> set (node_ids ms)"
    and "\<And>n. n \<in> set ms \<Longrightarrow> is_pending (n_status n) \<Longrightarrow> n_id n \<noteq> FINAL_NODE_ID \<Longrightarrow> set (blocks_on n) \<inter> dead_set ns = {}"
    and "\<exists>n \<in> set ms. is_pending (n_status n) \<Longrightarrow> \<exists>n \<in> set ns. is_pending (n_status n)"
  shows "edit_inv existing ms"
  using assms dead_set_frozen [of ms] dead_set_frozen [of ns] unfolding edit_inv_def by metis

subsection \<open>Removing a dependency\<close>

lemma frozen_view_update:
  assumes "k < length ns" "n_status x = n_status (ns ! k)" "n_id x = n_id (ns ! k)"
    and "is_pending (n_status (ns ! k))"
  shows "frozen_view (ns[k := x]) = frozen_view ns"
proof -
  have "(i, st) \<in> frozen_view ms \<longleftrightarrow> (\<exists>j < length ms. n_id (ms ! j) = i \<and> n_status (ms ! j) = st \<and> \<not> is_pending st)"
    for i st ms unfolding frozen_view_def by (auto simp: in_set_conv_nth)
  then show ?thesis using assms by (auto simp: nth_list_update set_eq_iff)
qed

lemma node_ids_update: "k < length ns \<Longrightarrow> n_id x = n_id (ns ! k) \<Longrightarrow> node_ids (ns[k := x]) = node_ids ns"
  by (simp add: node_ids_def map_update list_update_same_conv)

lemma edit_inv_update:
  assumes I: "edit_inv existing ns" and k: "k < length ns" "is_pending (n_status (ns ! k))"
    and x: "n_status x = n_status (ns ! k)" "n_id x = n_id (ns ! k)" "distinct (dep_ids x)"
    and b: "n_id x \<noteq> FINAL_NODE_ID \<Longrightarrow> set (blocks_on x) \<inter> dead_set ns = {}"
  shows "edit_inv existing (ns[k := x])"
proof (rule edit_invI [OF I])
  show "distinct (node_ids (ns[k := x]))" "FINAL_NODE_ID \<in> set (node_ids (ns[k := x]))"
    using I node_ids_update [OF k(1) x(2)] by (auto simp: edit_inv_def)
  show "\<forall>n \<in> set (ns[k := x]). distinct (dep_ids n)"
    using I x(3) set_update_subset_insert [of ns k x] by (auto simp: edit_inv_def)
  show "frozen_view (ns[k := x]) = frozen_view ns" using frozen_view_update k x by blast
  show "set (blocks_on n) \<inter> dead_set ns = {}"
    if "n \<in> set (ns[k := x])" "is_pending (n_status n)" "n_id n \<noteq> FINAL_NODE_ID" for n
  proof (cases "n = x")
    case False
    then have "n \<in> set ns" using that(1) set_update_subset_insert [of ns k x] by blast
    with that I show ?thesis unfolding edit_inv_def by blast
  qed (use that b in blast)
  show "\<exists>n \<in> set ns. is_pending (n_status n)" using k nth_mem by blast
qed

lemma edit_inv_node:
  assumes "edit_inv existing ns" "k < length ns" "is_pending (n_status (ns ! k))"
  shows "distinct (dep_ids (ns ! k))"
    "n_id (ns ! k) \<noteq> FINAL_NODE_ID \<Longrightarrow> set (blocks_on (ns ! k)) \<inter> dead_set ns = {}"
    "n_id (ns ! k) \<notin> dead_set ns"
proof -
  show "distinct (dep_ids (ns ! k))"
    "n_id (ns ! k) \<noteq> FINAL_NODE_ID \<Longrightarrow> set (blocks_on (ns ! k)) \<inter> dead_set ns = {}"
    using assms nth_mem [OF assms(2)] unfolding edit_inv_def by blast+
  have "distinct (node_ids ns)" using assms(1) by (simp add: edit_inv_def)
  then show "n_id (ns ! k) \<notin> dead_set ns"
    using node_eqI [of ns _ "ns ! k"] nth_mem [OF assms(2)] assms(3)
    unfolding dead_set_def dead_def is_pending_def by fastforce
qed

lemma op_remove_dep_inv:
  assumes I: "edit_inv existing ns" and r: "op_remove_dep node dep ns = Inr ms"
  shows "edit_inv existing ms"
proof -
  obtain k where k: "k < length ns" "is_pending (n_status (ns ! k))"
    and ms: "ms = ns[k := (ns ! k)\<lparr>n_deps := filter (\<lambda>d. dep_on d \<noteq> dep) (n_deps (ns ! k))\<rparr>]"
    using r by (auto simp: op_remove_dep_def ebind_eq_Inr Let_def pending_or_err_Inr dest!: find_node_Inr split: if_splits)
  note old = edit_inv_node [OF I k]
  show ?thesis unfolding ms
  proof (rule edit_inv_update [OF I k])
    show "distinct (dep_ids ((ns ! k)\<lparr>n_deps := filter (\<lambda>d. dep_on d \<noteq> dep) (n_deps (ns ! k))\<rparr>))"
      using old(1) by (simp add: dep_ids_def distinct_map_filter)
    show "set (blocks_on ((ns ! k)\<lparr>n_deps := filter (\<lambda>d. dep_on d \<noteq> dep) (n_deps (ns ! k))\<rparr>)) \<inter> dead_set ns = {}"
      if "n_id ((ns ! k)\<lparr>n_deps := filter (\<lambda>d. dep_on d \<noteq> dep) (n_deps (ns ! k))\<rparr>) \<noteq> FINAL_NODE_ID"
      using old(2) that by (auto simp: blocks_on_def)
  qed simp_all
qed

subsection \<open>Reordering\<close>

abbreviation put :: "(nat \<times> 'a) list \<Rightarrow> 'a list \<Rightarrow> 'a list" where
  "put ps xs \<equiv> fold (\<lambda>pn ns. ns[fst pn := snd pn]) ps xs"

lemma image_set_nth: "f ` set xs = (\<lambda>j. f (xs ! j)) ` {..<length xs}"
  by (metis (no_types, lifting) image_cong image_image lessThan_atLeast0 nth_image order_refl take_all)

lemma length_put [simp]: "length (put ps xs) = length xs"
  by (induction ps arbitrary: xs) auto

lemma put_other: "i \<notin> set (map fst ps) \<Longrightarrow> put ps xs ! i = xs ! i"
  by (induction ps arbitrary: xs) auto

lemma put_at: "distinct (map fst ps) \<Longrightarrow> (i, x) \<in> set ps \<Longrightarrow> i < length xs \<Longrightarrow> put ps xs ! i = x"
proof (induction ps arbitrary: xs)
  case (Cons p ps)
  show ?case
  proof (cases "p = (i, x)")
    case True
    then show ?thesis using Cons.prems by (simp add: put_other)
  qed (use Cons in auto)
qed simp

lemma reorder_check_Inr:
  "reorder_check ns seen is = Inr u \<Longrightarrow> distinct is \<and> set is \<inter> set seen = {} \<and>
     (\<forall>i \<in> set is. \<exists>n \<in> set ns. n_id n = i \<and> is_pending (n_status n))"
proof (induction "is" arbitrary: seen)
  case (Cons i "is")
  then obtain k where "k < length ns" "n_id (ns ! k) = i" "is_pending (n_status (ns ! k))"
    "i \<notin> set seen" "reorder_check ns (i # seen) is = Inr u"
    by (auto simp: ebind_eq_Inr pending_or_err_Inr dest!: find_node_Inr split: if_splits)
  with Cons.IH [of "i # seen"] show ?case using nth_mem by fastforce
qed simp

text \<open>The listed nodes are permuted among the positions they had; all else stays.\<close>

lemma op_reorder_perm:
  assumes d: "distinct (node_ids ns)" and r: "op_reorder order ns = Inr ms"
  shows "set ms = set ns" "length ms = length ns" "distinct (node_ids ms)"
proof -
  let ?P = "filter (\<lambda>k. n_id (ns ! k) \<in> set order) [0..<length ns]"
  let ?pick = "List.map_filter (\<lambda>i. find (\<lambda>n. n_id n = i) ns) order"
  have c: "reorder_check ns [] order = Inr ()" and ms: "ms = fold (\<lambda>pn ns. ns[fst pn := snd pn]) (zip ?P ?pick) ns"
    using r by (auto simp: op_reorder_def ebind_eq_Inr Let_def)
  note ord = reorder_check_Inr [OF c]
  define f where "f i = (THE n. n \<in> set ns \<and> n_id n = i)" for i
  have find: "find (\<lambda>n. n_id n = i) ns = Some (f i) \<and> f i \<in> set ns \<and> n_id (f i) = i" if "i \<in> set order" for i
  proof -
    obtain n where n: "find (\<lambda>n. n_id n = i) ns = Some n" "n \<in> set ns" "n_id n = i"
      using ord \<open>i \<in> set order\<close> by (cases "find (\<lambda>n. n_id n = i) ns") (auto simp: find_None_iff find_Some_iff)
    then have "f i = n" unfolding f_def using node_eqI [OF d] by (intro the_equality) auto
    with n show ?thesis by simp
  qed
  have pick: "?pick = map f order"
    using find by (induction order) (simp_all add: List.map_filter_simps)
  have setP: "(\<lambda>k. ns ! k) ` set ?P = f ` set order"
  proof -
    have "(\<lambda>k. ns ! k) ` set ?P = {n \<in> set ns. n_id n \<in> set order}" by (auto simp: in_set_conv_nth)
    also have "\<dots> = f ` set order"
    proof (rule set_eqI, rule iffI)
      fix n assume "n \<in> {n \<in> set ns. n_id n \<in> set order}"
      then have n: "n \<in> set ns" "n_id n \<in> set order" by auto
      then have "f (n_id n) = n" using find [OF n(2)] node_eqI [OF d _ n(1)] by metis
      then show "n \<in> f ` set order" using n(2) by (metis imageI)
    qed (use find in auto)
    finally show ?thesis .
  qed
  have "distinct ns" using d by (simp add: node_ids_def distinct_map)
  then have injP: "inj_on (\<lambda>k. ns ! k) (set ?P)" by (auto simp: inj_on_def nth_eq_iff_index_eq)
  have injf: "inj_on f (set order)" using find by (metis inj_onI)
  have lenP: "length ?P = length (map f order)"
    using card_image [OF injP] card_image [OF injf] setP ord distinct_card [of ?P] distinct_card [of order] by simp
  then have Z: "map fst (zip ?P ?pick) = ?P" "distinct (map fst (zip ?P ?pick))" by (simp_all add: pick)
  show len: "length ms = length ns" by (simp add: ms)
  have same: "ms ! i = ns ! i" if "i \<notin> set ?P" for i
  proof -
    have "i \<notin> set (map fst (zip ?P ?pick))" unfolding Z(1) by (rule that)
    then show ?thesis unfolding ms by (rule put_other)
  qed
  have new: "ms ! (?P ! j) = f (order ! j)" if j: "j < length order" for j
  proof -
    have "(?P ! j, f (order ! j)) \<in> set (zip ?P ?pick)" using j lenP by (auto simp: in_set_zip pick)
    moreover have "?P ! j < length ns" using j lenP nth_mem [of j ?P] by auto
    ultimately show ?thesis unfolding ms using put_at [OF Z(2)] by blast
  qed
  have "(\<lambda>k. ms ! k) ` set ?P = f ` set order"
  proof -
    have "(\<lambda>k. ms ! k) ` set ?P = (\<lambda>j. ms ! (?P ! j)) ` {..<length order}"
      unfolding image_set_nth [of _ ?P] using lenP by simp
    also have "\<dots> = (\<lambda>j. f (order ! j)) ` {..<length order}" using new by (intro image_cong) auto
    also have "\<dots> = f ` set order" by (rule image_set_nth [symmetric])
    finally show ?thesis .
  qed
  with setP have "(\<lambda>k. ms ! k) ` set ?P = (\<lambda>k. ns ! k) ` set ?P" by simp
  moreover have "(\<lambda>k. ms ! k) ` ({..<length ns} - set ?P) = (\<lambda>k. ns ! k) ` ({..<length ns} - set ?P)"
    using same by (intro image_cong) auto
  moreover have "{..<length ns} = set ?P \<union> ({..<length ns} - set ?P)" by auto
  ultimately have "(\<lambda>k. ms ! k) ` {..<length ns} = (\<lambda>k. ns ! k) ` {..<length ns}" by (metis image_Un)
  then show st: "set ms = set ns" using len image_set_nth [of "\<lambda>x. x"] by (metis image_ident)
  then have "distinct ms" using len distinct_card [OF \<open>distinct ns\<close>] by (simp add: card_distinct)
  with st d show "distinct (node_ids ms)" by (simp add: node_ids_def distinct_map)
qed

lemma op_reorder_inv:
  assumes I: "edit_inv existing ns" and r: "op_reorder order ns = Inr ms"
  shows "edit_inv existing ms"
proof -
  have d: "distinct (node_ids ns)" using I by (simp add: edit_inv_def)
  note p = op_reorder_perm [OF d r]
  show ?thesis
    by (rule edit_invI [OF I p(3)]) (use I p(1) in \<open>auto simp: edit_inv_def frozen_view_def set_node_ids\<close>)
qed

subsection \<open>Merging\<close>

lemma remove_at_nth:
  assumes "k < length xs"
  shows "set xs = insert (xs ! k) (set (remove_at k xs))" "distinct (map f xs) \<Longrightarrow> distinct (map f (remove_at k xs))"
    "distinct (map f xs) \<Longrightarrow> f (xs ! k) \<notin> f ` set (remove_at k xs)"
proof -
  have eq: "xs = take k xs @ xs ! k # drop (Suc k) xs" using assms by (rule id_take_nth_drop)
  then have "set xs = set (take k xs @ xs ! k # drop (Suc k) xs)" by (rule arg_cong)
  then show "set xs = insert (xs ! k) (set (remove_at k xs))" by (auto simp: remove_at_def)
  have "map f xs = map f (take k xs) @ f (xs ! k) # map f (drop (Suc k) xs)"
    using arg_cong [OF eq, of "map f"] by simp
  then show "distinct (map f xs) \<Longrightarrow> distinct (map f (remove_at k xs))"
    "distinct (map f xs) \<Longrightarrow> f (xs ! k) \<notin> f ` set (remove_at k xs)"
    unfolding remove_at_def by (auto simp: image_Un)
qed

lemma remove_pending_inv:
  assumes I: "edit_inv existing ns" and k: "k < length ns" "is_pending (n_status (ns ! k))" "n_id (ns ! k) \<noteq> FINAL_NODE_ID"
  shows "edit_inv existing (remove_at k ns)" "n_id (ns ! k) \<notin> set (node_ids (remove_at k ns))"
proof -
  note r = remove_at_nth [OF k(1)]
  have d: "distinct (map n_id ns)" using I by (simp add: edit_inv_def node_ids_def)
  show "n_id (ns ! k) \<notin> set (node_ids (remove_at k ns))" using r(3) [OF d] by (simp add: set_node_ids)
  have sub: "set (remove_at k ns) \<subseteq> set ns" using r(1) by blast
  have "frozen_view (remove_at k ns) = frozen_view ns" unfolding frozen_view_def r(1) using k(2) by auto
  then show "edit_inv existing (remove_at k ns)"
    using I r(2) [OF d] sub k r(1)
    by (intro edit_invI [OF I]) (auto simp: edit_inv_def node_ids_def)
qed

lemma push_deps_spec:
  "distinct (map dep_on ds) \<Longrightarrow> distinct (map dep_on (push_deps into new ds))"
  "set (push_deps into new ds) \<subseteq> set ds \<union> set new"
proof -
  show "distinct (map dep_on ds) \<Longrightarrow> distinct (map dep_on (push_deps into new ds))"
  proof (induction new arbitrary: ds)
    case (Cons d new)
    show ?case
    proof (cases "dep_on d \<noteq> into \<and> \<not> list_ex (\<lambda>e. dep_on e = dep_on d) ds")
      case True
      then have "distinct (map dep_on (ds @ [d]))" using Cons.prems by (auto simp: list_ex_iff)
      with True show ?thesis using Cons.IH by simp
    qed (use Cons in auto)
  qed simp
  show "set (push_deps into new ds) \<subseteq> set ds \<union> set new"
  proof (induction new arbitrary: ds)
    case (Cons d new)
    show ?case using Cons.IH [of ds] Cons.IH [of "ds @ [d]"] by auto
  qed simp
qed

lemma map_id_inv:
  assumes I: "edit_inv existing ns" and keep: "\<And>n. n_id (g n) = n_id n" "\<And>n. n_status (g n) = n_status n"
    and deps: "\<And>n. n \<in> set ns \<Longrightarrow> distinct (dep_ids (g n))"
    and blocks: "\<And>n. n \<in> set ns \<Longrightarrow> is_pending (n_status n) \<Longrightarrow> n_id n \<noteq> FINAL_NODE_ID \<Longrightarrow>
                   set (blocks_on (g n)) \<inter> dead_set ns = {}"
  shows "edit_inv existing (map g ns)"
proof (rule edit_invI [OF I])
  have "node_ids (map g ns) = node_ids ns" by (simp add: node_ids_def keep comp_def)
  then show "distinct (node_ids (map g ns))" "FINAL_NODE_ID \<in> set (node_ids (map g ns))"
    using I by (simp_all add: edit_inv_def)
  have view: "frozen_view ms = (\<lambda>n. (n_id n, n_status n)) ` {n \<in> set ms. \<not> is_pending (n_status n)}" for ms
    by (auto simp: frozen_view_def)
  have "{n \<in> g ` set ns. \<not> is_pending (n_status n)} = g ` {n \<in> set ns. \<not> is_pending (n_status n)}"
    using keep by auto
  then show "frozen_view (map g ns) = frozen_view ns" unfolding view by (simp add: image_image keep)
  show "\<forall>n \<in> set (map g ns). distinct (dep_ids n)" using deps by simp
  show "set (blocks_on n) \<inter> dead_set ns = {}"
    if "n \<in> set (map g ns)" "is_pending (n_status n)" "n_id n \<noteq> FINAL_NODE_ID" for n
  proof -
    obtain m where "m \<in> set ns" "n = g m" using \<open>n \<in> set (map g ns)\<close> by auto
    with blocks [of m] that(2,3) keep [of m] show ?thesis by simp
  qed
  show "\<exists>n \<in> set ns. is_pending (n_status n)" if "\<exists>n \<in> set (map g ns). is_pending (n_status n)"
    using that keep by auto
qed

lemma rewire_spec:
  "distinct (dep_ids (rewire into from n))"
  "set (blocks_on (rewire into from n)) \<subseteq> insert into (set (blocks_on n))"
proof -
  let ?ds = "filter (\<lambda>d. dep_on d \<noteq> n_id n) (map (\<lambda>d. if dep_on d = from then d\<lparr>dep_on := into\<rparr> else d) (n_deps n))"
  show "distinct (dep_ids (rewire into from n))"
    using distinct_retain_new [of dep_on "[]" ?ds] by (simp add: rewire_def dep_ids_def)
  have "set (retain_new dep_on [] ?ds) \<subseteq> set ?ds" by (rule retain_new_subset)
  then show "set (blocks_on (rewire into from n)) \<subseteq> insert into (set (blocks_on n))"
    by (auto simp: rewire_def blocks_on_def split: if_splits)
qed

lemma op_merge_inv:
  assumes I: "edit_inv existing ns" and r: "op_merge into from ns = Inr ms"
  shows "edit_inv existing ms"
proof -
  have ne: "into \<noteq> from" "from \<noteq> FINAL_NODE_ID" "into \<noteq> FINAL_NODE_ID" and fd: "frozen_dependent ns from = None"
    using r by (auto simp: op_merge_def split: if_splits option.splits)
  obtain ki kf k where ki: "ki < length ns" "n_id (ns ! ki) = into" "is_pending (n_status (ns ! ki))"
    and kf: "kf < length ns" "n_id (ns ! kf) = from" "is_pending (n_status (ns ! kf))"
    and k: "find_node (remove_at kf ns) into = Inr k"
    and ms: "ms = map (rewire into from) ((remove_at kf ns)[k := (remove_at kf ns ! k)
       \<lparr>n_spec := n_spec (remove_at kf ns ! k) @ [nl, nl] @ ''AND: '' @ n_spec (ns ! kf),
        n_deps := push_deps into (n_deps (ns ! kf)) (n_deps (remove_at kf ns ! k))\<rparr>])"
    using r ne by (auto simp: op_merge_def fd ebind_eq_Inr Let_def pending_or_err_Inr dest!: find_node_Inr [of ns])
  let ?n1 = "remove_at kf ns"
  have I1: "edit_inv existing ?n1" using remove_pending_inv [OF I kf(1,3)] kf(2) ne(2) by simp
  have kk: "k < length ?n1" "n_id (?n1 ! k) = into" using find_node_Inr [OF k] by auto
  have mem: "?n1 ! k \<in> set ns" using kk(1) nth_mem [OF kk(1)] remove_at_nth(1) [OF kf(1)] by blast
  have "?n1 ! k = ns ! ki"
    using node_eqI [OF _ mem nth_mem [OF ki(1)]] ki(2) kk(2) I by (simp add: edit_inv_def)
  then have kp: "is_pending (n_status (?n1 ! k))" using ki(3) by simp
  have dead1: "dead_set ?n1 = dead_set ns" using I I1 by (simp add: dead_set_frozen edit_inv_def)
  let ?t = "(?n1 ! k)\<lparr>n_spec := n_spec (?n1 ! k) @ [nl, nl] @ ''AND: '' @ n_spec (ns ! kf),
        n_deps := push_deps into (n_deps (ns ! kf)) (n_deps (?n1 ! k))\<rparr>"
  note old = edit_inv_node [OF I1 kk(1) kp] and oldf = edit_inv_node [OF I kf(1,3)]
  have I2: "edit_inv existing (?n1[k := ?t])"
  proof (rule edit_inv_update [OF I1 kk(1) kp])
    show "distinct (dep_ids ?t)" using old(1) push_deps_spec(1) by (simp add: dep_ids_def)
    have "set (blocks_on ?t) \<subseteq> set (blocks_on (?n1 ! k)) \<union> set (blocks_on (ns ! kf))"
      using push_deps_spec(2) [of into "n_deps (ns ! kf)" "n_deps (?n1 ! k)"] by (auto simp: blocks_on_def)
    then show "set (blocks_on ?t) \<inter> dead_set ?n1 = {}"
      using old(2) oldf(2) dead1 kk(2) kf(2) ne by auto
  qed simp_all
  have "into \<notin> dead_set (?n1[k := ?t])"
    using edit_inv_node(3) [OF I ki(1,3)] ki(2) I I2 by (simp add: dead_set_frozen edit_inv_def)
  note dead2 = this
  show ?thesis unfolding ms
  proof (rule map_id_inv [OF I2])
    show "n_id (rewire into from n) = n_id n" "n_status (rewire into from n) = n_status n" for n
      by (simp_all add: rewire_def)
    show "distinct (dep_ids (rewire into from n))" for n by (rule rewire_spec)
    show "set (blocks_on (rewire into from n)) \<inter> dead_set (?n1[k := ?t]) = {}"
      if "n \<in> set (?n1[k := ?t])" "is_pending (n_status n)" "n_id n \<noteq> FINAL_NODE_ID" for n
    proof -
      have "set (blocks_on n) \<inter> dead_set (?n1[k := ?t]) = {}" using I2 that unfolding edit_inv_def by blast
      with rewire_spec(2) [of into "from" n] dead2 show ?thesis by blast
    qed
  qed
qed

subsection \<open>Splitting\<close>

lemma split_ids_Inr:
  "split_ids ns acc rs = Inr ids \<Longrightarrow> distinct acc \<Longrightarrow>
     ids = acc @ map (\<lambda>r. node_id_for_slug (p_id r)) rs \<and> distinct ids \<and>
     (\<forall>r \<in> set rs. node_id_for_slug (p_id r) \<notin> set (node_ids ns))"
proof (induction rs arbitrary: acc)
  case (Cons r rs)
  from Cons.prems have "split_ids ns (acc @ [node_id_for_slug (p_id r)]) rs = Inr ids"
    "node_id_for_slug (p_id r) \<notin> set (node_ids ns)" "node_id_for_slug (p_id r) \<notin> set acc"
    by (auto simp: Let_def split: if_splits)
  note step = this
  have "distinct (acc @ [node_id_for_slug (p_id r)])" using step(3) Cons.prems(2) by simp
  note f = Cons.IH [OF step(1) this]
  show ?case
  proof (intro conjI)
    show "ids = acc @ map (\<lambda>r. node_id_for_slug (p_id r)) (r # rs)" using f by simp
    show "distinct ids" using f by blast
    show "\<forall>r \<in> set (r # rs). node_id_for_slug (p_id r) \<notin> set (node_ids ns)" using f step(2) by simp
  qed
qed simp

definition block_targets :: "node_dep list \<Rightarrow> string set" where
  "block_targets ds = {dep_on d | d. d \<in> set ds \<and> dep_kind d = Blocks}"

lemma set_blocks_on: "set (blocks_on n) = block_targets (n_deps n)"
  by (auto simp: blocks_on_def block_targets_def)

lemma split_deps_Inr:
  "split_deps ns reps ids gone slug ds deps = Inr out \<Longrightarrow> distinct (map dep_on deps) \<Longrightarrow>
     block_targets deps \<inter> set gone = {} \<Longrightarrow> distinct (map dep_on out) \<and> block_targets out \<inter> set gone = {}"
proof (induction ds arbitrary: deps)
  case (Cons d ds)
  let ?r = "if d \<in> set (node_ids ns) then Some d else map_option (\<lambda>k. ids ! k) (position (\<lambda>r. p_id r = d) reps)"
  from Cons.prems(1) obtain x where x: "?r = Some x" "x \<notin> set gone"
    "split_deps ns reps ids gone slug ds (if list_ex (\<lambda>e. dep_on e = x) deps then deps else deps @ [blocks_dep x]) = Inr out"
    unfolding split_deps.simps by (cases ?r) (auto simp del: split_paired_All split: if_splits)
  show ?case
  proof (rule Cons.IH [OF x(3)])
    show "distinct (map dep_on (if list_ex (\<lambda>e. dep_on e = x) deps then deps else deps @ [blocks_dep x]))"
      using Cons.prems(2) by (auto simp: list_ex_iff blocks_dep_def)
    show "block_targets (if list_ex (\<lambda>e. dep_on e = x) deps then deps else deps @ [blocks_dep x]) \<inter> set gone = {}"
      using Cons.prems(3) x(2) by (auto simp: block_targets_def blocks_dep_def)
  qed
qed simp

lemma split_push_Inr:
  assumes "distinct (map dep_on orig)" "block_targets orig \<inter> set gone = {}"
  shows "split_push reps ids gone orig rs ns = Inr ms \<Longrightarrow>
     \<exists>new. ms = ns @ new \<and> node_ids new = map snd rs \<and>
       (\<forall>n \<in> set new. n_status n = Waiting \<and> distinct (dep_ids n) \<and> set (blocks_on n) \<inter> set gone = {})"
proof (induction rs arbitrary: ns)
  case (Cons r rs)
  obtain p i where r: "r = (p, i)" by (cases r)
  with Cons.prems obtain ds where ds: "split_deps ns reps ids gone (p_id p) (p_deps p) orig = Inr ds"
    "split_push reps ids gone orig rs (ns @ [fresh_node i p ds]) = Inr ms"
    by (auto simp: ebind_eq_Inr)
  from Cons.IH [OF ds(2)] obtain new where new: "ms = ns @ fresh_node i p ds # new" "node_ids new = map snd rs"
    "\<forall>n \<in> set new. n_status n = Waiting \<and> distinct (dep_ids n) \<and> set (blocks_on n) \<inter> set gone = {}" by auto
  have "distinct (dep_ids (fresh_node i p ds))" "set (blocks_on (fresh_node i p ds)) \<inter> set gone = {}"
    using split_deps_Inr [OF ds(1) assms] by (auto simp: dep_ids_def set_blocks_on fresh_node_def)
  with new r show ?case by (intro exI [of _ "fresh_node i p ds # new"]) (auto simp: fresh_node_def)
qed simp

lemma push_ids_spec:
  "distinct (map dep_on ds) \<Longrightarrow>
     distinct (map dep_on (fold (\<lambda>i ds. if list_ex (\<lambda>d. dep_on d = i) ds then ds else ds @ [\<lparr>dep_on = i, dep_kind = kd\<rparr>]) is ds))"
  "block_targets (fold (\<lambda>i ds. if list_ex (\<lambda>d. dep_on d = i) ds then ds else ds @ [\<lparr>dep_on = i, dep_kind = kd\<rparr>]) is ds)
     \<subseteq> block_targets ds \<union> set is"
proof (induction "is" arbitrary: ds)
  case (Cons i "is")
  {
    case 1
    then have "distinct (map dep_on (if list_ex (\<lambda>d. dep_on d = i) ds then ds else ds @ [\<lparr>dep_on = i, dep_kind = kd\<rparr>]))"
      by (auto simp: list_ex_iff)
    from Cons.IH(1) [OF this] show ?case by simp
  next
    case 2
    show ?case
      using Cons.IH(2) [of "if list_ex (\<lambda>d. dep_on d = i) ds then ds else ds @ [\<lparr>dep_on = i, dep_kind = kd\<rparr>]"]
      by (auto simp: block_targets_def split: if_splits)
  }
qed simp_all

lemma split_rewire_spec:
  assumes "distinct (dep_ids n)"
  shows "n_id (split_rewire node is n) = n_id n" "n_status (split_rewire node is n) = n_status n"
    "distinct (dep_ids (split_rewire node is n))" "set (blocks_on (split_rewire node is n)) \<subseteq> set (blocks_on n) \<union> set is"
proof -
  show "n_id (split_rewire node is n) = n_id n" "n_status (split_rewire node is n) = n_status n"
    by (simp_all add: split_rewire_def split: option.splits)
  have "distinct (dep_ids (split_rewire node is n)) \<and> set (blocks_on (split_rewire node is n)) \<subseteq> set (blocks_on n) \<union> set is"
  proof (cases "position (\<lambda>d. dep_on d = node) (n_deps n)")
    case (Some k)
    then have k: "k < length (n_deps n)" using position_SomeD by blast
    have "distinct (map dep_on (remove_at k (n_deps n)))" "block_targets (remove_at k (n_deps n)) \<subseteq> block_targets (n_deps n)"
      using remove_at_nth [OF k] assms by (auto simp: dep_ids_def block_targets_def)
    with push_ids_spec [where kd = "dep_kind (n_deps n ! k)"] Some show ?thesis
      by (simp add: split_rewire_def dep_ids_def set_blocks_on) blast
  qed (use assms in \<open>simp add: split_rewire_def\<close>)
  then show "distinct (dep_ids (split_rewire node is n))"
    "set (blocks_on (split_rewire node is n)) \<subseteq> set (blocks_on n) \<union> set is" by blast+
qed

lemma op_split_inv:
  assumes I: "edit_inv existing ns" and r: "op_split node reps ns = Inr ms"
  shows "edit_inv existing ms"
proof -
  have fin: "node \<noteq> FINAL_NODE_ID" using r by (auto simp: op_split_def split: if_splits)
  obtain k ids n2 where k: "k < length ns" "n_id (ns ! k) = node" "is_pending (n_status (ns ! k))"
    and ids: "split_ids (remove_at k ns) [] reps = Inr ids"
    and n2: "split_push reps ids (dead_ids (remove_at k ns)) (n_deps (ns ! k)) (zip reps ids) (remove_at k ns) = Inr n2"
    and ms: "ms = map (split_rewire node ids) n2"
    using r fin by (auto simp: op_split_def ebind_eq_Inr Let_def pending_or_err_Inr
        dest!: find_node_Inr [of ns] split: option.splits if_splits)
  let ?n1 = "remove_at k ns"
  have I1: "edit_inv existing ?n1" using remove_pending_inv [OF I k(1,3)] k(2) fin by simp
  have dead1: "dead_set ?n1 = dead_set ns" using I I1 by (simp add: dead_set_frozen edit_inv_def)
  note id = split_ids_Inr [OF ids, simplified]
  have orig: "distinct (map dep_on (n_deps (ns ! k)))" "block_targets (n_deps (ns ! k)) \<inter> set (dead_ids ?n1) = {}"
    using edit_inv_node [OF I k(1,3)] k(2) fin dead1 by (auto simp: dep_ids_def set_dead_ids set_blocks_on)
  obtain new where new: "n2 = ?n1 @ new" "node_ids new = ids"
    "\<forall>n \<in> set new. n_status n = Waiting \<and> distinct (dep_ids n) \<and> set (blocks_on n) \<inter> dead_set ?n1 = {}"
    using split_push_Inr [OF orig n2] id by (auto simp: set_dead_ids)
  have I2: "edit_inv existing n2"
  proof (rule edit_invI [OF I])
    show "distinct (node_ids n2)" using I1 id new(1,2) by (auto simp: edit_inv_def)
    show "\<forall>n \<in> set n2. distinct (dep_ids n)" using I1 new by (auto simp: edit_inv_def)
    have "frozen_view n2 = frozen_view ?n1" using new by (auto simp: frozen_view_def is_pending_def)
    then show "frozen_view n2 = frozen_view ns" using I I1 by (simp add: edit_inv_def)
    show "FINAL_NODE_ID \<in> set (node_ids n2)" using I1 new(1) by (simp add: edit_inv_def)
    show "set (blocks_on n) \<inter> dead_set ns = {}"
      if "n \<in> set n2" "is_pending (n_status n)" "n_id n \<noteq> FINAL_NODE_ID" for n
    proof (cases "n \<in> set ?n1")
      case True
      with that I1 dead1 show ?thesis unfolding edit_inv_def by blast
    qed (use that new dead1 in auto)
    show "\<exists>n \<in> set ns. is_pending (n_status n)" using k(1,3) nth_mem by blast
  qed
  have dead2: "dead_set n2 = dead_set ?n1" using I1 I2 by (simp add: dead_set_frozen edit_inv_def)
  have "set ids \<inter> dead_set n2 = {}"
    using id unfolding dead2 by (auto simp: dead_set_def set_node_ids)
  show ?thesis unfolding ms
  proof (rule map_id_inv [OF I2])
    have d: "distinct (dep_ids n)" if "n \<in> set n2" for n using that I2 by (simp add: edit_inv_def)
    show "n_id (split_rewire node ids n) = n_id n" "n_status (split_rewire node ids n) = n_status n" for n
      by (simp_all add: split_rewire_def split: option.splits)
    show "distinct (dep_ids (split_rewire node ids n))" if "n \<in> set n2" for n
      using split_rewire_spec(3) [OF d [OF that]] .
    show "set (blocks_on (split_rewire node ids n)) \<inter> dead_set n2 = {}"
      if "n \<in> set n2" "is_pending (n_status n)" "n_id n \<noteq> FINAL_NODE_ID" for n
    proof -
      have "set (blocks_on n) \<inter> dead_set n2 = {}" using I2 that unfolding edit_inv_def by blast
      with split_rewire_spec(4) [OF d [OF that(1)], of node ids] \<open>set ids \<inter> dead_set n2 = {}\<close> show ?thesis by blast
    qed
  qed
qed

lemma apply_ops_inv: "apply_ops ops ns = Inr ms \<Longrightarrow> edit_inv existing ns \<Longrightarrow> edit_inv existing ms"
proof (induction ops arbitrary: ns)
  case (Cons op ops)
  then obtain ks where "apply_op op ns = Inr ks" "apply_ops ops ks = Inr ms" by (auto simp: ebind_eq_Inr)
  moreover from this(1) have "edit_inv existing ks"
    using Cons.prems(2) by (cases op) (auto intro: op_remove_dep_inv op_reorder_inv op_merge_inv op_split_inv)
  ultimately show ?case using Cons.IH by blast
qed simp

section \<open>The result of a pass\<close>

lemma edit_inv_start: "graph_ok ns \<Longrightarrow> edit_inv ns ns"
proof -
  assume ok: "graph_ok ns"
  have "set (blocks_on n) \<inter> dead_set ns = {}" if n: "n \<in> set ns" "is_pending (n_status n)" for n
  proof (rule ccontr)
    assume "set (blocks_on n) \<inter> dead_set ns \<noteq> {}"
    then obtain m where m: "m \<in> set ns" "dead (n_status m)" "n_id m \<in> set (blocks_on n)" by (auto simp: dead_set_def)
    then have "n_status n \<noteq> Waiting" using ok n(1) by (auto simp: graph_ok_def sched_defs)
    with n have "n_id m \<in> set (achieved_ids ns)" using ok m(3) by (auto simp: graph_ok_def sched_defs started_def is_pending_def)
    then have "n_status m = Achieved"
      using node_eqI [OF graph_ok_distinct [OF ok] _ m(1)] unfolding achieved_ids_iff by metis
    with m(2) show False by (simp add: dead_def)
  qed
  with ok show ?thesis by (auto simp: edit_inv_def graph_ok_def wf_nodes_def final_gate_def)
qed

definition gate_of :: "graph_node list \<Rightarrow> node_dep list" where
  "gate_of ns = map (\<lambda>n. blocks_dep (n_id n)) (filter (\<lambda>n. n_id n \<noteq> FINAL_NODE_ID) ns)"

definition regate :: "graph_node list \<Rightarrow> graph_node \<Rightarrow> graph_node" where
  "regate ns n = (if n_id n = FINAL_NODE_ID then n\<lparr>n_deps := gate_of ns\<rparr> else n)"

lemma rebuild_gate_map: "distinct (node_ids ns) \<Longrightarrow> rebuild_gate ns = map (regate ns) ns"
  by (simp add: rebuild_gate_def gate_of_def regate_def update_first_id Let_def)

lemma regate_simps [simp]:
  "n_id (regate ns n) = n_id n" "n_status (regate ns n) = n_status n"
  "n_id n \<noteq> FINAL_NODE_ID \<Longrightarrow> regate ns n = n"
  "n_id n = FINAL_NODE_ID \<Longrightarrow> dep_ids (regate ns n) = filter (\<lambda>i. i \<noteq> FINAL_NODE_ID) (node_ids ns)"
  "n_id n = FINAL_NODE_ID \<Longrightarrow> blocks_on (regate ns n) = filter (\<lambda>i. i \<noteq> FINAL_NODE_ID) (node_ids ns)"
  by (simp_all add: regate_def gate_of_def dep_ids_def blocks_on_def blocks_dep_def node_ids_def comp_def filter_map)

lemma derive_status_simps [simp]:
  "n_id (derive_status a n) = n_id n" "n_deps (derive_status a n) = n_deps n"
  "dep_ids (derive_status a n) = dep_ids n" "blocks_on (derive_status a n) = blocks_on n"
  "n_status (derive_status a n) = (if \<not> is_pending (n_status n) then n_status n
      else if set (blocks_on n) \<subseteq> set a then Ready else Waiting)"
  by (simp_all add: derive_status_def deps_achieved_iff dep_ids_def blocks_on_def)

definition finished :: "graph_node list \<Rightarrow> graph_node list" where
  "finished ns = derive_statuses (rebuild_gate ns)"

definition finish :: "graph_node list \<Rightarrow> graph_node \<Rightarrow> graph_node" where
  "finish ns n = derive_status (achieved_ids ns) (regate ns n)"

lemma finished_map:
  assumes "distinct (node_ids ns)"
  shows "finished ns = map (finish ns) ns"
proof -
  have "achieved_ids (map (regate ns) ns) = achieved_ids ns"
    by (simp add: achieved_ids_def filter_map comp_def)
  then show ?thesis by (simp add: finished_def derive_statuses_def finish_def [abs_def] rebuild_gate_map [OF assms] comp_def)
qed

lemma finish_simps [simp]:
  "n_id (finish ns n) = n_id n" "dep_ids (finish ns n) = dep_ids (regate ns n)"
  "blocks_on (finish ns n) = blocks_on (regate ns n)"
  "n_status (finish ns n) = (if \<not> is_pending (n_status n) then n_status n
      else if set (blocks_on (regate ns n)) \<subseteq> set (achieved_ids ns) then Ready else Waiting)"
  by (simp_all add: finish_def)

lemma achieved_finished:
  assumes "distinct (node_ids ns)"
  shows "set (achieved_ids (finished ns)) = set (achieved_ids ns)"
proof (rule set_eqI)
  fix i
  have "n_status (finish ns n) = Achieved \<longleftrightarrow> n_status n = Achieved" for n by (auto simp: is_pending_def)
  then show "i \<in> set (achieved_ids (finished ns)) \<longleftrightarrow> i \<in> set (achieved_ids ns)"
    unfolding achieved_ids_iff finished_map [OF assms] by (simp del: finish_simps(4))
qed

text \<open>The acyclicity check decides well-formedness of a node list with distinct ids and targets.\<close>

lemma optimized_acyclic_None:
  assumes "optimized_acyclic ns = None" "distinct (node_ids ns)" "\<forall>n \<in> set ns. distinct (dep_ids n)"
  shows "wf_nodes ns"
proof -
  let ?gs = "keyed_nodes ns"
  have ids: "map fst ?gs = node_ids ns" by (simp add: keyed_nodes_def node_ids_def comp_def)
  have deps: "\<forall>n \<in> set ns. set (dep_ids n) \<subseteq> set (node_ids ns)"
    using assms(1) by (auto simp: optimized_acyclic_def guard_None check_all_None dangling_error_def split: if_splits)
  then have ok: "keyed_ok ?gs" unfolding keyed_ok_def ids using assms(2,3) by (auto simp: keyed_nodes_def)
  have len: "length ?gs = length ns" by (simp add: keyed_nodes_def)
  have "kahn_loop (keyed_relax ?gs) (length ns) (counted_indeg ?gs) (replicate (length ns) False) [] = counted.kahn_run ?gs"
    by (simp add: counted.kahn_run_def len)
  then have "\<exists>ord. counted.kahn_run ?gs = Inr ord"
    using assms(1) by (cases "counted.kahn_run ?gs") (auto simp: optimized_acyclic_def guard_None Let_def)
  then have ac: "acyclic (counted.deps ?gs)" using counted.kahn_iff [OF ok] by blast
  have "edges ns \<subseteq> map_prod (\<lambda>i. n_id (ns ! i)) (\<lambda>i. n_id (ns ! i)) ` counted.deps ?gs"
  proof
    fix e assume "e \<in> edges ns"
    then obtain d n where e: "e = (d, n_id n)" "n \<in> set ns" "d \<in> set (dep_ids n)" by (auto simp: edges_Union)
    then obtain m where "m \<in> set ns" "n_id m = d" using deps by (auto simp: set_node_ids)
    with e obtain i j where ij: "i < length ns" "j < length ns" "ns ! i = n" "ns ! j = m" by (metis in_set_conv_nth)
    with e \<open>n_id m = d\<close> have "(j, i) \<in> counted.deps ?gs"
      by (auto simp: counted.deps_def counted.before_def keyed_cnt_def keyed_nodes_def)
    with ij e \<open>n_id m = d\<close> show "e \<in> map_prod (\<lambda>i. n_id (ns ! i)) (\<lambda>i. n_id (ns ! i)) ` counted.deps ?gs" by force
  qed
  moreover have "acyclic (map_prod (\<lambda>i. n_id (ns ! i)) (\<lambda>i. n_id (ns ! i)) ` counted.deps ?gs)"
    by (rule acyclic_image [OF ac, where A = "{..<length ns}"])
       (use assms(2) len in \<open>auto simp: inj_on_nth_key node_ids_def counted.deps_def\<close>)
  ultimately have "acyclic (edges ns)" using acyclic_subset by blast
  with assms(2,3) deps show ?thesis by (simp add: wf_nodes_def)
qed

text \<open>A pass that succeeded: the edited list, finished, with its checks passed.\<close>

definition optimized :: "graph_node list \<Rightarrow> graph_node list \<Rightarrow> bool" where
  "optimized existing ed \<longleftrightarrow> graph_ok existing \<and> edit_inv existing ed \<and>
     (\<forall>old \<in> set existing. \<not> is_pending (n_status old) \<and> n_id old \<noteq> FINAL_NODE_ID \<longrightarrow> old \<in> set (finished ed)) \<and>
     optimized_acyclic (finished ed) = None \<and> length (finished ed) \<le> MAX_GRAPH_NODES + 1"

lemma apply_optimization_Some:
  assumes "graph_ok existing" "apply_optimization from_str existing json = Inr (Some nodes)"
  obtains ed where "optimized existing ed" "nodes = finished ed"
proof -
  obtain ops ed where "apply_ops ops existing = Inr ed"
    and r: "nodes = finished ed" "check_all (immutable_error (finished ed)) existing = None"
      "\<not> length (finished ed) > MAX_GRAPH_NODES + 1" "optimized_acyclic (finished ed) = None"
    using assms(2) by (auto simp: apply_optimization_def ebind_eq_Inr guard_Inr Let_def finished_def split: sum.splits if_splits)
  then have "edit_inv existing ed" using apply_ops_inv edit_inv_start [OF assms(1)] by blast
  moreover have "old \<in> set (finished ed)"
    if "old \<in> set existing" "\<not> is_pending (n_status old)" "n_id old \<noteq> FINAL_NODE_ID" for old
    using r(2) that by (auto simp: check_all_None immutable_error_def find_Some_iff split: if_splits)
  ultimately show thesis using that [of ed] r assms(1) by (auto simp: optimized_def)
qed

lemma optimizedD:
  assumes "optimized existing ed"
  shows "graph_ok existing" "distinct (node_ids ed)" "frozen_view ed = frozen_view existing"
    "set (achieved_ids ed) = set (achieved_ids existing)" "dead_set ed = dead_set existing"
    "finished ed = map (finish ed) ed" "node_ids (finished ed) = node_ids ed" "FINAL_NODE_ID \<in> set (node_ids ed)"
proof -
  show d: "distinct (node_ids ed)" and "graph_ok existing" and fv: "frozen_view ed = frozen_view existing"
    and "FINAL_NODE_ID \<in> set (node_ids ed)"
    using assms by (auto simp: optimized_def edit_inv_def)
  have "set (achieved_ids ms) = {i. (i, Achieved) \<in> frozen_view ms}" for ms
    by (auto simp: achieved_ids_def frozen_view_def is_pending_def)
  with fv show "set (achieved_ids ed) = set (achieved_ids existing)" by simp
  show "dead_set ed = dead_set existing" using fv by (simp add: dead_set_frozen)
  show "finished ed = map (finish ed) ed" by (rule finished_map [OF d])
  then show "node_ids (finished ed) = node_ids ed" by (simp add: node_ids_def comp_def)
qed

lemma frozen_origin:
  assumes "optimized existing ed" "n \<in> set ed" "\<not> is_pending (n_status n)"
  obtains old where "old \<in> set existing" "n_id old = n_id n" "n_status old = n_status n"
    "n_id n \<noteq> FINAL_NODE_ID \<Longrightarrow> finish ed n = old"
proof -
  have "(n_id n, n_status n) \<in> frozen_view ed" using assms(2,3) by (auto simp: frozen_view_def)
  then have "(n_id n, n_status n) \<in> frozen_view existing" unfolding optimizedD(3) [OF assms(1)] .
  then obtain old where old: "old \<in> set existing" "n_id old = n_id n" "n_status old = n_status n"
    by (auto simp: frozen_view_def)
  have "finish ed n = old" if "n_id n \<noteq> FINAL_NODE_ID"
  proof (rule node_eqI [of "finished ed"])
    show "distinct (node_ids (finished ed))" using optimizedD(2,7) [OF assms(1)] by simp
    show "old \<in> set (finished ed)" using assms(1,3) old that by (auto simp: optimized_def)
    show "finish ed n \<in> set (finished ed)" using assms(2) optimizedD(6) [OF assms(1)] by simp
    show "n_id (finish ed n) = n_id old" using old by simp
  qed
  with old show thesis using that by blast
qed

lemma dead_blocks_final:
  assumes "graph_ok ns" "m \<in> set ns" "dead (n_status m)" "n_id m \<noteq> FINAL_NODE_ID" "n \<in> set ns" "n_id n = FINAL_NODE_ID"
  shows "n_status n = NodeBlocked"
proof -
  have "n_id m \<in> set (blocks_on n)" using assms by (auto simp: graph_ok_def final_gate_def set_node_ids)
  then have "n_status n \<noteq> Waiting" using assms(1-3,5) by (auto simp: graph_ok_def sched_defs)
  moreover have "\<not> started (n_status n)"
    using final_starts_last [OF assms(1,5,6) _ assms(2,4)] assms(3) by (auto simp: dead_def)
  ultimately show ?thesis by (simp add: started_def)
qed

text \<open>When the terminal node has started, everything else is achieved and nothing is left to edit.\<close>

lemma final_started_all_achieved:
  assumes O: "optimized existing ed" and f: "f \<in> set existing" "n_id f = FINAL_NODE_ID" "started (n_status f)"
    "\<not> is_pending (n_status f)" and n: "n \<in> set ed" "n_id n \<noteq> FINAL_NODE_ID"
  shows "n_status n = Achieved"
proof -
  have ach: "n_status o' = Achieved" if "o' \<in> set existing" "n_id o' \<noteq> FINAL_NODE_ID" for o'
    using final_starts_last [OF optimizedD(1) [OF O] f(1-3) that] .
  have "\<not> is_pending (n_status o')" if "o' \<in> set existing" for o'
  proof (cases "n_id o' = FINAL_NODE_ID")
    case True
    then have "o' = f" using node_eqI [OF graph_ok_distinct [OF optimizedD(1) [OF O]] that f(1)] f(2) by simp
    with f(4) show ?thesis by simp
  qed (use ach [OF that] in \<open>simp add: is_pending_def\<close>)
  then have "\<not> is_pending (n_status n)" using O n(1) unfolding optimized_def edit_inv_def by blast
  then show ?thesis using frozen_origin [OF O n(1)] ach n(2) by metis
qed

lemma finished_order:
  assumes O: "optimized existing ed"
  shows "order_ok (finished ed)"
  unfolding order_ok_def achieved_finished [OF optimizedD(2) [OF O]]
proof (intro ballI impI)
  fix x assume "x \<in> set (finished ed)" and st: "started (n_status x)"
  then obtain n where n: "n \<in> set ed" "x = finish ed n" using optimizedD(6) [OF O] by auto
  show "set (blocks_on x) \<subseteq> set (achieved_ids ed)"
  proof (cases "is_pending (n_status n)")
    case True
    with st n(2) show ?thesis by (auto simp: started_def split: if_splits)
  next
    case False
    obtain old where old: "old \<in> set existing" "n_id old = n_id n" "n_status old = n_status n"
      "n_id n \<noteq> FINAL_NODE_ID \<Longrightarrow> finish ed n = old" using frozen_origin [OF O n(1) False] by metis
    have so: "started (n_status old)" using st n(2) False old(3) by simp
    show ?thesis
    proof (cases "n_id n = FINAL_NODE_ID")
      case True
      have "n_status m = Achieved" if "m \<in> set ed" "n_id m \<noteq> FINAL_NODE_ID" for m
        using final_started_all_achieved [OF O old(1) _ so _ that] old(2,3) True False by simp
      then have "\<forall>m \<in> set ed. n_id m \<noteq> FINAL_NODE_ID \<longrightarrow> n_id m \<in> set (achieved_ids ed)"
        unfolding achieved_ids_iff by blast
      then show ?thesis unfolding n(2) by (auto simp: True set_node_ids)
    next
      case nf: False
      then have "x = old" using old(4) n(2) by simp
      with so old(1) optimizedD(1,4) [OF O] show ?thesis by (auto simp: graph_ok_def sched_defs)
    qed
  qed
qed

lemma dead_in_finished:
  assumes O: "optimized existing ed"
  shows "dead_set (finished ed) = dead_set existing"
proof -
  have "dead (n_status (finish ed n)) \<longleftrightarrow> dead (n_status n)" for n by (auto simp: dead_def is_pending_def)
  then have "dead_set (finished ed) = dead_set ed"
    unfolding dead_set_def optimizedD(6) [OF O] by (auto simp del: finish_simps(4)) (metis finish_simps(1) imageI)
  with optimizedD(5) [OF O] show ?thesis by simp
qed

lemma finished_dead:
  assumes O: "optimized existing ed"
  shows "dead_closed (finished ed)"
  unfolding dead_closed_def
proof (intro ballI impI notI, elim conjE)
  fix x m assume x: "x \<in> set (finished ed)" and m: "m \<in> set (finished ed)"
    and b: "n_id m \<in> set (blocks_on x)" and dd: "dead (n_status m)" and w: "n_status x = Waiting"
  obtain n where n: "n \<in> set ed" "x = finish ed n" using x optimizedD(6) [OF O] by auto
  have pend: "is_pending (n_status n)" using w n(2) by (auto simp: is_pending_def split: if_splits)
  have "n_id m \<in> dead_set (finished ed)" using m dd by (auto simp: dead_set_def)
  then have md: "n_id m \<in> dead_set ed" "n_id m \<in> dead_set existing"
    using dead_in_finished [OF O] optimizedD(5) [OF O] by auto
  show False
  proof (cases "n_id n = FINAL_NODE_ID")
    case False
    then have "set (blocks_on n) \<inter> dead_set ed = {}" using O n(1) pend unfolding optimized_def edit_inv_def by blast
    with b n(2) md(1) False show False by auto
  next
    case True
    then have mf: "n_id m \<noteq> FINAL_NODE_ID" using b n(2) by auto
    obtain f where f: "f \<in> set existing" "n_id f = FINAL_NODE_ID"
      using optimizedD(1) [OF O] by (auto simp: graph_ok_def final_gate_def set_node_ids)
    have "n_status f = NodeBlocked"
      using md(2) mf dead_blocks_final [OF optimizedD(1) [OF O] _ _ _ f] by (auto simp: dead_set_def)
    then have "(FINAL_NODE_ID, NodeBlocked) \<in> frozen_view existing"
      using f by (force simp: frozen_view_def is_pending_def)
    then obtain k where "k \<in> set ed" "n_id k = FINAL_NODE_ID" "n_status k = NodeBlocked"
      unfolding optimizedD(3) [OF O, symmetric] by (auto simp: frozen_view_def)
    with n(1) True pend node_eqI [OF optimizedD(2) [OF O], of k n] show False by (auto simp: is_pending_def)
  qed
qed

lemma finished_blocked:
  assumes O: "optimized existing ed"
  shows "blocked_justified (finished ed)"
  unfolding blocked_justified_def
proof (intro ballI impI)
  fix x assume x: "x \<in> set (finished ed)" and bl: "n_status x = NodeBlocked"
  obtain n where n: "n \<in> set ed" "x = finish ed n" using x optimizedD(6) [OF O] by auto
  have np: "\<not> is_pending (n_status n)" "n_status n = NodeBlocked" using bl n(2) by (auto split: if_splits)
  obtain old where old: "old \<in> set existing" "n_id old = n_id n" "n_status old = n_status n"
    "n_id n \<noteq> FINAL_NODE_ID \<Longrightarrow> finish ed n = old" using frozen_origin [OF O n(1) np(1)] by metis
  obtain m where m: "m \<in> set existing" "n_id m \<in> set (blocks_on old)" "dead (n_status m)"
    using optimizedD(1) [OF O] old(1,3) np(2) by (auto simp: graph_ok_def sched_defs)
  have "n_id m \<in> dead_set (finished ed)" using m(1,3) dead_in_finished [OF O] by (auto simp: dead_set_def)
  then obtain k where k: "k \<in> set (finished ed)" "n_id k = n_id m" "dead (n_status k)" by (auto simp: dead_set_def)
  have "n_id m \<in> set (blocks_on x)"
  proof (cases "n_id n = FINAL_NODE_ID")
    case False
    then show ?thesis using old(4) m(2) n(2) by simp
  next
    case True
    have "(n_id m, n_id old) \<in> edges existing"
      using old(1) m(2) blocks_on_dep_ids [of old] by (auto simp: edges_Union)
    then have "n_id m \<noteq> FINAL_NODE_ID" using final_no_dependents [OF optimizedD(1) [OF O]] by auto
    moreover have "n_id m \<in> set (node_ids ed)"
      using k(1,2) optimizedD(7) [OF O] by (metis imageI set_node_ids)
    ultimately show ?thesis using True n(2) by simp
  qed
  with k show "\<exists>m \<in> set (finished ed). n_id m \<in> set (blocks_on x) \<and> dead (n_status m)" by metis
qed

lemma finished_promoted:
  assumes O: "optimized existing ed"
  shows "promoted (finished ed)"
  using achieved_finished [OF optimizedD(2) [OF O]] unfolding promoted_def optimizedD(6) [OF O]
  by (auto simp: is_pending_def split: if_splits)

text \<open>A successful pass keeps the graph good.\<close>

lemma graph_ok_optimized:
  assumes O: "optimized existing ed"
  shows "graph_ok (finished ed)"
proof -
  have deps: "distinct (dep_ids (finish ed n))" if "n \<in> set ed" for n
    using O that optimizedD(2) [OF O] by (cases "n_id n = FINAL_NODE_ID") (auto simp: optimized_def edit_inv_def)
  then have "\<forall>n \<in> set (finished ed). distinct (dep_ids n)" unfolding optimizedD(6) [OF O] by simp
  then have "wf_nodes (finished ed)"
    using optimized_acyclic_None [of "finished ed"] O optimizedD(2,7) [OF O] by (simp add: optimized_def)
  moreover have "final_gate (finished ed)"
    using optimizedD(8) [OF O] unfolding final_gate_def optimizedD(7) [OF O] by (auto simp: optimizedD(6) [OF O])
  ultimately show ?thesis
    using finished_order [OF O] finished_dead [OF O] finished_blocked [OF O] finished_promoted [OF O]
    by (simp add: graph_ok_def sched_ok_def settled_ok_def)
qed

end
