(* ===== verification/Transition.thy ===== *)
theory Transition
  imports Main
begin

text \<open>
  The two contracts that the state machines of the development share.  \<open>invariant_system\<close> is a
  step relation with an invariant that holds at the start and is kept by every step;
  \<open>refines\<close> adds an abstraction whose image the invariant confines to what a specification
  allows.  The tracker, the goal engine and the session interpret them.
\<close>

locale invariant_system =
  fixes start :: "'s \<Rightarrow> bool" and step :: "'s \<Rightarrow> 's \<Rightarrow> bool" and inv :: "'s \<Rightarrow> bool"
  assumes inv_start: "start s \<Longrightarrow> inv s"
    and inv_step: "inv s \<Longrightarrow> step s s' \<Longrightarrow> inv s'"
begin

lemma inv_steps: "step\<^sup>*\<^sup>* s s' \<Longrightarrow> inv s \<Longrightarrow> inv s'"
  by (induction rule: rtranclp_induct) (auto intro: inv_step)

lemma inv_run: "start s \<Longrightarrow> step\<^sup>*\<^sup>* s s' \<Longrightarrow> inv s'"
  by (blast intro: inv_start inv_steps)

end

locale refines = invariant_system start step inv
  for start :: "'s \<Rightarrow> bool" and step :: "'s \<Rightarrow> 's \<Rightarrow> bool" and inv :: "'s \<Rightarrow> bool" +
  fixes abs :: "'s \<Rightarrow> 't" and spec :: "'t \<Rightarrow> bool"
  assumes abs_spec: "inv s \<Longrightarrow> spec (abs s)"
begin

lemma run_spec: "start s \<Longrightarrow> step\<^sup>*\<^sup>* s s' \<Longrightarrow> spec (abs s')"
  by (blast intro: abs_spec inv_run)

end

end
