(* ===== verification/Graph_Reach.thy ===== *)
theory Graph_Reach
  imports Graph_Optimize Transition
begin

text \<open>
  The tracker as a transition system: \<open>graph_step\<close> has one rule per transition the session code
  makes on the \<open>GraphTracker\<close>, with the guard that code has established when it makes it, and
  \<open>graph_reach\<close> are the states a session can be in.  \<open>tracker_ok\<close> is the invariant.
\<close>

section \<open>Small transitions the session code makes on the snapshot\<close>

text \<open>\<open>node.goal_id = Some(..)\<close> through \<open>snapshot_mut\<close>.\<close>

definition stamp_goal_id :: "string \<Rightarrow> string \<Rightarrow> graph_tracker \<Rightarrow> graph_tracker" where
  "stamp_goal_id nid gid t =
     on_state (\<lambda>s. s\<lparr>g_nodes := update_first (\<lambda>n. n_id n = nid) (\<lambda>n. n\<lparr>n_goal_id := Some gid\<rparr>) (g_nodes s)\<rparr>) t"

text \<open>\<open>state.replan_runs += 1\<close> after a pass that installed nothing.\<close>

definition bump_replan_runs :: "graph_tracker \<Rightarrow> graph_tracker" where
  "bump_replan_runs t = on_state (\<lambda>s. s\<lparr>g_replan_runs := g_replan_runs s + 1\<rparr>) t"

text \<open>\<open>s.current_node = None\<close> when a batch is fanned out.\<close>

definition clear_current_node :: "graph_tracker \<Rightarrow> graph_tracker" where
  "clear_current_node t = on_state (\<lambda>s. s\<lparr>g_current_node := None\<rparr>) t"

section \<open>The invariant\<close>

definition all_done :: "graph_node list \<Rightarrow> bool" where
  "all_done ns \<longleftrightarrow> ns \<noteq> [] \<and> (\<forall>n \<in> set ns. n_status n = Achieved)"

definition state_ok :: "graph_orchestration \<Rightarrow> bool" where
  "state_ok s \<longleftrightarrow>
     (g_nodes s = [] \<or> graph_ok (g_nodes s)) \<and>
     (\<forall>n \<in> set (g_nodes s). n_status n \<noteq> Verifying \<and> (n_id n = FINAL_NODE_ID \<longrightarrow> n_status n \<noteq> Failed)) \<and>
     length (g_nodes s) \<le> MAX_GRAPH_NODES + 1 \<and>
     length (g_history s) \<le> GRAPH_HISTORY_MAX \<and>
     (g_status s = Complete \<longrightarrow> all_done (g_nodes s))"

definition tracker_ok :: "graph_tracker \<Rightarrow> bool" where
  "tracker_ok t \<longleftrightarrow> (case t_state t of None \<Rightarrow> True | Some s \<Rightarrow> state_ok s)"

section \<open>Steps\<close>

definition node_st :: "string \<Rightarrow> graph_tracker \<Rightarrow> node_status option" where
  "node_st i t = (case t_state t of None \<Rightarrow> None | Some s \<Rightarrow> st_of (g_nodes s) i)"

definition nodes_of :: "graph_tracker \<Rightarrow> graph_node list" where
  "nodes_of t = (case t_state t of None \<Rightarrow> [] | Some s \<Rightarrow> g_nodes s)"

definition replan_ready :: "graph_tracker \<Rightarrow> bool" where
  "replan_ready t \<longleftrightarrow> (case node_st FINAL_NODE_ID t of
     None \<Rightarrow> False | Some st \<Rightarrow> st \<noteq> Achieved \<and> \<not> in_flight st)"

inductive graph_step :: "graph_tracker \<Rightarrow> graph_tracker \<Rightarrow> bool" where
  create: "graph_status t = None \<or> graph_status t = Some Complete \<Longrightarrow>
    graph_step t (create_graph ck gid obj budget created t)"
| plan_failed: "graph_step t (record_planning_failed ck detail t)"
| install: "nodes_of t = [] \<Longrightarrow> is_active t \<Longrightarrow> parse_and_validate from_str json obj = Some (Inr nodes) \<Longrightarrow>
    graph_step t (install_nodes ck nodes t)"
| run: "is_active t \<Longrightarrow> node_st i t = Some Ready \<Longrightarrow> graph_step t (mark_node_running ck i gid t)"
| stamp: "graph_step t (stamp_goal_id i gid t)"
| uncurrent: "graph_step t (clear_current_node t)"
| achieve: "node_st i t = Some st \<Longrightarrow> in_flight st \<Longrightarrow> graph_step t (mark_node_achieved ck i rounds tokens t)"
| fail: "node_st i t = Some st \<Longrightarrow> in_flight st \<Longrightarrow> i \<noteq> FINAL_NODE_ID \<Longrightarrow> graph_step t (mark_node_failed ck i detail t)"
| charge: "graph_step t (charge_node_tokens i tokens t)"
| pause: "graph_step t (snd (graph_pause_inner ck reason msg t))"
| resume: "graph_step t (snd (graph_resume ck t))"
| complete: "all_achieved t \<Longrightarrow> graph_step t (snd (graph_complete ck t))"
| budget: "graph_step t (snd (graph_budget_limit ck t))"
| topup: "graph_step t (snd (resume_budget_limited ck extra t))"
| clear: "graph_step t (graph_clear t)"
| elapsed: "graph_step t (account_elapsed ck t)"
| history: "graph_step t (append_history e t)"
| queue: "graph_step t (queue_discoveries ck ds t)"
| drain: "graph_step t (snd (drain_discoveries_to_history t))"
| bump: "graph_step t (bump_replan_runs t)"
| replan: "is_active t \<Longrightarrow> replan_ready t \<Longrightarrow> validate_replan from_str (nodes_of t) json = Some (Inr new) \<Longrightarrow>
    graph_step t (append_replan_nodes ck new t)"
| optimize: "is_active t \<Longrightarrow> nodes_of t \<noteq> [] \<Longrightarrow>
    apply_optimization op_from_str (nodes_of t) json = Inr (Some nodes) \<Longrightarrow>
    graph_step t (install_optimized_nodes ck nodes t)"
| demote: "graph_step t (demote_orphaned_in_flight keep t)"
| restart: "t_state t = Some s \<Longrightarrow> graph_step t (from_snapshot dir s)"

inductive graph_reach :: "graph_tracker \<Rightarrow> bool" where
  start: "graph_reach (graph_tracker_new dir)"
| step: "graph_reach t \<Longrightarrow> graph_step t t' \<Longrightarrow> graph_reach t'"

section \<open>Every step keeps the invariant\<close>

lemma tracker_okI: "(\<And>s. t_state t = Some s \<Longrightarrow> state_ok s) \<Longrightarrow> tracker_ok t"
  by (simp add: tracker_ok_def split: option.splits)

lemma tracker_okD: "tracker_ok t \<Longrightarrow> t_state t = Some s \<Longrightarrow> state_ok s"
  by (simp add: tracker_ok_def)

lemma push_history_simps [simp]:
  "g_nodes (push_history e s) = g_nodes s" "g_status (push_history e s) = g_status s"
  "length (g_history (push_history e s)) \<le> GRAPH_HISTORY_MAX"
  "g_replan_runs (push_history e s) = g_replan_runs s" "g_tokens_spent_nodes (push_history e s) = g_tokens_spent_nodes s"
  "g_token_budget (push_history e s) = g_token_budget s" "g_current_node (push_history e s) = g_current_node s"
  "g_pending_discoveries (push_history e s) = g_pending_discoveries s" "g_plan_version (push_history e s) = g_plan_version s"
  using length_push_capped [of GRAPH_HISTORY_MAX "g_history s" e]
  by (simp_all add: push_history_def GRAPH_HISTORY_MAX_def)

lemma all_done_not_live:
  assumes "all_done ns" "st_of ns i = Some st"
  shows "st = Achieved"
  using assms by (auto simp: all_done_def st_of_def find_Some_iff)

lemma state_ok_fields [simp]:
  "state_ok (s\<lparr>g_current_node := c\<rparr>) = state_ok s" "state_ok (s\<lparr>g_elapsed_ms := e\<rparr>) = state_ok s"
  "state_ok (s\<lparr>g_token_budget := b\<rparr>) = state_ok s" "state_ok (s\<lparr>g_tokens_spent_nodes := x\<rparr>) = state_ok s"
  "state_ok (s\<lparr>g_pause_message := m\<rparr>) = state_ok s" "state_ok (s\<lparr>g_pending_discoveries := d\<rparr>) = state_ok s"
  "state_ok (s\<lparr>g_replan_runs := r\<rparr>) = state_ok s" "state_ok (s\<lparr>g_plan_version := v\<rparr>) = state_ok s"
  "state_ok (s\<lparr>g_phase := p\<rparr>) = state_ok s"
  by (simp_all add: state_ok_def)

lemma state_ok_push [intro]: "state_ok s \<Longrightarrow> state_ok (push_history e s)"
  by (simp add: state_ok_def)

lemma state_ok_status: "state_ok s \<Longrightarrow> st \<noteq> Complete \<Longrightarrow> state_ok (s\<lparr>g_status := st\<rparr>)"
  by (simp add: state_ok_def)

lemma to_status_paused [simp]: "to_status r \<noteq> Complete" "to_status r \<noteq> Active" "is_paused (to_status r)"
  by (cases r; simp)+

lemma on_state_ok:
  "tracker_ok t \<Longrightarrow> (\<And>s. t_state t = Some s \<Longrightarrow> state_ok s \<Longrightarrow> state_ok (f s)) \<Longrightarrow> tracker_ok (on_state f t)"
  by (auto simp: tracker_ok_def split: option.splits)

lemma set_state_ok: "state_ok s \<Longrightarrow> t_state t = Some s \<Longrightarrow> tracker_ok t"
  by (simp add: tracker_ok_def)

lemma account_elapsed_ok: "tracker_ok t \<Longrightarrow> tracker_ok (account_elapsed ck t)"
  by (auto simp: tracker_ok_def account_elapsed_def split: option.splits)

lemma pause_ok: "tracker_ok t \<Longrightarrow> tracker_ok (snd (graph_pause_inner ck reason msg t))"
proof -
  assume "tracker_ok t"
  then have a: "tracker_ok (account_elapsed ck t)" by (rule account_elapsed_ok)
  show ?thesis
  proof (cases "t_state (account_elapsed ck t)")
    case (Some s)
    with a show ?thesis
      by (auto simp: graph_pause_inner_def Let_def tracker_ok_def intro!: state_ok_push state_ok_status)
  qed (use a in \<open>simp add: graph_pause_inner_def Let_def\<close>)
qed

lemma step_simple_ok:
  assumes "tracker_ok t"
  shows "tracker_ok (record_planning_failed ck detail t)" "tracker_ok (clear_current_node t)"
    "tracker_ok (append_history e t)" "tracker_ok (bump_replan_runs t)" "tracker_ok (graph_clear t)"
    "tracker_ok (snd (drain_discoveries_to_history t))"
  using assms
  by (auto simp: record_planning_failed_def clear_current_node_def append_history_def bump_replan_runs_def
        graph_clear_def drain_discoveries_to_history_def tracker_ok_def split: option.splits)

lemma queue_from_ok: "state_ok s \<Longrightarrow> state_ok (queue_from ck i ds s)"
  by (induction ck i ds s rule: queue_from.induct) (auto simp: Let_def)

lemma queue_ok: "tracker_ok t \<Longrightarrow> tracker_ok (queue_discoveries ck ds t)"
  unfolding queue_discoveries_def by (rule on_state_ok) (auto intro: queue_from_ok)

text \<open>Node-wise maps that move live nodes among the live statuses.\<close>

definition moves :: "node_status \<Rightarrow> node_status \<Rightarrow> bool" where
  "moves st st' \<longleftrightarrow> st' = st \<or> live st \<and> (st' = Ready \<or> st' = Running)"

lemma state_ok_map:
  assumes s: "state_ok s" and k: "keeps f"
    and st: "\<And>n. n \<in> set (g_nodes s) \<Longrightarrow> moves (n_status n) (n_status (f n))"
  shows "state_ok (s\<lparr>g_nodes := map f (g_nodes s)\<rparr>)"
proof -
  note st = st [unfolded moves_def]
  have "graph_ok (map f (g_nodes s))" if "g_nodes s \<noteq> []"
    by (rule graph_ok_map [OF _ k]) (use st s that in \<open>auto simp: state_ok_def live_def in_flight_def\<close>)
  moreover have "n_status (f n) \<noteq> Failed" if "n \<in> set (g_nodes s)" "n_id n = FINAL_NODE_ID" for n
    using st [OF that(1)] s that by (auto simp: state_ok_def)
  moreover have "n_status (f n) \<noteq> Verifying" if "n \<in> set (g_nodes s)" for n
    using st [OF that(1)] s that by (auto simp: state_ok_def)
  moreover have "n_status (f n) = Achieved" if "n \<in> set (g_nodes s)" "g_status s = Complete" for n
    using st [OF that(1)] s that by (auto simp: state_ok_def all_done_def live_def in_flight_def)
  ultimately show ?thesis using s by (auto simp: state_ok_def all_done_def keepsD(1) [OF k])
qed

lemma state_ok_promote: "state_ok s \<Longrightarrow> state_ok (on_nodes promote_ready s)"
proof -
  assume s: "state_ok s"
  have "promote_ready ns = ns" if "\<forall>n \<in> set ns. n_status n = Achieved" for ns
    using that unfolding promote_ready_def by (intro map_idI) (simp add: promote_def)
  then show ?thesis
    using s graph_ok_promote [of "g_nodes s"]
    by (auto simp: state_ok_def all_done_def) (auto simp: promote_ready_def split: if_splits)
qed

lemma recompute_ok: "tracker_ok t \<Longrightarrow> tracker_ok (recompute_ready t)"
  unfolding recompute_ready_def by (rule on_state_ok) (auto intro: state_ok_promote)

lemma create_ok: "tracker_ok (create_graph ck gid obj budget created t)"
  by (simp add: tracker_ok_def create_graph_def state_ok_def GRAPH_HISTORY_MAX_def)

lemma resume_ok:
  assumes "tracker_ok t"
  shows "tracker_ok (snd (graph_resume ck t))" "tracker_ok (snd (resume_budget_limited ck extra t))"
proof -
  have "tracker_ok (t\<lparr>t_state := Some (push_history e (s\<lparr>g_status := Active, g_pause_message := m\<rparr>)), t_last_probe := p\<rparr>)"
    "tracker_ok (t\<lparr>t_state := Some (push_history e (s\<lparr>g_token_budget := b, g_status := Active, g_pause_message := m\<rparr>)), t_last_probe := p\<rparr>)"
    if "t_state t = Some s" for s e m p b
    using tracker_okD [OF assms that] by (auto simp: tracker_ok_def intro!: state_ok_push state_ok_status)
  with assms show "tracker_ok (snd (graph_resume ck t))" "tracker_ok (snd (resume_budget_limited ck extra t))"
    by (auto simp: graph_resume_def resume_budget_limited_def intro!: recompute_ok split: option.splits)
qed

lemma complete_ok:
  assumes "tracker_ok t" "all_achieved t"
  shows "tracker_ok (snd (graph_complete ck t))"
proof -
  have a: "tracker_ok (account_elapsed ck t)" using assms(1) by (rule account_elapsed_ok)
  show ?thesis
  proof (cases "t_state (account_elapsed ck t)")
    case (Some s)
    have "all_achieved (account_elapsed ck t)" using assms(2)
      by (auto simp: all_achieved_def account_elapsed_def split: option.splits)
    then have "all_done (g_nodes s)" using Some by (auto simp: all_achieved_def all_done_def list_all_iff)
    then have "state_ok (s\<lparr>g_status := Complete, g_pause_message := None\<rparr>)"
      using tracker_okD [OF a Some] by (simp add: state_ok_def)
    with Some a show ?thesis
      by (auto simp: graph_complete_def Let_def tracker_ok_def intro!: state_ok_push)
  qed (use a in \<open>simp add: graph_complete_def Let_def\<close>)
qed

lemma keeps_demote [simp]: "keeps demote_in_flight" "keeps (\<lambda>n. if P n then demote_in_flight n else n)"
  by (simp_all add: keeps_def demote_in_flight_def)

lemma demote_status: "moves (n_status n) (n_status (demote_in_flight n))"
  by (simp add: demote_in_flight_def moves_def live_def in_flight_def)

lemma moves_refl [simp]: "moves st st"
  by (simp add: moves_def)

lemma budget_ok:
  assumes "tracker_ok t"
  shows "tracker_ok (snd (graph_budget_limit ck t))"
proof -
  have a: "tracker_ok (account_elapsed ck t)" using assms by (rule account_elapsed_ok)
  show ?thesis
  proof (cases "t_state (account_elapsed ck t)")
    case (Some s)
    have "state_ok (s\<lparr>g_nodes := map demote_in_flight (g_nodes s)\<rparr>)"
      by (rule state_ok_map [OF tracker_okD [OF a Some]]) (use demote_status in auto)
    then have "state_ok ((s\<lparr>g_nodes := map demote_in_flight (g_nodes s)\<rparr>)\<lparr>g_status := BudgetLimited\<rparr>)"
      by (rule state_ok_status) simp
    then have "state_ok (s\<lparr>g_nodes := map demote_in_flight (g_nodes s), g_current_node := None,
        g_status := BudgetLimited, g_pause_message := None\<rparr>)" by (simp add: state_ok_def)
    with Some a show ?thesis
      by (auto simp: graph_budget_limit_def Let_def tracker_ok_def intro!: state_ok_push)
  qed (use a in \<open>simp add: graph_budget_limit_def Let_def\<close>)
qed

lemma demote_ok: "tracker_ok t \<Longrightarrow> tracker_ok (demote_orphaned_in_flight keep t)"
  unfolding demote_orphaned_in_flight_def
proof (rule recompute_ok, erule on_state_ok)
  fix s assume s: "state_ok s"
  have "state_ok (s\<lparr>g_nodes := map (\<lambda>n. if keep \<noteq> Some (n_id n) then demote_in_flight n else n) (g_nodes s)\<rparr>)"
    by (rule state_ok_map [OF s]) (use demote_status in auto)
  then show "state_ok (s\<lparr>g_nodes := map (\<lambda>n. if keep \<noteq> Some (n_id n) then demote_in_flight n else n) (g_nodes s),
      g_current_node := keep\<rparr>)" by simp
qed

lemma restart_ok: "tracker_ok t \<Longrightarrow> t_state t = Some s \<Longrightarrow> tracker_ok (from_snapshot dir s)"
proof -
  assume "tracker_ok t" "t_state t = Some s"
  then have s: "state_ok s" by (rule tracker_okD)
  define s1 where "s1 = (if g_status s = Active then s\<lparr>g_status := UserPaused, g_pause_message := Some restored_message\<rparr> else s)"
  have "state_ok s1" using s by (auto simp: s1_def intro: state_ok_status)
  then have "state_ok (s1\<lparr>g_nodes := map demote_in_flight (g_nodes s1)\<rparr>)"
    by (rule state_ok_map) (use demote_status in auto)
  then have "tracker_ok \<lparr>t_session_dir = dir, t_state = Some (s1\<lparr>g_nodes := map demote_in_flight (g_nodes s1), g_current_node := None\<rparr>),
      t_last_probe = None\<rparr>" by (simp add: tracker_ok_def)
  then show ?thesis by (simp add: from_snapshot_def s1_def Let_def recompute_ok)
qed

text \<open>Updates of one node that keep its status.\<close>

lemma upd_map': "graph_ok ns \<or> ns = [] \<Longrightarrow> upd i g ns = map (\<lambda>n. if n_id n = i then g n else n) ns"
  by (auto simp: upd_map)

lemma state_ok_upd:
  assumes s: "state_ok s" and k: "keeps g"
    and st: "\<And>n. n \<in> set (g_nodes s) \<Longrightarrow> n_id n = i \<Longrightarrow> moves (n_status n) (n_status (g n))"
  shows "state_ok (s\<lparr>g_nodes := upd i g (g_nodes s)\<rparr>)"
proof -
  have "upd i g (g_nodes s) = map (\<lambda>n. if n_id n = i then g n else n) (g_nodes s)"
    using s by (intro upd_map') (auto simp: state_ok_def)
  then show ?thesis using state_ok_map [OF s keeps_if [OF k]] st by simp
qed

lemma stamp_ok: "tracker_ok t \<Longrightarrow> tracker_ok (stamp_goal_id i gid t)"
  unfolding stamp_goal_id_def by (erule on_state_ok) (rule state_ok_upd; simp add: keeps_def)

lemma charge_ok: "tracker_ok t \<Longrightarrow> tracker_ok (charge_node_tokens i tokens t)"
  unfolding charge_node_tokens_def
proof (erule on_state_ok)
  fix s assume "state_ok s"
  then have "state_ok (s\<lparr>g_nodes := upd i (\<lambda>n. n\<lparr>n_tokens_used := tokens\<rparr>) (g_nodes s)\<rparr>)"
    by (rule state_ok_upd) (simp_all add: keeps_def)
  then show "state_ok (s\<lparr>g_nodes := upd i (\<lambda>n. n\<lparr>n_tokens_used := tokens\<rparr>) (g_nodes s),
      g_tokens_spent_nodes := sat_add_i64 (g_tokens_spent_nodes s) tokens\<rparr>)" by (simp add: state_ok_def)
qed

lemma node_st_live:
  assumes "tracker_ok t" "t_state t = Some s" "node_st i t = Some st" "n \<in> set (g_nodes s)" "n_id n = i"
  shows "n_status n = st"
proof -
  have "graph_ok (g_nodes s)" using tracker_okD [OF assms(1,2)] assms(4) by (auto simp: state_ok_def)
  then have "st_of (g_nodes s) (n_id n) = Some (n_status n)" using st_of_iff assms(4) by simp
  with assms(2,3,5) show ?thesis by (simp add: node_st_def)
qed

lemma run_ok:
  assumes "tracker_ok t" "node_st i t = Some Ready"
  shows "tracker_ok (mark_node_running ck i gid t)"
  unfolding mark_node_running_def
proof (rule on_state_ok [OF assms(1)])
  fix s assume s: "t_state t = Some s" "state_ok s"
  have "state_ok (s\<lparr>g_nodes := upd i (\<lambda>n. n\<lparr>n_status := Running, n_goal_id := Some gid\<rparr>) (g_nodes s)\<rparr>)"
    by (rule state_ok_upd [OF s(2)])
       (use node_st_live [OF assms(1) s(1) assms(2)] in \<open>auto simp: keeps_def moves_def live_def in_flight_def\<close>)
  then have "state_ok (s\<lparr>g_nodes := upd i (\<lambda>n. n\<lparr>n_status := Running, n_goal_id := Some gid\<rparr>) (g_nodes s),
      g_current_node := Some i\<rparr>)" by (simp add: state_ok_def)
  then show "state_ok (push_history (history_now (rfc ck 0) NodeStarted (Some i) None)
      (s\<lparr>g_nodes := upd i (\<lambda>n. n\<lparr>n_status := Running, n_goal_id := Some gid\<rparr>) (g_nodes s), g_current_node := Some i\<rparr>))"
    by (rule state_ok_push)
qed

text \<open>Achieving and failing an in-flight node.\<close>

lemma achieve_ok:
  assumes "tracker_ok t" "node_st i t = Some st" "in_flight st"
  shows "tracker_ok (mark_node_achieved ck i rounds tokens t)"
proof (cases "t_state t")
  case (Some s)
  let ?g = "\<lambda>n. n\<lparr>n_status := Achieved, n_rounds := rounds, n_tokens_used := tokens\<rparr>"
  have s: "state_ok s" using tracker_okD [OF assms(1) Some] .
  have st: "st_of (g_nodes s) i = Some st" using assms(2) Some by (simp add: node_st_def)
  then have ok: "graph_ok (g_nodes s)" using s by (auto simp: state_ok_def st_of_def)
  have k: "keeps ?g" by (simp add: keeps_def)
  have 1: "graph_ok (promote_ready (upd i ?g (g_nodes s)))"
    using graph_ok_achieve [OF ok k] st assms(3) by (simp add: live_def)
  have 2: "g_status s \<noteq> Complete" using s st all_done_not_live assms(3) by (auto simp: state_ok_def in_flight_def)
  have 3: "n_status n \<noteq> Verifying \<and> (n_id n = FINAL_NODE_ID \<longrightarrow> n_status n \<noteq> Failed)"
    if "n \<in> set (promote_ready (upd i ?g (g_nodes s)))" for n
    using that s unfolding upd_map [OF ok] by (auto simp: promote_ready_def state_ok_def split: if_splits)
  have 4: "length (promote_ready (upd i ?g (g_nodes s))) \<le> MAX_GRAPH_NODES + 1"
    using s by (simp add: promote_ready_def state_ok_def)
  show ?thesis unfolding tracker_ok_def mark_node_achieved_def recompute_ready_def
    using Some 1 2 3 4 by (auto simp: state_ok_def)
qed (simp add: mark_node_achieved_def recompute_ready_def tracker_ok_def)

lemma fail_ok:
  assumes "tracker_ok t" "node_st i t = Some st" "in_flight st" "i \<noteq> FINAL_NODE_ID"
  shows "tracker_ok (mark_node_failed ck i detail t)"
proof (cases "t_state t")
  case (Some s)
  let ?g = "\<lambda>n. n\<lparr>n_status := Failed, n_failure := Some detail\<rparr>"
  have s: "state_ok s" using tracker_okD [OF assms(1) Some] .
  have st: "st_of (g_nodes s) i = Some st" using assms(2) Some by (simp add: node_st_def)
  then have ok: "graph_ok (g_nodes s)" using s by (auto simp: state_ok_def st_of_def)
  have F: "failing (g_nodes s) i ?g"
    using ok st assms(3) by (auto simp: failing_def keeps_def live_def)
  have 2: "g_status s \<noteq> Complete" using s st all_done_not_live assms(3) by (auto simp: state_ok_def in_flight_def)
  have 3: "n_status n \<noteq> Verifying \<and> (n_id n = FINAL_NODE_ID \<longrightarrow> n_status n \<noteq> Failed)"
    if "n \<in> set (block_loop i [i] (upd i ?g (g_nodes s)))" for n
    using that s assms(4) unfolding fail_run [OF F] by (auto simp: fail_map_def state_ok_def split: if_splits)
  have 4: "length (block_loop i [i] (upd i ?g (g_nodes s))) \<le> MAX_GRAPH_NODES + 1"
    using s unfolding fail_run [OF F] by (simp add: state_ok_def)
  show ?thesis unfolding tracker_ok_def mark_node_failed_def block_dependents_def
    using Some graph_ok_fail [OF F] 2 3 4 by (auto simp: state_ok_def)
qed (simp add: mark_node_failed_def tracker_ok_def)

text \<open>Installing a plan, an appendix and an optimized node set.\<close>

lemma install_ok:
  assumes "tracker_ok t" "is_active t" "parse_and_validate from_str json obj = Some (Inr nodes)"
  shows "tracker_ok (install_nodes ck nodes t)"
proof (cases "t_state t")
  case (Some s)
  obtain planned order where p: "plan_ok (map dedup_deps planned) order"
    and nodes: "nodes = plan_nodes (map dedup_deps planned) order @
        [final_verification_node obj (plan_nodes (map dedup_deps planned) order)]"
    using assms(3) by (auto simp: parse_and_validate_Inr Let_def)
  have w: "\<forall>n \<in> set nodes. n_status n = Waiting" unfolding nodes by (rule plan_waiting [OF p refl])
  have 1: "graph_ok (promote_ready nodes)"
    using plan_wf [OF p refl, of obj] promote_ready_sched [OF waiting_settled [OF w]]
    by (simp add: graph_ok_def nodes wf_nodes_shape [OF promote_ready_shape] final_gate_shape [OF promote_ready_shape])
  have 2: "n_status n \<noteq> Failed \<and> n_status n \<noteq> Verifying" if "n \<in> set (promote_ready nodes)" for n
    using that w by (auto simp: promote_ready_def split: if_splits)
  have 3: "length (promote_ready nodes) \<le> MAX_GRAPH_NODES + 1"
    using p plan_okD(5) [OF p] by (simp add: nodes promote_ready_def plan_nodes_def plan_ok_def)
  show ?thesis unfolding tracker_ok_def install_nodes_def recompute_ready_def
    using Some 1 2 3 assms(2) by (auto simp: state_ok_def is_active_def graph_status_def)
qed (simp add: install_nodes_def recompute_ready_def tracker_ok_def)

text \<open>An accepted replan, seen through the specification of \<open>Graph_Replan\<close>.\<close>

lemma replan_step_nodes:
  assumes "tracker_ok t" "t_state t = Some s" "replan_ready t" "validate_replan from_str (nodes_of t) json = Some (Inr new)"
  obtains ps where "replanning (g_nodes s) ps" "new = map (replan_graph_node (node_ids (g_nodes s))) ps"
    "length ps + length (g_nodes s) \<le> MAX_GRAPH_NODES + 1"
    "update_first (\<lambda>n. n_id n = FINAL_NODE_ID) (regate_final (map n_id new)) (g_nodes s @ new) = appended (g_nodes s) ps"
proof -
  let ?ns = "g_nodes s"
  have s: "state_ok s" using tracker_okD [OF assms(1,2)] .
  obtain st where st: "st_of ?ns FINAL_NODE_ID = Some st" "st \<noteq> Achieved" "\<not> in_flight st"
    using assms(2,3) by (auto simp: replan_ready_def node_st_def split: option.splits)
  then have ok: "graph_ok ?ns" using s by (auto simp: state_ok_def st_of_def)
  obtain ps where ps: "replan_ok ?ns ps" "new = map (replan_graph_node (node_ids ?ns)) ps"
    "acyclic (edges ?ns \<union> replan_edges (node_ids ?ns) ps)" "length ps + length ?ns \<le> MAX_GRAPH_NODES + 1"
    using validate_replan_ok [of ?ns from_str json new] ok assms(2,4) by (auto simp: graph_ok_def nodes_of_def)
  have "n_status n = Waiting \<or> n_status n = Ready \<or> n_status n = NodeBlocked"
    if n: "n \<in> set ?ns" "n_id n = FINAL_NODE_ID" for n
  proof -
    have "n_status n = st" using st_of_iff [OF graph_ok_distinct [OF ok] n(1)] n(2) st(1) by simp
    moreover have "n_status n \<noteq> Failed" using s n by (auto simp: state_ok_def)
    ultimately show ?thesis using st(2,3) by (cases st) (auto simp: in_flight_def)
  qed
  then have "replanning ?ns ps" using ok ps by (simp add: replanning_def)
  moreover have "map n_id new = replan_ids ps" by (simp add: ps(2) replan_ids_def)
  ultimately show ?thesis using that ps(2,4) appended_eq [OF ok ps(1)] by simp
qed

lemma replan_ok_step:
  assumes "tracker_ok t" "is_active t" "replan_ready t" "validate_replan from_str (nodes_of t) json = Some (Inr new)"
  shows "tracker_ok (append_replan_nodes ck new t)"
proof (cases "t_state t")
  case (Some s)
  let ?ns = "g_nodes s"
  have s: "state_ok s" using tracker_okD [OF assms(1) Some] .
  obtain ps where R: "replanning ?ns ps" "new = map (replan_graph_node (node_ids ?ns)) ps"
    "length ps + length ?ns \<le> MAX_GRAPH_NODES + 1"
    "update_first (\<lambda>n. n_id n = FINAL_NODE_ID) (regate_final (map n_id new)) (?ns @ new) = appended ?ns ps"
    using replan_step_nodes [OF assms(1) Some assms(3,4)] .
  have "n_status n \<noteq> Verifying \<and> (n_id n = FINAL_NODE_ID \<longrightarrow> n_status n \<noteq> Failed)" if "n \<in> set ?ns" for n
    using s that by (auto simp: state_ok_def)
  then have 2: "n_status n \<noteq> Verifying \<and> (n_id n = FINAL_NODE_ID \<longrightarrow> n_status n \<noteq> Failed)"
    if "n \<in> set (promote_ready (appended ?ns ps))" for n
    using that by (auto simp: promote_ready_def appended_def split: if_splits)
  have 3: "length (promote_ready (appended ?ns ps)) \<le> MAX_GRAPH_NODES + 1"
    using R(3) by (simp add: promote_ready_def appended_def)
  show ?thesis unfolding tracker_ok_def append_replan_nodes_def recompute_ready_def Let_def
    using Some graph_ok_append [OF R(1)] 2 3 assms(2) R(4) by (auto simp: state_ok_def is_active_def graph_status_def)
qed (simp add: append_replan_nodes_def recompute_ready_def tracker_ok_def)

lemma optimize_ok:
  assumes "tracker_ok t" "is_active t" "nodes_of t \<noteq> []"
    "apply_optimization op_from_str (nodes_of t) json = Inr (Some nodes)"
  shows "tracker_ok (install_optimized_nodes ck nodes t)"
proof (cases "t_state t")
  case (Some s)
  have s: "state_ok s" using tracker_okD [OF assms(1) Some] .
  have ok: "graph_ok (g_nodes s)" using s assms(3) Some by (auto simp: state_ok_def nodes_of_def)
  obtain ed where O: "optimized (g_nodes s) ed" "nodes = finished ed"
    using apply_optimization_Some [OF ok, of op_from_str json nodes] assms(4) Some unfolding nodes_of_def by auto
  have 1: "graph_ok (promote_ready nodes)" using graph_ok_promote graph_ok_optimized [OF O(1)] O(2) by simp
  have fv: "(n_id n, n_status n) \<in> frozen_view (g_nodes s)" if "n \<in> set nodes" "\<not> is_pending (n_status n)" for n
    using that O(2) optimizedD(3,6) [OF O(1)] by (fastforce simp: frozen_view_def is_pending_def split: if_splits)
  have "n_status n \<noteq> Verifying \<and> (n_id n = FINAL_NODE_ID \<longrightarrow> n_status n \<noteq> Failed)" if n: "n \<in> set nodes" for n
  proof (cases "is_pending (n_status n)")
    case False
    from fv [OF n False] s show ?thesis by (auto simp: frozen_view_def state_ok_def)
  qed (auto simp: is_pending_def)
  then have 2: "n_status n \<noteq> Verifying \<and> (n_id n = FINAL_NODE_ID \<longrightarrow> n_status n \<noteq> Failed)"
    if "n \<in> set (promote_ready nodes)" for n
    using that by (auto simp: promote_ready_def split: if_splits)
  have 3: "length (promote_ready nodes) \<le> MAX_GRAPH_NODES + 1"
    using O by (simp add: promote_ready_def optimized_def)
  show ?thesis unfolding tracker_ok_def install_optimized_nodes_def recompute_ready_def Let_def
    using Some 1 2 3 assms(2) by (auto simp: state_ok_def is_active_def graph_status_def)
qed (simp add: install_optimized_nodes_def recompute_ready_def tracker_ok_def)

lemma graph_step_ok: "graph_step t t' \<Longrightarrow> tracker_ok t \<Longrightarrow> tracker_ok t'"
proof (induction rule: graph_step.induct)
  case (fail i t st ck detail)
  then show ?case using fail_ok by blast
qed (blast intro: create_ok step_simple_ok install_ok run_ok stamp_ok achieve_ok charge_ok pause_ok resume_ok
       complete_ok budget_ok account_elapsed_ok queue_ok replan_ok_step optimize_ok demote_ok restart_ok)+

lemma tracker_ok_new: "tracker_ok (graph_tracker_new dir)"
  by (simp add: tracker_ok_def graph_tracker_new_def)

lemma graph_reach_run: "graph_reach t \<Longrightarrow> \<exists>dir. graph_step\<^sup>*\<^sup>* (graph_tracker_new dir) t"
  by (induction rule: graph_reach.induct) (auto intro: rtranclp.rtrancl_into_rtrancl)

interpretation tracker: invariant_system "\<lambda>t. \<exists>dir. t = graph_tracker_new dir" graph_step tracker_ok
  by unfold_locales (auto intro: tracker_ok_new graph_step_ok)

lemma graph_reach_ok: "graph_reach t \<Longrightarrow> tracker_ok t"
  using graph_reach_run tracker.inv_run by blast

section \<open>Failure is final\<close>

lemma st_of_map:
  assumes "\<And>n. n_id (f n) = n_id n" "st_of ns i = Some st" "\<And>n. n \<in> set ns \<Longrightarrow> n_status n = st \<Longrightarrow> n_status (f n) = st"
  shows "st_of (map f ns) i = Some st"
proof -
  obtain n where n: "find (\<lambda>n. n_id n = i) ns = Some n" "n_status n = st" using assms(2) by (auto simp: st_of_def)
  have "find (\<lambda>n. n_id n = i) (map f ns) = map_option f (find (\<lambda>n. n_id n = i) ns)"
    by (induction ns) (simp_all add: assms(1))
  moreover have "n \<in> set ns" using n(1) by (auto simp: find_Some_iff)
  ultimately show ?thesis using n assms(3) by (simp add: st_of_def)
qed

lemma st_of_append: "st_of xs i = Some st \<Longrightarrow> st_of (xs @ ys) i = Some st"
  unfolding st_of_def by (induction xs) auto

lemma st_of_promote: "st_of ns i = Some Failed \<Longrightarrow> st_of (promote_ready ns) i = Some Failed"
  unfolding promote_ready_def by (rule st_of_map) auto

definition still_failed :: "string \<Rightarrow> graph_tracker \<Rightarrow> bool" where
  "still_failed i t \<longleftrightarrow> t_state t = None \<or> node_st i t = Some Failed"

lemma still_failed_recompute: "still_failed i t \<Longrightarrow> still_failed i (recompute_ready t)"
  by (auto simp: still_failed_def recompute_ready_def node_st_def st_of_promote split: option.splits)

lemma still_failed_on_state:
  "node_st i t = Some Failed \<Longrightarrow>
     (\<And>s. t_state t = Some s \<Longrightarrow> st_of (g_nodes s) i = Some Failed \<Longrightarrow> st_of (g_nodes (f s)) i = Some Failed) \<Longrightarrow>
     still_failed i (on_state f t)"
  by (auto simp: still_failed_def node_st_def split: option.splits)

lemma still_failed_same:
  "node_st i t = Some Failed \<Longrightarrow> map_option g_nodes (t_state t') = map_option g_nodes (t_state t) \<Longrightarrow> still_failed i t'"
  by (auto simp: still_failed_def node_st_def split: option.splits)

lemma upd_keeps_failed:
  assumes "state_ok s" "st_of (g_nodes s) i = Some Failed" "\<And>n. n_id (g n) = n_id n"
    and "\<And>n. n \<in> set (g_nodes s) \<Longrightarrow> n_id n = j \<Longrightarrow> n_status n = Failed \<Longrightarrow> n_status (g n) = Failed"
  shows "st_of (upd j g (g_nodes s)) i = Some Failed"
proof -
  have "graph_ok (g_nodes s)" using assms(1,2) by (auto simp: state_ok_def st_of_def)
  then show ?thesis unfolding upd_map [OF \<open>graph_ok (g_nodes s)\<close>]
    using assms(2-4) by (intro st_of_map) auto
qed

lemma queue_from_nodes: "g_nodes (queue_from ck k ds s) = g_nodes s"
  by (induction ck k ds s rule: queue_from.induct) (simp_all add: Let_def)

lemma account_elapsed_nodes: "map_option g_nodes (t_state (account_elapsed ck t)) = map_option g_nodes (t_state t)"
  by (auto simp: account_elapsed_def split: option.splits)

lemma demote_failed: "st_of ns i = Some Failed \<Longrightarrow> st_of (map demote_in_flight ns) i = Some Failed"
  by (rule st_of_map) (auto simp: demote_in_flight_def)

lemma failed_sticky_simple:
  assumes "node_st i t = Some Failed"
  shows "still_failed i (record_planning_failed ck detail t)" "still_failed i (clear_current_node t)"
    "still_failed i (append_history e t)" "still_failed i (bump_replan_runs t)" "still_failed i (graph_clear t)"
    "still_failed i (snd (drain_discoveries_to_history t))" "still_failed i (queue_discoveries ck ds t)"
    "still_failed i (account_elapsed ck t)" "still_failed i (snd (graph_pause_inner ck reason msg t))"
    "still_failed i (snd (graph_complete ck t))"
proof -
  show "still_failed i (account_elapsed ck t)"
    using still_failed_same [OF assms account_elapsed_nodes] .
  then have a: "t_state (account_elapsed ck t) \<noteq> None \<Longrightarrow> node_st i (account_elapsed ck t) = Some Failed"
    by (auto simp: still_failed_def)
  show "still_failed i (snd (graph_pause_inner ck reason msg t))" "still_failed i (snd (graph_complete ck t))"
    using a by (auto simp: graph_pause_inner_def graph_complete_def Let_def still_failed_def node_st_def split: option.splits)
qed (use assms in \<open>auto simp: record_planning_failed_def clear_current_node_def append_history_def bump_replan_runs_def
      graph_clear_def drain_discoveries_to_history_def queue_discoveries_def queue_from_nodes
      still_failed_def node_st_def split: option.splits\<close>)

lemma failed_sticky_resume:
  assumes "node_st i t = Some Failed"
  shows "still_failed i (snd (graph_resume ck t))" "still_failed i (snd (resume_budget_limited ck extra t))"
    "still_failed i (demote_orphaned_in_flight keep t)" "still_failed i (snd (graph_budget_limit ck t))"
    "t_state t = Some s \<Longrightarrow> still_failed i (from_snapshot dir s)"
proof -
  show "still_failed i (snd (graph_resume ck t))" "still_failed i (snd (resume_budget_limited ck extra t))"
    using assms by (auto simp: graph_resume_def resume_budget_limited_def node_st_def still_failed_def
        recompute_ready_def st_of_promote split: option.splits)
  show "still_failed i (demote_orphaned_in_flight keep t)"
    unfolding demote_orphaned_in_flight_def
    by (rule still_failed_recompute, rule still_failed_on_state [OF assms])
       (auto simp: demote_in_flight_def intro!: st_of_map)
  have "still_failed i (account_elapsed ck t)" by (rule failed_sticky_simple(8) [OF assms])
  then show "still_failed i (snd (graph_budget_limit ck t))"
    by (auto simp: graph_budget_limit_def Let_def still_failed_def node_st_def demote_failed split: option.splits)
  show "still_failed i (from_snapshot dir s)" if "t_state t = Some s"
    using assms that unfolding from_snapshot_def Let_def
    by (intro still_failed_recompute) (auto simp: still_failed_def node_st_def demote_failed)
qed

lemma failed_sticky_nodes:
  assumes ok: "tracker_ok t" and f: "node_st i t = Some Failed"
  shows "still_failed i (stamp_goal_id j gid t)" "still_failed i (charge_node_tokens j tokens t)"
    "node_st j t = Some Ready \<Longrightarrow> still_failed i (mark_node_running ck j gid t)"
    "node_st j t = Some st \<Longrightarrow> in_flight st \<Longrightarrow> still_failed i (mark_node_achieved ck j rounds tokens t)"
proof -
  have u: "st_of (upd j g (g_nodes s)) i = Some Failed"
    if "t_state t = Some s" "\<And>n. n_id (g n) = n_id n" "(\<exists>st. node_st j t = Some st \<and> st \<noteq> Failed) \<or> (\<forall>n. n_status (g n) = n_status n)"
    for g s
    by (rule upd_keeps_failed [OF tracker_okD [OF ok that(1)] _ that(2)])
       (use f that node_st_live [OF ok that(1)] in \<open>auto simp: node_st_def\<close>)
  show "still_failed i (stamp_goal_id j gid t)" "still_failed i (charge_node_tokens j tokens t)"
    unfolding stamp_goal_id_def charge_node_tokens_def by (rule still_failed_on_state [OF f], simp add: u)+
  show "still_failed i (mark_node_running ck j gid t)" if "node_st j t = Some Ready"
    unfolding mark_node_running_def by (rule still_failed_on_state [OF f]) (simp add: u that)
  show "still_failed i (mark_node_achieved ck j rounds tokens t)" if "node_st j t = Some st" "in_flight st"
    unfolding mark_node_achieved_def
    by (rule still_failed_recompute, rule still_failed_on_state [OF f]) (use that in \<open>auto simp: u in_flight_def\<close>)
qed

lemma failed_sticky_fail:
  assumes ok: "tracker_ok t" and f: "node_st i t = Some Failed" and j: "node_st j t = Some st" "in_flight st"
  shows "still_failed i (mark_node_failed ck j detail t)"
  unfolding mark_node_failed_def block_dependents_def
proof (rule still_failed_on_state [OF f])
  fix s assume s: "t_state t = Some s" "st_of (g_nodes s) i = Some Failed"
  let ?g = "\<lambda>n. n\<lparr>n_status := Failed, n_failure := Some detail\<rparr>"
  have g: "graph_ok (g_nodes s)" using tracker_okD [OF ok s(1)] s(2) by (auto simp: state_ok_def st_of_def)
  have F: "failing (g_nodes s) j ?g"
    using g j s(1) by (auto simp: failing_def keeps_def live_def node_st_def)
  have "st_of (map (fail_map (g_nodes s) j ?g) (g_nodes s)) i = Some Failed"
    by (rule st_of_map [OF keepsD(1) [OF keeps_fail_map [OF F]] s(2)])
       (auto simp: fail_map_def dest: fail_set_waiting [OF F])
  then show "st_of (g_nodes (on_nodes (block_loop j [j]) (push_history (history_now (rfc ck 0) NodeFailed (Some j) (Some detail))
      (s\<lparr>g_nodes := upd j ?g (g_nodes s), g_current_node := None\<rparr>)))) i = Some Failed"
    by (simp add: fail_run [OF F])
qed

lemma st_of_regate: "st_of ns i = Some Failed \<Longrightarrow> st_of (update_first p (regate_final is) ns) i = Some Failed"
  by (induction ns) (auto simp: st_of_def regate_final_def split: if_splits)

lemma failed_sticky_replan:
  "node_st i t = Some Failed \<Longrightarrow> still_failed i (append_replan_nodes ck new t)"
  unfolding append_replan_nodes_def Let_def
  by (rule still_failed_recompute, erule still_failed_on_state) (simp add: st_of_regate st_of_append)

lemma failed_sticky_optimize:
  assumes ok: "tracker_ok t" and f: "node_st i t = Some Failed"
    and a: "apply_optimization op_from_str (nodes_of t) json = Inr (Some nodes)"
  shows "still_failed i (install_optimized_nodes ck nodes t)"
proof -
  obtain s where s: "t_state t = Some s" "st_of (g_nodes s) i = Some Failed"
    using f by (auto simp: node_st_def split: option.splits)
  have so: "state_ok s" using tracker_okD [OF ok s(1)] .
  have g: "graph_ok (g_nodes s)" using so s(2) by (auto simp: state_ok_def st_of_def)
  obtain ed where O: "optimized (g_nodes s) ed" "nodes = finished ed"
    using apply_optimization_Some [OF g, of op_from_str json nodes] a s(1) unfolding nodes_of_def by auto
  obtain n where n: "n \<in> set (g_nodes s)" "n_id n = i" "n_status n = Failed"
    using s(2) unfolding st_of_def by (auto simp: find_Some_iff) (metis nth_mem)
  then have "n_id n \<noteq> FINAL_NODE_ID" using so by (auto simp: state_ok_def)
  then have "n \<in> set nodes" using O n by (auto simp: optimized_def is_pending_def)
  then have "st_of nodes i = Some Failed"
    using st_of_iff [OF graph_ok_distinct [OF graph_ok_optimized [OF O(1)]], of n] O(2) n by simp
  then show ?thesis unfolding install_optimized_nodes_def Let_def
    by (intro still_failed_recompute still_failed_on_state [OF f]) simp
qed

lemma failed_sticky:
  assumes "graph_step t t'" "tracker_ok t" "node_st i t = Some Failed"
  shows "still_failed i t'"
  using assms
proof (induction rule: graph_step.induct)
  case (create t ck gid obj budget created)
  then have False
    using all_done_not_live by (auto simp: graph_status_def node_st_def tracker_ok_def state_ok_def split: option.splits)
  then show ?case ..
next
  case (install t from_str json obj nodes ck)
  then show ?case by (auto simp: nodes_of_def node_st_def st_of_def split: option.splits)
qed (blast intro: failed_sticky_simple failed_sticky_resume failed_sticky_nodes failed_sticky_fail
       failed_sticky_replan failed_sticky_optimize)+

lemma failed_forever:
  assumes "graph_reach t" "node_st i t = Some Failed"
    and "(\<lambda>a b. graph_step a b \<and> t_state b \<noteq> None)\<^sup>*\<^sup>* t t'"
  shows "graph_reach t' \<and> node_st i t' = Some Failed"
  using assms(3)
proof (induction rule: rtranclp_induct)
  case (step t1 t2)
  then have "graph_reach t2" by (blast intro: graph_reach.step)
  with step failed_sticky [of t1 t2 i] graph_reach_ok show ?case by (auto simp: still_failed_def)
qed (use assms in auto)

section \<open>Reading the invariant off reachable trackers\<close>

lemma reach_state: "graph_reach t \<Longrightarrow> t_state t = Some s \<Longrightarrow> state_ok s"
  using graph_reach_ok tracker_okD by blast

lemma nodes_of_state: "nodes_of t \<noteq> [] \<Longrightarrow> \<exists>s. t_state t = Some s \<and> nodes_of t = g_nodes s"
  by (auto simp: nodes_of_def split: option.splits)

lemma reach_graph_ok: "graph_reach t \<Longrightarrow> nodes_of t \<noteq> [] \<Longrightarrow> graph_ok (nodes_of t)"
  using nodes_of_state [of t] reach_state [of t] unfolding state_ok_def by metis

lemma reach_mem_ok: "graph_reach t \<Longrightarrow> n \<in> set (nodes_of t) \<Longrightarrow> graph_ok (nodes_of t)"
  using reach_graph_ok by fastforce

lemma node_st_nodes: "node_st i t = st_of (nodes_of t) i"
  by (auto simp: node_st_def nodes_of_def st_of_def split: option.splits)

lemma reach_node_st: "graph_reach t \<Longrightarrow> n \<in> set (nodes_of t) \<Longrightarrow> node_st (n_id n) t = Some (n_status n)"
  unfolding node_st_nodes using st_of_iff reach_mem_ok by simp

lemma reach_status:
  "graph_reach t \<Longrightarrow> n \<in> set (nodes_of t) \<Longrightarrow> n_status n \<noteq> Verifying \<and> (n_id n = FINAL_NODE_ID \<longrightarrow> n_status n \<noteq> Failed)"
  using nodes_of_state [of t] reach_state [of t] unfolding state_ok_def by (metis empty_iff empty_set)

lemma st_of_SomeD: "st_of ns i = Some st \<Longrightarrow> \<exists>n \<in> set ns. n_id n = i \<and> n_status n = st"
  unfolding st_of_def by (auto simp: find_Some_iff)

end
