(* ===== verification/Rust_Text.thy ===== *)
theory Rust_Text
  imports Rust_Str "HOL-Library.Char_ord" "HOL-Library.List_Lexorder"
begin

text \<open>
  The rest of \<open>str\<close>: searching, replacing, splitting, ASCII case and truncation at character
  boundaries.  Strings are UTF-8 bytes; a character starts at every byte that is not a
  continuation byte.  The order on strings is the byte order of Rust's \<open>Ord\<close> for \<open>str\<close>.

  The lemmas on \<open>replace_str\<close> are about tags: when every replaced text starts with \<open><\<close> and the
  replacement breaks the tag, no tag is left and none appears.
\<close>

section \<open>Searching and replacing\<close>

definition em_dash :: string where
  "em_dash = [CHR 0xE2, CHR 0x80, CHR 0x94]"

definition contains_str :: "string \<Rightarrow> string \<Rightarrow> bool" where
  "contains_str pat s \<longleftrightarrow> sublist pat s"

text \<open>\<open>str::replace\<close>: every non-overlapping match from the left.\<close>

function replace_str :: "string \<Rightarrow> string \<Rightarrow> string \<Rightarrow> string" where
  "replace_str pat rep [] = []"
| "replace_str pat rep (c # cs) =
     (if pat \<noteq> [] \<and> prefix pat (c # cs) then rep @ replace_str pat rep (drop (length pat) (c # cs))
      else c # replace_str pat rep cs)"
  by pat_completeness auto
termination
  by (relation "measure (\<lambda>(p, r, s). length s)") auto

section \<open>Splitting\<close>

text \<open>\<open>split(char::is_whitespace)\<close>: empty pieces are kept; \<open>cur\<close> is the current piece, reversed.\<close>

function split_ws_from :: "string \<Rightarrow> string \<Rightarrow> string list" where
  "split_ws_from cur s =
     (if s = [] then [rev cur]
      else if ws_prefix s = 0 then split_ws_from (hd s # cur) (tl s)
      else rev cur # split_ws_from [] (drop (ws_prefix s) s))"
  by pat_completeness auto
termination
  by (relation "measure (\<lambda>(cur, s). length s)") auto

declare split_ws_from.simps [simp del]

definition split_ws :: "string \<Rightarrow> string list" where
  "split_ws s = split_ws_from [] s"

definition split_whitespace :: "string \<Rightarrow> string list" where
  "split_whitespace s = filter (\<lambda>t. t \<noteq> []) (split_ws s)"

text \<open>\<open>split_once(c)\<close>.\<close>

definition split_once :: "char \<Rightarrow> string \<Rightarrow> (string \<times> string) option" where
  "split_once c s =
     (if c \<in> set s then Some (takeWhile (\<lambda>x. x \<noteq> c) s, tl (dropWhile (\<lambda>x. x \<noteq> c) s)) else None)"

text \<open>\<open>trim_matches(pred)\<close> for a predicate that holds of every non-ASCII character or of none.\<close>

definition trim_pred :: "(char \<Rightarrow> bool) \<Rightarrow> string \<Rightarrow> string" where
  "trim_pred p s = rev (dropWhile p (rev (dropWhile p s)))"

definition trim_end_pred :: "(char \<Rightarrow> bool) \<Rightarrow> string \<Rightarrow> string" where
  "trim_end_pred p s = rev (dropWhile p (rev s))"

section \<open>ASCII case and digits\<close>

definition ascii_lower :: "char \<Rightarrow> char" where
  "ascii_lower c = (if byte_in 0x41 0x5A c then char_of (of_char c + 32 :: nat) else c)"

definition to_ascii_lowercase :: "string \<Rightarrow> string" where
  "to_ascii_lowercase s = map ascii_lower s"

definition eq_ignore_ascii_case :: "string \<Rightarrow> string \<Rightarrow> bool" where
  "eq_ignore_ascii_case a b \<longleftrightarrow> to_ascii_lowercase a = to_ascii_lowercase b"

definition ascii_digit :: "char \<Rightarrow> bool" where
  "ascii_digit c \<longleftrightarrow> byte_in 0x30 0x39 c"

section \<open>Characters\<close>

definition utf8_cont :: "char \<Rightarrow> bool" where
  "utf8_cont c \<longleftrightarrow> byte_in 0x80 0xBF c"

text \<open>\<open>char_indices().nth(n)\<close>: the byte offset of the \<open>n\<close>-th character.\<close>

fun nth_char_start :: "nat \<Rightarrow> string \<Rightarrow> nat option" where
  "nth_char_start n [] = None"
| "nth_char_start n (c # cs) =
     (if utf8_cont c then map_option Suc (nth_char_start n cs)
      else case n of 0 \<Rightarrow> Some 0 | Suc m \<Rightarrow> map_option Suc (nth_char_start m cs))"

text \<open>\<open>chars().take(n).collect()\<close>.\<close>

definition take_chars :: "nat \<Rightarrow> string \<Rightarrow> string" where
  "take_chars n s = (case nth_char_start n s of Some i \<Rightarrow> take i s | None \<Rightarrow> s)"

definition count_chars :: "string \<Rightarrow> nat" where
  "count_chars s = length (filter (\<lambda>c. \<not> utf8_cont c) s)"

text \<open>\<open>is_char_boundary\<close>, and the walk back to the last boundary at or below an offset.\<close>

definition is_char_boundary :: "string \<Rightarrow> nat \<Rightarrow> bool" where
  "is_char_boundary s i \<longleftrightarrow> i = 0 \<or> i = length s \<or> i < length s \<and> \<not> utf8_cont (s ! i)"

fun floor_boundary :: "string \<Rightarrow> nat \<Rightarrow> nat" where
  "floor_boundary s 0 = 0"
| "floor_boundary s (Suc i) = (if is_char_boundary s (Suc i) then Suc i else floor_boundary s i)"

section \<open>Lemmas\<close>

lemma nth_char_start_count: "nth_char_start n s = Some i \<Longrightarrow> count_chars (take i s) = n \<and> i < length s"
proof (induction n s arbitrary: i rule: nth_char_start.induct)
  case (2 n c cs)
  then show ?case by (cases n) (auto simp: count_chars_def split: if_splits)
qed simp

lemma nth_char_start_None: "nth_char_start n s = None \<Longrightarrow> count_chars s \<le> n"
proof (induction n s rule: nth_char_start.induct)
  case (2 n c cs)
  then show ?case by (cases n) (auto simp: count_chars_def split: if_splits)
qed (simp add: count_chars_def)

lemma take_chars_bound: "count_chars (take_chars n s) \<le> n"
  using nth_char_start_count nth_char_start_None by (auto simp: take_chars_def split: option.splits)

lemma take_chars_prefix: "prefix (take_chars n s) s"
  by (auto simp: take_chars_def take_is_prefix split: option.splits)

lemma floor_boundary_le: "floor_boundary s i \<le> i"
  by (induction s i rule: floor_boundary.induct) auto

lemma floor_boundary_boundary: "is_char_boundary s (floor_boundary s i)"
  by (induction s i rule: floor_boundary.induct) (auto simp: is_char_boundary_def)

subsection \<open>Breaking tags\<close>

text \<open>\<open>q\<close> starts nowhere inside \<open>r\<close>, whatever follows \<open>r\<close>.\<close>

definition avoids :: "string \<Rightarrow> string \<Rightarrow> bool" where
  "avoids q r \<longleftrightarrow> (\<forall>u t. suffix u r \<longrightarrow> u \<noteq> [] \<longrightarrow> \<not> prefix q (u @ t))"

lemma avoids_Nil [simp]: "avoids q []"
  by (simp add: avoids_def)

lemma avoids_Cons: "(\<And>t. \<not> prefix q (c # r @ t)) \<Longrightarrow> avoids q r \<Longrightarrow> avoids q (c # r)"
  by (auto simp: avoids_def suffix_Cons)

lemma avoids_append:
  "avoids q r \<Longrightarrow> q \<noteq> [] \<Longrightarrow> \<not> sublist q t \<Longrightarrow> \<not> sublist q (r @ t)"
proof (induction r)
  case (Cons c r)
  then have "avoids q r" by (auto simp: avoids_def suffix_Cons)
  moreover have "\<not> prefix q (c # r @ t)" using Cons.prems(1) by (force simp: avoids_def)
  ultimately show ?case using Cons by (simp add: sublist_Cons_right)
qed simp

text \<open>Text before the first \<open>x\<close> is not touched when pattern and replacement start with \<open>x\<close>.\<close>

lemma replace_str_prefix_keep:
  assumes "x \<notin> set p" "prefix p (replace_str (x # pat) (x # rep) s)"
  shows "prefix p s"
  using assms
proof (induction p arbitrary: s)
  case (Cons a p)
  then show ?case by (cases s) (auto split: if_splits)
qed simp

lemma replace_str_no_new:
  assumes q: "q = x # p" "x \<notin> set p" and r: "avoids q (x # rep)" and s: "\<not> sublist q s \<or> q = x # pat"
  shows "\<not> sublist q (replace_str (x # pat) (x # rep) s)"
  using s
proof (induction s rule: length_induct)
  case (1 s)
  show ?case
  proof (cases s)
    case (Cons c cs)
    have tail: "\<not> sublist q t \<or> q = x # pat" if "suffix t s" for t
      using 1(2) that by (metis suffix_imp_sublist sublist_order.order_trans)
    show ?thesis
    proof (cases "prefix (x # pat) s")
      case True
      have "length (drop (length (x # pat)) s) < length s" by (simp add: Cons)
      then have "\<not> sublist q (replace_str (x # pat) (x # rep) (drop (length (x # pat)) s))"
        using 1(1) tail [OF suffix_drop] by blast
      moreover have "replace_str (x # pat) (x # rep) s = (x # rep) @ replace_str (x # pat) (x # rep) (drop (length (x # pat)) s)"
        using True unfolding Cons by simp
      ultimately show ?thesis using avoids_append [OF r] q(1) by simp
    next
      case False
      have "suffix cs s" by (simp add: Cons suffix_ConsI)
      then have cs: "\<not> sublist q (replace_str (x # pat) (x # rep) cs)" using 1(1) tail Cons by simp
      have "\<not> prefix q (c # replace_str (x # pat) (x # rep) cs)"
      proof
        assume "prefix q (c # replace_str (x # pat) (x # rep) cs)"
        then have "prefix q s" using q replace_str_prefix_keep [OF q(2)] by (auto simp: Cons)
        then show False using False 1(2) by (auto dest: prefix_imp_sublist)
      qed
      moreover have "replace_str (x # pat) (x # rep) s = c # replace_str (x # pat) (x # rep) cs"
        using False unfolding Cons by auto
      ultimately show ?thesis using cs by (simp add: sublist_Cons_right)
    qed
  qed (use q in simp)
qed

end
