(* ===== verification/Graph_Workers.thy ===== *)
theory Graph_Workers
  imports Graph_Tracker Rust_Text
begin

text \<open>
  The parallel node workers, \<open>session/acp_session_impl/graph_workers.rs\<close>: the terminal-line
  parsers, the prompts, and the bounded worker and verifier rounds of \<open>run_node_to_verdict\<close>.
  The subagent coordinator is the argument \<open>spawn\<close>, which answers a spawn request by its id
  and specification; \<open>fresh i\<close> is the \<open>i\<close>-th UUID of the run; \<open>dbg\<close> is the \<open>Debug\<close> rendering
  of a string.  The prompt templates are arguments too.
\<close>

section \<open>Parsing the terminal lines\<close>

datatype worker_claim = Done string | ClaimBlocked string | Unparseable

text \<open>Lines inside triple-backtick fences are dropped; the fence lines themselves too.\<close>

fun keep_unfenced :: "bool \<Rightarrow> string list \<Rightarrow> string" where
  "keep_unfenced in_fence [] = []"
| "keep_unfenced in_fence (l # ls) =
     (if prefix [backtick, backtick, backtick] (trim_start l) then keep_unfenced (\<not> in_fence) ls
      else if \<not> in_fence then l @ [nl] @ keep_unfenced in_fence ls
      else keep_unfenced in_fence ls)"

definition strip_fenced_blocks :: "string \<Rightarrow> string" where
  "strip_fenced_blocks output = keep_unfenced False (lines output)"

definition starts_marker :: "string \<Rightarrow> string \<Rightarrow> bool" where
  "starts_marker marker l \<longleftrightarrow> prefix marker (trim_start_char backtick (trim_start l))"

text \<open>\<open>rposition\<close>.\<close>

fun rposition :: "('a \<Rightarrow> bool) \<Rightarrow> 'a list \<Rightarrow> nat option" where
  "rposition p [] = None"
| "rposition p (x # xs) =
     (case rposition p xs of Some i \<Rightarrow> Some (Suc i) | None \<Rightarrow> if p x then Some 0 else None)"

definition last_marker_line :: "string \<Rightarrow> string \<Rightarrow> (string \<times> string) option" where
  "last_marker_line output marker =
     (let ls = lines output
      in map_option (\<lambda>idx.
           (trim_char backtick (trim (trim_start_str marker (trim_start_char backtick (trim_start (ls ! idx))))),
            trim (join [nl] (drop (Suc idx) ls))))
         (rposition (starts_marker marker) ls))"

definition parse_worker_claim :: "string \<Rightarrow> worker_claim" where
  "parse_worker_claim output =
     (case last_marker_line (strip_fenced_blocks output) ''NODE_RESULT:'' of
        None \<Rightarrow> Unparseable
      | Some (value, tail) \<Rightarrow>
          if value = ''done'' then Done tail
          else if value = ''blocked''
          then ClaimBlocked (if tail = [] then ''no reason given'' else tail)
          else Unparseable)"

datatype node_verdict = VerdictAchieved | NotAchieved "string list"

definition gap_lines :: "string \<Rightarrow> string list" where
  "gap_lines tail =
     filter (\<lambda>l. l \<noteq> [])
       (map (\<lambda>l. trim (trim_start_char (CHR ''-'') l))
         (filter (\<lambda>l. l \<noteq> [] \<and> l \<noteq> ''GAPS:'') (map trim (lines tail))))"

definition parse_node_verdict :: "(string \<Rightarrow> string) \<Rightarrow> string \<Rightarrow> node_verdict" where
  "parse_node_verdict dbg output =
     (case last_marker_line (strip_fenced_blocks output) ''NODE_VERDICT:'' of
        None \<Rightarrow> NotAchieved [''verifier response lacked a NODE_VERDICT line'']
      | Some (value, tail) \<Rightarrow>
          if value = ''achieved'' then VerdictAchieved
          else if value = ''not_achieved''
          then NotAchieved (let gaps = gap_lines tail
                            in if gaps = [] then [''verifier rejected without naming gaps''] else gaps)
          else NotAchieved [''unrecognized verdict token '' @ dbg value])"

definition parse_discovered_lines :: "string \<Rightarrow> string list" where
  "parse_discovered_lines output =
     filter (\<lambda>d. d \<noteq> [] \<and> \<not> prefix ''<'' d)
       (map trim (List.map_filter (\<lambda>l. strip_prefix_str ''DISCOVERED:'' (trim_start_char backtick (trim_start l)))
         (lines (strip_fenced_blocks output))))"

section \<open>Spawning\<close>

record worker_spawn_spec =
  sp_prompt :: string
  sp_description :: string
  sp_cwd :: "string option"
  sp_isolation_worktree :: bool
  sp_resume_from :: "string option"

record worker_spawn_outcome =
  so_success :: bool
  so_cancelled :: bool
  so_backgrounded :: bool
  so_output :: string
  so_error :: "string option"
  so_child_session_id :: string
  so_tokens_used :: u64
  so_worktree_path :: "string option"

type_synonym spawner = "string \<Rightarrow> worker_spawn_spec \<Rightarrow> string + worker_spawn_outcome"

record worker_env =
  we_worker_template :: string
  we_verifier_template :: string
  we_dbg :: "string \<Rightarrow> string"
  we_fresh :: "nat \<Rightarrow> string"
  we_spawn :: spawner

definition worker_prompt :: "string \<Rightarrow> string \<Rightarrow> string list \<Rightarrow> string" where
  "worker_prompt template objective gaps =
     template @ [nl, nl] @ ''NODE OBJECTIVE:'' @ [nl] @ objective
     @ (if gaps = [] then []
        else [nl, nl] @ ''GAPS (from the previous verification round '' @ [CHR 0xE2, CHR 0x80, CHR 0x94]
             @ '' close exactly these):'' @ [nl]
             @ concat (map (\<lambda>g. ''- '' @ g @ [nl]) gaps))"

definition verifier_prompt :: "string \<Rightarrow> string \<Rightarrow> string \<Rightarrow> string" where
  "verifier_prompt template objective summary =
     (let safe = replace_str ''DISCOVERED'' ''DISCOVERED-''
                   (replace_str ''NODE_RESULT'' ''NODE-RESULT''
                     (replace_str ''NODE_VERDICT'' ''NODE-VERDICT'' summary))
      in template @ [nl, nl] @ ''NODE OBJECTIVE (the contract to judge):'' @ [nl] @ objective @ [nl, nl]
         @ ''IMPLEMENTER'' @ [CHR 0x27] @ ''S CLAIM (audit it, do not trust it):'' @ [nl] @ safe @ [nl])"

section \<open>Rounds\<close>

record node_run_report =
  nr_node_id :: string
  nr_achieved :: bool
  nr_detail :: string
  nr_rounds :: u32
  nr_tokens_used :: i64
  nr_worktree_path :: "string option"
  nr_worker_session_id :: "string option"
  nr_discoveries :: "string list"

record run_state =
  rs_tokens :: i64
  rs_discoveries :: "string list"
  rs_gaps :: "string list"
  rs_resume_from :: "string option"
  rs_worktree_path :: "string option"
  rs_last_gaps_summary :: string

definition run_start :: run_state where
  "run_start = \<lparr>rs_tokens = 0, rs_discoveries = [], rs_gaps = [], rs_resume_from = None,
                rs_worktree_path = None, rs_last_gaps_summary = []\<rparr>"

text \<open>\<open>tokens as i64\<close> of a \<open>u64\<close>.\<close>

definition as_i64 :: "u64 \<Rightarrow> i64" where
  "as_i64 t = wrap_i64 (int (unat t))"

fun add_new :: "string list \<Rightarrow> string list \<Rightarrow> string list" where
  "add_new [] acc = acc"
| "add_new (d # ds) acc = add_new ds (if d \<in> set acc then acc else acc @ [d])"

definition report :: "string \<Rightarrow> u32 \<Rightarrow> run_state \<Rightarrow> bool \<Rightarrow> string \<Rightarrow> node_run_report" where
  "report node round st ok detail =
     \<lparr>nr_node_id = node, nr_achieved = ok, nr_detail = detail, nr_rounds = round,
      nr_tokens_used = rs_tokens st, nr_worktree_path = rs_worktree_path st,
      nr_worker_session_id = rs_resume_from st, nr_discoveries = rs_discoveries st\<rparr>"

definition set_gaps :: "string list \<Rightarrow> run_state \<Rightarrow> run_state" where
  "set_gaps gaps st = st\<lparr>rs_gaps := gaps, rs_last_gaps_summary := join ''; '' gaps\<rparr>"

definition spawn_id :: "string \<Rightarrow> string \<Rightarrow> u32 \<Rightarrow> string \<Rightarrow> string" where
  "spawn_id node kind round uuid = ''graph-'' @ node @ ''-'' @ kind @ show_nat (unat round) @ ''-'' @ uuid"

definition background_gap :: string where
  "background_gap = ''the previous round exceeded the foreground time budget and was cancelled; split the remaining work into smaller, faster steps''"

definition isolation_detail :: string where
  "isolation_detail = ''worktree isolation unavailable for this node (non-git directory, worktree creation failure, or KIGI_SUBAGENT_WORKTREE_SNAPSHOT disposal); parallel execution requires isolation''"

text \<open>What a worker outcome leaves in the loop's variables, before it is judged.\<close>

definition absorb :: "worker_spawn_outcome \<Rightarrow> run_state \<Rightarrow> run_state" where
  "absorb out st = st\<lparr>
     rs_tokens := sat_add_i64 (rs_tokens st) (as_i64 (so_tokens_used out)),
     rs_worktree_path := (if so_worktree_path out \<noteq> None then so_worktree_path out else rs_worktree_path st),
     rs_resume_from := (if so_child_session_id out \<noteq> [] then Some (so_child_session_id out) else rs_resume_from st),
     rs_discoveries := add_new (parse_discovered_lines (so_output out)) (rs_discoveries st)\<rparr>"

text \<open>The verifier's answer to a claim: its verdict and the state with its tokens and discoveries.\<close>

definition judge_claim ::
  "worker_env \<Rightarrow> string \<Rightarrow> string \<Rightarrow> u32 \<Rightarrow> string \<Rightarrow> run_state \<Rightarrow> node_verdict \<times> run_state" where
  "judge_claim env node objective round summary st =
     (case we_spawn env (spawn_id node ''v'' round (we_fresh env (2 * unat round + 1)))
        \<lparr>sp_prompt = verifier_prompt (we_verifier_template env) objective summary,
         sp_description = ''graph node verifier ('' @ node @ '')'',
         sp_cwd = rs_worktree_path st, sp_isolation_worktree = False, sp_resume_from = None\<rparr> of
        Inl err \<Rightarrow> (NotAchieved [''verifier transport failure: '' @ err], st)
      | Inr v \<Rightarrow>
          (if so_success v then parse_node_verdict (we_dbg env) (so_output v)
           else NotAchieved [''verifier run failed ('' @ (case so_error v of Some e \<Rightarrow> e | None \<Rightarrow> ''unknown error'')
                             @ ''); the claim is unverified''],
           st\<lparr>rs_tokens := sat_add_i64 (rs_tokens st) (as_i64 (so_tokens_used v)),
              rs_discoveries := add_new (parse_discovered_lines (so_output v)) (rs_discoveries st)\<rparr>))"

text \<open>One round: \<open>Inl\<close> ends the run with a report, \<open>Inr\<close> goes on.  The last part lists cancelled spawns.\<close>

definition run_round ::
  "worker_env \<Rightarrow> string \<Rightarrow> string \<Rightarrow> u32 \<Rightarrow> run_state \<Rightarrow> (node_run_report + run_state) \<times> string list" where
  "run_round env node objective round st0 =
    (let isolated = (rs_resume_from st0 = None);
         sid = spawn_id node ''w'' round (we_fresh env (2 * unat round))
     in case we_spawn env sid
          \<lparr>sp_prompt = worker_prompt (we_worker_template env) objective (rs_gaps st0),
           sp_description = ''graph node worker ('' @ node @ '')'',
           sp_cwd = None, sp_isolation_worktree = isolated, sp_resume_from = rs_resume_from st0\<rparr> of
          Inl err \<Rightarrow> (Inl (report node round st0 False (''worker transport failure: '' @ err)), [])
        | Inr out \<Rightarrow>
            let st = absorb out st0
            in if so_cancelled out then (Inl (report node round st False ''worker cancelled''), [])
               else if so_backgrounded out then (Inr (set_gaps [background_gap] st), [sid])
               else if \<not> so_success out
               then (Inr (set_gaps [''the previous round failed with an error: ''
                       @ (case so_error out of Some e \<Rightarrow> e | None \<Rightarrow> ''unknown error'')] st), [])
               else if isolated \<and> so_worktree_path out = None
               then (Inl ((report node round st False isolation_detail)\<lparr>nr_worktree_path := None\<rparr>), [])
               else (case parse_worker_claim (so_output out) of
                   ClaimBlocked reason \<Rightarrow> (Inl (report node round st False (''worker reported blocked: '' @ reason)), [])
                 | Unparseable \<Rightarrow>
                     (Inr (set_gaps [''the previous round'' @ [CHR 0x27] @ ''s final message lacked the required NODE_RESULT line''] st), [])
                 | Done summary \<Rightarrow>
                     (case judge_claim env node objective round summary st of
                        (VerdictAchieved, st') \<Rightarrow> (Inl (report node round st' True summary), [])
                      | (NotAchieved gaps, st') \<Rightarrow> (Inr (set_gaps gaps st'), []))))"

text \<open>\<open>for round in 1..=rounds_cap\<close>, with \<open>k\<close> rounds left.\<close>

fun run_rounds ::
  "worker_env \<Rightarrow> string \<Rightarrow> string \<Rightarrow> u32 \<Rightarrow> nat \<Rightarrow> run_state \<Rightarrow> node_run_report \<times> string list" where
  "run_rounds env node objective cap 0 st =
     (report node cap st False
        (''verification rejected after '' @ show_nat (unat cap) @ '' rounds; last gaps: '' @ rs_last_gaps_summary st), [])"
| "run_rounds env node objective cap (Suc k) st =
     (case run_round env node objective (of_nat (unat cap - k)) st of
        (Inl rep, cs) \<Rightarrow> (rep, cs)
      | (Inr st', cs) \<Rightarrow> let (rep, cs') = run_rounds env node objective cap k st' in (rep, cs @ cs'))"

definition run_node_to_verdict :: "worker_env \<Rightarrow> string \<Rightarrow> string \<Rightarrow> u32 \<Rightarrow> node_run_report \<times> string list" where
  "run_node_to_verdict env node objective rounds_cap =
     run_rounds env node objective rounds_cap (unat rounds_cap) run_start"

section \<open>Lemmas\<close>

definition is_fence :: "string \<Rightarrow> bool" where
  "is_fence l \<longleftrightarrow> prefix [backtick, backtick, backtick] (trim_start l)"

lemma keep_unfenced_plain:
  "\<forall>l \<in> set a. \<not> is_fence l \<Longrightarrow>
     keep_unfenced q (a @ rest) = (if q then [] else concat (map (\<lambda>l. l @ [nl]) a)) @ keep_unfenced q rest"
  by (induction a) (auto simp: is_fence_def)

lemma keep_unfenced_block:
  assumes "\<forall>l \<in> set a \<union> set b. \<not> is_fence l" "is_fence f1" "is_fence f2"
  shows "keep_unfenced False (a @ f1 # b @ f2 # c) = concat (map (\<lambda>l. l @ [nl]) a) @ keep_unfenced False c"
proof -
  have "keep_unfenced False (a @ f1 # b @ f2 # c) = concat (map (\<lambda>l. l @ [nl]) a) @ keep_unfenced False (f1 # b @ f2 # c)"
    using keep_unfenced_plain [of a False] assms(1) by simp
  also have "keep_unfenced False (f1 # b @ f2 # c) = keep_unfenced True (b @ f2 # c)"
    using assms(2) by (simp add: is_fence_def)
  also have "\<dots> = keep_unfenced True (f2 # c)"
    using keep_unfenced_plain [of b True] assms(1) by simp
  also have "\<dots> = keep_unfenced False c" using assms(3) by (simp add: is_fence_def)
  finally show ?thesis .
qed

lemma rposition_SomeD:
  "rposition p xs = Some i \<Longrightarrow> i < length xs \<and> p (xs ! i) \<and> (\<forall>j. i < j \<and> j < length xs \<longrightarrow> \<not> p (xs ! j))"
proof (induction xs arbitrary: i)
  case (Cons x xs)
  show ?case
  proof (cases "rposition p xs")
    case None
    then have "\<forall>y \<in> set xs. \<not> p y"
      by (induction xs) (auto split: option.splits if_splits)
    with None Cons.prems show ?thesis by (auto split: if_splits simp: nth_Cons split: nat.splits)
  next
    case (Some k)
    with Cons show ?thesis by (auto simp: nth_Cons split: nat.splits)
  qed
qed simp

lemma rposition_None: "rposition p xs = None \<longleftrightarrow> (\<forall>x \<in> set xs. \<not> p x)"
  by (induction xs) (auto split: option.splits)

lemma verdict_achieved_marker:
  assumes "parse_node_verdict dbg out = VerdictAchieved"
  shows "\<exists>l \<in> set (lines (strip_fenced_blocks out)). starts_marker ''NODE_VERDICT:'' l"
proof -
  from assms obtain r where "last_marker_line (strip_fenced_blocks out) ''NODE_VERDICT:'' = Some r"
    by (auto simp: parse_node_verdict_def split: option.splits)
  then obtain i where "rposition (starts_marker ''NODE_VERDICT:'') (lines (strip_fenced_blocks out)) = Some i"
    by (auto simp: last_marker_line_def Let_def)
  from rposition_SomeD [OF this] show ?thesis using nth_mem by blast
qed

lemma discovered_lines_shape:
  "d \<in> set (parse_discovered_lines out) \<Longrightarrow> d \<noteq> [] \<and> \<not> prefix ''<'' d"
  by (auto simp: parse_discovered_lines_def)

lemma set_add_new: "set (add_new ds acc) = set ds \<union> set acc"
  and distinct_add_new: "distinct acc \<Longrightarrow> distinct (add_new ds acc)"
  by (induction ds arbitrary: acc) auto

text \<open>What an ended round says: only a passed verification reports success.\<close>

definition verified :: "worker_env \<Rightarrow> string \<Rightarrow> u32 \<Rightarrow> node_run_report \<Rightarrow> bool" where
  "verified env node round rep \<longleftrightarrow>
     (\<exists>spec v. we_spawn env (spawn_id node ''v'' round (we_fresh env (2 * unat round + 1))) spec = Inr v \<and>
        so_success v \<and> parse_node_verdict (we_dbg env) (so_output v) = VerdictAchieved \<and>
        sp_cwd spec = nr_worktree_path rep \<and> \<not> sp_isolation_worktree spec)"

lemma judge_claim_achieved:
  "judge_claim env node obj round summary st = (VerdictAchieved, st') \<Longrightarrow>
     verified env node round (report node round st' True summary)"
  unfolding judge_claim_def verified_def report_def
  by (auto split: sum.splits if_splits intro!: exI)

lemma run_round_Inl:
  assumes "run_round env node obj round st = (Inl rep, cs)"
  shows "nr_rounds rep = round \<and> nr_node_id rep = node \<and> (nr_achieved rep \<longrightarrow> verified env node round rep)"
  using assms judge_claim_achieved [of env node obj round _ _]
  unfolding run_round_def Let_def
  by (auto simp: report_def split: sum.splits if_splits worker_claim.splits node_verdict.splits prod.splits)

lemma run_rounds_report:
  "k \<le> unat cap \<Longrightarrow> run_rounds env node obj cap k st = (rep, cs) \<Longrightarrow>
     nr_node_id rep = node \<and> unat (nr_rounds rep) \<le> unat cap \<and>
     (nr_achieved rep \<longrightarrow> verified env node (nr_rounds rep) rep \<and> 1 \<le> unat (nr_rounds rep))"
proof (induction k arbitrary: st rep cs)
  case 0
  then show ?case by (auto simp: report_def)
next
  case (Suc k)
  let ?r = "of_nat (unat cap - k) :: u32"
  have "unat cap < 2 ^ LENGTH(32)" by (rule unsigned_less)
  then have r: "unat ?r = unat cap - k"
    by (simp add: unsigned_of_nat take_bit_nat_eq_self)
  show ?case
  proof (cases "run_round env node obj ?r st")
    case (Pair res cs')
    show ?thesis
    proof (cases res)
      case (Inl rep')
      then show ?thesis using Pair Suc.prems run_round_Inl [of env node obj ?r st rep' cs'] r by auto
    next
      case (Inr st')
      then show ?thesis using Pair Suc.prems Suc.IH [of st'] by (auto split: prod.splits)
    qed
  qed
qed

end
