(* ===== verification/Tracker_Inv.thy ===== *)
theory Tracker_Inv
  imports Graph_Reach Graph_Workers
begin

text \<open>
  What the session code relies on beyond \<open>tracker_ok\<close>: the current node is the one running on
  the serial goal engine, discoveries are queued only where a replan can still take them, and
  which nodes of a batch keep running while others are settled.
\<close>

section \<open>Views of a tracker\<close>

definition pending_of :: "graph_tracker \<Rightarrow> discovery list" where
  "pending_of t = (case t_state t of None \<Rightarrow> [] | Some s \<Rightarrow> g_pending_discoveries s)"

definition running :: "string \<Rightarrow> graph_tracker \<Rightarrow> bool" where
  "running i t \<longleftrightarrow> node_st i t = Some Running"

lemmas view_defs = nodes_of_def pending_of_def current_node_id_def graph_status_def

definition same_view :: "graph_tracker \<Rightarrow> graph_tracker \<Rightarrow> bool" where
  "same_view t t' \<longleftrightarrow> nodes_of t' = nodes_of t \<and> current_node_id t' = current_node_id t \<and> pending_of t' = pending_of t"

lemma account_state: "\<exists>e. t_state (account_elapsed ck t) = map_option (\<lambda>s. s\<lparr>g_elapsed_ms := e\<rparr>) (t_state t)"
proof (cases "t_state t")
  case (Some s)
  show ?thesis
  proof (cases "g_status s = Active")
    case True
    with Some show ?thesis by (cases "t_last_probe t") (auto simp: account_elapsed_def intro: exI [of _ "g_elapsed_ms s"])
  next
    case False
    with Some show ?thesis by (auto simp: account_elapsed_def intro: exI [of _ "g_elapsed_ms s"])
  qed
qed (simp add: account_elapsed_def)

text \<open>Pausing, completing and limiting an active graph, with the elapsed time abstracted.\<close>

lemma pause_state:
  "\<exists>e h. t_state (snd (graph_pause_inner ck r m t)) = map_option (\<lambda>s. if g_status s = Active
     then s\<lparr>g_elapsed_ms := e, g_status := to_status r, g_pause_message := m, g_history := h s\<rparr>
     else s\<lparr>g_elapsed_ms := e\<rparr>) (t_state t)"
proof -
  obtain e where e: "t_state (account_elapsed ck t) = map_option (\<lambda>s. s\<lparr>g_elapsed_ms := e\<rparr>) (t_state t)"
    using account_state by blast
  show ?thesis
    by (cases "t_state t")
       (auto simp: graph_pause_inner_def Let_def e push_history_def
          intro!: exI [of _ e] exI [of _ "\<lambda>s. push_capped GRAPH_HISTORY_MAX (g_history s) (history_now (rfc ck 0) GraphPaused (g_current_node s) (Some (history_detail r)))"])
qed

lemma view_pause [simp]:
  "nodes_of (snd (graph_pause_inner ck r m t)) = nodes_of t"
  "current_node_id (snd (graph_pause_inner ck r m t)) = current_node_id t"
  "pending_of (snd (graph_pause_inner ck r m t)) = pending_of t"
  "graph_status (snd (graph_pause_inner ck r m t)) = (if is_active t then Some (to_status r) else graph_status t)"
  using pause_state [of ck r m t] by (cases "t_state t"; auto simp: view_defs is_active_def)+

lemma complete_state:
  "\<exists>e h. t_state (snd (graph_complete ck t)) = map_option (\<lambda>s. if g_status s = Active
     then s\<lparr>g_elapsed_ms := e, g_status := Complete, g_pause_message := None, g_history := h s\<rparr>
     else s\<lparr>g_elapsed_ms := e\<rparr>) (t_state t)"
proof -
  obtain e where e: "t_state (account_elapsed ck t) = map_option (\<lambda>s. s\<lparr>g_elapsed_ms := e\<rparr>) (t_state t)"
    using account_state by blast
  show ?thesis
    by (cases "t_state t")
       (auto simp: graph_complete_def Let_def e push_history_def
          intro!: exI [of _ e] exI [of _ "\<lambda>s. push_capped GRAPH_HISTORY_MAX (g_history s) (history_now (rfc ck 0) GraphCompleted None None)"])
qed

lemma view_complete [simp]:
  "nodes_of (snd (graph_complete ck t)) = nodes_of t"
  "current_node_id (snd (graph_complete ck t)) = current_node_id t"
  "pending_of (snd (graph_complete ck t)) = pending_of t"
  "graph_status (snd (graph_complete ck t)) = (if is_active t then Some Complete else graph_status t)"
  using complete_state [of ck t] by (cases "t_state t"; auto simp: view_defs is_active_def)+

lemma budget_state:
  "\<exists>e h. t_state (snd (graph_budget_limit ck t)) = map_option (\<lambda>s. if g_status s = Active
     then s\<lparr>g_elapsed_ms := e, g_nodes := map demote_in_flight (g_nodes s), g_current_node := None,
            g_status := BudgetLimited, g_pause_message := None, g_history := h s\<rparr>
     else s\<lparr>g_elapsed_ms := e\<rparr>) (t_state t)"
proof -
  obtain e where e: "t_state (account_elapsed ck t) = map_option (\<lambda>s. s\<lparr>g_elapsed_ms := e\<rparr>) (t_state t)"
    using account_state by blast
  show ?thesis
    by (cases "t_state t")
       (auto simp: graph_budget_limit_def Let_def e push_history_def
          intro!: exI [of _ e] exI [of _ "\<lambda>s. push_capped GRAPH_HISTORY_MAX (g_history s) (history_now (rfc ck 0) BudgetExceeded (g_current_node s) None)"])
qed

lemma view_budget:
  "nodes_of (snd (graph_budget_limit ck t)) = (if is_active t then map demote_in_flight (nodes_of t) else nodes_of t)"
  "current_node_id (snd (graph_budget_limit ck t)) = (if is_active t then None else current_node_id t)"
  "pending_of (snd (graph_budget_limit ck t)) = pending_of t"
  "graph_status (snd (graph_budget_limit ck t)) = (if is_active t then Some BudgetLimited else graph_status t)"
  using budget_state [of ck t] by (cases "t_state t"; auto simp: view_defs is_active_def)+

lemma view_resume:
  "nodes_of (snd (graph_resume ck t)) \<in> {nodes_of t, promote_ready (nodes_of t)}"
  "current_node_id (snd (graph_resume ck t)) = current_node_id t"
  "pending_of (snd (graph_resume ck t)) = pending_of t"
  "graph_status (snd (graph_resume ck t)) =
     (case graph_status t of Some st \<Rightarrow> if is_paused st then Some Active else Some st | None \<Rightarrow> None)"
  unfolding graph_resume_def recompute_ready_def
  by (cases "t_state t"; auto simp: push_history_def view_defs)+

lemma view_topup:
  "nodes_of (snd (resume_budget_limited ck extra t)) \<in> {nodes_of t, promote_ready (nodes_of t)}"
  "current_node_id (snd (resume_budget_limited ck extra t)) = current_node_id t"
  "pending_of (snd (resume_budget_limited ck extra t)) = pending_of t"
  unfolding resume_budget_limited_def recompute_ready_def
  by (cases "t_state t"; auto simp: push_history_def view_defs)+

lemma view_simple [simp]:
  "nodes_of (record_planning_failed ck d t) = nodes_of t" "current_node_id (record_planning_failed ck d t) = current_node_id t"
  "pending_of (record_planning_failed ck d t) = pending_of t" "graph_status (record_planning_failed ck d t) = graph_status t"
  "nodes_of (clear_current_node t) = nodes_of t" "current_node_id (clear_current_node t) = None"
  "pending_of (clear_current_node t) = pending_of t" "graph_status (clear_current_node t) = graph_status t"
  "nodes_of (snd (drain_discoveries_to_history t)) = nodes_of t" "graph_status (snd (drain_discoveries_to_history t)) = graph_status t"
  "current_node_id (snd (drain_discoveries_to_history t)) = current_node_id t" "pending_of (snd (drain_discoveries_to_history t)) = []"
  "nodes_of (bump_replan_runs t) = nodes_of t" "current_node_id (bump_replan_runs t) = current_node_id t"
  "pending_of (bump_replan_runs t) = pending_of t" "graph_status (bump_replan_runs t) = graph_status t"
  "nodes_of (graph_clear t) = []" "current_node_id (graph_clear t) = None" "pending_of (graph_clear t) = []"
  "graph_status (graph_clear t) = None"
  by (cases "t_state t"; auto simp: record_planning_failed_def clear_current_node_def drain_discoveries_to_history_def bump_replan_runs_def
        graph_clear_def view_defs push_history_def)+

lemma view_stamp [simp]:
  "nodes_of (stamp_goal_id i g t) = upd i (\<lambda>n. n\<lparr>n_goal_id := Some g\<rparr>) (nodes_of t)"
  "current_node_id (stamp_goal_id i g t) = current_node_id t" "pending_of (stamp_goal_id i g t) = pending_of t"
  "graph_status (stamp_goal_id i g t) = graph_status t"
  by (cases "t_state t"; auto simp: stamp_goal_id_def view_defs)+

lemma view_charge [simp]:
  "nodes_of (charge_node_tokens i k t) = upd i (\<lambda>n. n\<lparr>n_tokens_used := k\<rparr>) (nodes_of t)"
  "current_node_id (charge_node_tokens i k t) = current_node_id t" "pending_of (charge_node_tokens i k t) = pending_of t"
  "graph_status (charge_node_tokens i k t) = graph_status t"
  by (cases "t_state t"; auto simp: charge_node_tokens_def view_defs)+

lemma queue_from_view [simp]:
  "g_current_node (queue_from ck k ds s) = g_current_node s" "g_status (queue_from ck k ds s) = g_status s"
  "g_nodes (queue_from ck k ds s) = g_nodes s" "g_replan_runs (queue_from ck k ds s) = g_replan_runs s"
  "g_pending_discoveries (queue_from ck k ds s) = g_pending_discoveries s @ ds"
  "g_tokens_spent_nodes (queue_from ck k ds s) = g_tokens_spent_nodes s" "g_token_budget (queue_from ck k ds s) = g_token_budget s"
  by (induction ck k ds s rule: queue_from.induct) (auto simp: Let_def push_history_def)

lemma view_queue [simp]:
  "nodes_of (queue_discoveries ck ds t) = nodes_of t" "current_node_id (queue_discoveries ck ds t) = current_node_id t"
  "graph_status (queue_discoveries ck ds t) = graph_status t"
  by (cases "t_state t"; auto simp: queue_discoveries_def view_defs)+

lemma view_run [simp]:
  "nodes_of (mark_node_running ck i g t) = upd i (\<lambda>n. n\<lparr>n_status := Running, n_goal_id := Some g\<rparr>) (nodes_of t)"
  "current_node_id (mark_node_running ck i g t) = (if t_state t = None then None else Some i)"
  "pending_of (mark_node_running ck i g t) = pending_of t" "graph_status (mark_node_running ck i g t) = graph_status t"
  by (cases "t_state t"; auto simp: mark_node_running_def view_defs push_history_def)+

lemma view_achieve [simp]:
  "nodes_of (mark_node_achieved ck i r k t) =
     promote_ready (upd i (\<lambda>n. n\<lparr>n_status := Achieved, n_rounds := r, n_tokens_used := k\<rparr>) (nodes_of t))"
  "current_node_id (mark_node_achieved ck i r k t) = None"
  "pending_of (mark_node_achieved ck i r k t) = pending_of t" "graph_status (mark_node_achieved ck i r k t) = graph_status t"
  by (cases "t_state t"; auto simp: mark_node_achieved_def recompute_ready_def view_defs push_history_def promote_ready_def)+

lemma view_fail:
  "nodes_of (mark_node_failed ck i d t) =
     (if t_state t = None then [] else block_loop i [i] (upd i (\<lambda>n. n\<lparr>n_status := Failed, n_failure := Some d\<rparr>) (nodes_of t)))"
  "current_node_id (mark_node_failed ck i d t) = None"
  "pending_of (mark_node_failed ck i d t) = pending_of t" "graph_status (mark_node_failed ck i d t) = graph_status t"
  by (cases "t_state t"; auto simp: mark_node_failed_def block_dependents_def view_defs push_history_def)+

lemma view_demote:
  "nodes_of (demote_orphaned_in_flight keep t) =
     promote_ready (map (\<lambda>n. if keep \<noteq> Some (n_id n) then demote_in_flight n else n) (nodes_of t))"
  "current_node_id (demote_orphaned_in_flight keep t) = (if t_state t = None then None else keep)"
  "pending_of (demote_orphaned_in_flight keep t) = pending_of t"
  "graph_status (demote_orphaned_in_flight keep t) = graph_status t"
  by (cases "t_state t"; auto simp: demote_orphaned_in_flight_def recompute_ready_def view_defs promote_ready_def)+

lemma view_install [simp]:
  "nodes_of (install_nodes ck ns t) = (if t_state t = None then [] else promote_ready ns)"
  "current_node_id (install_nodes ck ns t) = current_node_id t"
  "pending_of (install_nodes ck ns t) = pending_of t" "graph_status (install_nodes ck ns t) = graph_status t"
  by (cases "t_state t"; auto simp: install_nodes_def recompute_ready_def view_defs push_history_def)+

lemma view_optimized [simp]:
  "nodes_of (install_optimized_nodes ck ns t) = (if t_state t = None then [] else promote_ready ns)"
  "current_node_id (install_optimized_nodes ck ns t) = current_node_id t"
  "pending_of (install_optimized_nodes ck ns t) = pending_of t" "graph_status (install_optimized_nodes ck ns t) = graph_status t"
  by (cases "t_state t"; auto simp: install_optimized_nodes_def recompute_ready_def view_defs push_history_def Let_def)+

lemma view_append [simp]:
  "nodes_of (append_replan_nodes ck new t) =
     (if t_state t = None then [] else promote_ready (upd FINAL_NODE_ID (regate_final (map n_id new)) (nodes_of t @ new)))"
  "current_node_id (append_replan_nodes ck new t) = current_node_id t"
  "pending_of (append_replan_nodes ck new t) = []" "graph_status (append_replan_nodes ck new t) = graph_status t"
  by (cases "t_state t"; auto simp: append_replan_nodes_def recompute_ready_def view_defs push_history_def Let_def)+

lemma view_create [simp]:
  "nodes_of (create_graph ck g obj b created t) = []" "current_node_id (create_graph ck g obj b created t) = None"
  "pending_of (create_graph ck g obj b created t) = []" "graph_status (create_graph ck g obj b created t) = Some Active"
  by (auto simp: create_graph_def view_defs)

lemma view_snapshot:
  "nodes_of (from_snapshot dir s) = promote_ready (map demote_in_flight (g_nodes s))"
  "current_node_id (from_snapshot dir s) = None"
  "pending_of (from_snapshot dir s) = g_pending_discoveries s"
  "graph_status (from_snapshot dir s) = Some (if g_status s = Active then UserPaused else g_status s)"
  by (auto simp: from_snapshot_def recompute_ready_def view_defs Let_def)

section \<open>Running nodes under the operations\<close>

lemma st_of_map_eq:
  "(\<And>n. n_id (f n) = n_id n) \<Longrightarrow> st_of (map f ns) i = map_option (\<lambda>n. n_status (f n)) (find (\<lambda>n. n_id n = i) ns)"
  by (induction ns) (auto simp: st_of_def)

lemma st_of_upd:
  "(\<And>n. n_id (g n) = n_id n) \<Longrightarrow>
     st_of (upd i g ns) j = (if j = i then map_option (\<lambda>n. n_status (g n)) (find (\<lambda>n. n_id n = i) ns) else st_of ns j)"
  by (induction ns) (auto simp: st_of_def)

lemma find_Some_st: "find (\<lambda>n. n_id n = i) ns = Some n \<Longrightarrow> st_of ns i = Some (n_status n)"
  by (simp add: st_of_def)

lemma st_of_Some_find: "st_of ns i = Some st \<longleftrightarrow> (\<exists>n. find (\<lambda>n. n_id n = i) ns = Some n \<and> n_status n = st)"
  by (auto simp: st_of_def)

lemma running_promote [simp]: "st_of (promote_ready ns) i = Some Running \<longleftrightarrow> st_of ns i = Some Running"
  unfolding promote_ready_def
  by (subst st_of_map_eq) (cases "find (\<lambda>n. n_id n = i) ns"; auto simp: st_of_def promote_def)+

lemma promote_ready_Nil [simp]: "promote_ready ns = [] \<longleftrightarrow> ns = []" "[] = promote_ready ns \<longleftrightarrow> ns = []"
  by (auto simp: promote_ready_def)

lemma upd_Nil [simp]: "upd i g ns = [] \<longleftrightarrow> ns = []"
  by (cases ns) auto

lemma running_nodes: "running i t \<longleftrightarrow> st_of (nodes_of t) i = Some Running"
  by (simp add: running_def node_st_nodes)

lemma not_running_demoted [simp]: "st_of (map demote_in_flight ns) i \<noteq> Some Running"
  by (subst st_of_map_eq) (auto simp: st_of_Some_find demote_in_flight_def split: if_splits)

lemma running_kept:
  "st_of (map (\<lambda>n. if keep \<noteq> Some (n_id n) then demote_in_flight n else n) ns) i = Some Running \<longleftrightarrow>
     keep = Some i \<and> st_of ns i = Some Running"
proof -
  let ?f = "\<lambda>n. if keep \<noteq> Some (n_id n) then demote_in_flight n else n"
  have "n_id n = i" if "find (\<lambda>n. n_id n = i) ns = Some n" for n using that by (auto simp: find_Some_iff)
  moreover have "st_of (map ?f ns) i = map_option (\<lambda>n. n_status (?f n)) (find (\<lambda>n. n_id n = i) ns)"
    by (rule st_of_map_eq) (simp add: demote_in_flight_def)
  ultimately show ?thesis
    by (cases "find (\<lambda>n. n_id n = i) ns") (auto simp: st_of_def demote_in_flight_def split: if_splits)
qed

section \<open>The invariant\<close>

definition track_inv :: "bool \<Rightarrow> graph_tracker \<Rightarrow> bool" where
  "track_inv co t \<longleftrightarrow> graph_reach t \<and> (\<forall>i. current_node_id t = Some i \<longrightarrow> running i t) \<and>
     (co \<and> running FINAL_NODE_ID t \<longrightarrow> pending_of t = []) \<and> (nodes_of t = [] \<longrightarrow> pending_of t = [])"

lemma track_invD:
  assumes "track_inv co t"
  shows "graph_reach t" "current_node_id t = Some i \<Longrightarrow> running i t"
    "co \<Longrightarrow> running FINAL_NODE_ID t \<Longrightarrow> pending_of t = []" "nodes_of t = [] \<Longrightarrow> pending_of t = []"
  using assms by (auto simp: track_inv_def)

text \<open>A step that starts nothing, keeps the current node running or drops it, and queues nothing.\<close>

lemma track_inv_step:
  assumes "track_inv co t" "graph_step t t'"
    and "current_node_id t' = None \<or> current_node_id t' = current_node_id t \<and> (\<forall>i. current_node_id t = Some i \<longrightarrow> running i t \<longrightarrow> running i t')"
    and "pending_of t' = [] \<or> pending_of t' = pending_of t \<and> (nodes_of t' = [] \<longrightarrow> nodes_of t = []) \<and>
           (running FINAL_NODE_ID t' \<longrightarrow> running FINAL_NODE_ID t)"
  shows "track_inv co t'"
  using assms graph_reach.step [of t t'] unfolding track_inv_def by (metis option.distinct(1))

lemma track_inv_new: "track_inv co (graph_tracker_new dir)"
  by (simp add: track_inv_def graph_reach.start)
     (simp add: graph_tracker_new_def view_defs)

lemma track_inv_simple:
  assumes "track_inv co t"
  shows "track_inv co (record_planning_failed ck d t)" "track_inv co (clear_current_node t)"
    "track_inv co (snd (drain_discoveries_to_history t))" "track_inv co (bump_replan_runs t)" "track_inv co (graph_clear t)"
    "track_inv co (snd (graph_pause_inner ck r m t))"
  by (rule track_inv_step [OF assms]; auto simp: running_nodes intro: graph_step.intros)+

lemma track_inv_stamp: "track_inv co t \<Longrightarrow> track_inv co (stamp_goal_id i g t)"
  by (erule track_inv_step [OF _ graph_step.stamp]) (auto simp: running_nodes st_of_upd st_of_Some_find)

lemma track_inv_charge: "track_inv co t \<Longrightarrow> track_inv co (charge_node_tokens i k t)"
  by (erule track_inv_step [OF _ graph_step.charge]) (auto simp: running_nodes st_of_upd st_of_Some_find)

lemma track_inv_budget: "track_inv co t \<Longrightarrow> track_inv co (snd (graph_budget_limit ck t))"
  by (erule track_inv_step [OF _ graph_step.budget]) (auto simp: running_nodes view_budget)

lemma track_inv_resume: "track_inv co t \<Longrightarrow> track_inv co (snd (graph_resume ck t))"
  by (erule track_inv_step [OF _ graph_step.resume]) (use view_resume [of ck t] in \<open>auto simp: running_nodes\<close>)

lemma track_inv_topup: "track_inv co t \<Longrightarrow> track_inv co (snd (resume_budget_limited ck extra t))"
  by (erule track_inv_step [OF _ graph_step.topup]) (use view_topup [of ck extra t] in \<open>auto simp: running_nodes\<close>)

lemma track_inv_complete: "track_inv co t \<Longrightarrow> all_achieved t \<Longrightarrow> track_inv co (snd (graph_complete ck t))"
  by (erule track_inv_step [OF _ graph_step.complete]) (auto simp: running_nodes)

lemma track_inv_demote:
  "track_inv co t \<Longrightarrow> keep = None \<or> keep = current_node_id t \<Longrightarrow> track_inv co (demote_orphaned_in_flight keep t)"
  by (erule track_inv_step [OF _ graph_step.demote]) (auto simp: running_nodes view_demote running_kept)

lemma track_inv_create:
  "track_inv co t \<Longrightarrow> graph_status t = None \<or> graph_status t = Some Complete \<Longrightarrow> track_inv co (create_graph ck g obj b created t)"
  by (erule track_inv_step [OF _ graph_step.create]) auto

lemma track_inv_snapshot:
  assumes "graph_reach t" "t_state t = Some s" "g_nodes s = [] \<longrightarrow> g_pending_discoveries s = []"
  shows "track_inv co (from_snapshot dir s)"
  using graph_reach.step [OF assms(1) graph_step.restart [OF assms(2)]] assms(3)
  by (auto simp: track_inv_def view_snapshot running_nodes)

lemma track_inv_install:
  assumes "track_inv co t" "nodes_of t = []" "is_active t" "parse_and_validate from_str json obj = Some (Inr nodes)"
  shows "track_inv co (install_nodes ck nodes t)"
proof (rule track_inv_step [OF assms(1) graph_step.install [OF assms(2,3,4)]])
  have "current_node_id t = None"
    using track_invD(2) [OF assms(1)] assms(2) by (cases "current_node_id t") (auto simp: running_nodes st_of_def)
  then show "current_node_id (install_nodes ck nodes t) = None \<or> current_node_id (install_nodes ck nodes t) = current_node_id t \<and>
      (\<forall>i. current_node_id t = Some i \<longrightarrow> running i t \<longrightarrow> running i (install_nodes ck nodes t))" by simp
qed (use track_invD(4) [OF assms(1,2)] in simp)

section \<open>Starting and settling nodes\<close>

lemma running_SomeD: "running i t \<Longrightarrow> \<exists>n \<in> set (nodes_of t). n_id n = i \<and> n_status n = Running"
  unfolding running_nodes by (rule st_of_SomeD)

lemma in_flight_Running: "in_flight Running"
  by (simp add: in_flight_def)

text \<open>While the terminal node runs, nothing else does.\<close>

lemma final_alone:
  assumes "graph_reach t" "running FINAL_NODE_ID t" "n \<in> set (nodes_of t)" "n_id n \<noteq> FINAL_NODE_ID"
  shows "n_status n = Achieved"
proof -
  obtain f where f: "f \<in> set (nodes_of t)" "n_id f = FINAL_NODE_ID" "n_status f = Running"
    using running_SomeD [OF assms(2)] by blast
  show ?thesis
    using final_starts_last [OF reach_mem_ok [OF assms(1,3)] f(1,2) _ assms(3,4)] f(3) by (simp add: started_def)
qed

lemma final_runs_alone: "graph_reach t \<Longrightarrow> running FINAL_NODE_ID t \<Longrightarrow> running i t \<Longrightarrow> i = FINAL_NODE_ID"
  using final_alone [of t] running_SomeD [of i t] by fastforce

text \<open>Two ready nodes are never the terminal one.\<close>

lemma final_not_in_batch:
  assumes "graph_reach t" "node_st i t = Some Ready" "node_st j t = Some Ready" "i \<noteq> j"
  shows "i \<noteq> FINAL_NODE_ID"
proof
  assume i: "i = FINAL_NODE_ID"
  obtain f n where f: "f \<in> set (nodes_of t)" "n_id f = i" "n_status f = Ready"
    and n: "n \<in> set (nodes_of t)" "n_id n = j" "n_status n = Ready"
    using assms(2,3) unfolding node_st_nodes by (metis st_of_SomeD)
  have "n_status n = Achieved"
    using final_starts_last [OF reach_mem_ok [OF assms(1) n(1)] f(1) _ _ n(1)] f n assms(4) i by (simp add: started_def)
  with n(3) show False by simp
qed

lemma running_stamp [simp]: "running j (stamp_goal_id i g t) \<longleftrightarrow> running j t"
  by (auto simp: running_nodes st_of_upd st_of_Some_find)

lemma running_charge [simp]: "running j (charge_node_tokens i k t) \<longleftrightarrow> running j t"
  by (auto simp: running_nodes st_of_upd st_of_Some_find)

lemma running_queue [simp]: "running j (queue_discoveries ck ds t) \<longleftrightarrow> running j t"
  by (simp add: running_nodes)

lemma running_clear_current [simp]: "running j (clear_current_node t) \<longleftrightarrow> running j t"
  by (simp add: running_nodes)

lemma running_run:
  "node_st i t = Some st \<Longrightarrow> running j (mark_node_running ck i g t) \<longleftrightarrow> running j t \<or> j = i"
  by (auto simp: running_nodes node_st_nodes st_of_upd st_of_Some_find)

lemma running_achieve [simp]: "running j (mark_node_achieved ck i r k t) \<longleftrightarrow> running j t \<and> j \<noteq> i"
  by (auto simp: running_nodes st_of_upd)

lemma running_failing: "graph_reach t \<Longrightarrow> running i t \<Longrightarrow> failing (nodes_of t) i (\<lambda>n. n\<lparr>n_status := Failed, n_failure := Some d\<rparr>)"
  using reach_mem_ok [of t] running_SomeD [of i t]
  by (auto simp: failing_def keeps_def running_nodes live_def in_flight_def)

lemma running_state: "running i t \<Longrightarrow> t_state t \<noteq> None"
  by (auto simp: running_def node_st_def split: option.splits)

lemma nodes_fail:
  assumes "graph_reach t" "running i t"
  shows "nodes_of (mark_node_failed ck i d t) =
    map (fail_map (nodes_of t) i (\<lambda>n. n\<lparr>n_status := Failed, n_failure := Some d\<rparr>)) (nodes_of t)"
  using fail_run [OF running_failing [OF assms]] running_state [OF assms(2)] by (simp add: view_fail del: not_None_eq)

lemma running_fail:
  assumes "graph_reach t" "running i t"
  shows "running j (mark_node_failed ck i d t) \<longleftrightarrow> running j t \<and> j \<noteq> i"
proof -
  let ?g = "\<lambda>n. n\<lparr>n_status := Failed, n_failure := Some d\<rparr>"
  let ?f = "fail_map (nodes_of t) i ?g"
  have F: "failing (nodes_of t) i ?g" by (rule running_failing [OF assms])
  have "st_of (map ?f (nodes_of t)) j = map_option (\<lambda>n. n_status (?f n)) (find (\<lambda>n. n_id n = j) (nodes_of t))"
    by (rule st_of_map_eq) (simp add: keepsD(1) [OF keeps_fail_map [OF F]])
  moreover have "n_status (?f n) = Running \<longleftrightarrow> n_status n = Running \<and> j \<noteq> i"
    if "find (\<lambda>n. n_id n = j) (nodes_of t) = Some n" for n
  proof -
    have n: "n \<in> set (nodes_of t)" "n_id n = j" using that by (auto simp: find_Some_iff)
    then show ?thesis using fail_set_waiting [OF F n(1)] by (auto simp: fail_map_def)
  qed
  ultimately show ?thesis
    unfolding running_nodes nodes_fail [OF assms]
    by (cases "find (\<lambda>n. n_id n = j) (nodes_of t)") (auto simp: find_Some_st [of j "nodes_of t"] st_of_def [of "nodes_of t"])
qed

lemma track_inv_run:
  assumes "track_inv co t" "is_active t" "node_st i t = Some Ready" "co \<and> i = FINAL_NODE_ID \<longrightarrow> pending_of t = []"
  shows "track_inv co (mark_node_running ck i g t)"
proof -
  have "graph_reach (mark_node_running ck i g t)"
    using graph_reach.step [OF track_invD(1) [OF assms(1)] graph_step.run [OF assms(2,3)]] .
  then show ?thesis
    using assms(1,4) running_run [OF assms(3)] by (auto simp: track_inv_def split: if_splits)
qed

lemma track_inv_achieve:
  assumes "graph_reach t" "running i t"
  shows "track_inv co (mark_node_achieved ck i r k t)"
proof -
  have "graph_reach (mark_node_achieved ck i r k t)"
    using graph_reach.step [OF assms(1) graph_step.achieve [OF assms(2) [unfolded running_def] in_flight_Running]] .
  moreover have "nodes_of t \<noteq> []" using running_SomeD [OF assms(2)] by auto
  ultimately show ?thesis using final_runs_alone [OF assms(1) _ assms(2)] by (auto simp: track_inv_def)
qed

lemma track_inv_fail:
  assumes "graph_reach t" "running i t" "i \<noteq> FINAL_NODE_ID"
  shows "track_inv co (mark_node_failed ck i d t)"
proof -
  have "graph_reach (mark_node_failed ck i d t)"
    using graph_reach.step [OF assms(1) graph_step.fail [OF assms(2) [unfolded running_def] in_flight_Running assms(3)]] .
  moreover have "nodes_of (mark_node_failed ck i d t) \<noteq> []"
    using running_SomeD [OF assms(2)] unfolding nodes_fail [OF assms(1,2)] by auto
  ultimately show ?thesis
    using final_runs_alone [OF assms(1) _ assms(2)] assms(3) running_fail [OF assms(1,2)] by (auto simp: track_inv_def view_fail(2,3))
qed

section \<open>Replanning and optimizing\<close>

lemma final_present:
  assumes "graph_reach t" "nodes_of t \<noteq> []"
  shows "\<exists>st. node_st FINAL_NODE_ID t = Some st \<and> st \<noteq> Verifying \<and> st \<noteq> Failed"
proof -
  have "FINAL_NODE_ID \<in> n_id ` set (nodes_of t)"
    using reach_graph_ok [OF assms] by (simp add: graph_ok_def final_gate_def set_node_ids)
  then obtain f where "f \<in> set (nodes_of t)" "n_id f = FINAL_NODE_ID" by force
  then show ?thesis using reach_node_st [OF assms(1), of f] reach_status [OF assms(1), of f] by auto
qed

lemma pending_replan_ready:
  assumes "track_inv True t" "pending_of t \<noteq> []" "node_st FINAL_NODE_ID t \<noteq> Some Achieved"
  shows "replan_ready t"
proof -
  have "nodes_of t \<noteq> []" using track_invD(4) [OF assms(1)] assms(2) by blast
  then obtain st where "node_st FINAL_NODE_ID t = Some st" "st \<noteq> Verifying"
    using final_present [OF track_invD(1) [OF assms(1)]] by blast
  moreover have "\<not> running FINAL_NODE_ID t" using track_invD(3) [OF assms(1)] assms(2) by blast
  ultimately show ?thesis using assms(3) by (auto simp: replan_ready_def running_def in_flight_def)
qed

lemma track_inv_replan:
  assumes "track_inv True t" "is_active t" "pending_of t \<noteq> []" "node_st FINAL_NODE_ID t \<noteq> Some Achieved"
    and "validate_replan from_str (nodes_of t) json = Some (Inr new)"
  shows "track_inv True (append_replan_nodes ck new t)"
proof (rule track_inv_step [OF assms(1) graph_step.replan [OF assms(2) pending_replan_ready [OF assms(1,3,4)] assms(5)]])
  have "t_state t \<noteq> None" using assms(2) by (auto simp: is_active_def graph_status_def)
  then have ns: "nodes_of (append_replan_nodes ck new t) =
      promote_ready (upd FINAL_NODE_ID (regate_final (map n_id new)) (nodes_of t @ new))" by (simp del: not_None_eq)
  have "\<not> running FINAL_NODE_ID t" using track_invD(3) [OF assms(1)] assms(3) by blast
  then have "running i (append_replan_nodes ck new t)" if "running i t" for i
    using that st_of_append [of "nodes_of t" i Running new] unfolding running_nodes ns
    by (subst running_promote, subst st_of_upd) (auto simp: regate_final_def)
  then show "current_node_id (append_replan_nodes ck new t) = None \<or> current_node_id (append_replan_nodes ck new t) = current_node_id t \<and>
      (\<forall>i. current_node_id t = Some i \<longrightarrow> running i t \<longrightarrow> running i (append_replan_nodes ck new t))" by simp
qed simp

lemma running_frozen: "distinct (node_ids ns) \<Longrightarrow> st_of ns i = Some Running \<longleftrightarrow> (i, Running) \<in> frozen_view ns"
  using st_of_iff [of ns] st_of_SomeD [of ns i Running] by (force simp: frozen_view_def is_pending_def)

lemma running_finished:
  assumes "optimized existing ed"
  shows "st_of (finished ed) i = Some Running \<longleftrightarrow> st_of existing i = Some Running"
proof -
  have r: "n_status (finish ed n) = Running \<longleftrightarrow> n_status n = Running" for n
    by (simp add: is_pending_def)
  have "st_of (map (finish ed) ns) i = Some Running \<longleftrightarrow> st_of ns i = Some Running" for ns
  proof (induction ns)
    case (Cons n ns)
    then show ?case using r [of n] by (auto simp: st_of_def simp del: finish_simps(4))
  qed (simp add: st_of_def)
  then have "st_of (finished ed) i = Some Running \<longleftrightarrow> st_of ed i = Some Running"
    by (simp only: optimizedD(6) [OF assms])
  also have "\<dots> \<longleftrightarrow> st_of existing i = Some Running"
    using running_frozen optimizedD(1,2,3) [OF assms] by simp
  finally show ?thesis .
qed

lemma track_inv_optimize:
  assumes "track_inv co t" "is_active t" "nodes_of t \<noteq> []"
    and "apply_optimization from_str (nodes_of t) json = Inr (Some nodes)"
  shows "track_inv co (install_optimized_nodes ck nodes t)"
proof (rule track_inv_step [OF assms(1) graph_step.optimize [OF assms(2-4)]])
  obtain ed where O: "optimized (nodes_of t) ed" "nodes = finished ed"
    using apply_optimization_Some [OF reach_graph_ok [OF track_invD(1) [OF assms(1)] assms(3)] assms(4)] .
  have "t_state t \<noteq> None" using assms(2) by (auto simp: is_active_def graph_status_def)
  then have "running i (install_optimized_nodes ck nodes t) \<longleftrightarrow> running i t" for i
    using running_finished [OF O(1), of i] O(2) by (simp add: running_nodes del: not_None_eq)
  moreover have "nodes \<noteq> []" using optimizedD(7,8) [OF O(1)] O(2) by (metis empty_iff empty_set list.map_disc_iff node_ids_def)
  then have "nodes_of (install_optimized_nodes ck nodes t) \<noteq> []" using \<open>t_state t \<noteq> None\<close> by (simp del: not_None_eq)
  ultimately show "current_node_id (install_optimized_nodes ck nodes t) = None \<or>
      current_node_id (install_optimized_nodes ck nodes t) = current_node_id t \<and>
        (\<forall>i. current_node_id t = Some i \<longrightarrow> running i t \<longrightarrow> running i (install_optimized_nodes ck nodes t))"
    "pending_of (install_optimized_nodes ck nodes t) = [] \<or> pending_of (install_optimized_nodes ck nodes t) = pending_of t \<and>
       (nodes_of (install_optimized_nodes ck nodes t) = [] \<longrightarrow> nodes_of t = []) \<and>
       (running FINAL_NODE_ID (install_optimized_nodes ck nodes t) \<longrightarrow> running FINAL_NODE_ID t)"
    by simp_all
qed

section \<open>Open nodes\<close>

definition open_nodes :: "graph_tracker \<Rightarrow> nat" where
  "open_nodes t = open_count (nodes_of t)"

definition replan_runs :: "graph_tracker \<Rightarrow> nat" where
  "replan_runs t = (case t_state t of None \<Rightarrow> 0 | Some s \<Rightarrow> unat (g_replan_runs s))"

lemma open_count_map:
  assumes "\<And>n. n \<in> set ns \<Longrightarrow> is_terminal (n_status n) \<Longrightarrow> is_terminal (n_status (f n))"
  shows "open_count (map f ns) \<le> open_count ns"
  using assms by (induction ns) (auto simp: open_count_def)

lemma open_count_map_less:
  assumes "\<And>n. n \<in> set ns \<Longrightarrow> is_terminal (n_status n) \<Longrightarrow> is_terminal (n_status (f n))"
    and "m \<in> set ns" "\<not> is_terminal (n_status m)" "is_terminal (n_status (f m))"
  shows "open_count (map f ns) < open_count ns"
  using assms
proof (induction ns)
  case (Cons n ns)
  have le: "open_count (map f ns) \<le> open_count ns" using Cons.prems(1) by (intro open_count_map) auto
  show ?case
  proof (cases "m = n")
    case True
    with le Cons.prems show ?thesis by (auto simp: open_count_def)
  next
    case False
    then have "open_count (map f ns) < open_count ns" using Cons by auto
    with Cons.prems(1) [of n] show ?thesis by (auto simp: open_count_def)
  qed
qed simp

lemma open_count_same: "(\<And>n. is_terminal (n_status (f n)) \<longleftrightarrow> is_terminal (n_status n)) \<Longrightarrow> open_count (map f ns) = open_count ns"
  by (induction ns) (auto simp: open_count_def)

lemma open_promote [simp]: "open_count (promote_ready ns) = open_count ns"
  unfolding promote_ready_def by (rule open_count_same) (simp add: promote_def is_terminal_def)

lemma open_upd [simp]:
  "(\<And>n. n_status (g n) = n_status n) \<Longrightarrow> open_count (upd i g ns) = open_count ns"
  by (induction ns) (auto simp: open_count_def)

lemma open_nodes_simps [simp]:
  "open_nodes (stamp_goal_id i g t) = open_nodes t" "open_nodes (charge_node_tokens i k t) = open_nodes t"
  "open_nodes (queue_discoveries ck ds t) = open_nodes t" "open_nodes (clear_current_node t) = open_nodes t"
  "open_nodes (snd (drain_discoveries_to_history t)) = open_nodes t" "open_nodes (bump_replan_runs t) = open_nodes t"
  by (simp_all add: open_nodes_def)

lemma open_count_run:
  "st_of ns i = Some Ready \<Longrightarrow> open_count (upd i (\<lambda>n. n\<lparr>n_status := Running, n_goal_id := Some g\<rparr>) ns) = open_count ns"
  by (induction ns) (auto simp: open_count_def st_of_def is_terminal_def split: if_splits)

lemma open_nodes_run: "node_st i t = Some Ready \<Longrightarrow> open_nodes (mark_node_running ck i g t) = open_nodes t"
  by (simp add: open_nodes_def node_st_nodes open_count_run)

lemma open_nodes_achieve:
  assumes "graph_reach t" "running i t"
  shows "open_nodes (mark_node_achieved ck i r k t) < open_nodes t"
proof -
  obtain n where n: "n \<in> set (nodes_of t)" "n_id n = i" "n_status n = Running" using running_SomeD [OF assms(2)] by blast
  show ?thesis
    unfolding open_nodes_def view_achieve open_promote upd_map [OF reach_mem_ok [OF assms(1) n(1)]]
    by (rule open_count_map_less [OF _ n(1)]) (use n in \<open>auto simp: is_terminal_def\<close>)
qed

lemma open_nodes_fail:
  assumes "graph_reach t" "running i t"
  shows "open_nodes (mark_node_failed ck i d t) < open_nodes t"
proof -
  obtain n where n: "n \<in> set (nodes_of t)" "n_id n = i" "n_status n = Running" using running_SomeD [OF assms(2)] by blast
  show ?thesis
    unfolding open_nodes_def nodes_fail [OF assms]
    by (rule open_count_map_less [OF _ n(1)]) (use n in \<open>auto simp: is_terminal_def fail_map_def\<close>)
qed

lemma open_count_le: "open_count ns \<le> length ns"
  by (simp add: open_count_def)

lemma open_nodes_le:
  assumes "graph_reach t"
  shows "open_nodes t \<le> MAX_GRAPH_NODES + 1"
proof (cases "t_state t")
  case (Some s)
  then show ?thesis
    using reach_state [OF assms Some] open_count_le [of "g_nodes s"] by (simp add: state_ok_def open_nodes_def nodes_of_def)
qed (simp add: open_nodes_def nodes_of_def open_count_def)

lemma open_nodes_pos: "running i t \<Longrightarrow> 0 < open_nodes t"
  using running_SomeD [of i t] by (force simp: open_nodes_def open_count_def is_terminal_def filter_empty_conv)

lemma runs_simps [simp]:
  "replan_runs (stamp_goal_id i g t) = replan_runs t" "replan_runs (charge_node_tokens i k t) = replan_runs t"
  "replan_runs (queue_discoveries ck ds t) = replan_runs t" "replan_runs (clear_current_node t) = replan_runs t"
  "replan_runs (mark_node_running ck i g t) = replan_runs t" "replan_runs (mark_node_achieved ck i r k t) = replan_runs t"
  "replan_runs (mark_node_failed ck i d t) = replan_runs t" "replan_runs (snd (drain_discoveries_to_history t)) = replan_runs t"
  by (cases "t_state t"; auto simp: replan_runs_def stamp_goal_id_def charge_node_tokens_def queue_discoveries_def
        clear_current_node_def mark_node_running_def mark_node_achieved_def recompute_ready_def mark_node_failed_def
        block_dependents_def drain_discoveries_to_history_def)+

lemma unat_Suc_less: "r < (c :: u32) \<Longrightarrow> unat (r + 1) = Suc (unat r) \<and> unat r < unat c"
proof -
  assume "r < c"
  then have l: "unat r < unat c" by (simp add: word_less_nat_alt)
  moreover have "unat c < 2 ^ LENGTH(32)" by (rule unsigned_less)
  ultimately show ?thesis by (simp add: unat_word_ariths)
qed

end
