(* ===== verification/Graph_Planner.thy ===== *)
theory Graph_Planner
  imports Graph_Replan Graph_Optimize Graph_Workers
begin

text \<open>
  One planner, replanner or optimizer pass, \<open>session/graph_planner.rs\<close>, and the \<open>Display\<close> text of
  the validation errors that is fed back to a second attempt (\<open>session/graph_plan.rs\<close>).

  What the file system and the spawned subagent answer is the argument \<open>pass_io\<close>; the prompt
  templates and the tool-name substitution are arguments as well.  A pass may panic where the
  validation it runs may (\<open>None\<close>).
\<close>

section \<open>Error texts\<close>

text \<open>\<open>dbg\<close> is the \<open>Debug\<close> rendering of a string, \<open>{:?}\<close>.\<close>

fun node_status_debug :: "node_status \<Rightarrow> string" where
  "node_status_debug Waiting = ''Waiting''"
| "node_status_debug Ready = ''Ready''"
| "node_status_debug Running = ''Running''"
| "node_status_debug Verifying = ''Verifying''"
| "node_status_debug Achieved = ''Achieved''"
| "node_status_debug Failed = ''Failed''"
| "node_status_debug NodeBlocked = ''Blocked''"

fun op_reason_text :: "(string \<Rightarrow> string) \<Rightarrow> op_reason \<Rightarrow> string" where
  "op_reason_text dbg (UnknownNode i) = ''unknown node '' @ dbg i"
| "op_reason_text dbg (NotPending i st) =
     ''node '' @ dbg i @ '' is '' @ node_status_debug st @ ''; only Waiting/Ready nodes may be edited''"
| "op_reason_text dbg (NoSuchDep n d) = ''node '' @ dbg n @ '' has no dependency on '' @ dbg d"
| "op_reason_text dbg (ReorderTwice i) = ''reorder lists '' @ dbg i @ '' twice''"
| "op_reason_text dbg MergeSelf = ''merge into == from''"
| "op_reason_text dbg (MergeDependent f d) =
     ''node '' @ dbg f @ '' has non-pending dependent '' @ dbg d @ ''; it cannot be merged''"
| "op_reason_text dbg MergeTerminal = ''the terminal node cannot participate in a merge''"
| "op_reason_text dbg SplitTerminal = ''the terminal node cannot be split''"
| "op_reason_text dbg (SplitDependent n d) =
     ''node '' @ dbg n @ '' has non-pending dependent '' @ dbg d @ ''; it cannot be split''"
| "op_reason_text dbg (SplitCount n k) = ''split of '' @ dbg n @ '' needs 2-3 replacements, got '' @ show_nat k"
| "op_reason_text dbg (SplitEmptyField r) = ''split replacement '' @ dbg r @ '' has an empty title/spec''"
| "op_reason_text dbg (ImmutableChanged i) = ''immutable node '' @ dbg i @ '' was modified or removed''"

fun graph_plan_error_fmt :: "(string \<Rightarrow> string) \<Rightarrow> graph_plan_error \<Rightarrow> string" where
  "graph_plan_error_fmt dbg (Parse e) = ''graph JSON failed to parse: '' @ e"
| "graph_plan_error_fmt dbg Empty = ''graph has no nodes''"
| "graph_plan_error_fmt dbg (TooManyNodes n) =
     ''graph has '' @ show_nat n @ '' nodes; the cap is '' @ show_nat MAX_GRAPH_NODES"
| "graph_plan_error_fmt dbg (BadSlug s) = ''node id '' @ dbg s @ '' is invalid: use 1-64 chars of [A-Za-z0-9_-]''"
| "graph_plan_error_fmt dbg (DuplicateSlug s) = ''duplicate node id '' @ dbg s"
| "graph_plan_error_fmt dbg (EmptyField s f) = ''node '' @ dbg s @ '' has an empty '' @ f"
| "graph_plan_error_fmt dbg (UnknownDep s d) = ''node '' @ dbg s @ '' depends on unknown node '' @ dbg d"
| "graph_plan_error_fmt dbg (SelfDep s) = ''node '' @ dbg s @ '' depends on itself''"
| "graph_plan_error_fmt dbg (Cycle ns) = ''dependency cycle among nodes: '' @ join '', '' ns"
| "graph_plan_error_fmt dbg (IdCollision a b) =
     ''hash id collision between slugs '' @ dbg a @ '' and '' @ dbg b @ ''; rename one''"
| "graph_plan_error_fmt dbg (ExistingCollision s) =
     ''new node '' @ dbg s @ '' collides with an existing graph node; rename it''"
| "graph_plan_error_fmt dbg (UnknownOrigin s d) =
     ''node '' @ dbg s @ '' claims discovered_from unknown node '' @ dbg d"
| "graph_plan_error_fmt dbg (DeadDep s d) =
     ''node '' @ dbg s @ '' depends on '' @ dbg d @ '', which already failed; depend on live nodes only (or none)''"
| "graph_plan_error_fmt dbg (OpInvalid r) = ''invalid optimization op: '' @ op_reason_text dbg r"

section \<open>What a pass reads from the outside\<close>

definition MAX_GRAPH_JSON_BYTES :: u64 where
  "MAX_GRAPH_JSON_BYTES = 256 * 1024"

datatype spawn_error = Transport string | Runtime string bool

datatype graph_planner_outcome =
    Planned "graph_node list"
  | Invalid string
  | FailClosed string

text \<open>\<open>remove_file\<close>: done, not found, or another error.\<close>

datatype rm_result = RmOk | RmNotFound | RmErr string

record pass_io =
  io_mkdir :: "string option" \<comment> \<open>the error of \<open>create_dir_all\<close>\<close>
  io_rm :: rm_result
  io_spawn :: "string \<Rightarrow> string \<times> string \<Rightarrow> spawn_error + string" \<comment> \<open>spawn id, primary and fallback prompt\<close>
  io_meta :: "(bool \<times> u64) option" \<comment> \<open>\<open>is_file\<close> and length of the artifact, after the spawn\<close>
  io_read :: "string + string"

record pass_env =
  pv_dbg :: "string \<Rightarrow> string"
  pv_planner_template :: string
  pv_replanner_template :: string
  pv_optimizer_template :: string
  pv_apply :: "string \<Rightarrow> string" \<comment> \<open>\<open>tool_names.apply\<close>\<close>
  pv_apply_inherit :: "string \<Rightarrow> string"
  pv_plan_from_str :: "string \<Rightarrow> string + planned_node list" \<comment> \<open>\<open>serde_json::from_str::<PlannedGraph>\<close>\<close>
  pv_ops_from_str :: "string \<Rightarrow> string + optimize_op list"
  pv_nodes_empty :: "string \<Rightarrow> bool" \<comment> \<open>the text is JSON whose \<open>nodes\<close> is an empty array\<close>

definition spawn_error_text :: "string \<Rightarrow> spawn_error \<Rightarrow> string" where
  "spawn_error_text role e =
     (case e of
        Transport detail \<Rightarrow> role @ '' transport error: '' @ detail
      | Runtime message cancelled \<Rightarrow>
          if cancelled then role @ '' aborted: '' @ message else role @ '' runtime error: '' @ message)"

definition graph_file_prompt :: "string \<Rightarrow> string \<Rightarrow> string" where
  "graph_file_prompt template graph_file = replace_str ''{GRAPH_FILE}'' graph_file template"

section \<open>The passes\<close>

definition planner_render :: "string \<Rightarrow> string \<Rightarrow> string \<Rightarrow> string" where
  "planner_render rendered objective feedback =
     rendered @ [nl, nl] @ ''OBJECTIVE:'' @ [nl] @ objective @ [nl, nl] @ ''CONTEXT:'' @ [nl] @ feedback @ [nl]"

text \<open>
  The part \<open>run_graph_planner\<close> and \<open>run_graph_replanner\<close> share up to the artifact text; \<open>dir\<close> is
  the parent of the artifact, \<open>noun\<close> what the size message calls it, \<open>missing\<close> and \<open>unreadable\<close>
  the messages of the last two checks.
\<close>

definition read_artifact ::
  "pass_io \<Rightarrow> string \<Rightarrow> string \<times> string \<Rightarrow> string \<Rightarrow> string \<Rightarrow> string \<Rightarrow> string \<Rightarrow> string \<Rightarrow> graph_planner_outcome + string" where
  "read_artifact io sid prompt dir role noun missing unreadable =
     (case io_mkdir io of
        Some err \<Rightarrow> Inl (FailClosed (''failed to create graph dir '' @ dir @ '': '' @ err))
      | None \<Rightarrow>
      case io_rm io of
        RmErr err \<Rightarrow> Inl (FailClosed (''failed to clear stale graph artifact: '' @ err))
      | _ \<Rightarrow>
      case io_spawn io sid prompt of
        Inl e \<Rightarrow> Inl (FailClosed (spawn_error_text role e))
      | Inr _ \<Rightarrow>
      (case io_meta io of
         Some (is_file, len) \<Rightarrow>
           if is_file \<and> len > 0
           then if len > MAX_GRAPH_JSON_BYTES
                then Inl (Invalid (noun @ '' is '' @ show_nat (unat len) @ '' bytes; the cap is ''
                                   @ show_nat (unat MAX_GRAPH_JSON_BYTES)))
                else (case io_read io of
                        Inl err \<Rightarrow> Inl (FailClosed (unreadable @ err))
                      | Inr json \<Rightarrow> Inr json)
           else Inl (FailClosed missing)
       | None \<Rightarrow> Inl (FailClosed missing)))"

definition outcome_of :: "(string \<Rightarrow> string) \<Rightarrow> graph_plan_error + graph_node list \<Rightarrow> graph_planner_outcome" where
  "outcome_of dbg r =
     (case r of Inr nodes \<Rightarrow> Planned nodes | Inl err \<Rightarrow> Invalid (graph_plan_error_fmt dbg err))"

definition run_graph_planner ::
  "pass_env \<Rightarrow> pass_io \<Rightarrow> string \<Rightarrow> string \<Rightarrow> string \<Rightarrow> string \<Rightarrow> string \<Rightarrow> graph_planner_outcome option" where
  "run_graph_planner pv io sid objective feedback dir graph_file =
    (let with_file = graph_file_prompt (pv_planner_template pv) graph_file;
         prompt = (planner_render (pv_apply pv with_file) objective feedback,
                   planner_render (pv_apply_inherit pv with_file) objective feedback)
     in case read_artifact io sid prompt dir ''graph planner'' ''graph JSON''
               ''graph planner produced no graph file'' ''failed to read graph file: '' of
          Inl out \<Rightarrow> Some out
        | Inr json \<Rightarrow>
            map_option (outcome_of (pv_dbg pv))
              (parse_and_validate (pv_plan_from_str pv) json objective))"

definition replanner_render :: "string \<Rightarrow> string \<Rightarrow> string \<Rightarrow> string \<Rightarrow> string \<Rightarrow> string" where
  "replanner_render rendered objective current_graph discoveries feedback =
     rendered @ [nl, nl] @ ''OBJECTIVE:'' @ [nl] @ objective @ [nl, nl] @ ''CURRENT GRAPH:'' @ [nl] @ current_graph
     @ [nl, nl] @ ''DISCOVERIES:'' @ [nl] @ discoveries @ [nl, nl] @ ''CONTEXT:'' @ [nl] @ feedback @ [nl]"

definition run_graph_replanner ::
  "pass_env \<Rightarrow> pass_io \<Rightarrow> string \<Rightarrow> graph_node list \<Rightarrow> string \<Rightarrow> string \<Rightarrow> string \<Rightarrow> string \<Rightarrow> string \<Rightarrow> string
     \<Rightarrow> graph_planner_outcome option" where
  "run_graph_replanner pv io sid existing objective current_graph discoveries feedback dir graph_file =
    (let with_file = graph_file_prompt (pv_replanner_template pv) graph_file;
         prompt = (replanner_render (pv_apply pv with_file) objective current_graph discoveries feedback,
                   replanner_render (pv_apply_inherit pv with_file) objective current_graph discoveries feedback)
     in case read_artifact io sid prompt dir ''graph replanner'' ''replan JSON''
               ''graph replanner produced no artifact'' ''failed to read replan artifact: '' of
          Inl out \<Rightarrow> Some out
        | Inr json \<Rightarrow>
            if pv_nodes_empty pv json then Some (Planned [])
            else map_option (outcome_of (pv_dbg pv))
                   (validate_replan (pv_plan_from_str pv) existing json))"

definition run_graph_artifact_pass ::
  "pass_env \<Rightarrow> pass_io \<Rightarrow> string \<Rightarrow> string \<Rightarrow> string \<Rightarrow> string \<Rightarrow> string \<Rightarrow> string + string" where
  "run_graph_artifact_pass pv io sid template sections graph_file role =
     (case io_mkdir io of
        Some err \<Rightarrow> Inl (''failed to create graph dir: '' @ err)
      | None \<Rightarrow>
      case io_rm io of
        RmErr err \<Rightarrow> Inl (''failed to clear stale artifact: '' @ err)
      | _ \<Rightarrow>
      let text = pv_apply pv (graph_file_prompt template graph_file) @ [nl, nl] @ sections
      in case io_spawn io sid (text, text) of
           Inl e \<Rightarrow> Inl (spawn_error_text role e)
         | Inr _ \<Rightarrow>
         (case io_meta io of
            Some (is_file, len) \<Rightarrow>
              if is_file \<and> len > 0 \<and> len \<le> MAX_GRAPH_JSON_BYTES
              then (case io_read io of
                      Inl err \<Rightarrow> Inl (''failed to read '' @ role @ '' artifact: '' @ err)
                    | Inr json \<Rightarrow> Inr json)
              else if len > MAX_GRAPH_JSON_BYTES
              then Inl (role @ '' artifact is '' @ show_nat (unat len) @ '' bytes; the cap is ''
                        @ show_nat (unat MAX_GRAPH_JSON_BYTES))
              else Inl (role @ '' produced no artifact'')
          | None \<Rightarrow> Inl (role @ '' produced no artifact'')))"

section \<open>What the passes guarantee\<close>

lemma run_graph_planner_total: "\<exists>out. run_graph_planner pv io sid obj fb dir file = Some out"
  unfolding run_graph_planner_def using parse_and_validate_cases
  by (auto simp: Let_def split: sum.splits)

lemma outcome_of_Planned [simp]: "outcome_of dbg r = Planned nodes \<longleftrightarrow> r = Inr nodes"
  by (auto simp: outcome_of_def split: sum.splits)

lemma read_artifact_not_planned: "read_artifact io sid prompt dir role noun m u \<noteq> Inl (Planned nodes)"
  by (auto simp: read_artifact_def split: sum.splits option.splits rm_result.splits if_splits)

lemma run_graph_planner_Planned:
  assumes "run_graph_planner pv io sid obj fb dir file = Some (Planned nodes)"
  shows "\<exists>json. parse_and_validate (pv_plan_from_str pv) json obj = Some (Inr nodes)"
  using assms read_artifact_not_planned unfolding run_graph_planner_def Let_def
  by (auto split: sum.splits)

lemma run_graph_replanner_total:
  "wf_nodes existing \<Longrightarrow> \<exists>out. run_graph_replanner pv io sid existing obj cg ds fb dir file = Some out"
  unfolding run_graph_replanner_def using validate_replan_no_panic [of existing]
  by (auto simp: Let_def split: sum.splits)

lemma run_graph_replanner_Planned:
  assumes "run_graph_replanner pv io sid existing obj cg ds fb dir file = Some (Planned nodes)" "nodes \<noteq> []"
  shows "\<exists>json. validate_replan (pv_plan_from_str pv) existing json = Some (Inr nodes)"
  using assms read_artifact_not_planned unfolding run_graph_replanner_def Let_def
  by (auto split: sum.splits if_splits)

end
