(* ===== verification/Graph_Project.thy ===== *)
theory Graph_Project
  imports Graph_Tracker
begin

text \<open>
  The project-level graph file, \<open>session/graph_project.rs\<close>: \<open>.kigi/graph.jsonl\<close> holds one header
  line and one line per node, written atomically by the session that holds the lock.

  \<open>serde_json\<close> is a parameter, the record \<open>graph_serde\<close>: the header and node encoders and decoders
  of \<open>GraphOrchestration\<close> and \<open>GraphNode\<close>.  What the file code relies on is \<open>serde_faithful\<close>: a
  value decodes to itself and its encoding is a single non-blank line.  The file system answers
  through \<open>write_io\<close>; the file's content is the argument and the result.
\<close>

record graph_serde =
  sd_header_to :: "graph_orchestration \<Rightarrow> string + string"
  sd_header_from :: "string \<Rightarrow> string + graph_orchestration"
  sd_node_to :: "graph_node \<Rightarrow> string + string"
  sd_node_from :: "string \<Rightarrow> string + graph_node"

definition graph_file_path :: "string \<Rightarrow> string" where
  "graph_file_path dir = path_join dir ''graph.jsonl''"

definition lock_file_path :: "string \<Rightarrow> string" where
  "lock_file_path dir = path_join dir ''graph.jsonl.lock''"

definition header_has_inline_nodes :: "graph_orchestration \<Rightarrow> bool" where
  "header_has_inline_nodes h \<longleftrightarrow> g_nodes h \<noteq> []"

section \<open>The writer lock\<close>

datatype lock_outcome = Acquired | Busy

text \<open>\<open>flock\<close> answers: taken, contended, or another error.\<close>

datatype flock_result = FlockOk | FlockContended | FlockErr string

record lock_io =
  lk_mkdir :: "string option"
  lk_open :: "string option"
  lk_flock :: flock_result

definition try_acquire_writer :: "lock_io \<Rightarrow> string + lock_outcome" where
  "try_acquire_writer io =
     (case lk_mkdir io of Some e \<Rightarrow> Inl e | None \<Rightarrow>
      case lk_open io of Some e \<Rightarrow> Inl e | None \<Rightarrow>
      case lk_flock io of
        FlockOk \<Rightarrow> Inr Acquired
      | FlockContended \<Rightarrow> Inr Busy
      | FlockErr e \<Rightarrow> Inl e)"

section \<open>Writing\<close>

fun encode_nodes :: "graph_serde \<Rightarrow> graph_node list \<Rightarrow> string + string" where
  "encode_nodes sd [] = Inr []"
| "encode_nodes sd (n # ns) =
     ebind (sd_node_to sd n) (\<lambda>l. ebind (encode_nodes sd ns) (\<lambda>rest. Inr (l @ [nl] @ rest)))"

definition project_text :: "graph_serde \<Rightarrow> graph_orchestration \<Rightarrow> string + string" where
  "project_text sd st =
     ebind (sd_header_to sd (st\<lparr>g_nodes := []\<rparr>)) (\<lambda>h.
     ebind (encode_nodes sd (g_nodes st)) (\<lambda>body. Inr (h @ [nl] @ body)))"

record write_io =
  wr_mkdir :: "string option"
  wr_create :: "string option"
  wr_write :: "string option"
  wr_sync :: "string option"
  wr_replace :: "string option"

text \<open>\<open>project\<close>: the target changes only by the final rename.\<close>

definition project :: "graph_serde \<Rightarrow> write_io \<Rightarrow> graph_orchestration \<Rightarrow> string option \<Rightarrow> (string + unit) \<times> string option" where
  "project sd io st file =
     (case wr_mkdir io of Some e \<Rightarrow> (Inl e, file) | None \<Rightarrow>
      case project_text sd st of
        Inl e \<Rightarrow> (Inl e, file)
      | Inr text \<Rightarrow>
      case check_all id [wr_create io, wr_write io, wr_sync io, wr_replace io] of
        Some e \<Rightarrow> (Inl e, file)
      | None \<Rightarrow> (Inr (), Some text))"

text \<open>\<open>remove\<close>: a missing file is fine; \<open>err\<close> is the error of \<open>remove_file\<close> on an existing one.\<close>

definition remove_projection :: "string option \<Rightarrow> string option \<Rightarrow> (string + unit) \<times> string option" where
  "remove_projection err file =
     (case file of
        None \<Rightarrow> (Inr (), None)
      | Some _ \<Rightarrow> (case err of Some e \<Rightarrow> (Inl e, file) | None \<Rightarrow> (Inr (), None)))"

section \<open>Loading\<close>

fun decode_nodes :: "graph_serde \<Rightarrow> string \<Rightarrow> nat \<Rightarrow> string list \<Rightarrow> string + graph_node list" where
  "decode_nodes sd path idx [] = Inr []"
| "decode_nodes sd path idx (l # ls) =
     (case sd_node_from sd l of
        Inl e \<Rightarrow> Inl (path @ '' node line '' @ show_nat (idx + 2) @ '': '' @ e)
      | Inr n \<Rightarrow> ebind (decode_nodes sd path (Suc idx) ls) (\<lambda>ns. Inr (n # ns)))"

text \<open>\<open>read\<close>: an I/O error, or the content, \<open>None\<close> when there is no file.\<close>

definition load :: "graph_serde \<Rightarrow> string \<Rightarrow> string + string option \<Rightarrow> string + graph_orchestration option" where
  "load sd dir read =
     (case read of
        Inl e \<Rightarrow> Inl e
      | Inr None \<Rightarrow> Inr None
      | Inr (Some raw) \<Rightarrow>
          (case filter (\<lambda>l. trim l \<noteq> []) (lines raw) of
             [] \<Rightarrow> Inr None
           | header_line # rest \<Rightarrow>
               (case sd_header_from sd header_line of
                  Inl e \<Rightarrow> Inl (graph_file_path dir @ '' line 1: '' @ e)
                | Inr h \<Rightarrow>
                    if header_has_inline_nodes h
                    then Inl (graph_file_path dir @ '' line 1 embeds nodes inline; nodes belong one per line'')
                    else ebind (decode_nodes sd (graph_file_path dir) 0 rest) (\<lambda>ns.
                           Inr (Some (h\<lparr>g_nodes := g_nodes h @ ns\<rparr>))))))"

section \<open>The round trip\<close>

definition one_line :: "string \<Rightarrow> bool" where
  "one_line l \<longleftrightarrow> nl \<notin> set l \<and> trim l \<noteq> [] \<and> last l \<noteq> cr"

definition serde_faithful :: "graph_serde \<Rightarrow> graph_orchestration \<Rightarrow> bool" where
  "serde_faithful sd st \<longleftrightarrow>
     (\<exists>h. sd_header_to sd (st\<lparr>g_nodes := []\<rparr>) = Inr h \<and> one_line h \<and>
          sd_header_from sd h = Inr (st\<lparr>g_nodes := []\<rparr>)) \<and>
     (\<forall>n \<in> set (g_nodes st). \<exists>l. sd_node_to sd n = Inr l \<and> one_line l \<and> sd_node_from sd l = Inr n)"

lemma lines_from_line:
  "nl \<notin> set l \<Longrightarrow> last (rev cur @ l) \<noteq> cr \<Longrightarrow> cur @ l \<noteq> [] \<Longrightarrow>
     lines_from cur (l @ [nl] @ rest) = (rev cur @ l) # lines_from [] rest"
proof (induction l arbitrary: cur)
  case (Cons c l)
  show ?case using Cons.prems Cons.IH [of "c # cur"] by (cases l) auto
next
  case Nil
  then show ?case by (cases cur) auto
qed

lemma lines_line:
  assumes "one_line l"
  shows "lines (l @ [nl] @ rest) = l # lines rest"
proof -
  have "l \<noteq> []" using assms by (auto simp: one_line_def)
  then show ?thesis
    using lines_from_line [of l "[]" rest] assms by (auto simp: lines_def one_line_def)
qed

lemma encode_nodes_lines:
  assumes "\<forall>n \<in> set ns. \<exists>l. sd_node_to sd n = Inr l \<and> one_line l \<and> sd_node_from sd l = Inr n"
  shows "\<exists>body ls. encode_nodes sd ns = Inr body \<and> lines body = ls \<and> (\<forall>l \<in> set ls. one_line l) \<and>
           (\<forall>path idx. decode_nodes sd path idx ls = Inr ns)"
  using assms
proof (induction ns)
  case Nil
  then show ?case by (simp add: lines_def)
next
  case (Cons n ns)
  obtain body ls where b: "encode_nodes sd ns = Inr body" "lines body = ls" "\<forall>l \<in> set ls. one_line l"
    "\<forall>path idx. decode_nodes sd path idx ls = Inr ns" using Cons by auto
  obtain l where l: "sd_node_to sd n = Inr l" "one_line l" "sd_node_from sd l = Inr n" using Cons.prems by auto
  then show ?case using b lines_line [OF l(2), of body] by (auto simp: ebind_def)
qed

lemma load_project_text:
  assumes "serde_faithful sd st"
  shows "\<exists>text. project_text sd st = Inr text \<and> load sd dir (Inr (Some text)) = Inr (Some st)"
proof -
  obtain h where h: "sd_header_to sd (st\<lparr>g_nodes := []\<rparr>) = Inr h" "one_line h" "sd_header_from sd h = Inr (st\<lparr>g_nodes := []\<rparr>)"
    using assms by (auto simp: serde_faithful_def)
  obtain body ls where b: "encode_nodes sd (g_nodes st) = Inr body" "lines body = ls" "\<forall>l \<in> set ls. one_line l"
    "\<forall>path idx. decode_nodes sd path idx ls = Inr (g_nodes st)"
    using encode_nodes_lines [of "g_nodes st" sd] assms by (auto simp: serde_faithful_def)
  have f: "filter (\<lambda>l. trim l \<noteq> []) ls = ls" using b(3) by (intro filter_True) (auto simp: one_line_def)
  have "lines (h @ [nl] @ body) = h # ls" using lines_line [OF h(2)] b(2) by simp
  moreover have "trim h \<noteq> []" using h(2) by (simp add: one_line_def)
  ultimately show ?thesis
    using h b f by (simp add: project_text_def load_def ebind_def header_has_inline_nodes_def)
qed

text \<open>Whatever fails, the file holds the old content or the complete new one.\<close>

lemma project_atomic:
  "project sd io st file = (r, file') \<Longrightarrow>
     (case r of Inl _ \<Rightarrow> file' = file | Inr _ \<Rightarrow> (\<exists>text. project_text sd st = Inr text \<and> file' = Some text))"
  unfolding project_def by (cases "wr_mkdir io"; cases "project_text sd st"; simp split: option.splits) auto

end
