(* ===== verification/Goal_Text.thy ===== *)
theory Goal_Text
  imports Rust_Text
begin

text \<open>
  The texts that cross the boundary between the harness and the model: what the harness inlines
  into a reminder is capped and made inert first (\<open>goal_classifier.rs\<close>,
  \<open>goal_classifier/evidence.rs\<close>, \<open>acp_session_impl/goal_support.rs\<close>), the next step is mined from
  the plan file (\<open>goal_next_step.rs\<close>), and the continuation directive is rendered from its slots.
\<close>

section \<open>Capping and neutralizing\<close>

definition zwsp :: string where
  "zwsp = [CHR 0xE2, CHR 0x80, CHR 0x8B]"

definition ellipsis :: string where
  "ellipsis = [CHR 0xE2, CHR 0x80, CHR 0xA6]"

definition GAPS_EVIDENCE_MAX_CHARS :: nat where
  "GAPS_EVIDENCE_MAX_CHARS = 800"

definition PRIOR_GAPS_MAX_CHARS :: nat where
  "PRIOR_GAPS_MAX_CHARS = 4000"

definition GOAL_NEXT_STEP_MAX_CHARS :: nat where
  "GOAL_NEXT_STEP_MAX_CHARS = 400"

definition cap_chars :: "string \<Rightarrow> nat \<Rightarrow> string" where
  "cap_chars s max_chars =
     (case nth_char_start max_chars s of Some at \<Rightarrow> take at s @ ellipsis | None \<Rightarrow> s)"

definition neutralize_reminder_tags :: "string \<Rightarrow> string" where
  "neutralize_reminder_tags s =
     replace_str ''<goal-state>'' (''<'' @ zwsp @ ''goal-state>'')
       (replace_str ''</goal-state>'' (''<'' @ zwsp @ ''/goal-state>'')
         (replace_str ''<system-reminder>'' (''<'' @ zwsp @ ''system-reminder>'')
           (replace_str ''</system-reminder>'' (''<'' @ zwsp @ ''/system-reminder>'') s)))"

definition sanitize_evidence :: "string \<Rightarrow> string" where
  "sanitize_evidence evidence = neutralize_reminder_tags (cap_chars (trim evidence) GAPS_EVIDENCE_MAX_CHARS)"

definition sanitize_prior_gaps :: "string \<Rightarrow> string" where
  "sanitize_prior_gaps gaps = neutralize_reminder_tags (cap_chars (trim gaps) PRIOR_GAPS_MAX_CHARS)"

fun brace_break :: "char \<Rightarrow> string" where
  "brace_break c = (if c = CHR ''{'' then CHR ''{'' # zwsp else if c = CHR ''}'' then zwsp @ [CHR ''}''] else [c])"

definition neutralize_directive_braces :: "string \<Rightarrow> string" where
  "neutralize_directive_braces s = concat (map brace_break s)"

definition neutralize_directive_slot :: "string \<Rightarrow> string" where
  "neutralize_directive_slot s =
     (let out = neutralize_directive_braces s
      in if contains_str ''system-reminder>'' out \<or> contains_str ''goal-state>'' out
         then neutralize_reminder_tags out else out)"

definition SANITIZE_TAGS :: "string list" where
  "SANITIZE_TAGS = [''</system-reminder>'', ''</goal-state>'', ''</classifier-evidence>'', ''</changes>'',
     ''</final_response>'']"

fun escape_tags :: "string list \<Rightarrow> string \<Rightarrow> string" where
  "escape_tags [] out = out"
| "escape_tags (tag # tags) out =
     escape_tags tags (if contains_str tag out then replace_str tag (''<<!--esc-->'' @ tl tag) out else out)"

definition sanitize_final_response :: "string \<Rightarrow> string" where
  "sanitize_final_response s =
     (if \<not> list_ex (\<lambda>t. contains_str t s) SANITIZE_TAGS then s else escape_tags SANITIZE_TAGS s)"

section \<open>Evidence\<close>

definition FIRST_FINAL_RESPONSE_MAX_CHARS :: nat where
  "FIRST_FINAL_RESPONSE_MAX_CHARS = 4096"

definition GOAL_CLASSIFIER_DIFF_MAX_BYTES :: nat where
  "GOAL_CLASSIFIER_DIFF_MAX_BYTES = 256 * 1024"

record composed_final_response =
  cfr_to_send :: string
  cfr_to_persist :: "string option"

definition compose_verifier_final_response :: "string option \<Rightarrow> string \<Rightarrow> composed_final_response" where
  "compose_verifier_final_response first current =
     (case first of
        None \<Rightarrow> \<lparr>cfr_to_send = current,
                 cfr_to_persist = (if trim current = [] then None
                                   else Some (take_chars FIRST_FINAL_RESPONSE_MAX_CHARS current))\<rparr>
      | Some anchor \<Rightarrow>
          let note = trim current
          in \<lparr>cfr_to_send = (if note = [] \<or> note = trim anchor then anchor
                             else anchor @ [nl, nl] @ ''## Changes this round'' @ [nl] @ note),
              cfr_to_persist = None\<rparr>)"

definition truncate_diff :: "string \<Rightarrow> string" where
  "truncate_diff raw =
     (if length raw \<le> GOAL_CLASSIFIER_DIFF_MAX_BYTES then raw
      else let elided = length raw - GOAL_CLASSIFIER_DIFF_MAX_BYTES;
               at = floor_boundary raw GOAL_CLASSIFIER_DIFF_MAX_BYTES
           in take at raw @ [nl] @ ''... (diff truncated, '' @ show_nat elided @ '' bytes elided) ...'' @ [nl])"

text \<open>\<open>rsplit_once(" b/")\<close>, the part after the last occurrence.\<close>

fun after_last :: "string \<Rightarrow> string \<Rightarrow> string option" where
  "after_last pat [] = None"
| "after_last pat (c # cs) =
     (case after_last pat cs of
        Some r \<Rightarrow> Some r
      | None \<Rightarrow> if prefix pat (c # cs) then Some (drop (length pat) (c # cs)) else None)"

definition changed_file_of :: "string \<Rightarrow> string option" where
  "changed_file_of l =
     (case strip_prefix_str ''diff --git '' l of
        None \<Rightarrow> None
      | Some rest \<Rightarrow> (case after_last '' b/'' rest of Some p \<Rightarrow> if p = [] then None else Some p | None \<Rightarrow> None))"

definition extract_changed_files :: "string \<Rightarrow> string list" where
  "extract_changed_files diff = remdups_adj (sort (List.map_filter changed_file_of (lines diff)))"

section \<open>The next step\<close>

definition is_any_header :: "string \<Rightarrow> bool" where
  "is_any_header line \<longleftrightarrow> prefix ''#'' (trim_start line)"

definition is_section_header :: "string \<Rightarrow> string \<Rightarrow> bool" where
  "is_section_header line name \<longleftrightarrow>
     prefix ''#'' (trim_start line) \<and>
     eq_ignore_ascii_case (trim (trim_start_char (CHR ''#'') (trim_start line))) name"

definition header_level :: "string \<Rightarrow> nat" where
  "header_level line = length (takeWhile (\<lambda>c. c = CHR ''#'') (trim_start line))"

definition strip_bullet_marker :: "string \<Rightarrow> string option" where
  "strip_bullet_marker s =
     map_option trim_start
       (case strip_prefix_str ''- '' s of Some r \<Rightarrow> Some r
        | None \<Rightarrow> (case strip_prefix_str ''* '' s of Some r \<Rightarrow> Some r | None \<Rightarrow> strip_prefix_str ''+ '' s))"

definition parse_checkbox_item :: "string \<Rightarrow> string option" where
  "parse_checkbox_item s =
     Option.bind (strip_bullet_marker s) (\<lambda>m.
       Option.bind (strip_prefix_str ''[ ]'' m) (\<lambda>r. if trim r = [] then None else Some (trim r)))"

fun first_in_checklist :: "nat option \<Rightarrow> string list \<Rightarrow> string option" where
  "first_in_checklist level [] = None"
| "first_in_checklist level (l # ls) =
     (if is_section_header l ''task checklist'' then first_in_checklist (Some (header_level l)) ls
      else case level of
        None \<Rightarrow> first_in_checklist None ls
      | Some k \<Rightarrow>
          if is_any_header l \<and> header_level l \<le> k then None
          else case parse_checkbox_item (trim_start l) of
            Some item \<Rightarrow> Some item
          | None \<Rightarrow> first_in_checklist (Some k) ls)"

definition first_unchecked_in_checklist :: "string \<Rightarrow> string option" where
  "first_unchecked_in_checklist body = first_in_checklist None (lines body)"

definition EXCLUDED_SECTIONS :: "string list" where
  "EXCLUDED_SECTIONS = [''non-goals'', ''deviations'']"

fun first_outside_excluded :: "bool \<Rightarrow> string list \<Rightarrow> string option" where
  "first_outside_excluded excluded [] = None"
| "first_outside_excluded excluded (l # ls) =
     (if is_any_header l then first_outside_excluded (list_ex (is_section_header l) EXCLUDED_SECTIONS) ls
      else if excluded then first_outside_excluded excluded ls
      else case parse_checkbox_item (trim_start l) of
        Some item \<Rightarrow> Some item
      | None \<Rightarrow> first_outside_excluded excluded ls)"

definition extract_first_unchecked :: "string \<Rightarrow> string option" where
  "extract_first_unchecked body =
     (if list_ex (\<lambda>l. is_section_header l ''task checklist'') (lines body)
      then first_unchecked_in_checklist body
      else first_outside_excluded False (lines body))"

definition MAX_READ_BYTES :: nat where
  "MAX_READ_BYTES = 8 * 1024"

text \<open>
  \<open>read_capped\<close> on the bytes of the file; \<open>lossy\<close> is \<open>String::from_utf8_lossy\<close>.  A truncated
  read is cut back to its last newline.
\<close>

definition read_capped :: "(string \<Rightarrow> string) \<Rightarrow> string option \<Rightarrow> string option" where
  "read_capped lossy content =
     map_option (\<lambda>bytes.
       let buf = take MAX_READ_BYTES bytes
       in lossy (if length buf \<ge> MAX_READ_BYTES \<and> nl \<in> set buf
                 then rev (tl (dropWhile (\<lambda>c. c \<noteq> nl) (rev buf))) else buf)) content"

definition first_unchecked_plan_item :: "(string \<Rightarrow> string) \<Rightarrow> string option \<Rightarrow> string option" where
  "first_unchecked_plan_item lossy content = Option.bind (read_capped lossy content) extract_first_unchecked"

text \<open>\<open>plan\<close> is the content of the plan file when there is a plan path and the file can be read.\<close>

definition resolve_goal_next_step :: "(string \<Rightarrow> string) \<Rightarrow> string option \<Rightarrow> string option" where
  "resolve_goal_next_step lossy plan =
     map_option (\<lambda>item. neutralize_reminder_tags (cap_chars item GOAL_NEXT_STEP_MAX_CHARS))
       (first_unchecked_plan_item lossy plan)"

section \<open>The continuation directive\<close>

definition GOAL_CONTINUATION_DIRECTIVE_TEMPLATE :: string where
  "GOAL_CONTINUATION_DIRECTIVE_TEMPLATE =
     ''<system-reminder>'' @ [nl]
     @ ''<goal-state>'' @ [nl]
     @ ''Objective: {objective}'' @ [nl]
     @ ''Status: Active'' @ [nl]
     @ ''Tokens: {tokens} | Elapsed: {elapsed}'' @ [nl]
     @ ''</goal-state>'' @ [nl]
     @ [nl]
     @ ''{bail_preface}{plan_pointer}{verifier_gaps}{strategist_note}{reverify_block}Goal NOT complete '' @ em_dash @ '' continue working. Next step:'' @ [nl]
     @ ''{next_step}'' @ [nl]
     @ [nl]
     @ ''Keep your {todo_tool} list current ('' @ [CHR 0xE2, CHR 0x89, CHR 0xA5] @ ''1 '' @ [backtick] @ ''in_progress'' @ [backtick] @ '', descriptive'' @ [nl]
     @ [backtick] @ ''activeForm'' @ [backtick] @ ''). Run targeted tests after every change you make, not'' @ [nl]
     @ ''just at the end. Tests must drive the SHIPPED code on the real path '' @ em_dash @ '' no'' @ [nl]
     @ ''hard-coded values, no starting past the thing under test, no'' @ [nl]
     @ ''re-implementing it. Save captured test output and artifacts to your'' @ [nl]
     @ ''scratch dir {scratch_dir} {scratch_status}, never shared '' @ [backtick] @ ''/tmp/...'' @ [backtick] @ '';'' @ [nl]
     @ ''the plan'' @ [CHR 0x27] @ ''s '' @ [backtick] @ ''{SCRATCH}'' @ [backtick] @ '' placeholder resolves there. The verifier AUDITS your committed tests and'' @ [nl]
     @ ''saved evidence rather than rebuilding them '' @ em_dash @ '' leave honest proof or you'' @ [nl]
     @ ''WILL be refuted.'' @ [nl]
     @ ''Before calling '' @ [backtick] @ ''{goal_tool}(completed: true)'' @ [backtick] @ '', run the'' @ [nl]
     @ ''plan'' @ [CHR 0x27] @ ''s '' @ [backtick] @ ''## Verification plan'' @ [backtick] @ '' steps yourself and confirm the observations'' @ [nl]
     @ ''it lists hold '' @ em_dash @ '' the harness re-checks against those SAME steps each attempt'' @ [nl]
     @ ''and inlines any outstanding verifier gaps above.'' @ [nl]
     @ ''</system-reminder>'' @ [nl]"

definition GOAL_CONTINUATION_BAIL_PREFACE :: string where
  "GOAL_CONTINUATION_BAIL_PREFACE =
     ''You appear to be stopping or handing off, but the goal is NOT complete and todos remain. Do not end the turn here ''
     @ em_dash @ '' keep working.'' @ [nl, nl]"

definition render_goal_reverify_block :: "u32 \<Rightarrow> bool \<Rightarrow> u32 \<Rightarrow> string \<Rightarrow> string" where
  "render_goal_reverify_block rounds_since_verify refuted threshold goal_tool =
     (if \<not> refuted \<or> rounds_since_verify < threshold then []
      else let lead = (if unat rounds_since_verify \<ge> min (3 * unat threshold) (2 ^ 32 - 1)
                       then ''STOP DRIFTING '' @ em_dash @ '' RE-VERIFY NOW.''
                       else ''Re-verify before continuing.'')
           in lead @ '' You have run '' @ show_nat (unat rounds_since_verify)
              @ '' rounds since your last verification without calling '' @ [backtick] @ goal_tool @ ''(completed: true)'' @ [backtick]
              @ ''. The ONLY way to finish this goal is to PASS verification '' @ em_dash
              @ '' not to keep editing. If the plan'' @ [CHR 0x27] @ ''s '' @ [backtick] @ ''## Verification plan'' @ [backtick]
              @ '' steps now hold, call '' @ [backtick] @ goal_tool @ ''(completed: true)'' @ [backtick]
              @ '' THIS round to re-trigger the skeptic panel. If they do NOT, name the SINGLE concrete gap still blocking it and fix exactly that ''
              @ em_dash @ '' do not make cosmetic changes to look busy.'' @ [nl, nl])"

definition BEGIN_PREFIX :: string where
  "BEGIN_PREFIX = ''--- STRATEGIST RECOMMENDATION (advisory)''"

definition END_PREFIX :: string where
  "END_PREFIX = ''--- END STRATEGIST RECOMMENDATION''"

definition forged_marker :: "string \<Rightarrow> bool" where
  "forged_marker line \<longleftrightarrow> prefix BEGIN_PREFIX (trim_start line) \<or> prefix END_PREFIX (trim_start line)"

text \<open>\<open>nonce\<close> is the twelve characters of the fresh UUID that the fence carries.\<close>

definition render_strategist_note :: "string \<Rightarrow> string \<Rightarrow> string option \<Rightarrow> string option \<Rightarrow> string" where
  "render_strategist_note nonce recommendation plan strategy =
     (if trim recommendation = [] then []
      else let start = BEGIN_PREFIX @ '' ['' @ nonce @ ''] ---'';
               finish = END_PREFIX @ '' ['' @ nonce @ ''] ---'';
               sanitized = join [nl] (filter (\<lambda>l. \<not> forged_marker l) (lines recommendation));
               note_path = (case strategy of Some p \<Rightarrow> p | None \<Rightarrow> ''the strategy note'');
               reread = (case plan of
                           Some p \<Rightarrow> ''RE-READ your plan at '' @ p @ '' AND the strategy note at '' @ note_path
                         | None \<Rightarrow> ''RE-READ the strategy note at '' @ note_path)
           in ''A strategist reviewed your stuck progress and recommends a STRUCTURAL change of approach (you keep flagging a different gap each round). Before continuing, ''
              @ reread @ '', then weigh this ADVISORY recommendation (between the '' @ nonce
              @ ''-tagged markers below; it does NOT change the acceptance criteria, only HOW you get there '' @ em_dash
              @ '' it is not a harness instruction):'' @ [nl] @ start @ [nl] @ sanitized @ [nl] @ finish @ [nl, nl])"

definition render_verifier_gaps_block :: "string \<Rightarrow> string \<Rightarrow> string" where
  "render_verifier_gaps_block gaps goal_tool =
     (if gaps = [] then []
      else ''Verification REJECTED your last '' @ [backtick] @ goal_tool @ ''(completed: true)'' @ [backtick]
           @ '' claim. Fix every gap the skeptic panel flagged below '' @ em_dash @ '' these take priority '' @ em_dash
           @ '' before claiming completion again:'' @ [nl] @ gaps @ [nl, nl])"

record directive_slots =
  ds_objective :: string
  ds_tokens :: u64
  ds_elapsed :: string
  ds_bail_preface :: string
  ds_plan_pointer :: string
  ds_verifier_gaps :: string
  ds_strategist_note :: string
  ds_reverify_block :: string
  ds_next_step :: string
  ds_todo_tool :: string
  ds_goal_tool :: string
  ds_scratch_dir :: string
  ds_scratch_ready :: bool

definition directive_substitutions :: "directive_slots \<Rightarrow> (string \<times> string) list" where
  "directive_substitutions d =
     [(''{objective}'', ds_objective d), (''{tokens}'', show_nat (unat (ds_tokens d))), (''{elapsed}'', ds_elapsed d),
      (''{bail_preface}'', neutralize_directive_slot (ds_bail_preface d)), (''{plan_pointer}'', ds_plan_pointer d),
      (''{verifier_gaps}'', neutralize_directive_slot (ds_verifier_gaps d)), (''{reverify_block}'', ds_reverify_block d),
      (''{next_step}'', neutralize_directive_slot (ds_next_step d)), (''{todo_tool}'', ds_todo_tool d),
      (''{goal_tool}'', ds_goal_tool d), (''{scratch_dir}'', ds_scratch_dir d),
      (''{scratch_status}'', if ds_scratch_ready d then ''(created for you)''
         else ''(create with '' @ [backtick] @ ''mkdir -p'' @ [backtick] @ '' if missing)''),
      (''{strategist_note}'', neutralize_directive_slot (ds_strategist_note d))]"

definition render_goal_continuation_directive :: "directive_slots \<Rightarrow> string" where
  "render_goal_continuation_directive d =
     foldl (\<lambda>t (slot, v). replace_str slot v t) GOAL_CONTINUATION_DIRECTIVE_TEMPLATE (directive_substitutions d)"

section \<open>Pause messages\<close>

definition format_goal_pause_message :: "string \<Rightarrow> string \<Rightarrow> string \<Rightarrow> string" where
  "format_goal_pause_message headline pause_summary details_path =
     (case (trim pause_summary = [], trim details_path \<noteq> []) of
        (True, True) \<Rightarrow> headline @ '' See '' @ details_path
      | (True, False) \<Rightarrow> headline
      | (False, True) \<Rightarrow> headline @ [nl] @ pause_summary @ [nl] @ ''See '' @ details_path
      | (False, False) \<Rightarrow> headline @ [nl] @ pause_summary)"

definition format_blocked_chat_notification :: "string \<Rightarrow> string option \<Rightarrow> string" where
  "format_blocked_chat_notification reason detail =
     ''Goal paused '' @ em_dash @ '' verification blocked.'' @ [nl] @ ''Reason: '' @ reason @ [nl]
     @ (case detail of Some d \<Rightarrow> d @ [nl] | None \<Rightarrow> [])
     @ [nl] @ ''Type /goal resume to continue after you'' @ [CHR 0x27] @ ''ve addressed it.''"

section \<open>Model text stays inert\<close>

definition reminder_tags :: "string list" where
  "reminder_tags = [''</system-reminder>'', ''<system-reminder>'', ''</goal-state>'', ''<goal-state>'']"

lemma avoids_literal:
  assumes "CHR ''<'' \<notin> set p" "p \<noteq> []" "hd p \<noteq> CHR 0xE2" "CHR ''<'' \<notin> set r"
  shows "avoids (CHR ''<'' # p) (CHR ''<'' # zwsp @ r)"
proof -
  have no: "avoids (CHR ''<'' # p) u" if "CHR ''<'' \<notin> set u" for u
    using that by (induction u) (auto intro!: avoids_Cons)
  have "avoids (CHR ''<'' # p) (zwsp @ r)" by (rule no) (use assms in \<open>simp add: zwsp_def\<close>)
  then show ?thesis using assms by (intro avoids_Cons) (auto simp: zwsp_def neq_Nil_conv)
qed

lemma break_tag:
  assumes "q = CHR ''<'' # p" "CHR ''<'' \<notin> set p" "p \<noteq> []" "hd p \<noteq> CHR 0xE2" "CHR ''<'' \<notin> set t"
    and "\<not> sublist q s \<or> q = CHR ''<'' # t"
  shows "\<not> sublist q (replace_str (CHR ''<'' # t) (''<'' @ zwsp @ t) s)"
  using replace_str_no_new [OF assms(1,2), of "zwsp @ t" s t] avoids_literal [OF assms(2-5)] assms(1,6) by simp

lemma chain:
  "p1 \<or> p2 \<or> p3 \<or> p4 \<Longrightarrow> (\<not> a0 \<or> p1 \<Longrightarrow> \<not> a1) \<Longrightarrow> (\<not> a1 \<or> p2 \<Longrightarrow> \<not> a2) \<Longrightarrow> (\<not> a2 \<or> p3 \<Longrightarrow> \<not> a3) \<Longrightarrow>
     (\<not> a3 \<or> p4 \<Longrightarrow> \<not> a4) \<Longrightarrow> \<not> a4"
  by blast

lemma neutralize_reminder_tags_inert:
  assumes "q \<in> set reminder_tags"
  shows "\<not> sublist q (neutralize_reminder_tags s)"
proof -
  have cases: "q = ''</system-reminder>'' \<or> q = ''<system-reminder>'' \<or> q = ''</goal-state>'' \<or> q = ''<goal-state>''"
    using assms by (simp add: reminder_tags_def)
  then have q: "q = CHR ''<'' # tl q" "CHR ''<'' \<notin> set (tl q)" "tl q \<noteq> []" "hd (tl q) \<noteq> CHR 0xE2"
    by (elim disjE; simp)+
  define s1 where "s1 = replace_str ''</system-reminder>'' (''<'' @ zwsp @ ''/system-reminder>'') s"
  define s2 where "s2 = replace_str ''<system-reminder>'' (''<'' @ zwsp @ ''system-reminder>'') s1"
  define s3 where "s3 = replace_str ''</goal-state>'' (''<'' @ zwsp @ ''/goal-state>'') s2"
  have r: "neutralize_reminder_tags s = replace_str ''<goal-state>'' (''<'' @ zwsp @ ''goal-state>'') s3"
    by (simp add: neutralize_reminder_tags_def s1_def s2_def s3_def)
  have b1: "\<not> sublist q s \<or> q = ''</system-reminder>'' \<Longrightarrow> \<not> sublist q s1"
    unfolding s1_def by (rule break_tag [OF q]) (simp, assumption)
  have b2: "\<not> sublist q s1 \<or> q = ''<system-reminder>'' \<Longrightarrow> \<not> sublist q s2"
    unfolding s2_def by (rule break_tag [OF q]) (simp, assumption)
  have b3: "\<not> sublist q s2 \<or> q = ''</goal-state>'' \<Longrightarrow> \<not> sublist q s3"
    unfolding s3_def by (rule break_tag [OF q]) (simp, assumption)
  have b4: "\<not> sublist q s3 \<or> q = ''<goal-state>'' \<Longrightarrow> \<not> sublist q (neutralize_reminder_tags s)"
    unfolding r by (rule break_tag [OF q]) (simp, assumption)
  show ?thesis by (rule chain [OF cases b1 b2 b3 b4])
qed

lemma directive_slot_no_tags:
  assumes "q \<in> set reminder_tags"
  shows "\<not> sublist q (neutralize_directive_slot s)"
proof (cases "contains_str ''system-reminder>'' (neutralize_directive_braces s) \<or> contains_str ''goal-state>'' (neutralize_directive_braces s)")
  case False
  have "sublist ''system-reminder>'' q \<or> sublist ''goal-state>'' q" using assms by (auto simp: reminder_tags_def sublist_Cons_right)
  then show ?thesis
    using False by (auto simp: neutralize_directive_slot_def Let_def contains_str_def dest: sublist_order.order_trans)
qed (simp add: neutralize_directive_slot_def Let_def neutralize_reminder_tags_inert [OF assms])

lemma replace_str_keeps_pairs:
  assumes "a \<noteq> x" "a \<notin> set rep" "sublist [a, c] (replace_str (x # pat) (x # rep) s)"
  shows "sublist [a, c] s"
  using assms(3)
proof (induction s rule: length_induct)
  case (1 s)
  have skip: "sublist [a, c] (r @ t) \<Longrightarrow> sublist [a, c] t" if "a \<notin> set r" for r t :: string
    using that by (induction r) (auto simp: sublist_Cons_right)
  show ?case
  proof (cases s)
    case (Cons b bs)
    show ?thesis
    proof (cases "prefix (x # pat) s")
      case True
      let ?t = "drop (length (x # pat)) s"
      have "replace_str (x # pat) (x # rep) s = (x # rep) @ replace_str (x # pat) (x # rep) ?t"
        using True unfolding Cons by simp
      then have "sublist [a, c] (replace_str (x # pat) (x # rep) ?t)" using 1(2) skip [of "x # rep"] assms(1,2) by simp
      moreover have "length ?t < length s" by (simp add: Cons)
      ultimately have "sublist [a, c] ?t" using 1(1) by blast
      then show ?thesis using suffix_imp_sublist [OF suffix_drop] sublist_order.order_trans by blast
    next
      case False
      then have "replace_str (x # pat) (x # rep) s = b # replace_str (x # pat) (x # rep) bs" unfolding Cons by auto
      then consider "prefix [a, c] (b # replace_str (x # pat) (x # rep) bs)" | "sublist [a, c] bs"
        using 1 Cons by (auto simp: sublist_Cons_right)
      then show ?thesis
      proof cases
        case 1
        then show ?thesis using Cons assms(1)
          by (cases bs) (auto simp: sublist_Cons_right split: if_splits)
      qed (simp add: Cons sublist_Cons_right)
    qed
  qed (use 1(2) in simp)
qed

lemma braces_broken: "sublist [CHR ''{'', c] (neutralize_directive_braces s) \<Longrightarrow> c = CHR 0xE2"
proof (induction s)
  case (Cons b s)
  then show ?case
    by (auto simp: neutralize_directive_braces_def zwsp_def sublist_Cons_right split: if_splits)
qed (simp add: neutralize_directive_braces_def)

lemma neutralize_keeps_pairs: "sublist [CHR ''{'', c] (neutralize_reminder_tags s) \<Longrightarrow> sublist [CHR ''{'', c] s"
  unfolding neutralize_reminder_tags_def append_Cons append_Nil
  by (drule replace_str_keeps_pairs [rotated 2]; (simp add: zwsp_def)?)+

lemma directive_slot_no_braces: "sublist [CHR ''{'', c] (neutralize_directive_slot s) \<Longrightarrow> c = CHR 0xE2"
  by (auto simp: neutralize_directive_slot_def Let_def split: if_splits dest: neutralize_keeps_pairs braces_broken)

subsection \<open>Evidence cannot close its frame\<close>

definition close_tag :: "string \<Rightarrow> bool" where
  "close_tag q \<longleftrightarrow> (\<exists>p. q = CHR ''<'' # CHR ''/'' # p \<and> CHR ''<'' \<notin> set p)"

lemma sanitize_tags_close: "list_all close_tag SANITIZE_TAGS"
  by (simp add: SANITIZE_TAGS_def close_tag_def)

lemma escape_one:
  assumes "close_tag q" "close_tag t" "\<not> sublist q s \<or> q = t"
  shows "\<not> sublist q (if contains_str t s then replace_str t (''<<!--esc-->'' @ tl t) s else s)"
proof (cases "contains_str t s")
  case True
  obtain p r where q: "q = CHR ''<'' # CHR ''/'' # p" "CHR ''<'' \<notin> set p" and t: "t = CHR ''<'' # CHR ''/'' # r" "CHR ''<'' \<notin> set r"
    using assms by (auto simp: close_tag_def)
  have no: "avoids q u" if "CHR ''<'' \<notin> set u" for u using that q(1) by (induction u) (auto intro!: avoids_Cons)
  have "avoids q (''!--esc-->/'' @ r)" by (rule no) (use t in simp)
  then have "avoids q (CHR ''<'' # ''<!--esc-->/'' @ r)" using q(1) by (auto intro!: avoids_Cons)
  then show ?thesis
    using replace_str_no_new [of q "CHR ''<''" "CHR ''/'' # p" "''<!--esc-->/'' @ r" s "CHR ''/'' # r"] q t assms(3) True by simp
next
  case False
  then show ?thesis using assms(3) by (auto simp: contains_str_def)
qed

lemma escape_tags_inert:
  assumes "list_all close_tag tags" "close_tag q" "\<not> sublist q s \<or> q \<in> set tags"
  shows "\<not> sublist q (escape_tags tags s)"
  using assms(1,3)
proof (induction tags arbitrary: s)
  case (Cons t tags)
  let ?s = "if contains_str t s then replace_str t (''<<!--esc-->'' @ tl t) s else s"
  have "\<not> sublist q ?s \<or> q \<in> set tags" using escape_one [OF assms(2), of t s] Cons.prems by auto
  then show ?case using Cons by simp
qed simp

lemma sanitize_final_response_inert:
  assumes "q \<in> set SANITIZE_TAGS"
  shows "\<not> sublist q (sanitize_final_response s)"
proof (cases "list_ex (\<lambda>t. contains_str t s) SANITIZE_TAGS")
  case True
  then show ?thesis
    using escape_tags_inert [OF sanitize_tags_close] sanitize_tags_close assms
    by (simp add: sanitize_final_response_def list_all_iff)
next
  case False
  then show ?thesis using assms by (auto simp: sanitize_final_response_def list_ex_iff contains_str_def)
qed

end
