(* ===== verification/Goal_Classifier.thy ===== *)
theory Goal_Classifier
  imports Goal_Tracker Goal_Text
begin

text \<open>
  The verification stage, \<open>session/goal_classifier.rs\<close>: the skeptic panel that judges a claimed
  completion.  A skeptic is a subagent; what it answers, the verdict file it leaves, the captured
  diff and the outcome of every write are the fields of \<open>panel_io\<close>.  \<open>serde_json\<close> is \<open>pi_parse\<close>, the
  value of \<open>from_str(body).ok()\<close>.  The prompts are not modelled: the answer of a skeptic does not
  depend on the text it was sent.
\<close>

section \<open>Constants and paths\<close>

definition GOAL_VERIFIER_SKEPTIC_MIN :: u32 where
  "GOAL_VERIFIER_SKEPTIC_MIN = 1"

definition GOAL_VERIFIER_SKEPTIC_MAX :: u32 where
  "GOAL_VERIFIER_SKEPTIC_MAX = 5"

definition GOAL_VERIFIER_PANEL_MAX_BYTES :: nat where
  "GOAL_VERIFIER_PANEL_MAX_BYTES = 512 * 1024"

definition GAPS_MAX_FINDINGS :: nat where
  "GAPS_MAX_FINDINGS = 12"

definition GOAL_CLASSIFIER_DETAILS_PATH_TEMPLATE :: string where
  "GOAL_CLASSIFIER_DETAILS_PATH_TEMPLATE = ''goal-classifier-{verifier_id}-{attempt}.md''"

definition GOAL_CLASSIFIER_CHANGES_PATH_TEMPLATE :: string where
  "GOAL_CLASSIFIER_CHANGES_PATH_TEMPLATE = ''goal-classifier-{verifier_id}-{attempt}.patch''"

definition GOAL_VERIFIER_VERDICT_PATH_TEMPLATE :: string where
  "GOAL_VERIFIER_VERDICT_PATH_TEMPLATE = ''goal-verdict-{verifier_id}-{attempt}-{skeptic_idx}.json''"

definition GOAL_VERIFIER_DETAILS_PATH_TEMPLATE :: string where
  "GOAL_VERIFIER_DETAILS_PATH_TEMPLATE = ''goal-classifier-{verifier_id}-{attempt}-skeptic-{skeptic_idx}.md''"

definition scratch_rooted :: "goal_host \<Rightarrow> string \<Rightarrow> string \<Rightarrow> string" where
  "scratch_rooted h verifier_id name = path_join (goal_scratch_root h verifier_id) name"

definition format_details_path :: "goal_host \<Rightarrow> string \<Rightarrow> u32 \<Rightarrow> string" where
  "format_details_path h vid attempt =
     scratch_rooted h vid (replace_str ''{attempt}'' (show_nat (unat attempt))
       (replace_str ''{verifier_id}'' vid GOAL_CLASSIFIER_DETAILS_PATH_TEMPLATE))"

definition format_changes_path :: "goal_host \<Rightarrow> string \<Rightarrow> u32 \<Rightarrow> string" where
  "format_changes_path h vid attempt =
     scratch_rooted h vid (replace_str ''{attempt}'' (show_nat (unat attempt))
       (replace_str ''{verifier_id}'' vid GOAL_CLASSIFIER_CHANGES_PATH_TEMPLATE))"

definition format_verdict_path :: "goal_host \<Rightarrow> string \<Rightarrow> u32 \<Rightarrow> u32 \<Rightarrow> string" where
  "format_verdict_path h vid attempt idx =
     scratch_rooted h vid (replace_str ''{skeptic_idx}'' (show_nat (unat idx))
       (replace_str ''{attempt}'' (show_nat (unat attempt))
         (replace_str ''{verifier_id}'' vid GOAL_VERIFIER_VERDICT_PATH_TEMPLATE)))"

definition format_verifier_details_path :: "goal_host \<Rightarrow> string \<Rightarrow> u32 \<Rightarrow> u32 \<Rightarrow> string" where
  "format_verifier_details_path h vid attempt idx =
     scratch_rooted h vid (replace_str ''{skeptic_idx}'' (show_nat (unat idx))
       (replace_str ''{attempt}'' (show_nat (unat attempt))
         (replace_str ''{verifier_id}'' vid GOAL_VERIFIER_DETAILS_PATH_TEMPLATE)))"

datatype path_validation_error = UnsafeComponent | UnresolvedSubstitution | OutsideAllowedPrefix

definition validate_details_path_in_root :: "string \<Rightarrow> string \<Rightarrow> path_validation_error + unit" where
  "validate_details_path_in_root p temp_root =
     (if contains_str ''..'' p \<or> contains_str [CHR 0x00] p then Inl UnsafeComponent
      else if list_ex (\<lambda>pre. prefix pre p) [''/etc'', ''/proc'', ''/sys'', ''/dev''] then Inl UnsafeComponent
      else if prefix ''~'' p then Inl UnsafeComponent
      else if contains_str ''${'' p \<or> contains_str ''{'' p \<or> contains_str ''}'' p then Inl UnresolvedSubstitution
      else if \<not> path_starts_with p temp_root then Inl OutsideAllowedPrefix
      else Inr ())"

definition validate_details_path :: "goal_host \<Rightarrow> string \<Rightarrow> path_validation_error + unit" where
  "validate_details_path h p = validate_details_path_in_root p (h_temp_dir h)"

definition path_rejected :: "goal_host \<Rightarrow> string \<Rightarrow> bool" where
  "path_rejected h p = (case validate_details_path h p of Inl _ \<Rightarrow> True | Inr _ \<Rightarrow> False)"

section \<open>Models of the panel\<close>

definition expand_skeptic_assignment ::
  "goal_role_model list \<Rightarrow> goal_role_model list \<Rightarrow> nat \<Rightarrow> goal_role_model list" where
  "expand_skeptic_assignment existing pool n =
     (if pool = [] \<or> length existing \<ge> n then existing
      else existing @ map (\<lambda>i. pool ! (i mod length pool)) [length existing..<n])"

datatype role_capability = Skeptic | Strategist

record subagent_type_summary =
  sts_can_read :: bool
  sts_can_search :: bool
  sts_can_execute :: bool

fun capability_satisfied :: "role_capability \<Rightarrow> subagent_type_summary \<Rightarrow> bool" where
  "capability_satisfied Skeptic s = (sts_can_read s \<and> sts_can_search s)"
| "capability_satisfied Strategist s = (sts_can_read s \<and> sts_can_search s \<and> sts_can_execute s)"

datatype describe_outcome = DescribeOk subagent_type_summary | DescribeUnknown | DescribeNotAllowed | DescribeDisabled | DescribeUnavailable

datatype role_fail_open =
    ModelUnknown | ModelUnauthorized | HarnessFlavorUnsupported | ToolsetUnknown | ToolsetNotAllowed | ToolsetDisabled
  | ToolsetUnavailable | ToolsetIncapable | SpawnFailed

text \<open>
  \<open>re_selectable\<close> is the catalogue with each model's \<open>user_selectable\<close> flag; \<open>re_describe\<close> the answer
  of the coordinator to the question asked for the panel index.
\<close>

record role_env =
  re_selectable :: "string \<Rightarrow> bool option"
  re_strict :: "string \<Rightarrow> bool"
  re_representable :: "string \<Rightarrow> bool"
  re_describe :: "nat \<Rightarrow> string \<Rightarrow> describe_outcome"

type_synonym panel_resolve_cache = "(string \<times> describe_outcome) list"

definition resolve_described :: "role_capability \<Rightarrow> goal_role_model \<Rightarrow> describe_outcome \<Rightarrow> role_fail_open + goal_role_model" where
  "resolve_described cap pair out =
     (case out of
        DescribeOk summary \<Rightarrow> if capability_satisfied cap summary then Inr pair else Inl ToolsetIncapable
      | DescribeUnknown \<Rightarrow> Inl ToolsetUnknown
      | DescribeNotAllowed \<Rightarrow> Inl ToolsetNotAllowed
      | DescribeDisabled \<Rightarrow> Inl ToolsetDisabled
      | DescribeUnavailable \<Rightarrow> Inl ToolsetUnavailable)"

definition resolve_goal_role_override ::
  "role_env \<Rightarrow> nat \<Rightarrow> role_capability \<Rightarrow> goal_role_model \<Rightarrow> panel_resolve_cache
     \<Rightarrow> (role_fail_open + goal_role_model) \<times> panel_resolve_cache" where
  "resolve_goal_role_override e q cap pair cache =
     (case re_selectable e (grm_model pair) of
        None \<Rightarrow> (Inl ModelUnknown, cache)
      | Some selectable \<Rightarrow>
          if \<not> selectable then (Inl ModelUnauthorized, cache)
          else if re_strict e (grm_agent_type pair) \<and> \<not> re_representable e (grm_agent_type pair)
          then (Inl HarnessFlavorUnsupported, cache)
          else case map_of cache (grm_agent_type pair) of
            Some out \<Rightarrow> (resolve_described cap pair out, cache)
          | None \<Rightarrow>
              let out = re_describe e q (grm_agent_type pair)
              in if out = DescribeUnavailable then (Inl ToolsetUnavailable, cache)
                 else (resolve_described cap pair out, (grm_agent_type pair, out) # cache))"

text \<open>
  The overrides of a panel of \<open>n\<close>: an index without an assignment, or whose pair fails a gate, inherits
  the session's model (\<open>None\<close>).
\<close>

fun resolve_panel :: "role_env \<Rightarrow> goal_role_model list \<Rightarrow> nat list \<Rightarrow> panel_resolve_cache \<Rightarrow> goal_role_model option list" where
  "resolve_panel e assignment [] cache = []"
| "resolve_panel e assignment (i # is) cache =
     (if i < length assignment
      then let (r, cache') = resolve_goal_role_override e i Skeptic (assignment ! i) cache
           in (case r of Inr pair \<Rightarrow> Some pair | Inl _ \<Rightarrow> None) # resolve_panel e assignment is cache'
      else None # resolve_panel e assignment is cache)"

section \<open>Verdicts\<close>

datatype skeptic_confidence = High | Medium | Low | ConfUnknown

definition confidence_parse :: "string \<Rightarrow> skeptic_confidence" where
  "confidence_parse s =
    (let t = to_ascii_lowercase (trim s)
     in if t = ''high'' then High else if t = ''medium'' then Medium else if t = ''low'' then Low else ConfUnknown)"

fun confidence_as_const_str :: "skeptic_confidence \<Rightarrow> string" where
  "confidence_as_const_str High = ''high''"
| "confidence_as_const_str Medium = ''medium''"
| "confidence_as_const_str Low = ''low''"
| "confidence_as_const_str ConfUnknown = ''unknown''"

fun confidence_rank :: "skeptic_confidence \<Rightarrow> nat" where
  "confidence_rank High = 0"
| "confidence_rank Medium = 1"
| "confidence_rank Low = 2"
| "confidence_rank ConfUnknown = 3"

datatype skeptic_blocking = BlockNone | Contradiction | Unverifiable

definition blocking_parse :: "string \<Rightarrow> skeptic_blocking" where
  "blocking_parse s =
    (let t = to_ascii_lowercase (trim s)
     in if t = ''contradiction'' then Contradiction else if t = ''unverifiable'' then Unverifiable else BlockNone)"

definition is_blocking :: "skeptic_blocking \<Rightarrow> bool" where
  "is_blocking b \<longleftrightarrow> b \<noteq> BlockNone"

record finding =
  f_kind :: string
  f_location :: string
  f_detail :: string

definition finding_is_empty :: "finding \<Rightarrow> bool" where
  "finding_is_empty f \<longleftrightarrow> trim (f_kind f) = [] \<and> trim (f_location f) = [] \<and> trim (f_detail f) = []"

record skeptic_verdict =
  sv_refuted :: bool
  sv_evidence :: string
  sv_confidence :: skeptic_confidence
  sv_blocking :: skeptic_blocking
  sv_details_md :: string
  sv_findings :: "finding list"

record skeptic_verdict_raw =
  raw_refuted :: "bool option"
  raw_evidence :: "string option"
  raw_confidence :: "string option"
  raw_blocking :: "string option"
  raw_details_md :: "string option"
  raw_findings :: "finding list option"

definition parse_verdict_json :: "(string \<Rightarrow> skeptic_verdict_raw option) \<Rightarrow> string \<Rightarrow> skeptic_verdict option" where
  "parse_verdict_json parse body =
     Option.bind (parse (trim body)) (\<lambda>raw.
     Option.bind (raw_refuted raw) (\<lambda>refuted.
     Option.bind (raw_evidence raw) (\<lambda>evidence.
       if trim evidence = [] then None
       else Option.bind (raw_confidence raw) (\<lambda>conf.
         Some \<lparr>sv_refuted = refuted, sv_evidence = evidence, sv_confidence = confidence_parse conf,
               sv_blocking = (case raw_blocking raw of Some b \<Rightarrow> blocking_parse b | None \<Rightarrow> BlockNone),
               sv_details_md = (case raw_details_md raw of Some d \<Rightarrow> d | None \<Rightarrow> []),
               sv_findings = filter (\<lambda>f. \<not> finding_is_empty f)
                 (case raw_findings raw of Some fs \<Rightarrow> fs | None \<Rightarrow> [])\<rparr>))))"

definition fence_line :: "string \<Rightarrow> bool" where
  "fence_line l \<longleftrightarrow> prefix [backtick, backtick, backtick] l"

definition parse_skeptic_terminal_response :: "string \<Rightarrow> bool option" where
  "parse_skeptic_terminal_response s =
    (let ls = filter (\<lambda>l. l \<noteq> [])
                (map (\<lambda>l. trim (trim_end_pred (\<lambda>c. c = CHR ''.'' \<or> c = CHR ''!'') (trim_char backtick l)))
                  (filter (\<lambda>l. \<not> fence_line l) (map trim (lines s))))
     in if ls = [''Refuted''] then Some True else if ls = [''Not Refuted''] then Some False else None)"

record skeptic_result =
  sr_skeptic_idx :: u32
  sr_refuted :: bool
  sr_confidence :: skeptic_confidence
  sr_blocking :: skeptic_blocking
  sr_evidence :: string
  sr_findings :: "finding list"
  sr_fallback_note :: "string option"
  sr_latency_ms :: u64

definition skeptic_failure :: "u32 \<Rightarrow> string \<Rightarrow> u64 \<Rightarrow> skeptic_result" where
  "skeptic_failure idx note latency =
     \<lparr>sr_skeptic_idx = idx, sr_refuted = True, sr_confidence = ConfUnknown, sr_blocking = BlockNone,
      sr_evidence = [], sr_findings = [], sr_fallback_note = Some note, sr_latency_ms = latency\<rparr>"

definition aggregate_skeptic_verdicts :: "skeptic_result list \<Rightarrow> u32 \<times> u32 \<times> bool" where
  "aggregate_skeptic_verdicts results =
    (let total = of_nat (length results) :: u32
     in if total = 0 then (0, 0, False)
        else let refuted_count = of_nat (length (filter sr_refuted results));
                 (needed, not_refuted) =
                   (if total \<le> 1 then (1, total - refuted_count)
                    else (of_nat (length (filter (\<lambda>r. sr_skeptic_idx r \<ge> 1) results)) div 2 + 1,
                          of_nat (length (filter (\<lambda>r. sr_skeptic_idx r \<ge> 1 \<and> \<not> sr_refuted r) results))))
             in (refuted_count, total, not_refuted \<ge> needed))"

section \<open>Summaries and fingerprint\<close>

definition middle_dot :: string where
  "middle_dot = [CHR 0xC2, CHR 0xB7]"

definition render_finding :: "finding \<Rightarrow> string" where
  "render_finding f =
    (let kind = trim (f_kind f); loc = trim (f_location f); detail = trim (f_detail f);
         head = (if kind = [] then ''finding'' else kind);
         body = (if loc \<noteq> [] \<and> detail \<noteq> [] then head @ '' '' @ middle_dot @ '' '' @ loc @ '' '' @ em_dash @ '' '' @ detail
                 else if loc \<noteq> [] then head @ '' '' @ middle_dot @ '' '' @ loc
                 else if detail \<noteq> [] then head @ '' '' @ em_dash @ '' '' @ detail
                 else head)
     in sanitize_evidence body)"

definition render_refuter_bullet :: "skeptic_result \<Rightarrow> string" where
  "render_refuter_bullet r =
    (let idx = show_nat (unat (sr_skeptic_idx r));
         header = ''- [skeptic '' @ idx @ '', '' @ confidence_as_const_str (sr_confidence r) @ '']'';
         evidence = trim (sr_evidence r)
     in if sr_findings r \<noteq> []
        then header @ [nl] @ join [nl] (map (\<lambda>f. ''  - '' @ render_finding f) (take GAPS_MAX_FINDINGS (sr_findings r)))
        else if evidence \<noteq> [] then header @ '' '' @ sanitize_evidence evidence
        else case sr_fallback_note r of
          Some note \<Rightarrow> ''- [skeptic '' @ idx @ ''] no verdict produced: '' @ sanitize_evidence note
        | None \<Rightarrow> ''- [skeptic '' @ idx @ ''] refuted (no evidence)'')"

definition refuters_by_confidence :: "skeptic_result list \<Rightarrow> skeptic_result list" where
  "refuters_by_confidence results = sort_key (\<lambda>r. confidence_rank (sr_confidence r)) (filter sr_refuted results)"

definition build_gaps_summary :: "skeptic_result list \<Rightarrow> string" where
  "build_gaps_summary results = join [nl] (map render_refuter_bullet (refuters_by_confidence results))"

definition PAUSE_GROUP_FIXABLE :: string where
  "PAUSE_GROUP_FIXABLE = ''Model-fixable gaps''"

definition pause_groups :: "(skeptic_blocking \<times> string) list" where
  "pause_groups = [(BlockNone, PAUSE_GROUP_FIXABLE), (Contradiction, ''Contradictions (objective/plan conflict)''),
     (Unverifiable, ''Unverifiable in this environment'')]"

definition pause_group :: "skeptic_result list \<Rightarrow> skeptic_blocking \<times> string \<Rightarrow> string option" where
  "pause_group refuters g =
    (let bullets = map render_refuter_bullet (filter (\<lambda>r. sr_blocking r = fst g) refuters)
     in if bullets = [] then None else Some (snd g @ '':'' @ [nl] @ join [nl] bullets))"

definition build_pause_summary :: "skeptic_result list \<Rightarrow> string" where
  "build_pause_summary results = join [nl] (List.map_filter (pause_group (refuters_by_confidence results)) pause_groups)"

definition SCRATCH_MARKERS :: "string list" where
  "SCRATCH_MARKERS = [''/tmp/'', ''/var/folders/'', ''/private/tmp/'']"

definition has_scratch_marker :: "string \<Rightarrow> bool" where
  "has_scratch_marker s = list_ex (\<lambda>m. contains_str m s) SCRATCH_MARKERS"

definition normalize_scratch_paths :: "string \<Rightarrow> string" where
  "normalize_scratch_paths s =
     (if \<not> has_scratch_marker s then s
      else join '' '' (map (\<lambda>tok. if has_scratch_marker tok then ''<scratch>'' else tok) (split_whitespace s)))"

definition token_edge :: "char \<Rightarrow> bool" where
  "token_edge c \<longleftrightarrow> \<not> ascii_alphanumeric c \<and> c \<notin> set ''./_-:''"

definition path_line_token :: "string \<Rightarrow> string option" where
  "path_line_token raw =
     (case split_once (CHR '':'') (trim_pred token_edge raw) of
        None \<Rightarrow> None
      | Some (path, rest) \<Rightarrow>
          let line = takeWhile (\<lambda>c. c \<noteq> CHR '':'') rest
          in if path \<noteq> [] \<and> (CHR ''/'' \<in> set path \<or> CHR ''.'' \<in> set path) \<and> line \<noteq> [] \<and> list_all ascii_digit line
             then Some (to_ascii_lowercase path @ '':'' @ line) else None)"

definition extract_path_line_tokens :: "string \<Rightarrow> string list" where
  "extract_path_line_tokens s = List.map_filter path_line_token (split_ws s)"

definition gap_fingerprint :: "string list \<Rightarrow> string" where
  "gap_fingerprint evs =
    (let normalized = map normalize_scratch_paths evs;
         cited = concat (map extract_path_line_tokens normalized);
         tokens = (if cited = [] then filter (\<lambda>e. e \<noteq> []) (map (\<lambda>e. to_ascii_lowercase (trim e)) normalized) else cited)
     in join [nl] (remdups_adj (sort tokens)))"

definition refuter_fingerprint_source :: "skeptic_result \<Rightarrow> string" where
  "refuter_fingerprint_source r =
     (if trim (sr_evidence r) = [] then (case sr_fallback_note r of Some n \<Rightarrow> n | None \<Rightarrow> []) else sr_evidence r)"

definition cap_panel_details :: "string \<Rightarrow> string" where
  "cap_panel_details body =
     (if length body \<le> GOAL_VERIFIER_PANEL_MAX_BYTES then body
      else let at = floor_boundary body GOAL_VERIFIER_PANEL_MAX_BYTES
           in take at body @ [nl] @ ''... (panel details truncated, '' @ show_nat (length body - at) @ '' bytes elided) ...'' @ [nl])"

definition panel_headline :: "u32 \<Rightarrow> u32 \<Rightarrow> bool \<Rightarrow> string" where
  "panel_headline refuted_count votes achieved =
     ''# Goal verification '' @ em_dash @ (if achieved then '' Achieved'' else '' Not Achieved'') @ [nl, nl]
     @ show_nat (unat refuted_count) @ '' of '' @ show_nat (unat votes)
     @ (if achieved then '' skeptics refuted; survives the panel.'' else '' skeptics refuted; panel rejected the claim.'') @ [nl, nl]"

definition render_skeptic_panel_details ::
  "goal_host \<Rightarrow> skeptic_result list \<Rightarrow> u32 \<Rightarrow> u32 \<Rightarrow> bool \<Rightarrow> string \<Rightarrow> u32 \<Rightarrow> string" where
  "render_skeptic_panel_details h results refuted_count votes achieved vid attempt =
    (let paths = map (\<lambda>r. format_verifier_details_path h vid attempt (sr_skeptic_idx r)) (sort_key sr_skeptic_idx results);
         gaps = build_gaps_summary results
     in cap_panel_details
          (panel_headline refuted_count votes achieved
           @ (if \<not> achieved \<and> gaps \<noteq> [] then ''## Gaps to fix'' @ [nl, nl] @ gaps @ [nl, nl] else [])
           @ (if paths \<noteq> []
              then (if achieved then ''Per-skeptic reports: ''
                    else ''Fix the gaps above '' @ em_dash
                         @ '' they are what matters. For the full reasoning behind each, open the per-skeptic report files: '')
                   @ join '', '' paths @ [nl]
              else [])))"

section \<open>One skeptic\<close>

datatype spawn_error = Transport string | Runtime string bool

fun spawn_cancelled :: "spawn_error \<Rightarrow> bool" where
  "spawn_cancelled (Runtime _ c) = c"
| "spawn_cancelled (Transport _) = False"

datatype changes_capture = CaptureErr | Captured string "string list"

datatype panel_fs = WriteFile string string

text \<open>A non-empty file is left alone; otherwise the placeholder is written, or the write fails.\<close>

datatype placeholder_io = PlaceholderExists | PlaceholderWritten | PlaceholderFailed

text \<open>
  \<open>sk_send i resume explicit\<close> is the answer of skeptic \<open>i\<close> when spawned to resume the prior session or
  cold, on the configured pair or on the inherited model; \<open>sk_verdict_file\<close> what its verdict file then
  holds, \<open>sk_details_blank\<close> whether its report is missing or blank.
\<close>

record panel_io =
  pi_parse :: "string \<Rightarrow> skeptic_verdict_raw option"
  pi_root_err :: "string option"
  pi_capture :: changes_capture
  pi_patch_ok :: bool
  pi_placeholder :: placeholder_io
  pi_uuid :: string
  sk_root_err :: "nat \<Rightarrow> string option"
  sk_send :: "nat \<Rightarrow> bool \<Rightarrow> bool \<Rightarrow> spawn_error + string"
  sk_verdict_file :: "nat \<Rightarrow> bool \<Rightarrow> string option"
  sk_details_blank :: "nat \<Rightarrow> bool \<Rightarrow> bool"
  sk_latency :: "nat \<Rightarrow> u64"

text \<open>The configured pair first, then once on the session's model unless the spawn was cancelled.\<close>

definition spawn_with_fail_open_retry :: "bool \<Rightarrow> (bool \<Rightarrow> spawn_error + string) \<Rightarrow> spawn_error + string" where
  "spawn_with_fail_open_retry explicit spawn =
     (if \<not> explicit then spawn False
      else case spawn True of
        Inr t \<Rightarrow> Inr t
      | Inl e \<Rightarrow> if spawn_cancelled e then Inl e else spawn False)"

definition spawn_classifier :: "panel_io \<Rightarrow> goal_role_model option list \<Rightarrow> nat \<Rightarrow> bool \<Rightarrow> spawn_error + string" where
  "spawn_classifier io overrides i resume =
     spawn_with_fail_open_retry (i < length overrides \<and> overrides ! i \<noteq> None) (sk_send io i resume)"

definition read_skeptic_verdict ::
  "panel_io \<Rightarrow> nat \<Rightarrow> bool \<Rightarrow> string \<Rightarrow> string \<Rightarrow> skeptic_result \<times> panel_fs list" where
  "read_skeptic_verdict io i resume details_raw terminal =
     (case Option.bind (sk_verdict_file io i resume) (parse_verdict_json (pi_parse io)) of
        Some v \<Rightarrow>
          (\<lparr>sr_skeptic_idx = of_nat i, sr_refuted = sv_refuted v, sr_confidence = sv_confidence v,
            sr_blocking = sv_blocking v, sr_evidence = sv_evidence v, sr_findings = sv_findings v,
            sr_fallback_note = None, sr_latency_ms = sk_latency io i\<rparr>,
           if sk_details_blank io i resume \<and> trim (sv_details_md v) \<noteq> [] then [WriteFile details_raw (sv_details_md v)] else [])
      | None \<Rightarrow>
          (case parse_skeptic_terminal_response terminal of
             Some refuted \<Rightarrow>
               \<lparr>sr_skeptic_idx = of_nat i, sr_refuted = refuted, sr_confidence = ConfUnknown, sr_blocking = BlockNone,
                sr_evidence = [], sr_findings = [],
                sr_fallback_note = Some ''verdict JSON missing/malformed; used terminal token'',
                sr_latency_ms = sk_latency io i\<rparr>
           | None \<Rightarrow> skeptic_failure (of_nat i)
               (''verdict JSON missing/malformed AND terminal token unrecognised: '' @ take_chars 120 terminal) (sk_latency io i), []))"

fun bool_display :: "bool \<Rightarrow> string" where
  "bool_display True = ''true''"
| "bool_display False = ''false''"

fun spawn_failure_note :: "spawn_error \<Rightarrow> string" where
  "spawn_failure_note (Transport d) = ''transport error: '' @ d"
| "spawn_failure_note (Runtime m c) = ''runtime error (cancelled='' @ bool_display c @ ''): '' @ m"

definition run_cold_skeptic ::
  "panel_io \<Rightarrow> goal_role_model option list \<Rightarrow> string \<Rightarrow> nat \<Rightarrow> skeptic_result \<times> panel_fs list" where
  "run_cold_skeptic io overrides details_raw i =
     (case spawn_classifier io overrides i False of
        Inr terminal \<Rightarrow> read_skeptic_verdict io i False details_raw terminal
      | Inl e \<Rightarrow> (skeptic_failure (of_nat i) (spawn_failure_note e) (sk_latency io i), []))"

definition run_one_skeptic ::
  "panel_io \<Rightarrow> goal_host \<Rightarrow> goal_role_model option list \<Rightarrow> string \<Rightarrow> u32 \<Rightarrow> string option \<Rightarrow> nat
     \<Rightarrow> skeptic_result \<times> panel_fs list" where
  "run_one_skeptic io h overrides vid attempt resume_from i =
     (case sk_root_err io i of
        Some err \<Rightarrow> (skeptic_failure (of_nat i) (''internal: could not secure the goal scratch root: '' @ err) (sk_latency io i), [])
      | None \<Rightarrow>
          let details_raw = format_verifier_details_path h vid attempt (of_nat i)
          in if path_rejected h details_raw \<or> path_rejected h (format_verdict_path h vid attempt (of_nat i))
             then (skeptic_failure (of_nat i) ''internal: unsafe per-skeptic file path'' (sk_latency io i), [])
             else case resume_from of
               None \<Rightarrow> run_cold_skeptic io overrides details_raw i
             | Some prior \<Rightarrow>
                 (case spawn_classifier io overrides i True of
                    Inr terminal \<Rightarrow> read_skeptic_verdict io i True details_raw terminal
                  | Inl _ \<Rightarrow> run_cold_skeptic io overrides details_raw i))"

section \<open>The stage\<close>

datatype fail_open_reason = Timeout | SamplerError | Aborted | FileWriteFailed | GoalNotActiveAtResolve

fun fail_open_str :: "fail_open_reason \<Rightarrow> string" where
  "fail_open_str Timeout = ''timeout''"
| "fail_open_str SamplerError = ''sampler_error''"
| "fail_open_str Aborted = ''aborted''"
| "fail_open_str FileWriteFailed = ''file_write_failed''"
| "fail_open_str GoalNotActiveAtResolve = ''goal_not_active_at_resolve''"

datatype fail_closed_reason = ConcurrentInFlight | PendingQueueFull

datatype goal_classifier_outcome =
    OutAchieved string
  | OutNotAchieved string string string string \<comment> \<open>details path, gaps, pause summary, fingerprint\<close>
  | OutBlocked string string
  | OutFailOpenAchieved fail_open_reason string

datatype classifier_event =
    ClassifierFired u32 u32
  | SkepticVerdictEv u32 u32 bool skeptic_confidence
  | AggregateVerdictEv u32 u32 u32 bool
  | ClassifierVerdictEv goal_classifier_verdict u32
  | ClassifierFailOpen fail_open_reason u32
  | ClassifierFailClosed fail_closed_reason u32
  | ClassifierCapReachedEv u32
  | ClassifierDroppedAfterCap u32
  | ClassifierMidTurnDeferred u32
  | ClassifierPendingQueueCleared u32

record stage_inputs =
  vi_verifier_id :: string
  vi_attempt :: u32
  vi_skeptic_count :: u32
  vi_max_runs :: u32
  vi_prior_skeptic0 :: "string option"
  vi_overrides :: "goal_role_model option list"

record stage_result =
  vr_outcome :: goal_classifier_outcome
  vr_skeptic0_session_id :: "string option"
  vr_panel_ran :: bool
  vr_events :: "classifier_event list"
  vr_fs :: "panel_fs list"

definition fail_open_placeholder :: "fail_open_reason \<Rightarrow> string" where
  "fail_open_placeholder reason =
     ''# Verification fail-open: '' @ fail_open_str reason @ [nl, nl]
     @ ''The verification stage did not produce a verdict (infra-class failure). The harness treated the goal as Achieved as a fail-open fallback. No skeptic analysis was captured.''
     @ [nl, nl] @ ''## Reason'' @ [nl, nl] @ fail_open_str reason @ [nl]"

text \<open>\<open>record_fail_open\<close>: \<open>path\<close> is the details path when a placeholder may be written there.\<close>

definition record_fail_open :: "panel_io \<Rightarrow> fail_open_reason \<Rightarrow> stage_inputs \<Rightarrow> string option \<Rightarrow> stage_result" where
  "record_fail_open io reason v path =
     \<lparr>vr_outcome = OutFailOpenAchieved reason
        (case path of Some p \<Rightarrow> if pi_placeholder io \<noteq> PlaceholderFailed then p else [] | None \<Rightarrow> []),
      vr_skeptic0_session_id = None, vr_panel_ran = False,
      vr_events = [ClassifierFired (vi_attempt v) (vi_max_runs v), ClassifierFailOpen reason (vi_attempt v)],
      vr_fs = (case path of
                 Some p \<Rightarrow> if pi_placeholder io = PlaceholderWritten then [WriteFile p (fail_open_placeholder reason)] else []
               | None \<Rightarrow> [])\<rparr>"

definition clamp_skeptics :: "u32 \<Rightarrow> u32" where
  "clamp_skeptics n = max GOAL_VERIFIER_SKEPTIC_MIN (min GOAL_VERIFIER_SKEPTIC_MAX n)"

text \<open>
  The escalating panel: for \<open>n > 1\<close> skeptic 0 runs first, and a high-confidence refutation that is not
  a blocker ends the panel.  The second component is \<open>decisive_refute\<close>.
\<close>

definition run_panel ::
  "panel_io \<Rightarrow> goal_host \<Rightarrow> stage_inputs \<Rightarrow> skeptic_result list \<times> bool \<times> string option \<times> panel_fs list" where
  "run_panel io h v =
    (let n = unat (clamp_skeptics (vi_skeptic_count v));
         run = run_one_skeptic io h (vi_overrides v) (vi_verifier_id v) (vi_attempt v)
     in if n > 1
        then let (first, fs0) = run (vi_prior_skeptic0 v) 0;
                 high_refute = (sr_refuted first \<and> sr_confidence first = High)
             in if high_refute \<and> \<not> is_blocking (sr_blocking first)
                then ([first], True, Some (pi_uuid io), fs0)
                else let rest = map (run None) [1..<n]
                     in (first # map fst rest, high_refute, Some (pi_uuid io), fs0 @ concat (map snd rest))
        else let all = map (run None) [0..<n] in (map fst all, False, None, concat (map snd all)))"

definition panel_outcome :: "skeptic_result list \<Rightarrow> bool \<Rightarrow> string \<Rightarrow> goal_classifier_outcome" where
  "panel_outcome results achieved details_raw =
     (if achieved then OutAchieved details_raw
      else if list_ex sr_refuted results \<and> list_all (\<lambda>r. is_blocking (sr_blocking r)) (filter sr_refuted results)
      then OutBlocked details_raw (build_pause_summary results)
      else OutNotAchieved details_raw (build_gaps_summary results) (build_pause_summary results)
             (gap_fingerprint (map refuter_fingerprint_source (filter sr_refuted results))))"

definition judge_panel :: "panel_io \<Rightarrow> goal_host \<Rightarrow> stage_inputs \<Rightarrow> panel_fs list \<Rightarrow> stage_result" where
  "judge_panel io h v fs0 =
    (let details_raw = format_details_path h (vi_verifier_id v) (vi_attempt v);
         (results, decisive, id0, fs1) = run_panel io h v;
         (refuted_count, total, quorum) = aggregate_skeptic_verdicts results;
         achieved = (quorum \<and> \<not> decisive)
     in \<lparr>vr_outcome = panel_outcome results achieved details_raw,
         vr_skeptic0_session_id = id0, vr_panel_ran = True,
         vr_events = ClassifierFired (vi_attempt v) (vi_max_runs v)
           # map (\<lambda>r. SkepticVerdictEv (vi_attempt v) (sr_skeptic_idx r) (sr_refuted r) (sr_confidence r)) results
           @ [AggregateVerdictEv (vi_attempt v) refuted_count total achieved,
              ClassifierVerdictEv (if achieved then GcAchieved else GcNotAchieved) (vi_attempt v)],
         vr_fs = fs0 @ fs1 @ [WriteFile details_raw
           (render_skeptic_panel_details h results refuted_count total achieved (vi_verifier_id v) (vi_attempt v))]\<rparr>)"

definition run_verification_stage :: "panel_io \<Rightarrow> goal_host \<Rightarrow> stage_inputs \<Rightarrow> stage_result" where
  "run_verification_stage io h v =
    (let details_raw = format_details_path h (vi_verifier_id v) (vi_attempt v);
         changes_raw = format_changes_path h (vi_verifier_id v) (vi_attempt v)
     in if path_rejected h details_raw then record_fail_open io FileWriteFailed v None
        else if pi_root_err io \<noteq> None then record_fail_open io FileWriteFailed v None
        else if path_rejected h changes_raw then record_fail_open io FileWriteFailed v (Some details_raw)
        else case pi_capture io of
          CaptureErr \<Rightarrow> judge_panel io h v []
        | Captured diff changed_files \<Rightarrow>
            if pi_patch_ok io then judge_panel io h v [WriteFile changes_raw diff]
            else record_fail_open io FileWriteFailed v (Some details_raw))"

end
