(* ===== verification/Update_Goal.thy ===== *)
theory Update_Goal
  imports Rust_Text
begin

text \<open>
  The \<open>update_goal\<close> tool, \<open>kigi-tools/src/implementations/kigi/update_goal/mod.rs\<close>: its input, the
  acknowledgement the session answers with, and the tool result the model sees.  The one-shot
  channel of a call is a number, its identity.
\<close>

record update_goal_input =
  ug_completed :: "bool option"
  ug_message :: "string option"
  ug_blocked_reason :: "string option"

datatype reject_reason =
    BlockSeenInDrain
  | BlockedAgainstNonActive
  | PostCap
  | NonActive
  | HarnessDisabled
  | PendingQueueEvicted
  | DroppedAfterPauseInDrain
  | OrchestrationVanished
  | StatusChangedDuringClassifier
  | InFlightOrchestrationVanished

fun error_code :: "reject_reason \<Rightarrow> string" where
  "error_code BlockSeenInDrain = ''goal_update_block_seen''"
| "error_code BlockedAgainstNonActive = ''goal_update_blocked_against_non_active''"
| "error_code PostCap = ''goal_update_post_cap''"
| "error_code NonActive = ''goal_update_non_active''"
| "error_code HarnessDisabled = ''goal_update_harness_disabled''"
| "error_code PendingQueueEvicted = ''goal_update_evicted''"
| "error_code DroppedAfterPauseInDrain = ''goal_update_dropped_after_pause''"
| "error_code OrchestrationVanished = ''goal_update_no_orchestration''"
| "error_code StatusChangedDuringClassifier = ''goal_update_status_changed''"
| "error_code InFlightOrchestrationVanished = ''goal_update_in_flight_orchestration_vanished''"

datatype update_goal_ack =
    Accepted string
  | ClassifierAchieved string
  | ClassifierFailOpenAchieved string
  | ClassifierNotAchieved string u32 u32
  | ClassifierCapReached string u32
  | ClassifierStalled string u32
  | ClassifierBlocked string
  | CompletedWithoutClassifier
  | ClassifierConcurrentInFlight string u32 u32
  | DeferredToTurnEnd u32
  | Rejected reject_reason string

type_synonym update_goal_envelope = "update_goal_input \<times> nat"

record update_goal_output =
  ugo_success :: bool
  ugo_summary :: string

record tool_error =
  te_code :: string
  te_message :: string

abbreviation show_u32 :: "u32 \<Rightarrow> string" where
  "show_u32 n \<equiv> show_nat (unat n)"

abbreviation tool_ok :: "string \<Rightarrow> tool_error + update_goal_output" where
  "tool_ok m \<equiv> Inr \<lparr>ugo_success = True, ugo_summary = m\<rparr>"

abbreviation tool_err :: "string \<Rightarrow> string \<Rightarrow> tool_error + update_goal_output" where
  "tool_err c m \<equiv> Inl \<lparr>te_code = c, te_message = m\<rparr>"

fun render_ack_into_output :: "update_goal_ack \<Rightarrow> tool_error + update_goal_output" where
  "render_ack_into_output (Accepted summary) = tool_ok summary"
| "render_ack_into_output CompletedWithoutClassifier = tool_ok ''Goal marked complete.''"
| "render_ack_into_output (ClassifierAchieved details_path) =
     tool_ok (''Goal classifier verdict: Achieved. Goal complete. See '' @ details_path)"
| "render_ack_into_output (ClassifierFailOpenAchieved reason) =
     tool_ok (''Goal marked complete via fail-open (reason: '' @ reason @ ''). No classifier verdict was produced.'')"
| "render_ack_into_output (ClassifierNotAchieved details_path attempt max_runs) =
     tool_err ''goal_classifier_not_achieved''
       (''Goal classifier rejected this completion attempt ('' @ show_u32 attempt @ ''/'' @ show_u32 max_runs
        @ ''). Review '' @ details_path @ '' and continue working; another attempt is available.'')"
| "render_ack_into_output (ClassifierCapReached details_path attempt) =
     tool_err ''goal_classifier_cap_reached''
       (''Goal classifier rejected completion '' @ show_u32 attempt @ '' times '' @ em_dash @ '' goal auto-paused.''
        @ (if trim details_path = [] then [] else '' See '' @ details_path))"
| "render_ack_into_output (ClassifierStalled details_path attempt) =
     tool_err ''goal_classifier_stalled''
       (''Goal verification saw no change in the flagged gaps across '' @ show_u32 attempt @ '' attempts '' @ em_dash
        @ '' goal auto-paused. Review '' @ details_path @ ''; the user must resume.'')"
| "render_ack_into_output (ClassifierBlocked details_path) =
     tool_err ''goal_classifier_blocked''
       (''Goal verification found no model-fixable path (objective/plan contradiction or evidence that cannot be captured here) ''
        @ em_dash @ '' goal paused for your decision. See '' @ details_path)"
| "render_ack_into_output (ClassifierConcurrentInFlight details_path attempt max_runs) =
     tool_err ''goal_classifier_in_flight''
       (''Goal classifier is still verifying a previous completion '' @ em_dash
        @ '' do NOT call update_goal(completed: true) again until you receive a verdict reminder. This attempt was recorded as Not Achieved (''
        @ show_u32 attempt @ ''/'' @ show_u32 max_runs @ '')'' @ (if trim details_path = [] then [] else ''; see '' @ details_path))"
| "render_ack_into_output (DeferredToTurnEnd pending_depth) =
     tool_ok (''Goal completion queued for classifier verification at end of turn (pending_depth='' @ show_u32 pending_depth
       @ ''). The verdict will be delivered as a system reminder before your next reply; do NOT call update_goal again until you see it.'')"
| "render_ack_into_output (Rejected reason detail) = tool_err (error_code reason) detail"

definition build_summary :: "update_goal_input \<Rightarrow> string" where
  "build_summary i =
    (let parts = (if ug_completed i = Some True then [''Goal marked complete''] else [])
               @ (case ug_blocked_reason i of Some r \<Rightarrow> [''Goal blocked: '' @ r] | None \<Rightarrow> [])
               @ (case ug_message i of Some m \<Rightarrow> [m] | None \<Rightarrow> [])
     in if parts = [] then ''Goal updated.'' else join ''. '' parts @ ''.'')"

text \<open>
  \<open>run\<close>: without a handle or with a closed channel nothing is sent; otherwise the reply is the
  session's acknowledgement, and \<open>None\<close> is a channel dropped without one.
\<close>

definition update_goal_run ::
  "bool \<Rightarrow> bool \<Rightarrow> update_goal_input \<Rightarrow> update_goal_ack option \<Rightarrow> tool_error + update_goal_output" where
  "update_goal_run registered channel_open i ack =
     (if \<not> registered
      then tool_err ''goal_not_active'' ''No active goal to update (GoalUpdateHandle not registered)''
      else if \<not> channel_open
      then tool_err ''goal_channel_closed'' (''Goal update channel closed '' @ em_dash @ '' the session may be shutting down'')
      else case ack of
        Some a \<Rightarrow> render_ack_into_output a
      | None \<Rightarrow> tool_err ''harness_no_ack''
          (''Goal-update harness dropped the response channel before producing an ack. This is a harness-side bug; the goal may not have been updated. Original intent: ''
           @ build_summary i))"

text \<open>The acknowledgements that say the goal is done.\<close>

fun ack_completes :: "update_goal_ack \<Rightarrow> bool" where
  "ack_completes (ClassifierAchieved _) = True"
| "ack_completes (ClassifierFailOpenAchieved _) = True"
| "ack_completes CompletedWithoutClassifier = True"
| "ack_completes _ = False"

lemma error_code_inj: "error_code a = error_code b \<longleftrightarrow> a = b"
  by (cases a; cases b; simp)

end
