(* ===== verification/Session_State.thy ===== *)
theory Session_State
  imports Graph_Planner Graph_Project Goal_Classifier Update_Goal
begin

text \<open>
  The session actor's graph and goal state and the operations both engines share: checkpoints
  (\<open>persist_graph_state\<close>), the project writer lock, and the goal engine's set-up, resume, pause
  cascade and budget enforcement (\<open>acp_session_impl/graph.rs\<close>, \<open>goal.rs\<close>, \<open>goal_support.rs\<close>).

  \<open>world\<close> is everything outside: the configuration the actor caches at construction, the clock,
  the file system, git, the subagents.  An answer depends on \<open>ss_tick\<close>, the number of questions
  asked so far, so that two questions may be answered differently.  What the session sends to
  the pager and the persistence actor is appended to \<open>ss_log\<close>.

  The actor is single-threaded and holds no lock over a suspension; the operations run here
  without interleaving.  A suspended operation that is cancelled leaves the state it had at its
  last checkpoint.
\<close>

section \<open>Texts\<close>

definition arrow :: string where
  "arrow = [CHR 0xE2, CHR 0x86, CHR 0x92]"

fun graph_status_str :: "goal_status \<Rightarrow> string" where
  "graph_status_str Active = ''active''"
| "graph_status_str UserPaused = ''user_paused''"
| "graph_status_str BackOffPaused = ''back_off_paused''"
| "graph_status_str NoProgressPaused = ''no_progress_paused''"
| "graph_status_str InfraPaused = ''infra_paused''"
| "graph_status_str Blocked = ''blocked''"
| "graph_status_str BudgetLimited = ''budget_limited''"
| "graph_status_str Complete = ''complete''"

fun graph_event_as_str :: "graph_event \<Rightarrow> string" where
  "graph_event_as_str GraphCreated = ''graph_created''"
| "graph_event_as_str PlanningStarted = ''planning_started''"
| "graph_event_as_str PlanningCompleted = ''planning_completed''"
| "graph_event_as_str PlanningFailed = ''planning_failed''"
| "graph_event_as_str NodeStarted = ''node_started''"
| "graph_event_as_str NodeAchieved = ''node_achieved''"
| "graph_event_as_str NodeFailed = ''node_failed''"
| "graph_event_as_str GraphPaused = ''graph_paused''"
| "graph_event_as_str GraphResumed = ''graph_resumed''"
| "graph_event_as_str GraphCompleted = ''graph_completed''"
| "graph_event_as_str GraphCleared = ''graph_cleared''"
| "graph_event_as_str BudgetExceeded = ''budget_exceeded''"
| "graph_event_as_str UnknownEvent = ''unknown''"

fun goal_status_debug :: "goal_status \<Rightarrow> string" where
  "goal_status_debug Active = ''Active''"
| "goal_status_debug UserPaused = ''UserPaused''"
| "goal_status_debug BackOffPaused = ''BackOffPaused''"
| "goal_status_debug NoProgressPaused = ''NoProgressPaused''"
| "goal_status_debug InfraPaused = ''InfraPaused''"
| "goal_status_debug Blocked = ''Blocked''"
| "goal_status_debug BudgetLimited = ''BudgetLimited''"
| "goal_status_debug Complete = ''Complete''"

definition option_debug :: "('a \<Rightarrow> string) \<Rightarrow> 'a option \<Rightarrow> string" where
  "option_debug f x = (case x of None \<Rightarrow> ''None'' | Some y \<Rightarrow> ''Some('' @ f y @ '')'')"

fun goal_pause_reason_debug :: "goal_pause_reason \<Rightarrow> string" where
  "goal_pause_reason_debug User = ''User''"
| "goal_pause_reason_debug BackOff = ''BackOff''"
| "goal_pause_reason_debug NoProgress = ''NoProgress''"
| "goal_pause_reason_debug Verification = ''Verification''"
| "goal_pause_reason_debug Infra = ''Infra''"

fun goal_phase_str :: "goal_phase \<Rightarrow> string" where
  "goal_phase_str Idle = ''idle''"
| "goal_phase_str Planning = ''planning''"
| "goal_phase_str Executing = ''executing''"

section \<open>The badge\<close>

record graph_updated =
  gu_graph_id :: string
  gu_objective :: string
  gu_status :: string
  gu_phase :: string
  gu_plan_version :: u32
  gu_total_nodes :: u32
  gu_achieved_nodes :: u32
  gu_failed_nodes :: u32
  gu_running_nodes :: u32
  gu_current_node :: "string option"
  gu_current_node_title :: "string option"
  gu_token_budget :: "i64 option"
  gu_tokens_spent :: i64
  gu_last_event :: "string option"
  gu_pause_message :: "string option"

definition count_status :: "graph_node list \<Rightarrow> node_status \<Rightarrow> u32" where
  "count_status ns st = of_nat (length (filter (\<lambda>n. n_status n = st) ns))"

definition build_graph_updated :: "graph_orchestration \<Rightarrow> graph_updated" where
  "build_graph_updated s =
    (let cur = Option.bind (g_current_node s) (\<lambda>i. find (\<lambda>n. n_id n = i) (g_nodes s));
         cnt = count_status (g_nodes s)
     in \<lparr>gu_graph_id = g_graph_id s, gu_objective = g_objective s, gu_status = graph_status_str (g_status s),
         gu_phase = goal_phase_str (g_phase s), gu_plan_version = g_plan_version s,
         gu_total_nodes = of_nat (length (g_nodes s)),
         gu_achieved_nodes = cnt Achieved,
         gu_failed_nodes = cnt Failed + cnt NodeBlocked,
         gu_running_nodes = cnt Running + cnt Verifying,
         gu_current_node = map_option n_id cur, gu_current_node_title = map_option n_title cur,
         gu_token_budget = g_token_budget s, gu_tokens_spent = g_tokens_spent_nodes s,
         gu_last_event = (if g_history s = [] then None
                          else Some (graph_event_as_str (he_event (last (g_history s))))),
         gu_pause_message = g_pause_message s\<rparr>)"

definition build_graph_cleared :: graph_updated where
  "build_graph_cleared =
     \<lparr>gu_graph_id = [], gu_objective = [], gu_status = ''cleared'', gu_phase = ''idle'', gu_plan_version = 0,
      gu_total_nodes = 0, gu_achieved_nodes = 0, gu_failed_nodes = 0, gu_running_nodes = 0,
      gu_current_node = None, gu_current_node_title = None, gu_token_budget = None, gu_tokens_spent = 0,
      gu_last_event = None, gu_pause_message = None\<rparr>"

section \<open>Session and world\<close>

datatype session_event =
    Checkpoint "graph_orchestration option"
  | Badge graph_updated
  | GoalBadge "goal_orchestration" i64 i64
  | GoalClearedBadge
  | GoalAutoPaused goal_pause_reason
  | Output string
  | ArchiveCopy string string
  | ClassifierEv classifier_event
  | PanelWrite panel_fs
  | Ack nat update_goal_ack
  | QueuedDirective string
  | PrematureStop string

record session =
  ss_graph :: graph_tracker
  ss_goal :: goal_tracker
  ss_lock :: bool \<comment> \<open>\<open>graph_project_lock.is_some()\<close>\<close>
  ss_file :: "string option" \<comment> \<open>content of \<open>.kigi/graph.jsonl\<close>\<close>
  ss_baselines :: "(string \<times> graph_node list option) list" \<comment> \<open>baseline files, \<open>None\<close> a partial one\<close>
  ss_records :: "subagent_token_record list"
  ss_continuation_streak :: u32
  ss_blocked_streak :: u32
  ss_in_flight :: bool \<comment> \<open>\<open>goal_classifier_in_flight\<close>\<close>
  ss_task_ids :: "string list"
  ss_pending_claims :: "update_goal_input list" \<comment> \<open>\<open>pending_classifier_completions\<close>\<close>
  ss_loop_gate :: bool
  ss_log :: "session_event list"
  ss_tick :: nat
  ss_panicked :: bool

datatype goal_planner_result = GoalPlanned string | GoalPlanFailed

datatype apply_result = ApplySuccess | ApplyConflicts "string list" | ApplyErr string

record world =
  cf_graph_enabled :: bool
  cf_goal_harness :: bool
  cf_goal_planner :: bool
  cf_concurrency :: u32
  cf_node_rounds :: u32
  cf_replan_cap :: u32
  cf_optimizer :: bool
  cf_project_dir :: "string option"
  cf_session_dir :: string
  cf_coordinator :: bool \<comment> \<open>\<open>subagent_event_tx.is_some()\<close>\<close>
  cf_serde :: graph_serde
  cf_pass :: pass_env
  w_clock :: "nat \<Rightarrow> clock"
  w_host :: "nat \<Rightarrow> goal_host"
  w_uuid :: "nat \<Rightarrow> string"
  w_tokens :: "nat \<Rightarrow> i64" \<comment> \<open>\<open>get_total_tokens().await as i64\<close>\<close>
  w_last_text :: "nat \<Rightarrow> string option"
  w_commit :: "nat \<Rightarrow> string option"
  w_goal_plan :: "nat \<Rightarrow> goal_planner_result" \<comment> \<open>\<open>run_goal_planner\<close>\<close>
  w_copy_ok :: "nat \<Rightarrow> bool"
  w_is_file :: "nat \<Rightarrow> string \<Rightarrow> bool"
  w_rules :: "string \<Rightarrow> string \<Rightarrow> string \<Rightarrow> string option \<Rightarrow> string \<Rightarrow> bool \<Rightarrow> string" \<comment> \<open>\<open>render_goal_rules\<close>\<close>
  w_elapsed :: "u64 \<Rightarrow> string" \<comment> \<open>\<open>format_elapsed\<close>\<close>
  w_compact :: "graph_node list \<Rightarrow> string" \<comment> \<open>the replanner's compact JSON of the nodes\<close>
  w_compact_spec :: "graph_node list \<Rightarrow> string" \<comment> \<open>the optimizer's\<close>
  w_pass :: "nat \<Rightarrow> pass_io"
  w_baseline_err :: "nat \<Rightarrow> string option" \<comment> \<open>an error before the baseline file exists\<close>
  w_baseline_write_err :: "nat \<Rightarrow> string option" \<comment> \<open>\<open>write_all\<close> fails on the new file\<close>
  w_exists_err :: string \<comment> \<open>the text of an \<open>AlreadyExists\<close> error\<close>
  w_lock :: "nat \<Rightarrow> lock_io"
  w_write :: "nat \<Rightarrow> write_io"
  w_rm_err :: "nat \<Rightarrow> string option"
  w_read_err :: "nat \<Rightarrow> string option"
  w_git_root :: "nat \<Rightarrow> bool"
  w_head :: "nat \<Rightarrow> string option"
  w_apply :: "nat \<Rightarrow> string \<Rightarrow> apply_result"
  w_workers :: "nat \<Rightarrow> worker_env"

definition tick :: "session \<Rightarrow> session" where
  "tick s = s\<lparr>ss_tick := Suc (ss_tick s)\<rparr>"

definition emit :: "session_event list \<Rightarrow> session \<Rightarrow> session" where
  "emit es s = s\<lparr>ss_log := ss_log s @ es\<rparr>"

definition say :: "string \<Rightarrow> session \<Rightarrow> session" where
  "say m s = emit [Output m] s"

definition graph_tx :: "world \<Rightarrow> (clock \<Rightarrow> graph_tracker \<Rightarrow> graph_tracker) \<Rightarrow> session \<Rightarrow> session" where
  "graph_tx w f s = tick (s\<lparr>ss_graph := f (w_clock w (ss_tick s)) (ss_graph s)\<rparr>)"

definition goal_tx :: "world \<Rightarrow> (goal_host \<Rightarrow> clock \<Rightarrow> goal_tracker \<Rightarrow> goal_tracker) \<Rightarrow> session \<Rightarrow> session" where
  "goal_tx w f s = tick (s\<lparr>ss_goal := f (w_host w (ss_tick s)) (w_clock w (ss_tick s)) (ss_goal s)\<rparr>)"

section \<open>Checkpoints and the project file\<close>

definition sync_project :: "world \<Rightarrow> session \<Rightarrow> string option" where
  "sync_project w s =
     (if cf_project_dir w \<noteq> None \<and> ss_lock s
      then (case t_state (ss_graph s) of
              Some st \<Rightarrow> snd (project (cf_serde w) (w_write w (ss_tick s)) st (ss_file s))
            | None \<Rightarrow> snd (remove_projection (w_rm_err w (ss_tick s)) (ss_file s)))
      else ss_file s)"

definition persist_graph_state :: "world \<Rightarrow> session \<Rightarrow> session" where
  "persist_graph_state w s =
     tick (emit [Checkpoint (t_state (ss_graph s)),
                 Badge (case t_state (ss_graph s) of Some st \<Rightarrow> build_graph_updated st | None \<Rightarrow> build_graph_cleared)]
            (s\<lparr>ss_file := sync_project w s\<rparr>))"

text \<open>\<open>graph_project::load\<close> on the file as it is now.\<close>

definition load_project :: "world \<Rightarrow> string \<Rightarrow> session \<Rightarrow> string + graph_orchestration option" where
  "load_project w dir s =
     load (cf_serde w) dir (case w_read_err w (ss_tick s) of Some e \<Rightarrow> Inl e | None \<Rightarrow> Inr (ss_file s))"

definition projected_graph_id :: "world \<Rightarrow> session \<Rightarrow> string option" where
  "projected_graph_id w s =
     Option.bind (cf_project_dir w) (\<lambda>dir.
       case load_project w dir s of Inr st \<Rightarrow> map_option g_graph_id st | Inl _ \<Rightarrow> None)"

definition acquire_project_graph_writer :: "world \<Rightarrow> session \<Rightarrow> (string + bool) \<times> session" where
  "acquire_project_graph_writer w s =
     (if cf_project_dir w = None \<or> ss_lock s then (Inr True, s)
      else (case try_acquire_writer (w_lock w (ss_tick s)) of
              Inl e \<Rightarrow> (Inl e, tick s)
            | Inr Acquired \<Rightarrow> (Inr True, tick (s\<lparr>ss_lock := True\<rparr>))
            | Inr Busy \<Rightarrow> (Inr False, tick s)))"

definition claim_project_graph_for_resume :: "world \<Rightarrow> session \<Rightarrow> string option \<times> session" where
  "claim_project_graph_for_resume w s0 =
     (case acquire_project_graph_writer w s0 of
        (Inl err, s) \<Rightarrow> (Some (''Failed to acquire the project graph lock: '' @ err), s)
      | (Inr False, s) \<Rightarrow>
          (Some (''Another kigi instance holds this project'' @ [CHR 0x27] @ ''s graph (single-writer lock); resume it there, or /graph clear here to drop this session'' @ [CHR 0x27] @ ''s copy.''), s)
      | (Inr True, s) \<Rightarrow>
          (case (projected_graph_id w s, map_option g_graph_id (t_state (ss_graph s))) of
             (Some projected, Some ours) \<Rightarrow>
               if projected \<noteq> ours
               then (Some (''The project graph file belongs to a different graph ('' @ projected
                           @ ''); this session'' @ [CHR 0x27] @ ''s graph is '' @ ours
                           @ ''. Use /graph resume in a fresh session to revive the project graph, or /graph clear here first.''),
                     tick (s\<lparr>ss_lock := False\<rparr>))
               else (None, tick s)
           | _ \<Rightarrow> (None, tick s)))"

definition graph_harness_enabled :: "world \<Rightarrow> bool" where
  "graph_harness_enabled w \<longleftrightarrow> cf_graph_enabled w \<and> cf_goal_harness w"

definition graph_owns_goal_engine :: "session \<Rightarrow> bool" where
  "graph_owns_goal_engine s =
     (case graph_status (ss_graph s) of Some st \<Rightarrow> st = Active \<or> is_paused st | None \<Rightarrow> False)"

section \<open>The goal engine\<close>

definition goal_tokens_now :: "i64 \<Rightarrow> session \<Rightarrow> (i64 \<times> i64) \<times> session" where
  "goal_tokens_now current s =
     (case goal_tokens (ss_records s) current (ss_goal s) of (r, g) \<Rightarrow> (r, s\<lparr>ss_goal := g\<rparr>))"

definition emit_goal_updated :: "world \<Rightarrow> i64 \<times> i64 \<Rightarrow> session \<Rightarrow> session" where
  "emit_goal_updated w used s0 =
    (let s = goal_tx w (\<lambda>h ck. goal_account_elapsed ck) s0
     in case gt_orchestration (ss_goal s) of
          None \<Rightarrow> s
        | Some o' \<Rightarrow> emit [GoalBadge o' (fst used) (snd used)] s)"

definition reset_goal_engine_state :: "world \<Rightarrow> session \<Rightarrow> session" where
  "reset_goal_engine_state w s =
     emit [GoalClearedBadge]
       ((goal_tx w (\<lambda>h ck. goal_clear h) s)
          \<lparr>ss_continuation_streak := 0, ss_blocked_streak := 0, ss_task_ids := [], ss_records := [],
           ss_pending_claims := []\<rparr>)"

text \<open>\<open>auto_pause_goal_if_active_inner\<close>: pause the goal, then the graph, whether or not a goal was there.\<close>

definition pause_detail :: "string option \<Rightarrow> goal_pause_reason \<Rightarrow> string option \<Rightarrow> string" where
  "pause_detail node reason msg =
     (case (node, msg) of
        (Some n, Some m) \<Rightarrow> ''Node '' @ n @ '' paused: '' @ m
      | (Some n, None) \<Rightarrow> ''Node '' @ n @ '' paused ('' @ goal_pause_reason_debug reason @ '')''
      | (None, Some m) \<Rightarrow> ''Paused with no node goal in flight: '' @ m
      | (None, None) \<Rightarrow> ''Paused with no node goal in flight ('' @ goal_pause_reason_debug reason @ '')'')"

definition auto_pause_goal :: "world \<Rightarrow> goal_pause_reason \<Rightarrow> string option \<Rightarrow> session \<Rightarrow> bool \<times> session" where
  "auto_pause_goal w reason msg s0 =
    (let current = w_tokens w (ss_tick s0);
         goal_paused = (goal_status_of (ss_goal s0) = Some Active);
         s1 = (if goal_paused
               then let sa = goal_tx w (\<lambda>h ck t. snd (goal_pause_inner ck reason msg t)) s0;
                        (used, sb) = goal_tokens_now current (sa\<lparr>ss_pending_claims := []\<rparr>)
                    in emit [GoalAutoPaused reason] (emit_goal_updated w used sb)
               else tick s0);
         s2 = (if graph_harness_enabled w \<and> is_active (ss_graph s1)
               then persist_graph_state w (graph_tx w (\<lambda>ck t.
                      snd (graph_pause_with_message ck reason (pause_detail (current_node_id t) reason msg) t)) s1)
               else s1)
     in (goal_paused, s2))"

definition enforce_goal_token_budget :: "world \<Rightarrow> i64 \<Rightarrow> session \<Rightarrow> bool \<times> session" where
  "enforce_goal_token_budget w current s0 =
    (let (used, s1) = goal_tokens_now current s0
     in case Option.bind (gt_orchestration (ss_goal s1)) o_token_budget of
          None \<Rightarrow> (False, s1)
        | Some budget \<Rightarrow>
            if fst used < budget then (False, s1)
            else let s2 = emit_goal_updated w used
                            ((goal_tx w (\<lambda>h ck t. snd (goal_budget_limit h ck t)) s1)\<lparr>ss_pending_claims := []\<rparr>)
                 in if graph_harness_enabled w \<and> is_active (ss_graph s2)
                    then (True, say (''Graph token budget reached ('' @ show_int (fst used) @ '' tokens this node) '' @ em_dash
                                     @ '' graph stopped. Top up with /graph resume --budget <tokens>, or /graph clear to abandon.'')
                           (persist_graph_state w (graph_tx w (\<lambda>ck t.
                              snd (graph_budget_limit ck (case current_node_id t of
                                     Some i \<Rightarrow> charge_node_tokens i (fst used) t | None \<Rightarrow> t))) s2)))
                    else (True, say (''Goal token budget reached ('' @ show_int (fst used) @ '' of '' @ show_int budget
                                     @ '' tokens) '' @ em_dash
                                     @ '' goal stopped. Use /goal clear, then /goal <objective> to start a new one.'') s2))"

definition planner_failure_pause_message :: string where
  "planner_failure_pause_message = ''Planning failed; resume with /goal to retry.''"

definition plan_path :: "goal_tracker \<Rightarrow> string" where
  "plan_path t = path_join (goal_dir t) ''plan.md''"

definition plan_baseline_path :: "goal_tracker \<Rightarrow> string" where
  "plan_baseline_path t = path_join (goal_dir t) ''plan.baseline.md''"

definition strategy_path :: "goal_tracker \<Rightarrow> string" where
  "strategy_path t = path_join (goal_dir t) ''strategy.md''"

definition emit_goal_planning :: "world \<Rightarrow> i64 \<Rightarrow> session \<Rightarrow> session" where
  "emit_goal_planning w current s0 =
     (if \<not> cf_goal_harness w then s0
      else let (used, s1) = goal_tokens_now current s0;
               s2 = goal_tx w (\<lambda>h ck t. with_orch (\<lambda>o'. o'\<lparr>o_planning_in_flight := True\<rparr>) (goal_account_elapsed ck t)) s1
           in case gt_orchestration (ss_goal s2) of
                None \<Rightarrow> s2
              | Some o' \<Rightarrow> emit [GoalBadge o' (fst used) (snd used)] s2)"

definition record_plan :: "world \<Rightarrow> string \<Rightarrow> session \<Rightarrow> session" where
  "record_plan w file s =
    (let t = ss_goal s;
         need_baseline = (case gt_orchestration t of Some o' \<Rightarrow> o_plan_baseline_file o' = None | None \<Rightarrow> False);
         t1 = with_orch (\<lambda>o'. o'\<lparr>o_plan_file := Some file\<rparr>) t;
         t2 = (if need_baseline \<and> w_copy_ok w (ss_tick s)
               then with_orch (\<lambda>o'. o'\<lparr>o_plan_baseline_file := Some (plan_baseline_path t)\<rparr>) t1 else t1)
     in tick (s\<lparr>ss_goal := t2\<rparr>))"

definition maybe_run_goal_planner :: "world \<Rightarrow> session \<Rightarrow> session" where
  "maybe_run_goal_planner w s0 =
     (if \<not> cf_goal_planner w \<or> \<not> cf_coordinator w then s0
      else case gt_orchestration (ss_goal s0) of
        None \<Rightarrow> s0
      | Some o' \<Rightarrow>
          if o_plan_file o' \<noteq> None then s0
          else let s1 = emit_goal_planning w (w_tokens w (ss_tick s0)) s0;
                   s2 = (case w_goal_plan w (ss_tick s1) of
                           GoalPlanned file \<Rightarrow> record_plan w file (tick s1)
                         | GoalPlanFailed \<Rightarrow> snd (auto_pause_goal w User (Some planner_failure_pause_message) (tick s1)));
                   (used, s3) = goal_tokens_now (w_tokens w (ss_tick s2)) s2
               in emit_goal_updated w used
                    (s3\<lparr>ss_goal := with_orch (\<lambda>o'. o'\<lparr>o_planning_in_flight := False\<rparr>) (ss_goal s3)\<rparr>))"

definition goal_reminder_plan_path :: "bool \<Rightarrow> goal_orchestration \<Rightarrow> string option" where
  "goal_reminder_plan_path planner_enabled o' = (if planner_enabled then o_plan_file o' else None)"

text \<open>\<open>setup_goal\<close>; \<open>None\<close> is the \<open>expect\<close> on the snapshot.\<close>

definition setup_goal :: "world \<Rightarrow> string \<Rightarrow> i64 option \<Rightarrow> session \<Rightarrow> string option \<times> session" where
  "setup_goal w objective budget s0 =
    (let n = ss_tick s0;
         baseline = w_tokens w n;
         s1 = (goal_tx w (\<lambda>h ck. create_goal h ck (w_uuid w n) objective budget baseline (rfc ck 1) (w_commit w n)) s0)
                \<lparr>ss_task_ids := [], ss_pending_claims := [], ss_continuation_streak := 0, ss_blocked_streak := 0\<rparr>;
         (used, s2) = goal_tokens_now baseline s1;
         s3 = maybe_run_goal_planner w (emit_goal_updated w used s2);
         h = w_host w (ss_tick s3)
     in (map_option (\<lambda>o'. ''<system-reminder>'' @ [nl]
               @ w_rules w objective [] [] (goal_reminder_plan_path (cf_goal_planner w) o')
                   (implementer_scratch_dir h (o_verifier_id o')) (o_scratch_dir_ready o')
               @ [nl] @ ''Start now.'' @ [nl] @ ''</system-reminder>'' @ [nl, nl])
           (gt_orchestration (ss_goal s3)), s3))"

datatype goal_resume_outcome = GoalInference string string | GoalMessage string

definition block_recap :: "goal_status \<Rightarrow> string option \<Rightarrow> string" where
  "block_recap st msg =
     (case (st, msg) of
        (Blocked, Some m) \<Rightarrow> ''Previous state: Blocked.'' @ [nl] @ ''Previous block reason: '' @ m @ [nl]
          @ ''Re-evaluate whether the blocker has been addressed. If yes, continue working. If no, you may block again with an updated reason.'' @ [nl, nl]
      | (InfraPaused, Some m) \<Rightarrow> ''Previous state: Paused (infrastructure error).'' @ [nl] @ ''Previous error: '' @ m @ [nl]
          @ ''The prior turn failed due to infrastructure. Retry when the error condition is resolved.'' @ [nl, nl]
      | (InfraPaused, None) \<Rightarrow> ''Previous state: Paused (infrastructure error).'' @ [nl]
          @ ''The prior turn failed due to infrastructure. Retry when the error condition is resolved.'' @ [nl, nl]
      | _ \<Rightarrow> [])"

text \<open>The tail of \<open>resume_goal\<close>, after the transition.\<close>

definition resume_goal_continue :: "world \<Rightarrow> string \<Rightarrow> goal_status \<Rightarrow> string option \<Rightarrow> session \<Rightarrow> goal_resume_outcome \<times> session" where
  "resume_goal_continue w user_msg prev_status prev_msg s0 =
    (let (used, s1) = goal_tokens_now (w_tokens w (ss_tick s0)) s0;
         s2 = emit_goal_updated w used s1;
         s3 = goal_tx w (\<lambda>h ck. goal_account_elapsed ck) s2;
         h = w_host w (ss_tick s3)
     in case gt_orchestration (ss_goal s3) of
          None \<Rightarrow> (GoalMessage ''Goal state is missing.'', s3)
        | Some o' \<Rightarrow>
            (GoalInference
               (''<system-reminder>'' @ [nl]
                @ w_rules w (o_objective o') (block_recap prev_status prev_msg)
                    (''<goal-state>'' @ [nl] @ ''Status: Active'' @ [nl] @ ''Tokens: '' @ show_int (fst used)
                     @ '' | Elapsed: '' @ w_elapsed w (o_elapsed_ms o') @ [nl] @ ''</goal-state>'' @ [nl, nl])
                    (goal_reminder_plan_path (cf_goal_planner w) o')
                    (implementer_scratch_dir h (o_verifier_id o')) (o_scratch_dir_ready o')
                @ [nl] @ ''Continue working now.'' @ [nl] @ ''</system-reminder>'')
               user_msg, s3))"

definition resume_goal :: "world \<Rightarrow> session \<Rightarrow> goal_resume_outcome \<times> session" where
  "resume_goal w s0 =
     (case gt_orchestration (ss_goal s0) of
        None \<Rightarrow> (GoalMessage ''No goal set. Use /goal <objective> to start one.'', s0)
      | Some o' \<Rightarrow>
          if o_status o' = Complete
          then (GoalMessage ''Goal is already complete. Use /goal <objective> to start a new one.'', s0)
          else if o_status o' = BudgetLimited
          then (GoalMessage ''Goal is budget-limited. Use /goal clear, then /goal <objective>.'', s0)
          else if o_status o' = Active
          then resume_goal_continue w (''Goal nudged '' @ em_dash @ '' refreshing context.'') Active None
                 (s0\<lparr>ss_continuation_streak := 0, ss_blocked_streak := 0\<rparr>)
          else let s1 = (goal_tx w (\<lambda>h ck t. snd (goal_resume ck t)) s0)\<lparr>ss_continuation_streak := 0, ss_blocked_streak := 0\<rparr>;
                   needs_retry = (case gt_orchestration (ss_goal s1) of
                                    Some o1 \<Rightarrow> o_status o1 = Active \<and> o_plan_file o1 = None | None \<Rightarrow> False);
                   s2 = (if needs_retry then maybe_run_goal_planner w s1 else s1)
               in if needs_retry \<and> goal_status_of (ss_goal s2) \<noteq> Some Active
                  then (GoalMessage ''Planning failed again; goal paused.'', s2)
                  else resume_goal_continue w ''Goal resumed.'' (o_status o') (o_pause_message o') s2)"

end
