(* ===== verification/Graph_Session.thy ===== *)
theory Graph_Session
  imports Session_State
begin

text \<open>
  The graph scheduler of the session actor: \<open>acp_session_impl/graph.rs\<close>, the parallel batch of
  \<open>graph_workers.rs\<close>, \<open>graph_replan.rs\<close>, \<open>graph_optimize.rs\<close>, and the \<open>/graph\<close> commands of
  \<open>slash_exec.rs\<close>.  \<open>drive_graph\<close> is the dispatch loop; it takes fuel, one unit per iteration,
  and answers \<open>None\<close> only when the fuel runs out.
\<close>

section \<open>Texts and small transitions\<close>

definition node_goal_objective :: "string \<Rightarrow> graph_node \<Rightarrow> nat \<Rightarrow> nat \<Rightarrow> string" where
  "node_goal_objective objective node pos cnt =
     ''[Graph node '' @ show_nat pos @ ''/'' @ show_nat cnt @ '': '' @ n_title node @ '']'' @ [nl] @ n_spec node @ [nl, nl]
     @ ''This node is one unit of a larger graph objective:'' @ [nl] @ objective @ [nl, nl]
     @ ''Complete ONLY this node'' @ [CHR 0x27] @ ''s scope; other nodes cover the rest. If you find NECESSARY work outside this node''
     @ [CHR 0x27] @ ''s scope, do NOT do it '' @ em_dash @ '' list each item on its own line as '' @ [backtick]
     @ ''DISCOVERED: <description>'' @ [backtick] @ '' in your final summary; the harness turns these into new graph nodes.''"

definition budget_exhausted_message :: string where
  "budget_exhausted_message = ''Graph token budget exhausted. Top up with /graph resume --budget <tokens>, or /graph clear to abandon.''"

definition pause_graph :: "world \<Rightarrow> goal_pause_reason \<Rightarrow> string \<Rightarrow> session \<Rightarrow> session" where
  "pause_graph w reason msg s =
     persist_graph_state w (graph_tx w (\<lambda>ck t. snd (graph_pause_with_message ck reason msg t)) s)"

definition limit_graph :: "world \<Rightarrow> session \<Rightarrow> session" where
  "limit_graph w s = persist_graph_state w (graph_tx w (\<lambda>ck t. snd (graph_budget_limit ck t)) s)"

section \<open>Planning\<close>

definition feedback_text :: "string \<Rightarrow> string \<Rightarrow> string" where
  "feedback_text what reason =
     ''Your previous '' @ what @ '' JSON failed validation:'' @ [nl] @ reason @ [nl] @ ''Rewrite the file fixing exactly this.''"

text \<open>
  \<open>run_graph_planning\<close>: two attempts, the second with the validation error as context.  The
  result is \<open>None\<close> when the validation panics.
\<close>

definition run_graph_planning :: "world \<Rightarrow> string \<Rightarrow> session \<Rightarrow> (string + graph_node list) option \<times> session" where
  "run_graph_planning w objective s =
     (if \<not> cf_coordinator w then (Some (Inl ''no subagent coordinator channel''), s)
      else let dir = artifacts_dir (ss_graph s);
               file = path_join dir ''graph.json'';
               attempt = (\<lambda>n fb. run_graph_planner (cf_pass w) (w_pass w n) (w_uuid w n) objective fb dir file)
           in case attempt (ss_tick s) [] of
                None \<Rightarrow> (None, tick s)
              | Some (Planned nodes) \<Rightarrow> (Some (Inr nodes), tick s)
              | Some (FailClosed reason) \<Rightarrow> (Some (Inl reason), tick s)
              | Some (Invalid reason) \<Rightarrow>
                  (case attempt (Suc (ss_tick s)) (feedback_text ''graph'' reason) of
                     None \<Rightarrow> (None, tick (tick s))
                   | Some (Planned nodes) \<Rightarrow> (Some (Inr nodes), tick (tick s))
                   | Some (FailClosed reason') \<Rightarrow> (Some (Inl reason'), tick (tick s))
                   | Some (Invalid reason') \<Rightarrow> (Some (Inl (''graph failed validation twice: '' @ reason')), tick (tick s))))"

text \<open>
  \<open>write_graph_baseline\<close>: \<open>create_new\<close> refuses an existing file; a write that fails after the
  file was created leaves it behind.
\<close>

definition write_graph_baseline :: "world \<Rightarrow> graph_node list \<Rightarrow> session \<Rightarrow> string option \<times> session" where
  "write_graph_baseline w nodes s =
    (let version = (case t_state (ss_graph s) of Some st \<Rightarrow> g_plan_version st | None \<Rightarrow> 1);
         path = baseline_path version (ss_graph s)
     in case w_baseline_err w (ss_tick s) of
          Some e \<Rightarrow> (Some e, tick s)
        | None \<Rightarrow>
            if path \<in> fst ` set (ss_baselines s) then (Some (w_exists_err w), tick s)
            else (case w_baseline_write_err w (ss_tick s) of
                    Some e \<Rightarrow> (Some e, tick (s\<lparr>ss_baselines := ss_baselines s @ [(path, None)]\<rparr>))
                  | None \<Rightarrow> (None, tick (s\<lparr>ss_baselines := ss_baselines s @ [(path, Some nodes)]\<rparr>))))"

text \<open>The whole node set of the snapshot, frozen after an append or an optimization.\<close>

definition freeze_nodes :: "world \<Rightarrow> session \<Rightarrow> session" where
  "freeze_nodes w s =
     snd (write_graph_baseline w (case t_state (ss_graph s) of Some st \<Rightarrow> g_nodes st | None \<Rightarrow> []) s)"

section \<open>Optimizing and replanning\<close>

definition history_line :: "graph_history_entry \<Rightarrow> (graph_event \<Rightarrow> string) \<Rightarrow> string" where
  "history_line h dbg =
     ''- '' @ dbg (he_event h) @ '' '' @ (case he_node_id h of Some i \<Rightarrow> i | None \<Rightarrow> ''-'') @ '' ''
     @ (case he_detail h of Some d \<Rightarrow> d | None \<Rightarrow> [])"

fun graph_event_debug :: "graph_event \<Rightarrow> string" where
  "graph_event_debug GraphCreated = ''GraphCreated''"
| "graph_event_debug PlanningStarted = ''PlanningStarted''"
| "graph_event_debug PlanningCompleted = ''PlanningCompleted''"
| "graph_event_debug PlanningFailed = ''PlanningFailed''"
| "graph_event_debug NodeStarted = ''NodeStarted''"
| "graph_event_debug NodeAchieved = ''NodeAchieved''"
| "graph_event_debug NodeFailed = ''NodeFailed''"
| "graph_event_debug GraphPaused = ''GraphPaused''"
| "graph_event_debug GraphResumed = ''GraphResumed''"
| "graph_event_debug GraphCompleted = ''GraphCompleted''"
| "graph_event_debug GraphCleared = ''GraphCleared''"
| "graph_event_debug BudgetExceeded = ''BudgetExceeded''"
| "graph_event_debug UnknownEvent = ''Unknown''"

definition optimizer_sections :: "world \<Rightarrow> graph_orchestration \<Rightarrow> string" where
  "optimizer_sections w st =
     ''OBJECTIVE:'' @ [nl] @ g_objective st @ [nl, nl] @ ''CURRENT GRAPH:'' @ [nl] @ w_compact_spec w (g_nodes st) @ [nl, nl]
     @ ''EXECUTION HISTORY:'' @ [nl]
     @ join [nl] (map (\<lambda>h. history_line h graph_event_debug) (take 12 (rev (g_history st)))) @ [nl]"

definition maybe_optimize_graph :: "world \<Rightarrow> session \<Rightarrow> session" where
  "maybe_optimize_graph w s =
     (case t_state (ss_graph s) of
        None \<Rightarrow> s
      | Some st \<Rightarrow>
          if \<not> cf_optimizer w \<or> g_status st \<noteq> Active \<or> cf_replan_cap w = 0 \<or> g_replan_runs st \<ge> cf_replan_cap w
             \<or> \<not> cf_coordinator w
          then s
          else let next = g_plan_version st + 1;
                   file = path_join (artifacts_dir (ss_graph s)) (''optimize.v'' @ show_nat (unat next) @ ''.json'');
                   n = ss_tick s
               in case run_graph_artifact_pass (cf_pass w) (w_pass w n) (w_uuid w n)
                         (pv_optimizer_template (cf_pass w)) (optimizer_sections w st) file ''graph optimizer'' of
                    Inl reason \<Rightarrow> tick s
                  | Inr json \<Rightarrow>
                      (case apply_optimization (pv_ops_from_str (cf_pass w)) (g_nodes st) json of
                         Inl err \<Rightarrow> tick s
                       | Inr None \<Rightarrow> tick s
                       | Inr (Some opt) \<Rightarrow>
                           say (''Graph optimized (v'' @ show_nat (unat next) @ ''): '' @ show_nat (length (g_nodes st)) @ '' '' @ arrow
                                @ '' '' @ show_nat (length opt) @ '' node(s).'')
                             (persist_graph_state w (freeze_nodes w
                               (graph_tx w (\<lambda>ck. install_optimized_nodes ck opt) (tick s))))))"

definition drain :: "world \<Rightarrow> session \<Rightarrow> session" where
  "drain w s = persist_graph_state w (graph_tx w (\<lambda>ck t. snd (drain_discoveries_to_history t)) s)"

text \<open>Draining after a pass that counts against the cap.\<close>

definition drain_counted :: "world \<Rightarrow> session \<Rightarrow> session" where
  "drain_counted w s =
     persist_graph_state w (graph_tx w (\<lambda>ck t. on_state (\<lambda>st. st\<lparr>g_replan_runs := g_replan_runs st + 1\<rparr>)
       (snd (drain_discoveries_to_history t))) s)"

definition install_appendix :: "world \<Rightarrow> u32 \<Rightarrow> graph_node list \<Rightarrow> session \<Rightarrow> session" where
  "install_appendix w next appendix s =
     maybe_optimize_graph w
       (say (''Graph replanned (v'' @ show_nat (unat next) @ ''): '' @ show_nat (length appendix) @ '' node(s) added from discovered work.'')
         (persist_graph_state w (freeze_nodes w (graph_tx w (\<lambda>ck. append_replan_nodes ck appendix) s))))"

definition replan_failed :: "world \<Rightarrow> string \<Rightarrow> session \<Rightarrow> session" where
  "replan_failed w reason s =
     say (''Graph replan failed ('' @ reason @ ''); discovered work recorded in history only.'') (drain_counted w s)"

definition discovery_lines :: "discovery list \<Rightarrow> string" where
  "discovery_lines ds = join [nl] (map (\<lambda>d. ''- (from '' @ from_node d @ '') '' @ description d) ds)"

definition replan_pass :: "world \<Rightarrow> graph_orchestration \<Rightarrow> session \<Rightarrow> session" where
  "replan_pass w st s =
    (let next = g_plan_version st + 1;
         dir = artifacts_dir (ss_graph s);
         file = path_join dir (''replan.v'' @ show_nat (unat next) @ ''.json'');
         attempt = (\<lambda>n fb. run_graph_replanner (cf_pass w) (w_pass w n) (w_uuid w n) (g_nodes st) (g_objective st)
                      (w_compact w (g_nodes st)) (discovery_lines (g_pending_discoveries st)) fb dir file)
     in case attempt (ss_tick s) [] of
          None \<Rightarrow> s\<lparr>ss_panicked := True\<rparr>
        | Some (Planned appendix) \<Rightarrow>
            if appendix = [] then drain_counted w (tick s) else install_appendix w next appendix (tick s)
        | Some (FailClosed reason) \<Rightarrow> replan_failed w reason (tick s)
        | Some (Invalid reason) \<Rightarrow>
            (case attempt (Suc (ss_tick s)) (feedback_text ''replan'' reason) of
               None \<Rightarrow> s\<lparr>ss_panicked := True\<rparr>
             | Some (Planned appendix) \<Rightarrow>
                 if appendix = [] then drain_counted w (tick (tick s)) else install_appendix w next appendix (tick (tick s))
             | Some (FailClosed reason') \<Rightarrow> replan_failed w reason' (tick (tick s))
             | Some (Invalid reason') \<Rightarrow> replan_failed w reason' (tick (tick s))))"

definition maybe_replan_graph :: "world \<Rightarrow> session \<Rightarrow> session" where
  "maybe_replan_graph w s =
     (case t_state (ss_graph s) of
        None \<Rightarrow> s
      | Some st \<Rightarrow>
          if g_pending_discoveries st = [] then s
          else if remaining_budget (ss_graph s) = Some 0 then s
          else if (case graph_node_of FINAL_NODE_ID (ss_graph s) of Some n \<Rightarrow> n_status n = Achieved | None \<Rightarrow> False)
          then drain w s
          else if cf_replan_cap w = 0 then drain w s
          else if g_replan_runs st \<ge> cf_replan_cap w
          then let n = length (g_pending_discoveries st)
               in say (''Graph replan cap reached ('' @ show_nat (unat (g_replan_runs st)) @ ''/'' @ show_nat (unat (cf_replan_cap w))
                       @ ''); '' @ show_nat n @ '' discover'' @ (if n = 1 then ''y'' else ''ies'')
                       @ '' recorded in history only '' @ em_dash @ '' the graph will converge on the current plan.'') (drain w s)
          else if \<not> cf_coordinator w then s
          else replan_pass w st s)"

section \<open>Launching nodes\<close>

definition launch_next_graph_node :: "world \<Rightarrow> session \<Rightarrow> string option \<times> session" where
  "launch_next_graph_node w s0 =
     (case (next_ready_node (ss_graph s0), t_state (ss_graph s0)) of
        (Some node, Some st) \<Rightarrow>
          let i = n_id node;
              pos = (case position (\<lambda>n. n_id n = i) (g_nodes st) of Some k \<Rightarrow> k | None \<Rightarrow> 0) + 1;
              objective = node_goal_objective (g_objective st) node pos (length (g_nodes st));
              node_budget = remaining_budget (ss_graph s0)
          in if node_budget = Some 0 then (None, say budget_exhausted_message (limit_graph w s0))
             else let s1 = reset_goal_engine_state w s0;
                      s2 = persist_graph_state w (graph_tx w (\<lambda>ck. mark_node_running ck i []) s1);
                      (reminder, s3) = setup_goal w objective node_budget s2;
                      goal_id = (case gt_orchestration (ss_goal s3) of Some o' \<Rightarrow> o_goal_id o' | None \<Rightarrow> []);
                      s4 = persist_graph_state w (graph_tx w (\<lambda>ck. on_state (\<lambda>st. st\<lparr>g_nodes :=
                              update_first (\<lambda>n. n_id n = i) (\<lambda>n. n\<lparr>n_goal_id := Some goal_id\<rparr>) (g_nodes st)\<rparr>)) s3)
                  in (case reminder of
                        None \<Rightarrow> (None, s3\<lparr>ss_panicked := True\<rparr>)
                      | Some r \<Rightarrow> if goal_status_of (ss_goal s4) \<noteq> Some Active then (None, s4) else (Some r, s4))
      | _ \<Rightarrow> (None, s0))"

section \<open>Parallel batches\<close>

definition merge_node_worktree :: "world \<Rightarrow> string option \<Rightarrow> string option \<Rightarrow> session \<Rightarrow> (string + unit) \<times> session" where
  "merge_node_worktree w worktree_path expected_head s =
     (case worktree_path of
        None \<Rightarrow> (Inr (), s)
      | Some path \<Rightarrow>
          let cur = w_head w (ss_tick s)
          in if expected_head \<noteq> None \<and> cur \<noteq> expected_head
             then (Inl (''main repository HEAD moved during the batch (was '' @ the expected_head @ '', now ''
                        @ (case cur of Some c \<Rightarrow> c | None \<Rightarrow> ''unknown'')
                        @ ''); merge aborted for safety '' @ em_dash @ '' /graph resume re-runs the node''), tick s)
             else (case w_apply w (ss_tick s) path of
                     ApplySuccess \<Rightarrow> (Inr (), tick s)
                   | ApplyConflicts names \<Rightarrow> (Inl (''merge conflict in: '' @ join '', '' names), tick s)
                   | ApplyErr err \<Rightarrow> (Inl (''worktree apply failed: '' @ err), tick s)))"

definition stamp_worker :: "node_run_report \<Rightarrow> graph_tracker \<Rightarrow> graph_tracker" where
  "stamp_worker rep t =
     (case nr_worker_session_id rep of
        None \<Rightarrow> t
      | Some wid \<Rightarrow> on_state (\<lambda>st. st\<lparr>g_nodes := update_first (\<lambda>n. n_id n = nr_node_id rep)
                                 (\<lambda>n. n\<lparr>n_goal_id := Some wid\<rparr>) (g_nodes st)\<rparr>) t)"

definition report_discoveries :: "node_run_report \<Rightarrow> discovery list" where
  "report_discoveries rep = map (\<lambda>d. \<lparr>from_node = nr_node_id rep, description = d\<rparr>) (nr_discoveries rep)"

definition settle_report :: "world \<Rightarrow> string option \<Rightarrow> node_run_report \<Rightarrow> session \<Rightarrow> bool \<times> session" where
  "settle_report w head rep s0 =
    (let s1 = graph_tx w (\<lambda>ck. stamp_worker rep) s0;
         s2 = (if nr_discoveries rep = [] then s1
               else graph_tx w (\<lambda>ck. queue_discoveries ck (report_discoveries rep)) s1)
     in if \<not> nr_achieved rep
        then (False, persist_graph_state w (graph_tx w (\<lambda>ck t.
                mark_node_failed ck (nr_node_id rep) (nr_detail rep)
                  (charge_node_tokens (nr_node_id rep) (nr_tokens_used rep) t)) s2))
        else (case merge_node_worktree w (nr_worktree_path rep) head s2 of
                (Inr _, s3) \<Rightarrow> (True, persist_graph_state w (graph_tx w (\<lambda>ck.
                    mark_node_achieved ck (nr_node_id rep) (nr_rounds rep) (nr_tokens_used rep)) s3))
              | (Inl detail, s3) \<Rightarrow> (False, persist_graph_state w (graph_tx w (\<lambda>ck.
                    mark_node_failed ck (nr_node_id rep) detail) s3))))"

fun settle_reports :: "world \<Rightarrow> string option \<Rightarrow> node_run_report list \<Rightarrow> nat \<Rightarrow> nat \<Rightarrow> session \<Rightarrow> nat \<times> nat \<times> session" where
  "settle_reports w head [] ok bad s = (ok, bad, s)"
| "settle_reports w head (r # rs) ok bad s =
     (case settle_report w head r s of
        (True, s') \<Rightarrow> settle_reports w head rs (Suc ok) bad s'
      | (False, s') \<Rightarrow> settle_reports w head rs ok (Suc bad) s')"

definition batch_jobs :: "graph_orchestration \<Rightarrow> string list \<Rightarrow> (string \<times> string) list" where
  "batch_jobs st ids =
     List.map_filter (\<lambda>i. map_option (\<lambda>k. (i, node_goal_objective (g_objective st) (g_nodes st ! k) (k + 1) (length (g_nodes st))))
       (position (\<lambda>n. n_id n = i) (g_nodes st))) ids"

text \<open>The fan-out: every node of the batch runs, and none is on the serial engine.\<close>

definition fan_out :: "world \<Rightarrow> (string \<times> string) list \<Rightarrow> session \<Rightarrow> session" where
  "fan_out w jobs s =
     persist_graph_state w (graph_tx w (\<lambda>ck. on_state (\<lambda>st. st\<lparr>g_current_node := None\<rparr>))
       (fold (\<lambda>job. graph_tx w (\<lambda>ck. mark_node_running ck (fst job) [])) jobs s))"

definition run_graph_parallel_batch :: "world \<Rightarrow> string list \<Rightarrow> session \<Rightarrow> session" where
  "run_graph_parallel_batch w ids s0 =
     (if \<not> cf_coordinator w
      then pause_graph w Infra ''No subagent coordinator available for parallel execution'' s0
      else case t_state (ss_graph s0) of
        None \<Rightarrow> s0
      | Some st \<Rightarrow>
          let jobs = batch_jobs st ids;
              s1 = fan_out w jobs s0;
              head = w_head w (ss_tick s1);
              env = w_workers w (ss_tick s1);
              reports = map (\<lambda>(i, obj). fst (run_node_to_verdict env i obj (cf_node_rounds w))) jobs;
              (ok, bad, s2) = settle_reports w head reports 0 0 (tick s1)
          in say (''Graph batch settled: '' @ show_nat ok @ '' node(s) achieved, '' @ show_nat bad @ '' failed.'') s2)"

section \<open>The dispatch loop\<close>

definition ready_ids :: "graph_tracker \<Rightarrow> string list" where
  "ready_ids t = (case t_state t of
     Some s \<Rightarrow> map n_id (filter (\<lambda>n. n_status n = Ready) (g_nodes s)) | None \<Rightarrow> [])"

text \<open>The arm without a ready node: the graph is complete, wedged, or inconsistent.\<close>

definition settle_graph :: "world \<Rightarrow> session \<Rightarrow> session" where
  "settle_graph w s =
     (if all_achieved (ss_graph s)
      then let s1 = graph_tx w (\<lambda>ck t. snd (graph_complete ck t)) s;
               count = (case t_state (ss_graph s1) of Some st \<Rightarrow> length (g_nodes st) | None \<Rightarrow> 0);
               objective = (case t_state (ss_graph s1) of Some st \<Rightarrow> g_objective st | None \<Rightarrow> [])
           in say (''Graph complete: all '' @ show_nat count @ '' nodes achieved (final verification included).'' @ [nl]
                   @ ''Objective: '' @ objective)
                (reset_goal_engine_state w (persist_graph_state w s1))
      else if is_wedged (ss_graph s)
      then say ''Graph blocked: a dependency chain failed and no runnable node is left. See /graph status.''
             (pause_graph w Verification ''No runnable node left: a dependency chain failed'' s)
      else say ''Graph paused: scheduler found no runnable node while work remains. See /graph status.''
             (pause_graph w Infra ''Scheduler found no runnable node while work remains'' s))"

fun drive_graph :: "nat \<Rightarrow> world \<Rightarrow> session \<Rightarrow> (string option \<times> session) option" where
  "drive_graph 0 w s = None"
| "drive_graph (Suc fuel) w s0 =
     (if ss_panicked s0 \<or> \<not> is_active (ss_graph s0) then Some (None, s0)
      else let s = maybe_replan_graph w s0
           in if ss_panicked s then Some (None, s)
              else if remaining_budget (ss_graph s) = Some 0
              then Some (None, say budget_exhausted_message (limit_graph w s))
              else let ready = ready_ids (ss_graph s)
                   in if ready = [] then Some (None, settle_graph w s)
                      else let cap = (if w_git_root w (ss_tick s) then unat (cf_concurrency w) else 1)
                           in if cap \<le> 1 \<or> length ready = 1 then Some (launch_next_graph_node w (tick s))
                              else drive_graph fuel w
                                     (run_graph_parallel_batch w (take cap ready) ((tick s)\<lparr>ss_loop_gate := True\<rparr>)))"

section \<open>The end of a node\<close>

definition archive_sources :: "goal_tracker \<Rightarrow> string list" where
  "archive_sources t =
     (case gt_orchestration t of
        None \<Rightarrow> []
      | Some o' \<Rightarrow> List.map_filter id [o_plan_file o', o_plan_baseline_file o', o_last_strategy_path o'])"

definition archive_node_artifacts :: "world \<Rightarrow> string \<Rightarrow> session \<Rightarrow> session" where
  "archive_node_artifacts w node s =
    (let dst = node_archive_dir node (ss_graph s);
         srcs = filter (\<lambda>p. w_is_file w (ss_tick s) p) (archive_sources (ss_goal s))
     in if archive_sources (ss_goal s) = [] \<or> \<not> w_copy_ok w (ss_tick s) then s
        else tick (emit (List.map_filter (\<lambda>p. map_option (\<lambda>name. ArchiveCopy p (path_join dst name)) (file_name p)) srcs) s))"

definition advance_graph_after_node_complete :: "nat \<Rightarrow> world \<Rightarrow> session \<Rightarrow> (string option \<times> session) option" where
  "advance_graph_after_node_complete fuel w s0 =
     (case current_node_id (ss_graph s0) of
        None \<Rightarrow> Some (None, pause_graph w Infra ''Goal completed with no current graph node'' s0)
      | Some i \<Rightarrow>
          let (used, s1) = goal_tokens_now (w_tokens w (ss_tick s0)) (tick s0);
              rounds = (case gt_orchestration (ss_goal s1) of Some o' \<Rightarrow> o_total_worker_rounds o' | None \<Rightarrow> 0);
              found = (case w_last_text w (ss_tick s1) of Some text \<Rightarrow> parse_discovered_lines text | None \<Rightarrow> []);
              s2 = (if found = [] then tick s1
                    else graph_tx w (\<lambda>ck. queue_discoveries ck (map (\<lambda>d. \<lparr>from_node = i, description = d\<rparr>) found)) s1);
              s3 = archive_node_artifacts w i s2;
              s4 = persist_graph_state w (graph_tx w (\<lambda>ck. mark_node_achieved ck i rounds (fst used)) s3)
          in drive_graph fuel w s4)"

definition pause_reason_of :: "goal_status \<Rightarrow> goal_pause_reason" where
  "pause_reason_of st =
     (case st of BackOffPaused \<Rightarrow> BackOff | NoProgressPaused \<Rightarrow> NoProgress | InfraPaused \<Rightarrow> Infra
      | Blocked \<Rightarrow> Verification | _ \<Rightarrow> User)"

definition run_graph_round_end :: "nat \<Rightarrow> world \<Rightarrow> session \<Rightarrow> (string option \<times> session) option" where
  "run_graph_round_end fuel w s0 =
     (if \<not> graph_harness_enabled w \<or> \<not> is_active (ss_graph s0) then Some (None, s0)
      else case goal_status_of (ss_goal s0) of
        Some Complete \<Rightarrow> advance_graph_after_node_complete fuel w s0
      | Some BudgetLimited \<Rightarrow>
          let (used, s1) = goal_tokens_now (w_tokens w (ss_tick s0)) (tick s0)
          in Some (None, persist_graph_state w (graph_tx w (\<lambda>ck t.
               snd (graph_budget_limit ck (case current_node_id t of
                      Some i \<Rightarrow> charge_node_tokens i (fst used) t | None \<Rightarrow> t))) s1))
      | other \<Rightarrow>
          (case other of
             Some st \<Rightarrow>
               if is_paused st
               then Some (None, persist_graph_state w (graph_tx w (\<lambda>ck t.
                      snd (graph_pause_inner ck (pause_reason_of st) (Option.bind (gt_orchestration (ss_goal s0)) o_pause_message) t)) s0))
               else Some (None, pause_graph w Infra
                      (''Inconsistent goal engine state at round end: '' @ option_debug goal_status_debug other) s0)
           | None \<Rightarrow> Some (None, pause_graph w Infra
                      (''Inconsistent goal engine state at round end: '' @ option_debug goal_status_debug other) s0)))"

end
