(* ===== verification/Graph_Commands.thy ===== *)
theory Graph_Commands
  imports Graph_Session
begin

text \<open>
  The \<open>/graph\<close> commands: \<open>setup_graph\<close>, \<open>resume_graph\<close> with \<open>finish_planning_on_resume\<close> and the
  status text (\<open>acp_session_impl/graph.rs\<close>), and the pause and clear arms of
  \<open>acp_session_impl/slash_exec.rs\<close>.  A command that drives the graph takes the fuel of the
  dispatch loop and is \<open>None\<close> when it runs out.
\<close>

datatype graph_setup_outcome = Inference string string | Message string

definition apostrophe :: string where
  "apostrophe = [CHR 0x27]"

section \<open>Setting up\<close>

text \<open>The refusals of \<open>setup_graph\<close> before the graph is created.\<close>

definition setup_refusal :: "world \<Rightarrow> session \<Rightarrow> string option \<times> session" where
  "setup_refusal w s0 =
     (if (case goal_status_of (ss_goal s0) of Some st \<Rightarrow> st = Active \<or> is_paused st | None \<Rightarrow> False)
      then (Some ''A goal is active or paused. Use /goal clear first, then /graph <objective>.'', s0)
      else if (case graph_status (ss_graph s0) of Some st \<Rightarrow> st \<noteq> Complete | None \<Rightarrow> False)
      then (Some ''A graph is already set. Use /graph status, /graph resume [--budget <tokens>], or /graph clear.'', s0)
      else case acquire_project_graph_writer w s0 of
        (Inr False, s) \<Rightarrow>
          (Some (''Another kigi instance holds this project'' @ apostrophe @ ''s graph (single-writer lock). Use /graph status here for a read-only view, or run the graph from that instance.''), s)
      | (Inl err, s) \<Rightarrow> (Some (''Failed to acquire the project graph lock: '' @ err), s)
      | (Inr True, s) \<Rightarrow>
          (case cf_project_dir w of
             None \<Rightarrow> (None, s)
           | Some dir \<Rightarrow>
               (case load_project w dir s of
                  Inr (Some existing) \<Rightarrow>
                    if g_status existing \<noteq> Complete
                    then (Some (''A project graph exists in .kigi/graph.jsonl ('' @ g_graph_id existing @ '': '' @ g_objective existing
                                @ ''). Use /graph resume to revive it or /graph clear to discard it.''), tick (s\<lparr>ss_lock := False\<rparr>))
                    else (None, tick s)
                | Inr None \<Rightarrow> (None, tick s)
                | Inl err \<Rightarrow>
                    (Some (''Project graph file is unreadable: '' @ err @ [nl] @ ''Fix or delete .kigi/graph.jsonl, then retry.''),
                     tick (s\<lparr>ss_lock := False\<rparr>)))))"

definition planning_failed :: "world \<Rightarrow> string \<Rightarrow> string \<Rightarrow> session \<Rightarrow> session" where
  "planning_failed w reason msg s =
     persist_graph_state w (graph_tx w (\<lambda>ck t.
       snd (graph_pause_with_message ck Infra msg (record_planning_failed ck reason t))) s)"

definition setup_graph :: "nat \<Rightarrow> world \<Rightarrow> string \<Rightarrow> i64 option \<Rightarrow> session \<Rightarrow> (graph_setup_outcome \<times> session) option" where
  "setup_graph fuel w objective budget s0 =
     (case setup_refusal w s0 of
        (Some msg, s) \<Rightarrow> Some (Message msg, s)
      | (None, s) \<Rightarrow>
          let s1 = persist_graph_state w
                     (graph_tx w (\<lambda>ck. create_graph ck (w_uuid w (ss_tick s)) objective budget (rfc ck 2)) s)
          in case run_graph_planning w objective s1 of
               (None, s2) \<Rightarrow> Some (Message [], s2\<lparr>ss_panicked := True\<rparr>)
             | (Some (Inl reason), s2) \<Rightarrow>
                 Some (Message (''Graph planning failed: '' @ reason @ [nl] @ ''Use /graph resume to retry or /graph clear to abandon.''),
                       planning_failed w reason (''Graph planning failed: '' @ reason) s2)
             | (Some (Inr nodes), s2) \<Rightarrow>
                 (case write_graph_baseline w nodes s2 of
                    (Some err, s3) \<Rightarrow>
                      let reason = ''failed to write graph baseline: '' @ err
                      in Some (Message (reason @ [nl] @ ''Use /graph resume to retry or /graph clear to abandon.''),
                               planning_failed w reason reason s3)
                  | (None, s3) \<Rightarrow>
                      let s4 = maybe_optimize_graph w (persist_graph_state w (graph_tx w (\<lambda>ck. install_nodes ck nodes) s3))
                      in map_option (\<lambda>(r, s5). (case r of
                             Some reminder \<Rightarrow> Inference reminder (''Graph created: '' @ show_nat (length nodes)
                                                @ '' nodes (incl. final verification). Starting work.'')
                           | None \<Rightarrow> Message ''Graph did not enter a serial node. See /graph status.'', s5))
                           (drive_graph fuel w s4)))"

section \<open>Resuming\<close>

definition finish_planning_on_resume ::
  "nat \<Rightarrow> world \<Rightarrow> string \<Rightarrow> session \<Rightarrow> ((string + string option) \<times> session) option" where
  "finish_planning_on_resume fuel w objective s0 =
     (case run_graph_planning w objective s0 of
        (None, s1) \<Rightarrow> Some (Inl [], s1\<lparr>ss_panicked := True\<rparr>)
      | (Some (Inl reason), s1) \<Rightarrow>
          Some (Inl (''Graph planning failed again: '' @ reason @ [nl] @ ''Use /graph resume to retry.''),
                planning_failed w reason (''Graph planning failed: '' @ reason) s1)
      | (Some (Inr nodes), s1) \<Rightarrow>
          (case write_graph_baseline w nodes s1 of
             (Some err, s2) \<Rightarrow>
               let reason = ''failed to write graph baseline: '' @ err
               in Some (Inl reason, pause_graph w Infra reason s2)
           | (None, s2) \<Rightarrow>
               map_option (\<lambda>(r, s3). (Inr r, s3))
                 (drive_graph fuel w (persist_graph_state w (graph_tx w (\<lambda>ck. install_nodes ck nodes) s2)))))"

text \<open>The tracker part of resuming a paused graph: re-arm it and requeue orphaned nodes.\<close>

definition rearm :: "world \<Rightarrow> session \<Rightarrow> session" where
  "rearm w s =
     persist_graph_state w (graph_tx w (\<lambda>ck t.
       let t1 = snd (graph_resume ck t)
       in demote_orphaned_in_flight (if gt_orchestration (ss_goal s) \<noteq> None then current_node_id t1 else None) t1) s)"

definition resume_paused :: "nat \<Rightarrow> world \<Rightarrow> session \<Rightarrow> (graph_setup_outcome \<times> session) option" where
  "resume_paused fuel w s0 =
     (case claim_project_graph_for_resume w s0 of
        (Some msg, s) \<Rightarrow> Some (Message msg, s)
      | (None, s) \<Rightarrow>
          let s1 = rearm w s
          in if (case t_state (ss_graph s1) of Some st \<Rightarrow> g_nodes st = [] | None \<Rightarrow> False)
             then map_option (\<lambda>(r, s2). (case r of
                      Inr (Some reminder) \<Rightarrow> Inference reminder ''Graph resumed; planning retried.''
                    | Inr None \<Rightarrow> Message ''Graph resumed but no node could start. See /graph status.''
                    | Inl msg \<Rightarrow> Message msg, s2))
                    (finish_planning_on_resume fuel w
                       (case graph_objective (ss_graph s1) of Some obj \<Rightarrow> obj | None \<Rightarrow> []) s1)
             else if (case goal_status_of (ss_goal s1) of Some st \<Rightarrow> is_paused st | None \<Rightarrow> False)
             then (case resume_goal w s1 of
                     (GoalInference reminder user_msg, s2) \<Rightarrow> Some (Inference reminder (''Graph resumed. '' @ user_msg), s2)
                   | (GoalMessage msg, s2) \<Rightarrow> Some (Message (''Graph resume: '' @ msg), s2))
             else map_option (\<lambda>(r, s2). (case r of
                      Some reminder \<Rightarrow> Inference reminder ''Graph resumed.''
                    | None \<Rightarrow> Message ''Graph resumed but did not enter a serial node. See /graph status.'', s2))
                    (drive_graph fuel w s1))"

definition resume_limited :: "nat \<Rightarrow> world \<Rightarrow> i64 option \<Rightarrow> session \<Rightarrow> (graph_setup_outcome \<times> session) option" where
  "resume_limited fuel w extra_budget s0 =
     (case extra_budget of
        None \<Rightarrow> Some (Message ''Graph is budget-limited. Top up with /graph resume --budget <tokens>, or /graph clear to abandon.'', s0)
      | Some extra \<Rightarrow>
          if extra \<le> 0 then Some (Message ''Budget top-up must be a positive token count.'', s0)
          else (case claim_project_graph_for_resume w s0 of
                  (Some msg, s) \<Rightarrow> Some (Message msg, s)
                | (None, s) \<Rightarrow>
                    if \<not> fst (resume_budget_limited (w_clock w (ss_tick s)) extra (ss_graph s))
                    then Some (Message ''Budget top-up must be a positive token count.'', s)
                    else map_option (\<lambda>(r, s2). (case r of
                             Some reminder \<Rightarrow> Inference reminder (''Graph resumed with '' @ show_int extra @ '' fresh budget tokens.'')
                           | None \<Rightarrow> Message ''Graph resumed with fresh budget but did not enter a serial node. See /graph status.'', s2))
                           (drive_graph fuel w (persist_graph_state w
                              (graph_tx w (\<lambda>ck t. snd (resume_budget_limited ck extra t)) s)))))"

text \<open>The arms of \<open>resume_graph\<close> on a graph the session already holds.\<close>

definition resume_session_graph :: "nat \<Rightarrow> world \<Rightarrow> i64 option \<Rightarrow> session \<Rightarrow> (graph_setup_outcome \<times> session) option" where
  "resume_session_graph fuel w extra_budget s =
     (case graph_status (ss_graph s) of
        None \<Rightarrow> Some (Message ''No graph is set. Use /graph <objective> to start one.'', s)
      | Some Active \<Rightarrow> Some (Message ''Graph is already running.'', s)
      | Some Complete \<Rightarrow> Some (Message ''Graph is already complete. Use /graph <objective> to start a new one.'', s)
      | Some BudgetLimited \<Rightarrow> resume_limited fuel w extra_budget s
      | Some _ \<Rightarrow>
          if extra_budget \<noteq> None
          then Some (Message ''--budget only applies to a budget-limited graph; this graph is paused. Use /graph resume (no flags) to continue, or /graph clear to abandon.'', s)
          else resume_paused fuel w s)"

text \<open>
  \<open>resume_graph\<close>: without a session graph the project file is revived first, under the lock; the
  tracker then holds a graph, so that the recursive call is one of the arms above.
\<close>

definition revive_project_graph :: "world \<Rightarrow> session \<Rightarrow> string option \<times> session" where
  "revive_project_graph w s0 =
     (case cf_project_dir w of
        None \<Rightarrow> (Some ''No graph is set. Use /graph <objective> to start one.'', s0)
      | Some dir \<Rightarrow>
          (case acquire_project_graph_writer w s0 of
             (Inr False, s) \<Rightarrow>
               (Some (''Another kigi instance holds this project'' @ apostrophe @ ''s graph (single-writer lock); /graph status shows a read-only view.''), s)
           | (Inl err, s) \<Rightarrow> (Some (''Failed to acquire the project graph lock: '' @ err), s)
           | (Inr True, s) \<Rightarrow>
               (case load_project w dir s of
                  Inr (Some st) \<Rightarrow>
                    (None, persist_graph_state w (tick (s\<lparr>ss_graph := from_snapshot (cf_session_dir w) st\<rparr>)))
                | Inr None \<Rightarrow> (Some ''No graph is set. Use /graph <objective> to start one.'', tick (s\<lparr>ss_lock := False\<rparr>))
                | Inl err \<Rightarrow>
                    (Some (''Project graph file is unreadable: '' @ err @ [nl] @ ''Fix or delete .kigi/graph.jsonl, then retry.''),
                     tick (s\<lparr>ss_lock := False\<rparr>)))))"

definition resume_graph :: "nat \<Rightarrow> world \<Rightarrow> i64 option \<Rightarrow> session \<Rightarrow> (graph_setup_outcome \<times> session) option" where
  "resume_graph fuel w extra_budget s0 =
     (if t_state (ss_graph s0) \<noteq> None then resume_session_graph fuel w extra_budget s0
      else case revive_project_graph w s0 of
             (Some msg, s) \<Rightarrow> Some (Message msg, s)
           | (None, s) \<Rightarrow> resume_session_graph fuel w extra_budget s)"

section \<open>Pause and clear\<close>

definition graph_pause_command :: "world \<Rightarrow> session \<Rightarrow> session" where
  "graph_pause_command w s =
     (case graph_status (ss_graph s) of
        Some Active \<Rightarrow>
          say ''Graph paused. Use /graph resume to continue.''
            (persist_graph_state w (snd (auto_pause_goal w User None
               (graph_tx w (\<lambda>ck t. snd (graph_pause ck User t)) s))))
      | Some Complete \<Rightarrow> say ''Graph is already complete.'' s
      | Some BudgetLimited \<Rightarrow> say ''Graph is budget-limited.'' s
      | Some st \<Rightarrow> say (if is_paused st then ''Graph is already paused.'' else ''No graph is currently set.'') s
      | None \<Rightarrow> say ''No graph is currently set.'' s)"

definition release_foreign :: "world \<Rightarrow> string option \<Rightarrow> session \<Rightarrow> session" where
  "release_foreign w ours s0 =
     (case acquire_project_graph_writer w s0 of
        (Inr True, s) \<Rightarrow>
          (case (projected_graph_id w s, ours) of
             (Some projected, Some mine) \<Rightarrow> if projected \<noteq> mine then tick (s\<lparr>ss_lock := False\<rparr>) else tick s
           | _ \<Rightarrow> tick s)
      | (_, s) \<Rightarrow> s)"

definition graph_clear_command :: "world \<Rightarrow> session \<Rightarrow> session" where
  "graph_clear_command w s0 =
    (let had_graph = (t_state (ss_graph s0) \<noteq> None);
         ours = map_option g_graph_id (t_state (ss_graph s0));
         s1 = (if graph_owns_goal_engine s0 then reset_goal_engine_state w s0 else s0);
         s2 = graph_tx w (\<lambda>ck. graph_clear) s1;
         s3 = (if had_graph then release_foreign w ours s2 else s2);
         s4 = (persist_graph_state w s3)\<lparr>ss_lock := False\<rparr>
     in say (if had_graph then ''Graph cleared.'' else ''No graph is currently set.'') s4)"

section \<open>Status\<close>

fun status_glyph :: "node_status \<Rightarrow> string" where
  "status_glyph Achieved = ''[x]''"
| "status_glyph Running = ''[>]''"
| "status_glyph Verifying = ''[>]''"
| "status_glyph Ready = ''[ ]''"
| "status_glyph Waiting = ''[.]''"
| "status_glyph Failed = ''[!]''"
| "status_glyph NodeBlocked = ''[-]''"

definition status_line :: "graph_node \<Rightarrow> string" where
  "status_line n =
     ''  '' @ status_glyph (n_status n) @ '' '' @ n_id n @ '' '' @ em_dash @ '' '' @ n_title n
     @ (if n_status n = Waiting \<and> n_deps n \<noteq> []
        then ''  (waiting on '' @ join '', '' (map dep_on (n_deps n)) @ '')'' else [])
     @ (if n_status n = Achieved
        then ''  ('' @ show_int (n_tokens_used n) @ '' tokens, '' @ show_nat (unat (n_rounds n)) @ '' rounds)'' else [])
     @ (case n_failure n of Some f \<Rightarrow> ''  '' @ em_dash @ '' '' @ f | None \<Rightarrow> [])
     @ [nl]"

fun goal_phase_debug :: "goal_phase \<Rightarrow> string" where
  "goal_phase_debug Idle = ''Idle''"
| "goal_phase_debug Planning = ''Planning''"
| "goal_phase_debug Executing = ''Executing''"

definition status_text :: "i64 \<Rightarrow> graph_orchestration \<Rightarrow> string" where
  "status_text node_goal_tokens s =
     ''Graph: '' @ g_objective s @ [nl] @ ''Status: '' @ goal_status_debug (g_status s) @ '' | Phase: ''
     @ goal_phase_debug (g_phase s) @ '' | Plan v'' @ show_nat (unat (g_plan_version s)) @ [nl]
     @ ''Nodes: '' @ show_nat (length (filter (\<lambda>n. n_status n = Achieved) (g_nodes s))) @ ''/''
     @ show_nat (length (g_nodes s)) @ '' achieved'' @ [nl]
     @ concat (map status_line (g_nodes s))
     @ ''Tokens: '' @ show_int (if g_current_node s \<noteq> None then wrap_i64 (g_tokens_spent_nodes s + node_goal_tokens)
                                else g_tokens_spent_nodes s)
     @ (case g_token_budget s of Some b \<Rightarrow> '' | Budget: '' @ show_int b | None \<Rightarrow> [])
     @ (case g_current_node s of Some i \<Rightarrow> [nl] @ ''Current node: '' @ i | None \<Rightarrow> [])
     @ (case g_pause_message s of Some m \<Rightarrow> [nl] @ ''Paused: '' @ m | None \<Rightarrow> [])"

definition graph_status_message :: "world \<Rightarrow> session \<Rightarrow> string \<times> session" where
  "graph_status_message w s0 =
    (let (used, s) = goal_tokens_now (w_tokens w (ss_tick s0)) (tick s0)
     in case t_state (ss_graph s) of
          Some st \<Rightarrow> (status_text (fst used) st, s)
        | None \<Rightarrow>
            (case map_option (\<lambda>dir. load_project w dir s) (cf_project_dir w) of
               Some (Inr (Some st)) \<Rightarrow> (status_text (fst used) st, tick s)
             | Some (Inl err) \<Rightarrow> (''Project graph file is unreadable: '' @ err @ [nl] @ ''Fix or delete .kigi/graph.jsonl.'', tick s)
             | _ \<Rightarrow> (''No graph is set. Use /graph <objective> to start one.'', tick s)))"

end
