(* ===== verification/Session_Inv.thy ===== *)
theory Session_Inv
  imports Tracker_Inv Graph_Commands
begin

text \<open>
  The session keeps its graph reachable: the invariant \<open>sess_inv\<close> and that every operation of
  \<open>Graph_Session\<close> and \<open>Graph_Commands\<close> preserves it.

  The invariant says that the tracker is one the transition system \<open>graph_step\<close> reaches, that
  everything ever checkpointed or projected is the state of such a tracker, that the last
  checkpoint is the state in memory, and that no operation has panicked.
\<close>

section \<open>Frames\<close>

definition checkpoints :: "session \<Rightarrow> graph_orchestration option list" where
  "checkpoints s = List.map_filter (\<lambda>e. case e of Checkpoint c \<Rightarrow> Some c | _ \<Rightarrow> None) (ss_log s)"

lemma map_filter_append [simp]: "List.map_filter f (xs @ ys) = List.map_filter f xs @ List.map_filter f ys"
  by (induction xs) (auto simp: List.map_filter_simps split: option.splits)

lemma tick_frame [simp]:
  "ss_graph (tick s) = ss_graph s" "ss_file (tick s) = ss_file s" "ss_lock (tick s) = ss_lock s" "ss_goal (tick s) = ss_goal s"
  "ss_baselines (tick s) = ss_baselines s" "ss_panicked (tick s) = ss_panicked s" "checkpoints (tick s) = checkpoints s"
  by (simp_all add: tick_def checkpoints_def)

lemma emit_frame [simp]:
  "ss_graph (emit es s) = ss_graph s" "ss_file (emit es s) = ss_file s" "ss_lock (emit es s) = ss_lock s" "ss_goal (emit es s) = ss_goal s"
  "ss_baselines (emit es s) = ss_baselines s" "ss_panicked (emit es s) = ss_panicked s" "ss_tick (emit es s) = ss_tick s"
  "checkpoints (emit es s) = checkpoints s @ List.map_filter (\<lambda>e. case e of Checkpoint c \<Rightarrow> Some c | _ \<Rightarrow> None) es"
  by (simp_all add: emit_def checkpoints_def)

lemma say_frame [simp]:
  "ss_graph (say m s) = ss_graph s" "ss_file (say m s) = ss_file s" "ss_lock (say m s) = ss_lock s" "ss_goal (say m s) = ss_goal s"
  "ss_baselines (say m s) = ss_baselines s" "ss_panicked (say m s) = ss_panicked s" "checkpoints (say m s) = checkpoints s"
  by (simp_all add: say_def List.map_filter_simps)

lemma graph_tx_frame [simp]:
  "ss_graph (graph_tx w f s) = f (w_clock w (ss_tick s)) (ss_graph s)" "ss_file (graph_tx w f s) = ss_file s"
  "ss_lock (graph_tx w f s) = ss_lock s" "ss_goal (graph_tx w f s) = ss_goal s" "ss_baselines (graph_tx w f s) = ss_baselines s"
  "ss_panicked (graph_tx w f s) = ss_panicked s" "checkpoints (graph_tx w f s) = checkpoints s"
  by (simp_all add: graph_tx_def tick_def checkpoints_def)

text \<open>Changes of the goal engine, the counters and the pager's view leave the graph's world alone.\<close>

definition core :: "session \<Rightarrow> graph_tracker \<times> string option \<times> bool \<times> (string \<times> graph_node list option) list \<times> bool \<times> graph_orchestration option list" where
  "core s = (ss_graph s, ss_file s, ss_lock s, ss_baselines s, ss_panicked s, checkpoints s)"

lemma coreD:
  assumes "core s' = core s"
  shows "ss_graph s' = ss_graph s" "ss_file s' = ss_file s" "ss_lock s' = ss_lock s" "ss_baselines s' = ss_baselines s"
    "ss_panicked s' = ss_panicked s" "checkpoints s' = checkpoints s"
  using assms by (simp_all add: core_def)

lemma core_simps [simp]:
  "core (tick s) = core s" "core (say m s) = core s" "core (goal_tx w g s) = core s"
  "core (s\<lparr>ss_goal := x1\<rparr>) = core s" "core (s\<lparr>ss_records := x2\<rparr>) = core s" "core (s\<lparr>ss_continuation_streak := x3\<rparr>) = core s"
  "core (s\<lparr>ss_blocked_streak := x4\<rparr>) = core s" "core (s\<lparr>ss_in_flight := x8\<rparr>) = core s" "core (s\<lparr>ss_task_ids := x5\<rparr>) = core s"
  "core (s\<lparr>ss_pending_claims := x6\<rparr>) = core s" "core (s\<lparr>ss_loop_gate := x7\<rparr>) = core s"
  "core (emit [GoalBadge o1 a b] s) = core s" "core (emit [GoalClearedBadge] s) = core s" "core (emit [GoalAutoPaused r] s) = core s"
  by (simp_all add: core_def goal_tx_def tick_def checkpoints_def say_def emit_def List.map_filter_simps)

lemma core_goal_tokens [simp]: "core (snd (goal_tokens_now c s)) = core s"
  by (simp add: goal_tokens_now_def split: prod.splits)

lemma core_goal_tokensD: "goal_tokens_now c s = (u, s') \<Longrightarrow> core s' = core s"
  using core_goal_tokens [of c s] by simp

lemma core_emit_goal_updated [simp]: "core (emit_goal_updated w u s) = core s"
  by (simp add: emit_goal_updated_def Let_def split: option.splits)

lemma core_reset_goal [simp]: "core (reset_goal_engine_state w s) = core s"
  by (simp add: reset_goal_engine_state_def)

lemma core_emit_goal_planning [simp]: "core (emit_goal_planning w c s) = core s"
  by (auto simp: emit_goal_planning_def Let_def dest: core_goal_tokensD split: prod.splits option.splits)

lemma core_record_plan [simp]: "core (record_plan w f s) = core s"
  by (simp add: record_plan_def Let_def)

section \<open>The invariant\<close>

text \<open>A state some reachable tracker holds.\<close>

definition snap_ok :: "graph_orchestration \<Rightarrow> bool" where
  "snap_ok st \<longleftrightarrow> (\<exists>t. graph_reach t \<and> t_state t = Some st) \<and> (g_nodes st = [] \<longrightarrow> g_pending_discoveries st = [])"

text \<open>Whatever the project file loads to is such a state.\<close>

definition file_ok :: "world \<Rightarrow> string option \<Rightarrow> bool" where
  "file_ok w f \<longleftrightarrow> (\<forall>dir st. cf_project_dir w = Some dir \<longrightarrow> load (cf_serde w) dir (Inr f) = Inr (Some st) \<longrightarrow> snap_ok st)"

text \<open>What is relied on of \<open>serde_json\<close>: a projected text loads to nothing but what was projected.\<close>

definition serde_sound :: "graph_serde \<Rightarrow> bool" where
  "serde_sound sd \<longleftrightarrow> (\<forall>st text dir st'. project_text sd st = Inr text \<longrightarrow>
     load sd dir (Inr (Some text)) = Inr (Some st') \<longrightarrow> st' = st)"

definition pre_inv :: "world \<Rightarrow> session \<Rightarrow> bool" where
  "pre_inv w s \<longleftrightarrow> file_ok w (ss_file s) \<and> (\<forall>st. Some st \<in> set (checkpoints s) \<longrightarrow> snap_ok st) \<and> \<not> ss_panicked s"

text \<open>The state the persistence actor holds, and that memory agrees with it up to a restart.\<close>

definition stored :: "session \<Rightarrow> graph_orchestration option" where
  "stored s = (if checkpoints s = [] then None else last (checkpoints s))"

definition saved :: "session \<Rightarrow> bool" where
  "saved s \<longleftrightarrow> t_state (ss_graph s) = stored s \<or>
     (\<exists>st dir. stored s = Some st \<and> t_state (ss_graph s) = t_state (from_snapshot dir st))"

definition sess_inv :: "world \<Rightarrow> session \<Rightarrow> bool" where
  "sess_inv w s \<longleftrightarrow> serde_sound (cf_serde w) \<and> pre_inv w s \<and> track_inv (cf_coordinator w) (ss_graph s) \<and> saved s"

lemma sess_invD:
  assumes "sess_inv w s"
  shows "serde_sound (cf_serde w)" "pre_inv w s" "track_inv (cf_coordinator w) (ss_graph s)" "saved s"
    "graph_reach (ss_graph s)" "\<not> ss_panicked s" "file_ok w (ss_file s)"
  using assms track_invD(1) by (auto simp: sess_inv_def pre_inv_def)

lemma pre_inv_core: "core s' = core s \<Longrightarrow> pre_inv w s' = pre_inv w s"
  by (simp add: core_def pre_inv_def)

lemma sess_inv_core: "core s' = core s \<Longrightarrow> sess_inv w s' = sess_inv w s"
  by (simp add: sess_inv_def core_def pre_inv_def saved_def stored_def)

lemma pre_inv_simps [simp]:
  "pre_inv w (tick s) = pre_inv w s" "pre_inv w (say m s) = pre_inv w s" "pre_inv w (graph_tx w' f s) = pre_inv w s"
  by (simp_all add: pre_inv_def)

lemma sess_inv_simps [simp]:
  "sess_inv w (tick s) = sess_inv w s" "sess_inv w (say m s) = sess_inv w s"
  by (rule sess_inv_core; simp)+

lemma track_inv_snap: "track_inv co t \<Longrightarrow> t_state t = Some st \<Longrightarrow> snap_ok st"
  using track_invD(1,4) [of co t] unfolding snap_ok_def by (auto simp: nodes_of_def pending_of_def)

lemma track_inv_from_snapshot: "snap_ok st \<Longrightarrow> track_inv co (from_snapshot dir st)"
  unfolding snap_ok_def using track_inv_snapshot by blast

section \<open>Checkpoints\<close>

lemma persist_frame [simp]:
  "ss_graph (persist_graph_state w s) = ss_graph s" "ss_lock (persist_graph_state w s) = ss_lock s"
  "ss_goal (persist_graph_state w s) = ss_goal s"
  "ss_baselines (persist_graph_state w s) = ss_baselines s" "ss_panicked (persist_graph_state w s) = ss_panicked s"
  "ss_file (persist_graph_state w s) = sync_project w s"
  "checkpoints (persist_graph_state w s) = checkpoints s @ [t_state (ss_graph s)]"
  by (simp_all add: persist_graph_state_def List.map_filter_simps checkpoints_def tick_def emit_def)

lemma project_file:
  "snd (project sd io st file) = file \<or> (\<exists>text. project_text sd st = Inr text \<and> snd (project sd io st file) = Some text)"
proof (cases "project sd io st file")
  case (Pair r file')
  then show ?thesis using project_atomic [OF Pair] by (cases r) auto
qed

lemma sync_project_ok:
  assumes "serde_sound (cf_serde w)" "file_ok w (ss_file s)" "\<And>st. t_state (ss_graph s) = Some st \<Longrightarrow> snap_ok st"
  shows "file_ok w (sync_project w s)"
proof (cases "cf_project_dir w \<noteq> None \<and> ss_lock s")
  case True
  show ?thesis
  proof (cases "t_state (ss_graph s)")
    case None
    have "sync_project w s = ss_file s \<or> sync_project w s = None"
      using True None by (auto simp: sync_project_def remove_projection_def split: option.splits)
    then show ?thesis using assms(2) by (auto simp: file_ok_def load_def)
  next
    case (Some st)
    then consider (old) "sync_project w s = ss_file s"
      | (new) out where "project_text (cf_serde w) st = Inr out" "sync_project w s = Some out"
      using True project_file [of "cf_serde w" "w_write w (ss_tick s)" st "ss_file s"] by (auto simp: sync_project_def)
    then show ?thesis
    proof cases
      case (new out)
      then show ?thesis using assms(1,3) Some unfolding file_ok_def serde_sound_def by metis
    qed (use assms(2) in simp)
  qed
qed (use assms(2) in \<open>auto simp: sync_project_def\<close>)

lemma persist_inv:
  assumes "serde_sound (cf_serde w)" "pre_inv w s" "track_inv (cf_coordinator w) (ss_graph s)"
  shows "sess_inv w (persist_graph_state w s)"
proof -
  have snap: "snap_ok st" if "t_state (ss_graph s) = Some st" for st using track_inv_snap [OF assms(3) that] .
  have "file_ok w (sync_project w s)"
    using sync_project_ok [OF assms(1) _ snap] assms(2) by (simp add: pre_inv_def)
  then have "pre_inv w (persist_graph_state w s)" using assms(2) snap by (auto simp: pre_inv_def)
  then show ?thesis using assms by (simp add: sess_inv_def saved_def stored_def)
qed

text \<open>A checkpointed transition of the tracker.\<close>

lemma persist_tx:
  assumes "sess_inv w s" "\<And>ck. track_inv (cf_coordinator w) (f ck (ss_graph s))"
  shows "sess_inv w (persist_graph_state w (graph_tx w f s))"
  by (rule persist_inv) (use assms sess_invD(1,2) in auto)

lemma pause_graph_inv: "sess_inv w s \<Longrightarrow> sess_inv w (pause_graph w r m s)"
  unfolding pause_graph_def graph_pause_with_message_def
  by (rule persist_tx) (simp_all add: track_inv_simple(6) sess_invD(3))

lemma limit_graph_inv: "sess_inv w s \<Longrightarrow> sess_inv w (limit_graph w s)"
  unfolding limit_graph_def by (rule persist_tx) (simp_all add: track_inv_budget sess_invD(3))

section \<open>The goal engine\<close>

text \<open>The first half of a pause: the goal, if there is an active one.\<close>

definition pause_goal_part :: "world \<Rightarrow> goal_pause_reason \<Rightarrow> string option \<Rightarrow> session \<Rightarrow> session" where
  "pause_goal_part w reason msg s0 =
     (if goal_status_of (ss_goal s0) = Some Active
      then let sa = goal_tx w (\<lambda>h ck t. snd (goal_pause_inner ck reason msg t)) s0;
               (used, sb) = goal_tokens_now (w_tokens w (ss_tick s0)) (sa\<lparr>ss_pending_claims := []\<rparr>)
           in emit [GoalAutoPaused reason] (emit_goal_updated w used sb)
      else tick s0)"

lemma auto_pause_split:
  "auto_pause_goal w reason msg s0 =
     (goal_status_of (ss_goal s0) = Some Active,
      let s1 = pause_goal_part w reason msg s0
      in if graph_harness_enabled w \<and> is_active (ss_graph s1)
         then persist_graph_state w (graph_tx w (\<lambda>ck t.
                snd (graph_pause_with_message ck reason (pause_detail (current_node_id t) reason msg) t)) s1)
         else s1)"
  by (simp add: auto_pause_goal_def pause_goal_part_def Let_def split: prod.splits)

lemma core_pause_goal_part [simp]: "core (pause_goal_part w r m s) = core s"
  by (auto simp: pause_goal_part_def Let_def dest: core_goal_tokensD split: prod.splits)

lemma auto_pause_inv: "sess_inv w s \<Longrightarrow> sess_inv w (snd (auto_pause_goal w r m s))"
proof -
  assume s: "sess_inv w s"
  then have 1: "sess_inv w (pause_goal_part w r m s)" using sess_inv_core core_pause_goal_part by blast
  show ?thesis
    unfolding auto_pause_split snd_conv Let_def graph_pause_with_message_def
    using persist_tx [OF 1, of "\<lambda>ck t. snd (graph_pause_inner ck r (Some (pause_detail (current_node_id t) r m)) t)"]
      track_inv_simple(6) [OF sess_invD(3) [OF 1]] 1 by auto
qed

text \<open>A pause ends an active graph and changes nothing else of it.\<close>

lemma auto_pause_graph:
  "nodes_of (ss_graph (snd (auto_pause_goal w r m s))) = nodes_of (ss_graph s)"
  "current_node_id (ss_graph (snd (auto_pause_goal w r m s))) = current_node_id (ss_graph s)"
  "pending_of (ss_graph (snd (auto_pause_goal w r m s))) = pending_of (ss_graph s)"
  "graph_status (ss_graph (snd (auto_pause_goal w r m s))) =
     (if graph_harness_enabled w \<and> is_active (ss_graph s) then Some (to_status r) else graph_status (ss_graph s))"
  using coreD(1) [OF core_pause_goal_part [of w r m s]]
  by (simp_all add: auto_pause_split Let_def graph_pause_with_message_def)

lemma enforce_inv: "sess_inv w s \<Longrightarrow> sess_inv w (snd (enforce_goal_token_budget w c s))"
proof -
  assume s: "sess_inv w s"
  obtain used s1 where u: "goal_tokens_now c s = (used, s1)" by (metis surj_pair)
  have 1: "sess_inv w s1" using s sess_inv_core core_goal_tokensD [OF u] by blast
  define s2 where "s2 = emit_goal_updated w used ((goal_tx w (\<lambda>h ck t. snd (goal_budget_limit h ck t)) s1)\<lparr>ss_pending_claims := []\<rparr>)"
  have "core s2 = core s1" by (simp add: s2_def)
  with 1 have 2: "sess_inv w s2" using sess_inv_core by blast
  have t: "track_inv (cf_coordinator w) (case current_node_id (ss_graph s2) of
      Some i \<Rightarrow> charge_node_tokens i (fst used) (ss_graph s2) | None \<Rightarrow> ss_graph s2)"
    using track_inv_charge sess_invD(3) [OF 2] by (auto split: option.splits)
  have "sess_inv w (persist_graph_state w (graph_tx w (\<lambda>ck t. snd (graph_budget_limit ck (case current_node_id t of
      Some i \<Rightarrow> charge_node_tokens i (fst used) t | None \<Rightarrow> t))) s2))"
    by (rule persist_tx [OF 2]) (rule track_inv_budget [OF t])
  with 1 2 show ?thesis
    by (simp add: enforce_goal_token_budget_def u s2_def Let_def split: option.splits)
qed

lemma planner_inv: "sess_inv w s \<Longrightarrow> sess_inv w (maybe_run_goal_planner w s)"
proof -
  assume s: "sess_inv w s"
  let ?s1 = "emit_goal_planning w (w_tokens w (ss_tick s)) s"
  have 1: "sess_inv w (tick ?s1)" using s sess_inv_core [of ?s1 s] by simp
  have 2: "sess_inv w (record_plan w f (tick ?s1))" for f using 1 sess_inv_core core_record_plan by blast
  have 3: "sess_inv w (snd (auto_pause_goal w User m (tick ?s1)))" for m using auto_pause_inv [OF 1] .
  have 4: "sess_inv w (emit_goal_updated w u (s3\<lparr>ss_goal := g\<rparr>))" if "sess_inv w s2" "goal_tokens_now c s2 = (u, s3)" for s2 s3 c u g
  proof -
    have "core (emit_goal_updated w u (s3\<lparr>ss_goal := g\<rparr>)) = core s2" using core_goal_tokensD [OF that(2)] by simp
    with that(1) show ?thesis using sess_inv_core by blast
  qed
  show ?thesis
    unfolding maybe_run_goal_planner_def
    using s 2 3 by (auto simp: Let_def intro!: 4 [rotated] split: option.splits prod.splits goal_planner_result.splits)
qed

text \<open>The new goal, announced, before the planner runs.\<close>

definition fresh_goal :: "world \<Rightarrow> string \<Rightarrow> i64 option \<Rightarrow> session \<Rightarrow> session" where
  "fresh_goal w objective budget s0 =
    (let n = ss_tick s0;
         baseline = w_tokens w n;
         s1 = (goal_tx w (\<lambda>h ck. create_goal h ck (w_uuid w n) objective budget baseline (rfc ck 1) (w_commit w n)) s0)
                \<lparr>ss_task_ids := [], ss_pending_claims := [], ss_continuation_streak := 0, ss_blocked_streak := 0\<rparr>;
         (used, s2) = goal_tokens_now baseline s1
     in emit_goal_updated w used s2)"

lemma setup_goal_snd: "snd (setup_goal w obj b s) = maybe_run_goal_planner w (fresh_goal w obj b s)"
  by (simp add: setup_goal_def fresh_goal_def Let_def split: prod.splits)

lemma core_fresh_goal [simp]: "core (fresh_goal w obj b s) = core s"
  by (auto simp: fresh_goal_def Let_def dest: core_goal_tokensD split: prod.splits)

lemma setup_goal_inv: "sess_inv w s \<Longrightarrow> sess_inv w (snd (setup_goal w obj b s))"
  unfolding setup_goal_snd using planner_inv sess_inv_core core_fresh_goal by blast

lemma resume_goal_continue_core [simp]: "core (snd (resume_goal_continue w um ps pm s)) = core s"
  by (auto simp: resume_goal_continue_def Let_def dest: core_goal_tokensD split: prod.splits option.splits)

lemma resume_goal_inv: "sess_inv w s \<Longrightarrow> sess_inv w (snd (resume_goal w s))"
proof -
  assume s: "sess_inv w s"
  have c: "sess_inv w (snd (resume_goal_continue w um ps pm s'))" if "sess_inv w s'" for um ps pm s'
    using that sess_inv_core resume_goal_continue_core by blast
  let ?s1 = "(goal_tx w (\<lambda>h ck t. snd (goal_resume ck t)) s)\<lparr>ss_continuation_streak := 0, ss_blocked_streak := 0\<rparr>"
  have 0: "sess_inv w (s\<lparr>ss_continuation_streak := 0, ss_blocked_streak := 0\<rparr>)"
    using sess_inv_core [of "s\<lparr>ss_continuation_streak := 0, ss_blocked_streak := 0\<rparr>" s] s by simp
  have 1: "sess_inv w ?s1" using sess_inv_core [of ?s1 s] s by simp
  show ?thesis
    unfolding resume_goal_def
    using s c [OF 0] c [OF 1] planner_inv [OF 1] c [OF planner_inv [OF 1]] by (simp add: Let_def split: option.splits)
qed

section \<open>Planning, optimizing and replanning\<close>

lemma run_graph_planning_core [simp]: "core (snd (run_graph_planning w obj s)) = core s"
  by (auto simp: run_graph_planning_def Let_def split: option.splits graph_planner_outcome.splits)

lemma planner_pass_cases:
  obtains (planned) nodes json where "run_graph_planner pv io sid obj fb dir gf = Some (Planned nodes)"
      "parse_and_validate (pv_plan_from_str pv) json obj = Some (Inr nodes)"
    | (invalid) reason where "run_graph_planner pv io sid obj fb dir gf = Some (Invalid reason)"
    | (closed) reason where "run_graph_planner pv io sid obj fb dir gf = Some (FailClosed reason)"
proof -
  obtain out where out: "run_graph_planner pv io sid obj fb dir gf = Some out" using run_graph_planner_total by blast
  then show thesis using that run_graph_planner_Planned [of pv io sid obj fb dir gf] by (cases out) auto
qed

definition plan_result :: "world \<Rightarrow> string \<Rightarrow> (string + graph_node list) option \<Rightarrow> bool" where
  "plan_result w obj r \<longleftrightarrow> (\<exists>reason. r = Some (Inl reason)) \<or>
     (\<exists>nodes json. r = Some (Inr nodes) \<and> parse_and_validate (pv_plan_from_str (cf_pass w)) json obj = Some (Inr nodes))"

lemma run_graph_planning_cases: "plan_result w obj (fst (run_graph_planning w obj s))"
proof -
  define dir where "dir = artifacts_dir (ss_graph s)"
  define attempt where "attempt n fb = run_graph_planner (cf_pass w) (w_pass w n) (w_uuid w n) obj fb dir (path_join dir ''graph.json'')" for n fb
  have r: "fst (run_graph_planning w obj s) = (if \<not> cf_coordinator w then Some (Inl ''no subagent coordinator channel'')
      else case attempt (ss_tick s) [] of None \<Rightarrow> None | Some (Planned nodes) \<Rightarrow> Some (Inr nodes) | Some (FailClosed reason) \<Rightarrow> Some (Inl reason)
        | Some (Invalid reason) \<Rightarrow> (case attempt (Suc (ss_tick s)) (feedback_text ''graph'' reason) of
            None \<Rightarrow> None | Some (Planned nodes) \<Rightarrow> Some (Inr nodes) | Some (FailClosed reason') \<Rightarrow> Some (Inl reason')
          | Some (Invalid reason') \<Rightarrow> Some (Inl (''graph failed validation twice: '' @ reason'))))"
    by (simp add: run_graph_planning_def attempt_def dir_def Let_def split: option.splits graph_planner_outcome.splits)
  have 2: "plan_result w obj (case attempt n fb of None \<Rightarrow> None | Some (Planned nodes) \<Rightarrow> Some (Inr nodes)
      | Some (FailClosed reason') \<Rightarrow> Some (Inl reason') | Some (Invalid reason') \<Rightarrow> Some (Inl (''graph failed validation twice: '' @ reason')))" for n fb
    unfolding attempt_def by (rule planner_pass_cases [of "cf_pass w" "w_pass w n" "w_uuid w n" obj fb dir "path_join dir ''graph.json''"])
      (auto simp: plan_result_def)
  show ?thesis
  proof (cases "cf_coordinator w")
    case True
    show ?thesis
      unfolding r using True 2 [of "Suc (ss_tick s)"]
      by (rule_tac planner_pass_cases [of "cf_pass w" "w_pass w (ss_tick s)" "w_uuid w (ss_tick s)" obj "[]" dir "path_join dir ''graph.json''"])
         (auto simp: attempt_def [of "ss_tick s"] plan_result_def)
  qed (simp add: r plan_result_def)
qed

lemma baseline_frame [simp]:
  "ss_graph (snd (write_graph_baseline w ns s)) = ss_graph s" "ss_file (snd (write_graph_baseline w ns s)) = ss_file s"
  "ss_lock (snd (write_graph_baseline w ns s)) = ss_lock s" "ss_goal (snd (write_graph_baseline w ns s)) = ss_goal s"
  "ss_panicked (snd (write_graph_baseline w ns s)) = ss_panicked s" "checkpoints (snd (write_graph_baseline w ns s)) = checkpoints s"
  by (auto simp: write_graph_baseline_def Let_def checkpoints_def tick_def split: option.splits)

lemma freeze_frame [simp]:
  "ss_graph (freeze_nodes w s) = ss_graph s" "ss_file (freeze_nodes w s) = ss_file s" "ss_lock (freeze_nodes w s) = ss_lock s"
  "ss_panicked (freeze_nodes w s) = ss_panicked s" "checkpoints (freeze_nodes w s) = checkpoints s"
  by (simp_all add: freeze_nodes_def)

lemma baseline_inv [simp]:
  "sess_inv w (snd (write_graph_baseline w ns s)) = sess_inv w s" "pre_inv w (freeze_nodes w s) = pre_inv w s"
  by (simp_all add: sess_inv_def pre_inv_def saved_def stored_def)

text \<open>What a dispatch iteration can still do: replans left, then nodes left.\<close>

definition work_left :: "world \<Rightarrow> graph_tracker \<Rightarrow> nat" where
  "work_left w t = (MAX_GRAPH_NODES + 2) * (unat (cf_replan_cap w) - replan_runs t) + open_nodes t"

lemma work_left_replanned:
  assumes "graph_reach t'" "replan_runs t' = Suc (replan_runs t)" "replan_runs t < unat (cf_replan_cap w)"
  shows "work_left w t' < work_left w t"
proof -
  have "unat (cf_replan_cap w) - replan_runs t = Suc (unat (cf_replan_cap w) - replan_runs t')"
    using assms(2,3) by simp
  then show ?thesis using open_nodes_le [OF assms(1)] by (simp add: work_left_def)
qed

lemma runs_bump:
  assumes "t_state t = Some st" "g_replan_runs st < (c :: u32)"
  shows "replan_runs (bump_replan_runs t) = Suc (replan_runs t)" "replan_runs t < unat c"
    "replan_runs (append_replan_nodes ck new t) = Suc (replan_runs t)"
    "replan_runs (install_optimized_nodes ck nodes t) = Suc (replan_runs t)"
  using assms unat_Suc_less [OF assms(2)]
  by (auto simp: replan_runs_def bump_replan_runs_def append_replan_nodes_def install_optimized_nodes_def
        recompute_ready_def push_history_def Let_def)

lemma optimize_spec:
  assumes "sess_inv w s" "nodes_of (ss_graph s) \<noteq> []"
  shows "sess_inv w (maybe_optimize_graph w s) \<and> graph_status (ss_graph (maybe_optimize_graph w s)) = graph_status (ss_graph s) \<and>
    pending_of (ss_graph (maybe_optimize_graph w s)) = pending_of (ss_graph s) \<and>
    work_left w (ss_graph (maybe_optimize_graph w s)) \<le> work_left w (ss_graph s)" (is "?P (maybe_optimize_graph w s)")
proof -
  have id: "?P s" "?P (tick s)" using assms(1) by simp_all
  show ?thesis
  proof (cases "t_state (ss_graph s)")
    case None
    then show ?thesis using id by (simp add: maybe_optimize_graph_def)
  next
    case (Some st)
    have st: "nodes_of (ss_graph s) = g_nodes st" using Some by (simp add: nodes_of_def)
    have "?P (say m (persist_graph_state w (freeze_nodes w (graph_tx w (\<lambda>ck. install_optimized_nodes ck opt) (tick s)))))"
      if a: "apply_optimization from_str (g_nodes st) json = Inr (Some opt)" and act: "g_status st = Active"
        and c: "g_replan_runs st < cf_replan_cap w" for from_str json opt m
    proof -
      have active: "is_active (ss_graph s)" using act Some by (simp add: is_active_def graph_status_def)
      have inv: "track_inv (cf_coordinator w) (install_optimized_nodes ck opt (ss_graph s))" for ck
        using track_inv_optimize [OF sess_invD(3) [OF assms(1)] active assms(2)] a st by simp
      have "sess_inv w (persist_graph_state w (freeze_nodes w (graph_tx w (\<lambda>ck. install_optimized_nodes ck opt) (tick s))))"
        by (rule persist_inv) (use inv sess_invD(1,2) [OF assms(1)] in simp_all)
      moreover have "work_left w (install_optimized_nodes ck opt (ss_graph s)) < work_left w (ss_graph s)" for ck
        using work_left_replanned [OF track_invD(1) [OF inv]] runs_bump(2,4) [OF Some c] by blast
      ultimately show ?thesis by (simp add: less_imp_le)
    qed
    then show ?thesis
      using id Some unfolding maybe_optimize_graph_def
      by (auto simp: Let_def not_le split: sum.splits option.splits)
  qed
qed

text \<open>What a replan boundary leaves: an active graph whose discoveries are taken, with no more work than before.\<close>

definition replanned :: "world \<Rightarrow> session \<Rightarrow> session \<Rightarrow> bool" where
  "replanned w s s' \<longleftrightarrow> sess_inv w s' \<and> is_active (ss_graph s') \<and> work_left w (ss_graph s') \<le> work_left w (ss_graph s) \<and>
     pending_of (ss_graph s') = []"

lemma drain_spec: "sess_inv w s \<Longrightarrow> is_active (ss_graph s) \<Longrightarrow> replanned w s (drain w s)"
  unfolding drain_def replanned_def
  using persist_tx [of w s "\<lambda>ck t. snd (drain_discoveries_to_history t)"] track_inv_simple(3) [OF sess_invD(3)]
  by (auto simp: work_left_def is_active_def)

lemma drain_counted_spec:
  assumes "sess_inv w s" "is_active (ss_graph s)" "t_state (ss_graph s) = Some st" "g_replan_runs st < cf_replan_cap w"
  shows "replanned w s (drain_counted w s)"
proof -
  let ?f = "\<lambda>t. bump_replan_runs (snd (drain_discoveries_to_history t))"
  have d: "drain_counted w s = persist_graph_state w (graph_tx w (\<lambda>ck. ?f) s)"
    by (simp add: drain_counted_def bump_replan_runs_def)
  have inv: "track_inv (cf_coordinator w) (?f (ss_graph s))"
    using track_inv_simple(3,4) sess_invD(3) [OF assms(1)] by blast
  have "t_state (snd (drain_discoveries_to_history (ss_graph s))) = Some (st\<lparr>g_pending_discoveries := []\<rparr>)"
    using assms(3) by (simp add: drain_discoveries_to_history_def)
  then have "replan_runs (?f (ss_graph s)) = Suc (replan_runs (ss_graph s))"
    using runs_bump(1) [of _ _ "cf_replan_cap w"] assms(4) by simp
  then have "work_left w (?f (ss_graph s)) < work_left w (ss_graph s)"
    using work_left_replanned [OF track_invD(1) [OF inv]] runs_bump(2) [OF assms(3,4)] by blast
  moreover have "sess_inv w (drain_counted w s)" unfolding d by (rule persist_tx [OF assms(1)]) (rule inv)
  ultimately show ?thesis using assms(2) by (simp add: replanned_def d is_active_def)
qed

lemma replanned_tick [simp]: "replanned w s (tick s') = replanned w s s'" "replanned w s (say m s') = replanned w s s'"
  "replanned w (tick s) s' = replanned w s s'"
  by (simp_all add: replanned_def)

lemma install_appendix_spec:
  assumes "sess_inv w s" "is_active (ss_graph s)" "t_state (ss_graph s) = Some st" "g_replan_runs st < cf_replan_cap w"
    and "cf_coordinator w" "pending_of (ss_graph s) \<noteq> []" "node_st FINAL_NODE_ID (ss_graph s) \<noteq> Some Achieved"
    and "validate_replan from_str (nodes_of (ss_graph s)) json = Some (Inr new)"
  shows "replanned w s (install_appendix w next new s)"
proof -
  let ?t = "ss_graph s" and ?s1 = "persist_graph_state w (freeze_nodes w (graph_tx w (\<lambda>ck. append_replan_nodes ck new) s))"
  have inv: "track_inv (cf_coordinator w) (append_replan_nodes ck new ?t)" for ck
    using track_inv_replan [of ?t from_str json new ck] sess_invD(3) [OF assms(1)] assms(2,5-8) by simp
  have 1: "sess_inv w ?s1"
    by (rule persist_inv) (use inv sess_invD(1,2) [OF assms(1)] in simp_all)
  have "nodes_of ?t \<noteq> []" using track_invD(4) [OF sess_invD(3) [OF assms(1)]] assms(6) by blast
  then have 2: "nodes_of (ss_graph ?s1) \<noteq> []" using assms(3) by simp
  have 3: "work_left w (ss_graph ?s1) < work_left w ?t"
    using work_left_replanned [where w = w and t = ?t, OF track_invD(1) [OF inv]] runs_bump(2,3) [OF assms(3,4)] by simp
  obtain m where m: "install_appendix w next new s = maybe_optimize_graph w (say m ?s1)" by (auto simp: install_appendix_def)
  have "sess_inv w (say m ?s1)" "nodes_of (ss_graph (say m ?s1)) \<noteq> []" using 1 2 by simp_all
  from optimize_spec [OF this] show ?thesis unfolding m replanned_def using 3 assms(2) by (auto simp: is_active_def)
qed

lemma replanner_pass_cases:
  assumes "wf_nodes existing"
  obtains (planned) new json where "run_graph_replanner pv io sid existing obj cg ds fb dir gf = Some (Planned new)" "new \<noteq> []"
      "validate_replan (pv_plan_from_str pv) existing json = Some (Inr new)"
    | (covered) "run_graph_replanner pv io sid existing obj cg ds fb dir gf = Some (Planned [])"
    | (invalid) reason where "run_graph_replanner pv io sid existing obj cg ds fb dir gf = Some (Invalid reason)"
    | (closed) reason where "run_graph_replanner pv io sid existing obj cg ds fb dir gf = Some (FailClosed reason)"
proof -
  obtain out where out: "run_graph_replanner pv io sid existing obj cg ds fb dir gf = Some out"
    using run_graph_replanner_total [OF assms] by blast
  show thesis
  proof (cases out)
    case (Planned new)
    then show thesis using that(1,2) out run_graph_replanner_Planned [of pv io sid existing obj cg ds fb dir gf new] by (cases "new = []") auto
  qed (use that(3,4) out in auto)
qed

lemma replan_pass_spec:
  assumes "sess_inv w s" "is_active (ss_graph s)" "t_state (ss_graph s) = Some st" "g_replan_runs st < cf_replan_cap w"
    and "cf_coordinator w" "pending_of (ss_graph s) \<noteq> []" "node_st FINAL_NODE_ID (ss_graph s) \<noteq> Some Achieved"
  shows "replanned w s (replan_pass w st s)"
proof -
  let ?next = "g_plan_version st + 1" and ?dir = "artifacts_dir (ss_graph s)"
  define attempt where "attempt n fb = run_graph_replanner (cf_pass w) (w_pass w n) (w_uuid w n) (g_nodes st) (g_objective st)
    (w_compact w (g_nodes st)) (discovery_lines (g_pending_discoveries st)) fb ?dir
    (path_join ?dir (''replan.v'' @ show_nat (unat ?next) @ ''.json''))" for n fb
  have ns: "nodes_of (ss_graph s) = g_nodes st" using assms(3) by (simp add: nodes_of_def)
  have "nodes_of (ss_graph s) \<noteq> []" using track_invD(4) [OF sess_invD(3) [OF assms(1)]] assms(6) by blast
  then have wf: "wf_nodes (g_nodes st)" using reach_graph_ok [OF sess_invD(5) [OF assms(1)]] ns by (simp add: graph_ok_def)
  have inst: "replanned w s (install_appendix w ?next new s1)"
    if "validate_replan from_str (g_nodes st) json = Some (Inr new)" "s1 = tick s \<or> s1 = tick (tick s)" for from_str json new s1
  proof -
    have "core s1 = core s" using that(2) by auto
    note c = coreD(1) [OF this] and i = sess_inv_core [OF this, of w]
    have "replanned w s1 (install_appendix w ?next new s1)"
      by (rule install_appendix_spec [of w s1 st from_str json new ?next]) (use assms that(1) ns c i in simp_all)
    then show ?thesis using that(2) by auto
  qed
  have dc: "replanned w s (drain_counted w s1)" if "s1 = tick s \<or> s1 = tick (tick s)" for s1
    using drain_counted_spec [of w "tick s" st] drain_counted_spec [of w "tick (tick s)" st] assms(1-4) that by auto
  have rf: "replanned w s (replan_failed w reason s1)" if "s1 = tick s \<or> s1 = tick (tick s)" for reason s1
    using dc [OF that] by (simp add: replan_failed_def)
  have second: "replanned w s (case attempt (Suc (ss_tick s)) fb of
      None \<Rightarrow> s\<lparr>ss_panicked := True\<rparr>
    | Some (Planned appendix) \<Rightarrow>
        if appendix = [] then drain_counted w (tick (tick s)) else install_appendix w ?next appendix (tick (tick s))
    | Some (FailClosed reason') \<Rightarrow> replan_failed w reason' (tick (tick s))
    | Some (Invalid reason') \<Rightarrow> replan_failed w reason' (tick (tick s)))" for fb
  proof (cases rule: replanner_pass_cases [OF wf, of "cf_pass w" "w_pass w (Suc (ss_tick s))" "w_uuid w (Suc (ss_tick s))" "g_objective st" "w_compact w (g_nodes st)"
      "discovery_lines (g_pending_discoveries st)" fb ?dir "path_join ?dir (''replan.v'' @ show_nat (unat ?next) @ ''.json'')",
      case_names planned covered invalid closed])
    case (planned new json)
    then show ?thesis using inst [OF planned(3)] by (simp add: attempt_def)
  qed (simp_all add: attempt_def dc rf)
  show ?thesis
  proof (cases rule: replanner_pass_cases [OF wf, of "cf_pass w" "w_pass w (ss_tick s)" "w_uuid w (ss_tick s)" "g_objective st" "w_compact w (g_nodes st)"
      "discovery_lines (g_pending_discoveries st)" "[]" ?dir "path_join ?dir (''replan.v'' @ show_nat (unat ?next) @ ''.json'')",
      case_names planned covered invalid closed])
    case (planned new json)
    then show ?thesis using inst [OF planned(3)] by (simp add: replan_pass_def Let_def)
  next
    case (invalid reason)
    then show ?thesis using second [of "feedback_text ''replan'' reason"]
      by (simp add: replan_pass_def Let_def attempt_def)
  qed (simp_all add: replan_pass_def Let_def dc rf)
qed

lemma final_achieved_st:
  "(case graph_node_of i t of Some n \<Rightarrow> n_status n = Achieved | None \<Rightarrow> False) \<longleftrightarrow> node_st i t = Some Achieved"
  by (cases "t_state t") (auto simp: graph_node_of_def node_st_def st_of_def split: option.splits)

lemma maybe_replan_spec:
  assumes "sess_inv w s" "is_active (ss_graph s)"
  shows "sess_inv w (maybe_replan_graph w s) \<and> is_active (ss_graph (maybe_replan_graph w s)) \<and>
    work_left w (ss_graph (maybe_replan_graph w s)) \<le> work_left w (ss_graph s) \<and>
    (cf_coordinator w \<longrightarrow> remaining_budget (ss_graph (maybe_replan_graph w s)) \<noteq> Some 0 \<longrightarrow>
       pending_of (ss_graph (maybe_replan_graph w s)) = [])" (is "?P (maybe_replan_graph w s)")
proof -
  have r: "?P s'" if "replanned w s s'" for s' using that by (simp add: replanned_def)
  have id: "?P s" if "pending_of (ss_graph s) = [] \<or> remaining_budget (ss_graph s) = Some 0 \<or> \<not> cf_coordinator w"
    using that assms by auto
  obtain st where st: "t_state (ss_graph s) = Some st" using assms(2) by (auto simp: is_active_def graph_status_def)
  have p: "pending_of (ss_graph s) = g_pending_discoveries st" using st by (simp add: pending_of_def)
  have pass: "?P (replan_pass w st s)" if "cf_replan_cap w \<noteq> 0" "\<not> g_replan_runs st \<ge> cf_replan_cap w" "cf_coordinator w"
      "g_pending_discoveries st \<noteq> []" "node_st FINAL_NODE_ID (ss_graph s) \<noteq> Some Achieved"
    using r [OF replan_pass_spec [OF assms st]] that p by simp
  have d: "?P (drain w s)" "?P (say m (drain w s))" for m using r drain_spec [OF assms] by simp_all
  show ?thesis
    unfolding maybe_replan_graph_def final_achieved_st using st id p pass d by (simp add: Let_def)
qed

section \<open>The goal a node runs as\<close>

definition goal_view :: "goal_tracker \<Rightarrow> (goal_status \<times> i64 option \<times> string) option" where
  "goal_view t = map_option (\<lambda>o'. (o_status o', o_token_budget o', o_goal_id o')) (gt_orchestration t)"

abbreviation gview :: "session \<Rightarrow> (goal_status \<times> i64 option \<times> string) option" where
  "gview s \<equiv> goal_view (ss_goal s)"

lemma goal_status_view: "goal_status_of t = map_option fst (goal_view t)"
  by (simp add: goal_status_of_def goal_view_def option.map_comp comp_def)

lemma flush_view [simp]: "o_status (flush_elapsed ck t o') = o_status o'" "o_token_budget (flush_elapsed ck t o') = o_token_budget o'"
  "o_goal_id (flush_elapsed ck t o') = o_goal_id o'"
  by (simp_all add: flush_elapsed_def split: option.splits)

lemma goal_view_account [simp]: "goal_view (goal_account_elapsed ck t) = goal_view t"
  by (simp add: goal_account_elapsed_def goal_view_def split: option.splits prod.splits)

lemma goal_view_tokens [simp]: "goal_view (snd (goal_tokens r c t)) = goal_view t"
  by (simp add: goal_tokens_def goal_view_def Let_def split: option.splits prod.splits)

lemma gview_tx [simp]: "ss_goal (goal_tx w f s) = f (w_host w (ss_tick s)) (w_clock w (ss_tick s)) (ss_goal s)"
  by (simp add: goal_tx_def)

lemma gview_tokensD: "goal_tokens_now c s = (u, s') \<Longrightarrow> gview s' = gview s"
  using goal_view_tokens [of "ss_records s" c "ss_goal s"]
  by (cases "goal_tokens (ss_records s) c (ss_goal s)") (auto simp: goal_tokens_now_def)

lemma gview_emit_updated [simp]: "gview (emit_goal_updated w u s) = gview s"
  by (simp add: emit_goal_updated_def Let_def split: option.splits)

lemma gview_with_orch:
  "(\<And>o'. o_status (f o') = o_status o' \<and> o_token_budget (f o') = o_token_budget o' \<and> o_goal_id (f o') = o_goal_id o') \<Longrightarrow>
     goal_view (with_orch f t) = goal_view t"
  by (simp add: goal_view_def option.map_comp comp_def)

lemma gview_planning [simp]: "gview (emit_goal_planning w c s) = gview s"
proof (cases "cf_goal_harness w")
  case True
  obtain u s1 where u: "goal_tokens_now c s = (u, s1)" by (metis surj_pair)
  let ?s2 = "goal_tx w (\<lambda>h ck t. with_orch (\<lambda>o'. o'\<lparr>o_planning_in_flight := True\<rparr>) (goal_account_elapsed ck t)) s1"
  have "ss_goal (emit_goal_planning w c s) = ss_goal ?s2"
    using True u by (simp add: emit_goal_planning_def Let_def del: gview_tx split: option.splits)
  then show ?thesis using gview_tokensD [OF u] by (simp add: gview_with_orch)
qed (simp add: emit_goal_planning_def)

lemma gview_record_plan [simp]: "gview (record_plan w f s) = gview s"
  by (simp add: record_plan_def Let_def goal_view_def option.map_comp comp_def)

lemma gview_fresh_goal: "gview (fresh_goal w obj b s) = Some (Active, b, w_uuid w (ss_tick s))"
proof -
  have "goal_view (create_goal h ck g obj b bl cr cm t) = Some (Active, b, g)" for h ck g bl cr cm t
    by (simp add: create_goal_def record_event_def goal_append_history_def goal_view_def fresh_orchestration_def Let_def)
  then show ?thesis by (auto simp: fresh_goal_def Let_def dest: gview_tokensD split: prod.splits)
qed

lemma gview_pause_goal:
  assumes "gview s = Some (Active, v)"
  shows "gview (pause_goal_part w r m s) = Some (to_status r, v)"
proof -
  have "goal_view (snd (goal_pause_inner ck r m (ss_goal s))) = Some (to_status r, v)" for ck
    using assms by (auto simp: goal_view_def goal_pause_inner_def record_event_def goal_append_history_def Let_def split: option.splits)
  moreover have "goal_status_of (ss_goal s) = Some Active" using assms by (simp add: goal_status_view)
  ultimately show ?thesis by (auto simp: pause_goal_part_def Let_def dest: gview_tokensD split: prod.splits)
qed

lemma gview_auto_pause:
  "gview s = Some (Active, v) \<Longrightarrow> gview (snd (auto_pause_goal w r m s)) = Some (to_status r, v)"
  by (simp add: auto_pause_split Let_def gview_pause_goal)

text \<open>The planner leaves the goal active and the graph alone, or pauses both.\<close>

definition both_paused :: "world \<Rightarrow> session \<Rightarrow> session \<Rightarrow> bool" where
  "both_paused w s s' \<longleftrightarrow>
     graph_status (ss_graph s') = (if graph_harness_enabled w \<and> is_active (ss_graph s) then Some UserPaused else graph_status (ss_graph s)) \<and>
     nodes_of (ss_graph s') = nodes_of (ss_graph s) \<and> current_node_id (ss_graph s') = current_node_id (ss_graph s) \<and>
     pending_of (ss_graph s') = pending_of (ss_graph s)"

lemma planner_outcome:
  assumes "gview s = Some (Active, v)"
  shows "gview (maybe_run_goal_planner w s) = Some (Active, v) \<and> ss_graph (maybe_run_goal_planner w s) = ss_graph s \<or>
    gview (maybe_run_goal_planner w s) = Some (UserPaused, v) \<and> both_paused w s (maybe_run_goal_planner w s)"
proof -
  let ?s1 = "tick (emit_goal_planning w (w_tokens w (ss_tick s)) s)"
  have g: "ss_graph ?s1 = ss_graph s" using coreD(1) [OF core_emit_goal_planning] by simp
  define s2 where "s2 = (case w_goal_plan w (ss_tick (emit_goal_planning w (w_tokens w (ss_tick s)) s)) of
      GoalPlanned f \<Rightarrow> record_plan w f ?s1
    | GoalPlanFailed \<Rightarrow> snd (auto_pause_goal w User (Some planner_failure_pause_message) ?s1))"
  have 2: "gview s2 = Some (Active, v) \<and> ss_graph s2 = ss_graph s \<or> gview s2 = Some (UserPaused, v) \<and> both_paused w s s2"
  proof (cases "w_goal_plan w (ss_tick (emit_goal_planning w (w_tokens w (ss_tick s)) s))")
    case (GoalPlanned f)
    then show ?thesis using assms coreD(1) [OF core_record_plan [of w f ?s1]] g by (simp add: s2_def)
  next
    case GoalPlanFailed
    have "gview ?s1 = Some (Active, v)" using assms by simp
    then show ?thesis
      using GoalPlanFailed g gview_auto_pause [of ?s1 v w User] by (simp add: s2_def both_paused_def auto_pause_graph)
  qed
  have "gview s' = gview s2 \<and> ss_graph s' = ss_graph s2"
    if "goal_tokens_now c s2 = (u, s3)" "s' = emit_goal_updated w u (s3\<lparr>ss_goal := with_orch (\<lambda>o'. o'\<lparr>o_planning_in_flight := False\<rparr>) (ss_goal s3)\<rparr>)"
    for c u s3 s'
    using that gview_tokensD [OF that(1)] coreD(1) [OF core_goal_tokensD [OF that(1)]] coreD(1) [OF core_emit_goal_updated]
    by (simp add: gview_with_orch)
  note 3 = this [OF _ refl]
  have id: "both_paused w s s' = both_paused w s s''" if "ss_graph s' = ss_graph s''" for s' s'' using that by (simp add: both_paused_def)
  show ?thesis
  proof (cases "goal_tokens_now (w_tokens w (ss_tick s2)) s2")
    case (Pair u s3)
    show ?thesis
    proof (cases "\<not> cf_goal_planner w \<or> \<not> cf_coordinator w \<or> gt_orchestration (ss_goal s) = None \<or>
        (\<exists>o'. gt_orchestration (ss_goal s) = Some o' \<and> o_plan_file o' \<noteq> None)")
      case True
      then have "maybe_run_goal_planner w s = s" by (auto simp: maybe_run_goal_planner_def split: option.splits)
      then show ?thesis using assms by simp
    next
      case False
      then have "maybe_run_goal_planner w s = emit_goal_updated w u (s3\<lparr>ss_goal := with_orch (\<lambda>o'. o'\<lparr>o_planning_in_flight := False\<rparr>) (ss_goal s3)\<rparr>)"
        using Pair by (auto simp: maybe_run_goal_planner_def s2_def Let_def)
      then show ?thesis using 3 [OF Pair] 2 id by metis
    qed
  qed
qed

end
