(* ===== verification/Session_Drive.thy ===== *)
theory Session_Drive
  imports Session_Inv
begin

text \<open>
  The dispatch loop: launching a node, running a batch, and \<open>drive_graph\<close> itself.  Enough fuel
  always gives a result, the result keeps the invariant, and it leaves either one node running
  on an active goal or a graph that is not active.
\<close>

section \<open>Launching a node\<close>

lemma next_ready_SomeD:
  assumes "graph_reach t" "next_ready_node t = Some n"
  shows "node_st (n_id n) t = Some Ready" "\<exists>st. t_state t = Some st"
proof -
  obtain st where st: "t_state t = Some st" "find (\<lambda>n. n_status n = Ready) (g_nodes st) = Some n"
    using assms(2) by (cases "t_state t") (auto simp: next_ready_node_def)
  then have "n \<in> set (nodes_of t)" "n_status n = Ready" by (auto simp: nodes_of_def find_Some_iff)
  then show "node_st (n_id n) t = Some Ready" "\<exists>st. t_state t = Some st"
    using reach_node_st [OF assms(1), of n] st(1) by auto
qed

text \<open>The node is on the goal engine: the goal is active and carries what is left of the budget.\<close>

definition launched :: "string \<Rightarrow> session \<Rightarrow> bool" where
  "launched i s \<longleftrightarrow> is_active (ss_graph s) \<and> current_node_id (ss_graph s) = Some i \<and> running i (ss_graph s) \<and>
     remaining_budget (ss_graph s) \<noteq> Some 0 \<and> (\<exists>g. gview s = Some (Active, remaining_budget (ss_graph s), g))"

lemma remaining_simps [simp]:
  "remaining_budget (mark_node_running ck i g t) = remaining_budget t" "remaining_budget (stamp_goal_id i g t) = remaining_budget t"
  by (cases "t_state t"; simp add: remaining_budget_def mark_node_running_def stamp_goal_id_def)+

definition marked :: "world \<Rightarrow> string \<Rightarrow> session \<Rightarrow> session" where
  "marked w i s = persist_graph_state w (graph_tx w (\<lambda>ck. mark_node_running ck i []) (reset_goal_engine_state w s))"

definition stamped :: "world \<Rightarrow> string \<Rightarrow> session \<Rightarrow> session" where
  "stamped w i s = persist_graph_state w (graph_tx w (\<lambda>ck. stamp_goal_id i
     (case gt_orchestration (ss_goal s) of Some o' \<Rightarrow> o_goal_id o' | None \<Rightarrow> [])) s)"

lemma marked_inv:
  assumes "sess_inv w s" "is_active (ss_graph s)" "node_st i (ss_graph s) = Some Ready"
    and "cf_coordinator w \<longrightarrow> pending_of (ss_graph s) = []"
  shows "sess_inv w (marked w i s)"
proof -
  have g: "ss_graph (reset_goal_engine_state w s) = ss_graph s" by (rule coreD(1)) simp
  have "sess_inv w (reset_goal_engine_state w s)" using assms(1) sess_inv_core core_reset_goal by blast
  then show ?thesis
    unfolding marked_def by (rule persist_tx) (use track_inv_run [OF sess_invD(3) [OF assms(1)] assms(2,3)] assms(4) g in auto)
qed

lemma stamped_inv: "sess_inv w s \<Longrightarrow> sess_inv w (stamped w i s)"
  unfolding stamped_def by (rule persist_tx) (simp_all add: track_inv_stamp sess_invD(3))

lemma launch_eq:
  assumes "next_ready_node (ss_graph s) = Some n" "t_state (ss_graph s) = Some st"
    and "remaining_budget (ss_graph s) \<noteq> Some 0"
  obtains obj where "launch_next_graph_node w s =
    (let (reminder, s3) = setup_goal w obj (remaining_budget (ss_graph s)) (marked w (n_id n) s)
     in case reminder of
          None \<Rightarrow> (None, s3\<lparr>ss_panicked := True\<rparr>)
        | Some r \<Rightarrow> if goal_status_of (ss_goal (stamped w (n_id n) s3)) \<noteq> Some Active then (None, stamped w (n_id n) s3)
                    else (Some r, stamped w (n_id n) s3))"
  using assms that unfolding launch_next_graph_node_def marked_def stamped_def stamp_goal_id_def
  by (simp add: Let_def split: prod.splits)

lemma setup_goal_reminder: "fst (setup_goal w obj b s) = None \<longleftrightarrow> gview (snd (setup_goal w obj b s)) = None"
  by (simp add: setup_goal_def goal_view_def Let_def split: prod.splits)

lemma launch_spec:
  assumes inv: "sess_inv w s" and act: "is_active (ss_graph s)" and n: "next_ready_node (ss_graph s) = Some n"
    and pend: "cf_coordinator w \<longrightarrow> pending_of (ss_graph s) = []"
  shows "sess_inv w (snd (launch_next_graph_node w s)) \<and>
    (case fst (launch_next_graph_node w s) of
       Some r \<Rightarrow> launched (n_id n) (snd (launch_next_graph_node w s))
     | None \<Rightarrow> graph_harness_enabled w \<longrightarrow> \<not> is_active (ss_graph (snd (launch_next_graph_node w s))))"
proof -
  obtain st where ready: "node_st (n_id n) (ss_graph s) = Some Ready" and st: "t_state (ss_graph s) = Some st"
    using next_ready_SomeD [OF sess_invD(5) [OF inv] n] by blast
  show ?thesis
  proof (cases "remaining_budget (ss_graph s) = Some 0")
    case True
    then have "launch_next_graph_node w s = (None, say budget_exhausted_message (limit_graph w s))"
      using n st by (simp add: launch_next_graph_node_def Let_def)
    moreover have "\<not> is_active (ss_graph (limit_graph w s))"
      using act by (simp add: limit_graph_def is_active_def [of "snd _"] view_budget)
    ultimately show ?thesis using limit_graph_inv [OF inv] by simp
  next
    case False
    let ?b = "remaining_budget (ss_graph s)" and ?s2 = "marked w (n_id n) s"
    obtain obj where l: "launch_next_graph_node w s =
      (let (reminder, s3) = setup_goal w obj ?b ?s2
       in case reminder of
            None \<Rightarrow> (None, s3\<lparr>ss_panicked := True\<rparr>)
          | Some r \<Rightarrow> if goal_status_of (ss_goal (stamped w (n_id n) s3)) \<noteq> Some Active then (None, stamped w (n_id n) s3)
                      else (Some r, stamped w (n_id n) s3))"
      using launch_eq [OF n st False, of w] by blast
    obtain reminder s3 where r: "setup_goal w obj ?b ?s2 = (reminder, s3)" by (metis surj_pair)
    have i3: "sess_inv w s3" using setup_goal_inv [OF marked_inv [OF inv act ready pend], of obj ?b] r by simp
    have g2: "ss_graph ?s2 = mark_node_running (w_clock w (ss_tick (reset_goal_engine_state w s))) (n_id n) [] (ss_graph s)"
      using coreD(1) [OF core_reset_goal [of w s]] by (simp add: marked_def)
    have a2: "is_active (ss_graph ?s2)" "current_node_id (ss_graph ?s2) = Some (n_id n)" "running (n_id n) (ss_graph ?s2)"
      using act st ready by (simp_all add: g2 is_active_def running_run)
    have gf: "ss_graph (fresh_goal w obj ?b ?s2) = ss_graph ?s2" by (rule coreD(1)) simp
    have out: "(\<exists>g. gview s3 = Some (Active, ?b, g)) \<and> ss_graph s3 = ss_graph ?s2 \<or>
        (\<exists>g. gview s3 = Some (UserPaused, ?b, g)) \<and> both_paused w ?s2 s3"
      using planner_outcome [OF gview_fresh_goal, of w w obj ?b ?s2] r setup_goal_snd [of w obj ?b ?s2] gf
      by (auto simp: both_paused_def)
    have gs: "gview (stamped w (n_id n) s3) = gview s3" by (simp add: stamped_def)
    have "reminder \<noteq> None" using setup_goal_reminder [of w obj ?b ?s2] r out by auto
    then obtain rem where rem: "reminder = Some rem" by blast
    show ?thesis
    proof (cases "goal_status_of (ss_goal s3) = Some Active")
      case True
      then have "launch_next_graph_node w s = (Some rem, stamped w (n_id n) s3)"
        using gs by (simp add: l r rem goal_status_view)
      moreover have "ss_graph s3 = ss_graph ?s2" "\<exists>g. gview s3 = Some (Active, ?b, g)"
        using True out by (auto simp: goal_status_view)
      ultimately show ?thesis
        using stamped_inv [OF i3] a2 gs False by (simp add: launched_def stamped_def is_active_def g2)
    next
      case other: False
      then have "launch_next_graph_node w s = (None, stamped w (n_id n) s3)"
        using gs by (simp add: l r rem goal_status_view)
      moreover have "both_paused w ?s2 s3" using other out by (auto simp: goal_status_view)
      ultimately show ?thesis
        using stamped_inv [OF i3] a2(1) by (auto simp: both_paused_def stamped_def is_active_def)
    qed
  qed
qed

section \<open>A parallel batch\<close>

text \<open>Marking the nodes of a batch, one after the other.\<close>

lemma mark_jobs_spec:
  assumes "pre_inv w s" "track_inv co (ss_graph s)" "is_active (ss_graph s)" "distinct (map fst jobs)"
    and "\<forall>i \<in> fst ` set jobs. node_st i (ss_graph s) = Some Ready \<and> i \<noteq> FINAL_NODE_ID"
  defines "s' \<equiv> fold (\<lambda>job. graph_tx w (\<lambda>ck. mark_node_running ck (fst job) [])) jobs s"
  shows "pre_inv w s' \<and> track_inv co (ss_graph s') \<and> is_active (ss_graph s') \<and> open_nodes (ss_graph s') = open_nodes (ss_graph s) \<and>
    replan_runs (ss_graph s') = replan_runs (ss_graph s) \<and>
    (\<forall>i. running i (ss_graph s') \<longleftrightarrow> running i (ss_graph s) \<or> i \<in> fst ` set jobs)"
  unfolding s'_def using assms(1-5)
proof (induction jobs arbitrary: s)
  case (Cons job jobs)
  let ?i = "fst job" and ?s1 = "graph_tx w (\<lambda>ck. mark_node_running ck (fst job) []) s"
  have i: "node_st ?i (ss_graph s) = Some Ready" "?i \<noteq> FINAL_NODE_ID" using Cons.prems(5) by auto
  have "track_inv co (ss_graph ?s1)"
    using track_inv_run [OF Cons.prems(2,3) i(1)] i(2) by simp
  moreover have "node_st j (ss_graph ?s1) = Some Ready \<and> j \<noteq> FINAL_NODE_ID" if j: "j \<in> fst ` set jobs" for j
  proof -
    have "j \<noteq> ?i" using Cons.prems(4) j by (metis distinct.simps(2) list.set_map list.simps(9))
    then have "node_st j (ss_graph ?s1) = node_st j (ss_graph s)" by (simp add: node_st_nodes st_of_upd)
    moreover have "node_st j (ss_graph s) = Some Ready \<and> j \<noteq> FINAL_NODE_ID" using Cons.prems(5) j by auto
    ultimately show ?thesis by simp
  qed
  moreover have "is_active (ss_graph ?s1)" using Cons.prems(3) by (simp add: is_active_def)
  ultimately show ?case
    using Cons.IH [of ?s1] Cons.prems(1,4) running_run [OF i(1)] open_nodes_run [OF i(1)] by simp
qed simp

lemma fan_out_spec:
  assumes "sess_inv w s" "is_active (ss_graph s)" "distinct (map fst jobs)"
    and "\<forall>i \<in> fst ` set jobs. node_st i (ss_graph s) = Some Ready \<and> i \<noteq> FINAL_NODE_ID"
  shows "sess_inv w (fan_out w jobs s) \<and> is_active (ss_graph (fan_out w jobs s)) \<and>
    open_nodes (ss_graph (fan_out w jobs s)) = open_nodes (ss_graph s) \<and>
    replan_runs (ss_graph (fan_out w jobs s)) = replan_runs (ss_graph s) \<and>
    current_node_id (ss_graph (fan_out w jobs s)) = None \<and>
    (\<forall>i \<in> fst ` set jobs. running i (ss_graph (fan_out w jobs s)))"
proof -
  let ?s1 = "fold (\<lambda>job. graph_tx w (\<lambda>ck. mark_node_running ck (fst job) [])) jobs s"
  note m = mark_jobs_spec [OF sess_invD(2,3) [OF assms(1)] assms(2-4)]
  have f: "fan_out w jobs s = persist_graph_state w (graph_tx w (\<lambda>ck. clear_current_node) ?s1)"
    by (simp add: fan_out_def clear_current_node_def [abs_def])
  have "sess_inv w (fan_out w jobs s)"
    unfolding f by (rule persist_inv) (use m track_inv_simple(2) sess_invD(1) [OF assms(1)] in auto)
  then show ?thesis using m by (simp add: f is_active_def)
qed

text \<open>Settling one report of a running node.\<close>

lemma merge_frame [simp]: "core (snd (merge_node_worktree w p h s)) = core s"
  by (auto simp: merge_node_worktree_def Let_def split: option.splits apply_result.splits)

lemma stamp_worker_cases: "stamp_worker rep t = t \<or> (\<exists>g. stamp_worker rep t = stamp_goal_id (nr_node_id rep) g t)"
  by (auto simp: stamp_worker_def stamp_goal_id_def split: option.splits)

definition settled :: "string \<Rightarrow> graph_tracker \<Rightarrow> graph_tracker \<Rightarrow> bool" where
  "settled i t t' \<longleftrightarrow> graph_status t' = graph_status t \<and> open_nodes t' < open_nodes t \<and> replan_runs t' = replan_runs t \<and>
     (\<forall>j. running j t' \<longleftrightarrow> running j t \<and> j \<noteq> i)"

lemma settle_report_spec:
  assumes "sess_inv w s" "running (nr_node_id rep) (ss_graph s)" "nr_node_id rep \<noteq> FINAL_NODE_ID"
  shows "sess_inv w (snd (settle_report w head rep s)) \<and> settled (nr_node_id rep) (ss_graph s) (ss_graph (snd (settle_report w head rep s)))"
proof -
  let ?i = "nr_node_id rep" and ?s1 = "graph_tx w (\<lambda>ck. stamp_worker rep) s"
  let ?same = "\<lambda>s'. graph_reach (ss_graph s') \<and> (\<forall>j. running j (ss_graph s') \<longleftrightarrow> running j (ss_graph s)) \<and> pre_inv w s' \<and>
    graph_status (ss_graph s') = graph_status (ss_graph s) \<and> open_nodes (ss_graph s') = open_nodes (ss_graph s) \<and>
    replan_runs (ss_graph s') = replan_runs (ss_graph s)"
  have r: "graph_reach (ss_graph s)" by (rule sess_invD(5) [OF assms(1)])
  have 1: "?same ?s1"
    using stamp_worker_cases [of rep "ss_graph s"] graph_reach.step [OF r graph_step.stamp] r sess_invD(2) [OF assms(1)] by auto
  define s2 where "s2 = (if nr_discoveries rep = [] then ?s1 else graph_tx w (\<lambda>ck. queue_discoveries ck (report_discoveries rep)) ?s1)"
  have 2: "?same s2" using 1 graph_reach.step [OF _ graph_step.queue] by (auto simp: s2_def)
  have run2: "running ?i (ss_graph s2)" using 2 assms(2) by blast
  have fail: "sess_inv w (persist_graph_state w (graph_tx w (\<lambda>ck t. mark_node_failed ck ?i d (f t)) s3)) \<and>
      settled ?i (ss_graph s) (ss_graph (persist_graph_state w (graph_tx w (\<lambda>ck t. mark_node_failed ck ?i d (f t)) s3)))"
    if "core s3 = core s2" "f = id \<or> f = charge_node_tokens ?i k" for d s3 f k
  proof -
    let ?t = "f (ss_graph s3)"
    have g3: "ss_graph s3 = ss_graph s2" using coreD(1) [OF that(1)] .
    have t: "graph_reach ?t" "\<And>j. running j ?t \<longleftrightarrow> running j (ss_graph s)" "graph_status ?t = graph_status (ss_graph s)"
      "open_nodes ?t = open_nodes (ss_graph s)" "replan_runs ?t = replan_runs (ss_graph s)"
      using 2 that(2) graph_reach.step [OF _ graph_step.charge] by (auto simp: g3)
    have run: "running ?i ?t" using t(2) assms(2) by blast
    have "sess_inv w (persist_graph_state w (graph_tx w (\<lambda>ck t. mark_node_failed ck ?i d (f t)) s3))"
      by (rule persist_inv) (use track_inv_fail [OF t(1) run assms(3)] sess_invD(1) [OF assms(1)] 2 pre_inv_core [OF that(1)] in auto)
    then show ?thesis
      using t running_fail [OF t(1) run] open_nodes_fail [OF t(1) run] by (simp add: settled_def view_fail(4))
  qed
  have ach: "sess_inv w (persist_graph_state w (graph_tx w (\<lambda>ck. mark_node_achieved ck ?i a k) s3)) \<and>
      settled ?i (ss_graph s) (ss_graph (persist_graph_state w (graph_tx w (\<lambda>ck. mark_node_achieved ck ?i a k) s3)))"
    if "core s3 = core s2" for a k s3
  proof -
    have g3: "ss_graph s3 = ss_graph s2" using coreD(1) [OF that] .
    have "sess_inv w (persist_graph_state w (graph_tx w (\<lambda>ck. mark_node_achieved ck ?i a k) s3))"
      by (rule persist_inv) (use track_inv_achieve [OF _ run2] sess_invD(1) [OF assms(1)] 2 pre_inv_core [OF that] g3 in auto)
    then show ?thesis using 2 open_nodes_achieve [OF _ run2] by (simp add: settled_def g3)
  qed
  show ?thesis
  proof (cases "nr_achieved rep")
    case False
    then show ?thesis
      using fail [OF refl disjI2 [OF refl], of "nr_detail rep" "nr_tokens_used rep"] by (simp add: settle_report_def Let_def s2_def [symmetric])
  next
    case True
    obtain res s3 where m: "merge_node_worktree w (nr_worktree_path rep) head s2 = (res, s3)" by (metis surj_pair)
    have c: "core s3 = core s2" using merge_frame [of w "nr_worktree_path rep" head s2] m by simp
    show ?thesis
      using True m ach [OF c, of "nr_rounds rep" "nr_tokens_used rep"] fail [OF c disjI1 [OF refl]]
      by (cases res) (simp_all add: settle_report_def Let_def s2_def [symmetric])
  qed
qed

text \<open>Every report names its node, so that settling a batch leaves none of its nodes running.\<close>

lemma settle_reports_spec:
  assumes "sess_inv w s" "distinct (map nr_node_id reps)"
    and "\<forall>r \<in> set reps. running (nr_node_id r) (ss_graph s) \<and> nr_node_id r \<noteq> FINAL_NODE_ID"
    and "settle_reports w head reps ok bad s = (ok', bad', s')"
  shows "sess_inv w s' \<and> graph_status (ss_graph s') = graph_status (ss_graph s) \<and>
    open_nodes (ss_graph s') + length reps \<le> open_nodes (ss_graph s) \<and> replan_runs (ss_graph s') = replan_runs (ss_graph s) \<and>
    ok' + bad' = ok + bad + length reps \<and> (\<forall>j. running j (ss_graph s') \<longleftrightarrow> running j (ss_graph s) \<and> j \<notin> nr_node_id ` set reps)"
  using assms
proof (induction reps arbitrary: s ok bad)
  case (Cons r reps)
  let ?s1 = "snd (settle_report w head r s)"
  have one: "sess_inv w ?s1" "settled (nr_node_id r) (ss_graph s) (ss_graph ?s1)"
    using settle_report_spec [OF Cons.prems(1)] Cons.prems(3) by simp_all
  have "settle_reports w head reps (Suc ok) bad ?s1 = (ok', bad', s') \<or> settle_reports w head reps ok (Suc bad) ?s1 = (ok', bad', s')"
    using Cons.prems(4) by (cases "settle_report w head r s") (auto split: bool.splits)
  moreover have "Suc ok + bad = Suc (ok + bad)" "ok + Suc bad = Suc (ok + bad)" by simp_all
  ultimately obtain ok1 bad1 where k: "ok1 + bad1 = Suc (ok + bad)" "settle_reports w head reps ok1 bad1 ?s1 = (ok', bad', s')" by blast
  have "\<forall>r' \<in> set reps. running (nr_node_id r') (ss_graph ?s1) \<and> nr_node_id r' \<noteq> FINAL_NODE_ID"
  proof
    fix r' assume r': "r' \<in> set reps"
    then have "nr_node_id r' \<noteq> nr_node_id r" using Cons.prems(2) by (force simp: image_iff)
    then show "running (nr_node_id r') (ss_graph ?s1) \<and> nr_node_id r' \<noteq> FINAL_NODE_ID"
      using one(2) Cons.prems(3) r' by (simp add: settled_def)
  qed
  moreover have "distinct (map nr_node_id reps)" using Cons.prems(2) by simp
  ultimately have "sess_inv w s' \<and> graph_status (ss_graph s') = graph_status (ss_graph ?s1) \<and>
    open_nodes (ss_graph s') + length reps \<le> open_nodes (ss_graph ?s1) \<and> replan_runs (ss_graph s') = replan_runs (ss_graph ?s1) \<and>
    ok' + bad' = ok1 + bad1 + length reps \<and> (\<forall>j. running j (ss_graph s') \<longleftrightarrow> running j (ss_graph ?s1) \<and> j \<notin> nr_node_id ` set reps)"
    using Cons.IH [OF one(1) _ _ k(2)] by blast
  then show ?case using one(2) k(1) unfolding settled_def by auto
qed auto

lemma position_Some: "i \<in> set (node_ids ns) \<Longrightarrow> \<exists>k. position (\<lambda>n. n_id n = i) ns = Some k"
  by (induction ns) auto

lemma batch_jobs_ids:
  assumes "set ids \<subseteq> set (node_ids (g_nodes st))"
  shows "map fst (batch_jobs st ids) = ids"
  using assms
proof (induction ids)
  case (Cons i ids)
  then show ?case using position_Some [of i "g_nodes st"] by (auto simp: batch_jobs_def List.map_filter_simps)
qed (simp add: batch_jobs_def List.map_filter_simps)

lemma report_node: "nr_node_id (fst (run_node_to_verdict env i obj cap)) = i"
  using run_rounds_report [of "unat cap" cap env i obj run_start]
  by (cases "run_rounds env i obj cap (unat cap) run_start") (simp add: run_node_to_verdict_def)

lemma final_not_in_ids:
  assumes "graph_reach t" "distinct ids" "2 \<le> length ids" "\<forall>i \<in> set ids. node_st i t = Some Ready" "i \<in> set ids"
  shows "i \<noteq> FINAL_NODE_ID"
proof -
  have "\<not> set ids \<subseteq> {i}" using assms(2,3) distinct_card [of ids] card_mono [of "{i}" "set ids"] by auto
  then obtain j where "j \<in> set ids" "j \<noteq> i" by blast
  then show ?thesis using final_not_in_batch [OF assms(1), of i j] assms(4,5) by blast
qed

text \<open>A batch is a fan-out and the settling of one report per node.\<close>

lemma batch_run:
  assumes "sess_inv w s" "is_active (ss_graph s)" "t_state (ss_graph s) = Some st" "distinct ids" "2 \<le> length ids"
    and ready: "\<forall>i \<in> set ids. node_st i (ss_graph s) = Some Ready"
  defines "s1 \<equiv> fan_out w (batch_jobs st ids) s"
  defines "reps \<equiv> map (\<lambda>(i, obj). fst (run_node_to_verdict (w_workers w (ss_tick s1)) i obj (cf_node_rounds w))) (batch_jobs st ids)"
  shows "sess_inv w s1" "is_active (ss_graph s1)" "open_nodes (ss_graph s1) = open_nodes (ss_graph s)"
    "replan_runs (ss_graph s1) = replan_runs (ss_graph s)" "map nr_node_id reps = ids"
    "\<forall>r \<in> set reps. running (nr_node_id r) (ss_graph s1) \<and> nr_node_id r \<noteq> FINAL_NODE_ID"
    "\<forall>i \<in> set ids. running i (ss_graph s1) \<and> i \<noteq> FINAL_NODE_ID"
    "\<forall>r \<in> set reps. \<exists>n obj. r = fst (run_node_to_verdict (w_workers w n) (nr_node_id r) obj (cf_node_rounds w))"
proof -
  have nf: "i \<noteq> FINAL_NODE_ID" if "i \<in> set ids" for i
    using final_not_in_ids [OF sess_invD(5) [OF assms(1)] assms(4,5) ready that] .
  have "set ids \<subseteq> set (node_ids (g_nodes st))"
    using ready assms(3) st_of_SomeD by (fastforce simp: node_st_def set_node_ids)
  then have ids: "map fst (batch_jobs st ids) = ids" by (rule batch_jobs_ids)
  then have fids: "fst ` set (batch_jobs st ids) = set ids" by (metis set_map)
  note f = fan_out_spec [OF assms(1,2), of "batch_jobs st ids", unfolded ids fids, folded s1_def]
  show f': "sess_inv w s1" "is_active (ss_graph s1)" "open_nodes (ss_graph s1) = open_nodes (ss_graph s)"
    "replan_runs (ss_graph s1) = replan_runs (ss_graph s)" using f assms(4) ready nf by blast+
  have "map nr_node_id reps = map fst (batch_jobs st ids)" by (simp add: reps_def report_node split_beta comp_def)
  then show rid: "map nr_node_id reps = ids" using ids by simp
  show run: "\<forall>i \<in> set ids. running i (ss_graph s1) \<and> i \<noteq> FINAL_NODE_ID" using f assms(4) ready nf by blast
  have "nr_node_id ` set reps = set ids" using rid by (metis set_map)
  then show "\<forall>r \<in> set reps. running (nr_node_id r) (ss_graph s1) \<and> nr_node_id r \<noteq> FINAL_NODE_ID"
    using run by blast
  show "\<forall>r \<in> set reps. \<exists>n obj. r = fst (run_node_to_verdict (w_workers w n) (nr_node_id r) obj (cf_node_rounds w))"
    unfolding reps_def by (auto simp: report_node) blast
qed

lemma batch_spec:
  assumes "sess_inv w s" "is_active (ss_graph s)" "distinct ids" "2 \<le> length ids"
    and ready: "\<forall>i \<in> set ids. node_st i (ss_graph s) = Some Ready"
  defines "s' \<equiv> run_graph_parallel_batch w ids s"
  shows "sess_inv w s' \<and> is_active (ss_graph s') = cf_coordinator w \<and>
    (cf_coordinator w \<longrightarrow> work_left w (ss_graph s') < work_left w (ss_graph s) \<and> (\<forall>i \<in> set ids. \<not> running i (ss_graph s')))"
proof (cases "cf_coordinator w")
  case False
  then show ?thesis
    using pause_graph_inv [OF assms(1)] assms(2)
    by (simp add: s'_def run_graph_parallel_batch_def) (simp add: pause_graph_def graph_pause_with_message_def is_active_def [of "snd _"])
next
  case True
  obtain st where st: "t_state (ss_graph s) = Some st" using assms(2) by (auto simp: is_active_def graph_status_def)
  define s1 where "s1 = fan_out w (batch_jobs st ids) s"
  define reps where "reps = map (\<lambda>(i, obj). fst (run_node_to_verdict (w_workers w (ss_tick s1)) i obj (cf_node_rounds w))) (batch_jobs st ids)"
  note b = batch_run [OF assms(1,2) st assms(3,4) ready, folded s1_def, folded reps_def]
  have rset: "nr_node_id ` set reps = set ids" "length reps = length ids" using b(5) by (metis set_map, metis length_map)
  obtain ok bad s2 where r: "settle_reports w (w_head w (ss_tick s1)) reps 0 0 (tick s1) = (ok, bad, s2)" by (metis prod_cases3)
  have st2: "sess_inv w s2 \<and> graph_status (ss_graph s2) = graph_status (ss_graph s1) \<and>
      open_nodes (ss_graph s2) + length reps \<le> open_nodes (ss_graph s1) \<and> replan_runs (ss_graph s2) = replan_runs (ss_graph s1) \<and>
      (\<forall>j. running j (ss_graph s2) \<longleftrightarrow> running j (ss_graph s1) \<and> j \<notin> set ids)"
    using settle_reports_spec [OF _ _ _ r] b(1,5,6) assms(3) rset(1) by simp
  have "ss_graph s' = ss_graph s2" "sess_inv w s' = sess_inv w s2"
    using True st r by (simp_all add: s'_def run_graph_parallel_batch_def Let_def reps_def s1_def)
  then show ?thesis
    using True st2 b(2,3,4) rset(2) assms(4) by (auto simp: is_active_def work_left_def)
qed

section \<open>The loop\<close>

lemma ready_ids_iff:
  assumes "graph_reach t"
  shows "distinct (ready_ids t)" "i \<in> set (ready_ids t) \<Longrightarrow> node_st i t = Some Ready"
    "ready_ids t \<noteq> [] \<Longrightarrow> \<exists>n. next_ready_node t = Some n"
    "ready_ids t = [] \<Longrightarrow> n \<in> set (nodes_of t) \<Longrightarrow> n_status n \<noteq> Ready"
proof -
  have r: "ready_ids t = map n_id (filter (\<lambda>n. n_status n = Ready) (nodes_of t))"
    by (simp add: ready_ids_def nodes_of_def split: option.splits)
  show "distinct (ready_ids t)"
  proof (cases "nodes_of t = []")
    case False
    then show ?thesis using reach_graph_ok [OF assms False] by (simp add: r graph_ok_def wf_nodes_def node_ids_def distinct_map_filter)
  qed (simp add: r)
  show "i \<in> set (ready_ids t) \<Longrightarrow> node_st i t = Some Ready" using reach_node_st [OF assms] by (auto simp: r)
  show "ready_ids t \<noteq> [] \<Longrightarrow> \<exists>n. next_ready_node t = Some n"
  proof (cases "t_state t")
    case (Some st)
    assume "ready_ids t \<noteq> []"
    then have "find (\<lambda>n. n_status n = Ready) (g_nodes st) \<noteq> None" using Some by (auto simp: r nodes_of_def find_None_iff filter_empty_conv)
    then show ?thesis using Some by (auto simp: next_ready_node_def)
  qed (simp add: ready_ids_def)
  show "ready_ids t = [] \<Longrightarrow> n \<in> set (nodes_of t) \<Longrightarrow> n_status n \<noteq> Ready" by (auto simp: r filter_empty_conv)
qed

lemma settle_graph_spec:
  assumes "sess_inv w s" "is_active (ss_graph s)"
  shows "sess_inv w (settle_graph w s) \<and> \<not> is_active (ss_graph (settle_graph w s))"
proof -
  have c: "sess_inv w (persist_graph_state w (graph_tx w (\<lambda>ck t. snd (graph_complete ck t)) s))" if "all_achieved (ss_graph s)"
    by (rule persist_tx [OF assms(1)]) (rule track_inv_complete [OF sess_invD(3) [OF assms(1)] that])
  have r: "sess_inv w (reset_goal_engine_state w s') = sess_inv w s'" "ss_graph (reset_goal_engine_state w s') = ss_graph s'" for s'
    using sess_inv_core [OF core_reset_goal] coreD(1) [OF core_reset_goal] by auto
  show ?thesis
    using assms c pause_graph_inv [OF assms(1)]
    by (simp add: settle_graph_def Let_def r) (simp add: pause_graph_def graph_pause_with_message_def is_active_def [of "snd _"])
qed

text \<open>What a result of the loop is: a node on an active goal, or a graph that has stopped.\<close>

definition drive_post :: "world \<Rightarrow> string option \<times> session \<Rightarrow> bool" where
  "drive_post w rs \<longleftrightarrow> sess_inv w (snd rs) \<and>
     (case fst rs of Some r \<Rightarrow> \<exists>i. launched i (snd rs)
                   | None \<Rightarrow> graph_harness_enabled w \<longrightarrow> \<not> is_active (ss_graph (snd rs)))"

lemma drive_graph_total:
  assumes "sess_inv w s" "if is_active (ss_graph s) then Suc (work_left w (ss_graph s)) < fuel else 0 < fuel"
  shows "\<exists>rs. drive_graph fuel w s = Some rs \<and> drive_post w rs"
  using assms
proof (induction fuel arbitrary: s)
  case (Suc fuel)
  have np: "\<not> ss_panicked s" using sess_invD(6) [OF Suc.prems(1)] .
  show ?case
  proof (cases "is_active (ss_graph s)")
    case False
    then show ?thesis using Suc.prems(1) by (simp add: drive_post_def)
  next
    case True
    let ?s1 = "maybe_replan_graph w s"
    have r: "sess_inv w ?s1" "is_active (ss_graph ?s1)" "work_left w (ss_graph ?s1) \<le> work_left w (ss_graph s)"
      "cf_coordinator w \<Longrightarrow> remaining_budget (ss_graph ?s1) \<noteq> Some 0 \<Longrightarrow> pending_of (ss_graph ?s1) = []"
      using maybe_replan_spec [OF Suc.prems(1) True] by blast+
    have np1: "\<not> ss_panicked ?s1" using sess_invD(6) [OF r(1)] .
    note reach = sess_invD(5) [OF r(1)]
    consider (broke) "remaining_budget (ss_graph ?s1) = Some 0"
      | (idle) "remaining_budget (ss_graph ?s1) \<noteq> Some 0" "ready_ids (ss_graph ?s1) = []"
      | (ready) "remaining_budget (ss_graph ?s1) \<noteq> Some 0" "ready_ids (ss_graph ?s1) \<noteq> []" by blast
    then show ?thesis
    proof cases
      case broke
      have "\<not> is_active (ss_graph (limit_graph w ?s1))"
        using r(2) by (simp add: limit_graph_def is_active_def [of "snd _"] view_budget)
      with broke True np np1 limit_graph_inv [OF r(1)] show ?thesis by (simp add: Let_def drive_post_def)
    next
      case idle
      with True np np1 settle_graph_spec [OF r(1,2)] show ?thesis by (simp add: Let_def drive_post_def)
    next
      case ready
      let ?cap = "if w_git_root w (ss_tick ?s1) then unat (cf_concurrency w) else 1"
      obtain n where n: "next_ready_node (ss_graph ?s1) = Some n" using ready_ids_iff(3) [OF reach ready(2)] by blast
      show ?thesis
      proof (cases "?cap \<le> 1 \<or> length (ready_ids (ss_graph ?s1)) = 1")
        case serial: True
        then have d: "drive_graph (Suc fuel) w s = Some (launch_next_graph_node w (tick ?s1))"
          using True np np1 ready by (simp add: Let_def)
        have "drive_post w (launch_next_graph_node w (tick ?s1))"
          using launch_spec [of w "tick ?s1" n] r n ready(1) by (auto simp: drive_post_def split: option.splits)
        with d show ?thesis by blast
      next
        case parallel: False
        let ?ids = "take ?cap (ready_ids (ss_graph ?s1))" and ?s2 = "(tick ?s1)\<lparr>ss_loop_gate := True\<rparr>"
        have d: "drive_graph (Suc fuel) w s = drive_graph fuel w (run_graph_parallel_batch w ?ids ?s2)"
          using True np np1 ready parallel by (simp add: Let_def del: take_eq_Nil)
        have g2: "core ?s2 = core ?s1" by simp
        have "0 < length (ready_ids (ss_graph ?s1))" using ready(2) by simp
        then have "2 \<le> length (ready_ids (ss_graph ?s1))" "2 \<le> ?cap" using parallel by linarith+
        then have l: "2 \<le> length ?ids" unfolding length_take by linarith
        note b = batch_spec [of w ?s2 ?ids]
        have "sess_inv w (run_graph_parallel_batch w ?ids ?s2) \<and> is_active (ss_graph (run_graph_parallel_batch w ?ids ?s2)) = cf_coordinator w \<and>
          (cf_coordinator w \<longrightarrow> work_left w (ss_graph (run_graph_parallel_batch w ?ids ?s2)) < work_left w (ss_graph ?s1))"
          using b l r(1,2) sess_inv_core [OF g2] coreD(1) [OF g2] ready_ids_iff(1,2) [OF reach] set_take_subset [of ?cap "ready_ids (ss_graph ?s1)"]
          by (simp add: subset_iff)
        then show ?thesis
          unfolding d using Suc.prems(2) r(3) True by (intro Suc.IH) auto
      qed
    qed
  qed
qed (auto split: if_splits)

definition drive_fuel :: "world \<Rightarrow> nat" where
  "drive_fuel w = (MAX_GRAPH_NODES + 2) * Suc (unat (cf_replan_cap w)) + 1"

lemma work_left_fuel: "graph_reach t \<Longrightarrow> Suc (work_left w t) < drive_fuel w"
proof -
  assume "graph_reach t"
  then have "open_nodes t \<le> MAX_GRAPH_NODES + 1" by (rule open_nodes_le)
  moreover have "(MAX_GRAPH_NODES + 2) * (unat (cf_replan_cap w) - replan_runs t) \<le> (MAX_GRAPH_NODES + 2) * unat (cf_replan_cap w)"
    by (intro mult_le_mono) simp_all
  ultimately show ?thesis unfolding work_left_def drive_fuel_def mult_Suc_right by linarith
qed

lemma drive_graph_post:
  assumes "sess_inv w s" "drive_fuel w \<le> fuel"
  shows "\<exists>rs. drive_graph fuel w s = Some rs \<and> drive_post w rs"
  using drive_graph_total [OF assms(1)] work_left_fuel [OF sess_invD(5) [OF assms(1)], of w] assms(2) by auto

end
