(* ===== verification/Session_Reach.thy ===== *)
theory Session_Reach
  imports Session_Drive
begin

text \<open>
  The session as a transition system.  \<open>session_step\<close> has a rule for each entry point of the
  actor that can touch the graph, for the goal engine running on its own, for another kigi
  instance writing the project file while this one does not hold the lock, for a batch cut off
  by a cancel, and for a restart of the process.  Its reachable states refine the tracker's.
\<close>

section \<open>The end of a round\<close>

lemma core_archive [simp]: "core (archive_node_artifacts w i s) = core s"
proof -
  have "List.map_filter (\<lambda>e. case e of Checkpoint c \<Rightarrow> Some c | _ \<Rightarrow> None)
      (List.map_filter (\<lambda>p. map_option (\<lambda>name. ArchiveCopy p (f name)) (file_name p)) ps) = []" for f ps
    by (induction ps) (auto simp: List.map_filter_simps split: option.splits)
  then show ?thesis by (simp add: archive_node_artifacts_def Let_def core_def)
qed

lemma pause_graph_stops: "\<not> is_active (ss_graph (pause_graph w r m s))"
  by (simp add: pause_graph_def graph_pause_with_message_def is_active_def)

lemma advance_post:
  assumes "sess_inv w s" "drive_fuel w \<le> fuel"
  shows "\<exists>rs. advance_graph_after_node_complete fuel w s = Some rs \<and> drive_post w rs"
proof (cases "current_node_id (ss_graph s)")
  case None
  then show ?thesis
    using pause_graph_inv [OF assms(1)] pause_graph_stops by (simp add: advance_graph_after_node_complete_def drive_post_def)
next
  case (Some i)
  obtain used s1 where u: "goal_tokens_now (w_tokens w (ss_tick s)) (tick s) = (used, s1)" by (metis surj_pair)
  have c1: "core s1 = core s" using core_goal_tokensD [OF u] by simp
  have r1: "graph_reach (ss_graph s1)" "running i (ss_graph s1)" "pre_inv w s1"
    using sess_invD(2,5) [OF assms(1)] track_invD(2) [OF sess_invD(3) [OF assms(1)] Some] coreD(1) [OF c1] pre_inv_core [OF c1] by simp_all
  define found where "found = (case w_last_text w (ss_tick s1) of Some text \<Rightarrow> parse_discovered_lines text | None \<Rightarrow> [])"
  define s2 where "s2 = (if found = [] then tick s1
    else graph_tx w (\<lambda>ck. queue_discoveries ck (map (\<lambda>d. \<lparr>from_node = i, description = d\<rparr>) found)) s1)"
  have r2: "graph_reach (ss_graph s2)" "running i (ss_graph s2)" "pre_inv w s2"
    using r1 graph_reach.step [OF r1(1) graph_step.queue] by (auto simp: s2_def)
  let ?s3 = "archive_node_artifacts w i s2"
  have c3: "ss_graph ?s3 = ss_graph s2" "pre_inv w ?s3 = pre_inv w s2"
    using coreD(1) [OF core_archive] pre_inv_core [OF core_archive] by blast+
  define rounds where "rounds = (case gt_orchestration (ss_goal s1) of Some o' \<Rightarrow> o_total_worker_rounds o' | None \<Rightarrow> 0)"
  have "sess_inv w (persist_graph_state w (graph_tx w (\<lambda>ck. mark_node_achieved ck i rounds (fst used)) ?s3))"
    by (rule persist_inv) (use sess_invD(1) [OF assms(1)] r2 c3 track_inv_achieve in simp_all)
  from drive_graph_post [OF this assms(2)] show ?thesis
    unfolding advance_graph_after_node_complete_def Some u option.case prod.case Let_def
      found_def [symmetric] s2_def [symmetric] rounds_def [symmetric] .
qed

lemma charge_limit_inv:
  assumes "sess_inv w s"
  shows "sess_inv w (persist_graph_state w (graph_tx w (\<lambda>ck t. snd (graph_budget_limit ck (case current_node_id t of
    Some i \<Rightarrow> charge_node_tokens i k t | None \<Rightarrow> t))) s))"
proof (rule persist_tx [OF assms], rule track_inv_budget)
  show "track_inv (cf_coordinator w) (case current_node_id (ss_graph s) of Some i \<Rightarrow> charge_node_tokens i k (ss_graph s) | None \<Rightarrow> ss_graph s)"
    using track_inv_charge sess_invD(3) [OF assms] by (auto split: option.splits)
qed

lemma round_end_post:
  assumes "sess_inv w s" "drive_fuel w \<le> fuel"
  shows "\<exists>rs. run_graph_round_end fuel w s = Some rs \<and> drive_post w rs"
proof (cases "graph_harness_enabled w \<and> is_active (ss_graph s)")
  case False
  then show ?thesis using assms(1) by (auto simp: run_graph_round_end_def drive_post_def)
next
  case True
  have p: "drive_post w (None, pause_graph w r m s)" for r m
    using pause_graph_inv [OF assms(1)] pause_graph_stops by (simp add: drive_post_def)
  have q: "drive_post w (None, persist_graph_state w (graph_tx w (\<lambda>ck t. snd (graph_pause_inner ck r m t)) s))" for r m
    using persist_tx [OF assms(1), of "\<lambda>ck t. snd (graph_pause_inner ck r m t)"] track_inv_simple(6) [OF sess_invD(3) [OF assms(1)]]
    by (simp add: drive_post_def is_active_def)
  obtain used s1 where u: "goal_tokens_now (w_tokens w (ss_tick s)) (tick s) = (used, s1)" by (metis surj_pair)
  have c1: "core s1 = core s" using core_goal_tokensD [OF u] by simp
  let ?lim = "persist_graph_state w (graph_tx w (\<lambda>ck t. snd (graph_budget_limit ck (case current_node_id t of
    Some i \<Rightarrow> charge_node_tokens i (fst used) t | None \<Rightarrow> t))) s1)"
  have "sess_inv w ?lim" using charge_limit_inv assms(1) sess_inv_core [OF c1] by blast
  moreover have "\<not> is_active (ss_graph ?lim)" by (simp add: is_active_def view_budget)
  ultimately have l: "drive_post w (None, ?lim)" by (simp add: drive_post_def)
  show ?thesis
  proof (cases "goal_status_of (ss_goal s)")
    case None
    then show ?thesis using True p by (simp add: run_graph_round_end_def)
  next
    case (Some st)
    then show ?thesis
      using True advance_post [OF assms] p q l u by (cases st) (simp_all add: run_graph_round_end_def)
  qed
qed

section \<open>The commands\<close>

lemma sess_inv_lock [simp]: "sess_inv w (s\<lparr>ss_lock := b\<rparr>) = sess_inv w s"
  by (simp add: sess_inv_def pre_inv_def saved_def stored_def checkpoints_def)

definition same_state :: "session \<Rightarrow> session \<Rightarrow> bool" where
  "same_state s s' \<longleftrightarrow> ss_graph s' = ss_graph s \<and> ss_goal s' = ss_goal s \<and> ss_file s' = ss_file s \<and> ss_panicked s' = ss_panicked s \<and>
     checkpoints s' = checkpoints s \<and> ss_baselines s' = ss_baselines s"

lemma same_state_simps [simp]:
  "same_state s s" "same_state s (tick s') = same_state s s'" "same_state s (s'\<lparr>ss_lock := b\<rparr>) = same_state s s'"
  by (simp_all add: same_state_def checkpoints_def tick_def)

lemma same_stateD:
  assumes "same_state s s'"
  shows "sess_inv w s' = sess_inv w s" "ss_graph s' = ss_graph s" "ss_goal s' = ss_goal s" "ss_file s' = ss_file s"
    "ss_baselines s' = ss_baselines s"
  using assms by (simp_all add: same_state_def sess_inv_def pre_inv_def saved_def stored_def)

lemma acquire_same: "same_state s (snd (acquire_project_graph_writer w s))"
  by (simp add: acquire_project_graph_writer_def split: sum.splits lock_outcome.splits)

lemma claim_same: "same_state s (snd (claim_project_graph_for_resume w s))"
proof (cases "acquire_project_graph_writer w s")
  case (Pair r s1)
  have s1: "same_state s s1" using acquire_same [of s w] Pair by simp
  show ?thesis
  proof (cases "r = Inr True")
    case True
    then show ?thesis using s1 Pair by (simp add: claim_project_graph_for_resume_def split: option.splits)
  next
    case False
    then show ?thesis using s1 Pair by (auto simp: claim_project_graph_for_resume_def split: sum.splits bool.splits)
  qed
qed

lemma refusal_same: "same_state s (snd (setup_refusal w s))"
proof (cases "acquire_project_graph_writer w s")
  case (Pair r s1)
  have s1: "same_state s s1" using acquire_same [of s w] Pair by simp
  show ?thesis
  proof (cases "r = Inr True")
    case True
    then show ?thesis using s1 Pair by (simp add: setup_refusal_def split: option.splits sum.splits)
  next
    case False
    then show ?thesis using s1 Pair by (auto simp: setup_refusal_def split: sum.splits bool.splits)
  qed
qed

lemma refusal_status:
  assumes "fst (setup_refusal w s) = None"
  shows "graph_status (ss_graph s) = None \<or> graph_status (ss_graph s) = Some Complete"
  using assms by (auto simp: setup_refusal_def split: if_splits option.splits)

lemma planning_failed_inv:
  assumes "sess_inv w s"
  shows "sess_inv w (planning_failed w r m s)" "\<not> is_active (ss_graph (planning_failed w r m s))"
proof -
  show "sess_inv w (planning_failed w r m s)"
    unfolding planning_failed_def graph_pause_with_message_def
    by (rule persist_tx [OF assms]) (simp add: track_inv_simple sess_invD(3) [OF assms])
  show "\<not> is_active (ss_graph (planning_failed w r m s))"
    by (simp add: planning_failed_def graph_pause_with_message_def is_active_def)
qed

text \<open>
  What a command leaves: on the inference path a node on an active goal, and otherwise no
  active graph that was not active before.
\<close>

definition command_post :: "world \<Rightarrow> session \<Rightarrow> (graph_setup_outcome \<times> session) option \<Rightarrow> bool" where
  "command_post w s r \<longleftrightarrow> (\<exists>out s'. r = Some (out, s') \<and> sess_inv w s' \<and>
     (case out of Inference _ _ \<Rightarrow> is_active (ss_graph s') | Message _ \<Rightarrow> graph_harness_enabled w \<longrightarrow> \<not> is_active (ss_graph s) \<longrightarrow> \<not> is_active (ss_graph s')))"

lemma install_inv:
  assumes "sess_inv w s" "nodes_of (ss_graph s) = []" "is_active (ss_graph s)"
    and "parse_and_validate from_str json obj = Some (Inr nodes)"
  shows "sess_inv w (persist_graph_state w (graph_tx w (\<lambda>ck. install_nodes ck nodes) s))"
    "nodes_of (ss_graph (persist_graph_state w (graph_tx w (\<lambda>ck. install_nodes ck nodes) s))) \<noteq> []"
proof -
  have i: "track_inv (cf_coordinator w) (install_nodes ck nodes (ss_graph s))" for ck
    by (rule track_inv_install [OF sess_invD(3) [OF assms(1)] assms(2-4)])
  show "sess_inv w (persist_graph_state w (graph_tx w (\<lambda>ck. install_nodes ck nodes) s))" by (rule persist_tx [OF assms(1)]) (rule i)
  have "nodes \<noteq> []" using assms(4) by (auto simp: parse_and_validate_Inr Let_def)
  then show "nodes_of (ss_graph (persist_graph_state w (graph_tx w (\<lambda>ck. install_nodes ck nodes) s))) \<noteq> []"
    using assms(3) by (auto simp: is_active_def graph_status_def)
qed

lemma drive_command:
  assumes "drive_post w rs"
  shows "(case fst rs of Some _ \<Rightarrow> is_active (ss_graph (snd rs)) | None \<Rightarrow> graph_harness_enabled w \<longrightarrow> \<not> is_active (ss_graph (snd rs)))"
  using assms by (auto simp: drive_post_def launched_def split: option.splits)

lemma setup_post:
  assumes "sess_inv w s" "drive_fuel w \<le> fuel"
  shows "command_post w s (setup_graph fuel w obj b s)"
proof (cases "setup_refusal w s")
  case (Pair r s0)
  have s0: "same_state s s0" using refusal_same [of s w] Pair by simp
  show ?thesis
  proof (cases r)
    case (Some msg)
    then show ?thesis using Pair assms(1) same_stateD [OF s0] by (simp add: setup_graph_def command_post_def)
  next
    case None
    have st: "graph_status (ss_graph s) = None \<or> graph_status (ss_graph s) = Some Complete"
      using refusal_status [of w s] Pair None by simp
    define s1 where "s1 = persist_graph_state w (graph_tx w (\<lambda>ck. create_graph ck (w_uuid w (ss_tick s0)) obj b (rfc ck 2)) s0)"
    have i1: "sess_inv w s1"
      unfolding s1_def by (rule persist_tx) (use assms(1) same_stateD [OF s0] track_inv_create [OF sess_invD(3) [OF assms(1)] st] in simp_all)
    have g1: "nodes_of (ss_graph s1) = []" "is_active (ss_graph s1)" by (simp_all add: s1_def is_active_def)
    obtain res s2 where p: "run_graph_planning w obj s1 = (res, s2)" by (metis surj_pair)
    have c2: "core s2 = core s1" using run_graph_planning_core [of w obj s1] p by simp
    have i2: "sess_inv w s2" "ss_graph s2 = ss_graph s1" using i1 sess_inv_core [OF c2] coreD(1) [OF c2] by simp_all
    have eq: "setup_graph fuel w obj b s = (case (res, s2) of
         (None, s2) \<Rightarrow> Some (Message [], s2\<lparr>ss_panicked := True\<rparr>)
       | (Some (Inl reason), s2) \<Rightarrow>
           Some (Message (''Graph planning failed: '' @ reason @ [nl] @ ''Use /graph resume to retry or /graph clear to abandon.''),
                 planning_failed w reason (''Graph planning failed: '' @ reason) s2)
       | (Some (Inr nodes), s2) \<Rightarrow>
           (case write_graph_baseline w nodes s2 of
              (Some err, s3) \<Rightarrow>
                let reason = ''failed to write graph baseline: '' @ err
                in Some (Message (reason @ [nl] @ ''Use /graph resume to retry or /graph clear to abandon.''),
                         planning_failed w reason reason s3)
            | (None, s3) \<Rightarrow>
                let s4 = maybe_optimize_graph w (persist_graph_state w (graph_tx w (\<lambda>ck. install_nodes ck nodes) s3))
                in map_option (\<lambda>(r, s5). (case r of
                       Some reminder \<Rightarrow> Inference reminder (''Graph created: '' @ show_nat (length nodes)
                                          @ '' nodes (incl. final verification). Starting work.'')
                     | None \<Rightarrow> Message ''Graph did not enter a serial node. See /graph status.'', s5))
                     (drive_graph fuel w s4)))"
      unfolding setup_graph_def Pair None prod.case option.case Let_def s1_def [symmetric] p ..
    have "plan_result w obj res" using run_graph_planning_cases [of w obj s1] p by simp
    then consider (fail) reason where "res = Some (Inl reason)"
      | (ok) nodes json where "res = Some (Inr nodes)" "parse_and_validate (pv_plan_from_str (cf_pass w)) json obj = Some (Inr nodes)"
      by (auto simp: plan_result_def)
    then show ?thesis
    proof cases
      case fail
      then show ?thesis using planning_failed_inv [OF i2(1)] by (simp add: eq command_post_def)
    next
      case ok
      obtain e s3 where b: "write_graph_baseline w nodes s2 = (e, s3)" by (metis surj_pair)
      have i3: "sess_inv w s3" "ss_graph s3 = ss_graph s1"
        using baseline_inv(1) [of w nodes s2] baseline_frame(1) [of w nodes s2] b i2 by simp_all
      show ?thesis
      proof (cases e)
        case (Some err)
        then show ?thesis using planning_failed_inv [OF i3(1)] ok b by (simp add: eq command_post_def Let_def)
      next
        case none: None
        let ?s4 = "persist_graph_state w (graph_tx w (\<lambda>ck. install_nodes ck nodes) s3)"
        have i4: "sess_inv w ?s4" "nodes_of (ss_graph ?s4) \<noteq> []" using install_inv [OF i3(1) _ _ ok(2)] i3(2) g1 by simp_all
        obtain rs where d: "drive_graph fuel w (maybe_optimize_graph w ?s4) = Some rs" "drive_post w rs"
          using drive_graph_post [OF conjunct1 [OF optimize_spec [OF i4]] assms(2)] by blast
        then show ?thesis
          using ok b none drive_command [OF d(2)]
          by (cases rs; cases "fst rs") (simp_all add: eq command_post_def drive_post_def)
      qed
    qed
  qed
qed

lemma goal_resume_view: "goal_view t = Some (st, v) \<Longrightarrow> is_paused st \<Longrightarrow> goal_view (snd (goal_resume ck t)) = Some (Active, v)"
  by (auto simp: goal_view_def goal_resume_def record_event_def goal_append_history_def
        reset_classifier_stall_fields_def reset_strategist_fields_def Let_def split: option.splits)

lemma resume_goal_post:
  assumes "gview s = Some (st, v)" "is_paused st" "is_active (ss_graph s)"
  shows "case fst (resume_goal w s) of
      GoalInference _ _ \<Rightarrow> is_active (ss_graph (snd (resume_goal w s)))
    | GoalMessage _ \<Rightarrow> graph_harness_enabled w \<longrightarrow> \<not> is_active (ss_graph (snd (resume_goal w s)))"
proof -
  let ?s1 = "(goal_tx w (\<lambda>h ck t. snd (goal_resume ck t)) s)\<lparr>ss_continuation_streak := 0, ss_blocked_streak := 0\<rparr>"
  obtain o' where o': "gt_orchestration (ss_goal s) = Some o'" "o_status o' = st" using assms(1) by (auto simp: goal_view_def)
  have v1: "gview ?s1 = Some (Active, v)" using goal_resume_view [OF assms(1,2)] by simp
  have g1: "ss_graph ?s1 = ss_graph s" by (rule coreD(1)) simp
  have cont: "fst (resume_goal_continue w um ps pm s') \<noteq> GoalMessage m \<and> ss_graph (snd (resume_goal_continue w um ps pm s')) = ss_graph s'"
    if "gview s' = Some v'" for um ps pm s' v' m
  proof -
    obtain u s2 where u: "goal_tokens_now (w_tokens w (ss_tick s')) s' = (u, s2)" by (metis surj_pair)
    have "gview s2 = Some v'" using gview_tokensD [OF u] that by simp
    then have "goal_view (goal_account_elapsed (w_clock w (ss_tick (emit_goal_updated w u s2))) (ss_goal (emit_goal_updated w u s2))) = Some v'"
      by simp
    then obtain y where "gt_orchestration (goal_account_elapsed (w_clock w (ss_tick (emit_goal_updated w u s2)))
        (ss_goal (emit_goal_updated w u s2))) = Some y"
      by (auto simp: goal_view_def)
    then show ?thesis
      using coreD(1) [OF resume_goal_continue_core [of w um ps pm s']] u
      by (auto simp: resume_goal_continue_def Let_def split: option.splits)
  qed
  define retry where "retry = (case gt_orchestration (ss_goal ?s1) of Some o1 \<Rightarrow> o_status o1 = Active \<and> o_plan_file o1 = None | None \<Rightarrow> False)"
  define s2 where "s2 = (if retry then maybe_run_goal_planner w ?s1 else ?s1)"
  have np: "st \<noteq> Complete" "st \<noteq> BudgetLimited" "st \<noteq> Active" using assms(2) by auto
  have eq: "resume_goal w s = (if retry \<and> goal_status_of (ss_goal s2) \<noteq> Some Active
      then (GoalMessage ''Planning failed again; goal paused.'', s2)
      else resume_goal_continue w ''Goal resumed.'' (o_status o') (o_pause_message o') s2)"
    using o' np by (simp add: resume_goal_def Let_def s2_def retry_def)
  have out: "gview s2 = Some (Active, v) \<and> ss_graph s2 = ss_graph s \<or>
      gview s2 = Some (UserPaused, v) \<and> retry \<and> (graph_harness_enabled w \<longrightarrow> \<not> is_active (ss_graph s2))"
    using planner_outcome [OF v1, of w] v1 g1 assms(3) by (auto simp: s2_def both_paused_def is_active_def)
  show ?thesis
  proof (cases "gview s2 = Some (Active, v)")
    case True
    then have "fst (resume_goal w s) \<noteq> GoalMessage m" "ss_graph (snd (resume_goal w s)) = ss_graph s" for m
      using eq cont [OF True] out by (auto simp: goal_status_view)
    then show ?thesis using assms(3) by (cases "fst (resume_goal w s)") auto
  next
    case False
    then show ?thesis using out eq by (auto simp: goal_status_view)
  qed
qed

lemma rearm_spec:
  assumes "sess_inv w s" "graph_status (ss_graph s) = Some st" "is_paused st"
  shows "sess_inv w (rearm w s)" "is_active (ss_graph (rearm w s))" "ss_goal (rearm w s) = ss_goal s"
proof -
  have "track_inv (cf_coordinator w) (let t1 = snd (graph_resume ck (ss_graph s))
      in demote_orphaned_in_flight (if gt_orchestration (ss_goal s) \<noteq> None then current_node_id t1 else None) t1)" for ck
    unfolding Let_def by (rule track_inv_demote [OF track_inv_resume [OF sess_invD(3) [OF assms(1)]]]) auto
  then show "sess_inv w (rearm w s)" unfolding rearm_def by (rule persist_tx [OF assms(1)])
  show "is_active (ss_graph (rearm w s))" "ss_goal (rearm w s) = ss_goal s"
    using assms(2,3) by (simp_all add: rearm_def is_active_def Let_def view_demote view_resume)
qed

lemma finish_planning_post:
  assumes "sess_inv w s" "drive_fuel w \<le> fuel" "is_active (ss_graph s)" "nodes_of (ss_graph s) = []"
  shows "\<exists>r s'. finish_planning_on_resume fuel w obj s = Some (r, s') \<and> sess_inv w s' \<and>
    (case r of Inr (Some _) \<Rightarrow> is_active (ss_graph s') | _ \<Rightarrow> graph_harness_enabled w \<longrightarrow> \<not> is_active (ss_graph s'))"
proof -
  obtain res s1 where p: "run_graph_planning w obj s = (res, s1)" by (metis surj_pair)
  have c1: "core s1 = core s" using run_graph_planning_core [of w obj s] p by simp
  have i1: "sess_inv w s1" "ss_graph s1 = ss_graph s" using assms(1) sess_inv_core [OF c1] coreD(1) [OF c1] by simp_all
  have "plan_result w obj res" using run_graph_planning_cases [of w obj s] p by simp
  then consider (fail) reason where "res = Some (Inl reason)"
    | (ok) nodes json where "res = Some (Inr nodes)" "parse_and_validate (pv_plan_from_str (cf_pass w)) json obj = Some (Inr nodes)"
    by (auto simp: plan_result_def)
  then show ?thesis
  proof cases
    case fail
    then show ?thesis using p planning_failed_inv [OF i1(1)] by (simp add: finish_planning_on_resume_def)
  next
    case ok
    obtain e s2 where b: "write_graph_baseline w nodes s1 = (e, s2)" by (metis surj_pair)
    have i2: "sess_inv w s2" "ss_graph s2 = ss_graph s"
      using baseline_inv(1) [of w nodes s1] baseline_frame(1) [of w nodes s1] b i1 by simp_all
    show ?thesis
    proof (cases e)
      case (Some err)
      then show ?thesis using ok b p pause_graph_inv [OF i2(1)] pause_graph_stops by (simp add: finish_planning_on_resume_def Let_def)
    next
      case None
      let ?s3 = "persist_graph_state w (graph_tx w (\<lambda>ck. install_nodes ck nodes) s2)"
      have i3: "sess_inv w ?s3" using install_inv(1) [OF i2(1) _ _ ok(2)] i2(2) assms(3,4) by simp
      obtain rs where d: "drive_graph fuel w ?s3 = Some rs" "drive_post w rs" using drive_graph_post [OF i3 assms(2)] by blast
      then show ?thesis
        using None ok b p drive_command [OF d(2)]
        by (cases rs; cases "fst rs") (simp_all add: finish_planning_on_resume_def drive_post_def)
    qed
  qed
qed

lemma resume_paused_post:
  assumes "sess_inv w s" "drive_fuel w \<le> fuel" "graph_status (ss_graph s) = Some st" "is_paused st"
  shows "command_post w s (resume_paused fuel w s)"
proof (cases "claim_project_graph_for_resume w s")
  case (Pair r s0)
  have s0: "same_state s s0" using claim_same [of s w] Pair by simp
  have inact: "\<not> is_active (ss_graph s)" using assms(3,4) by (auto simp: is_active_def)
  show ?thesis
  proof (cases r)
    case (Some msg)
    then show ?thesis using Pair assms(1) same_stateD [OF s0] by (simp add: resume_paused_def command_post_def)
  next
    case None
    let ?s1 = "rearm w s0"
    note r1 = rearm_spec [of w s0 st, unfolded same_stateD [OF s0], OF assms(1,3,4)]
    have ns: "(case t_state (ss_graph ?s1) of Some st \<Rightarrow> g_nodes st = [] | None \<Rightarrow> False) \<longleftrightarrow> nodes_of (ss_graph ?s1) = []"
      using r1(2) by (auto simp: nodes_of_def is_active_def graph_status_def split: option.splits)
    note eq = resume_paused_def [of fuel w s, unfolded Pair None prod.case option.case Let_def ns]
    consider (plan) "nodes_of (ss_graph ?s1) = []"
      | (goal) st' v where "gview ?s1 = Some (st', v)" "is_paused st'" "nodes_of (ss_graph ?s1) \<noteq> []"
      | (drive) "nodes_of (ss_graph ?s1) \<noteq> []" "\<not> (case goal_status_of (ss_goal ?s1) of Some st \<Rightarrow> is_paused st | None \<Rightarrow> False)"
      by (cases "gview ?s1"; cases "nodes_of (ss_graph ?s1) = []"; cases "is_paused (fst (the (gview ?s1)))")
        (auto simp: goal_status_view)
    then show ?thesis
    proof cases
      case plan
      obtain r2 s2 where f: "finish_planning_on_resume fuel w (case graph_objective (ss_graph ?s1) of Some obj \<Rightarrow> obj | None \<Rightarrow> []) ?s1 = Some (r2, s2)"
        "sess_inv w s2" "case r2 of Inr (Some _) \<Rightarrow> is_active (ss_graph s2) | _ \<Rightarrow> graph_harness_enabled w \<longrightarrow> \<not> is_active (ss_graph s2)"
        using finish_planning_post [OF r1(1) assms(2) r1(2) plan] by blast
      then show ?thesis unfolding eq if_P [OF plan] f(1)
        by (cases r2) (auto simp: command_post_def split: option.splits)
    next
      case goal
      have "goal_status_of (ss_goal ?s1) = Some st'" using goal(1) by (simp add: goal_status_view)
      then show ?thesis
        using goal resume_goal_inv [OF r1(1)] resume_goal_post [OF goal(1,2) r1(2), of w]
        by (cases "resume_goal w ?s1"; cases "fst (resume_goal w ?s1)") (auto simp: eq command_post_def)
    next
      case drive
      obtain rs where d: "drive_graph fuel w ?s1 = Some rs" "drive_post w rs" using drive_graph_post [OF r1(1) assms(2)] by blast
      then show ?thesis
        using drive drive_command [OF d(2)] by (cases rs; cases "fst rs") (simp_all add: eq command_post_def drive_post_def)
    qed
  qed
qed

lemma resume_limited_post:
  assumes "sess_inv w s" "drive_fuel w \<le> fuel"
  shows "command_post w s (resume_limited fuel w extra s)"
proof -
  have stay: "command_post w s (Some (Message m, s'))" if "same_state s s'" for m s'
    using that assms(1) same_stateD [OF that] by (simp add: command_post_def)
  obtain r s0 where c: "claim_project_graph_for_resume w s = (r, s0)" by (metis surj_pair)
  have s0: "same_state s s0" using claim_same [of s w] c by simp
  have "command_post w s (map_option (\<lambda>(r, s2). (case r of Some reminder \<Rightarrow> Inference reminder m1 | None \<Rightarrow> Message m2, s2))
      (drive_graph fuel w (persist_graph_state w (graph_tx w (\<lambda>ck t. snd (resume_budget_limited ck e t)) s0))))" for m1 m2 e
  proof -
    have "sess_inv w (persist_graph_state w (graph_tx w (\<lambda>ck t. snd (resume_budget_limited ck e t)) s0))"
      by (rule persist_tx) (use assms(1) same_stateD [OF s0] track_inv_topup [OF sess_invD(3) [OF assms(1)]] in simp_all)
    from drive_graph_post [OF this assms(2)] obtain rs where d: "drive_graph fuel w (persist_graph_state w
        (graph_tx w (\<lambda>ck t. snd (resume_budget_limited ck e t)) s0)) = Some rs" "drive_post w rs" by blast
    then show ?thesis
      using drive_command [OF d(2)] by (cases rs; cases "fst rs") (simp_all add: command_post_def drive_post_def)
  qed
  then show ?thesis
    using c stay [OF s0] stay [of s] by (cases r) (auto simp: resume_limited_def split: option.splits)
qed

lemma resume_session_post:
  assumes "sess_inv w s" "drive_fuel w \<le> fuel"
  shows "command_post w s (resume_session_graph fuel w extra s)"
proof (cases "graph_status (ss_graph s)")
  case None
  then show ?thesis using assms(1) by (simp add: resume_session_graph_def command_post_def)
next
  case (Some st)
  then show ?thesis
    using assms(1) resume_limited_post [OF assms, of extra] resume_paused_post [OF assms Some]
    by (cases st) (auto simp: resume_session_graph_def command_post_def)
qed

lemma checkpoints_graph [simp]: "checkpoints (s\<lparr>ss_graph := g\<rparr>) = checkpoints s"
  by (simp add: checkpoints_def)

lemma revive_inv:
  assumes "sess_inv w s" "\<not> is_active (ss_graph s)"
  shows "sess_inv w (snd (revive_project_graph w s)) \<and> \<not> is_active (ss_graph (snd (revive_project_graph w s)))"
proof (cases "cf_project_dir w")
  case None
  then show ?thesis using assms by (simp add: revive_project_graph_def)
next
  case (Some dir)
  obtain r s0 where a: "acquire_project_graph_writer w s = (r, s0)" by (metis surj_pair)
  have s0: "same_state s s0" using acquire_same [of s w] a by simp
  have i0: "sess_inv w s0" "\<not> is_active (ss_graph s0)" using assms same_stateD [OF s0] by simp_all
  have rev: "sess_inv w (persist_graph_state w (tick (s0\<lparr>ss_graph := from_snapshot (cf_session_dir w) st\<rparr>)))"
    if l: "load_project w dir s0 = Inr (Some st)" for st
  proof -
    have "load (cf_serde w) dir (Inr (ss_file s0)) = Inr (Some st)" using l by (auto simp: load_project_def load_def split: option.splits)
    then have "snap_ok st" using sess_invD(7) [OF i0(1)] Some by (simp add: file_ok_def)
    then show ?thesis
      by (intro persist_inv) (use sess_invD(1,2) [OF i0(1)] track_inv_from_snapshot in \<open>simp_all add: pre_inv_def\<close>)
  qed
  have "\<not> is_active (from_snapshot d st)" for d st by (simp add: is_active_def view_snapshot)
  then show ?thesis
    using Some a i0 rev by (simp add: revive_project_graph_def split: sum.splits bool.splits option.splits)
qed

lemma command_post_trans: "command_post w s1 r \<Longrightarrow> is_active (ss_graph s) = is_active (ss_graph s1) \<Longrightarrow> command_post w s r"
  by (simp add: command_post_def cong: graph_setup_outcome.case_cong)

lemma resume_post:
  assumes "sess_inv w s" "drive_fuel w \<le> fuel"
  shows "command_post w s (resume_graph fuel w extra s)"
proof (cases "t_state (ss_graph s)")
  case (Some st)
  then show ?thesis using resume_session_post [OF assms] by (simp add: resume_graph_def)
next
  case None
  then have na: "\<not> is_active (ss_graph s)" by (simp add: is_active_def graph_status_def)
  obtain r s1 where r: "revive_project_graph w s = (r, s1)" by (metis surj_pair)
  have i1: "sess_inv w s1" "\<not> is_active (ss_graph s1)" using revive_inv [OF assms(1) na] r by simp_all
  show ?thesis
  proof (cases r)
    case None
    have "command_post w s1 (resume_session_graph fuel w extra s1)" using resume_session_post [OF i1(1) assms(2)] .
    then have "command_post w s (resume_session_graph fuel w extra s1)" using i1(2) na
      by (elim command_post_trans) simp
    then show ?thesis using None r \<open>t_state (ss_graph s) = None\<close> by (simp add: resume_graph_def)
  next
    case (Some msg)
    then show ?thesis using i1 r \<open>t_state (ss_graph s) = None\<close> by (simp add: resume_graph_def command_post_def)
  qed
qed

end
