(* ===== verification/Session_Runs.thy ===== *)
theory Session_Runs
  imports Session_Reach Transition
begin

text \<open>
  The runs of a session: the inductive step relation \<open>session_step\<close> over everything that can
  happen to the state between two turns, a restart after a crash at any point included, and that
  every run keeps \<open>sess_inv\<close>.  The session is then a refinement of the tracker's transition
  system \<open>graph_reach\<close>.
\<close>

section \<open>The remaining commands\<close>

lemma sess_inv_emit_output: "sess_inv w s \<Longrightarrow> sess_inv w (tick (say m s))"
  by simp

lemma pause_command_inv: "sess_inv w s \<Longrightarrow> sess_inv w (graph_pause_command w s)"
proof -
  assume s: "sess_inv w s"
  let ?s1 = "graph_tx w (\<lambda>ck t. snd (graph_pause ck User t)) s"
  have t: "track_inv (cf_coordinator w) (ss_graph ?s1)"
    using track_inv_simple(6) [OF sess_invD(3) [OF s]] by (simp add: graph_pause_def)
  have "\<not> is_active (ss_graph ?s1)" by (simp add: is_active_def graph_pause_def)
  then have a: "snd (auto_pause_goal w User None ?s1) = pause_goal_part w User None ?s1"
    using coreD(1) [OF core_pause_goal_part [of w User None ?s1]] by (simp add: auto_pause_split Let_def)
  have "sess_inv w (persist_graph_state w (pause_goal_part w User None ?s1))"
  proof (rule persist_inv)
    show "pre_inv w (pause_goal_part w User None ?s1)"
      using pre_inv_core [OF core_pause_goal_part] sess_invD(2) [OF s] by simp
    show "track_inv (cf_coordinator w) (ss_graph (pause_goal_part w User None ?s1))"
      using coreD(1) [OF core_pause_goal_part [of w User None ?s1]] t by simp
  qed (rule sess_invD(1) [OF s])
  then show ?thesis
    using s a by (simp add: graph_pause_command_def split: option.splits goal_status.splits)
qed

lemma release_same: "same_state s (release_foreign w ours s)"
proof (cases "acquire_project_graph_writer w s")
  case (Pair r s1)
  then have "same_state s s1" using acquire_same [of s w] by simp
  then show ?thesis using Pair by (auto simp: release_foreign_def split: sum.splits bool.splits option.splits)
qed

lemma same_pre: "same_state s s' \<Longrightarrow> pre_inv w s' = pre_inv w s"
  by (simp add: same_state_def pre_inv_def)

lemma clear_command_inv: "sess_inv w s \<Longrightarrow> sess_inv w (graph_clear_command w s)"
proof -
  assume s: "sess_inv w s"
  define s1 where "s1 = (if graph_owns_goal_engine s then reset_goal_engine_state w s else s)"
  define s2 where "s2 = graph_tx w (\<lambda>ck. graph_clear) s1"
  define s3 where "s3 = (if t_state (ss_graph s) \<noteq> None then release_foreign w (map_option g_graph_id (t_state (ss_graph s))) s2 else s2)"
  have c: "core s1 = core s" by (simp add: s1_def)
  have p2: "pre_inv w s2" using pre_inv_core [OF c] sess_invD(2) [OF s] by (simp add: s2_def)
  have t2: "track_inv (cf_coordinator w) (ss_graph s2)" using sess_invD(3) [OF s] coreD(1) [OF c] track_inv_simple by (simp add: s2_def)
  have d: "same_state s2 s3" using release_same by (simp add: s3_def)
  have "sess_inv w (persist_graph_state w s3)"
    by (rule persist_inv) (use sess_invD(1) [OF s] same_pre [OF d] p2 same_stateD(2) [OF d] t2 in simp_all)
  moreover have "graph_clear_command w s = say (if t_state (ss_graph s) \<noteq> None then ''Graph cleared.'' else ''No graph is currently set.'')
      ((persist_graph_state w s3)\<lparr>ss_lock := False\<rparr>)"
    by (simp only: graph_clear_command_def Let_def s1_def s2_def s3_def)
  ultimately show ?thesis by simp
qed

lemma status_message_inv: "sess_inv w s \<Longrightarrow> sess_inv w (snd (graph_status_message w s))"
proof -
  assume s: "sess_inv w s"
  obtain used s1 where u: "goal_tokens_now (w_tokens w (ss_tick s)) (tick s) = (used, s1)" by (metis surj_pair)
  have "sess_inv w s1" using s sess_inv_core [OF core_goal_tokensD [OF u]] by simp
  then show ?thesis
    by (simp add: graph_status_message_def u split: option.splits sum.splits)
qed

section \<open>Restart\<close>

text \<open>
  A session is spawned from the persisted snapshots: the graph from the last checkpoint that
  reached the disk (the first \<open>k\<close> events of the log did), the goal from \<open>goal\<close>.
\<close>

definition restart_session :: "world \<Rightarrow> nat \<Rightarrow> goal_orchestration option \<Rightarrow> session \<Rightarrow> session" where
  "restart_session w k goal s0 =
    (let s = s0\<lparr>ss_log := take k (ss_log s0)\<rparr>;
         n = ss_tick s
     in tick (s\<lparr>ss_goal := (case goal of
                  Some snap \<Rightarrow> goal_from_snapshot (w_host w n) (w_clock w n) (cf_session_dir w) snap
                | None \<Rightarrow> goal_tracker_new (cf_session_dir w)),
                ss_graph := (case stored s of
                  Some snap \<Rightarrow> from_snapshot (cf_session_dir w) snap
                | None \<Rightarrow> graph_tracker_new (cf_session_dir w)),
                ss_lock := False,
                ss_records := [], ss_continuation_streak := 0, ss_blocked_streak := 0, ss_in_flight := False,
                ss_task_ids := [], ss_pending_claims := [], ss_loop_gate := False\<rparr>))"

lemma checkpoints_take: "set (checkpoints (s\<lparr>ss_log := take k (ss_log s)\<rparr>)) \<subseteq> set (checkpoints s)"
  unfolding checkpoints_def using append_take_drop_id [of k "ss_log s"]
  by (metis (no_types, lifting) map_filter_append set_append Un_upper1 session.select_convs(13) session.surjective session.update_convs(13))

lemma stored_in: "stored s = Some st \<Longrightarrow> Some st \<in> set (checkpoints s)"
  by (auto simp: stored_def split: if_splits) (metis last_in_set)

lemma restart_inv: "sess_inv w s \<Longrightarrow> sess_inv w (restart_session w k g s)"
proof -
  assume s: "sess_inv w s"
  let ?cut = "s\<lparr>ss_log := take k (ss_log s)\<rparr>" and ?s = "restart_session w k g s"
  have c: "checkpoints ?s = checkpoints ?cut" by (simp add: restart_session_def Let_def checkpoints_def tick_def)
  have snap: "snap_ok st" if "Some st \<in> set (checkpoints ?cut)" for st
    using that checkpoints_take [of k s] sess_invD(2) [OF s] by (auto simp: pre_inv_def)
  have "ss_file ?s = ss_file s" "ss_panicked ?s = ss_panicked s" by (simp_all add: restart_session_def Let_def)
  then have p: "pre_inv w ?s" using snap sess_invD(2) [OF s] unfolding pre_inv_def c by simp
  have st: "stored ?s = stored ?cut" using c by (simp add: stored_def)
  have g: "ss_graph ?s = (case stored ?cut of Some snap \<Rightarrow> from_snapshot (cf_session_dir w) snap
      | None \<Rightarrow> graph_tracker_new (cf_session_dir w))" by (simp add: restart_session_def Let_def)
  have "track_inv (cf_coordinator w) (ss_graph ?s)"
    using track_inv_new track_inv_from_snapshot [OF snap [OF stored_in]] by (simp add: g split: option.splits)
  moreover have "saved ?s"
    unfolding saved_def st g by (cases "stored ?cut") (auto simp: graph_tracker_new_def)
  ultimately show ?thesis using p sess_invD(1) [OF s] by (simp add: sess_inv_def)
qed

section \<open>The runs\<close>

inductive session_step :: "world \<Rightarrow> session \<Rightarrow> session \<Rightarrow> bool" for w where
  setup_cmd: "setup_graph fuel w obj budget s = Some (out, s') \<Longrightarrow> drive_fuel w \<le> fuel \<Longrightarrow> session_step w s s'"
| resume: "resume_graph fuel w extra s = Some (out, s') \<Longrightarrow> drive_fuel w \<le> fuel \<Longrightarrow> session_step w s s'"
| round_end: "run_graph_round_end fuel w s = Some (r, s') \<Longrightarrow> drive_fuel w \<le> fuel \<Longrightarrow> session_step w s s'"
| pause: "session_step w s (graph_pause_command w s)"
| clear: "session_step w s (graph_clear_command w s)"
| status: "session_step w s (snd (graph_status_message w s))"
| interrupt: "session_step w s (snd (auto_pause_goal w reason msg s))"
| enforce: "session_step w s (snd (enforce_goal_token_budget w tokens s))"
| cut_batch: "is_active (ss_graph s) \<Longrightarrow> t_state (ss_graph s) = Some st \<Longrightarrow> ids = take cap (ready_ids (ss_graph s)) \<Longrightarrow>
    2 \<le> length ids \<Longrightarrow> reports = map (\<lambda>(i, obj). fst (run_node_to_verdict env i obj (cf_node_rounds w))) (batch_jobs st ids) \<Longrightarrow>
    settle_reports w head (take k reports) 0 0 (tick (fan_out w (batch_jobs st ids) s)) = (ok, bad, s') \<Longrightarrow> session_step w s s'"
| goal: "core s' = core s \<Longrightarrow> session_step w s s'"
| foreign: "\<not> ss_lock s \<Longrightarrow> file_ok w f \<Longrightarrow> session_step w s (s\<lparr>ss_file := f\<rparr>)"
| restart: "session_step w s (restart_session w k g s)"

definition session_start :: "world \<Rightarrow> session \<Rightarrow> bool" where
  "session_start w s \<longleftrightarrow> serde_sound (cf_serde w) \<and> ss_graph s = graph_tracker_new (cf_session_dir w) \<and> ss_log s = [] \<and>
     \<not> ss_lock s \<and> \<not> ss_panicked s \<and> file_ok w (ss_file s)"

lemma start_inv: "session_start w s \<Longrightarrow> sess_inv w s"
  by (auto simp: session_start_def sess_inv_def pre_inv_def saved_def stored_def checkpoints_def track_inv_new
      graph_tracker_new_def List.map_filter_simps) (simp add: graph_tracker_new_def [symmetric] track_inv_new)

lemma cut_batch_inv:
  assumes "sess_inv w s" "is_active (ss_graph s)" "t_state (ss_graph s) = Some st" "ids = take cap (ready_ids (ss_graph s))" "2 \<le> length ids"
    and "reports = map (\<lambda>(i, obj). fst (run_node_to_verdict env i obj (cf_node_rounds w))) (batch_jobs st ids)"
    and "settle_reports w head (take k reports) 0 0 (tick (fan_out w (batch_jobs st ids) s)) = (ok, bad, s')"
  shows "sess_inv w s'"
proof -
  note r = ready_ids_iff [OF sess_invD(5) [OF assms(1)]]
  have d: "distinct ids" "\<forall>i \<in> set ids. node_st i (ss_graph s) = Some Ready"
    unfolding assms(4) using r(1,2) by (auto dest: in_set_takeD)
  note b = batch_run [OF assms(1-3) d(1) assms(5) d(2)]
  have "map nr_node_id reports = map fst (batch_jobs st ids)" by (simp add: assms(6) report_node split_beta comp_def)
  then have rid: "map nr_node_id reports = ids" using b(5) by (simp add: report_node split_beta comp_def)
  have sub: "set (take k reports) \<subseteq> set reports" by (rule set_take_subset)
  have "nr_node_id ` set reports = set ids" using rid by (metis set_map)
  then have "\<forall>r \<in> set (take k reports). running (nr_node_id r) (ss_graph (tick (fan_out w (batch_jobs st ids) s))) \<and> nr_node_id r \<noteq> FINAL_NODE_ID"
    using sub b(7) by auto
  moreover have "distinct (map nr_node_id (take k reports))" using d(1) rid by (metis distinct_take take_map)
  ultimately show ?thesis using settle_reports_spec [OF _ _ _ assms(7)] b(1) by simp
qed

lemma session_step_inv:
  assumes "session_step w s s'" "sess_inv w s"
  shows "sess_inv w s'"
  using assms
proof cases
  case (setup_cmd fuel obj budget out)
  then show ?thesis using setup_post [OF assms(2) setup_cmd(2), of obj budget] by (auto simp: command_post_def)
next
  case (resume fuel extra out)
  then show ?thesis using resume_post [OF assms(2) resume(2), of extra] by (auto simp: command_post_def)
next
  case (round_end fuel r)
  then show ?thesis using round_end_post [OF assms(2) round_end(2)] by (auto simp: drive_post_def)
next
  case cut_batch
  then show ?thesis using cut_batch_inv [OF assms(2)] by blast
next
  case goal
  then show ?thesis using sess_inv_core assms(2) by blast
next
  case (foreign f)
  have "checkpoints s' = checkpoints s" using foreign(1) by (simp add: checkpoints_def)
  then have "stored s' = stored s" "pre_inv w s'"
    using foreign sess_invD(2) [OF assms(2)] by (simp_all add: stored_def pre_inv_def)
  then show ?thesis using foreign(1) assms(2) by (simp add: sess_inv_def saved_def)
qed (simp_all add: assms(2) pause_command_inv clear_command_inv status_message_inv auto_pause_inv enforce_inv restart_inv)

interpretation session: refines "session_start w" "session_step w" "sess_inv w" ss_graph graph_reach for w
  by unfold_locales (auto intro: start_inv session_step_inv sess_invD(5))

end
