(* ===== verification/Session_Facts.thy ===== *)
theory Session_Facts
  imports Session_Runs
begin

text \<open>
  What the operations of the session promise beyond the invariant: the verdicts of a parallel
  batch, the dispatch loop as a function of the state alone, which operations may change the
  graph, the project file and the baselines.
\<close>

section \<open>Verdicts\<close>

definition final_st :: "node_status option \<Rightarrow> bool" where
  "final_st x \<longleftrightarrow> x = Some Achieved \<or> x = Some Failed"

lemma st_of_promote_final: "final_st (st_of ns i) \<Longrightarrow> st_of (promote_ready ns) i = st_of ns i"
  unfolding promote_ready_def
  by (subst st_of_map_eq) (cases "find (\<lambda>n. n_id n = i) ns"; auto simp: st_of_def promote_def final_st_def)+

lemma node_st_stamp [simp]: "node_st j (stamp_goal_id i g t) = node_st j t"
  by (simp add: node_st_nodes st_of_upd) (simp add: st_of_def)

lemma node_st_charge [simp]: "node_st j (charge_node_tokens i k t) = node_st j t"
  by (simp add: node_st_nodes st_of_upd) (simp add: st_of_def)

lemma node_st_queue [simp]: "node_st j (queue_discoveries ck ds t) = node_st j t"
  by (simp add: node_st_nodes)

lemma node_st_achieve:
  assumes "running i t"
  shows "node_st i (mark_node_achieved ck i r k t) = Some Achieved"
    "j \<noteq> i \<Longrightarrow> final_st (node_st j t) \<Longrightarrow> node_st j (mark_node_achieved ck i r k t) = node_st j t"
proof -
  let ?ns = "upd i (\<lambda>n. n\<lparr>n_status := Achieved, n_rounds := r, n_tokens_used := k\<rparr>) (nodes_of t)"
  have "st_of ?ns i = Some Achieved" using assms by (auto simp: st_of_upd running_nodes st_of_Some_find)
  then show "node_st i (mark_node_achieved ck i r k t) = Some Achieved"
    using st_of_promote_final [of ?ns i] by (simp add: node_st_nodes final_st_def)
  assume "j \<noteq> i" "final_st (node_st j t)"
  moreover from this(1) have "st_of ?ns j = st_of (nodes_of t) j" by (simp add: st_of_upd)
  ultimately show "node_st j (mark_node_achieved ck i r k t) = node_st j t"
    using st_of_promote_final [of ?ns j] by (simp add: node_st_nodes)
qed

lemma node_st_fail:
  assumes "graph_reach t" "running i t"
  shows "node_st i (mark_node_failed ck i d t) = Some Failed"
    "j \<noteq> i \<Longrightarrow> final_st (node_st j t) \<Longrightarrow> node_st j (mark_node_failed ck i d t) = node_st j t"
proof -
  let ?g = "\<lambda>n. n\<lparr>n_status := Failed, n_failure := Some d\<rparr>"
  let ?f = "fail_map (nodes_of t) i ?g"
  have F: "failing (nodes_of t) i ?g" by (rule running_failing [OF assms])
  have st: "node_st j (mark_node_failed ck i d t) = map_option (\<lambda>n. n_status (?f n)) (find (\<lambda>n. n_id n = j) (nodes_of t))" for j
    unfolding node_st_nodes nodes_fail [OF assms] by (rule st_of_map_eq) (simp add: keepsD(1) [OF keeps_fail_map [OF F]])
  obtain n where "find (\<lambda>n. n_id n = i) (nodes_of t) = Some n" using assms(2) by (auto simp: running_nodes st_of_Some_find)
  then show "node_st i (mark_node_failed ck i d t) = Some Failed" by (auto simp: st find_Some_iff fail_map_def)
  assume j: "j \<noteq> i" "final_st (node_st j t)"
  then obtain n where n: "find (\<lambda>n. n_id n = j) (nodes_of t) = Some n" "n_status n = Achieved \<or> n_status n = Failed"
    by (auto simp: node_st_nodes final_st_def st_of_Some_find)
  then have "n \<in> set (nodes_of t)" "n_id n = j" by (auto simp: find_Some_iff)
  then have "n_status (?f n) = n_status n" using fail_set_waiting [OF F, of n] j(1) n(2) by (auto simp: fail_map_def)
  then show "node_st j (mark_node_failed ck i d t) = node_st j t"
    using st [of j] n(1) find_Some_st [OF n(1)] by (simp add: node_st_nodes)
qed

text \<open>A node is achieved only on a report the verifier accepted and a worktree that merged.\<close>

definition accepted :: "world \<Rightarrow> node_run_report \<Rightarrow> bool" where
  "accepted w rep \<longleftrightarrow> nr_achieved rep \<and> (\<forall>p. nr_worktree_path rep = Some p \<longrightarrow> (\<exists>n. w_apply w n p = ApplySuccess))"

lemma merge_accepted:
  "merge_node_worktree w path head s = (Inr u, s') \<Longrightarrow> path = Some p \<Longrightarrow> \<exists>n. w_apply w n p = ApplySuccess"
  by (auto simp: merge_node_worktree_def Let_def split: if_splits apply_result.splits)

lemma settle_report_verdict:
  assumes "graph_reach (ss_graph s)" "running (nr_node_id rep) (ss_graph s)" "settle_report w head rep s = (ok, s')"
  shows "node_st (nr_node_id rep) (ss_graph s') = Some (if ok then Achieved else Failed) \<and> (ok \<longrightarrow> accepted w rep) \<and>
    (\<forall>j. j \<noteq> nr_node_id rep \<longrightarrow> final_st (node_st j (ss_graph s)) \<longrightarrow> node_st j (ss_graph s') = node_st j (ss_graph s))"
proof -
  let ?i = "nr_node_id rep" and ?s1 = "graph_tx w (\<lambda>ck. stamp_worker rep) s"
  let ?same = "\<lambda>t. graph_reach t \<and> running ?i t \<and> (\<forall>j. node_st j t = node_st j (ss_graph s))"
  have 1: "?same (ss_graph ?s1)"
    using stamp_worker_cases [of rep "ss_graph s"] graph_reach.step [OF assms(1) graph_step.stamp] assms(1,2) by auto
  define s2 where "s2 = (if nr_discoveries rep = [] then ?s1 else graph_tx w (\<lambda>ck. queue_discoveries ck (report_discoveries rep)) ?s1)"
  have 2: "?same (ss_graph s2)" using 1 graph_reach.step [OF _ graph_step.queue] by (auto simp: s2_def)
  have 3: "?same (charge_node_tokens ?i k (ss_graph s2))" for k using 2 graph_reach.step [OF _ graph_step.charge] by auto
  show ?thesis
  proof (cases "nr_achieved rep")
    case False
    then have "s' = persist_graph_state w (graph_tx w (\<lambda>ck t. mark_node_failed ck ?i (nr_detail rep) (charge_node_tokens ?i (nr_tokens_used rep) t)) s2)"
      "\<not> ok" using assms(3) by (auto simp: settle_report_def Let_def s2_def)
    then show ?thesis using 3 node_st_fail [of "charge_node_tokens ?i (nr_tokens_used rep) (ss_graph s2)" ?i] by simp
  next
    case True
    obtain res s3 where m: "merge_node_worktree w (nr_worktree_path rep) head s2 = (res, s3)" by (metis surj_pair)
    have g: "ss_graph s3 = ss_graph s2" using coreD(1) [OF merge_frame [of w "nr_worktree_path rep" head s2]] m by simp
    show ?thesis
    proof (cases res)
      case (Inl d)
      then have "s' = persist_graph_state w (graph_tx w (\<lambda>ck. mark_node_failed ck ?i d) s3)" "\<not> ok"
        using assms(3) True m by (auto simp: settle_report_def Let_def s2_def)
      then show ?thesis using 2 node_st_fail [of "ss_graph s2" ?i] by (simp add: g)
    next
      case (Inr u)
      then have "s' = persist_graph_state w (graph_tx w (\<lambda>ck. mark_node_achieved ck ?i (nr_rounds rep) (nr_tokens_used rep)) s3)" "ok"
        using assms(3) True m by (auto simp: settle_report_def Let_def s2_def)
      then show ?thesis
        using 2 node_st_achieve [of ?i "ss_graph s2"] True merge_accepted [OF m [unfolded Inr]] by (simp add: g accepted_def)
    qed
  qed
qed

lemma settle_reports_verdict:
  assumes "sess_inv w s" "distinct (map nr_node_id reps)"
    and "\<forall>r \<in> set reps. running (nr_node_id r) (ss_graph s) \<and> nr_node_id r \<noteq> FINAL_NODE_ID"
    and "settle_reports w head reps ok bad s = (ok', bad', s')"
  shows "(\<forall>r \<in> set reps. final_st (node_st (nr_node_id r) (ss_graph s')) \<and>
      (node_st (nr_node_id r) (ss_graph s') = Some Achieved \<longrightarrow> accepted w r)) \<and>
    (\<forall>j. j \<notin> nr_node_id ` set reps \<longrightarrow> final_st (node_st j (ss_graph s)) \<longrightarrow> node_st j (ss_graph s') = node_st j (ss_graph s))"
  using assms
proof (induction reps arbitrary: s ok bad)
  case (Cons r reps)
  obtain b s1 where s1: "settle_report w head r s = (b, s1)" by (metis surj_pair)
  have one: "sess_inv w s1" "settled (nr_node_id r) (ss_graph s) (ss_graph s1)"
    using settle_report_spec [OF Cons.prems(1), of r head] Cons.prems(3) s1 by simp_all
  have v: "node_st (nr_node_id r) (ss_graph s1) = Some (if b then Achieved else Failed)" "b \<longrightarrow> accepted w r"
    "\<And>j. j \<noteq> nr_node_id r \<Longrightarrow> final_st (node_st j (ss_graph s)) \<Longrightarrow> node_st j (ss_graph s1) = node_st j (ss_graph s)"
    using settle_report_verdict [OF sess_invD(5) [OF Cons.prems(1)] _ s1] Cons.prems(3) by simp_all
  have "\<exists>ok1 bad1. settle_reports w head reps ok1 bad1 s1 = (ok', bad', s')"
    using Cons.prems(4) s1 by (cases b) auto
  then obtain ok1 bad1 where k: "settle_reports w head reps ok1 bad1 s1 = (ok', bad', s')" by blast
  have run: "\<forall>r' \<in> set reps. running (nr_node_id r') (ss_graph s1) \<and> nr_node_id r' \<noteq> FINAL_NODE_ID"
    using one(2) Cons.prems(2,3) by (auto simp: settled_def image_iff)
  have d: "distinct (map nr_node_id reps)" "nr_node_id r \<notin> nr_node_id ` set reps" using Cons.prems(2) by simp_all
  note ih = Cons.IH [OF one(1) d(1) run k]
  have "final_st (node_st (nr_node_id r) (ss_graph s1))" using v(1) by (simp add: final_st_def)
  then have "node_st (nr_node_id r) (ss_graph s') = Some (if b then Achieved else Failed)" using ih d(2) v(1) by metis
  then show ?case using ih v(2,3) by (auto simp: final_st_def)
qed simp

lemma batch_verdict:
  assumes "sess_inv w s" "is_active (ss_graph s)" "cf_coordinator w" "distinct ids" "2 \<le> length ids"
    and ready: "\<forall>i \<in> set ids. node_st i (ss_graph s) = Some Ready"
    and "i \<in> set ids"
  shows "node_st i (ss_graph (run_graph_parallel_batch w ids s)) = Some Failed \<or>
    node_st i (ss_graph (run_graph_parallel_batch w ids s)) = Some Achieved \<and>
    (\<exists>n obj. accepted w (fst (run_node_to_verdict (w_workers w n) i obj (cf_node_rounds w))))"
proof -
  obtain st where st: "t_state (ss_graph s) = Some st" using assms(2) by (auto simp: is_active_def graph_status_def)
  define s1 where "s1 = fan_out w (batch_jobs st ids) s"
  define reps where "reps = map (\<lambda>(i, obj). fst (run_node_to_verdict (w_workers w (ss_tick s1)) i obj (cf_node_rounds w))) (batch_jobs st ids)"
  note b = batch_run [OF assms(1,2) st assms(4,5) ready, folded s1_def, folded reps_def]
  obtain ok bad s2 where r: "settle_reports w (w_head w (ss_tick s1)) reps 0 0 (tick s1) = (ok, bad, s2)" by (metis prod_cases3)
  have v: "\<forall>r \<in> set reps. final_st (node_st (nr_node_id r) (ss_graph s2)) \<and>
      (node_st (nr_node_id r) (ss_graph s2) = Some Achieved \<longrightarrow> accepted w r)"
    using settle_reports_verdict [OF _ _ _ r] b(1,5,6) assms(4) by simp
  obtain rep where rep: "rep \<in> set reps" "nr_node_id rep = i" using b(5) assms(7) by (metis image_iff set_map)
  have "ss_graph (run_graph_parallel_batch w ids s) = ss_graph s2"
    using assms(3) st r by (simp add: run_graph_parallel_batch_def Let_def reps_def s1_def)
  then show ?thesis using v rep b(8) unfolding final_st_def by metis
qed

section \<open>The dispatch loop\<close>

lemma drive_graph_mono: "drive_graph m w s = Some rs \<Longrightarrow> m \<le> n \<Longrightarrow> drive_graph n w s = Some rs"
proof (induction m arbitrary: n s)
  case (Suc m)
  then obtain n' where "n = Suc n'" "m \<le> n'" by (cases n) auto
  then show ?case using Suc by (auto simp: Let_def split: if_splits)
qed simp

lemma drive_graph_fuel:
  assumes "sess_inv w s" "drive_fuel w \<le> fuel"
  shows "drive_graph fuel w s = drive_graph (drive_fuel w) w s"
  using drive_graph_post [OF assms(1), of "drive_fuel w"] drive_graph_mono [OF _ assms(2)] by auto

section \<open>Restart\<close>

lemma achieved_promote: "achieved_ids (promote_ready ns) = achieved_ids ns"
proof -
  have "map n_id (filter (\<lambda>n. n_status n = Achieved) (map (promote a) xs)) = map n_id (filter (\<lambda>n. n_status n = Achieved) xs)" for a xs
    by (induction xs) (auto simp: promote_def)
  then show ?thesis by (simp add: achieved_ids_def promote_ready_def)
qed

lemma promote_ready_idem: "promote_ready (promote_ready ns) = promote_ready ns"
proof -
  have "promote_ready (promote_ready ns) = map (promote (achieved_ids ns)) (promote_ready ns)"
    unfolding promote_ready_def [of "promote_ready ns"] achieved_promote ..
  then show ?thesis by (auto simp: promote_ready_def promote_def)
qed

definition restored :: "graph_orchestration \<Rightarrow> graph_orchestration" where
  "restored st = the (t_state (from_snapshot [] st))"

lemma from_snapshot_restored: "t_state (from_snapshot dir st) = Some (restored st)"
  by (simp add: restored_def from_snapshot_def recompute_ready_def Let_def)

lemma restored_idem: "restored (restored st) = restored st"
proof -
  let ?ns = "map demote_in_flight (g_nodes st)"
  have flight: "\<not> in_flight (n_status n)" if "n \<in> set (promote_ready ?ns)" for n
    using that by (auto simp: promote_ready_def promote_def demote_in_flight_def in_flight_def split: if_splits)
  then have "map demote_in_flight (promote_ready ?ns) = promote_ready ?ns"
    by (intro map_idI) (auto simp: demote_in_flight_def in_flight_def)
  then have "promote_ready (map demote_in_flight (promote_ready ?ns)) = promote_ready ?ns" by (simp add: promote_ready_idem)
  then show ?thesis by (simp add: restored_def from_snapshot_def recompute_ready_def Let_def)
qed

lemma restart_exact:
  assumes "sess_inv w s"
  shows "t_state (ss_graph (restart_session w (length (ss_log s)) g s)) = map_option restored (t_state (ss_graph s))"
proof -
  have "ss_graph (restart_session w (length (ss_log s)) g s) = (case stored s of
      Some snap \<Rightarrow> from_snapshot (cf_session_dir w) snap | None \<Rightarrow> graph_tracker_new (cf_session_dir w))"
    by (simp add: restart_session_def Let_def)
  moreover have "map_option restored (t_state (ss_graph s)) = map_option restored (stored s)"
    using sess_invD(4) [OF assms] by (auto simp: saved_def from_snapshot_restored restored_idem)
  ultimately show ?thesis
    by (cases "stored s") (auto simp: from_snapshot_restored graph_tracker_new_def)
qed

section \<open>Who may change what\<close>

lemma setup_refused:
  assumes "graph_status (ss_graph s) = Some st" "st \<noteq> Complete"
  shows "\<exists>msg. setup_graph fuel w obj b s = Some (Message msg, s)"
  using assms by (auto simp: setup_graph_def setup_refusal_def)

lemma setup_refused_project:
  assumes "cf_project_dir w = Some dir" "\<forall>n. w_read_err w n = None" "load (cf_serde w) dir (Inr (ss_file s)) = Inr (Some st)" "g_status st \<noteq> Complete"
  shows "\<exists>msg s'. setup_graph fuel w obj b s = Some (Message msg, s') \<and> same_state s s'"
proof -
  obtain r s1 where a: "acquire_project_graph_writer w s = (r, s1)" by (metis surj_pair)
  have s1: "same_state s s1" using acquire_same [of s w] a by simp
  then have "load_project w dir s1 = Inr (Some st)" using assms(2,3) same_stateD(4) [OF s1] by (simp add: load_project_def)
  then have "\<exists>msg s'. setup_refusal w s = (Some msg, s')"
    using a assms(1,4) by (auto simp: setup_refusal_def split: sum.splits bool.splits)
  then obtain msg s' where "setup_refusal w s = (Some msg, s')" by blast
  then show ?thesis using refusal_same [of s w] by (simp add: setup_graph_def)
qed

text \<open>Clearing a graph leaves the projection of another one alone.\<close>

lemma clear_foreign:
  assumes "t_state (ss_graph s) = Some mine" "cf_project_dir w = Some dir" "\<forall>n. w_read_err w n = None"
    and "load (cf_serde w) dir (Inr (ss_file s)) = Inr (Some other)" "g_graph_id other \<noteq> g_graph_id mine"
  shows "ss_file (graph_clear_command w s) = ss_file s" "t_state (ss_graph (graph_clear_command w s)) = None"
    "\<not> ss_lock (graph_clear_command w s)"
proof -
  define s1 where "s1 = (if graph_owns_goal_engine s then reset_goal_engine_state w s else s)"
  define s2 where "s2 = graph_tx w (\<lambda>ck. graph_clear) s1"
  define s3 where "s3 = release_foreign w (Some (g_graph_id mine)) s2"
  have c: "core s1 = core s" by (simp add: s1_def)
  have f2: "ss_file s2 = ss_file s" using coreD(2) [OF c] by (simp add: s2_def)
  have eq: "graph_clear_command w s = say ''Graph cleared.'' ((persist_graph_state w s3)\<lparr>ss_lock := False\<rparr>)"
    using assms(1) by (simp add: graph_clear_command_def Let_def s1_def s2_def s3_def)
  obtain r s2' where a: "acquire_project_graph_writer w s2 = (r, s2')" by (metis surj_pair)
  have d: "same_state s2 s2'" using acquire_same [of s2 w] a by simp
  have "projected_graph_id w s2' = Some (g_graph_id other)"
    using assms(2-4) same_stateD(4) [OF d] f2 by (simp add: projected_graph_id_def load_project_def)
  then have "\<not> ss_lock s3"
    using a assms(2,5) by (auto simp: s3_def release_foreign_def acquire_project_graph_writer_def tick_def
        split: sum.splits bool.splits if_splits lock_outcome.splits)
  then have "ss_file (persist_graph_state w s3) = ss_file s3" by (simp add: sync_project_def)
  moreover have "ss_file s3 = ss_file s" "ss_graph s3 = ss_graph s2"
    using same_stateD(2,4) [OF release_same [of s2 w "Some (g_graph_id mine)"]] f2 by (simp_all add: s3_def)
  moreover have "t_state (ss_graph s2) = None" by (simp add: s2_def graph_clear_def)
  ultimately show "ss_file (graph_clear_command w s) = ss_file s" "t_state (ss_graph (graph_clear_command w s)) = None"
    "\<not> ss_lock (graph_clear_command w s)"
    by (simp_all add: eq)
qed

section \<open>Dead ends\<close>

text \<open>A baseline file that already exists is never replaced, so that planning cannot be finished.\<close>

lemma baseline_dead_end:
  assumes "run_graph_planning w obj s = (Some (Inr nodes), s1)" "t_state (ss_graph s) = Some st" "w_baseline_err w (ss_tick s1) = None"
    and "baseline_path (g_plan_version st) (ss_graph s) \<in> fst ` set (ss_baselines s)"
  shows "finish_planning_on_resume fuel w obj s =
      Some (Inl (''failed to write graph baseline: '' @ w_exists_err w),
        pause_graph w Infra (''failed to write graph baseline: '' @ w_exists_err w) (tick s1))"
    "ss_baselines (tick s1) = ss_baselines s" "ss_graph (tick s1) = ss_graph s"
proof -
  have c: "core s1 = core s" using run_graph_planning_core [of w obj s] assms(1) by simp
  then show "ss_baselines (tick s1) = ss_baselines s" "ss_graph (tick s1) = ss_graph s" using coreD(1,4) [OF c] by simp_all
  then have "write_graph_baseline w nodes s1 = (Some (w_exists_err w), tick s1)"
    using assms(2-4) by (simp add: write_graph_baseline_def Let_def)
  then show "finish_planning_on_resume fuel w obj s =
      Some (Inl (''failed to write graph baseline: '' @ w_exists_err w),
        pause_graph w Infra (''failed to write graph baseline: '' @ w_exists_err w) (tick s1))"
    using assms(1) by (simp add: finish_planning_on_resume_def Let_def)
qed

text \<open>What the tracker has spent.\<close>

definition spent_of :: "graph_tracker \<Rightarrow> i64" where
  "spent_of t = (case t_state t of Some st \<Rightarrow> g_tokens_spent_nodes st | None \<Rightarrow> 0)"

lemma spent_frames [simp]:
  "spent_of (stamp_goal_id i g t) = spent_of t" "spent_of (queue_discoveries ck ds t) = spent_of t" "spent_of (mark_node_failed ck i d t) = spent_of t"
  by (cases "t_state t"; simp add: spent_of_def stamp_goal_id_def queue_discoveries_def mark_node_failed_def block_dependents_def push_history_def Let_def)+

lemma merge_failure_spent:
  assumes "nr_achieved rep" "nr_worktree_path rep = Some p" "\<forall>n. w_apply w n p \<noteq> ApplySuccess"
  shows "spent_of (ss_graph (snd (settle_report w head rep s))) = spent_of (ss_graph s)" "\<not> fst (settle_report w head rep s)"
proof -
  define s1 where "s1 = graph_tx w (\<lambda>ck. stamp_worker rep) s"
  define s2 where "s2 = (if nr_discoveries rep = [] then s1 else graph_tx w (\<lambda>ck. queue_discoveries ck (report_discoveries rep)) s1)"
  have "spent_of (ss_graph s1) = spent_of (ss_graph s)" using stamp_worker_cases [of rep "ss_graph s"] by (auto simp: s1_def)
  then have s2: "spent_of (ss_graph s2) = spent_of (ss_graph s)" by (simp add: s2_def)
  have "\<exists>d s3. merge_node_worktree w (Some p) head s2 = (Inl d, s3)"
    using assms(3) by (simp add: merge_node_worktree_def Let_def split: apply_result.splits)
  then obtain d s3 where m: "merge_node_worktree w (Some p) head s2 = (Inl d, s3)" by blast
  have "ss_graph s3 = ss_graph s2" using coreD(1) [OF merge_frame [of w "Some p" head s2]] m by simp
  then show "spent_of (ss_graph (snd (settle_report w head rep s))) = spent_of (ss_graph s)" "\<not> fst (settle_report w head rep s)"
    using assms(1,2) m s2 by (simp_all add: settle_report_def Let_def s1_def [symmetric] s2_def [symmetric])
qed

lemma state_kept [simp]:
  "t_state (stamp_goal_id i g t) = None \<longleftrightarrow> t_state t = None" "t_state (queue_discoveries ck ds t) = None \<longleftrightarrow> t_state t = None"
  "t_state (charge_node_tokens i k t) = None \<longleftrightarrow> t_state t = None" "t_state (mark_node_failed ck i d t) = None \<longleftrightarrow> t_state t = None"
  "t_state (mark_node_achieved ck i r k t) = None \<longleftrightarrow> t_state t = None"
  by (cases "t_state t"; simp add: stamp_goal_id_def queue_discoveries_def charge_node_tokens_def mark_node_failed_def mark_node_achieved_def
      recompute_ready_def block_dependents_def Let_def)+

lemma settle_report_state:
  assumes "t_state (ss_graph s) \<noteq> None"
  shows "t_state (ss_graph (snd (settle_report w head rep s))) \<noteq> None"
proof -
  define s1 where "s1 = graph_tx w (\<lambda>ck. stamp_worker rep) s"
  define s2 where "s2 = (if nr_discoveries rep = [] then s1 else graph_tx w (\<lambda>ck. queue_discoveries ck (report_discoveries rep)) s1)"
  have "t_state (stamp_worker rep (ss_graph s)) \<noteq> None" using assms stamp_worker_cases [of rep "ss_graph s"] state_kept(1) by metis
  then have "t_state (ss_graph s1) \<noteq> None" by (simp add: s1_def del: not_None_eq)
  then have s2: "t_state (ss_graph s2) \<noteq> None" by (simp add: s2_def del: not_None_eq)
  obtain r s3 where m: "merge_node_worktree w (nr_worktree_path rep) head s2 = (r, s3)" by (metis surj_pair)
  have "ss_graph s3 = ss_graph s2" using coreD(1) [OF merge_frame [of w "nr_worktree_path rep" head s2]] m by simp
  then show ?thesis
    using m s2 by (cases r) (simp_all add: settle_report_def Let_def s1_def [symmetric] s2_def [symmetric] del: not_None_eq)
qed

text \<open>
  A node left running on a goal that is already complete: resuming keeps it in flight, no goal is
  paused, and with no other node ready the loop pauses the graph again.
\<close>

definition stranded :: "session \<Rightarrow> bool" where
  "stranded s \<longleftrightarrow> (\<exists>st i. graph_status (ss_graph s) = Some st \<and> is_paused st \<and> current_node_id (ss_graph s) = Some i \<and> running i (ss_graph s) \<and>
     (\<forall>n \<in> set (nodes_of (ss_graph s)). n_status n = Running \<longrightarrow> n_id n = i) \<and>
     (\<forall>n \<in> set (nodes_of (ss_graph s)). n_status n \<noteq> Ready) \<and>
     pending_of (ss_graph s) = []) \<and> goal_status_of (ss_goal s) = Some Complete"

lemma promote_ready_id: "graph_ok ns \<Longrightarrow> promote_ready ns = ns"
  unfolding promote_ready_def
  by (intro map_idI) (auto simp: promote_def deps_achieved_def list_all_iff graph_ok_def sched_ok_def promoted_def)

lemma stranded_rearm:
  assumes "sess_inv w s" "stranded s"
  shows "nodes_of (ss_graph (rearm w s)) = nodes_of (ss_graph s)" "current_node_id (ss_graph (rearm w s)) = current_node_id (ss_graph s)"
    "pending_of (ss_graph (rearm w s)) = []" "remaining_budget (ss_graph (rearm w s)) = remaining_budget (ss_graph s)"
proof -
  obtain st i where s: "graph_status (ss_graph s) = Some st" "is_paused st" "current_node_id (ss_graph s) = Some i" "running i (ss_graph s)"
    "\<forall>n \<in> set (nodes_of (ss_graph s)). n_status n = Running \<longrightarrow> n_id n = i" "pending_of (ss_graph s) = []"
    "goal_status_of (ss_goal s) = Some Complete" using assms(2) by (auto simp: stranded_def)
  have ne: "nodes_of (ss_graph s) \<noteq> []" using s(4) by (auto simp: running_nodes st_of_def)
  have ok: "graph_ok (nodes_of (ss_graph s))" by (rule reach_graph_ok [OF sess_invD(5) [OF assms(1)] ne])
  have g: "gt_orchestration (ss_goal s) \<noteq> None" using s(7) by (auto simp: goal_status_of_def)
  have t: "t_state (ss_graph s) \<noteq> None" using s(1) by (auto simp: graph_status_def)
  let ?t = "snd (graph_resume (w_clock w (ss_tick s)) (ss_graph s))"
  have n1: "nodes_of ?t = nodes_of (ss_graph s)" using view_resume(1) [of "w_clock w (ss_tick s)" "ss_graph s"] promote_ready_id [OF ok] by auto
  have c1: "current_node_id ?t = Some i" using s(3) by (simp add: view_resume)
  have e: "ss_graph (rearm w s) = demote_orphaned_in_flight (Some i) ?t" using g c1 by (simp add: rearm_def Let_def)
  have "map (\<lambda>n. if Some i \<noteq> Some (n_id n) then demote_in_flight n else n) (nodes_of (ss_graph s)) = nodes_of (ss_graph s)"
    using s(5) reach_status [OF sess_invD(5) [OF assms(1)]] by (intro map_idI) (auto simp: demote_in_flight_def)
  then show "nodes_of (ss_graph (rearm w s)) = nodes_of (ss_graph s)" by (simp add: e view_demote n1 promote_ready_id [OF ok])
  have "t_state ?t \<noteq> None" using c1 by (cases "t_state ?t") (simp_all add: current_node_id_def)
  then show "current_node_id (ss_graph (rearm w s)) = current_node_id (ss_graph s)" "pending_of (ss_graph (rearm w s)) = []"
    by (simp_all add: e view_demote view_resume s del: not_None_eq)
  show "remaining_budget (ss_graph (rearm w s)) = remaining_budget (ss_graph s)"
    unfolding e by (cases "t_state (ss_graph s)")
      (auto simp: demote_orphaned_in_flight_def recompute_ready_def remaining_budget_def graph_resume_def push_history_def)
qed

lemma stranded_resume:
  assumes "sess_inv w s" "stranded s" "remaining_budget (ss_graph s) \<noteq> Some 0" "fst (claim_project_graph_for_resume w s) = None"
  shows "\<exists>msg s'. resume_graph (Suc fuel) w None s = Some (Message msg, s') \<and> stranded s' \<and> graph_status (ss_graph s') = Some InfraPaused \<and>
    nodes_of (ss_graph s') = nodes_of (ss_graph s)"
proof -
  obtain s0 where c: "claim_project_graph_for_resume w s = (None, s0)" using assms(4) by (metis prod.collapse)
  have d: "same_state s s0" using claim_same [of s w] c by simp
  have st0: "stranded s0" "sess_inv w s0" using assms(1,2) same_stateD [OF d] by (simp_all add: stranded_def)
  obtain st i where s: "graph_status (ss_graph s0) = Some st" "is_paused st" "current_node_id (ss_graph s0) = Some i" "running i (ss_graph s0)"
    "\<forall>n \<in> set (nodes_of (ss_graph s0)). n_status n = Running \<longrightarrow> n_id n = i" "\<forall>n \<in> set (nodes_of (ss_graph s0)). n_status n \<noteq> Ready"
    "goal_status_of (ss_goal s0) = Some Complete" using st0(1) by (auto simp: stranded_def)
  note r = rearm_spec [OF st0(2) s(1,2)] and n = stranded_rearm [OF st0(2,1)]
  let ?s1 = "rearm w s0"
  obtain st1 where st1: "t_state (ss_graph ?s1) = Some st1" using r(2) by (auto simp: is_active_def graph_status_def)
  have nodes: "g_nodes st1 = nodes_of (ss_graph s0)" "g_pending_discoveries st1 = []"
    using st1 n(1,3) by (simp_all add: nodes_of_def pending_of_def)
  obtain m where m: "m \<in> set (nodes_of (ss_graph s0))" "n_status m = Running" using running_SomeD [OF s(4)] by blast
  have "maybe_replan_graph w ?s1 = ?s1" using st1 nodes(2) by (simp add: maybe_replan_graph_def)
  moreover have "ready_ids (ss_graph ?s1) = []" using st1 nodes(1) s(6) by (auto simp: ready_ids_def filter_empty_conv)
  moreover have "\<not> all_achieved (ss_graph ?s1)" "\<not> is_wedged (ss_graph ?s1)"
    using st1 nodes(1) m by (auto simp: all_achieved_def is_wedged_def list_all_iff list_ex_iff)
  ultimately have drive: "drive_graph (Suc fuel) w ?s1 = Some (None,
      say ''Graph paused: scheduler found no runnable node while work remains. See /graph status.''
        (pause_graph w Infra ''Scheduler found no runnable node while work remains'' ?s1))"
    using r(2) sess_invD(6) [OF r(1)] n(4) assms(3) same_stateD(2) [OF d] by (simp add: settle_graph_def)
  let ?s2 = "pause_graph w Infra ''Scheduler found no runnable node while work remains'' ?s1"
  have v: "nodes_of (ss_graph ?s2) = nodes_of (ss_graph s0)" "graph_status (ss_graph ?s2) = Some InfraPaused"
    "current_node_id (ss_graph ?s2) = Some i" "pending_of (ss_graph ?s2) = []" "ss_goal ?s2 = ss_goal s0"
    using n s(3) r(2,3) by (simp_all add: pause_graph_def graph_pause_with_message_def)
  have "running i (ss_graph ?s2)" using s(4) v(1) by (simp add: running_nodes)
  then have "stranded ?s2" using v s(5,6,7) by (simp add: stranded_def)
  then have st2: "stranded (say msg ?s2)" for msg by (simp add: stranded_def)
  have "m \<in> set (g_nodes st1)" using m(1) nodes(1) by simp
  then have "resume_paused (Suc fuel) w s = Some (Message ''Graph resumed but did not enter a serial node. See /graph status.'',
      say ''Graph paused: scheduler found no runnable node while work remains. See /graph status.'' ?s2)"
    using c st1 drive s(7) r(3) by (auto simp: resume_paused_def Let_def simp del: drive_graph.simps)
  moreover have "resume_graph (Suc fuel) w None s = resume_paused (Suc fuel) w s"
    using s(1,2) same_stateD(2) [OF d] by (cases st) (auto simp: resume_graph_def resume_session_graph_def graph_status_def)
  ultimately show ?thesis using st2 v(1,2) same_stateD(2) [OF d] by simp
qed

text \<open>The moment between the completion of the goal of the current node and the end of its round.\<close>

definition goal_ahead :: "session \<Rightarrow> bool" where
  "goal_ahead s \<longleftrightarrow>
     graph_status (ss_graph s) = Some Active \<and> goal_status_of (ss_goal s) = Some Complete \<and>
     current_node_id (ss_graph s) \<noteq> None \<and>
     (\<forall>n \<in> set (nodes_of (ss_graph s)). n_status n \<noteq> Ready \<and> (n_status n = Running \<longrightarrow> current_node_id (ss_graph s) = Some (n_id n))) \<and>
     pending_of (ss_graph s) = []"

lemma pause_strands:
  assumes "sess_inv w s" "goal_ahead s"
  shows "stranded (graph_pause_command w s)"
proof -
  obtain i where i: "current_node_id (ss_graph s) = Some i" "graph_status (ss_graph s) = Some Active"
    "goal_status_of (ss_goal s) = Some Complete" "pending_of (ss_graph s) = []"
    "\<forall>n \<in> set (nodes_of (ss_graph s)). n_status n \<noteq> Ready \<and> (n_status n = Running \<longrightarrow> n_id n = i)"
    using assms(2) by (auto simp: goal_ahead_def)
  have r: "running i (ss_graph s)" using track_invD(2) [OF sess_invD(3) [OF assms(1)] i(1)] .
  let ?s1 = "graph_tx w (\<lambda>ck t. snd (graph_pause ck User t)) s"
  have na: "\<not> is_active (ss_graph ?s1)" by (simp add: is_active_def graph_pause_def)
  have "goal_status_of (ss_goal ?s1) \<noteq> Some Active" using i(3) by simp
  then have a: "snd (auto_pause_goal w User None ?s1) = tick ?s1" using na by (simp add: auto_pause_goal_def Let_def)
  have "graph_status (ss_graph ?s1) = Some UserPaused" "nodes_of (ss_graph ?s1) = nodes_of (ss_graph s)"
    "current_node_id (ss_graph ?s1) = Some i" "pending_of (ss_graph ?s1) = []" "ss_goal ?s1 = ss_goal s"
    using i by (simp_all add: graph_pause_def is_active_def)
  then show ?thesis
    using i(3,5) r by (simp add: graph_pause_command_def i(2) a stranded_def running_nodes)
qed

end
