(* ===== verification/Goal_Inv.thy ===== *)
theory Goal_Inv
  imports Goal_Tracker Transition "HOL-Library.Multiset"
begin

text \<open>
  The goal tracker as a transition system: \<open>goal_step\<close> has one rule per operation of
  \<open>GoalTracker\<close>, a restart from an arbitrary snapshot included.  The invariant \<open>goal_ok\<close> says that
  the clock runs exactly while the goal is active, that the token counters are \<open>i64\<close> values, and
  that no file operation leaves the session's goal directory and the scratch roots, whatever the
  snapshot says.
\<close>

section \<open>Confinement of the file operations\<close>

definition scratch_path :: "string \<Rightarrow> bool" where
  "scratch_path p \<longleftrightarrow> (\<exists>h vid. canonical_verifier_id vid \<and> p = goal_scratch_root h vid)"

definition call_ok :: "string \<Rightarrow> fs_call \<Rightarrow> bool" where
  "call_ok dir c = (case c of
     RemoveDirAll p \<Rightarrow> scratch_path p
   | EnsureScratchRoot p \<Rightarrow> scratch_path p
   | AppendSkepticReports root dest \<Rightarrow> scratch_path root \<and> (\<exists>name. dest = path_join dir name)
   | RescueMove src dest \<Rightarrow> ParentDir \<notin> set (components src) \<and> (\<exists>root. scratch_path root \<and> path_starts_with src root) \<and>
       (\<exists>name. file_name src = Some name \<and> dest = path_join dir name)
   | CreateDirAll p \<Rightarrow> p = dir \<or> (\<exists>h vid. canonical_verifier_id vid \<and> p = implementer_scratch_dir h vid))"

definition typed :: "goal_orchestration \<Rightarrow> bool" where
  "typed o' \<longleftrightarrow> in_i64 (o_tokens_used_high_water o') \<and> in_i64 (o_parent_tokens_spent o')"

definition goal_ok :: "goal_tracker \<Rightarrow> bool" where
  "goal_ok t \<longleftrightarrow> (gt_active_since t \<noteq> None \<longleftrightarrow> goal_is_active t) \<and>
     (\<forall>o'. gt_orchestration t = Some o' \<longrightarrow> canonical_verifier_id (o_verifier_id o') \<and> typed o') \<and>
     (\<forall>c \<in> set (gt_fs t). call_ok (goal_dir t) c)"

section \<open>Steps\<close>

text \<open>\<open>generate_verifier_id\<close> is the first twelve characters of a fresh UUID in hexadecimal.\<close>

inductive goal_step :: "goal_tracker \<Rightarrow> goal_tracker \<Rightarrow> bool" where
  create: "canonical_verifier_id (h_fresh_id h) \<Longrightarrow> goal_step t (create_goal h ck gid objective budget baseline created commit t)"
| phase: "goal_step t (set_phase ph t)"
| subagent: "goal_step t (set_current_subagent sid role t)"
| pause: "goal_step t (snd (goal_pause_inner ck reason msg t))"
| resume: "goal_step t (snd (goal_resume ck t))"
| complete: "goal_step t (snd (goal_complete h ck t))"
| limit: "goal_step t (snd (goal_budget_limit h ck t))"
| clear: "goal_step t (goal_clear h t)"
| progress: "goal_step t (update_live_progress toks by_model window pct turns calls t)"
| elapsed: "goal_step t (goal_account_elapsed ck t)"
| history: "goal_step t (goal_append_history e t)"
| stall: "goal_step t (snd (record_classifier_stall fp t))"
| rollback: "goal_step t (rollback_classifier_attempt t)"
| unstall: "goal_step t (reset_classifier_stall t)"
| streak: "goal_step t (snd (record_not_achieved_streak t))"
| fire: "goal_step t (snd (claim_strategist_fire f t))"
| revoke: "goal_step t (revoke_strategist_cap_bonus t)"
| unstrategist: "goal_step t (reset_strategist_state t)"
| strategy: "goal_step t (record_strategy_recommendation path rec t)"
| tokens: "goal_step t (snd (goal_tokens records current t))"
| restart: "canonical_verifier_id (h_fresh_id h) \<Longrightarrow> typed snap \<Longrightarrow> goal_step t (goal_from_snapshot h ck dir snap)"

section \<open>The invariant\<close>

lemma call_ok_scratch [simp]:
  assumes "canonical_verifier_id vid"
  shows "call_ok d (EnsureScratchRoot (goal_scratch_root h vid))" "call_ok d (RemoveDirAll (goal_scratch_root h vid))"
    "call_ok d (CreateDirAll (implementer_scratch_dir h vid))"
  using assms by (auto simp: call_ok_def scratch_path_def)

lemma goal_okI:
  assumes "goal_ok t" "gt_fs t' = gt_fs t" "gt_session_dir t' = gt_session_dir t"
    and "gt_active_since t' \<noteq> None \<longleftrightarrow> goal_is_active t'"
    and "\<And>o'. gt_orchestration t' = Some o' \<Longrightarrow> canonical_verifier_id (o_verifier_id o') \<and> typed o'"
  shows "goal_ok t'"
  using assms by (simp add: goal_ok_def goal_dir_def)

lemma with_orch_ok:
  assumes "goal_ok t" "\<And>o'. o_status (f o') = o_status o' \<and> o_verifier_id (f o') = o_verifier_id o' \<and>
      o_tokens_used_high_water (f o') = o_tokens_used_high_water o' \<and> o_parent_tokens_spent (f o') = o_parent_tokens_spent o'"
  shows "goal_ok (with_orch f t)"
  by (rule goal_okI [OF assms(1)]) (use assms in \<open>auto simp: goal_ok_def goal_is_active_def typed_def split: option.splits\<close>)

lemma record_event_ok: "goal_ok t \<Longrightarrow> goal_ok (goal_append_history e t)"
  unfolding goal_append_history_def by (rule with_orch_ok) simp_all

lemma rescue_ok: "goal_ok t \<Longrightarrow> goal_ok (rescue_classifier_details h t)"
proof (cases "gt_orchestration t")
  case (Some o')
  assume ok: "goal_ok t"
  then have v: "scratch_path (goal_scratch_root h (o_verifier_id o'))" using Some by (auto simp: goal_ok_def scratch_path_def)
  show ?thesis
  proof (cases "rescue_target h t o'")
    case (Some sd)
    then have "call_ok (goal_dir t) (RescueMove (fst sd) (snd sd))"
      "call_ok (goal_dir t) (AppendSkepticReports (goal_scratch_root h (o_verifier_id o')) (snd sd))"
      using v by (auto simp: rescue_target_def call_ok_def split: option.splits if_splits)
    then show ?thesis
      using ok Some \<open>gt_orchestration t = Some o'\<close>
      by (cases sd) (auto simp: rescue_classifier_details_def goal_ok_def goal_dir_def goal_is_active_def typed_def call_ok_def [of _ "CreateDirAll _"])
  qed (use ok \<open>gt_orchestration t = Some o'\<close> in \<open>simp add: rescue_classifier_details_def\<close>)
qed (simp add: rescue_classifier_details_def)

lemma remove_root_ok: "goal_ok t \<Longrightarrow> goal_ok (remove_scratch_root h t)"
  by (auto simp: remove_scratch_root_def goal_ok_def goal_dir_def goal_is_active_def split: option.splits)

lemma flush_elapsed_fields [simp]:
  "o_status (flush_elapsed ck t o') = o_status o'" "o_verifier_id (flush_elapsed ck t o') = o_verifier_id o'"
  "o_tokens_used_high_water (flush_elapsed ck t o') = o_tokens_used_high_water o'"
  "o_parent_tokens_spent (flush_elapsed ck t o') = o_parent_tokens_spent o'" "typed (flush_elapsed ck t o') = typed o'"
  by (simp_all add: flush_elapsed_def typed_def split: option.splits)

lemma reset_fields [simp]:
  "o_status (reset_strategist_fields o') = o_status o'" "o_verifier_id (reset_strategist_fields o') = o_verifier_id o'"
  "typed (reset_strategist_fields o') = typed o'" "o_status (reset_classifier_stall_fields o') = o_status o'"
  "o_verifier_id (reset_classifier_stall_fields o') = o_verifier_id o'" "typed (reset_classifier_stall_fields o') = typed o'"
  "o_tokens_used_high_water (reset_strategist_fields o') = o_tokens_used_high_water o'"
  "o_parent_tokens_spent (reset_strategist_fields o') = o_parent_tokens_spent o'"
  "o_tokens_used_high_water (reset_classifier_stall_fields o') = o_tokens_used_high_water o'"
  "o_parent_tokens_spent (reset_classifier_stall_fields o') = o_parent_tokens_spent o'"
  by (simp_all add: reset_strategist_fields_def reset_classifier_stall_fields_def typed_def)

lemma goal_end_ok: "goal_ok t \<Longrightarrow> st \<noteq> Active \<Longrightarrow> goal_ok (snd (goal_end st ev h ck t))"
proof (cases "gt_orchestration t")
  case (Some o')
  assume ok: "goal_ok t" and st: "st \<noteq> Active"
  have "goal_ok (t\<lparr>gt_orchestration := Some (end_goal_fields st (flush_elapsed ck t o')), gt_active_since := None\<rparr>)"
    by (rule goal_okI [OF ok]) (use ok st Some in \<open>auto simp: goal_ok_def goal_is_active_def end_goal_fields_def typed_def\<close>)
  then show ?thesis
    using ok Some by (auto simp: goal_end_def record_event_def intro: record_event_ok remove_root_ok rescue_ok)
qed (simp add: goal_end_def)

lemma sat_add_in: "in_i64 (sat_add_i64 a b)"
  by (simp add: sat_add_i64_def in_i64_def i64_min_def i64_max_def)

lemma goal_tokens_ok: "goal_ok t \<Longrightarrow> goal_ok (snd (goal_tokens records current t))"
proof (cases "gt_orchestration t")
  case (Some o')
  assume ok: "goal_ok t"
  show ?thesis
    by (rule goal_okI [OF ok]) (use ok Some sat_add_in in \<open>auto simp: goal_tokens_def Let_def goal_ok_def goal_is_active_def typed_def max_def
      split: prod.splits\<close>)
qed (simp add: goal_tokens_def)

lemma create_goal_ok:
  assumes "goal_ok t" "canonical_verifier_id (h_fresh_id h)"
  shows "goal_ok (create_goal h ck gid objective budget baseline created commit t)"
proof -
  define t1 where "t1 = t\<lparr>gt_fs := gt_fs t @ [CreateDirAll (goal_dir t)]\<rparr>"
  define t2 where "t2 = (if gt_orchestration t1 \<noteq> None then remove_scratch_root h (rescue_classifier_details h t1) else t1)"
  have "goal_ok t1" using assms(1) by (auto simp: t1_def goal_ok_def goal_dir_def goal_is_active_def call_ok_def [of _ "CreateDirAll _"])
  then have t2: "goal_ok t2" by (simp add: t2_def remove_root_ok rescue_ok)
  let ?o = "fresh_orchestration gid objective budget baseline created commit (h_fresh_id h) (h_ensure_root_ok h \<and> h_create_dir_ok h)"
  let ?calls = "EnsureScratchRoot (goal_scratch_root h (h_fresh_id h)) #
      (if h_ensure_root_ok h then [CreateDirAll (implementer_scratch_dir h (h_fresh_id h))] else [])"
  have "\<forall>c \<in> set ?calls. call_ok d c" for d using assms(2) by simp
  moreover have "in_i64 0" by (simp add: in_i64_def i64_min_def i64_max_def)
  ultimately have "goal_ok (t2\<lparr>gt_orchestration := Some ?o, gt_active_since := Some (inst ck), gt_fs := gt_fs t2 @ ?calls\<rparr>)"
    using t2 assms(2) by (auto simp: goal_ok_def goal_is_active_def fresh_orchestration_def typed_def goal_dir_def)
  then show ?thesis
    unfolding create_goal_def Let_def record_event_def t1_def [symmetric] t2_def [symmetric] by (rule record_event_ok)
qed

lemma from_snapshot_goal_ok:
  assumes "canonical_verifier_id (h_fresh_id h)" "typed snap"
  shows "goal_ok (goal_from_snapshot h ck dir snap)"
  using assms
  by (auto simp: goal_from_snapshot_def Let_def goal_ok_def goal_is_active_def typed_def split: goal_phase.splits)

lemma goal_step_ok: "goal_step t t' \<Longrightarrow> goal_ok t \<Longrightarrow> goal_ok t'"
proof (induction rule: goal_step.induct)
  case (pause t ck reason msg)
  then show ?case
    by (cases "gt_orchestration t")
       (auto simp: goal_pause_inner_def Let_def record_event_def goal_is_active_def goal_ok_def [of t] typed_def
          intro!: record_event_ok goal_okI [OF pause] split: option.splits, (cases reason; simp)+)
next
  case (resume t ck)
  then show ?case
    by (auto simp: goal_resume_def Let_def record_event_def goal_is_active_def goal_ok_def [of t] typed_def
        intro!: record_event_ok goal_okI [OF resume] split: option.splits)
next
  case (elapsed t ck)
  then show ?case
    by (auto simp: goal_account_elapsed_def goal_is_active_def goal_ok_def [of t] intro!: goal_okI [OF elapsed] split: option.splits)
next
  case (clear t h)
  have "goal_ok (remove_scratch_root h (rescue_classifier_details h t))" using clear by (simp add: remove_root_ok rescue_ok)
  then show ?case by (simp add: goal_clear_def goal_ok_def goal_is_active_def goal_dir_def)
next
  case (stall t fp)
  then show ?case
    by (auto simp: record_classifier_stall_def Let_def goal_is_active_def goal_ok_def [of t] typed_def intro!: goal_okI [OF stall]
        split: option.splits)
next
  case (streak t)
  then show ?case
    by (auto simp: record_not_achieved_streak_def Let_def goal_is_active_def goal_ok_def [of t] typed_def intro!: goal_okI [OF streak]
        split: option.splits)
next
  case (fire t f)
  then show ?case
    by (auto simp: claim_strategist_fire_def goal_is_active_def goal_ok_def [of t] typed_def intro!: goal_okI [OF fire] split: option.splits)
qed (auto simp: goal_complete_def goal_budget_limit_def set_phase_def set_current_subagent_def update_live_progress_def
       rollback_classifier_attempt_def reset_classifier_stall_def revoke_strategist_cap_bonus_def reset_strategist_state_def
       record_strategy_recommendation_def reset_strategist_fields_def reset_classifier_stall_fields_def
       intro: create_goal_ok goal_end_ok record_event_ok goal_tokens_ok from_snapshot_goal_ok intro!: with_orch_ok)

lemma goal_ok_new: "goal_ok (goal_tracker_new dir)"
  by (simp add: goal_ok_def goal_tracker_new_def goal_is_active_def)

interpretation goal: invariant_system "\<lambda>t. \<exists>dir. t = goal_tracker_new dir" goal_step goal_ok
  by unfold_locales (auto intro: goal_ok_new goal_step_ok)

section \<open>Token accounting\<close>

definition marginal_sum :: "subagent_token_record list \<Rightarrow> int" where
  "marginal_sum rs = sum_list (map (\<lambda>r. uint (marginal r)) rs)"

lemma marginal_sum_simps [simp]:
  "marginal_sum [] = 0" "marginal_sum (r # rs) = uint (marginal r) + marginal_sum rs" "0 \<le> marginal_sum rs"
  by (induction rs) (simp_all add: marginal_sum_def)

text \<open>Saturation at every step is saturation of the sum.\<close>

lemma fold_marginals_sum:
  assumes "0 \<le> a" "0 \<le> b"
  shows "fold_marginals (min i64_max a, min i64_max b) rs =
    (min i64_max (a + marginal_sum rs), min i64_max (b + marginal_sum (filter str_finished rs)))"
  using assms
proof (induction rs arbitrary: a b)
  case (Cons r rs)
  have m: "0 \<le> uint (marginal r)" by simp
  have add: "sat_add_i64 (min i64_max c) (marginal_i64 r) = min i64_max (c + uint (marginal r))" if "0 \<le> c" for c
  proof -
    have "0 \<le> i64_max" "i64_min \<le> 0" by (simp_all add: i64_max_def i64_min_def)
    moreover have "marginal_i64 r = min i64_max (uint (marginal r))" by (simp add: marginal_i64_def)
    ultimately show ?thesis using that m unfolding sat_add_i64_def by linarith
  qed
  show ?case
    using Cons.IH [of "a + uint (marginal r)" "b + uint (marginal r)"] Cons.IH [of "a + uint (marginal r)" b] Cons.prems m
    by (cases "str_finished r") (simp_all add: add add.assoc)
qed simp

lemma fold_marginals_zero: "fold_marginals (0, 0) rs = (min i64_max (marginal_sum rs), min i64_max (marginal_sum (filter str_finished rs)))"
  using fold_marginals_sum [of 0 0 rs] by (simp add: i64_max_def)

lemma marginal_sum_mset: "mset rs = mset rs' \<Longrightarrow> marginal_sum (filter P rs) = marginal_sum (filter P rs')"
proof -
  assume "mset rs = mset rs'"
  then have "mset (map (\<lambda>r. uint (marginal r)) (filter P rs)) = mset (map (\<lambda>r. uint (marginal r)) (filter P rs'))" by simp
  then show ?thesis unfolding marginal_sum_def by (metis sum_mset_sum_list)
qed

end
