(* ===== verification/Graph_Demo.thy ===== *)
theory Graph_Demo
  imports Graph_Reach Graph_Workers
begin

text \<open>
  A concrete run of a graph, for the witnesses of the properties: a plan of two nodes, the second
  depending on the first, is validated, installed and executed step by step, once to completion
  and once with the first node failing.
\<close>

definition demo_plan :: "planned_node list" where
  "demo_plan =
     [\<lparr>p_id = ''b'', p_title = ''B'', p_spec = ''do b'', p_deps = [''a''], p_discovered_from = []\<rparr>,
      \<lparr>p_id = ''a'', p_title = ''A'', p_spec = ''do a'', p_deps = [], p_discovered_from = []\<rparr>]"

definition demo_from_str :: "string \<Rightarrow> string + planned_node list" where
  "demo_from_str s = Inr demo_plan"

definition demo_clock :: clock where
  "demo_clock = \<lparr>rfc = (\<lambda>_. ''t''), inst = 0\<rparr>"

definition id_a :: string where
  "id_a = ''gn-e40c292c''"

definition id_b :: string where
  "id_b = ''gn-e70c2de5''"

definition demo_node :: "string \<Rightarrow> string \<Rightarrow> string \<Rightarrow> string list \<Rightarrow> node_status \<Rightarrow> graph_node" where
  "demo_node i ti sp ds st =
     \<lparr>n_id = i, n_title = ti, n_spec = sp, n_deps = map blocks_dep ds, n_status = st,
      n_goal_id = None, n_rounds = 0, n_tokens_used = 0, n_failure = None\<rparr>"

definition demo_nodes :: "graph_node list" where
  "demo_nodes = (let ns = [demo_node id_a ''A'' ''do a'' [] Waiting, demo_node id_b ''B'' ''do b'' [id_a] Waiting]
     in ns @ [final_verification_node ''obj'' ns])"

definition demo_created :: graph_tracker where
  "demo_created = create_graph demo_clock ''g1'' ''obj'' (Some 1000) ''t0'' (graph_tracker_new ''/s'')"

definition demo_installed :: graph_tracker where
  "demo_installed = install_nodes demo_clock demo_nodes demo_created"

definition demo_running :: graph_tracker where
  "demo_running = mark_node_running demo_clock id_a ''goal-1'' demo_installed"

definition demo_failed :: graph_tracker where
  "demo_failed = mark_node_failed demo_clock id_a ''gave up'' demo_running"

definition demo_half :: graph_tracker where
  "demo_half = mark_node_achieved demo_clock id_a 1 10 demo_running"

definition demo_almost :: graph_tracker where
  "demo_almost = mark_node_achieved demo_clock id_b 1 10 (mark_node_running demo_clock id_b ''goal-2'' demo_half)"

definition demo_final_running :: graph_tracker where
  "demo_final_running = mark_node_running demo_clock FINAL_NODE_ID ''goal-3'' demo_almost"

definition demo_done :: graph_tracker where
  "demo_done = mark_node_achieved demo_clock FINAL_NODE_ID 1 10 demo_final_running"

definition demo_completed :: graph_tracker where
  "demo_completed = snd (graph_complete demo_clock demo_done)"

lemmas demo_run_defs = demo_created_def demo_installed_def demo_running_def demo_failed_def demo_half_def
  demo_almost_def demo_final_running_def demo_done_def demo_completed_def

section \<open>The plan is valid\<close>

lemma fnv_demo: "fnv1a32 ''a'' = 0xe40c292c" "fnv1a32 ''b'' = 0xe70c2de5"
  by (simp_all add: fnv1a32_def of_char_def)

lemma demo_ids: "node_id_for_slug ''a'' = id_a" "node_id_for_slug ''b'' = id_b"
  by (simp_all add: node_id_for_slug_def fnv1a32_hex_def fnv_demo hex_digit_def upt_rec char_of_def bit_0 id_a_def id_b_def)

lemma demo_order: "stable_topo_order (map dedup_deps demo_plan) = Inr [1, 0]"
  by (simp add: demo_plan_def) code_simp

lemma demo_checks:
  "check_nodes (\<lambda>_. None) [] (map dedup_deps demo_plan) = None"
  "check_all (\<lambda>p. check_all (dep_error (map p_id (map dedup_deps demo_plan)) p) (p_deps p)) (map dedup_deps demo_plan) = None"
  by code_simp+

lemma demo_trims: "trim ''A'' = ''A''" "trim ''B'' = ''B''" "trim ''do a'' = ''do a''" "trim ''do b'' = ''do b''"
  by code_simp+

lemma demo_ids_neq [simp]: "id_a \<noteq> id_b" "id_b \<noteq> id_a" "id_a \<noteq> FINAL_NODE_ID" "id_b \<noteq> FINAL_NODE_ID"
  "FINAL_NODE_ID \<noteq> id_a" "FINAL_NODE_ID \<noteq> id_b"
  by (simp_all add: id_a_def id_b_def FINAL_NODE_ID_def)

lemma demo_plan_checks:
  "plan_checks (map dedup_deps demo_plan) = Inr ([1, 0], [(''b'', id_b), (''a'', id_a)])"
proof -
  have "canonical_ids [] [] (map dedup_deps demo_plan) = Inr [(''b'', id_b), (''a'', id_a)]"
    by (simp add: demo_plan_def demo_ids ebind_def Let_def)
  then show ?thesis
    unfolding plan_checks_def demo_checks demo_order
    by (simp add: ebind_def) (simp add: demo_plan_def MAX_GRAPH_NODES_def)
qed

lemma demo_plan_valid: "parse_and_validate demo_from_str json ''obj'' = Some (Inr demo_nodes)"
  unfolding parse_and_validate_def demo_from_str_def
  by (simp add: demo_plan_checks Let_def)
     (simp add: demo_plan_def dedup_deps_def demo_trims Let_def canonical_node_def
        fresh_node_def demo_nodes_def demo_node_def)

section \<open>The run\<close>

definition statuses :: "graph_tracker \<Rightarrow> (string \<times> node_status) list" where
  "statuses t = map (\<lambda>n. (n_id n, n_status n)) (nodes_of t)"

lemma node_st_statuses: "node_st i t = map_of (statuses t) i"
proof -
  have "st_of ns i = map_of (map (\<lambda>n. (n_id n, n_status n)) ns) i" for ns
    by (induction ns) (auto simp: st_of_def)
  then show ?thesis by (auto simp: node_st_def statuses_def nodes_of_def split: option.splits)
qed

lemmas demo_eval = nodes_of_def statuses_def create_graph_def install_nodes_def recompute_ready_def push_history_def
  promote_ready_def promote_def deps_achieved_def achieved_ids_def blocks_on_def mark_node_running_def
  mark_node_achieved_def mark_node_failed_def graph_complete_def account_elapsed_def demo_nodes_def demo_node_def
  final_verification_node_def blocks_dep_def Let_def graph_tracker_new_def is_active_def graph_status_def
  all_achieved_def demo_clock_def

lemma demo_created_state: "nodes_of demo_created = []" "is_active demo_created"
  by (simp_all add: demo_created_def demo_eval)

lemma demo_statuses:
  "statuses demo_installed = [(id_a, Ready), (id_b, Waiting), (FINAL_NODE_ID, Waiting)]"
  "statuses demo_running = [(id_a, Running), (id_b, Waiting), (FINAL_NODE_ID, Waiting)]"
  "statuses demo_half = [(id_a, Achieved), (id_b, Ready), (FINAL_NODE_ID, Waiting)]"
  "statuses demo_almost = [(id_a, Achieved), (id_b, Achieved), (FINAL_NODE_ID, Ready)]"
  "statuses demo_final_running = [(id_a, Achieved), (id_b, Achieved), (FINAL_NODE_ID, Running)]"
  "statuses demo_done = [(id_a, Achieved), (id_b, Achieved), (FINAL_NODE_ID, Achieved)]"
  "statuses demo_completed = [(id_a, Achieved), (id_b, Achieved), (FINAL_NODE_ID, Achieved)]"
  by (simp_all add: demo_run_defs demo_eval)

lemma demo_active:
  "is_active demo_installed" "is_active demo_running" "is_active demo_half" "is_active demo_almost"
  "is_active demo_final_running" "is_active demo_done" "all_achieved demo_done"
  by (simp_all add: demo_run_defs demo_eval)

lemma demo_failed_statuses:
  "statuses demo_failed = [(id_a, Failed), (id_b, NodeBlocked), (FINAL_NODE_ID, NodeBlocked)]"
  by (simp add: demo_run_defs demo_eval block_dependents_def block_loop.simps is_terminal_def)

lemma demo_created_reach: "graph_reach demo_created"
  unfolding demo_created_def
  by (rule graph_reach.step [OF graph_reach.start graph_step.create]) (simp add: graph_tracker_new_def graph_status_def)

lemma demo_installed_reach: "graph_reach demo_installed"
  unfolding demo_installed_def
  by (rule graph_reach.step [OF demo_created_reach graph_step.install [OF demo_created_state demo_plan_valid]])

lemma demo_running_reach: "graph_reach demo_running"
  unfolding demo_running_def
  by (rule graph_reach.step [OF demo_installed_reach graph_step.run])
     (simp_all add: demo_active node_st_statuses demo_statuses)

lemma demo_failed_reach: "graph_reach demo_failed"
  unfolding demo_failed_def
  by (rule graph_reach.step [OF demo_running_reach graph_step.fail [of _ _ Running]])
     (simp_all add: node_st_statuses demo_statuses in_flight_def)

lemma demo_half_reach: "graph_reach demo_half"
  unfolding demo_half_def
  by (rule graph_reach.step [OF demo_running_reach graph_step.achieve [of _ _ Running]])
     (simp_all add: node_st_statuses demo_statuses in_flight_def)

lemma demo_almost_reach: "graph_reach demo_almost"
  unfolding demo_almost_def
proof (rule graph_reach.step [OF graph_reach.step [OF demo_half_reach] graph_step.achieve [of _ _ Running]])
  show "graph_step demo_half (mark_node_running demo_clock id_b ''goal-2'' demo_half)"
    by (rule graph_step.run) (simp_all add: demo_active node_st_statuses demo_statuses)
  show "node_st id_b (mark_node_running demo_clock id_b ''goal-2'' demo_half) = Some Running"
    unfolding node_st_statuses by (simp add: demo_run_defs demo_eval)
qed (simp add: in_flight_def)

lemma demo_done_reach: "graph_reach demo_final_running" "graph_reach demo_done"
proof -
  show *: "graph_reach demo_final_running"
    unfolding demo_final_running_def
    by (rule graph_reach.step [OF demo_almost_reach graph_step.run])
       (simp_all add: demo_active node_st_statuses demo_statuses)
  show "graph_reach demo_done"
    unfolding demo_done_def
    by (rule graph_reach.step [OF * graph_step.achieve [of _ _ Running]])
       (simp_all add: node_st_statuses demo_statuses in_flight_def)
qed

lemma demo_completed_reach: "graph_reach demo_completed"
  unfolding demo_completed_def
  by (rule graph_reach.step [OF demo_done_reach(2) graph_step.complete [OF demo_active(7)]])

section \<open>Nodes of the run, for the witnesses\<close>

lemma demo_final_ready: "\<exists>n \<in> set (nodes_of demo_almost). n_status n = Ready \<and> id_a \<in> set (blocks_on n)"
  by (simp add: demo_run_defs demo_eval) force

lemma demo_running_b:
  "\<exists>n \<in> set (nodes_of demo_running). n_id n = id_b \<and> id_a \<in> set (blocks_on n) \<and> n_status n = Waiting"
  by (simp add: demo_run_defs demo_eval) force

lemma statuses_set: "n_status ` set (nodes_of t) = snd ` set (statuses t)" "n_id ` set (nodes_of t) = fst ` set (statuses t)"
  by (simp_all add: statuses_def image_image)

section \<open>A replan of the half-finished run\<close>

definition id_c :: string where
  "id_c = ''gn-e60c2c52''"

definition demo_appendix :: "string \<Rightarrow> string + planned_node list" where
  "demo_appendix s = Inr [\<lparr>p_id = ''c'', p_title = ''C'', p_spec = ''do c'', p_deps = [id_b], p_discovered_from = [id_a]\<rparr>]"

definition demo_extra :: graph_node where
  "demo_extra = (demo_node id_c ''C'' ''do c'' [] Waiting)
     \<lparr>n_deps := [\<lparr>dep_on = id_b, dep_kind = Blocks\<rparr>, \<lparr>dep_on = id_a, dep_kind = DiscoveredFrom\<rparr>]\<rparr>"

lemma id_c: "node_id_for_slug ''c'' = id_c"
proof -
  have "fnv1a32 ''c'' = 0xe60c2c52" by (simp add: fnv1a32_def of_char_def)
  then show ?thesis
    by (simp add: node_id_for_slug_def fnv1a32_hex_def hex_digit_def upt_rec char_of_def bit_0 id_c_def)
qed

lemma id_c_neq [simp]: "id_c \<noteq> id_a" "id_c \<noteq> id_b" "id_c \<noteq> FINAL_NODE_ID" "id_a \<noteq> id_c" "id_b \<noteq> id_c" "FINAL_NODE_ID \<noteq> id_c"
  by (simp_all add: id_a_def id_b_def id_c_def FINAL_NODE_ID_def)

lemma id_b_neq_c: "id_b \<noteq> ''c''"
  by (simp add: id_b_def)

lemma demo_half_shape:
  "node_ids (nodes_of demo_half) = [id_a, id_b, FINAL_NODE_ID]" "dead_ids (nodes_of demo_half) = []"
  "existing_edges (nodes_of demo_half) = [(id_a, id_b), (id_a, FINAL_NODE_ID), (id_b, FINAL_NODE_ID)]"
  "length (nodes_of demo_half) = 3"
  by (simp_all add: demo_run_defs demo_eval dead_ids_def existing_edges_def)

lemma demo_combined:
  "combined_acyclic [id_a, id_b, FINAL_NODE_ID, id_c]
     [(id_a, id_b), (id_a, FINAL_NODE_ID), (id_b, FINAL_NODE_ID), (id_b, id_c)] = Some None"
  by code_simp

lemma demo_c_text: "valid_slug ''c''" "trim ''C'' = ''C''" "trim ''do c'' = ''do c''"
  by code_simp+

lemma demo_replan_valid: "validate_replan demo_appendix (nodes_of demo_half) json = Some (Inr [demo_extra])"
  unfolding validate_replan_def demo_appendix_def replan_checks_def demo_half_shape
  by (simp add: dedup_deps_def slug_error_def demo_c_text id_b_neq_c replan_extra_def origin_error_def ebind_def Let_def id_c
        demo_half_shape replan_dep_error_def resolve_def MAX_GRAPH_NODES_def appendix_edges_def demo_combined
        replan_node_def fresh_node_def blocks_dep_def demo_extra_def demo_node_def)

section \<open>An optimization of the running graph\<close>

definition demo_optimized :: "graph_node list" where
  "demo_optimized = derive_statuses (rebuild_gate ((nodes_of demo_running)[1 := (nodes_of demo_running ! 1)\<lparr>n_deps := []\<rparr>]))"

lemma demo_running_nodes:
  "nodes_of demo_running =
     [(demo_node id_a ''A'' ''do a'' [] Running)\<lparr>n_goal_id := Some ''goal-1''\<rparr>, demo_node id_b ''B'' ''do b'' [id_a] Waiting,
      (final_verification_node ''obj'' [])\<lparr>n_deps := [blocks_dep id_a, blocks_dep id_b]\<rparr>]"
  by (simp add: demo_run_defs demo_eval)

lemma demo_optimized_nodes:
  "demo_optimized =
     [(demo_node id_a ''A'' ''do a'' [] Running)\<lparr>n_goal_id := Some ''goal-1''\<rparr>, demo_node id_b ''B'' ''do b'' [] Ready,
      (final_verification_node ''obj'' [])\<lparr>n_deps := [blocks_dep id_a, blocks_dep id_b]\<rparr>]"
  by (simp add: demo_optimized_def demo_running_nodes derive_statuses_def derive_status_def rebuild_gate_def demo_node_def
        final_verification_node_def blocks_dep_def deps_achieved_def blocks_on_def achieved_ids_def is_pending_def Let_def)

lemma demo_keyed: "keyed_nodes demo_optimized = [(id_a, []), (id_b, []), (FINAL_NODE_ID, [id_a, id_b])]"
  by (simp add: demo_optimized_nodes keyed_nodes_def dep_ids_def demo_node_def final_verification_node_def blocks_dep_def)

lemma demo_optimized_kahn:
  "kahn_loop (keyed_relax [(id_a, []), (id_b, []), (FINAL_NODE_ID, [id_a, id_b])]) 3
     (counted_indeg [(id_a, []), (id_b, []), (FINAL_NODE_ID, [id_a, id_b])]) (replicate 3 False) [] = Inr [0, 1, 2]"
  by code_simp

lemma demo_optimized_acyclic: "optimized_acyclic demo_optimized = None"
proof -
  have "check_all (dangling_error demo_optimized) demo_optimized = None"
    by (simp add: dangling_error_def demo_optimized_nodes dep_ids_def demo_node_def final_verification_node_def blocks_dep_def)
  moreover have "length demo_optimized = 3" by (simp add: demo_optimized_nodes)
  ultimately show ?thesis by (simp add: optimized_acyclic_def Let_def demo_keyed demo_optimized_kahn)
qed

lemma demo_optimize_valid:
  "apply_optimization (\<lambda>_. Inr [RemoveDep id_b id_a]) (nodes_of demo_running) ''x'' = Inr (Some demo_optimized)"
proof -
  have "op_remove_dep id_b id_a (nodes_of demo_running) = Inr ((nodes_of demo_running)[1 := (nodes_of demo_running ! 1)\<lparr>n_deps := []\<rparr>])"
    by (simp add: demo_running_nodes op_remove_dep_def find_node_def pending_or_err_def ebind_def demo_node_def
          is_pending_def Let_def blocks_dep_def)
  moreover have "check_all (immutable_error demo_optimized) (nodes_of demo_running) = None"
    by (simp add: demo_running_nodes demo_optimized_nodes immutable_error_def demo_node_def is_pending_def final_verification_node_def)
  moreover have "length demo_optimized = 3" by (simp add: demo_optimized_nodes)
  ultimately show ?thesis
    unfolding apply_optimization_def
    by (simp add: ebind_def Let_def demo_optimized_def [symmetric, simplified] demo_optimized_acyclic MAX_GRAPH_NODES_def)
qed

lemma demo_reorder: "op_reorder [id_b, id_a] (take 2 demo_nodes) = Inr (rev (take 2 demo_nodes))"
  by (simp add: demo_nodes_def demo_node_def Let_def numeral_2_eq_2 op_reorder_def find_node_def pending_or_err_def ebind_def
        is_pending_def map_filter_def)

section \<open>A budget stop\<close>

definition demo_limited :: graph_tracker where
  "demo_limited = snd (graph_budget_limit demo_clock demo_half)"

lemma demo_limited_state:
  "\<exists>s. t_state demo_limited = Some s \<and> g_status s = BudgetLimited \<and> g_tokens_spent_nodes s = 10"
  by (simp add: demo_limited_def graph_budget_limit_def demo_run_defs demo_eval sat_add_i64_def i64_bounds)

section \<open>A worker run\<close>

text \<open>A spawner whose workers claim to be done and whose verifiers agree.\<close>

definition demo_env :: worker_env where
  "demo_env = \<lparr>we_worker_template = ''W'', we_verifier_template = ''V'', we_dbg = (\<lambda>s. s), we_fresh = (\<lambda>_. ''u''),
     we_spawn = (\<lambda>i sp. Inr \<lparr>so_success = True, so_cancelled = False, so_backgrounded = False,
       so_output = (if sp_isolation_worktree sp then ''NODE_RESULT: done'' else ''NODE_VERDICT: achieved''),
       so_error = None, so_child_session_id = ''c'', so_tokens_used = 5, so_worktree_path = Some ''/w''\<rparr>)\<rparr>"

lemma demo_claim: "parse_worker_claim ''NODE_RESULT: done'' = Done []" "parse_node_verdict dbg ''NODE_VERDICT: achieved'' = VerdictAchieved"
  "parse_discovered_lines ''NODE_RESULT: done'' = []" "parse_discovered_lines ''NODE_VERDICT: achieved'' = []"
  by (code_simp, simp add: parse_node_verdict_def, code_simp+)

lemma demo_two: "unat (2 :: u32) = Suc (Suc 0)"
  by simp

lemma demo_verdict:
  "nr_achieved (fst (run_node_to_verdict demo_env ''n'' ''o'' 2))" "nr_rounds (fst (run_node_to_verdict demo_env ''n'' ''o'' 2)) = 1"
  unfolding run_node_to_verdict_def demo_two
  by (simp_all add: run_round_def Let_def demo_env_def run_start_def absorb_def demo_claim
        judge_claim_def report_def)

definition demo_fenced :: string where
  "demo_fenced = ''no verdict'' @ [nl] @ [backtick, backtick, backtick] @ [nl] @ ''NODE_VERDICT: achieved'' @ [nl] @
     [backtick, backtick, backtick]"

lemma demo_fenced_lines:
  "lines demo_fenced = [''no verdict''] @ [backtick, backtick, backtick] # [''NODE_VERDICT: achieved''] @ [backtick, backtick, backtick] # []"
  "lines ''no verdict'' = [''no verdict''] @ []"
  "\<forall>l \<in> set [''no verdict''] \<union> set [''NODE_VERDICT: achieved'']. \<not> is_fence l"
  "is_fence [backtick, backtick, backtick]" "is_fence [backtick, backtick, backtick]"
  by code_simp+

end
