(* ===== verification/Session_Demo.thy ===== *)
theory Session_Demo
  imports Session_Facts Goal_Inv Graph_Demo
begin

text \<open>
  A concrete world and sessions in it, for the witnesses: a project directory, an encoder that
  knows the graph of \<open>Graph_Demo\<close>, a planner that answers with its plan, and file operations
  that succeed.
\<close>

section \<open>An encoder\<close>

text \<open>An encoder that decodes whatever it encodes is sound.\<close>

lemma serde_exact_sound:
  assumes "\<And>h l. sd_header_to sd h = Inr l \<Longrightarrow> one_line l \<and> sd_header_from sd l = Inr h"
    and "\<And>n l. sd_node_to sd n = Inr l \<Longrightarrow> one_line l \<and> sd_node_from sd l = Inr n"
  shows "serde_sound sd"
  unfolding serde_sound_def
proof (intro allI impI)
  fix st out dir st'
  assume p: "project_text sd st = Inr out" and l: "load sd dir (Inr (Some out)) = Inr (Some st')"
  have n: "\<forall>n \<in> set ns. \<exists>l. sd_node_to sd n = Inr l" if "encode_nodes sd ns = Inr b" for ns b
    using that by (induction ns arbitrary: b) (auto simp: ebind_def split: sum.splits)
  obtain h b where "sd_header_to sd (st\<lparr>g_nodes := []\<rparr>) = Inr h" "encode_nodes sd (g_nodes st) = Inr b"
    using p by (auto simp: project_text_def ebind_def split: sum.splits)
  then have "serde_faithful sd st" using assms n unfolding serde_faithful_def by (meson)
  then show "st' = st" using load_project_text [of sd st dir] p l by auto
qed

definition demo_state :: graph_orchestration where
  "demo_state = (case t_state demo_installed of Some st \<Rightarrow> st | None \<Rightarrow> undefined)"

lemma demo_installed_state: "t_state demo_installed = Some demo_state"
  by (simp add: demo_state_def demo_run_defs demo_eval)

lemma demo_state_nodes: "g_nodes demo_state =
    [demo_node id_a ''A'' ''do a'' [] Ready, demo_node id_b ''B'' ''do b'' [id_a] Waiting,
     (final_verification_node ''obj'' [])\<lparr>n_deps := [blocks_dep id_a, blocks_dep id_b]\<rparr>]"
  by (simp add: demo_state_def demo_run_defs demo_eval)

definition demo_serde :: graph_serde where
  "demo_serde =
     \<lparr>sd_header_to = (\<lambda>h. if h = demo_state\<lparr>g_nodes := []\<rparr> then Inr ''h'' else Inl ''header''),
      sd_header_from = (\<lambda>l. if l = ''h'' then Inr (demo_state\<lparr>g_nodes := []\<rparr>) else Inl ''header''),
      sd_node_to = (\<lambda>n. if n = g_nodes demo_state ! 0 then Inr ''a'' else if n = g_nodes demo_state ! 1 then Inr ''b''
         else if n = g_nodes demo_state ! 2 then Inr ''f'' else Inl ''node''),
      sd_node_from = (\<lambda>l. if l = ''a'' then Inr (g_nodes demo_state ! 0) else if l = ''b'' then Inr (g_nodes demo_state ! 1)
         else if l = ''f'' then Inr (g_nodes demo_state ! 2) else Inl ''node'')\<rparr>"

lemma demo_one_line: "one_line ''h''" "one_line ''a''" "one_line ''b''" "one_line ''f''"
  by code_simp+

lemma demo_serde_sound: "serde_sound demo_serde"
  by (rule serde_exact_sound) (auto simp: demo_serde_def demo_one_line split: if_splits)

lemma demo_nodes_neq: "g_nodes demo_state ! 1 \<noteq> g_nodes demo_state ! 0" "g_nodes demo_state ! 2 \<noteq> g_nodes demo_state ! 0"
  "g_nodes demo_state ! 2 \<noteq> g_nodes demo_state ! 1"
  by (simp_all add: demo_state_nodes demo_node_def final_verification_node_def numeral_2_eq_2)

lemma demo_serde_faithful: "serde_faithful demo_serde demo_state"
proof -
  have "set (g_nodes demo_state) = {g_nodes demo_state ! 0, g_nodes demo_state ! 1, g_nodes demo_state ! 2}"
    by (simp add: demo_state_nodes numeral_2_eq_2)
  then show ?thesis
    unfolding serde_faithful_def using demo_nodes_neq by (auto simp: demo_serde_def demo_one_line)
qed

section \<open>A world\<close>

definition demo_pass :: pass_env where
  "demo_pass = \<lparr>pv_dbg = id, pv_planner_template = ''P'', pv_replanner_template = ''R'', pv_optimizer_template = ''O'',
     pv_apply = id, pv_apply_inherit = id, pv_plan_from_str = demo_from_str, pv_ops_from_str = (\<lambda>_. Inr []),
     pv_nodes_empty = (\<lambda>_. False)\<rparr>"

definition demo_io :: pass_io where
  "demo_io = \<lparr>io_mkdir = None, io_rm = RmOk, io_spawn = (\<lambda>_ _. Inr ''done''), io_meta = Some (True, 10), io_read = Inr ''json''\<rparr>"

definition demo_host :: goal_host where
  "demo_host = \<lparr>h_temp_dir = ''/tmp'', h_fresh_id = ''0123456789ab'', h_ensure_root_ok = True, h_create_dir_ok = True,
     h_root_owned = True, h_move_ok = True\<rparr>"

definition demo_world :: world where
  "demo_world = \<lparr>cf_graph_enabled = True, cf_goal_harness = True, cf_goal_planner = False, cf_concurrency = 1, cf_node_rounds = 2,
     cf_replan_cap = 2, cf_optimizer = False, cf_project_dir = Some ''/p/.kigi'', cf_session_dir = ''/s'', cf_coordinator = True,
     cf_serde = demo_serde, cf_pass = demo_pass, w_clock = (\<lambda>_. demo_clock), w_host = (\<lambda>_. demo_host), w_uuid = (\<lambda>_. ''g1''),
     w_tokens = (\<lambda>_. 100), w_last_text = (\<lambda>_. None), w_commit = (\<lambda>_. None), w_goal_plan = (\<lambda>_. GoalPlanFailed),
     w_copy_ok = (\<lambda>_. True), w_is_file = (\<lambda>_ _. False), w_rules = (\<lambda>_ _ _ _ _ _. ''rules''), w_elapsed = (\<lambda>_. ''0s''),
     w_compact = (\<lambda>_. ''[]''), w_compact_spec = (\<lambda>_. ''[]''), w_pass = (\<lambda>_. demo_io), w_baseline_err = (\<lambda>_. None),
     w_baseline_write_err = (\<lambda>_. None), w_exists_err = ''exists'', w_lock = (\<lambda>_. \<lparr>lk_mkdir = None, lk_open = None, lk_flock = FlockOk\<rparr>),
     w_write = (\<lambda>_. \<lparr>wr_mkdir = None, wr_create = None, wr_write = None, wr_sync = None, wr_replace = None\<rparr>),
     w_rm_err = (\<lambda>_. None), w_read_err = (\<lambda>_. None), w_git_root = (\<lambda>_. False), w_head = (\<lambda>_. None),
     w_apply = (\<lambda>_ _. ApplySuccess), w_workers = (\<lambda>_. demo_env)\<rparr>"

definition demo_session :: session where
  "demo_session = \<lparr>ss_graph = graph_tracker_new ''/s'', ss_goal = goal_tracker_new ''/s'', ss_lock = False, ss_file = None,
     ss_baselines = [], ss_records = [], ss_continuation_streak = 0, ss_blocked_streak = 0, ss_in_flight = False, ss_task_ids = [],
     ss_pending_claims = [], ss_loop_gate = False, ss_log = [], ss_tick = 0, ss_panicked = False\<rparr>"

lemma demo_start: "session_start demo_world demo_session"
  by (simp add: session_start_def demo_session_def demo_world_def demo_serde_sound file_ok_def load_def)

lemma demo_session_inv: "sess_inv demo_world demo_session"
  by (rule start_inv [OF demo_start])

lemma demo_installed_track: "track_inv co demo_installed"
proof -
  have "track_inv co demo_created"
    unfolding demo_created_def by (rule track_inv_create [OF track_inv_new]) (simp add: graph_tracker_new_def graph_status_def)
  then show ?thesis
    unfolding demo_installed_def by (rule track_inv_install [OF _ demo_created_state demo_plan_valid])
qed

lemma demo_running_track: "track_inv co demo_running"
  unfolding demo_running_def
  by (rule track_inv_run [OF demo_installed_track demo_active(1)]) (simp_all add: node_st_statuses demo_statuses)

text \<open>A session that has just saved a given graph, with a given goal.\<close>

definition demo_saved :: "graph_tracker \<Rightarrow> goal_tracker \<Rightarrow> session" where
  "demo_saved t g = persist_graph_state demo_world (demo_session\<lparr>ss_graph := t, ss_goal := g, ss_lock := True\<rparr>)"

lemma demo_saved_inv: "track_inv True t \<Longrightarrow> sess_inv demo_world (demo_saved t g)"
proof -
  assume t: "track_inv True t"
  have "pre_inv demo_world (demo_session\<lparr>ss_graph := t, ss_goal := g, ss_lock := True\<rparr>)"
    using sess_invD(2) [OF demo_session_inv] by (simp add: pre_inv_def checkpoints_def)
  moreover have "cf_coordinator demo_world" by (simp add: demo_world_def)
  ultimately show ?thesis
    unfolding demo_saved_def using persist_inv sess_invD(1) [OF demo_session_inv] t by simp
qed

lemma demo_saved_frame [simp]: "ss_graph (demo_saved t g) = t" "ss_goal (demo_saved t g) = g" "ss_lock (demo_saved t g)"
  by (simp_all add: demo_saved_def)

text \<open>The session once the plan is installed and before a node runs.\<close>

definition demo_planned :: session where
  "demo_planned = demo_saved demo_installed (goal_tracker_new ''/s'')"

lemma demo_planned_inv: "sess_inv demo_world demo_planned"
  unfolding demo_planned_def by (rule demo_saved_inv [OF demo_installed_track])

lemma demo_fuel: "drive_fuel demo_world = 79"
  by (simp add: drive_fuel_def demo_world_def MAX_GRAPH_NODES_def)

section \<open>Two ready nodes\<close>

definition demo_wide :: graph_tracker where
  "demo_wide = snd (graph_resume demo_clock (from_snapshot ''/s''
     (the (t_state (install_optimized_nodes demo_clock demo_optimized demo_running)))))"

lemma demo_wide_track: "track_inv True demo_wide"
proof -
  let ?t = "install_optimized_nodes demo_clock demo_optimized demo_running"
  have ne: "nodes_of demo_running \<noteq> []" by (simp add: demo_run_defs demo_eval)
  have t: "track_inv True ?t" by (rule track_inv_optimize [OF demo_running_track demo_active(2) ne demo_optimize_valid])
  obtain st where st: "t_state ?t = Some st"
    by (simp add: install_optimized_nodes_def recompute_ready_def demo_run_defs demo_eval)
  show ?thesis
    unfolding demo_wide_def st option.sel by (rule track_inv_resume [OF track_inv_from_snapshot [OF track_inv_snap [OF t st]]])
qed

lemma demo_wide_state: "is_active demo_wide" "node_st id_a demo_wide = Some Ready" "node_st id_b demo_wide = Some Ready"
proof -
  let ?t = "install_optimized_nodes demo_clock demo_optimized demo_running"
  obtain st where st: "t_state ?t = Some st"
    by (simp add: install_optimized_nodes_def recompute_ready_def demo_run_defs demo_eval)
  have "promote_ready demo_optimized = demo_optimized"
    by (simp add: demo_optimized_nodes demo_node_def final_verification_node_def promote_ready_def promote_def deps_achieved_def
          blocks_on_def blocks_dep_def achieved_ids_def)
  moreover have "graph_status demo_running = Some Active" "t_state demo_running \<noteq> None"
    using demo_active(2) by (auto simp: is_active_def graph_status_def)
  ultimately have "graph_status ?t = Some Active" "nodes_of ?t = demo_optimized" by (simp_all del: not_None_eq)
  then have a: "g_status st = Active" "g_nodes st = demo_optimized" using st by (simp_all add: graph_status_def nodes_of_def)
  have w: "demo_wide = snd (graph_resume demo_clock (from_snapshot ''/s'' st))" by (simp add: demo_wide_def st)
  have p: "graph_status (from_snapshot ''/s'' st) = Some UserPaused"
    using a(1) by (simp add: from_snapshot_def Let_def recompute_ready_def graph_status_def)
  then show "is_active demo_wide" by (simp add: w is_active_def view_resume)
  let ?ns = "promote_ready (map demote_in_flight demo_optimized)"
  have n: "nodes_of (from_snapshot ''/s'' st) = ?ns"
    using a(2) by (simp add: from_snapshot_def Let_def recompute_ready_def nodes_of_def)
  have "st_of ns i = Some Ready \<Longrightarrow> st_of (promote_ready ns) i = Some Ready" for ns i
    unfolding promote_ready_def by (subst st_of_map_eq) (auto simp: st_of_Some_find promote_def)
  moreover have "st_of ?ns id_a = Some Ready" "st_of ?ns id_b = Some Ready"
    by (simp_all add: demo_optimized_nodes demo_node_def promote_ready_def promote_def demote_in_flight_def st_of_def)
  ultimately show "node_st id_a demo_wide = Some Ready" "node_st id_b demo_wide = Some Ready"
    using view_resume(1) [of demo_clock "from_snapshot ''/s'' st"] n by (auto simp: w node_st_nodes)
qed

section \<open>A node left behind by a completed goal\<close>

definition demo_goal :: goal_tracker where
  "demo_goal = create_goal demo_host demo_clock ''goal-1'' ''do a'' None 0 ''t'' None (goal_tracker_new ''/s'')"

definition demo_stranded :: session where
  "demo_stranded = demo_saved (snd (graph_pause_inner demo_clock User None demo_running)) (snd (goal_complete demo_host demo_clock demo_goal))"

lemma demo_stranded_inv: "sess_inv demo_world demo_stranded"
  unfolding demo_stranded_def by (rule demo_saved_inv [OF track_inv_simple(6) [OF demo_running_track]])

lemma demo_goal_complete: "goal_status_of (snd (goal_complete demo_host demo_clock demo_goal)) = Some Complete"
  by (simp add: demo_goal_def goal_complete_def goal_end_def goal_status_of_def create_goal_def goal_tracker_new_def fresh_orchestration_def
      record_event_def goal_append_history_def Let_def rescue_classifier_details_def rescue_target_def remove_scratch_root_def
      end_goal_fields_def reset_strategist_fields_def flush_elapsed_def)

lemma demo_stranded: "stranded demo_stranded"
proof -
  have "running id_a demo_running" by (simp add: running_def node_st_statuses demo_statuses)
  then have r: "running id_a (snd (graph_pause_inner demo_clock User None demo_running))" by (simp add: running_nodes)
  have "current_node_id demo_running = Some id_a" "pending_of demo_running = []"
    by (simp_all add: demo_run_defs demo_eval current_node_id_def pending_of_def)
  moreover have "\<forall>n \<in> set (nodes_of demo_running). n_status n \<noteq> Ready \<and> (n_status n = Running \<longrightarrow> n_id n = id_a)"
    by (simp add: demo_running_nodes demo_node_def final_verification_node_def)
  ultimately show ?thesis
    using r demo_goal_complete demo_active(2) by (auto simp: stranded_def demo_stranded_def)
qed

definition demo_finished :: session where
  "demo_finished = demo_saved demo_running (snd (goal_complete demo_host demo_clock demo_goal))"

lemma demo_finished_inv: "sess_inv demo_world demo_finished"
  unfolding demo_finished_def by (rule demo_saved_inv [OF demo_running_track])

lemma demo_goal_ahead: "goal_ahead demo_finished"
proof -
  have "graph_status demo_running = Some Active" using demo_active(2) by (simp add: is_active_def)
  moreover have "current_node_id demo_running = Some id_a" "pending_of demo_running = []"
    by (simp_all add: demo_run_defs demo_eval current_node_id_def pending_of_def)
  moreover have "\<forall>n \<in> set (nodes_of demo_running). n_status n \<noteq> Ready \<and> (n_status n = Running \<longrightarrow> n_id n = id_a)"
    by (simp add: demo_running_nodes demo_node_def final_verification_node_def)
  ultimately show ?thesis using demo_goal_complete by (auto simp: goal_ahead_def demo_finished_def)
qed

section \<open>A planner that succeeds\<close>

lemma demo_planning: "run_graph_planning demo_world ''obj'' s = (Some (Inr demo_nodes), tick s)"
  by (simp add: run_graph_planning_def demo_world_def Let_def run_graph_planner_def read_artifact_def demo_io_def demo_pass_def
      MAX_GRAPH_JSON_BYTES_def demo_plan_valid outcome_of_def)

lemma demo_stranded_budget: "remaining_budget (ss_graph demo_stranded) \<noteq> Some 0"
  by (simp add: demo_stranded_def graph_pause_inner_def remaining_budget_def demo_run_defs demo_eval wrap_i64_def)

lemma demo_unencoded: "g_status st \<noteq> Active \<Longrightarrow> project_text demo_serde st = Inl ''header''"
proof -
  assume st: "g_status st \<noteq> Active"
  have "g_status demo_state = Active" by (simp add: demo_state_def demo_run_defs demo_eval)
  then have "g_status (st\<lparr>g_nodes := []\<rparr>) \<noteq> g_status (demo_state\<lparr>g_nodes := []\<rparr>)" using st by simp
  then have "st\<lparr>g_nodes := []\<rparr> \<noteq> demo_state\<lparr>g_nodes := []\<rparr>" by metis
  then show ?thesis by (simp add: project_text_def demo_serde_def ebind_def)
qed

lemma demo_claim_ok: "fst (claim_project_graph_for_resume demo_world demo_stranded) = None"
proof -
  let ?t = "snd (graph_pause_inner demo_clock User None demo_running)"
  obtain st where st: "t_state ?t = Some st" "g_status st = UserPaused"
    using view_pause(4) [of demo_clock User None demo_running] demo_active(2) by (auto simp: graph_status_def)
  have "snd (project demo_serde io st None) = None" for io
    using demo_unencoded [of st] st(2) by (simp add: project_def split: option.splits)
  then have "ss_file demo_stranded = None"
    using st(1) by (simp add: demo_stranded_def demo_saved_def sync_project_def demo_session_def demo_world_def)
  then show ?thesis
    by (simp add: claim_project_graph_for_resume_def acquire_project_graph_writer_def demo_stranded_def projected_graph_id_def load_project_def
        demo_world_def load_def)
qed

lemma demo_verdict_a: "nr_achieved (fst (run_node_to_verdict demo_env id_a ''o'' 2))"
  "nr_worktree_path (fst (run_node_to_verdict demo_env id_a ''o'' 2)) = Some ''/w''"
  unfolding run_node_to_verdict_def demo_two
  by (simp_all add: run_round_def Let_def demo_env_def run_start_def absorb_def demo_claim judge_claim_def report_def)

end
