(* ===== verification/Goal_Drain.thy ===== *)
theory Goal_Drain
  imports Session_State
begin

text \<open>
  The goal verification loop, \<open>acp_session_impl/goal.rs\<close>: draining the \<open>update_goal\<close> calls of a turn,
  reserving a verification attempt, running the skeptic panel, applying its outcome, and deciding at
  the end of a round whether the goal goes on.

  \<open>verify_env\<close> holds the configuration of the verification and the answers of its subagents.  The
  drain awaits the panel; meanwhile other tasks of the actor may run.  \<open>ve_concurrent\<close> lists what they
  do, \<open>ve_cancel\<close> says that the turn is cancelled there, which drops the future and runs its guards.
\<close>

section \<open>Environment\<close>

datatype drain_purpose = TurnEnd | MidTurn

datatype concurrent_op =
    CoPause goal_pause_reason "string option"
  | CoDrain drain_purpose "update_goal_envelope list"

record verify_env =
  ve_enabled :: bool
  ve_max_runs :: u32
  ve_skeptic_count :: u32
  ve_strategist_every :: u32
  ve_summary_enabled :: bool
  ve_reverify_after :: u32
  ve_current_model_only :: bool
  ve_skeptic_pool :: "goal_role_model list"
  ve_roles :: "nat \<Rightarrow> role_env"
  ve_panel :: "nat \<Rightarrow> panel_io"
  ve_concurrent :: "nat \<Rightarrow> concurrent_op list"
  ve_cancel :: "nat \<Rightarrow> bool"
  ve_final_response :: "nat \<Rightarrow> string"
  ve_details_written :: "nat \<Rightarrow> bool" \<comment> \<open>scratch root ensured and synthetic details written\<close>
  ve_strategist :: "nat \<Rightarrow> string option" \<comment> \<open>the recommendation of \<open>run_goal_strategist\<close>\<close>
  ve_summary :: "nat \<Rightarrow> string option" \<comment> \<open>\<open>run_goal_summarizer\<close>\<close>
  ve_stop_pattern :: "nat \<Rightarrow> string option" \<comment> \<open>\<open>matched_stop_pattern\<close> on the last assistant text\<close>
  ve_pending_todos :: "nat \<Rightarrow> bool"
  ve_goal_tool :: string
  ve_todo_tool :: string
  ve_plan_content :: "nat \<Rightarrow> string \<Rightarrow> string option" \<comment> \<open>what a plan file holds\<close>
  ve_lossy :: "string \<Rightarrow> string"
  ve_nonce :: "nat \<Rightarrow> string"
  ve_already_queued :: "nat \<Rightarrow> bool" \<comment> \<open>a goal continuation is among the pending inputs\<close>

record goal_classifier_policy =
  gp_enabled :: bool
  gp_max_runs :: u32

definition GOAL_CLASSIFIER_PENDING_QUEUE_CAP :: nat where
  "GOAL_CLASSIFIER_PENDING_QUEUE_CAP = 4"

definition note_event :: "classifier_event \<Rightarrow> session \<Rightarrow> session" where
  "note_event e s = emit [ClassifierEv e] s"

text \<open>\<open>try_send_ack\<close>: an entry deferred earlier has no live channel.\<close>

definition try_send_ack :: "nat option \<Rightarrow> update_goal_ack \<Rightarrow> session \<Rightarrow> session" where
  "try_send_ack tx a s = (case tx of Some i \<Rightarrow> emit [Ack i a] s | None \<Rightarrow> s)"

definition resolve_goal_classifier_policy :: "verify_env \<Rightarrow> session \<Rightarrow> goal_classifier_policy" where
  "resolve_goal_classifier_policy q s =
     \<lparr>gp_enabled = ve_enabled q,
      gp_max_runs = sat_add_u (ve_max_runs q)
        (case gt_orchestration (ss_goal s) of Some o' \<Rightarrow> o_strategist_cap_bonus o' | None \<Rightarrow> 0)\<rparr>"

definition cap_just_reached :: "session \<Rightarrow> bool" where
  "cap_just_reached s =
     (case gt_orchestration (ss_goal s) of
        None \<Rightarrow> False
      | Some o' \<Rightarrow> o_status o' = BackOffPaused \<and>
          (case o_classifier_max_runs o' of Some cap \<Rightarrow> o_classifier_runs_attempted o' \<ge> cap | None \<Rightarrow> False))"

definition goal_is_paused :: "session \<Rightarrow> bool" where
  "goal_is_paused s = (case goal_status_of (ss_goal s) of Some st \<Rightarrow> is_paused st | None \<Rightarrow> False)"

definition prune_subagent_records :: "session \<Rightarrow> session" where
  "prune_subagent_records s =
     (case gt_orchestration (ss_goal s) of
        None \<Rightarrow> s
      | Some o' \<Rightarrow> s\<lparr>ss_records := filter (\<lambda>r. str_goal_id r \<noteq> Some (o_goal_id o')) (ss_records s)\<rparr>)"

section \<open>Verdicts on the orchestration\<close>

datatype gaps_update = GapsSet string | GapsClear | GapsPreserve

definition record_verdict_on_orchestration ::
  "clock \<Rightarrow> goal_classifier_verdict \<Rightarrow> string option \<Rightarrow> gaps_update \<Rightarrow> goal_tracker \<Rightarrow> goal_tracker" where
  "record_verdict_on_orchestration ck verdict details gaps t =
     with_orch (\<lambda>o'. o'\<lparr>o_last_classifier_verdict := Some verdict,
                        o_last_classifier_details_path :=
                          (case details of Some p \<Rightarrow> Some p | None \<Rightarrow> o_last_classifier_details_path o'),
                        o_last_classifier_gaps :=
                          (case gaps of GapsSet g \<Rightarrow> Some g | GapsClear \<Rightarrow> None | GapsPreserve \<Rightarrow> o_last_classifier_gaps o'),
                        o_last_classifier_at := Some (rfc ck 0)\<rparr>) t"

definition reserve_classifier_attempt_slot :: "goal_classifier_policy \<Rightarrow> goal_tracker \<Rightarrow> u32 option \<times> goal_tracker" where
  "reserve_classifier_attempt_slot policy t =
     (case gt_orchestration t of
        None \<Rightarrow> (None, t)
      | Some o' \<Rightarrow>
          let n = sat_add_u (o_classifier_runs_attempted o') 1
          in (Some n, t\<lparr>gt_orchestration := Some (o'\<lparr>o_classifier_runs_attempted := n,
                 o_classifier_max_runs := Some (gp_max_runs policy), o_rounds_since_verify := 0\<rparr>)\<rparr>))"

definition auto_pause_for_classifier_cap :: "world \<Rightarrow> u32 \<Rightarrow> string \<Rightarrow> string \<Rightarrow> session \<Rightarrow> session" where
  "auto_pause_for_classifier_cap w attempt details_path pause_summary s =
     snd (auto_pause_goal w BackOff
            (Some (format_goal_pause_message
               (''Goal classifier rejected completion '' @ show_u32 attempt @ '' times '' @ em_dash @ '' goal auto-paused.'')
               pause_summary details_path))
            (note_event (ClassifierCapReachedEv attempt) s))"

definition auto_pause_for_classifier_stall :: "world \<Rightarrow> string \<Rightarrow> string \<Rightarrow> session \<Rightarrow> session" where
  "auto_pause_for_classifier_stall w details_path pause_summary s =
     snd (auto_pause_goal w NoProgress
            (Some (format_goal_pause_message
               (''Goal verification flagged the same gaps with no progress across consecutive attempts '' @ em_dash @ '' goal auto-paused.'')
               pause_summary details_path)) s)"

definition auto_pause_for_classifier_blocked :: "world \<Rightarrow> string \<Rightarrow> string \<Rightarrow> session \<Rightarrow> session" where
  "auto_pause_for_classifier_blocked w details_path pause_summary s =
     snd (auto_pause_goal w Verification
            (Some (format_goal_pause_message
               (''Goal verification found no model-fixable path '' @ em_dash @ '' paused for your decision.'')
               pause_summary details_path)) s)"

text \<open>
  The strategist's cap bonus was granted with the claim; every exit without a recommendation gives
  it back.
\<close>

definition maybe_run_goal_strategist :: "world \<Rightarrow> verify_env \<Rightarrow> session \<Rightarrow> session" where
  "maybe_run_goal_strategist w q s =
     (if \<not> cf_coordinator w \<or> gt_orchestration (ss_goal s) = None
      then s\<lparr>ss_goal := revoke_strategist_cap_bonus (ss_goal s)\<rparr>
      else tick (s\<lparr>ss_goal := (case ve_strategist q (ss_tick s) of
                     Some rec \<Rightarrow> record_strategy_recommendation (strategy_path (ss_goal s)) rec (ss_goal s)
                   | None \<Rightarrow> revoke_strategist_cap_bonus (ss_goal s))\<rparr>))"

definition maybe_run_goal_summarizer :: "world \<Rightarrow> verify_env \<Rightarrow> session \<Rightarrow> session" where
  "maybe_run_goal_summarizer w q s =
     (if \<not> ve_summary_enabled q \<or> \<not> cf_coordinator w \<or> gt_orchestration (ss_goal s) = None then s
      else tick (case ve_summary q (ss_tick s) of Some m \<Rightarrow> say m s | None \<Rightarrow> s))"

section \<open>Applying an outcome\<close>

definition complete_goal_now :: "world \<Rightarrow> goal_classifier_verdict option \<Rightarrow> string option \<Rightarrow> session \<Rightarrow> session" where
  "complete_goal_now w verdict details s =
     goal_tx w (\<lambda>h ck t. snd (goal_complete h ck
       (case verdict of
          Some v \<Rightarrow> reset_strategist_state (record_verdict_on_orchestration ck v details GapsClear t)
        | None \<Rightarrow> t))) ((prune_subagent_records s)\<lparr>ss_pending_claims := []\<rparr>)"

definition apply_achieved :: "world \<Rightarrow> verify_env \<Rightarrow> i64 \<times> i64 \<Rightarrow> string \<Rightarrow> session \<Rightarrow> update_goal_ack \<times> session" where
  "apply_achieved w q used details_path s =
    (let s1 = complete_goal_now w (Some GcAchieved) (Some details_path) s;
         shown = (case gt_orchestration (ss_goal s1) of
                    Some o' \<Rightarrow> (case o_last_classifier_details_path o' of Some p \<Rightarrow> p | None \<Rightarrow> details_path)
                  | None \<Rightarrow> details_path)
     in (ClassifierAchieved shown, maybe_run_goal_summarizer w q (emit_goal_updated w used s1)))"

definition apply_fail_open :: "world \<Rightarrow> i64 \<times> i64 \<Rightarrow> fail_open_reason \<Rightarrow> string \<Rightarrow> session \<Rightarrow> update_goal_ack \<times> session" where
  "apply_fail_open w used reason details_path s =
     (ClassifierFailOpenAchieved (fail_open_str reason),
      emit_goal_updated w used
        (complete_goal_now w (Some GcAchieved) (if details_path = [] then None else Some details_path) s))"

definition apply_blocked :: "world \<Rightarrow> string \<Rightarrow> string \<Rightarrow> session \<Rightarrow> update_goal_ack \<times> session" where
  "apply_blocked w details_path pause_summary s =
     (ClassifierBlocked details_path,
      auto_pause_for_classifier_blocked w details_path pause_summary
        (goal_tx w (\<lambda>h ck t. reset_strategist_state (reset_classifier_stall (rollback_classifier_attempt
           (record_verdict_on_orchestration ck GcNotAchieved (Some details_path) GapsClear t)))) s))"

definition apply_not_achieved ::
  "world \<Rightarrow> verify_env \<Rightarrow> goal_classifier_policy \<Rightarrow> u32 \<Rightarrow> i64 \<times> i64 \<Rightarrow> string \<Rightarrow> string \<Rightarrow> string \<Rightarrow> string \<Rightarrow> session
     \<Rightarrow> update_goal_ack \<times> session" where
  "apply_not_achieved w q policy attempt used details_path gaps pause_summary fp s =
    (let s1 = goal_tx w (\<lambda>h ck t. snd (record_not_achieved_streak
                (record_verdict_on_orchestration ck GcNotAchieved (Some details_path) (GapsSet gaps) t))) s
     in if attempt \<ge> gp_max_runs policy
        then (ClassifierCapReached details_path attempt, auto_pause_for_classifier_cap w attempt details_path pause_summary s1)
        else let (stalled, t2) = (if fp = [] then (False, ss_goal s1) else record_classifier_stall fp (ss_goal s1));
                 s2 = s1\<lparr>ss_goal := t2\<rparr>
             in if stalled
                then (ClassifierStalled details_path attempt, auto_pause_for_classifier_stall w details_path pause_summary s2)
                else let (claimed, t3) = claim_strategist_fire (\<lambda>c l. strategist_should_fire c l (ve_strategist_every q)) (ss_goal s2);
                         s3 = s2\<lparr>ss_goal := t3\<rparr>;
                         s4 = (if claimed \<noteq> None then maybe_run_goal_strategist w q s3 else s3)
                     in (ClassifierNotAchieved details_path attempt (gp_max_runs policy), emit_goal_updated w used s4))"

definition apply_classifier_outcome ::
  "world \<Rightarrow> verify_env \<Rightarrow> goal_classifier_policy \<Rightarrow> u32 \<Rightarrow> goal_classifier_outcome \<Rightarrow> session \<Rightarrow> update_goal_ack \<times> session" where
  "apply_classifier_outcome w q policy attempt out s0 =
    (let (used, s) = goal_tokens_now (w_tokens w (ss_tick s0)) (tick s0)
     in case out of
          OutAchieved d \<Rightarrow> apply_achieved w q used d s
        | OutNotAchieved d gaps pause fp \<Rightarrow> apply_not_achieved w q policy attempt used d gaps pause fp s
        | OutBlocked d pause \<Rightarrow> apply_blocked w d pause s
        | OutFailOpenAchieved reason d \<Rightarrow> apply_fail_open w used reason d s)"

definition synthetic_gaps :: string where
  "synthetic_gaps = ''- a verification was already running for the previous completion attempt; this duplicate '' @ [backtick]
     @ ''completed: true'' @ [backtick] @ '' was rejected without re-running the panel''"

definition account_not_achieved_without_sampler ::
  "world \<Rightarrow> verify_env \<Rightarrow> goal_classifier_policy \<Rightarrow> session \<Rightarrow> (u32 \<times> string \<times> bool) option \<times> session" where
  "account_not_achieved_without_sampler w q policy s0 =
     (case gt_orchestration (ss_goal s0) of
        None \<Rightarrow> (None, s0)
      | Some o' \<Rightarrow>
          let attempt = sat_add_u (o_classifier_runs_attempted o') 1;
              n = ss_tick s0;
              details = (if ve_details_written q n
                         then Some (format_details_path (w_host w n) (o_verifier_id o') attempt) else None);
              s1 = tick (s0\<lparr>ss_goal := with_orch (\<lambda>o'. o'\<lparr>o_classifier_runs_attempted := attempt,
                             o_classifier_max_runs := Some (gp_max_runs policy)\<rparr>) (ss_goal s0)\<rparr>);
              s2 = goal_tx w (\<lambda>h ck t. snd (record_not_achieved_streak
                     (record_verdict_on_orchestration ck GcNotAchieved details GapsPreserve t))) s1;
              shown = (case details of Some p \<Rightarrow> p | None \<Rightarrow> []);
              cap_reached = (attempt \<ge> gp_max_runs policy)
          in (Some (attempt, shown, cap_reached),
              if cap_reached
              then auto_pause_for_classifier_cap w attempt shown (PAUSE_GROUP_FIXABLE @ '':'' @ [nl] @ synthetic_gaps) s2
              else let (used, s3) = goal_tokens_now (w_tokens w (ss_tick s2)) (tick s2) in emit_goal_updated w used s3))"

section \<open>Running the panel\<close>

definition emit_goal_verifying :: "world \<Rightarrow> i64 \<Rightarrow> session \<Rightarrow> session" where
  "emit_goal_verifying w current s0 =
     (if \<not> cf_goal_harness w then s0
      else let (used, s1) = goal_tokens_now current s0;
               s2 = goal_tx w (\<lambda>h ck t. with_orch (\<lambda>o'. o'\<lparr>o_verifying_in_flight := True\<rparr>) (goal_account_elapsed ck t)) s1
           in case gt_orchestration (ss_goal s2) of
                None \<Rightarrow> s2
              | Some o' \<Rightarrow> emit [GoalBadge o' (fst used) (snd used)] s2)"

text \<open>The assignment is frozen on the orchestration before the overrides are resolved.\<close>

definition freeze_assignment :: "verify_env \<Rightarrow> session \<Rightarrow> goal_role_model option list \<times> session" where
  "freeze_assignment q s =
    (let n = unat (clamp_skeptics (ve_skeptic_count q))
     in if ve_current_model_only q then (replicate n None, s)
        else case gt_orchestration (ss_goal s) of
          None \<Rightarrow> (replicate n None, s)
        | Some o' \<Rightarrow>
            let expanded = expand_skeptic_assignment (o_skeptic_model_assignment o') (ve_skeptic_pool q) n
            in (resolve_panel (ve_roles q (ss_tick s)) expanded [0..<n] [],
                tick (s\<lparr>ss_goal := with_orch (\<lambda>o'. o'\<lparr>o_skeptic_model_assignment := expanded\<rparr>) (ss_goal s)\<rparr>)))"

definition persist_stage :: "stage_result \<Rightarrow> string option \<Rightarrow> session \<Rightarrow> session" where
  "persist_stage r anchor s =
     (if vr_panel_ran r
      then s\<lparr>ss_goal := with_orch (\<lambda>o'. o'\<lparr>o_skeptic0_session_id := vr_skeptic0_session_id r,
             o_first_final_response := (case anchor of Some a \<Rightarrow> Some a | None \<Rightarrow> o_first_final_response o')\<rparr>) (ss_goal s)\<rparr>
      else s)"

text \<open>
  \<open>during\<close> is what the other tasks do while the panel runs.  \<open>None\<close> is a dropped future: the panel's
  outcome is lost.
\<close>

definition run_verification_stage_for_drain ::
  "world \<Rightarrow> verify_env \<Rightarrow> (session \<Rightarrow> session) \<Rightarrow> u32 \<Rightarrow> u32 \<Rightarrow> session \<Rightarrow> goal_classifier_outcome option \<times> session" where
  "run_verification_stage_for_drain w q during attempt max_runs s0 =
     (case gt_orchestration (ss_goal s0) of
        None \<Rightarrow> (Some (OutFailOpenAchieved GoalNotActiveAtResolve []), s0)
      | Some o' \<Rightarrow>
          if \<not> cf_coordinator w then (Some (OutFailOpenAchieved SamplerError []), s0)
          else let final = compose_verifier_final_response (o_first_final_response o') (ve_final_response q (ss_tick s0));
                   (overrides, s1) = freeze_assignment q (tick s0);
                   n = ss_tick s1;
                   r = run_verification_stage (ve_panel q n) (w_host w n)
                         \<lparr>vi_verifier_id = o_verifier_id o', vi_attempt = attempt, vi_skeptic_count = ve_skeptic_count q,
                          vi_max_runs = max_runs, vi_prior_skeptic0 = o_skeptic0_session_id o', vi_overrides = overrides\<rparr>;
                   s2 = during (tick s1)
               in if ve_cancel q n then (None, note_event (ClassifierFired attempt max_runs) s2)
                  else (Some (vr_outcome r),
                        persist_stage r (cfr_to_persist final)
                          (emit (map ClassifierEv (vr_events r) @ map PanelWrite (vr_fs r)) s2)))"

section \<open>The drain\<close>

record drain_flags =
  df_block_seen :: bool
  df_cap_dropped :: u32
  df_auto_paused :: bool
  df_cancelled :: bool

definition drain_blocked ::
  "world \<Rightarrow> update_goal_input \<Rightarrow> string \<Rightarrow> nat option \<Rightarrow> drain_flags \<times> session \<Rightarrow> drain_flags \<times> session" where
  "drain_blocked w cmd reason tx st =
    (let (fl, s) = st;
         streak = ss_blocked_streak s + 1;
         s1 = s\<lparr>ss_blocked_streak := streak\<rparr>
     in if streak < 3
        then (fl, try_send_ack tx (Accepted (''Blocked attempt '' @ show_u32 streak
                    @ ''/3 recorded. The harness needs 3 consecutive blocked attempts before pausing the goal '' @ em_dash
                    @ '' continue retrying or refining the approach.'')) s1)
        else let pause_msg = (case ug_message cmd of Some d \<Rightarrow> reason @ [nl] @ d | None \<Rightarrow> reason);
                 (applied, s2) = auto_pause_goal w Verification (Some pause_msg) s1
             in if applied
                then (fl\<lparr>df_block_seen := True\<rparr>,
                      try_send_ack tx (Accepted (''Goal blocked: '' @ reason @ ''.''))
                        (say (format_blocked_chat_notification reason (ug_message cmd)) s2))
                else (fl, try_send_ack tx (Rejected BlockedAgainstNonActive ''Goal is not Active; blocked_reason ignored'') s2))"

definition drain_message :: "world \<Rightarrow> i64 \<Rightarrow> update_goal_input \<Rightarrow> nat option \<Rightarrow> session \<Rightarrow> session" where
  "drain_message w current cmd tx s =
    (let (used, s1) = goal_tokens_now current s
     in try_send_ack tx (Accepted (case ug_message cmd of Some m \<Rightarrow> m @ ''.'' | None \<Rightarrow> ''Goal updated.''))
          (emit_goal_updated w used s1))"

definition drain_unverified :: "world \<Rightarrow> i64 \<Rightarrow> nat option \<Rightarrow> session \<Rightarrow> session" where
  "drain_unverified w current tx s =
    (let (used, s1) = goal_tokens_now current s
     in try_send_ack tx CompletedWithoutClassifier (emit_goal_updated w used (complete_goal_now w None None s1)))"

definition non_active_meta :: "session \<Rightarrow> (u32 \<times> bool) option" where
  "non_active_meta s =
     (case gt_orchestration (ss_goal s) of
        None \<Rightarrow> Some (0, False)
      | Some o' \<Rightarrow> if o_status o' = Active then None else Some (o_classifier_runs_attempted o', cap_just_reached s))"

definition drain_non_active :: "u32 \<Rightarrow> bool \<Rightarrow> nat option \<Rightarrow> session \<Rightarrow> session" where
  "drain_non_active attempts_seen post_cap tx s =
     (if post_cap
      then try_send_ack tx (Rejected PostCap (''Classifier cap already reached ('' @ show_u32 attempts_seen
             @ '' attempts); goal is BackOff-paused. Do not call update_goal again until the user resumes.''))
             (note_event (ClassifierDroppedAfterCap attempts_seen) s)
      else try_send_ack tx (Rejected NonActive ''Goal is not Active; cannot mark complete'')
             (note_event (ClassifierFailOpen GoalNotActiveAtResolve attempts_seen) s))"

definition drain_defer :: "update_goal_input \<Rightarrow> nat option \<Rightarrow> session \<Rightarrow> session" where
  "drain_defer cmd tx s =
    (let full = (length (ss_pending_claims s) \<ge> GOAL_CLASSIFIER_PENDING_QUEUE_CAP);
         queue = (if full then tl (ss_pending_claims s) else ss_pending_claims s) @ [cmd];
         s1 = (if full then note_event (ClassifierFailClosed PendingQueueFull 0) s else s)\<lparr>ss_pending_claims := queue\<rparr>;
         depth = of_nat (length queue)
     in try_send_ack tx (DeferredToTurnEnd depth) (note_event (ClassifierMidTurnDeferred depth) s1))"

definition drain_in_flight ::
  "world \<Rightarrow> verify_env \<Rightarrow> goal_classifier_policy \<Rightarrow> nat option \<Rightarrow> drain_flags \<times> session \<Rightarrow> drain_flags \<times> session" where
  "drain_in_flight w q policy tx st =
    (let (fl, s) = st
     in case account_not_achieved_without_sampler w q policy (note_event (ClassifierFailClosed ConcurrentInFlight 0) s) of
          (None, s1) \<Rightarrow>
            (fl, try_send_ack tx (Rejected InFlightOrchestrationVanished ''Goal orchestration vanished during in-flight short-circuit'') s1)
        | (Some (attempt, details_path, cap_reached), s1) \<Rightarrow>
            if cap_reached
            then (if cap_just_reached s1 then fl\<lparr>df_auto_paused := True\<rparr> else fl,
                  try_send_ack tx (ClassifierCapReached details_path attempt) s1)
            else (fl, try_send_ack tx (ClassifierConcurrentInFlight details_path attempt (gp_max_runs policy)) s1))"

text \<open>The drop of the slot guard: the attempt is refunded unless the goal auto-paused.\<close>

definition refund_slot :: "goal_tracker \<Rightarrow> goal_tracker" where
  "refund_slot t =
     (case goal_status_of t of
        Some BackOffPaused \<Rightarrow> t
      | Some NoProgressPaused \<Rightarrow> t
      | Some Blocked \<Rightarrow> t
      | _ \<Rightarrow> rollback_classifier_attempt t)"

definition clear_verifying :: "goal_tracker \<Rightarrow> goal_tracker" where
  "clear_verifying t = with_orch (\<lambda>o'. o'\<lparr>o_verifying_in_flight := False\<rparr>) t"

definition drain_fire ::
  "world \<Rightarrow> verify_env \<Rightarrow> (session \<Rightarrow> session) \<Rightarrow> i64 \<Rightarrow> goal_classifier_policy \<Rightarrow> nat option \<Rightarrow> drain_flags \<times> session
     \<Rightarrow> drain_flags \<times> session" where
  "drain_fire w q during current policy tx st =
    (let (fl, s) = st;
         (slot, t1) = reserve_classifier_attempt_slot policy (ss_goal s);
         s1 = s\<lparr>ss_goal := t1, ss_in_flight := True\<rparr>
     in case slot of
          None \<Rightarrow>
            (fl, try_send_ack tx (Rejected OrchestrationVanished ''Goal orchestration vanished before classifier could start'')
                   ((note_event (ClassifierFailOpen GoalNotActiveAtResolve 0) s1)\<lparr>ss_in_flight := False\<rparr>))
        | Some attempt \<Rightarrow>
            let (out, s2) = run_verification_stage_for_drain w q during attempt (gp_max_runs policy) (emit_goal_verifying w current s1);
                s3 = s2\<lparr>ss_goal := clear_verifying (ss_goal s2)\<rparr>
            in case out of
                 None \<Rightarrow> (fl\<lparr>df_cancelled := True\<rparr>, s3\<lparr>ss_goal := refund_slot (ss_goal s3), ss_in_flight := False\<rparr>)
               | Some verdict \<Rightarrow>
                   if goal_status_of (ss_goal s3) \<noteq> Some Active
                   then (fl, (try_send_ack tx (Rejected StatusChangedDuringClassifier ''Goal transitioned to non-Active during classifier run'')
                            (note_event (ClassifierFailOpen GoalNotActiveAtResolve attempt) s3))
                            \<lparr>ss_goal := refund_slot (ss_goal s3), ss_in_flight := False\<rparr>)
                   else let (ack, s4) = apply_classifier_outcome w q policy attempt verdict s3
                        in (if goal_is_paused s4 then fl\<lparr>df_auto_paused := True\<rparr> else fl,
                            (try_send_ack tx ack s4)\<lparr>ss_in_flight := False\<rparr>))"

definition drain_completed ::
  "world \<Rightarrow> verify_env \<Rightarrow> (session \<Rightarrow> session) \<Rightarrow> drain_purpose \<Rightarrow> i64 \<Rightarrow> update_goal_input \<Rightarrow> nat option
     \<Rightarrow> drain_flags \<times> session \<Rightarrow> drain_flags \<times> session" where
  "drain_completed w q during purpose current cmd tx st =
    (let (fl, s0) = st;
         s = s0\<lparr>ss_blocked_streak := 0\<rparr>;
         policy = resolve_goal_classifier_policy q s
     in if \<not> gp_enabled policy then (fl, drain_unverified w current tx s)
        else case non_active_meta s of
          Some (attempts_seen, post_cap) \<Rightarrow> (fl, drain_non_active attempts_seen post_cap tx s)
        | None \<Rightarrow>
            if purpose = MidTurn then (fl, drain_defer cmd tx s)
            else if ss_in_flight s then drain_in_flight w q policy tx (fl, s)
            else drain_fire w q during current policy tx (fl, s))"

definition drain_cmd ::
  "world \<Rightarrow> verify_env \<Rightarrow> (session \<Rightarrow> session) \<Rightarrow> drain_purpose \<Rightarrow> i64 \<Rightarrow> update_goal_input \<times> nat option
     \<Rightarrow> drain_flags \<times> session \<Rightarrow> drain_flags \<times> session" where
  "drain_cmd w q during purpose current entry st =
    (let (cmd, tx) = entry; (fl, s) = st
     in if df_auto_paused fl
        then (fl\<lparr>df_cap_dropped := sat_add_u (df_cap_dropped fl) 1\<rparr>,
              try_send_ack tx (Rejected DroppedAfterPauseInDrain
                ''Goal auto-paused during verification; this completion was dropped without further verification'') s)
        else if df_block_seen fl
        then (fl, try_send_ack tx (Rejected BlockSeenInDrain
                ''Goal just transitioned to Blocked by a prior update in this drain'') s)
        else case ug_blocked_reason cmd of
          Some reason \<Rightarrow> drain_blocked w cmd reason tx (fl, s)
        | None \<Rightarrow>
            if ug_completed cmd \<noteq> Some True then (fl, drain_message w current cmd tx s)
            else drain_completed w q during purpose current cmd tx (fl, s))"

fun drain_loop ::
  "world \<Rightarrow> verify_env \<Rightarrow> (session \<Rightarrow> session) \<Rightarrow> drain_purpose \<Rightarrow> i64 \<Rightarrow> (update_goal_input \<times> nat option) list
     \<Rightarrow> drain_flags \<times> session \<Rightarrow> drain_flags \<times> session" where
  "drain_loop w q during purpose current [] st = st"
| "drain_loop w q during purpose current (e # es) st =
     (let st' = drain_cmd w q during purpose current e st
      in if df_cancelled (fst st') then st' else drain_loop w q during purpose current es st')"

definition harness_disabled_ack :: update_goal_ack where
  "harness_disabled_ack = Rejected HarnessDisabled
     ''Goal mode is not active for this session (no /goal run in progress); update_goal has no effect.''"

definition flags0 :: drain_flags where
  "flags0 = \<lparr>df_block_seen = False, df_cap_dropped = 0, df_auto_paused = False, df_cancelled = False\<rparr>"

text \<open>
  The commands in order: the claims deferred by earlier mid-turn drains, then the envelopes handed
  over or waiting in the channel.
\<close>

definition drain_sources :: "drain_purpose \<Rightarrow> update_goal_envelope list \<Rightarrow> session \<Rightarrow> (update_goal_input \<times> nat option) list" where
  "drain_sources purpose envelopes s =
     (case purpose of TurnEnd \<Rightarrow> map (\<lambda>c. (c, None)) (ss_pending_claims s) | MidTurn \<Rightarrow> [])
     @ map (\<lambda>(c, i). (c, Some i)) envelopes"

definition drain_with ::
  "world \<Rightarrow> verify_env \<Rightarrow> (session \<Rightarrow> session) \<Rightarrow> i64 \<Rightarrow> drain_purpose \<Rightarrow> update_goal_envelope list \<Rightarrow> session
     \<Rightarrow> bool \<times> session" where
  "drain_with w q during current purpose envelopes s =
     (if \<not> cf_goal_harness w then (False, emit (map (\<lambda>(c, i). Ack i harness_disabled_ack) envelopes) s)
      else let s0 = (case purpose of TurnEnd \<Rightarrow> s\<lparr>ss_pending_claims := []\<rparr> | MidTurn \<Rightarrow> s);
               (fl, s1) = drain_loop w q during purpose current (drain_sources purpose envelopes s) (flags0, s0)
           in (df_cancelled fl,
               if \<not> df_cancelled fl \<and> df_cap_dropped fl > 0
               then note_event (ClassifierPendingQueueCleared (df_cap_dropped fl)) s1 else s1))"

text \<open>
  A task that runs while the panel of an outer drain is awaited finds \<open>goal_classifier_in_flight\<close> set,
  so that an inner drain never reaches a panel of its own.
\<close>

definition run_concurrent :: "world \<Rightarrow> verify_env \<Rightarrow> concurrent_op \<Rightarrow> session \<Rightarrow> session" where
  "run_concurrent w q op s =
     (case op of
        CoPause reason msg \<Rightarrow> snd (auto_pause_goal w reason msg s)
      | CoDrain purpose envelopes \<Rightarrow> snd (drain_with w q (\<lambda>s. s) (w_tokens w (ss_tick s)) purpose envelopes (tick s)))"

definition meanwhile :: "world \<Rightarrow> verify_env \<Rightarrow> session \<Rightarrow> session" where
  "meanwhile w q s = fold (run_concurrent w q) (ve_concurrent q (ss_tick s)) (tick s)"

definition drain_goal_updates ::
  "world \<Rightarrow> verify_env \<Rightarrow> i64 \<Rightarrow> drain_purpose \<Rightarrow> update_goal_envelope list \<Rightarrow> session \<Rightarrow> bool \<times> session" where
  "drain_goal_updates w q current purpose envelopes s = drain_with w q (meanwhile w q) current purpose envelopes s"

end
