(* ===== verification/Goal_Turn.thy ===== *)
theory Goal_Turn
  imports Goal_Drain Graph_Session
begin

text \<open>
  The end of a round and of a turn: \<open>prepare_goal_continuation\<close>, \<open>run_goal_round_end\<close> and
  \<open>maybe_queue_goal_continuation\<close> of \<open>acp_session_impl/goal.rs\<close>, and from \<open>acp_session_impl/turn.rs\<close>
  \<open>handle_turn_end\<close> and the decision of the in-turn loop, where the goal engine and the graph engine
  meet.
\<close>

section \<open>Continuation\<close>

definition laziness_injection_active :: "world \<Rightarrow> session \<Rightarrow> bool" where
  "laziness_injection_active w s \<longleftrightarrow> cf_goal_harness w \<and> goal_status_of (ss_goal s) = Some Active"

record goal_continuation_plan =
  cp_directive :: string
  cp_stop_pattern :: "string option"
  cp_strategy_rec :: "string option"

datatype 'a awaited = Dropped | Returned 'a \<comment> \<open>the future was dropped at an await, or ran to its end\<close>

definition stop_pattern_now :: "verify_env \<Rightarrow> session \<Rightarrow> string option" where
  "stop_pattern_now q s =
     (case ve_stop_pattern q (ss_tick s) of
        Some p \<Rightarrow> if ve_pending_todos q (ss_tick s) then Some p else None
      | None \<Rightarrow> None)"

definition continuation_slots ::
  "world \<Rightarrow> verify_env \<Rightarrow> i64 \<Rightarrow> string option \<Rightarrow> nat \<Rightarrow> goal_orchestration \<Rightarrow> directive_slots" where
  "continuation_slots w q tokens_used stop n o' =
    (let plan = goal_reminder_plan_path (cf_goal_planner w) o'
     in \<lparr>ds_objective = o_objective o',
         ds_tokens = (if tokens_used \<ge> 0 then of_int tokens_used else 0),
         ds_elapsed = w_elapsed w (o_elapsed_ms o'),
         ds_bail_preface = (if stop \<noteq> None then GOAL_CONTINUATION_BAIL_PREFACE else []),
         ds_plan_pointer = (case plan of Some p \<Rightarrow> ''Plan: '' @ p @ [nl, nl] | None \<Rightarrow> []),
         ds_verifier_gaps = (case o_last_classifier_gaps o' of Some g \<Rightarrow> render_verifier_gaps_block g (ve_goal_tool q) | None \<Rightarrow> []),
         ds_strategist_note = (case o_last_strategy_recommendation o' of
            Some rec \<Rightarrow> render_strategist_note (ve_nonce q n) rec plan (o_last_strategy_path o') | None \<Rightarrow> []),
         ds_reverify_block = render_goal_reverify_block (o_rounds_since_verify o') (o_consecutive_not_achieved o' \<ge> 1)
            (ve_reverify_after q) (ve_goal_tool q),
         ds_next_step = (case resolve_goal_next_step (ve_lossy q) (Option.bind plan (ve_plan_content q n)) of
            Some step \<Rightarrow> step
          | None \<Rightarrow> ''Check your '' @ [backtick] @ ve_todo_tool q @ [backtick] @ '' list for next steps.''),
         ds_todo_tool = ve_todo_tool q, ds_goal_tool = ve_goal_tool q,
         ds_scratch_dir = implementer_scratch_dir (w_host w n) (o_verifier_id o'),
         ds_scratch_ready = o_scratch_dir_ready o'\<rparr>)"

definition continuation_after_drain ::
  "world \<Rightarrow> verify_env \<Rightarrow> i64 \<Rightarrow> session \<Rightarrow> goal_continuation_plan option \<times> session" where
  "continuation_after_drain w q current s0 =
     (if \<not> laziness_injection_active w s0 then (None, s0)
      else let stop = stop_pattern_now q s0;
               (used, s1) = goal_tokens_now current (tick s0);
               (tripped, s2) = enforce_goal_token_budget w current s1
           in if tripped then (None, s2)
              else let s3 = emit_goal_updated w used s2;
                       s4 = goal_tx w (\<lambda>h ck t. with_orch (\<lambda>o'. o'\<lparr>o_rounds_since_verify := sat_add_u (o_rounds_since_verify o') 1\<rparr>)
                              (goal_account_elapsed ck t)) s3
                   in case gt_orchestration (ss_goal s4) of
                        None \<Rightarrow> (None, s4)
                      | Some o' \<Rightarrow>
                          (Some \<lparr>cp_directive = render_goal_continuation_directive
                                   (continuation_slots w q (fst used) stop (ss_tick s4) o'),
                                 cp_stop_pattern = stop, cp_strategy_rec = o_last_strategy_recommendation o'\<rparr>,
                           tick s4))"

definition prepare_goal_continuation ::
  "world \<Rightarrow> verify_env \<Rightarrow> i64 \<Rightarrow> update_goal_envelope list \<Rightarrow> session \<Rightarrow> goal_continuation_plan option awaited \<times> session" where
  "prepare_goal_continuation w q current envelopes s =
    (let (cancelled, s1) = drain_goal_updates w q current TurnEnd envelopes s
     in if cancelled then (Dropped, s1)
        else let (plan, s2) = continuation_after_drain w q current s1 in (Returned plan, s2))"

definition consume_strategist_note :: "string \<Rightarrow> session \<Rightarrow> session" where
  "consume_strategist_note delivered s =
     s\<lparr>ss_goal := with_orch (\<lambda>o'. if o_last_strategy_recommendation o' = Some delivered
                    then o'\<lparr>o_last_strategy_recommendation := None, o_last_strategy_path := None\<rparr> else o') (ss_goal s)\<rparr>"

definition record_and_emit_premature_stop :: "world \<Rightarrow> string \<Rightarrow> session \<Rightarrow> session" where
  "record_and_emit_premature_stop w pat s =
     emit [PrematureStop pat]
       (goal_tx w (\<lambda>h ck t. goal_append_history (goal_history_now ck PrematureStopDetected (Some pat)) t) s)"

definition commit_plan :: "world \<Rightarrow> goal_continuation_plan \<Rightarrow> session \<Rightarrow> session" where
  "commit_plan w plan s =
    (let s1 = (case cp_strategy_rec plan of Some rec \<Rightarrow> consume_strategist_note rec s | None \<Rightarrow> s)
     in case cp_stop_pattern plan of Some p \<Rightarrow> record_and_emit_premature_stop w p s1 | None \<Rightarrow> s1)"

datatype goal_round_decision = GrContinue string | GrEndTurn

definition run_goal_round_end ::
  "world \<Rightarrow> verify_env \<Rightarrow> update_goal_envelope list \<Rightarrow> session \<Rightarrow> goal_round_decision awaited \<times> session" where
  "run_goal_round_end w q envelopes s =
     (case prepare_goal_continuation w q (w_tokens w (ss_tick s)) envelopes (tick s) of
        (Dropped, s1) \<Rightarrow> (Dropped, s1)
      | (Returned None, s1) \<Rightarrow> (Returned GrEndTurn, s1)
      | (Returned (Some plan), s1) \<Rightarrow> (Returned (GrContinue (cp_directive plan)), commit_plan w plan s1))"

definition maybe_queue_goal_continuation ::
  "world \<Rightarrow> verify_env \<Rightarrow> update_goal_envelope list \<Rightarrow> session \<Rightarrow> bool \<times> session" where
  "maybe_queue_goal_continuation w q envelopes s =
     (case prepare_goal_continuation w q (w_tokens w (ss_tick s)) envelopes (tick s) of
        (Dropped, s1) \<Rightarrow> (True, s1)
      | (Returned None, s1) \<Rightarrow> (False, s1)
      | (Returned (Some plan), s1) \<Rightarrow>
          if ve_already_queued q (ss_tick s1) then (False, tick s1)
          else (False, commit_plan w plan (tick (emit [QueuedDirective (cp_directive plan)] s1))))"

section \<open>The turn\<close>

definition GOAL_CONTINUATION_BACKOFF_THRESHOLD :: u32 where
  "GOAL_CONTINUATION_BACKOFF_THRESHOLD = 3"

definition handle_turn_end ::
  "world \<Rightarrow> verify_env \<Rightarrow> bool \<Rightarrow> update_goal_envelope list \<Rightarrow> session \<Rightarrow> session" where
  "handle_turn_end w q turn_succeeded envelopes s =
     (if \<not> laziness_injection_active w s then s
      else if turn_succeeded
      then snd (maybe_queue_goal_continuation w q envelopes (s\<lparr>ss_continuation_streak := 0\<rparr>))
      else let (tripped, s1) = enforce_goal_token_budget w (w_tokens w (ss_tick s)) (tick s)
           in if tripped then s1
              else let streak = ss_continuation_streak s1 + 1
                   in if streak \<ge> GOAL_CONTINUATION_BACKOFF_THRESHOLD
                      then say (''Goal auto-paused after '' @ show_u32 GOAL_CONTINUATION_BACKOFF_THRESHOLD
                             @ '' consecutive non-completing turns. The model is not making progress. Use /goal resume to retry or /goal clear to abandon.'')
                             (snd (auto_pause_goal w BackOff None (s1\<lparr>ss_continuation_streak := 0\<rparr>)))
                      else s1\<lparr>ss_continuation_streak := streak\<rparr>)"

text \<open>
  After a completed round the loop asks the goal engine, and when that has nothing more to do, the
  graph engine.  \<open>Some text\<close> is injected as the next user message; \<open>None\<close> ends the turn.  The outer
  option is the fuel of the dispatch loop.
\<close>

definition in_turn_decision ::
  "nat \<Rightarrow> world \<Rightarrow> verify_env \<Rightarrow> update_goal_envelope list \<Rightarrow> session \<Rightarrow> (string option awaited \<times> session) option" where
  "in_turn_decision fuel w q envelopes s =
     (if \<not> laziness_injection_active w s
      then map_option (\<lambda>(r, s'). (Returned r, s')) (run_graph_round_end fuel w s)
      else case run_goal_round_end w q envelopes s of
        (Dropped, s1) \<Rightarrow> Some (Dropped, s1)
      | (Returned (GrContinue d), s1) \<Rightarrow> Some (Returned (Some d), s1)
      | (Returned GrEndTurn, s1) \<Rightarrow> map_option (\<lambda>(r, s'). (Returned r, s')) (run_graph_round_end fuel w s1))"

end
