(* ===== verification/Goal_Keep.thy ===== *)
theory Goal_Keep
  imports Goal_Turn Session_Runs "HOL-Library.Sublist"
begin

text \<open>
  The goal engine as a client of the session.  \<open>goal_client\<close> is the contract: apart from the pause
  cascade and the budget enforcement, the engine asks the world, appends to the log anything but a
  checkpoint, and changes fields of its own.  The drain of the \<open>update_goal\<close> calls, the end of a round
  and the end of a turn are proved once against it.  It is interpreted on the runs of \<open>session_step\<close>
  and on the growth of the log.
\<close>

section \<open>Frames\<close>

definition no_checkpoint :: "session_event \<Rightarrow> bool" where
  "no_checkpoint e = (case e of Checkpoint _ \<Rightarrow> False | _ \<Rightarrow> True)"

lemma no_checkpoint_simps [simp]:
  "no_checkpoint (ClassifierEv c)" "no_checkpoint (PanelWrite p)" "no_checkpoint (Ack i a)" "no_checkpoint (QueuedDirective d)"
  "no_checkpoint (PrematureStop sp)" "no_checkpoint (GoalBadge o' x y)" "no_checkpoint (Output m)"
  by (simp_all add: no_checkpoint_def)

lemma core_emit: "list_all no_checkpoint es \<Longrightarrow> core (emit es s) = core s"
proof (induction es arbitrary: s)
  case (Cons e es)
  have "core (emit [e] s) = core s" using Cons.prems
    by (auto simp: core_def List.map_filter_simps no_checkpoint_def split: session_event.splits)
  moreover have "emit (e # es) s = emit es (emit [e] s)" by (simp add: emit_def)
  ultimately show ?case using Cons by simp
qed (simp add: emit_def)

lemma core_log [simp]:
  "core (note_event e s) = core s" "core (try_send_ack tx a s) = core s"
  "core (emit (map (\<lambda>(c, i). Ack i ack) envs) s) = core s"
  "core (emit (map ClassifierEv evs @ map PanelWrite fs) s) = core s"
  "core (emit [QueuedDirective d] s) = core s" "core (emit [PrematureStop p] s) = core s"
  by (simp_all add: note_event_def try_send_ack_def split: option.splits) (auto intro!: core_emit simp: list_all_iff)

lemma core_goal_steps [simp]:
  "core (prune_subagent_records s) = core s" "core (complete_goal_now w v d s) = core s"
  "core (maybe_run_goal_strategist w q s) = core s" "core (maybe_run_goal_summarizer w q s) = core s"
  "core (persist_stage r a s) = core s" "core (snd (freeze_assignment q s)) = core s" "core (emit_goal_verifying w c s) = core s"
  "core (consume_strategist_note n s) = core s" "core (record_and_emit_premature_stop w p s) = core s"
  by (auto simp: prune_subagent_records_def complete_goal_now_def maybe_run_goal_strategist_def maybe_run_goal_summarizer_def
      persist_stage_def freeze_assignment_def emit_goal_verifying_def consume_strategist_note_def record_and_emit_premature_stop_def
      Let_def core_emit dest: core_goal_tokensD split: option.splits prod.splits)

lemma core_commit_plan [simp]: "core (commit_plan w plan s) = core s"
  by (simp add: commit_plan_def Let_def split: option.splits)

section \<open>The contract\<close>

locale goal_client =
  fixes w :: world and P :: "session \<Rightarrow> bool"
  assumes ask: "P s \<Longrightarrow> P (tick s)"
    and log: "list_all no_checkpoint es \<Longrightarrow> P s \<Longrightarrow> P (emit es s)"
    and goal: "P s \<Longrightarrow> P (s\<lparr>ss_goal := t\<rparr>)"
    and own: "P s \<Longrightarrow> P (s\<lparr>ss_in_flight := b\<rparr>)" "P s \<Longrightarrow> P (s\<lparr>ss_blocked_streak := k\<rparr>)"
      "P s \<Longrightarrow> P (s\<lparr>ss_continuation_streak := k\<rparr>)" "P s \<Longrightarrow> P (s\<lparr>ss_pending_claims := pcl\<rparr>)" "P s \<Longrightarrow> P (s\<lparr>ss_records := rs\<rparr>)"
    and pause: "P s \<Longrightarrow> P (snd (auto_pause_goal w r m s))"
    and budget: "P s \<Longrightarrow> P (snd (enforce_goal_token_budget w c s))"
begin

lemma P_log:
  "P s \<Longrightarrow> P (note_event e s)" "P s \<Longrightarrow> P (try_send_ack tx a s)" "P s \<Longrightarrow> P (say m s)" "P s \<Longrightarrow> P (emit [QueuedDirective dir] s)"
  "P s \<Longrightarrow> P (emit [PrematureStop pat] s)" "P s \<Longrightarrow> P (emit [GoalBadge o' x y] s)"
  "P s \<Longrightarrow> P (emit (map ClassifierEv evs @ map PanelWrite fs) s)" "P s \<Longrightarrow> P (emit (map (\<lambda>(c, i). Ack i ack) envs) s)"
  by (auto simp: note_event_def try_send_ack_def say_def list_all_iff split: option.splits intro!: log)

lemmas P_basic = ask goal own P_log

lemma P_tx: "P s \<Longrightarrow> P (goal_tx w f s)"
  by (simp add: goal_tx_def P_basic)

lemma P_tokens: "goal_tokens_now c s = (used, s') \<Longrightarrow> P s \<Longrightarrow> P s'"
  by (auto simp: goal_tokens_now_def P_basic split: prod.splits)

lemma P_badge: "P s \<Longrightarrow> P (emit_goal_updated w used s)"
  by (simp add: emit_goal_updated_def Let_def P_basic P_tx split: option.splits)

lemma P_verifying: "P s \<Longrightarrow> P (emit_goal_verifying w c s)"
  by (auto simp: emit_goal_verifying_def Let_def P_basic P_tx split: option.splits prod.splits dest: P_tokens)

lemma P_freeze: "freeze_assignment q s = (ov, s') \<Longrightarrow> P s \<Longrightarrow> P s'"
  by (auto simp: freeze_assignment_def Let_def P_basic split: option.splits if_splits)

lemma P_steps:
  "P s \<Longrightarrow> P (complete_goal_now w v d s)" "P s \<Longrightarrow> P (maybe_run_goal_strategist w q s)" "P s \<Longrightarrow> P (maybe_run_goal_summarizer w q s)"
  "P s \<Longrightarrow> P (persist_stage r an s)" "P s \<Longrightarrow> P (commit_plan w plan s)"
  by (simp_all add: complete_goal_now_def prune_subagent_records_def maybe_run_goal_strategist_def maybe_run_goal_summarizer_def
      persist_stage_def commit_plan_def consume_strategist_note_def record_and_emit_premature_stop_def Let_def P_basic P_tx split: option.splits)

lemmas P_simps = P_basic P_tx P_badge P_verifying P_steps

lemma P_cap_pauses:
  "P s \<Longrightarrow> P (auto_pause_for_classifier_cap w n d p s)" "P s \<Longrightarrow> P (auto_pause_for_classifier_stall w d p s)"
  "P s \<Longrightarrow> P (auto_pause_for_classifier_blocked w d p s)"
  by (simp_all add: auto_pause_for_classifier_cap_def auto_pause_for_classifier_stall_def auto_pause_for_classifier_blocked_def
      pause P_simps)

lemma P_outcome: "P s \<Longrightarrow> P (snd (apply_classifier_outcome w q pol n out s))"
  by (auto simp: apply_classifier_outcome_def apply_achieved_def apply_fail_open_def apply_blocked_def apply_not_achieved_def Let_def
      P_simps P_cap_pauses split: prod.splits goal_classifier_outcome.splits dest: P_tokens)

lemma P_account: "P s \<Longrightarrow> P (snd (account_not_achieved_without_sampler w q pol s))"
  by (auto simp: account_not_achieved_without_sampler_def Let_def P_simps P_cap_pauses split: prod.splits option.splits dest: P_tokens)

lemma P_stage: "(\<And>s. P s \<Longrightarrow> P (during s)) \<Longrightarrow> P s \<Longrightarrow> P (snd (run_verification_stage_for_drain w q during n mx s))"
  by (auto simp: run_verification_stage_for_drain_def Let_def P_simps split: prod.splits option.splits dest: P_freeze)

lemma P_fire:
  assumes "\<And>s. P s \<Longrightarrow> P (during s)" "P s"
  shows "P (snd (drain_fire w q during c pol tx (fl, s)))"
proof -
  have 1: "P (emit_goal_verifying w c (s\<lparr>ss_goal := g, ss_in_flight := True\<rparr>))" for g using assms(2) by (simp add: P_simps)
  have 2: "P s2" if "run_verification_stage_for_drain w q during n mx (emit_goal_verifying w c (s\<lparr>ss_goal := g, ss_in_flight := True\<rparr>)) = (out, s2)"
    for g n mx out s2
    using P_stage [where during = during and q = q and n = n and mx = mx, OF assms(1) 1 [of g]] that by simp
  have 3: "P s4" if "apply_classifier_outcome w q pol n out (s3\<lparr>ss_goal := g\<rparr>) = (a, s4)" "P s3" for n out s3 a s4 g
    using P_outcome [of "s3\<lparr>ss_goal := g\<rparr>" q pol n out] that by (simp add: P_simps)
  show ?thesis
    using assms(2) by (auto simp: drain_fire_def Let_def P_simps split: prod.splits option.splits dest: 2 3)
qed

lemma P_cmd:
  assumes "\<And>s. P s \<Longrightarrow> P (during s)" "P s"
  shows "P (snd (drain_cmd w q during purpose c (cmd, tx) (fl, s)))"
proof -
  have p: "P s2" if "auto_pause_goal w Verification msg (s\<lparr>ss_blocked_streak := k\<rparr>) = (ap, s2)" for msg k ap s2
    using pause [of "s\<lparr>ss_blocked_streak := k\<rparr>" Verification msg] that assms(2) by (simp add: P_simps)
  have b: "P (snd (drain_blocked w cmd reason tx (fl, s)))" for reason
    using assms(2) by (auto simp: drain_blocked_def Let_def P_simps split: prod.splits dest: p)
  have m: "P (drain_message w c cmd tx s)" using assms(2) by (auto simp: drain_message_def P_simps split: prod.splits dest: P_tokens)
  have u: "P (drain_unverified w c tx s')" if "P s'" for s'
    using that by (auto simp: drain_unverified_def P_simps split: prod.splits dest: P_tokens)
  have f: "P (snd (drain_in_flight w q pol tx (fl, s')))" if "P s'" for s' pol
    using P_account [of "note_event (ClassifierFailClosed ConcurrentInFlight 0) s'" q pol] that
    by (auto simp: drain_in_flight_def P_simps split: prod.splits option.splits)
  have "P (snd (drain_completed w q during purpose c cmd tx (fl, s)))"
    using assms u f P_fire [OF assms(1)]
    by (auto simp: drain_completed_def Let_def drain_non_active_def drain_defer_def P_simps split: option.splits)
  then show ?thesis using assms(2) b m by (auto simp: drain_cmd_def P_simps split: option.splits)
qed

lemma P_loop: "(\<And>s. P s \<Longrightarrow> P (during s)) \<Longrightarrow> P (snd st) \<Longrightarrow> P (snd (drain_loop w q during purpose c es st))"
proof (induction es arbitrary: st)
  case (Cons e es)
  have "P (snd (drain_cmd w q during purpose c e st))"
    using P_cmd [OF Cons.prems, where cmd = "fst e" and tx = "snd e" and fl = "fst st"] by simp
  then show ?case using Cons.IH [OF Cons.prems(1)] by (simp add: Let_def)
qed simp

lemma P_drain_with:
  assumes "\<And>s. P s \<Longrightarrow> P (during s)" "P s"
  shows "P (snd (drain_with w q during c purpose envs s))"
proof -
  let ?s0 = "case purpose of TurnEnd \<Rightarrow> s\<lparr>ss_pending_claims := []\<rparr> | MidTurn \<Rightarrow> s"
  have "P ?s0" using assms(2) by (simp add: P_simps split: drain_purpose.splits)
  then have "P (snd (drain_loop w q during purpose c (drain_sources purpose envs s) (flags0, ?s0)))"
    using P_loop [OF assms(1)] by simp
  then show ?thesis using assms(2) by (auto simp: drain_with_def Let_def P_simps split: prod.splits)
qed

lemma P_meanwhile: "P s \<Longrightarrow> P (meanwhile w q s)"
proof -
  have one: "P (run_concurrent w q op s)" if "P s" for op s
    using that pause P_drain_with [of "\<lambda>s. s" "tick s" q] by (simp add: run_concurrent_def P_simps split: concurrent_op.splits)
  have "P (fold (run_concurrent w q) ops s)" if "P s" for ops s using that one by (induction ops arbitrary: s) auto
  then show "P s \<Longrightarrow> P (meanwhile w q s)" by (simp add: meanwhile_def P_simps)
qed

lemma P_drain: "P s \<Longrightarrow> P (snd (drain_goal_updates w q c purpose envs s))"
  unfolding drain_goal_updates_def by (rule P_drain_with [OF P_meanwhile])

lemma P_after_drain: "P s \<Longrightarrow> P (snd (continuation_after_drain w q c s))"
proof (cases "goal_tokens_now c (tick s)")
  case (Pair used s1)
  assume "P s"
  then have "P s1" using P_tokens [OF Pair] by (simp add: P_simps)
  then have "P (snd (enforce_goal_token_budget w c s1))" by (rule budget)
  then show ?thesis using \<open>P s\<close> Pair by (auto simp: continuation_after_drain_def Let_def P_simps split: prod.splits option.splits)
qed

lemma P_prepare: "P s \<Longrightarrow> P (snd (prepare_goal_continuation w q c envs s))"
  using P_drain [of s q c TurnEnd envs] P_after_drain
  by (auto simp: prepare_goal_continuation_def split: prod.splits) (metis snd_conv)

lemma P_round_end: "P s \<Longrightarrow> P (snd (run_goal_round_end w q envs s))"
  using P_prepare [of "tick s" q "w_tokens w (ss_tick s)" envs]
  by (auto simp: run_goal_round_end_def P_simps split: prod.splits option.splits awaited.splits)

lemma P_queue: "P s \<Longrightarrow> P (snd (maybe_queue_goal_continuation w q envs s))"
  using P_prepare [of "tick s" q "w_tokens w (ss_tick s)" envs]
  by (auto simp: maybe_queue_goal_continuation_def P_simps split: prod.splits option.splits awaited.splits)

lemma P_turn_end: "P s \<Longrightarrow> P (handle_turn_end w q ok envs s)"
proof -
  assume s: "P s"
  have e: "P s1" if "enforce_goal_token_budget w (w_tokens w (ss_tick s)) (tick s) = (tr, s1)" for tr s1
    using budget [of "tick s" "w_tokens w (ss_tick s)"] s that by (simp add: P_simps)
  show ?thesis
    using s P_queue by (auto simp: handle_turn_end_def Let_def P_simps pause split: prod.splits dest!: e)
qed

end

section \<open>Runs of the session\<close>

text \<open>Every operation of the goal engine is a run of the session's transition system.\<close>

interpretation goal_run: goal_client w "\<lambda>s'. (session_step w)\<^sup>*\<^sup>* s s'" for w s
proof -
  have frame: "(session_step w)\<^sup>*\<^sup>* s b" if "(session_step w)\<^sup>*\<^sup>* s a" "core b = core a" for a b
    using that session_step.goal by (meson rtranclp.rtrancl_into_rtrancl)
  show "goal_client w (\<lambda>s'. (session_step w)\<^sup>*\<^sup>* s s')"
  proof
    show "(session_step w)\<^sup>*\<^sup>* s (snd (auto_pause_goal w r m a))" if "(session_step w)\<^sup>*\<^sup>* s a" for a r m
      using that session_step.interrupt by (meson rtranclp.rtrancl_into_rtrancl)
    show "(session_step w)\<^sup>*\<^sup>* s (snd (enforce_goal_token_budget w c a))" if "(session_step w)\<^sup>*\<^sup>* s a" for a c
      using that session_step.enforce by (meson rtranclp.rtrancl_into_rtrancl)
  qed (auto elim!: frame simp: core_emit)
qed

lemma goal_engine_runs:
  "(session_step w)\<^sup>*\<^sup>* s (snd (drain_goal_updates w q c purpose envs s))"
  "(session_step w)\<^sup>*\<^sup>* s (snd (run_goal_round_end w q envs s))"
  "(session_step w)\<^sup>*\<^sup>* s (handle_turn_end w q ok envs s)"
  by (simp_all add: goal_run.P_drain goal_run.P_round_end goal_run.P_turn_end)

lemma in_turn_decision_run:
  assumes "sess_inv w s" "drive_fuel w \<le> fuel"
  shows "\<exists>r s'. in_turn_decision fuel w q envs s = Some (r, s') \<and> (session_step w)\<^sup>*\<^sup>* s s' \<and> sess_inv w s'"
proof -
  have run: "sess_inv w b" if "(session_step w)\<^sup>*\<^sup>* s b" for b using that session.inv_steps assms(1) by blast
  have graph: "\<exists>r s'. map_option (\<lambda>(r, s'). (Returned r, s')) (run_graph_round_end fuel w a) = Some (r, s') \<and>
      (session_step w)\<^sup>*\<^sup>* s s'" if "(session_step w)\<^sup>*\<^sup>* s a" for a
  proof -
    obtain r s' where "run_graph_round_end fuel w a = Some (r, s')"
      using round_end_post [OF run [OF \<open>(session_step w)\<^sup>*\<^sup>* s a\<close>] assms(2)] by (auto simp: drive_post_def)
    then show ?thesis using that session_step.round_end [OF _ assms(2)] by (auto intro: rtranclp.rtrancl_into_rtrancl)
  qed
  have g: "(session_step w)\<^sup>*\<^sup>* s (snd (run_goal_round_end w q envs s))" by (rule goal_engine_runs)
  have "\<exists>r s'. in_turn_decision fuel w q envs s = Some (r, s') \<and> (session_step w)\<^sup>*\<^sup>* s s'"
    using g graph [of s] graph [of "snd (run_goal_round_end w q envs s)"]
    by (auto simp: in_turn_decision_def split: prod.splits awaited.splits goal_round_decision.splits)
  then show ?thesis using run by blast
qed

section \<open>Growth\<close>

text \<open>Nothing already asked or logged is undone.\<close>

definition grew :: "session \<Rightarrow> session \<Rightarrow> bool" where
  "grew s s' \<longleftrightarrow> ss_tick s \<le> ss_tick s' \<and> prefix (ss_log s) (ss_log s')"

lemma grew_refl [simp]: "grew s s"
  by (simp add: grew_def)

lemma grew_trans [trans]: "grew a b \<Longrightarrow> grew b c \<Longrightarrow> grew a c"
  unfolding grew_def using prefix_order.trans by fastforce

lemma grew_steps:
  "grew s (tick s)" "grew s (emit es s)" "grew s (goal_tx w f s)" "grew s (graph_tx w g s)" "grew s (persist_graph_state w s)"
  "grew s (say m s)" "grew s (snd (goal_tokens_now c s))" "grew s (emit_goal_updated w used s)" "grew s (s\<lparr>ss_pending_claims := pcl\<rparr>)"
  by (auto simp: grew_def tick_def emit_def goal_tx_def graph_tx_def persist_graph_state_def say_def goal_tokens_now_def
      emit_goal_updated_def Let_def split: prod.splits option.splits)

lemma grew_pause_goal_part: "grew s (pause_goal_part w r m s)"
proof -
  let ?sa = "(goal_tx w (\<lambda>h ck t. snd (goal_pause_inner ck r m t)) s)\<lparr>ss_pending_claims := []\<rparr>"
  have "grew s ?sa" using grew_steps(3,9) grew_trans by blast
  then have "grew s (snd (goal_tokens_now (w_tokens w (ss_tick s)) ?sa))" using grew_steps(7) grew_trans by blast
  then show ?thesis
    using grew_steps(1) by (auto simp: pause_goal_part_def Let_def split: prod.splits intro!: grew_trans [OF _ grew_steps(2)] grew_trans [OF _ grew_steps(8)])
qed

lemma grew_pause: "grew s (snd (auto_pause_goal w r m s))"
  using grew_pause_goal_part [of s w r m]
  by (auto simp: auto_pause_split Let_def intro: grew_trans [OF _ grew_steps(5)] grew_trans [OF _ grew_steps(4)])

lemma grew_budget: "grew s (snd (enforce_goal_token_budget w c s))"
proof (cases "goal_tokens_now c s")
  case (Pair used s1)
  then have "grew s s1" using grew_steps(7) [of s c] by simp
  then show ?thesis
    by (auto simp: enforce_goal_token_budget_def Pair Let_def split: option.splits
        intro!: grew_trans [OF _ grew_steps(6)] grew_trans [OF _ grew_steps(5)] grew_trans [OF _ grew_steps(4)] grew_trans [OF _ grew_steps(8)]
          grew_trans [OF _ grew_steps(9)] grew_trans [OF _ grew_steps(3)])
qed

interpretation growth: goal_client w "grew s" for w s
proof
  show "grew s (tick a)" if "grew s a" for a using that grew_steps(1) grew_trans by blast
  show "grew s (emit es a)" if "grew s a" for a es using that grew_steps(2) grew_trans by blast
  show "grew s (snd (auto_pause_goal w r m a))" if "grew s a" for a r m using that grew_pause grew_trans by blast
  show "grew s (snd (enforce_goal_token_budget w c a))" if "grew s a" for a c using that grew_budget grew_trans by blast
qed (simp_all add: grew_def)

end
