(* ===== verification/Goal_Panel.thy ===== *)
theory Goal_Panel
  imports Goal_Classifier
begin

text \<open>
  What the skeptic panel decides.  A completion is approved only by a strict majority of the
  independent skeptics that really answered in favour, and never against a confident refutation of
  skeptic 0; every failure of a skeptic counts as a refutation; a rejection always names a gap; the
  stall fingerprint depends on the set of the cited gaps alone.
\<close>

section \<open>Counting votes\<close>

abbreviation cold :: "skeptic_result \<Rightarrow> bool" where
  "cold r \<equiv> sr_skeptic_idx r \<ge> 1"

lemma of_nat_le_u32: "m < 2 ^ 32 \<Longrightarrow> n < 2 ^ 32 \<Longrightarrow> (of_nat m :: u32) \<le> of_nat n \<longleftrightarrow> m \<le> n"
  by (simp add: word_le_nat_alt unat_of_nat)

lemma unat_of_nat_u32: "n < 2 ^ 32 \<Longrightarrow> unat (of_nat n :: u32) = n"
  by (simp add: unat_of_nat)

lemma aggregate_single: "aggregate_skeptic_verdicts [r] = (if sr_refuted r then 1 else 0, 1, \<not> sr_refuted r)"
  by (simp add: aggregate_skeptic_verdicts_def)

lemma aggregate_many:
  assumes "2 \<le> length rs" "length rs < 2 ^ 32"
  shows "snd (snd (aggregate_skeptic_verdicts rs)) \<longleftrightarrow>
    length (filter cold rs) < 2 * length (filter (\<lambda>r. cold r \<and> \<not> sr_refuted r) rs)"
proof -
  let ?c = "length (filter cold rs)" and ?y = "length (filter (\<lambda>r. cold r \<and> \<not> sr_refuted r) rs)"
  have c: "?c < 2 ^ 32" "?y < 2 ^ 32"
    using assms(2) length_filter_le [of cold rs] length_filter_le [of "\<lambda>r. cold r \<and> \<not> sr_refuted r" rs] by linarith+
  have t: "unat (of_nat (length rs) :: u32) = length rs" using assms(2) by (rule unat_of_nat_u32)
  have not1: "\<not> (of_nat (length rs) :: u32) \<le> 1" "(of_nat (length rs) :: u32) \<noteq> 0"
    using assms(1) t by (auto simp: word_le_nat_alt unat_eq_zero [symmetric])
  have "unat ((of_nat ?c :: u32) div 2 + 1) = ?c div 2 + 1"
    using c(1) by (simp add: unat_word_ariths unat_div unat_of_nat)
  then have "((of_nat ?c :: u32) div 2 + 1 \<le> of_nat ?y) = (?c div 2 + 1 \<le> ?y)"
    using c(2) by (simp add: word_le_nat_alt unat_of_nat)
  then show ?thesis using not1 by (auto simp: aggregate_skeptic_verdicts_def Let_def)
qed

section \<open>The panel\<close>

abbreviation panel_size :: "stage_inputs \<Rightarrow> nat" where
  "panel_size v \<equiv> unat (clamp_skeptics (vi_skeptic_count v))"

lemma panel_size_bounds: "1 \<le> panel_size v" "panel_size v \<le> 5"
proof -
  have "(1::u32) \<le> clamp_skeptics (vi_skeptic_count v)" "clamp_skeptics (vi_skeptic_count v) \<le> (5::u32)"
    by (auto simp: clamp_skeptics_def GOAL_VERIFIER_SKEPTIC_MIN_def GOAL_VERIFIER_SKEPTIC_MAX_def max_def min_def)
  then show "1 \<le> panel_size v" "panel_size v \<le> 5" by (simp_all add: word_le_nat_alt)
qed

text \<open>The vote of skeptic \<open>i\<close>: skeptic 0 of a larger panel may resume its previous session.\<close>

definition vote :: "panel_io \<Rightarrow> goal_host \<Rightarrow> stage_inputs \<Rightarrow> nat \<Rightarrow> skeptic_result" where
  "vote io h v i = fst (run_one_skeptic io h (vi_overrides v) (vi_verifier_id v) (vi_attempt v)
     (if i = 0 \<and> 1 < panel_size v then vi_prior_skeptic0 v else None) i)"

lemma run_one_skeptic_idx: "sr_skeptic_idx (fst (run_one_skeptic io h ov vid at r i)) = of_nat i"
  by (auto simp: run_one_skeptic_def run_cold_skeptic_def read_skeptic_verdict_def skeptic_failure_def Let_def
      split: option.splits sum.splits)

lemma vote_idx: "sr_skeptic_idx (vote io h v i) = of_nat i"
  by (simp add: vote_def run_one_skeptic_idx)

definition decisive :: "skeptic_result \<Rightarrow> bool" where
  "decisive r \<longleftrightarrow> sr_refuted r \<and> sr_confidence r = High"

lemma run_panel_votes:
  "fst (run_panel io h v) =
     (if 1 < panel_size v \<and> decisive (vote io h v 0) \<and> \<not> is_blocking (sr_blocking (vote io h v 0)) then [vote io h v 0]
      else map (vote io h v) [0..<panel_size v])"
  "fst (snd (run_panel io h v)) \<longleftrightarrow> 1 < panel_size v \<and> decisive (vote io h v 0)"
proof -
  have one: "panel_size v = 1" if "\<not> 1 < panel_size v" using that panel_size_bounds(1) [of v] by simp
  have up: "[0..<panel_size v] = 0 # [1..<panel_size v]" using panel_size_bounds(1) [of v] upt_conv_Cons [of 0 "panel_size v"] by simp
  show "fst (run_panel io h v) =
     (if 1 < panel_size v \<and> decisive (vote io h v 0) \<and> \<not> is_blocking (sr_blocking (vote io h v 0)) then [vote io h v 0]
      else map (vote io h v) [0..<panel_size v])"
    by (cases "1 < panel_size v") (use one in \<open>auto simp: up run_panel_def Let_def vote_def decisive_def split_beta comp_def\<close>)
  show "fst (snd (run_panel io h v)) \<longleftrightarrow> 1 < panel_size v \<and> decisive (vote io h v 0)"
    by (auto simp: run_panel_def Let_def vote_def decisive_def split_beta)
qed

lemma votes_cold:
  assumes "i < 5"
  shows "cold (vote io h v i) \<longleftrightarrow> 1 \<le> i"
proof -
  have "unat (of_nat i :: u32) = i" using assms by (intro unat_of_nat_u32) simp
  then show ?thesis by (simp add: vote_idx word_le_nat_alt)
qed

lemma cold_votes:
  assumes "1 < panel_size v"
  shows "filter (\<lambda>r. cold r \<and> P r) (map (vote io h v) [0..<panel_size v]) = map (vote io h v) (filter (\<lambda>i. P (vote io h v i)) [1..<panel_size v])"
proof -
  have up: "[0..<panel_size v] = 0 # [1..<panel_size v]" using assms upt_conv_Cons [of 0 "panel_size v"] by simp
  have "filter (\<lambda>i. cold (vote io h v i) \<and> P (vote io h v i)) [1..<panel_size v] = filter (\<lambda>i. P (vote io h v i)) [1..<panel_size v]"
    using panel_size_bounds(2) [of v] by (intro filter_cong) (auto simp: votes_cold)
  then show ?thesis unfolding up using votes_cold [of 0] by (simp add: filter_map comp_def)
qed

definition approves :: "panel_io \<Rightarrow> goal_host \<Rightarrow> stage_inputs \<Rightarrow> bool" where
  "approves io h v \<longleftrightarrow>
     (if panel_size v = 1 then \<not> sr_refuted (vote io h v 0)
      else \<not> decisive (vote io h v 0) \<and>
           panel_size v - 1 < 2 * card {i. 1 \<le> i \<and> i < panel_size v \<and> \<not> sr_refuted (vote io h v i)})"

lemma length_filter_upt: "length (filter P [a..<b]) = card {i. a \<le> i \<and> i < b \<and> P i}"
  using distinct_card [of "filter P [a..<b]"] by (auto intro!: arg_cong [of _ _ card])

lemma panel_verdict:
  "snd (snd (aggregate_skeptic_verdicts (fst (run_panel io h v)))) \<and> \<not> fst (snd (run_panel io h v)) \<longleftrightarrow> approves io h v"
proof (cases "panel_size v = 1")
  case True
  then show ?thesis by (simp add: run_panel_votes approves_def aggregate_single)
next
  case False
  then have n: "1 < panel_size v" using panel_size_bounds(1) [of v] by simp
  let ?rs = "map (vote io h v) [0..<panel_size v]"
  have len: "2 \<le> length ?rs" "length ?rs < 2 ^ 32" using n panel_size_bounds(2) [of v] by simp_all
  have "length (filter cold ?rs) = panel_size v - 1" using cold_votes [OF n, of "\<lambda>_. True" io h] by simp
  moreover have "length (filter (\<lambda>r. cold r \<and> \<not> sr_refuted r) ?rs) = card {i. 1 \<le> i \<and> i < panel_size v \<and> \<not> sr_refuted (vote io h v i)}"
    using cold_votes [OF n, of "\<lambda>r. \<not> sr_refuted r" io h] by (simp add: length_filter_upt)
  ultimately show ?thesis
    using aggregate_many [OF len] n False by (auto simp: run_panel_votes approves_def)
qed

section \<open>The stage\<close>

text \<open>Skeptic \<open>i\<close>, run cold, really answered in favour: a verdict file with evidence, or the bare terminal token.\<close>

definition in_favour :: "panel_io \<Rightarrow> stage_inputs \<Rightarrow> nat \<Rightarrow> bool" where
  "in_favour io v i \<longleftrightarrow> (\<exists>terminal. spawn_classifier io (vi_overrides v) i False = Inr terminal \<and>
     (case Option.bind (sk_verdict_file io i False) (parse_verdict_json (pi_parse io)) of
        Some sv \<Rightarrow> \<not> sv_refuted sv
      | None \<Rightarrow> parse_skeptic_terminal_response terminal = Some False))"

lemma not_refuted_in_favour:
  assumes "\<not> sr_refuted (vote io h v i)" "i \<noteq> 0 \<or> panel_size v = 1"
  shows "in_favour io v i"
proof -
  have "(if i = 0 \<and> 1 < panel_size v then vi_prior_skeptic0 v else None) = None" using assms(2) by auto
  then have "\<not> sr_refuted (fst (run_one_skeptic io h (vi_overrides v) (vi_verifier_id v) (vi_attempt v) None i))"
    using assms(1) by (simp add: vote_def)
  then show ?thesis
    by (auto simp: in_favour_def run_one_skeptic_def run_cold_skeptic_def read_skeptic_verdict_def skeptic_failure_def Let_def
        split: option.splits sum.splits if_splits bind_splits)
qed

text \<open>The stage reaches the panel: the paths are safe, the scratch root is ours and the patch was written.\<close>

definition panel_reached :: "panel_io \<Rightarrow> goal_host \<Rightarrow> stage_inputs \<Rightarrow> bool" where
  "panel_reached io h v \<longleftrightarrow> \<not> path_rejected h (format_details_path h (vi_verifier_id v) (vi_attempt v)) \<and> pi_root_err io = None \<and>
     \<not> path_rejected h (format_changes_path h (vi_verifier_id v) (vi_attempt v)) \<and> (pi_capture io = CaptureErr \<or> pi_patch_ok io)"

lemma stage_panel: "panel_reached io h v \<Longrightarrow> \<exists>fs. run_verification_stage io h v = judge_panel io h v fs"
  by (auto simp: panel_reached_def run_verification_stage_def Let_def split: changes_capture.splits)

lemma stage_fail_open: "\<not> panel_reached io h v \<Longrightarrow> \<exists>p. run_verification_stage io h v = record_fail_open io FileWriteFailed v p"
  by (auto simp: panel_reached_def run_verification_stage_def Let_def split: changes_capture.splits)

lemma judge_panel_outcome:
  "vr_outcome (judge_panel io h v fs) = panel_outcome (fst (run_panel io h v)) (approves io h v) (format_details_path h (vi_verifier_id v) (vi_attempt v))"
  using panel_verdict [of io h v] by (simp add: judge_panel_def Let_def split_beta)

lemma stage_outcome:
  "vr_outcome (run_verification_stage io h v) = OutAchieved d \<longleftrightarrow>
     panel_reached io h v \<and> approves io h v \<and> d = format_details_path h (vi_verifier_id v) (vi_attempt v)"
proof (cases "panel_reached io h v")
  case True
  then obtain fs where "run_verification_stage io h v = judge_panel io h v fs" using stage_panel by blast
  then show ?thesis using True by (auto simp: judge_panel_outcome panel_outcome_def)
next
  case False
  then obtain p where "run_verification_stage io h v = record_fail_open io FileWriteFailed v p" using stage_fail_open by blast
  then show ?thesis using False by (simp add: record_fail_open_def)
qed

lemma approves_majority:
  assumes "approves io h v"
  shows "panel_size v = 1 \<and> in_favour io v 0 \<or>
    1 < panel_size v \<and> \<not> decisive (vote io h v 0) \<and> panel_size v - 1 < 2 * card {i. 1 \<le> i \<and> i < panel_size v \<and> in_favour io v i}"
proof (cases "panel_size v = 1")
  case True
  then show ?thesis using assms not_refuted_in_favour [of io h v 0] by (simp add: approves_def)
next
  case False
  have "{i. 1 \<le> i \<and> i < panel_size v \<and> \<not> sr_refuted (vote io h v i)} \<subseteq> {i. 1 \<le> i \<and> i < panel_size v \<and> in_favour io v i}"
    using not_refuted_in_favour [of io h v] by auto
  then have "card {i. 1 \<le> i \<and> i < panel_size v \<and> \<not> sr_refuted (vote io h v i)} \<le> card {i. 1 \<le> i \<and> i < panel_size v \<and> in_favour io v i}"
    by (rule card_mono [rotated]) simp
  then show ?thesis using assms False panel_size_bounds(1) [of v] by (simp add: approves_def)
qed

section \<open>Rejections\<close>

lemma rejected_has_refuter:
  assumes "\<not> approves io h v"
  shows "\<exists>r \<in> set (fst (run_panel io h v)). sr_refuted r"
proof (cases "panel_size v = 1")
  case True
  then show ?thesis using assms by (simp add: approves_def run_panel_votes)
next
  case False
  then have n: "1 < panel_size v" using panel_size_bounds(1) [of v] by simp
  show ?thesis
  proof (cases "decisive (vote io h v 0)")
    case True
    then show ?thesis using n by (auto simp: run_panel_votes decisive_def intro!: bexI [of _ 0])
  next
    case d: False
    have "{i. 1 \<le> i \<and> i < panel_size v \<and> \<not> sr_refuted (vote io h v i)} \<noteq> {1..<panel_size v}"
    proof
      assume "{i. 1 \<le> i \<and> i < panel_size v \<and> \<not> sr_refuted (vote io h v i)} = {1..<panel_size v}"
      then have "card {i. 1 \<le> i \<and> i < panel_size v \<and> \<not> sr_refuted (vote io h v i)} = panel_size v - 1" by simp
      then show False using assms d n False by (simp add: approves_def)
    qed
    then obtain i where "1 \<le> i" "i < panel_size v" "sr_refuted (vote io h v i)" by auto
    then show ?thesis using d by (auto simp: run_panel_votes)
  qed
qed

lemma join_Nil: "join sep xs = [] \<Longrightarrow> x \<in> set xs \<Longrightarrow> x = []"
  by (induction sep xs rule: join.induct) auto

lemma render_refuter_bullet_nonempty: "render_refuter_bullet r \<noteq> []"
  by (simp add: render_refuter_bullet_def Let_def split: option.splits)

lemma gaps_summary_nonempty: "\<exists>r \<in> set rs. sr_refuted r \<Longrightarrow> build_gaps_summary rs \<noteq> []"
proof
  assume "\<exists>r \<in> set rs. sr_refuted r" and e: "build_gaps_summary rs = []"
  then obtain r where "r \<in> set (refuters_by_confidence rs)" by (auto simp: refuters_by_confidence_def)
  then have "render_refuter_bullet r \<in> set (map render_refuter_bullet (refuters_by_confidence rs))" by simp
  then show False using join_Nil e render_refuter_bullet_nonempty unfolding build_gaps_summary_def by blast
qed

lemma panel_outcome_cases:
  assumes "vr_outcome (run_verification_stage io h v) = out"
  shows "case out of
      OutAchieved d \<Rightarrow> approves io h v
    | OutNotAchieved d gaps pause fp \<Rightarrow> \<not> approves io h v \<and> gaps \<noteq> [] \<and>
        (\<exists>r \<in> set (fst (run_panel io h v)). sr_refuted r \<and> \<not> is_blocking (sr_blocking r))
    | OutBlocked d pause \<Rightarrow> \<not> approves io h v \<and> (\<forall>r \<in> set (fst (run_panel io h v)). sr_refuted r \<longrightarrow> is_blocking (sr_blocking r))
    | OutFailOpenAchieved reason d \<Rightarrow> \<not> panel_reached io h v"
proof (cases "panel_reached io h v")
  case True
  then obtain fs where s: "run_verification_stage io h v = judge_panel io h v fs" using stage_panel by blast
  show ?thesis
    using assms rejected_has_refuter [of io h v] gaps_summary_nonempty [of "fst (run_panel io h v)"]
    unfolding s judge_panel_outcome
    by (cases "approves io h v")
       (auto simp: panel_outcome_def list_ex_iff list_all_iff)
next
  case False
  then obtain p where "run_verification_stage io h v = record_fail_open io FileWriteFailed v p" using stage_fail_open by blast
  then show ?thesis using assms False by (auto simp: record_fail_open_def)
qed

section \<open>Fingerprint and assignment\<close>

lemma sorted_distinct_remdups_adj: "sorted xs \<Longrightarrow> distinct (remdups_adj xs)"
  by (induction xs rule: remdups_adj.induct) (auto simp: less_le)

lemma sort_dedup_set: "set xs = set ys \<Longrightarrow> remdups_adj (sort xs) = remdups_adj (sort (ys :: 'a :: linorder list))"
proof -
  assume "set xs = set ys"
  moreover have "sorted (remdups_adj (sort zs))" "distinct (remdups_adj (sort zs))" for zs :: "'a list"
    by (simp_all add: sorted_remdups_adj sorted_distinct_remdups_adj)
  ultimately show ?thesis by (intro sorted_distinct_set_unique) simp_all
qed

lemma gap_fingerprint_set:
  assumes "set evs = set evs'"
  shows "gap_fingerprint evs = gap_fingerprint evs'"
proof -
  let ?c = "\<lambda>es. concat (map extract_path_line_tokens (map normalize_scratch_paths es))"
  let ?f = "\<lambda>es. filter (\<lambda>e. e \<noteq> []) (map (\<lambda>e. to_ascii_lowercase (trim e)) (map normalize_scratch_paths es))"
  have c: "set (?c evs) = set (?c evs')" and f: "set (?f evs) = set (?f evs')" using assms by auto
  have "?c evs = [] \<longleftrightarrow> ?c evs' = []" using c by (metis set_empty)
  then have "set (if ?c evs = [] then ?f evs else ?c evs) = set (if ?c evs' = [] then ?f evs' else ?c evs')" using c f by simp
  from sort_dedup_set [OF this] show ?thesis unfolding gap_fingerprint_def Let_def by (rule arg_cong)
qed

lemma expand_assignment:
  "prefix existing (expand_skeptic_assignment existing pool n)"
  "pool \<noteq> [] \<Longrightarrow> length (expand_skeptic_assignment existing pool n) = max n (length existing)"
  "pool \<noteq> [] \<Longrightarrow> length existing \<le> i \<Longrightarrow> i < n \<Longrightarrow> expand_skeptic_assignment existing pool n ! i = pool ! (i mod length pool)"
  by (auto simp: expand_skeptic_assignment_def nth_append)

lemma expand_assignment_stable:
  "expand_skeptic_assignment (expand_skeptic_assignment existing pool n) pool' m =
     expand_skeptic_assignment existing pool n @ drop (length (expand_skeptic_assignment existing pool n))
       (expand_skeptic_assignment (expand_skeptic_assignment existing pool n) pool' m)"
  using expand_assignment(1) [of "expand_skeptic_assignment existing pool n" pool' m] by (metis prefix_def append_eq_conv_conj)

text \<open>A pair is used only when the model is selectable and its harness resolves to a capable toolset.\<close>

lemma resolve_override_gates:
  assumes "resolve_goal_role_override e q cap pair cache = (Inr p, cache')"
    and cached: "\<And>a out. (a, out) \<in> set cache \<Longrightarrow> \<exists>i. out = re_describe e i a"
  shows "p = pair" "re_selectable e (grm_model pair) = Some True"
    "re_strict e (grm_agent_type pair) \<longrightarrow> re_representable e (grm_agent_type pair)"
    "\<exists>i s. re_describe e i (grm_agent_type pair) = DescribeOk s \<and> capability_satisfied cap s"
proof -
  note d = assms(1) [unfolded resolve_goal_role_override_def Let_def]
  show "p = pair" "re_selectable e (grm_model pair) = Some True"
    "re_strict e (grm_agent_type pair) \<longrightarrow> re_representable e (grm_agent_type pair)"
    using d by (auto simp: resolve_described_def split: option.splits if_splits describe_outcome.splits)
  have "resolve_described cap pair out = Inr p \<Longrightarrow> \<exists>s. out = DescribeOk s \<and> capability_satisfied cap s" for out
    by (auto simp: resolve_described_def split: describe_outcome.splits if_splits)
  then show "\<exists>i s. re_describe e i (grm_agent_type pair) = DescribeOk s \<and> capability_satisfied cap s"
    using d cached by (force split: option.splits if_splits dest!: map_of_SomeD)
qed

end
