(* ===== verification/Goal_Engine.thy ===== *)
theory Goal_Engine
  imports Goal_Keep Goal_Panel
begin

text \<open>
  The verification loop keeps its promises: the number of panels between two resumes is bounded,
  the strategist's bonus included; with verification enabled a goal is complete only when the panel
  that ran for it approved, or an infrastructure failure kept the panel from running; the queue of
  deferred claims is bounded and holds nothing but claims.  Tasks that run while a panel is awaited,
  and the cancellation of a turn there, are part of the operations.
\<close>

section \<open>What verification reads and writes of a goal\<close>

definition verif :: "goal_orchestration \<Rightarrow> goal_status \<times> u32 \<times> u32 \<times> goal_classifier_verdict option \<times> string" where
  "verif o' = (o_status o', o_classifier_runs_attempted o', o_strategist_cap_bonus o', o_last_classifier_verdict o', o_verifier_id o')"

definition vw :: "goal_tracker \<Rightarrow> (goal_status \<times> u32 \<times> u32 \<times> goal_classifier_verdict option \<times> string) option" where
  "vw t = map_option verif (gt_orchestration t)"

lemma flush_elapsed_verif [simp]: "verif (flush_elapsed ck t o') = verif o'"
  by (simp add: flush_elapsed_def verif_def split: option.splits)

lemma vw_upd [simp]:
  "vw (t\<lparr>gt_orchestration := x\<rparr>) = map_option verif x" "vw (t\<lparr>gt_active_since := y\<rparr>) = vw t" "vw (t\<lparr>gt_fs := z\<rparr>) = vw t"
  by (simp_all add: vw_def)

lemma vw_quiet [simp]:
  "vw (goal_append_history e t) = vw t" "vw (record_event ck ev d t) = vw t" "vw (goal_account_elapsed ck t) = vw t"
  "vw (snd (goal_tokens rs c t)) = vw t" "vw (rescue_classifier_details h t) = vw t" "vw (remove_scratch_root h t) = vw t"
  "vw (snd (record_not_achieved_streak t)) = vw t" "vw (snd (record_classifier_stall fp t)) = vw t" "vw (reset_classifier_stall t) = vw t"
  "vw (record_strategy_recommendation p r t) = vw t" "vw (clear_verifying t) = vw t"
  by (auto simp: goal_append_history_def record_event_def goal_account_elapsed_def goal_tokens_def rescue_classifier_details_def
      remove_scratch_root_def record_not_achieved_streak_def record_classifier_stall_def reset_classifier_stall_def reset_classifier_stall_fields_def
      record_strategy_recommendation_def clear_verifying_def flush_elapsed_def verif_def [abs_def] vw_def Let_def option.map_comp comp_def
      split: option.splits prod.splits)

lemma vw_pause: "vw (snd (goal_pause_inner ck r m t)) = map_option (\<lambda>(st, v). (if st = Active then to_status r else st, v)) (vw t)"
  by (cases "gt_orchestration t") (auto simp: goal_pause_inner_def Let_def vw_def [of t] verif_def flush_elapsed_def split: option.splits)

lemma vw_end:
  "vw (snd (goal_end st ev h ck t)) =
     map_option (\<lambda>(st0, n, b, v). if st0 = Active \<or> is_paused st0 then (st, n, 0, v) else (st0, n, b, v)) (vw t)"
  by (cases "gt_orchestration t")
     (auto simp: goal_end_def vw_def [of t] verif_def end_goal_fields_def reset_strategist_fields_def flush_elapsed_def split: option.splits)

lemma vw_resume:
  "vw (snd (goal_resume ck t)) = map_option (\<lambda>(st, n, b, v). if is_paused st then (Active, 0, 0, v) else (st, n, b, v)) (vw t)"
  by (cases "gt_orchestration t")
     (auto simp: goal_resume_def Let_def vw_def [of t] reset_classifier_stall_fields_def reset_strategist_fields_def verif_def)

lemma vw_changes:
  "vw (record_verdict_on_orchestration ck vd d g t) = map_option (\<lambda>(st, n, b, v, i). (st, n, b, Some vd, i)) (vw t)"
  "vw (rollback_classifier_attempt t) = map_option (\<lambda>(st, n, v). (st, sat_sub_u n 1, v)) (vw t)"
  "vw (reset_strategist_state t) = map_option (\<lambda>(st, n, b, v). (st, n, 0, v)) (vw t)"
  "vw (revoke_strategist_cap_bonus t) = map_option (\<lambda>(st, n, b, v). (st, n, 0, v)) (vw t)"
  "vw (create_goal h ck gid obj bu ba created commit t) = Some (Active, 0, 0, None, h_fresh_id h)"
  by (simp_all add: record_verdict_on_orchestration_def rollback_classifier_attempt_def reset_strategist_state_def
      reset_strategist_fields_def revoke_strategist_cap_bonus_def create_goal_def Let_def vw_def [of t] option.map_comp comp_def verif_def
      fresh_orchestration_def)

lemma vw_claim:
  "vw (snd (claim_strategist_fire f t)) = vw t \<or>
   vw (snd (claim_strategist_fire f t)) = map_option (\<lambda>(st, n, b, v). (st, n, GOAL_STRATEGIST_CAP_BONUS, v)) (vw t)"
  by (cases "gt_orchestration t") (auto simp: claim_strategist_fire_def reset_classifier_stall_fields_def verif_def vw_def [of t])

lemma vw_reserve:
  "vw (snd (reserve_classifier_attempt_slot p t)) = map_option (\<lambda>(st, n, v). (st, sat_add_u n 1, v)) (vw t)"
  "fst (reserve_classifier_attempt_slot p t) = map_option (\<lambda>(st, n, v). sat_add_u n 1) (vw t)"
  by (auto simp: reserve_classifier_attempt_slot_def Let_def verif_def vw_def [of t] split: option.splits)

lemma vw_refund:
  "vw (refund_slot t) = vw t \<or> vw (refund_slot t) = map_option (\<lambda>(st, n, v). (st, sat_sub_u n 1, v)) (vw t)"
  "goal_status_of t = Some Active \<Longrightarrow> vw (refund_slot t) = map_option (\<lambda>(st, n, v). (st, sat_sub_u n 1, v)) (vw t)"
  by (auto simp: refund_slot_def vw_changes split: option.splits goal_status.splits)

lemma vw_status: "goal_status_of t = map_option fst (vw t)"
  by (cases "gt_orchestration t") (simp_all add: goal_status_of_def verif_def vw_def)

section \<open>The invariant\<close>

definition engine_view :: "session \<Rightarrow> (goal_status \<times> u32 \<times> u32 \<times> goal_classifier_verdict option \<times> string) option \<times> update_goal_input list \<times> bool" where
  "engine_view s = (vw (ss_goal s), ss_pending_claims s, ss_in_flight s)"

lemma engine_view_frame [simp]:
  "engine_view (tick s) = engine_view s" "engine_view (emit es s) = engine_view s" "engine_view (say m s) = engine_view s" "engine_view (note_event e s) = engine_view s"
  "engine_view (try_send_ack tx a s) = engine_view s" "engine_view (s\<lparr>ss_blocked_streak := k\<rparr>) = engine_view s" "engine_view (s\<lparr>ss_continuation_streak := k\<rparr>) = engine_view s"
  "engine_view (s\<lparr>ss_records := rs\<rparr>) = engine_view s" "engine_view (snd (goal_tokens_now c s)) = engine_view s" "engine_view (emit_goal_updated w used s) = engine_view s"
  "engine_view (graph_tx w f s) = engine_view s" "engine_view (persist_graph_state w s) = engine_view s"
  by (simp_all add: engine_view_def tick_def emit_def say_def note_event_def try_send_ack_def goal_tokens_now_def emit_goal_updated_def goal_tx_def
      graph_tx_def persist_graph_state_def Let_def split: option.splits prod.splits)
     (metis snd_conv vw_quiet(4))

lemma engine_view_simps:
  "engine_view (s\<lparr>ss_goal := t\<rparr>) = (vw t, snd (engine_view s))" "engine_view (s\<lparr>ss_pending_claims := pcl\<rparr>) = (fst (engine_view s), pcl, snd (snd (engine_view s)))"
  "engine_view (s\<lparr>ss_in_flight := fl\<rparr>) = (fst (engine_view s), fst (snd (engine_view s)), fl)"
  "engine_view (goal_tx w f s) = (vw (f (w_host w (ss_tick s)) (w_clock w (ss_tick s)) (ss_goal s)), snd (engine_view s))"
  by (simp_all add: engine_view_def goal_tx_def tick_def)

lemma engine_view_tokens: "goal_tokens_now c s = (used, s') \<Longrightarrow> engine_view s' = engine_view s"
  using engine_view_frame(9) [of c s] by simp

text \<open>The most panels between two resumes: the configured runs and the strategist's bonus.\<close>

definition runs_cap :: "verify_env \<Rightarrow> u32" where
  "runs_cap q = sat_add_u (ve_max_runs q) GOAL_STRATEGIST_CAP_BONUS"

definition claim_ok :: "update_goal_input \<Rightarrow> bool" where
  "claim_ok c \<longleftrightarrow> ug_completed c = Some True \<and> ug_blocked_reason c = None"

text \<open>
  The panel asked at moment \<open>n\<close> of this session, for this goal, approved or was never reached; what it
  reported is in the log.
\<close>

definition endorsed :: "world \<Rightarrow> verify_env \<Rightarrow> session \<Rightarrow> string \<Rightarrow> bool" where
  "endorsed w q s vid \<longleftrightarrow> \<not> cf_coordinator w \<or>
     (\<exists>n v. n < ss_tick s \<and> vi_verifier_id v = vid \<and> vi_skeptic_count v = ve_skeptic_count q \<and>
        ClassifierEv ` set (vr_events (run_verification_stage (ve_panel q n) (w_host w n) v)) \<subseteq> set (ss_log s) \<and>
        (panel_reached (ve_panel q n) (w_host w n) v \<longrightarrow> approves (ve_panel q n) (w_host w n) v))"

text \<open>\<open>A\<close> is the attempt reserved by a panel that is under way.\<close>

definition goal_verified :: "world \<Rightarrow> verify_env \<Rightarrow> u32 option \<Rightarrow> session \<Rightarrow> goal_status \<times> u32 \<times> u32 \<times> goal_classifier_verdict option \<times> string \<Rightarrow> bool" where
  "goal_verified w q A s x \<longleftrightarrow> (case x of (st, n, b, v, vid) \<Rightarrow>
     b \<le> GOAL_STRATEGIST_CAP_BONUS \<and> (st = Active \<longrightarrow> n < runs_cap q \<or> A = Some n) \<and>
     (ve_enabled q \<and> st = Complete \<longrightarrow> v = Some GcAchieved \<and> endorsed w q s vid))"

definition queue_ok :: "update_goal_input list \<Rightarrow> bool" where
  "queue_ok cs \<longleftrightarrow> length cs \<le> GOAL_CLASSIFIER_PENDING_QUEUE_CAP \<and> list_all claim_ok cs"

definition engine_ok :: "world \<Rightarrow> verify_env \<Rightarrow> u32 option \<Rightarrow> session \<Rightarrow> bool" where
  "engine_ok w q A s \<longleftrightarrow> (\<forall>x. vw (ss_goal s) = Some x \<longrightarrow> goal_verified w q A s x) \<and> queue_ok (ss_pending_claims s)"

lemma queue_ok_Nil [simp]: "queue_ok []"
  by (simp add: queue_ok_def)

lemma endorsed_grew: "endorsed w q s vid \<Longrightarrow> grew s s' \<Longrightarrow> endorsed w q s' vid"
proof -
  assume e: "endorsed w q s vid" and "grew s s'"
  then have "set (ss_log s) \<subseteq> set (ss_log s')" "ss_tick s \<le> ss_tick s'" by (simp_all add: grew_def set_mono_prefix)
  then show ?thesis using e unfolding endorsed_def by (elim disjE exE) (auto intro!: exI)
qed

lemma goal_verified_grew: "goal_verified w q A s x \<Longrightarrow> grew s s' \<Longrightarrow> goal_verified w q A s' x"
  by (auto simp: goal_verified_def dest: endorsed_grew)

text \<open>A step is correct when it keeps what is verified, in the state that has grown.\<close>

lemma engine_ok_step:
  assumes "engine_ok w q A s" "grew s s'" "queue_ok (ss_pending_claims s')" "vw (ss_goal s') = map_option f (vw (ss_goal s))"
    and "\<And>x. vw (ss_goal s) = Some x \<Longrightarrow> goal_verified w q A s' x \<Longrightarrow> goal_verified w q B s' (f x)"
  shows "engine_ok w q B s'"
  using assms goal_verified_grew by (fastforce simp: engine_ok_def)

lemma engine_ok_gview: "engine_ok w q A s \<Longrightarrow> grew s s' \<Longrightarrow> engine_view s' = engine_view s \<Longrightarrow> engine_ok w q A s'"
  by (rule engine_ok_step [where f = "\<lambda>x. x"]) (simp_all add: engine_view_def engine_ok_def option.map_ident)

section \<open>Pauses and budget\<close>

lemma pause_status_paused [simp]: "to_status r \<noteq> Active" "to_status r \<noteq> Complete"
  by (cases r; simp)+

lemma engine_view_pause:
  "engine_view (snd (auto_pause_goal w r m s)) =
     (if goal_status_of (ss_goal s) = Some Active
      then (map_option (\<lambda>(st, v). (to_status r, v)) (vw (ss_goal s)), [], ss_in_flight s) else engine_view s)"
proof -
  have "engine_view (pause_goal_part w r m s) = (if goal_status_of (ss_goal s) = Some Active
      then (map_option (\<lambda>(st, v). (to_status r, v)) (vw (ss_goal s)), [], ss_in_flight s) else engine_view s)"
    by (auto simp: pause_goal_part_def Let_def engine_view_simps vw_pause vw_status dest!: engine_view_tokens split: prod.splits) (simp_all add: engine_view_def)
  then show ?thesis by (simp add: auto_pause_split Let_def)
qed

lemma pause_engine_ok:
  assumes "engine_ok w q A s"
  shows "engine_ok w q B (snd (auto_pause_goal w r m s))"
proof (rule engine_ok_step [OF assms grew_pause])
  let ?s = "snd (auto_pause_goal w r m s)"
  show "queue_ok (ss_pending_claims ?s)" using engine_view_pause [of w r m s] assms by (auto simp: engine_view_def engine_ok_def split: if_splits)
  show "vw (ss_goal ?s) = map_option (\<lambda>(st, v). (if st = Active then to_status r else st, v)) (vw (ss_goal s))"
    using engine_view_pause [of w r m s] by (cases "vw (ss_goal s)") (auto simp: engine_view_def vw_status split: if_splits)
qed (auto simp: goal_verified_def split: if_splits)

lemma engine_view_budget:
  assumes "enforce_goal_token_budget w c s = (tr, s')"
  shows "engine_view s' = engine_view s \<or> engine_view s' = (map_option (\<lambda>(st, n, b, v).
      if st = Active \<or> is_paused st then (BudgetLimited, n, 0, v) else (st, n, b, v)) (vw (ss_goal s)), [], ss_in_flight s)"
proof (cases "goal_tokens_now c s")
  case (Pair used s1)
  have "engine_view s1 = engine_view s" by (rule engine_view_tokens [OF Pair])
  then show ?thesis
    using assms by (auto simp: enforce_goal_token_budget_def Pair Let_def engine_view_simps goal_budget_limit_def vw_end split: option.splits if_splits)
      (auto simp: engine_view_def)
qed

lemma budget_engine_ok: "engine_ok w q A s \<Longrightarrow> engine_ok w q A (snd (enforce_goal_token_budget w c s))"
proof (cases "enforce_goal_token_budget w c s")
  case (Pair tr s')
  assume ok: "engine_ok w q A s"
  have g: "grew s s'" using grew_budget [of s w c] Pair by simp
  from engine_view_budget [OF Pair] have "engine_ok w q A s'"
  proof
    assume "engine_view s' = engine_view s" then show ?thesis using engine_ok_gview [OF ok g] by simp
  next
    assume v: "engine_view s' = (map_option (\<lambda>(st, n, b, v).
      if st = Active \<or> is_paused st then (BudgetLimited, n, 0, v) else (st, n, b, v)) (vw (ss_goal s)), [], ss_in_flight s)"
    show ?thesis
      by (rule engine_ok_step [OF ok g, where f = "\<lambda>(st, n, b, v). if st = Active \<or> is_paused st then (BudgetLimited, n, 0, v) else (st, n, b, v)"])
         (use v in \<open>auto simp: engine_view_def goal_verified_def split: if_splits\<close>)
  qed
  then show ?thesis using Pair by simp
qed

section \<open>Applying an outcome\<close>

lemma engine_ok_active:
  "vw (ss_goal s) = Some (Active, n, b, v, vid) \<Longrightarrow> b \<le> GOAL_STRATEGIST_CAP_BONUS \<Longrightarrow> n < runs_cap q \<or> A = Some n \<Longrightarrow>
   queue_ok (ss_pending_claims s) \<Longrightarrow> engine_ok w q A s"
  by (simp add: engine_ok_def goal_verified_def)

lemma engine_view_complete:
  "engine_view (complete_goal_now w (Some vd) d s) =
     (map_option (\<lambda>(st, n, b, v, i). (if st = Active \<or> is_paused st then Complete else st, n, 0, Some vd, i)) (vw (ss_goal s)), [], ss_in_flight s)"
  "engine_view (complete_goal_now w None d s) =
     (map_option (\<lambda>(st, n, b, v). if st = Active \<or> is_paused st then (Complete, n, 0, v) else (st, n, b, v)) (vw (ss_goal s)), [], ss_in_flight s)"
proof -
  have g: "engine_view (prune_subagent_records s) = engine_view s" by (simp add: prune_subagent_records_def split: option.splits)
  then have "vw (ss_goal (prune_subagent_records s)) = vw (ss_goal s)" "ss_in_flight (prune_subagent_records s) = ss_in_flight s"
    by (simp_all add: engine_view_def)
  note this [simp]
  show "engine_view (complete_goal_now w (Some vd) d s) =
     (map_option (\<lambda>(st, n, b, v, i). (if st = Active \<or> is_paused st then Complete else st, n, 0, Some vd, i)) (vw (ss_goal s)), [], ss_in_flight s)"
    "engine_view (complete_goal_now w None d s) =
     (map_option (\<lambda>(st, n, b, v). if st = Active \<or> is_paused st then (Complete, n, 0, v) else (st, n, b, v)) (vw (ss_goal s)), [], ss_in_flight s)"
    by (cases "vw (ss_goal s)"; auto simp: complete_goal_now_def engine_view_simps goal_complete_def vw_end vw_changes; simp add: engine_view_def)+
qed

lemma engine_view_quiet [simp]: "engine_view (maybe_run_goal_summarizer w q s) = engine_view s" "engine_view (persist_stage r an s) = engine_view s"
    "engine_view (emit_goal_verifying w c s) = engine_view s" "engine_view (snd (freeze_assignment q s)) = engine_view s"
proof -
  have v: "map_option verif (map_option (\<lambda>o'. o'\<lparr>o_skeptic0_session_id := a, o_first_final_response := f o'\<rparr>) x) = map_option verif x"
    "map_option verif (map_option (\<lambda>o'. o'\<lparr>o_verifying_in_flight := True\<rparr>) x) = map_option verif x"
    "map_option verif (map_option (\<lambda>o'. o'\<lparr>o_skeptic_model_assignment := e\<rparr>) x) = map_option verif x" for a f e x
    by (cases x; simp add: verif_def)+
  have t: "vw t = map_option verif (gt_orchestration t)" for t by (simp add: vw_def)
  show "engine_view (maybe_run_goal_summarizer w q s) = engine_view s" by (simp add: maybe_run_goal_summarizer_def split: option.splits)
  show "engine_view (persist_stage r an s) = engine_view s"
    by (simp add: persist_stage_def engine_view_simps v t [symmetric]) (simp add: engine_view_def)
  show "engine_view (emit_goal_verifying w c s) = engine_view s"
  proof (cases "goal_tokens_now c s")
    case (Pair used s1)
    define s2 where "s2 = goal_tx w (\<lambda>h ck t. with_orch (\<lambda>o'. o'\<lparr>o_verifying_in_flight := True\<rparr>) (goal_account_elapsed ck t)) s1"
    have "engine_view s2 = engine_view s1" by (simp add: s2_def engine_view_simps v t [symmetric]) (simp add: engine_view_def)
    then show ?thesis
      using engine_view_tokens [OF Pair] by (simp add: emit_goal_verifying_def Pair s2_def [symmetric] split: option.splits)
  qed
  show "engine_view (snd (freeze_assignment q s)) = engine_view s"
    by (cases "gt_orchestration (ss_goal s)")
       (simp_all add: freeze_assignment_def Let_def engine_view_simps t v(3) [of _ "Some _", simplified], simp add: engine_view_def t)
qed

lemma strategist_view:
  assumes "vw (ss_goal s) = Some (st, n, b, v)"
  shows "\<exists>b'. engine_view (maybe_run_goal_strategist w q s) = (Some (st, n, b', v), snd (engine_view s)) \<and> (b' = b \<or> b' = 0)"
  using assms by (auto simp: maybe_run_goal_strategist_def engine_view_simps vw_changes split: option.splits)

text \<open>The goal in focus: its verifier id, and the invariant with the flag of a panel under way.\<close>

definition vid_of :: "session \<Rightarrow> string option" where
  "vid_of s = map_option (\<lambda>(st, n, b, v, vid). vid) (vw (ss_goal s))"

definition engine_at :: "world \<Rightarrow> verify_env \<Rightarrow> u32 option \<Rightarrow> bool \<Rightarrow> string option \<Rightarrow> session \<Rightarrow> bool" where
  "engine_at w q A fl i s \<longleftrightarrow> engine_ok w q A s \<and> ss_in_flight s = fl \<and> vid_of s = i"

lemma engine_atD:
  assumes "engine_at w q A fl i s"
  shows "engine_ok w q A s" "ss_in_flight s = fl" "vid_of s = i" "queue_ok (ss_pending_claims s)"
  using assms by (simp_all add: engine_at_def engine_ok_def)

lemma engine_at_view: "engine_at w q A fl i s \<Longrightarrow> grew s s' \<Longrightarrow> engine_view s' = engine_view s \<Longrightarrow> engine_at w q A fl i s'"
  using engine_ok_gview [of w q A s s'] by (simp add: engine_at_def engine_view_def vid_of_def)

lemma engine_at_active:
  assumes "engine_view s = (Some (Active, n, b, v, vid), cs, fl)" "b \<le> GOAL_STRATEGIST_CAP_BONUS" "n < runs_cap q \<or> A = Some n" "queue_ok cs"
  shows "engine_at w q A fl (Some vid) s"
  using assms engine_ok_active [of s n b v vid q A w] by (simp add: engine_at_def engine_view_def vid_of_def)

lemma vid_pause: "vid_of (snd (auto_pause_goal w r m s)) = vid_of s" "ss_in_flight (snd (auto_pause_goal w r m s)) = ss_in_flight s"
  using engine_view_pause [of w r m s] by (cases "vw (ss_goal s)"; auto simp: engine_view_def vid_of_def split: if_splits)+

lemma pause_at: "engine_at w q A fl i s \<Longrightarrow> engine_at w q B fl i (snd (auto_pause_goal w r m s))"
  unfolding engine_at_def vid_pause using pause_engine_ok by blast

lemma active_view:
  assumes "engine_at w q A fl i s" "goal_status_of (ss_goal s) = Some Active"
  obtains n b v vid where "engine_view s = (Some (Active, n, b, v, vid), ss_pending_claims s, fl)" "i = Some vid"
    "b \<le> GOAL_STRATEGIST_CAP_BONUS" "n < runs_cap q \<or> A = Some n"
  using assms by (auto simp: engine_at_def vw_status engine_view_def vid_of_def engine_ok_def goal_verified_def)

lemma cap_pauses_at:
  assumes "engine_at w q A fl i s"
  shows "engine_at w q B fl i (auto_pause_for_classifier_cap w n d p s)" "engine_at w q B fl i (auto_pause_for_classifier_stall w d p s)"
    "engine_at w q B fl i (auto_pause_for_classifier_blocked w d p s)"
  unfolding auto_pause_for_classifier_cap_def auto_pause_for_classifier_stall_def auto_pause_for_classifier_blocked_def note_event_def
  by (rule pause_at, rule engine_at_view [OF assms], simp_all add: grew_steps) (rule pause_at [OF assms])+

lemma not_achieved_at:
  assumes at: "engine_at w q (Some a) fl i s" and act: "goal_status_of (ss_goal s) = Some Active" and pol: "gp_max_runs pol \<le> runs_cap q"
  shows "engine_at w q None fl i (snd (apply_not_achieved w q pol a used d gaps ps fp s))"
proof -
  obtain n b v vid where s: "engine_view s = (Some (Active, n, b, v, vid), ss_pending_claims s, fl)" "i = Some vid"
      "b \<le> GOAL_STRATEGIST_CAP_BONUS" "n < runs_cap q \<or> Some a = Some n" using active_view [OF at act] .
  define s1 where "s1 = goal_tx w (\<lambda>h ck t. snd (record_not_achieved_streak
      (record_verdict_on_orchestration ck GcNotAchieved (Some d) (GapsSet gaps) t))) s"
  have v1: "engine_view s1 = (Some (Active, n, b, Some GcNotAchieved, vid), ss_pending_claims s, fl)"
    using s(1) by (simp add: s1_def engine_view_simps vw_changes) (simp add: engine_view_def)
  note q = engine_atD(4) [OF at]
  have p1: "engine_at w q (Some a) fl i s1" using engine_at_active [OF v1 s(3) s(4) q] s(2) by simp
  obtain stalled t2 where st: "(if fp = [] then (False, ss_goal s1) else record_classifier_stall fp (ss_goal s1)) = (stalled, t2)" by fastforce
  define s2 where "s2 = s1\<lparr>ss_goal := t2\<rparr>"
  have "vw t2 = vw (ss_goal s1)" using st vw_quiet(8) [of fp "ss_goal s1"] by (cases "fp = []") simp_all
  then have v2: "engine_view s2 = engine_view s1" by (simp add: s2_def engine_view_simps) (simp add: engine_view_def)
  have p2: "engine_at w q (Some a) fl i s2" using engine_at_active [OF v1 [folded v2] s(3) s(4) q] s(2) by simp
  obtain cl t3 where cl: "claim_strategist_fire (\<lambda>c l. strategist_should_fire c l (ve_strategist_every q)) (ss_goal s2) = (cl, t3)" by fastforce
  define s3 where "s3 = s2\<lparr>ss_goal := t3\<rparr>"
  have "vw t3 = vw (ss_goal s2) \<or> vw t3 = map_option (\<lambda>(st, n, b, v). (st, n, GOAL_STRATEGIST_CAP_BONUS, v)) (vw (ss_goal s2))"
    using vw_claim [of "\<lambda>c l. strategist_should_fire c l (ve_strategist_every q)" "ss_goal s2"] cl by simp
  then obtain b3 where v3: "engine_view s3 = (Some (Active, n, b3, Some GcNotAchieved, vid), ss_pending_claims s, fl)" "b3 \<le> GOAL_STRATEGIST_CAP_BONUS"
    using v1 v2 s(3) by (auto simp: s3_def engine_view_simps) (auto simp: engine_view_def)
  define s4 where "s4 = (if cl \<noteq> None then maybe_run_goal_strategist w q s3 else s3)"
  have "vw (ss_goal s3) = Some (Active, n, b3, Some GcNotAchieved, vid)" using v3(1) by (simp add: engine_view_def)
  from strategist_view [OF this, of w q] v3
  have "\<exists>b4. engine_view s4 = (Some (Active, n, b4, Some GcNotAchieved, vid), ss_pending_claims s, fl) \<and> b4 \<le> GOAL_STRATEGIST_CAP_BONUS"
    by (cases "cl = None") (auto simp: s4_def simp del: not_None_eq)
  then obtain b4 where v4: "engine_view s4 = (Some (Active, n, b4, Some GcNotAchieved, vid), ss_pending_claims s, fl)" "b4 \<le> GOAL_STRATEGIST_CAP_BONUS"
    by blast
  have fin: "engine_at w q None fl i (emit_goal_updated w used s4)" if "\<not> gp_max_runs pol \<le> a"
  proof -
    have "n < runs_cap q" using s(4) that pol by auto
    then have "engine_at w q None fl i s4" using engine_at_active [OF v4 _ q] s(2) by simp
    then show ?thesis by (rule engine_at_view) (simp_all add: grew_steps)
  qed
  show ?thesis
    unfolding apply_not_achieved_def s1_def [symmetric] Let_def st prod.case s2_def [symmetric] cl s3_def [symmetric] s4_def [symmetric]
    using cap_pauses_at [OF p1] cap_pauses_at [OF p2] fin by simp
qed

lemma endorsed_complete_at:
  assumes at: "engine_at w q A fl i s" and e: "\<And>vid. i = Some vid \<Longrightarrow> endorsed w q s vid"
  shows "engine_at w q B fl i (complete_goal_now w (Some GcAchieved) d s)"
proof -
  let ?s = "complete_goal_now w (Some GcAchieved) d s"
  note v = engine_view_complete(1) [of w GcAchieved d s]
  have g: "grew s ?s" by (rule growth.P_steps) simp
  have "engine_ok w q B ?s"
    by (rule engine_ok_step [OF engine_atD(1) [OF at] g, where f = "\<lambda>(st, n, b, v, i). (if st = Active \<or> is_paused st then Complete else st, n, 0, Some GcAchieved, i)"])
       (use v engine_atD(3) [OF at] endorsed_grew [OF e g] in \<open>auto simp: goal_verified_def engine_view_def vid_of_def split: if_splits\<close>)
  then show ?thesis using v at by (cases "vw (ss_goal s)") (auto simp: engine_at_def engine_view_def vid_of_def)
qed

lemma outcome_at:
  assumes at: "engine_at w q (Some a) fl i s" and act: "goal_status_of (ss_goal s) = Some Active" and pol: "gp_max_runs pol \<le> runs_cap q"
    and e: "\<And>vid d r. i = Some vid \<Longrightarrow> out = OutAchieved d \<or> out = OutFailOpenAchieved r d \<Longrightarrow> endorsed w q s vid"
  shows "engine_at w q None fl i (snd (apply_classifier_outcome w q pol a out s))"
proof -
  obtain used s1 where u: "goal_tokens_now (w_tokens w (ss_tick s)) (tick s) = (used, s1)" by fastforce
  have g: "grew s s1" using growth.P_tokens [OF u, of s] grew_steps(1) by simp
  have v: "engine_view s1 = engine_view s" using engine_view_tokens [OF u] by simp
  have at1: "engine_at w q (Some a) fl i s1" by (rule engine_at_view [OF at g v])
  have act1: "goal_status_of (ss_goal s1) = Some Active" using act v by (simp add: vw_status engine_view_def)
  have e1: "endorsed w q s1 vid" if "i = Some vid" "out = OutAchieved d \<or> out = OutFailOpenAchieved r d" for vid d r
    using e [OF that] g by (rule endorsed_grew)
  obtain n b v vid where s: "engine_view s1 = (Some (Active, n, b, v, vid), ss_pending_claims s1, fl)" "i = Some vid"
    "b \<le> GOAL_STRATEGIST_CAP_BONUS" "n < runs_cap q \<or> Some a = Some n" using active_view [OF at1 act1] .
  have emit: "engine_at w q None fl i (emit_goal_updated w used s')" "engine_at w q None fl i (maybe_run_goal_summarizer w q s')"
    if "engine_at w q None fl i s'" for s'
    using engine_at_view [OF that] grew_steps(8) growth.P_steps(3) by simp_all
  show ?thesis
  proof (cases out)
    case (OutAchieved d)
    then have "engine_at w q None fl i (complete_goal_now w (Some GcAchieved) x s1)" for x
      using e1 by (intro endorsed_complete_at [OF at1]) blast
    then show ?thesis using OutAchieved emit by (simp add: apply_classifier_outcome_def u apply_achieved_def Let_def)
  next
    case (OutFailOpenAchieved r d)
    then have "engine_at w q None fl i (complete_goal_now w (Some GcAchieved) x s1)" for x
      using e1 by (intro endorsed_complete_at [OF at1]) blast
    then show ?thesis using OutFailOpenAchieved emit by (simp add: apply_classifier_outcome_def u apply_fail_open_def)
  next
    case (OutBlocked d ps)
    let ?s2 = "goal_tx w (\<lambda>h ck t. reset_strategist_state (reset_classifier_stall (rollback_classifier_attempt
           (record_verdict_on_orchestration ck GcNotAchieved (Some d) GapsClear t)))) s1"
    have "engine_view ?s2 = (Some (Active, sat_sub_u n 1, 0, Some GcNotAchieved, vid), ss_pending_claims s1, fl)"
      using s(1) by (simp add: engine_view_simps vw_changes) (simp add: engine_view_def)
    then have "engine_at w q (Some (sat_sub_u n 1)) fl i ?s2"
      using engine_at_active [of ?s2 "sat_sub_u n 1" 0] engine_atD(4) [OF at1] s(2) by simp
    then show ?thesis using OutBlocked cap_pauses_at(3) by (simp add: apply_classifier_outcome_def u apply_blocked_def)
  next
    case (OutNotAchieved d gaps ps fp)
    then show ?thesis using not_achieved_at [OF at1 act1 pol] by (simp add: apply_classifier_outcome_def u)
  qed
qed

end
