(* ===== verification/Goal_Loop.thy ===== *)
theory Goal_Loop
  imports Goal_Engine
begin

text \<open>
  The verification loop preserves the invariant of \<open>Goal_Engine\<close>: one command, the drain with the
  tasks that run beside a panel, the end of a round and of a turn, and the goal's own commands.  The
  step relation \<open>engine_step\<close> collects them.
\<close>

section \<open>Bounds\<close>

lemma sat_sub_u_le: "sat_sub_u a b \<le> (a :: 'a::len word)"
  by (auto simp: sat_sub_u_def word_sub_le)

lemma runs_cap_pos: "0 < runs_cap q"
proof -
  have "unat (runs_cap q) > 0" by (simp add: runs_cap_def unat_sat_add_u GOAL_STRATEGIST_CAP_BONUS_def)
  then show ?thesis by (simp add: word_less_nat_alt)
qed

lemma sat_step_bound:
  assumes "n < c"
  shows "sat_add_u n 1 \<le> c" "sat_sub_u (sat_add_u n 1) 1 < (c :: u32)"
proof -
  have "unat n < unat c" "unat c < 2 ^ 32" using assms unsigned_less [of c] by (auto simp: word_less_nat_alt)
  then have u: "unat (sat_add_u n 1) = unat n + 1" by (simp add: unat_sat_add_u)
  then show "sat_add_u n 1 \<le> c" using \<open>unat n < unat c\<close> by (simp add: word_le_nat_alt)
  have "(1::u32) \<le> sat_add_u n 1" using u by (simp add: word_le_nat_alt)
  then have "unat (sat_sub_u (sat_add_u n 1) 1) = unat n" using u by (simp add: sat_sub_u_def not_less [symmetric] unat_sub)
  then show "sat_sub_u (sat_add_u n 1) 1 < c" using \<open>unat n < unat c\<close> by (simp add: word_less_nat_alt)
qed

lemma policy_cap: "engine_at w q A fl i s \<Longrightarrow> gp_max_runs (resolve_goal_classifier_policy q s) \<le> runs_cap q"
proof -
  assume at: "engine_at w q A fl i s"
  have "(case gt_orchestration (ss_goal s) of Some o' \<Rightarrow> o_strategist_cap_bonus o' | None \<Rightarrow> 0) \<le> GOAL_STRATEGIST_CAP_BONUS"
    using engine_atD(1) [OF at] by (auto simp: engine_ok_def goal_verified_def vw_def verif_def split: option.splits)
  then show ?thesis
    by (simp add: resolve_goal_classifier_policy_def runs_cap_def word_le_nat_alt unat_sat_add_u)
qed

section \<open>One claim\<close>

lemma account_at:
  assumes at: "engine_at w q A fl i s" and act: "goal_status_of (ss_goal s) = Some Active" and pol: "gp_max_runs pol \<le> runs_cap q"
  shows "engine_at w q A fl i (snd (account_not_achieved_without_sampler w q pol s))"
proof -
  obtain n b v vid where s: "engine_view s = (Some (Active, n, b, v, vid), ss_pending_claims s, fl)" "i = Some vid"
    "b \<le> GOAL_STRATEGIST_CAP_BONUS" "n < runs_cap q \<or> A = Some n" using active_view [OF at act] .
  obtain o' where o: "gt_orchestration (ss_goal s) = Some o'" "verif o' = (Active, n, b, v, vid)"
    using s(1) by (auto simp: engine_view_def vw_def)
  let ?a = "sat_add_u n 1"
  have n: "o_classifier_runs_attempted o' = n" using o(2) by (simp add: verif_def)
  define s1 where "s1 = tick (s\<lparr>ss_goal := (ss_goal s)\<lparr>gt_orchestration := Some (o'\<lparr>o_classifier_runs_attempted := ?a,
                             o_classifier_max_runs := Some (gp_max_runs pol)\<rparr>)\<rparr>\<rparr>)"
  define s2 where "s2 d = goal_tx w (\<lambda>h ck t. snd (record_not_achieved_streak (record_verdict_on_orchestration ck GcNotAchieved d GapsPreserve t))) s1" for d
  have "engine_view s1 = (Some (Active, ?a, b, v, vid), ss_pending_claims s, fl)"
    using s(1) o by (simp add: s1_def engine_view_simps verif_def)
  then have v2: "engine_view (s2 d) = (Some (Active, ?a, b, Some GcNotAchieved, vid), ss_pending_claims s, fl)" for d
    by (simp add: s2_def engine_view_simps vw_changes) (simp add: engine_view_def)
  note q = engine_atD(4) [OF at]
  have p: "engine_at w q (Some ?a) fl i (s2 d)" for d using engine_at_active [OF v2 s(3) _ q] s(2) by simp
  have e: "engine_at w q A fl i (emit_goal_updated w used s3)"
    if "\<not> gp_max_runs pol \<le> ?a" "goal_tokens_now c (tick (s2 d)) = (used, s3)" for c d used s3
  proof -
    have "?a < runs_cap q" using that(1) pol by auto
    then have "engine_at w q A fl i (s2 d)" using engine_at_active [OF v2 s(3) _ q] s(2) by simp
    moreover have "grew (s2 d) s3" using growth.P_tokens [OF that(2)] grew_steps(1) by blast
    ultimately have "engine_at w q A fl i s3" using engine_view_tokens [OF that(2)] by (simp add: engine_at_view)
    then show ?thesis by (rule engine_at_view) (simp_all add: grew_steps)
  qed
  show ?thesis
    unfolding account_not_achieved_without_sampler_def o(1) option.case option.map n Let_def s1_def [symmetric] s2_def [symmetric] snd_conv
    by (split if_split, intro conjI impI) (rule cap_pauses_at(1) [OF p], auto split: prod.split intro!: e)
qed

lemma refund_at:
  assumes at: "engine_at w q (Some a) fl i s" and a: "a = sat_add_u n0 1" "n0 < runs_cap q"
  shows "engine_at w q None fl' i (s\<lparr>ss_goal := refund_slot (ss_goal s), ss_in_flight := fl'\<rparr>)" (is "engine_at _ _ _ _ _ ?s")
proof -
  have old: "grew s ?s" by (simp add: grew_def)
  obtain f where f: "vw (refund_slot (ss_goal s)) = map_option f (vw (ss_goal s))" "f = (\<lambda>x. x) \<or> f = (\<lambda>(st, n, v). (st, sat_sub_u n 1, v))"
    "goal_status_of (ss_goal s) = Some Active \<Longrightarrow> f = (\<lambda>(st, n, v). (st, sat_sub_u n 1, v))"
    using vw_refund [of "ss_goal s"] that [of "\<lambda>x. x"] that [of "\<lambda>(st, n, v). (st, sat_sub_u n 1, v)"]
    by (cases "goal_status_of (ss_goal s) = Some Active") (auto simp: option.map_ident)
  have down: "sat_sub_u m 1 < runs_cap q" if "m < runs_cap q \<or> Some a = Some m" for m
    using that sat_step_bound(2) [OF a(2)] a(1) sat_sub_u_le [of m 1] by auto
  have "engine_ok w q None ?s"
  proof (rule engine_ok_step [OF engine_atD(1) [OF at] old, where f = f])
    fix x assume x: "vw (ss_goal s) = Some x" "goal_verified w q (Some a) ?s x"
    then show "goal_verified w q None ?s (f x)"
      using f(2) f(3) down by (cases x; cases "fst x = Active") (auto simp: goal_verified_def vw_status)
  qed (use f(1) engine_atD(4) [OF at] in simp_all)
  moreover have "vid_of ?s = vid_of s" using f(1,2) by (cases "vw (ss_goal s)") (auto simp: vid_of_def)
  ultimately show ?thesis using at by (simp add: engine_at_def)
qed

section \<open>The panel\<close>

text \<open>What the tasks that run beside a panel must keep.\<close>

definition keeps_beside :: "world \<Rightarrow> verify_env \<Rightarrow> (session \<Rightarrow> session) \<Rightarrow> bool" where
  "keeps_beside w q during \<longleftrightarrow> (\<forall>s. grew s (during s)) \<and>
     (\<forall>A i s. engine_at w q A True i s \<longrightarrow> engine_at w q A True i (during s))"

lemma stage_endorses:
  assumes "vr_outcome (run_verification_stage io h v) = OutAchieved d \<or> vr_outcome (run_verification_stage io h v) = OutFailOpenAchieved r d"
  shows "panel_reached io h v \<longrightarrow> approves io h v"
  using assms panel_outcome_cases [of io h v, OF refl] by auto

lemma stage_at:
  assumes k: "keeps_beside w q during" and at: "engine_at w q (Some a) True i s"
    and run: "run_verification_stage_for_drain w q during a mx s = (out, s')"
  shows "engine_at w q (Some a) True i s'"
    "i = Some vid \<Longrightarrow> out = Some (OutAchieved d) \<or> out = Some (OutFailOpenAchieved r d) \<Longrightarrow> endorsed w q s' vid"
proof -
  have "engine_at w q (Some a) True i s' \<and>
    (\<forall>vid d r. i = Some vid \<longrightarrow> out = Some (OutAchieved d) \<or> out = Some (OutFailOpenAchieved r d) \<longrightarrow> endorsed w q s' vid)"
  proof (cases "gt_orchestration (ss_goal s)")
    case None
    then show ?thesis using at run by (auto simp: run_verification_stage_for_drain_def engine_at_def vid_of_def vw_def)
  next
    case (Some o')
    then have i: "i = Some (o_verifier_id o')" using engine_atD(3) [OF at] by (simp add: vid_of_def vw_def verif_def)
    show ?thesis
    proof (cases "cf_coordinator w")
      case False
      then show ?thesis using Some at run by (auto simp: run_verification_stage_for_drain_def endorsed_def)
    next
      case True
      obtain ov s1 where fr: "freeze_assignment q (tick s) = (ov, s1)" by fastforce
      define n where "n = ss_tick s1"
      define v where "v = \<lparr>vi_verifier_id = o_verifier_id o', vi_attempt = a, vi_skeptic_count = ve_skeptic_count q,
                          vi_max_runs = mx, vi_prior_skeptic0 = o_skeptic0_session_id o', vi_overrides = ov\<rparr>"
      define stage where "stage = run_verification_stage (ve_panel q n) (w_host w n) v"
      define s2 where "s2 = during (tick s1)"
      have "grew s s1" using growth.P_freeze [OF fr] grew_steps(1) by blast
      moreover have "engine_view s1 = engine_view s" using engine_view_quiet(4) [of q "tick s"] fr by simp
      ultimately have "engine_at w q (Some a) True i (tick s1)"
        using engine_at_view [OF at] grew_trans grew_steps(1) by (metis engine_view_frame(1))
      then have at2: "engine_at w q (Some a) True i s2" using k by (simp add: s2_def keeps_beside_def)
      have "grew (tick s1) s2" using k by (simp add: s2_def keeps_beside_def)
      then have n: "n < ss_tick s2" by (simp add: grew_def n_def tick_def)
      let ?an = "cfr_to_persist (compose_verifier_final_response (o_first_final_response o') (ve_final_response q (ss_tick s)))"
      have "run_verification_stage_for_drain w q during a mx s = (if ve_cancel q n then (None, note_event (ClassifierFired a mx) s2)
          else (Some (vr_outcome stage), persist_stage stage ?an (emit (map ClassifierEv (vr_events stage) @ map PanelWrite (vr_fs stage)) s2)))"
        using Some True by (simp add: run_verification_stage_for_drain_def fr n_def v_def stage_def s2_def Let_def)
      note r = this [unfolded run]
      show ?thesis
      proof (cases "ve_cancel q n")
        case True
        then show ?thesis using r engine_at_view [OF at2] growth.P_log(1) by simp
      next
        case False
        let ?e = "emit (map ClassifierEv (vr_events stage) @ map PanelWrite (vr_fs stage)) s2"
        have s': "s' = persist_stage stage ?an ?e" "out = Some (vr_outcome stage)" using r False by simp_all
        have g: "grew s2 s'" unfolding s' by (intro growth.P_steps growth.P_log) simp
        have lg: "ClassifierEv ` set (vr_events stage) \<subseteq> set (ss_log s')"
          by (auto simp: s' persist_stage_def emit_def)
        have t: "n < ss_tick s'" using n g by (simp add: grew_def)
        have "endorsed w q s' (o_verifier_id o')" if "vr_outcome stage = OutAchieved d \<or> vr_outcome stage = OutFailOpenAchieved r d" for d r
          unfolding endorsed_def
          by (rule disjI2, intro exI [of _ n] exI [of _ v])
             (use t lg stage_endorses [OF that [unfolded stage_def]] in \<open>simp add: v_def stage_def\<close>)
        then show ?thesis using i s'(2) engine_at_view [OF at2 g] by (auto simp: s')
      qed
    qed
  qed
  then show "engine_at w q (Some a) True i s'"
    "i = Some vid \<Longrightarrow> out = Some (OutAchieved d) \<or> out = Some (OutFailOpenAchieved r d) \<Longrightarrow> endorsed w q s' vid" by blast+
qed

lemma fire_at:
  assumes k: "keeps_beside w q during" and at: "engine_at w q None False i s" and act: "goal_status_of (ss_goal s) = Some Active"
    and pol: "gp_max_runs pol \<le> runs_cap q"
  shows "engine_at w q None False i (snd (drain_fire w q during c pol tx (fl, s)))"
proof -
  obtain n b v vid where s: "engine_view s = (Some (Active, n, b, v, vid), ss_pending_claims s, False)" "i = Some vid"
    "b \<le> GOAL_STRATEGIST_CAP_BONUS" "n < runs_cap q \<or> None = Some n" using active_view [OF at act] .
  let ?a = "sat_add_u n 1"
  have vw: "vw (ss_goal s) = Some (Active, n, b, v, vid)" using s(1) by (simp add: engine_view_def)
  obtain t1 where rs: "reserve_classifier_attempt_slot pol (ss_goal s) = (Some ?a, t1)" "vw t1 = Some (Active, ?a, b, v, vid)"
    using vw_reserve [of pol "ss_goal s"] vw by (cases "reserve_classifier_attempt_slot pol (ss_goal s)") simp
  define s1 where "s1 = emit_goal_verifying w c (s\<lparr>ss_goal := t1, ss_in_flight := True\<rparr>)"
  have "engine_view s1 = (Some (Active, ?a, b, v, vid), ss_pending_claims s, True)"
    using rs(2) by (simp add: s1_def engine_view_simps) (simp add: engine_view_def)
  then have at1: "engine_at w q (Some ?a) True i s1" using engine_at_active [of s1] s engine_atD(4) [OF at] by simp
  obtain out s2 where run: "run_verification_stage_for_drain w q during ?a (gp_max_runs pol) s1 = (out, s2)" by fastforce
  note st = stage_at [OF k at1 run]
  define s3 where "s3 = s2\<lparr>ss_goal := clear_verifying (ss_goal s2)\<rparr>"
  have g3: "grew s2 s3" "engine_view s3 = engine_view s2" by (simp_all add: s3_def grew_def engine_view_def)
  have at3: "engine_at w q (Some ?a) True i s3" by (rule engine_at_view [OF st(1) g3])
  note ref = refund_at [OF at3 refl, where fl' = False]
  have d: "drain_fire w q during c pol tx (fl, s) = (case out of
      None \<Rightarrow> (fl\<lparr>df_cancelled := True\<rparr>, s3\<lparr>ss_goal := refund_slot (ss_goal s3), ss_in_flight := False\<rparr>)
    | Some verdict \<Rightarrow>
        if goal_status_of (ss_goal s3) \<noteq> Some Active
        then (fl, (try_send_ack tx (Rejected StatusChangedDuringClassifier ''Goal transitioned to non-Active during classifier run'')
                 (note_event (ClassifierFailOpen GoalNotActiveAtResolve ?a) s3))\<lparr>ss_goal := refund_slot (ss_goal s3), ss_in_flight := False\<rparr>)
        else let (ack, s4) = apply_classifier_outcome w q pol ?a verdict s3
             in (if goal_is_paused s4 then fl\<lparr>df_auto_paused := True\<rparr> else fl, (try_send_ack tx ack s4)\<lparr>ss_in_flight := False\<rparr>))"
    by (simp add: drain_fire_def rs(1) s1_def [symmetric] run s3_def [symmetric])
  show ?thesis
  proof (cases out)
    case None
    then show ?thesis using ref s(4) by (simp add: d)
  next
    case (Some verdict)
    show ?thesis
    proof (cases "goal_status_of (ss_goal s3) = Some Active")
      case False
      let ?e = "try_send_ack tx (Rejected StatusChangedDuringClassifier ''Goal transitioned to non-Active during classifier run'')
                 (note_event (ClassifierFailOpen GoalNotActiveAtResolve ?a) s3)"
      have "ss_goal ?e = ss_goal s3" by (simp add: try_send_ack_def note_event_def split: option.splits)
      moreover have "engine_at w q (Some ?a) True i ?e"
        by (rule engine_at_view [OF at3]) (auto intro: growth.P_log grew_refl)
      ultimately show ?thesis using refund_at [of w q ?a True i ?e n False] s(4) Some False by (simp add: d)
    next
      case True
      have "endorsed w q s3 vid'" if "i = Some vid'" "verdict = OutAchieved x \<or> verdict = OutFailOpenAchieved y x" for vid' x y
        using endorsed_grew [OF st(2) [OF that(1)] g3(1)] that(2) Some by blast
      then have at4: "engine_at w q None True i (snd (apply_classifier_outcome w q pol ?a verdict s3))"
        by (rule outcome_at [OF at3 True pol])
      have "engine_at w q None False i ((try_send_ack tx ack s4)\<lparr>ss_in_flight := False\<rparr>)" if "engine_at w q None True i s4" for ack s4
      proof -
        have "engine_at w q None True i (try_send_ack tx ack s4)" by (rule engine_at_view [OF that]) (auto intro: growth.P_log grew_refl)
        then show ?thesis by (auto simp: engine_at_def engine_ok_def goal_verified_def endorsed_def vid_of_def)
      qed
      then show ?thesis
        using Some True at4 by (cases "apply_classifier_outcome w q pol ?a verdict s3") (simp add: d)
    qed
  qed
qed

section \<open>The drain\<close>

text \<open>
  Inside a panel nothing fires, so that a drain beside it keeps the reserved attempt; outside, no
  attempt is reserved and the tasks beside the panel keep the invariant.
\<close>

definition drain_ctx :: "world \<Rightarrow> verify_env \<Rightarrow> u32 option \<Rightarrow> bool \<Rightarrow> (session \<Rightarrow> session) \<Rightarrow> bool" where
  "drain_ctx w q A fl during \<longleftrightarrow> fl \<or> A = None \<and> keeps_beside w q during"

lemma ack_at: "engine_at w q A fl i s \<Longrightarrow> engine_at w q A fl i (try_send_ack tx a s)"
    "engine_at w q A fl i s \<Longrightarrow> engine_at w q A fl i (note_event e s)"
    "engine_at w q A fl i s \<Longrightarrow> engine_at w q A fl i (s\<lparr>ss_blocked_streak := k\<rparr>)"
    "engine_at w q A fl i s \<Longrightarrow> engine_at w q A fl i (say m s)"
    "engine_at w q A fl i s \<Longrightarrow> engine_at w q A fl i (tick s)"
  by (erule engine_at_view; auto intro: growth.P_log growth.own growth.ask grew_refl)+

lemma badge_at:
  "goal_tokens_now c s = (used, s1) \<Longrightarrow> engine_at w q A fl i s \<Longrightarrow> engine_at w q A fl i s1"
  "engine_at w q A fl i s \<Longrightarrow> engine_at w q A fl i (emit_goal_updated w used s)"
  by (rule engine_at_view [of w q A fl i s], auto dest: engine_view_tokens intro: growth.P_tokens growth.P_badge grew_refl)+

lemma defer_at:
  assumes at: "engine_at w q A fl i s" and c: "claim_ok cmd"
  shows "engine_at w q A fl i (drain_defer cmd tx s)"
proof -
  let ?full = "length (ss_pending_claims s) \<ge> GOAL_CLASSIFIER_PENDING_QUEUE_CAP"
  let ?cs = "(if ?full then tl (ss_pending_claims s) else ss_pending_claims s) @ [cmd]"
  have q: "queue_ok ?cs"
    using engine_atD(4) [OF at] c by (cases "ss_pending_claims s") (auto simp: queue_ok_def GOAL_CLASSIFIER_PENDING_QUEUE_CAP_def)
  have set: "engine_at w q A fl i (s'\<lparr>ss_pending_claims := ?cs\<rparr>)" if "engine_at w q A fl i s'" for s'
    using that q by (auto simp: engine_at_def engine_ok_def goal_verified_def endorsed_def vid_of_def)
  show ?thesis
    unfolding drain_defer_def Let_def by (intro ack_at set) (use at ack_at(2) in \<open>simp split: if_splits\<close>)
qed

lemma blocked_at: "engine_at w q A fl i s \<Longrightarrow> engine_at w q A fl i (snd (drain_blocked w cmd reason tx (f, s)))"
proof -
  assume at: "engine_at w q A fl i s"
  have p: "engine_at w q A fl i s2" if "auto_pause_goal w Verification msg (s\<lparr>ss_blocked_streak := k\<rparr>) = (ap, s2)" for msg k ap s2
    using pause_at [OF ack_at(3) [OF at, of k], where B = A and r = Verification and m = msg] that by simp
  show ?thesis using at by (auto simp: drain_blocked_def Let_def split: prod.split intro!: ack_at dest: p)
qed

lemma unverified_at: "engine_at w q A fl i s \<Longrightarrow> \<not> ve_enabled q \<Longrightarrow> engine_at w q A fl i (drain_unverified w c tx s)"
proof -
  assume at: "engine_at w q A fl i s" and q: "\<not> ve_enabled q"
  have c: "engine_at w q A fl i (complete_goal_now w None d s1)" if at1: "engine_at w q A fl i s1" for s1 d
  proof -
    note v = engine_view_complete(2) [of w d s1]
    have g: "grew s1 (complete_goal_now w None d s1)" by (rule growth.P_steps) simp
    have "engine_ok w q A (complete_goal_now w None d s1)"
      by (rule engine_ok_step [OF engine_atD(1) [OF at1] g, where f = "\<lambda>(st, n, b, v). if st = Active \<or> is_paused st then (Complete, n, 0, v) else (st, n, b, v)"])
         (use v q in \<open>auto simp: goal_verified_def engine_view_def split: if_splits\<close>)
    then show ?thesis using v at1 by (cases "vw (ss_goal s1)") (auto simp: engine_at_def engine_view_def vid_of_def)
  qed
  show ?thesis using at by (auto simp: drain_unverified_def split: prod.split intro!: ack_at badge_at(2) c dest: badge_at(1))
qed

lemma in_flight_at:
  assumes "engine_at w q A fl i s" "goal_status_of (ss_goal s) = Some Active" "gp_max_runs pol \<le> runs_cap q"
  shows "engine_at w q A fl i (snd (drain_in_flight w q pol tx (f, s)))"
proof -
  let ?e = "note_event (ClassifierFailClosed ConcurrentInFlight 0) s"
  have "goal_status_of (ss_goal ?e) = Some Active" using assms(2) by (simp add: note_event_def)
  then have "engine_at w q A fl i (snd (account_not_achieved_without_sampler w q pol ?e))"
    using account_at [OF ack_at(2) [OF assms(1)]] assms(3) by blast
  then show ?thesis by (auto simp: drain_in_flight_def split: prod.splits option.splits intro: ack_at)
qed

lemma non_active_metaD: "non_active_meta s = None \<Longrightarrow> goal_status_of (ss_goal s) = Some Active"
  by (auto simp: non_active_meta_def goal_status_of_def split: option.splits if_splits)

lemma cmd_at:
  assumes ctx: "drain_ctx w q A fl during" and at: "engine_at w q A fl i s"
  shows "engine_at w q A fl i (snd (drain_cmd w q during purpose c (cmd, tx) (f, s)))"
proof -
  let ?s = "s\<lparr>ss_blocked_streak := 0\<rparr>"
  let ?pol = "resolve_goal_classifier_policy q ?s"
  have at0: "engine_at w q A fl i ?s" by (rule ack_at(3) [OF at])
  note pol = policy_cap [OF at0]
  have "engine_at w q A fl i (snd (drain_completed w q during purpose c cmd tx (f, s)))"
    if c: "ug_blocked_reason cmd = None" "ug_completed cmd = Some True"
  proof (cases "ve_enabled q")
    case False
    then show ?thesis using unverified_at [OF at0 False] by (simp add: drain_completed_def Let_def resolve_goal_classifier_policy_def)
  next
    case True
    show ?thesis
    proof (cases "non_active_meta ?s")
      case (Some m)
      then show ?thesis using True at0 by (cases m) (auto simp: drain_completed_def Let_def resolve_goal_classifier_policy_def drain_non_active_def intro!: ack_at)
    next
      case None
      have act: "goal_status_of (ss_goal ?s) = Some Active" by (rule non_active_metaD [OF None])
      have "engine_at w q A fl i (drain_defer cmd tx ?s)" using defer_at [OF at0] c by (simp add: claim_ok_def)
      moreover have "engine_at w q A fl i (snd (drain_in_flight w q ?pol tx (f, ?s)))" by (rule in_flight_at [OF at0 act pol])
      moreover have "engine_at w q A fl i (snd (drain_fire w q during c ?pol tx (f, ?s)))" if "\<not> ss_in_flight s"
        using fire_at [OF _ _ act pol, of w during i c tx f] ctx at0 that by (auto simp: drain_ctx_def engine_at_def)
      ultimately show ?thesis using True None by (simp add: drain_completed_def Let_def) (simp add: resolve_goal_classifier_policy_def)
    qed
  qed
  then show ?thesis
    using at blocked_at [OF at]
    by (auto simp: drain_cmd_def drain_message_def split: option.split prod.split intro!: ack_at badge_at(2) dest: badge_at(1))
qed

lemma loop_at:
  assumes "drain_ctx w q A fl during" "engine_at w q A fl i (snd st)"
  shows "engine_at w q A fl i (snd (drain_loop w q during purpose c es st))"
  using assms(2)
proof (induction es arbitrary: st)
  case (Cons e es)
  have "engine_at w q A fl i (snd (drain_cmd w q during purpose c e st))"
    using cmd_at [OF assms(1) Cons.prems, where cmd = "fst e" and tx = "snd e" and f = "fst st"] by simp
  then show ?case using Cons.IH by (simp add: Let_def)
qed simp

lemma drain_with_at:
  assumes ctx: "drain_ctx w q A fl during" and at: "engine_at w q A fl i s"
  shows "engine_at w q A fl i (snd (drain_with w q during c purpose envs s))"
proof -
  let ?s0 = "case purpose of TurnEnd \<Rightarrow> s\<lparr>ss_pending_claims := []\<rparr> | MidTurn \<Rightarrow> s"
  have "engine_at w q A fl i ?s0" using at
    by (auto simp: engine_at_def engine_ok_def goal_verified_def endorsed_def vid_of_def split: drain_purpose.split)
  then have "engine_at w q A fl i (snd (drain_loop w q during purpose c (drain_sources purpose envs s) (flags0, ?s0)))"
    using loop_at [OF ctx] by simp
  moreover have "engine_at w q A fl i (emit es s)" for es by (rule engine_at_view [OF at]) (simp_all add: grew_steps)
  ultimately show ?thesis by (auto simp: drain_with_def Let_def split: prod.splits intro: ack_at)
qed

lemma meanwhile_keeps: "keeps_beside w q (meanwhile w q)"
proof -
  have one: "engine_at w q A True i (run_concurrent w q op s)" if "engine_at w q A True i s" for A i op s
    using pause_at [OF that] drain_with_at [of w q A True "\<lambda>s. s" i "tick s"] ack_at(5) [OF that]
    by (simp add: run_concurrent_def drain_ctx_def split: concurrent_op.split)
  have "engine_at w q A True i (fold (run_concurrent w q) ops s)" if "engine_at w q A True i s" for A i ops s
    using that one by (induction ops arbitrary: s) auto
  then show ?thesis
    using growth.P_meanwhile [OF grew_refl] ack_at(5) unfolding keeps_beside_def meanwhile_def by blast
qed

lemma drain_at: "engine_at w q None False i s \<Longrightarrow> engine_at w q None False i (snd (drain_goal_updates w q c purpose envs s))"
  unfolding drain_goal_updates_def by (rule drain_with_at) (simp_all add: drain_ctx_def meanwhile_keeps)

section \<open>Rounds and turns\<close>

lemma budget_at: "engine_at w q A fl i s \<Longrightarrow> engine_at w q A fl i (snd (enforce_goal_token_budget w c s))"
proof (cases "enforce_goal_token_budget w c s")
  case (Pair tr s')
  assume at: "engine_at w q A fl i s"
  have "engine_ok w q A s'" using budget_engine_ok [OF engine_atD(1) [OF at], of c] Pair by simp
  moreover have "vid_of s' = vid_of s" "ss_in_flight s' = ss_in_flight s"
    using engine_view_budget [OF Pair] by (cases "vw (ss_goal s)"; auto simp: engine_view_def vid_of_def split: if_splits)+
  ultimately show ?thesis using Pair at by (simp add: engine_at_def)
qed

lemma quiet_tx_at:
  assumes "engine_at w q A fl i s" "\<And>h ck t. vw (f h ck t) = vw t"
  shows "engine_at w q A fl i (goal_tx w f s)"
  by (rule engine_at_view [OF assms(1)]) (simp add: grew_steps, simp add: engine_view_simps assms(2), simp add: engine_view_def)

lemma after_drain_at: "engine_at w q A fl i s \<Longrightarrow> engine_at w q A fl i (snd (continuation_after_drain w q c s))"
proof -
  assume at: "engine_at w q A fl i s"
  have r: "vw (with_orch (\<lambda>o'. o'\<lparr>o_rounds_since_verify := f o'\<rparr>) (goal_account_elapsed ck t)) = vw t" for f ck t
  proof -
    have "verif (o'\<lparr>o_rounds_since_verify := k\<rparr>) = verif o'" for o' k by (simp add: verif_def)
    then have "map_option verif (map_option (\<lambda>o'. o'\<lparr>o_rounds_since_verify := f o'\<rparr>) x) = map_option verif x" for x by (cases x) simp_all
    then show ?thesis using vw_quiet(3) [of ck t] by (simp add: vw_def)
  qed
  have e: "engine_at w q A fl i s2" if "goal_tokens_now c (tick s) = (used, s1)" "enforce_goal_token_budget w c s1 = (tr, s2)" for used s1 tr s2
    using budget_at [OF badge_at(1) [OF that(1) ack_at(5) [OF at]], of c] that(2) by simp
  show ?thesis
    using at by (auto simp: continuation_after_drain_def Let_def split: prod.splits option.split intro!: ack_at quiet_tx_at badge_at(2) r dest: e)
qed

lemma commit_at: "engine_at w q A fl i s \<Longrightarrow> engine_at w q A fl i (commit_plan w plan s)"
proof -
  assume at: "engine_at w q A fl i s"
  have c: "engine_at w q A fl i (consume_strategist_note rec s)" for rec
  proof (rule engine_at_view [OF at])
    have "verif (if P then o'\<lparr>o_last_strategy_recommendation := None, o_last_strategy_path := None\<rparr> else o') = verif o'" for P o'
      by (simp add: verif_def)
    then have "vw (ss_goal (consume_strategist_note rec s)) = vw (ss_goal s)"
      by (cases "gt_orchestration (ss_goal s)") (simp_all add: consume_strategist_note_def vw_def)
    then show "engine_view (consume_strategist_note rec s) = engine_view s" by (simp add: engine_view_def consume_strategist_note_def)
  qed (simp add: grew_def consume_strategist_note_def)
  have p: "engine_at w q A fl i (record_and_emit_premature_stop w pat s')" if "engine_at w q A fl i s'" for pat s'
  proof -
    have "engine_at w q A fl i (goal_tx w (\<lambda>h ck t. goal_append_history (goal_history_now ck PrematureStopDetected (Some pat)) t) s')"
      by (rule quiet_tx_at [OF that]) simp
    then show ?thesis unfolding record_and_emit_premature_stop_def by (rule engine_at_view) (simp_all add: grew_steps)
  qed
  show ?thesis using at c p by (simp add: commit_plan_def Let_def split: option.split)
qed

lemma prepare_at:
  "engine_at w q None False i s \<Longrightarrow> engine_at w q None False i (snd (prepare_goal_continuation w q c envs s))"
  using drain_at [of w q i s c TurnEnd envs] after_drain_at
  by (auto simp: prepare_goal_continuation_def split: prod.splits) (metis snd_conv)

lemma round_end_at: "engine_at w q None False i s \<Longrightarrow> engine_at w q None False i (snd (run_goal_round_end w q envs s))"
  using prepare_at [OF ack_at(5), of w q i s "w_tokens w (ss_tick s)" envs] commit_at
  by (auto simp: run_goal_round_end_def split: prod.splits option.splits awaited.splits)

lemma queue_at: "engine_at w q None False i s \<Longrightarrow> engine_at w q None False i (snd (maybe_queue_goal_continuation w q envs s))"
proof -
  assume "engine_at w q None False i s"
  then have p: "engine_at w q None False i (snd (prepare_goal_continuation w q (w_tokens w (ss_tick s)) envs (tick s)))"
    by (intro prepare_at ack_at)
  have "engine_at w q None False i (emit [QueuedDirective d] s1)" if "engine_at w q None False i s1" for d s1
    by (rule engine_at_view [OF that]) (simp_all add: grew_steps)
  then show ?thesis
    using p commit_at ack_at(5) by (auto simp: maybe_queue_goal_continuation_def split: prod.splits option.splits awaited.splits)
qed

lemma streak_at: "engine_at w q A fl i s \<Longrightarrow> engine_at w q A fl i (s\<lparr>ss_continuation_streak := k\<rparr>)"
  by (erule engine_at_view) (simp_all add: grew_def)

lemma turn_end_at: "engine_at w q None False i s \<Longrightarrow> engine_at w q None False i (handle_turn_end w q ok envs s)"
proof -
  assume at: "engine_at w q None False i s"
  have e: "engine_at w q None False i s1" if "enforce_goal_token_budget w c (tick s) = (tr, s1)" for c tr s1
    using budget_at [OF ack_at(5) [OF at], of c] that by simp
  show ?thesis
    using at by (auto simp: handle_turn_end_def Let_def split: prod.split intro!: queue_at streak_at ack_at(4) pause_at dest: e)
qed

section \<open>The engine\<close>

text \<open>The goal's own commands, outside a panel.\<close>

lemma fresh_view: "engine_view (fresh_goal w obj b s) = (Some (Active, 0, 0, None, h_fresh_id (w_host w (ss_tick s))), [], ss_in_flight s)"
proof -
  let ?s1 = "(goal_tx w (\<lambda>h ck. create_goal h ck (w_uuid w (ss_tick s)) obj b (w_tokens w (ss_tick s)) (rfc ck 1) (w_commit w (ss_tick s))) s)
      \<lparr>ss_task_ids := [], ss_pending_claims := [], ss_continuation_streak := 0, ss_blocked_streak := 0\<rparr>"
  have "engine_view ?s1 = (Some (Active, 0, 0, None, h_fresh_id (w_host w (ss_tick s))), [], ss_in_flight s)"
    by (simp add: engine_view_def goal_tx_def tick_def vw_changes)
  then show ?thesis by (auto simp: fresh_goal_def Let_def split: prod.splits dest: engine_view_tokens)
qed

lemma planner_at: "engine_at w q A fl i s \<Longrightarrow> engine_at w q A fl i (maybe_run_goal_planner w s)"
proof -
  assume at: "engine_at w q A fl i s"
  have v: "map_option verif (map_option (\<lambda>o'. o'\<lparr>o_planning_in_flight := p\<rparr>) x) = map_option verif x"
    "map_option verif (map_option (\<lambda>o'. o'\<lparr>o_plan_file := f\<rparr>) x) = map_option verif x"
    "map_option verif (map_option (\<lambda>o'. o'\<lparr>o_plan_baseline_file := f\<rparr>) x) = map_option verif x" for p f x
    by (cases x; simp add: verif_def)+
  have set: "engine_at w q A fl i (a\<lparr>ss_goal := t\<rparr>)" if "engine_at w q A fl i a" "vw t = vw (ss_goal a)" for a t
    by (rule engine_at_view [OF that(1)]) (simp add: grew_def, simp add: engine_view_def that(2))
  have pl: "engine_at w q A fl i (emit_goal_planning w c s)" for c
  proof (cases "goal_tokens_now c s")
    case (Pair used s1)
    define s2 where "s2 = goal_tx w (\<lambda>h ck t. with_orch (\<lambda>o'. o'\<lparr>o_planning_in_flight := True\<rparr>) (goal_account_elapsed ck t)) s1"
    have "engine_at w q A fl i s2"
      unfolding s2_def by (rule quiet_tx_at [OF badge_at(1) [OF Pair at]]) (simp add: v vw_def [symmetric])
    moreover have "engine_at w q A fl i (emit es s2)" if "engine_at w q A fl i s2" for es
      by (rule engine_at_view [OF that]) (simp_all add: grew_steps)
    ultimately show ?thesis using at by (simp add: emit_goal_planning_def Pair s2_def [symmetric] split: option.split)
  qed
  have rp: "engine_at w q A fl i (record_plan w f a)" if "engine_at w q A fl i a" for f a
    using that by (auto simp: record_plan_def Let_def vw_def verif_def intro!: ack_at(5) set split: option.split)
  have fin: "engine_at w q A fl i (emit_goal_updated w used (s3\<lparr>ss_goal := with_orch (\<lambda>o'. o'\<lparr>o_planning_in_flight := False\<rparr>) (ss_goal s3)\<rparr>))"
    if "engine_at w q A fl i s2" "goal_tokens_now c s2 = (used, s3)" for s2 s3 used c
    by (intro badge_at(2) set [OF badge_at(1) [OF that(2,1)]]) (simp add: v vw_def)
  show ?thesis
    unfolding maybe_run_goal_planner_def
    using at by (auto simp: Let_def split: option.split prod.split goal_planner_result.splits
        intro!: fin [rotated] rp pause_at [of w q A] ack_at(5) pl)
qed

lemma setup_at: "\<not> ss_in_flight s \<Longrightarrow> \<exists>i. engine_at w q None False i (snd (setup_goal w obj b s))"
proof -
  assume "\<not> ss_in_flight s"
  then have "engine_view (fresh_goal w obj b s) = (Some (Active, 0, 0, None, h_fresh_id (w_host w (ss_tick s))), [], False)"
    by (simp add: fresh_view)
  then have "engine_at w q None False (Some (h_fresh_id (w_host w (ss_tick s)))) (fresh_goal w obj b s)"
    by (rule engine_at_active) (simp_all add: runs_cap_pos)
  then show ?thesis using planner_at unfolding setup_goal_snd by blast
qed

lemma resume_continue_at:
  assumes "engine_at w q A fl i s"
  shows "engine_at w q A fl i (snd (resume_goal_continue w um ps pm s))"
proof (cases "goal_tokens_now (w_tokens w (ss_tick s)) s")
  case (Pair used s1)
  define s3 where "s3 = goal_tx w (\<lambda>h ck. goal_account_elapsed ck) (emit_goal_updated w used s1)"
  have "engine_at w q A fl i s3"
    unfolding s3_def by (rule quiet_tx_at [OF badge_at(2) [OF badge_at(1) [OF Pair assms]]]) simp
  then show ?thesis by (simp add: resume_goal_continue_def Pair s3_def [symmetric] Let_def split: option.split)
qed

lemma resume_at: "engine_at w q None False i s \<Longrightarrow> engine_at w q None False i (snd (resume_goal w s))"
proof -
  assume at: "engine_at w q None False i s"
  have streaks: "engine_at w q None False i (a\<lparr>ss_continuation_streak := j, ss_blocked_streak := k\<rparr>)" if "engine_at w q None False i a" for a j k
    using ack_at(3) [OF streak_at [OF that]] .
  let ?f = "\<lambda>(st, n, b, v). if is_paused st then (Active, 0, 0, v) else (st, n, b, v)"
  let ?t = "goal_tx w (\<lambda>h ck t. snd (goal_resume ck t)) s"
  have v: "engine_view ?t = (map_option ?f (vw (ss_goal s)), ss_pending_claims s, False)"
    using engine_atD(2) [OF at] by (simp add: engine_view_simps vw_resume) (simp add: engine_view_def)
  have "engine_ok w q None ?t"
    by (rule engine_ok_step [OF engine_atD(1) [OF at] grew_steps(3), where f = ?f])
       (use v engine_atD(4) [OF at] runs_cap_pos in \<open>auto simp: engine_view_def goal_verified_def split: if_splits\<close>)
  moreover have "vid_of ?t = vid_of s" using v by (cases "vw (ss_goal s)") (auto simp: engine_view_def vid_of_def)
  ultimately have "engine_at w q None False i ?t" using v at by (simp add: engine_at_def engine_view_def)
  then show ?thesis
    using at by (auto simp: resume_goal_def Let_def split: option.split intro!: resume_continue_at planner_at streaks)
qed

lemma clear_at: "\<not> ss_in_flight s \<Longrightarrow> engine_at w q None False None (reset_goal_engine_state w s)"
proof -
  assume "\<not> ss_in_flight s"
  then have "engine_view (reset_goal_engine_state w s) = (None, [], False)"
    by (simp add: reset_goal_engine_state_def engine_view_def goal_tx_def tick_def emit_def goal_clear_def vw_def)
  then show ?thesis by (simp add: engine_at_def engine_view_def engine_ok_def vid_of_def)
qed

inductive engine_step :: "world \<Rightarrow> verify_env \<Rightarrow> session \<Rightarrow> session \<Rightarrow> bool" for w q where
  drain: "engine_step w q s (snd (drain_goal_updates w q current purpose envelopes s))"
| round_end: "engine_step w q s (snd (run_goal_round_end w q envelopes s))"
| turn_end: "engine_step w q s (handle_turn_end w q succeeded envelopes s)"
| pause: "engine_step w q s (snd (auto_pause_goal w reason msg s))"
| budget: "engine_step w q s (snd (enforce_goal_token_budget w current s))"
| new_goal: "engine_step w q s (snd (setup_goal w objective budget s))"
| resume: "engine_step w q s (snd (resume_goal w s))"
| clear: "engine_step w q s (reset_goal_engine_state w s)"

definition engine_start :: "session \<Rightarrow> bool" where
  "engine_start s \<longleftrightarrow> gt_orchestration (ss_goal s) = None \<and> ss_pending_claims s = [] \<and> \<not> ss_in_flight s"

definition engine_inv :: "world \<Rightarrow> verify_env \<Rightarrow> session \<Rightarrow> bool" where
  "engine_inv w q s \<longleftrightarrow> engine_ok w q None s \<and> \<not> ss_in_flight s"

lemma engine_inv_at: "engine_inv w q s \<longleftrightarrow> (\<exists>i. engine_at w q None False i s)"
  by (auto simp: engine_inv_def engine_at_def)

lemma engine_step_inv:
  assumes "engine_step w q s s'" "engine_inv w q s"
  shows "engine_inv w q s'"
proof -
  obtain i where "engine_at w q None False i s" using assms(2) engine_inv_at by blast
  moreover from this have "\<not> ss_in_flight s" by (simp add: engine_at_def)
  ultimately show ?thesis
    using assms(1) unfolding engine_inv_at
    by (elim engine_step.cases) (blast intro: drain_at round_end_at turn_end_at pause_at budget_at resume_at setup_at clear_at)+
qed

interpretation engine: invariant_system engine_start "engine_step w q" "engine_inv w q" for w q
  by unfold_locales (simp add: engine_start_def engine_inv_def engine_ok_def vw_def, rule engine_step_inv)

end
