(* ===== verification/Goal_Acks.thy ===== *)
theory Goal_Acks
  imports Goal_Keep
begin

text \<open>
  Every \<open>update_goal\<close> call gets one answer: a drain sends the acknowledgements of its envelopes in
  their order, one each, on every path through the verification; only a cancelled turn cuts the
  sequence short.
\<close>

section \<open>Acknowledgements in the log\<close>

definition ack_ids :: "session_event list \<Rightarrow> nat list" where
  "ack_ids es = List.map_filter (\<lambda>e. case e of Ack i a \<Rightarrow> Some i | _ \<Rightarrow> None) es"

text \<open>The calls of \<open>I\<close> that have been answered, in order.\<close>

definition answered :: "nat set \<Rightarrow> session \<Rightarrow> nat list" where
  "answered I s = filter (\<lambda>i. i \<in> I) (ack_ids (ss_log s))"

lemma ack_ids_simps [simp]:
  "ack_ids [] = []" "ack_ids (xs @ ys) = ack_ids xs @ ack_ids ys" "ack_ids (Ack i a # es) = i # ack_ids es"
  "ack_ids (map ClassifierEv cs) = []" "ack_ids (map PanelWrite ps) = []" "ack_ids (map (\<lambda>(c, i). Ack i ack) envs) = map snd envs"
  by (auto simp: ack_ids_def List.map_filter_simps List.map_filter_def comp_def split_beta)

lemma ack_ids_other [simp]:
  "ack_ids [ClassifierEv e] = []" "ack_ids [Output m] = []" "ack_ids [GoalBadge o' x y] = []" "ack_ids [GoalAutoPaused r] = []"
  "ack_ids [Checkpoint c, Badge b] = []"
  by (simp_all add: ack_ids_def List.map_filter_simps)

lemma answered_frame [simp]:
  "answered I (tick s) = answered I s" "answered I (note_event e s) = answered I s" "answered I (say m s) = answered I s"
  "answered I (s\<lparr>ss_goal := t\<rparr>) = answered I s" "answered I (s\<lparr>ss_in_flight := b\<rparr>) = answered I s"
  "answered I (s\<lparr>ss_blocked_streak := k\<rparr>) = answered I s" "answered I (s\<lparr>ss_pending_claims := cs\<rparr>) = answered I s"
  "answered I (s\<lparr>ss_records := rs\<rparr>) = answered I s" "answered I (goal_tx w f s) = answered I s" "answered I (graph_tx w g s) = answered I s"
  "answered I (persist_graph_state w s) = answered I s" "answered I (snd (goal_tokens_now c s)) = answered I s"
  "answered I (emit_goal_updated w used s) = answered I s"
  "answered I (emit (map ClassifierEv evs @ map PanelWrite fs) s) = answered I s"
  by (simp_all add: answered_def tick_def note_event_def say_def emit_def goal_tx_def graph_tx_def persist_graph_state_def goal_tokens_now_def
      emit_goal_updated_def Let_def split: prod.splits option.splits)

lemma answered_tokens: "goal_tokens_now c s = (used, s') \<Longrightarrow> answered I s' = answered I s"
  using answered_frame(12) [of I c s] by simp

lemma answered_ack: "answered I (try_send_ack tx a s) = answered I s @ filter (\<lambda>i. i \<in> I) (case tx of Some i \<Rightarrow> [i] | None \<Rightarrow> [])"
  by (simp add: answered_def try_send_ack_def emit_def split: option.splits)

lemma answered_pause [simp]: "answered I (snd (auto_pause_goal w r m s)) = answered I s"
proof -
  have "answered I (pause_goal_part w r m s) = answered I s"
    by (auto simp: pause_goal_part_def Let_def answered_def emit_def split: prod.splits)
       (auto simp: answered_def [symmetric] dest!: answered_tokens [where I = I])
  then show ?thesis by (simp add: auto_pause_split Let_def)
qed

lemma answered_steps [simp]:
  "answered I (complete_goal_now w v d s) = answered I s" "answered I (maybe_run_goal_strategist w q s) = answered I s"
  "answered I (maybe_run_goal_summarizer w q s) = answered I s" "answered I (persist_stage r an s) = answered I s"
  "answered I (snd (freeze_assignment q s)) = answered I s"
  by (simp_all add: complete_goal_now_def prune_subagent_records_def maybe_run_goal_strategist_def maybe_run_goal_summarizer_def
      persist_stage_def freeze_assignment_def Let_def split: option.splits)

lemma answered_verifying [simp]: "answered I (emit_goal_verifying w c s) = answered I s"
  by (auto simp: emit_goal_verifying_def Let_def answered_def emit_def split: option.splits prod.splits)
     (auto simp: answered_def [symmetric] dest!: answered_tokens [where I = I])

section \<open>One call\<close>

lemma answered_outcome [simp]: "answered I (snd (apply_classifier_outcome w q pol n out s)) = answered I s"
  by (auto simp: apply_classifier_outcome_def apply_achieved_def apply_fail_open_def apply_blocked_def apply_not_achieved_def
      auto_pause_for_classifier_cap_def auto_pause_for_classifier_stall_def auto_pause_for_classifier_blocked_def Let_def
      split: prod.splits goal_classifier_outcome.splits dest!: answered_tokens [where I = I])

lemma answered_account [simp]: "answered I (snd (account_not_achieved_without_sampler w q pol s)) = answered I s"
  by (auto simp: account_not_achieved_without_sampler_def auto_pause_for_classifier_cap_def Let_def
      split: prod.splits option.splits dest!: answered_tokens [where I = I])

lemma answered_stage:
  assumes "\<And>s. answered I (during s) = answered I s"
  shows "answered I (snd (run_verification_stage_for_drain w q during n mx s)) = answered I s"
proof -
  have "answered I s1 = answered I (tick s)" if "freeze_assignment q (tick s) = (ov, s1)" for ov s1
    using answered_steps(5) [of I q "tick s"] that by simp
  then show ?thesis by (auto simp: run_verification_stage_for_drain_def Let_def assms split: prod.splits option.splits)
qed

abbreviation own_ack :: "nat set \<Rightarrow> nat option \<Rightarrow> nat list" where
  "own_ack I tx \<equiv> filter (\<lambda>i. i \<in> I) (case tx of Some i \<Rightarrow> [i] | None \<Rightarrow> [])"

lemma answered_fire:
  assumes d: "\<And>s. answered I (during s) = answered I s" and f: "\<not> df_cancelled fl"
  shows "answered I (snd (drain_fire w q during c pol tx (fl, s))) =
    answered I s @ (if df_cancelled (fst (drain_fire w q during c pol tx (fl, s))) then [] else own_ack I tx)"
proof -
  obtain slot t1 where r: "reserve_classifier_attempt_slot pol (ss_goal s) = (slot, t1)" by fastforce
  let ?s1 = "s\<lparr>ss_goal := t1, ss_in_flight := True\<rparr>"
  show ?thesis
  proof (cases slot)
    case None
    then show ?thesis using r f by (simp add: drain_fire_def Let_def answered_ack)
  next
    case (Some a)
    obtain out s2 where run: "run_verification_stage_for_drain w q during a (gp_max_runs pol) (emit_goal_verifying w c ?s1) = (out, s2)" by fastforce
    have s2: "answered I s2 = answered I s" using answered_stage [OF d, where w = w and q = q and n = a and mx = "gp_max_runs pol" and s = "emit_goal_verifying w c ?s1"] run by simp
    have o: "answered I s4 = answered I s3" if "apply_classifier_outcome w q pol a vd s3 = (ack, s4)" for vd s3 ack s4
      using answered_outcome [of I w q pol a vd s3] that by simp
    show ?thesis
      using f s2 by (auto simp: drain_fire_def r Some run Let_def answered_ack split: option.split prod.split dest!: o)
  qed
qed

lemma answered_cmd:
  assumes d: "\<And>s. answered I (during s) = answered I s" and f: "\<not> df_cancelled fl"
  shows "answered I (snd (drain_cmd w q during purpose c (cmd, tx) (fl, s))) =
    answered I s @ (if df_cancelled (fst (drain_cmd w q during purpose c (cmd, tx) (fl, s))) then [] else own_ack I tx)"
proof -
  let ?ok = "\<lambda>st. answered I (snd st) = answered I s @ (if df_cancelled (fst st) then [] else own_ack I tx)"
  have b: "?ok (drain_blocked w cmd reason tx (fl, s))" for reason
  proof -
    have p: "answered I s2 = answered I s" if "auto_pause_goal w Verification m (s\<lparr>ss_blocked_streak := k\<rparr>) = (ap, s2)" for m k ap s2
      using answered_pause [of I w Verification m "s\<lparr>ss_blocked_streak := k\<rparr>"] that by simp
    show ?thesis using f by (auto simp: drain_blocked_def Let_def answered_ack split: prod.split dest!: p)
  qed
  have m: "answered I (drain_message w c cmd tx s') = answered I s' @ own_ack I tx" "answered I (drain_unverified w c tx s') = answered I s' @ own_ack I tx" for s'
    by (auto simp: drain_message_def drain_unverified_def answered_ack split: prod.splits dest!: answered_tokens [where I = I])
  have a: "answered I s1 = answered I s" if "account_not_achieved_without_sampler w q pol
      (note_event (ClassifierFailClosed ConcurrentInFlight 0) (s\<lparr>ss_blocked_streak := 0\<rparr>)) = (r, s1)" for pol r s1
    using answered_account [of I w q pol "note_event (ClassifierFailClosed ConcurrentInFlight 0) (s\<lparr>ss_blocked_streak := 0\<rparr>)"] that by simp
  have i: "?ok (drain_in_flight w q pol tx (fl, s\<lparr>ss_blocked_streak := 0\<rparr>))" for pol
    using f by (auto simp: drain_in_flight_def Let_def answered_ack split: prod.split option.split dest!: a)
  have "?ok (drain_completed w q during purpose c cmd tx (fl, s))"
    using i answered_fire [OF d f, of w q c _ tx "s\<lparr>ss_blocked_streak := 0\<rparr>"] f
    by (simp add: drain_completed_def Let_def m drain_non_active_def drain_defer_def answered_ack split: option.split)
  then show ?thesis using b f by (simp add: drain_cmd_def m answered_ack split: option.split)
qed

section \<open>The drain\<close>

abbreviation ids_of :: "nat set \<Rightarrow> (update_goal_input \<times> nat option) list \<Rightarrow> nat list" where
  "ids_of I es \<equiv> filter (\<lambda>i. i \<in> I) (List.map_filter snd es)"

lemma answered_loop:
  assumes d: "\<And>s. answered I (during s) = answered I s" and f: "\<not> df_cancelled (fst st)"
  shows "\<exists>k \<le> length es. answered I (snd (drain_loop w q during purpose c es st)) = answered I (snd st) @ ids_of I (take k es) \<and>
    (if df_cancelled (fst (drain_loop w q during purpose c es st)) then k < length es else k = length es)"
  using f
proof (induction es arbitrary: st)
  case (Cons e es)
  let ?st = "drain_cmd w q during purpose c e st"
  have e: "answered I (snd ?st) = answered I (snd st) @ (if df_cancelled (fst ?st) then [] else own_ack I (snd e))"
    using answered_cmd [OF d Cons.prems, where cmd = "fst e" and tx = "snd e" and s = "snd st"] by simp
  have hd: "ids_of I (e # xs) = own_ack I (snd e) @ ids_of I xs" for xs by (simp add: List.map_filter_simps split: option.split)
  show ?case
  proof (cases "df_cancelled (fst ?st)")
    case True
    then show ?thesis using e by (intro exI [of _ 0]) (simp add: Let_def List.map_filter_simps)
  next
    case False
    from Cons.IH [OF False] obtain k where "k \<le> length es"
      "answered I (snd (drain_loop w q during purpose c es ?st)) = answered I (snd ?st) @ ids_of I (take k es)"
      "if df_cancelled (fst (drain_loop w q during purpose c es ?st)) then k < length es else k = length es" by blast
    then show ?thesis using e False hd by (intro exI [of _ "Suc k"]) (simp add: Let_def)
  qed
qed (simp add: List.map_filter_simps)

lemma ids_of_sources:
  "List.map_filter snd (drain_sources purpose envs s) = map snd envs"
  by (induction envs) (auto simp: drain_sources_def List.map_filter_simps List.map_filter_def comp_def split_beta split: drain_purpose.splits)

lemma answered_drain_with:
  assumes d: "\<And>s. answered I (during s) = answered I s"
  shows "\<exists>k \<le> length envs. answered I (snd (drain_with w q during c purpose envs s)) = answered I s @ filter (\<lambda>i. i \<in> I) (map snd (take k envs)) \<and>
    (\<not> fst (drain_with w q during c purpose envs s) \<longrightarrow> k = length envs)"
proof (cases "cf_goal_harness w")
  case False
  then show ?thesis by (intro exI [of _ "length envs"]) (simp add: drain_with_def answered_def emit_def)
next
  case True
  let ?es = "drain_sources purpose envs s" and ?s0 = "case purpose of TurnEnd \<Rightarrow> s\<lparr>ss_pending_claims := []\<rparr> | MidTurn \<Rightarrow> s"
  let ?st = "drain_loop w q during purpose c ?es (flags0, ?s0)"
  obtain k where k: "k \<le> length ?es" "answered I (snd ?st) = answered I ?s0 @ ids_of I (take k ?es)"
    "if df_cancelled (fst ?st) then k < length ?es else k = length ?es"
    using answered_loop [OF d, of "(flags0, ?s0)" ?es w q purpose c] by (auto simp: flags0_def)
  have pre: "prefix (List.map_filter snd (take k ?es)) (map snd envs)"
    using ids_of_sources [of purpose envs s] append_take_drop_id [of k ?es] by (metis map_filter_append prefixI)
  then have "List.map_filter snd (take k ?es) = take (length (List.map_filter snd (take k ?es))) (map snd envs)"
    by (metis append_eq_conv_conj prefixE)
  moreover have "length (List.map_filter snd (take k ?es)) \<le> length envs" using prefix_length_le [OF pre] by simp
  moreover have "k = length ?es \<Longrightarrow> length (List.map_filter snd (take k ?es)) = length envs" by (simp add: ids_of_sources)
  ultimately show ?thesis
    using True k by (intro exI [of _ "length (List.map_filter snd (take k ?es))"])
      (auto simp: drain_with_def Let_def take_map split: prod.split drain_purpose.splits)
qed

text \<open>The calls a concurrent task hands to a drain of its own.\<close>

definition op_calls :: "concurrent_op \<Rightarrow> nat list" where
  "op_calls op = (case op of CoPause _ _ \<Rightarrow> [] | CoDrain _ envs \<Rightarrow> map snd envs)"

lemma answered_meanwhile:
  assumes "\<And>n op. op \<in> set (ve_concurrent q n) \<Longrightarrow> set (op_calls op) \<inter> I = {}"
  shows "answered I (meanwhile w q s) = answered I s"
proof -
  have one: "answered I (run_concurrent w q op s) = answered I s" if "set (op_calls op) \<inter> I = {}" for op s
  proof (cases op)
    case (CoDrain purpose envs)
    have "filter (\<lambda>i. i \<in> I) (map snd (take k envs)) = []" for k
      using that by (auto simp: CoDrain op_calls_def filter_empty_conv dest!: in_set_takeD)
    then show ?thesis
      using answered_drain_with [of I "\<lambda>s. s" envs w q "w_tokens w (ss_tick s)" purpose "tick s"] by (auto simp: run_concurrent_def CoDrain)
  qed (simp add: run_concurrent_def)
  have "answered I (fold (run_concurrent w q) ops s) = answered I s" if "\<forall>op \<in> set ops. set (op_calls op) \<inter> I = {}" for ops s
    using that one by (induction ops arbitrary: s) auto
  then show ?thesis using assms by (simp add: meanwhile_def)
qed

lemma drain_answers:
  assumes "\<And>n op. op \<in> set (ve_concurrent q n) \<Longrightarrow> set (op_calls op) \<inter> set (map snd envs) = {}"
    and "drain_goal_updates w q c purpose envs s = (cancelled, s')"
  shows "\<exists>k \<le> length envs. answered (set (map snd envs)) s' = answered (set (map snd envs)) s @ map snd (take k envs) \<and>
    (\<not> cancelled \<longrightarrow> k = length envs)"
proof -
  let ?I = "set (map snd envs)"
  have "filter (\<lambda>i. i \<in> ?I) (map snd (take k envs)) = map snd (take k envs)" for k
    by (auto simp: filter_id_conv dest: in_set_takeD)
  then show ?thesis
    using answered_drain_with [of ?I "meanwhile w q" envs w q c purpose s, OF answered_meanwhile [OF assms(1)]] assms(2)
    by (simp add: drain_goal_updates_def)
qed

end
