(* ===== verification/Goal_Facts.thy ===== *)
theory Goal_Facts
  imports Goal_Loop Goal_Acks
begin

text \<open>
  Consequences of the verification loop's invariant, and what single operations do: a cancelled
  verification gives its attempt back, the third blocked attempt pauses the goal, and progress
  without a claim does not break the row of blocked attempts.
\<close>

section \<open>Reachable states\<close>

lemma engine_run_ok:
  assumes "engine_start s0" "(engine_step w q)\<^sup>*\<^sup>* s0 s" "gt_orchestration (ss_goal s) = Some o'"
  shows "o_strategist_cap_bonus o' \<le> GOAL_STRATEGIST_CAP_BONUS"
    "o_status o' = Active \<Longrightarrow> o_classifier_runs_attempted o' < runs_cap q"
    "ve_enabled q \<Longrightarrow> o_status o' = Complete \<Longrightarrow> o_last_classifier_verdict o' = Some GcAchieved \<and> endorsed w q s (o_verifier_id o')"
    "length (ss_pending_claims s) \<le> GOAL_CLASSIFIER_PENDING_QUEUE_CAP" "\<forall>c \<in> set (ss_pending_claims s). claim_ok c" "\<not> ss_in_flight s"
  using engine.inv_run [OF assms(1,2)] assms(3)
  by (simp_all add: engine_inv_def engine_ok_def goal_verified_def vw_def verif_def queue_ok_def list_all_iff)

section \<open>Cancellation\<close>

lemma sat_add_sub: "n < (c :: u32) \<Longrightarrow> sat_sub_u (sat_add_u n 1) 1 = n"
proof -
  assume "n < c"
  then have "unat n < unat c" "unat c < 2 ^ 32" using unsigned_less [of c] by (auto simp: word_less_nat_alt)
  then have "sat_add_u n 1 = n + 1" "unat (n + 1) = unat n + 1" by (simp_all add: sat_add_u_def unat_word_ariths)
  then show ?thesis by (simp add: sat_sub_u_def word_less_nat_alt)
qed

lemma fire_cancelled:
  assumes at: "engine_inv w q s" and act: "goal_status_of (ss_goal s) = Some Active"
    and d: "\<And>s. engine_view (during s) = engine_view s" and f: "\<not> df_cancelled fl"
    and c: "df_cancelled (fst (drain_fire w q during c pol tx (fl, s)))"
  shows "engine_view (snd (drain_fire w q during c pol tx (fl, s))) = engine_view s"
proof -
  obtain i where ei: "engine_at w q None False i s" using at engine_inv_at by blast
  obtain n b v vid where s: "engine_view s = (Some (Active, n, b, v, vid), ss_pending_claims s, False)" "n < runs_cap q \<or> None = Some n"
    using active_view [OF ei act] .
  have vw: "vw (ss_goal s) = Some (Active, n, b, v, vid)" using s(1) by (simp add: engine_view_def)
  obtain t1 where rs: "reserve_classifier_attempt_slot pol (ss_goal s) = (Some (sat_add_u n 1), t1)" "vw t1 = Some (Active, sat_add_u n 1, b, v, vid)"
    using vw_reserve [of pol "ss_goal s"] vw by (cases "reserve_classifier_attempt_slot pol (ss_goal s)") simp
  define s1 where "s1 = emit_goal_verifying w c (s\<lparr>ss_goal := t1, ss_in_flight := True\<rparr>)"
  have v1: "engine_view s1 = (Some (Active, sat_add_u n 1, b, v, vid), ss_pending_claims s, True)"
    using rs(2) by (simp add: s1_def engine_view_simps) (simp add: engine_view_def)
  obtain out s2 where run: "run_verification_stage_for_drain w q during (sat_add_u n 1) (gp_max_runs pol) s1 = (out, s2)" by fastforce
  have fr: "engine_view sa = engine_view s1" if "freeze_assignment q (tick s1) = (ov, sa)" for ov sa
    using engine_view_quiet(4) [of q "tick s1"] that by simp
  have v2: "engine_view s2 = engine_view s1"
    using run by (auto simp: run_verification_stage_for_drain_def Let_def d split: option.splits if_splits prod.splits dest!: fr)
  have None: "out = None"
  proof (rule ccontr)
    assume "out \<noteq> None"
    then show False
      using c f by (auto simp: drain_fire_def rs(1) s1_def [symmetric] run Let_def split: prod.splits if_splits)
  qed
  let ?s3 = "s2\<lparr>ss_goal := clear_verifying (ss_goal s2)\<rparr>"
  have g: "vw (ss_goal ?s3) = Some (Active, sat_add_u n 1, b, v, vid)" "ss_pending_claims ?s3 = ss_pending_claims s"
    using v1 v2 by (simp_all add: engine_view_def)
  then have "vw (refund_slot (ss_goal ?s3)) = Some (Active, n, b, v, vid)"
    using vw_refund(2) [of "ss_goal ?s3"] s(2) by (simp add: vw_status sat_add_sub)
  then show ?thesis
    using g(2) s(1) by (simp add: drain_fire_def rs(1) s1_def [symmetric] run None engine_view_def Let_def)
qed

section \<open>Approval\<close>

lemma stage_achieves:
  assumes o: "gt_orchestration (ss_goal s) = Some o'" "cf_coordinator w" "\<And>n. \<not> ve_cancel q n"
    and ok: "\<And>n v. vi_verifier_id v = o_verifier_id o' \<Longrightarrow> vi_attempt v = a \<Longrightarrow> vi_skeptic_count v = ve_skeptic_count q \<Longrightarrow>
      panel_reached (ve_panel q n) (w_host w n) v \<and> approves (ve_panel q n) (w_host w n) v"
  shows "\<exists>d s'. run_verification_stage_for_drain w q during a mx s = (Some (OutAchieved d), s')"
proof -
  obtain ov s1 where fr: "freeze_assignment q (tick s) = (ov, s1)" by fastforce
  define n where "n = ss_tick s1"
  define v where "v = \<lparr>vi_verifier_id = o_verifier_id o', vi_attempt = a, vi_skeptic_count = ve_skeptic_count q,
                      vi_max_runs = mx, vi_prior_skeptic0 = o_skeptic0_session_id o', vi_overrides = ov\<rparr>"
  have "panel_reached (ve_panel q n) (w_host w n) v \<and> approves (ve_panel q n) (w_host w n) v" by (rule ok) (simp_all add: v_def)
  then have "\<exists>d. vr_outcome (run_verification_stage (ve_panel q n) (w_host w n) v) = OutAchieved d" using stage_outcome by blast
  then show ?thesis
    using o by (auto simp: run_verification_stage_for_drain_def fr n_def v_def Let_def)
qed

lemma fire_achieves:
  assumes o: "gt_orchestration (ss_goal s) = Some o'" "o_status o' = Active" "cf_coordinator w" "\<And>n. \<not> ve_cancel q n"
    and ok: "\<And>n v. vi_verifier_id v = o_verifier_id o' \<Longrightarrow> vi_attempt v = sat_add_u (o_classifier_runs_attempted o') 1 \<Longrightarrow>
      vi_skeptic_count v = ve_skeptic_count q \<Longrightarrow> panel_reached (ve_panel q n) (w_host w n) v \<and> approves (ve_panel q n) (w_host w n) v"
    and d: "\<And>s. engine_view (during s) = engine_view s"
  shows "\<exists>fl' s'. drain_fire w q during c pol tx (fl, s) = (fl', s') \<and> df_cancelled fl' = df_cancelled fl \<and> goal_status_of (ss_goal s') = Some Complete"
proof -
  let ?a = "sat_add_u (o_classifier_runs_attempted o') 1"
  have vw: "vw (ss_goal s) = Some (verif o')" using o(1) by (simp add: vw_def)
  obtain t1 where rs: "reserve_classifier_attempt_slot pol (ss_goal s) = (Some ?a, t1)"
      "vw t1 = Some (Active, ?a, o_strategist_cap_bonus o', o_last_classifier_verdict o', o_verifier_id o')"
    using vw_reserve [of pol "ss_goal s"] vw o(2) by (cases "reserve_classifier_attempt_slot pol (ss_goal s)") (simp add: verif_def)
  define s1 where "s1 = emit_goal_verifying w c (s\<lparr>ss_goal := t1, ss_in_flight := True\<rparr>)"
  have v1: "engine_view s1 = (vw t1, ss_pending_claims s, True)"
    by (simp add: s1_def engine_view_simps) (simp add: engine_view_def)
  obtain o1 where o1: "gt_orchestration (ss_goal s1) = Some o1" "o_verifier_id o1 = o_verifier_id o'"
    using v1 rs(2) by (auto simp: engine_view_def vw_def verif_def)
  obtain details s2 where run: "run_verification_stage_for_drain w q during ?a (gp_max_runs pol) s1 = (Some (OutAchieved details), s2)"
    using stage_achieves [OF o1(1) o(3,4), of ?a during "gp_max_runs pol"] ok o1(2) by auto
  have fr: "engine_view sa = engine_view s1" if "freeze_assignment q (tick s1) = (ov, sa)" for ov sa
    using engine_view_quiet(4) [of q "tick s1"] that by simp
  have v2: "engine_view s2 = engine_view s1"
    using run by (auto simp: run_verification_stage_for_drain_def Let_def d split: option.splits if_splits prod.splits dest!: fr)
  define s3 where "s3 = s2\<lparr>ss_goal := clear_verifying (ss_goal s2)\<rparr>"
  have v3: "engine_view s3 = engine_view s1" using v2 by (simp add: s3_def engine_view_def)
  have act: "goal_status_of (ss_goal s3) = Some Active" using v3 v1 rs(2) by (simp add: vw_status engine_view_def)
  have act': "goal_status_of (clear_verifying (ss_goal s2)) = Some Active" using act unfolding s3_def by simp
  obtain ack s4 where ap: "apply_classifier_outcome w q pol ?a (OutAchieved details) s3 = (ack, s4)" by fastforce
  have "fst (engine_view s4) = Some (Complete, ?a, 0, Some GcAchieved, o_verifier_id o')"
  proof -
    obtain used s3' where u: "goal_tokens_now (w_tokens w (ss_tick s3)) (tick s3) = (used, s3')" by fastforce
    have "engine_view s3' = engine_view s3" using engine_view_tokens [OF u] by simp
    then have g: "vw (ss_goal s3') = Some (Active, ?a, o_strategist_cap_bonus o', o_last_classifier_verdict o', o_verifier_id o')"
      using v3 v1 rs(2) by (simp add: engine_view_def)
    have "engine_view s4 = engine_view (complete_goal_now w (Some GcAchieved) (Some details) s3')"
      using ap by (auto simp: apply_classifier_outcome_def u apply_achieved_def Let_def)
    then show ?thesis using engine_view_complete(1) [of w GcAchieved "Some details" s3'] g by simp
  qed
  then have c: "goal_status_of (ss_goal s4) = Some Complete" by (simp add: engine_view_def vw_status)
  have "\<not> goal_is_paused s4" using c by (simp add: goal_is_paused_def)
  moreover have "ss_goal (try_send_ack tx ack s4) = ss_goal s4" by (simp add: try_send_ack_def split: option.split)
  ultimately show ?thesis
    using c act' by (simp add: drain_fire_def rs(1) s1_def [symmetric] run s3_def [symmetric] ap)
qed

lemma meanwhile_idle: "ve_concurrent q (ss_tick s) = [] \<Longrightarrow> meanwhile w q s = tick s"
  by (simp add: meanwhile_def)

lemma approved_claim:
  assumes o: "gt_orchestration (ss_goal s) = Some o'" "o_status o' = Active" "cf_goal_harness w" "cf_coordinator w" "ve_enabled q"
    and idle: "\<And>n. ve_concurrent q n = []" "\<And>n. \<not> ve_cancel q n" "\<not> ss_in_flight s" "ss_pending_claims s = []"
    and cmd: "claim_ok cmd"
    and ok: "\<And>n v. vi_verifier_id v = o_verifier_id o' \<Longrightarrow> vi_attempt v = sat_add_u (o_classifier_runs_attempted o') 1 \<Longrightarrow>
      vi_skeptic_count v = ve_skeptic_count q \<Longrightarrow> panel_reached (ve_panel q n) (w_host w n) v \<and> approves (ve_panel q n) (w_host w n) v"
  shows "\<exists>s'. drain_goal_updates w q c TurnEnd [(cmd, i)] s = (False, s') \<and> goal_status_of (ss_goal s') = Some Complete"
proof -
  let ?s = "s\<lparr>ss_pending_claims := [], ss_blocked_streak := 0\<rparr>"
  let ?pol = "resolve_goal_classifier_policy q ?s"
  have view: "engine_view (meanwhile w q s) = engine_view s" for s using idle(1) by (simp add: meanwhile_idle)
  obtain fl s' where f: "drain_fire w q (meanwhile w q) c ?pol (Some i) (flags0, ?s) = (fl, s')"
      "df_cancelled fl = df_cancelled flags0" "goal_status_of (ss_goal s') = Some Complete"
    using fire_achieves [of ?s o' w q "meanwhile w q" c ?pol "Some i" flags0] o idle(2) ok view by auto
  have n: "non_active_meta ?s = None" using o by (simp add: non_active_meta_def)
  have "drain_cmd w q (meanwhile w q) TurnEnd c (cmd, Some i) (flags0, s\<lparr>ss_pending_claims := []\<rparr>) = (fl, s')"
    using cmd o(5) n idle(3) f(1)
    by (simp add: drain_cmd_def drain_completed_def claim_ok_def Let_def flags0_def) (simp add: resolve_goal_classifier_policy_def)
  then have "drain_goal_updates w q c TurnEnd [(cmd, i)] s = (False, if df_cap_dropped fl > 0
      then note_event (ClassifierPendingQueueCleared (df_cap_dropped fl)) s' else s')"
    using o(3) f(2) idle(4) by (simp add: drain_goal_updates_def drain_with_def drain_sources_def flags0_def Let_def)
  then show ?thesis using f(3) by (simp add: note_event_def)
qed

section \<open>Blocked attempts\<close>

lemma streak_frame [simp]:
  "ss_blocked_streak (tick s) = ss_blocked_streak s" "ss_blocked_streak (emit es s) = ss_blocked_streak s" "ss_blocked_streak (say m s) = ss_blocked_streak s"
  "ss_blocked_streak (goal_tx w f s) = ss_blocked_streak s" "ss_blocked_streak (graph_tx w g s) = ss_blocked_streak s"
  "ss_blocked_streak (persist_graph_state w s) = ss_blocked_streak s" "ss_blocked_streak (snd (goal_tokens_now c s)) = ss_blocked_streak s"
  "ss_blocked_streak (emit_goal_updated w used s) = ss_blocked_streak s" "ss_blocked_streak (try_send_ack tx a s) = ss_blocked_streak s"
  by (auto simp: tick_def emit_def say_def goal_tx_def graph_tx_def persist_graph_state_def goal_tokens_now_def emit_goal_updated_def try_send_ack_def
      Let_def split: prod.splits option.splits)

lemma streak_tokens: "goal_tokens_now c s = (used, s') \<Longrightarrow> ss_blocked_streak s' = ss_blocked_streak s"
  using streak_frame(7) [of c s] by simp

lemma streak_budget: "enforce_goal_token_budget w c s = (tr, s') \<Longrightarrow> ss_blocked_streak s' = ss_blocked_streak s"
  by (auto simp: enforce_goal_token_budget_def Let_def split: prod.splits option.splits if_splits dest: streak_tokens)

text \<open>A call that neither claims completion nor reports a blocker.\<close>

definition progress_only :: "update_goal_input \<Rightarrow> bool" where
  "progress_only c \<longleftrightarrow> ug_blocked_reason c = None \<and> ug_completed c \<noteq> Some True"

lemma drain_message_frame: "ss_blocked_streak (drain_message w c cmd tx s) = ss_blocked_streak s"
  by (auto simp: drain_message_def split: prod.splits dest: streak_tokens)

lemma progress_loop:
  assumes "\<forall>e \<in> set es. progress_only (fst e)" "\<not> df_auto_paused fl" "\<not> df_block_seen fl"
  shows "fst (drain_loop w q during p c es (fl, s)) = fl \<and> ss_blocked_streak (snd (drain_loop w q during p c es (fl, s))) = ss_blocked_streak s"
  using assms(1)
proof (induction es arbitrary: s)
  case (Cons e es)
  then have "drain_cmd w q during p c e (fl, s) = (fl, drain_message w c (fst e) (snd e) s)"
    using assms(2,3) by (cases e) (simp add: drain_cmd_def progress_only_def)
  then show ?case
    using Cons by (cases "df_cancelled fl") (simp_all add: drain_message_frame)
qed simp

lemma progress_drain:
  assumes "\<forall>e \<in> set envs. progress_only (fst e)" "ss_pending_claims s = []"
  shows "fst (drain_goal_updates w q c TurnEnd envs s) = False \<and>
    ss_blocked_streak (snd (drain_goal_updates w q c TurnEnd envs s)) = ss_blocked_streak s"
proof -
  let ?es = "drain_sources TurnEnd envs s" and ?s = "s\<lparr>ss_pending_claims := []\<rparr>"
  have "\<forall>e \<in> set ?es. progress_only (fst e)" using assms by (auto simp: drain_sources_def)
  from progress_loop [OF this, of flags0 w q "meanwhile w q" TurnEnd c ?s]
  show ?thesis by (auto simp: drain_goal_updates_def drain_with_def Let_def flags0_def split: prod.splits)
qed

lemma streak_commit: "ss_blocked_streak (commit_plan w plan s) = ss_blocked_streak s"
  by (simp add: commit_plan_def Let_def consume_strategist_note_def record_and_emit_premature_stop_def split: option.splits)

lemma streak_after_drain: "ss_blocked_streak (snd (continuation_after_drain w q c s)) = ss_blocked_streak s"
  by (auto simp: continuation_after_drain_def Let_def split: prod.splits option.splits dest!: streak_tokens streak_budget)

lemma turn_keeps_streak:
  assumes "\<forall>e \<in> set envs. progress_only (fst e)" "ss_pending_claims s = []"
  shows "ss_blocked_streak (handle_turn_end w q True envs s) = ss_blocked_streak s"
proof -
  let ?s = "tick (s\<lparr>ss_continuation_streak := 0\<rparr>)"
  have "ss_pending_claims ?s = []" using assms(2) by (simp add: tick_def)
  from progress_drain [OF assms(1) this, of w q "w_tokens w (ss_tick s)"]
  have "ss_blocked_streak (snd (prepare_goal_continuation w q (w_tokens w (ss_tick s)) envs ?s)) = ss_blocked_streak s"
    using streak_after_drain [of w q "w_tokens w (ss_tick s)"]
    by (cases "drain_goal_updates w q (w_tokens w (ss_tick s)) TurnEnd envs ?s") (auto simp: prepare_goal_continuation_def split_beta)
  then show ?thesis
    by (auto simp: handle_turn_end_def maybe_queue_goal_continuation_def streak_commit split: prod.splits option.splits awaited.splits)
qed

text \<open>The third attempt in a row pauses the goal; the first two are recorded.\<close>

lemma drain_blocked_pauses:
  assumes "goal_status_of (ss_goal s) = Some Active" "ss_blocked_streak s = 2"
  shows "goal_status_of (ss_goal (snd (drain_blocked w cmd reason tx (fl, s)))) = Some Blocked"
    "df_block_seen (fst (drain_blocked w cmd reason tx (fl, s)))"
proof -
  have p: "vw (ss_goal s2) = map_option (\<lambda>(st, v). (Blocked, v)) (vw (ss_goal s)) \<and> applied"
    if "auto_pause_goal w Verification m (s\<lparr>ss_blocked_streak := k\<rparr>) = (applied, s2)" for m k applied s2
    using engine_view_pause [of w Verification m "s\<lparr>ss_blocked_streak := k\<rparr>"] that assms(1)
    by (simp add: engine_view_def auto_pause_split)
  have "ss_goal (try_send_ack tx a s') = ss_goal s'" for a s' by (simp add: try_send_ack_def split: option.split)
  then show "goal_status_of (ss_goal (snd (drain_blocked w cmd reason tx (fl, s)))) = Some Blocked"
    "df_block_seen (fst (drain_blocked w cmd reason tx (fl, s)))"
    using assms by (auto simp: drain_blocked_def Let_def vw_status split: prod.split dest!: p)
qed

lemma drain_blocked_records:
  assumes "ss_blocked_streak s < 2"
  shows "ss_blocked_streak (snd (drain_blocked w cmd reason tx (fl, s))) = ss_blocked_streak s + 1"
    "ss_goal (snd (drain_blocked w cmd reason tx (fl, s))) = ss_goal s"
proof -
  have "unat (ss_blocked_streak s) < 2" using assms by (simp add: word_less_nat_alt)
  then have "unat (ss_blocked_streak s + 1) < 3" by (simp add: unat_word_ariths)
  then have "ss_blocked_streak s + 1 < 3" by (simp add: word_less_nat_alt)
  then show "ss_blocked_streak (snd (drain_blocked w cmd reason tx (fl, s))) = ss_blocked_streak s + 1"
    "ss_goal (snd (drain_blocked w cmd reason tx (fl, s))) = ss_goal s"
    by (simp_all add: drain_blocked_def Let_def try_send_ack_def split: option.split)
qed

end
