(* ===== verification/Goal_Demo.thy ===== *)
theory Goal_Demo
  imports Goal_Facts Session_Demo
begin

text \<open>
  A concrete verification for the witnesses: a panel of one skeptic, or of three, that answers with the bare
  terminal token, and a session with a goal in it.
\<close>

definition demo_panel :: "string \<Rightarrow> panel_io" where
  "demo_panel answer =
     \<lparr>pi_parse = (\<lambda>_. None), pi_root_err = None, pi_capture = Captured ''diff'' [], pi_patch_ok = True,
      pi_placeholder = PlaceholderWritten, pi_uuid = ''u'', sk_root_err = (\<lambda>_. None), sk_send = (\<lambda>_ _ _. Inr answer),
      sk_verdict_file = (\<lambda>_ _. None), sk_details_blank = (\<lambda>_ _. True), sk_latency = (\<lambda>_. 0)\<rparr>"

definition demo_verify :: "string \<Rightarrow> verify_env" where
  "demo_verify answer =
     \<lparr>ve_enabled = True, ve_max_runs = 3, ve_skeptic_count = 1, ve_strategist_every = 0, ve_summary_enabled = False,
      ve_reverify_after = 3, ve_current_model_only = True, ve_skeptic_pool = [],
      ve_roles = (\<lambda>_. \<lparr>re_selectable = (\<lambda>_. None), re_strict = (\<lambda>_. False), re_representable = (\<lambda>_. False),
         re_describe = (\<lambda>_ _. DescribeUnavailable)\<rparr>),
      ve_panel = (\<lambda>_. demo_panel answer), ve_concurrent = (\<lambda>_. []), ve_cancel = (\<lambda>_. False), ve_final_response = (\<lambda>_. ''done''),
      ve_details_written = (\<lambda>_. True), ve_strategist = (\<lambda>_. None), ve_summary = (\<lambda>_. None), ve_stop_pattern = (\<lambda>_. None),
      ve_pending_todos = (\<lambda>_. False), ve_goal_tool = ''update_goal'', ve_todo_tool = ''todo'', ve_plan_content = (\<lambda>_ _. None),
      ve_lossy = id, ve_nonce = (\<lambda>_. ''n''), ve_already_queued = (\<lambda>_. False)\<rparr>"

definition demo_claim_call :: update_goal_input where
  "demo_claim_call = \<lparr>ug_completed = Some True, ug_message = None, ug_blocked_reason = None\<rparr>"

definition demo_goal_session :: session where
  "demo_goal_session = snd (setup_goal demo_world ''do it'' None demo_session)"

definition demo_inputs :: stage_inputs where
  "demo_inputs = \<lparr>vi_verifier_id = ''0123456789ab'', vi_attempt = 1, vi_skeptic_count = 1, vi_max_runs = 3, vi_prior_skeptic0 = None,
     vi_overrides = [None]\<rparr>"

section \<open>The panel\<close>

lemma demo_panel_fields [simp]:
  "pi_root_err (demo_panel a) = None" "pi_patch_ok (demo_panel a)" "sk_root_err (demo_panel a) i = None" "sk_send (demo_panel a) i b e = Inr a"
  "sk_verdict_file (demo_panel a) i b = None"
  by (simp_all add: demo_panel_def)

lemma demo_paths:
  "path_rejected demo_host (format_details_path demo_host ''0123456789ab'' 1) = False"
  "path_rejected demo_host (format_changes_path demo_host ''0123456789ab'' 1) = False"
  "path_rejected demo_host (format_verifier_details_path demo_host ''0123456789ab'' 1 0) = False"
  "path_rejected demo_host (format_verdict_path demo_host ''0123456789ab'' 1 0) = False"
  by code_simp+

lemma demo_answers: "parse_skeptic_terminal_response ''Not Refuted'' = Some False" "parse_skeptic_terminal_response ''Refuted'' = Some True"
  by code_simp+

lemma demo_one_skeptic: "unat (clamp_skeptics 1) = 1"
  by code_simp

lemma demo_reached: "vi_verifier_id v = ''0123456789ab'' \<Longrightarrow> vi_attempt v = 1 \<Longrightarrow> panel_reached (demo_panel answer) demo_host v"
  by (simp add: panel_reached_def demo_paths)

lemma demo_vote:
  assumes "vi_verifier_id v = ''0123456789ab''" "vi_attempt v = 1" "vi_skeptic_count v = 1" "parse_skeptic_terminal_response answer = Some r"
  shows "sr_refuted (vote (demo_panel answer) demo_host v 0) = r" "sr_blocking (vote (demo_panel answer) demo_host v 0) = BlockNone"
  using assms(4)
  by (simp_all add: vote_def run_one_skeptic_def run_cold_skeptic_def spawn_classifier_def spawn_with_fail_open_retry_def read_skeptic_verdict_def
      assms(1-3) demo_one_skeptic demo_paths Let_def)

lemma demo_approves:
  assumes "vi_verifier_id v = ''0123456789ab''" "vi_attempt v = 1" "vi_skeptic_count v = 1"
  shows "approves (demo_panel ''Not Refuted'') demo_host v" "\<not> approves (demo_panel ''Refuted'') demo_host v"
  using demo_vote(1) [OF assms demo_answers(1)] demo_vote(1) [OF assms demo_answers(2)] assms(3) by (simp_all add: approves_def demo_one_skeptic)

section \<open>The session\<close>

lemma demo_goal_start: "engine_start demo_session"
  by (simp add: engine_start_def demo_session_def goal_tracker_new_def)

lemma demo_goal_run: "(engine_step demo_world q)\<^sup>*\<^sup>* demo_session demo_goal_session"
  unfolding demo_goal_session_def by (rule r_into_rtranclp) (rule engine_step.new_goal)

lemma demo_goal_view: "engine_view demo_goal_session = (Some (Active, 0, 0, None, ''0123456789ab''), [], False)"
proof -
  have "maybe_run_goal_planner demo_world s = s" for s by (simp add: maybe_run_goal_planner_def demo_world_def)
  then show ?thesis unfolding demo_goal_session_def setup_goal_snd by (simp add: fresh_view) (simp add: demo_world_def demo_host_def demo_session_def)
qed

lemma demo_goal_state:
  obtains o' where "gt_orchestration (ss_goal demo_goal_session) = Some o'" "o_status o' = Active" "o_classifier_runs_attempted o' = 0"
    "o_verifier_id o' = ''0123456789ab''" "ss_pending_claims demo_goal_session = []" "\<not> ss_in_flight demo_goal_session"
  using demo_goal_view by (auto simp: engine_view_def vw_def verif_def)

lemma demo_verify_fields [simp]:
  "ve_enabled (demo_verify a)" "ve_concurrent (demo_verify a) n = []" "\<not> ve_cancel (demo_verify a) n" "ve_skeptic_count (demo_verify a) = 1"
  "ve_panel (demo_verify a) n = demo_panel a" "ve_max_runs (demo_verify a) = 3"
  by (simp_all add: demo_verify_def)

lemma demo_world_fields [simp]: "cf_goal_harness demo_world" "cf_coordinator demo_world" "w_host demo_world n = demo_host"
  by (simp_all add: demo_world_def)

definition demo_achieved :: session where
  "demo_achieved = snd (drain_goal_updates demo_world (demo_verify ''Not Refuted'') 0 TurnEnd [(demo_claim_call, 7)] demo_goal_session)"

lemma demo_claim_call_ok: "claim_ok demo_claim_call"
  by (simp add: claim_ok_def demo_claim_call_def)

lemma demo_sat: "sat_add_u 0 1 = (1 :: u32)"
  by (simp add: sat_add_u_def)

lemma demo_achieved: "goal_status_of (ss_goal demo_achieved) = Some Complete"
proof -
  obtain o' where o: "gt_orchestration (ss_goal demo_goal_session) = Some o'" "o_status o' = Active" "o_classifier_runs_attempted o' = 0"
    "o_verifier_id o' = ''0123456789ab''" "ss_pending_claims demo_goal_session = []" "\<not> ss_in_flight demo_goal_session" by (rule demo_goal_state)
  have "\<exists>s'. drain_goal_updates demo_world (demo_verify ''Not Refuted'') 0 TurnEnd [(demo_claim_call, 7)] demo_goal_session = (False, s') \<and>
      goal_status_of (ss_goal s') = Some Complete"
    by (rule approved_claim [OF o(1,2)]) (simp_all add: o(3-6) demo_claim_call_ok demo_sat demo_reached demo_approves(1))
  then show ?thesis unfolding demo_achieved_def by (elim exE conjE) simp
qed

lemma demo_achieved_run: "(engine_step demo_world (demo_verify ''Not Refuted''))\<^sup>*\<^sup>* demo_session demo_achieved"
  unfolding demo_achieved_def by (rule rtranclp.rtrancl_into_rtrancl [OF demo_goal_run engine_step.drain])

lemma demo_drain_returns: "\<not> fst (drain_goal_updates demo_world (demo_verify ''Not Refuted'') 0 TurnEnd [(demo_claim_call, 7)] demo_goal_session)"
proof -
  obtain o' where o: "gt_orchestration (ss_goal demo_goal_session) = Some o'" "o_status o' = Active" "o_classifier_runs_attempted o' = 0"
    "o_verifier_id o' = ''0123456789ab''" "ss_pending_claims demo_goal_session = []" "\<not> ss_in_flight demo_goal_session" by (rule demo_goal_state)
  have "\<exists>s'. drain_goal_updates demo_world (demo_verify ''Not Refuted'') 0 TurnEnd [(demo_claim_call, 7)] demo_goal_session = (False, s') \<and>
      goal_status_of (ss_goal s') = Some Complete"
    by (rule approved_claim [OF o(1,2)]) (simp_all add: o(3-6) demo_claim_call_ok demo_sat demo_reached demo_approves(1))
  then show ?thesis by (elim exE conjE) simp
qed

lemma demo_unanswered: "answered I demo_goal_session = []"
proof -
  have "maybe_run_goal_planner demo_world s = s" for s by (simp add: maybe_run_goal_planner_def demo_world_def)
  moreover have "answered I (fresh_goal demo_world obj b demo_session) = []" for obj b
    by (auto simp: fresh_goal_def Let_def split: prod.splits dest!: answered_tokens [where I = I])
       (simp add: answered_def goal_tx_def tick_def demo_session_def)
  ultimately show ?thesis unfolding demo_goal_session_def setup_goal_snd by simp
qed

section \<open>A cancelled turn\<close>

definition demo_cancelling :: verify_env where
  "demo_cancelling = (demo_verify ''Not Refuted'')\<lparr>ve_cancel := \<lambda>_. True\<rparr>"

lemma demo_cancel:
  "\<exists>fl s'. drain_fire demo_world demo_cancelling during 0 pol tx (flags0, demo_goal_session) = (fl, s') \<and> df_cancelled fl"
proof -
  obtain o' where o: "gt_orchestration (ss_goal demo_goal_session) = Some o'" by (rule demo_goal_state)
  obtain a t1 where rs: "reserve_classifier_attempt_slot pol (ss_goal demo_goal_session) = (Some a, t1)" "gt_orchestration t1 \<noteq> None"
    using o by (simp add: reserve_classifier_attempt_slot_def Let_def)
  let ?s1 = "emit_goal_verifying demo_world 0 (demo_goal_session\<lparr>ss_goal := t1, ss_in_flight := True\<rparr>)"
  have "vw (ss_goal ?s1) = vw t1"
    using engine_view_quiet(3) [of demo_world 0 "demo_goal_session\<lparr>ss_goal := t1, ss_in_flight := True\<rparr>"] by (simp add: engine_view_def)
  then obtain o1 where "gt_orchestration (ss_goal ?s1) = Some o1" using rs(2) by (auto simp: vw_def)
  then have "fst (run_verification_stage_for_drain demo_world demo_cancelling during a (gp_max_runs pol) ?s1) = None"
    by (auto simp: run_verification_stage_for_drain_def Let_def demo_cancelling_def split: prod.split)
  then obtain s2 where "run_verification_stage_for_drain demo_world demo_cancelling during a (gp_max_runs pol) ?s1 = (None, s2)"
    by (metis fst_conv surj_pair)
  then show ?thesis by (simp add: drain_fire_def rs(1) Let_def)
qed

end
