(* ===== verification/Perm_Rules.thy ===== *)
theory Perm_Rules
  imports Rust_Text
begin

text \<open>
  The vocabulary of tool permissions (\<open>kigi-workspace/src/permission/types.rs\<close>) and the rule
  language of \<open>rules.rs\<close>: \<open>Bash(npm run:*)\<close>, \<open>Read(src/**)\<close>, \<open>WebFetch(domain:docs.rs)\<close>.
\<close>

section \<open>Accesses, rules and decisions\<close>

text \<open>The JSON arguments of an MCP call are kept as their compact text, \<open>None\<close> for \<open>null\<close>.\<close>

datatype access_kind =
    AccRead "string option"
  | AccGrep "string option" "string option"
  | AccEdit string
  | AccBash string
  | AccMCPTool string "string option"
  | AccWebFetch string
  | AccWebSearch string

datatype decision = Allow | Ask | FollowupMessage string | Reject string | PolicyDeny string | DCancelled

datatype edit_policy = EditAsk | EditAllow | EditReject

datatype prompt_policy = PromptAsk | PromptDeny | PromptAuto

datatype pattern_mode = GlobMode | DomainMode

datatype rule_action = ActAllow | ActDeny | ActAsk

datatype tool_filter = ForAny | ForBash | ForEdit | ForRead | ForGrep | ForMcp | ForWebFetch | ForWebSearch

record permission_rule =
  pr_action :: rule_action
  pr_tool :: tool_filter
  pr_pattern :: "string option"
  pr_pattern_mode :: pattern_mode

record permission_config =
  pc_rules :: "permission_rule list"
  pc_prompt_policy :: prompt_policy

text \<open>The stronger of two decisions; the first of equals.\<close>

fun decision_rank :: "decision \<Rightarrow> nat" where
  "decision_rank (Reject _) = 3"
| "decision_rank (PolicyDeny _) = 3"
| "decision_rank Ask = 2"
| "decision_rank Allow = 1"
| "decision_rank _ = 0"

fun combine_decisions :: "decision option \<Rightarrow> decision option \<Rightarrow> decision option" where
  "combine_decisions None b = b"
| "combine_decisions a None = a"
| "combine_decisions (Some a) (Some b) = Some (if decision_rank a \<ge> decision_rank b then a else b)"

section \<open>Default modes\<close>

datatype default_permission_mode = ModeDefault | ModeAcceptEdits | ModePlan | ModeAuto | ModeDontAsk | ModeBypassPermissions

definition default_mode_from_str :: "string \<Rightarrow> string + default_permission_mode" where
  "default_mode_from_str s =
     (if s = ''default'' then Inr ModeDefault
      else if s = ''acceptEdits'' then Inr ModeAcceptEdits
      else if s = ''plan'' then Inr ModePlan
      else if s = ''auto'' then Inr ModeAuto
      else if s = ''dontAsk'' then Inr ModeDontAsk
      else if s = ''bypassPermissions'' then Inr ModeBypassPermissions
      else Inl s)"

record default_mode_effects =
  dme_prompt_policy :: prompt_policy
  dme_accept_edits :: bool
  dme_bypass_permissions :: bool

fun mode_effects :: "default_permission_mode \<Rightarrow> default_mode_effects" where
  "mode_effects ModeAcceptEdits = \<lparr>dme_prompt_policy = PromptAsk, dme_accept_edits = True, dme_bypass_permissions = False\<rparr>"
| "mode_effects ModeBypassPermissions = \<lparr>dme_prompt_policy = PromptAsk, dme_accept_edits = False, dme_bypass_permissions = True\<rparr>"
| "mode_effects ModeDontAsk = \<lparr>dme_prompt_policy = PromptDeny, dme_accept_edits = False, dme_bypass_permissions = False\<rparr>"
| "mode_effects ModeAuto = \<lparr>dme_prompt_policy = PromptAuto, dme_accept_edits = False, dme_bypass_permissions = False\<rparr>"
| "mode_effects _ = \<lparr>dme_prompt_policy = PromptAsk, dme_accept_edits = False, dme_bypass_permissions = False\<rparr>"

section \<open>The rule language\<close>

definition bslash :: char where
  "bslash = CHR 0x5C"

datatype rule_parse_error = UnsupportedToolPrefix string | UnknownToolPrefix string | MalformedRule string

definition tool_name_to_filter :: "string \<Rightarrow> tool_filter option" where
  "tool_name_to_filter name =
     (if name = ''Bash'' then Some ForBash
      else if name \<in> {''Read'', ''NotebookRead''} then Some ForRead
      else if name \<in> {''Edit'', ''Write'', ''NotebookEdit''} then Some ForEdit
      else if name = ''MCPTool'' then Some ForMcp
      else if name \<in> {''Grep'', ''Glob''} then Some ForGrep
      else if name = ''WebFetch'' then Some ForWebFetch
      else if name = ''WebSearch'' then Some ForWebSearch
      else None)"

text \<open>Not preceded by an odd number of backslashes.\<close>

definition is_unescaped :: "string \<Rightarrow> nat \<Rightarrow> bool" where
  "is_unescaped s pos \<longleftrightarrow> even (length (takeWhile (\<lambda>c. c = bslash) (rev (take pos s))))"

definition find_first_unescaped :: "string \<Rightarrow> char \<Rightarrow> nat option" where
  "find_first_unescaped s target = find (\<lambda>i. s ! i = target \<and> is_unescaped s i) [0..<length s]"

definition find_last_unescaped :: "string \<Rightarrow> char \<Rightarrow> nat option" where
  "find_last_unescaped s target = find (\<lambda>i. s ! i = target \<and> is_unescaped s i) (rev [0..<length s])"

definition unescape_rule_content :: "string \<Rightarrow> string" where
  "unescape_rule_content s =
     (if bslash \<notin> set s then s
      else replace_str [bslash, bslash] [bslash]
             (replace_str [bslash, CHR '')''] '')'' (replace_str [bslash, CHR ''(''] ''('' s)))"

definition strip_domain_prefix :: "string \<Rightarrow> string \<times> pattern_mode" where
  "strip_domain_prefix pat =
     (case strip_prefix_str ''domain:'' pat of Some domain \<Rightarrow> (domain, DomainMode) | None \<Rightarrow> (pat, GlobMode))"

definition strip_bash_colon_wildcard :: "string \<Rightarrow> string" where
  "strip_bash_colon_wildcard pat = (if suffix '':*'' pat then take (length pat - 2) pat else pat)"

definition non_empty :: "string \<Rightarrow> string option" where
  "non_empty s = (if s = [] then None else Some s)"

definition parse_permission_rule :: "string \<Rightarrow> rule_action \<Rightarrow> rule_parse_error + permission_rule" where
  "parse_permission_rule text action =
    (let rule = trim text
     in case find_first_unescaped rule (CHR ''('') of
          Some open_paren \<Rightarrow>
            let prefix_trimmed = trim (take open_paren rule);
                content_and_close = drop (Suc open_paren) rule
            in (case find_last_unescaped content_and_close (CHR '')'') of
                  None \<Rightarrow> Inl (MalformedRule ''missing closing parenthesis'')
                | Some close_paren \<Rightarrow>
                    let raw_content = trim (take close_paren content_and_close);
                        pat = (if raw_content = [] \<or> raw_content = ''*'' then [] else unescape_rule_content raw_content)
                    in (case tool_name_to_filter prefix_trimmed of
                          None \<Rightarrow> Inl (if prefix_trimmed = ''EnterWorktree'' then UnsupportedToolPrefix prefix_trimmed
                                      else UnknownToolPrefix prefix_trimmed)
                        | Some tool \<Rightarrow>
                            let pat' = (if tool = ForBash then strip_bash_colon_wildcard pat else pat);
                                (pat'', mode) = strip_domain_prefix pat'
                            in Inr \<lparr>pr_action = action, pr_tool = tool, pr_pattern = non_empty pat'', pr_pattern_mode = mode\<rparr>))
        | None \<Rightarrow>
            (case tool_name_to_filter rule of
               Some tool \<Rightarrow> Inr \<lparr>pr_action = action, pr_tool = tool, pr_pattern = None, pr_pattern_mode = GlobMode\<rparr>
             | None \<Rightarrow> Inr \<lparr>pr_action = action, pr_tool = ForAny, pr_pattern = non_empty rule, pr_pattern_mode = GlobMode\<rparr>))"

end
