(* ===== verification/Perm_Bash.thy ===== *)
theory Perm_Bash
  imports Perm_Rules
begin

text \<open>
  \<open>permission/bash_command_splitting.rs\<close>: a shell script is decomposed into the plain commands it
  runs.  The parser itself, tree-sitter with its bash grammar, is a parameter; its syntax tree is
  the datatype \<open>ts_node\<close> with the node kind, whether the node is named, its field name, its byte
  range and its children.  The ranges lie on character boundaries, so that the text of a node is
  the slice of the source.
\<close>

section \<open>Syntax trees\<close>

datatype ts_node = TsNode (ts_kind: string) (ts_named: bool) (ts_field: "string option") (ts_start: nat) (ts_end: nat)
  (ts_children: "ts_node list")

record ts_tree =
  tt_root :: ts_node
  tt_has_error :: bool

definition node_text :: "string \<Rightarrow> ts_node \<Rightarrow> string" where
  "node_text src n = take (ts_end n - ts_start n) (drop (ts_start n) src)"

definition named_children :: "ts_node \<Rightarrow> ts_node list" where
  "named_children n = filter ts_named (ts_children n)"

definition child_by_field :: "string \<Rightarrow> ts_node \<Rightarrow> ts_node option" where
  "child_by_field name n = find (\<lambda>c. ts_field c = Some name) (ts_children n)"

text \<open>The order in which a stack that is pushed the children from the left visits the nodes.\<close>

fun ts_walk :: "ts_node \<Rightarrow> ts_node list" where
  "ts_walk (TsNode k nm f a b cs) = TsNode k nm f a b cs # concat (rev (map ts_walk cs))"

section \<open>Words\<close>

text \<open>\<open>rsplit(['/', '\\']).next()\<close>: the part after the last separator.\<close>

definition base_name :: "string \<Rightarrow> string" where
  "base_name w = rev (takeWhile (\<lambda>c. c \<noteq> CHR ''/'' \<and> c \<noteq> bslash) (rev w))"

definition matches_prefix_words :: "string list \<Rightarrow> string \<Rightarrow> bool \<Rightarrow> bool" where
  "matches_prefix_words ws pat ignore_case =
     (let ps = split_whitespace pat
      in ps \<noteq> [] \<and> length ps \<le> length ws \<and>
         list_all2 (\<lambda>p w. if ignore_case then eq_ignore_ascii_case w p else w = p) ps (take (length ps) ws))"

definition unquoted_may_expand :: "string \<Rightarrow> bool" where
  "unquoted_may_expand s \<longleftrightarrow> list_ex (\<lambda>c. c \<in> set ''*?[]{}~'' \<or> c = bslash) s"

fun decode_double_quoted :: "string \<Rightarrow> string" where
  "decode_double_quoted [] = []"
| "decode_double_quoted [c] = [c]"
| "decode_double_quoted (c # d # cs) =
     (if c \<noteq> bslash then c # decode_double_quoted (d # cs)
      else if d = nl then decode_double_quoted cs
      else if d \<in> {CHR ''$'', backtick, CHR 0x22, bslash} then d # decode_double_quoted cs
      else bslash # decode_double_quoted (d # cs))"

definition strip_char_prefix :: "char \<Rightarrow> string \<Rightarrow> string option" where
  "strip_char_prefix c s = (case s of x # xs \<Rightarrow> if x = c then Some xs else None | [] \<Rightarrow> None)"

definition strip_char_suffix :: "char \<Rightarrow> string \<Rightarrow> string option" where
  "strip_char_suffix c s = (if s \<noteq> [] \<and> last s = c then Some (butlast s) else None)"

text \<open>The text between two quote characters.\<close>

definition strip_quotes :: "char \<Rightarrow> string \<Rightarrow> string option" where
  "strip_quotes c s = Option.bind (strip_char_prefix c s) (strip_char_suffix c)"

definition simple_string_content :: "string \<Rightarrow> ts_node \<Rightarrow> string option" where
  "simple_string_content src n =
     (let cs = ts_children n
      in if length cs < 2 \<or> ts_kind (hd cs) \<noteq> [CHR 0x22] \<or> ts_kind (last cs) \<noteq> [CHR 0x22]
            \<or> list_ex (\<lambda>p. ts_kind p \<noteq> ''string_content'') (butlast (tl cs))
         then None
         else map_option decode_double_quoted (strip_quotes (CHR 0x22) (node_text src n)))"

definition legacy_string_spelling :: "string \<Rightarrow> ts_node \<Rightarrow> string" where
  "legacy_string_spelling src n =
     (if length (ts_children n) = 3 then node_text src (ts_children n ! 1) else node_text src n)"

definition raw_string_content :: "string \<Rightarrow> ts_node \<Rightarrow> string option" where
  "raw_string_content src n = strip_quotes (CHR 0x27) (node_text src n)"

section \<open>Plain commands\<close>

record plain_command =
  pl_words :: "string list"
  pl_expandable :: "bool list"
  pl_legacy :: "string list"
  pl_span_start :: nat
  pl_span_end :: nat

record plain_word =
  pw_word :: string
  pw_expandable :: bool
  pw_legacy :: string
  pw_start :: nat
  pw_end :: nat

definition concat_part :: "string \<Rightarrow> ts_node \<Rightarrow> (string \<times> bool) option" where
  "concat_part src p =
     (if ts_kind p \<in> {''word'', ''number''} then Some (node_text src p, unquoted_may_expand (node_text src p))
      else if ts_kind p = ''string'' then map_option (\<lambda>t. (t, False)) (simple_string_content src p)
      else if ts_kind p = ''raw_string'' then map_option (\<lambda>t. (t, False)) (raw_string_content src p)
      else None)"

text \<open>
  One child of a \<open>command\<close> node: \<open>None\<close> rejects the command, \<open>Some None\<close> is an environment
  assignment, which is skipped.
\<close>

definition plain_child :: "string \<Rightarrow> ts_node \<Rightarrow> plain_word option option" where
  "plain_child src n =
    (let unquoted = (\<lambda>m. let t = node_text src m in
           Some (Some \<lparr>pw_word = t, pw_expandable = unquoted_may_expand t, pw_legacy = t, pw_start = ts_start m, pw_end = ts_end m\<rparr>));
         quoted = (\<lambda>t ex leg. Some (Some \<lparr>pw_word = t, pw_expandable = ex, pw_legacy = leg, pw_start = ts_start n, pw_end = ts_end n\<rparr>));
         k = ts_kind n
     in if k = ''variable_assignment'' then Some None
        else if k = ''command_name'' then
          (case named_children n of
             [] \<Rightarrow> None
           | w # _ \<Rightarrow> if ts_kind w \<noteq> ''word'' then None else unquoted w)
        else if k \<in> {''word'', ''number''} then unquoted n
        else if k = ''string'' then
          (case simple_string_content src n of None \<Rightarrow> None | Some t \<Rightarrow> quoted t False (legacy_string_spelling src n))
        else if k = ''raw_string'' then
          (case raw_string_content src n of None \<Rightarrow> None | Some t \<Rightarrow> quoted t False t)
        else if k = ''concatenation'' then
          (case those (map (concat_part src) (named_children n)) of
             None \<Rightarrow> None
           | Some ps \<Rightarrow> quoted (concat (map fst ps)) (list_ex snd ps) (node_text src n))
        else None)"

definition parse_plain_command_from_node :: "string \<Rightarrow> ts_node \<Rightarrow> plain_command option" where
  "parse_plain_command_from_node src cmd =
     (if ts_kind cmd \<noteq> ''command'' then None
      else map_option (\<lambda>cs.
             let ws = List.map_filter id cs
             in \<lparr>pl_words = map pw_word ws, pl_expandable = map pw_expandable ws, pl_legacy = map pw_legacy ws,
                 pl_span_start = (if ws = [] then ts_start cmd else pw_start (hd ws)),
                 pl_span_end = (if ws = [] then ts_end cmd else pw_end (last ws))\<rparr>)
           (those (map (plain_child src) (named_children cmd))))"

definition ALLOWED_KINDS :: "string list" where
  "ALLOWED_KINDS =
     [''program'', ''list'', ''pipeline'', ''command'', ''command_name'', ''word'', ''string'', ''string_content'',
      ''raw_string'', ''number'', ''concatenation'', ''variable_assignment'', ''variable_name'',
      ''redirected_statement'', ''file_redirect'', ''file_descriptor'', ''comment'', ''heredoc_redirect'',
      ''heredoc_start'', ''heredoc_body'', ''heredoc_content'', ''heredoc_end'']"

definition ALLOWED_PUNCT_TOKENS :: "string list" where
  "ALLOWED_PUNCT_TOKENS =
     [''&&'', ''||'', '';'', ''|'', [CHR 0x22], [CHR 0x27], ''='', ''>'', ''>>'', ''<'', ''<<'', ''>&'', ''&>'', ''&>>'']"

definition node_allowed :: "ts_node \<Rightarrow> bool" where
  "node_allowed n =
     (if ts_named n then ts_kind n \<in> set ALLOWED_KINDS
      else \<not> (list_ex (\<lambda>c. c \<in> set ''&;|'') (ts_kind n) \<and> ts_kind n \<notin> set ALLOWED_PUNCT_TOKENS)
           \<and> (ts_kind n \<in> set ALLOWED_PUNCT_TOKENS \<or> trim (ts_kind n) = []))"

definition try_parse_word_only_commands_sequence :: "ts_tree \<Rightarrow> string \<Rightarrow> plain_command list option" where
  "try_parse_word_only_commands_sequence tree src =
     (let nodes = ts_walk (tt_root tree)
      in if tt_has_error tree \<or> \<not> list_all node_allowed nodes then None
         else those (map (parse_plain_command_from_node src)
                (sort_key ts_start (filter (\<lambda>n. ts_named n \<and> ts_kind n = ''command'') nodes))))"

definition all_commands_from_script :: "(string \<Rightarrow> ts_tree option) \<Rightarrow> string \<Rightarrow> plain_command list option" where
  "all_commands_from_script parse script =
     Option.bind (parse script) (\<lambda>tree. try_parse_word_only_commands_sequence tree script)"

section \<open>Setup commands and wrappers\<close>

definition is_setup_command :: "string list \<Rightarrow> bool" where
  "is_setup_command cmd \<longleftrightarrow>
     cmd = [] \<or> hd cmd \<in> {''cd'', ''pushd'', ''popd'', ''export'', ''unset'', ''set'', ''source'', ''.'', ''sleep'', ''timeout''}"

definition is_env_assignment :: "string \<Rightarrow> bool" where
  "is_env_assignment tok =
     (case split_once (CHR ''='') tok of
        None \<Rightarrow> False
      | Some (name, _) \<Rightarrow> name \<noteq> [] \<and> (ascii_alphanumeric (hd name) \<and> \<not> ascii_digit (hd name) \<or> hd name = CHR ''_'')
          \<and> list_all (\<lambda>b. ascii_alphanumeric b \<or> b = CHR ''_'') name)"

text \<open>
  The scans take the words after the program and return the words that are left, which is the
  inner command.  An option that takes a value skips the next word too.
\<close>

fun skip_options :: "string list \<Rightarrow> string list \<Rightarrow> string list" where
  "skip_options valued [] = []"
| "skip_options valued (w # ws) =
     (if \<not> prefix ''-'' w then w # ws
      else if w \<in> set valued then skip_options valued (drop 1 ws)
      else skip_options valued ws)"

fun env_scan :: "string option \<Rightarrow> string list \<Rightarrow> string option \<times> string list" where
  "env_scan chdir [] = (chdir, [])"
| "env_scan chdir (tok # ws) =
     (if tok = ''--'' then (chdir, ws)
      else if tok \<noteq> ''-'' \<and> prefix ''-'' tok then
        (if tok = ''-C'' \<or> tok = ''--chdir''
         then env_scan (case ws of d # _ \<Rightarrow> Some d | [] \<Rightarrow> None) (drop 1 ws)
         else case strip_prefix_str ''--chdir='' tok of
           Some dir \<Rightarrow> env_scan (Some dir) ws
         | None \<Rightarrow>
             (case strip_prefix_str ''-C'' tok of
                Some dir \<Rightarrow> env_scan (Some dir) ws
              | None \<Rightarrow>
                  if tok \<in> {''-u'', ''--unset'', ''-S'', ''--split-string''} then env_scan chdir (drop 1 ws)
                  else env_scan chdir ws))
      else if is_env_assignment tok then env_scan chdir ws
      else (chdir, tok # ws))"

definition strip_wrapper_command :: "string list \<Rightarrow> string list option" where
  "strip_wrapper_command cmd =
    (case cmd of
       [] \<Rightarrow> None
     | w # ws \<Rightarrow>
         let head = base_name w;
             inner =
               (if head = ''timeout'' then
                  (case skip_options [''-k'', ''-s'', ''--kill-after'', ''--signal''] ws of [] \<Rightarrow> None | _ # rest \<Rightarrow> Some rest)
                else if head = ''nice'' then Some (skip_options [''-n'', ''--adjustment''] ws)
                else if head = ''ionice'' then
                  Some (skip_options [''-c'', ''-n'', ''-p'', ''-P'', ''-u'', ''--class'', ''--classdata'', ''--pid'', ''--pgid'', ''--uid''] ws)
                else if head = ''chrt'' then
                  (case skip_options [] ws of [] \<Rightarrow> None | _ # rest \<Rightarrow> Some rest)
                else if head = ''stdbuf'' then Some (skip_options [''-i'', ''-o'', ''-e''] ws)
                else if head = ''env'' then Some (snd (env_scan None ws))
                else None)
         in (case inner of Some (x # xs) \<Rightarrow> Some (x # xs) | _ \<Rightarrow> None))"

definition is_wrapper_command :: "string list \<Rightarrow> bool" where
  "is_wrapper_command ws \<longleftrightarrow>
     ws \<noteq> [] \<and> base_name (hd ws) \<in> {''timeout'', ''nice'', ''ionice'', ''chrt'', ''stdbuf'', ''env''}"

fun unwrap_times :: "nat \<Rightarrow> string list \<Rightarrow> string list" where
  "unwrap_times 0 ws = ws"
| "unwrap_times (Suc n) ws = (case strip_wrapper_command ws of Some inner \<Rightarrow> unwrap_times n inner | None \<Rightarrow> ws)"

definition unwrap_wrappers :: "string list \<Rightarrow> string list" where
  "unwrap_wrappers ws = unwrap_times 8 ws"

fun chdir_times :: "nat \<Rightarrow> string list \<Rightarrow> bool" where
  "chdir_times 0 ws = False"
| "chdir_times (Suc n) ws =
     (ws \<noteq> [] \<and> base_name (hd ws) = ''env'' \<and> fst (env_scan None (tl ws)) \<noteq> None
      \<or> (case strip_wrapper_command ws of Some inner \<Rightarrow> chdir_times n inner | None \<Rightarrow> False))"

definition wrapper_has_chdir :: "string list \<Rightarrow> bool" where
  "wrapper_has_chdir ws = chdir_times 8 ws"

section \<open>Unwrapping shortens\<close>

lemma skip_options_length: "length (skip_options valued ws) \<le> length ws"
  by (induction valued ws rule: skip_options.induct) auto

lemma env_scan_length: "length (snd (env_scan chdir ws)) \<le> length ws"
proof (induction ws arbitrary: chdir rule: length_induct)
  case (1 ws)
  show ?case
  proof (cases ws)
    case (Cons tok ws')
    define short where "short r \<longleftrightarrow> length (snd r) \<le> length ws" for r :: "string option \<times> string list"
    have step: "short r \<Longrightarrow> short r' \<Longrightarrow> short (if b then r else r')" for r r' b by simp
    have opt: "short r \<Longrightarrow> (\<And>d. short (f d)) \<Longrightarrow> short (case x of Some d \<Rightarrow> f d | None \<Rightarrow> r)" for r f and x :: "string option"
      by (cases x) simp_all
    have rec: "short (env_scan c ws')" "short (env_scan c (drop 1 ws'))" for c
      using 1 [rule_format, of ws' c] 1 [rule_format, of "drop 1 ws'" c] unfolding short_def Cons by fastforce+
    have "short (env_scan chdir (tok # ws'))"
      unfolding env_scan.simps by (intro step opt rec) (simp_all add: short_def Cons)
    then show ?thesis by (simp add: short_def Cons del: env_scan.simps)
  qed simp
qed

lemma scanned_Cons:
  "skip_options valued ws = x # xs \<Longrightarrow> length xs < length ws"
  "snd (env_scan chdir ws) = x # xs \<Longrightarrow> length xs < length ws"
  using skip_options_length [of valued ws] env_scan_length [of chdir ws] by simp_all

definition within_words :: "string list \<Rightarrow> string list option \<Rightarrow> bool" where
  "within_words ws r \<longleftrightarrow> (\<forall>inner. r = Some inner \<longrightarrow> length inner \<le> length ws)"

lemma within_words_intros:
  "within_words ws r \<Longrightarrow> within_words ws r' \<Longrightarrow> within_words ws (if b then r else r')"
  "within_words ws (case skip_options v ws of [] \<Rightarrow> None | _ # rest \<Rightarrow> Some rest)"
  "within_words ws (Some (skip_options v ws))" "within_words ws (Some (snd (env_scan None ws)))" "within_words ws None"
  using scanned_Cons(1) [of v ws]
  by (auto simp: within_words_def skip_options_length env_scan_length less_imp_le split: list.split)

lemma strip_wrapper_shorter:
  assumes "strip_wrapper_command ws = Some inner"
  shows "length inner < length ws"
proof -
  obtain w ws' where ws: "ws = w # ws'" using assms by (cases ws) (auto simp: strip_wrapper_command_def)
  have "within_words ws' r \<Longrightarrow> (case r of Some (x # xs) \<Rightarrow> Some (x # xs) | _ \<Rightarrow> None) = Some inner \<Longrightarrow> length inner \<le> length ws'" for r
    by (auto simp: within_words_def split: option.splits list.splits)
  from this [OF _ assms [unfolded ws strip_wrapper_command_def list.case Let_def]] show ?thesis
    unfolding ws by (simp add: within_words_intros less_Suc_eq_le del: if_split)
qed

text \<open>Unwrapping leaves a command as it is or makes it shorter.\<close>

lemma unwrap_wrappers_cases: "unwrap_wrappers ws = ws \<or> length (unwrap_wrappers ws) < length ws"
proof -
  have "unwrap_times n ws = ws \<or> length (unwrap_times n ws) < length ws" for n
    by (induction n ws rule: unwrap_times.induct) (force dest: strip_wrapper_shorter split: option.split)+
  then show ?thesis by (simp add: unwrap_wrappers_def)
qed

lemma unwrap_wrappers_length: "length (unwrap_wrappers ws) \<le> length ws"
  using unwrap_wrappers_cases [of ws] by (auto simp: less_imp_le)

end
