(* ===== verification/Perm_Shell.thy ===== *)
theory Perm_Shell
  imports Perm_Policy
begin

text \<open>
  \<open>permission/shell_access.rs\<close>: the files a shell command reads and writes, found in its syntax tree,
  are held against the \<open>Read\<close> and \<open>Edit\<close> rules of the policy.  An operand that cannot be pinned down
  forces a prompt.
\<close>

section \<open>Reading the tree\<close>

datatype shell_access_mode = ModeRead | ModeWrite

datatype arg_text = Literal string | Ambiguous

text \<open>Every node with its ancestors, nearest first, and its position among the children of each.\<close>

fun walk_path :: "(ts_node \<times> nat) list \<Rightarrow> ts_node \<Rightarrow> (ts_node \<times> (ts_node \<times> nat) list) list"
  and walk_paths :: "ts_node \<Rightarrow> (ts_node \<times> nat) list \<Rightarrow> nat \<Rightarrow> ts_node list \<Rightarrow> (ts_node \<times> (ts_node \<times> nat) list) list" where
  "walk_path anc (TsNode k nm f a b cs) = (TsNode k nm f a b cs, anc) # walk_paths (TsNode k nm f a b cs) anc 0 cs"
| "walk_paths parent anc i [] = []"
| "walk_paths parent anc i (c # cs) = walk_paths parent anc (Suc i) cs @ walk_path ((parent, i) # anc) c"

fun runs_in_current_shell :: "(ts_node \<times> nat) list \<Rightarrow> bool" where
  "runs_in_current_shell [] = True"
| "runs_in_current_shell ((parent, i) # anc) =
     (if Suc i < length (ts_children parent) \<and> ts_kind (ts_children parent ! Suc i) = ''&'' then False
      else if ts_kind parent \<in> {''subshell'', ''pipeline'', ''command_substitution'', ''process_substitution''} then False
      else runs_in_current_shell anc)"

definition cwd_poison_positions :: "ts_node \<Rightarrow> string \<Rightarrow> nat list" where
  "cwd_poison_positions root src =
     map (ts_start \<circ> fst) (filter (\<lambda>(n, anc).
         ts_kind n = ''command''
         \<and> (case child_by_field ''name'' n of
              Some c \<Rightarrow> base_name (node_text src c) \<in> {''cd'', ''pushd'', ''popd''} | None \<Rightarrow> False)
         \<and> runs_in_current_shell anc)
       (walk_path [] root))"

definition cwd_unpinned_before :: "nat list \<Rightarrow> nat \<Rightarrow> bool" where
  "cwd_unpinned_before positions at = list_ex (\<lambda>p. p < at) positions"

definition node_has_expansion :: "ts_node \<Rightarrow> bool" where
  "node_has_expansion n = list_ex (\<lambda>c. ts_kind c \<in>
       {''expansion'', ''simple_expansion'', ''command_substitution'', ''arithmetic_expansion'', ''process_substitution''})
     (tl (ts_walk n))"

definition unquote_or_raw :: "char \<Rightarrow> string \<Rightarrow> string" where
  "unquote_or_raw q raw = (case strip_quotes q raw of Some s \<Rightarrow> s | None \<Rightarrow> raw)"

definition shell_node_arg :: "string \<Rightarrow> ts_node \<Rightarrow> arg_text option" where
  "shell_node_arg src n =
    (let k = ts_kind n; raw = node_text src n
     in if k = ''variable_assignment'' then None
        else if k \<in> {''word'', ''number''} then Some (Literal raw)
        else if k = ''raw_string'' then Some (Literal (unquote_or_raw (CHR 0x27) raw))
        else if k = ''string'' then
          Some (if node_has_expansion n then Ambiguous else Literal (unquote_or_raw (CHR 0x22) raw))
        else if k = ''concatenation'' then Some (if node_has_expansion n then Ambiguous else Literal raw)
        else Some Ambiguous)"

definition invocation_arg :: "string \<Rightarrow> ts_node \<Rightarrow> arg_text option" where
  "invocation_arg src c =
     (if ts_kind c = ''command_name''
      then (case named_children c of [] \<Rightarrow> None | inner # _ \<Rightarrow> shell_node_arg src inner)
      else shell_node_arg src c)"

definition shell_command_invocations :: "ts_node \<Rightarrow> string \<Rightarrow> (nat \<times> string list \<times> bool) list" where
  "shell_command_invocations root src =
     sort_key fst (map (\<lambda>n.
         let args = List.map_filter (invocation_arg src) (named_children n)
         in (ts_start n, List.map_filter (\<lambda>a. case a of Literal w \<Rightarrow> Some w | Ambiguous \<Rightarrow> None) args, Ambiguous \<in> set args))
       (filter (\<lambda>n. ts_kind n = ''command'') (ts_walk root)))"

definition shell_arg_is_ambiguous :: "string \<Rightarrow> bool" where
  "shell_arg_is_ambiguous tok \<longleftrightarrow> list_ex (\<lambda>c. c \<in> set ''*?['') tok"

definition redirect_mode :: "ts_node \<Rightarrow> shell_access_mode option" where
  "redirect_mode n =
     (case find (\<lambda>c. CHR ''<'' \<in> set (ts_kind c) \<or> CHR ''>'' \<in> set (ts_kind c)) (ts_children n) of
        None \<Rightarrow> None
      | Some c \<Rightarrow> if contains_str ''<<'' (ts_kind c) then None
                 else if CHR ''>'' \<in> set (ts_kind c) then Some ModeWrite else Some ModeRead)"

definition shell_redirect_one :: "string \<Rightarrow> ts_node \<Rightarrow> (string option \<times> shell_access_mode \<times> bool) option" where
  "shell_redirect_one src n =
     (case redirect_mode n of
        None \<Rightarrow> None
      | Some mode \<Rightarrow>
          (case Option.bind (child_by_field ''destination'' n) (shell_node_arg src) of
             None \<Rightarrow> None
           | Some Ambiguous \<Rightarrow> Some (None, mode, True)
           | Some (Literal s) \<Rightarrow>
               if s = [] \<or> prefix ''&'' s \<or> list_all ascii_digit s then None
               else Some (Some s, mode, shell_arg_is_ambiguous s)))"

definition shell_redirect_targets :: "ts_node \<Rightarrow> string \<Rightarrow> (nat \<times> string option \<times> shell_access_mode \<times> bool) list" where
  "shell_redirect_targets root src =
     List.map_filter (\<lambda>n. if ts_kind n = ''file_redirect'' then map_option (\<lambda>r. (ts_start n, r)) (shell_redirect_one src n) else None)
       (ts_walk root)"

section \<open>Operands of the known programs\<close>

definition shell_reads :: "string list" where
  "shell_reads =
     [''cat'', ''tac'', ''nl'', ''head'', ''tail'', ''grep'', ''egrep'', ''fgrep'', ''rg'', ''sed'', ''awk'', ''less'', ''more'',
      ''bat'', ''strings'', ''xxd'', ''od'', ''hexdump'', ''base64'', ''base32'', ''cut'', ''sort'', ''uniq'', ''wc'', ''type'',
      ''get-content'', ''gc'', ''diff'', ''comm'', ''rev'', ''jq'', ''yq'', ''select-string'', ''sls'', ''ag'', ''ack'', ''zcat'',
      ''zless'', ''zmore'', ''zgrep'', ''zegrep'', ''zfgrep'', ''bzcat'', ''bzgrep'', ''xzcat'', ''xzgrep'', ''zstdcat'', ''lz4cat'']"

definition shell_file_mode :: "string \<Rightarrow> shell_access_mode option" where
  "shell_file_mode program =
     (if program \<in> set shell_reads then Some ModeRead
      else if program \<in> {''tee'', ''set-content'', ''out-file'', ''add-content'', ''tee-object'', ''truncate''} then Some ModeWrite
      else None)"

definition shell_sed_in_place :: "string list \<Rightarrow> bool" where
  "shell_sed_in_place ws =
     list_ex (\<lambda>w. w = ''--in-place'' \<or> prefix ''--in-place='' w \<or> prefix ''-'' w \<and> \<not> prefix ''--'' w \<and> CHR ''i'' \<in> set w) (tl ws)"

fun shell_output_flag_values :: "string list \<Rightarrow> string list" where
  "shell_output_flag_values [] = []"
| "shell_output_flag_values (t # ws) =
     (case strip_prefix_str ''--output='' t of
        Some v \<Rightarrow> [v]
      | None \<Rightarrow>
          if prefix ''-o'' t \<and> t \<noteq> ''-o'' then [drop 2 t]
          else if t = ''--output'' \<or> t = ''-o'' then (case ws of v # _ \<Rightarrow> [v] | [] \<Rightarrow> [])
          else [])
     @ shell_output_flag_values ws"

fun value_flag_values :: "string \<Rightarrow> string list \<Rightarrow> string list" where
  "value_flag_values flag [] = []"
| "value_flag_values flag (t # ws) =
     (case strip_prefix_str (flag @ ''='') t of
        Some v \<Rightarrow> [v]
      | None \<Rightarrow>
          if t = flag then (case ws of v # _ \<Rightarrow> [v] | [] \<Rightarrow> [])
          else if \<not> prefix ''--'' flag
          then (case strip_prefix_str flag t of Some (c # cs) \<Rightarrow> [c # cs] | _ \<Rightarrow> [])
          else [])
     @ value_flag_values flag ws"

fun candidates_from :: "bool \<Rightarrow> string list \<Rightarrow> string list" where
  "candidates_from end_of_options [] = []"
| "candidates_from end_of_options (t # ts) =
     (if \<not> end_of_options \<and> t = ''--'' then candidates_from True ts
      else if end_of_options \<or> t \<noteq> ''-'' \<and> \<not> prefix ''-'' t then t # candidates_from end_of_options ts
      else candidates_from end_of_options ts)"

definition shell_file_candidates :: "string list \<Rightarrow> string list" where
  "shell_file_candidates ws = candidates_from False (tl ws)"

definition dd_operand :: "string \<Rightarrow> (string \<times> shell_access_mode) option" where
  "dd_operand t =
     (case strip_prefix_str ''if='' t of
        Some p \<Rightarrow> Some (p, ModeRead)
      | None \<Rightarrow> map_option (\<lambda>p. (p, ModeWrite)) (strip_prefix_str ''of='' t))"

definition special_file_operands :: "string \<Rightarrow> string list \<Rightarrow> (string \<times> shell_access_mode) list" where
  "special_file_operands program ws =
     (if program = ''dd'' then List.map_filter dd_operand (tl ws)
      else if program \<in> {''sort'', ''go'', ''git''} then map (\<lambda>p. (p, ModeWrite)) (shell_output_flag_values ws)
      else if program = ''rustc'' then map (\<lambda>p. (p, ModeWrite)) (shell_output_flag_values ws @ value_flag_values ''--out-dir'' ws)
      else if program = ''rustfmt'' then map (\<lambda>p. (p, ModeWrite)) (shell_file_candidates ws)
      else [])"

definition shell_path_command_operands :: "string \<Rightarrow> string list \<Rightarrow> (string \<times> shell_access_mode) list option" where
  "shell_path_command_operands program ws =
    (let cs = shell_file_candidates ws
     in if program \<in> {''cp'', ''mv'', ''ln'', ''install''}
        then (if cs = [] then None else Some (map (\<lambda>s. (s, ModeRead)) (butlast cs) @ [(last cs, ModeWrite)]))
        else if program \<in> {''rm'', ''rmdir'', ''mkdir'', ''touch''} then Some (map (\<lambda>c. (c, ModeWrite)) cs)
        else if program = ''uniq''
        then (case cs of input # out # _ \<Rightarrow> Some [(input, ModeRead), (out, ModeWrite)] | _ \<Rightarrow> None)
        else None)"

definition is_directory_operand :: "string \<Rightarrow> bool" where
  "is_directory_operand t \<longleftrightarrow> t = ''.'' \<or> t = ''..'' \<or> suffix ''/'' t"

definition shell_reader_can_recurse :: "string \<Rightarrow> string list \<Rightarrow> string list \<Rightarrow> bool" where
  "shell_reader_can_recurse program ws cs \<longleftrightarrow>
     program \<in> {''grep'', ''egrep'', ''fgrep''} \<and>
       list_ex (\<lambda>w. w = ''--recursive'' \<or> w = ''--dereference-recursive''
         \<or> prefix ''-'' w \<and> \<not> prefix ''--'' w \<and> (CHR ''r'' \<in> set w \<or> CHR ''R'' \<in> set w)) ws
   \<or> program \<in> {''rg'', ''ag'', ''ack''} \<and> (length cs \<le> 1 \<or> list_ex is_directory_operand (tl cs))"

section \<open>Paths in shell syntax\<close>

definition drive_prefix :: "string \<Rightarrow> bool" where
  "drive_prefix p \<longleftrightarrow> 2 \<le> length p \<and> p ! 1 = CHR '':''"

definition is_absolute_shell_path :: "string \<Rightarrow> bool" where
  "is_absolute_shell_path p \<longleftrightarrow> prefix ''/'' p \<or> prefix ''~/'' p \<or> drive_prefix p"

definition normalize_shell_path_raw :: "string \<Rightarrow> string" where
  "normalize_shell_path_raw path =
     (let p = map (\<lambda>c. if c = bslash then CHR ''/'' else c) (trim_pred quote_char path)
      in case strip_prefix_str ''/c/'' p of Some rest \<Rightarrow> ''C:/'' @ rest | None \<Rightarrow> p)"

definition push_segment :: "bool \<Rightarrow> string list \<Rightarrow> string \<Rightarrow> string list" where
  "push_segment absolute out s =
     (if s = [] \<or> s = ''.'' then out
      else if s = ''..'' then
        (if out \<noteq> [] \<and> last out \<noteq> ''..'' then butlast out else if \<not> absolute then out @ [''..''] else out)
      else out @ [s])"

definition lexical_normalize :: "string \<Rightarrow> string" where
  "lexical_normalize path =
    (let n = (if drive_prefix path then 2 else 0);
         pre = take n path; rest = drop n path;
         absolute = prefix ''/'' rest;
         body = join ''/'' (foldl (push_segment absolute) [] (split_slash [] rest))
     in pre @ (if absolute then ''/'' else []) @ body)"

definition normalize_shell_path :: "string \<Rightarrow> string" where
  "normalize_shell_path p = lexical_normalize (normalize_shell_path_raw p)"

text \<open>As in the policy, except that a metadata error counts as a path that is no link.\<close>

primrec shell_walk_symlinks :: "nat \<Rightarrow> perm_env \<Rightarrow> string \<Rightarrow> string option" where
  "shell_walk_symlinks 0 e p = None"
| "shell_walk_symlinks (Suc n) e p =
     (case pe_canonicalize e p of
        Some canonical \<Rightarrow> Some canonical
      | None \<Rightarrow>
          (case (path_parent p, file_name p) of
             (Some parent, Some name) \<Rightarrow>
               (case shell_walk_symlinks n e parent of
                  None \<Rightarrow> None
                | Some resolved \<Rightarrow>
                    let candidate = path_join resolved name
                    in if is_symlink e candidate
                       then (case pe_read_link e candidate of
                               None \<Rightarrow> None
                             | Some target \<Rightarrow> shell_walk_symlinks n e (path_join resolved target))
                       else Some candidate)
           | _ \<Rightarrow> None))"

definition resolve_symlink_target :: "perm_env \<Rightarrow> string \<Rightarrow> string option" where
  "resolve_symlink_target e p =
     (if is_absolute p then map_option normalize_shell_path (shell_walk_symlinks 41 e p) else None)"

definition shell_path_has_symlink :: "perm_env \<Rightarrow> string \<Rightarrow> bool" where
  "shell_path_has_symlink e p \<longleftrightarrow> is_absolute p \<and> path_has_symlink e p"

section \<open>Evaluation\<close>

fun shell_access :: "shell_access_mode \<Rightarrow> string \<Rightarrow> access_kind" where
  "shell_access ModeRead path = AccRead (Some path)"
| "shell_access ModeWrite path = AccEdit path"

definition evaluate_shell_path :: "perm_env \<Rightarrow> compiled_policy \<Rightarrow> string \<Rightarrow> string \<Rightarrow> shell_access_mode \<Rightarrow> decision option" where
  "evaluate_shell_path e p tok cwd mode =
    (let path = normalize_shell_path tok;
         absolute = (if is_absolute_shell_path path then path else normalize_shell_path (path_join cwd path));
         raw = normalize_shell_path_raw tok;
         raw_absolute = (if is_absolute_shell_path raw then raw else normalize_shell_path_raw (path_join cwd raw));
         resolved_decision =
           (case resolve_symlink_target e raw_absolute of
              Some resolved \<Rightarrow> if resolved \<noteq> absolute then escalate e p (shell_access mode resolved) else None
            | None \<Rightarrow> if shell_path_has_symlink e raw_absolute then Some Ask else None)
     in combine_decisions
          (combine_decisions (escalate e p (shell_access mode path)) (escalate e p (shell_access mode absolute)))
          resolved_decision)"

text \<open>The pair is the flag \<open>forced_ask\<close> and the decision so far.\<close>

definition check_operand :: "perm_env \<Rightarrow> compiled_policy \<Rightarrow> string \<Rightarrow> bool \<times> decision option \<Rightarrow> string \<times> shell_access_mode \<Rightarrow> bool \<times> decision option" where
  "check_operand e p cwd acc om =
     (fst acc \<or> shell_arg_is_ambiguous (fst om), combine_decisions (snd acc) (evaluate_shell_path e p (fst om) cwd (snd om)))"

definition check_redirect ::
  "perm_env \<Rightarrow> compiled_policy \<Rightarrow> string \<Rightarrow> nat list \<Rightarrow> bool \<times> decision option
     \<Rightarrow> nat \<times> string option \<times> shell_access_mode \<times> bool \<Rightarrow> bool \<times> decision option" where
  "check_redirect e p cwd cwd_changes acc r =
    (case r of (start_byte, path, mode, ambiguous) \<Rightarrow>
       let forced = (fst acc \<or> ambiguous)
       in case path of
            None \<Rightarrow> (forced, snd acc)
          | Some pth \<Rightarrow>
              (forced \<or> cwd_unpinned_before cwd_changes start_byte \<and> \<not> is_absolute_shell_path (normalize_shell_path pth),
               combine_decisions (snd acc) (evaluate_shell_path e p pth cwd mode)))"

definition operand_modes :: "string \<Rightarrow> string list \<Rightarrow> shell_access_mode list" where
  "operand_modes program ws =
     (case shell_file_mode program of
        None \<Rightarrow> []
      | Some m \<Rightarrow> if program = ''sed'' \<and> shell_sed_in_place ws then [ModeRead, ModeWrite] else [m])"

definition check_invocation ::
  "perm_env \<Rightarrow> compiled_policy \<Rightarrow> string \<Rightarrow> nat list \<Rightarrow> bool \<Rightarrow> bool \<times> decision option \<Rightarrow> nat \<times> string list \<times> bool
     \<Rightarrow> bool \<times> decision option" where
  "check_invocation e p cwd cwd_changes parse_failed acc iv =
    (case iv of (start_byte, raw_words, arg_ambiguous) \<Rightarrow>
       let ws = unwrap_wrappers raw_words
       in if ws = [] then acc
          else let program = to_ascii_lowercase (base_name (hd ws))
            in if program = ''cd'' then acc
               else let cwd_unpinned = (cwd_unpinned_before cwd_changes start_byte \<or> wrapper_has_chdir raw_words);
                        cs = shell_file_candidates ws;
                        path_operands = shell_path_command_operands program ws;
                        is_known = (program = ''dd'' \<or> shell_file_mode program \<noteq> None \<or> path_operands \<noteq> None);
                        acc1 = (fst acc \<or> is_known \<and> (cwd_unpinned \<or> arg_ambiguous \<or> parse_failed), snd acc);
                        acc2 = foldl (check_operand e p cwd) acc1 (special_file_operands program ws)
                 in if program = ''dd'' then acc2
                    else case path_operands of
                      Some operands \<Rightarrow> foldl (check_operand e p cwd) acc2 operands
                    | None \<Rightarrow>
                        if shell_file_mode program = None then acc2
                        else let acc3 = foldl (check_operand e p cwd) acc2
                                   (concat (map (\<lambda>t. map (Pair t) (operand_modes program ws)) cs))
                             in (fst acc3 \<or> shell_reader_can_recurse program ws cs, snd acc3))"

definition evaluate_shell_file_access :: "perm_env \<Rightarrow> compiled_policy \<Rightarrow> string \<Rightarrow> string \<Rightarrow> decision option" where
  "evaluate_shell_file_access e p cmd cwd =
    (if \<not> cp_has_file_restrictions p then None
     else case pe_parse e cmd of
       None \<Rightarrow> None
     | Some tree \<Rightarrow>
         let root = tt_root tree;
             cwd_changes = cwd_poison_positions root cmd;
             acc1 = foldl (check_redirect e p cwd cwd_changes) (False, None) (shell_redirect_targets root cmd);
             acc2 = foldl (check_invocation e p cwd cwd_changes (tt_has_error tree)) acc1 (shell_command_invocations root cmd)
         in combine_decisions (snd acc2) (if fst acc2 then Some Ask else None))"

section \<open>What a command writes\<close>

definition command_words_write_paths :: "string list \<Rightarrow> string list" where
  "command_words_write_paths ws =
    (let inner = unwrap_wrappers ws
     in if inner = [] then []
        else let program = to_ascii_lowercase (base_name (hd inner));
                 named = map fst (filter (\<lambda>(_, m). m = ModeWrite) (special_file_operands program inner))
             in case shell_path_command_operands program inner of
                  Some operands \<Rightarrow> named @ map fst (filter (\<lambda>(_, m). m = ModeWrite) operands)
                | None \<Rightarrow>
                    named @ (if shell_file_mode program = Some ModeWrite \<or> program = ''sed'' \<and> shell_sed_in_place inner
                             then shell_file_candidates inner else []))"

definition command_write_paths_in_tree :: "ts_node \<Rightarrow> string \<Rightarrow> string list" where
  "command_write_paths_in_tree root src =
     List.map_filter (\<lambda>(_, path, mode, _). if mode = ModeWrite then path else None) (shell_redirect_targets root src)
     @ concat (map (\<lambda>(_, ws, _). command_words_write_paths ws) (shell_command_invocations root src))"

end
