(* ===== verification/Perm_Grants.thy ===== *)
theory Perm_Grants
  imports Perm_Shell
begin

text \<open>
  What a session remembers of earlier answers (\<open>permission/state.rs\<close>) and what that, the built-in
  lists of safe commands and the allowed web domains approve without a prompt (the first half of
  \<open>permission/manager.rs\<close>, \<open>web_fetch/domain.rs\<close>, the fast path of \<open>auto_mode.rs\<close>).  A \<open>HashSet\<close> is the
  list of its elements in iteration order.
\<close>

section \<open>Remembered answers\<close>

record permission_state =
  ps_edit_policy :: edit_policy
  ps_allow_bash_execute :: bool
  ps_allowed_bash_commands :: "string list"
  ps_disallowed_bash_commands :: "string list"
  ps_allowed_web_fetch_domains :: "string list"
  ps_allowed_mcp_tools :: "string list"
  ps_allowed_mcp_servers :: "string list"

definition permission_state_default :: permission_state where
  "permission_state_default =
     \<lparr>ps_edit_policy = EditAsk, ps_allow_bash_execute = False, ps_allowed_bash_commands = [],
      ps_disallowed_bash_commands = [], ps_allowed_web_fetch_domains = [], ps_allowed_mcp_tools = [],
      ps_allowed_mcp_servers = []\<rparr>"

definition hash_insert :: "string \<Rightarrow> string list \<Rightarrow> string list" where
  "hash_insert x xs = (if x \<in> set xs then xs else x # xs)"

definition sanitize_client_id :: "string \<Rightarrow> string" where
  "sanitize_client_id cid =
     List.map_filter (\<lambda>c. if ascii_alphanumeric c \<or> c \<in> set ''-_'' then Some c else if utf8_cont c then None else Some (CHR ''_'')) cid"

definition state_file_path :: "string \<Rightarrow> string option \<Rightarrow> string" where
  "state_file_path dir cid =
     (case cid of
        Some i \<Rightarrow> path_join dir (''permission_'' @ sanitize_client_id i @ ''.toml'')
      | None \<Rightarrow> path_join dir ''permission.toml'')"

text \<open>
  \<open>load\<close> is \<open>try_load_state\<close>: \<open>None\<close> when the file is missing or cannot be read; a file that does not
  parse gives the default.  A client without a file of its own starts from the shared one.
\<close>

definition load_state_from_dir :: "(string \<Rightarrow> permission_state option) \<Rightarrow> string \<Rightarrow> string option \<Rightarrow> permission_state" where
  "load_state_from_dir load dir cid =
    (let shared = (case load (state_file_path dir None) of Some s \<Rightarrow> s | None \<Rightarrow> permission_state_default)
     in case cid of
          Some i \<Rightarrow> (case load (state_file_path dir (Some i)) of Some s \<Rightarrow> s | None \<Rightarrow> shared)
        | None \<Rightarrow> shared)"

section \<open>MCP tools\<close>

text \<open>\<open>split_once\<close> with the two-character separator.\<close>

fun split_once_dunder :: "string \<Rightarrow> (string \<times> string) option" where
  "split_once_dunder [] = None"
| "split_once_dunder [c] = None"
| "split_once_dunder (c # d # cs) =
     (if c = CHR ''_'' \<and> d = CHR ''_'' then Some ([], cs)
      else map_option (\<lambda>(a, b). (c # a, b)) (split_once_dunder (d # cs)))"

definition mcp_server_prefix_allowed :: "string \<Rightarrow> string list \<Rightarrow> bool" where
  "mcp_server_prefix_allowed name servers =
     (servers \<noteq> [] \<and> (case split_once_dunder name of Some (server, _) \<Rightarrow> server \<noteq> [] \<and> server \<in> set servers | None \<Rightarrow> False))"

definition mcp_pre_decision :: "string \<Rightarrow> permission_state \<Rightarrow> bool \<Rightarrow> bool \<Rightarrow> decision option" where
  "mcp_pre_decision name st policy_forced_prompt remember_tool_approvals =
     (if policy_forced_prompt \<and> \<not> remember_tool_approvals then None
      else if name \<in> set (ps_allowed_mcp_tools st) then Some Allow
      else if mcp_server_prefix_allowed name (ps_allowed_mcp_servers st) then Some Allow
      else None)"

section \<open>Safe and dangerous commands\<close>

definition RG_UNSAFE_FLAGS :: "string list" where
  "RG_UNSAFE_FLAGS = [''--pre'', ''--hostname-bin'']"

definition rg_has_unsafe_flag :: "string list \<Rightarrow> bool list \<Rightarrow> bool" where
  "rg_has_unsafe_flag ws expandable \<longleftrightarrow>
     ws \<noteq> [] \<and> to_ascii_lowercase (base_name (hd ws)) = ''rg'' \<and>
     list_ex (\<lambda>(w, may_expand).
         may_expand \<or> (case split_once (CHR ''='') w of Some (name, _) \<Rightarrow> name | None \<Rightarrow> w) \<in> set RG_UNSAFE_FLAGS)
       (tl (zip ws expandable))"

definition SAFE_COMMAND_PREFIXES :: "string list" where
  "SAFE_COMMAND_PREFIXES =
     [''ls'', ''cat'', ''pwd'', ''date'', ''git status'', ''git branch'', ''git log'', ''git diff'', ''git ls-files'',
      ''git show'', ''git rev-parse'', ''cargo check'', ''whoami'', ''hostname'', ''uptime'', ''grep'', ''rg'',
      ''kubectl get'', ''kubectl logs'', ''kubectl describe'', ''ps'', ''bin/explorer ls'', ''head'', ''tail'', ''wc'',
      ''sort'', ''uniq'', ''tr'', ''cut'']"

definition ALWAYS_SAFE_COMMANDS :: "string list" where
  "ALWAYS_SAFE_COMMANDS =
     [''ls'', ''cat'', ''pwd'', ''date'', ''whoami'', ''hostname'', ''uptime'', ''ps'', ''git status'', ''git branch'',
      ''git log'', ''git diff'', ''git ls-files'', ''git show'', ''git rev-parse'', ''grep'', ''rg'', ''cargo check'',
      ''kubectl get'', ''kubectl logs'', ''kubectl describe'', ''bin/explorer ls'']"

definition is_safe_command_words :: "string list \<Rightarrow> bool list \<Rightarrow> bool" where
  "is_safe_command_words ws expandable \<longleftrightarrow>
     ws \<noteq> [] \<and> \<not> rg_has_unsafe_flag ws expandable \<and> list_ex (\<lambda>p. matches_prefix_words ws p False) SAFE_COMMAND_PREFIXES"

definition is_always_safe_command_words :: "string list \<Rightarrow> bool list \<Rightarrow> bool" where
  "is_always_safe_command_words ws expandable \<longleftrightarrow>
     ws \<noteq> [] \<and> \<not> rg_has_unsafe_flag ws expandable \<and> list_ex (\<lambda>p. matches_prefix_words ws p False) ALWAYS_SAFE_COMMANDS"

definition matches_command_prefix :: "string \<Rightarrow> string \<Rightarrow> bool" where
  "matches_command_prefix cmd pat \<longleftrightarrow>
     cmd = pat \<or> prefix pat cmd \<and> length pat < length cmd \<and> cmd ! length pat = CHR '' ''"

definition is_safe_command_words_str :: "string \<Rightarrow> bool" where
  "is_safe_command_words_str cmd = list_ex (matches_command_prefix cmd) SAFE_COMMAND_PREFIXES"

definition default_always_allow_scope :: "string list \<Rightarrow> nat" where
  "default_always_allow_scope ws =
    (let n = min (length ws) 2;
         flags = length (takeWhile (prefix ''-'') (drop n ws))
     in if ws = [] then 0
        else if is_safe_command_words ws (map unquoted_may_expand ws)
        then (if is_safe_command_words_str (hd ws) then 1
              else if length ws \<ge> 2 \<and> is_safe_command_words_str (join '' '' (take 2 ws)) then 2
              else n + flags)
        else n + flags)"

definition DANGEROUS_COMMANDS :: "string list" where
  "DANGEROUS_COMMANDS = [''rm'', ''chmod'', ''chown'', ''chgrp'', ''chattr'', ''pkill'', ''kill'', ''killall'', ''git push'']"

definition is_dangerous_command_words :: "string list \<Rightarrow> bool" where
  "is_dangerous_command_words ws = list_ex (\<lambda>p. matches_prefix_words ws p False) DANGEROUS_COMMANDS"

definition matches_saved_deny :: "string list \<Rightarrow> string list \<Rightarrow> string \<Rightarrow> bool" where
  "matches_saved_deny ws legacy_inner rule \<longleftrightarrow>
     list_ex (\<lambda>k. join '' '' (take k ws) = rule) [1..<Suc (length ws)] \<or> matches_command_prefix (join '' '' legacy_inner) rule"

definition matches_saved_grant :: "string list \<Rightarrow> string \<Rightarrow> bool" where
  "matches_saved_grant ws rule = matches_prefix_words ws rule False"

section \<open>Segments of a script\<close>

datatype segment_evaluation = AutoAllow bool | SegReject string | NeedsPrompts "string list" bool | Unparseable

text \<open>What one segment contributes.\<close>

datatype segment_class = SegSetup | SegDenied string | SegDangerous | SegGranted | SegSafe | SegUnknown

definition inner_words :: "plain_command \<Rightarrow> string list" where
  "inner_words c = unwrap_wrappers (pl_words c)"

definition classify_segment :: "permission_state \<Rightarrow> bool \<Rightarrow> plain_command \<Rightarrow> segment_class" where
  "classify_segment st honor_safe_lists c =
    (let ws = inner_words c;
         expandable = drop (length (pl_words c) - length ws) (pl_expandable c);
         legacy_inner = unwrap_wrappers (pl_legacy c)
     in if is_setup_command ws then SegSetup
        else case find (matches_saved_deny ws legacy_inner) (ps_disallowed_bash_commands st) of
          Some d \<Rightarrow> SegDenied d
        | None \<Rightarrow>
            if is_dangerous_command_words ws then SegDangerous
            else if list_ex (matches_saved_grant ws) (ps_allowed_bash_commands st) then SegGranted
            else if honor_safe_lists \<and> (is_safe_command_words ws expandable \<or> is_always_safe_command_words ws expandable)
            then SegSafe
            else SegUnknown)"

fun evaluate_segments :: "permission_state \<Rightarrow> bool \<Rightarrow> plain_command list \<Rightarrow> string list \<Rightarrow> bool \<Rightarrow> bool \<Rightarrow> segment_evaluation" where
  "evaluate_segments st honor [] needs any_dangerous via_grant =
     (if needs = [] then AutoAllow via_grant else NeedsPrompts needs any_dangerous)"
| "evaluate_segments st honor (c # cs) needs any_dangerous via_grant =
     (case classify_segment st honor c of
        SegSetup \<Rightarrow> evaluate_segments st honor cs needs any_dangerous via_grant
      | SegDenied d \<Rightarrow> SegReject (''User previously rejected '' @ [backtick] @ d @ [backtick] @ '' for this session'')
      | SegDangerous \<Rightarrow> evaluate_segments st honor cs (needs @ [join '' '' (inner_words c)]) True via_grant
      | SegGranted \<Rightarrow> evaluate_segments st honor cs needs any_dangerous True
      | SegSafe \<Rightarrow> evaluate_segments st honor cs needs any_dangerous via_grant
      | SegUnknown \<Rightarrow> evaluate_segments st honor cs (needs @ [join '' '' (inner_words c)]) any_dangerous via_grant)"

definition evaluate_bash_segments_inner :: "perm_env \<Rightarrow> string \<Rightarrow> permission_state \<Rightarrow> bool \<Rightarrow> segment_evaluation" where
  "evaluate_bash_segments_inner e cmd st honor_safe_lists =
     (case all_commands_from_script (pe_parse e) cmd of
        None \<Rightarrow> Unparseable
      | Some segments \<Rightarrow> evaluate_segments st honor_safe_lists segments [] False False)"

section \<open>Grants\<close>

record bash_grant_opts =
  bg_honor_safe_lists :: bool
  bg_allow_blanket :: bool
  bg_conservative_blanket :: bool

definition PRE_CLASSIFIER :: bash_grant_opts where
  "PRE_CLASSIFIER = \<lparr>bg_honor_safe_lists = True, bg_allow_blanket = True, bg_conservative_blanket = True\<rparr>"

definition ASK_FLOOR_REMEMBER :: bash_grant_opts where
  "ASK_FLOOR_REMEMBER = \<lparr>bg_honor_safe_lists = False, bg_allow_blanket = False, bg_conservative_blanket = False\<rparr>"

definition post_classify :: "bool \<Rightarrow> bash_grant_opts" where
  "post_classify auto_forced_prompt =
     \<lparr>bg_honor_safe_lists = True, bg_allow_blanket = \<not> auto_forced_prompt, bg_conservative_blanket = False\<rparr>"

definition persisted_bash_auto_allows :: "permission_state \<Rightarrow> string \<Rightarrow> string option \<Rightarrow> bool" where
  "persisted_bash_auto_allows st cmd yolo_pin \<longleftrightarrow>
     ps_allow_bash_execute st \<and> yolo_pin = None \<or> cmd \<in> set (ps_allowed_bash_commands st)"

datatype reason =
    Yolo | PolicyAllowReason | PolicyDenyReason | PolicyAskReason | UnresolvedLink | AutoFastPathReason | AutoClassifierAllow
  | AutoClassifierBlock | SandboxAuto | PersistedGrant | SessionGrant | StaticAllowlist | SafeCommand | SessionDeny | PromptDenyReason
  | NeedsUser | RequesterGone

definition bash_grant_pre_decision ::
  "perm_env \<Rightarrow> string \<Rightarrow> permission_state \<Rightarrow> string option \<Rightarrow> bash_grant_opts \<Rightarrow> (decision \<times> reason) option" where
  "bash_grant_pre_decision e cmd st yolo_pin opts =
     (case evaluate_bash_segments_inner e cmd st (bg_honor_safe_lists opts) of
        SegReject r \<Rightarrow> Some (Reject r, SessionDeny)
      | AutoAllow via_session_grant \<Rightarrow> Some (Allow, if via_session_grant then SessionGrant else SafeCommand)
      | NeedsPrompts _ any_dangerous \<Rightarrow>
          if \<not> bg_allow_blanket opts \<or> any_dangerous \<and> bg_conservative_blanket opts then None
          else if persisted_bash_auto_allows st cmd yolo_pin then Some (Allow, SessionGrant) else None
      | Unparseable \<Rightarrow>
          if \<not> bg_allow_blanket opts then None
          else if (if bg_conservative_blanket opts then cmd \<in> set (ps_allowed_bash_commands st)
                   else persisted_bash_auto_allows st cmd yolo_pin)
          then Some (Allow, SessionGrant) else None)"

section \<open>Web domains\<close>

datatype host_entry = AnyPath | PathPrefixes "string list"

definition add_domain :: "perm_env \<Rightarrow> (string \<rightharpoonup> host_entry) \<Rightarrow> string \<Rightarrow> (string \<rightharpoonup> host_entry)" where
  "add_domain e entries raw =
    (let normalized = normalize_domain e raw
     in if normalized = [] then entries
        else let host = takeWhile (\<lambda>c. c \<noteq> CHR ''/'') normalized;
                 raw_path = dropWhile (\<lambda>c. c \<noteq> CHR ''/'') normalized
             in if raw_path = [] then entries(host \<mapsto> AnyPath)
                else if entries host = Some AnyPath then entries
                else let pre = trim_end_pred (\<lambda>c. c = CHR ''/'') raw_path
                     in if pre = [] then entries(host \<mapsto> AnyPath)
                        else case entries host of
                          Some (PathPrefixes v) \<Rightarrow> entries(host \<mapsto> PathPrefixes (if pre \<in> set v then v else v @ [pre]))
                        | _ \<Rightarrow> entries(host \<mapsto> PathPrefixes [pre]))"

definition domain_matcher_new :: "perm_env \<Rightarrow> string list \<Rightarrow> (string \<rightharpoonup> host_entry)" where
  "domain_matcher_new e raws = foldl (add_domain e) Map.empty raws"

text \<open>\<open>check(url).is_none()\<close>: the URL is permitted.\<close>

definition domain_permitted :: "perm_env \<Rightarrow> (string \<rightharpoonup> host_entry) \<Rightarrow> string option \<times> string \<Rightarrow> bool" where
  "domain_permitted e entries u =
     (case fst u of
        None \<Rightarrow> False
      | Some raw_host \<Rightarrow>
          (case entries (normalize_domain e raw_host) of
             Some AnyPath \<Rightarrow> True
           | Some (PathPrefixes ps) \<Rightarrow>
               let url_path = pe_lowercase e (snd u)
               in list_ex (\<lambda>p. url_path = p \<or> prefix (p @ ''/'') url_path) ps
           | None \<Rightarrow> False))"

definition web_fetch_grant :: "perm_env \<Rightarrow> (string \<rightharpoonup> host_entry) \<Rightarrow> permission_state \<Rightarrow> reason \<Rightarrow> string \<Rightarrow> (decision \<times> reason) option" where
  "web_fetch_grant e domains st remembered url =
     (case pe_url e url of
        None \<Rightarrow> None
      | Some u \<Rightarrow>
          if domain_permitted e domains u then Some (Allow, StaticAllowlist)
          else case fst u of
            None \<Rightarrow> None
          | Some host \<Rightarrow> if normalize_domain e host \<in> set (ps_allowed_web_fetch_domains st) then Some (Allow, remembered) else None)"

definition session_grant_pre_decision ::
  "perm_env \<Rightarrow> access_kind \<Rightarrow> permission_state \<Rightarrow> bool \<Rightarrow> (string \<rightharpoonup> host_entry) \<Rightarrow> string option \<Rightarrow> (decision \<times> reason) option" where
  "session_grant_pre_decision e access st allow_edits_for_session domains yolo_pin =
     (case access of
        AccMCPTool name _ \<Rightarrow> map_option (\<lambda>d. (d, SessionGrant)) (mcp_pre_decision name st False False)
      | AccWebFetch url \<Rightarrow> web_fetch_grant e domains st SessionGrant url
      | AccEdit _ \<Rightarrow> if allow_edits_for_session then Some (Allow, SessionGrant) else None
      | AccBash cmd \<Rightarrow> bash_grant_pre_decision e cmd st yolo_pin PRE_CLASSIFIER
      | _ \<Rightarrow> None)"

section \<open>The fast path of auto mode\<close>

fun tool_name_for_access :: "access_kind \<Rightarrow> string" where
  "tool_name_for_access (AccRead _) = ''read_file''"
| "tool_name_for_access (AccGrep _ _) = ''grep''"
| "tool_name_for_access (AccEdit _) = ''search_replace''"
| "tool_name_for_access (AccBash _) = ''run_terminal_command''"
| "tool_name_for_access (AccMCPTool name _) = ''mcp:'' @ name"
| "tool_name_for_access (AccWebFetch _) = ''web_fetch''"
| "tool_name_for_access (AccWebSearch _) = ''web_search''"

datatype auto_fast_path = FastAllow | FastPromptUser | FastClassify

definition access_requires_user_interaction :: "string \<Rightarrow> access_kind \<Rightarrow> bool" where
  "access_requires_user_interaction tool_name access =
    (let t = to_ascii_lowercase tool_name
     in contains_str ''ask_user'' t \<or> contains_str ''askuserquestion'' t \<or> contains_str ''user_question'' t \<or> t = ''ask_user_question''
        \<or> (case access of
             AccMCPTool name _ \<Rightarrow>
               let n = to_ascii_lowercase name in contains_str ''ask_user'' n \<or> contains_str ''confirm'' n \<and> contains_str ''human'' n
           | _ \<Rightarrow> False))"

definition is_auto_mode_allowlisted_access :: "access_kind \<Rightarrow> bool" where
  "is_auto_mode_allowlisted_access access = (case access of AccRead _ \<Rightarrow> True | AccGrep _ _ \<Rightarrow> True | AccWebSearch _ \<Rightarrow> True | _ \<Rightarrow> False)"

definition is_auto_mode_allowlisted_tool_name :: "string \<Rightarrow> bool" where
  "is_auto_mode_allowlisted_tool_name t \<longleftrightarrow> t \<in> set
     [''todo_write'', ''TodoWrite'', ''task_output'', ''TaskOutput'', ''wait_tasks'', ''WaitTasks'', ''ask_user_question'',
      ''AskUserQuestion'', ''enter_plan_mode'', ''EnterPlanMode'', ''exit_plan_mode'', ''ExitPlanMode'', ''switch_mode'',
      ''SwitchMode'', ''create_plan'', ''CreatePlan'', ''update_plan'', ''UpdatePlan'', ''list_mcp_resources'',
      ''ListMcpResources'', ''read_mcp_resource'', ''ReadMcpResource'', ''tool_search'', ''ToolSearch'', ''sleep'', ''Sleep'']"

definition auto_mode_fast_path :: "access_kind \<Rightarrow> string \<Rightarrow> bool \<Rightarrow> auto_fast_path" where
  "auto_mode_fast_path access tool_name requires_user_interaction =
     (if requires_user_interaction then FastPromptUser
      else if is_auto_mode_allowlisted_access access \<or> is_auto_mode_allowlisted_tool_name tool_name then FastAllow
      else case access of
        AccEdit _ \<Rightarrow> FastAllow
      | AccBash cmd \<Rightarrow> if trim cmd \<in> {''true'', '':'', ''false''} then FastAllow else FastClassify
      | _ \<Rightarrow> FastClassify)"

end
