(* ===== verification/Perm_Manager.thy ===== *)
theory Perm_Manager
  imports Perm_Grants
begin

text \<open>
  The permission actor of \<open>permission/manager.rs\<close>.  \<open>perm_cfg\<close> is what the actor captures at
  start; \<open>perm_system\<close> is its mutable state together with the command channel and the two flags it
  shares with the handles.  One request is answered by \<open>handle_request\<close>, whose \<open>answers\<close> are what
  the outside contributes: whether the requester has gone away at each point where the code looks,
  the verdict of the installed classifier, the user's reply to the prompt and whether the sandbox
  approves shell commands.
\<close>

section \<open>Configuration, state and messages\<close>

record perm_cfg =
  pm_policy :: "compiled_policy option"
  pm_prompt_policy :: prompt_policy
  pm_domains :: "string \<rightharpoonup> host_entry"
  pm_yolo_pin :: "string option"
  pm_remember_tool_approvals :: bool
  pm_json_command :: "string \<Rightarrow> string" \<comment> \<open>\<open>serde_json::json!({"command": cmd})\<close>\<close>

datatype classifier_turn = UserText string | AssistantToolUse string string | PermissionDecision string string bool

datatype classifier_verdict = VerdictAllow | VerdictBlock | VerdictUnavailable

datatype prompt_outcome =
    AllowOnce | AllowAlways | AllowEditsForSession | AllowAlwaysBashCommand string | AllowAlwaysDomain string
  | AllowAlwaysMcpTool string | AllowAlwaysMcpServer string | RejectOnce | RejectAlwaysBashCommand string
  | PromptCancelled | PromptFollowup string | PromptError string

record perm_request =
  rq_access :: access_kind
  rq_tool_cwd :: string
  rq_display_cwd :: "string option"

record answers =
  an_gone_at_dequeue :: bool
  an_classify :: "string \<Rightarrow> access_kind \<Rightarrow> string option \<Rightarrow> classifier_turn list \<Rightarrow> string option \<Rightarrow> classifier_verdict"
  an_gone_in_classify :: bool
  an_sandbox_auto_allows :: bool
  an_gone_before_prompt :: bool
  an_prompt :: prompt_outcome
  an_gone_after :: bool

record perm_actor =
  pa_state :: permission_state
  pa_yolo :: bool
  pa_auto :: bool
  pa_classifier :: bool
  pa_turns :: "classifier_turn list"
  pa_recorded :: "classifier_turn list"
  pa_instructions :: "string option"
  pa_allow_edits :: bool
  pa_persisted :: "permission_state list" \<comment> \<open>what was written to disk, latest first\<close>

datatype permission_mode = AlwaysApprove | AutoMode | AskMode

record permission_event =
  ev_tool_name :: string
  ev_access_kind :: string
  ev_access_detail :: "string option"
  ev_permission_mode :: permission_mode
  ev_auto_approved :: bool
  ev_user_prompted :: bool
  ev_decision :: string
  ev_reject_reason :: "string option"
  ev_prompt_outcome :: "string option"
  ev_decision_reason :: reason

definition MAX_RECORDED_PERMISSION_DECISIONS :: nat where
  "MAX_RECORDED_PERMISSION_DECISIONS = 12"

definition clamp_yolo :: "bool \<Rightarrow> string option \<Rightarrow> bool" where
  "clamp_yolo requested yolo_pin \<longleftrightarrow> requested \<and> yolo_pin = None"

section \<open>Details of an access\<close>

definition TRUNCATION_MARKER :: string where
  "TRUNCATION_MARKER = [CHR 0xE2, CHR 0x80, CHR 0xA6]"

definition truncate_line :: "string \<Rightarrow> nat \<Rightarrow> string" where
  "truncate_line line max_chars =
     (if count_chars line \<le> max_chars then line
      else take_chars max_chars line @ '' [... truncated ('' @ show_nat (count_chars line) @ '' chars total)]'')"

definition truncate_str_with_marker :: "string \<Rightarrow> nat \<Rightarrow> string" where
  "truncate_str_with_marker s max_bytes =
     (if length s \<le> max_bytes then s
      else if length TRUNCATION_MARKER > max_bytes then take (floor_boundary s max_bytes) s
      else take (floor_boundary s (max_bytes - length TRUNCATION_MARKER)) s @ TRUNCATION_MARKER)"

definition MCP_ACCESS_DETAIL_MAX_LEN :: nat where
  "MCP_ACCESS_DETAIL_MAX_LEN = 1024"

definition CLASSIFIER_TURN_MAX_LEN :: nat where
  "CLASSIFIER_TURN_MAX_LEN = 400"

definition mcp_access_detail :: "string \<Rightarrow> string option \<Rightarrow> string" where
  "mcp_access_detail name input =
     (case input of None \<Rightarrow> name | Some compact \<Rightarrow> truncate_line (name @ '' '' @ compact) MCP_ACCESS_DETAIL_MAX_LEN)"

fun access_labels :: "access_kind \<Rightarrow> string \<times> string option" where
  "access_labels (AccRead _) = (''read'', None)"
| "access_labels (AccGrep path _) = (''grep'', path)"
| "access_labels (AccEdit path) = (''edit'', Some path)"
| "access_labels (AccBash cmd) = (''bash'', Some cmd)"
| "access_labels (AccMCPTool name input) = (''mcp'', Some (mcp_access_detail name input))"
| "access_labels (AccWebFetch url) = (''web_fetch'', Some url)"
| "access_labels (AccWebSearch query) = (''web_search'', Some query)"

definition permission_decision_args :: "perm_cfg \<Rightarrow> access_kind \<Rightarrow> string" where
  "permission_decision_args cfg access =
     truncate_str_with_marker
       (case access of
          AccBash cmd \<Rightarrow> pm_json_command cfg cmd
        | _ \<Rightarrow> (case snd (access_labels access) of Some d \<Rightarrow> d | None \<Rightarrow> ''(none)''))
       CLASSIFIER_TURN_MAX_LEN"

definition effective_mode :: "perm_actor \<Rightarrow> permission_mode" where
  "effective_mode a = (if pa_yolo a then AlwaysApprove else if pa_auto a then AutoMode else AskMode)"

fun decision_text :: "decision \<Rightarrow> string \<times> string option" where
  "decision_text Allow = (''allow'', None)"
| "decision_text Ask = (''ask'', None)"
| "decision_text (Reject r) = (''reject'', Some r)"
| "decision_text (PolicyDeny r) = (''reject'', Some r)"
| "decision_text (FollowupMessage _) = (''followup'', None)"
| "decision_text DCancelled = (''cancelled'', None)"

definition mk_event :: "perm_actor \<Rightarrow> access_kind \<Rightarrow> decision \<Rightarrow> bool \<Rightarrow> bool \<Rightarrow> string option \<Rightarrow> reason \<Rightarrow> permission_event" where
  "mk_event a access d auto_approved user_prompted prompt_outcome reason =
     \<lparr>ev_tool_name = tool_name_for_access access, ev_access_kind = fst (access_labels access),
      ev_access_detail = snd (access_labels access), ev_permission_mode = effective_mode a,
      ev_auto_approved = auto_approved, ev_user_prompted = user_prompted, ev_decision = fst (decision_text d),
      ev_reject_reason = snd (decision_text d), ev_prompt_outcome = prompt_outcome, ev_decision_reason = reason\<rparr>"

section \<open>The managed policy on a request\<close>

record policy_view =
  pv_decision :: "decision option"
  pv_forced_prompt :: bool
  pv_unresolved_link :: bool
  pv_shell_file_forced :: bool

definition policy_view_of :: "perm_env \<Rightarrow> perm_cfg \<Rightarrow> perm_request \<Rightarrow> policy_view" where
  "policy_view_of e cfg rq =
    (case pm_policy cfg of
       None \<Rightarrow> \<lparr>pv_decision = None, pv_forced_prompt = False, pv_unresolved_link = False, pv_shell_file_forced = False\<rparr>
     | Some p \<Rightarrow>
         let (direct, unresolved) = evaluate_with_cwd e p (rq_access rq) (rq_tool_cwd rq) (rq_display_cwd rq);
             shell_command = (case rq_access rq of AccBash cmd \<Rightarrow> evaluate_bash_command_policy e p cmd | _ \<Rightarrow> None);
             shell_file = (case rq_access rq of AccBash cmd \<Rightarrow> evaluate_shell_file_access e p cmd (rq_tool_cwd rq) | _ \<Rightarrow> None)
         in \<lparr>pv_decision = combine_decisions (combine_decisions direct shell_command) shell_file,
             pv_forced_prompt = (shell_file = Some Ask \<or> shell_command = Some Ask \<or> unresolved),
             pv_unresolved_link = unresolved,
             pv_shell_file_forced = (shell_file = Some Ask)\<rparr>)"

definition policy_forced_prompt :: "policy_view \<Rightarrow> bool" where
  "policy_forced_prompt v \<longleftrightarrow> pv_decision v = Some Ask"

section \<open>Auto mode\<close>

text \<open>\<open>AutoSkipped\<close> is every case in which auto mode does not look at the request.\<close>

datatype auto_result = AutoSkipped | AutoAllowed reason | AutoGone | AutoPrompts reason

definition auto_stage :: "perm_actor \<Rightarrow> policy_view \<Rightarrow> access_kind \<Rightarrow> answers \<Rightarrow> auto_result" where
  "auto_stage a v access an =
    (if \<not> pa_auto a \<or> policy_forced_prompt v \<or> pv_forced_prompt v then AutoSkipped
     else let tool = tool_name_for_access access
          in case auto_mode_fast_path access tool (access_requires_user_interaction tool access) of
               FastAllow \<Rightarrow> AutoAllowed AutoFastPathReason
             | FastPromptUser \<Rightarrow> AutoPrompts NeedsUser
             | FastClassify \<Rightarrow>
                 if pa_classifier a \<and> an_gone_in_classify an then AutoGone
                 else case (if pa_classifier a
                            then an_classify an tool access (snd (access_labels access)) (pa_turns a @ pa_recorded a) (pa_instructions a)
                            else VerdictUnavailable) of
                   VerdictAllow \<Rightarrow> AutoAllowed AutoClassifierAllow
                 | _ \<Rightarrow> AutoPrompts AutoClassifierBlock)"

fun auto_forced_prompt :: "auto_result \<Rightarrow> bool" where
  "auto_forced_prompt (AutoPrompts _) = True"
| "auto_forced_prompt _ = False"

section \<open>Decisions without a prompt\<close>

definition pre_decision ::
  "perm_env \<Rightarrow> perm_cfg \<Rightarrow> perm_actor \<Rightarrow> policy_view \<Rightarrow> bool \<Rightarrow> access_kind \<Rightarrow> (decision \<times> reason) option" where
  "pre_decision e cfg a v auto_forced access =
    (let st = pa_state a; pf = policy_forced_prompt v
     in case access of
          AccRead _ \<Rightarrow> if pf then None else Some (Allow, SafeCommand)
        | AccGrep _ _ \<Rightarrow> if pf then None else Some (Allow, SafeCommand)
        | AccWebSearch _ \<Rightarrow> Some (Allow, SafeCommand)
        | AccMCPTool name _ \<Rightarrow> map_option (\<lambda>d. (d, PersistedGrant)) (mcp_pre_decision name st pf (pm_remember_tool_approvals cfg))
        | AccEdit _ \<Rightarrow>
            if pa_allow_edits a \<and> \<not> pv_forced_prompt v then Some (Allow, PersistedGrant)
            else if ps_edit_policy st = EditReject then Some (Reject ''edits prohibited'', SessionDeny)
            else None
        | AccBash cmd \<Rightarrow>
            if pf
            then (if pm_remember_tool_approvals cfg \<and> \<not> auto_forced \<and> \<not> pv_shell_file_forced v
                  then bash_grant_pre_decision e cmd st (pm_yolo_pin cfg) ASK_FLOOR_REMEMBER else None)
            else bash_grant_pre_decision e cmd st (pm_yolo_pin cfg) (post_classify auto_forced)
        | AccWebFetch url \<Rightarrow> web_fetch_grant e (pm_domains cfg) st PersistedGrant url)"

definition auto_prompt_blocks_allow :: "access_kind \<Rightarrow> bool" where
  "auto_prompt_blocks_allow access = (case access of AccBash _ \<Rightarrow> False | _ \<Rightarrow> True)"

definition effective_pre_decision ::
  "perm_env \<Rightarrow> perm_cfg \<Rightarrow> perm_actor \<Rightarrow> policy_view \<Rightarrow> bool \<Rightarrow> access_kind \<Rightarrow> (decision \<times> reason) option" where
  "effective_pre_decision e cfg a v auto_forced access =
    (let pre = pre_decision e cfg a v auto_forced access
     in if auto_forced \<and> auto_prompt_blocks_allow access \<and> map_option fst pre = Some Allow then None else pre)"

section \<open>The answer of the user\<close>

definition persist :: "(permission_state \<Rightarrow> permission_state) \<Rightarrow> perm_actor \<Rightarrow> perm_actor" where
  "persist f a = (let st = f (pa_state a) in a\<lparr>pa_state := st, pa_persisted := st # pa_persisted a\<rparr>)"

definition apply_prompt_bash :: "string \<Rightarrow> prompt_outcome \<Rightarrow> perm_actor \<Rightarrow> decision \<times> string \<times> perm_actor" where
  "apply_prompt_bash cmd out a =
    (case out of
       AllowOnce \<Rightarrow> (Allow, ''allow_once'', a)
     | AllowAlways \<Rightarrow>
         (Allow, ''allow_always'', persist (\<lambda>st. st\<lparr>ps_allowed_bash_commands := hash_insert cmd (ps_allowed_bash_commands st)\<rparr>) a)
     | AllowAlwaysBashCommand pre \<Rightarrow>
         (Allow, ''allow_always_bash'', persist (\<lambda>st. st\<lparr>ps_allowed_bash_commands := hash_insert pre (ps_allowed_bash_commands st)\<rparr>) a)
     | AllowAlwaysDomain _ \<Rightarrow> (Allow, ''allow_once'', a)
     | AllowAlwaysMcpTool _ \<Rightarrow> (Allow, ''allow_once'', a)
     | AllowAlwaysMcpServer _ \<Rightarrow> (Allow, ''allow_once'', a)
     | AllowEditsForSession \<Rightarrow> (Allow, ''allow_once'', a)
     | RejectOnce \<Rightarrow> (Reject ''User rejected the execution'', ''reject_once'', a)
     | RejectAlwaysBashCommand pre \<Rightarrow>
         (Reject (''User rejected the execution and excluded '' @ pre @ '' from this session''), ''reject_always_bash'',
          persist (\<lambda>st. st\<lparr>ps_disallowed_bash_commands := hash_insert pre (ps_disallowed_bash_commands st)\<rparr>) a)
     | PromptCancelled \<Rightarrow> (DCancelled, ''cancelled'', a)
     | PromptFollowup msg \<Rightarrow> (FollowupMessage msg, ''followup'', a)
     | PromptError err \<Rightarrow> (Reject (''Failed to request permission from user: '' @ err), ''error'', a))"

definition grant_mcp_tool :: "access_kind \<Rightarrow> permission_state \<Rightarrow> permission_state" where
  "grant_mcp_tool access st =
     (case access of
        AccMCPTool name _ \<Rightarrow> st\<lparr>ps_allowed_mcp_tools := hash_insert name (ps_allowed_mcp_tools st)\<rparr>
      | _ \<Rightarrow> st)"

definition grant_mcp_server :: "string \<Rightarrow> string \<Rightarrow> permission_state \<Rightarrow> permission_state" where
  "grant_mcp_server access_name server_prefix st =
     (case split_once_dunder access_name of
        Some (canonical, _) \<Rightarrow>
          if canonical \<noteq> [] \<and> canonical = server_prefix
          then st\<lparr>ps_allowed_mcp_servers := hash_insert canonical (ps_allowed_mcp_servers st)\<rparr>
          else st\<lparr>ps_allowed_mcp_tools := hash_insert access_name (ps_allowed_mcp_tools st)\<rparr>
      | None \<Rightarrow> st\<lparr>ps_allowed_mcp_tools := hash_insert access_name (ps_allowed_mcp_tools st)\<rparr>)"

definition apply_prompt_other :: "access_kind \<Rightarrow> prompt_outcome \<Rightarrow> perm_actor \<Rightarrow> decision \<times> string \<times> perm_actor" where
  "apply_prompt_other access out a =
    (case out of
       AllowOnce \<Rightarrow> (Allow, ''allow_once'', a)
     | AllowEditsForSession \<Rightarrow> (Allow, ''allow_edits_for_session'', a\<lparr>pa_allow_edits := True\<rparr>)
     | AllowAlways \<Rightarrow> (Allow, ''allow_always'', persist (grant_mcp_tool access) a)
     | AllowAlwaysBashCommand _ \<Rightarrow> (Allow, ''allow_always_bash'', a)
     | AllowAlwaysDomain domain \<Rightarrow>
         (Allow, ''allow_always_domain'',
          case access of
            AccWebFetch _ \<Rightarrow> persist (\<lambda>st. st\<lparr>ps_allowed_web_fetch_domains := hash_insert domain (ps_allowed_web_fetch_domains st)\<rparr>) a
          | _ \<Rightarrow> a)
     | AllowAlwaysMcpTool _ \<Rightarrow>
         (Allow, ''allow_always_mcp_tool'', case access of AccMCPTool _ _ \<Rightarrow> persist (grant_mcp_tool access) a | _ \<Rightarrow> a)
     | AllowAlwaysMcpServer server_prefix \<Rightarrow>
         (Allow, ''allow_always_mcp_server'',
          case access of AccMCPTool name _ \<Rightarrow> persist (grant_mcp_server name server_prefix) a | _ \<Rightarrow> a)
     | RejectAlwaysBashCommand _ \<Rightarrow> (Reject ''User rejected the execution'', ''reject_always_bash'', a)
     | RejectOnce \<Rightarrow> (Reject ''User rejected the execution'', ''reject_once'', a)
     | PromptCancelled \<Rightarrow> (DCancelled, ''cancelled'', a)
     | PromptError err \<Rightarrow> (Reject (''Failed to request permission from user: '' @ err), ''error'', a)
     | PromptFollowup msg \<Rightarrow> (FollowupMessage msg, ''followup'', a))"

definition apply_prompt :: "access_kind \<Rightarrow> prompt_outcome \<Rightarrow> perm_actor \<Rightarrow> decision \<times> string \<times> perm_actor" where
  "apply_prompt access out a =
     (case access of AccBash cmd \<Rightarrow> apply_prompt_bash cmd out a | _ \<Rightarrow> apply_prompt_other access out a)"

definition prompted_decision_approved :: "decision \<Rightarrow> string \<Rightarrow> bool option" where
  "prompted_decision_approved d outcome_str =
     (case d of Allow \<Rightarrow> Some True | Reject _ \<Rightarrow> if outcome_str \<noteq> ''error'' then Some False else None | _ \<Rightarrow> None)"

definition record_decision :: "perm_cfg \<Rightarrow> access_kind \<Rightarrow> decision \<Rightarrow> string \<Rightarrow> perm_actor \<Rightarrow> perm_actor" where
  "record_decision cfg access d outcome_str a =
     (case prompted_decision_approved d outcome_str of
        None \<Rightarrow> a
      | Some approved \<Rightarrow>
          let turns = pa_recorded a @ [PermissionDecision (tool_name_for_access access) (permission_decision_args cfg access) approved]
          in a\<lparr>pa_recorded := drop (length turns - MAX_RECORDED_PERMISSION_DECISIONS) turns\<rparr>)"

section \<open>One request\<close>

definition ask_user ::
  "perm_cfg \<Rightarrow> policy_view \<Rightarrow> auto_result \<Rightarrow> access_kind \<Rightarrow> answers \<Rightarrow> perm_actor \<Rightarrow> decision option \<times> permission_event \<times> perm_actor" where
  "ask_user cfg v auto access an a =
    (let trigger = (if pv_unresolved_link v then UnresolvedLink
                    else if policy_forced_prompt v \<or> pv_forced_prompt v then PolicyAskReason
                    else case auto of AutoPrompts r \<Rightarrow> r | _ \<Rightarrow> NeedsUser)
     in if an_gone_before_prompt an then (None, mk_event a access DCancelled False False None RequesterGone, a)
        else let (d, outcome_str, a1) = apply_prompt access (an_prompt an) a;
                 a2 = record_decision cfg access d outcome_str a1;
                 why = (if d = DCancelled \<and> an_gone_after an then RequesterGone else trigger)
             in (Some d, mk_event a access d False True (Some outcome_str) why, a2))"

definition decide ::
  "perm_env \<Rightarrow> perm_cfg \<Rightarrow> policy_view \<Rightarrow> auto_result \<Rightarrow> access_kind \<Rightarrow> answers \<Rightarrow> perm_actor
     \<Rightarrow> decision option \<times> permission_event \<times> perm_actor" where
  "decide e cfg v auto access an a =
    (let auto_forced = auto_forced_prompt auto;
         answer = (\<lambda>d auto_approved r. (Some d, mk_event a access d auto_approved False None r, a))
     in if (case access of AccBash _ \<Rightarrow> True | _ \<Rightarrow> False) \<and> an_sandbox_auto_allows an \<and> \<not> policy_forced_prompt v \<and> \<not> auto_forced
        then answer Allow True SandboxAuto
        else if pv_decision v \<noteq> None \<and> pv_decision v \<noteq> Some Ask
        then answer (the (pv_decision v)) True PolicyAllowReason
        else case effective_pre_decision e cfg a v auto_forced access of
          Some (d, r) \<Rightarrow> answer d True r
        | None \<Rightarrow>
            if pm_prompt_policy cfg = PromptDeny
            then answer (PolicyDeny ''denied by prompt policy (tool not pre-approved)'') False PromptDenyReason
            else ask_user cfg v auto access an a)"

definition handle_request ::
  "perm_env \<Rightarrow> perm_cfg \<Rightarrow> perm_request \<Rightarrow> answers \<Rightarrow> perm_actor \<Rightarrow> decision option \<times> permission_event \<times> perm_actor" where
  "handle_request e cfg rq an a =
    (let access = rq_access rq;
         v = policy_view_of e cfg rq;
         answer = (\<lambda>d auto_approved r. (Some d, mk_event a access d auto_approved False None r, a))
     in if an_gone_at_dequeue an then (None, mk_event a access DCancelled False False None RequesterGone, a)
        else case pv_decision v of
          Some (Reject reason) \<Rightarrow> answer (PolicyDeny reason) False PolicyDenyReason
        | _ \<Rightarrow>
            if pa_yolo a \<and> \<not> pv_forced_prompt v then answer Allow True Yolo
            else case (if policy_forced_prompt v \<or> pv_forced_prompt v then None
                       else session_grant_pre_decision e access (pa_state a) (pa_allow_edits a) (pm_domains cfg) (pm_yolo_pin cfg)) of
              Some (d, r) \<Rightarrow> answer d True r
            | None \<Rightarrow>
                (case auto_stage a v access an of
                   AutoAllowed r \<Rightarrow> answer Allow True r
                 | AutoGone \<Rightarrow> (None, mk_event a access DCancelled False False None RequesterGone, a)
                 | auto \<Rightarrow> decide e cfg v auto access an a))"

section \<open>The actor and its handles\<close>

datatype perm_command =
    SetYoloMode bool
  | SetAutoMode bool
  | SetClassifier bool
  | SetClassifierTranscript "classifier_turn list"
  | SetProjectInstructions "string option"
  | ResetState
  | Request perm_request

record perm_system =
  sy_actor :: perm_actor
  sy_yolo_state :: bool
  sy_auto_state :: bool
  sy_queue :: "perm_command list"
  sy_events :: "permission_event list"
  sy_replies :: "decision list"

text \<open>Set-up: the pin clamps the requested mode and a persisted \<open>Allow\<close> for edits is migrated.\<close>

definition actor_start :: "perm_cfg \<Rightarrow> permission_state \<Rightarrow> bool \<Rightarrow> perm_system" where
  "actor_start cfg loaded requested_yolo =
    (let yolo = clamp_yolo requested_yolo (pm_yolo_pin cfg);
         auto = (\<not> yolo \<and> pm_prompt_policy cfg = PromptAuto);
         migrated = loaded\<lparr>ps_edit_policy := EditAsk\<rparr>;
         legacy = (ps_edit_policy loaded = EditAllow)
     in \<lparr>sy_actor = \<lparr>pa_state = (if legacy then migrated else loaded), pa_yolo = yolo, pa_auto = auto, pa_classifier = True,
                    pa_turns = [], pa_recorded = [], pa_instructions = None, pa_allow_edits = False,
                    pa_persisted = (if legacy then [migrated] else [])\<rparr>,
         sy_yolo_state = yolo, sy_auto_state = auto, sy_queue = [], sy_events = [], sy_replies = []\<rparr>)"

text \<open>The setters of the handle change the shared flags at once and send the command.\<close>

definition send :: "perm_command \<Rightarrow> perm_system \<Rightarrow> perm_system" where
  "send c s = s\<lparr>sy_queue := sy_queue s @ [c]\<rparr>"

definition set_yolo_mode :: "perm_cfg \<Rightarrow> bool \<Rightarrow> perm_system \<Rightarrow> perm_system" where
  "set_yolo_mode cfg enabled s =
    (let clamped = clamp_yolo enabled (pm_yolo_pin cfg)
     in send (SetYoloMode enabled)
          (s\<lparr>sy_yolo_state := clamped, sy_auto_state := sy_auto_state s \<and> \<not> clamped\<rparr>))"

definition set_auto_mode :: "bool \<Rightarrow> perm_system \<Rightarrow> perm_system" where
  "set_auto_mode enabled s =
     send (SetAutoMode enabled) (s\<lparr>sy_auto_state := enabled, sy_yolo_state := sy_yolo_state s \<and> \<not> enabled\<rparr>)"

text \<open>What the actor does with one command; \<open>e\<close> and \<open>an\<close> matter to requests only.\<close>

definition process_command :: "perm_cfg \<Rightarrow> perm_env \<Rightarrow> answers \<Rightarrow> perm_command \<Rightarrow> perm_system \<Rightarrow> perm_system" where
  "process_command cfg e an c s =
    (let a = sy_actor s
     in case c of
          SetYoloMode enabled \<Rightarrow>
            let clamped = clamp_yolo enabled (pm_yolo_pin cfg)
            in s\<lparr>sy_actor := a\<lparr>pa_yolo := clamped, pa_auto := pa_auto a \<and> \<not> clamped\<rparr>,
                 sy_yolo_state := clamped, sy_auto_state := sy_auto_state s \<and> \<not> clamped\<rparr>
        | SetAutoMode enabled \<Rightarrow>
            s\<lparr>sy_actor := a\<lparr>pa_auto := enabled, pa_yolo := pa_yolo a \<and> \<not> enabled, pa_classifier := pa_classifier a \<or> enabled\<rparr>,
              sy_auto_state := enabled, sy_yolo_state := sy_yolo_state s \<and> \<not> enabled\<rparr>
        | SetClassifier present \<Rightarrow> s\<lparr>sy_actor := a\<lparr>pa_classifier := present\<rparr>\<rparr>
        | SetClassifierTranscript turns \<Rightarrow> s\<lparr>sy_actor := a\<lparr>pa_turns := turns\<rparr>\<rparr>
        | SetProjectInstructions instructions \<Rightarrow> s\<lparr>sy_actor := a\<lparr>pa_instructions := instructions\<rparr>\<rparr>
        | ResetState \<Rightarrow> s\<lparr>sy_actor := (persist (\<lambda>_. permission_state_default) a)\<lparr>pa_allow_edits := False\<rparr>\<rparr>
        | Request rq \<Rightarrow>
            let (reply, ev, a') = handle_request e cfg rq an a
            in s\<lparr>sy_actor := a', sy_events := sy_events s @ [ev],
                 sy_replies := sy_replies s @ (case reply of Some d \<Rightarrow> [d] | None \<Rightarrow> [])\<rparr>)"

inductive perm_step :: "perm_cfg \<Rightarrow> perm_system \<Rightarrow> perm_system \<Rightarrow> bool" for cfg where
  step_set_yolo: "perm_step cfg s (set_yolo_mode cfg enabled s)"
| step_set_auto: "perm_step cfg s (set_auto_mode enabled s)"
| step_send: "(\<And>b. c \<noteq> SetYoloMode b) \<Longrightarrow> (\<And>b. c \<noteq> SetAutoMode b) \<Longrightarrow> perm_step cfg s (send c s)"
| step_process: "sy_queue s = c # cs \<Longrightarrow> perm_step cfg s (process_command cfg e an c (s\<lparr>sy_queue := cs\<rparr>))"

end
