(* ===== verification/Perm_Decide.thy ===== *)
theory Perm_Decide
  imports Perm_Manager "HOL-Library.Multiset"
begin

text \<open>
  Decisions as a lattice.  \<open>strength\<close> orders them from none to a rejection, \<open>combine_decisions\<close> is the
  maximum, and the rules of a policy are read as a set: a rejection needs a deny rule that applies,
  a prompt an ask rule and no deny rule, an approval only allow rules.
\<close>

section \<open>Strength\<close>

definition strength :: "decision option \<Rightarrow> nat" where
  "strength d = (case d of None \<Rightarrow> 0 | Some x \<Rightarrow> decision_rank x)"

text \<open>What a policy can answer.\<close>

definition simple :: "decision option \<Rightarrow> bool" where
  "simple d \<longleftrightarrow> d = None \<or> d = Some Allow \<or> d = Some Ask \<or> (\<exists>r. d = Some (Reject r))"

lemma strength_simps [simp]:
  "strength None = 0" "strength (Some Allow) = 1" "strength (Some Ask) = 2" "strength (Some (Reject r)) = 3"
  by (simp_all add: strength_def)

lemma simple_simps [simp]: "simple None" "simple (Some Allow)" "simple (Some Ask)" "simple (Some (Reject r))"
  by (simp_all add: simple_def)

lemma strength_combine [simp]: "strength (combine_decisions a b) = max (strength a) (strength b)"
  by (cases "(a, b)" rule: combine_decisions.cases) (auto simp: strength_def split: option.splits)

lemma simple_combine [simp, intro]: "simple a \<Longrightarrow> simple b \<Longrightarrow> simple (combine_decisions a b)"
  by (cases "(a, b)" rule: combine_decisions.cases) (auto simp: simple_def)

lemma combine_None_right [simp]: "combine_decisions d None = d"
  by (cases d) auto

lemma simple_reject: "simple d \<Longrightarrow> 3 \<le> strength d \<longleftrightarrow> (\<exists>r. d = Some (Reject r))"
  by (auto simp: simple_def)

lemma simple_ask: "simple d \<Longrightarrow> strength d = 2 \<longleftrightarrow> d = Some Ask"
  by (auto simp: simple_def)

lemma simple_ge_ask: "simple d \<Longrightarrow> 2 \<le> strength d \<longleftrightarrow> d = Some Ask \<or> (\<exists>r. d = Some (Reject r))"
  by (auto simp: simple_def)

text \<open>Folds whose accumulator, seen through \<open>h\<close>, only gets stronger.\<close>

lemma foldl_keeps: "(\<And>a x. P a \<Longrightarrow> P (f a x)) \<Longrightarrow> P a \<Longrightarrow> P (foldl f a xs)"
  by (induction xs arbitrary: a) auto

lemma foldl_stronger:
  assumes "\<And>a x. strength (h (f a x)) = max (strength (h a)) (v x)"
  shows "strength (h a) \<le> strength (h (foldl f a xs))" and "x \<in> set xs \<Longrightarrow> v x \<le> strength (h (foldl f a xs))"
proof -
  show mono: "strength (h a) \<le> strength (h (foldl f a xs))" for a xs
  proof (induction xs arbitrary: a)
    case (Cons x xs)
    from Cons [of "f a x"] assms [of a x] show ?case by simp
  qed simp
  show "x \<in> set xs \<Longrightarrow> v x \<le> strength (h (foldl f a xs))" for a xs
  proof (induction xs arbitrary: a)
    case (Cons y ys)
    show ?case
    proof (cases "x = y")
      case True
      with mono [of "f a y" ys] assms [of a y] show ?thesis by simp
    next
      case False
      with Cons show ?thesis by simp
    qed
  qed simp
qed

section \<open>The rules as a set\<close>

definition rule_applies :: "perm_env \<Rightarrow> access_kind \<Rightarrow> permission_rule \<Rightarrow> bool" where
  "rule_applies e access r \<longleftrightarrow> tool_filter_matches access (pr_tool r) \<and> pattern_matches e access r (compile_matcher e r)"

definition applying :: "perm_env \<Rightarrow> permission_config \<Rightarrow> access_kind \<Rightarrow> rule_action \<Rightarrow> bool" where
  "applying e config access act \<longleftrightarrow> list_ex (\<lambda>r. pr_action r = act \<and> rule_applies e access r) (pc_rules config)"

lemma evaluate_rules_spec:
  "evaluate_rules e access (map (\<lambda>r. (r, compile_matcher e r)) rs) ask allow =
     (case find (\<lambda>r. pr_action r = ActDeny \<and> rule_applies e access r) rs of
        Some r \<Rightarrow> Some (Reject (deny_reason r))
      | None \<Rightarrow>
          if ask \<or> list_ex (\<lambda>r. pr_action r = ActAsk \<and> rule_applies e access r) rs then Some Ask
          else if allow \<or> list_ex (\<lambda>r. pr_action r = ActAllow \<and> rule_applies e access r) rs then Some Allow
          else None)"
proof (induction rs arbitrary: ask allow)
  case (Cons r rs)
  have "evaluate_rules e access ((r, compile_matcher e r) # ms) ask allow =
      (if \<not> rule_applies e access r then evaluate_rules e access ms ask allow
       else case pr_action r of
         ActDeny \<Rightarrow> Some (Reject (deny_reason r))
       | ActAsk \<Rightarrow> evaluate_rules e access ms True allow
       | ActAllow \<Rightarrow> evaluate_rules e access ms ask True)" for ms
    by (simp add: rule_applies_def)
  then show ?case by (cases "pr_action r") (simp_all add: Cons)
qed simp

lemma zip_matchers: "zip rs (map f rs) = map (\<lambda>r. (r, f r)) rs"
  by (induction rs) auto

lemma evaluate_spec:
  "policy_evaluate e (compiled_policy_new e config) access =
     (case find (\<lambda>r. pr_action r = ActDeny \<and> rule_applies e access r) (pc_rules config) of
        Some r \<Rightarrow> Some (Reject (deny_reason r))
      | None \<Rightarrow>
          if applying e config access ActAsk then Some Ask
          else if applying e config access ActAllow then Some Allow
          else None)"
  unfolding policy_evaluate_def compiled_policy_new_def applying_def
  by (simp only: compiled_policy.simps zip_matchers evaluate_rules_spec simp_thms)

lemma simple_evaluate [simp]: "simple (policy_evaluate e p access)"
proof -
  have "simple (evaluate_rules e access rs ask allow)" for rs ask allow
    by (induction e access rs ask allow rule: evaluate_rules.induct) (simp_all split: rule_action.split)
  then show ?thesis by (simp add: policy_evaluate_def)
qed

lemma simple_escalate [simp]: "simple (escalate e p access)"
  using simple_evaluate [of e p access] by (auto simp: escalate_def simple_def split: option.splits decision.splits)

lemma find_deny: "(\<exists>r. find (\<lambda>r. pr_action r = ActDeny \<and> rule_applies e access r) (pc_rules config) = Some r)
    \<longleftrightarrow> applying e config access ActDeny"
  unfolding applying_def not_None_eq [symmetric] find_None_iff list_ex_iff by blast

lemma evaluate_reject: "applying e config access ActDeny \<Longrightarrow> strength (policy_evaluate e (compiled_policy_new e config) access) = 3"
  using find_deny [of e access config] by (auto simp: evaluate_spec)

lemma evaluate_ask: "applying e config access ActAsk \<Longrightarrow> 2 \<le> strength (policy_evaluate e (compiled_policy_new e config) access)"
  by (simp add: evaluate_spec split: option.split)

lemma escalate_strength: "2 \<le> strength (policy_evaluate e p access) \<Longrightarrow> strength (escalate e p access) = strength (policy_evaluate e p access)"
  by (auto simp: escalate_def split: option.splits decision.splits)

lemma escalate_reject: "applying e config access ActDeny \<Longrightarrow> strength (escalate e (compiled_policy_new e config) access) = 3"
  by (simp add: escalate_strength evaluate_reject)

end
