(* ===== verification/Perm_Gates.thy ===== *)
theory Perm_Gates
  imports Perm_Decide
begin

text \<open>
  The locale \<open>gate\<close> is the contract of the three ways in which a request is held against the policy:
  what a gate covers, it does not let pass more weakly than the policy decides.  \<open>direct\<close> is \<open>evaluate_with_cwd\<close>: it covers the access as
  asked for and every spelling of the file it opens, links followed.  \<open>commands\<close> is
  \<open>evaluate_bash_command_policy\<close>: it covers every command a script runs, also under wrappers and
  inside \<open>bash -c\<close>.  \<open>files\<close> is \<open>evaluate_shell_file_access\<close>: it covers every file operand the
  script names.
\<close>

locale gate =
  fixes e :: perm_env and config :: permission_config
    and pass :: "'x \<Rightarrow> decision option" and covers :: "'x \<Rightarrow> access_kind \<Rightarrow> bool"
  assumes pass_simple: "simple (pass x)"
    and pass_covers: "covers x access \<Longrightarrow> 2 \<le> strength (policy_evaluate e (compiled_policy_new e config) access) \<Longrightarrow>
      strength (policy_evaluate e (compiled_policy_new e config) access) \<le> strength (pass x)"
begin

lemma denies: "covers x access \<Longrightarrow> applying e config access ActDeny \<Longrightarrow> \<exists>r. pass x = Some (Reject r)"
  using pass_covers [of x access] pass_simple [of x] by (simp add: evaluate_reject flip: simple_reject)

lemma asks: "covers x access \<Longrightarrow> applying e config access ActAsk \<Longrightarrow> 2 \<le> strength (pass x)"
  using pass_covers [of x access] evaluate_ask [of e config access] by linarith

end

section \<open>Rules that restrict\<close>

lemma restricting_rule:
  "2 \<le> strength (policy_evaluate e (compiled_policy_new e config) access) \<Longrightarrow>
     \<exists>r\<in>set (pc_rules config). restricts r \<and> rule_applies e access r"
  by (auto simp: evaluate_spec applying_def list_ex_iff restricts_def find_Some_iff split: option.splits if_splits)

lemma bash_restricted:
  "2 \<le> strength (policy_evaluate e (compiled_policy_new e config) (AccBash c)) \<Longrightarrow>
     cp_has_bash_command_restrictions (compiled_policy_new e config)"
  using restricting_rule [of e config "AccBash c"]
  by (auto simp: compiled_policy_new_def list_ex_iff rule_applies_def elim!: tool_filter_matches.elims)

lemma files_restricted:
  "2 \<le> strength (policy_evaluate e (compiled_policy_new e config) (shell_access m f)) \<Longrightarrow>
     cp_has_file_restrictions (compiled_policy_new e config)"
  using restricting_rule [of e config "shell_access m f"]
  by (cases m) (auto simp: compiled_policy_new_def list_ex_iff rule_applies_def elim!: tool_filter_matches.elims)

section \<open>The direct gate\<close>

definition opened_path :: "perm_env \<Rightarrow> perm_request \<Rightarrow> string \<Rightarrow> string" where
  "opened_path e rq path = resolve_model_path e (rq_tool_cwd rq) (rq_display_cwd rq) path"

text \<open>The spellings under which the opened file is held against the rules.\<close>

definition native_spellings :: "perm_env \<Rightarrow> perm_request \<Rightarrow> string \<Rightarrow> string list" where
  "native_spellings e rq path =
     path_spellings (normalize_lexically (opened_path e rq path)) (Some (normalize_lexically (rq_tool_cwd rq)))
     @ (case resolve_following_symlinks e (opened_path e rq path) of
          Some d \<Rightarrow> path_spellings d (pe_canonicalize e (rq_tool_cwd rq)) | None \<Rightarrow> [])"

definition direct_covers :: "perm_env \<Rightarrow> perm_request \<Rightarrow> access_kind \<Rightarrow> bool" where
  "direct_covers e rq access \<longleftrightarrow>
     access = rq_access rq
     \<or> (\<exists>path s. native_file_path (rq_access rq) = Some path \<and> s \<in> set (native_spellings e rq path)
          \<and> access = access_with_path (rq_access rq) s)"

definition direct_gate :: "perm_env \<Rightarrow> permission_config \<Rightarrow> perm_request \<Rightarrow> decision option" where
  "direct_gate e config rq =
     fst (evaluate_with_cwd e (compiled_policy_new e config) (rq_access rq) (rq_tool_cwd rq) (rq_display_cwd rq))"

definition spellings_decision :: "perm_env \<Rightarrow> compiled_policy \<Rightarrow> access_kind \<Rightarrow> string list \<Rightarrow> decision option" where
  "spellings_decision e p access ss = foldl (\<lambda>acc s. combine_decisions acc (escalate e p (access_with_path access s))) None ss"

lemma simple_spellings [simp]: "simple (spellings_decision e p access ss)"
  unfolding spellings_decision_def by (rule foldl_keeps) auto

lemma spellings_stronger: "s \<in> set ss \<Longrightarrow> strength (escalate e p (access_with_path access s)) \<le> strength (spellings_decision e p access ss)"
  unfolding spellings_decision_def
  using foldl_stronger(2) [of "\<lambda>d. d" "\<lambda>acc s. combine_decisions acc (escalate e p (access_with_path access s))"
      "\<lambda>s. strength (escalate e p (access_with_path access s))" s ss None] by simp

definition link_unresolved :: "perm_env \<Rightarrow> permission_config \<Rightarrow> perm_request \<Rightarrow> bool" where
  "link_unresolved e config rq \<longleftrightarrow>
     (\<exists>path. native_file_path (rq_access rq) = Some path
        \<and> resolve_following_symlinks e (opened_path e rq path) = None
        \<and> path_has_symlink e (opened_path e rq path)
        \<and> native_path_restrictions_apply (compiled_policy_new e config) (rq_access rq))"

lemma evaluate_with_cwd_eq:
  "evaluate_with_cwd e (compiled_policy_new e config) (rq_access rq) (rq_tool_cwd rq) (rq_display_cwd rq) =
     (case native_file_path (rq_access rq) of
        None \<Rightarrow> (policy_evaluate e (compiled_policy_new e config) (rq_access rq), False)
      | Some path \<Rightarrow>
          (combine_decisions (policy_evaluate e (compiled_policy_new e config) (rq_access rq))
             (combine_decisions (spellings_decision e (compiled_policy_new e config) (rq_access rq) (native_spellings e rq path))
                (if link_unresolved e config rq then Some Ask else None)),
           link_unresolved e config rq))"
  by (simp add: evaluate_with_cwd_def Let_def spellings_decision_def native_spellings_def opened_path_def link_unresolved_def
      split: option.split)

interpretation direct: gate e config "direct_gate e config" "direct_covers e" for e config
proof
  show "simple (direct_gate e config rq)" for rq
    by (auto simp: direct_gate_def evaluate_with_cwd_eq split: option.split)
  show "strength (policy_evaluate e (compiled_policy_new e config) access) \<le> strength (direct_gate e config rq)"
    if "direct_covers e rq access" "2 \<le> strength (policy_evaluate e (compiled_policy_new e config) access)" for rq access
    using that spellings_stronger [of _ "native_spellings e rq _" e "compiled_policy_new e config" "rq_access rq"]
    by (fastforce simp: direct_covers_def direct_gate_def evaluate_with_cwd_eq escalate_strength le_max_iff_disj split: option.split)
qed

section \<open>The gate for commands\<close>

text \<open>\<open>script_runs e n cmd ws\<close>: the script runs the command \<open>ws\<close> inside \<open>n\<close> levels of \<open>bash -c\<close>.\<close>

inductive script_runs :: "perm_env \<Rightarrow> nat \<Rightarrow> string \<Rightarrow> string list \<Rightarrow> bool" for e where
  here: "all_commands_from_script (pe_parse e) cmd = Some segments \<Longrightarrow> c \<in> set segments \<Longrightarrow>
    ws = pl_words c \<or> ws = unwrap_wrappers (pl_words c) \<Longrightarrow> script_runs e 0 cmd ws"
| inside: "all_commands_from_script (pe_parse e) cmd = Some segments \<Longrightarrow> c \<in> set segments \<Longrightarrow>
    ws = pl_words c \<or> ws = unwrap_wrappers (pl_words c) \<Longrightarrow> shell_dash_c_script ws = Some inner \<Longrightarrow>
    script_runs e n inner ws' \<Longrightarrow> script_runs e (Suc n) cmd ws'"

definition form_strength :: "nat \<Rightarrow> perm_env \<Rightarrow> compiled_policy \<Rightarrow> string list \<Rightarrow> nat" where
  "form_strength n e p ws =
     max (strength (escalate e p (AccBash (join '' '' ws))))
       (case shell_dash_c_script ws of Some inner \<Rightarrow> strength (evaluate_bash_command_segments n e p inner) | None \<Rightarrow> 0)"

lemma simple_segments [simp]: "simple (evaluate_bash_command_segments n e p cmd)"
proof (induction n arbitrary: cmd)
  case (Suc n)
  show ?case
    by (simp split: option.split, intro allI impI, rule foldl_keeps)
       (auto simp: Let_def Suc split: option.split)
qed simp

lemma both_forms: "ws = raw \<or> ws = unwrap_wrappers raw \<Longrightarrow> ws \<in> set (segment_forms raw)"
  using unwrap_wrappers_cases [of raw] by (auto simp: segment_forms_def Let_def)

lemma segments_cover:
  assumes "all_commands_from_script (pe_parse e) cmd = Some segments" "c \<in> set segments" "ws = pl_words c \<or> ws = unwrap_wrappers (pl_words c)"
  shows "form_strength n e p ws \<le> strength (evaluate_bash_command_segments (Suc n) e p cmd)"
proof -
  have "ws \<in> set (concat (map (\<lambda>c. segment_forms (pl_words c)) segments))"
    using assms(2) both_forms [OF assms(3)] by auto
  then show ?thesis
    unfolding evaluate_bash_command_segments.simps assms(1) option.case
    by (rule foldl_stronger(2) [where h = "\<lambda>d. d", rotated])
       (simp add: form_strength_def Let_def max.assoc split: option.split)
qed

lemma script_runs_covered:
  "script_runs e n cmd ws \<Longrightarrow> n < k \<Longrightarrow>
     strength (escalate e p (AccBash (join '' '' ws))) \<le> strength (evaluate_bash_command_segments k e p cmd)"
proof (induction arbitrary: k rule: script_runs.induct)
  case (here cmd segments c ws)
  then obtain m where "k = Suc m" by (cases k) auto
  with segments_cover [OF here(1-3), of m p] show ?case by (simp add: form_strength_def)
next
  case (inside cmd segments c ws inner n ws')
  then obtain m where k: "k = Suc m" "n < m" by (cases k) auto
  from segments_cover [OF inside(1-3), of m p] inside(4) k inside.IH [of m] show ?case
    by (simp add: form_strength_def)
qed

definition commands_cover :: "perm_env \<Rightarrow> string \<Rightarrow> access_kind \<Rightarrow> bool" where
  "commands_cover e cmd access \<longleftrightarrow> (\<exists>n<8. \<exists>ws. script_runs e n cmd ws \<and> access = AccBash (join '' '' ws))"

interpretation commands: gate e config "evaluate_bash_command_policy e (compiled_policy_new e config)" "commands_cover e" for e config
proof
  show "simple (evaluate_bash_command_policy e (compiled_policy_new e config) cmd)" for cmd
    by (simp add: evaluate_bash_command_policy_def)
  show "strength (policy_evaluate e (compiled_policy_new e config) access)
      \<le> strength (evaluate_bash_command_policy e (compiled_policy_new e config) cmd)"
    if "commands_cover e cmd access" "2 \<le> strength (policy_evaluate e (compiled_policy_new e config) access)" for cmd access
  proof -
    from that(1) obtain n ws where ws: "n < 8" "script_runs e n cmd ws" "access = AccBash (join '' '' ws)"
      by (auto simp: commands_cover_def)
    from script_runs_covered [OF ws(2,1), of "compiled_policy_new e config"] that(2) show ?thesis
      by (simp add: ws(3) evaluate_bash_command_policy_def bash_restricted escalate_strength)
  qed
qed

text \<open>A script that does not decompose, or nests too deeply, is not passed.\<close>

lemma segments_fail_closed:
  "all_commands_from_script (pe_parse e) cmd = None \<Longrightarrow> evaluate_bash_command_segments n e p cmd = Some Ask"
  by (cases n) auto

text \<open>\<open>script_nests e n cmd inner\<close>: the script runs \<open>inner\<close> through \<open>n\<close> levels of \<open>bash -c\<close>.\<close>

inductive script_nests :: "perm_env \<Rightarrow> nat \<Rightarrow> string \<Rightarrow> string \<Rightarrow> bool" for e where
  itself: "script_nests e 0 cmd cmd"
| deeper: "all_commands_from_script (pe_parse e) cmd = Some segments \<Longrightarrow> c \<in> set segments \<Longrightarrow>
    ws = pl_words c \<or> ws = unwrap_wrappers (pl_words c) \<Longrightarrow> shell_dash_c_script ws = Some inner \<Longrightarrow>
    script_nests e n inner script \<Longrightarrow> script_nests e (Suc n) cmd script"

text \<open>A script whose commands cannot all be seen: some level of it does not decompose, or it nests too deep.\<close>

definition script_opaque :: "perm_env \<Rightarrow> string \<Rightarrow> bool" where
  "script_opaque e cmd \<longleftrightarrow>
     (\<exists>inner. script_nests e 8 cmd inner \<or> (\<exists>n<8. script_nests e n cmd inner \<and> all_commands_from_script (pe_parse e) inner = None))"

lemma nested_covered:
  "script_nests e n cmd inner \<Longrightarrow> strength (evaluate_bash_command_segments k e p inner) \<le> strength (evaluate_bash_command_segments (k + n) e p cmd)"
proof (induction rule: script_nests.induct)
  case (deeper cmd segments c ws inner n script)
  from segments_cover [OF deeper(1-3), of "k + n" p] deeper(4) deeper.IH show ?case by (simp add: form_strength_def)
qed simp

lemma opaque_asks:
  assumes "script_opaque e cmd"
  shows "2 \<le> strength (evaluate_bash_command_segments 8 e p cmd)"
proof -
  obtain n inner where inner: "script_nests e n cmd inner" "n \<le> 8" "n < 8 \<Longrightarrow> all_commands_from_script (pe_parse e) inner = None"
    using assms unfolding script_opaque_def by (metis le_refl less_imp_le less_irrefl)
  have "evaluate_bash_command_segments (8 - n) e p inner = Some Ask"
    using inner(2,3) by (cases "8 - n") auto
  with nested_covered [OF inner(1), of "8 - n" p] inner(2) show ?thesis by simp
qed

lemma opaque_gate:
  assumes "script_opaque e cmd" "r \<in> set (pc_rules config)" "restricts r" "pr_tool r \<in> {ForBash, ForAny}"
  shows "2 \<le> strength (evaluate_bash_command_policy e (compiled_policy_new e config) cmd)"
proof -
  have "cp_has_bash_command_restrictions (compiled_policy_new e config)"
    using assms(2-4) by (auto simp: compiled_policy_new_def list_ex_iff)
  then show ?thesis using opaque_asks [OF assms(1)] by (simp add: evaluate_bash_command_policy_def)
qed

section \<open>The gate for files\<close>

text \<open>The file operands of one invocation, and of a script with its redirections.\<close>

definition invocation_operands :: "nat \<times> string list \<times> bool \<Rightarrow> (string \<times> shell_access_mode) list" where
  "invocation_operands iv =
    (let ws = unwrap_wrappers (fst (snd iv)); program = to_ascii_lowercase (base_name (hd ws))
     in if ws = [] \<or> program = ''cd'' then []
        else special_file_operands program ws @
          (if program = ''dd'' then []
           else case shell_path_command_operands program ws of
             Some operands \<Rightarrow> operands
           | None \<Rightarrow> concat (map (\<lambda>t. map (Pair t) (operand_modes program ws)) (shell_file_candidates ws))))"

definition script_operands :: "ts_node \<Rightarrow> string \<Rightarrow> (string \<times> shell_access_mode) list" where
  "script_operands root cmd =
     List.map_filter (\<lambda>(_, path, mode, _). map_option (\<lambda>p. (p, mode)) path) (shell_redirect_targets root cmd)
     @ concat (map invocation_operands (shell_command_invocations root cmd))"

definition operand_check :: "perm_env \<Rightarrow> compiled_policy \<Rightarrow> string \<Rightarrow> decision option \<Rightarrow> string \<times> shell_access_mode \<Rightarrow> decision option" where
  "operand_check e p cwd d om = combine_decisions d (evaluate_shell_path e p (fst om) cwd (snd om))"

lemma snd_check_operands: "snd (foldl (check_operand e p cwd) acc oms) = foldl (operand_check e p cwd) (snd acc) oms"
  by (induction oms arbitrary: acc) (simp_all add: check_operand_def operand_check_def)

lemma concat_map_Nil: "concat (map (\<lambda>t. []) xs) = []"
  by (induction xs) auto

lemma snd_check_invocation:
  "snd (check_invocation e p cwd changes failed acc iv) = foldl (operand_check e p cwd) (snd acc) (invocation_operands iv)"
  by (cases iv) (simp add: check_invocation_def invocation_operands_def Let_def snd_check_operands operand_modes_def concat_map_Nil split: option.split)

lemma snd_check_redirects:
  "snd (foldl (check_redirect e p cwd changes) acc rs) =
     foldl (operand_check e p cwd) (snd acc) (List.map_filter (\<lambda>(_, path, mode, _). map_option (\<lambda>p. (p, mode)) path) rs)"
  by (induction rs arbitrary: acc) (auto simp: check_redirect_def operand_check_def Let_def map_filter_simps split: option.split)

lemma snd_check_invocations:
  "snd (foldl (check_invocation e p cwd changes failed) acc ivs) = foldl (operand_check e p cwd) (snd acc) (concat (map invocation_operands ivs))"
  by (induction ivs arbitrary: acc) (simp_all add: snd_check_invocation)

lemma file_access_eq:
  "\<exists>forced. evaluate_shell_file_access e p cmd cwd =
     (if \<not> cp_has_file_restrictions p then None
      else case pe_parse e cmd of
        None \<Rightarrow> None
      | Some tree \<Rightarrow> combine_decisions (foldl (operand_check e p cwd) None (script_operands (tt_root tree) cmd))
                      (if forced then Some Ask else None))"
  by (simp add: evaluate_shell_file_access_def Let_def snd_check_invocations snd_check_redirects script_operands_def split: option.split)
     blast

lemma simple_shell_path [simp]: "simple (evaluate_shell_path e p tok cwd mode)"
  by (simp add: evaluate_shell_path_def Let_def split: option.split)

definition shell_absolute :: "string \<Rightarrow> string \<Rightarrow> string" where
  "shell_absolute cwd tok =
     (let path = normalize_shell_path tok in if is_absolute_shell_path path then path else normalize_shell_path (path_join cwd path))"

definition shell_raw_absolute :: "string \<Rightarrow> string \<Rightarrow> string" where
  "shell_raw_absolute cwd tok =
     (let raw = normalize_shell_path_raw tok in if is_absolute_shell_path raw then raw else normalize_shell_path_raw (path_join cwd raw))"

text \<open>The names under which an operand is held against the rules: as written, absolute, links followed.\<close>

definition operand_names :: "perm_env \<Rightarrow> string \<Rightarrow> string \<Rightarrow> string set" where
  "operand_names e cwd tok =
     {normalize_shell_path tok, shell_absolute cwd tok} \<union> set_option (resolve_symlink_target e (shell_raw_absolute cwd tok))"

lemma shell_path_covers:
  assumes "f \<in> operand_names e cwd tok"
  shows "strength (escalate e p (shell_access mode f)) \<le> strength (evaluate_shell_path e p tok cwd mode)"
proof -
  consider "f = normalize_shell_path tok" | "f = shell_absolute cwd tok" "f \<noteq> normalize_shell_path tok"
    | "resolve_symlink_target e (shell_raw_absolute cwd tok) = Some f" "f \<noteq> shell_absolute cwd tok" "f \<noteq> normalize_shell_path tok"
    using assms by (auto simp: operand_names_def)
  then show ?thesis
    by cases (simp_all add: evaluate_shell_path_def shell_absolute_def shell_raw_absolute_def Let_def le_max_iff_disj split: if_splits)
qed

definition files_cover :: "perm_env \<Rightarrow> string \<times> string \<Rightarrow> access_kind \<Rightarrow> bool" where
  "files_cover e x access \<longleftrightarrow>
     (\<exists>tree tok mode f. pe_parse e (fst x) = Some tree \<and> (tok, mode) \<in> set (script_operands (tt_root tree) (fst x))
        \<and> f \<in> operand_names e (snd x) tok \<and> access = shell_access mode f)"

interpretation files: gate e config "\<lambda>(cmd, cwd). evaluate_shell_file_access e (compiled_policy_new e config) cmd cwd" "files_cover e"
  for e config
proof (unfold_locales, unfold split_paired_all split)
  fix cmd cwd
  let ?p = "compiled_policy_new e config"
  obtain forced where eq: "evaluate_shell_file_access e ?p cmd cwd =
      (if \<not> cp_has_file_restrictions ?p then None
       else case pe_parse e cmd of
         None \<Rightarrow> None
       | Some tree \<Rightarrow> combine_decisions (foldl (operand_check e ?p cwd) None (script_operands (tt_root tree) cmd))
                       (if forced then Some Ask else None))"
    using file_access_eq by blast
  have "simple (foldl (operand_check e ?p cwd) None oms)" for oms
    by (rule foldl_keeps) (simp_all add: operand_check_def)
  then show "simple (evaluate_shell_file_access e ?p cmd cwd)" by (simp add: eq split: option.split)
  show "strength (policy_evaluate e ?p access) \<le> strength (evaluate_shell_file_access e ?p cmd cwd)"
    if c: "files_cover e (cmd, cwd) access" and s: "2 \<le> strength (policy_evaluate e ?p access)" for access
  proof -
    from c obtain tree tok mode f where t: "pe_parse e cmd = Some tree" "(tok, mode) \<in> set (script_operands (tt_root tree) cmd)"
      and f: "f \<in> operand_names e cwd tok" "access = shell_access mode f"
      by (auto simp: files_cover_def)
    have "strength (policy_evaluate e ?p access) \<le> strength (evaluate_shell_path e ?p tok cwd mode)"
      using shell_path_covers [OF f(1), of ?p mode] s by (simp add: f(2) escalate_strength)
    also have "\<dots> \<le> strength (foldl (operand_check e ?p cwd) None (script_operands (tt_root tree) cmd))"
      using foldl_stronger(2) [of "\<lambda>d. d" "operand_check e ?p cwd" "\<lambda>om. strength (evaluate_shell_path e ?p (fst om) cwd (snd om))", OF _ t(2)]
      by (simp add: operand_check_def)
    finally show ?thesis using files_restricted [of e config mode f] s by (simp add: eq t(1) f(2))
  qed
qed

end
