(* ===== verification/Perm_Facts.thy ===== *)
theory Perm_Facts
  imports Perm_Gates Transition
begin

text \<open>
  The permission actor.  A deny that any gate of the policy reports is final in every mode; an ask
  that reaches a script cannot be answered silently; a shell command that runs without a prompt in
  ask mode has every part of it approved; what a session remembers changes only by an answer of the
  user.  The actor with its queue and the two shared flags is a state machine (\<open>invariant_system\<close>):
  the pin, the bounded memory and the agreement of the flags are its invariant.
\<close>

section \<open>A request under a policy\<close>

definition command_gate :: "perm_env \<Rightarrow> permission_config \<Rightarrow> perm_request \<Rightarrow> decision option" where
  "command_gate e config rq =
     (case rq_access rq of AccBash cmd \<Rightarrow> evaluate_bash_command_policy e (compiled_policy_new e config) cmd | _ \<Rightarrow> None)"

definition file_gate :: "perm_env \<Rightarrow> permission_config \<Rightarrow> perm_request \<Rightarrow> decision option" where
  "file_gate e config rq =
     (case rq_access rq of
        AccBash cmd \<Rightarrow> evaluate_shell_file_access e (compiled_policy_new e config) cmd (rq_tool_cwd rq) | _ \<Rightarrow> None)"

definition under_policy :: "perm_env \<Rightarrow> permission_config \<Rightarrow> perm_cfg \<Rightarrow> bool" where
  "under_policy e config cfg \<longleftrightarrow> pm_policy cfg = Some (compiled_policy_new e config)"

lemma view_of_policy:
  assumes "under_policy e config cfg"
  shows "pv_decision (policy_view_of e cfg rq) =
           combine_decisions (combine_decisions (direct_gate e config rq) (command_gate e config rq)) (file_gate e config rq)"
    and "pv_forced_prompt (policy_view_of e cfg rq) \<longleftrightarrow>
           file_gate e config rq = Some Ask \<or> command_gate e config rq = Some Ask \<or> pv_unresolved_link (policy_view_of e cfg rq)"
    and "pv_shell_file_forced (policy_view_of e cfg rq) \<longleftrightarrow> file_gate e config rq = Some Ask"
    and "pv_unresolved_link (policy_view_of e cfg rq) \<longleftrightarrow> link_unresolved e config rq"
  using assms
  by (auto simp: under_policy_def policy_view_of_def direct_gate_def command_gate_def file_gate_def case_prod_beta Let_def
      evaluate_with_cwd_eq link_unresolved_def split: access_kind.split option.split)

lemma simple_gates [simp]: "simple (direct_gate e config rq)" "simple (command_gate e config rq)" "simple (file_gate e config rq)"
  using direct.pass_simple commands.pass_simple files.pass_simple [of e config "(_, rq_tool_cwd rq)"]
  by (auto simp: command_gate_def file_gate_def split: access_kind.split)

lemma simple_view [simp]: "under_policy e config cfg \<Longrightarrow> simple (pv_decision (policy_view_of e cfg rq))"
  by (simp add: view_of_policy)

lemma gates_reject:
  assumes "under_policy e config cfg"
    and "\<exists>r. direct_gate e config rq = Some (Reject r) \<or> command_gate e config rq = Some (Reject r) \<or> file_gate e config rq = Some (Reject r)"
  shows "\<exists>r. pv_decision (policy_view_of e cfg rq) = Some (Reject r)"
proof -
  have "3 \<le> strength (pv_decision (policy_view_of e cfg rq))"
    using assms(2) by (auto simp: view_of_policy [OF assms(1)])
  then show ?thesis using simple_reject [OF simple_view [OF assms(1)]] by blast
qed

text \<open>The reply and the record of a denied request: nothing else happens.\<close>

definition denied :: "perm_actor \<Rightarrow> access_kind \<Rightarrow> decision option \<times> permission_event \<times> perm_actor \<Rightarrow> bool" where
  "denied a access out \<longleftrightarrow>
     (\<exists>r. out = (Some (PolicyDeny r), mk_event a access (PolicyDeny r) False False None PolicyDenyReason, a))"

lemma view_rejects_denied:
  "\<exists>r. pv_decision (policy_view_of e cfg rq) = Some (Reject r) \<Longrightarrow> \<not> an_gone_at_dequeue an \<Longrightarrow>
     denied a (rq_access rq) (handle_request e cfg rq an a)"
  by (auto simp: denied_def handle_request_def Let_def)

lemmas gates_deny = gates_reject [THEN view_rejects_denied]

section \<open>Requests that must be put to the user\<close>

lemma prompted_ask_user: "ask_user cfg v auto access an a = (Some d, ev, a') \<Longrightarrow> ev_user_prompted ev"
  by (auto simp: ask_user_def Let_def mk_event_def case_prod_beta split: if_splits)

lemma forced_request:
  assumes "pv_decision (policy_view_of e cfg rq) = Some Ask" and "pa_yolo a \<Longrightarrow> pv_forced_prompt (policy_view_of e cfg rq)"
    and "\<not> an_gone_at_dequeue an"
  shows "handle_request e cfg rq an a = decide e cfg (policy_view_of e cfg rq) AutoSkipped (rq_access rq) an a"
  using assms by (auto simp: handle_request_def Let_def auto_stage_def policy_forced_prompt_def)

lemma decide_forced:
  assumes "pv_decision v = Some Ask" "effective_pre_decision e cfg a v False access = None"
    and "decide e cfg v AutoSkipped access an a = (Some Allow, ev, a')"
  shows "ev_user_prompted ev"
  using assms(3)
  by (auto simp: decide_def assms(1,2) policy_forced_prompt_def Let_def dest: prompted_ask_user split: if_splits)

text \<open>What an ask rule cannot be answered by: the built-in approvals and, unless approvals are to be remembered, the grants.\<close>

fun heeds_ask :: "perm_cfg \<Rightarrow> policy_view \<Rightarrow> access_kind \<Rightarrow> bool" where
  "heeds_ask cfg v (AccRead _) = True"
| "heeds_ask cfg v (AccGrep _ _) = True"
| "heeds_ask cfg v (AccBash _) = (\<not> pm_remember_tool_approvals cfg \<or> pv_shell_file_forced v)"
| "heeds_ask cfg v (AccMCPTool _ _) = (\<not> pm_remember_tool_approvals cfg)"
| "heeds_ask cfg v _ = False"

lemma heeded_no_pre_decision:
  "heeds_ask cfg v access \<Longrightarrow> pv_decision v = Some Ask \<Longrightarrow> effective_pre_decision e cfg a v False access = None"
  by (cases access) (auto simp: effective_pre_decision_def pre_decision_def policy_forced_prompt_def mcp_pre_decision_def)

lemma heeded_ask_prompts:
  assumes "pv_decision (policy_view_of e cfg rq) = Some Ask" "pa_yolo a \<Longrightarrow> pv_forced_prompt (policy_view_of e cfg rq)"
    and "heeds_ask cfg (policy_view_of e cfg rq) (rq_access rq)" "handle_request e cfg rq an a = (Some Allow, ev, a')"
  shows "ev_user_prompted ev"
proof -
  have gone: "\<not> an_gone_at_dequeue an" using assms(4) by (auto simp: handle_request_def Let_def split: if_splits)
  from decide_forced [OF assms(1) heeded_no_pre_decision [OF assms(3,1)]] assms(4) forced_request [OF assms(1,2) gone]
  show ?thesis by simp
qed

lemma allow_not_rejected:
  assumes "under_policy e config cfg" "handle_request e cfg rq an a = (Some Allow, ev, a')"
  shows "strength (pv_decision (policy_view_of e cfg rq)) \<le> 2"
proof (rule ccontr)
  assume "\<not> ?thesis"
  then have "\<exists>r. pv_decision (policy_view_of e cfg rq) = Some (Reject r)"
    using simple_reject [OF simple_view [OF assms(1)], of rq] by simp
  with view_rejects_denied [of e cfg rq an a] assms(2) show False
    by (cases "an_gone_at_dequeue an") (auto simp: denied_def handle_request_def Let_def)
qed

text \<open>A command or a file of a script under an ask rule: the prompt comes in every mode.\<close>

lemma script_ask_forced:
  assumes "under_policy e config cfg" "handle_request e cfg rq an a = (Some Allow, ev, a')"
    and "2 \<le> strength (command_gate e config rq) \<or> 2 \<le> strength (file_gate e config rq)"
  shows "pv_decision (policy_view_of e cfg rq) = Some Ask \<and> pv_forced_prompt (policy_view_of e cfg rq)"
proof -
  have le: "max (max (strength (direct_gate e config rq)) (strength (command_gate e config rq))) (strength (file_gate e config rq)) \<le> 2"
    using allow_not_rejected [OF assms(1,2)] by (simp add: view_of_policy [OF assms(1)])
  have "strength (pv_decision (policy_view_of e cfg rq)) = 2"
    using le assms(3) by (auto simp: view_of_policy [OF assms(1)])
  moreover have "command_gate e config rq = Some Ask \<or> file_gate e config rq = Some Ask"
    using le assms(3) by (auto simp flip: simple_ask)
  ultimately show ?thesis by (auto simp: view_of_policy(2) [OF assms(1)] simple_ask [OF simple_view [OF assms(1)]])
qed

section \<open>Shell commands without a prompt\<close>

text \<open>What lets one command of a script pass in ask mode.\<close>

definition segment_approved :: "permission_state \<Rightarrow> plain_command \<Rightarrow> bool" where
  "segment_approved st c \<longleftrightarrow>
     (let ws = inner_words c; expandable = drop (length (pl_words c) - length ws) (pl_expandable c)
      in is_setup_command ws
         \<or> find (matches_saved_deny ws (unwrap_wrappers (pl_legacy c))) (ps_disallowed_bash_commands st) = None
           \<and> \<not> is_dangerous_command_words ws
           \<and> (list_ex (matches_saved_grant ws) (ps_allowed_bash_commands st)
              \<or> is_safe_command_words ws expandable \<or> is_always_safe_command_words ws expandable))"

lemma classify_approved: "classify_segment st honor c \<in> {SegSetup, SegGranted, SegSafe} \<Longrightarrow> segment_approved st c"
  by (auto simp: classify_segment_def segment_approved_def Let_def split: option.splits if_splits)

lemma evaluate_segments_needs: "needs \<noteq> [] \<Longrightarrow> evaluate_segments st honor cs needs dangerous via \<noteq> AutoAllow g"
  by (induction cs arbitrary: needs dangerous via) (auto split: segment_class.split)

lemma evaluate_segments_approved:
  "evaluate_segments st honor cs needs dangerous via = AutoAllow g \<Longrightarrow> list_all (segment_approved st) cs"
  by (induction cs arbitrary: needs dangerous via)
     (auto simp: evaluate_segments_needs split: segment_class.splits intro: classify_approved)

text \<open>The grants a user has given for a whole script.\<close>

definition script_granted :: "perm_cfg \<Rightarrow> permission_state \<Rightarrow> string \<Rightarrow> bool" where
  "script_granted cfg st cmd \<longleftrightarrow> cmd \<in> set (ps_allowed_bash_commands st) \<or> ps_allow_bash_execute st \<and> pm_yolo_pin cfg = None"

definition script_approved :: "perm_env \<Rightarrow> permission_state \<Rightarrow> string \<Rightarrow> bool" where
  "script_approved e st cmd \<longleftrightarrow>
     (\<exists>segments. all_commands_from_script (pe_parse e) cmd = Some segments \<and> list_all (segment_approved st) segments)"

lemma bash_grant_allow:
  assumes "bash_grant_pre_decision e cmd st (pm_yolo_pin cfg) opts = Some (Allow, r)"
  shows "script_approved e st cmd \<or> script_granted cfg st cmd"
  using assms
  by (auto simp: bash_grant_pre_decision_def evaluate_bash_segments_inner_def script_approved_def script_granted_def
      persisted_bash_auto_allows_def dest: evaluate_segments_approved split: segment_evaluation.splits option.splits if_splits)

lemma decide_bash:
  assumes "decide e cfg v auto (AccBash cmd) an a = (Some Allow, ev, a')" "\<not> ev_user_prompted ev" "\<not> an_sandbox_auto_allows an"
  shows "pv_decision v = Some Allow \<or> script_approved e (pa_state a) cmd \<or> script_granted cfg (pa_state a) cmd"
  using assms
  by (auto simp: decide_def Let_def effective_pre_decision_def pre_decision_def auto_prompt_blocks_allow_def
      dest: prompted_ask_user bash_grant_allow split: if_splits option.splits)

text \<open>Auto mode approves a shell command by itself only when it does nothing or the classifier says so.\<close>

definition auto_approves :: "perm_actor \<Rightarrow> answers \<Rightarrow> string \<Rightarrow> bool" where
  "auto_approves a an cmd \<longleftrightarrow>
     pa_auto a
     \<and> (trim cmd \<in> {''true'', '':'', ''false''}
        \<or> an_classify an ''run_terminal_command'' (AccBash cmd) (Some cmd) (pa_turns a @ pa_recorded a) (pa_instructions a) = VerdictAllow)"

lemma auto_stage_bash: "auto_stage a v (AccBash cmd) an = AutoAllowed r \<Longrightarrow> auto_approves a an cmd"
  by (auto simp: auto_stage_def auto_approves_def auto_mode_fast_path_def is_auto_mode_allowlisted_access_def
      is_auto_mode_allowlisted_tool_name_def Let_def split: if_splits classifier_verdict.splits)

lemma silent_bash:
  assumes "handle_request e cfg rq an a = (Some Allow, ev, a')" "rq_access rq = AccBash cmd" "\<not> ev_user_prompted ev"
    and "\<not> pa_yolo a" "\<not> an_sandbox_auto_allows an"
  shows "pv_decision (policy_view_of e cfg rq) = Some Allow \<or> script_approved e (pa_state a) cmd \<or> script_granted cfg (pa_state a) cmd
    \<or> auto_approves a an cmd"
  using assms
  by (auto simp: handle_request_def Let_def session_grant_pre_decision_def
      dest: bash_grant_allow decide_bash auto_stage_bash split: if_splits option.splits decision.splits auto_result.splits)

section \<open>What an answer changes\<close>

lemma unprompted_keeps: "handle_request e cfg rq an a = (reply, ev, a') \<Longrightarrow> \<not> ev_user_prompted ev \<Longrightarrow> a' = a"
  by (auto simp: handle_request_def decide_def ask_user_def Let_def mk_event_def case_prod_beta
      split: if_splits option.splits decision.splits auto_result.splits)

lemma set_hash_insert [simp]: "set (hash_insert x xs) = insert x (set xs)"
  by (auto simp: hash_insert_def)

lemma record_decision_simps [simp]:
  "pa_state (record_decision cfg access d s a) = pa_state a"
  "pa_yolo (record_decision cfg access d s a) = pa_yolo a"
  "pa_auto (record_decision cfg access d s a) = pa_auto a"
  "pa_allow_edits (record_decision cfg access d s a) = pa_allow_edits a"
  "pa_persisted (record_decision cfg access d s a) = pa_persisted a"
  by (auto simp: record_decision_def Let_def split: option.split)

lemma apply_prompt_simps [simp]:
  "pa_yolo (snd (snd (apply_prompt access out a))) = pa_yolo a"
  "pa_auto (snd (snd (apply_prompt access out a))) = pa_auto a"
  "pa_recorded (snd (snd (apply_prompt access out a))) = pa_recorded a"
  by (cases access; cases out; simp add: apply_prompt_def apply_prompt_bash_def apply_prompt_other_def persist_def Let_def)+

text \<open>A request leaves the actor as it is or records one answer in it.\<close>

lemma handle_request_actor:
  assumes "handle_request e cfg rq an a = (reply, ev, a')"
  obtains "a' = a" | d s where "a' = record_decision cfg (rq_access rq) d s (snd (snd (apply_prompt (rq_access rq) (an_prompt an) a)))"
  using assms
  by (auto simp: handle_request_def decide_def ask_user_def Let_def case_prod_beta
      split: if_splits option.splits decision.splits auto_result.splits)

lemma record_decision_bounded: "length (pa_recorded a) \<le> 12 \<Longrightarrow> length (pa_recorded (record_decision cfg access d s a)) \<le> 12"
  by (auto simp: record_decision_def Let_def MAX_RECORDED_PERMISSION_DECISIONS_def split: option.split)

text \<open>What exactly the answer to one prompt changes in the actor.\<close>

definition is_shell_access :: "access_kind \<Rightarrow> bool" where
  "is_shell_access access \<longleftrightarrow> (\<exists>cmd. access = AccBash cmd)"

text \<open>The server of an MCP tool is the text before the first double underscore of its name.\<close>

definition serves :: "string \<Rightarrow> string \<Rightarrow> bool" where
  "serves server tool \<longleftrightarrow> server \<noteq> [] \<and> (\<exists>rest. split_once_dunder tool = Some (server, rest))"

definition adds_bash :: "access_kind \<Rightarrow> prompt_outcome \<Rightarrow> string set" where
  "adds_bash access out =
     (case access of AccBash cmd \<Rightarrow> (case out of AllowAlways \<Rightarrow> {cmd} | AllowAlwaysBashCommand pre \<Rightarrow> {pre} | _ \<Rightarrow> {}) | _ \<Rightarrow> {})"

definition adds_bash_deny :: "access_kind \<Rightarrow> prompt_outcome \<Rightarrow> string set" where
  "adds_bash_deny access out = (case access of AccBash _ \<Rightarrow> (case out of RejectAlwaysBashCommand pre \<Rightarrow> {pre} | _ \<Rightarrow> {}) | _ \<Rightarrow> {})"

definition adds_domain :: "access_kind \<Rightarrow> prompt_outcome \<Rightarrow> string set" where
  "adds_domain access out = (case access of AccWebFetch _ \<Rightarrow> (case out of AllowAlwaysDomain d \<Rightarrow> {d} | _ \<Rightarrow> {}) | _ \<Rightarrow> {})"

definition adds_mcp_server :: "access_kind \<Rightarrow> prompt_outcome \<Rightarrow> string set" where
  "adds_mcp_server access out =
     (case access of AccMCPTool name _ \<Rightarrow> (case out of AllowAlwaysMcpServer p \<Rightarrow> {s. s = p \<and> serves s name} | _ \<Rightarrow> {}) | _ \<Rightarrow> {})"

definition adds_mcp_tool :: "access_kind \<Rightarrow> prompt_outcome \<Rightarrow> string set" where
  "adds_mcp_tool access out =
     (case access of
        AccMCPTool name _ \<Rightarrow>
          (case out of
             AllowAlways \<Rightarrow> {name} | AllowAlwaysMcpTool _ \<Rightarrow> {name}
           | AllowAlwaysMcpServer p \<Rightarrow> {t. t = name \<and> \<not> serves p name} | _ \<Rightarrow> {})
      | _ \<Rightarrow> {})"

definition answer_recorded :: "access_kind \<Rightarrow> prompt_outcome \<Rightarrow> perm_actor \<Rightarrow> perm_actor \<Rightarrow> bool" where
  "answer_recorded access out a a' \<longleftrightarrow>
     pa_yolo a' = pa_yolo a \<and> pa_auto a' = pa_auto a \<and> pa_classifier a' = pa_classifier a \<and>
     pa_turns a' = pa_turns a \<and> pa_instructions a' = pa_instructions a \<and>
     pa_allow_edits a' = (pa_allow_edits a \<or> out = AllowEditsForSession \<and> \<not> is_shell_access access) \<and>
     ps_edit_policy (pa_state a') = ps_edit_policy (pa_state a) \<and> ps_allow_bash_execute (pa_state a') = ps_allow_bash_execute (pa_state a) \<and>
     set (ps_allowed_bash_commands (pa_state a')) = set (ps_allowed_bash_commands (pa_state a)) \<union> adds_bash access out \<and>
     set (ps_disallowed_bash_commands (pa_state a')) = set (ps_disallowed_bash_commands (pa_state a)) \<union> adds_bash_deny access out \<and>
     set (ps_allowed_web_fetch_domains (pa_state a')) = set (ps_allowed_web_fetch_domains (pa_state a)) \<union> adds_domain access out \<and>
     set (ps_allowed_mcp_tools (pa_state a')) = set (ps_allowed_mcp_tools (pa_state a)) \<union> adds_mcp_tool access out \<and>
     set (ps_allowed_mcp_servers (pa_state a')) = set (ps_allowed_mcp_servers (pa_state a)) \<union> adds_mcp_server access out \<and>
     pa_persisted a' \<in> {pa_persisted a, pa_state a' # pa_persisted a} \<and>
     (pa_state a' \<noteq> pa_state a \<longrightarrow> pa_persisted a' = pa_state a' # pa_persisted a) \<and>
     (\<exists>turns. suffix (pa_recorded a') (pa_recorded a @ turns) \<and> length turns \<le> 1)"

lemmas adds_defs = adds_bash_def adds_bash_deny_def adds_domain_def adds_mcp_server_def adds_mcp_tool_def is_shell_access_def

lemma grant_mcp_server_sets:
  "set (ps_allowed_mcp_tools (grant_mcp_server name p st)) = set (ps_allowed_mcp_tools st) \<union> {t. t = name \<and> \<not> serves p name}"
  "set (ps_allowed_mcp_servers (grant_mcp_server name p st)) = set (ps_allowed_mcp_servers st) \<union> {s. s = p \<and> serves s name}"
  by (auto simp: grant_mcp_server_def serves_def split: option.splits)

lemma grant_mcp_server_frame [simp]:
  "ps_edit_policy (grant_mcp_server name p st) = ps_edit_policy st" "ps_allow_bash_execute (grant_mcp_server name p st) = ps_allow_bash_execute st"
  "ps_allowed_bash_commands (grant_mcp_server name p st) = ps_allowed_bash_commands st"
  "ps_disallowed_bash_commands (grant_mcp_server name p st) = ps_disallowed_bash_commands st"
  "ps_allowed_web_fetch_domains (grant_mcp_server name p st) = ps_allowed_web_fetch_domains st"
  by (auto simp: grant_mcp_server_def split: option.splits)

lemma apply_prompt_recorded: "answer_recorded access out a (snd (snd (apply_prompt access out a)))"
  by (cases access; cases out)
    (simp_all add: answer_recorded_def apply_prompt_def apply_prompt_bash_def apply_prompt_other_def persist_def grant_mcp_tool_def
       grant_mcp_server_sets adds_defs Let_def exI [of _ "[]"])

lemma recorded_turns: "suffix (pa_recorded (record_decision cfg access d s a)) (pa_recorded a @ turns) \<and> length turns \<le> 1"
  if "turns = (case prompted_decision_approved d s of None \<Rightarrow> [] | Some b \<Rightarrow> [PermissionDecision (tool_name_for_access access) (permission_decision_args cfg access) b])"
  using that by (auto simp: record_decision_def Let_def suffix_drop split: option.splits)

lemma record_keeps_answer:
  assumes "answer_recorded access out a b" "pa_recorded b = pa_recorded a"
  shows "answer_recorded access out a (record_decision cfg access d s b)"
proof -
  have "pa_classifier (record_decision cfg access d s b) = pa_classifier b" "pa_turns (record_decision cfg access d s b) = pa_turns b"
    "pa_instructions (record_decision cfg access d s b) = pa_instructions b"
    by (auto simp: record_decision_def Let_def split: option.split)
  moreover have "\<exists>turns. suffix (pa_recorded (record_decision cfg access d s b)) (pa_recorded a @ turns) \<and> length turns \<le> 1"
    using recorded_turns [OF refl, of cfg access d s b] unfolding assms(2) by (rule exI)
  ultimately show ?thesis using assms(1) unfolding answer_recorded_def record_decision_simps by simp
qed

lemma ask_user_record:
  "ask_user cfg v auto access an a = (r, ev, a') \<Longrightarrow> ev_user_prompted ev \<Longrightarrow>
     \<exists>d s. a' = record_decision cfg access d s (snd (snd (apply_prompt access (an_prompt an) a)))"
  by (auto simp: ask_user_def Let_def case_prod_beta mk_event_def split: if_splits)

lemma decide_record:
  "decide e cfg v auto access an a = (r, ev, a') \<Longrightarrow> ev_user_prompted ev \<Longrightarrow>
     \<exists>d s. a' = record_decision cfg access d s (snd (snd (apply_prompt access (an_prompt an) a)))"
  by (auto simp: decide_def Let_def mk_event_def dest: ask_user_record split: if_splits option.splits)

lemma request_record:
  "handle_request e cfg rq an a = (r, ev, a') \<Longrightarrow> ev_user_prompted ev \<Longrightarrow>
     \<exists>d s. a' = record_decision cfg (rq_access rq) d s (snd (snd (apply_prompt (rq_access rq) (an_prompt an) a)))"
  by (auto simp: handle_request_def Let_def mk_event_def dest: decide_record split: if_splits option.splits decision.splits auto_result.splits)
lemma prompted_recorded:
  assumes "handle_request e cfg rq an a = (reply, ev, a')" "ev_user_prompted ev"
  shows "answer_recorded (rq_access rq) (an_prompt an) a a'"
  using request_record [OF assms] record_keeps_answer [OF apply_prompt_recorded apply_prompt_simps(3)] by blast

section \<open>The record of a request\<close>

lemma mode_decide [simp]: "ev_permission_mode (fst (snd (decide e cfg v auto access an a))) = effective_mode a"
  by (auto simp: decide_def ask_user_def mk_event_def Let_def case_prod_beta split: option.split)

lemma event_mode: "ev_permission_mode (fst (snd (handle_request e cfg rq an a))) = effective_mode a"
  by (simp add: handle_request_def mk_event_def Let_def split: option.split decision.split auto_result.split)

text \<open>An approval is either the user's or counted as automatic.\<close>

definition accounts_for :: "decision option \<times> permission_event \<times> perm_actor \<Rightarrow> bool" where
  "accounts_for out \<longleftrightarrow>
     (fst out = Some Allow \<longrightarrow>
        ev_decision (fst (snd out)) = ''allow'' \<and> ev_auto_approved (fst (snd out)) = (\<not> ev_user_prompted (fst (snd out))))"

lemma accounts_mk_event [simp]:
  "accounts_for (Some d, mk_event a access d auto prompted out r, a') \<longleftrightarrow> (d = Allow \<longrightarrow> auto = (\<not> prompted))"
  "accounts_for (None, x)"
  by (auto simp: accounts_for_def mk_event_def)

lemma accounts_decide [simp]: "accounts_for (decide e cfg v auto access an a)"
proof -
  have "accounts_for (ask_user cfg v auto access an a)" by (simp add: ask_user_def Let_def case_prod_beta)
  then show ?thesis by (cases "pv_decision v") (auto simp: decide_def Let_def split: option.split)
qed

lemma accounts_request [simp]: "accounts_for (handle_request e cfg rq an a)"
  by (simp add: handle_request_def Let_def split: option.split decision.split auto_result.split)

section \<open>The actor as a state machine\<close>

definition perm_start :: "perm_cfg \<Rightarrow> perm_system \<Rightarrow> bool" where
  "perm_start cfg s \<longleftrightarrow> (\<exists>loaded requested. s = actor_start cfg loaded requested)"

text \<open>The commands that write a mode flag, of the actor and of the handles alike.\<close>

fun writes_yolo :: "perm_command \<Rightarrow> bool" where
  "writes_yolo (SetYoloMode _) = True"
| "writes_yolo (SetAutoMode b) = b"
| "writes_yolo _ = False"

fun writes_auto :: "perm_cfg \<Rightarrow> perm_command \<Rightarrow> bool" where
  "writes_auto cfg (SetAutoMode _) = True"
| "writes_auto cfg (SetYoloMode b) = clamp_yolo b (pm_yolo_pin cfg)"
| "writes_auto cfg _ = False"

definition flags_agree :: "perm_cfg \<Rightarrow> perm_system \<Rightarrow> bool" where
  "flags_agree cfg s \<longleftrightarrow>
     (sy_yolo_state s = pa_yolo (sy_actor s) \<or> list_ex writes_yolo (sy_queue s))
     \<and> (sy_auto_state s = pa_auto (sy_actor s) \<or> list_ex (writes_auto cfg) (sy_queue s))"

definition modes_exclusive :: "perm_system \<Rightarrow> bool" where
  "modes_exclusive s \<longleftrightarrow> \<not> (pa_yolo (sy_actor s) \<and> pa_auto (sy_actor s)) \<and> \<not> (sy_yolo_state s \<and> sy_auto_state s)"

definition pin_holds :: "perm_cfg \<Rightarrow> perm_system \<Rightarrow> bool" where
  "pin_holds cfg s \<longleftrightarrow>
     pm_yolo_pin cfg = None
     \<or> \<not> pa_yolo (sy_actor s) \<and> \<not> sy_yolo_state s \<and> list_all (\<lambda>ev. ev_permission_mode ev \<noteq> AlwaysApprove) (sy_events s)"

definition memory_bounded :: "perm_system \<Rightarrow> bool" where
  "memory_bounded s \<longleftrightarrow> length (pa_recorded (sy_actor s)) \<le> 12 \<and> ps_edit_policy (pa_state (sy_actor s)) \<noteq> EditAllow"

definition perm_inv :: "perm_cfg \<Rightarrow> perm_system \<Rightarrow> bool" where
  "perm_inv cfg s \<longleftrightarrow> flags_agree cfg s \<and> modes_exclusive s \<and> pin_holds cfg s \<and> memory_bounded s"

lemmas perm_inv_defs = flags_agree_def modes_exclusive_def pin_holds_def memory_bounded_def

inductive_cases perm_stepE: "perm_step cfg s s'"

lemma request_memory:
  assumes "handle_request e cfg rq an a = (reply, ev, a')" "length (pa_recorded a) \<le> 12"
  shows "pa_yolo a' = pa_yolo a" "pa_auto a' = pa_auto a" "length (pa_recorded a') \<le> 12"
    and "ps_edit_policy (pa_state a') = ps_edit_policy (pa_state a)"
proof -
  have "ps_edit_policy (pa_state (snd (snd (apply_prompt (rq_access rq) (an_prompt an) a)))) = ps_edit_policy (pa_state a)"
    using apply_prompt_recorded [of "rq_access rq" "an_prompt an" a] unfolding answer_recorded_def by blast
  then show "pa_yolo a' = pa_yolo a" "pa_auto a' = pa_auto a" "length (pa_recorded a') \<le> 12"
    "ps_edit_policy (pa_state a') = ps_edit_policy (pa_state a)"
    using assms by (auto elim!: handle_request_actor intro: record_decision_bounded)
qed

lemma process_request_keeps:
  assumes "perm_inv cfg s" "sy_queue s = Request rq # cs"
  shows "perm_inv cfg (process_command cfg e an (Request rq) (s\<lparr>sy_queue := cs\<rparr>))"
proof -
  obtain reply ev a' where h: "handle_request e cfg rq an (sy_actor s) = (reply, ev, a')" by (metis prod_cases3)
  have "length (pa_recorded (sy_actor s)) \<le> 12" using assms(1) by (simp add: perm_inv_def memory_bounded_def)
  from request_memory [OF h this] event_mode [of e cfg rq an "sy_actor s"] assms show ?thesis
    by (auto simp: process_command_def h perm_inv_def perm_inv_defs effective_mode_def)
qed

lemma process_keeps:
  assumes "perm_inv cfg s" "sy_queue s = c # cs"
  shows "perm_inv cfg (process_command cfg e an c (s\<lparr>sy_queue := cs\<rparr>))"
proof (cases c)
  case (Request rq)
  with assms process_request_keeps show ?thesis by blast
qed (use assms in \<open>auto simp: process_command_def perm_inv_def perm_inv_defs clamp_yolo_def persist_def permission_state_default_def Let_def\<close>)

interpretation permissions: invariant_system "perm_start cfg" "perm_step cfg" "perm_inv cfg" for cfg
proof
  show "perm_inv cfg s" if "perm_start cfg s" for s
    using that by (auto simp: perm_start_def actor_start_def perm_inv_def perm_inv_defs clamp_yolo_def Let_def split: if_splits)
  show "perm_inv cfg s'" if "perm_inv cfg s" "perm_step cfg s s'" for s s'
    using that(2,1)
  proof cases
    case (step_process c cs e an)
    with that(1) process_keeps show ?thesis by blast
  qed (auto simp: perm_inv_def perm_inv_defs set_yolo_mode_def set_auto_mode_def send_def clamp_yolo_def Let_def)
qed

end
