(* ===== verification/Perm_Escape.thy ===== *)
theory Perm_Escape
  imports Perm_Rules
begin

text \<open>
  Writing permission rules.  \<open>rule_text\<close> writes a rule as \<open>Tool(pattern)\<close> with parentheses and
  backslashes escaped; the lemmas lead to the round trip: \<open>parse_permission_rule\<close> reads the
  tool and the pattern back.  The decoder replaces one kind of escape after the other, so the
  proof follows the texts in between, in which fewer and fewer characters are escaped.
\<close>

section \<open>Text without blanks at its ends\<close>

definition graphic :: "char \<Rightarrow> bool" where
  "graphic c \<longleftrightarrow> byte_in 0x21 0x7E c"

lemma graphic_not_ws: "graphic c \<Longrightarrow> \<not> ascii_ws c"
  "graphic c \<Longrightarrow> \<not> utf8_ws2 c x" "graphic c \<Longrightarrow> \<not> utf8_ws2 x c"
  "graphic c \<Longrightarrow> \<not> utf8_ws3 c x y" "graphic c \<Longrightarrow> \<not> utf8_ws3 x y c"
  by (auto simp: graphic_def byte_in_def ascii_ws_def utf8_ws2_def utf8_ws3_def)

lemma graphic_no_blank: "graphic c \<Longrightarrow> ws_prefix (c # s) = 0" "graphic c \<Longrightarrow> ws_suffix_rev (c # s) = 0"
  by (cases "c # s" rule: ws_prefix.cases; simp add: graphic_not_ws)
     (cases "c # s" rule: ws_suffix_rev.cases; simp add: graphic_not_ws)

lemma trim_graphic:
  assumes "s \<noteq> []" "graphic (hd s)" "graphic (last s)"
  shows "trim s = s"
proof -
  obtain c cs where c: "s = c # cs" using assms(1) by (cases s) auto
  obtain d ds where d: "rev s = d # ds" using assms(1) by (cases "rev s") auto
  have "graphic c" "graphic d" using assms c d by (auto simp: hd_rev [symmetric])
  then have "strip_by ws_prefix s = s" "strip_by ws_suffix_rev (rev s) = rev s"
    using c d by (simp_all add: strip_by.simps [of _ "_ # _"] graphic_no_blank)
  then show ?thesis by (simp add: trim_def trim_start_def trim_end_def)
qed

section \<open>Escapes\<close>

definition escape_in :: "char set \<Rightarrow> string \<Rightarrow> string" where
  "escape_in S p = concat (map (\<lambda>c. if c \<in> S then [bslash, c] else [c]) p)"

definition escape_rule_content :: "string \<Rightarrow> string" where
  "escape_rule_content p = escape_in {CHR ''('', CHR '')'', bslash} p"

lemma escape_in_simps [simp]:
  "escape_in S [] = []"
  "escape_in S (c # p) = (if c \<in> S then bslash # c # escape_in S p else c # escape_in S p)"
  "escape_in S (p @ q) = escape_in S p @ escape_in S q"
  by (simp_all add: escape_in_def)

lemma escape_in_empty [simp]: "escape_in {} p = p"
  by (induction p) auto

lemma escape_in_hd: "bslash \<in> S \<Longrightarrow> x \<in> S \<Longrightarrow> x \<noteq> bslash \<Longrightarrow> escape_in S p \<noteq> x # rest"
  by (cases p) auto

lemma unescape_one:
  assumes "bslash \<in> S" "x \<in> S" "x \<noteq> bslash"
  shows "replace_str [bslash, x] [x] (escape_in S p) = escape_in (S - {x}) p"
proof (induction p)
  case (Cons c p)
  have "\<not> prefix [bslash, x] (bslash # escape_in S p)"
    using escape_in_hd [OF assms] by (auto simp: prefix_def)
  with Cons assms show ?case by auto
qed simp

lemma unescape_backslash: "replace_str [bslash, bslash] [bslash] (escape_in {bslash} p) = p"
  by (induction p) auto

lemma escape_unused: "bslash \<in> S \<Longrightarrow> bslash \<notin> set (escape_in S p) \<Longrightarrow> escape_in S p = p"
  by (induction p) (auto split: if_splits)

lemma unescape_escape: "unescape_rule_content (escape_rule_content p) = p"
proof -
  have parens: "CHR ''('' \<noteq> bslash" "CHR '')'' \<noteq> bslash" by (simp_all add: bslash_def)
  have sets: "{CHR ''('', CHR '')'', bslash} - {CHR ''(''} = {CHR '')'', bslash}" "{CHR '')'', bslash} - {CHR '')''} = {bslash}"
    using parens by auto
  show ?thesis
    unfolding unescape_rule_content_def escape_rule_content_def
    using escape_unused [of "{CHR ''('', CHR '')'', bslash}" p] parens
    by (simp add: unescape_one sets unescape_backslash del: insert_Diff_single)
qed

text \<open>The backslashes before the end of an escaped text come in pairs.\<close>

lemma escape_even: "bslash \<in> S \<Longrightarrow> even (length (takeWhile (\<lambda>c. c = bslash) (rev (escape_in S p))))"
  by (induction p rule: rev_induct) auto

lemma escape_ends:
  "p \<noteq> [] \<Longrightarrow> last (escape_in S p) = last p"
  "p \<noteq> [] \<Longrightarrow> hd (escape_in S p) \<in> {bslash, hd p}"
  "escape_in S p = [] \<longleftrightarrow> p = []"
  by (induction p) auto

section \<open>Positions\<close>

lemma find_first_at:
  "k < n \<Longrightarrow> P k \<Longrightarrow> (\<And>i. i < k \<Longrightarrow> \<not> P i) \<Longrightarrow> find P [0..<n] = Some k"
  by (simp add: find_Some_iff) (metis nth_upt add_0 less_trans)

lemma find_last_at: "P n \<Longrightarrow> find P (rev [0..<Suc n]) = Some n"
  by simp

section \<open>Rules as text\<close>

fun tool_name :: "tool_filter \<Rightarrow> string" where
  "tool_name ForBash = ''Bash''"
| "tool_name ForRead = ''Read''"
| "tool_name ForEdit = ''Edit''"
| "tool_name ForMcp = ''MCPTool''"
| "tool_name ForGrep = ''Grep''"
| "tool_name ForWebFetch = ''WebFetch''"
| "tool_name ForWebSearch = ''WebSearch''"
| "tool_name ForAny = []"

definition rule_text :: "tool_filter \<Rightarrow> string \<Rightarrow> string" where
  "rule_text tool p = tool_name tool @ ''('' @ escape_rule_content p @ '')''"

text \<open>The patterns the rule language can hold for a tool.\<close>

definition writable :: "tool_filter \<Rightarrow> string \<Rightarrow> bool" where
  "writable tool p \<longleftrightarrow>
     tool \<noteq> ForAny \<and> p \<noteq> [] \<and> p \<noteq> ''*'' \<and> graphic (hd p) \<and> graphic (last p) \<and> \<not> prefix ''domain:'' p
     \<and> (tool = ForBash \<longrightarrow> \<not> suffix '':*'' p)"

lemma tool_name_facts:
  "tool \<noteq> ForAny \<Longrightarrow> tool_name_to_filter (tool_name tool) = Some tool"
  "tool \<noteq> ForAny \<Longrightarrow> tool_name tool \<noteq> [] \<and> graphic (hd (tool_name tool)) \<and> graphic (last (tool_name tool))"
  "CHR ''('' \<notin> set (tool_name tool) \<and> bslash \<notin> set (tool_name tool)"
  by (cases tool; simp add: tool_name_to_filter_def graphic_def byte_in_def bslash_def)+

lemma first_paren:
  "find_first_unescaped (tool_name tool @ CHR ''('' # rest) (CHR ''('') = Some (length (tool_name tool))"
  unfolding find_first_unescaped_def
proof (rule find_first_at)
  have "takeWhile (\<lambda>c. c = bslash) (rev (tool_name tool)) = []"
    using tool_name_facts(3) [of tool] by (auto simp: takeWhile_eq_Nil_iff) (metis last_in_set hd_rev rev_is_Nil_conv)
  then show "(tool_name tool @ CHR ''('' # rest) ! length (tool_name tool) = CHR ''('' \<and>
      is_unescaped (tool_name tool @ CHR ''('' # rest) (length (tool_name tool))"
    by (simp add: is_unescaped_def)
  show "\<not> ((tool_name tool @ CHR ''('' # rest) ! i = CHR ''('' \<and> is_unescaped (tool_name tool @ CHR ''('' # rest) i)"
    if "i < length (tool_name tool)" for i
    using that tool_name_facts(3) [of tool] by (auto simp: nth_append in_set_conv_nth)
qed simp

lemma last_paren: "find_last_unescaped (escape_rule_content p @ '')'') (CHR '')'') = Some (length (escape_rule_content p))"
  unfolding find_last_unescaped_def
  using escape_even [of "{CHR ''('', CHR '')'', bslash}" p]
  by (simp add: is_unescaped_def escape_rule_content_def nth_append)

lemma parse_rule_text:
  assumes "writable tool p"
  shows "parse_permission_rule (rule_text tool p) action =
    Inr \<lparr>pr_action = action, pr_tool = tool, pr_pattern = Some p, pr_pattern_mode = GlobMode\<rparr>"
proof -
  have b: "graphic bslash" "graphic (CHR '')'')" by (simp_all add: graphic_def byte_in_def bslash_def)
  have w: "tool \<noteq> ForAny" "p \<noteq> []" "p \<noteq> ''*''" "graphic (hd p)" "graphic (last p)" using assms by (simp_all add: writable_def)
  have t1: "trim (rule_text tool p) = rule_text tool p"
    by (rule trim_graphic) (use tool_name_facts(2) [OF w(1)] b in \<open>auto simp: rule_text_def hd_append\<close>)
  have t2: "trim (tool_name tool) = tool_name tool"
    by (rule trim_graphic) (use tool_name_facts(2) [OF w(1)] in auto)
  have t3: "trim (escape_rule_content p) = escape_rule_content p"
    by (rule trim_graphic) (use escape_ends(1,2) [of p "{CHR ''('', CHR '')'', bslash}"] w b in \<open>auto simp: escape_rule_content_def escape_ends(3)\<close>)
  have ne: "escape_rule_content p \<noteq> []" "escape_rule_content p \<noteq> ''*''"
    using w(2,3) unescape_escape [of p] by (auto simp: escape_rule_content_def escape_ends unescape_rule_content_def bslash_def)
  show ?thesis
    using assms tool_name_facts(1) [OF w(1)] first_paren [of tool "escape_rule_content p @ '')''"] last_paren [of p]
    unfolding parse_permission_rule_def t1
    by (simp add: rule_text_def Let_def t2 t3 ne unescape_escape strip_domain_prefix_def strip_prefix_str_def
        strip_bash_colon_wildcard_def non_empty_def writable_def)
qed

end
