(* ===== verification/Perm_Heuristic.thy ===== *)
theory Perm_Heuristic
  imports Perm_Manager
begin

text \<open>
  The classifier of auto mode (\<open>permission/auto_mode.rs\<close>): the rule-based pre-pass that allows
  only scripts it can prove routine, the messages for the model and the reading of its reply, and
  their composition.  The model is a parameter (\<open>None\<close> when it is not wired or failed), as is the
  JSON parser.  The lemmas show that the pre-pass fails closed: what it allows parses into plain
  commands, writes to no file and changes no environment, and every program it runs, through
  wrappers and launchers, is on one of its lists.
\<close>

section \<open>Lists\<close>

definition ROUTINE_PREFIXES :: "string list" where
  "ROUTINE_PREFIXES =
     [''cargo '', ''git status'', ''git diff'', ''git log'', ''git branch'', ''git add'', ''git commit'',
      ''git pull'', ''git fetch'', ''git show'', ''git blame'', ''git grep'', ''git ls-files'', ''git rev-parse'',
      ''git describe'', ''git merge-base'', ''git worktree list'', ''pytest'', ''python '', ''python3 '', ''node '',
      ''rustc '', ''rustfmt'', ''clippy'', ''make '', ''cmake '', ''cd'', ''pushd'', ''popd'', ''ls'', ''pwd'',
      ''echo '', ''printf '', ''cat '', ''head '', ''tail '', ''wc '', ''rg '', ''grep '', ''which '', ''type '',
      ''true'', ''false'', ''test '', ''sort '', ''uniq '', ''tr '', ''cut '', ''diff '', ''jq '', ''date'',
      ''whoami'', ''hostname'', ''uname'', ''nproc'', ''printenv'', ''stat '', ''file '', ''tree'', ''basename '',
      ''dirname '', ''realpath '', ''readlink '', ''strings '', ''sleep '', ''df '', ''du '', ''ps '', ''top'',
      ''htop'', ''bazel '', ''just '', ''go '', ''kubectl get'', ''kubectl logs'', ''kubectl describe'', ''set'']"

definition SAFE_ENV_KEYS :: "string list" where
  "SAFE_ENV_KEYS =
     [''CARGO_TERM_COLOR'', ''CARGO_TERM_PROGRESS_WHEN'', ''RUST_LOG'', ''RUST_LOG_STYLE'', ''RUST_BACKTRACE'',
      ''RUST_TEST_THREADS'', ''RUST_MIN_STACK'', ''NO_COLOR'', ''CLICOLOR'', ''CLICOLOR_FORCE'', ''FORCE_COLOR'',
      ''COLORTERM'']"

definition BRANCH_SWITCH_BENIGN_FLAGS :: "string list" where
  "BRANCH_SWITCH_BENIGN_FLAGS =
     [''-q'', ''--quiet'', ''-d'', ''--detach'', ''-t'', ''--track'', ''--no-track'', ''--guess'', ''--no-guess'',
      ''--progress'', ''--no-progress'', ''--recurse-submodules'', ''--no-recurse-submodules'']"

definition NPM_SAFE_SUBCOMMANDS :: "string list" where
  "NPM_SAFE_SUBCOMMANDS =
     [''install'', ''i'', ''ci'', ''add'', ''remove'', ''rm'', ''uninstall'', ''update'', ''up'', ''upgrade'',
      ''test'', ''t'', ''run'', ''run-script'', ''start'', ''build'', ''audit'', ''list'', ''ls'', ''ll'',
      ''outdated'', ''why'', ''view'', ''info'', ''dedupe'', ''prune'', ''version'', ''pack'', ''config'', ''link'',
      ''unlink'', ''rebuild'', ''store'', ''fetch'', ''import'']"

definition UV_SAFE_SUBCOMMANDS :: "string list" where
  "UV_SAFE_SUBCOMMANDS =
     [''sync'', ''pip'', ''lock'', ''venv'', ''add'', ''remove'', ''tree'', ''export'', ''build'', ''version'',
      ''python'', ''cache'', ''init'', ''self'', ''help'']"

definition RUSTUP_SAFE_SUBCOMMANDS :: "string list" where
  "RUSTUP_SAFE_SUBCOMMANDS =
     [''show'', ''toolchain'', ''component'', ''target'', ''default'', ''update'', ''which'', ''doc'', ''self'',
      ''completions'', ''set'', ''override'']"

definition dangerous_patterns :: "string list" where
  "dangerous_patterns =
     [''rm -rf /'', ''rm -rf /*'', ''mkfs'', ''dd if='', '':(){ :|:& };:'', ''curl | sh'', ''curl|sh'',
      ''curl | bash'', ''curl|bash'', ''wget | sh'', ''wget|sh'', ''wget | bash'', ''wget|bash'', ''chmod 777'',
      ''chmod -r 777'', ''chmod +x /tmp'', ''base64 -d'', ''base64 --decode'', ''nc -e'', ''ncat -e'', ''/dev/tcp/'',
      ''shutdown'', ''reboot'', ''useradd'', ''userdel'', ''passwd '', ''chown -r /'', ''iptables -f'',
      ''kill -9 1'', ''sudo rm'', ''sudo dd'', ''sudo mkfs'', ''exfiltrat'', ''steal credential'', ''send secrets'']"

definition hostile_intent :: "string list" where
  "hostile_intent =
     [''delete all files'', ''wipe the disk'', ''exfiltrate'', ''steal secrets'', ''send my credentials'',
      ''ignore safety'', ''bypass permission'']"

section \<open>Environment assignments\<close>

definition is_safe_env_key :: "string \<Rightarrow> bool" where
  "is_safe_env_key key \<longleftrightarrow> key \<in> set SAFE_ENV_KEYS"

fun env_args_unsafe :: "string list \<Rightarrow> bool" where
  "env_args_unsafe [] = False"
| "env_args_unsafe (arg # args) =
     (if arg = ''--'' then False
      else if prefix ''-'' arg then True
      else case split_once (CHR ''='') arg of
        Some (key, _) \<Rightarrow> \<not> is_safe_env_key key \<or> env_args_unsafe args
      | None \<Rightarrow> False)"

text \<open>Eight wrappers deep, as the loop of \<open>command_env_is_unsafe\<close>.\<close>

fun env_unsafe_times :: "nat \<Rightarrow> string list \<Rightarrow> bool" where
  "env_unsafe_times 0 ws = False"
| "env_unsafe_times (Suc n) ws =
     (ws \<noteq> [] \<and> base_name (hd ws) = ''env'' \<and> env_args_unsafe (tl ws)
      \<or> (case strip_wrapper_command ws of Some inner \<Rightarrow> env_unsafe_times n inner | None \<Rightarrow> False))"

definition command_env_is_unsafe :: "string list \<Rightarrow> bool" where
  "command_env_is_unsafe ws = env_unsafe_times 8 ws"

definition assignment_key :: "string \<Rightarrow> ts_node \<Rightarrow> string" where
  "assignment_key src n =
     (case find (\<lambda>c. ts_kind c = ''variable_name'') (ts_children n) of
        Some c \<Rightarrow> node_text src c
      | None \<Rightarrow> takeWhile (\<lambda>c. c \<noteq> CHR ''='') (node_text src n))"

definition sets_unsafe_env :: "ts_node \<Rightarrow> string \<Rightarrow> plain_command list \<Rightarrow> bool" where
  "sets_unsafe_env root src cmds \<longleftrightarrow>
     list_ex (\<lambda>n. ts_kind n = ''variable_assignment'' \<and> \<not> is_safe_env_key (assignment_key src n)) (ts_walk root)
     \<or> list_ex (\<lambda>c. command_env_is_unsafe (pl_words c)) cmds"

section \<open>Single commands\<close>

definition is_lone_wrapper :: "string list \<Rightarrow> bool" where
  "is_lone_wrapper ws \<longleftrightarrow> length ws = 1 \<and> is_wrapper_command ws"

definition is_safe_write_sink :: "string \<Rightarrow> bool" where
  "is_safe_write_sink p \<longleftrightarrow> p \<in> {''/dev/null'', ''/dev/stdout'', ''/dev/stderr''}"

definition find_is_read_only :: "string list \<Rightarrow> bool" where
  "find_is_read_only ws \<longleftrightarrow>
     \<not> list_ex (\<lambda>w. w \<in> {''-delete'', ''-exec'', ''-execdir'', ''-ok'', ''-okdir'', ''-fprint'', ''-fprint0'', ''-fprintf'', ''-fls''}) ws"

definition launched_writes_nonsink :: "string list \<Rightarrow> bool" where
  "launched_writes_nonsink ws = list_ex (\<lambda>p. \<not> is_safe_write_sink p) (command_words_write_paths ws)"

text \<open>\<open>rsplit_once('.')\<close>.\<close>

definition rsplit_dot :: "string \<Rightarrow> (string \<times> string) option" where
  "rsplit_dot s = map_option (\<lambda>(a, b). (rev b, rev a)) (split_once (CHR ''.'') (rev s))"

definition after_last_slash :: "string \<Rightarrow> string" where
  "after_last_slash s = rev (takeWhile (\<lambda>c. c \<noteq> CHR ''/'') (rev s))"

definition operand_reads_as_path :: "string \<Rightarrow> bool" where
  "operand_reads_as_path op =
     (if list_ex (\<lambda>c. prefix ''.'' c \<or> suffix ''.lock'' c) (split_slash [] op) \<or> suffix ''/'' op \<or> suffix ''.'' op
         \<or> contains_str ''..'' op \<or> contains_str [CHR ''@'', CHR ''{''] op \<or> list_ex (\<lambda>c. c \<in> set ''~^:'' \<or> c = bslash) op \<or> 1 < length (split_ws op)
      then True
      else if prefix ''/'' op \<or> list_ex (\<lambda>c. c \<in> set ''*?['') op then True
      else case rsplit_dot op of
        None \<Rightarrow> False
      | Some (stem, ext) \<Rightarrow>
          let leaf = after_last_slash stem
          in if ext = ''x'' \<and> list_ex ascii_digit leaf \<and> list_all (\<lambda>b. ascii_digit b \<or> b = CHR ''.'') leaf then False
             else 1 \<le> length ext \<and> length ext \<le> 5 \<and> list_all ascii_alphanumeric ext
               \<and> list_ex (\<lambda>c. ascii_alphanumeric c \<and> \<not> ascii_digit c) ext)"

text \<open>The operands seen so far and the branch mode; \<open>None\<close> is the early \<open>false\<close>.\<close>

fun branch_scan :: "string list \<Rightarrow> bool \<Rightarrow> string list \<Rightarrow> (string list \<times> bool) option" where
  "branch_scan ops mode [] = Some (ops, mode)"
| "branch_scan ops mode (w # ws) =
     (if w \<in> {''-b'', ''-B'', ''-c'', ''-C'', ''--orphan''} then branch_scan ops True (drop 1 ws)
      else if w \<in> {''-d'', ''--detach'', ''-t'', ''--track''} then branch_scan ops True ws
      else if w = ''-'' then branch_scan (ops @ [w]) mode ws
      else if w \<in> set BRANCH_SWITCH_BENIGN_FLAGS then branch_scan ops mode ws
      else if prefix ''-'' w then None
      else branch_scan (ops @ [w]) mode ws)"

definition is_routine_branch_switch :: "string list \<Rightarrow> bool \<Rightarrow> bool" where
  "is_routine_branch_switch args branch_only =
     (case branch_scan [] branch_only args of
        None \<Rightarrow> False
      | Some (operands, branch_mode) \<Rightarrow>
          \<not> (1 < length operands \<or> list_ex (\<lambda>op. op \<noteq> ''-'' \<and> operand_reads_as_path op) operands)
          \<and> (operands = [] \<or> branch_mode))"

fun is_routine_stash :: "string list \<Rightarrow> bool" where
  "is_routine_stash [] = True"
| "is_routine_stash (w # ws) =
     (if w = ''-m'' \<or> w = ''--message'' then is_routine_stash (drop 1 ws)
      else if w = ''-q'' \<or> w = ''--quiet'' then is_routine_stash ws
      else if prefix ''-'' w then False
      else w \<in> {''push'', ''save'', ''pop'', ''apply'', ''list'', ''show'', ''branch''})"

definition nonflag_tokens :: "string list \<Rightarrow> nat \<Rightarrow> string list" where
  "nonflag_tokens inner n = take n (filter (\<lambda>w. \<not> prefix ''-'' w) (tl inner))"

definition gh_subcommand_is_read_only :: "string list \<Rightarrow> bool" where
  "gh_subcommand_is_read_only inner =
     (case nonflag_tokens inner 2 of
        [grp, sub] \<Rightarrow>
          grp \<in> {''pr'', ''issue'', ''release'', ''run'', ''workflow'', ''repo'', ''gist''}
            \<and> sub \<in> {''view'', ''list'', ''status'', ''checks'', ''diff''}
          \<or> grp = ''auth'' \<and> sub = ''status''
      | [t] \<Rightarrow> t = ''status''
      | _ \<Rightarrow> False)"

section \<open>Package managers\<close>

definition node_manager :: "string \<Rightarrow> bool" where
  "node_manager head \<longleftrightarrow> head \<in> {''npm'', ''pnpm'', ''yarn''}"

definition get_word :: "string list \<Rightarrow> nat \<Rightarrow> string option" where
  "get_word ws i = (if i < length ws then Some (ws ! i) else None)"

definition launcher_subcommand :: "string \<Rightarrow> string list \<Rightarrow> string option" where
  "launcher_subcommand head inner =
     map_option (\<lambda>sub. if node_manager head \<and> sub = ''x'' then ''exec'' else if node_manager head \<and> sub = ''innit'' then ''init'' else sub)
       (get_word inner 1)"

definition is_remote_launcher :: "string \<Rightarrow> string list \<Rightarrow> bool" where
  "is_remote_launcher head inner =
     (if head = ''npx'' \<or> head = ''uvx'' then True
      else if head = ''uv'' \<and> get_word inner 1 = Some ''tool'' \<and> get_word inner 2 = Some ''run'' then True
      else case launcher_subcommand head inner of
        None \<Rightarrow> False
      | Some sub \<Rightarrow>
          node_manager head
          \<and> (sub \<in> {''dlx'', ''create'', ''explore''}
             \<or> sub = ''init'' \<and> (case get_word inner 2 of Some a \<Rightarrow> \<not> prefix ''-'' a | None \<Rightarrow> False)))"

datatype launch_target = NotLauncher | LaunchInner "string list" | Unresolved

definition launch_from :: "string list \<Rightarrow> nat \<Rightarrow> launch_target" where
  "launch_from inner start =
     (case get_word inner start of
        Some tok \<Rightarrow> if \<not> prefix ''-'' tok then LaunchInner (drop start inner) else Unresolved
      | None \<Rightarrow> Unresolved)"

definition explicit_launch_target :: "string \<Rightarrow> string list \<Rightarrow> launch_target" where
  "explicit_launch_target head inner =
     (case launcher_subcommand head inner of
        None \<Rightarrow> NotLauncher
      | Some sub \<Rightarrow>
          if head = ''uv'' \<and> sub = ''run'' then launch_from inner 2
          else if head = ''rustup'' \<and> sub = ''run''
          then (case get_word inner 2 of
                  Some toolchain \<Rightarrow> if \<not> prefix ''-'' toolchain then launch_from inner 3 else Unresolved
                | None \<Rightarrow> Unresolved)
          else if node_manager head \<and> sub = ''exec''
          then launch_from inner (if get_word inner 2 = Some ''--'' then 3 else 2)
          else NotLauncher)"

lemma launch_from_shorter: "launch_from inner n = LaunchInner ws \<Longrightarrow> 0 < n \<Longrightarrow> ws = drop n inner \<and> length ws < length inner"
  by (auto simp: launch_from_def get_word_def split: option.splits if_splits)

lemma launched_shorter: "explicit_launch_target head inner = LaunchInner ws \<Longrightarrow> length ws < length inner"
  by (auto simp: explicit_launch_target_def dest: launch_from_shorter split: option.splits if_splits)

section \<open>Routine commands\<close>

definition git_grep_runs_pager :: "string \<Rightarrow> string list \<Rightarrow> bool" where
  "git_grep_runs_pager head inner \<longleftrightarrow>
     head = ''git'' \<and> (case get_word inner 1 of Some s \<Rightarrow> eq_ignore_ascii_case s ''grep'' | None \<Rightarrow> False)
     \<and> list_ex (\<lambda>w. let flag = takeWhile (\<lambda>c. c \<noteq> CHR ''='') w
          in prefix ''-O'' w \<or> prefix ''--o'' flag \<and> prefix flag ''--open-files-in-pager'') inner"

definition tree_writes :: "string \<Rightarrow> string list \<Rightarrow> bool" where
  "tree_writes head inner \<longleftrightarrow>
     head = ''tree''
     \<and> list_ex (\<lambda>w. prefix ''-'' w \<and> \<not> prefix ''--'' w \<and> CHR ''o'' \<in> set w \<or> prefix ''--output'' w) inner"

definition listed_routine :: "string \<Rightarrow> string list \<Rightarrow> bool list \<Rightarrow> bool" where
  "listed_routine head inner expandable =
     (if head = ''find'' then find_is_read_only inner
      else if git_grep_runs_pager head inner then False
      else if tree_writes head inner then False
      else if head = ''gh'' then gh_subcommand_is_read_only inner
      else if head = ''rg'' \<and> rg_has_unsafe_flag inner expandable then False
      else if head = ''git'' \<and> get_word inner 1 = Some ''checkout'' then is_routine_branch_switch (drop 2 inner) False
      else if head = ''git'' \<and> get_word inner 1 = Some ''switch'' then is_routine_branch_switch (drop 2 inner) True
      else if head = ''git'' \<and> get_word inner 1 = Some ''stash'' then is_routine_stash (drop 2 inner)
      else list_ex (\<lambda>p. matches_prefix_words inner p True) ROUTINE_PREFIXES)"

definition safe_subcommand :: "string \<Rightarrow> string option \<Rightarrow> bool" where
  "safe_subcommand prog sub =
     (case sub of
        None \<Rightarrow> False
      | Some s \<Rightarrow>
          if node_manager prog then s \<in> set NPM_SAFE_SUBCOMMANDS
          else if prog = ''uv'' then s \<in> set UV_SAFE_SUBCOMMANDS
          else if prog = ''rustup'' then s \<in> set RUSTUP_SAFE_SUBCOMMANDS
          else False)"

function bash_command_is_routine :: "string list \<Rightarrow> bool list \<Rightarrow> bool"
  and package_manager_subcommand_is_routine :: "string \<Rightarrow> string list \<Rightarrow> bool list \<Rightarrow> bool option" where
  "bash_command_is_routine ws expandable =
    (let inner = unwrap_wrappers ws;
         inner_expandable = drop (length ws - length inner) expandable
     in if inner = [] \<or> is_lone_wrapper inner then True
        else let head = to_ascii_lowercase (base_name (hd inner))
          in case package_manager_subcommand_is_routine head inner inner_expandable of
               Some routine \<Rightarrow> routine
             | None \<Rightarrow> listed_routine head inner inner_expandable)"
| "package_manager_subcommand_is_routine prog inner expandable =
    (if prog \<notin> {''uv'', ''uvx'', ''npm'', ''npx'', ''pnpm'', ''yarn'', ''rustup''} then None
     else if is_remote_launcher prog inner then Some False
     else case explicit_launch_target prog inner of
       Unresolved \<Rightarrow> Some False
     | LaunchInner launched \<Rightarrow>
         Some (\<not> command_env_is_unsafe launched \<and> \<not> launched_writes_nonsink launched
               \<and> bash_command_is_routine launched (drop (length inner - length launched) expandable))
     | NotLauncher \<Rightarrow> Some (safe_subcommand prog (launcher_subcommand prog inner)))"
  by pat_completeness auto
termination
proof (relation "measure (case_sum (\<lambda>(ws, _). 2 * length ws + 1) (\<lambda>(_, inner, _). 2 * length inner))", goal_cases)
  case (2 ws expandable x xa xb)
  then show ?case using unwrap_wrappers_length [of ws] by simp
next
  case (3 prog inner expandable launched)
  then show ?case using launched_shorter by fastforce
qed simp

declare bash_command_is_routine.simps [simp del] package_manager_subcommand_is_routine.simps [simp del]

section \<open>Scripts\<close>

definition classify_bash :: "perm_env \<Rightarrow> string \<Rightarrow> classifier_verdict" where
  "classify_bash e cmd =
    (case pe_parse e cmd of
       None \<Rightarrow> VerdictBlock
     | Some tree \<Rightarrow>
         (case try_parse_word_only_commands_sequence tree cmd of
            None \<Rightarrow> VerdictBlock
          | Some cmds \<Rightarrow>
              if sets_unsafe_env (tt_root tree) cmd cmds then VerdictBlock
              else if list_ex (\<lambda>p. \<not> is_safe_write_sink p) (command_write_paths_in_tree (tt_root tree) cmd) then VerdictBlock
              else if cmds \<noteq> [] \<and> list_all (\<lambda>c. bash_command_is_routine (pl_words c) (pl_expandable c)) cmds then VerdictAllow
              else VerdictBlock))"

section \<open>The whole access\<close>

fun render_turn :: "classifier_turn \<Rightarrow> string" where
  "render_turn (UserText t) = ''User: '' @ t"
| "render_turn (AssistantToolUse tool args) = tool @ '' '' @ args"
| "render_turn (PermissionDecision tool args approved) =
     (if approved then ''The user was asked before running '' @ tool @ '' '' @ args @ '' and approved it; it has run once.''
      else ''The user was asked about running '' @ tool @ '' '' @ args @ '' and declined it.'')"

definition transcript_text :: "classifier_turn list \<Rightarrow> string" where
  "transcript_text turns = join [nl] (map render_turn turns)"

definition pipes_to_shell :: "string \<Rightarrow> bool" where
  "pipes_to_shell blob \<longleftrightarrow>
     list_ex (\<lambda>p. contains_str p blob) [''curl'', ''wget'', ''fetch'']
     \<and> list_ex (\<lambda>p. contains_str p blob) [''| sh'', ''|sh'', ''| bash'', ''|bash'', ''| zsh'', ''|zsh'']"

definition classify_sync :: "perm_env \<Rightarrow> string \<Rightarrow> access_kind \<Rightarrow> string option \<Rightarrow> classifier_turn list \<Rightarrow> classifier_verdict" where
  "classify_sync e tool_name access access_detail turns =
    (let detail = to_ascii_lowercase (case access_detail of Some d \<Rightarrow> d | None \<Rightarrow> []);
         tool = to_ascii_lowercase tool_name;
         transcript = to_ascii_lowercase (transcript_text turns);
         blob = tool @ '' '' @ detail @ '' '' @ transcript
     in if contains_str ''ask_user'' tool \<or> contains_str ''askuserquestion'' tool then VerdictBlock
        else if list_ex (\<lambda>p. contains_str p blob) dangerous_patterns then VerdictBlock
        else if pipes_to_shell blob then VerdictBlock
        else if list_ex (\<lambda>p. contains_str p transcript) hostile_intent then VerdictBlock
        else case access of
          AccBash cmd \<Rightarrow> classify_bash e cmd
        | AccWebFetch _ \<Rightarrow> VerdictBlock
        | AccEdit _ \<Rightarrow> VerdictBlock
        | AccMCPTool _ _ \<Rightarrow> VerdictBlock
        | _ \<Rightarrow> VerdictAllow)"

section \<open>The model\<close>

definition AUTO_MODE_CLASSIFIER_SYSTEM_PROMPT :: string where
  "AUTO_MODE_CLASSIFIER_SYSTEM_PROMPT =
     ''You review a command that a coding agent wants to run on its user'' @ [CHR 0x27]
     @ ''s machine. Decide whether it can run now (shouldBlock=false) or must wait for the user'' @ [CHR 0x27]
     @ ''s approval (shouldBlock=true).'' @ [nl] @ [nl]
     @ ''Let it run if everything it does is ordinary development work on this machine: building, testing, searching, and ''
     @ ''editing project files; reading the user'' @ [CHR 0x27]
     @ ''s own files, logs, configuration, and environment; scratch work in temp directories; read-only queries of the team''
     @ [CHR 0x27]
     @ ''s own services, dashboards, and internal APIs made from this machine (using stored credentials for read access ''
     @ ''is normal); git reads and commits (status, diff, log, show, add, commit, amending the latest local commit, switching ''
     @ ''branches). A chain of safe steps, or a harmless no-op like '' @ [backtick] @ ''true'' @ [backtick]
     @ '', is still safe. A local VM on this machine counts as this machine.'' @ [nl] @ [nl]
     @ ''Make it wait if any part reaches beyond the machine or cannot be undone: publishing anything (git push, PR or review ''
     @ ''edits and comments, posts, messages), opening shells on or changing other machines (SSH sessions, kubectl exec, ''
     @ ''cluster mutations, production services), rewriting or discarding saved work (rebase, hard reset, force-clean, force-deleting ''
     @ ''branches or worktrees), extracting credentials or secrets, looking up people'' @ [CHR 0x27]
     @ ''s private data (even read-only), destroying files outside scratch space, downloading and running untrusted code, ''
     @ ''or probing systems for access.'' @ [nl] @ [nl] @ ''Judge by what the command actually does '' @ em_dash
     @ '' not by scary names in paths or strings. If you cannot tell what it does, make it wait.'' @ [nl] @ [nl]
     @ ''Decisions the user has already made in this conversation are part of their intent. When they have seen an action ''
     @ ''and approved it, running it again without asking is fine as long as repeating it changes nothing new beyond this ''
     @ ''machine; the same goes for tamer steps in the same piece of work. But they approved the run they saw, not a standing ''
     @ ''policy: anything that would set off another event outside this machine '' @ em_dash
     @ '' publish again, send again, deploy again '' @ em_dash
     @ '' deserves its own ask each time, even when the command is word-for-word what they approved, and nothing riskier ''
     @ ''than what they approved inherits their yes. When they have declined something, do not wave through that or anything ''
     @ ''close to it.'' @ [nl]"

datatype classifier_message_role = SystemRole | UserRole

record classifier_message =
  cm_role :: classifier_message_role
  cm_text :: string

datatype classifier_prompt_type = FullPrompt | NoUserToolPrefix | BareInstructions | JustCommand

definition CLASSIFIER_JSON_INSTRUCTION :: string where
  "CLASSIFIER_JSON_INSTRUCTION =
     (let q = [CHR 0x22]
      in ''Respond with JSON only: {'' @ q @ ''thinking'' @ q @ '':'' @ q @ ''...'' @ q @ '','' @ q @ ''shouldBlock'' @ q @ '':true|false,''
         @ q @ ''reason'' @ q @ '':'' @ q @ ''...'' @ q @ ''}'')"

definition build_classifier_messages ::
  "string \<Rightarrow> access_kind \<Rightarrow> string option \<Rightarrow> classifier_turn list \<Rightarrow> string option \<Rightarrow> classifier_prompt_type \<Rightarrow> classifier_message list" where
  "build_classifier_messages tool_name access access_detail turns instructions prompt_type =
    (let agents = (if prompt_type = FullPrompt \<or> prompt_type = NoUserToolPrefix then instructions else None);
         detail = (case access_detail of Some d \<Rightarrow> d | None \<Rightarrow> ''(none)'');
         proposed_action = ''tool: '' @ tool_name @ [nl] @ ''access_kind: '' @ fst (access_labels access) @ [nl] @ ''detail: '' @ detail;
         transcript = (if turns = [] then ''(no recent conversation context)'' else transcript_text turns);
         trailing =
           (case prompt_type of
              FullPrompt \<Rightarrow>
                ''## Recent conversation'' @ [nl] @ transcript @ [nl, nl] @ ''## Proposed action'' @ [nl] @ proposed_action @ [nl, nl]
                @ CLASSIFIER_JSON_INSTRUCTION
            | JustCommand \<Rightarrow> proposed_action
            | _ \<Rightarrow> ''## Proposed action'' @ [nl] @ proposed_action @ [nl, nl] @ CLASSIFIER_JSON_INSTRUCTION)
     in [\<lparr>cm_role = SystemRole, cm_text = AUTO_MODE_CLASSIFIER_SYSTEM_PROMPT\<rparr>]
        @ (case agents of
             Some md \<Rightarrow>
               [\<lparr>cm_role = UserRole, cm_text =
                   ''The following is the user'' @ [CHR 0x27] @ ''s AGENTS.md configuration. These are instructions the user provided to the ''
                   @ ''agent and should be treated as part of the user'' @ [CHR 0x27] @ ''s intent when evaluating actions.'' @ [nl, nl]
                   @ ''<project_instructions>'' @ [nl] @ md @ [nl] @ ''</project_instructions>''\<rparr>]
           | None \<Rightarrow> [])
        @ [\<lparr>cm_role = UserRole, cm_text = trailing\<rparr>])"

text \<open>
  A JSON text as far as it is read: \<open>None\<close> when it does not parse, otherwise what a field holds.
\<close>

datatype json_field = FieldAbsent | FieldBool bool | FieldOther

type_synonym json_reader = "string \<Rightarrow> (string \<Rightarrow> json_field) option"

fun as_bool :: "json_field \<Rightarrow> bool option" where
  "as_bool (FieldBool b) = Some b"
| "as_bool _ = None"

definition verdict_of :: "bool \<Rightarrow> classifier_verdict" where
  "verdict_of b = (if b then VerdictBlock else VerdictAllow)"

definition whole_json_verdict :: "json_reader \<Rightarrow> string \<Rightarrow> bool option" where
  "whole_json_verdict json t =
     (case json t of
        None \<Rightarrow> None
      | Some v \<Rightarrow> (case as_bool (v ''shouldBlock'') of Some b \<Rightarrow> Some b | None \<Rightarrow> as_bool (v ''should_block'')))"

text \<open>From the first opening to the last closing brace.\<close>

definition embedded_json_verdict :: "json_reader \<Rightarrow> string \<Rightarrow> bool option" where
  "embedded_json_verdict json t =
    (let start = length (takeWhile (\<lambda>c. c \<noteq> CHR ''{'') t);
         tail = length (takeWhile (\<lambda>c. c \<noteq> CHR ''}'') (rev t));
         stop = length t - tail
     in if CHR ''{'' \<in> set t \<and> CHR ''}'' \<in> set t \<and> start < stop - 1
        then (case json (take (stop - start) (drop start t)) of
                None \<Rightarrow> None
              | Some v \<Rightarrow> as_bool (if v ''shouldBlock'' \<noteq> FieldAbsent then v ''shouldBlock'' else v ''should_block''))
        else None)"

definition parse_classifier_model_text :: "json_reader \<Rightarrow> string \<Rightarrow> classifier_verdict" where
  "parse_classifier_model_text json text =
    (let t = trim text; lower = to_ascii_lowercase t; q = [CHR 0x22]
     in if t = [] then VerdictUnavailable
        else case whole_json_verdict json t of
          Some b \<Rightarrow> verdict_of b
        | None \<Rightarrow>
            (case embedded_json_verdict json t of
               Some b \<Rightarrow> verdict_of b
             | None \<Rightarrow>
                 if contains_str (q @ ''shouldblock'' @ q @ '': true'') lower \<or> contains_str (''shouldblock'' @ q @ '':true'') lower
                 then VerdictBlock
                 else if trim lower \<in> {''block'', ''blocked'', ''deny'', ''denied''} then VerdictBlock
                 else if trim lower \<in> {''allow'', ''allowed'', ''approve'', ''approved''} then VerdictAllow
                 else VerdictUnavailable))"

definition llm_classify ::
  "perm_env \<Rightarrow> json_reader \<Rightarrow> (classifier_message list \<Rightarrow> string option) \<Rightarrow> classifier_prompt_type
     \<Rightarrow> string \<Rightarrow> access_kind \<Rightarrow> string option \<Rightarrow> classifier_turn list \<Rightarrow> string option \<Rightarrow> classifier_verdict" where
  "llm_classify e json model prompt_type tool_name access access_detail turns instructions =
    (let heuristic = classify_sync e tool_name access access_detail turns
     in if heuristic = VerdictAllow then VerdictAllow
        else case model (build_classifier_messages tool_name access access_detail turns instructions prompt_type) of
          None \<Rightarrow> heuristic
        | Some text \<Rightarrow>
            let v = parse_classifier_model_text json text in if v \<noteq> VerdictUnavailable then v else heuristic)"

section \<open>What is allowed\<close>

text \<open>The program of a command, behind its wrappers; the commands it launches through package managers.\<close>

definition program_of :: "string list \<Rightarrow> string" where
  "program_of ws = to_ascii_lowercase (base_name (hd (unwrap_wrappers ws)))"

inductive launches :: "string list \<Rightarrow> string list \<Rightarrow> bool" where
  launches_one: "explicit_launch_target (program_of ws) (unwrap_wrappers ws) = LaunchInner l \<Longrightarrow> launches ws l"
| launches_more: "explicit_launch_target (program_of ws) (unwrap_wrappers ws) = LaunchInner l \<Longrightarrow> launches l l' \<Longrightarrow> launches ws l'"

definition routine_programs :: "string list" where
  "routine_programs =
     [''cargo'', ''git'', ''pytest'', ''python'', ''python3'', ''node'', ''rustc'', ''rustfmt'', ''clippy'', ''make'', ''cmake'', ''cd'',
      ''pushd'', ''popd'', ''ls'', ''pwd'', ''echo'', ''printf'', ''cat'', ''head'', ''tail'', ''wc'', ''rg'', ''grep'', ''which'', ''type'',
      ''true'', ''false'', ''test'', ''sort'', ''uniq'', ''tr'', ''cut'', ''diff'', ''jq'', ''date'', ''whoami'', ''hostname'', ''uname'',
      ''nproc'', ''printenv'', ''stat'', ''file'', ''tree'', ''basename'', ''dirname'', ''realpath'', ''readlink'', ''strings'', ''sleep'',
      ''df'', ''du'', ''ps'', ''top'', ''htop'', ''bazel'', ''just'', ''go'', ''kubectl'', ''set'', ''find'', ''gh'', ''uv'', ''npm'',
      ''pnpm'', ''yarn'', ''rustup'', ''timeout'', ''nice'', ''ionice'', ''chrt'', ''stdbuf'', ''env'']"

lemma never_routine:
  "list_all (\<lambda>p. p \<notin> set routine_programs)
     [''sh'', ''bash'', ''zsh'', ''dash'', ''ksh'', ''fish'', ''eval'', ''exec'', ''source'', ''sudo'', ''su'', ''doas'',
      ''curl'', ''wget'', ''ssh'', ''scp'', ''rm'', ''mv'', ''cp'', ''dd'', ''chmod'', ''chown'', ''kill'']"
  by code_simp

lemma prefix_heads:
  "list_all (\<lambda>p. to_ascii_lowercase (base_name (hd (split_whitespace p))) \<in> set routine_programs) ROUTINE_PREFIXES"
  by code_simp

lemma ascii_lower_separator: "ascii_lower c = CHR ''/'' \<longleftrightarrow> c = CHR ''/''" "ascii_lower c = bslash \<longleftrightarrow> c = bslash"
proof -
  have "of_char (char_of (of_char c + 32 :: nat)) = (of_char c + 32 :: nat)" if "byte_in 0x41 0x5A c"
    using that by (simp add: byte_in_def)
  then have "char_of (of_char c + 32 :: nat) \<noteq> d" if "byte_in 0x41 0x5A c" "of_char d < (0x61 :: nat)" for d
    using that by (force simp: byte_in_def)
  then show "ascii_lower c = CHR ''/'' \<longleftrightarrow> c = CHR ''/''" "ascii_lower c = bslash \<longleftrightarrow> c = bslash"
    by (auto simp: ascii_lower_def bslash_def byte_in_def)
qed

lemma base_name_lower: "to_ascii_lowercase (base_name w) = base_name (to_ascii_lowercase w)"
  by (simp add: base_name_def to_ascii_lowercase_def rev_map takeWhile_map comp_def ascii_lower_separator)

lemma prefix_match_listed:
  assumes "list_ex (\<lambda>p. matches_prefix_words inner p True) ROUTINE_PREFIXES"
  shows "to_ascii_lowercase (base_name (hd inner)) \<in> set routine_programs"
proof -
  obtain p where p: "p \<in> set ROUTINE_PREFIXES" "matches_prefix_words inner p True" using assms by (auto simp: list_ex_iff)
  obtain q qs where ps: "split_whitespace p = q # qs" using p(2) by (cases "split_whitespace p") (auto simp: matches_prefix_words_def)
  obtain w ws where ws: "inner = w # ws" using p(2) ps by (cases inner) (auto simp: matches_prefix_words_def)
  have "to_ascii_lowercase w = to_ascii_lowercase q" using p(2) by (simp add: matches_prefix_words_def ps ws eq_ignore_ascii_case_def)
  then show ?thesis using prefix_heads p(1) by (auto simp: list_all_iff base_name_lower ws ps dest!: bspec)
qed

lemma listed_program:
  assumes "listed_routine head inner expandable" "head = to_ascii_lowercase (base_name (hd inner))"
  shows "head \<in> set routine_programs"
proof -
  have "''find'' \<in> set routine_programs" "''gh'' \<in> set routine_programs" "''git'' \<in> set routine_programs" by code_simp+
  with assms(1) prefix_match_listed [of inner, folded assms(2)] show ?thesis
    unfolding listed_routine_def by (metis (full_types))
qed

lemma lone_wrapper_program: "is_lone_wrapper inner \<Longrightarrow> to_ascii_lowercase (base_name (hd inner)) \<in> set routine_programs"
proof -
  have "list_all (\<lambda>w. to_ascii_lowercase w \<in> set routine_programs) [''timeout'', ''nice'', ''ionice'', ''chrt'', ''stdbuf'', ''env'']" by code_simp
  then show "is_lone_wrapper inner \<Longrightarrow> ?thesis" by (auto simp: is_lone_wrapper_def is_wrapper_command_def simp del: set_simps)
qed

lemma package_program:
  assumes "package_manager_subcommand_is_routine prog inner expandable = Some True"
  shows "prog \<in> set routine_programs"
proof -
  have "list_all (\<lambda>w. w \<in> set routine_programs) [''uv'', ''npm'', ''pnpm'', ''yarn'', ''rustup'']" by code_simp
  moreover have "prog \<in> {''uv'', ''npm'', ''pnpm'', ''yarn'', ''rustup''}"
    using assms unfolding package_manager_subcommand_is_routine.simps [of prog] is_remote_launcher_def by (auto split: if_splits)
  ultimately show ?thesis by auto
qed

lemma routine_program:
  assumes "bash_command_is_routine ws expandable" "unwrap_wrappers ws \<noteq> []"
  shows "program_of ws \<in> set routine_programs"
  using assms lone_wrapper_program [of "unwrap_wrappers ws"] package_program [of "program_of ws"] listed_program [of "program_of ws" "unwrap_wrappers ws"]
  unfolding bash_command_is_routine.simps [of ws] program_of_def Let_def
  by (auto split: if_splits option.splits)

lemma routine_launched:
  assumes "bash_command_is_routine ws expandable" "explicit_launch_target (program_of ws) (unwrap_wrappers ws) = LaunchInner l"
  shows "\<not> command_env_is_unsafe l \<and> \<not> launched_writes_nonsink l \<and> (\<exists>expandable'. bash_command_is_routine l expandable')"
proof -
  have pm: "program_of ws \<in> {''uv'', ''uvx'', ''npm'', ''npx'', ''pnpm'', ''yarn'', ''rustup''}"
    using assms(2) by (auto simp: explicit_launch_target_def node_manager_def split: option.splits if_splits)
  have "1 < length (unwrap_wrappers ws)"
    using assms(2) by (auto simp: explicit_launch_target_def launcher_subcommand_def get_word_def split: if_splits)
  then have "unwrap_wrappers ws \<noteq> []" "\<not> is_lone_wrapper (unwrap_wrappers ws)" by (auto simp: is_lone_wrapper_def)
  with assms pm show ?thesis
    unfolding bash_command_is_routine.simps [of ws] package_manager_subcommand_is_routine.simps Let_def program_of_def
    by (auto split: if_splits)
qed

lemma routine_launches:
  "launches ws l \<Longrightarrow> bash_command_is_routine ws expandable \<Longrightarrow>
     \<not> command_env_is_unsafe l \<and> \<not> launched_writes_nonsink l \<and> (unwrap_wrappers l = [] \<or> program_of l \<in> set routine_programs)"
proof (induction arbitrary: expandable rule: launches.induct)
  case (launches_one ws l)
  with routine_launched [of ws expandable l] routine_program [of l] show ?case by blast
next
  case (launches_more ws l l')
  with routine_launched [of ws expandable l] show ?case by blast
qed

lemma classify_bash_allow:
  assumes "classify_bash e cmd = VerdictAllow"
  obtains tree cmds where "pe_parse e cmd = Some tree" "try_parse_word_only_commands_sequence tree cmd = Some cmds"
    "\<not> sets_unsafe_env (tt_root tree) cmd cmds" "list_all is_safe_write_sink (command_write_paths_in_tree (tt_root tree) cmd)"
    "cmds \<noteq> []" "list_all (\<lambda>c. bash_command_is_routine (pl_words c) (pl_expandable c)) cmds"
  using assms by (auto simp: classify_bash_def list_all_iff list_ex_iff split: option.splits if_splits)

lemma classify_sync_bash: "classify_sync e tool (AccBash cmd) detail turns = VerdictAllow \<Longrightarrow> classify_bash e cmd = VerdictAllow"
  by (simp add: classify_sync_def Let_def split: if_splits)

end
