(* ===== verification/Perm_Demo.thy ===== *)
theory Perm_Demo
  imports Perm_Facts Perm_Escape Perm_Heuristic
begin

text \<open>
  A concrete policy, file system and session for the permission theorems: two scripts with their
  syntax trees, a link that points at a protected file, and rules that deny, ask and allow.
\<close>

section \<open>The outside\<close>

definition ts_word :: "nat \<Rightarrow> nat \<Rightarrow> ts_node" where
  "ts_word a b = TsNode ''word'' True None a b []"

definition ts_command :: "nat \<Rightarrow> nat \<Rightarrow> nat \<Rightarrow> ts_node list \<Rightarrow> ts_node" where
  "ts_command a m b args = TsNode ''command'' True None a b (TsNode ''command_name'' True (Some ''name'') a m [ts_word a m] # args)"

definition ts_program :: "ts_node list \<Rightarrow> ts_tree" where
  "ts_program cs = \<lparr>tt_root = TsNode ''program'' True None 0 100 cs, tt_has_error = False\<rparr>"

definition demo_chain :: string where
  "demo_chain = ''ls && timeout 5 rm x''"

definition demo_nested :: string where
  "demo_nested = ''bash -c '' @ [CHR 0x27] @ ''rm y'' @ [CHR 0x27]"

definition demo_parse :: "string \<Rightarrow> ts_tree option" where
  "demo_parse s =
     (if s = demo_chain
      then Some (ts_program [TsNode ''list'' True None 0 20
        [ts_command 0 2 2 [], TsNode ''&&'' False None 3 5 [], ts_command 6 13 20 [TsNode ''number'' True None 14 15 [], ts_word 16 18, ts_word 19 20]]])
      else if s = demo_nested then Some (ts_program [ts_command 0 4 14 [ts_word 5 7, TsNode ''raw_string'' True None 8 14 []]])
      else if s = ''rm y'' then Some (ts_program [ts_command 0 2 4 [ts_word 3 4]])
      else if s = ''cat link'' then Some (ts_program [ts_command 0 3 8 [ts_word 4 8]])
      else if s = ''git log'' then Some (ts_program [ts_command 0 3 7 [ts_word 4 7]])
      else None)"

definition demo_perm_env :: perm_env where
  "demo_perm_env =
     \<lparr>pe_parse = demo_parse, pe_glob_valid = (\<lambda>_. True), pe_glob = (\<lambda>pat _ text. pat = text), pe_url = (\<lambda>_. None),
      pe_lowercase = to_ascii_lowercase, pe_tilde = id,
      pe_canonicalize = (\<lambda>p. Some (if p = ''/w/link'' then ''/w/secret'' else p)),
      pe_symlink_meta = (\<lambda>p. MetaFile (p = ''/w/link'')), pe_read_link = (\<lambda>p. if p = ''/w/link'' then Some ''secret'' else None)\<rparr>"

section \<open>Rules, configuration and requests\<close>

definition demo_rule :: "rule_action \<Rightarrow> tool_filter \<Rightarrow> string \<Rightarrow> permission_rule" where
  "demo_rule act tool p = \<lparr>pr_action = act, pr_tool = tool, pr_pattern = Some p, pr_pattern_mode = GlobMode\<rparr>"

definition demo_config :: permission_config where
  "demo_config =
     \<lparr>pc_rules = [demo_rule ActAllow ForAny ''*'', demo_rule ActDeny ForRead ''/w/secret'', demo_rule ActDeny ForBash ''rm''],
      pc_prompt_policy = PromptAsk\<rparr>"

definition demo_ask_config :: permission_config where
  "demo_ask_config = \<lparr>pc_rules = [demo_rule ActAllow ForAny ''*'', demo_rule ActAsk ForBash ''rm''], pc_prompt_policy = PromptAsk\<rparr>"

definition demo_perm_cfg :: "permission_config option \<Rightarrow> string option \<Rightarrow> perm_cfg" where
  "demo_perm_cfg config pin =
     \<lparr>pm_policy = map_option (compiled_policy_new demo_perm_env) config, pm_prompt_policy = PromptAsk, pm_domains = Map.empty,
      pm_yolo_pin = pin, pm_remember_tool_approvals = False, pm_json_command = id\<rparr>"

definition demo_request :: "access_kind \<Rightarrow> perm_request" where
  "demo_request access = \<lparr>rq_access = access, rq_tool_cwd = ''/w'', rq_display_cwd = None\<rparr>"

definition demo_answers :: "prompt_outcome \<Rightarrow> answers" where
  "demo_answers out =
     \<lparr>an_gone_at_dequeue = False, an_classify = (\<lambda>_ _ _ _ _. VerdictUnavailable), an_gone_in_classify = False,
      an_sandbox_auto_allows = False, an_gone_before_prompt = False, an_prompt = out, an_gone_after = False\<rparr>"

definition demo_actor :: "bool \<Rightarrow> perm_actor" where
  "demo_actor yolo =
     \<lparr>pa_state = permission_state_default, pa_yolo = yolo, pa_auto = False, pa_classifier = True, pa_turns = [], pa_recorded = [],
      pa_instructions = None, pa_allow_edits = False, pa_persisted = []\<rparr>"

lemma demo_under_policy [simp]: "under_policy demo_perm_env config (demo_perm_cfg (Some config) pin)"
  by (simp add: under_policy_def demo_perm_cfg_def)

section \<open>What the scripts run\<close>

definition forms_of :: "perm_env \<Rightarrow> string \<Rightarrow> string list list" where
  "forms_of e cmd =
     (case all_commands_from_script (pe_parse e) cmd of None \<Rightarrow> [] | Some cs \<Rightarrow> concat (map (\<lambda>c. [pl_words c, unwrap_wrappers (pl_words c)]) cs))"

lemma script_runs_forms:
  "ws \<in> set (forms_of e cmd) \<Longrightarrow> script_runs e 0 cmd ws"
  "ws \<in> set (forms_of e cmd) \<Longrightarrow> shell_dash_c_script ws = Some inner \<Longrightarrow> script_runs e n inner ws' \<Longrightarrow> script_runs e (Suc n) cmd ws'"
  by (cases "all_commands_from_script (pe_parse e) cmd"; auto simp: forms_of_def intro: script_runs.intros)+

lemma commands_coverI: "script_runs e n cmd ws \<Longrightarrow> n < 8 \<Longrightarrow> join '' '' ws = c \<Longrightarrow> commands_cover e cmd (AccBash c)"
  by (auto simp: commands_cover_def)

lemma demo_chain_covered: "commands_cover demo_perm_env demo_chain (AccBash ''rm x'')"
proof (rule commands_coverI [OF script_runs_forms(1)])
  show "[''rm'', ''x''] \<in> set (forms_of demo_perm_env demo_chain)" by code_simp
qed code_simp+

lemma demo_nested_covered: "commands_cover demo_perm_env demo_nested (AccBash ''rm y'')"
proof (rule commands_coverI [OF script_runs_forms(2) [OF _ _ script_runs_forms(1)]])
  show "[''bash'', ''-c'', ''rm y''] \<in> set (forms_of demo_perm_env demo_nested)" by code_simp
  show "shell_dash_c_script [''bash'', ''-c'', ''rm y''] = Some ''rm y''" by code_simp
  show "[''rm'', ''y''] \<in> set (forms_of demo_perm_env ''rm y'')" by code_simp
qed code_simp+

text \<open>A script that the demonstration parser does not know.\<close>

lemma demo_opaque: "script_opaque demo_perm_env ''echo $HOME && rm x''"
proof -
  have "all_commands_from_script (pe_parse demo_perm_env) ''echo $HOME && rm x'' = None" by code_simp
  then show ?thesis unfolding script_opaque_def using script_nests.itself by (metis zero_less_numeral)
qed

lemma demo_restricted: "demo_rule ActDeny ForBash ''rm'' \<in> set (pc_rules demo_config)" "restricts (demo_rule ActDeny ForBash ''rm'')"
    "pr_tool (demo_rule ActDeny ForBash ''rm'') \<in> {ForBash, ForAny}"
  by (simp_all add: demo_config_def demo_rule_def restricts_def)

lemma demo_rules:
  "applying demo_perm_env demo_config (AccBash ''rm x'') ActDeny"
  "applying demo_perm_env demo_config (AccBash ''rm y'') ActDeny"
  "applying demo_perm_env demo_ask_config (AccBash ''rm x'') ActAsk"
  "applying demo_perm_env demo_config (AccRead (Some ''/w/secret'')) ActDeny"
  by code_simp+

lemma demo_link_covered: "direct_covers demo_perm_env (demo_request (AccRead (Some ''link''))) (AccRead (Some ''/w/secret''))"
proof -
  have "''/w/secret'' \<in> set (native_spellings demo_perm_env (demo_request (AccRead (Some ''link''))) ''link'')" by code_simp
  then show ?thesis by (auto simp: direct_covers_def demo_request_def)
qed

lemma demo_file_covered: "files_cover demo_perm_env (''cat link'', ''/w'') (AccRead (Some ''/w/secret''))"
proof -
  have "pe_parse demo_perm_env ''cat link'' = Some (ts_program [ts_command 0 3 8 [ts_word 4 8]])"
    "(''link'', ModeRead) \<in> set (script_operands (tt_root (ts_program [ts_command 0 3 8 [ts_word 4 8]])) ''cat link'')"
    "resolve_symlink_target demo_perm_env (shell_raw_absolute ''/w'' ''link'') = Some ''/w/secret''"
    by code_simp+
  then show ?thesis unfolding files_cover_def operand_names_def fst_conv snd_conv
    by (metis Un_iff elem_set shell_access.simps(1))
qed

end
