(* ===== verification/Further_Facts.thy ===== *)
theory Further_Facts
  imports Session_Demo Goal_Demo Perm_Demo Graph_Workers Graph_Commands "HOL-Library.Multiset"
begin

text \<open>
  Further facts of the engines beside the properties of the root theory: totality of the validation,
  the topological order, wedging, bounds, the commands, the project file, losses of work and the
  goal's life cycle.
\<close>

text \<open>
  For a reachable graph with a plan, is_wedged holds exactly when some node has failed and no
  node is ready or running, and then every node is terminal: wedging is never reported while
  work remains, and never missed.
\<close>

lemma wedged_iff_failed:
  assumes "graph_reach t" "nodes_of t \<noteq> []"
  shows "(is_wedged t \<longleftrightarrow> (\<exists>n \<in> set (nodes_of t). n_status n = Failed) \<and>
           (\<forall>n \<in> set (nodes_of t). n_status n \<noteq> Ready \<and> n_status n \<noteq> Running)) \<and>
         (is_wedged t \<longrightarrow> (\<forall>n \<in> set (nodes_of t). is_terminal (n_status n)))"
proof (rule conjI)
  have ok: "graph_ok (nodes_of t)" using reach_graph_ok [OF assms] .
  have w: "is_wedged t \<longleftrightarrow> \<not> (\<forall>n \<in> set (nodes_of t). n_status n = Achieved) \<and>
      (\<forall>n \<in> set (nodes_of t). n_status n \<noteq> Ready \<and> n_status n \<noteq> Running)"
    using nodes_of_state [OF assms(2)] assms(2) by (auto simp: is_wedged_def list_all_iff list_ex_iff)
  have quiet: "is_terminal (n_status n)" if "is_wedged t" "n \<in> set (nodes_of t)" for n
  proof -
    have "n_status n \<noteq> Waiting"
      using waiting_has_live [OF ok that(2)] that(1) reach_status [OF assms(1)] w
      by (metis live_def in_flight_def)
    with that w reach_status [OF assms(1) that(2)] show ?thesis by (cases "n_status n") (auto simp: is_terminal_def)
  qed
  then show "is_wedged t \<longrightarrow> (\<forall>n \<in> set (nodes_of t). is_terminal (n_status n))" by blast
  show "is_wedged t \<longleftrightarrow> (\<exists>n \<in> set (nodes_of t). n_status n = Failed) \<and>
           (\<forall>n \<in> set (nodes_of t). n_status n \<noteq> Ready \<and> n_status n \<noteq> Running)"
  proof (intro iffI conjI)
    assume a: "is_wedged t"
    then obtain n where n: "n \<in> set (nodes_of t)" "n_status n = Failed \<or> n_status n = NodeBlocked"
      using w quiet unfolding is_terminal_def by blast
    show "\<exists>n \<in> set (nodes_of t). n_status n = Failed"
      using n blocked_has_failed [OF ok n(1)] by blast
  qed (use w in force)+
qed

text \<open>
  In every reachable state the graph has at most MAX_GRAPH_NODES + 1 = 25 nodes with distinct
  ids and its history at most GRAPH_HISTORY_MAX = 64 entries.
\<close>

lemma graph_bounded:
  assumes "graph_reach t" "t_state t = Some s"
  shows "length (g_nodes s) \<le> 25 \<and> distinct (node_ids (g_nodes s)) \<and> length (g_history s) \<le> 64"
  using reach_state [OF assms]
  by (auto simp: state_ok_def MAX_GRAPH_NODES_def GRAPH_HISTORY_MAX_def)

text \<open>
  parse_and_validate never panics: the map lookups it makes by index after its checks all
  succeed, for every planner output, so the answer is always a node list or a GraphPlanError.
\<close>

lemma plan_validation_total:
  "\<exists>r. parse_and_validate from_str json objective = Some r"
  using parse_and_validate_cases by blast

text \<open>
  For planned nodes with distinct slugs and distinct, known dependencies, stable_topo_order
  succeeds exactly when the dependency relation is acyclic.
\<close>

lemma topological_order_iff_acyclic:
  assumes "plan_shape ps"
  shows "(\<exists>order. stable_topo_order ps = Inr order) \<longleftrightarrow> acyclic (plan_edges ps)"
  using stable_topo_order_iff [OF assms] .

text \<open>
  The order that stable_topo_order returns lists every index once, puts each node after its
  dependencies, and among the nodes whose dependencies are out always takes the one the planner
  listed first, which determines the order.
\<close>

lemma topological_order_stable:
  assumes "plan_shape ps" "stable_topo_order ps = Inr order"
  shows "distinct order \<and> set order = {..<length ps} \<and>
    topo_sorted (length ps) (\<lambda>j i. p_id (ps ! j) \<in> set (p_deps (ps ! i))) order \<and>
    least_first (length ps) (\<lambda>j i. p_id (ps ! j) \<in> set (p_deps (ps ! i))) order"
proof (intro conjI)
  note ok = stable_topo_order_ok [OF assms]
  show "distinct order" "set order = {..<length ps}" using ok by blast+
  have "i < length ps" if "i \<in> set order" for i using ok(2) that by auto
  then show "topo_sorted (length ps) (\<lambda>j i. p_id (ps ! j) \<in> set (p_deps (ps ! i))) order"
    "least_first (length ps) (\<lambda>j i. p_id (ps ! j) \<in> set (p_deps (ps ! i))) order"
    using ok(3,4) keyed_plan_before [of _ ps]
    by (auto simp: topo_sorted_def least_first_def) (meson less_trans nth_mem)+
qed

text \<open>
  When stable_topo_order fails, the error is Cycle with a non-empty list of planned slugs in
  which every slug depends on another of the list: the nodes reported are really held up by a
  cycle.
\<close>

lemma cycle_error_names_a_cycle:
  assumes "plan_shape ps" "stable_topo_order ps = Inl e"
  shows "\<exists>slugs. e = Cycle slugs \<and> slugs \<noteq> [] \<and>
    (\<forall>x \<in> set slugs. \<exists>p \<in> set ps. p_id p = x \<and> (\<exists>d \<in> set (p_deps p). d \<in> set slugs))"
proof -
  obtain left where l: "keyed.kahn_run (keyed_plan ps) = Inl left" "e = Cycle (map (\<lambda>i. p_id (ps ! i)) left)"
    using assms(2) unfolding stable_topo_order_run by (auto split: sum.splits)
  note c = keyed.kahn_cycle [OF plan_shape_keyed [OF assms(1)] l(1)]
  have "\<exists>p \<in> set ps. p_id p = x \<and> (\<exists>d \<in> set (p_deps p). d \<in> (\<lambda>i. p_id (ps ! i)) ` set left)"
    if x: "x \<in> (\<lambda>i. p_id (ps ! i)) ` set left" for x
  proof -
    obtain i where i: "i \<in> set left" "x = p_id (ps ! i)" using x by blast
    obtain j where j: "j \<in> set left" "keyed.before (keyed_plan ps) j i" using c(3) i(1) by blast
    have "i < length ps" "j < length ps" using c(2) i(1) j(1) by auto
    with i j keyed_plan_before [of j ps i] show ?thesis by (intro bexI [of _ "ps ! i"]) auto
  qed
  with c(1) l(2) show ?thesis by auto
qed

text \<open>
  validate_replan never panics on a well-formed graph: all its indexing by id succeeds. Every
  reachable graph is well-formed.
\<close>

lemma replan_validation_total:
  assumes "graph_reach t"
  shows "\<exists>r. validate_replan from_str (nodes_of t) json = Some r"
proof (cases "nodes_of t = []")
  case True
  then have "wf_nodes (nodes_of t)" by (simp add: wf_nodes_def edges_def acyclic_def)
  then show ?thesis using validate_replan_no_panic by blast
next
  case False
  then have "wf_nodes (nodes_of t)" using reach_graph_ok [OF assms] by (simp add: graph_ok_def)
  then show ?thesis using validate_replan_no_panic by blast
qed

text \<open>
  Appending an accepted replan keeps every node but the terminal one (a Waiting one may be
  promoted), adds only Waiting or Ready nodes that depend on no failed or blocked node, gates
  the terminal node on all of them, and leaves a well-formed scheduler state.
\<close>

lemma replan_appends:
  assumes "graph_reach t" "is_active t" "replan_ready t" "validate_replan from_str (nodes_of t) json = Some (Inr new)"
    and "t' = append_replan_nodes ck new t"
  shows "graph_ok (nodes_of t') \<and> node_ids (nodes_of t') = node_ids (nodes_of t) @ node_ids new \<and>
    (\<forall>n \<in> set (nodes_of t). n_id n \<noteq> FINAL_NODE_ID \<longrightarrow> n \<in> set (nodes_of t')) \<and>
    (\<forall>m \<in> set new. \<forall>d \<in> set (blocks_on m). d \<notin> set (dead_ids (nodes_of t)) \<and> d \<noteq> FINAL_NODE_ID)"
proof (intro conjI ballI impI)
  obtain s where s: "t_state t = Some s" "nodes_of t = g_nodes s"
    using assms(2) by (auto simp: is_active_def graph_status_def nodes_of_def)
  obtain ps where R: "replanning (nodes_of t) ps" "new = map (replan_graph_node (node_ids (nodes_of t))) ps"
    "update_first (\<lambda>n. n_id n = FINAL_NODE_ID) (regate_final (map n_id new)) (nodes_of t @ new) = appended (nodes_of t) ps"
    using replan_step_nodes [OF graph_reach_ok [OF assms(1)] s(1) assms(3,4)] s(2) by metis
  have ns: "nodes_of t' = promote_ready (appended (nodes_of t) ps)"
    unfolding assms(5) append_replan_nodes_def recompute_ready_def Let_def using s R(3) by (simp add: nodes_of_def)
  show "graph_ok (nodes_of t')" unfolding ns by (rule graph_ok_append [OF R(1)])
  show "node_ids (nodes_of t') = node_ids (nodes_of t) @ node_ids new"
    unfolding ns by (simp add: promote_ready_shape [THEN shape_node_ids] appended_ids)
       (simp add: R(2) replan_ids_def node_ids_def)
  show "n \<in> set (nodes_of t')" if n: "n \<in> set (nodes_of t)" "n_id n \<noteq> FINAL_NODE_ID" for n
  proof -
    have "promoted (nodes_of t)" using R(1) by (simp add: replanning_def graph_ok_def sched_ok_def)
    then have "promote (achieved_ids (appended (nodes_of t) ps)) n = n"
      using n(1) achieved_appended [OF R(1)] by (auto simp: promote_def promoted_def deps_achieved_iff)
    moreover have "n \<in> set (appended (nodes_of t) ps)"
      unfolding appended_def set_append set_map
      by (rule UnI1, rule image_eqI [of _ _ n]) (simp_all add: n regated_other)
    ultimately show ?thesis unfolding ns promote_ready_def by (metis image_eqI list.set_map)
  qed
  fix m d assume m: "m \<in> set new" "d \<in> set (blocks_on m)"
  have "d \<notin> set (dead_ids (nodes_of t)) \<and> d \<noteq> FINAL_NODE_ID"
  proof -
    have ok: "replan_ok (nodes_of t) ps" using R(1) by (simp add: replanning_def)
    obtain p e where p: "p \<in> set ps" "e \<in> set (p_deps p)" "d = rname (node_ids (nodes_of t)) e" using m R(2) by auto
    have "set (dead_ids (nodes_of t)) \<subseteq> set (node_ids (nodes_of t))" by (auto simp: dead_ids_def set_node_ids)
    moreover have "e \<in> set (node_ids (nodes_of t)) \<or> (\<exists>q \<in> set ps. e = p_id q)"
      using replan_okD(1) [OF ok p(1)] p(2) by blast
    ultimately show ?thesis
      using replan_okD(3) [OF ok p(1,2)] replan_okD(2) [OF ok] p(3) unfolding rname_def by (auto split: if_splits)
  qed
  then show "d \<notin> set (dead_ids (nodes_of t))" "d \<noteq> FINAL_NODE_ID" by auto
qed

text \<open>
  When apply_optimization accepts a list of edits on a reachable graph, every node that was
  neither waiting nor ready (the terminal node apart) is in the result unchanged in every field,
  no node is achieved or dead that was not before, the result has at most 25 nodes, and it is
  again a well-formed, correctly promoted scheduler state.
\<close>

lemma optimization_preserves:
  assumes "graph_reach t" "nodes_of t \<noteq> []" "apply_optimization from_str (nodes_of t) json = Inr (Some nodes)"
  shows "graph_ok nodes \<and> length nodes \<le> 25 \<and>
    (\<forall>n \<in> set (nodes_of t). \<not> is_pending (n_status n) \<and> n_id n \<noteq> FINAL_NODE_ID \<longrightarrow> n \<in> set nodes) \<and>
    set (achieved_ids nodes) = set (achieved_ids (nodes_of t)) \<and> set (dead_ids nodes) = set (dead_ids (nodes_of t))"
proof -
  obtain ed where O: "optimized (nodes_of t) ed" "nodes = finished ed"
    using apply_optimization_Some [OF reach_graph_ok [OF assms(1,2)] assms(3)] .
  have "set (achieved_ids nodes) = set (achieved_ids (nodes_of t))"
    using achieved_finished [OF optimizedD(2) [OF O(1)]] optimizedD(4) [OF O(1)] O(2) by simp
  moreover have "set (dead_ids nodes) = set (dead_ids (nodes_of t))"
    using dead_in_finished [OF O(1)] O(2) by (simp add: set_dead_ids)
  ultimately show ?thesis
    using graph_ok_optimized [OF O(1)] O by (auto simp: optimized_def MAX_GRAPH_NODES_def)
qed

text \<open>
  The reorder edit permutes the nodes and changes none of them: the multiset of nodes is the
  same.
\<close>

lemma reorder_permutes:
  assumes "distinct (node_ids ns)" "op_reorder order ns = Inr ms"
  shows "mset ms = mset ns"
proof -
  have d: "distinct ns" "distinct ms"
    using assms(1) op_reorder_perm(3) [OF assms] by (simp_all add: node_ids_def distinct_map)
  show ?thesis using op_reorder_perm(1) [OF assms] set_eq_iff_mset_eq_distinct [OF d(2,1)] by simp
qed

text \<open>
  run_node_to_verdict reports a node achieved only when, in the round it reports and in the
  worktree it reports, a verifier spawn succeeded and its output parsed as an achieved verdict;
  and it never uses more than rounds_cap rounds, whatever the spawner answers.
\<close>

lemma achieved_needs_verifier:
  assumes "run_node_to_verdict env node objective cap = (rep, cancelled)"
  shows "nr_node_id rep = node \<and> unat (nr_rounds rep) \<le> unat cap \<and>
    (nr_achieved rep \<longrightarrow> verified env node (nr_rounds rep) rep)"
  using run_rounds_report [OF order_refl] assms unfolding run_node_to_verdict_def by blast

text \<open>
  Text inside a fenced block of a worker or verifier message has no effect: the claim, the
  verdict and the discoveries parsed from a message are those of the message with the block
  removed.
\<close>

lemma fenced_text_cannot_claim:
  assumes "lines out = a @ f1 # b @ f2 # c" "lines out' = a @ c"
    and "\<forall>l \<in> set a \<union> set b. \<not> is_fence l" "is_fence f1" "is_fence f2"
  shows "parse_worker_claim out = parse_worker_claim out' \<and> parse_node_verdict dbg out = parse_node_verdict dbg out' \<and>
    parse_discovered_lines out = parse_discovered_lines out'"
proof -
  have "strip_fenced_blocks out = strip_fenced_blocks out'"
    using keep_unfenced_block [OF assms(3-5)] keep_unfenced_plain [of a False c] assms(1-3)
    by (simp add: strip_fenced_blocks_def)
  then show ?thesis by (simp add: parse_worker_claim_def parse_node_verdict_def parse_discovered_lines_def)
qed

text \<open>
  Restoring a reachable graph after a process restart never leaves it Active, leaves no node in
  flight and no current node, changes no node id, dependency, achievement or failure, and gives
  a reachable state again.
\<close>

lemma restart_is_paused:
  assumes "graph_reach t" "t_state t = Some s"
  shows "\<not> is_active (from_snapshot dir s) \<and> current_node_id (from_snapshot dir s) = None \<and>
    (\<forall>n \<in> set (nodes_of (from_snapshot dir s)). \<not> in_flight (n_status n)) \<and>
    shape (nodes_of (from_snapshot dir s)) = shape (g_nodes s) \<and>
    (\<forall>i. node_st i t = Some Achieved \<longleftrightarrow> node_st i (from_snapshot dir s) = Some Achieved) \<and>
    graph_reach (from_snapshot dir s)"
proof (intro conjI allI)
  let ?t = "from_snapshot dir s"
  let ?ns = "map demote_in_flight (g_nodes s)"
  have ns: "nodes_of ?t = promote_ready ?ns"
    by (simp add: from_snapshot_def recompute_ready_def nodes_of_def Let_def)
  show "\<not> is_active ?t" "current_node_id ?t = None"
    by (auto simp: from_snapshot_def recompute_ready_def is_active_def graph_status_def current_node_id_def Let_def)
  show "\<forall>n \<in> set (nodes_of ?t). \<not> in_flight (n_status n)"
    by (auto simp: ns promote_ready_def in_flight_def demote_in_flight_def)
  show "shape (nodes_of ?t) = shape (g_nodes s)" by (simp add: ns keeps_shape)
  show "graph_reach ?t" using graph_reach.step [OF assms(1) graph_step.restart [OF assms(2)]] .
  show "node_st i t = Some Achieved \<longleftrightarrow> node_st i ?t = Some Achieved" for i
  proof -
    let ?f = "\<lambda>n. promote (achieved_ids ?ns) (demote_in_flight n)"
    have "n_id (?f n) = n_id n" for n by (simp add: demote_in_flight_def)
    then have "st_of (map ?f ns) i = map_option (\<lambda>n. n_status (?f n)) (find (\<lambda>n. n_id n = i) ns)" for ns
      by (induction ns) (simp_all add: st_of_def)
    then have "st_of (nodes_of ?t) i = map_option (\<lambda>n. n_status (?f n)) (find (\<lambda>n. n_id n = i) (g_nodes s))"
      unfolding ns promote_ready_def map_map comp_def .
    moreover have "node_st i t = map_option n_status (find (\<lambda>n. n_id n = i) (g_nodes s))"
      using assms(2) by (simp add: node_st_def st_of_def)
    moreover have "n_status (?f n) = Achieved \<longleftrightarrow> n_status n = Achieved" for n by (simp add: demote_in_flight_def)
    ultimately show ?thesis unfolding node_st_nodes [of _ ?t] by auto
  qed
qed

text \<open>
  Resuming a graph that hit its token budget with a positive top-up gives exactly that much
  headroom above what the nodes already spent, and makes the graph Active; a non-positive top-up
  or another status changes nothing.
\<close>

lemma budget_top_up_exact:
  assumes "t_state t = Some s" "g_status s = BudgetLimited" "0 < extra" "in_i64 extra" "in_i64 (g_tokens_spent_nodes s + extra)"
  shows "remaining_budget (snd (resume_budget_limited ck extra t)) = Some extra \<and>
    is_active (snd (resume_budget_limited ck extra t)) \<and>
    (\<forall>u k. k \<le> 0 \<or> graph_status u \<noteq> Some BudgetLimited \<longrightarrow> resume_budget_limited ck k u = (False, u))"
proof -
  have "(\<forall>u k. k \<le> 0 \<or> graph_status u \<noteq> Some BudgetLimited \<longrightarrow> resume_budget_limited ck k u = (False, u))"
    by (auto simp: resume_budget_limited_def graph_status_def split: option.splits)
  then show ?thesis
    using assms by (simp add: resume_budget_limited_def remaining_budget_def recompute_ready_def sat_add_i64_exact
        wrap_i64_exact push_history_def is_active_def graph_status_def)
qed

text \<open>
  When the budget is exhausted, budget_limit turns an active graph to BudgetLimited with no node
  in flight and no current node; a plain resume then does nothing, only a top-up reactivates it.
\<close>

lemma budget_limit_parks:
  assumes "is_active t"
  shows "fst (graph_budget_limit ck t) \<and> graph_status (snd (graph_budget_limit ck t)) = Some BudgetLimited \<and>
    current_node_id (snd (graph_budget_limit ck t)) = None \<and>
    (\<forall>n \<in> set (nodes_of (snd (graph_budget_limit ck t))). \<not> in_flight (n_status n)) \<and>
    graph_resume ck' (snd (graph_budget_limit ck t)) = (False, snd (graph_budget_limit ck t))"
proof -
  obtain s where s: "t_state t = Some s" "g_status s = Active" using assms by (auto simp: is_active_def graph_status_def)
  then obtain s' where e: "t_state (account_elapsed ck t) = Some s'" "g_status s' = Active"
    by (auto simp: account_elapsed_def split: option.splits)
  show ?thesis
    using e by (auto simp: graph_budget_limit_def Let_def graph_status_def current_node_id_def nodes_of_def graph_resume_def
        demote_in_flight_def in_flight_def)
qed

text \<open>
  /graph <objective> and /graph resume always return; an Inference outcome (which starts a turn)
  means that the graph is active, and a Message outcome never turns a graph that was not active
  into an active one.
\<close>

lemma commands_report_faithfully:
  assumes "sess_inv w s" "graph_harness_enabled w" "drive_fuel w \<le> fuel"
  shows "(\<exists>out s'. setup_graph fuel w objective budget s = Some (out, s') \<and> sess_inv w s' \<and>
      (case out of Inference _ _ \<Rightarrow> is_active (ss_graph s') | Message _ \<Rightarrow> is_active (ss_graph s') \<longrightarrow> is_active (ss_graph s))) \<and>
    (\<exists>out s'. resume_graph fuel w extra s = Some (out, s') \<and> sess_inv w s' \<and>
      (case out of Inference _ _ \<Rightarrow> is_active (ss_graph s') | Message _ \<Rightarrow> is_active (ss_graph s') \<longrightarrow> is_active (ss_graph s)))"
proof -
  have c: "\<exists>out s'. r = Some (out, s') \<and> sess_inv w s' \<and>
      (case out of Inference _ _ \<Rightarrow> is_active (ss_graph s') | Message _ \<Rightarrow> is_active (ss_graph s') \<longrightarrow> is_active (ss_graph s))"
    if r: "command_post w s r" for r
  proof -
    obtain out s' where "r = Some (out, s')" "sess_inv w s'" "case out of Inference _ _ \<Rightarrow> is_active (ss_graph s')
        | Message _ \<Rightarrow> graph_harness_enabled w \<longrightarrow> \<not> is_active (ss_graph s) \<longrightarrow> \<not> is_active (ss_graph s')"
      using r by (auto simp: command_post_def)
    then show ?thesis using assms(2) by (cases out) auto
  qed
  show ?thesis using c [OF setup_post [OF assms(1,3)]] c [OF resume_post [OF assms(1,3)]] by blast
qed

text \<open>
  A checkpoint changes the project file only while the session holds the writer lock, and then
  the file is its old content, the complete encoding of the graph in memory, or removed because
  the graph was cleared; when any step of the write fails the old content stays.
\<close>

lemma checkpoint_file_atomic:
  "ss_file (persist_graph_state w s) = ss_file s \<or>
    (ss_lock s \<and> cf_project_dir w \<noteq> None \<and>
      (case t_state (ss_graph s) of
         Some st \<Rightarrow> (\<exists>content. project_text (cf_serde w) st = Inr content \<and> ss_file (persist_graph_state w s) = Some content \<and>
           wr_mkdir (w_write w (ss_tick s)) = None \<and> wr_create (w_write w (ss_tick s)) = None \<and> wr_write (w_write w (ss_tick s)) = None \<and>
           wr_sync (w_write w (ss_tick s)) = None \<and> wr_replace (w_write w (ss_tick s)) = None)
       | None \<Rightarrow> ss_file (persist_graph_state w s) = None))"
  by (auto simp: sync_project_def project_def remove_projection_def split: option.splits sum.splits)

text \<open>
  /graph <objective> never replaces unfinished work: with a graph in the session that is not
  Complete it changes nothing, and with an unfinished graph in the project file it leaves the
  graph, the goal, the checkpoints and the file as they are.
\<close>

lemma setup_never_replaces:
  assumes "(\<exists>st. graph_status (ss_graph s) = Some st \<and> st \<noteq> Complete) \<or>
      (\<exists>dir st. cf_project_dir w = Some dir \<and> (\<forall>n. w_read_err w n = None) \<and>
        load (cf_serde w) dir (Inr (ss_file s)) = Inr (Some st) \<and> g_status st \<noteq> Complete)"
  shows "\<exists>msg s'. setup_graph fuel w objective budget s = Some (Message msg, s') \<and> ss_graph s' = ss_graph s \<and> ss_goal s' = ss_goal s \<and>
    ss_file s' = ss_file s \<and> checkpoints s' = checkpoints s"
  using assms
proof
  assume "\<exists>st. graph_status (ss_graph s) = Some st \<and> st \<noteq> Complete"
  then show ?thesis using setup_refused by blast
next
  assume "\<exists>dir st. cf_project_dir w = Some dir \<and> (\<forall>n. w_read_err w n = None) \<and>
        load (cf_serde w) dir (Inr (ss_file s)) = Inr (Some st) \<and> g_status st \<noteq> Complete"
  then obtain dir st where d: "cf_project_dir w = Some dir" "\<forall>n. w_read_err w n = None"
    "load (cf_serde w) dir (Inr (ss_file s)) = Inr (Some st)" "g_status st \<noteq> Complete" by blast
  show ?thesis using setup_refused_project [OF d, of fuel objective budget] by (auto simp: same_state_def)
qed

text \<open>
  /graph clear in a session whose graph is not the one in the project file clears the session
  graph, gives up the lock and leaves the file of the other graph alone, when the file can be
  read.
\<close>

lemma clear_keeps_foreign_projection:
  assumes "t_state (ss_graph s) = Some mine" "cf_project_dir w = Some dir" "\<forall>n. w_read_err w n = None"
    and "load (cf_serde w) dir (Inr (ss_file s)) = Inr (Some other)" "g_graph_id other \<noteq> g_graph_id mine"
  shows "ss_file (graph_clear_command w s) = ss_file s \<and> t_state (ss_graph (graph_clear_command w s)) = None \<and>
    \<not> ss_lock (graph_clear_command w s)"
  using clear_foreign [OF assms] by blast

text \<open>
  Whatever snapshot a goal is restored from, the tracker only ever removes directories named
  kigi-goal-<12 hex digits> under the temp directory, and only moves a details file that lies,
  without any .. component, inside such a directory into the goal directory of the session.
\<close>

lemma goal_files_confined:
  assumes "goal_step\<^sup>*\<^sup>* (goal_tracker_new dir) t"
  shows "(\<forall>p. RemoveDirAll p \<in> set (gt_fs t) \<longrightarrow> (\<exists>(h :: goal_host) vid. canonical_verifier_id vid \<and> p = path_join (h_temp_dir h) (''kigi-goal-'' @ vid))) \<and>
    (\<forall>src dest. RescueMove src dest \<in> set (gt_fs t) \<longrightarrow> ParentDir \<notin> set (components src) \<and>
      (\<exists>h vid. canonical_verifier_id vid \<and> path_starts_with src (goal_scratch_root h vid)) \<and>
      (\<exists>name. file_name src = Some name \<and> dest = path_join (goal_dir t) name))"
proof -
  have "goal_ok t" using goal.inv_run [OF _ assms] by blast
  then have c: "call_ok (goal_dir t) c" if "c \<in> set (gt_fs t)" for c using that by (simp add: goal_ok_def)
  have "\<exists>(h :: goal_host) vid. canonical_verifier_id vid \<and> p = path_join (h_temp_dir h) (''kigi-goal-'' @ vid)" if "RemoveDirAll p \<in> set (gt_fs t)" for p
    using c [OF that] by (simp add: call_ok_def scratch_path_def goal_scratch_root_def)
  moreover have "ParentDir \<notin> set (components src) \<and>
      (\<exists>h vid. canonical_verifier_id vid \<and> path_starts_with src (goal_scratch_root h vid)) \<and>
      (\<exists>name. file_name src = Some name \<and> dest = path_join (goal_dir t) name)" if "RescueMove src dest \<in> set (gt_fs t)" for src dest
    using c [OF that] by (auto simp: call_ok_def scratch_path_def)
  ultimately show ?thesis by blast
qed

text \<open>
  The tokens charged to a goal never decrease, do not depend on the order in which the subagent
  records are visited, and saturate instead of overflowing: the finished subagents of the goal
  count for the sum of their marginals, capped at i64::MAX.
\<close>

lemma goal_tokens_exact:
  assumes "gt_orchestration t = Some g" "mset records = mset records'"
  shows "goal_tokens records current t = goal_tokens records' current t \<and>
    o_tokens_used_high_water g \<le> fst (fst (goal_tokens records current t)) \<and>
    snd (fst (goal_tokens records current t)) =
      min i64_max (\<Sum>r\<leftarrow>filter (\<lambda>r. str_goal_id r = Some (o_goal_id g) \<and> str_finished r) records. uint (marginal r))"
  using assms marginal_sum_mset [OF assms(2)]
  by (simp add: goal_tokens_def Let_def fold_marginals_zero filter_filter conj_commute) (simp add: marginal_sum_def)

text \<open>
  The goal transitions apply exactly where they should and report it: pause only on an Active
  goal, resume only on a paused one, complete and budget_limit on an Active or paused one, so
  that a finished goal is never reopened or finished again; a transition that does not apply
  changes nothing.
\<close>

lemma goal_lifecycle:
  "fst (goal_pause_inner ck reason msg t) = (goal_status_of t = Some Active) \<and>
    goal_status_of (snd (goal_pause_inner ck reason msg t)) = (if goal_status_of t = Some Active then Some (to_status reason) else goal_status_of t) \<and>
    fst (goal_resume ck t) = (goal_status_of t \<in> Some ` Collect is_paused) \<and>
    goal_status_of (snd (goal_resume ck t)) = (if goal_status_of t \<in> Some ` Collect is_paused then Some Active else goal_status_of t) \<and>
    fst (goal_complete h ck t) = (goal_status_of t \<notin> {None, Some Complete, Some BudgetLimited}) \<and>
    goal_status_of (snd (goal_complete h ck t)) = (if goal_status_of t \<notin> {None, Some Complete, Some BudgetLimited} then Some Complete else goal_status_of t) \<and>
    fst (goal_budget_limit h ck t) = (goal_status_of t \<notin> {None, Some Complete, Some BudgetLimited}) \<and>
    (fst (goal_pause_inner ck reason msg t) \<or> snd (goal_pause_inner ck reason msg t) = t) \<and>
    (fst (goal_resume ck t) \<or> snd (goal_resume ck t) = t) \<and>
    (fst (goal_complete h ck t) \<or> snd (goal_complete h ck t) = t) \<and>
    (fst (goal_budget_limit h ck t) \<or> snd (goal_budget_limit h ck t) = t)"
proof (cases "gt_orchestration t")
  case (Some g)
  have live: "o_status g = Active \<or> is_paused (o_status g) \<longleftrightarrow> o_status g \<noteq> Complete \<and> o_status g \<noteq> BudgetLimited"
    by (cases "o_status g") simp_all
  have e: "goal_status_of (record_event ck ev d t') = goal_status_of t'" "goal_status_of (remove_scratch_root h t') = goal_status_of t'"
    "goal_status_of (rescue_classifier_details h t') = goal_status_of t'" for ev d t'
    by (auto simp: record_event_def goal_append_history_def remove_scratch_root_def rescue_classifier_details_def goal_status_of_def
        option.map_comp comp_def split: option.splits)
  have s: "goal_status_of t = Some (o_status g)" "goal_status_of (t\<lparr>gt_orchestration := Some g', gt_active_since := a\<rparr>) = Some (o_status g')" for g' a
    using Some by (simp_all add: goal_status_of_def)
  have p: "goal_status_of (snd (goal_pause_inner ck reason msg t)) = (if o_status g = Active then Some (to_status reason) else Some (o_status g))"
    using Some s e by (simp add: goal_pause_inner_def Let_def split: option.splits)
  have q: "goal_status_of (snd (goal_resume ck t)) = (if is_paused (o_status g) then Some Active else Some (o_status g))"
    using Some s e by (simp add: goal_resume_def Let_def)
  have c: "goal_status_of (snd (goal_complete h ck t)) = (if o_status g = Active \<or> is_paused (o_status g) then Some Complete else Some (o_status g))"
    using Some s e by (simp add: goal_complete_def goal_end_def end_goal_fields_def)
  show ?thesis
    unfolding p q c using Some live
    by (simp add: s(1) goal_pause_inner_def goal_resume_def goal_complete_def goal_budget_limit_def goal_end_def Let_def image_iff)
qed (simp add: goal_pause_inner_def goal_resume_def goal_complete_def goal_budget_limit_def goal_end_def goal_status_of_def image_iff)

text \<open>
  When the baseline file of the plan version already exists (a write that failed after creating
  it, or a crash before the nodes were installed), every /graph resume that replans fails with
  AlreadyExists and pauses the graph again, with the same empty plan and the same baseline
  files: retrying cannot succeed.
\<close>

lemma existing_baseline_blocks_planning:
  assumes "run_graph_planning w objective s = (Some (Inr nodes), s1)" "t_state (ss_graph s) = Some st" "w_baseline_err w (ss_tick s1) = None"
    and "baseline_path (g_plan_version st) (ss_graph s) \<in> fst ` set (ss_baselines s)"
  shows "\<exists>s'. finish_planning_on_resume fuel w objective s = Some (Inl (''failed to write graph baseline: '' @ w_exists_err w), s') \<and>
    nodes_of (ss_graph s') = nodes_of (ss_graph s) \<and> \<not> is_active (ss_graph s') \<and> ss_baselines s' = ss_baselines s"
proof -
  note b = baseline_dead_end [OF assms]
  let ?s = "pause_graph w Infra (''failed to write graph baseline: '' @ w_exists_err w) (tick s1)"
  have "nodes_of (ss_graph ?s) = nodes_of (ss_graph s)" "ss_baselines ?s = ss_baselines s"
    using b(2,3) by (simp_all add: pause_graph_def graph_pause_with_message_def)
  then show ?thesis using b(1) pause_graph_stops by blast
qed

text \<open>
  When the verified work of a batch node cannot be merged, the node fails and the tokens its
  workers used are not added to what the graph has spent, unlike every other failure of a node.
\<close>

lemma merge_failure_not_charged:
  assumes "nr_achieved rep" "nr_worktree_path rep = Some p" "\<forall>n. w_apply w n p \<noteq> ApplySuccess" "t_state (ss_graph s) = Some st"
  shows "\<exists>st'. settle_report w head rep s = (False, snd (settle_report w head rep s)) \<and>
    t_state (ss_graph (snd (settle_report w head rep s))) = Some st' \<and> g_tokens_spent_nodes st' = g_tokens_spent_nodes st"
proof -
  note m = merge_failure_spent [OF assms(1-3), of head s]
  have "t_state (ss_graph (snd (settle_report w head rep s))) \<noteq> None" by (rule settle_report_state) (simp add: assms(4))
  then show ?thesis using m assms(4) by (cases "settle_report w head rep s") (auto simp: spent_of_def)
qed

text \<open>
  Every outcome of the verification stage says why: Achieved only with approval; NotAchieved
  without approval, with a non-empty gap list and at least one refuting skeptic whose finding
  the model can fix; Blocked without approval and only when some skeptic refuted and every
  refuting skeptic says the goal is blocked on something outside the model; fail-open only when
  the skeptics were never reached.
\<close>

lemma rejection_names_a_gap:
  "case vr_outcome (run_verification_stage io h v) of
      OutAchieved details \<Rightarrow> approves io h v
    | OutNotAchieved details gaps summary fingerprint \<Rightarrow> \<not> approves io h v \<and> gaps \<noteq> [] \<and>
        (\<exists>r \<in> set (fst (run_panel io h v)). sr_refuted r \<and> \<not> is_blocking (sr_blocking r))
    | OutBlocked details summary \<Rightarrow> \<not> approves io h v \<and> (\<exists>r \<in> set (fst (run_panel io h v)). sr_refuted r) \<and>
        list_all (\<lambda>r. is_blocking (sr_blocking r)) (filter sr_refuted (fst (run_panel io h v)))
    | OutFailOpenAchieved reason details \<Rightarrow> \<not> panel_reached io h v"
  using panel_outcome_cases [of io h v, OF refl] rejected_has_refuter [of io h v]
  by (cases "vr_outcome (run_verification_stage io h v)") (auto simp: list_all_iff)

text \<open>
  The decision at the end of a round of a turn, where the goal engine drains the calls, verifies
  claims and may continue, and the graph engine then dispatches, always returns with the fuel
  drive_fuel, for every answer of the panel, the workers and the file system; what it did is a
  run of the session transition system, so that the graph stays reachable and saved. The drain
  and the end of a turn are such runs as well.
\<close>

lemma turn_decision_terminates:
  assumes "sess_inv w s" "drive_fuel w \<le> fuel"
  shows "(\<exists>r s'. in_turn_decision fuel w q envelopes s = Some (r, s') \<and> (session_step w)\<^sup>*\<^sup>* s s' \<and> sess_inv w s') \<and>
    (session_step w)\<^sup>*\<^sup>* s (snd (drain_goal_updates w q current purpose envelopes s)) \<and>
    (session_step w)\<^sup>*\<^sup>* s (handle_turn_end w q succeeded envelopes s)"
  using in_turn_decision_run [OF assms] goal_engine_runs by blast

text \<open>
  A turn that is cancelled while the panel runs leaves no trace of the verification in the goal:
  the attempt that was reserved is given back, and the status, the bonus, the last verdict, the
  verifier id and the queue of deferred claims are what they were, with the in-flight flag
  cleared.
\<close>

lemma cancelled_verification_refunds:
  assumes "engine_inv w q s" "goal_status_of (ss_goal s) = Some Active" "\<And>n. ve_concurrent q n = []" "\<not> df_cancelled flags"
    and "drain_fire w q (meanwhile w q) current policy tx (flags, s) = (flags', s')" "df_cancelled flags'"
  shows "map_option (\<lambda>g. (o_status g, o_classifier_runs_attempted g, o_strategist_cap_bonus g, o_last_classifier_verdict g, o_verifier_id g))
      (gt_orchestration (ss_goal s')) =
    map_option (\<lambda>g. (o_status g, o_classifier_runs_attempted g, o_strategist_cap_bonus g, o_last_classifier_verdict g, o_verifier_id g))
      (gt_orchestration (ss_goal s)) \<and>
    ss_pending_claims s' = ss_pending_claims s \<and> \<not> ss_in_flight s'"
proof -
  have "engine_view (meanwhile w q a) = engine_view a" for a using assms(3) by (simp add: meanwhile_idle)
  from fire_cancelled [OF assms(1,2) this assms(4), of current policy tx] assms(5,6)
  have "engine_view s' = engine_view s" by simp
  then show ?thesis using assms(1) by (simp add: engine_view_def vw_def verif_def [abs_def] engine_inv_def)
qed

text \<open>
  Of three blocked reports the first two are recorded and leave the goal alone, and the third
  pauses an active goal as Blocked. The reports need not be consecutive: a successful turn whose
  calls only report progress, and which has no deferred claim, leaves the count as it is.
\<close>

lemma blocked_attempts_accumulate:
  "(ss_blocked_streak s < 2 \<longrightarrow>
     ss_blocked_streak (snd (drain_blocked w cmd reason tx (flags, s))) = ss_blocked_streak s + 1 \<and>
     ss_goal (snd (drain_blocked w cmd reason tx (flags, s))) = ss_goal s) \<and>
   (ss_blocked_streak s = 2 \<and> goal_status_of (ss_goal s) = Some Active \<longrightarrow>
     goal_status_of (ss_goal (snd (drain_blocked w cmd reason tx (flags, s)))) = Some Blocked) \<and>
   (list_all (\<lambda>e. ug_blocked_reason (fst e) = None \<and> ug_completed (fst e) \<noteq> Some True) envelopes \<and> ss_pending_claims s = [] \<longrightarrow>
     ss_blocked_streak (handle_turn_end w q True envelopes s) = ss_blocked_streak s)"
proof -
  have "ss_blocked_streak (handle_turn_end w q True envelopes s) = ss_blocked_streak s"
    if "list_all (\<lambda>e. ug_blocked_reason (fst e) = None \<and> ug_completed (fst e) \<noteq> Some True) envelopes" "ss_pending_claims s = []"
    using that by (intro turn_keeps_streak) (simp_all add: progress_only_def list_all_iff)
  then show ?thesis using drain_blocked_records drain_blocked_pauses(1) by blast
qed

text \<open>
  In auto mode a shell command is approved without the user only by proof or by a clear word:
  when the production classifier allows it, either the rule-based pre-pass allowed it, or the
  model did answer and its reply is a JSON object whose shouldBlock field is false (alone or
  embedded in the text) or one of four single words; a failed call, an empty reply and prose
  never approve.
\<close>

lemma model_reply_read_strictly:
  assumes "llm_classify e json model prompt_type tool (AccBash cmd) detail turns instructions = VerdictAllow"
  shows "classify_bash e cmd = VerdictAllow
    \<or> (\<exists>text. model (build_classifier_messages tool (AccBash cmd) detail turns instructions prompt_type) = Some text
         \<and> trim text \<noteq> []
         \<and> (whole_json_verdict json (trim text) = Some False \<or> embedded_json_verdict json (trim text) = Some False
            \<or> trim (to_ascii_lowercase (trim text)) \<in> {''allow'', ''allowed'', ''approve'', ''approved''}))" 
  using assms
  by (auto simp: llm_classify_def parse_classifier_model_text_def verdict_of_def Let_def
      dest: classify_sync_bash split: if_splits option.splits)

text \<open>
  The mode flags that the handles share with the actor catch up with it: the handles set the
  flags at once and the actor later, but in every reachable state with an empty command queue
  the flags say what the actor does, always-approve and auto mode are never on together, the
  actor remembers at most twelve of its own decisions, and a persisted permission to edit
  everything is never in force.
\<close>

lemma mode_flags_agree:
  assumes "(perm_step cfg)\<^sup>*\<^sup>* (actor_start cfg loaded requested) s" "sy_queue s = []"
  shows "sy_yolo_state s = pa_yolo (sy_actor s) \<and> sy_auto_state s = pa_auto (sy_actor s)
    \<and> \<not> (pa_yolo (sy_actor s) \<and> pa_auto (sy_actor s))
    \<and> length (pa_recorded (sy_actor s)) \<le> 12 \<and> ps_edit_policy (pa_state (sy_actor s)) \<noteq> EditAllow"
proof -
  have "perm_inv cfg s" using permissions.inv_run [OF _ assms(1)] by (auto simp: perm_start_def)
  then show ?thesis using assms(2) by (auto simp: perm_inv_def perm_inv_defs)
qed

text \<open>
  An ask rule on web searches has no effect: the access is allowed without a prompt in every
  mode.
\<close>

lemma web_search_ask_ignored:
  assumes "under_policy e config cfg" "rq_access rq = AccWebSearch q" "applying e config (AccWebSearch q) ActAsk"
    and "\<not> applying e config (AccWebSearch q) ActDeny" "\<not> an_gone_at_dequeue an"
  shows "fst (handle_request e cfg rq an a) = Some Allow \<and> \<not> ev_user_prompted (fst (snd (handle_request e cfg rq an a)))"
proof -
  have "direct_gate e config rq = Some Ask"
    using find_deny [of e "AccWebSearch q" config] assms(3,4) by (auto simp: direct_gate_def evaluate_with_cwd_def assms(2) evaluate_spec split: option.split)
  then have "pv_decision (policy_view_of e cfg rq) = Some Ask" "\<not> pv_forced_prompt (policy_view_of e cfg rq)"
    by (simp_all add: view_of_policy [OF assms(1)] command_gate_def file_gate_def link_unresolved_def assms(2))
  with assms(5) show ?thesis
    by (cases "pa_yolo a")
       (simp_all add: handle_request_def Let_def assms(2) auto_stage_def policy_forced_prompt_def decide_def effective_pre_decision_def pre_decision_def mk_event_def)
qed

text \<open>
  A script with a dangerous command that the user allowed once and for all runs without a prompt
  afterwards, although the safe-guard list says that such a command is always put to the user.
\<close>

lemma remembered_dangerous_script_runs:
  "is_dangerous_command_words [''rm'', ''y''] \<and>
   (let a = (demo_actor False)\<lparr>pa_state := permission_state_default\<lparr>ps_allowed_bash_commands := [''rm y'']\<rparr>\<rparr>;
        out = handle_request demo_perm_env (demo_perm_cfg None None) (demo_request (AccBash ''rm y'')) (demo_answers RejectOnce) a
    in fst out = Some Allow \<and> \<not> ev_user_prompted (fst (snd out)))" 
  by code_simp

end
