(* ===== verification/Host_Files.thy ===== *)
theory Host_Files
  imports Perm_Policy
begin

text \<open>
  What the settings loaders and the folder-trust gate see of the machine: parsed JSON and TOML
  values, the file system, the home directories and the git repositories around a directory.  A
  \<open>host\<close> is the machine at one moment; \<open>serde_json\<close>, \<open>toml\<close>, \<open>git2\<close>, \<open>dirs\<close> and the operating
  system are its fields.  The walks towards the file-system root that the loaders share end because
  a parent has fewer components.
\<close>

section \<open>Values\<close>

text \<open>A number is known by its \<open>as_i64\<close> and its text; an object lists each of its keys once.\<close>

datatype json = JNull | JBool bool | JNumber "int option" string | JString string | JArray "json list" | JObject "(string \<times> json) list"

fun json_get :: "json \<Rightarrow> string \<Rightarrow> json option" where
  "json_get (JObject m) k = map_of m k"
| "json_get _ k = None"

fun json_as_str :: "json \<Rightarrow> string option" where
  "json_as_str (JString s) = Some s"
| "json_as_str _ = None"

fun json_as_array :: "json \<Rightarrow> json list option" where
  "json_as_array (JArray xs) = Some xs"
| "json_as_array _ = None"

fun json_as_object :: "json \<Rightarrow> (string \<times> json) list option" where
  "json_as_object (JObject m) = Some m"
| "json_as_object _ = None"

fun json_type_of :: "json \<Rightarrow> string" where
  "json_type_of JNull = ''null''"
| "json_type_of (JBool _) = ''boolean''"
| "json_type_of (JNumber _ _) = ''number''"
| "json_type_of (JString _) = ''string''"
| "json_type_of (JArray _) = ''array''"
| "json_type_of (JObject _) = ''object''"

datatype toml = TString string | TInteger int | TFloat string | TBoolean bool | TDatetime string | TArray "toml list" | TTable "(string \<times> toml) list"

fun toml_get :: "toml \<Rightarrow> string \<Rightarrow> toml option" where
  "toml_get (TTable m) k = map_of m k"
| "toml_get _ k = None"

fun toml_as_str :: "toml \<Rightarrow> string option" where
  "toml_as_str (TString s) = Some s"
| "toml_as_str _ = None"

fun toml_as_bool :: "toml \<Rightarrow> bool option" where
  "toml_as_bool (TBoolean b) = Some b"
| "toml_as_bool _ = None"

fun toml_as_array :: "toml \<Rightarrow> toml list option" where
  "toml_as_array (TArray xs) = Some xs"
| "toml_as_array _ = None"

fun toml_as_table :: "toml \<Rightarrow> (string \<times> toml) list option" where
  "toml_as_table (TTable m) = Some m"
| "toml_as_table _ = None"

section \<open>Searching\<close>

definition find_str :: "string \<Rightarrow> string \<Rightarrow> nat option" where
  "find_str pat s = find (\<lambda>i. prefix pat (drop i s)) [0..<Suc (length s)]"

definition split_once_str :: "string \<Rightarrow> string \<Rightarrow> (string \<times> string) option" where
  "split_once_str pat s = map_option (\<lambda>i. (take i s, drop (i + length pat) s)) (find_str pat s)"

section \<open>The host\<close>

text \<open>The three outcomes of \<open>read_to_string\<close> that the loaders tell apart.\<close>

datatype read_result = ReadOk string | ReadMissing | ReadFailed

record git_repo =
  gr_workdir :: "string option"
  gr_is_worktree :: bool
  gr_commondir :: string

record host =
  ho_perm :: perm_env
  ho_read :: "string \<Rightarrow> read_result"
  ho_exists :: "string \<Rightarrow> bool"
  ho_is_file :: "string \<Rightarrow> bool"
  ho_is_dir :: "string \<Rightarrow> bool"
  ho_json :: "string \<Rightarrow> json option" \<comment> \<open>\<open>serde_json::from_str\<close>\<close>
  ho_toml :: "string \<Rightarrow> toml option" \<comment> \<open>\<open>toml::from_str\<close>\<close>
  ho_config :: "string \<Rightarrow> toml option" \<comment> \<open>\<open>kigi_config::load_config_file\<close>\<close>
  ho_env_var :: "string \<Rightarrow> string option"
  ho_home :: "string option" \<comment> \<open>\<open>dirs::home_dir\<close>\<close>
  ho_kigi_home :: "string option" \<comment> \<open>\<open>kigi_config::user_kigi_home\<close>\<close>
  ho_discover :: "string \<Rightarrow> git_repo option" \<comment> \<open>\<open>Repository::discover\<close>\<close>
  ho_open :: "string \<Rightarrow> git_repo option" \<comment> \<open>\<open>Repository::open\<close>\<close>
  ho_glob_ci :: "string \<Rightarrow> string \<Rightarrow> bool" \<comment> \<open>pattern and text, whatever the case\<close>
  ho_worktree_source :: "string \<Rightarrow> string option" \<comment> \<open>the registry of managed worktrees\<close>

definition canonicalize_or_owned :: "host \<Rightarrow> string \<Rightarrow> string" where
  "canonicalize_or_owned h p = (case pe_canonicalize (ho_perm h) p of Some q \<Rightarrow> q | None \<Rightarrow> p)"

text \<open>Equality of paths is equality of their components.\<close>

definition path_eq :: "string \<Rightarrow> string \<Rightarrow> bool" where
  "path_eq p q \<longleftrightarrow> components p = components q"

definition is_home_dir :: "host \<Rightarrow> string \<Rightarrow> bool" where
  "is_home_dir h p =
     (case ho_home h of None \<Rightarrow> False | Some home \<Rightarrow> path_eq (canonicalize_or_owned h p) (canonicalize_or_owned h home))"

section \<open>Walking up\<close>

subsection \<open>The components of a path built from components\<close>

lemma split_slash_nonempty [simp]: "split_slash cur s \<noteq> []"
  by (induction cur s rule: split_slash.induct) auto

lemma split_slash_join: "split_slash cur (p @ CHR ''/'' # t) = split_slash cur p @ split_slash [] t"
  by (induction cur p rule: split_slash.induct) auto

lemma split_slash_plain: "CHR ''/'' \<notin> set t \<Longrightarrow> split_slash cur t = [rev cur @ t]"
  by (induction cur t rule: split_slash.induct) auto

lemma split_slash_pieces: "s \<in> set (split_slash cur p) \<Longrightarrow> CHR ''/'' \<notin> set cur \<Longrightarrow> CHR ''/'' \<notin> set s"
  by (induction cur p rule: split_slash.induct) (auto split: if_splits)

text \<open>A component that is spelled by its own text.\<close>

definition plain_component :: "component \<Rightarrow> bool" where
  "plain_component c \<longleftrightarrow> component_of (component_text c) = Some c \<and> CHR ''/'' \<notin> set (component_text c)"

lemma plain_text:
  assumes "plain_component c"
  shows "component_text c \<noteq> []" "component_text c \<noteq> ''.''" "CHR ''/'' \<notin> set (component_text c)" "\<not> prefix ''/'' (component_text c)"
  using assms by (auto simp: plain_component_def split: if_splits) (metis list.set_intros(1) prefix_Cons list.inject prefixE append_Cons)

lemma map_filter_snoc: "List.map_filter f (xs @ ys) = List.map_filter f xs @ List.map_filter f ys"
  by (simp add: List.map_filter_def)

lemma components_snoc:
  assumes c: "plain_component c"
  shows "components (path_join p (component_text c)) = components p @ [c]"
proof -
  let ?t = "component_text c"
  note t = plain_text [OF c]
  have one: "List.map_filter component_of (split_slash [] ?t) = [c]"
    using c t by (simp add: split_slash_plain List.map_filter_def plain_component_def)
  consider "p = []" | q where "p = q @ ''/''" | "p \<noteq> []" "last p \<noteq> CHR ''/''"
    by (metis append_butlast_last_id)
  then show ?thesis
  proof cases
    case 1
    then show ?thesis using one t by (simp add: components_def path_join_def split_slash_plain Let_def List.map_filter_def)
  next
    case 2
    then have "split_slash [] (path_join p ?t) = split_slash [] q @ [?t]" "split_slash [] p = split_slash [] q @ [[]]"
      using t split_slash_join [of "[]" q ?t] split_slash_join [of "[]" q "[]"] by (auto simp: path_join_def split_slash_plain)
    moreover have "prefix ''/'' (path_join p ?t) \<longleftrightarrow> prefix ''/'' p" using t 2 by (cases q) (auto simp: path_join_def)
    ultimately show ?thesis using one c by (simp add: components_def Let_def map_filter_snoc List.map_filter_def plain_component_def)
  next
    case 3
    then have "split_slash [] (path_join p ?t) = split_slash [] p @ [?t]"
      using t split_slash_join [of "[]" p ?t] by (auto simp: path_join_def split_slash_plain)
    moreover have "prefix ''/'' (path_join p ?t) \<longleftrightarrow> prefix ''/'' p" using t 3 by (cases p) (auto simp: path_join_def)
    ultimately show ?thesis using one c by (simp add: components_def Let_def map_filter_snoc List.map_filter_def plain_component_def)
  qed
qed

lemma path_of_snoc: "path_of (cs @ [c]) = path_join (path_of cs) (component_text c)"
  by (simp add: path_of_def)

lemma component_of_plain: "component_of s = Some c \<Longrightarrow> CHR ''/'' \<notin> set s \<Longrightarrow> plain_component c"
  by (auto simp: plain_component_def split: if_splits)

lemma components_shape:
  obtains hs cs where "components p = hs @ cs" "hs \<in> {[], [RootDir], [CurDir]}" "\<forall>c\<in>set cs. plain_component c"
proof -
  let ?cs = "List.map_filter component_of (split_slash [] p)"
  have "\<forall>c\<in>set ?cs. plain_component c"
    by (auto simp: List.map_filter_def intro!: component_of_plain dest: split_slash_pieces)
  then show ?thesis by (rule that [rotated 2]) (auto simp: components_def Let_def split: if_splits)
qed

lemma components_path_of_plain:
  "components (path_of hs) = hs \<Longrightarrow> \<forall>c\<in>set cs. plain_component c \<Longrightarrow> components (path_of (hs @ cs)) = hs @ cs"
  by (induction cs rule: rev_induct) (auto simp: path_of_snoc components_snoc simp flip: append_assoc)

lemma components_path_of: "components (path_of (take n (components p))) = take n (components p)"
proof -
  obtain hs cs where p: "components p = hs @ cs" and hs: "hs \<in> {[], [RootDir], [CurDir]}" and cs: "\<forall>c\<in>set cs. plain_component c"
    by (rule components_shape)
  have base: "components (path_of (take n hs)) = take n hs"
    using hs by (cases n) (auto simp: path_of_def path_join_def components_def List.map_filter_def)
  have "\<forall>c\<in>set (take (n - length hs) cs). plain_component c" using cs by (auto dest: in_set_takeD)
  from components_path_of_plain [OF base this] show ?thesis using p by simp
qed

lemma path_parent_components: "path_parent p = Some q \<Longrightarrow> components q = butlast (components p) \<and> components p \<noteq> []"
  by (auto simp: path_parent_def Let_def butlast_conv_take components_path_of split: if_splits)

subsection \<open>The walk\<close>

text \<open>The directories from \<open>cur\<close> upwards, \<open>cur\<close> first, up to the first one at which \<open>stop\<close> holds.\<close>

function walk_up :: "(string \<Rightarrow> bool) \<Rightarrow> string \<Rightarrow> string list" where
  "walk_up stop cur = cur # (if stop cur then [] else case path_parent cur of Some p \<Rightarrow> walk_up stop p | None \<Rightarrow> [])"
  by pat_completeness auto
termination
  by (relation "measure (\<lambda>(_, p). length (components p))") (auto dest!: path_parent_components)

declare walk_up.simps [simp del]

lemma walk_up_mem:
  "d \<in> set (walk_up stop cur) \<longleftrightarrow> d = cur \<or> \<not> stop cur \<and> (\<exists>q. path_parent cur = Some q \<and> d \<in> set (walk_up stop q))"
  by (subst walk_up.simps) (auto split: option.splits)

lemma walk_up_ancestor: "d \<in> set (walk_up stop cur) \<Longrightarrow> path_starts_with cur d"
proof (induction stop cur rule: walk_up.induct)
  case (1 stop cur)
  show ?case
  proof (cases "d = cur")
    case False
    then obtain q where q: "path_parent cur = Some q" "\<not> stop cur" "d \<in> set (walk_up stop q)"
      using "1.prems" walk_up_mem [of d stop cur] by blast
    with "1.IH" have "path_starts_with q d" by blast
    moreover have "prefix (components q) (components cur)"
      using path_parent_components [OF q(1)] by (simp add: butlast_conv_take take_is_prefix)
    ultimately show ?thesis by (auto simp: path_starts_with_def intro: prefix_order.trans)
  qed (simp add: path_starts_with_def)
qed

text \<open>A walk that starts below its stop ends there: everything it visits lies at or below the stop.\<close>

lemma walk_up_below:
  "path_starts_with cur root \<Longrightarrow> d \<in> set (walk_up (\<lambda>d. path_eq d root) cur) \<Longrightarrow> path_starts_with d root"
proof (induction "\<lambda>d. path_eq d root" cur rule: walk_up.induct)
  case (1 cur)
  show ?case
  proof (cases "d = cur")
    case False
    then obtain q where q: "path_parent cur = Some q" "components cur \<noteq> components root" "d \<in> set (walk_up (\<lambda>d. path_eq d root) q)"
      using "1.prems" walk_up_mem [of d "\<lambda>d. path_eq d root" cur] by (auto simp: path_eq_def)
    then have "path_starts_with q root"
      using "1.prems"(1) path_parent_components [OF q(1)]
      by (metis append_butlast_last_id path_starts_with_def prefix_snoc)
    with q "1.hyps" show ?thesis by (auto simp: path_eq_def)
  qed (use 1 in simp)
qed

end
