(* ===== verification/Trust_Store.thy ===== *)
theory Trust_Store
  imports Host_Files
begin

text \<open>
  \<open>kigi-workspace/src/trust.rs\<close>: the store of folder-trust decisions.  A decision holds for a folder
  and everything below it until a nearer folder has its own.  The document is a sorted map from folder
  to record; its file is read again under a lock before every write.  \<open>trust_io\<close> holds the TOML
  format of the document.  The lemmas relate the scan to its specification, the most specific
  decision, and follow a decision through the file.
\<close>

section \<open>The document\<close>

record folder_trust =
  ft_trusted :: bool
  ft_decided_at :: "i64 option"

type_synonym trust_document = "(string \<times> folder_trust) list"

text \<open>\<open>BTreeMap::insert\<close>.\<close>

fun btree_insert :: "'k::linorder \<Rightarrow> 'v \<Rightarrow> ('k \<times> 'v) list \<Rightarrow> ('k \<times> 'v) list" where
  "btree_insert k v [] = [(k, v)]"
| "btree_insert k v ((k', v') # m) =
     (if k = k' then (k, v) # m else if k < k' then (k, v) # (k', v') # m else (k', v') # btree_insert k v m)"

record trust_store =
  ts_doc :: trust_document
  ts_path :: "string option"

record trust_io =
  ti_parse :: "string \<Rightarrow> trust_document option"
  ti_print :: "trust_document \<Rightarrow> string option"

text \<open>How the steps of one write end: creating the directory and locking, then publishing the new file.\<close>

record store_write =
  wi_prepare :: "string option"
  wi_publish :: "string option"

definition read_doc :: "trust_io \<Rightarrow> read_result \<Rightarrow> trust_document" where
  "read_doc io file =
     (case file of ReadOk contents \<Rightarrow> (case ti_parse io contents of Some doc \<Rightarrow> doc | None \<Rightarrow> []) | _ \<Rightarrow> [])"

definition default_path_in :: "string option \<Rightarrow> string option" where
  "default_path_in user_kigi_home = map_option (\<lambda>g. path_join g ''trusted_folders.toml'') user_kigi_home"

definition load_from :: "trust_io \<Rightarrow> string \<Rightarrow> read_result \<Rightarrow> trust_store" where
  "load_from io path file = \<lparr>ts_doc = read_doc io file, ts_path = Some path\<rparr>"

definition store_load :: "trust_io \<Rightarrow> host \<Rightarrow> read_result \<Rightarrow> trust_store" where
  "store_load io h file =
     (case default_path_in (ho_kigi_home h) of Some path \<Rightarrow> load_from io path file | None \<Rightarrow> \<lparr>ts_doc = [], ts_path = None\<rparr>)"

section \<open>Queries\<close>

definition is_unsafe_trust_root :: "host \<Rightarrow> string \<Rightarrow> bool" where
  "is_unsafe_trust_root h key \<longleftrightarrow> \<not> is_absolute key \<or> path_parent key = None \<or> is_home_dir h key"

text \<open>A record counts when its folder is at or above the key and is not too broad.\<close>

definition governs :: "host \<Rightarrow> string \<Rightarrow> string \<Rightarrow> bool" where
  "governs h key folder \<longleftrightarrow> \<not> is_unsafe_trust_root h folder \<and> path_starts_with key folder"

definition depth :: "string \<Rightarrow> nat" where
  "depth folder = length (components folder)"

definition weigh_record :: "host \<Rightarrow> string \<Rightarrow> nat option \<times> bool \<Rightarrow> string \<times> folder_trust \<Rightarrow> nat option \<times> bool" where
  "weigh_record h key best rec =
     (let (best_depth, trusted) = best; (folder, r) = rec
      in if \<not> governs h key folder then best
         else case best_depth of
                Some d \<Rightarrow>
                  if depth folder < d then best
                  else if depth folder = d then (best_depth, trusted \<and> ft_trusted r)
                  else (Some (depth folder), ft_trusted r)
              | None \<Rightarrow> (Some (depth folder), ft_trusted r))"

definition is_trusted :: "host \<Rightarrow> trust_store \<Rightarrow> string \<Rightarrow> bool" where
  "is_trusted h s workspace_key = snd (foldl (weigh_record h (canonicalize_or_owned h workspace_key)) (None, False) (ts_doc s))"

definition has_decision :: "host \<Rightarrow> trust_store \<Rightarrow> string \<Rightarrow> bool" where
  "has_decision h s key \<longleftrightarrow> canonicalize_or_owned h key \<in> fst ` set (ts_doc s)"

definition store_len :: "trust_store \<Rightarrow> nat" where
  "store_len s = length (ts_doc s)"

section \<open>Recording\<close>

definition record_trust_decision ::
  "trust_io \<Rightarrow> host \<Rightarrow> store_write \<Rightarrow> i64 option \<Rightarrow> trust_store \<times> read_result \<Rightarrow> string \<Rightarrow> bool \<Rightarrow> (string + unit) \<times> trust_store \<times> read_result" where
  "record_trust_decision io h w now sf key trusted =
     (let (s, file) = sf; canonical = canonicalize_or_owned h key
      in if is_unsafe_trust_root h canonical then (Inr (), sf)
         else case ts_path s of
                None \<Rightarrow> (Inr (), sf)
              | Some path \<Rightarrow>
                  if path_parent path = None then (Inl ''trust store path has no parent'', sf)
                  else (case wi_prepare w of
                          Some e \<Rightarrow> (Inl e, sf)
                        | None \<Rightarrow>
                            let doc = btree_insert canonical \<lparr>ft_trusted = trusted, ft_decided_at = now\<rparr> (read_doc io file)
                            in (case ti_print io doc of
                                  None \<Rightarrow> (Inl ''invalid data'', sf)
                                | Some body \<Rightarrow>
                                    (case wi_publish w of
                                       Some e \<Rightarrow> (Inl e, sf)
                                     | None \<Rightarrow> (Inr (), s\<lparr>ts_doc := doc\<rparr>, ReadOk body)))))"

definition set_trusted ::
  "trust_io \<Rightarrow> host \<Rightarrow> store_write \<Rightarrow> i64 option \<Rightarrow> trust_store \<times> read_result \<Rightarrow> string \<Rightarrow> (string + unit) \<times> trust_store \<times> read_result" where
  "set_trusted io h w now sf key = record_trust_decision io h w now sf key True"

definition set_untrusted ::
  "trust_io \<Rightarrow> host \<Rightarrow> store_write \<Rightarrow> i64 option \<Rightarrow> trust_store \<times> read_result \<Rightarrow> string \<Rightarrow> (string + unit) \<times> trust_store \<times> read_result" where
  "set_untrusted io h w now sf key = record_trust_decision io h w now sf key False"

section \<open>The key of a workspace\<close>

definition git_derived_workspace_key :: "host \<Rightarrow> string \<Rightarrow> string" where
  "git_derived_workspace_key h cwd =
     (case ho_worktree_source h cwd of
        Some source_repo \<Rightarrow>
          (case Option.bind (ho_discover h source_repo) gr_workdir of
             Some wd \<Rightarrow> canonicalize_or_owned h wd
           | None \<Rightarrow> canonicalize_or_owned h source_repo)
      | None \<Rightarrow>
          (case ho_discover h cwd of
             None \<Rightarrow> canonicalize_or_owned h cwd
           | Some repo \<Rightarrow>
               let own = (case gr_workdir repo of Some wd \<Rightarrow> canonicalize_or_owned h wd | None \<Rightarrow> canonicalize_or_owned h cwd)
               in if gr_is_worktree repo
                  then (case Option.bind (ho_open h (gr_commondir repo)) gr_workdir of
                          Some main_workdir \<Rightarrow>
                            if path_eq (canonicalize_or_owned h (path_join main_workdir ''.git'')) (canonicalize_or_owned h (gr_commondir repo))
                            then canonicalize_or_owned h main_workdir else own
                        | None \<Rightarrow> own)
                  else own))"

definition workspace_key :: "host \<Rightarrow> string \<Rightarrow> string" where
  "workspace_key h cwd =
     (let key = git_derived_workspace_key h cwd in if is_unsafe_trust_root h key then canonicalize_or_owned h cwd else key)"

section \<open>Migration of the hook grants\<close>

definition list_trusted_projects :: "read_result \<Rightarrow> string list option" where
  "list_trusted_projects file =
     (case file of
        ReadOk content \<Rightarrow> Some (filter (\<lambda>l. l \<noteq> [] \<and> \<not> prefix ''#'' l) (map trim (lines content)))
      | ReadMissing \<Rightarrow> Some []
      | ReadFailed \<Rightarrow> None)"

record migration =
  mi_store :: trust_store
  mi_file :: read_result
  mi_migrated :: nat
  mi_had_seed_error :: bool

definition migrate_project ::
  "trust_io \<Rightarrow> host \<Rightarrow> (string \<Rightarrow> store_write) \<Rightarrow> i64 option \<Rightarrow> migration \<Rightarrow> string \<Rightarrow> migration" where
  "migrate_project io h w now m project =
     (if has_decision h (mi_store m) project then m
      else let (result, store, file) = set_trusted io h (w project) now (mi_store m, mi_file m) project;
               m' = m\<lparr>mi_store := store, mi_file := file\<rparr>
           in case result of
                Inl _ \<Rightarrow> m'\<lparr>mi_had_seed_error := True\<rparr>
              | Inr _ \<Rightarrow> if has_decision h store project then m'\<lparr>mi_migrated := Suc (mi_migrated m)\<rparr> else m')"

text \<open>The result and whether the legacy file is to be renamed.\<close>

definition migrate_legacy_hook_trust_in ::
  "trust_io \<Rightarrow> host \<Rightarrow> (string \<Rightarrow> store_write) \<Rightarrow> i64 option \<Rightarrow> read_result \<Rightarrow> bool \<Rightarrow> trust_store \<times> read_result \<Rightarrow> nat \<times> (trust_store \<times> read_result) \<times> bool" where
  "migrate_legacy_hook_trust_in io h w now legacy legacy_exists sf =
     (case list_trusted_projects legacy of
        None \<Rightarrow> (0, sf, False)
      | Some projects \<Rightarrow>
          let m = foldl (migrate_project io h w now)
                    \<lparr>mi_store = fst sf, mi_file = snd sf, mi_migrated = 0, mi_had_seed_error = False\<rparr> projects
          in (mi_migrated m, (mi_store m, mi_file m), \<not> mi_had_seed_error m \<and> legacy_exists))"

section \<open>Lemmas\<close>

lemma map_of_btree_insert [simp]: "map_of (btree_insert k v m) = (map_of m)(k \<mapsto> v)"
  by (induction k v m rule: btree_insert.induct) auto

lemma btree_insert_mem: "(k, v) \<in> set (btree_insert k v m)"
  by (induction k v m rule: btree_insert.induct) auto

lemma btree_insert_subset: "set (btree_insert k v m) \<subseteq> insert (k, v) (set m)"
  by (induction k v m rule: btree_insert.induct) auto

lemma btree_insert_keeps: "(k', v') \<in> set m \<Longrightarrow> k' \<noteq> k \<Longrightarrow> (k', v') \<in> set (btree_insert k v m)"
  by (induction k v m rule: btree_insert.induct) auto

lemma btree_insert_sorted: "sorted_wrt (<) (map fst m) \<Longrightarrow> sorted_wrt (<) (map fst (btree_insert k v m))"
proof (induction k v m rule: btree_insert.induct)
  case (2 k v k' v' m)
  then show ?case using btree_insert_subset [of k v m] by (auto simp: image_iff)
qed simp

subsection \<open>The most specific decision\<close>

text \<open>What the scan has found in the records it has seen.\<close>

definition scanned :: "host \<Rightarrow> string \<Rightarrow> trust_document \<Rightarrow> nat option \<times> bool \<Rightarrow> bool" where
  "scanned h key recs best =
     (case best of
        (None, t) \<Rightarrow> \<not> t \<and> (\<forall>(f, r)\<in>set recs. \<not> governs h key f)
      | (Some d, t) \<Rightarrow>
          (\<exists>(f, r)\<in>set recs. governs h key f \<and> depth f = d) \<and> (\<forall>(f, r)\<in>set recs. governs h key f \<longrightarrow> depth f \<le> d) \<and>
          (t \<longleftrightarrow> (\<forall>(f, r)\<in>set recs. governs h key f \<and> depth f = d \<longrightarrow> ft_trusted r)))"

lemma weigh_record_scanned: "scanned h key recs best \<Longrightarrow> scanned h key (recs @ [rec]) (weigh_record h key best rec)"
  by (cases best; cases "fst best"; cases rec)
    (force simp: scanned_def weigh_record_def split: if_splits)+

lemma scan_scanned: "scanned h key recs (foldl (weigh_record h key) (None, False) recs)"
  by (induction recs rule: rev_induct) (auto simp: weigh_record_scanned, simp add: scanned_def)

definition most_specific :: "host \<Rightarrow> trust_document \<Rightarrow> string \<Rightarrow> string \<Rightarrow> bool" where
  "most_specific h recs key f \<longleftrightarrow>
     f \<in> fst ` set recs \<and> governs h key f \<and> (\<forall>g\<in>fst ` set recs. governs h key g \<longrightarrow> depth g \<le> depth f)"

lemma is_trusted_iff:
  "is_trusted h s key \<longleftrightarrow>
     (\<exists>f. most_specific h (ts_doc s) (canonicalize_or_owned h key) f) \<and>
     (\<forall>(f, r)\<in>set (ts_doc s). most_specific h (ts_doc s) (canonicalize_or_owned h key) f \<longrightarrow> ft_trusted r)"
proof -
  let ?k = "canonicalize_or_owned h key"
  obtain b t where scan: "foldl (weigh_record h ?k) (None, False) (ts_doc s) = (b, t)" by fastforce
  with scan_scanned [of h ?k "ts_doc s"] have ok: "scanned h ?k (ts_doc s) (b, t)" by simp
  show ?thesis
  proof (cases b)
    case None
    with ok have "\<not> t" "\<nexists>f. most_specific h (ts_doc s) ?k f" by (auto simp: scanned_def most_specific_def)
    then show ?thesis by (simp add: is_trusted_def scan)
  next
    case (Some d)
    with ok have ex: "\<exists>(f, r)\<in>set (ts_doc s). governs h ?k f \<and> depth f = d"
      and top: "\<forall>(f, r)\<in>set (ts_doc s). governs h ?k f \<longrightarrow> depth f \<le> d"
      and t: "t \<longleftrightarrow> (\<forall>(f, r)\<in>set (ts_doc s). governs h ?k f \<and> depth f = d \<longrightarrow> ft_trusted r)"
      unfolding scanned_def prod.case option.case Some by blast+
    from ex obtain f0 r0 where f0: "(f0, r0) \<in> set (ts_doc s)" "governs h ?k f0" "depth f0 = d" by auto
    have top': "governs h ?k f \<Longrightarrow> depth f \<le> d" if "f \<in> fst ` set (ts_doc s)" for f using top that by auto
    have f0': "f0 \<in> fst ` set (ts_doc s)" using f0(1) by force
    have ms: "most_specific h (ts_doc s) ?k f \<longleftrightarrow> f \<in> fst ` set (ts_doc s) \<and> governs h ?k f \<and> depth f = d" for f
      unfolding most_specific_def using top' f0 f0' by (metis le_antisym)
    have "most_specific h (ts_doc s) ?k f0" using ms f0 f0' by blast
    moreover have "is_trusted h s key = t" by (simp add: is_trusted_def scan)
    moreover have "t \<longleftrightarrow> (\<forall>(f, r)\<in>set (ts_doc s). most_specific h (ts_doc s) ?k f \<longrightarrow> ft_trusted r)"
      unfolding t ms by (rule ball_cong [OF refl]) (auto simp: rev_image_eqI)
    ultimately show ?thesis by blast
  qed
qed

text \<open>
  The specification, on the components of the paths alone: a folder counts when its components begin
  those of the key, when it is absolute and below the root, and when it is not the home directory
  under any spelling; the deepest of these have to say yes.
\<close>

definition counts_for :: "host \<Rightarrow> string \<Rightarrow> string \<Rightarrow> bool" where
  "counts_for h key folder \<longleftrightarrow>
     take (length (components folder)) (components key) = components folder \<and>
     (case components folder of RootDir # _ # _ \<Rightarrow> True | _ \<Rightarrow> False) \<and>
     (case ho_home h of
        Some home \<Rightarrow> components (canonicalize_or_owned h folder) \<noteq> components (canonicalize_or_owned h home)
      | None \<Rightarrow> True)"

definition deepest_agree :: "host \<Rightarrow> trust_document \<Rightarrow> string \<Rightarrow> bool" where
  "deepest_agree h recs key =
     (let above = filter (\<lambda>(f, r). counts_for h key f) recs; deepest = Max (set (map (\<lambda>(f, r). length (components f)) above))
      in above \<noteq> [] \<and> list_all (\<lambda>(f, r). length (components f) = deepest \<longrightarrow> ft_trusted r) above)"

lemma root_only_first: "RootDir \<notin> set (List.map_filter component_of ps)"
  by (auto simp: List.map_filter_def split: if_splits)

lemma absolute_iff: "is_absolute p \<longleftrightarrow> (\<exists>cs. components p = RootDir # cs)"
  using root_only_first [of "split_slash [] p"]
  by (cases "List.map_filter component_of (split_slash [] p)") (auto simp: is_absolute_def components_def Let_def)

lemma root_not_last:
  assumes "components p = RootDir # c # cs"
  shows "last (c # cs) \<noteq> RootDir"
proof -
  have "List.map_filter component_of (split_slash [] p) = c # cs"
    using assms root_only_first [of "split_slash [] p"] by (auto simp: components_def Let_def split: if_splits)
  with root_only_first [of "split_slash [] p"] have "RootDir \<notin> set (c # cs)" by simp
  then show ?thesis using last_in_set [of "c # cs"] by (metis list.distinct(1))
qed

lemma below_root_iff:
  "is_absolute p \<and> path_parent p \<noteq> None \<longleftrightarrow> (case components p of RootDir # _ # _ \<Rightarrow> True | _ \<Rightarrow> False)"
proof (cases "is_absolute p")
  case True
  then obtain cs where cs: "components p = RootDir # cs" by (auto simp: absolute_iff)
  then show ?thesis using True root_not_last [of p] by (cases cs) (auto simp: path_parent_def Let_def)
qed (auto simp: absolute_iff split: list.splits component.splits)

lemma governs_counts: "governs h key f \<longleftrightarrow> counts_for h key f"
proof -
  have "prefix (components f) (components key) \<longleftrightarrow> take (length (components f)) (components key) = components f"
    by (metis prefix_def append_eq_conv_conj take_is_prefix)
  then show ?thesis
    unfolding counts_for_def governs_def is_unsafe_trust_root_def path_starts_with_def below_root_iff [symmetric]
    by (auto simp: is_home_dir_def path_eq_def split: option.splits)
qed

lemma is_trusted_deepest: "is_trusted h s key \<longleftrightarrow> deepest_agree h (ts_doc s) (canonicalize_or_owned h key)"
proof -
  let ?k = "canonicalize_or_owned h key"
  define above where "above = filter (\<lambda>(f, r). governs h ?k f) (ts_doc s)"
  define deep where "deep = Max (set (map (\<lambda>(f, r). depth f) above))"
  have mem: "(f, r) \<in> set above \<longleftrightarrow> (f, r) \<in> set (ts_doc s) \<and> governs h ?k f" for f r by (simp add: above_def)
  have attained: "\<exists>g r'. (g, r') \<in> set above \<and> depth g = deep" if "above \<noteq> []"
  proof -
    have "deep \<in> (\<lambda>(f, r). depth f) ` set above" unfolding deep_def set_map by (rule Max_in) (use that in simp_all)
    then show ?thesis by auto
  qed
  have ms: "most_specific h (ts_doc s) ?k f \<longleftrightarrow> depth f = deep" if f: "(f, r) \<in> set above" for f r
  proof -
    have le: "depth g \<le> deep" if "(g, r') \<in> set above" for g r'
      unfolding deep_def using that by (auto intro!: Max_ge rev_image_eqI)
    obtain g r' where g: "(g, r') \<in> set above" "depth g = deep" using attained f by fastforce
    have ms_iff: "most_specific h (ts_doc s) ?k f \<longleftrightarrow> (\<forall>x r. (x, r) \<in> set above \<longrightarrow> depth x \<le> depth f)"
      using f by (auto simp: most_specific_def mem) force
    show ?thesis
    proof
      assume "most_specific h (ts_doc s) ?k f"
      with ms_iff g(1) have "deep \<le> depth f" unfolding g(2) [symmetric] by blast
      with le [OF f] show "depth f = deep" by simp
    qed (use ms_iff le in simp)
  qed
  have "(\<exists>f. most_specific h (ts_doc s) ?k f) \<longleftrightarrow> above \<noteq> []"
  proof
    assume "\<exists>f. most_specific h (ts_doc s) ?k f"
    then show "above \<noteq> []" using mem by (fastforce simp: most_specific_def)
  next
    assume "above \<noteq> []"
    then show "\<exists>f. most_specific h (ts_doc s) ?k f" using attained ms by blast
  qed
  moreover have "(\<forall>(f, r)\<in>set (ts_doc s). most_specific h (ts_doc s) ?k f \<longrightarrow> ft_trusted r) \<longleftrightarrow>
      list_all (\<lambda>(f, r). depth f = deep \<longrightarrow> ft_trusted r) above"
  proof -
    have "most_specific h (ts_doc s) ?k f \<Longrightarrow> governs h ?k f" for f by (simp add: most_specific_def)
    then have "(\<forall>f r. (f, r) \<in> set (ts_doc s) \<longrightarrow> most_specific h (ts_doc s) ?k f \<longrightarrow> ft_trusted r) \<longleftrightarrow>
        (\<forall>f r. (f, r) \<in> set above \<longrightarrow> depth f = deep \<longrightarrow> ft_trusted r)"
      using ms mem by blast
    then show ?thesis by (simp add: list_all_iff Ball_def)
  qed
  ultimately show ?thesis
    unfolding is_trusted_iff deepest_agree_def governs_counts [symmetric] depth_def [symmetric] above_def [symmetric] Let_def deep_def [symmetric]
    by blast
qed

subsection \<open>Decisions in the file\<close>

text \<open>What is written reads back: the contract of the TOML crate for this document.\<close>

definition store_format_ok :: "trust_io \<Rightarrow> bool" where
  "store_format_ok io \<longleftrightarrow> (\<forall>d body. ti_print io d = Some body \<longrightarrow> ti_parse io body = Some d)"

text \<open>A canonical path is its own canonical path.\<close>

definition host_ok :: "host \<Rightarrow> bool" where
  "host_ok h \<longleftrightarrow> (\<forall>p. canonicalize_or_owned h (canonicalize_or_owned h p) = canonicalize_or_owned h p)"

lemma workspace_key_canonical: "host_ok h \<Longrightarrow> canonicalize_or_owned h (workspace_key h cwd) = workspace_key h cwd"
  by (auto simp: host_ok_def workspace_key_def git_derived_workspace_key_def Let_def split: option.splits)

lemma written_reads_back: "store_format_ok io \<Longrightarrow> ti_print io d = Some body \<Longrightarrow> read_doc io (ReadOk body) = d"
  by (simp add: store_format_ok_def read_doc_def)

text \<open>A decision either changes nothing or is the only change, in the file and in memory.\<close>

lemma record_decision_effect:
  assumes "record_trust_decision io h w now (s, file) key b = (res, s', file')" "store_format_ok io"
  shows "s' = s \<and> file' = file \<or>
    ts_doc s' = read_doc io file' \<and>
    read_doc io file' = btree_insert (canonicalize_or_owned h key) \<lparr>ft_trusted = b, ft_decided_at = now\<rparr> (read_doc io file)"
  using assms by (simp add: record_trust_decision_def Let_def split: if_splits option.splits) (auto simp: written_reads_back)

lemma store_path_parent: "path_parent (path_join g ''trusted_folders.toml'') \<noteq> None"
proof -
  have "plain_component (Normal ''trusted_folders.toml'')" by (simp add: plain_component_def)
  from components_snoc [OF this, of g] show ?thesis by (simp add: path_parent_def Let_def)
qed

lemma record_decision_recorded:
  assumes "record_trust_decision io h w now (s, file) key b = (Inr (), s', file')" "store_format_ok io"
    and "\<not> is_unsafe_trust_root h (canonicalize_or_owned h key)" "ts_path s \<noteq> None"
  shows "ts_doc s' = read_doc io file'"
    and "read_doc io file' = btree_insert (canonicalize_or_owned h key) \<lparr>ft_trusted = b, ft_decided_at = now\<rparr> (read_doc io file)"
  using assms
  by (auto simp: record_trust_decision_def Let_def written_reads_back split: if_splits option.splits)

lemma governs_depth: "governs h key f \<Longrightarrow> depth f \<le> depth key"
  by (auto simp: governs_def depth_def path_starts_with_def dest: prefix_length_le)

text \<open>The decision on a folder holds below it, down to the next folder that has one.\<close>

lemma decision_holds:
  assumes doc: "ts_doc s = btree_insert k \<lparr>ft_trusted = b, ft_decided_at = now\<rparr> old" and sorted: "sorted_wrt (<) (map fst old)"
    and gov: "governs h (canonicalize_or_owned h p) k"
    and near: "\<forall>(f, r)\<in>set old. governs h (canonicalize_or_owned h p) f \<longrightarrow> depth f < depth k \<or> f = k"
  shows "is_trusted h s p \<longleftrightarrow> b"
proof -
  let ?p = "canonicalize_or_owned h p" and ?r = "\<lparr>ft_trusted = b, ft_decided_at = now\<rparr>"
  have dist: "distinct (map fst (ts_doc s))"
    unfolding doc using btree_insert_sorted [OF sorted] strict_sorted_iff by blast
  have mem: "(k, ?r) \<in> set (ts_doc s)" unfolding doc by (rule btree_insert_mem)
  have other: "(f, r) = (k, ?r) \<or> (f, r) \<in> set old" if "(f, r) \<in> set (ts_doc s)" for f r
    using that btree_insert_subset [of k ?r old] doc by auto
  have kmem: "k \<in> fst ` set (ts_doc s)" using mem by force
  have near': "f = k \<or> depth f < depth k" if "f \<in> fst ` set (ts_doc s)" "governs h ?p f" for f
    using that other near by fastforce
  have ms: "most_specific h (ts_doc s) ?p f \<longleftrightarrow> f = k" for f
    unfolding most_specific_def using kmem gov near' by (metis less_imp_le_nat not_less order_refl)
  have uniq: "r = ?r" if "(k, r) \<in> set (ts_doc s)" for r
    by (rule eq_key_imp_eq_value [OF dist that mem])
  have "(\<forall>(f, r)\<in>set (ts_doc s). f = k \<longrightarrow> ft_trusted r) \<longleftrightarrow> b"
  proof
    assume "\<forall>(f, r)\<in>set (ts_doc s). f = k \<longrightarrow> ft_trusted r"
    from bspec [OF this mem] show b by simp
  next
    assume b
    then show "\<forall>(f, r)\<in>set (ts_doc s). f = k \<longrightarrow> ft_trusted r" using uniq by (clarify, metis folder_trust.select_convs(1))
  qed
  then show ?thesis by (simp add: is_trusted_iff ms)
qed

text \<open>A folder that was just declined is not trusted, whatever else the file says.\<close>

lemma declined_not_trusted:
  assumes doc: "ts_doc s = btree_insert (canonicalize_or_owned h key) \<lparr>ft_trusted = False, ft_decided_at = now\<rparr> old"
    and safe: "\<not> is_unsafe_trust_root h (canonicalize_or_owned h key)"
  shows "\<not> is_trusted h s key"
proof -
  let ?k = "canonicalize_or_owned h key"
  have mem: "(?k, \<lparr>ft_trusted = False, ft_decided_at = now\<rparr>) \<in> set (ts_doc s)" unfolding doc by (rule btree_insert_mem)
  moreover have "governs h ?k ?k" using safe by (simp add: governs_def path_starts_with_def)
  ultimately have "most_specific h (ts_doc s) ?k ?k" using governs_depth by (force simp: most_specific_def)
  with mem show ?thesis by (force simp: is_trusted_iff)
qed

text \<open>A trusted folder has a trusted record at or above it.\<close>

lemma trusted_has_record:
  "is_trusted h s key \<Longrightarrow>
     \<exists>f r. (f, r) \<in> set (ts_doc s) \<and> ft_trusted r \<and> \<not> is_unsafe_trust_root h f \<and> path_starts_with (canonicalize_or_owned h key) f"
  by (force simp: is_trusted_iff most_specific_def governs_def)

subsection \<open>Migration\<close>

lemma migrate_project_keeps:
  assumes "store_format_ok io" "ts_doc (mi_store m) = read_doc io (mi_file m)" "map_of (read_doc io (mi_file m)) k = Some r"
  shows "ts_doc (mi_store (migrate_project io h w now m p)) = read_doc io (mi_file (migrate_project io h w now m p)) \<and>
         map_of (read_doc io (mi_file (migrate_project io h w now m p))) k = Some r"
proof (cases "has_decision h (mi_store m) p")
  case True
  then show ?thesis using assms by (simp add: migrate_project_def)
next
  case False
  obtain res s f where rec: "record_trust_decision io h (w p) now (mi_store m, mi_file m) p True = (res, s, f)" by (metis prod_cases3)
  then have out: "mi_store (migrate_project io h w now m p) = s" "mi_file (migrate_project io h w now m p) = f"
    using False by (auto simp: migrate_project_def set_trusted_def Let_def split: sum.splits)
  have "canonicalize_or_owned h p \<noteq> k" using False assms(2,3) map_of_SomeD by (force simp: has_decision_def)
  with assms show ?thesis unfolding out using record_decision_effect [OF rec assms(1)] by auto
qed

lemma migration_keeps:
  assumes "store_format_ok io" "ts_doc (mi_store m) = read_doc io (mi_file m)" "map_of (read_doc io (mi_file m)) k = Some r"
  shows "map_of (read_doc io (mi_file (foldl (migrate_project io h w now) m ps))) k = Some r"
  using assms by (induction ps arbitrary: m) (simp_all add: migrate_project_keeps)

end
