(* ===== verification/Claude_Settings.thy ===== *)
theory Claude_Settings
  imports Host_Files
begin

text \<open>
  \<open>permission/claude_settings.rs\<close>: the vendor settings files of a project and of the user.  Files
  are found on the way from the working directory to the repository root and in the home directory,
  most specific first; they are read entry by entry, and what is not understood is skipped.  The
  lemmas bound the walk and state which file decides an environment variable.
\<close>

section \<open>One file\<close>

record parsed_permissions =
  pp_allow :: "string list"
  pp_deny :: "string list"
  pp_ask :: "string list"

record claude_settings =
  cs_permissions :: "parsed_permissions option"
  cs_default_mode :: "string option"
  cs_additional_directories :: "string list option"
  cs_env :: "(string \<times> string) list option"

fun rule_parse_error_text :: "rule_parse_error \<Rightarrow> string" where
  "rule_parse_error_text (UnsupportedToolPrefix p) = ''unsupported tool prefix: '' @ p"
| "rule_parse_error_text (UnknownToolPrefix p) = ''unknown tool prefix: '' @ p"
| "rule_parse_error_text (MalformedRule d) = ''malformed rule: '' @ d"

text \<open>The rules of one list and the warnings for its malformed entries.\<close>

fun collect_rules :: "rule_action \<Rightarrow> string \<Rightarrow> string list \<Rightarrow> permission_rule list \<times> string list" where
  "collect_rules act label [] = ([], [])"
| "collect_rules act label (s # ss) =
     (let (rs, ws) = collect_rules act label ss
      in case parse_permission_rule s act of
           Inr r \<Rightarrow> (r # rs, ws)
         | Inl e \<Rightarrow> (rs, (''permissions.'' @ label @ '': '' @ s @ '' -- '' @ rule_parse_error_text e) # ws))"

definition into_permission_config :: "parsed_permissions \<Rightarrow> permission_config \<times> string list" where
  "into_permission_config p =
     (let (a, wa) = collect_rules ActAllow ''allow'' (pp_allow p);
          (d, wd) = collect_rules ActDeny ''deny'' (pp_deny p);
          (k, wk) = collect_rules ActAsk ''ask'' (pp_ask p)
      in (\<lparr>pc_rules = a @ d @ k, pc_prompt_policy = PromptAsk\<rparr>, wa @ wd @ wk))"

text \<open>The nested key is canonical: the root key counts only when the nested one is absent.\<close>

definition extract_default_mode :: "json \<Rightarrow> string option" where
  "extract_default_mode v =
     (case Option.bind (json_get v ''permissions'') (\<lambda>p. json_get p ''defaultMode'') of
        Some dm \<Rightarrow> json_as_str dm
      | None \<Rightarrow> Option.bind (json_get v ''defaultMode'') json_as_str)"

definition extract_additional_directories :: "json \<Rightarrow> string list option" where
  "extract_additional_directories v =
     map_option (List.map_filter json_as_str)
       (case Option.bind (json_get v ''permissions'') (\<lambda>p. json_get p ''additionalDirectories'') of
          Some nested \<Rightarrow> json_as_array nested
        | None \<Rightarrow> Option.bind (json_get v ''additionalDirectories'') json_as_array)"

text \<open>A list that is not an array counts as empty; an entry that is not a string is skipped.\<close>

definition extract_string_array :: "json option \<Rightarrow> string list \<times> string list" where
  "extract_string_array v =
     (case v of
        Some (JArray arr) \<Rightarrow>
          (List.map_filter json_as_str arr,
           [''permissions array index '' @ show_nat i @ '': expected string, got '' @ json_type_of x.
              (i, x) \<leftarrow> enumerate 0 arr, json_as_str x = None])
      | Some other \<Rightarrow> ([], [''permissions field: expected array, got '' @ json_type_of other])
      | None \<Rightarrow> ([], []))"

fun env_text :: "json \<Rightarrow> string option" where
  "env_text (JString s) = Some s"
| "env_text (JNumber _ s) = Some s"
| "env_text (JBool b) = Some (if b then ''true'' else ''false'')"
| "env_text _ = None"

definition extract_string_map :: "json option \<Rightarrow> (string \<times> string) list option" where
  "extract_string_map v =
     (case v of
        Some (JObject m) \<Rightarrow>
          let result = List.map_filter (\<lambda>(k, x). map_option (Pair k) (env_text x)) m
          in if result = [] then None else Some result
      | _ \<Rightarrow> None)"

definition extract_permissions :: "json \<Rightarrow> parsed_permissions option" where
  "extract_permissions v =
     Option.bind (json_get v ''permissions'') (\<lambda>p.
       let allow = fst (extract_string_array (json_get p ''allow''));
           deny = fst (extract_string_array (json_get p ''deny''));
           ask = fst (extract_string_array (json_get p ''ask''))
       in if allow = [] \<and> deny = [] \<and> ask = [] then None
          else Some \<lparr>pp_allow = allow, pp_deny = deny, pp_ask = ask\<rparr>)"

definition load_claude_settings :: "host \<Rightarrow> string \<Rightarrow> claude_settings option" where
  "load_claude_settings h path =
     (case ho_read h path of
        ReadOk content \<Rightarrow>
          map_option (\<lambda>v. \<lparr>cs_permissions = extract_permissions v, cs_default_mode = extract_default_mode v,
            cs_additional_directories = extract_additional_directories v, cs_env = extract_string_map (json_get v ''env'')\<rparr>)
            (ho_json h content)
      | _ \<Rightarrow> None)"

section \<open>Finding the files\<close>

definition find_repo_root :: "host \<Rightarrow> string \<Rightarrow> string option" where
  "find_repo_root h start = find (\<lambda>d. ho_exists h (path_join d ''.git'')) (walk_up (\<lambda>_. False) start)"

definition settings_in :: "string \<Rightarrow> string list" where
  "settings_in dir =
     (let claude_dir = path_join dir ''.claude''
      in [path_join claude_dir ''settings.local.json'', path_join claude_dir ''settings.json''])"

definition walk_root :: "host \<Rightarrow> string \<Rightarrow> string" where
  "walk_root h cwd =
     (case find_repo_root h cwd of Some root \<Rightarrow> if is_home_dir h root then cwd else root | None \<Rightarrow> cwd)"

definition collect_project_claude_paths :: "host \<Rightarrow> string \<Rightarrow> string list" where
  "collect_project_claude_paths h cwd =
     concat (map settings_in (walk_up (\<lambda>d. path_eq d (walk_root h cwd)) cwd))"

definition global_claude_settings_paths :: "host \<Rightarrow> string list" where
  "global_claude_settings_paths h = (case ho_home h of Some home \<Rightarrow> settings_in home | None \<Rightarrow> [])"

definition find_claude_settings_paths :: "host \<Rightarrow> string \<Rightarrow> string list" where
  "find_claude_settings_paths h cwd = collect_project_claude_paths h cwd @ global_claude_settings_paths h"

definition has_claude_compat :: "host \<Rightarrow> string \<Rightarrow> bool" where
  "has_claude_compat h cwd \<longleftrightarrow> list_ex (ho_exists h) (find_claude_settings_paths h cwd)"

definition project_claude_settings_present :: "host \<Rightarrow> string \<Rightarrow> bool" where
  "project_claude_settings_present h cwd \<longleftrightarrow> list_ex (ho_is_file h) (collect_project_claude_paths h cwd)"

definition is_claude_import_marked :: "host \<Rightarrow> bool" where
  "is_claude_import_marked h =
     (ho_env_var h ''_KIGI_CLAUDE_MARKER_OVERRIDE'' = Some ''1'' \<or>
      (case ho_kigi_home h of
         None \<Rightarrow> False
       | Some g \<Rightarrow>
           (case ho_read h (path_join g ''config.toml'') of
              ReadOk contents \<Rightarrow>
                Option.bind (Option.bind (Option.bind (ho_toml h contents) (\<lambda>v. toml_get v ''claude_compat''))
                  (\<lambda>v. toml_get v ''imported'')) toml_as_bool = Some True
            | _ \<Rightarrow> False)))"

section \<open>The environment of a session\<close>

definition settings_env :: "host \<Rightarrow> string \<Rightarrow> string \<rightharpoonup> string" where
  "settings_env h path = (case Option.bind (load_claude_settings h path) cs_env of Some env \<Rightarrow> map_of env | None \<Rightarrow> Map.empty)"

definition load_claude_env_with_project :: "host \<Rightarrow> string \<Rightarrow> bool \<Rightarrow> string \<rightharpoonup> string" where
  "load_claude_env_with_project h cwd project_trusted =
     (if is_claude_import_marked h then Map.empty
      else let paths = (if project_trusted then find_claude_settings_paths h cwd else global_claude_settings_paths h)
           in foldl (\<lambda>merged path. merged ++ settings_env h path) Map.empty (rev paths))"

section \<open>Lemmas\<close>

lemma collect_rules_action: "r \<in> set (fst (collect_rules act label ss)) \<Longrightarrow> \<exists>s\<in>set ss. parse_permission_rule s act = Inr r"
  by (induction ss) (auto simp: case_prod_beta Let_def split: sum.splits)

lemma collect_rules_complete: "s \<in> set ss \<Longrightarrow> parse_permission_rule s act = Inr r \<Longrightarrow> r \<in> set (fst (collect_rules act label ss))"
  by (induction ss) (auto simp: case_prod_beta Let_def split: sum.splits)

lemma into_permission_config_rules:
  "set (pc_rules (fst (into_permission_config p))) =
     {r. \<exists>s\<in>set (pp_allow p). parse_permission_rule s ActAllow = Inr r} \<union>
     {r. \<exists>s\<in>set (pp_deny p). parse_permission_rule s ActDeny = Inr r} \<union>
     {r. \<exists>s\<in>set (pp_ask p). parse_permission_rule s ActAsk = Inr r}"
  by (auto simp: into_permission_config_def case_prod_beta Let_def intro: collect_rules_complete dest!: collect_rules_action)

text \<open>The repository root is an ancestor of the start, so the walk stays inside it.\<close>

lemma find_repo_root_ancestor: "find_repo_root h start = Some root \<Longrightarrow> path_starts_with start root"
  by (auto simp: find_repo_root_def find_Some_iff intro!: walk_up_ancestor [of _ "\<lambda>_. False"])

lemma walk_root_ancestor: "path_starts_with cwd (walk_root h cwd)"
  by (auto simp: walk_root_def path_starts_with_def dest!: find_repo_root_ancestor split: option.splits)

lemma project_paths_confined:
  assumes "p \<in> set (collect_project_claude_paths h cwd)"
  obtains d where "p \<in> set (settings_in d)" "path_starts_with cwd d" "path_starts_with d (walk_root h cwd)"
  using assms walk_up_ancestor walk_up_below [OF walk_root_ancestor] by (force simp: collect_project_claude_paths_def)

text \<open>Merging from the least specific file on gives every variable the value of the most specific file that sets it.\<close>

lemma merge_rev: "foldl (\<lambda>m p. m ++ f p) Map.empty (rev ps) k = (case find (\<lambda>p. f p k \<noteq> None) ps of Some p \<Rightarrow> f p k | None \<Rightarrow> None)"
  by (induction ps) (auto simp: map_add_def split: option.splits)

lemma settings_env_unreadable: "\<forall>c. ho_read h p \<noteq> ReadOk c \<Longrightarrow> settings_env h p = Map.empty"
  by (auto simp: settings_env_def load_claude_settings_def split: read_result.splits)

end
