(* ===== verification/Mcp_Policy.thy ===== *)
theory Mcp_Policy
  imports Host_Files
begin

text \<open>
  The managed policy on MCP servers and marketplaces (\<open>permission/resolution.rs\<close>): an allow list
  that is matched literally and a deny list that ignores scheme, user, port and case.  The lemmas
  show that a denied host is denied in every spelling of its URL.
\<close>

section \<open>Names and URLs\<close>

definition MANAGED_MCP_PREFIX :: string where
  "MANAGED_MCP_PREFIX = ''kigi_com_''"

definition MANAGED_MCP_NAME_MAX_CHARS :: nat where
  "MANAGED_MCP_NAME_MAX_CHARS = 39"

definition normalize_managed_name :: "host \<Rightarrow> string \<Rightarrow> string" where
  "normalize_managed_name h bare = replace_str '' '' ''_'' (pe_lowercase (ho_perm h) bare)"

definition mcp_name_key :: "host \<Rightarrow> string \<Rightarrow> string" where
  "mcp_name_key h s =
     (let bare = (case strip_prefix_str MANAGED_MCP_PREFIX s of Some r \<Rightarrow> r | None \<Rightarrow> s)
      in take_chars (MANAGED_MCP_NAME_MAX_CHARS - length MANAGED_MCP_PREFIX) (normalize_managed_name h bare))"

definition mcp_name_matches :: "host \<Rightarrow> string \<Rightarrow> string \<Rightarrow> bool" where
  "mcp_name_matches h pat name \<longleftrightarrow> mcp_name_key h pat \<noteq> [] \<and> mcp_name_key h pat = mcp_name_key h name"

definition strip_url_query :: "string \<Rightarrow> string" where
  "strip_url_query url = takeWhile (\<lambda>c. c \<noteq> CHR ''?'') (takeWhile (\<lambda>c. c \<noteq> CHR ''#'') url)"

definition split_host_path :: "string \<Rightarrow> string option \<times> string" where
  "split_host_path s =
     (let after_scheme = (case find_str ''://'' s of Some i \<Rightarrow> drop (i + 3) s | None \<Rightarrow> s);
          authority = takeWhile (\<lambda>c. c \<noteq> CHR ''/'') after_scheme;
          path = dropWhile (\<lambda>c. c \<noteq> CHR ''/'') after_scheme;
          without_user = rev (takeWhile (\<lambda>c. c \<noteq> CHR 0x40) (rev authority));
          hostname = to_ascii_lowercase (trim_end_pred (\<lambda>c. c = CHR ''.'') (takeWhile (\<lambda>c. c \<noteq> CHR '':'') without_user))
      in (if hostname = [] then None else Some hostname, path))"

definition glob_ci :: "host \<Rightarrow> string \<Rightarrow> string \<Rightarrow> bool" where
  "glob_ci h pat text \<longleftrightarrow> pe_glob_valid (ho_perm h) pat \<and> ho_glob_ci h pat text"

definition url_glob_matches :: "host \<Rightarrow> string \<Rightarrow> string \<Rightarrow> bool" where
  "url_glob_matches h pat url = glob_ci h pat (strip_url_query url)"

definition url_deny_matches :: "host \<Rightarrow> string \<Rightarrow> string \<Rightarrow> bool" where
  "url_deny_matches h pat url =
     (case (split_host_path pat, split_host_path (strip_url_query url)) of
        ((Some pat_host, pat_path), (Some url_host, url_path)) \<Rightarrow>
          glob_ci h pat_host url_host \<and>
          (pat_path = [] \<or> glob_ci h pat_path (if url_path = [] then ''/'' else url_path))
      | _ \<Rightarrow> False)"

section \<open>The policy\<close>

datatype allowed_mcp_server = PolicyHttp string | PolicyStdio string | PolicyName string

datatype mcp_server = McpHttp string string | McpSse string string | McpStdio string string | McpOther

fun mcp_server_name :: "mcp_server \<Rightarrow> string" where
  "mcp_server_name (McpHttp n _) = n"
| "mcp_server_name (McpSse n _) = n"
| "mcp_server_name (McpStdio n _) = n"
| "mcp_server_name McpOther = []"

record mcp_server_allowlist =
  ma_entries :: "allowed_mcp_server list"
  ma_deny_entries :: "allowed_mcp_server list"
  ma_url_patterns :: "string list"
  ma_commands :: "string list"
  ma_names :: "string list"
  ma_deny_url_patterns :: "string list"
  ma_deny_commands :: "string list"
  ma_deny_names :: "string list"
  ma_source_path :: "string option"

definition split_mcp_entries :: "allowed_mcp_server list \<Rightarrow> string list \<times> string list \<times> string list" where
  "split_mcp_entries es =
     (List.map_filter (\<lambda>e. case e of PolicyHttp u \<Rightarrow> Some u | _ \<Rightarrow> None) es,
      List.map_filter (\<lambda>e. case e of PolicyStdio c \<Rightarrow> Some c | _ \<Rightarrow> None) es,
      List.map_filter (\<lambda>e. case e of PolicyName n \<Rightarrow> Some n | _ \<Rightarrow> None) es)"

definition mcp_allowlist_new :: "allowed_mcp_server list \<Rightarrow> allowed_mcp_server list \<Rightarrow> string option \<Rightarrow> mcp_server_allowlist" where
  "mcp_allowlist_new entries deny_entries src =
     (let (urls, cmds, names) = split_mcp_entries entries;
          (deny_urls, deny_cmds, deny_names) = split_mcp_entries deny_entries
      in \<lparr>ma_entries = entries, ma_deny_entries = deny_entries, ma_url_patterns = urls, ma_commands = cmds, ma_names = names,
          ma_deny_url_patterns = deny_urls, ma_deny_commands = deny_cmds, ma_deny_names = deny_names, ma_source_path = src\<rparr>)"

definition mcp_is_restricted :: "mcp_server_allowlist \<Rightarrow> bool" where
  "mcp_is_restricted a \<longleftrightarrow> ma_entries a \<noteq> [] \<or> ma_deny_entries a \<noteq> []"

definition is_server_denied :: "host \<Rightarrow> mcp_server_allowlist \<Rightarrow> mcp_server \<Rightarrow> bool" where
  "is_server_denied h a server =
     (list_ex (\<lambda>pat. mcp_name_matches h pat (mcp_server_name server)) (ma_deny_names a) \<or>
      (case server of
         McpHttp _ url \<Rightarrow> list_ex (\<lambda>pat. url_deny_matches h pat url) (ma_deny_url_patterns a)
       | McpSse _ url \<Rightarrow> list_ex (\<lambda>pat. url_deny_matches h pat url) (ma_deny_url_patterns a)
       | McpStdio _ command \<Rightarrow> command \<in> set (ma_deny_commands a)
       | McpOther \<Rightarrow> False))"

definition is_server_allowed :: "host \<Rightarrow> mcp_server_allowlist \<Rightarrow> mcp_server \<Rightarrow> bool" where
  "is_server_allowed h a server =
     (if \<not> mcp_is_restricted a then True
      else if is_server_denied h a server then False
      else let by_name = list_ex (\<lambda>pat. mcp_name_matches h pat (mcp_server_name server)) (ma_names a);
               (has_dim, by_dim) =
                 (case server of
                    McpHttp _ url \<Rightarrow> (ma_url_patterns a \<noteq> [], list_ex (\<lambda>pat. url_glob_matches h pat url) (ma_url_patterns a))
                  | McpSse _ url \<Rightarrow> (ma_url_patterns a \<noteq> [], list_ex (\<lambda>pat. url_glob_matches h pat url) (ma_url_patterns a))
                  | McpStdio _ command \<Rightarrow> (ma_commands a \<noteq> [], command \<in> set (ma_commands a))
                  | McpOther \<Rightarrow> (False, False));
               restricted = (ma_names a \<noteq> [] \<or> has_dim);
               matched = (by_name \<or> by_dim)
           in \<not> restricted \<or> matched)"

section \<open>Marketplaces\<close>

record marketplace_allowlist =
  mk_allowed_urls :: "string list"
  mk_source_path :: "string option"

definition trim_end_str :: "string \<Rightarrow> string \<Rightarrow> string" where
  "trim_end_str pat s = rev (trim_start_str (rev pat) (rev s))"

definition normalize_git_url :: "host \<Rightarrow> string \<Rightarrow> string" where
  "normalize_git_url h url = trim_end_str ''.git'' (pe_lowercase (ho_perm h) url)"

definition market_is_restricted :: "marketplace_allowlist \<Rightarrow> bool" where
  "market_is_restricted a \<longleftrightarrow> mk_allowed_urls a \<noteq> []"

definition is_url_allowed :: "host \<Rightarrow> marketplace_allowlist \<Rightarrow> string \<Rightarrow> bool" where
  "is_url_allowed h a url =
     (mk_allowed_urls a = [] \<or> list_ex (\<lambda>allowed. normalize_git_url h allowed = normalize_git_url h url) (mk_allowed_urls a))"

definition block_reason :: "marketplace_allowlist \<Rightarrow> string" where
  "block_reason a =
     (case mk_source_path a of
        Some p \<Rightarrow> ''source not in strictKnownMarketplaces ('' @ p @ '')'' | None \<Rightarrow> ''source not in strictKnownMarketplaces'')"

section \<open>Reading the entries\<close>

definition parse_mcp_entry :: "json \<Rightarrow> allowed_mcp_server option" where
  "parse_mcp_entry entry =
     (case Option.bind (json_get entry ''serverUrl'') json_as_str of
        Some url \<Rightarrow> Some (PolicyHttp url)
      | None \<Rightarrow>
          (case Option.bind (json_get entry ''command'') json_as_str of
             Some cmd \<Rightarrow> Some (PolicyStdio cmd)
           | None \<Rightarrow> map_option PolicyName (Option.bind (json_get entry ''serverName'') json_as_str)))"

definition parse_mcp_entries :: "json \<Rightarrow> string \<Rightarrow> allowed_mcp_server list" where
  "parse_mcp_entries v key =
     (case Option.bind (json_get v key) json_as_array of Some arr \<Rightarrow> List.map_filter parse_mcp_entry arr | None \<Rightarrow> [])"

definition parse_marketplaces :: "json \<Rightarrow> string list" where
  "parse_marketplaces v =
     (case Option.bind (json_get v ''strictKnownMarketplaces'') json_as_array of
        Some arr \<Rightarrow>
          List.map_filter (\<lambda>entry.
            if Option.bind (json_get entry ''source'') json_as_str = Some ''git''
            then Option.bind (json_get entry ''url'') json_as_str else None) arr
      | None \<Rightarrow> [])"

section \<open>Lemmas\<close>

lemma takeWhile_plain: "c \<notin> set xs \<Longrightarrow> takeWhile (\<lambda>x. x \<noteq> c) (xs @ ys) = xs @ takeWhile (\<lambda>x. x \<noteq> c) ys"
  by (induction xs) auto

lemma dropWhile_plain: "c \<notin> set xs \<Longrightarrow> dropWhile (\<lambda>x. x \<noteq> c) (xs @ ys) = dropWhile (\<lambda>x. x \<noteq> c) ys"
  by (induction xs) auto

lemma takeWhile_none: "c \<notin> set xs \<Longrightarrow> takeWhile (\<lambda>x. x \<noteq> c) xs = xs"
  by (induction xs) auto

lemma dropWhile_none: "c \<notin> set xs \<Longrightarrow> dropWhile (\<lambda>x. x \<noteq> c) xs = []"
  by (induction xs) auto

text \<open>The text before the first occurrence is free of the pattern's first character.\<close>

lemma find_str_skip:
  assumes "c \<notin> set xs" "prefix (c # pat) ys"
  shows "find_str (c # pat) (xs @ ys) = Some (length xs)"
proof -
  have early: "\<not> prefix (c # pat) (drop i (xs @ ys))" if "i < length xs" for i
  proof
    assume "prefix (c # pat) (drop i (xs @ ys))"
    then have "drop i (xs @ ys) ! 0 = c" by (auto simp: prefix_def)
    with that assms(1) show False by (auto simp: nth_append)
  qed
  have "[0..<Suc (length (xs @ ys))] = [0..<length xs] @ length xs # [Suc (length xs)..<Suc (length (xs @ ys))]"
    by (metis add_Suc_right le_add1 length_append less_Suc_eq_le upt_add_eq_append upt_conv_Cons zero_le le_add_diff_inverse add_0)
  moreover have "find P (as @ b # bs) = Some b" if "\<forall>a\<in>set as. \<not> P a" "P b" for P and as bs :: "nat list" and b
    using that by (induction as) auto
  ultimately show ?thesis using early assms(2) by (simp add: find_str_def)
qed

text \<open>A URL in parts: scheme, user, the host in any case with trailing dots, and what follows the host.\<close>

definition url_of :: "string \<Rightarrow> string \<Rightarrow> string \<Rightarrow> nat \<Rightarrow> string \<Rightarrow> string \<Rightarrow> string" where
  "url_of scheme user hostname dots port tail =
     scheme @ ''://'' @ (if user = [] then [] else user @ [CHR 0x40]) @ hostname @ replicate dots (CHR ''.'') @
     (if port = [] then [] else '':'' @ port) @ tail"

definition plain_text_of :: "string \<Rightarrow> string \<Rightarrow> bool" where
  "plain_text_of forbidden s \<longleftrightarrow> set forbidden \<inter> set s = {}"

definition url_parts_ok :: "string \<Rightarrow> string \<Rightarrow> string \<Rightarrow> string \<Rightarrow> string \<Rightarrow> bool" where
  "url_parts_ok scheme user hostname port tail \<longleftrightarrow>
     plain_text_of '':#?'' scheme \<and> plain_text_of ''/#?'' user \<and>
     hostname \<noteq> [] \<and> last hostname \<noteq> CHR ''.'' \<and> plain_text_of (CHR 0x40 # '':/#?'') hostname \<and>
     plain_text_of (CHR 0x40 # ''/#?'') port \<and> (tail = [] \<or> hd tail \<in> {CHR ''/'', CHR ''?'', CHR ''#''})"

lemma strip_url_query_plain: "plain_text_of ''#?'' s \<Longrightarrow> strip_url_query (s @ t) = s @ strip_url_query t"
  by (simp add: strip_url_query_def plain_text_of_def takeWhile_plain)

lemma strip_url_query_tail: "tail = [] \<or> hd tail \<in> {CHR ''/'', CHR ''?'', CHR ''#''} \<Longrightarrow> strip_url_query tail = [] \<or> hd (strip_url_query tail) = CHR ''/''"
  by (cases tail) (auto simp: strip_url_query_def)

lemma authority_of:
  assumes "CHR ''/'' \<notin> set a" "t = [] \<or> hd t = CHR ''/''"
  shows "takeWhile (\<lambda>c. c \<noteq> CHR ''/'') (a @ t) = a" "dropWhile (\<lambda>c. c \<noteq> CHR ''/'') (a @ t) = t"
  using assms by (auto simp: takeWhile_plain dropWhile_plain) (cases t; simp)+

lemma after_user: "CHR 0x40 \<notin> set b \<Longrightarrow> rev (takeWhile (\<lambda>c. c \<noteq> CHR 0x40) (rev ((if u = [] then [] else u @ [CHR 0x40]) @ b))) = b"
  by (cases "u = []") (simp_all add: takeWhile_plain takeWhile_none)

lemma before_port: "CHR '':'' \<notin> set b \<Longrightarrow> takeWhile (\<lambda>c. c \<noteq> CHR '':'') (b @ (if p = [] then [] else '':'' @ p)) = b"
  by (cases "p = []") (simp_all add: takeWhile_plain takeWhile_none)

lemma trim_dots: "b \<noteq> [] \<Longrightarrow> last b \<noteq> CHR ''.'' \<Longrightarrow> trim_end_pred (\<lambda>c. c = CHR ''.'') (b @ replicate n (CHR ''.'')) = b"
  by (cases b rule: rev_cases) (auto simp: trim_end_pred_def dropWhile_append)

lemma split_host_path_url:
  assumes ok: "url_parts_ok scheme user hostname port []" and t: "t = [] \<or> hd t = CHR ''/''"
  shows "split_host_path (url_of scheme user hostname dots port t) = (Some (to_ascii_lowercase hostname), t)"
proof -
  let ?b = "hostname @ replicate dots (CHR ''.'')" and ?u = "if user = [] then [] else user @ [CHR 0x40]"
    and ?p = "if port = [] then [] else '':'' @ port"
  have url: "url_of scheme user hostname dots port t = scheme @ ''://'' @ (?u @ ?b @ ?p) @ t" by (simp add: url_of_def)
  have "find_str ''://'' (scheme @ ''://'' @ (?u @ ?b @ ?p) @ t) = Some (length scheme)"
    using ok by (intro find_str_skip) (auto simp: url_parts_ok_def plain_text_of_def)
  moreover have slash: "CHR ''/'' \<notin> set (?u @ ?b @ ?p)" using ok by (auto simp: url_parts_ok_def plain_text_of_def)
  moreover have "rev (takeWhile (\<lambda>c. c \<noteq> CHR 0x40) (rev (?u @ ?b @ ?p))) = ?b @ ?p"
    using ok by (intro after_user) (auto simp: url_parts_ok_def plain_text_of_def)
  moreover have "takeWhile (\<lambda>c. c \<noteq> CHR '':'') (?b @ ?p) = ?b"
    using ok by (intro before_port) (auto simp: url_parts_ok_def plain_text_of_def)
  moreover have "trim_end_pred (\<lambda>c. c = CHR ''.'') ?b = hostname"
    using ok by (intro trim_dots) (auto simp: url_parts_ok_def)
  ultimately show ?thesis
    using ok authority_of [OF slash t] unfolding url split_host_path_def Let_def
    by (simp add: url_parts_ok_def to_ascii_lowercase_def)
qed

lemma split_host_path_bare:
  assumes "plain_text_of (CHR 0x40 # '':/'') b" "b \<noteq> []" "last b \<noteq> CHR ''.''"
  shows "split_host_path b = (Some (to_ascii_lowercase b), [])"
proof -
  have "find_str ''://'' b = None"
  proof -
    have "\<not> prefix ''://'' (drop i b)" for i
      using assms(1) in_set_dropD [of "CHR '':''" i b] by (auto simp: plain_text_of_def prefix_def)
    then show ?thesis by (simp add: find_str_def find_None_iff)
  qed
  moreover have "CHR ''/'' \<notin> set b" "CHR 0x40 \<notin> set (rev b)" "CHR '':'' \<notin> set b" using assms(1) by (auto simp: plain_text_of_def)
  moreover have "trim_end_pred (\<lambda>c. c = CHR ''.'') b = b" using trim_dots [of b 0] assms by simp
  ultimately show ?thesis
    using assms(2) by (simp add: split_host_path_def Let_def takeWhile_none dropWhile_none to_ascii_lowercase_def)
qed

lemma url_of_query:
  assumes "url_parts_ok scheme user hostname port tail"
  shows "strip_url_query (url_of scheme user hostname dots port tail) = url_of scheme user hostname dots port (strip_url_query tail)"
proof -
  have "url_of scheme user hostname dots port tail = url_of scheme user hostname dots port [] @ tail" for tail by (simp add: url_of_def)
  moreover have "plain_text_of ''#?'' (url_of scheme user hostname dots port [])"
    using assms by (auto simp: url_parts_ok_def plain_text_of_def url_of_def)
  ultimately show ?thesis by (metis strip_url_query_plain)
qed

lemma host_denied:
  assumes ok: "url_parts_ok scheme user hostname port tail" and b: "to_ascii_lowercase b = to_ascii_lowercase hostname"
    and plain: "plain_text_of (CHR 0x40 # '':/'') b" "b \<noteq> []" "last b \<noteq> CHR ''.''"
    and glob: "glob_ci h (to_ascii_lowercase b) (to_ascii_lowercase b)"
  shows "url_deny_matches h b (url_of scheme user hostname dots port tail)"
proof -
  have "url_parts_ok scheme user hostname port []" "strip_url_query tail = [] \<or> hd (strip_url_query tail) = CHR ''/''"
    using ok strip_url_query_tail by (auto simp: url_parts_ok_def)
  from split_host_path_url [OF this] show ?thesis
    using split_host_path_bare [OF plain] url_of_query [OF ok] b glob by (simp add: url_deny_matches_def)
qed

text \<open>The part of an address in brackets before its first colon is no pattern: such an entry denies nothing.\<close>

lemma bracketed_host_never_denied:
  assumes "\<not> pe_glob_valid (ho_perm h) ''[''" and "plain_text_of '':'' scheme" and "plain_text_of [CHR 0x40] rest"
  shows "\<not> url_deny_matches h (scheme @ ''://[:'' @ rest) url"
proof -
  have "find_str ''://'' (scheme @ ''://[:'' @ rest) = Some (length scheme)"
    using assms(2) by (intro find_str_skip) (auto simp: plain_text_of_def)
  moreover have "CHR 0x40 \<notin> set (rev (takeWhile (\<lambda>c. c \<noteq> CHR ''/'') rest))"
    using assms(3) by (auto simp: plain_text_of_def dest: set_takeWhileD)
  ultimately have "fst (split_host_path (scheme @ ''://[:'' @ rest)) = Some ''[''"
    by (simp add: split_host_path_def Let_def takeWhile_plain trim_end_pred_def to_ascii_lowercase_def ascii_lower_def byte_in_def)
  then show ?thesis
    using assms(1) by (cases "split_host_path (scheme @ ''://[:'' @ rest)") (auto simp: url_deny_matches_def glob_ci_def split: prod.splits option.splits)
qed

end
