(* ===== verification/Trust_Gate.thy ===== *)
theory Trust_Gate
  imports Trust_Store Claude_Settings Mcp_Policy Transition
begin

text \<open>
  The folder-trust gate: the scan for repo-local code (\<open>kigi-workspace/src/folder_trust.rs\<close> with
  \<open>project_config.rs\<close> and \<open>kigi-agent/src/repo.rs\<close>), the pure decision, and the consuming side with
  its cache of verdicts (\<open>kigi-shell/src/agent/folder_trust.rs\<close>).  A \<open>trust_world\<close> is the machine,
  the file of the trust store and the cache of one process.  The gate is a state machine
  (\<open>invariant_system\<close>): whatever happens to the files of the repository, repo-local code is let
  through only below a folder the user trusted.
\<close>

section \<open>The scan\<close>

record repo_dir_chain =
  rc_git_root :: "string option"
  rc_dirs :: "string list"

definition repo_dir_chain_resolve :: "host \<Rightarrow> string \<Rightarrow> repo_dir_chain" where
  "repo_dir_chain_resolve h cwd =
     (let git_root = (case Option.bind (ho_discover h cwd) gr_workdir of
                        Some root \<Rightarrow> if is_home_dir h root then None else Some root | None \<Rightarrow> None)
      in \<lparr>rc_git_root = git_root,
          rc_dirs = (case git_root of
                       Some root \<Rightarrow> walk_up (\<lambda>d. path_eq (canonicalize_or_owned h d) (canonicalize_or_owned h root)) cwd
                     | None \<Rightarrow> [cwd])\<rparr>)"

definition mcp_json_candidate_paths_in :: "string list \<Rightarrow> string list" where
  "mcp_json_candidate_paths_in dirs = map (\<lambda>d. path_join d ''.mcp.json'') (rev dirs)"

definition find_mcp_json_files_in :: "host \<Rightarrow> string list \<Rightarrow> string list" where
  "find_mcp_json_files_in h dirs = filter (ho_is_file h) (mcp_json_candidate_paths_in dirs)"

definition is_user_kigi_config_file :: "host \<Rightarrow> string \<Rightarrow> bool" where
  "is_user_kigi_config_file h p =
     (case ho_kigi_home h of
        None \<Rightarrow> False
      | Some g \<Rightarrow>
          let user_config = path_join g ''config.toml''
          in path_eq p user_config \<or>
             (case pe_canonicalize (ho_perm h) p of
                Some q \<Rightarrow> path_eq q (canonicalize_or_owned h user_config) | None \<Rightarrow> False))"

definition find_project_configs_in :: "host \<Rightarrow> string list \<Rightarrow> string list" where
  "find_project_configs_in h dirs =
     filter (\<lambda>p. ho_is_file h p \<and> \<not> is_user_kigi_config_file h p) (map (\<lambda>d. path_join (path_join d ''.kigi'') ''config.toml'') (rev dirs))"

definition existing_subdirs_along :: "host \<Rightarrow> string list \<Rightarrow> string list \<Rightarrow> string list" where
  "existing_subdirs_along h dirs subdirs = concat (map (\<lambda>d. filter (ho_is_dir h) (map (path_join d) subdirs)) dirs)"

definition project_plugin_dirs_in :: "host \<Rightarrow> string list \<Rightarrow> string list" where
  "project_plugin_dirs_in h dirs = existing_subdirs_along h dirs [''.kigi/plugins'', ''.claude/plugins'']"

definition project_agent_dirs_in :: "host \<Rightarrow> string list \<Rightarrow> string list" where
  "project_agent_dirs_in h dirs = existing_subdirs_along h dirs [''.kigi/agents'', ''.claude/agents'']"

definition path_present_or_uncertain :: "host \<Rightarrow> string \<Rightarrow> bool" where
  "path_present_or_uncertain h p \<longleftrightarrow> pe_symlink_meta (ho_perm h) p \<noteq> MetaNotFound"

definition claude_project_mcp_names :: "host \<Rightarrow> string \<Rightarrow> string list option" where
  "claude_project_mcp_names h cwd =
     (case ho_home h of
        None \<Rightarrow> None
      | Some home \<Rightarrow>
          (case ho_read h (path_join home ''.claude.json'') of
             ReadOk content \<Rightarrow>
               (case ho_json h content of
                  None \<Rightarrow> None
                | Some v \<Rightarrow>
                    let m = Option.bind (Option.bind (Option.bind (json_get v ''projects'') (\<lambda>p. json_get p cwd)) (\<lambda>p. json_get p ''mcpServers'')) json_as_object;
                        names = (case m of Some kvs \<Rightarrow> map fst kvs | None \<Rightarrow> [])
                    in if names = [] then None else Some names)
           | _ \<Rightarrow> None))"

definition config_hits :: "host \<Rightarrow> string \<Rightarrow> string list" where
  "config_hits h path =
     (case ho_config h path of
        None \<Rightarrow> []
      | Some root \<Rightarrow>
          (if (case Option.bind (toml_get root ''mcp_servers'') toml_as_table of Some t \<Rightarrow> t \<noteq> [] | None \<Rightarrow> False) then [''mcp''] else []) @
          (if (case Option.bind (Option.bind (toml_get root ''plugins'') (\<lambda>v. toml_get v ''paths'')) toml_as_array of Some a \<Rightarrow> a \<noteq> [] | None \<Rightarrow> False)
           then [''plugins''] else []))"

text \<open>Every marker that is found, in the order of the probes.\<close>

definition repo_config_hits :: "host \<Rightarrow> string \<Rightarrow> string list" where
  "repo_config_hits h cwd =
     (let chain = repo_dir_chain_resolve h cwd;
          dirs = rc_dirs chain;
          hook_root = (case rc_git_root chain of Some r \<Rightarrow> r | None \<Rightarrow> cwd);
          hit = (\<lambda>found kind. if found then [kind] else [])
      in hit (find_mcp_json_files_in h dirs \<noteq> []) ''mcp'' @
         concat (map (config_hits h) (find_project_configs_in h dirs)) @
         hit (ho_is_file h (path_join (path_join cwd ''.kigi'') ''lsp.json'')) ''lsp'' @
         hit (ho_is_file h (path_join (path_join cwd ''.cursor'') ''mcp.json'')) ''mcp'' @
         hit (ho_is_file h (path_join cwd ''.envrc'')) ''envrc'' @
         hit (project_claude_settings_present h cwd) ''claude'' @
         hit (list_ex (path_present_or_uncertain h)
           [path_join (path_join hook_root ''.kigi'') ''hooks'', path_join (path_join hook_root ''.cursor'') ''hooks.json'',
            path_join (path_join hook_root ''.claude'') ''settings.json'', path_join (path_join hook_root ''.claude'') ''settings.local.json'']) ''hooks'' @
         hit (project_plugin_dirs_in h dirs \<noteq> []) ''plugins'' @
         hit (project_agent_dirs_in h dirs \<noteq> []) ''agents'' @
         hit (claude_project_mcp_names h cwd \<noteq> None) ''mcp'')"

definition push_kind :: "string list \<Rightarrow> string \<Rightarrow> string list" where
  "push_kind kinds k = (if k \<in> set kinds then kinds else kinds @ [k])"

definition collect_repo_config_kinds :: "host \<Rightarrow> string \<Rightarrow> bool \<Rightarrow> string list" where
  "collect_repo_config_kinds h cwd first_only =
     (if first_only then take 1 (repo_config_hits h cwd) else foldl push_kind [] (repo_config_hits h cwd))"

definition repo_configs_present :: "host \<Rightarrow> string \<Rightarrow> bool" where
  "repo_configs_present h cwd \<longleftrightarrow> collect_repo_config_kinds h cwd True \<noteq> []"

definition repo_config_kinds :: "host \<Rightarrow> string \<Rightarrow> string list" where
  "repo_config_kinds h cwd = collect_repo_config_kinds h cwd False"

section \<open>The decision\<close>

datatype trust_outcome = Trusted | Untrusted | TrustPrompt

record decide_inputs =
  di_store_trusted :: bool
  di_repo_configs_present :: bool
  di_is_interactive :: bool
  di_key_recordable :: bool

definition decide_trust :: "bool \<Rightarrow> decide_inputs \<Rightarrow> trust_outcome" where
  "decide_trust feature_enabled i =
     (if \<not> feature_enabled then Trusted
      else if di_store_trusted i then Trusted
      else if \<not> di_key_recordable i then Trusted
      else if \<not> di_repo_configs_present i then Trusted
      else if di_is_interactive i then TrustPrompt
      else Untrusted)"

text \<open>What one call needs beside the state: the document format, the outcome of a write, the clock, the
  answer to a prompt, whether the terminal is interactive and whether the build has a release stamp.\<close>

record trust_call =
  tc_io :: trust_io
  tc_write :: store_write
  tc_now :: "i64 option"
  tc_reply :: "string option"
  tc_interactive :: bool
  tc_stamped :: bool

record trust_world =
  tw_host :: host
  tw_file :: read_result
  tw_cache :: "component list \<rightharpoonup> bool"

definition is_local_build :: "host \<Rightarrow> bool \<Rightarrow> bool" where
  "is_local_build h stamped \<longleftrightarrow> ho_env_var h ''KIGI_TEST_VERSION'' = None \<and> \<not> stamped"

definition folder_trust_inert :: "host \<Rightarrow> bool \<Rightarrow> bool" where
  "folder_trust_inert h stamped = is_local_build h stamped"

definition env_bool :: "string option \<Rightarrow> bool option" where
  "env_bool value =
     (case value of
        None \<Rightarrow> None
      | Some raw \<Rightarrow>
          let v = to_ascii_lowercase (trim raw)
          in if v \<in> {''1'', ''true'', ''yes'', ''on'', ''enabled''} then Some True
             else if v \<in> {''0'', ''false'', ''no'', ''off'', ''disabled''} then Some False
             else None)"

definition user_config_layer :: "host \<Rightarrow> string \<Rightarrow> toml option" where
  "user_config_layer h file =
     (case ho_kigi_home h of Some g \<Rightarrow> ho_config h (path_join g file) | None \<Rightarrow> Some (TTable []))"

fun first_set :: "bool option list \<Rightarrow> bool \<Rightarrow> bool" where
  "first_set [] d = d"
| "first_set (Some b # vs) d = b"
| "first_set (None # vs) d = first_set vs d"

definition feature_enabled :: "host \<Rightarrow> bool \<Rightarrow> bool option \<Rightarrow> bool" where
  "feature_enabled h stamped remote =
     (if is_local_build h stamped then False
      else let from_toml = (\<lambda>v. Option.bind (Option.bind (Option.bind v (\<lambda>t. toml_get t ''folder_trust'')) (\<lambda>t. toml_get t ''enabled'')) toml_as_bool)
           in first_set [env_bool (ho_env_var h ''KIGI_FOLDER_TRUST''), from_toml (user_config_layer h ''config.toml''),
                         from_toml (user_config_layer h ''managed_config.toml''), remote] True)"

definition load_store :: "trust_call \<Rightarrow> trust_world \<Rightarrow> trust_store" where
  "load_store c w = store_load (tc_io c) (tw_host w) (tw_file w)"

definition store_trusts :: "trust_call \<Rightarrow> trust_world \<Rightarrow> string \<Rightarrow> bool" where
  "store_trusts c w key = is_trusted (tw_host w) (load_store c w) key"

definition decide_inputs_with_interactive :: "trust_call \<Rightarrow> trust_world \<Rightarrow> string \<Rightarrow> string \<Rightarrow> bool \<Rightarrow> decide_inputs" where
  "decide_inputs_with_interactive c w cwd key interactive =
     \<lparr>di_store_trusted = store_trusts c w key, di_repo_configs_present = repo_configs_present (tw_host w) cwd,
      di_is_interactive = interactive, di_key_recordable = (\<not> is_unsafe_trust_root (tw_host w) key)\<rparr>"

definition prompt_for_trust :: "string option \<Rightarrow> bool" where
  "prompt_for_trust reply =
     (case reply of None \<Rightarrow> False | Some line \<Rightarrow> to_ascii_lowercase (trim line) \<in> {''y'', ''yes''})"

section \<open>The store of a world\<close>

definition write_decision :: "trust_call \<Rightarrow> trust_world \<Rightarrow> string \<Rightarrow> bool \<Rightarrow> trust_world" where
  "write_decision c w key b =
     w\<lparr>tw_file := snd (snd (record_trust_decision (tc_io c) (tw_host w) (tc_write c) (tc_now c) (load_store c w, tw_file w) key b))\<rparr>"

definition persist_trust :: "trust_call \<Rightarrow> trust_world \<Rightarrow> string \<Rightarrow> trust_world" where
  "persist_trust c w key = write_decision c w key True"

definition grant_folder_trust :: "trust_call \<Rightarrow> trust_world \<Rightarrow> string \<Rightarrow> trust_world" where
  "grant_folder_trust c w cwd =
     (if folder_trust_inert (tw_host w) (tc_stamped c) then w else persist_trust c w (workspace_key (tw_host w) cwd))"

definition revoke_folder_trust_store :: "trust_call \<Rightarrow> trust_world \<Rightarrow> string \<Rightarrow> bool \<times> trust_world" where
  "revoke_folder_trust_store c w cwd =
     (if folder_trust_inert (tw_host w) (tc_stamped c) then (False, w)
      else let key = workspace_key (tw_host w) cwd; was_trusted = store_trusts c w key
           in (was_trusted, if was_trusted then write_decision c w key False else w))"

section \<open>The cache\<close>

definition cached :: "trust_world \<Rightarrow> string \<Rightarrow> bool option" where
  "cached w key = tw_cache w (components key)"

definition record_verdict :: "trust_world \<Rightarrow> string \<Rightarrow> bool \<Rightarrow> trust_world" where
  "record_verdict w key allowed = w\<lparr>tw_cache := (tw_cache w)(components key \<mapsto> allowed)\<rparr>"

definition compute_from_inputs ::
  "trust_call \<Rightarrow> trust_world \<Rightarrow> decide_inputs \<Rightarrow> bool \<Rightarrow> string \<Rightarrow> bool \<Rightarrow> (bool \<times> bool) \<times> trust_world" where
  "compute_from_inputs c w inputs feature key allow_prompt =
     (case decide_trust feature inputs of
        Trusted \<Rightarrow> ((True, \<not> feature \<or> di_store_trusted inputs), w)
      | TrustPrompt \<Rightarrow>
          if allow_prompt
          then if prompt_for_trust (tc_reply c) then ((True, True), persist_trust c w key) else ((False, True), w)
          else ((False, True), w)
      | Untrusted \<Rightarrow> ((False, True), w))"

definition compute :: "trust_call \<Rightarrow> trust_world \<Rightarrow> string \<Rightarrow> string \<Rightarrow> bool option \<Rightarrow> bool \<Rightarrow> (bool \<times> bool) \<times> trust_world" where
  "compute c w cwd key remote allow_prompt =
     compute_from_inputs c w (decide_inputs_with_interactive c w cwd key (tc_interactive c))
       (feature_enabled (tw_host w) (tc_stamped c) remote) key allow_prompt"

definition resolve_and_record_inner ::
  "trust_world \<Rightarrow> string \<Rightarrow> bool \<Rightarrow> (bool \<times> bool) \<times> trust_world \<Rightarrow> bool \<times> trust_world" where
  "resolve_and_record_inner w key store_trusted recompute =
     (case cached w key of
        Some True \<Rightarrow> (True, w)
      | Some False \<Rightarrow> if store_trusted then (True, record_verdict w key True) else (False, w)
      | None \<Rightarrow> let ((allowed, durable), w') = recompute in (allowed, if durable then record_verdict w' key allowed else w'))"

definition resolve_and_record :: "trust_call \<Rightarrow> trust_world \<Rightarrow> string \<Rightarrow> bool option \<Rightarrow> bool \<Rightarrow> bool \<times> trust_world" where
  "resolve_and_record c w cwd remote allow_prompt =
     (if folder_trust_inert (tw_host w) (tc_stamped c) then (True, w)
      else let key = workspace_key (tw_host w) cwd
           in resolve_and_record_inner w key (store_trusts c w key) (compute c w cwd key remote allow_prompt))"

definition resolve_launch_dir_trust :: "trust_call \<Rightarrow> trust_world \<Rightarrow> string \<Rightarrow> bool option \<Rightarrow> bool \<times> trust_world" where
  "resolve_launch_dir_trust c w cwd remote =
     (if folder_trust_inert (tw_host w) (tc_stamped c) then (True, w)
      else let key = workspace_key (tw_host w) cwd;
               feature = feature_enabled (tw_host w) (tc_stamped c) remote;
               inputs = decide_inputs_with_interactive c w cwd key (tc_interactive c)
           in resolve_and_record_inner w key (store_trusts c w key) (compute_from_inputs c w inputs feature key False))"

definition project_scope_allowed :: "trust_call \<Rightarrow> trust_world \<Rightarrow> string \<Rightarrow> bool \<times> trust_world" where
  "project_scope_allowed c w cwd =
     (let key = workspace_key (tw_host w) cwd
      in case cached w key of
           Some True \<Rightarrow> (True, w)
         | Some False \<Rightarrow> if store_trusts c w key then (True, record_verdict w key True) else (False, w)
         | None \<Rightarrow> resolve_and_record c w cwd None False)"

text \<open>\<open>mvp_agent/agent_ops.rs\<close>: the variables a new session takes from the settings files.\<close>

definition session_claude_env :: "trust_call \<Rightarrow> trust_world \<Rightarrow> string \<Rightarrow> (string \<rightharpoonup> string) \<times> trust_world" where
  "session_claude_env c w cwd =
     (let (project_env_trusted, w') = project_scope_allowed c w cwd
      in (load_claude_env_with_project (tw_host w') cwd project_env_trusted, w'))"

definition revoke_folder_trust :: "trust_call \<Rightarrow> trust_world \<Rightarrow> string \<Rightarrow> bool \<times> trust_world" where
  "revoke_folder_trust c w cwd =
     (if folder_trust_inert (tw_host w) (tc_stamped c) then (False, w)
      else let key = workspace_key (tw_host w) cwd
           in if is_unsafe_trust_root (tw_host w) key then (False, w)
              else let (was_trusted, w') = revoke_folder_trust_store c w cwd in (was_trusted, record_verdict w' key False))"

definition prompt_warranted :: "trust_call \<Rightarrow> trust_world \<Rightarrow> string \<Rightarrow> bool option \<Rightarrow> bool" where
  "prompt_warranted c w cwd remote \<longleftrightarrow>
     decide_trust (feature_enabled (tw_host w) (tc_stamped c) remote)
       (decide_inputs_with_interactive c w cwd (workspace_key (tw_host w) cwd) True) = TrustPrompt"

section \<open>What the gate filters\<close>

datatype agent_scope = ScopeProject | ScopeUser | ScopeBundled | ScopeBuiltIn

definition agent_inline_hooks_allowed :: "agent_scope \<Rightarrow> bool \<Rightarrow> bool" where
  "agent_inline_hooks_allowed scope trusted \<longleftrightarrow> scope \<noteq> ScopeProject \<or> trusted"

text \<open>The names declared by the project, from the loaders of its four sources.\<close>

definition project_scoped_mcp_names :: "(string \<times> bool) list \<Rightarrow> mcp_server list \<Rightarrow> mcp_server list \<Rightarrow> string list option \<Rightarrow> string set" where
  "project_scoped_mcp_names config_servers mcp_json cursor claude =
     {n. (n, True) \<in> set config_servers} \<union> mcp_server_name ` set mcp_json \<union> mcp_server_name ` set cursor \<union>
     (case claude of Some ns \<Rightarrow> set ns | None \<Rightarrow> {})"

definition filter_untrusted_project_mcp :: "bool \<Rightarrow> string set \<Rightarrow> mcp_server list \<Rightarrow> mcp_server list" where
  "filter_untrusted_project_mcp allowed project merged =
     (if allowed then merged else filter (\<lambda>s. mcp_server_name s \<notin> project) merged)"

text \<open>A server of the project is one whose configuration has the project as its source.\<close>

definition filter_project_lsp_when_untrusted :: "(string \<times> 'cfg \<times> bool) list \<Rightarrow> bool \<Rightarrow> (string \<times> 'cfg) list" where
  "filter_project_lsp_when_untrusted sourced project_trusted =
     map (\<lambda>(name, cfg, _). (name, cfg)) (filter (\<lambda>(_, _, is_project). project_trusted \<or> \<not> is_project) sourced)"

section \<open>Migration at start\<close>

text \<open>At most once per process: the flag of the \<open>Once\<close>, the file of the store, and whether the legacy file is to be renamed.\<close>

definition migrate_legacy_hook_trust ::
  "trust_call \<Rightarrow> (string \<Rightarrow> store_write) \<Rightarrow> read_result \<Rightarrow> bool \<Rightarrow> bool \<times> trust_world \<Rightarrow> (bool \<times> trust_world) \<times> bool" where
  "migrate_legacy_hook_trust c writes legacy legacy_exists state =
     (let (migrated, w) = state
      in if folder_trust_inert (tw_host w) (tc_stamped c) \<or> migrated then (state, False)
         else if ho_kigi_home (tw_host w) = None then ((True, w), False)
         else let (_, (_, file), rename) =
                    migrate_legacy_hook_trust_in (tc_io c) (tw_host w) writes (tc_now c) legacy legacy_exists (load_store c w, tw_file w)
              in ((True, w\<lparr>tw_file := file\<rparr>), rename))"

end
