(* ===== verification/Trust_Facts.thy ===== *)
theory Trust_Facts
  imports Trust_Gate
begin

text \<open>
  The folder-trust gate as a state machine, and its facts.  A state is a world with the folders the
  user has trusted so far and the workspaces that were resolved, launched or checked while the gate
  was switched off; between two calls the machine may change in any way that keeps canonical paths
  canonical, and the switch with it.  The invariant: a trusted record lies in the first set, and a
  cached grant at or below a folder of the first set or in the second.
\<close>

section \<open>The scan\<close>

lemma push_kinds_set: "set (foldl push_kind ks hits) = set ks \<union> set hits"
  by (induction hits arbitrary: ks) (auto simp: push_kind_def)

lemma push_kinds_nonempty: "foldl push_kind [] hits = [] \<longleftrightarrow> hits = []"
  using push_kinds_set [of "[]" hits] by (metis set_empty sup_bot_left)

lemma present_iff_hits: "repo_configs_present h cwd \<longleftrightarrow> repo_config_hits h cwd \<noteq> []"
  by (cases "repo_config_hits h cwd") (simp_all add: repo_configs_present_def collect_repo_config_kinds_def)

lemma present_iff_kinds: "repo_configs_present h cwd \<longleftrightarrow> repo_config_kinds h cwd \<noteq> []"
  by (simp add: present_iff_hits repo_config_kinds_def collect_repo_config_kinds_def push_kinds_nonempty)

lemma settings_present_hit: "project_claude_settings_present h cwd \<Longrightarrow> repo_configs_present h cwd"
  by (simp add: present_iff_hits repo_config_hits_def Let_def)

section \<open>The state machine\<close>

text \<open>A world, the folders the user has trusted, and the workspaces that were looked at while the gate was off.\<close>

type_synonym trust_state = "trust_world \<times> string set \<times> string set"

definition note_ungated :: "trust_call \<Rightarrow> trust_world \<Rightarrow> string \<Rightarrow> bool option \<Rightarrow> string set \<Rightarrow> string set" where
  "note_ungated c w cwd remote U =
     (if feature_enabled (tw_host w) (tc_stamped c) remote then U else insert (workspace_key (tw_host w) cwd) U)"

inductive trust_step :: "trust_io \<Rightarrow> trust_state \<Rightarrow> trust_state \<Rightarrow> bool" for io where
  files: "host_ok h' \<Longrightarrow> trust_step io (w, C, U) (w\<lparr>tw_host := h'\<rparr>, C, U)"
| grant: "tc_io c = io \<Longrightarrow> trust_step io (w, C, U) (grant_folder_trust c w cwd, insert (workspace_key (tw_host w) cwd) C, U)"
| revoke: "tc_io c = io \<Longrightarrow> trust_step io (w, C, U) (snd (revoke_folder_trust c w cwd), C, U)"
| peer_revoke: "tc_io c = io \<Longrightarrow> trust_step io (w, C, U) (snd (revoke_folder_trust_store c w cwd), C, U)"
| resolve: "tc_io c = io \<Longrightarrow>
    trust_step io (w, C, U) (snd (resolve_and_record c w cwd remote allow_prompt),
      if allow_prompt \<and> prompt_for_trust (tc_reply c) then insert (workspace_key (tw_host w) cwd) C else C,
      note_ungated c w cwd remote U)"
| launch: "tc_io c = io \<Longrightarrow>
    trust_step io (w, C, U) (snd (resolve_launch_dir_trust c w cwd remote), C, note_ungated c w cwd remote U)"
| check: "tc_io c = io \<Longrightarrow> trust_step io (w, C, U) (snd (project_scope_allowed c w cwd), C, note_ungated c w cwd None U)"

inductive_cases trust_stepE: "trust_step io s s'"

definition trust_start :: "trust_io \<Rightarrow> trust_state \<Rightarrow> bool" where
  "trust_start io s \<longleftrightarrow>
     (case s of (w, C, U) \<Rightarrow>
        store_format_ok io \<and> host_ok (tw_host w) \<and> tw_cache w = Map.empty \<and>
        (\<forall>(f, r)\<in>set (read_doc io (tw_file w)). ft_trusted r \<longrightarrow> f \<in> C))"

definition consented :: "string set \<Rightarrow> string \<Rightarrow> bool" where
  "consented C key \<longleftrightarrow> (\<exists>a\<in>C. path_starts_with key a)"

definition opened :: "string set \<Rightarrow> string set \<Rightarrow> string \<Rightarrow> bool" where
  "opened C U key \<longleftrightarrow> consented C key \<or> (\<exists>a\<in>U. path_eq key a)"

definition trust_inv :: "trust_io \<Rightarrow> trust_state \<Rightarrow> bool" where
  "trust_inv io s \<longleftrightarrow>
     (case s of (w, C, U) \<Rightarrow>
        store_format_ok io \<and> host_ok (tw_host w) \<and>
        (\<forall>(f, r)\<in>set (read_doc io (tw_file w)). ft_trusted r \<longrightarrow> f \<in> C) \<and>
        (\<forall>key. cached w key = Some True \<longrightarrow> opened C U key))"

lemma load_store_doc: "ts_doc (load_store c w) = read_doc (tc_io c) (tw_file w) \<or> ts_doc (load_store c w) = []"
  by (auto simp: load_store_def store_load_def load_from_def split: option.splits)

lemma store_trusts_consented:
  assumes "trust_inv (tc_io c) (w, C, U)" "store_trusts c w (workspace_key (tw_host w) cwd)"
  shows "consented C (workspace_key (tw_host w) cwd)"
proof -
  have "host_ok (tw_host w)" using assms(1) by (simp add: trust_inv_def)
  with trusted_has_record [OF assms(2) [unfolded store_trusts_def]] obtain f r where
    "(f, r) \<in> set (ts_doc (load_store c w))" "ft_trusted r" "path_starts_with (workspace_key (tw_host w) cwd) f"
    by (auto simp: workspace_key_canonical)
  moreover from this(1) have "(f, r) \<in> set (read_doc (tc_io c) (tw_file w))" using load_store_doc [of c w] by auto
  ultimately show ?thesis using assms(1) by (auto simp: trust_inv_def consented_def)
qed

lemma inv_write:
  assumes inv: "trust_inv (tc_io c) (w, C, U)" and key: "b \<Longrightarrow> canonicalize_or_owned (tw_host w) key \<in> C"
  shows "trust_inv (tc_io c) (write_decision c w key b, C, U)"
proof -
  let ?rec = "record_trust_decision (tc_io c) (tw_host w) (tc_write c) (tc_now c) (load_store c w, tw_file w) key b"
  obtain res s' file' where rec: "?rec = (res, s', file')" by (metis prod_cases3)
  have "file' = tw_file w \<or>
      read_doc (tc_io c) file' = btree_insert (canonicalize_or_owned (tw_host w) key) \<lparr>ft_trusted = b, ft_decided_at = tc_now c\<rparr> (read_doc (tc_io c) (tw_file w))"
    using record_decision_effect [OF rec] inv by (auto simp: trust_inv_def)
  then have "f \<in> C" if "(f, r) \<in> set (read_doc (tc_io c) file')" "ft_trusted r" for f r
    using that inv key btree_insert_subset by (fastforce simp: trust_inv_def)
  with inv show ?thesis by (auto simp: trust_inv_def cached_def write_decision_def rec)
qed

lemma opened_cong: "path_eq key key' \<Longrightarrow> opened C U key = opened C U key'"
  by (simp add: opened_def consented_def path_eq_def path_starts_with_def)

lemma inv_record:
  assumes "trust_inv io (w, C, U)" "b \<Longrightarrow> opened C U key"
  shows "trust_inv io (record_verdict w key b, C, U)"
proof -
  have "cached (record_verdict w key b) k = (if path_eq k key then Some b else cached w k)" for k
    by (simp add: cached_def record_verdict_def path_eq_def)
  moreover have "opened C U k" if "path_eq k key" b for k using that assms(2) opened_cong by blast
  ultimately show ?thesis using assms(1) by (auto simp: trust_inv_def record_verdict_def)
qed

lemma opened_mono: "opened C U key \<Longrightarrow> C \<subseteq> D \<Longrightarrow> U \<subseteq> V \<Longrightarrow> opened D V key"
  by (auto simp: opened_def consented_def)

lemma inv_mono: "trust_inv io (w, C, U) \<Longrightarrow> C \<subseteq> D \<Longrightarrow> U \<subseteq> V \<Longrightarrow> trust_inv io (w, D, V)"
  using opened_mono by (fastforce simp: trust_inv_def)

lemma consented_self: "key \<in> C \<Longrightarrow> consented C key"
  by (auto simp: consented_def path_starts_with_def)

lemma inv_host: "trust_inv io (w, C, U) \<Longrightarrow> canonicalize_or_owned (tw_host w) (workspace_key (tw_host w) cwd) = workspace_key (tw_host w) cwd"
  by (simp add: trust_inv_def workspace_key_canonical)

lemma host_of_updates [simp]:
  "tw_host (write_decision c w key b) = tw_host w" "tw_host (record_verdict w key b) = tw_host w"
  "tw_cache (write_decision c w key b) = tw_cache w"
  by (simp_all add: write_decision_def record_verdict_def)

text \<open>A recomputed verdict keeps the invariant, and one that is worth caching is a consent unless the gate is off.\<close>

lemma inv_compute:
  fixes c w cwd
  defines "key \<equiv> workspace_key (tw_host w) cwd"
  assumes invD: "trust_inv (tc_io c) (w, D, V)" and D: "allow_prompt \<and> prompt_for_trust (tc_reply c) \<Longrightarrow> key \<in> D" "\<not> feature \<Longrightarrow> key \<in> V"
    and out: "compute_from_inputs c w (decide_inputs_with_interactive c w cwd key tty) feature key allow_prompt = ((allowed, durable), w')"
  shows "trust_inv (tc_io c) (w', D, V)" and "allowed \<and> durable \<Longrightarrow> opened D V key"
proof -
  have stored: "store_trusts c w key \<Longrightarrow> consented D key"
    using store_trusts_consented [OF invD] unfolding key_def .
  have written: "trust_inv (tc_io c) (persist_trust c w key, D, V)" if "key \<in> D"
    unfolding persist_trust_def using invD that inv_host [OF invD, of cwd] by (intro inv_write) (auto simp: key_def)
  show "trust_inv (tc_io c) (w', D, V)"
    using out invD written D(1) by (auto simp: compute_from_inputs_def split: trust_outcome.splits if_splits)
  have "\<not> feature \<Longrightarrow> opened D V key" using D(2) by (auto simp: opened_def path_eq_def)
  then show "opened D V key" if "allowed \<and> durable"
    using out that stored D(1) consented_self
    by (auto simp: compute_from_inputs_def decide_inputs_with_interactive_def opened_def split: trust_outcome.splits if_splits)
qed

lemma inv_resolve_inner:
  fixes c w cwd
  defines "key \<equiv> workspace_key (tw_host w) cwd"
  assumes invD: "trust_inv (tc_io c) (w, D, V)" and D: "allow_prompt \<and> prompt_for_trust (tc_reply c) \<Longrightarrow> key \<in> D" "\<not> feature \<Longrightarrow> key \<in> V"
  shows "trust_inv (tc_io c) (snd (resolve_and_record_inner w key (store_trusts c w key)
    (compute_from_inputs c w (decide_inputs_with_interactive c w cwd key tty) feature key allow_prompt)), D, V)"
proof -
  obtain allowed durable w' where out:
    "compute_from_inputs c w (decide_inputs_with_interactive c w cwd key tty) feature key allow_prompt = ((allowed, durable), w')"
    by (metis surj_pair)
  note comp = inv_compute [OF invD D(1) [unfolded key_def] D(2) [unfolded key_def] out [unfolded key_def]]
  have "store_trusts c w key \<Longrightarrow> trust_inv (tc_io c) (record_verdict w key True, D, V)"
    using store_trusts_consented [OF invD, of cwd] invD by (auto simp: key_def opened_def intro: inv_record)
  moreover have "durable \<Longrightarrow> trust_inv (tc_io c) (record_verdict w' key allowed, D, V)"
    using comp by (auto simp: key_def intro: inv_record)
  ultimately show ?thesis
    using invD comp(1) by (auto simp: resolve_and_record_inner_def out split: option.splits bool.splits)
qed

lemma note_ungated_facts:
  "U \<subseteq> note_ungated c w cwd remote U"
  "\<not> feature_enabled (tw_host w) (tc_stamped c) remote \<Longrightarrow> workspace_key (tw_host w) cwd \<in> note_ungated c w cwd remote U"
  by (auto simp: note_ungated_def)

lemma inv_noted: "trust_inv io (w, C, U) \<Longrightarrow> C \<subseteq> D \<Longrightarrow> trust_inv io (w, D, note_ungated c w cwd remote U)"
  by (rule inv_mono [OF _ _ note_ungated_facts(1)])

lemma inv_resolve:
  assumes "trust_inv (tc_io c) (w, C, U)"
    and D: "D = (if allow_prompt \<and> prompt_for_trust (tc_reply c) then insert (workspace_key (tw_host w) cwd) C else C)"
  shows "trust_inv (tc_io c) (snd (resolve_and_record c w cwd remote allow_prompt), D, note_ungated c w cwd remote U)"
proof -
  have inv: "trust_inv (tc_io c) (w, D, note_ungated c w cwd remote U)"
    by (rule inv_noted [OF assms(1)]) (auto simp: D)
  from inv_resolve_inner [OF this, of allow_prompt cwd "feature_enabled (tw_host w) (tc_stamped c) remote"]
  show ?thesis using inv D note_ungated_facts(2) by (auto simp: resolve_and_record_def compute_def Let_def)
qed

lemma enabled_not_inert: "feature_enabled h stamped remote \<Longrightarrow> \<not> folder_trust_inert h stamped"
  by (auto simp: feature_enabled_def folder_trust_inert_def split: if_splits)

lemma trust_inv_step: "trust_step io s s' \<Longrightarrow> trust_inv io s \<Longrightarrow> trust_inv io s'"
proof (induction rule: trust_step.induct)
  case (files h' w C U)
  then show ?case by (simp add: trust_inv_def cached_def)
next
  case (grant c w C U cwd)
  then have "trust_inv (tc_io c) (w, insert (workspace_key (tw_host w) cwd) C, U)" by (auto intro: inv_mono)
  moreover from this have "trust_inv (tc_io c) (persist_trust c w (workspace_key (tw_host w) cwd), insert (workspace_key (tw_host w) cwd) C, U)"
    unfolding persist_trust_def using inv_host by (intro inv_write) auto
  ultimately show ?case using grant by (simp add: grant_folder_trust_def)
next
  case (revoke c w C U cwd)
  then show ?case
    by (auto simp: revoke_folder_trust_def revoke_folder_trust_store_def Let_def intro!: inv_record inv_write)
next
  case (peer_revoke c w C U cwd)
  then show ?case by (auto simp: revoke_folder_trust_store_def Let_def intro!: inv_write)
next
  case (resolve c w C U cwd remote allow_prompt)
  then show ?case using inv_resolve [of c w C U] by blast
next
  case (launch c w C U cwd remote)
  then have inv: "trust_inv (tc_io c) (w, C, note_ungated c w cwd remote U)" using inv_noted by blast
  from inv_resolve_inner [OF this, of False cwd "feature_enabled (tw_host w) (tc_stamped c) remote"]
  show ?case using launch inv note_ungated_facts(2) by (auto simp: resolve_launch_dir_trust_def Let_def)
next
  case (check c w C U cwd)
  then have inv: "trust_inv (tc_io c) (w, C, note_ungated c w cwd None U)" using inv_noted by blast
  have "store_trusts c w (workspace_key (tw_host w) cwd) \<Longrightarrow> opened C (note_ungated c w cwd None U) (workspace_key (tw_host w) cwd)"
    using store_trusts_consented [OF inv] by (simp add: opened_def)
  moreover have "trust_inv (tc_io c) (snd (resolve_and_record c w cwd None False), C, note_ungated c w cwd None U)"
    using inv_resolve [of c w C U C False] check by simp
  ultimately show ?case
    using inv check by (auto simp: project_scope_allowed_def Let_def inv_record split: option.splits bool.splits)
qed

interpretation gatekeeper: invariant_system "trust_start io" "trust_step io" "trust_inv io"
proof
  show "trust_inv io s" if "trust_start io s" for s using that by (auto simp: trust_start_def trust_inv_def cached_def)
  show "trust_inv io s'" if "trust_inv io s" "trust_step io s s'" for s s' using that by (blast intro: trust_inv_step)
qed

section \<open>Facts\<close>

text \<open>Why a check lets the project through.\<close>

lemma allowed_why:
  assumes inv: "trust_inv (tc_io c) (w, C, U)" and on: "feature_enabled (tw_host w) (tc_stamped c) None"
    and ok: "fst (project_scope_allowed c w cwd)"
  shows "opened C U (workspace_key (tw_host w) cwd) \<or> is_unsafe_trust_root (tw_host w) (workspace_key (tw_host w) cwd) \<or>
    \<not> repo_configs_present (tw_host w) cwd"
proof -
  let ?k = "workspace_key (tw_host w) cwd"
  have cache: "cached w ?k = Some True \<Longrightarrow> opened C U ?k" using inv by (simp add: trust_inv_def)
  have "store_trusts c w ?k \<Longrightarrow> opened C U ?k" using store_trusts_consented [OF inv] by (simp add: opened_def)
  then show ?thesis
    using cache ok on
    by (auto simp: project_scope_allowed_def resolve_and_record_def resolve_and_record_inner_def compute_def compute_from_inputs_def
        decide_trust_def decide_inputs_with_interactive_def Let_def enabled_not_inert split: option.splits bool.splits trust_outcome.splits if_splits)
qed

text \<open>A decision whose write goes through is in the file that the next call loads.\<close>

definition write_goes_through :: "trust_call \<Rightarrow> trust_world \<Rightarrow> string \<Rightarrow> bool \<Rightarrow> bool" where
  "write_goes_through c w key b \<longleftrightarrow>
     ho_kigi_home (tw_host w) \<noteq> None \<and> wi_prepare (tc_write c) = None \<and> wi_publish (tc_write c) = None \<and>
     ti_print (tc_io c) (btree_insert (canonicalize_or_owned (tw_host w) key) \<lparr>ft_trusted = b, ft_decided_at = tc_now c\<rparr> (read_doc (tc_io c) (tw_file w))) \<noteq> None"

lemma written_loaded:
  assumes "store_format_ok (tc_io c)" "write_goes_through c w key b" "\<not> is_unsafe_trust_root (tw_host w) (canonicalize_or_owned (tw_host w) key)"
  shows "ts_doc (load_store c (write_decision c w key b)) =
    btree_insert (canonicalize_or_owned (tw_host w) key) \<lparr>ft_trusted = b, ft_decided_at = tc_now c\<rparr> (read_doc (tc_io c) (tw_file w))"
proof -
  obtain g where g: "ho_kigi_home (tw_host w) = Some g" using assms(2) by (auto simp: write_goes_through_def)
  obtain body where body: "ti_print (tc_io c) (btree_insert (canonicalize_or_owned (tw_host w) key)
      \<lparr>ft_trusted = b, ft_decided_at = tc_now c\<rparr> (read_doc (tc_io c) (tw_file w))) = Some body"
    using assms(2) by (auto simp: write_goes_through_def)
  have "tw_file (write_decision c w key b) = ReadOk body"
    using g body assms(2,3) store_path_parent [of g]
    by (auto simp: write_goes_through_def write_decision_def record_trust_decision_def load_store_def store_load_def default_path_in_def load_from_def Let_def)
  then show ?thesis
    using g body assms(1) by (simp add: load_store_def store_load_def default_path_in_def load_from_def written_reads_back)
qed

lemma load_store_record [simp]: "load_store c (record_verdict w key b) = load_store c w"
  by (simp add: load_store_def record_verdict_def)

text \<open>A revoke whose write goes through is seen by the next check.\<close>

lemma revoke_seen:
  assumes io: "store_format_ok (tc_io c)" and stamped: "\<not> folder_trust_inert (tw_host w) (tc_stamped c)"
    and safe: "\<not> is_unsafe_trust_root (tw_host w) (workspace_key (tw_host w) cwd)" and host: "host_ok (tw_host w)"
    and wr: "write_goes_through c w (workspace_key (tw_host w) cwd) False"
  shows "\<not> fst (project_scope_allowed c (snd (revoke_folder_trust c w cwd)) cwd)"
proof -
  let ?k = "workspace_key (tw_host w) cwd" and ?w = "snd (revoke_folder_trust c w cwd)"
  have canon: "canonicalize_or_owned (tw_host w) ?k = ?k" by (rule workspace_key_canonical [OF host])
  have w': "?w = record_verdict (if store_trusts c w ?k then write_decision c w ?k False else w) ?k False"
    using stamped safe by (simp add: revoke_folder_trust_def revoke_folder_trust_store_def Let_def)
  have "\<not> is_trusted (tw_host w) (load_store c ?w) ?k"
  proof (cases "store_trusts c w ?k")
    case False
    then show ?thesis by (simp add: w' store_trusts_def)
  next
    case True
    then show ?thesis
      using written_loaded [OF io wr] safe canon
      by (intro declined_not_trusted [where now = "tc_now c" and old = "read_doc (tc_io c) (tw_file w)"]) (simp_all add: w')
  qed
  moreover have "tw_host ?w = tw_host w" "cached ?w ?k = Some False" by (simp_all add: w' cached_def record_verdict_def)
  ultimately show ?thesis by (simp add: project_scope_allowed_def store_trusts_def)
qed

text \<open>A grant whose write goes through is seen by the next check, in every process and whatever it had cached,
  unless the file spells the same folder twice.\<close>

lemma grant_seen:
  assumes io: "store_format_ok (tc_io c)" and stamped: "\<not> folder_trust_inert (tw_host w) (tc_stamped c)"
    and safe: "\<not> is_unsafe_trust_root (tw_host w) (workspace_key (tw_host w) cwd)" and host: "host_ok (tw_host w)"
    and wr: "write_goes_through c w (workspace_key (tw_host w) cwd) True" and sorted: "sorted_wrt (<) (map fst (read_doc (tc_io c) (tw_file w)))"
    and once: "\<forall>(f, r)\<in>set (read_doc (tc_io c) (tw_file w)). components f = components (workspace_key (tw_host w) cwd) \<longrightarrow> f = workspace_key (tw_host w) cwd"
  shows "fst (project_scope_allowed c (grant_folder_trust c w cwd) cwd)"
proof -
  let ?k = "workspace_key (tw_host w) cwd" and ?w = "write_decision c w (workspace_key (tw_host w) cwd) True"
  have canon: "canonicalize_or_owned (tw_host w) ?k = ?k" by (rule workspace_key_canonical [OF host])
  have w': "grant_folder_trust c w cwd = ?w" using stamped by (simp add: grant_folder_trust_def persist_trust_def)
  have near: "depth f < depth ?k \<or> f = ?k" if "(f, r) \<in> set (read_doc (tc_io c) (tw_file w))" "governs (tw_host w) ?k f" for f r
  proof -
    have "prefix (components f) (components ?k)" using that(2) by (simp add: governs_def path_starts_with_def)
    then have "depth f < depth ?k \<or> components f = components ?k"
      by (metis depth_def prefix_length_less prefix_order.le_neq_trans strict_prefixI')
    then show ?thesis using that(1) once by auto
  qed
  have "is_trusted (tw_host w) (load_store c ?w) ?k \<longleftrightarrow> True"
    using written_loaded [OF io wr] safe canon near sorted
    by (intro decision_holds [where k = ?k and now = "tc_now c" and old = "read_doc (tc_io c) (tw_file w)"])
      (auto simp: governs_def path_starts_with_def)
  then have st: "store_trusts c ?w ?k" by (simp add: store_trusts_def)
  show ?thesis
    using st stamped unfolding w'
    by (auto simp: project_scope_allowed_def resolve_and_record_def resolve_and_record_inner_def compute_def compute_from_inputs_def
        decide_trust_def decide_inputs_with_interactive_def Let_def split: option.splits bool.splits)
qed

text \<open>A revoke whose write fails is undone by the next check, which reads the old file.\<close>

lemma revoke_lost:
  assumes "\<not> folder_trust_inert (tw_host w) (tc_stamped c)" "\<not> is_unsafe_trust_root (tw_host w) (workspace_key (tw_host w) cwd)"
    and "host_ok (tw_host w)" "store_trusts c w (workspace_key (tw_host w) cwd)" "wi_publish (tc_write c) = Some e"
  shows "fst (revoke_folder_trust c w cwd)" and "fst (project_scope_allowed c (snd (revoke_folder_trust c w cwd)) cwd)"
proof -
  let ?k = "workspace_key (tw_host w) cwd"
  have same: "write_decision c w ?k False = w"
    using assms(5) by (auto simp: write_decision_def record_trust_decision_def Let_def split: option.splits)
  then have "snd (revoke_folder_trust c w cwd) = record_verdict w ?k False" and "fst (revoke_folder_trust c w cwd)"
    using assms by (simp_all add: revoke_folder_trust_def revoke_folder_trust_store_def Let_def)
  then show "fst (revoke_folder_trust c w cwd)" "fst (project_scope_allowed c (snd (revoke_folder_trust c w cwd)) cwd)"
    using assms(4) by (simp_all add: project_scope_allowed_def Let_def cached_def record_verdict_def store_trusts_def load_store_def)
qed

lemma merge_nothing: "\<forall>p\<in>set ps. f p = Map.empty \<Longrightarrow> foldl (\<lambda>m p. m ++ f p) m ps = m"
  by (induction ps) auto

text \<open>The variables a project adds to the environment come from files that close the gate.\<close>

lemma project_env_needs_files:
  assumes readable: "\<And>p c. p \<in> set (collect_project_claude_paths h cwd) \<Longrightarrow> ho_read h p = ReadOk c \<Longrightarrow> ho_is_file h p"
    and "load_claude_env_with_project h cwd True \<noteq> load_claude_env_with_project h cwd False"
  shows "repo_configs_present h cwd"
proof (rule settings_present_hit, rule ccontr)
  assume "\<not> project_claude_settings_present h cwd"
  then have "\<forall>p\<in>set (collect_project_claude_paths h cwd). \<not> ho_is_file h p"
    by (auto simp: project_claude_settings_present_def list_ex_iff)
  then have "\<forall>p\<in>set (collect_project_claude_paths h cwd). settings_env h p = Map.empty"
    using readable settings_env_unreadable by blast
  then have none: "foldl (\<lambda>m p. m ++ settings_env h p) m (rev (collect_project_claude_paths h cwd)) = m" for m
    by (intro merge_nothing) simp
  have "load_claude_env_with_project h cwd True = load_claude_env_with_project h cwd False"
    by (simp add: load_claude_env_with_project_def find_claude_settings_paths_def none)
  with assms(2) show False by blast
qed

text \<open>The variables of the user alone: the local settings file of the home directory over the shared one.\<close>

definition home_settings_env :: "host \<Rightarrow> string \<rightharpoonup> string" where
  "home_settings_env h =
     (case ho_home h of
        Some home \<Rightarrow>
          if is_claude_import_marked h then Map.empty
          else settings_env h (path_join (path_join home ''.claude'') ''settings.json'') ++
               settings_env h (path_join (path_join home ''.claude'') ''settings.local.json'')
      | None \<Rightarrow> Map.empty)"

lemma untrusted_env: "load_claude_env_with_project h cwd False = home_settings_env h"
  by (auto simp: load_claude_env_with_project_def home_settings_env_def global_claude_settings_paths_def settings_in_def Let_def split: option.splits)

lemma checked_host: "tw_host (snd (project_scope_allowed c w cwd)) = tw_host w"
  by (auto simp: project_scope_allowed_def resolve_and_record_def resolve_and_record_inner_def compute_def compute_from_inputs_def persist_trust_def
      Let_def split: option.splits bool.splits trust_outcome.splits)

text \<open>Without a decision nothing of the repository gets in.\<close>

lemma undecided_env:
  assumes "feature_enabled (tw_host w) (tc_stamped c) None" "\<not> is_unsafe_trust_root (tw_host w) (workspace_key (tw_host w) cwd)"
    and "\<not> store_trusts c w (workspace_key (tw_host w) cwd)" "cached w (workspace_key (tw_host w) cwd) \<noteq> Some True"
    and readable: "\<And>p content. p \<in> set (collect_project_claude_paths (tw_host w) cwd) \<Longrightarrow> ho_read (tw_host w) p = ReadOk content \<Longrightarrow> ho_is_file (tw_host w) p"
  shows "fst (session_claude_env c w cwd) = home_settings_env (tw_host w)"
proof (cases "load_claude_env_with_project (tw_host w) cwd True = load_claude_env_with_project (tw_host w) cwd False")
  case True
  then have "load_claude_env_with_project (tw_host w) cwd b = home_settings_env (tw_host w)" for b
    by (cases b) (simp_all add: untrusted_env)
  then show ?thesis by (simp add: session_claude_env_def case_prod_beta checked_host Let_def)
next
  case False
  have "repo_configs_present (tw_host w) cwd" by (rule project_env_needs_files [OF readable False])
  then have "\<not> fst (project_scope_allowed c w cwd)"
    using assms(1-4)
    by (auto simp: project_scope_allowed_def resolve_and_record_def resolve_and_record_inner_def compute_def compute_from_inputs_def
        decide_trust_def decide_inputs_with_interactive_def Let_def enabled_not_inert split: option.splits bool.splits)
  then show ?thesis by (simp add: session_claude_env_def case_prod_beta checked_host untrusted_env Let_def)
qed

end
