(* ===== verification/Perm_Resolve.thy ===== *)
theory Perm_Resolve
  imports Claude_Settings Mcp_Policy
begin

text \<open>
  \<open>permission/resolution.rs\<close>: the permission rules of every settings source, merged with the place
  each came from, the pin that takes always-approve away, and the managed policy on MCP servers and
  marketplaces.  \<open>resolve_lib\<close> holds the two derived deserializers;
  the layers of \<open>requirements.toml\<close> and of the managed configuration are arguments.
\<close>

section \<open>Sources\<close>

datatype requirement_source =
    SrcUnknown
  | SrcRequirements string
  | SrcSystemRequirements string
  | SrcManagedSettings string
  | SrcManagedConfig string
  | SrcConfig string
  | SrcSettings string

record sourced_rule =
  so_value :: permission_rule
  so_source :: requirement_source

record skipped_permission =
  sk_rule :: string
  sk_reason :: string

record resolve_lib =
  rv_rules :: "toml \<Rightarrow> string + permission_rule list" \<comment> \<open>\<open>try_into::<PermissionConfig>\<close>\<close>
  rv_permissions :: "json \<Rightarrow> parsed_permissions option" \<comment> \<open>\<open>from_value::<ParsedPermissions>\<close>\<close>

definition tag_with_source :: "requirement_source \<Rightarrow> permission_rule list \<Rightarrow> sourced_rule list" where
  "tag_with_source src = map (\<lambda>r. \<lparr>so_value = r, so_source = src\<rparr>)"

section \<open>Default modes\<close>

datatype user_default_mode_load = LoadApply | SkipManagedOwns

definition allow_all_of :: "tool_filter \<Rightarrow> permission_rule" where
  "allow_all_of t = \<lparr>pr_action = ActAllow, pr_tool = t, pr_pattern = None, pr_pattern_mode = GlobMode\<rparr>"

definition synthetic_rules_for_default_mode ::
  "default_permission_mode \<Rightarrow> string option \<Rightarrow> permission_rule list \<times> skipped_permission list \<times> bool" where
  "synthetic_rules_for_default_mode mode policy_block =
     (let effects = mode_effects mode
      in if dme_bypass_permissions effects
         then (case policy_block of
                 Some reason \<Rightarrow> ([], [\<lparr>sk_rule = ''defaultMode=bypassPermissions'', sk_reason = reason\<rparr>], True)
               | None \<Rightarrow> ([allow_all_of ForAny], [], False))
         else if dme_accept_edits effects then ([allow_all_of ForEdit], [], False)
         else ([], [], False))"

definition parse_default_mode_claiming_scope :: "string \<Rightarrow> default_permission_mode \<times> skipped_permission list" where
  "parse_default_mode_claiming_scope raw =
     (case default_mode_from_str raw of
        Inr mode \<Rightarrow> (mode, [])
      | Inl invalid \<Rightarrow>
          (ModeDefault, [\<lparr>sk_rule = ''defaultMode='' @ invalid, sk_reason = ''unrecognized value; treated as default''\<rparr>]))"

section \<open>TOML sources\<close>

definition compact_rules :: "toml \<Rightarrow> rule_action \<Rightarrow> string \<Rightarrow> permission_rule list option" where
  "compact_rules v action key =
     map_option (\<lambda>arr. List.map_filter (\<lambda>item. case toml_as_str item of
          Some s \<Rightarrow> (case parse_permission_rule s action of Inr r \<Rightarrow> Some r | Inl _ \<Rightarrow> None)
        | None \<Rightarrow> None) arr)
       (Option.bind (toml_get v key) toml_as_array)"

definition parse_toml_permission_section :: "resolve_lib \<Rightarrow> toml \<Rightarrow> string + permission_rule list" where
  "parse_toml_permission_section l v =
     (let found = [compact_rules v ActDeny ''deny'', compact_rules v ActAllow ''allow'', compact_rules v ActAsk ''ask'']
      in if list_ex (\<lambda>c. c \<noteq> None) found then Inr (concat (List.map_filter id found)) else rv_rules l v)"

definition extract_toml_permissions :: "resolve_lib \<Rightarrow> toml \<Rightarrow> requirement_source \<Rightarrow> sourced_rule list" where
  "extract_toml_permissions l config src =
     (case toml_get config ''permission'' of
        None \<Rightarrow> []
      | Some v \<Rightarrow> (case parse_toml_permission_section l v of Inr rules \<Rightarrow> tag_with_source src rules | Inl _ \<Rightarrow> []))"

record requirements_layer =
  rl_value :: toml
  rl_label :: string
  rl_is_system :: bool

record managed_config_layer =
  ml_value :: toml
  ml_path :: string

definition load_requirements_permissions :: "resolve_lib \<Rightarrow> requirements_layer list \<Rightarrow> sourced_rule list" where
  "load_requirements_permissions l layers =
     concat (map (\<lambda>y. extract_toml_permissions l (rl_value y)
       (if rl_is_system y then SrcSystemRequirements (rl_label y) else SrcRequirements (rl_label y))) layers)"

definition managed_config_permissions :: "resolve_lib \<Rightarrow> managed_config_layer list \<Rightarrow> sourced_rule list" where
  "managed_config_permissions l layers = concat (map (\<lambda>y. extract_toml_permissions l (ml_value y) (SrcManagedConfig (ml_path y))) layers)"

definition kigi_config_in :: "string \<Rightarrow> string" where
  "kigi_config_in dir = path_join (path_join dir ''.kigi'') ''config.toml''"

definition find_project_kigi_configs :: "host \<Rightarrow> string \<Rightarrow> string list" where
  "find_project_kigi_configs h cwd =
     (case Option.bind (ho_discover h cwd) gr_workdir of
        Some root \<Rightarrow> rev (filter (ho_is_file h) (map kigi_config_in (walk_up (\<lambda>d. path_eq d root) cwd)))
      | None \<Rightarrow> filter (ho_is_file h) [kigi_config_in cwd])"

definition config_file_rules :: "resolve_lib \<Rightarrow> host \<Rightarrow> string \<Rightarrow> sourced_rule list" where
  "config_file_rules l h path =
     (case ho_config h path of Some value \<Rightarrow> extract_toml_permissions l value (SrcConfig path) | None \<Rightarrow> [])"

definition load_config_toml_permissions :: "resolve_lib \<Rightarrow> host \<Rightarrow> string \<Rightarrow> sourced_rule list" where
  "load_config_toml_permissions l h cwd =
     (case ho_kigi_home h of
        Some g \<Rightarrow> let global_path = path_join g ''config.toml'' in if ho_is_file h global_path then config_file_rules l h global_path else []
      | None \<Rightarrow> []) @
     concat (map (config_file_rules l h) (find_project_kigi_configs h cwd))"

section \<open>The pin\<close>

definition YOLO_PIN_REASON_REQUIREMENTS :: string where
  "YOLO_PIN_REASON_REQUIREMENTS = ''always-approve disabled by managed policy ([ui] disable_bypass_permissions_mode = true in requirements.toml)''"

definition YOLO_PIN_REASON_LEGACY_YOLO :: string where
  "YOLO_PIN_REASON_LEGACY_YOLO = ''always-approve disabled by managed policy ([ui] yolo = false in requirements.toml)''"

definition requirements_lock_bool :: "toml option \<Rightarrow> string \<Rightarrow> bool option" where
  "requirements_lock_bool ui key = Option.bind (Option.bind ui (\<lambda>u. toml_get u key)) toml_as_bool"

fun resolve_yolo_policy_block :: "requirements_layer list \<Rightarrow> string option" where
  "resolve_yolo_policy_block [] = None"
| "resolve_yolo_policy_block (y # ys) =
     (let ui = toml_get (rl_value y) ''ui''
      in if requirements_lock_bool ui ''disable_bypass_permissions_mode'' = Some True then Some YOLO_PIN_REASON_REQUIREMENTS
         else if requirements_lock_bool ui ''yolo'' = Some False then Some YOLO_PIN_REASON_LEGACY_YOLO
         else resolve_yolo_policy_block ys)"

definition is_catchall_allow :: "perm_env \<Rightarrow> permission_rule \<Rightarrow> bool" where
  "is_catchall_allow e r \<longleftrightarrow> pr_action r = ActAllow \<and> pr_tool r \<notin> {ForRead, ForEdit, ForGrep} \<and> rule_is_catchall e r"

fun is_admin_source :: "requirement_source \<Rightarrow> bool" where
  "is_admin_source (SrcSystemRequirements _) = True"
| "is_admin_source (SrcManagedSettings _) = True"
| "is_admin_source _ = False"

definition untrusted_catchall :: "perm_env \<Rightarrow> sourced_rule \<Rightarrow> bool" where
  "untrusted_catchall e so \<longleftrightarrow> is_catchall_allow e (so_value so) \<and> \<not> is_admin_source (so_source so)"

definition drop_untrusted_catchall_allows ::
  "perm_env \<Rightarrow> string option \<Rightarrow> sourced_rule list \<Rightarrow> sourced_rule list \<times> skipped_permission list" where
  "drop_untrusted_catchall_allows e policy_block rules =
     (case policy_block of
        None \<Rightarrow> (rules, [])
      | Some reason \<Rightarrow>
          (filter (\<lambda>so. \<not> untrusted_catchall e so) rules,
           map (\<lambda>so. \<lparr>sk_rule = ''allow '' @ (case pr_pattern (so_value so) of Some p \<Rightarrow> p | None \<Rightarrow> ''*'') @ '' (catch-all)'',
                       sk_reason = reason\<rparr>) (filter (untrusted_catchall e) rules)))"

text \<open>\<open>acp_session_impl/spawn.rs\<close>: the same for the rules of the command line, which have no source.\<close>

definition drop_cli_catchall_allows ::
  "perm_env \<Rightarrow> permission_rule list \<Rightarrow> string option \<Rightarrow> permission_rule list \<times> permission_rule list" where
  "drop_cli_catchall_allows e rules policy_block =
     (if policy_block = None then (rules, [])
      else (filter (\<lambda>r. \<not> is_catchall_allow e r) rules, filter (is_catchall_allow e) rules))"

definition deny_read_globs_from_config :: "permission_config \<Rightarrow> string list" where
  "deny_read_globs_from_config config =
     List.map_filter pr_pattern (filter (\<lambda>r. pr_action r = ActDeny \<and> pr_tool r \<in> {ForRead, ForGrep, ForAny}) (pc_rules config))"

section \<open>The vendor settings\<close>

definition skipped_of_warning :: "string \<Rightarrow> skipped_permission" where
  "skipped_of_warning w =
     (case split_once_str ('' '' @ em_dash @ '' '') w of
        Some (r, d) \<Rightarrow> \<lparr>sk_rule = r, sk_reason = d\<rparr>
      | None \<Rightarrow>
          (case split_once_str '' -- '' w of Some (r, d) \<Rightarrow> \<lparr>sk_rule = r, sk_reason = d\<rparr> | None \<Rightarrow> \<lparr>sk_rule = w, sk_reason = []\<rparr>))"

record claude_acc =
  ca_rules :: "permission_rule list"
  ca_skipped :: "skipped_permission list"
  ca_primary :: "string option"
  ca_mode_source :: "string option"
  ca_mode :: "default_permission_mode option"
  ca_policy :: prompt_policy

definition claude_acc_init :: claude_acc where
  "claude_acc_init = \<lparr>ca_rules = [], ca_skipped = [], ca_primary = None, ca_mode_source = None, ca_mode = None, ca_policy = PromptAsk\<rparr>"

text \<open>The most specific file that sets the key claims the mode, even with an unknown value.\<close>

definition claim_mode :: "user_default_mode_load \<Rightarrow> string \<Rightarrow> string option \<Rightarrow> claude_acc \<Rightarrow> claude_acc" where
  "claim_mode load path mode_text acc =
     (case mode_text of
        Some raw \<Rightarrow>
          if load = LoadApply \<and> ca_mode_source acc = None
          then let (mode, sk) = parse_default_mode_claiming_scope raw
               in acc\<lparr>ca_mode_source := Some path, ca_mode := Some mode, ca_policy := dme_prompt_policy (mode_effects mode),
                      ca_skipped := ca_skipped acc @ sk\<rparr>
          else acc
      | None \<Rightarrow> acc)"

definition add_permissions :: "string \<Rightarrow> parsed_permissions option \<Rightarrow> claude_acc \<Rightarrow> claude_acc" where
  "add_permissions path perms acc =
     (case perms of
        Some p \<Rightarrow>
          let (cfg, warnings) = into_permission_config p
          in acc\<lparr>ca_primary := (if (pc_rules cfg \<noteq> [] \<or> warnings \<noteq> []) \<and> ca_primary acc = None then Some path else ca_primary acc),
                 ca_rules := ca_rules acc @ pc_rules cfg, ca_skipped := ca_skipped acc @ map skipped_of_warning warnings\<rparr>
      | None \<Rightarrow> acc)"

definition add_settings_file :: "host \<Rightarrow> user_default_mode_load \<Rightarrow> claude_acc \<Rightarrow> string \<Rightarrow> claude_acc" where
  "add_settings_file h load acc path =
     (case load_claude_settings h path of
        None \<Rightarrow> acc
      | Some settings \<Rightarrow> add_permissions path (cs_permissions settings) (claim_mode load path (cs_default_mode settings) acc))"

definition resolve_claude_settings_inner ::
  "host \<Rightarrow> string \<Rightarrow> string option \<Rightarrow> user_default_mode_load \<Rightarrow> (permission_config \<times> skipped_permission list \<times> string) option" where
  "resolve_claude_settings_inner h cwd policy_block load =
     (let acc = foldl (add_settings_file h load) claude_acc_init (find_claude_settings_paths h cwd);
          (syn_rules, syn_skipped, bypass_blocked) =
            (case ca_mode acc of Some mode \<Rightarrow> synthetic_rules_for_default_mode mode policy_block | None \<Rightarrow> ([], [], False));
          all_rules = ca_rules acc @ syn_rules;
          all_skipped = ca_skipped acc @ syn_skipped
      in if all_rules = [] \<and> ca_policy acc = PromptAsk \<and> \<not> bypass_blocked \<and> ca_mode_source acc = None \<and> all_skipped = [] then None
         else Some (\<lparr>pc_rules = all_rules, pc_prompt_policy = ca_policy acc\<rparr>, all_skipped,
                    (case ca_primary acc of Some p \<Rightarrow> p | None \<Rightarrow> (case ca_mode_source acc of Some p \<Rightarrow> p | None \<Rightarrow> cwd))))"

section \<open>The managed settings\<close>

record managed_settings_features =
  mf_disable_telemetry :: "bool option"
  mf_disable_feedback :: "bool option"
  mf_disable_yolo :: "bool option"
  mf_source_path :: "string option"

record managed_settings =
  ms_features :: managed_settings_features
  ms_permissions :: "sourced_rule list"
  ms_default_mode :: "default_permission_mode option"
  ms_mcp_allowlist :: mcp_server_allowlist
  ms_marketplace_allowlist :: marketplace_allowlist

definition managed_settings_default :: managed_settings where
  "managed_settings_default =
     \<lparr>ms_features = \<lparr>mf_disable_telemetry = None, mf_disable_feedback = None, mf_disable_yolo = None, mf_source_path = None\<rparr>,
      ms_permissions = [], ms_default_mode = None, ms_mcp_allowlist = mcp_allowlist_new [] [] None,
      ms_marketplace_allowlist = \<lparr>mk_allowed_urls = [], mk_source_path = None\<rparr>\<rparr>"

definition json_env_flag :: "json option \<Rightarrow> string \<Rightarrow> bool option" where
  "json_env_flag env key =
     (case Option.bind env (\<lambda>e. json_get e key) of
        Some (JNumber n _) \<Rightarrow> Some (case n of Some i \<Rightarrow> i \<noteq> 0 | None \<Rightarrow> False)
      | Some (JBool b) \<Rightarrow> Some b
      | Some (JString s) \<Rightarrow> Some (s \<notin> {''0'', [], ''false''})
      | _ \<Rightarrow> None)"

definition parse_disable_bypass_permissions :: "json \<Rightarrow> bool option" where
  "parse_disable_bypass_permissions v =
     map_option (\<lambda>x. json_as_str x = Some ''disable'')
       (Option.bind (json_get v ''permissions'') (\<lambda>p. json_get p ''disableBypassPermissionsMode''))"

definition parse_managed_settings_permissions :: "resolve_lib \<Rightarrow> json \<Rightarrow> string \<Rightarrow> sourced_rule list" where
  "parse_managed_settings_permissions l v path =
     (case Option.bind (json_get v ''permissions'') (rv_permissions l) of
        None \<Rightarrow> []
      | Some p \<Rightarrow> tag_with_source (SrcManagedSettings path) (pc_rules (fst (into_permission_config p))))"

definition parse_managed_settings_json :: "resolve_lib \<Rightarrow> json \<Rightarrow> string \<Rightarrow> managed_settings" where
  "parse_managed_settings_json l v path =
     (let env = json_get v ''env''
      in \<lparr>ms_features = \<lparr>mf_disable_telemetry = json_env_flag env ''DISABLE_TELEMETRY'',
            mf_disable_feedback = json_env_flag env ''DISABLE_FEEDBACK_COMMAND'',
            mf_disable_yolo = parse_disable_bypass_permissions v, mf_source_path = Some path\<rparr>,
          ms_permissions = parse_managed_settings_permissions l v path,
          ms_default_mode = map_option (\<lambda>raw. fst (parse_default_mode_claiming_scope raw)) (extract_default_mode v),
          ms_mcp_allowlist = mcp_allowlist_new (parse_mcp_entries v ''allowedMcpServers'') (parse_mcp_entries v ''deniedMcpServers'') (Some path),
          ms_marketplace_allowlist = \<lparr>mk_allowed_urls = parse_marketplaces v, mk_source_path = Some path\<rparr>\<rparr>)"

definition read_managed_settings_json :: "host \<Rightarrow> string \<Rightarrow> json option" where
  "read_managed_settings_json h path = (case ho_read h path of ReadOk content \<Rightarrow> ho_json h content | _ \<Rightarrow> None)"

definition load_managed_settings :: "resolve_lib \<Rightarrow> host \<Rightarrow> string option \<Rightarrow> managed_settings" where
  "load_managed_settings l h managed_path =
     (case managed_path of
        None \<Rightarrow> managed_settings_default
      | Some path \<Rightarrow>
          (case read_managed_settings_json h path of
             None \<Rightarrow> managed_settings_default | Some v \<Rightarrow> parse_managed_settings_json l v path))"

section \<open>Resolution\<close>

record resolve_inputs =
  ri_policy_block :: "string option"
  ri_managed :: managed_settings
  ri_managed_config_rules :: "sourced_rule list"

record resolved_permissions =
  rp_config :: permission_config
  rp_sources :: "requirement_source list"
  rp_skipped :: "skipped_permission list"

text \<open>The rules in the order of their sources, before the pin: the managed mode is the highest.\<close>

definition claude_part ::
  "host \<Rightarrow> string \<Rightarrow> resolve_inputs \<Rightarrow> (permission_config \<times> skipped_permission list \<times> string) option" where
  "claude_part h cwd inp =
     (if is_claude_import_marked h then None
      else resolve_claude_settings_inner h cwd (ri_policy_block inp)
        (if ms_default_mode (ri_managed inp) \<noteq> None then SkipManagedOwns else LoadApply))"

definition managed_mode_part :: "resolve_inputs \<Rightarrow> sourced_rule list \<times> skipped_permission list" where
  "managed_mode_part inp =
     (case ms_default_mode (ri_managed inp) of
        None \<Rightarrow> ([], [])
      | Some mode \<Rightarrow>
          let path = (case mf_source_path (ms_features (ri_managed inp)) of Some p \<Rightarrow> p | None \<Rightarrow> ''managed-settings.json'');
              (syn_rules, syn_skipped, _) = synthetic_rules_for_default_mode mode (ri_policy_block inp)
          in (tag_with_source (SrcManagedSettings path) syn_rules, syn_skipped))"

definition all_source_rules :: "resolve_lib \<Rightarrow> host \<Rightarrow> requirements_layer list \<Rightarrow> string \<Rightarrow> resolve_inputs \<Rightarrow> sourced_rule list" where
  "all_source_rules l h layers cwd inp =
     load_requirements_permissions l layers @ ms_permissions (ri_managed inp) @ fst (managed_mode_part inp) @
     ri_managed_config_rules inp @ load_config_toml_permissions l h cwd @
     (case claude_part h cwd inp of Some (config, _, path) \<Rightarrow> tag_with_source (SrcSettings path) (pc_rules config) | None \<Rightarrow> [])"

definition resolved_prompt_policy :: "host \<Rightarrow> string \<Rightarrow> resolve_inputs \<Rightarrow> prompt_policy" where
  "resolved_prompt_policy h cwd inp =
     (case ms_default_mode (ri_managed inp) of
        Some mode \<Rightarrow> dme_prompt_policy (mode_effects mode)
      | None \<Rightarrow> (case claude_part h cwd inp of Some (config, _, _) \<Rightarrow> pc_prompt_policy config | None \<Rightarrow> PromptAsk))"

definition resolve_permissions_with_provenance_inner ::
  "resolve_lib \<Rightarrow> host \<Rightarrow> requirements_layer list \<Rightarrow> string \<Rightarrow> resolve_inputs \<Rightarrow> resolved_permissions option" where
  "resolve_permissions_with_provenance_inner l h layers cwd inp =
     (let (kept, dropped) = drop_untrusted_catchall_allows (ho_perm h) (ri_policy_block inp) (all_source_rules l h layers cwd inp);
          prompt_policy = resolved_prompt_policy h cwd inp;
          skipped = snd (managed_mode_part inp) @ (case claude_part h cwd inp of Some (_, sk, _) \<Rightarrow> sk | None \<Rightarrow> []) @ dropped
      in if kept = [] \<and> prompt_policy = PromptAsk \<and> skipped = [] then None
         else Some \<lparr>rp_config = \<lparr>pc_rules = map so_value kept, pc_prompt_policy = prompt_policy\<rparr>,
                    rp_sources = map so_source kept, rp_skipped = skipped\<rparr>)"

text \<open>The live inputs: the pin and the managed configuration of the machine.\<close>

definition live_inputs :: "resolve_lib \<Rightarrow> host \<Rightarrow> requirements_layer list \<Rightarrow> managed_config_layer list \<Rightarrow> string option \<Rightarrow> resolve_inputs" where
  "live_inputs l h layers managed_layers managed_path =
     \<lparr>ri_policy_block = resolve_yolo_policy_block layers, ri_managed = load_managed_settings l h managed_path,
      ri_managed_config_rules = managed_config_permissions l managed_layers\<rparr>"

definition resolve_permissions_with_provenance ::
  "resolve_lib \<Rightarrow> host \<Rightarrow> requirements_layer list \<Rightarrow> managed_config_layer list \<Rightarrow> string option \<Rightarrow> string \<Rightarrow> resolved_permissions option" where
  "resolve_permissions_with_provenance l h layers managed_layers managed_path cwd =
     resolve_permissions_with_provenance_inner l h layers cwd (live_inputs l h layers managed_layers managed_path)"

section \<open>Lemmas\<close>

lemma pin_iff:
  "resolve_yolo_policy_block layers \<noteq> None \<longleftrightarrow>
     (\<exists>y\<in>set layers. requirements_lock_bool (toml_get (rl_value y) ''ui'') ''disable_bypass_permissions_mode'' = Some True \<or>
                      requirements_lock_bool (toml_get (rl_value y) ''ui'') ''yolo'' = Some False)"
  by (induction layers) (auto simp: Let_def)

lemma kept_rules:
  "so \<in> set (fst (drop_untrusted_catchall_allows e block rules)) \<longleftrightarrow> so \<in> set rules \<and> (block = None \<or> \<not> untrusted_catchall e so)"
  by (auto simp: drop_untrusted_catchall_allows_def split: option.splits)

lemma resolved_rules:
  assumes "resolve_permissions_with_provenance_inner l h layers cwd inp = Some r"
  shows "zip (pc_rules (rp_config r)) (rp_sources r) =
           map (\<lambda>so. (so_value so, so_source so)) (fst (drop_untrusted_catchall_allows (ho_perm h) (ri_policy_block inp) (all_source_rules l h layers cwd inp)))"
    and "length (rp_sources r) = length (pc_rules (rp_config r))"
    and "pc_prompt_policy (rp_config r) = resolved_prompt_policy h cwd inp"
    and "set (pc_rules (rp_config r)) = so_value ` {so \<in> set (all_source_rules l h layers cwd inp). ri_policy_block inp = None \<or> \<not> untrusted_catchall (ho_perm h) so}"
  using assms kept_rules
  by (auto simp: resolve_permissions_with_provenance_inner_def case_prod_beta Let_def zip_map_map zip_same_conv_map split: if_splits)

text \<open>A deny or an ask is never a catch-all allow, so no pin drops it and resolution cannot come out empty.\<close>

lemma restriction_kept:
  assumes "so \<in> set (all_source_rules l h layers cwd inp)" "restricts (so_value so)"
  shows "\<exists>r. resolve_permissions_with_provenance_inner l h layers cwd inp = Some r \<and> so_value so \<in> set (pc_rules (rp_config r))"
proof -
  have "so \<in> set (fst (drop_untrusted_catchall_allows (ho_perm h) (ri_policy_block inp) (all_source_rules l h layers cwd inp)))"
    using assms by (auto simp: kept_rules untrusted_catchall_def is_catchall_allow_def restricts_def)
  then show ?thesis
    by (auto simp: resolve_permissions_with_provenance_inner_def case_prod_beta Let_def)
qed

subsection \<open>The vendor files\<close>

definition file_rules :: "host \<Rightarrow> string \<Rightarrow> permission_rule list" where
  "file_rules h path =
     (case Option.bind (load_claude_settings h path) cs_permissions of
        Some p \<Rightarrow> pc_rules (fst (into_permission_config p)) | None \<Rightarrow> [])"

lemma add_settings_file_rules: "ca_rules (add_settings_file h load acc path) = ca_rules acc @ file_rules h path"
  by (auto simp: add_settings_file_def add_permissions_def claim_mode_def file_rules_def case_prod_beta Let_def split: option.splits)

lemma fold_settings_rules: "ca_rules (foldl (add_settings_file h load) acc ps) = ca_rules acc @ concat (map (file_rules h) ps)"
  by (induction ps arbitrary: acc) (auto simp: add_settings_file_rules)

lemma skip_claims_nothing:
  "ca_mode (foldl (add_settings_file h SkipManagedOwns) acc ps) = ca_mode acc"
  by (induction ps arbitrary: acc)
    (auto simp: add_settings_file_def add_permissions_def claim_mode_def case_prod_beta Let_def split: option.splits)

text \<open>The mode is claimed by the first file that sets it.\<close>

lemma first_claims:
  "ca_mode (foldl (add_settings_file h LoadApply) acc ps) =
     (if ca_mode_source acc \<noteq> None then ca_mode acc
      else case find (\<lambda>p. Option.bind (load_claude_settings h p) cs_default_mode \<noteq> None) ps of
             Some p \<Rightarrow> map_option (\<lambda>raw. fst (parse_default_mode_claiming_scope raw)) (Option.bind (load_claude_settings h p) cs_default_mode)
           | None \<Rightarrow> ca_mode acc)"
  by (induction ps arbitrary: acc)
    (auto simp: add_settings_file_def add_permissions_def claim_mode_def case_prod_beta Let_def split: option.splits)

text \<open>With the mode owned by the managed settings, the vendor files contribute the rules they list and nothing else.\<close>

lemma owned_mode_rules:
  assumes "resolve_claude_settings_inner h cwd block SkipManagedOwns = Some (config, sk, path)"
  shows "set (pc_rules config) = (\<Union>p\<in>set (find_claude_settings_paths h cwd). set (file_rules h p))"
proof -
  have "ca_mode (foldl (add_settings_file h SkipManagedOwns) claude_acc_init (find_claude_settings_paths h cwd)) = None"
    by (simp add: skip_claims_nothing claude_acc_init_def)
  with assms show ?thesis
    by (auto simp: resolve_claude_settings_inner_def Let_def fold_settings_rules claude_acc_init_def split: if_splits)
qed

subsection \<open>Where a rule comes from\<close>

lemma tagged_source: "so \<in> set (tag_with_source src rs) \<Longrightarrow> so_source so = src"
  by (auto simp: tag_with_source_def)

lemma toml_source: "so \<in> set (extract_toml_permissions l v src) \<Longrightarrow> so_source so = src"
  by (auto simp: extract_toml_permissions_def tagged_source split: option.splits sum.splits)

lemma source_origins:
  "so \<in> set (load_requirements_permissions l layers) \<Longrightarrow> \<exists>p. so_source so = SrcRequirements p \<or> so_source so = SrcSystemRequirements p"
  "so \<in> set (managed_config_permissions l ml) \<Longrightarrow> \<exists>p. so_source so = SrcManagedConfig p"
  "so \<in> set (load_config_toml_permissions l h cwd) \<Longrightarrow> \<exists>p. so_source so = SrcConfig p"
  "so \<in> set (ms_permissions (load_managed_settings l h mp)) \<Longrightarrow> \<exists>p. so_source so = SrcManagedSettings p"
  "so \<in> set (fst (managed_mode_part inp)) \<Longrightarrow> \<exists>p. so_source so = SrcManagedSettings p"
  by (auto simp: load_requirements_permissions_def managed_config_permissions_def load_config_toml_permissions_def config_file_rules_def
      load_managed_settings_def managed_settings_default_def parse_managed_settings_json_def parse_managed_settings_permissions_def
      managed_mode_part_def Let_def case_prod_beta
      dest!: toml_source tagged_source split: option.splits if_splits)

lemma settings_source:
  assumes "so \<in> set (all_source_rules l h layers cwd (live_inputs l h layers ml mp))" "so_source so = SrcSettings p"
  obtains config sk path where "claude_part h cwd (live_inputs l h layers ml mp) = Some (config, sk, path)" "so_value so \<in> set (pc_rules config)"
proof -
  let ?inp = "live_inputs l h layers ml mp"
  have parts: "ri_managed ?inp = load_managed_settings l h mp" "ri_managed_config_rules ?inp = managed_config_permissions l ml"
    by (simp_all add: live_inputs_def)
  have "so \<in> set (case claude_part h cwd ?inp of Some (config, _, path) \<Rightarrow> tag_with_source (SrcSettings path) (pc_rules config) | None \<Rightarrow> [])"
    using assms source_origins(1) [of so l layers] source_origins(2) [of so l ml] source_origins(3) [of so l h cwd]
      source_origins(4) [of so l h mp] source_origins(5) [of so ?inp]
    unfolding all_source_rules_def set_append Un_iff parts by auto
  then show ?thesis
    using that by (cases "claude_part h cwd ?inp") (auto simp: tag_with_source_def)
qed

end
