(* ===== verification/Resolve_Facts.thy ===== *)
theory Resolve_Facts
  imports Perm_Resolve Perm_Decide
begin

text \<open>
  Where the rules of a resolved policy come from, on the live inputs: every rule that is written as a
  deny is there, and under the pin a rule that opens everything is written in a file that only an
  administrator can change.  What is \<open>written\<close> is read off the parsed documents, without the loaders.
\<close>

section \<open>Written denies\<close>

text \<open>A string in the compact list of a \<open>[permission]\<close> section.\<close>

definition toml_lists :: "toml \<Rightarrow> string \<Rightarrow> string \<Rightarrow> bool" where
  "toml_lists config key s \<longleftrightarrow>
     (\<exists>sec arr. toml_get config ''permission'' = Some sec \<and> toml_get sec key = Some (TArray arr) \<and> TString s \<in> set arr)"

text \<open>A string in a list of the \<open>permissions\<close> of a JSON settings file.\<close>

definition json_lists :: "json \<Rightarrow> string \<Rightarrow> string \<Rightarrow> bool" where
  "json_lists v key s \<longleftrightarrow>
     (\<exists>p arr. json_get v ''permissions'' = Some p \<and> json_get p key = Some (JArray arr) \<and> JString s \<in> set arr)"

text \<open>
  The places a deny can be written.  The import marker switches the vendor files off, and the managed
  settings count only when their permissions deserialize as a whole.
\<close>

inductive written_deny ::
  "resolve_lib \<Rightarrow> host \<Rightarrow> requirements_layer list \<Rightarrow> managed_config_layer list \<Rightarrow> string option \<Rightarrow> string \<Rightarrow> string \<Rightarrow> bool"
  for l h layers managed_layers managed_path cwd where
  requirements: "y \<in> set layers \<Longrightarrow> toml_lists (rl_value y) ''deny'' s \<Longrightarrow> written_deny l h layers managed_layers managed_path cwd s"
| managed_config: "y \<in> set managed_layers \<Longrightarrow> toml_lists (ml_value y) ''deny'' s \<Longrightarrow> written_deny l h layers managed_layers managed_path cwd s"
| user_config: "ho_kigi_home h = Some g \<Longrightarrow> ho_is_file h (path_join g ''config.toml'') \<Longrightarrow> ho_config h (path_join g ''config.toml'') = Some v \<Longrightarrow>
    toml_lists v ''deny'' s \<Longrightarrow> written_deny l h layers managed_layers managed_path cwd s"
| project_config: "path \<in> set (find_project_kigi_configs h cwd) \<Longrightarrow> ho_config h path = Some v \<Longrightarrow>
    toml_lists v ''deny'' s \<Longrightarrow> written_deny l h layers managed_layers managed_path cwd s"
| vendor: "\<not> is_claude_import_marked h \<Longrightarrow> path \<in> set (find_claude_settings_paths h cwd) \<Longrightarrow> ho_read h path = ReadOk content \<Longrightarrow>
    ho_json h content = Some v \<Longrightarrow> json_lists v ''deny'' s \<Longrightarrow> written_deny l h layers managed_layers managed_path cwd s"
| managed_settings: "managed_path = Some path \<Longrightarrow> read_managed_settings_json h path = Some v \<Longrightarrow>
    Option.bind (json_get v ''permissions'') (rv_permissions l) = Some p \<Longrightarrow> s \<in> set (pp_deny p) \<Longrightarrow>
    written_deny l h layers managed_layers managed_path cwd s"

lemma parse_action: "parse_permission_rule s act = Inr rule \<Longrightarrow> pr_action rule = act"
  by (auto simp: parse_permission_rule_def Let_def case_prod_beta split: option.splits if_splits)

lemma toml_listed:
  assumes "toml_lists config ''deny'' s" "parse_permission_rule s ActDeny = Inr rule"
  shows "\<lparr>so_value = rule, so_source = src\<rparr> \<in> set (extract_toml_permissions l config src)"
proof -
  obtain sec arr where sec: "toml_get config ''permission'' = Some sec" "toml_get sec ''deny'' = Some (TArray arr)" "TString s \<in> set arr"
    using assms(1) by (auto simp: toml_lists_def)
  have "\<exists>rs. compact_rules sec ActDeny ''deny'' = Some rs \<and> rule \<in> set rs"
    using sec(2,3) assms(2) by (force simp: compact_rules_def List.map_filter_def)
  then show ?thesis
    using sec(1) by (auto simp: extract_toml_permissions_def parse_toml_permission_section_def Let_def tag_with_source_def List.map_filter_def)
qed

lemma vendor_listed:
  assumes "ho_read h path = ReadOk content" "ho_json h content = Some v" "json_lists v ''deny'' s" "parse_permission_rule s ActDeny = Inr rule"
  shows "rule \<in> set (file_rules h path)"
proof -
  obtain p arr where p: "json_get v ''permissions'' = Some p" "json_get p ''deny'' = Some (JArray arr)" "JString s \<in> set arr"
    using assms(3) by (auto simp: json_lists_def)
  have "s \<in> set (fst (extract_string_array (json_get p ''deny'')))"
    using p(2,3) by (force simp: extract_string_array_def List.map_filter_def)
  then have "\<exists>pp. extract_permissions v = Some pp \<and> s \<in> set (pp_deny pp)"
    using p(1) by (auto simp: extract_permissions_def Let_def)
  then show ?thesis
    using assms(1,2,4) by (auto simp: file_rules_def load_claude_settings_def into_permission_config_rules)
qed

lemma vendor_loaded:
  assumes "\<not> is_claude_import_marked h" "path \<in> set (find_claude_settings_paths h cwd)" "rule \<in> set (file_rules h path)"
  shows "\<exists>config sk p. claude_part h cwd inp = Some (config, sk, p) \<and> rule \<in> set (pc_rules config)"
proof -
  define load where "load = (if ms_default_mode (ri_managed inp) \<noteq> None then SkipManagedOwns else LoadApply)"
  define acc where "acc = foldl (add_settings_file h load) claude_acc_init (find_claude_settings_paths h cwd)"
  obtain syn sk b where syn: "(case ca_mode acc of Some mode \<Rightarrow> synthetic_rules_for_default_mode mode (ri_policy_block inp) | None \<Rightarrow> ([], [], False)) = (syn, sk, b)"
    by (metis prod_cases3)
  have mem: "rule \<in> set (ca_rules acc)" using assms(2,3) by (auto simp: acc_def fold_settings_rules)
  then have "ca_rules acc \<noteq> []" by auto
  then have "\<exists>config sk p. resolve_claude_settings_inner h cwd (ri_policy_block inp) load = Some (config, sk, p) \<and> pc_rules config = ca_rules acc @ syn"
    unfolding resolve_claude_settings_inner_def acc_def [symmetric] Let_def syn prod.case by simp
  moreover have "claude_part h cwd inp = resolve_claude_settings_inner h cwd (ri_policy_block inp) load"
    unfolding claude_part_def load_def using assms(1) by (rule if_not_P)
  ultimately show ?thesis using mem by auto
qed

lemma loaded_parts:
  "set (load_requirements_permissions l layers) \<subseteq> set (all_source_rules l h layers cwd (live_inputs l h layers ml mp))"
  "set (managed_config_permissions l ml) \<subseteq> set (all_source_rules l h layers cwd (live_inputs l h layers ml mp))"
  "set (load_config_toml_permissions l h cwd) \<subseteq> set (all_source_rules l h layers cwd (live_inputs l h layers ml mp))"
  "set (ms_permissions (load_managed_settings l h mp)) \<subseteq> set (all_source_rules l h layers cwd (live_inputs l h layers ml mp))"
  by (auto simp: all_source_rules_def live_inputs_def)

lemma config_file_listed:
  assumes "ho_config h path = Some v" "toml_lists v ''deny'' s" "parse_permission_rule s ActDeny = Inr rule"
  shows "\<lparr>so_value = rule, so_source = SrcConfig path\<rparr> \<in> set (config_file_rules l h path)"
  using toml_listed [OF assms(2,3)] assms(1) by (simp add: config_file_rules_def)

lemma written_loaded_rule:
  assumes "written_deny l h layers ml mp cwd s" "parse_permission_rule s ActDeny = Inr rule"
  shows "\<exists>src. \<lparr>so_value = rule, so_source = src\<rparr> \<in> set (all_source_rules l h layers cwd (live_inputs l h layers ml mp))"
  using assms(1)
proof cases
  case (requirements y)
  let ?src = "if rl_is_system y then SrcSystemRequirements (rl_label y) else SrcRequirements (rl_label y)"
  have "\<lparr>so_value = rule, so_source = ?src\<rparr> \<in> set (load_requirements_permissions l layers)"
    unfolding load_requirements_permissions_def set_concat set_map
    using toml_listed [OF requirements(2) assms(2), of ?src l] requirements(1) by blast
  then show ?thesis using loaded_parts(1) by blast
next
  case (managed_config y)
  have "\<lparr>so_value = rule, so_source = SrcManagedConfig (ml_path y)\<rparr> \<in> set (managed_config_permissions l ml)"
    unfolding managed_config_permissions_def set_concat set_map
    using toml_listed [OF managed_config(2) assms(2), of "SrcManagedConfig (ml_path y)" l] managed_config(1) by blast
  then show ?thesis using loaded_parts(2) by blast
next
  case (user_config g v)
  have "\<lparr>so_value = rule, so_source = SrcConfig (path_join g ''config.toml'')\<rparr> \<in> set (load_config_toml_permissions l h cwd)"
    using config_file_listed [OF user_config(3,4) assms(2)] user_config(1,2) by (simp add: load_config_toml_permissions_def Let_def)
  then show ?thesis using loaded_parts(3) by blast
next
  case (project_config path v)
  have "\<lparr>so_value = rule, so_source = SrcConfig path\<rparr> \<in> set (concat (map (config_file_rules l h) (find_project_kigi_configs h cwd)))"
    using config_file_listed [OF project_config(2,3) assms(2)] project_config(1) by auto
  then have "\<lparr>so_value = rule, so_source = SrcConfig path\<rparr> \<in> set (load_config_toml_permissions l h cwd)"
    unfolding load_config_toml_permissions_def set_append by blast
  then show ?thesis using loaded_parts(3) by blast
next
  case (vendor path content v)
  have "rule \<in> set (file_rules h path)" by (rule vendor_listed [OF vendor(3-5) assms(2)])
  then obtain config sk p where "claude_part h cwd (live_inputs l h layers ml mp) = Some (config, sk, p)" "rule \<in> set (pc_rules config)"
    using vendor_loaded [OF vendor(1,2)] by blast
  then have "\<lparr>so_value = rule, so_source = SrcSettings p\<rparr> \<in> set (all_source_rules l h layers cwd (live_inputs l h layers ml mp))"
    by (simp add: all_source_rules_def tag_with_source_def)
  then show ?thesis by blast
next
  case (managed_settings path v p)
  have "\<lparr>so_value = rule, so_source = SrcManagedSettings path\<rparr> \<in> set (parse_managed_settings_permissions l v path)"
    using managed_settings(3,4) assms(2) by (auto simp: parse_managed_settings_permissions_def tag_with_source_def into_permission_config_rules)
  then have "\<lparr>so_value = rule, so_source = SrcManagedSettings path\<rparr> \<in> set (ms_permissions (load_managed_settings l h mp))"
    using managed_settings(1,2) by (simp add: load_managed_settings_def parse_managed_settings_json_def Let_def)
  then show ?thesis using loaded_parts(4) by blast
qed

text \<open>A written deny is in the resolved policy.\<close>

lemma written_deny_resolved:
  assumes "written_deny l h layers ml mp cwd s" "parse_permission_rule s ActDeny = Inr rule"
  shows "\<exists>r. resolve_permissions_with_provenance l h layers ml mp cwd = Some r \<and> rule \<in> set (pc_rules (rp_config r))"
proof -
  obtain src where "\<lparr>so_value = rule, so_source = src\<rparr> \<in> set (all_source_rules l h layers cwd (live_inputs l h layers ml mp))"
    using written_loaded_rule [OF assms] by blast
  from restriction_kept [OF this] parse_action [OF assms(2)] show ?thesis
    by (simp add: resolve_permissions_with_provenance_def restricts_def)
qed

section \<open>Rules that open everything\<close>

text \<open>An allow that applies to every shell command, every MCP tool or every URL.\<close>

definition opens_all :: "perm_env \<Rightarrow> permission_rule \<Rightarrow> bool" where
  "opens_all e r \<longleftrightarrow>
     pr_action r = ActAllow \<and>
     ((\<forall>cmd. rule_applies e (AccBash cmd) r) \<or> (\<forall>name input. rule_applies e (AccMCPTool name input) r) \<or> (\<forall>url. rule_applies e (AccWebFetch url) r))"

lemma opens_all_catchall: "opens_all e r \<Longrightarrow> is_catchall_allow e r"
  by (cases "pr_tool r")
    (auto simp: opens_all_def is_catchall_allow_def rule_applies_def rule_is_catchall_def bash_probes_def mcp_probes_def webfetch_probes_def)

text \<open>The rules of a \<open>[permission]\<close> section.\<close>

definition toml_rules :: "resolve_lib \<Rightarrow> toml \<Rightarrow> permission_rule list" where
  "toml_rules l config =
     (case toml_get config ''permission'' of
        Some sec \<Rightarrow> (case parse_toml_permission_section l sec of Inr rs \<Rightarrow> rs | Inl _ \<Rightarrow> []) | None \<Rightarrow> [])"

lemma toml_origin: "so \<in> set (extract_toml_permissions l v src) \<Longrightarrow> so_value so \<in> set (toml_rules l v) \<and> so_source so = src"
  by (cases "toml_get v ''permission''"; cases "parse_toml_permission_section l (the (toml_get v ''permission''))")
    (auto simp: extract_toml_permissions_def toml_rules_def tag_with_source_def)

lemma mode_not_catchall:
  "so \<in> set (fst (managed_mode_part inp)) \<Longrightarrow> ri_policy_block inp = Some reason \<Longrightarrow> \<not> is_catchall_allow e (so_value so)"
  by (auto simp: managed_mode_part_def synthetic_rules_for_default_mode_def tag_with_source_def allow_all_of_def is_catchall_allow_def
      Let_def case_prod_beta split: option.splits if_splits)

lemma system_origin:
  assumes "so \<in> set (load_requirements_permissions l layers)" "is_admin_source (so_source so)"
  shows "\<exists>y\<in>set layers. rl_is_system y \<and> so_value so \<in> set (toml_rules l (rl_value y))"
proof -
  obtain y where y: "y \<in> set layers"
    "so \<in> set (extract_toml_permissions l (rl_value y) (if rl_is_system y then SrcSystemRequirements (rl_label y) else SrcRequirements (rl_label y)))"
    using assms(1) by (auto simp: load_requirements_permissions_def)
  from toml_origin [OF y(2)] y(1) assms(2) show ?thesis by (auto split: if_splits)
qed

lemma managed_origin:
  assumes "so \<in> set (ms_permissions (load_managed_settings l h mp))" "pr_action (so_value so) = ActAllow"
  shows "\<exists>path v p s. mp = Some path \<and> read_managed_settings_json h path = Some v \<and>
    Option.bind (json_get v ''permissions'') (rv_permissions l) = Some p \<and> s \<in> set (pp_allow p) \<and> parse_permission_rule s ActAllow = Inr (so_value so)"
proof -
  obtain path v where v: "mp = Some path" "read_managed_settings_json h path = Some v" "so \<in> set (parse_managed_settings_permissions l v path)"
    using assms(1) by (auto simp: load_managed_settings_def managed_settings_default_def parse_managed_settings_json_def Let_def split: option.splits)
  then obtain p where p: "Option.bind (json_get v ''permissions'') (rv_permissions l) = Some p"
    "so_value so \<in> set (pc_rules (fst (into_permission_config p)))"
    by (cases "Option.bind (json_get v ''permissions'') (rv_permissions l)") (auto simp: parse_managed_settings_permissions_def tag_with_source_def)
  with assms(2) v(1,2) parse_action show ?thesis by (fastforce simp: into_permission_config_rules)
qed

text \<open>Under the pin, a rule that survives and opens everything was written by an administrator.\<close>

lemma pinned_origin:
  assumes res: "resolve_permissions_with_provenance l h layers ml mp cwd = Some r" and pin: "resolve_yolo_policy_block layers \<noteq> None"
    and mem: "rule \<in> set (pc_rules (rp_config r))" and all: "is_catchall_allow (ho_perm h) rule"
  shows "(\<exists>y\<in>set layers. rl_is_system y \<and> rule \<in> set (toml_rules l (rl_value y))) \<or>
    (\<exists>path v p s. mp = Some path \<and> read_managed_settings_json h path = Some v \<and>
      Option.bind (json_get v ''permissions'') (rv_permissions l) = Some p \<and> s \<in> set (pp_allow p) \<and> parse_permission_rule s ActAllow = Inr rule)"
proof -
  let ?inp = "live_inputs l h layers ml mp"
  obtain reason where block: "ri_policy_block ?inp = Some reason" using pin by (auto simp: live_inputs_def)
  have "rule \<in> so_value ` {so \<in> set (all_source_rules l h layers cwd ?inp). ri_policy_block ?inp = None \<or> \<not> untrusted_catchall (ho_perm h) so}"
    using mem resolved_rules(4) [OF res [unfolded resolve_permissions_with_provenance_def]] by simp
  then obtain so where so: "so \<in> set (all_source_rules l h layers cwd ?inp)" "so_value so = rule" "is_admin_source (so_source so)"
    using block all by (auto simp: untrusted_catchall_def)
  have allow: "pr_action (so_value so) = ActAllow" using all so(2) by (simp add: is_catchall_allow_def)
  consider "so \<in> set (load_requirements_permissions l layers)" | "so \<in> set (ms_permissions (load_managed_settings l h mp))"
    using so(1,3) mode_not_catchall [OF _ block] all so(2) source_origins(2) [of so l ml] source_origins(3) [of so l h cwd]
    by (auto simp: all_source_rules_def live_inputs_def tag_with_source_def split: option.splits)
  then show ?thesis
  proof cases
    case 1
    then show ?thesis using system_origin [OF 1 so(3)] so(2) by simp
  next
    case 2
    then show ?thesis using managed_origin [OF 2 allow] so(2) by simp
  qed
qed

end
