(* ===== verification/Trust_Demo.thy ===== *)
theory Trust_Demo
  imports Trust_Facts Resolve_Facts Perm_Demo
begin

text \<open>
  A concrete machine for the theorems on settings and folder trust: a repository with an MCP
  configuration, a home directory with a trust store, and settings files that deny and allow.
\<close>

section \<open>The machine\<close>

definition demo_settings :: "string \<Rightarrow> json option" where
  "demo_settings s =
     (if s = ''project''
      then Some (JObject [(''permissions'', JObject [(''deny'', JArray [JString ''Read(/w/secret)'']), (''allow'', JArray [JString ''Bash'']),
                                                       (''defaultMode'', JString ''bypassPermissions'')]),
                          (''env'', JObject [(''BASH_ENV'', JString ''x'')])])
      else None)"

definition demo_machine :: host where
  "demo_machine =
     \<lparr>ho_perm = demo_perm_env,
      ho_read = (\<lambda>p. if p = ''/w/repo/.claude/settings.json'' then ReadOk ''project'' else ReadMissing),
      ho_exists = (\<lambda>p. p = ''/w/repo/.git''), ho_is_file = (\<lambda>p. p = ''/w/repo/.mcp.json'' \<or> p = ''/w/repo/.claude/settings.json''), ho_is_dir = (\<lambda>_. False),
      ho_json = demo_settings, ho_toml = (\<lambda>_. None), ho_config = (\<lambda>_. None), ho_env_var = (\<lambda>_. None), ho_home = Some ''/h'',
      ho_kigi_home = Some ''/h/.kigi'', ho_discover = (\<lambda>_. Some \<lparr>gr_workdir = Some ''/w/repo'', gr_is_worktree = False, gr_commondir = ''/w/repo/.git''\<rparr>),
      ho_open = (\<lambda>_. None), ho_glob_ci = (\<lambda>pat text. pat = text), ho_worktree_source = (\<lambda>_. None)\<rparr>"

definition demo_doc :: "bool \<Rightarrow> trust_document" where
  "demo_doc b = [(''/w/repo'', \<lparr>ft_trusted = b, ft_decided_at = Some 1\<rparr>)]"

definition demo_trust_io :: trust_io where
  "demo_trust_io =
     \<lparr>ti_parse = (\<lambda>s. if s = ''trusted'' then Some (demo_doc True) else if s = ''declined'' then Some (demo_doc False) else None),
      ti_print = (\<lambda>d. if d = demo_doc True then Some ''trusted'' else if d = demo_doc False then Some ''declined'' else None)\<rparr>"

definition demo_call :: trust_call where
  "demo_call = \<lparr>tc_io = demo_trust_io, tc_write = \<lparr>wi_prepare = None, wi_publish = None\<rparr>, tc_now = Some 1, tc_reply = None,
     tc_interactive = False, tc_stamped = True\<rparr>"

definition demo_trust_world :: trust_world where
  "demo_trust_world = \<lparr>tw_host = demo_machine, tw_file = ReadMissing, tw_cache = Map.empty\<rparr>"

definition demo_granted :: trust_world where
  "demo_granted = grant_folder_trust demo_call demo_trust_world ''/w/repo''"

lemma demo_format_ok: "store_format_ok demo_trust_io"
  by (auto simp: store_format_ok_def demo_trust_io_def demo_doc_def split: if_splits)

lemma demo_machine_ok: "host_ok demo_machine"
  by (simp add: host_ok_def canonicalize_or_owned_def demo_machine_def demo_perm_env_def)

lemma demo_key: "workspace_key demo_machine ''/w/repo'' = ''/w/repo''"
  by code_simp

lemma demo_safe: "\<not> is_unsafe_trust_root demo_machine ''/w/repo''"
  by code_simp

lemma demo_gated: "feature_enabled demo_machine True None" "\<not> folder_trust_inert demo_machine True" "repo_configs_present demo_machine ''/w/repo''"
  by code_simp+

lemma demo_granted_file: "tw_file demo_granted = ReadOk ''trusted''" "tw_host demo_granted = demo_machine"
  by code_simp (simp add: demo_granted_def grant_folder_trust_def persist_trust_def demo_trust_world_def)

lemma demo_check: "fst (project_scope_allowed demo_call demo_granted ''/w/repo'')"
  by code_simp

section \<open>Settings\<close>

definition demo_lib :: resolve_lib where
  "demo_lib = \<lparr>rv_rules = (\<lambda>_. Inr []), rv_permissions = (\<lambda>_. None)\<rparr>"

text \<open>The administrator pins always-approve off and opens the web; the requirements of the user open the shell.\<close>

definition demo_layers :: "requirements_layer list" where
  "demo_layers =
     [\<lparr>rl_value = TTable [(''ui'', TTable [(''disable_bypass_permissions_mode'', TBoolean True)]),
                          (''permission'', TTable [(''allow'', TArray [TString ''WebFetch''])])],
       rl_label = ''/etc/kigi/requirements.toml'', rl_is_system = True\<rparr>,
      \<lparr>rl_value = TTable [(''permission'', TTable [(''allow'', TArray [TString ''Bash''])])],
       rl_label = ''/h/.kigi/requirements.toml'', rl_is_system = False\<rparr>]"

lemma demo_machine_perm [simp]: "ho_perm demo_machine = demo_perm_env"
  by (simp add: demo_machine_def)

lemma demo_secret_written: "written_deny demo_lib demo_machine demo_layers [] None ''/w/repo'' ''Read(/w/secret)''"
proof (rule written_deny.vendor)
  show "\<not> is_claude_import_marked demo_machine" by code_simp
  show "''/w/repo/.claude/settings.json'' \<in> set (find_claude_settings_paths demo_machine ''/w/repo'')" by code_simp
  show "ho_read demo_machine ''/w/repo/.claude/settings.json'' = ReadOk ''project''" by code_simp
  show "ho_json demo_machine ''project'' = Some (the (demo_settings ''project''))" by code_simp
  show "json_lists (the (demo_settings ''project'')) ''deny'' ''Read(/w/secret)''" by (simp add: json_lists_def demo_settings_def)
qed

lemma demo_secret_rule:
  "parse_permission_rule ''Read(/w/secret)'' ActDeny = Inr (demo_rule ActDeny ForRead ''/w/secret'')"
  "rule_applies demo_perm_env (AccRead (Some ''/w/secret'')) (demo_rule ActDeny ForRead ''/w/secret'')"
  by code_simp+

lemma demo_pin:
  "hd demo_layers \<in> set demo_layers"
  "requirements_lock_bool (toml_get (rl_value (hd demo_layers)) ''ui'') ''disable_bypass_permissions_mode'' = Some True"
  by code_simp+

lemma demo_resolved:
  obtains r where "resolve_permissions_with_provenance demo_lib demo_machine demo_layers [] None ''/w/repo'' = Some r"
    "allow_all_of ForWebFetch \<in> set (pc_rules (rp_config r))"
proof -
  have "map_option (\<lambda>r. list_ex (\<lambda>x. x = allow_all_of ForWebFetch) (pc_rules (rp_config r)))
      (resolve_permissions_with_provenance demo_lib demo_machine demo_layers [] None ''/w/repo'') = Some True"
    by code_simp
  then show ?thesis using that by (auto simp: list_ex_iff)
qed

text \<open>The same machine with managed settings that own the mode.\<close>

definition demo_managed_host :: host where
  "demo_managed_host =
     demo_machine\<lparr>ho_read := (\<lambda>p. if p = ''/etc/managed.json'' then ReadOk ''managed'' else ho_read demo_machine p),
       ho_json := (\<lambda>s. if s = ''managed'' then Some (JObject [(''permissions'', JObject [(''defaultMode'', JString ''dontAsk'')])]) else demo_settings s)\<rparr>"

section \<open>A working directory behind a link\<close>

text \<open>
  The permission loader compares the spelling of each directory with the root that git reports; behind
  a symbolic link the two never agree and the walk goes on to the file-system root.  The walk of the
  trust gate and of the configuration loader stops.
\<close>

definition linked_host :: host where
  "linked_host =
     demo_machine\<lparr>ho_perm := demo_perm_env\<lparr>pe_canonicalize := (\<lambda>p. Some (if p = ''/tmp/l'' then ''/w/repo'' else p))\<rparr>,
       ho_is_file := (\<lambda>p. p = ''/tmp/.kigi/config.toml'')\<rparr>"

lemma permission_walk_leaves_repository:
  "find_project_kigi_configs linked_host ''/tmp/l'' = [''/tmp/.kigi/config.toml'']"
  "find_project_configs_in linked_host (rc_dirs (repo_dir_chain_resolve linked_host ''/tmp/l'')) = []"
  by code_simp+

end
