(* ===== verification/Spec2Isabelle.thy ===== *)
theory Spec2Isabelle
  imports Session_Demo Goal_Demo Further_Facts Trust_Demo Graph_Workers Graph_Commands "HOL-Library.Multiset"
begin

text \<open>
  Kigi is a terminal coding agent.  Its autonomous engines live in
  \<open>src/crates/codegen/kigi-shell/src/session/\<close>: goal mode runs one objective to a verified end,
  graph mode decomposes an objective into a DAG of such goals and schedules them.  This
  development models both engines and the session code around them, and proves the scheduling,
  persistence, accounting and verification guarantees the code relies on.  What the agent may do on
  the machine is decided by the permission layer of
  \<open>src/crates/codegen/kigi-workspace/src/permission/\<close>, the second part of the development: the
  managed policy with its rules, the settings files it is resolved from, the actor that answers every
  tool call, and the classifier of auto mode.  Whether the code a repository brings along may run at all
  is decided by the folder-trust gate, the third part.

  \<^bold>\<open>The parts and how they interact.\<close>  A user objective reaches
  \<open>setup_graph\<close>.  A planner subagent writes a plan file; \<open>graph_plan.rs\<close>
  parses and validates it; an optimizer pass may reorganize it; \<open>graph_tracker.rs\<close> installs
  it as the orchestration state.  The dispatch loop \<open>drive_graph\<close>
  (\<open>acp_session_impl/graph.rs\<close>) takes the ready nodes: one node runs inline as a goal of
  the session (\<open>goal_tracker.rs\<close>, \<open>acp_session_impl/goal.rs\<close>), several run as
  parallel workers in worktrees (\<open>graph_workers.rs\<close>) whose patches are merged and whose
  verdicts are settled one by one.  A wedged graph is repaired by a replanner pass
  (\<open>graph_replan.rs\<close>).  Every transition is checkpointed to the session store and projected
  to \<open>.kigi/graph.jsonl\<close> (\<open>graph_project.rs\<close>) under a single-writer lock.  A
  goal ends when the model claims completion through the \<open>update_goal\<close> tool and the skeptic
  panel of \<open>goal_classifier.rs\<close> does not refute the claim; the drains of
  \<open>acp_session_impl/goal.rs\<close> decide for every call whether it is recorded, deferred,
  refused or verified, and the round end turns the verdict into the next directive or ends the turn.

  Every tool call of either engine asks the permission actor (\<open>permission/manager.rs\<close>).  The actor
  holds the call against the managed policy (\<open>policy.rs\<close>: the access itself with links followed, the
  commands a script runs, the files it names), then against the mode (always-approve, auto, ask), the
  answers the user gave before (\<open>state.rs\<close>), in auto mode the classifier (\<open>auto_mode.rs\<close>), and
  prompts the user when nothing decided.  Handles change the mode through flags they share with the
  actor and a command queue.  The policy is resolved when a session starts (\<open>resolution.rs\<close>) from
  requirements, managed settings, managed and own configuration and the vendor's settings files
  (\<open>claude_settings.rs\<close>); an administrator pin takes away always-approve and what would replace it.

  MCP and LSP servers, hooks, plugins and environment variables that a repository declares are loaded
  only when \<open>project_scope_allowed\<close> (\<open>agent/folder_trust.rs\<close>) says so.  It answers from a cache of the
  process, the trust store on disk (\<open>trust.rs\<close>), which other processes write too, and a scan for
  repo-local configuration (\<open>kigi-workspace/src/folder_trust.rs\<close>).

  \<^bold>\<open>Theories and sources.\<close>
  \<^item> \<open>Kigi_Prelude\<close>, \<open>Rust_Str\<close>: machine integers, \<open>Result\<close>, iterator idioms, \<open>str\<close> and \<open>Path\<close>.
  \<^item> \<open>Transition\<close>: the locales \<open>invariant_system\<close> and \<open>refines\<close> shared by the state machines.
  \<^item> \<open>Goal_Tracker\<close>, \<open>Goal_Inv\<close>: \<open>goal_tracker.rs\<close>, the token accounting of \<open>goal_support.rs\<close>, the
    gate of \<open>goal_strategist.rs\<close>; the step relation \<open>goal_step\<close> and its invariant \<open>goal_ok\<close>.
  \<^item> \<open>Graph_Tracker\<close>: \<open>graph_tracker.rs\<close>, one definition per method.  \<open>Graph_Schedule\<close>: what makes a
    node list schedulable and that the operations keep it.  \<open>Graph_Reach\<close>: the step relation
    \<open>graph_step\<close>, its reachable states and their invariant; \<open>Tracker_Inv\<close>: the facts the session
    needs beyond it.
  \<^item> \<open>Kahn_Sort\<close>, \<open>Graph_Plan\<close>, \<open>Graph_Replan\<close>, \<open>Graph_Optimize\<close>: \<open>graph_plan.rs\<close>.  The topological
    sort, written out three times in the source, is proved once in the locale \<open>kahn\<close> and
    interpreted on the three loops.
  \<^item> \<open>Graph_Planner\<close>, \<open>Graph_Project\<close>, \<open>Graph_Workers\<close>: \<open>graph_planner.rs\<close>, \<open>graph_project.rs\<close>,
    \<open>graph_workers.rs\<close>.
  \<^item> \<open>Session_State\<close>, \<open>Graph_Session\<close>, \<open>Graph_Commands\<close>: the session record and the operations of
    \<open>acp_session_impl/graph.rs\<close>, \<open>graph_replan.rs\<close>, \<open>graph_optimize.rs\<close>, \<open>goal.rs\<close> and the
    \<open>/graph\<close> commands of \<open>slash_commands.rs\<close>.
  \<^item> \<open>Session_Inv\<close>, \<open>Session_Drive\<close>, \<open>Session_Reach\<close>, \<open>Session_Runs\<close>, \<open>Session_Facts\<close>: the session
    invariant \<open>sess_inv\<close>, the dispatch loop, every entry point, the step relation \<open>session_step\<close> with
    crash and restart, and the refinement of the tracker's transition system by the session.
  \<^item> \<open>Rust_Text\<close>, \<open>Goal_Text\<close>: the string functions the verification uses, and the texts it reads and
    writes: sanitizers (\<open>goal_classifier/evidence.rs\<close>), plan items (\<open>goal_next_step.rs\<close>), the
    continuation directive (\<open>goal_support.rs\<close>).
  \<^item> \<open>Update_Goal\<close>: the tool of \<open>update_goal/mod.rs\<close>.  \<open>Goal_Classifier\<close>: the verification stage of
    \<open>goal_classifier.rs\<close>; \<open>Goal_Panel\<close>: what a panel needs to approve and what a rejection carries.
  \<^item> \<open>Goal_Drain\<close>, \<open>Goal_Turn\<close>: the drains, the application of verdicts and the round end of
    \<open>acp_session_impl/goal.rs\<close>, the end of a turn of \<open>turn.rs\<close>.
  \<^item> \<open>Goal_Keep\<close>: the locale \<open>goal_client\<close>, what the operations of the goal engine may do to the rest
    of the session, interpreted on the runs of \<open>session_step\<close>.  \<open>Goal_Engine\<close>, \<open>Goal_Loop\<close>: the
    engine invariant (a completed goal has an endorsement, runs stay under the cap, the queue is
    bounded) and its preservation by drains, rounds and turns, interpreted as an
    \<open>invariant_system\<close>.  \<open>Goal_Acks\<close>: the answers of a drain.  \<open>Goal_Facts\<close>: single claims, refunds
    and blocked reports.
  \<^item> \<open>Perm_Rules\<close>: \<open>types.rs\<close> and \<open>rules.rs\<close>; \<open>Perm_Escape\<close>: writing and reading rules.
    \<open>Perm_Bash\<close>: \<open>bash_command_splitting.rs\<close> on syntax trees.  \<open>Perm_Policy\<close>: \<open>policy.rs\<close> with the path
    functions it calls.  \<open>Perm_Shell\<close>: \<open>shell_access.rs\<close>.  \<open>Perm_Grants\<close>: \<open>state.rs\<close>, the grants and
    lists of \<open>manager.rs\<close>, \<open>web_fetch/domain.rs\<close>, the fast path of auto mode.  \<open>Perm_Manager\<close>: the
    actor, \<open>handle_request\<close> for one request and \<open>perm_step\<close> for the actor with its queue and flags.
    \<open>Perm_Heuristic\<close>: the classifier of \<open>auto_mode.rs\<close>.
  \<^item> \<open>Perm_Decide\<close>: decisions as a chain, the policy as a set of rules.  \<open>Perm_Gates\<close>: the locale
    \<open>gate\<close>, interpreted as \<open>direct\<close>, \<open>commands\<close> and \<open>files\<close>.  \<open>Perm_Facts\<close>: denials, forced prompts,
    silent approvals, the reach of an answer, and the actor as an \<open>invariant_system\<close>.
  \<^item> \<open>Host_Files\<close>: JSON and TOML values, the machine as the loaders see it (\<open>host\<close>) and the walk towards
    the root they share.  \<open>Claude_Settings\<close>: \<open>claude_settings.rs\<close>.  \<open>Mcp_Policy\<close>, \<open>Perm_Resolve\<close>:
    \<open>resolution.rs\<close>.  \<open>Resolve_Facts\<close>: what is written in the sources (\<open>written_deny\<close>, read off the
    parsed documents) is in the resolved policy, and who can have written what survives the pin.
  \<^item> \<open>Trust_Store\<close>: \<open>trust.rs\<close>, its specification as the most specific decision, decisions in the
    file.  \<open>Trust_Gate\<close>: the scan, the decision and the cache of verdicts, with \<open>project_config.rs\<close>
    and \<open>repo.rs\<close>.  \<open>Trust_Facts\<close>: the gate as an \<open>invariant_system\<close>, grants and revocations.
  \<^item> \<open>Graph_Demo\<close>, \<open>Session_Demo\<close>, \<open>Goal_Demo\<close>, \<open>Perm_Demo\<close>, \<open>Trust_Demo\<close>: concrete plans, worlds,
    panels, sessions, policies and machines for the witnesses.  \<open>Further_Facts\<close>: further results on plans, scheduling, the
    commands, the project file, the goal lifecycle and permissions.

  \<^bold>\<open>State and effects.\<close>  \<open>graph_orchestration\<close>,
  \<open>goal_orchestration\<close> and \<open>session\<close> are records with the fields of the
  structs.  Everything outside the program is an argument: \<open>world\<close> holds the cached
  configuration and the answers of the clock, the file system, git, the lock, the model and the
  subagents, indexed by the number of questions asked so far, so that two questions may be answered
  differently.  What the session sends to the store and to the pager is appended to
  \<open>ss_log\<close>; a restart reads the checkpoints back from any prefix of it.
  \<open>verify_env\<close> holds the same for a verification: the panel's spawns and files, the role
  models, and what other tasks of the session do while the stage is awaited (user pause, clear, resume,
  mid-turn drains) or that the turn is cancelled there; the drop guards of the code run in that case.
  \<open>serde_json\<close> is a pair of functions with a stated round-trip law.  For permissions, \<open>perm_env\<close> holds
  the shell parser, the glob, URL and tilde libraries and the file system as one request sees them, and
  \<open>answers\<close> what one request meets: the verdict of the classifier, the outcome of the prompt, the
  sandbox, and whether the requester is still there.  A setter of a handle changes both flags and
  sends its command in one step.  A \<open>host\<close> holds the file system, the parsers, git and the home
  directories at one moment; a \<open>trust_world\<close> is a host with the file of the trust store and the cache,
  and its host may change between two calls.  A write of the store fails or succeeds as a whole, as the
  lock and the atomic rename of the code have it.

  \<^bold>\<open>Loops, bounds and fuel.\<close>  Recursion over lists is structural.  The topological
  sorts and the trims have termination proofs.  \<open>drive_graph\<close> takes fuel and returns
  \<open>None\<close> when it runs out; \<open>drive_fuel\<close>, 26 iterations for each of the at most
  \<open>cf_replan_cap + 1\<close> plans plus one, is proved to be enough in every state that satisfies
  the invariant, because an iteration either stops or starts a node and a plan has at most 25 of them.
  The depths of the permission code are those of the source: scripts nested in \<open>bash -c\<close> are followed
  eight deep and then ask, wrappers are peeled eight times, links are followed 41 calls deep and then
  count as unresolved.  The walk up a path ends because a parent has fewer components.

  \<^bold>\<open>What the lemma groups show.\<close>  The scheduler runs every node after its
  dependencies, never deadlocks, blocks exactly the dependents of a failure and completes only when the
  final verification node has succeeded.  The session implements the tracker's transition system from
  start to any crash and restart, its loops end, and no checkpointed result is lost.  Plans, replans and
  optimizations that validation accepts are acyclic, bounded and preserve what already ran. Token
  accounting is exact up to saturation.  A goal becomes complete only through an approving panel, an
  infrastructure failure that the code treats as approval, or a disabled classifier; every tool call is
  answered exactly once; verification runs are bounded by the configured cap and a cancelled one is
  refunded; text written by the model cannot forge the markers of a directive.  A deny rule holds in
  every mode, for the access, for every command of a script that can be decomposed and for every file it
  names, links followed; an ask rule on a script, and a script that cannot be decomposed under a rule on
  shell commands, reach the user; whatever runs silently is approved in all its parts; the pin and the
  flags keep their invariants, and an answer changes exactly what it says; the rule-based classifier
  allows only programs of its list, held to its limits on environment and extracted writes.  A deny that
  is written in a settings source is enforced, under the pin only the system requirements and the managed
  settings can open everything, managed modes outrank those of the user, a denied MCP host is denied in
  every spelling.  With the gate on, repo-local code passes it only below a folder the user trusted or in
  a workspace that was looked at while the gate was off, whatever happens to the files in between; without
  a decision no variable of the repository reaches a session; a revocation is seen by the next check.
  The last section holds
  the places where the code reaches a dead end or loses a result, proved on the model.

  \<^bold>\<open>Not modelled.\<close>  The dialog of the prompter, the graphical trust prompt and the shutdown of the
  permission actor; Windows paths; the layers of \<open>requirements.toml\<close> and of the managed configuration
  and \<open>load_config_file\<close>, which are arguments of the resolution.  Prompt templates that only interpolate text, telemetry, tracing
  and the terminal drawing of the graph; the regular expressions of the stop detector; the sampler, the
  tools, git and the operating system, which answer through parameters; sampling and tool execution
  inside a round of the turn loop, compaction, the MCP and plugin layers and the terminal interface,
  which neither read nor write the state of the two engines.  Operations of the actor run without
  interleaving except where an operation awaits a subagent and the code re-reads its state afterwards; a
  cancelled graph operation leaves the state of its last checkpoint, a cancelled verification that of its
  drop guards.
\<close>

section \<open>The scheduler\<close>

text \<open>
  C1. In every reachable state of a graph session, a node that has been started (it is ready,
  running, achieved or failed) has every node it depends on by a Blocks edge achieved: no node
  ever runs before its dependencies, whatever sequence of launches, failures, pauses, restarts,
  replans and optimizations led there.
\<close>

theorem nodes_run_in_order:
  assumes "graph_reach t" "n \<in> set (nodes_of t)" "started (n_status n)" "d \<in> set (blocks_on n)"
  shows "node_st d t = Some Achieved"
proof -
  have ok: "graph_ok (nodes_of t)" using reach_mem_ok [OF assms(1,2)] .
  then have "d \<in> set (achieved_ids (nodes_of t))" using assms(2-4) by (auto simp: graph_ok_def sched_defs)
  then obtain m where m: "m \<in> set (nodes_of t)" "n_id m = d" "n_status m = Achieved" by (auto simp: achieved_ids_iff)
  with reach_node_st [OF assms(1) m(1)] show ?thesis by simp
qed

theorem nodes_run_in_order_witness:
  "node_st id_a demo_almost = Some Achieved \<and> node_st id_a demo_installed = Some Ready"
proof -
  obtain n where n: "n \<in> set (nodes_of demo_almost)" "n_status n = Ready" "id_a \<in> set (blocks_on n)"
    using demo_final_ready by blast
  have "started (n_status n)" by (simp add: n(2) started_def)
  from nodes_run_in_order [OF demo_almost_reach n(1) this n(3)]
  show ?thesis by (simp add: node_st_statuses demo_statuses)
qed

text \<open>
  C2. A reachable graph whose status is Complete has a non-empty plan whose every node, the
  terminal verification node included, is Achieved.
\<close>

theorem complete_means_verified:
  assumes "graph_reach t" "graph_status t = Some Complete"
  shows "nodes_of t \<noteq> [] \<and> (\<forall>n \<in> set (nodes_of t). n_status n = Achieved) \<and>
    node_st FINAL_NODE_ID t = Some Achieved"
proof (intro conjI)
  obtain s where s: "t_state t = Some s" "g_status s = Complete" using assms(2) by (auto simp: graph_status_def)
  then have d: "all_done (nodes_of t)" using reach_state [OF assms(1)] by (auto simp: state_ok_def nodes_of_def)
  then show n: "nodes_of t \<noteq> []" and a: "\<forall>n \<in> set (nodes_of t). n_status n = Achieved" by (auto simp: all_done_def)
  obtain f where f: "f \<in> set (nodes_of t)" "n_id f = FINAL_NODE_ID"
    using reach_graph_ok [OF assms(1) n] by (auto simp: graph_ok_def final_gate_def set_node_ids)
  with reach_node_st [OF assms(1) f(1)] a show "node_st FINAL_NODE_ID t = Some Achieved" by simp
qed

theorem complete_means_verified_witness:
  "node_st FINAL_NODE_ID demo_completed = Some Achieved \<and> graph_status demo_completed = Some Complete"
proof -
  have "graph_status demo_completed = Some Complete" by (simp add: demo_run_defs demo_eval)
  from complete_means_verified [OF demo_completed_reach this] this show ?thesis by simp
qed

text \<open>
  C3. The terminal verification node starts only when every other node of the graph has been
  achieved.
\<close>

theorem final_node_runs_last:
  assumes "graph_reach t" "node_st FINAL_NODE_ID t = Some st" "started st"
    and "m \<in> set (nodes_of t)" "n_id m \<noteq> FINAL_NODE_ID"
  shows "n_status m = Achieved"
proof -
  have ok: "graph_ok (nodes_of t)" using reach_mem_ok [OF assms(1,4)] .
  obtain f where f: "f \<in> set (nodes_of t)" "n_id f = FINAL_NODE_ID" "n_status f = st"
    using assms(2) st_of_SomeD unfolding node_st_nodes by blast
  show ?thesis by (rule final_starts_last [OF ok f(1,2) _ assms(4,5)]) (simp add: f(3) assms(3))
qed

theorem final_node_runs_last_witness:
  "\<exists>m \<in> set (nodes_of demo_final_running). n_id m = id_b \<and> n_status m = Achieved"
proof -
  have "node_st FINAL_NODE_ID demo_final_running = Some Running" by (simp add: node_st_statuses demo_statuses)
  note last = final_node_runs_last [OF demo_done_reach(1) this]
  have "id_b \<in> n_id ` set (nodes_of demo_final_running)" by (simp add: statuses_set demo_statuses)
  then obtain m where m: "m \<in> set (nodes_of demo_final_running)" "n_id m = id_b" by auto
  then have "n_status m = Achieved" by (intro last) (simp_all add: started_def)
  with m show ?thesis by blast
qed

text \<open>
  C4. A reachable graph with a waiting node always has a node that is ready or in flight: the
  scheduler can never be left with work that nothing will unblock.
\<close>

theorem graph_never_stuck:
  assumes "graph_reach t" "n \<in> set (nodes_of t)" "n_status n = Waiting"
  shows "\<exists>m \<in> set (nodes_of t). n_status m = Ready \<or> n_status m = Running"
proof -
  obtain m where m: "m \<in> set (nodes_of t)" "live (n_status m)"
    using waiting_has_live [OF reach_mem_ok [OF assms(1,2)] assms(2,3)] .
  with reach_status [OF assms(1) m(1)] show ?thesis by (auto simp: live_def in_flight_def)
qed

theorem graph_never_stuck_witness:
  "\<exists>m \<in> set (nodes_of demo_half). n_status m = Ready \<or> n_status m = Running"
proof -
  have "Waiting \<in> n_status ` set (nodes_of demo_half)"
    by (simp add: statuses_set demo_statuses)
  then show ?thesis using graph_never_stuck [OF demo_half_reach] by auto
qed

text \<open>
  C5. mark_node_failed marks the node Failed and, by its repeated sweeps, exactly the transitive
  closure of its non-terminal dependents Blocked, with the reason naming the failed node; every
  other node is left as it was.
\<close>

theorem failure_blocks_exactly_dependents:
  assumes "graph_reach t" "t_state t = Some s" "node_st i t = Some st" "live st"
  shows "nodes_of (mark_node_failed ck i detail t) = map (\<lambda>n.
      if n_id n = i then n\<lparr>n_status := Failed, n_failure := Some detail\<rparr>
      else if (i, n_id n) \<in> (open_edges (nodes_of t))\<^sup>+
      then n\<lparr>n_status := NodeBlocked, n_failure := Some (''blocked: dependency chain failed at '' @ i)\<rparr>
      else n) (nodes_of t)"
proof -
  let ?g = "\<lambda>n. n\<lparr>n_status := Failed, n_failure := Some detail\<rparr>"
  have ns: "nodes_of t = g_nodes s" using assms(2) by (simp add: nodes_of_def)
  then have "g_nodes s \<noteq> []" using assms(3) by (auto simp: node_st_nodes st_of_def)
  then have ok: "graph_ok (g_nodes s)" using reach_graph_ok [OF assms(1)] ns by simp
  then have F: "failing (g_nodes s) i ?g"
    using assms(3,4) ns by (auto simp: failing_def keeps_def node_st_nodes)
  show ?thesis
    using fail_run [OF F] assms(2) fail_set_open [OF F]
    by (auto simp: mark_node_failed_def block_dependents_def nodes_of_def fail_map_def blk_def)
qed

theorem failure_blocks_exactly_dependents_witness:
  "node_st id_b (mark_node_failed demo_clock id_a ''x'' demo_running) = Some NodeBlocked"
proof -
  obtain s where s: "t_state demo_running = Some s"
    by (simp add: demo_run_defs demo_eval)
  have r: "node_st id_a demo_running = Some Running" "live Running"
    by (simp_all add: node_st_statuses demo_statuses live_def in_flight_def)
  obtain n where n: "n \<in> set (nodes_of demo_running)" "n_id n = id_b" "id_a \<in> set (blocks_on n)" "n_status n = Waiting"
    using demo_running_b by blast
  have "(id_a, id_b) \<in> open_edges (nodes_of demo_running)"
    unfolding open_edges_def using n by (force simp: is_terminal_def)
  then have e: "(id_a, id_b) \<in> (open_edges (nodes_of demo_running))\<^sup>+" ..
  let ?t = "mark_node_failed demo_clock id_a ''x'' demo_running"
  have "map (\<lambda>n. (n_id n, n_status n)) (nodes_of ?t) = map (\<lambda>n. (n_id n,
      if n_id n = id_a then Failed else if (id_a, n_id n) \<in> (open_edges (nodes_of demo_running))\<^sup>+ then NodeBlocked
      else n_status n)) (nodes_of demo_running)"
    unfolding failure_blocks_exactly_dependents [OF demo_running_reach s r] by simp
  then have "statuses ?t = map (\<lambda>p. (fst p, if fst p = id_a then Failed
      else if (id_a, fst p) \<in> (open_edges (nodes_of demo_running))\<^sup>+ then NodeBlocked else snd p)) (statuses demo_running)"
    by (simp add: statuses_def)
  then show ?thesis using e by (simp add: node_st_statuses demo_statuses)
qed

text \<open>
  C6. Once a node has failed in the graph tracker it stays failed as long as the tracker holds
  the graph: no sequence of transitions of the tracker, which include pause, the transition
  behind /graph resume, a budget top-up, demotion of orphaned nodes, replanning, optimization
  and the reload of its own present state after a restart, runs the node again, and the graph
  never reaches Complete. The claim is about the tracker and its own state: a session that is
  restarted from a checkpoint written before the failure continues from that earlier state and
  is not covered. The merge error text that promises that /graph resume re-runs the node is
  therefore not kept.
\<close>

theorem failure_is_final:
  assumes "graph_reach t" "node_st i t = Some Failed"
    and "(\<lambda>a b. graph_step a b \<and> t_state b \<noteq> None)\<^sup>*\<^sup>* t t'"
  shows "node_st i t' = Some Failed \<and> graph_status t' \<noteq> Some Complete"
proof -
  have r: "graph_reach t'" "node_st i t' = Some Failed" using failed_forever [OF assms] by auto
  obtain n where n: "n \<in> set (nodes_of t')" "n_status n = Failed"
    using r(2) st_of_SomeD unfolding node_st_nodes by blast
  have "graph_status t' \<noteq> Some Complete"
    using reach_state [OF r(1)] n by (auto simp: graph_status_def state_ok_def all_done_def nodes_of_def split: option.splits)
  with r show ?thesis by blast
qed

theorem failure_is_final_witness:
  "node_st id_a (snd (graph_resume demo_clock (snd (graph_pause demo_clock User demo_failed)))) = Some Failed"
proof -
  let ?p = "snd (graph_pause demo_clock User demo_failed)"
  let ?r = "snd (graph_resume demo_clock ?p)"
  have some: "t_state demo_failed \<noteq> None" by (simp add: demo_run_defs demo_eval)
  have p: "t_state ?p \<noteq> None"
    using some by (auto simp: graph_pause_def graph_pause_inner_def account_elapsed_def Let_def)
  have r: "t_state ?r \<noteq> None"
    using p by (auto simp: graph_resume_def recompute_ready_def)
  have "(\<lambda>a b. graph_step a b \<and> t_state b \<noteq> None)\<^sup>*\<^sup>* demo_failed ?r"
    using p r graph_step.pause [of demo_failed demo_clock User None] graph_step.resume [of ?p demo_clock]
    unfolding graph_pause_def by (metis (mono_tags, lifting) converse_rtranclp_into_rtranclp r_into_rtranclp)
  from failure_is_final [OF demo_failed_reach _ this, of id_a] show ?thesis
    by (simp add: node_st_statuses demo_failed_statuses)
qed

section \<open>The session\<close>

text \<open>
  C7. Every run of a session (set up, resume, pause, clear, status, round ends, interrupts,
  budget enforcement, a parallel batch cut off after any number of reports, goal-engine turns,
  writes of the project file by another instance, and restarts from any prefix of the
  checkpoints) refines the transition system of the tracker: the graph in memory, every
  checkpoint ever written and whatever the project file loads to is the state of a reachable
  tracker, and no operation has panicked.
\<close>

theorem session_refines_tracker:
  assumes "session_start w s0" "(session_step w)\<^sup>*\<^sup>* s0 s"
  shows "sess_inv w s \<and> graph_reach (ss_graph s) \<and> \<not> ss_panicked s \<and>
    (\<forall>st. Some st \<in> set (checkpoints s) \<longrightarrow> (\<exists>t. graph_reach t \<and> t_state t = Some st)) \<and>
    (\<forall>dir st. cf_project_dir w = Some dir \<longrightarrow> load (cf_serde w) dir (Inr (ss_file s)) = Inr (Some st) \<longrightarrow>
      (\<exists>t. graph_reach t \<and> t_state t = Some st))"
proof -
  have i: "sess_inv w s" by (rule session.inv_run [OF assms])
  have "graph_reach (ss_graph s)" by (rule session.run_spec [OF assms])
  then show ?thesis
    using i sess_invD(2,6) [OF i] by (auto simp: pre_inv_def file_ok_def snap_ok_def)
qed

theorem session_refines_tracker_witness:
  "\<exists>out s. setup_graph 79 demo_world ''obj'' None demo_session = Some (out, s) \<and> graph_reach (ss_graph s) \<and> \<not> ss_panicked s"
proof -
  obtain out s where s: "setup_graph 79 demo_world ''obj'' None demo_session = Some (out, s)"
    using setup_post [OF demo_session_inv, of 79 "''obj''" None] by (auto simp: command_post_def demo_fuel)
  have "(session_step demo_world)\<^sup>*\<^sup>* demo_session s"
    using session_step.setup_cmd [OF s] by (auto simp: demo_fuel)
  then show ?thesis using session_refines_tracker [OF demo_start] s by blast
qed

text \<open>
  C8. The dispatch loop drive_graph always returns: 26 * (replan cap + 1) + 1 iterations are
  enough, because every iteration that loops settles at least one node of at most 25 and only as
  many replanning passes as the cap allows can add nodes; with that much fuel or more the result
  is the same.
\<close>

theorem drive_graph_terminates:
  assumes "sess_inv w s" "26 * Suc (unat (cf_replan_cap w)) + 1 \<le> fuel"
  shows "\<exists>r s'. drive_graph fuel w s = Some (r, s') \<and>
    drive_graph (26 * Suc (unat (cf_replan_cap w)) + 1) w s = Some (r, s')"
proof -
  have f: "26 * Suc (unat (cf_replan_cap w)) + 1 = drive_fuel w" by (simp add: drive_fuel_def MAX_GRAPH_NODES_def)
  show ?thesis
    using drive_graph_post [OF assms(1), of fuel] drive_graph_fuel [OF assms(1), of fuel] assms(2) unfolding f by force
qed

theorem drive_graph_terminates_witness:
  "\<exists>r s'. drive_graph 79 demo_world demo_planned = Some (r, s')"
  using drive_graph_terminates [OF demo_planned_inv, of 79] by (auto simp: demo_world_def)

text \<open>
  C9. With the graph harness enabled, at the end of a turn run_graph_round_end returns (given
  the fuel of drive_graph_terminates) and either hands a node to the goal engine (the graph is
  active, the node is the current one and running, its goal is active and its token budget is
  exactly what remains of the graph budget, which is not exhausted) or leaves the graph not
  active: the graph is never left Active with nothing driving it.
\<close>

theorem round_end_never_stalls:
  assumes "sess_inv w s" "graph_harness_enabled w" "drive_fuel w \<le> fuel"
  shows "\<exists>r s'. run_graph_round_end fuel w s = Some (r, s') \<and> sess_inv w s' \<and>
    (case r of
       Some reminder \<Rightarrow> \<exists>i g. is_active (ss_graph s') \<and> current_node_id (ss_graph s') = Some i \<and> node_st i (ss_graph s') = Some Running \<and>
         gt_orchestration (ss_goal s') = Some g \<and> o_status g = Active \<and> o_token_budget g = remaining_budget (ss_graph s') \<and>
         remaining_budget (ss_graph s') \<noteq> Some 0
     | None \<Rightarrow> \<not> is_active (ss_graph s'))"
proof -
  obtain rs where rs: "run_graph_round_end fuel w s = Some rs" "drive_post w rs" using round_end_post [OF assms(1,3)] by blast
  obtain r s' where e: "rs = (r, s')" by fastforce
  show ?thesis
    using rs assms(2) unfolding e by (cases r) (auto simp: drive_post_def launched_def running_def goal_view_def)
qed

theorem round_end_never_stalls_witness:
  "\<exists>r s'. run_graph_round_end 79 demo_world demo_planned = Some (r, s') \<and> (r = None \<longrightarrow> \<not> is_active (ss_graph s'))"
proof -
  have "graph_harness_enabled demo_world" by (simp add: graph_harness_enabled_def demo_world_def)
  from round_end_never_stalls [OF demo_planned_inv this, of 79] show ?thesis by (auto simp: demo_fuel)
qed

text \<open>
  C10. A parallel batch leaves every one of its nodes Failed or Achieved, and Achieved only when
  the worker run of that node ended with a verified report and, if it worked in a worktree, that
  worktree was applied to the repository without conflict.
\<close>

theorem batch_verdicts:
  assumes "sess_inv w s" "is_active (ss_graph s)" "cf_coordinator w" "distinct ids" "2 \<le> length ids"
    and "\<forall>i \<in> set ids. node_st i (ss_graph s) = Some Ready" "i \<in> set ids"
  shows "node_st i (ss_graph (run_graph_parallel_batch w ids s)) = Some Failed \<or>
    node_st i (ss_graph (run_graph_parallel_batch w ids s)) = Some Achieved \<and>
    (\<exists>n objective rep. rep = fst (run_node_to_verdict (w_workers w n) i objective (cf_node_rounds w)) \<and> nr_achieved rep \<and>
      (\<forall>p. nr_worktree_path rep = Some p \<longrightarrow> (\<exists>k. w_apply w k p = ApplySuccess)))"
  using batch_verdict [OF assms] unfolding accepted_def by blast

theorem batch_verdicts_witness:
  "\<exists>st. node_st id_a (ss_graph (run_graph_parallel_batch demo_world [id_a, id_b] (demo_saved demo_wide demo_goal))) = Some st \<and>
    (st = Failed \<or> st = Achieved)"
proof -
  have "sess_inv demo_world (demo_saved demo_wide demo_goal)" by (rule demo_saved_inv [OF demo_wide_track])
  from batch_verdicts [OF this, of "[id_a, id_b]" id_a] show ?thesis
    using demo_wide_state by (auto simp: demo_world_def)
qed

text \<open>
  C11. Restarting the process after the last operation has been saved restores exactly the graph
  that was in memory, as from_snapshot presents it (an active graph paused, nodes in flight
  ready again): the last checkpoint is never behind the state in memory.
\<close>

theorem restart_loses_nothing:
  assumes "session_start w s0" "(session_step w)\<^sup>*\<^sup>* s0 s"
  shows "t_state (ss_graph (restart_session w (length (ss_log s)) goal s)) =
    (case t_state (ss_graph s) of None \<Rightarrow> None | Some st \<Rightarrow> t_state (from_snapshot (cf_session_dir w) st))"
  using restart_exact [OF session.inv_run [OF assms]] by (simp add: from_snapshot_restored split: option.splits)

theorem restart_loses_nothing_witness:
  "\<exists>out s. setup_graph 79 demo_world ''obj'' None demo_session = Some (out, s) \<and>
    (t_state (ss_graph (restart_session demo_world (length (ss_log s)) None s)) = None \<longleftrightarrow> t_state (ss_graph s) = None)"
proof -
  obtain out s where s: "setup_graph 79 demo_world ''obj'' None demo_session = Some (out, s)"
    using setup_post [OF demo_session_inv, of 79 "''obj''" None] by (auto simp: command_post_def demo_fuel)
  have "(session_step demo_world)\<^sup>*\<^sup>* demo_session s"
    using session_step.setup_cmd [OF s] by (auto simp: demo_fuel)
  from restart_loses_nothing [OF demo_start this, of None] s show ?thesis
    by (auto simp: from_snapshot_restored split: option.splits)
qed

section \<open>The goal engine\<close>

text \<open>
  C12. With verification enabled, a goal is Complete in a reachable state of the goal engine
  only with the verdict Achieved recorded and only when a verification stage that really ran for
  this goal (its events are in the log) approved it, or never reached its skeptics because of an
  infrastructure failure, or the session has no subagent coordinator. Deferred and duplicate
  claims, claims that arrive while a panel runs, pauses, resumes, budget stops and cancelled
  turns never complete a goal.
\<close>

theorem goal_complete_needs_panel:
  assumes "engine_start s0" "(engine_step w q)\<^sup>*\<^sup>* s0 s" "ve_enabled q"
    and "gt_orchestration (ss_goal s) = Some goal" "o_status goal = Complete"
  shows "o_last_classifier_verdict goal = Some GcAchieved \<and>
    (\<not> cf_coordinator w \<or>
     (\<exists>n v. n < ss_tick s \<and> vi_verifier_id v = o_verifier_id goal \<and> vi_skeptic_count v = ve_skeptic_count q \<and>
        ClassifierEv ` set (vr_events (run_verification_stage (ve_panel q n) (w_host w n) v)) \<subseteq> set (ss_log s) \<and>
        (panel_reached (ve_panel q n) (w_host w n) v \<longrightarrow> approves (ve_panel q n) (w_host w n) v)))"
  using engine_run_ok(3) [OF assms(1,2,4,3,5)] by (simp add: endorsed_def)

theorem goal_complete_needs_panel_witness:
  "\<exists>goal. gt_orchestration (ss_goal demo_achieved) = Some goal \<and> o_last_classifier_verdict goal = Some GcAchieved"
proof -
  obtain goal where g: "gt_orchestration (ss_goal demo_achieved) = Some goal" "o_status goal = Complete"
    using demo_achieved by (auto simp: goal_status_of_def)
  then show ?thesis using goal_complete_needs_panel [OF demo_goal_start demo_achieved_run _ g] by simp
qed

text \<open>
  C13. A completion claim that the panel approves does complete the goal: with the goal harness,
  the coordinator and the verification stage switched on, draining one claim at the end of a
  turn, with the goal active, nothing else running and the turn not cancelled, ends with the
  goal Complete whenever every stage that can run for this goal and attempt, at whatever moment,
  reaches its skeptics and they approve.
\<close>

theorem approved_claim_completes:
  assumes "gt_orchestration (ss_goal s) = Some goal" "o_status goal = Active" "cf_goal_harness w" "cf_coordinator w" "ve_enabled q"
    and "\<And>n. ve_concurrent q n = []" "\<And>n. \<not> ve_cancel q n" "\<not> ss_in_flight s" "ss_pending_claims s = []"
    and "ug_completed cmd = Some True" "ug_blocked_reason cmd = None"
    and "\<And>n v. vi_verifier_id v = o_verifier_id goal \<Longrightarrow> vi_attempt v = sat_add_u (o_classifier_runs_attempted goal) 1 \<Longrightarrow>
      vi_skeptic_count v = ve_skeptic_count q \<Longrightarrow> panel_reached (ve_panel q n) (w_host w n) v \<and> approves (ve_panel q n) (w_host w n) v"
  shows "\<exists>s'. drain_goal_updates w q current TurnEnd [(cmd, i)] s = (False, s') \<and> goal_status_of (ss_goal s') = Some Complete"
  by (rule approved_claim [OF assms(1-9) _ assms(12)]) (use assms(10,11) in \<open>simp_all add: claim_ok_def\<close>)

theorem approved_claim_completes_witness:
  "\<exists>s'. drain_goal_updates demo_world (demo_verify ''Not Refuted'') 0 TurnEnd [(demo_claim_call, 7)] demo_goal_session = (False, s') \<and>
    goal_status_of (ss_goal s') = Some Complete"
proof -
  obtain goal where o: "gt_orchestration (ss_goal demo_goal_session) = Some goal" "o_status goal = Active" "o_classifier_runs_attempted goal = 0"
    "o_verifier_id goal = ''0123456789ab''" "ss_pending_claims demo_goal_session = []" "\<not> ss_in_flight demo_goal_session" by (rule demo_goal_state)
  show ?thesis
    by (rule approved_claim_completes [OF o(1,2)])
       (simp_all add: o(3-6) demo_claim_call_def demo_sat demo_reached demo_approves(1))
qed

text \<open>
  C14. In every reachable state of the goal engine the strategist bonus is at most 3, an active
  goal has used fewer than max_runs + 3 verification attempts (the sum saturating at the width
  of u32) since it was created or last resumed, no verification is marked as in flight between
  operations, and at most 4 claims wait for the end of the turn, all of them completion claims
  without a blocked reason.
\<close>

theorem verification_runs_bounded:
  assumes "engine_start s0" "(engine_step w q)\<^sup>*\<^sup>* s0 s" "gt_orchestration (ss_goal s) = Some goal"
  shows "o_strategist_cap_bonus goal \<le> 3 \<and>
    (o_status goal = Active \<longrightarrow> unat (o_classifier_runs_attempted goal) < min (unat (ve_max_runs q) + 3) (2 ^ 32 - 1)) \<and>
    \<not> ss_in_flight s \<and> length (ss_pending_claims s) \<le> 4 \<and>
    (\<forall>c \<in> set (ss_pending_claims s). ug_completed c = Some True \<and> ug_blocked_reason c = None)"
proof -
  note r = engine_run_ok [OF assms]
  have "unat (runs_cap q) = min (unat (ve_max_runs q) + 3) (2 ^ 32 - 1)"
    by (simp add: runs_cap_def unat_sat_add_u GOAL_STRATEGIST_CAP_BONUS_def)
  then show ?thesis
    using r by (auto simp: GOAL_STRATEGIST_CAP_BONUS_def GOAL_CLASSIFIER_PENDING_QUEUE_CAP_def claim_ok_def word_less_nat_alt)
qed

theorem verification_runs_bounded_witness:
  "\<exists>goal. gt_orchestration (ss_goal demo_goal_session) = Some goal \<and> unat (o_classifier_runs_attempted goal) < 6"
proof -
  obtain goal where o: "gt_orchestration (ss_goal demo_goal_session) = Some goal" "o_status goal = Active" by (rule demo_goal_state)
  have "unat (ve_max_runs (demo_verify a)) = 3" for a by simp
  then show ?thesis using verification_runs_bounded [OF demo_goal_start demo_goal_run [of "demo_verify []"] o(1)] o by simp
qed

text \<open>
  C15. A drain acknowledges the update_goal calls it was given one by one, in order, each
  exactly once, whatever path each call takes (progress, blocked, deferred, duplicate, verified,
  dropped after a pause, harness off); only a cancelled turn stops early, and then the calls
  answered are a prefix. Calls that other tasks drain while a panel runs do not disturb this.
\<close>

theorem every_call_answered_once:
  assumes "\<And>n op. op \<in> set (ve_concurrent q n) \<Longrightarrow> set (op_calls op) \<inter> set (map snd envelopes) = {}"
    and "drain_goal_updates w q current purpose envelopes s = (cancelled, s')"
  shows "\<exists>k \<le> length envelopes. answered (set (map snd envelopes)) s' = answered (set (map snd envelopes)) s @ map snd (take k envelopes) \<and>
    (\<not> cancelled \<longrightarrow> k = length envelopes)"
  by (rule drain_answers [OF assms])

theorem every_call_answered_once_witness:
  "answered {7} demo_achieved = [7]"
proof -
  let ?q = "demo_verify ''Not Refuted''" and ?envs = "[(demo_claim_call, 7)]"
  obtain c s' where d: "drain_goal_updates demo_world ?q 0 TurnEnd ?envs demo_goal_session = (c, s')" by fastforce
  have "\<not> c" using demo_drain_returns d by simp
  moreover have "answered {7} demo_goal_session = []" by (rule demo_unanswered)
  ultimately show ?thesis
    using every_call_answered_once [OF _ d] d by (simp add: demo_achieved_def)
qed

text \<open>
  C16. The verification stage reports Achieved only after it reached its skeptics, whose number
  is 1 to 5, and: a single skeptic really answered in favour, or skeptic 0 did not refute with
  high confidence and strictly more than half of the other skeptics, each run without memory of
  earlier attempts, really answered in favour, with a parsed verdict or the exact terminal
  token. A skeptic that fails to start, crashes, times out or answers anything else counts as a
  refutation.
\<close>

theorem panel_needs_majority:
  assumes "vr_outcome (run_verification_stage io h v) = OutAchieved details"
  shows "panel_reached io h v \<and> 1 \<le> panel_size v \<and> panel_size v \<le> 5 \<and>
    (panel_size v = 1 \<and> in_favour io v 0 \<or>
     1 < panel_size v \<and> \<not> (sr_refuted (vote io h v 0) \<and> sr_confidence (vote io h v 0) = High) \<and>
       panel_size v - 1 < 2 * card {i. 1 \<le> i \<and> i < panel_size v \<and> in_favour io v i})"
proof -
  have "panel_reached io h v" "approves io h v" using assms stage_outcome by blast+
  then show ?thesis using approves_majority [of io h v] panel_size_bounds [of v] by (auto simp: decisive_def)
qed

theorem panel_needs_majority_witness:
  "in_favour (demo_panel ''Not Refuted'') demo_inputs 0"
proof -
  have "vr_outcome (run_verification_stage (demo_panel ''Not Refuted'') demo_host demo_inputs) =
      OutAchieved (format_details_path demo_host (vi_verifier_id demo_inputs) (vi_attempt demo_inputs))"
    using stage_outcome demo_reached demo_approves(1) by (simp add: demo_inputs_def)
  from panel_needs_majority [OF this] show ?thesis by (simp add: demo_inputs_def demo_one_skeptic)
qed

text \<open>
  C17. Text of the model and of subagents that is put into the continuation directive cannot
  escape its place: a neutralized slot contains none of the tags that open or close the reminder
  and the goal state, and no brace pair of the template syntax survives in it (an opening brace
  is only ever followed by the inserted zero-width joiner); the final response handed to the
  skeptics cannot contain the closing tags that delimit the evidence.
\<close>

theorem directive_text_inert:
  "(q \<in> set reminder_tags \<longrightarrow> \<not> sublist q (neutralize_directive_slot raw)) \<and>
   (sublist [CHR ''{'', c] (neutralize_directive_slot raw) \<longrightarrow> c = CHR 0xE2) \<and>
   (e \<in> set SANITIZE_TAGS \<longrightarrow> \<not> sublist e (sanitize_final_response raw))"
  using directive_slot_no_tags directive_slot_no_braces sanitize_final_response_inert by blast

theorem directive_text_inert_witness:
  "\<not> sublist ''</system-reminder>'' (neutralize_directive_slot ''x</system-reminder>{{objective}}'')"
  using directive_text_inert [of "''</system-reminder>''" "''x</system-reminder>{{objective}}''"] by (simp add: reminder_tags_def)

section \<open>Tool permissions\<close>

text \<open>
  C18. A deny rule of the managed policy is final: when a rule denies the access as it was asked
  for, or the file it really opens under any spelling the policy considers (made absolute
  against the working directory, relative to it, or with symbolic links followed), the actor
  answers PolicyDeny, without a prompt and without changing anything it remembers, whatever else
  the policy allows, whatever the user granted before and in every mode, always-approve
  included.
\<close>

theorem deny_rule_always_wins:
  assumes "under_policy e config cfg" "direct_covers e rq access" "applying e config access ActDeny" "\<not> an_gone_at_dequeue an"
  shows "denied a (rq_access rq) (handle_request e cfg rq an a)"
  using direct.denies [OF assms(2,3)] gates_deny [OF assms(1) _ assms(4)] by blast

theorem deny_rule_always_wins_witness:
  "denied (demo_actor True) (AccRead (Some ''link''))
     (handle_request demo_perm_env (demo_perm_cfg (Some demo_config) None) (demo_request (AccRead (Some ''link''))) (demo_answers AllowOnce) (demo_actor True))"
  using deny_rule_always_wins [OF demo_under_policy demo_link_covered demo_rules(4), where an = "demo_answers AllowOnce" and a = "demo_actor True"]
  by (simp add: demo_answers_def demo_request_def)

text \<open>
  C19. A denied command cannot be hidden in a script. When every command of the script can be
  seen (it decomposes into plain commands, and so does each script it passes to bash -c, up to
  seven levels deep) and one of them, in a chain or at one of these levels, is covered by a deny
  rule as it is written or after all its wrappers such as timeout or env are removed (the forms
  in between are not tried), the whole request is answered PolicyDeny in every mode. When the
  commands cannot all be seen (some level does not decompose, for instance because of an
  expansion, or there are eight levels), a deny rule inside is not looked for; instead, as soon
  as the policy has any deny or ask rule on shell commands and the configuration does not
  remember approvals, the request is not allowed without a prompt, in every mode and whatever
  was granted before.
\<close>

theorem chained_commands_denied:
  assumes "under_policy e config cfg" "rq_access rq = AccBash cmd"
  shows "(commands_cover e cmd access \<and> applying e config access ActDeny \<and> \<not> an_gone_at_dequeue an \<longrightarrow>
      denied a (AccBash cmd) (handle_request e cfg rq an a)) \<and>
    (script_opaque e cmd \<and> r \<in> set (pc_rules config) \<and> restricts r \<and> pr_tool r \<in> {ForBash, ForAny} \<and>
       \<not> pm_remember_tool_approvals cfg \<and> handle_request e cfg rq an a = (Some Allow, ev, a') \<longrightarrow> ev_user_prompted ev)"
proof (intro conjI impI; elim conjE)
  assume h: "commands_cover e cmd access" "applying e config access ActDeny" "\<not> an_gone_at_dequeue an"
  have "\<exists>r. command_gate e config rq = Some (Reject r)" using commands.denies [OF h(1,2)] by (simp add: command_gate_def assms(2))
  then show "denied a (AccBash cmd) (handle_request e cfg rq an a)" using gates_deny [OF assms(1) _ h(3), of rq a] by (auto simp: assms(2))
next
  assume h: "script_opaque e cmd" "r \<in> set (pc_rules config)" "restricts r" "pr_tool r \<in> {ForBash, ForAny}"
    and out: "\<not> pm_remember_tool_approvals cfg" "handle_request e cfg rq an a = (Some Allow, ev, a')"
  have "2 \<le> strength (command_gate e config rq)" using opaque_gate [OF h] by (simp add: command_gate_def assms(2))
  with script_ask_forced [OF assms(1) out(2)] heeded_ask_prompts [OF _ _ _ out(2)] out(1) assms(2) show "ev_user_prompted ev" by simp
qed

theorem chained_commands_denied_witness:
  "denied (demo_actor True) (AccBash demo_nested)
     (handle_request demo_perm_env (demo_perm_cfg (Some demo_config) None) (demo_request (AccBash demo_nested)) (demo_answers AllowOnce) (demo_actor True)) \<and>
   (\<exists>ev a'. handle_request demo_perm_env (demo_perm_cfg (Some demo_config) None) (demo_request (AccBash ''echo $HOME && rm x'')) (demo_answers AllowOnce) (demo_actor True)
      = (Some Allow, ev, a') \<and> ev_user_prompted ev)"
proof -
  let ?cfg = "demo_perm_cfg (Some demo_config) None" and ?an = "demo_answers AllowOnce"
  have nested: "denied (demo_actor True) (AccBash demo_nested) (handle_request demo_perm_env ?cfg (demo_request (AccBash demo_nested)) ?an (demo_actor True))"
    using chained_commands_denied [OF demo_under_policy, where rq = "demo_request (AccBash demo_nested)" and an = ?an and a = "demo_actor True"]
      demo_nested_covered demo_rules(2) by (simp add: demo_answers_def demo_request_def)
  let ?out = "handle_request demo_perm_env ?cfg (demo_request (AccBash ''echo $HOME && rm x'')) ?an (demo_actor True)"
  have "fst ?out = Some Allow" by code_simp
  then obtain ev a' where out: "?out = (Some Allow, ev, a')" by (metis prod.collapse)
  have rq: "rq_access (demo_request (AccBash ''echo $HOME && rm x'')) = AccBash ''echo $HOME && rm x''" by (simp add: demo_request_def)
  have "\<not> pm_remember_tool_approvals ?cfg" by (simp add: demo_perm_cfg_def)
  then have "ev_user_prompted ev"
    using chained_commands_denied [OF demo_under_policy rq] demo_opaque demo_restricted out by blast
  with nested out show ?thesis by blast
qed

text \<open>
  C20. The Read and Edit rules also hold for shell commands: when a script names a file as an
  operand of one of the file commands the policy knows, or as the target of a redirection, and a
  deny rule covers reading or writing that file as written, made absolute against the working
  directory of the tool (not one a cd in the script has changed to), or with links followed, the
  request is answered PolicyDeny in every mode.
\<close>

theorem shell_files_denied:
  assumes "under_policy e config cfg" "rq_access rq = AccBash cmd" "files_cover e (cmd, rq_tool_cwd rq) access"
    and "applying e config access ActDeny" "\<not> an_gone_at_dequeue an"
  shows "denied a (AccBash cmd) (handle_request e cfg rq an a)"
proof -
  have "\<exists>r. file_gate e config rq = Some (Reject r)" using files.denies [OF assms(3,4)] by (simp add: file_gate_def assms(2))
  then show ?thesis using gates_deny [OF assms(1) _ assms(5), of rq a] by (auto simp: assms(2))
qed

theorem shell_files_denied_witness:
  "denied (demo_actor True) (AccBash ''cat link'')
     (handle_request demo_perm_env (demo_perm_cfg (Some demo_config) None) (demo_request (AccBash ''cat link'')) (demo_answers AllowOnce) (demo_actor True))"
  using shell_files_denied [of demo_perm_env demo_config "demo_perm_cfg (Some demo_config) None" "demo_request (AccBash ''cat link'')" "''cat link''"
      "AccRead (Some ''/w/secret'')" "demo_answers AllowOnce" "demo_actor True"] demo_file_covered demo_rules(4)
  by (simp add: demo_answers_def demo_request_def)

text \<open>
  C21. An ask rule on a command or a file of a script is put to the user in every mode: when a
  shell request runs a command, or names a file, that an ask rule covers, and the configuration
  does not remember approvals, the actor allows the request only after it prompted the user,
  even in always-approve mode, in auto mode or with earlier grants for the script.
\<close>

theorem script_ask_never_silent:
  assumes "under_policy e config cfg" "rq_access rq = AccBash cmd" "\<not> pm_remember_tool_approvals cfg"
    and "commands_cover e cmd access \<or> files_cover e (cmd, rq_tool_cwd rq) access" "applying e config access ActAsk"
    and "handle_request e cfg rq an a = (Some Allow, ev, a')"
  shows "ev_user_prompted ev"
proof -
  have "2 \<le> strength (command_gate e config rq) \<or> 2 \<le> strength (file_gate e config rq)"
    using assms(4) commands.asks [OF _ assms(5)] files.asks [OF _ assms(5)] by (fastforce simp: command_gate_def file_gate_def assms(2))
  from script_ask_forced [OF assms(1,6) this] heeded_ask_prompts [OF _ _ _ assms(6)] assms(2,3) show ?thesis by simp
qed

theorem script_ask_never_silent_witness:
  "\<exists>ev a'. handle_request demo_perm_env (demo_perm_cfg (Some demo_ask_config) None) (demo_request (AccBash demo_chain)) (demo_answers AllowOnce) (demo_actor True)
     = (Some Allow, ev, a') \<and> ev_user_prompted ev"
proof -
  let ?out = "handle_request demo_perm_env (demo_perm_cfg (Some demo_ask_config) None) (demo_request (AccBash demo_chain)) (demo_answers AllowOnce) (demo_actor True)"
  have "fst ?out = Some Allow" by code_simp
  then obtain ev a' where out: "?out = (Some Allow, ev, a')" by (metis prod.collapse)
  then have "ev_user_prompted ev"
    using script_ask_never_silent [OF demo_under_policy _ _ _ demo_rules(3) out] demo_chain_covered
    by (simp add: demo_request_def demo_perm_cfg_def)
  with out show ?thesis by blast
qed

text \<open>
  C22. Outside always-approve mode and the sandbox auto-approval, a shell request that is
  allowed without a prompt is approved in all its parts: a policy rule allows it, or the script
  decomposes into plain commands each of which only prepares the shell, or is neither rejected
  earlier in the session nor dangerous and is covered by a grant or a safe-command list, or the
  user granted exactly this script (or, where no pin forbids it, all shell commands), or auto
  mode is on and the script is a no-op or the classifier allowed it.
\<close>

theorem silent_shell_is_approved:
  assumes "handle_request e cfg rq an a = (Some Allow, ev, a')" "rq_access rq = AccBash cmd" "\<not> ev_user_prompted ev"
    and "\<not> pa_yolo a" "\<not> an_sandbox_auto_allows an"
  shows "pv_decision (policy_view_of e cfg rq) = Some Allow
    \<or> (\<exists>segments. all_commands_from_script (pe_parse e) cmd = Some segments \<and> list_all (segment_approved (pa_state a)) segments)
    \<or> cmd \<in> set (ps_allowed_bash_commands (pa_state a))
    \<or> ps_allow_bash_execute (pa_state a) \<and> pm_yolo_pin cfg = None
    \<or> auto_approves a an cmd" 
  using silent_bash [OF assms] by (auto simp: script_approved_def script_granted_def)

theorem silent_shell_is_approved_witness:
  "\<exists>segments. all_commands_from_script (pe_parse demo_perm_env) ''git log'' = Some segments \<and> list_all (segment_approved permission_state_default) segments" 
proof -
  let ?cfg = "demo_perm_cfg None (Some ''managed'')"
  let ?out = "handle_request demo_perm_env ?cfg (demo_request (AccBash ''git log'')) (demo_answers RejectOnce) (demo_actor False)"
  have facts: "fst ?out = Some Allow" "\<not> ev_user_prompted (fst (snd ?out))" by code_simp+
  then obtain ev a' where out: "?out = (Some Allow, ev, a')" "\<not> ev_user_prompted ev" by (metis prod.collapse)
  show ?thesis
    using silent_shell_is_approved [OF out(1) _ out(2), of "''git log''"]
    by (simp add: demo_request_def demo_actor_def demo_answers_def policy_view_of_def demo_perm_cfg_def permission_state_default_def auto_approves_def)
qed

text \<open>
  C23. The rule-based classifier of auto mode allows a script only when every part of it is on
  its lists: the script parses into plain commands, sets no environment variable outside the
  cosmetic list, every file that the write model extracts from it (redirections and the known
  output operands) is the null device or a standard stream, and every command it runs, behind
  wrappers and through any chain of package-manager launchers, is a program of the fixed list,
  the launched commands being held to the same limits on extracted writes and environment. The
  list holds readers and text tools, build tools, interpreters, git, gh, kubectl and the package
  managers uv, npm, pnpm, yarn and rustup, so that installing or removing a package can be
  allowed; it contains no shell, none of eval, exec and source, none of sudo, su and doas, none
  of curl, wget, ssh and scp, and none of rm, mv, cp, dd, chmod, chown and kill. A program of
  the list can still write files by itself.
\<close>

theorem heuristic_fails_closed:
  assumes "classify_bash e cmd = VerdictAllow"
  shows "\<exists>tree cmds. pe_parse e cmd = Some tree \<and> try_parse_word_only_commands_sequence tree cmd = Some cmds \<and> cmds \<noteq> []
    \<and> \<not> sets_unsafe_env (tt_root tree) cmd cmds
    \<and> list_all is_safe_write_sink (command_write_paths_in_tree (tt_root tree) cmd)
    \<and> (\<forall>c \<in> set cmds.
         (unwrap_wrappers (pl_words c) = [] \<or> program_of (pl_words c) \<in> set routine_programs)
         \<and> (\<forall>l. launches (pl_words c) l \<longrightarrow>
              \<not> command_env_is_unsafe l \<and> \<not> launched_writes_nonsink l
              \<and> (unwrap_wrappers l = [] \<or> program_of l \<in> set routine_programs)))
    \<and> list_all (\<lambda>p. p \<notin> set routine_programs)
         [''sh'', ''bash'', ''zsh'', ''dash'', ''ksh'', ''fish'', ''eval'', ''exec'', ''source'', ''sudo'', ''su'', ''doas'',
          ''curl'', ''wget'', ''ssh'', ''scp'', ''rm'', ''mv'', ''cp'', ''dd'', ''chmod'', ''chown'', ''kill'']" 
proof -
  obtain tree cmds where t: "pe_parse e cmd = Some tree" "try_parse_word_only_commands_sequence tree cmd = Some cmds"
    "\<not> sets_unsafe_env (tt_root tree) cmd cmds" "list_all is_safe_write_sink (command_write_paths_in_tree (tt_root tree) cmd)"
    "cmds \<noteq> []" "list_all (\<lambda>c. bash_command_is_routine (pl_words c) (pl_expandable c)) cmds"
    using assms by (rule classify_bash_allow)
  have "\<forall>c \<in> set cmds. (unwrap_wrappers (pl_words c) = [] \<or> program_of (pl_words c) \<in> set routine_programs)
      \<and> (\<forall>l. launches (pl_words c) l \<longrightarrow> \<not> command_env_is_unsafe l \<and> \<not> launched_writes_nonsink l
           \<and> (unwrap_wrappers l = [] \<or> program_of l \<in> set routine_programs))"
    using t(6) routine_program routine_launches by (fastforce simp: list_all_iff)
  with t(1-5) never_routine show ?thesis by blast
qed

theorem heuristic_fails_closed_witness:
  "\<exists>tree. pe_parse demo_perm_env ''git log'' = Some tree \<and> list_all is_safe_write_sink (command_write_paths_in_tree (tt_root tree) ''git log'')" 
proof -
  have "classify_bash demo_perm_env ''git log'' = VerdictAllow" by code_simp
  from heuristic_fails_closed [OF this] show ?thesis by blast
qed

text \<open>
  C24. With an administrator pin the always-approve mode is unreachable: however the session
  starts and whatever modes the handles request, in whatever order the commands are processed,
  neither the actor nor the flag the handles read is ever in always-approve mode, and no
  decision is recorded as made in it.
\<close>

theorem pin_blocks_always_approve:
  assumes "pm_yolo_pin cfg \<noteq> None" "(perm_step cfg)\<^sup>*\<^sup>* (actor_start cfg loaded requested) s"
  shows "\<not> pa_yolo (sy_actor s) \<and> \<not> sy_yolo_state s \<and> (\<forall>ev \<in> set (sy_events s). ev_permission_mode ev \<noteq> AlwaysApprove)"
proof -
  have "perm_inv cfg s" using permissions.inv_run [OF _ assms(2)] by (auto simp: perm_start_def)
  then show ?thesis using assms(1) by (auto simp: perm_inv_def pin_holds_def list_all_iff)
qed

theorem pin_blocks_always_approve_witness:
  "\<not> sy_yolo_state (set_yolo_mode (demo_perm_cfg None (Some ''managed'')) True (actor_start (demo_perm_cfg None (Some ''managed'')) permission_state_default True))"
proof -
  let ?cfg = "demo_perm_cfg None (Some ''managed'')" and ?s = "actor_start (demo_perm_cfg None (Some ''managed'')) permission_state_default True"
  have "(perm_step ?cfg)\<^sup>*\<^sup>* ?s (set_yolo_mode ?cfg True ?s)" by (rule r_into_rtranclp, rule step_set_yolo)
  with pin_blocks_always_approve [of ?cfg permission_state_default True] show ?thesis by (simp add: demo_perm_cfg_def)
qed

text \<open>
  C25. What a session remembers comes from the user, and the answer says exactly what: a request
  that did not reach a prompt leaves the actor as it was. After a prompt the modes, the
  classifier settings, the persisted edit policy and the permission to run all shell commands
  are unchanged, at most one entry joins the recorded decisions (old ones may drop out), and the
  lists grow by exactly this: for a shell request, the script on "always", the given prefix on
  "always this command", and the given prefix of the deny list on "never this command"; for a
  web request, the given domain on "always this domain"; for an MCP request, the tool that was
  asked for on "always" or "always this tool", and on "always this server" the given server if
  it is the one the name of the tool starts with and otherwise the tool only. Nothing else joins
  any list, so that an answer about files or searches adds nothing. The answer "edits for this
  session" sets the in-memory flag for edits, whatever kind of request other than a shell
  command it answers, and no other answer sets it. Whenever the lists change they are written to
  disk as they are.
\<close>

theorem grants_need_the_user:
  assumes "handle_request e cfg rq an a = (reply, ev, a')"
  shows "(\<not> ev_user_prompted ev \<longrightarrow> a' = a) \<and> (ev_user_prompted ev \<longrightarrow> answer_recorded (rq_access rq) (an_prompt an) a a')"
  using unprompted_keeps [OF assms] prompted_recorded [OF assms] by blast

theorem grants_need_the_user_witness:
  "\<exists>ev a'. handle_request demo_perm_env (demo_perm_cfg None None) (demo_request (AccMCPTool ''gh__list'' None)) (demo_answers (AllowAlwaysMcpServer ''evil'')) (demo_actor False)
      = (Some Allow, ev, a') \<and> ps_allowed_mcp_servers (pa_state a') = [] \<and> set (ps_allowed_mcp_tools (pa_state a')) = {''gh__list''} \<and> \<not> pa_allow_edits a'"
proof -
  let ?out = "handle_request demo_perm_env (demo_perm_cfg None None) (demo_request (AccMCPTool ''gh__list'' None)) (demo_answers (AllowAlwaysMcpServer ''evil'')) (demo_actor False)"
  have facts: "fst ?out = Some Allow" "ev_user_prompted (fst (snd ?out))" by code_simp+
  then obtain ev a' where out: "?out = (Some Allow, ev, a')" "ev_user_prompted ev" by (metis prod.collapse)
  have "\<not> serves ''evil'' ''gh__list''" by (simp add: serves_def)
  with grants_need_the_user [OF out(1)] out(2)
  have "set (ps_allowed_mcp_servers (pa_state a')) = {}" "set (ps_allowed_mcp_tools (pa_state a')) = {''gh__list''}" "\<not> pa_allow_edits a'"
    by (simp_all add: answer_recorded_def adds_mcp_server_def adds_mcp_tool_def demo_request_def demo_answers_def demo_actor_def permission_state_default_def)
  with out show ?thesis by auto
qed

text \<open>
  C26. The policy is a set of rules: evaluating it walks the rules in order and stops at the
  first deny, but the outcome is the one of the order-free reading (deny if any deny rule
  applies, otherwise ask if any ask rule applies, otherwise allow if any allow rule applies,
  otherwise no opinion), and two configurations with the same rules in any order and
  multiplicity decide alike, up to the text of the reason.
\<close>

theorem policy_order_free:
  "let d = policy_evaluate e (compiled_policy_new e config) access
   in ((\<exists>r. d = Some (Reject r)) \<longleftrightarrow> applying e config access ActDeny)
      \<and> (d = Some Ask \<longleftrightarrow> \<not> applying e config access ActDeny \<and> applying e config access ActAsk)
      \<and> (d = Some Allow \<longleftrightarrow> \<not> applying e config access ActDeny \<and> \<not> applying e config access ActAsk \<and> applying e config access ActAllow)
      \<and> (d = None \<longleftrightarrow> (\<nexists>act. applying e config access act))
      \<and> (set (pc_rules other) = set (pc_rules config) \<longrightarrow> strength (policy_evaluate e (compiled_policy_new e other) access) = strength d)"
proof -
  have acts: "(\<exists>act. applying e config access act) \<longleftrightarrow>
      applying e config access ActDeny \<or> applying e config access ActAsk \<or> applying e config access ActAllow"
    by (metis rule_action.exhaust)
  have spec: "strength (policy_evaluate e (compiled_policy_new e c) access) =
      (if applying e c access ActDeny then 3 else if applying e c access ActAsk then 2 else if applying e c access ActAllow then 1 else 0)" for c
    using find_deny [of e access c] by (auto simp: evaluate_spec split: option.split)
  have same: "set (pc_rules other) = set (pc_rules config) \<Longrightarrow> applying e other access = applying e config access"
    by (auto simp: applying_def list_ex_iff fun_eq_iff)
  show ?thesis
    unfolding Let_def acts using find_deny [of e access config] spec same by (auto simp: evaluate_spec split: option.split)
qed

theorem policy_order_free_witness:
  "strength (policy_evaluate demo_perm_env (compiled_policy_new demo_perm_env (demo_config\<lparr>pc_rules := rev (pc_rules demo_config)\<rparr>)) (AccBash ''rm x'')) = 3"
  using policy_order_free [of demo_perm_env demo_config "AccBash ''rm x''" "demo_config\<lparr>pc_rules := rev (pc_rules demo_config)\<rparr>"] demo_rules(1)
  by (auto simp: Let_def)

text \<open>
  C27. A deny that is written in a settings source is enforced. Written means: a string that
  parses as a rule, in the deny list of the [permission] section of a requirements.toml layer,
  of a managed configuration layer, of the config.toml of the user or of one on the way from the
  working directory to the repository root; in the permissions.deny list of a vendor settings
  file of the project or the home directory, while the import marker does not switch these files
  off; or in the deny list of the managed settings file, when its permissions deserialize as a
  whole (one entry that is not a string drops all of them). Whatever else the sources say, with
  or without the pin, resolution then yields a policy, and every session that runs under it
  answers PolicyDeny to a request the rule covers, in every mode.
\<close>

theorem settings_deny_is_enforced:
  assumes "written_deny l h layers managed_layers managed_path cwd s" "parse_permission_rule s ActDeny = Inr rule"
    and "rule_applies (ho_perm h) access rule" "direct_covers (ho_perm h) rq access" "\<not> an_gone_at_dequeue an"
  shows "\<exists>r. resolve_permissions_with_provenance l h layers managed_layers managed_path cwd = Some r \<and>
    (\<forall>cfg. under_policy (ho_perm h) (rp_config r) cfg \<longrightarrow> denied a (rq_access rq) (handle_request (ho_perm h) cfg rq an a))"
proof -
  obtain r where r: "resolve_permissions_with_provenance l h layers managed_layers managed_path cwd = Some r" "rule \<in> set (pc_rules (rp_config r))"
    using written_deny_resolved [OF assms(1,2)] by blast
  have "applying (ho_perm h) (rp_config r) access ActDeny" using r(2) parse_action [OF assms(2)] assms(3) by (auto simp: applying_def list_ex_iff)
  then show ?thesis using r(1) direct.denies [OF assms(4)] gates_deny [OF _ _ assms(5)] by blast
qed

theorem settings_deny_is_enforced_witness:
  "\<exists>r. resolve_permissions_with_provenance demo_lib demo_machine demo_layers [] None ''/w/repo'' = Some r \<and>
    (\<forall>cfg. under_policy demo_perm_env (rp_config r) cfg \<longrightarrow>
       denied (demo_actor True) (AccRead (Some ''link'')) (handle_request demo_perm_env cfg (demo_request (AccRead (Some ''link''))) (demo_answers AllowOnce) (demo_actor True)))"
  using settings_deny_is_enforced [OF demo_secret_written demo_secret_rule(1), of "AccRead (Some ''/w/secret'')"
      "demo_request (AccRead (Some ''link''))" "demo_answers AllowOnce" "demo_actor True"] demo_secret_rule(2) demo_link_covered
  by (simp add: demo_machine_perm demo_answers_def demo_request_def)

text \<open>
  C28. Under the administrator pin only an administrator can open everything: when some
  requirements.toml layer sets disable_bypass_permissions_mode = true or yolo = false, every
  rule of the resolved policy that the code takes for a catch-all allow, and every allow rule
  that in fact applies to all shell commands, to all MCP tools or to all URLs, was written in
  the [permission] section of a system requirements layer or in the allow list of the managed
  settings file. A catch-all of the requirements, the configuration, the project or the home
  directory of the user does not survive, and no default mode, the managed one included,
  contributes one.
\<close>

theorem pin_drops_untrusted_catchalls:
  assumes "resolve_permissions_with_provenance l h layers managed_layers managed_path cwd = Some r" "y \<in> set layers"
    and "requirements_lock_bool (toml_get (rl_value y) ''ui'') ''disable_bypass_permissions_mode'' = Some True \<or>
         requirements_lock_bool (toml_get (rl_value y) ''ui'') ''yolo'' = Some False"
    and "rule \<in> set (pc_rules (rp_config r))" "is_catchall_allow (ho_perm h) rule \<or> opens_all (ho_perm h) rule"
  shows "(\<exists>sys\<in>set layers. rl_is_system sys \<and> rule \<in> set (toml_rules l (rl_value sys))) \<or>
    (\<exists>path v p s. managed_path = Some path \<and> read_managed_settings_json h path = Some v \<and>
       Option.bind (json_get v ''permissions'') (rv_permissions l) = Some p \<and> s \<in> set (pp_allow p) \<and> parse_permission_rule s ActAllow = Inr rule)"
proof -
  have "resolve_yolo_policy_block layers \<noteq> None" using assms(2,3) pin_iff by blast
  moreover have "is_catchall_allow (ho_perm h) rule" using assms(5) opens_all_catchall by blast
  ultimately show ?thesis by (rule pinned_origin [OF assms(1) _ assms(4)])
qed

theorem pin_drops_untrusted_catchalls_witness:
  "\<exists>r. resolve_permissions_with_provenance demo_lib demo_machine demo_layers [] None ''/w/repo'' = Some r \<and>
     allow_all_of ForWebFetch \<in> set (pc_rules (rp_config r)) \<and> allow_all_of ForBash \<notin> set (pc_rules (rp_config r))"
proof -
  obtain r where r: "resolve_permissions_with_provenance demo_lib demo_machine demo_layers [] None ''/w/repo'' = Some r"
    "allow_all_of ForWebFetch \<in> set (pc_rules (rp_config r))" by (rule demo_resolved)
  have "\<not> list_ex (\<lambda>sys. rl_is_system sys \<and> allow_all_of ForBash \<in> set (toml_rules demo_lib (rl_value sys))) demo_layers"
    "is_catchall_allow demo_perm_env (allow_all_of ForBash)" by code_simp+
  then have "allow_all_of ForBash \<notin> set (pc_rules (rp_config r))"
    using pin_drops_untrusted_catchalls [OF r(1) demo_pin(1), of "allow_all_of ForBash"] demo_pin(2) by (auto simp: list_ex_iff demo_machine_perm)
  with r show ?thesis by blast
qed

text \<open>
  C29. The default mode of the managed settings outranks the files of the user and the project:
  when the managed settings set a mode, the prompt policy of the resolved configuration is that
  of this mode, and every rule attributed to a vendor settings file was written in one of them;
  the modes these files set contribute nothing.
\<close>

theorem managed_mode_wins:
  assumes "resolve_permissions_with_provenance l h layers managed_layers managed_path cwd = Some r"
    and "ms_default_mode (load_managed_settings l h managed_path) = Some m"
  shows "pc_prompt_policy (rp_config r) = dme_prompt_policy (mode_effects m) \<and>
    (\<forall>(rule, src)\<in>set (zip (pc_rules (rp_config r)) (rp_sources r)). \<forall>p. src = SrcSettings p \<longrightarrow>
       (\<exists>path\<in>set (find_claude_settings_paths h cwd). rule \<in> set (file_rules h path)))"
proof -
  let ?inp = "live_inputs l h layers managed_layers managed_path"
  note res = assms(1) [unfolded resolve_permissions_with_provenance_def]
  have own: "ms_default_mode (ri_managed ?inp) = Some m" using assms(2) by (simp add: live_inputs_def)
  have "\<exists>path\<in>set (find_claude_settings_paths h cwd). rule \<in> set (file_rules h path)"
    if mem: "(rule, SrcSettings p) \<in> set (zip (pc_rules (rp_config r)) (rp_sources r))" for rule p
  proof -
    from mem obtain so where so: "so \<in> set (all_source_rules l h layers cwd ?inp)" "so_source so = SrcSettings p" "so_value so = rule"
      unfolding resolved_rules(1) [OF res] by (auto simp: kept_rules)
    obtain config sk path where "claude_part h cwd ?inp = Some (config, sk, path)" "rule \<in> set (pc_rules config)"
      using settings_source [OF so(1,2)] so(3) by metis
    with own show ?thesis using owned_mode_rules by (force simp: claude_part_def split: if_splits)
  qed
  then show ?thesis using resolved_rules(3) [OF res] own by (auto simp: resolved_prompt_policy_def)
qed

theorem managed_mode_wins_witness:
  "\<exists>r. resolve_permissions_with_provenance demo_lib demo_managed_host [] [] (Some ''/etc/managed.json'') ''/w/repo'' = Some r \<and>
     pc_prompt_policy (rp_config r) = PromptDeny"
proof -
  have own: "ms_default_mode (load_managed_settings demo_lib demo_managed_host (Some ''/etc/managed.json'')) = Some ModeDontAsk" by code_simp
  have "resolve_permissions_with_provenance demo_lib demo_managed_host [] [] (Some ''/etc/managed.json'') ''/w/repo'' \<noteq> None" by code_simp
  then obtain r where r: "resolve_permissions_with_provenance demo_lib demo_managed_host [] [] (Some ''/etc/managed.json'') ''/w/repo'' = Some r" by blast
  from managed_mode_wins [OF r own] r show ?thesis by simp
qed

text \<open>
  C30. A denied MCP host is denied under every spelling: when the managed settings deny a host
  name, a server whose URL names that host is denied and not allowed, whatever the scheme, the
  user part, the case of the host, trailing dots, the port, the path, the query and the
  fragment, whatever the allow list says and by HTTP and SSE alike.
\<close>

theorem denied_host_is_denied:
  assumes "url_parts_ok scheme user hostname port tail" "to_ascii_lowercase b = to_ascii_lowercase hostname"
    and "plain_text_of (CHR 0x40 # '':/'') b" "b \<noteq> []" "last b \<noteq> CHR ''.''" "PolicyHttp b \<in> set deny"
    and "glob_ci h (to_ascii_lowercase b) (to_ascii_lowercase b)"
    and "server \<in> {McpHttp name (url_of scheme user hostname dots port tail), McpSse name (url_of scheme user hostname dots port tail)}"
  shows "is_server_denied h (mcp_allowlist_new allow deny src) server \<and> \<not> is_server_allowed h (mcp_allowlist_new allow deny src) server"
proof -
  have "url_deny_matches h b (url_of scheme user hostname dots port tail)" by (rule host_denied [OF assms(1-5,7)])
  moreover have "b \<in> set (ma_deny_url_patterns (mcp_allowlist_new allow deny src))"
    using assms(6) by (force simp: mcp_allowlist_new_def split_mcp_entries_def Let_def List.map_filter_def image_iff)
  ultimately have "is_server_denied h (mcp_allowlist_new allow deny src) server"
    using assms(8) by (auto simp: is_server_denied_def list_ex_iff)
  moreover have "mcp_is_restricted (mcp_allowlist_new allow deny src)"
    using assms(6) by (auto simp: mcp_is_restricted_def mcp_allowlist_new_def split_mcp_entries_def Let_def)
  ultimately show ?thesis by (simp add: is_server_allowed_def)
qed

theorem denied_host_is_denied_witness:
  "\<not> is_server_allowed demo_machine (mcp_allowlist_new [PolicyHttp ''*''] [PolicyHttp ''evil.com''] None)
     (McpHttp ''x'' (url_of ''http'' ''me'' ''EVIL.com'' 1 ''8080'' ''/a?b''))"
proof -
  have "url_parts_ok ''http'' ''me'' ''EVIL.com'' ''8080'' ''/a?b''" "to_ascii_lowercase ''evil.com'' = to_ascii_lowercase ''EVIL.com''"
    "plain_text_of (CHR 0x40 # '':/'') ''evil.com''" "''evil.com'' \<noteq> []" "last ''evil.com'' \<noteq> CHR ''.''"
    "PolicyHttp ''evil.com'' \<in> set [PolicyHttp ''evil.com'']" "glob_ci demo_machine (to_ascii_lowercase ''evil.com'') (to_ascii_lowercase ''evil.com'')"
    by code_simp+
  from denied_host_is_denied [OF this, where name = "''x''" and dots = 1] show ?thesis by simp
qed

text \<open>
  C31. Every pattern can be written as a rule: a pattern that begins and ends with a printable
  ASCII character other than a blank (and that is not the wildcard, a domain pattern or, for
  Bash, a trailing colon-star) put into the form Tool(pattern), with its parentheses and
  backslashes escaped by a backslash, is read back by parse_permission_rule as a rule for that
  tool with exactly that pattern, whatever parentheses and backslashes it contains.
\<close>

theorem rule_text_roundtrip:
  assumes "writable tool p"
  shows "parse_permission_rule (rule_text tool p) action =
    Inr \<lparr>pr_action = action, pr_tool = tool, pr_pattern = Some p, pr_pattern_mode = GlobMode\<rparr>"
  by (rule parse_rule_text [OF assms])

theorem rule_text_roundtrip_witness:
  "parse_permission_rule (rule_text ForBash ''echo (a)'') ActDeny =
    Inr \<lparr>pr_action = ActDeny, pr_tool = ForBash, pr_pattern = Some ''echo (a)'', pr_pattern_mode = GlobMode\<rparr>"
proof -
  have "writable ForBash ''echo (a)''" by code_simp
  then show ?thesis by (rule rule_text_roundtrip)
qed

section \<open>Folder trust\<close>

text \<open>
  C32. Repo-local code runs only with the consent of the user or because the gate was off: take
  any run of the folder-trust gate that starts with an empty cache, in which folders are
  granted, revoked (by this or another process), resolved, prompted for and checked in any
  order, the gate is switched on and off (by the environment, the configuration files or the
  remote setting), writes of the trust store may fail, and the files of the machine change
  arbitrarily between two calls. When, with the gate switched on, project_scope_allowed lets the
  project scope of a directory through while the directory has repo-local configuration that can
  execute code and the workspace is not the home or root directory, then the workspace lies at
  or below a folder that the user has trusted (or that the store recorded as trusted at the
  start), or this same workspace was resolved or checked earlier in the process at a moment when
  the gate was off, whose grant stays cached. In a run in which the gate is never off, the first
  always holds.
\<close>

theorem repo_code_needs_consent:
  assumes "trust_start (tc_io c) (w0, C0, {})" "(trust_step (tc_io c))\<^sup>*\<^sup>* (w0, C0, {}) (w, C, ungated)"
    and "feature_enabled (tw_host w) (tc_stamped c) None" "fst (project_scope_allowed c w cwd)"
    and "repo_configs_present (tw_host w) cwd" "\<not> is_unsafe_trust_root (tw_host w) (workspace_key (tw_host w) cwd)"
  shows "(\<exists>a\<in>C. path_starts_with (workspace_key (tw_host w) cwd) a) \<or> (\<exists>a\<in>ungated. path_eq (workspace_key (tw_host w) cwd) a)"
  using allowed_why [OF gatekeeper.inv_run [OF assms(1,2)] assms(3,4)] assms(5,6) by (auto simp: opened_def consented_def)

theorem repo_code_needs_consent_witness:
  "\<exists>a\<in>{''/w/repo''}. path_starts_with (workspace_key demo_machine ''/w/repo'') a"
proof -
  have start: "trust_start (tc_io demo_call) (demo_trust_world, {}, {})"
    using demo_format_ok demo_machine_ok by (simp add: trust_start_def demo_trust_world_def demo_call_def read_doc_def)
  have "trust_step (tc_io demo_call) (demo_trust_world, {}, {})
      (grant_folder_trust demo_call demo_trust_world ''/w/repo'', insert (workspace_key (tw_host demo_trust_world) ''/w/repo'') {}, {})"
    by (rule trust_step.grant) simp
  then have run: "(trust_step (tc_io demo_call))\<^sup>*\<^sup>* (demo_trust_world, {}, {}) (demo_granted, {''/w/repo''}, {})"
    using demo_key by (simp add: demo_granted_def demo_trust_world_def)
  show ?thesis
    using repo_code_needs_consent [OF start run, of "''/w/repo''"] demo_gated demo_check demo_safe demo_key
    by (simp add: demo_granted_file demo_call_def)
qed

text \<open>
  C33. A revocation takes effect at once: in a release build (in a local build the gate is
  inert), when the user revokes the trust of a workspace that is not the home or root directory
  and the trust store can be written, the next check of the same process blocks the project
  scope, whatever was cached or recorded before and although cached grants are otherwise never
  read again.
\<close>

theorem revoked_folder_is_gated:
  assumes "store_format_ok (tc_io c)" "host_ok (tw_host w)" "\<not> folder_trust_inert (tw_host w) (tc_stamped c)"
    and "\<not> is_unsafe_trust_root (tw_host w) (workspace_key (tw_host w) cwd)"
    and "write_goes_through c w (workspace_key (tw_host w) cwd) False"
  shows "\<not> fst (project_scope_allowed c (snd (revoke_folder_trust c w cwd)) cwd)"
  by (rule revoke_seen [OF assms(1,3,4,2,5)])

theorem revoked_folder_is_gated_witness:
  "\<not> fst (project_scope_allowed demo_call (snd (revoke_folder_trust demo_call demo_granted ''/w/repo'')) ''/w/repo'')"
proof -
  have "write_goes_through demo_call demo_granted ''/w/repo'' False" by code_simp
  then show ?thesis
    using revoked_folder_is_gated [of demo_call demo_granted "''/w/repo''"] demo_format_ok demo_machine_ok demo_gated demo_safe demo_key
    by (simp add: demo_granted_file demo_call_def)
qed

text \<open>
  C34. The single scan over the records of the trust store computes the most specific decision:
  a folder is trusted exactly when some record counts for it and all the deepest of these say
  so. A record counts when the components of its folder are the first components of the
  canonical key (so that it is at or above it), when it is absolute and has a component below
  the root, and when its canonical form is not the home directory. So relative paths, the root
  and the home directory never count, the result does not depend on the order of the records,
  and contradictory spellings of one folder fail closed. The specification is written over path
  components and uses none of the predicates of the scan.
\<close>

theorem trust_is_most_specific:
  "is_trusted h s key \<longleftrightarrow> deepest_agree h (ts_doc s) (canonicalize_or_owned h key)"
  by (rule is_trusted_deepest)

text \<open>
  C35. Without a decision no settings file of the repository changes the environment of a
  session (which is injected into every subprocess): when the gate is on, the workspace is not
  the home or root directory, the trust store does not trust it and no grant of it is cached,
  the variables that a new session takes from the settings files are exactly those of the
  settings files in the home directory, the local file before the shared one, or none when the
  import marker is set. This holds for project settings in every directory between the working
  directory and the repository root, because the scan of the gate sees every file the loader
  reads, provided that those of these paths that can be read are regular files (the scan asks
  is_file, the loader only reads).
\<close>

theorem project_env_is_gated:
  assumes "feature_enabled (tw_host w) (tc_stamped c) None" "\<not> is_unsafe_trust_root (tw_host w) (workspace_key (tw_host w) cwd)"
    and "\<not> store_trusts c w (workspace_key (tw_host w) cwd)" "cached w (workspace_key (tw_host w) cwd) \<noteq> Some True"
    and "\<forall>p\<in>set (collect_project_claude_paths (tw_host w) cwd). \<forall>content. ho_read (tw_host w) p = ReadOk content \<longrightarrow> ho_is_file (tw_host w) p"
  shows "fst (session_claude_env c w cwd) = home_settings_env (tw_host w)"
  using assms by (blast intro: undecided_env)

theorem project_env_is_gated_witness:
  "load_claude_env_with_project demo_machine ''/w/repo'' True ''BASH_ENV'' = Some ''x'' \<and>
   fst (session_claude_env demo_call demo_trust_world ''/w/repo'') = home_settings_env demo_machine \<and> home_settings_env demo_machine ''BASH_ENV'' = None"
proof -
  have "load_claude_env_with_project demo_machine ''/w/repo'' True ''BASH_ENV'' = Some ''x''" "home_settings_env demo_machine ''BASH_ENV'' = None"
    by code_simp+
  moreover have "\<not> store_trusts demo_call demo_trust_world ''/w/repo''" "cached demo_trust_world ''/w/repo'' \<noteq> Some True" by code_simp+
  moreover have "\<forall>p content. ho_read demo_machine p = ReadOk content \<longrightarrow> ho_is_file demo_machine p" by (simp add: demo_machine_def)
  moreover have "tw_host demo_trust_world = demo_machine" "tc_stamped demo_call" by (simp_all add: demo_trust_world_def demo_call_def)
  ultimately show ?thesis
    using project_env_is_gated [of demo_trust_world demo_call "''/w/repo''"] demo_gated demo_safe demo_key by simp
qed

section \<open>The project file\<close>

text \<open>
  C36. Writing a graph to the project file and loading it gives the same graph back, header,
  nodes and their order, whatever the file held before, when every file operation succeeds and
  the encoder produces one non-blank line per value that decodes to the value.
\<close>

theorem project_file_roundtrip:
  assumes "serde_faithful sd st" "wr_mkdir io = None" "wr_create io = None" "wr_write io = None" "wr_sync io = None" "wr_replace io = None"
  shows "\<exists>content. project sd io st file = (Inr (), Some content) \<and> load sd dir (Inr (Some content)) = Inr (Some st)"
  using load_project_text [OF assms(1), of dir] assms(2-6) by (auto simp: project_def)

theorem project_file_roundtrip_witness:
  "\<exists>content. project demo_serde (w_write demo_world 0) demo_state None = (Inr (), Some content) \<and>
    load demo_serde ''/p/.kigi'' (Inr (Some content)) = Inr (Some demo_state)"
  by (rule project_file_roundtrip [OF demo_serde_faithful]) (simp_all add: demo_world_def)

section \<open>Plans, replans and optimizations\<close>

text \<open>
  C37. A plan that parse_and_validate accepts becomes a well-formed graph: distinct ids,
  dependencies resolved, no cycle, every node Waiting, a dependency listed before its
  dependents, at most 25 nodes, and one terminal node gated on all others; promoting it gives a
  state of the scheduler.
\<close>

theorem accepted_plan_correct:
  assumes "parse_and_validate from_str json objective = Some (Inr nodes)"
  shows "wf_nodes nodes \<and> final_gate nodes \<and> deps_before nodes \<and> length nodes \<le> 25 \<and>
    (\<forall>n \<in> set nodes. n_status n = Waiting) \<and> graph_ok (promote_ready nodes)"
proof (intro conjI)
  obtain planned order where p: "plan_ok (map dedup_deps planned) order"
    and nodes: "nodes = plan_nodes (map dedup_deps planned) order @ [final_verification_node objective (plan_nodes (map dedup_deps planned) order)]"
    using assms by (auto simp: parse_and_validate_Inr Let_def)
  show wf: "wf_nodes nodes" "final_gate nodes" "deps_before nodes" and w: "\<forall>n \<in> set nodes. n_status n = Waiting"
    unfolding nodes using plan_wf [OF p refl] plan_deps_before [OF p refl] plan_waiting [OF p refl] by blast+
  show "length nodes \<le> 25"
    using p plan_okD(5) [OF p] by (simp add: nodes plan_nodes_def plan_ok_def MAX_GRAPH_NODES_def)
  show "graph_ok (promote_ready nodes)"
    using promote_ready_sched [OF waiting_settled [OF w]] wf
      wf_nodes_shape [OF promote_ready_shape] final_gate_shape [OF promote_ready_shape] by (auto simp: graph_ok_def)
qed

theorem accepted_plan_correct_witness:
  "deps_before demo_nodes \<and> graph_ok (promote_ready demo_nodes)"
  using accepted_plan_correct [OF demo_plan_valid] by blast

section \<open>The goal tracker\<close>

text \<open>
  C38. In every state the goal tracker reaches, restarts from arbitrary snapshots included, the
  elapsed-time clock runs exactly while the goal is Active, the two token counters are i64
  values and the verifier id is twelve hexadecimal digits.
\<close>

theorem goal_tracker_typed:
  assumes "goal_step\<^sup>*\<^sup>* (goal_tracker_new dir) t"
  shows "(gt_active_since t \<noteq> None \<longleftrightarrow> goal_status_of t = Some Active) \<and>
    (\<forall>g. gt_orchestration t = Some g \<longrightarrow> in_i64 (o_tokens_used_high_water g) \<and> in_i64 (o_parent_tokens_spent g) \<and>
      canonical_verifier_id (o_verifier_id g))"
proof -
  have "goal_ok t" using goal.inv_run [OF _ assms] by blast
  then show ?thesis by (auto simp: goal_ok_def goal_is_active_def goal_status_of_def typed_def split: option.splits)
qed

theorem goal_tracker_typed_witness:
  "gt_active_since demo_goal \<noteq> None \<longleftrightarrow> goal_status_of demo_goal = Some Active"
proof -
  have "canonical_verifier_id (h_fresh_id demo_host)" by (simp add: demo_host_def) code_simp
  then have "goal_step\<^sup>*\<^sup>* (goal_tracker_new ''/s'') demo_goal"
    unfolding demo_goal_def by (blast intro: goal_step.create)
  then show ?thesis using goal_tracker_typed by blast
qed

section \<open>Dead ends and losses\<close>

text \<open>
  C39. A goal that was active when the process stopped is restored as UserPaused, but resume
  does not set the phase back to Executing, so that after a resume a second restart restores the
  goal as Active with its clock running instead of paused.
\<close>

theorem resumed_goal_survives_restart_active:
  assumes "o_status snap = Active" "o_phase snap \<noteq> Idle"
    and "gt_orchestration (snd (goal_resume ck (goal_from_snapshot h ck dir snap))) = Some resumed"
  shows "goal_status_of (goal_from_snapshot h ck dir snap) = Some UserPaused \<and> o_status resumed = Active \<and>
    goal_status_of (goal_from_snapshot h' ck' dir resumed) = Some Active \<and>
    gt_active_since (goal_from_snapshot h' ck' dir resumed) = Some (inst ck')"
proof -
  let ?t = "goal_from_snapshot h ck dir snap"
  obtain g where g: "gt_orchestration ?t = Some g" by (simp add: goal_from_snapshot_def Let_def)
  have st: "o_status g = UserPaused" "o_phase g = Idle"
    using g assms(1,2) by (auto simp: goal_from_snapshot_def Let_def split: goal_phase.splits)
  have "o_status resumed = Active" "o_phase resumed = Idle"
    using assms(3) g st by (auto simp: goal_resume_def Let_def record_event_def goal_append_history_def reset_strategist_fields_def
        reset_classifier_stall_fields_def)
  then show ?thesis using g st by (simp add: goal_from_snapshot_def [of h'] goal_status_of_def Let_def)
qed

theorem resumed_goal_survives_restart_active_witness:
  "\<exists>snap resumed. gt_orchestration demo_goal = Some snap \<and>
    gt_orchestration (snd (goal_resume demo_clock (goal_from_snapshot demo_host demo_clock ''/s'' snap))) = Some resumed \<and>
    goal_status_of (goal_from_snapshot demo_host demo_clock ''/s'' resumed) = Some Active"
proof -
  obtain snap where s: "gt_orchestration demo_goal = Some snap" "o_status snap = Active" "o_phase snap = Executing"
    by (simp add: demo_goal_def create_goal_def record_event_def goal_append_history_def Let_def goal_tracker_new_def fresh_orchestration_def)
  obtain resumed where r: "gt_orchestration (snd (goal_resume demo_clock (goal_from_snapshot demo_host demo_clock ''/s'' snap))) = Some resumed"
  proof -
    obtain g where "gt_orchestration (goal_from_snapshot demo_host demo_clock ''/s'' snap) = Some g" by (simp add: goal_from_snapshot_def Let_def)
    then show ?thesis using that by (cases "is_paused (o_status g)") (simp_all add: goal_resume_def Let_def record_event_def goal_append_history_def)
  qed
  show ?thesis using resumed_goal_survives_restart_active [OF s(2) _ r, of demo_host demo_clock] s r by auto
qed

text \<open>
  C40. A graph that is paused at the wrong moment does not come back. First, when the graph is
  active, the goal of its current node is already Complete, no other node is running, no node is
  ready and no discoveries are queued (the moment between the completion of the goal and the end
  of its round), /graph pause leaves the graph paused with this node Running on the Complete
  goal: the session is stranded. Second, from every stranded session, when budget is left, the
  claim of the project file succeeds and no extra budget is given, /graph resume ends with the
  graph InfraPaused, the same nodes in the same states and the session stranded again. So under
  these conditions no number of /graph resume commands gets the node out. An exhausted budget, a
  refused project claim, extra budget, queued discoveries and other running or ready nodes are
  not covered.
\<close>

theorem stranded_node_never_resumes:
  assumes "sess_inv w s"
  shows "(goal_ahead s \<longrightarrow> stranded (graph_pause_command w s)) \<and>
    (stranded s \<and> remaining_budget (ss_graph s) \<noteq> Some 0 \<and> fst (claim_project_graph_for_resume w s) = None \<longrightarrow>
      (\<exists>msg s'. resume_graph (Suc fuel) w None s = Some (Message msg, s') \<and> stranded s' \<and> graph_status (ss_graph s') = Some InfraPaused \<and>
         nodes_of (ss_graph s') = nodes_of (ss_graph s)))"
  using pause_strands [OF assms] stranded_resume [OF assms, of fuel] by blast

theorem stranded_node_never_resumes_witness:
  "stranded (graph_pause_command demo_world demo_finished) \<and>
   (\<exists>msg s'. resume_graph (Suc 0) demo_world None demo_stranded = Some (Message msg, s') \<and> stranded s' \<and>
    graph_status (ss_graph s') = Some InfraPaused)"
  using stranded_node_never_resumes [OF demo_finished_inv] demo_goal_ahead
    stranded_node_never_resumes [OF demo_stranded_inv, of 0] demo_stranded demo_stranded_budget demo_claim_ok by blast

end
